(* ===== verification/Prelude.thy ===== *)
theory Prelude
  imports Main "HOL-Library.Word"
begin

text \<open>
  Shared vocabulary of the development: names for the machine integers of the C code, the
  little-endian byte helpers every component repeats, the signed reading of a difference of two
  millisecond clocks, and generic lemmas on lists and words that the component theories use.

  Two collections steer automation: \<open>wire_simps\<close> holds the defining equations of the
  byte-level helpers, \<open>ring_simps\<close> the facts about indices modulo a capacity.
\<close>

unbundle bit_operations_syntax

type_synonym u8 = "8 word"
type_synonym u16 = "16 word"
type_synonym u32 = "32 word"
type_synonym u64 = "64 word"

named_theorems wire_simps "equations of the byte-level helpers"
named_theorems ring_simps "facts about indices modulo a capacity"

section \<open>Little-endian bytes\<close>

text \<open>
  The loop \<open>for (i = 0; i < n; i++) buf[i] = (uint8_t)(v >> (8 * i))\<close> that the C code writes in
  many places, and the reading of a byte list as a little-endian number.
\<close>

definition le_bytes :: "nat \<Rightarrow> 'a::len word \<Rightarrow> u8 list" where
  "le_bytes n v = map (\<lambda>i. ucast (drop_bit (8 * i) v)) [0..<n]"

fun le_word :: "u8 list \<Rightarrow> 'a::len word" where
  "le_word [] = 0"
| "le_word (b # bs) = ucast b OR push_bit 8 (le_word bs)"

lemma length_le_bytes [simp]: "length (le_bytes n v) = n"
  by (simp add: le_bytes_def)

lemma le_bytes_0 [simp]: "le_bytes 0 v = []"
  by (simp add: le_bytes_def)

lemma le_bytes_Suc: "le_bytes (Suc n) v = ucast v # le_bytes n (drop_bit 8 v)"
proof -
  have "map (\<lambda>i. ucast (drop_bit (8 * i) v)) [Suc 0..<Suc n]
      = map (\<lambda>i. ucast (drop_bit (8 * i) (drop_bit 8 v)) :: u8) [0..<n]"
    by (rule nth_equalityI) (simp_all add: algebra_simps del: upt_Suc)
  then show ?thesis
    by (simp add: le_bytes_def upt_conv_Cons del: upt_Suc)
qed

lemma ucast_or_push_take:
  "ucast (ucast (v :: 'a::len word) :: u8) OR push_bit 8 (take_bit m (drop_bit 8 v))
     = take_bit (8 + m) v"
  by (rule bit_word_eqI) (auto simp: bit_simps)

lemma le_word_le_bytes: "le_word (le_bytes n (v :: 'a::len word)) = take_bit (8 * n) v"
proof (induction n arbitrary: v)
  case 0
  then show ?case by simp
next
  case (Suc n)
  then show ?case by (simp add: le_bytes_Suc ucast_or_push_take)
qed

text \<open>A word survives the trip when the bytes cover its whole width.\<close>

lemma le_roundtrip: "LENGTH('a) \<le> 8 * n \<Longrightarrow> le_word (le_bytes n (v :: 'a::len word)) = v"
  by (simp add: le_word_le_bytes take_bit_word_beyond_length_eq)

lemma ucast_byte_or_push:
  "8 \<le> LENGTH('a::len) \<Longrightarrow> (ucast ((ucast (b :: u8) :: 'a word) OR push_bit 8 w) :: u8) = b"
  by (rule bit_word_eqI) (auto simp: bit_simps)

lemma drop_byte_or_push:
  "8 + m \<le> LENGTH('a::len) \<Longrightarrow>
     drop_bit 8 ((ucast (b :: u8) :: 'a word) OR push_bit 8 (take_bit m w)) = take_bit m w"
proof (rule bit_word_eqI)
  fix n assume le: "8 + m \<le> LENGTH('a)" and "n < LENGTH('a)"
  then show "bit (drop_bit 8 ((ucast b :: 'a word) OR push_bit 8 (take_bit m w))) n
    = bit (take_bit m w) n"
    using bit_imp_le_length [of b "8 + n"] by (auto simp: bit_simps)
qed

lemma take_bit_le_word: "take_bit (8 * length bs) (le_word bs :: 'a::len word) = le_word bs"
proof (induction bs)
  case Nil
  then show ?case by simp
next
  case (Cons b bs)
  have "take_bit (8 * length (b # bs)) (push_bit 8 (le_word bs :: 'a word))
      = push_bit 8 (take_bit (8 * length bs) (le_word bs))"
    by (simp add: take_bit_push_bit)
  moreover have "take_bit (8 * length (b # bs)) (ucast b :: 'a word) = ucast b"
    by (rule bit_word_eqI) (auto simp: bit_simps dest: bit_imp_le_length)
  ultimately show ?case
    using Cons.IH by simp
qed

lemma le_bytes_le_word:
  "8 * length bs \<le> LENGTH('a::len) \<Longrightarrow> le_bytes (length bs) (le_word bs :: 'a word) = bs"
proof (induction bs)
  case Nil
  then show ?case by simp
next
  case (Cons b bs)
  then have le: "8 + 8 * length bs \<le> LENGTH('a)" by simp
  have "drop_bit 8 (le_word (b # bs) :: 'a word) = le_word bs"
    using drop_byte_or_push [OF le, of b "le_word bs"] by (simp add: take_bit_le_word)
  moreover have "(ucast (le_word (b # bs) :: 'a word) :: u8) = b"
    using le by (simp add: ucast_byte_or_push)
  ultimately show ?case
    using Cons le by (simp add: le_bytes_Suc)
qed

text \<open>Two byte lists of the same length that read as the same number are equal.\<close>

lemma le_word_inject:
  assumes "length xs = length ys" and "8 * length xs \<le> LENGTH('a::len)"
    and "(le_word xs :: 'a word) = le_word ys"
  shows "xs = ys"
proof -
  have "xs = le_bytes (length xs) (le_word xs :: 'a word)"
    using assms(2) by (simp add: le_bytes_le_word)
  also have "\<dots> = le_bytes (length ys) (le_word ys :: 'a word)"
    using assms by simp
  also have "\<dots> = ys"
    using assms by (subst le_bytes_le_word) simp_all
  finally show ?thesis .
qed

lemma xor_cancel [simp]:
  "x XOR z = y XOR z \<longleftrightarrow> x = (y :: 'a::len word)"
  "z XOR x = z XOR y \<longleftrightarrow> x = (y :: 'a::len word)"
proof -
  have "(x XOR z) XOR z = x" "(y XOR z) XOR z = y"
    by (simp_all add: xor.assoc)
  then show "x XOR z = y XOR z \<longleftrightarrow> x = y" by metis
  then show "z XOR x = z XOR y \<longleftrightarrow> x = y" by (simp add: xor.commute)
qed

lemma u32_succ_nonzero: "x \<noteq> 0xFFFFFFFF \<Longrightarrow> x + 1 \<noteq> (0 :: u32)"
proof
  assume "x \<noteq> 0xFFFFFFFF" "x + 1 = 0"
  then have "x = - 1" by (simp add: eq_neg_iff_add_eq_0)
  then show False using \<open>x \<noteq> 0xFFFFFFFF\<close> by simp
qed

lemma u32_less_succ: "x \<noteq> 0xFFFFFFFF \<Longrightarrow> x < x + (1 :: u32)"
  using unatSuc [of x] u32_succ_nonzero [of x] by (simp add: word_less_nat_alt add.commute)

lemma word_of_nat_byte_eq:
  "k < 256 \<Longrightarrow> (word_of_nat k :: u8) = numeral n \<longleftrightarrow> k = numeral n mod 256"
  "k < 256 \<Longrightarrow> (word_of_nat k :: u8) = 0 \<longleftrightarrow> k = 0"
  using word_of_nat_eq_iff [where ?'a = 8, of k "numeral n"] word_of_nat_eq_iff [where ?'a = 8, of k 0]
  by (auto simp: take_bit_eq_mod)

lemma unat_byte_of_nat: "k < 256 \<Longrightarrow> unat (word_of_nat k :: u8) = k"
  by (simp add: unat_of_nat)

section \<open>Clock differences\<close>

text \<open>
  The code compares deadlines with \<open>(int32_t)(now - deadline) >= 0\<close>: the difference of two
  wrapping millisecond counters read as a signed number.
\<close>

definition reached :: "u32 \<Rightarrow> u32 \<Rightarrow> bool" where
  "reached now deadline \<longleftrightarrow> 0 \<le> sint (now - deadline)"

lemma reached_refl [simp]: "reached t t"
  by (simp add: reached_def)

lemma sint_add_small:
  assumes "unat d < 2 ^ 31"
  shows "0 \<le> sint (d :: u32)"
proof -
  have "int (unat d) < 2 ^ 31"
    using assms by (metis of_nat_less_iff of_nat_numeral of_nat_power)
  then have "uint d < 2 ^ 31"
    by (simp only: uint_nat)
  then show ?thesis
    by (simp add: sint_uint bit_iff_odd)
qed

text \<open>A deadline set to at most \<open>2^31 - 1\<close> ms ago is seen as passed, even across a wrap.\<close>

lemma reached_after: "unat d < 2 ^ 31 \<Longrightarrow> reached (t + d) t"
  by (simp add: reached_def sint_add_small)

section \<open>Lists\<close>

lemma take_add_drop: "take m xs @ take n (drop m xs) = take (m + n) xs"
  by (simp add: take_add)

text \<open>\<open>memcpy(buf + off, data, n)\<close> into an array of the list's length.\<close>

definition memcpy_at :: "'a list \<Rightarrow> nat \<Rightarrow> 'a list \<Rightarrow> 'a list" where
  "memcpy_at buf off data = take off buf @ data @ drop (off + length data) buf"

lemma length_memcpy_at [simp]:
  "off + length data \<le> length buf \<Longrightarrow> length (memcpy_at buf off data) = length buf"
  by (simp add: memcpy_at_def)

lemma memcpy_at_Nil [simp]: "memcpy_at buf off [] = buf"
  by (simp add: memcpy_at_def)

lemma nth_memcpy_at:
  assumes "off + length data \<le> length buf"
  shows "memcpy_at buf off data ! i =
     (if off \<le> i \<and> i < off + length data then data ! (i - off) else buf ! i)"
  using assms by (auto simp: memcpy_at_def nth_append min_absorb2)

lemma nth_list_update_if:
  "i < length xs \<Longrightarrow> xs[i := v] ! j = (if j = i then v else xs ! j)"
  by auto

lemma mod_add_less_cap [ring_simps]:
  "(h :: nat) < n \<Longrightarrow> k \<le> n \<Longrightarrow> (h + k) mod n = (if h + k < n then h + k else h + k - n)"
  by (auto simp: mod_if)

end
