(* ===== verification/Defs.thy ===== *)
theory Defs
  imports Prelude
begin

text \<open>
  The wire vocabulary of \<open>src/protocol/include/rbp/defs.h\<close> under the names of the header file.
  Each constant has the width at which the code stores or compares it; sizes and capacities, which
  the code uses as array bounds, are natural numbers. They are abbreviations: a proof sees the
  number.
\<close>

abbreviation (input) RBP_MAGIC0 :: u8 where "RBP_MAGIC0 \<equiv> 0x52"
abbreviation (input) RBP_MAGIC1 :: u8 where "RBP_MAGIC1 \<equiv> 0x42"
abbreviation (input) RBP_MAJOR :: u8 where "RBP_MAJOR \<equiv> 3"
abbreviation (input) RBP_MINOR :: u8 where "RBP_MINOR \<equiv> 0"
abbreviation (input) RBP_HEADER_SIZE :: nat where "RBP_HEADER_SIZE \<equiv> 32"
abbreviation (input) RBP_MAX_PAYLOAD :: nat where "RBP_MAX_PAYLOAD \<equiv> 512"
abbreviation (input) RBP_MAX_DECODED :: nat where "RBP_MAX_DECODED \<equiv> 544"
abbreviation (input) RBP_MAX_FRAME_RAW :: nat where "RBP_MAX_FRAME_RAW \<equiv> 548"
abbreviation (input) RBP_MAX_ENCODED :: nat where "RBP_MAX_ENCODED \<equiv> 552"
abbreviation (input) RBP_COBS_RECV_MAX :: nat where "RBP_COBS_RECV_MAX \<equiv> 551"
abbreviation (input) RBP_KIND_REQUEST :: u8 where "RBP_KIND_REQUEST \<equiv> 1"
abbreviation (input) RBP_KIND_RESPONSE :: u8 where "RBP_KIND_RESPONSE \<equiv> 2"
abbreviation (input) RBP_KIND_EVENT :: u8 where "RBP_KIND_EVENT \<equiv> 3"
abbreviation (input) RBP_KIND_AUDIO :: u8 where "RBP_KIND_AUDIO \<equiv> 4"
abbreviation (input) RBP_STATUS_OK :: u16 where "RBP_STATUS_OK \<equiv> 0"
abbreviation (input) RBP_STATUS_ACCEPTED :: u16 where "RBP_STATUS_ACCEPTED \<equiv> 1"
abbreviation (input) RBP_STATUS_INVALID_ARGUMENT :: u16 where "RBP_STATUS_INVALID_ARGUMENT \<equiv> 2"
abbreviation (input) RBP_STATUS_UNSUPPORTED :: u16 where "RBP_STATUS_UNSUPPORTED \<equiv> 3"
abbreviation (input) RBP_STATUS_BAD_STATE :: u16 where "RBP_STATUS_BAD_STATE \<equiv> 4"
abbreviation (input) RBP_STATUS_BUSY :: u16 where "RBP_STATUS_BUSY \<equiv> 5"
abbreviation (input) RBP_STATUS_NOT_FOUND :: u16 where "RBP_STATUS_NOT_FOUND \<equiv> 6"
abbreviation (input) RBP_STATUS_TIMEOUT :: u16 where "RBP_STATUS_TIMEOUT \<equiv> 7"
abbreviation (input) RBP_STATUS_PAIRING_FAILED :: u16 where "RBP_STATUS_PAIRING_FAILED \<equiv> 8"
abbreviation (input) RBP_STATUS_LINK_LOST :: u16 where "RBP_STATUS_LINK_LOST \<equiv> 9"
abbreviation (input) RBP_STATUS_STORAGE_FAILED :: u16 where "RBP_STATUS_STORAGE_FAILED \<equiv> 10"
abbreviation (input) RBP_STATUS_RESOURCE_LIMIT :: u16 where "RBP_STATUS_RESOURCE_LIMIT \<equiv> 11"
abbreviation (input) RBP_STATUS_CANCELLED :: u16 where "RBP_STATUS_CANCELLED \<equiv> 12"
abbreviation (input) RBP_STATUS_DUPLICATE :: u16 where "RBP_STATUS_DUPLICATE \<equiv> 13"
abbreviation (input) RBP_STATUS_SESSION_MISMATCH :: u16 where "RBP_STATUS_SESSION_MISMATCH \<equiv> 14"
abbreviation (input) RBP_STATUS_DEVICE_ERROR :: u16 where "RBP_STATUS_DEVICE_ERROR \<equiv> 15"
abbreviation (input) RBP_STATUS_VOICE_UNAVAILABLE :: u16 where "RBP_STATUS_VOICE_UNAVAILABLE \<equiv> 16"
abbreviation (input) RBP_STATUS_VERSION_MISMATCH :: u16 where "RBP_STATUS_VERSION_MISMATCH \<equiv> 17"
abbreviation (input) RBP_OP_HELLO :: u16 where "RBP_OP_HELLO \<equiv> 0x0001"
abbreviation (input) RBP_OP_PING :: u16 where "RBP_OP_PING \<equiv> 0x0002"
abbreviation (input) RBP_OP_GET_DEVICE :: u16 where "RBP_OP_GET_DEVICE \<equiv> 0x0003"
abbreviation (input) RBP_OP_GET_PEER :: u16 where "RBP_OP_GET_PEER \<equiv> 0x0004"
abbreviation (input) RBP_OP_GET_OPERATION :: u16 where "RBP_OP_GET_OPERATION \<equiv> 0x0005"
abbreviation (input) RBP_OP_GET_STATS :: u16 where "RBP_OP_GET_STATS \<equiv> 0x0006"
abbreviation (input) RBP_OP_GOODBYE :: u16 where "RBP_OP_GOODBYE \<equiv> 0x0007"
abbreviation (input) RBP_OP_FIND_START :: u16 where "RBP_OP_FIND_START \<equiv> 0x0100"
abbreviation (input) RBP_OP_FIND_LIST :: u16 where "RBP_OP_FIND_LIST \<equiv> 0x0101"
abbreviation (input) RBP_OP_FIND_STOP :: u16 where "RBP_OP_FIND_STOP \<equiv> 0x0102"
abbreviation (input) RBP_OP_PAIR_BEGIN :: u16 where "RBP_OP_PAIR_BEGIN \<equiv> 0x0110"
abbreviation (input) RBP_OP_PAIR_REPLY :: u16 where "RBP_OP_PAIR_REPLY \<equiv> 0x0111"
abbreviation (input) RBP_OP_PAIR_CANCEL :: u16 where "RBP_OP_PAIR_CANCEL \<equiv> 0x0112"
abbreviation (input) RBP_OP_FORGET_PEER :: u16 where "RBP_OP_FORGET_PEER \<equiv> 0x0113"
abbreviation (input) RBP_OP_SET_RECONNECT :: u16 where "RBP_OP_SET_RECONNECT \<equiv> 0x0114"
abbreviation (input) RBP_OP_CONNECT_PEER :: u16 where "RBP_OP_CONNECT_PEER \<equiv> 0x0115"
abbreviation (input) RBP_OP_DISCONNECT :: u16 where "RBP_OP_DISCONNECT \<equiv> 0x0116"
abbreviation (input) RBP_OP_KEY_CATALOG :: u16 where "RBP_OP_KEY_CATALOG \<equiv> 0x0200"
abbreviation (input) RBP_OP_KEYS_SNAPSHOT :: u16 where "RBP_OP_KEYS_SNAPSHOT \<equiv> 0x0201"
abbreviation (input) RBP_OP_EVENTS_ENABLE :: u16 where "RBP_OP_EVENTS_ENABLE \<equiv> 0x0202"
abbreviation (input) RBP_OP_KEYS_STATE_EV :: u16 where "RBP_OP_KEYS_STATE_EV \<equiv> 0x0280"
abbreviation (input) RBP_OP_VOICE_ENABLE :: u16 where "RBP_OP_VOICE_ENABLE \<equiv> 0x0300"
abbreviation (input) RBP_OP_VOICE_STOP :: u16 where "RBP_OP_VOICE_STOP \<equiv> 0x0301"
abbreviation (input) RBP_OP_VOICE_START :: u16 where "RBP_OP_VOICE_START \<equiv> 0x0303"
abbreviation (input) RBP_OP_VOICE_STARTED_EV :: u16 where "RBP_OP_VOICE_STARTED_EV \<equiv> 0x0380"
abbreviation (input) RBP_OP_VOICE_DATA :: u16 where "RBP_OP_VOICE_DATA \<equiv> 0x0381"
abbreviation (input) RBP_OP_VOICE_ENDED_EV :: u16 where "RBP_OP_VOICE_ENDED_EV \<equiv> 0x0382"
abbreviation (input) RBP_OP_VOICE_FORMAT_EV :: u16 where "RBP_OP_VOICE_FORMAT_EV \<equiv> 0x0383"
abbreviation (input) RBP_OP_FIND_DONE_EV :: u16 where "RBP_OP_FIND_DONE_EV \<equiv> 0x0180"
abbreviation (input) RBP_OP_PAIR_PROMPT_EV :: u16 where "RBP_OP_PAIR_PROMPT_EV \<equiv> 0x0181"
abbreviation (input) RBP_OP_OPERATION_EV :: u16 where "RBP_OP_OPERATION_EV \<equiv> 0x0182"
abbreviation (input) RBP_OP_DEVICE_STATE_EV :: u16 where "RBP_OP_DEVICE_STATE_EV \<equiv> 0x0183"
abbreviation (input) RBP_TLV_T_U8 :: u8 where "RBP_TLV_T_U8 \<equiv> 1"
abbreviation (input) RBP_TLV_T_U16 :: u8 where "RBP_TLV_T_U16 \<equiv> 2"
abbreviation (input) RBP_TLV_T_U32 :: u8 where "RBP_TLV_T_U32 \<equiv> 3"
abbreviation (input) RBP_TLV_T_U64 :: u8 where "RBP_TLV_T_U64 \<equiv> 4"
abbreviation (input) RBP_TLV_T_BOOL :: u8 where "RBP_TLV_T_BOOL \<equiv> 5"
abbreviation (input) RBP_TLV_T_TEXT :: u8 where "RBP_TLV_T_TEXT \<equiv> 6"
abbreviation (input) RBP_TLV_T_BYTES :: u8 where "RBP_TLV_T_BYTES \<equiv> 7"
abbreviation (input) RBP_FEAT_ENCODED_VOICE :: u32 where "RBP_FEAT_ENCODED_VOICE \<equiv> 0x01"
abbreviation (input) RBP_FEAT_INTERACTIVE_PAIR :: u32 where "RBP_FEAT_INTERACTIVE_PAIR \<equiv> 0x02"
abbreviation (input) RBP_FEAT_BOND_SAVE :: u32 where "RBP_FEAT_BOND_SAVE \<equiv> 0x04"
abbreviation (input) RBP_FEAT_AUTO_RECONNECT :: u32 where "RBP_FEAT_AUTO_RECONNECT \<equiv> 0x08"
abbreviation (input) RBP_DEVSTATE_UNBOUND :: u8 where "RBP_DEVSTATE_UNBOUND \<equiv> 0"
abbreviation (input) RBP_DEVSTATE_DISCONNECTED :: u8 where "RBP_DEVSTATE_DISCONNECTED \<equiv> 1"
abbreviation (input) RBP_DEVSTATE_CONNECTING :: u8 where "RBP_DEVSTATE_CONNECTING \<equiv> 2"
abbreviation (input) RBP_DEVSTATE_PAIRING :: u8 where "RBP_DEVSTATE_PAIRING \<equiv> 3"
abbreviation (input) RBP_DEVSTATE_INITIALIZING :: u8 where "RBP_DEVSTATE_INITIALIZING \<equiv> 4"
abbreviation (input) RBP_DEVSTATE_READY :: u8 where "RBP_DEVSTATE_READY \<equiv> 5"
abbreviation (input) RBP_DEVSTATE_UNSUPPORTED :: u8 where "RBP_DEVSTATE_UNSUPPORTED \<equiv> 6"
abbreviation (input) RBP_DEVSTATE_ERROR :: u8 where "RBP_DEVSTATE_ERROR \<equiv> 7"
abbreviation (input) RBP_VOICE_ABSENT :: u8 where "RBP_VOICE_ABSENT \<equiv> 0"
abbreviation (input) RBP_VOICE_INITIALIZING :: u8 where "RBP_VOICE_INITIALIZING \<equiv> 1"
abbreviation (input) RBP_VOICE_READY :: u8 where "RBP_VOICE_READY \<equiv> 2"
abbreviation (input) RBP_VOICE_UNSUPPORTED :: u8 where "RBP_VOICE_UNSUPPORTED \<equiv> 3"
abbreviation (input) RBP_VOICE_FAILED :: u8 where "RBP_VOICE_FAILED \<equiv> 4"
abbreviation (input) RBP_VI_UNAVAILABLE :: u8 where "RBP_VI_UNAVAILABLE \<equiv> 0"
abbreviation (input) RBP_VI_ON_REQUEST :: u8 where "RBP_VI_ON_REQUEST \<equiv> 1"
abbreviation (input) RBP_VI_PTT :: u8 where "RBP_VI_PTT \<equiv> 2"
abbreviation (input) RBP_VI_HTT :: u8 where "RBP_VI_HTT \<equiv> 3"
abbreviation (input) RBP_PROMPT_CONFIRM_PAIR :: u8 where "RBP_PROMPT_CONFIRM_PAIR \<equiv> 0"
abbreviation (input) RBP_PROMPT_ENTER_PASSKEY :: u8 where "RBP_PROMPT_ENTER_PASSKEY \<equiv> 1"
abbreviation (input) RBP_PROMPT_CONFIRM_NUMBER :: u8 where "RBP_PROMPT_CONFIRM_NUMBER \<equiv> 2"
abbreviation (input) RBP_PROMPT_DISPLAY_PASSKEY :: u8 where "RBP_PROMPT_DISPLAY_PASSKEY \<equiv> 3"
abbreviation (input) RBP_FIND_DONE_EXPIRED :: u8 where "RBP_FIND_DONE_EXPIRED \<equiv> 0"
abbreviation (input) RBP_FIND_DONE_USER_STOP :: u8 where "RBP_FIND_DONE_USER_STOP \<equiv> 1"
abbreviation (input) RBP_FIND_DONE_PAIR_TAKEOVER :: u8 where "RBP_FIND_DONE_PAIR_TAKEOVER \<equiv> 2"
abbreviation (input) RBP_KEYS_STRUCT_SIZE :: nat where "RBP_KEYS_STRUCT_SIZE \<equiv> 24"
abbreviation (input) RBP_KEYS_KIND_SNAPSHOT :: u8 where "RBP_KEYS_KIND_SNAPSHOT \<equiv> 0"
abbreviation (input) RBP_KEYS_KIND_PHYSICAL :: u8 where "RBP_KEYS_KIND_PHYSICAL \<equiv> 1"
abbreviation (input) RBP_KEYS_KIND_RESET :: u8 where "RBP_KEYS_KIND_RESET \<equiv> 2"
abbreviation (input) RBP_KEYS_REASON_NONE :: u8 where "RBP_KEYS_REASON_NONE \<equiv> 0"
abbreviation (input) RBP_KEYS_REASON_LINK_LOST :: u8 where "RBP_KEYS_REASON_LINK_LOST \<equiv> 1"
abbreviation (input) RBP_KEYS_REASON_OVERFLOW :: u8 where "RBP_KEYS_REASON_OVERFLOW \<equiv> 2"
abbreviation (input) RBP_KEYS_REASON_ADAPTER_ERROR :: u8 where "RBP_KEYS_REASON_ADAPTER_ERROR \<equiv> 3"
abbreviation (input) RBP_END_NORMAL :: u8 where "RBP_END_NORMAL \<equiv> 0"
abbreviation (input) RBP_END_CONSUMER_DISABLED :: u8 where "RBP_END_CONSUMER_DISABLED \<equiv> 1"
abbreviation (input) RBP_END_LINK_LOST :: u8 where "RBP_END_LINK_LOST \<equiv> 2"
abbreviation (input) RBP_END_BUFFER_OVERRUN :: u8 where "RBP_END_BUFFER_OVERRUN \<equiv> 3"
abbreviation (input) RBP_END_INVALID_ENCODED_DATA :: u8 where "RBP_END_INVALID_ENCODED_DATA \<equiv> 4"
abbreviation (input) RBP_END_SOURCE_DATA_LOST :: u8 where "RBP_END_SOURCE_DATA_LOST \<equiv> 5"
abbreviation (input) RBP_END_DEVICE_ERROR :: u8 where "RBP_END_DEVICE_ERROR \<equiv> 6"
abbreviation (input) RBP_END_REQUESTED_STOP :: u8 where "RBP_END_REQUESTED_STOP \<equiv> 7"
abbreviation (input) RBP_END_CAPTURE_LIMIT :: u8 where "RBP_END_CAPTURE_LIMIT \<equiv> 8"
abbreviation (input) RBP_OPSTATE_PENDING :: u8 where "RBP_OPSTATE_PENDING \<equiv> 0"
abbreviation (input) RBP_OPSTATE_COMPLETED :: u8 where "RBP_OPSTATE_COMPLETED \<equiv> 1"
abbreviation (input) RBP_TAG_MESSAGE :: u8 where "RBP_TAG_MESSAGE \<equiv> 1"
abbreviation (input) RBP_TAG_UNCERTAIN :: u8 where "RBP_TAG_UNCERTAIN \<equiv> 2"
abbreviation (input) RBP_MAX_KEYS :: nat where "RBP_MAX_KEYS \<equiv> 64"
abbreviation (input) RBP_MAX_CANDIDATES :: nat where "RBP_MAX_CANDIDATES \<equiv> 8"
abbreviation (input) RBP_MAX_OPERATION_RESULTS :: nat where "RBP_MAX_OPERATION_RESULTS \<equiv> 4"
abbreviation (input) RBP_KEY_QUEUE_DEPTH :: nat where "RBP_KEY_QUEUE_DEPTH \<equiv> 8"
abbreviation (input) RBP_MAX_VOICE_BLOCK_SAMPLES :: nat where "RBP_MAX_VOICE_BLOCK_SAMPLES \<equiv> 246"
abbreviation (input) RBP_KEY_POWER :: u16 where "RBP_KEY_POWER \<equiv> 0x0001"
abbreviation (input) RBP_KEY_VOICE :: u16 where "RBP_KEY_VOICE \<equiv> 0x0002"
abbreviation (input) RBP_KEY_UP :: u16 where "RBP_KEY_UP \<equiv> 0x0003"
abbreviation (input) RBP_KEY_DOWN :: u16 where "RBP_KEY_DOWN \<equiv> 0x0004"
abbreviation (input) RBP_KEY_LEFT :: u16 where "RBP_KEY_LEFT \<equiv> 0x0005"
abbreviation (input) RBP_KEY_RIGHT :: u16 where "RBP_KEY_RIGHT \<equiv> 0x0006"
abbreviation (input) RBP_KEY_OK :: u16 where "RBP_KEY_OK \<equiv> 0x0007"
abbreviation (input) RBP_KEY_BACK :: u16 where "RBP_KEY_BACK \<equiv> 0x0008"
abbreviation (input) RBP_KEY_HOME :: u16 where "RBP_KEY_HOME \<equiv> 0x0009"
abbreviation (input) RBP_KEY_MENU :: u16 where "RBP_KEY_MENU \<equiv> 0x000A"
abbreviation (input) RBP_KEY_TV :: u16 where "RBP_KEY_TV \<equiv> 0x000B"
abbreviation (input) RBP_KEY_VOLUME_UP :: u16 where "RBP_KEY_VOLUME_UP \<equiv> 0x000C"
abbreviation (input) RBP_KEY_VOLUME_DOWN :: u16 where "RBP_KEY_VOLUME_DOWN \<equiv> 0x000D"
abbreviation (input) RBP_KEY_MUTE :: u16 where "RBP_KEY_MUTE \<equiv> 0x000E"
abbreviation (input) RBP_KEY_PLAY_PAUSE :: u16 where "RBP_KEY_PLAY_PAUSE \<equiv> 0x000F"
abbreviation (input) RBP_KEY_NEXT :: u16 where "RBP_KEY_NEXT \<equiv> 0x0010"
abbreviation (input) RBP_KEY_PREVIOUS :: u16 where "RBP_KEY_PREVIOUS \<equiv> 0x0011"
abbreviation (input) RBP_KEY_STOP :: u16 where "RBP_KEY_STOP \<equiv> 0x0012"
abbreviation (input) RBP_KEY_SETTINGS :: u16 where "RBP_KEY_SETTINGS \<equiv> 0x0013"
abbreviation (input) RBP_KEY_LOCAL :: u16 where "RBP_KEY_LOCAL \<equiv> 0x0014"
abbreviation (input) RBP_KEY_CHANNEL_UP :: u16 where "RBP_KEY_CHANNEL_UP \<equiv> 0x0015"
abbreviation (input) RBP_KEY_CHANNEL_DOWN :: u16 where "RBP_KEY_CHANNEL_DOWN \<equiv> 0x0016"
abbreviation (input) RBP_KEY_DIGIT_0 :: u16 where "RBP_KEY_DIGIT_0 \<equiv> 0x0017"
abbreviation (input) RBP_KEY_DIGIT_1 :: u16 where "RBP_KEY_DIGIT_1 \<equiv> 0x0018"
abbreviation (input) RBP_KEY_DIGIT_2 :: u16 where "RBP_KEY_DIGIT_2 \<equiv> 0x0019"
abbreviation (input) RBP_KEY_DIGIT_3 :: u16 where "RBP_KEY_DIGIT_3 \<equiv> 0x001A"
abbreviation (input) RBP_KEY_DIGIT_4 :: u16 where "RBP_KEY_DIGIT_4 \<equiv> 0x001B"
abbreviation (input) RBP_KEY_DIGIT_5 :: u16 where "RBP_KEY_DIGIT_5 \<equiv> 0x001C"
abbreviation (input) RBP_KEY_DIGIT_6 :: u16 where "RBP_KEY_DIGIT_6 \<equiv> 0x001D"
abbreviation (input) RBP_KEY_DIGIT_7 :: u16 where "RBP_KEY_DIGIT_7 \<equiv> 0x001E"
abbreviation (input) RBP_KEY_DIGIT_8 :: u16 where "RBP_KEY_DIGIT_8 \<equiv> 0x001F"
abbreviation (input) RBP_KEY_DIGIT_9 :: u16 where "RBP_KEY_DIGIT_9 \<equiv> 0x0020"
abbreviation (input) RBP_KEY_STAR :: u16 where "RBP_KEY_STAR \<equiv> 0x0021"
abbreviation (input) RBP_KEY_HASH :: u16 where "RBP_KEY_HASH \<equiv> 0x0022"
abbreviation (input) RBP_END_UNSUPPORTED_FORMAT :: u8 where "RBP_END_UNSUPPORTED_FORMAT \<equiv> 9"
abbreviation (input) RBP_OP_GET_VOICE_CAPS :: u16 where "RBP_OP_GET_VOICE_CAPS \<equiv> 0x0302"

end
