(* ===== verification/Crc32c.thy ===== *)
theory Crc32c
  imports Prelude
begin

text \<open>
  The CRC of the frame layer (\<open>src/protocol/src/rbp_frame.c\<close>): the flash table
  \<open>crc32c_table\<close>, the byte step that \<open>rbp_crc32c\<close> and the streaming encoder both perform, and
  \<open>rbp_crc32c\<close> itself. The lemmas show that the 256 constants are the byte table of the reflected
  Castagnoli polynomial, that the table-driven step is eight steps of the bitwise shift register,
  and that every corruption confined to four consecutive bytes changes the check value.
\<close>

section \<open>The code\<close>

definition crc32c_table :: "u32 list" where
  "crc32c_table = [
     0x00000000, 0xf26b8303, 0xe13b70f7, 0x1350f3f4, 0xc79a971f, 0x35f1141c, 0x26a1e7e8, 0xd4ca64eb,
     0x8ad958cf, 0x78b2dbcc, 0x6be22838, 0x9989ab3b, 0x4d43cfd0, 0xbf284cd3, 0xac78bf27, 0x5e133c24,
     0x105ec76f, 0xe235446c, 0xf165b798, 0x030e349b, 0xd7c45070, 0x25afd373, 0x36ff2087, 0xc494a384,
     0x9a879fa0, 0x68ec1ca3, 0x7bbcef57, 0x89d76c54, 0x5d1d08bf, 0xaf768bbc, 0xbc267848, 0x4e4dfb4b,
     0x20bd8ede, 0xd2d60ddd, 0xc186fe29, 0x33ed7d2a, 0xe72719c1, 0x154c9ac2, 0x061c6936, 0xf477ea35,
     0xaa64d611, 0x580f5512, 0x4b5fa6e6, 0xb93425e5, 0x6dfe410e, 0x9f95c20d, 0x8cc531f9, 0x7eaeb2fa,
     0x30e349b1, 0xc288cab2, 0xd1d83946, 0x23b3ba45, 0xf779deae, 0x05125dad, 0x1642ae59, 0xe4292d5a,
     0xba3a117e, 0x4851927d, 0x5b016189, 0xa96ae28a, 0x7da08661, 0x8fcb0562, 0x9c9bf696, 0x6ef07595,
     0x417b1dbc, 0xb3109ebf, 0xa0406d4b, 0x522bee48, 0x86e18aa3, 0x748a09a0, 0x67dafa54, 0x95b17957,
     0xcba24573, 0x39c9c670, 0x2a993584, 0xd8f2b687, 0x0c38d26c, 0xfe53516f, 0xed03a29b, 0x1f682198,
     0x5125dad3, 0xa34e59d0, 0xb01eaa24, 0x42752927, 0x96bf4dcc, 0x64d4cecf, 0x77843d3b, 0x85efbe38,
     0xdbfc821c, 0x2997011f, 0x3ac7f2eb, 0xc8ac71e8, 0x1c661503, 0xee0d9600, 0xfd5d65f4, 0x0f36e6f7,
     0x61c69362, 0x93ad1061, 0x80fde395, 0x72966096, 0xa65c047d, 0x5437877e, 0x4767748a, 0xb50cf789,
     0xeb1fcbad, 0x197448ae, 0x0a24bb5a, 0xf84f3859, 0x2c855cb2, 0xdeeedfb1, 0xcdbe2c45, 0x3fd5af46,
     0x7198540d, 0x83f3d70e, 0x90a324fa, 0x62c8a7f9, 0xb602c312, 0x44694011, 0x5739b3e5, 0xa55230e6,
     0xfb410cc2, 0x092a8fc1, 0x1a7a7c35, 0xe811ff36, 0x3cdb9bdd, 0xceb018de, 0xdde0eb2a, 0x2f8b6829,
     0x82f63b78, 0x709db87b, 0x63cd4b8f, 0x91a6c88c, 0x456cac67, 0xb7072f64, 0xa457dc90, 0x563c5f93,
     0x082f63b7, 0xfa44e0b4, 0xe9141340, 0x1b7f9043, 0xcfb5f4a8, 0x3dde77ab, 0x2e8e845f, 0xdce5075c,
     0x92a8fc17, 0x60c37f14, 0x73938ce0, 0x81f80fe3, 0x55326b08, 0xa759e80b, 0xb4091bff, 0x466298fc,
     0x1871a4d8, 0xea1a27db, 0xf94ad42f, 0x0b21572c, 0xdfeb33c7, 0x2d80b0c4, 0x3ed04330, 0xccbbc033,
     0xa24bb5a6, 0x502036a5, 0x4370c551, 0xb11b4652, 0x65d122b9, 0x97baa1ba, 0x84ea524e, 0x7681d14d,
     0x2892ed69, 0xdaf96e6a, 0xc9a99d9e, 0x3bc21e9d, 0xef087a76, 0x1d63f975, 0x0e330a81, 0xfc588982,
     0xb21572c9, 0x407ef1ca, 0x532e023e, 0xa145813d, 0x758fe5d6, 0x87e466d5, 0x94b49521, 0x66df1622,
     0x38cc2a06, 0xcaa7a905, 0xd9f75af1, 0x2b9cd9f2, 0xff56bd19, 0x0d3d3e1a, 0x1e6dcdee, 0xec064eed,
     0xc38d26c4, 0x31e6a5c7, 0x22b65633, 0xd0ddd530, 0x0417b1db, 0xf67c32d8, 0xe52cc12c, 0x1747422f,
     0x49547e0b, 0xbb3ffd08, 0xa86f0efc, 0x5a048dff, 0x8ecee914, 0x7ca56a17, 0x6ff599e3, 0x9d9e1ae0,
     0xd3d3e1ab, 0x21b862a8, 0x32e8915c, 0xc083125f, 0x144976b4, 0xe622f5b7, 0xf5720643, 0x07198540,
     0x590ab964, 0xab613a67, 0xb831c993, 0x4a5a4a90, 0x9e902e7b, 0x6cfbad78, 0x7fab5e8c, 0x8dc0dd8f,
     0xe330a81a, 0x115b2b19, 0x020bd8ed, 0xf0605bee, 0x24aa3f05, 0xd6c1bc06, 0xc5914ff2, 0x37faccf1,
     0x69e9f0d5, 0x9b8273d6, 0x88d28022, 0x7ab90321, 0xae7367ca, 0x5c18e4c9, 0x4f48173d, 0xbd23943e,
     0xf36e6f75, 0x0105ec76, 0x12551f82, 0xe03e9c81, 0x34f4f86a, 0xc69f7b69, 0xd5cf889d, 0x27a40b9e,
     0x79b737ba, 0x8bdcb4b9, 0x988c474d, 0x6ae7c44e, 0xbe2da0a5, 0x4c4623a6, 0x5f16d052, 0xad7d5351]"

text \<open>One byte: \<open>c = crc32c_table[(c ^ data[i]) & 0xFFu] ^ (c >> 8)\<close>.\<close>

definition crc_byte :: "u32 \<Rightarrow> u8 \<Rightarrow> u32" where
  "crc_byte c b = crc32c_table ! unat ((c XOR ucast b) AND 0xFF) XOR drop_bit 8 c"

definition rbp_crc32c :: "u8 list \<Rightarrow> u32" where
  "rbp_crc32c data = foldl crc_byte 0xFFFFFFFF data XOR 0xFFFFFFFF"

section \<open>The shift register it implements\<close>

text \<open>One clock of the reflected register with polynomial \<open>0x82F63B78\<close>.\<close>

definition crc_bit :: "u32 \<Rightarrow> u32" where
  "crc_bit c = (if bit c 0 then drop_bit 1 c XOR 0x82F63B78 else drop_bit 1 c)"

definition crc_ref :: "u8 list \<Rightarrow> u32" where
  "crc_ref data = foldl (\<lambda>c b. (crc_bit ^^ 8) (c XOR ucast b)) 0xFFFFFFFF data XOR 0xFFFFFFFF"

lemma length_crc32c_table [simp]: "length crc32c_table = 256"
  by (simp add: crc32c_table_def)

lemma crc_bit_cases [simp]:
  "bit c 0 \<Longrightarrow> crc_bit c = drop_bit 1 c XOR 0x82F63B78"
  "\<not> bit c 0 \<Longrightarrow> crc_bit c = drop_bit 1 c"
  by (simp_all add: crc_bit_def)

lemma crc_bit8:
  "(crc_bit ^^ 8) c
     = crc_bit (crc_bit (crc_bit (crc_bit (crc_bit (crc_bit (crc_bit (crc_bit c)))))))"
  by (simp add: numeral_eq_Suc del: crc_bit_cases)

text \<open>Every constant of the table, checked against the register.\<close>

lemma crc32c_table_eq:
  "crc32c_table = map (\<lambda>i. (crc_bit ^^ 8) (word_of_nat i)) [0..<256]"
  by (simp add: crc32c_table_def crc_bit8 upt_rec)

lemma crc32c_table_nth:
  "i < 256 \<Longrightarrow> crc32c_table ! i = (crc_bit ^^ 8) (word_of_nat i)"
  by (simp add: crc32c_table_eq)

section \<open>Linearity\<close>

lemma crc_bit_xor: "crc_bit (x XOR y) = crc_bit x XOR crc_bit y"
proof -
  have d: "drop_bit 1 (x XOR y) = drop_bit 1 x XOR drop_bit 1 y"
    by (rule bit_word_eqI) (simp add: bit_simps)
  show ?thesis
    by (cases "bit x 0"; cases "bit y 0")
      (simp_all add: crc_bit_def bit_xor_iff d xor.assoc xor.commute xor.left_commute)
qed

lemma crc_bits_xor: "(crc_bit ^^ n) (x XOR y) = (crc_bit ^^ n) x XOR (crc_bit ^^ n) y"
  by (induction n) (simp_all add: crc_bit_xor del: crc_bit_cases)

text \<open>A word whose low bits are clear is only shifted.\<close>

lemma crc_bits_push:
  "(crc_bit ^^ n) (push_bit n (drop_bit n x)) = drop_bit n x"
proof (induction n arbitrary: x)
  case 0
  then show ?case by simp
next
  case (Suc n)
  have "\<not> bit (push_bit (Suc n) (drop_bit (Suc n) x)) 0"
    by (simp add: bit_simps del: push_bit_Suc)
  then have "crc_bit (push_bit (Suc n) (drop_bit (Suc n) x))
      = drop_bit 1 (push_bit (Suc n) (drop_bit (Suc n) x))"
    by simp
  also have "\<dots> = push_bit n (drop_bit n (drop_bit 1 x))"
    by (rule bit_word_eqI) (auto simp: bit_simps dest: bit_imp_le_length simp del: push_bit_Suc)
  finally have "(crc_bit ^^ Suc n) (push_bit (Suc n) (drop_bit (Suc n) x))
      = (crc_bit ^^ n) (push_bit n (drop_bit n (drop_bit 1 x)))"
    by (simp add: funpow_swap1 [of crc_bit])
  also have "\<dots> = drop_bit (Suc n) x"
    using Suc.IH [of "drop_bit 1 x"] by simp
  finally show ?case .
qed

lemma split_low_bits: "(x :: 'a::len word) = take_bit n x XOR push_bit n (drop_bit n x)"
  by (rule bit_word_eqI) (auto simp: bit_simps)

lemma crc_bits_split:
  "(crc_bit ^^ n) x = (crc_bit ^^ n) (take_bit n x) XOR drop_bit n x"
proof -
  have "(crc_bit ^^ n) x = (crc_bit ^^ n) (take_bit n x XOR push_bit n (drop_bit n x))"
    using split_low_bits [of x n] by simp
  then show ?thesis
    by (simp add: crc_bits_xor crc_bits_push del: crc_bit_cases)
qed

text \<open>The table step is eight clocks of the register with the byte mixed in.\<close>

lemma drop_byte_xor: "drop_bit 8 (c XOR (ucast (b :: u8) :: u32)) = drop_bit 8 c"
  by (rule bit_word_eqI) (auto simp: bit_simps dest: bit_imp_le_length)

lemma and_255_take: "(w :: u32) AND 0xFF = take_bit 8 w"
  by (simp add: take_bit_eq_mask mask_eq_exp_minus_1)

lemma crc_byte_eq: "crc_byte c b = (crc_bit ^^ 8) (c XOR ucast b)"
proof -
  let ?x = "c XOR (ucast b :: u32)"
  have "unat (take_bit 8 ?x) < 2 ^ 8"
    by (simp only: unsigned_take_bit_eq take_bit_nat_less_exp)
  then have "crc32c_table ! unat (take_bit 8 ?x) = (crc_bit ^^ 8) (take_bit 8 ?x)"
    by (simp add: crc32c_table_nth del: crc_bit_cases)
  then have "crc_byte c b = (crc_bit ^^ 8) (take_bit 8 ?x) XOR drop_bit 8 ?x"
    by (simp only: crc_byte_def and_255_take drop_byte_xor)
  also have "\<dots> = (crc_bit ^^ 8) ?x"
    by (rule crc_bits_split [symmetric])
  finally show ?thesis .
qed

section \<open>Detection of corruption\<close>

text \<open>The polynomial's top bit makes a clock of the register injective.\<close>

lemma bit31_crc_bit: "bit (crc_bit c) 31 = bit c 0"
  by (cases "bit c 0") (auto simp: bit_simps dest: bit_imp_le_length)

lemma crc_bit_inject: "crc_bit x = crc_bit y \<longleftrightarrow> x = y"
proof
  assume eq: "crc_bit x = crc_bit y"
  have "bit x 0 = bit y 0"
    using eq bit31_crc_bit [of x] bit31_crc_bit [of y] by simp
  moreover from this eq have "drop_bit 1 x = drop_bit 1 y"
    by (cases "bit x 0") simp_all
  ultimately have "bit x n = bit y n" for n
    by (cases n) (simp_all, metis One_nat_def bit_drop_bit_eq comp_apply plus_1_eq_Suc)
  then show "x = y"
    by (intro bit_word_eqI) simp
qed simp

lemma crc_bits_inject: "(crc_bit ^^ n) x = (crc_bit ^^ n) y \<longleftrightarrow> x = y"
  by (induction n) (simp_all add: crc_bit_inject del: crc_bit_cases)

lemma crc_bytes_inject: "foldl crc_byte c xs = foldl crc_byte d xs \<longleftrightarrow> c = d"
proof (induction xs arbitrary: c d)
  case Nil
  then show ?case by simp
next
  case (Cons b xs)
  have "crc_byte c b = crc_byte d b \<longleftrightarrow> c = d"
    by (simp only: crc_byte_eq crc_bits_inject xor_cancel)
  then show ?case
    by (simp add: Cons.IH)
qed

text \<open>Up to four bytes enter the register as one little-endian word.\<close>

lemma xor_byte_or_push:
  "c XOR ((ucast (b :: u8) :: u32) OR push_bit 8 w) = (c XOR ucast b) XOR push_bit 8 w"
  by (rule bit_word_eqI) (auto simp: bit_simps dest: bit_imp_le_length)

lemma foldl_crc_byte_le_word:
  "length bs \<le> 4 \<Longrightarrow> foldl crc_byte c bs = (crc_bit ^^ (8 * length bs)) (c XOR le_word bs)"
proof (induction bs arbitrary: c)
  case Nil
  then show ?case by simp
next
  case (Cons b bs)
  let ?w = "le_word bs :: u32"
  have "8 + 8 * length bs \<le> 32"
    using Cons.prems by simp
  then have "drop_bit 8 (push_bit 8 (take_bit (8 * length bs) ?w)) = take_bit (8 * length bs) ?w"
    using drop_byte_or_push [of "8 * length bs" 0 ?w] by simp
  then have shift: "(crc_bit ^^ 8) (push_bit 8 ?w) = ?w"
    using crc_bits_push [of 8 "push_bit 8 ?w"] by (simp add: take_bit_le_word del: crc_bit_cases)
  have "foldl crc_byte c (b # bs)
      = (crc_bit ^^ (8 * length bs)) (crc_byte c b XOR ?w)"
    using Cons by (simp del: crc_bit_cases)
  also have "crc_byte c b XOR ?w = (crc_bit ^^ 8) (c XOR le_word (b # bs))"
    by (simp add: crc_byte_eq xor_byte_or_push crc_bits_xor shift del: crc_bit_cases)
  also have "(crc_bit ^^ (8 * length bs)) \<dots>
      = (crc_bit ^^ (8 * length (b # bs))) (c XOR le_word (b # bs))"
  proof -
    have "8 * length (b # bs) = 8 * length bs + 8" by simp
    then show ?thesis by (simp only: funpow_add comp_apply)
  qed
  finally show ?case .
qed

lemma crc_window_inject:
  assumes "length bs = length bs'" and "length bs \<le> 4"
    and "foldl crc_byte c bs = foldl crc_byte c bs'"
  shows "bs = bs'"
proof -
  have "c XOR (le_word bs :: u32) = c XOR le_word bs'"
    using assms by (simp add: foldl_crc_byte_le_word crc_bits_inject del: crc_bit_cases)
  then have "(le_word bs :: u32) = le_word bs'"
    by (simp only: xor_cancel)
  then show ?thesis
    using assms(1,2) by (intro le_word_inject [where ?'a = 32]) simp_all
qed

section \<open>Properties\<close>

text \<open>C35: the table-driven \<open>rbp_crc32c\<close> computes, on every input, the reflected CRC-32C
  (polynomial \<open>0x82F63B78\<close>, initial value and final XOR all ones) of the bitwise shift register.\<close>

theorem rbp_crc32c_correct: "rbp_crc32c data = crc_ref data"
proof -
  have "crc_byte = (\<lambda>c b. (crc_bit ^^ 8) (c XOR ucast b))"
    by (intro ext) (rule crc_byte_eq)
  then show ?thesis
    by (simp only: rbp_crc32c_def crc_ref_def)
qed

text \<open>The check value the header file documents.\<close>

lemma rbp_crc32c_check: "rbp_crc32c (map of_char ''123456789'') = 0xE3069283"
  by (simp add: rbp_crc32c_def crc_byte_eq crc_bit8)

text \<open>Two byte strings that differ only inside a window of at most four consecutive bytes
  never have the same CRC, so every error burst of up to 32 bits in a frame is detected.\<close>

theorem rbp_crc32c_detects_burst:
  assumes "length bs = length bs'" and "length bs \<le> 4" and "bs \<noteq> bs'"
  shows "rbp_crc32c (pre @ bs @ post) \<noteq> rbp_crc32c (pre @ bs' @ post)"
proof
  assume "rbp_crc32c (pre @ bs @ post) = rbp_crc32c (pre @ bs' @ post)"
  then have "foldl crc_byte (foldl crc_byte 0xFFFFFFFF pre) bs
      = foldl crc_byte (foldl crc_byte 0xFFFFFFFF pre) bs'"
    by (simp add: rbp_crc32c_def crc_bytes_inject)
  with assms crc_window_inject show False by blast
qed

theorem rbp_crc32c_detects_burst_witness:
  "rbp_crc32c ([0x52] @ [1, 2, 3] @ [0x42]) \<noteq> rbp_crc32c ([0x52] @ [9, 2, 7] @ [0x42])"
  by (rule rbp_crc32c_detects_burst) simp_all

end
