(* ===== verification/Cobs.thy ===== *)
theory Cobs
  imports Prelude
begin

text \<open>
  Consistent overhead byte stuffing (\<open>src/protocol/src/rbp_frame.c\<close>): the encoder with its
  code-byte cursor, the decoder, and the decoder run in place on the receive buffer, as the frame
  receiver calls it. The lemmas give the block structure of the encoding, that it holds no zero
  byte, its exact worst-case length, the round trip, and that decoding in place reads only bytes
  it has not yet overwritten.
\<close>

section \<open>The encoder\<close>

text \<open>
  The encoder's locals: \<open>dst\<close> is what has been written so far, \<open>codep\<close> the index of the open code
  byte in it and \<open>code\<close> the value that will be stored there. The byte reserved by \<open>codep = dst++\<close> is
  uninitialised memory in C; the model puts 0 there until it is stored.
\<close>

record cobs_enc =
  enc_dst :: "u8 list"
  enc_codep :: nat
  enc_code :: u8

definition cobs_enc_init :: cobs_enc where
  "cobs_enc_init = \<lparr>enc_dst = [0], enc_codep = 0, enc_code = 1\<rparr>"

text \<open>\<open>*codep = code; code = 1; codep = dst++;\<close>\<close>

definition cobs_close :: "cobs_enc \<Rightarrow> cobs_enc" where
  "cobs_close e = \<lparr>enc_dst = (enc_dst e)[enc_codep e := enc_code e] @ [0],
                   enc_codep = length (enc_dst e), enc_code = 1\<rparr>"

text \<open>One iteration of the encoding loop.\<close>

definition cobs_put :: "cobs_enc \<Rightarrow> u8 \<Rightarrow> cobs_enc" where
  "cobs_put e b =
     (if b = 0 then cobs_close e
      else let e' = e\<lparr>enc_dst := enc_dst e @ [b], enc_code := enc_code e + 1\<rparr>
           in if enc_code e' = 0xFF then cobs_close e' else e')"

definition cobs_finish :: "cobs_enc \<Rightarrow> u8 list" where
  "cobs_finish e = (enc_dst e)[enc_codep e := enc_code e]"

definition rbp_cobs_encode :: "u8 list \<Rightarrow> u8 list" where
  "rbp_cobs_encode src = cobs_finish (foldl cobs_put cobs_enc_init src)"

section \<open>The decoder\<close>

text \<open>
  \<open>rbp_cobs_decode\<close> returns 0 on a malformed record. \<open>cobs_dec src dst\<close> is its loop: the bytes
  still to read and those written; \<open>None\<close> is the early \<open>return 0\<close>.
\<close>

function cobs_dec :: "u8 list \<Rightarrow> u8 list \<Rightarrow> u8 list option" where
  "cobs_dec [] dst = Some dst"
| "cobs_dec (code # src) dst =
     (if code = 0 then None
      else let block = unat (code - 1)
           in if length src < block then None
              else let dst' = dst @ take block src; src' = drop block src
                   in cobs_dec src' (if code < 0xFF \<and> src' \<noteq> [] then dst' @ [0] else dst'))"
  by pat_completeness auto
termination
  by (relation "measure (\<lambda>(src, dst). length src)") auto

declare cobs_dec.simps(2) [simp del]

definition rbp_cobs_decode :: "u8 list \<Rightarrow> u8 list" where
  "rbp_cobs_decode src = (case cobs_dec src [] of None \<Rightarrow> [] | Some dst \<Rightarrow> dst)"

text \<open>
  The receiver passes the same buffer as source and destination. \<open>cobs_dec_at buf len r w\<close> is the
  loop with a read cursor \<open>r\<close> and a write cursor \<open>w\<close> in one array; it returns the array and the
  number of bytes written, 0 for an error. \<open>copy_at\<close> is the inner byte loop \<open>*dst++ = *src++\<close>.
\<close>

primrec copy_at :: "u8 list \<Rightarrow> nat \<Rightarrow> nat \<Rightarrow> nat \<Rightarrow> u8 list" where
  "copy_at buf r w 0 = buf"
| "copy_at buf r w (Suc n) = copy_at (buf[w := buf ! r]) (Suc r) (Suc w) n"

function cobs_dec_at :: "u8 list \<Rightarrow> nat \<Rightarrow> nat \<Rightarrow> nat \<Rightarrow> u8 list \<times> nat" where
  "cobs_dec_at buf len r w =
     (if \<not> r < len then (buf, w)
      else let code = buf ! r
           in if code = 0 then (buf, 0)
              else let block = unat (code - 1)
                   in if len - (r + 1) < block then (buf, 0)
                      else let buf' = copy_at buf (r + 1) w block;
                               r' = r + 1 + block; w' = w + block
                           in if code < 0xFF \<and> r' \<noteq> len
                              then cobs_dec_at (buf'[w' := 0]) len r' (w' + 1)
                              else cobs_dec_at buf' len r' w')"
  by pat_completeness auto
termination
  by (relation "measure (\<lambda>(buf, len, r, w). len - r)") auto

declare cobs_dec_at.simps [simp del]

definition cobs_decode_in_place :: "u8 list \<Rightarrow> nat \<Rightarrow> u8 list \<times> nat" where
  "cobs_decode_in_place buf len = cobs_dec_at buf len 0 0"

section \<open>Block structure of the encoding\<close>

lemma takeWhile_shorter_pos: "length (takeWhile P xs) \<noteq> length xs \<Longrightarrow> 0 < length xs"
  by (cases xs) auto

text \<open>The textbook definition: a run of at most 254 non-zero bytes per block.\<close>

function cobs_ref :: "u8 list \<Rightarrow> u8 list" where
  "cobs_ref xs =
     (let run = takeWhile (\<lambda>b. b \<noteq> 0) xs
      in if 254 \<le> length run then 0xFF # take 254 xs @ cobs_ref (drop 254 xs)
         else word_of_nat (length run + 1) # run @
              (if length run = length xs then [] else cobs_ref (drop (length run + 1) xs)))"
  by pat_completeness auto
termination
  by (relation "measure length")
    (auto dest: order_trans [OF _ length_takeWhile_le] dest!: takeWhile_shorter_pos)

declare cobs_ref.simps [simp del]

text \<open>The three ways the reference unfolds on a run of non-zero bytes.\<close>

lemma takeWhile_nonzero_all: "0 \<notin> set run \<Longrightarrow> takeWhile (\<lambda>b. b \<noteq> (0::u8)) run = run"
  by (rule takeWhile_eq_all_conv [THEN iffD2]) auto

lemma takeWhile_nonzero_append:
  "0 \<notin> set run \<Longrightarrow> takeWhile (\<lambda>b. b \<noteq> (0::u8)) (run @ xs) = run @ takeWhile (\<lambda>b. b \<noteq> 0) xs"
  by (rule takeWhile_append2) auto

lemma cobs_ref_last:
  "0 \<notin> set run \<Longrightarrow> length run < 254 \<Longrightarrow> cobs_ref run = word_of_nat (length run + 1) # run"
  by (subst cobs_ref.simps) (simp add: takeWhile_nonzero_all)

lemma cobs_ref_zero:
  "0 \<notin> set run \<Longrightarrow> length run < 254 \<Longrightarrow>
     cobs_ref (run @ 0 # xs) = word_of_nat (length run + 1) # run @ cobs_ref xs"
  by (subst cobs_ref.simps) (simp add: takeWhile_nonzero_append)

lemma cobs_ref_full:
  "0 \<notin> set run \<Longrightarrow> length run = 254 \<Longrightarrow> cobs_ref (run @ xs) = 0xFF # run @ cobs_ref xs"
  by (subst cobs_ref.simps) (simp add: takeWhile_nonzero_append)

lemma cobs_ref_nonempty [simp]: "cobs_ref xs \<noteq> []"
  by (subst cobs_ref.simps) (simp add: Let_def)

text \<open>Case analysis along the reference's recursion.\<close>

lemma cobs_ref_cases:
  fixes xs :: "u8 list"
  obtains (last) "0 \<notin> set xs" "length xs < 254"
  | (zero) run ys where "xs = run @ 0 # ys" "0 \<notin> set run" "length run < 254"
  | (full) run ys where "xs = run @ ys" "0 \<notin> set run" "length run = 254"
proof -
  let ?run = "takeWhile (\<lambda>b. b \<noteq> (0::u8)) xs"
  have nz: "0 \<notin> set ?run" by (auto dest: set_takeWhileD)
  consider "254 \<le> length ?run" | "length ?run < 254" "?run = xs"
    | "length ?run < 254" "dropWhile (\<lambda>b. b \<noteq> 0) xs \<noteq> []"
    by (metis append.right_neutral not_le takeWhile_dropWhile_id)
  then show thesis
  proof cases
    case 1
    have "take 254 ?run @ (drop 254 ?run @ dropWhile (\<lambda>b. b \<noteq> 0) xs) = xs"
      by (metis append.assoc append_take_drop_id takeWhile_dropWhile_id)
    with 1 nz show ?thesis
      by (intro full [of "take 254 ?run" "drop 254 ?run @ dropWhile (\<lambda>b. b \<noteq> 0) xs"])
        (auto dest: in_set_takeD)
  next
    case 2
    with nz show ?thesis by (intro last) auto
  next
    case 3
    then obtain z ys where zs: "dropWhile (\<lambda>b. b \<noteq> 0) xs = z # ys"
      by (cases "dropWhile (\<lambda>b. b \<noteq> 0) xs") simp_all
    then have "z = 0"
      using hd_dropWhile [OF 3(2)] by simp
    with zs have "dropWhile (\<lambda>b. b \<noteq> 0) xs = 0 # ys" by simp
    then have "xs = ?run @ 0 # ys"
      by (metis takeWhile_dropWhile_id)
    with 3 nz show ?thesis by (intro zero) auto
  qed
qed

lemma cobs_ref_induct [case_names last zero full]:
  assumes "\<And>xs. 0 \<notin> set xs \<Longrightarrow> length xs < 254 \<Longrightarrow> P xs"
    and "\<And>run ys. 0 \<notin> set run \<Longrightarrow> length run < 254 \<Longrightarrow> P ys \<Longrightarrow> P (run @ 0 # ys)"
    and "\<And>run ys. 0 \<notin> set run \<Longrightarrow> length run = 254 \<Longrightarrow> P ys \<Longrightarrow> P (run @ ys)"
  shows "P (xs :: u8 list)"
proof (induction xs rule: length_induct)
  case (1 xs)
  show ?case
    by (cases xs rule: cobs_ref_cases) (use 1 assms in auto)
qed

text \<open>The code's single pass computes the reference: the open block is \<open>run\<close>, all earlier bytes
  are final.\<close>

definition enc_open :: "u8 list \<Rightarrow> u8 \<Rightarrow> u8 list \<Rightarrow> cobs_enc" where
  "enc_open pre x run = \<lparr>enc_dst = pre @ x # run, enc_codep = length pre,
                         enc_code = word_of_nat (length run + 1)\<rparr>"

lemma cobs_close_open:
  "cobs_close (enc_open pre x run) = enc_open (pre @ word_of_nat (length run + 1) # run) 0 []"
  by (simp add: cobs_close_def enc_open_def)

lemma cobs_put_open:
  assumes "length run < 254"
  shows "cobs_put (enc_open pre x run) b =
     (if b = 0 then enc_open (pre @ word_of_nat (length run + 1) # run) 0 []
      else if length run = 253 then enc_open (pre @ 0xFF # run @ [b]) 0 []
      else enc_open pre x (run @ [b]))"
proof -
  let ?e = "enc_open pre x (run @ [b])"
  have upd: "(enc_open pre x run)\<lparr>enc_dst := enc_dst (enc_open pre x run) @ [b],
      enc_code := enc_code (enc_open pre x run) + 1\<rparr> = ?e"
    by (simp add: enc_open_def)
  have "enc_code ?e = word_of_nat (length run + 2)"
    by (simp add: enc_open_def)
  then have "enc_code ?e = 0xFF \<longleftrightarrow> length run = 253"
    using assms word_of_nat_byte_eq(1) [of "length run + 2" "num.Bit1 (num.Bit1 (num.Bit1 (num.Bit1
      (num.Bit1 (num.Bit1 (num.Bit1 num.One))))))"] by simp
  then show ?thesis
    by (simp add: cobs_put_def upd cobs_close_open Let_def)
qed


lemma cobs_loop_ref:
  "0 \<notin> set run \<Longrightarrow> length run < 254 \<Longrightarrow>
     cobs_finish (foldl cobs_put (enc_open pre x run) src) = pre @ cobs_ref (run @ src)"
proof (induction src arbitrary: pre x run)
  case Nil
  then show ?case
    by (simp add: cobs_finish_def enc_open_def cobs_ref_last)
next
  case (Cons b src)
  show ?case
  proof (cases "b = 0 \<or> length run = 253")
    case True
    then show ?thesis
      using Cons.prems Cons.IH [of "[]"]
      by (auto simp: cobs_put_open cobs_ref_zero cobs_ref_full [of "run @ [b]" src, simplified])
  next
    case False
    then show ?thesis
      using Cons.prems Cons.IH [of "run @ [b]"] by (simp add: cobs_put_open)
  qed
qed

lemma rbp_cobs_encode_ref: "rbp_cobs_encode src = cobs_ref src"
proof -
  have "cobs_enc_init = enc_open [] 0 []"
    by (simp add: cobs_enc_init_def enc_open_def)
  then show ?thesis
    using cobs_loop_ref [of "[]" "[]" 0 src] by (simp add: rbp_cobs_encode_def)
qed

section \<open>Round trip, zero bytes, length\<close>

lemma code_minus_1: "n < 254 \<Longrightarrow> unat ((word_of_nat (n + 1) :: u8) - 1) = n"
  by (simp add: unat_byte_of_nat)

lemma code_less_255: "n < 254 \<Longrightarrow> (word_of_nat (n + 1) :: u8) < 0xFF"
  using unat_byte_of_nat [of "n + 1"] by (simp add: word_less_nat_alt del: of_nat_Suc of_nat_add)

lemma code_nonzero: "n < 254 \<Longrightarrow> (word_of_nat (n + 1) :: u8) \<noteq> 0"
  using word_of_nat_byte_eq(2) [of "n + 1"] by (simp del: of_nat_Suc of_nat_add)

lemma cobs_dec_block:
  "n < 254 \<Longrightarrow> n \<le> length src \<Longrightarrow> cobs_dec (word_of_nat (n + 1) # src) dst =
     cobs_dec (drop n src) (if drop n src \<noteq> [] then dst @ take n src @ [0] else dst @ take n src)"
  using code_minus_1 [of n] code_less_255 [of n] code_nonzero [of n]
  by (subst cobs_dec.simps) (simp add: Let_def del: of_nat_Suc of_nat_add)

lemma cobs_dec_full:
  "254 \<le> length src \<Longrightarrow> cobs_dec (0xFF # src) dst = cobs_dec (drop 254 src) (dst @ take 254 src)"
  by (subst cobs_dec.simps) simp

lemma cobs_dec_ref: "cobs_dec (cobs_ref xs) dst = Some (dst @ xs)"
proof (induction xs arbitrary: dst rule: cobs_ref_induct)
  case (last xs)
  then show ?case
    using cobs_dec_block [of "length xs" xs dst] by (simp add: cobs_ref_last)
next
  case (zero run ys)
  then show ?case
    using cobs_dec_block [of "length run" "run @ cobs_ref ys" dst] by (simp add: cobs_ref_zero)
next
  case (full run ys)
  then show ?case
    by (simp add: cobs_ref_full cobs_dec_full)
qed

lemma cobs_ref_no_zero: "0 \<notin> set (cobs_ref xs)"
proof (induction xs rule: cobs_ref_induct)
  case (last xs)
  then show ?case
    using code_nonzero [of "length xs"] by (auto simp: cobs_ref_last)
next
  case (zero run ys)
  then show ?case
    using code_nonzero [of "length run"] by (auto simp: cobs_ref_zero)
next
  case (full run ys)
  then show ?case
    by (simp add: cobs_ref_full)
qed

lemma cobs_ref_length: "length (cobs_ref xs) \<le> length xs + length xs div 254 + 1"
proof (induction xs rule: cobs_ref_induct)
  case (last xs)
  then show ?case by (simp add: cobs_ref_last)
next
  case (zero run ys)
  have "length ys div 254 \<le> length (run @ 0 # ys) div 254"
    by (intro div_le_mono) simp
  with zero show ?case by (simp add: cobs_ref_zero)
next
  case (full run ys)
  have "length (run @ ys) div 254 = length ys div 254 + 1"
    using full by simp
  with full show ?case by (simp add: cobs_ref_full)
qed


section \<open>Decoding in place\<close>

text \<open>
  The inner copy with the write cursor behind the read cursor: the copied bytes are the ones that
  stood at the read cursor, and everything after them is untouched.
\<close>

lemma length_copy_at [simp]: "length (copy_at buf r w n) = length buf"
  by (induction n arbitrary: buf r w) simp_all

lemma copy_at_behind:
  "w < r \<Longrightarrow> r + n \<le> length buf \<Longrightarrow>
     take (w + n) (copy_at buf r w n) = take w buf @ take n (drop r buf)
     \<and> drop (r + n) (copy_at buf r w n) = drop (r + n) buf"
proof (induction n arbitrary: buf r w)
  case 0
  then show ?case by simp
next
  case (Suc n)
  let ?b = "buf[w := buf ! r]"
  have "take (Suc w + n) (copy_at ?b (Suc r) (Suc w) n) = take (Suc w) ?b @ take n (drop (Suc r) ?b)
      \<and> drop (Suc r + n) (copy_at ?b (Suc r) (Suc w) n) = drop (Suc r + n) ?b"
    using Suc.prems by (intro Suc.IH) simp_all
  moreover have "take (Suc w) ?b = take w buf @ [buf ! r]"
    using Suc.prems by (simp add: take_Suc_conv_app_nth)
  moreover have "take (Suc n) (drop r buf) = buf ! r # take n (drop (Suc r) buf)"
    using Suc.prems by (simp add: Cons_nth_drop_Suc [symmetric])
  ultimately show ?case
    using Suc.prems by simp
qed

lemma drop_take_Cons:
  "r < len \<Longrightarrow> len \<le> length buf \<Longrightarrow>
     drop r (take len buf) = buf ! r # drop (Suc r) (take len buf)"
  by (simp add: Cons_nth_drop_Suc [symmetric])

lemma take_drop_take:
  "r + n \<le> len \<Longrightarrow> take n (drop r (take len buf)) = take n (drop r buf)"
  by (simp add: take_drop min_absorb1)

lemma drop_eq_suffix:
  "drop k xs = drop k ys \<Longrightarrow> length xs = length ys \<Longrightarrow> k \<le> j \<Longrightarrow>
     drop j (take len xs) = drop j (take len ys)"
  by (metis drop_drop drop_take le_add_diff_inverse2)

definition dec_at_ok :: "u8 list \<Rightarrow> nat \<Rightarrow> nat \<Rightarrow> nat \<Rightarrow> bool" where
  "dec_at_ok buf len r w \<longleftrightarrow>
     (case cobs_dec (drop r (take len buf)) (take w buf) of
        None \<Rightarrow> snd (cobs_dec_at buf len r w) = 0
      | Some d \<Rightarrow> snd (cobs_dec_at buf len r w) = length d
                 \<and> take (length d) (fst (cobs_dec_at buf len r w)) = d)
     \<and> length (fst (cobs_dec_at buf len r w)) = length buf"

lemma cobs_dec_at_correct:
  "w \<le> r \<Longrightarrow> r \<le> len \<Longrightarrow> len \<le> length buf \<Longrightarrow> dec_at_ok buf len r w"
proof (induction "len - r" arbitrary: buf r w rule: less_induct)
  case less
  note unfold = cobs_dec_at.simps [of buf len r w]
  show ?case
  proof (cases "r < len")
    case False
    with less.prems have "r = len" by simp
    with less.prems show ?thesis
      by (simp add: dec_at_ok_def cobs_dec_at.simps [of buf len len w] min_absorb2)
  next
    case True
    let ?code = "buf ! r"
    let ?block = "unat (?code - 1)"
    let ?src = "drop (Suc r) (take len buf)"
    have src: "drop r (take len buf) = ?code # ?src"
      using True less.prems by (intro drop_take_Cons) simp_all
    have len_src: "length ?src = len - (r + 1)"
      using less.prems by (simp add: min_absorb2)
    show ?thesis
    proof (cases "?code = 0 \<or> len - (r + 1) < ?block")
      case True
      with \<open>r < len\<close> have "cobs_dec_at buf len r w = (buf, 0)"
        by (auto simp: unfold Let_def)
      moreover from True have "cobs_dec (drop r (take len buf)) (take w buf) = None"
        using len_src by (auto simp: src cobs_dec.simps(2) Let_def)
      ultimately show ?thesis by (simp add: dec_at_ok_def)
    next
      case False
      let ?buf1 = "copy_at buf (r + 1) w ?block"
      let ?r1 = "r + 1 + ?block" and ?w1 = "w + ?block"
      let ?z = "?code < 0xFF \<and> ?r1 \<noteq> len"
      let ?buf2 = "if ?z then ?buf1[?w1 := 0] else ?buf1"
      let ?w2 = "if ?z then ?w1 + 1 else ?w1"
      have fits: "?r1 \<le> len" using False \<open>r < len\<close> by linarith
      have cp: "take ?w1 ?buf1 = take w buf @ take ?block (drop (r + 1) buf)"
          "drop ?r1 ?buf1 = drop ?r1 buf"
        using copy_at_behind [of w "r + 1" ?block buf] less.prems fits by simp_all
      have eq: "cobs_dec_at buf len r w = cobs_dec_at ?buf2 len ?r1 ?w2"
        using False \<open>r < len\<close> by (simp add: unfold Let_def)
      have rest: "drop ?r1 (take len ?buf2) = drop ?block ?src"
      proof -
        have "drop ?r1 (take len ?buf2) = drop ?r1 (take len buf)"
          using cp(2) less.prems by (intro drop_eq_suffix [of ?r1]) simp_all
        then show ?thesis by (simp add: algebra_simps)
      qed
      have dst: "take ?w2 ?buf2 = (if ?z then take w buf @ take ?block ?src @ [0]
          else take w buf @ take ?block ?src)"
        using cp(1) fits less.prems by (simp add: take_Suc_conv_app_nth take_drop_take)
      have ne: "drop ?block ?src \<noteq> [] \<longleftrightarrow> ?r1 \<noteq> len"
        using fits less.prems(3) by (auto simp: min_absorb2)
      have "cobs_dec (?code # ?src) (take w buf)
          = cobs_dec (drop ?block ?src) (if ?code < 0xFF \<and> drop ?block ?src \<noteq> []
              then take w buf @ take ?block ?src @ [0] else take w buf @ take ?block ?src)"
        using False len_src by (simp add: cobs_dec.simps(2) Let_def)
      then have dec: "cobs_dec (drop r (take len buf)) (take w buf)
          = cobs_dec (drop ?r1 (take len ?buf2)) (take ?w2 ?buf2)"
        by (simp only: src rest dst ne)
      have "dec_at_ok ?buf2 len ?r1 ?w2"
        using less.prems fits \<open>r < len\<close> by (intro less.hyps) auto
      moreover have "length ?buf2 = length buf" by simp
      ultimately show ?thesis
        by (simp only: dec_at_ok_def dec eq)
    qed
  qed
qed

lemma cobs_decode_in_place_correct:
  assumes "len \<le> length buf" and "cobs_decode_in_place buf len = (buf', n)"
  shows "take n buf' = rbp_cobs_decode (take len buf)" and "n = length (rbp_cobs_decode (take len buf))"
    and "length buf' = length buf"
  using assms cobs_dec_at_correct [of 0 0 len buf]
  by (auto simp: dec_at_ok_def cobs_decode_in_place_def rbp_cobs_decode_def split: option.splits)

section \<open>Properties\<close>

text \<open>decoding an encoded block gives the block back, for every byte string.\<close>

theorem cobs_roundtrip: "rbp_cobs_decode (rbp_cobs_encode src) = src"
  by (simp add: rbp_cobs_decode_def rbp_cobs_encode_ref cobs_dec_ref)

text \<open>An encoded block holds no zero byte (so the delimiter is unambiguous) and is at most
  \<open>len + len / 254 + 1\<close> bytes long, within the \<open>len + len/254 + 2\<close> bytes the header asks for.\<close>

theorem cobs_encode_wire_safe:
  "0 \<notin> set (rbp_cobs_encode src)
   \<and> length (rbp_cobs_encode src) \<le> length src + length src div 254 + 1"
  using cobs_ref_length [of src] by (simp add: rbp_cobs_encode_ref cobs_ref_no_zero)

text \<open>Running the decoder with source and destination in the same buffer, as the receiver
  does, yields exactly the bytes and the length of decoding into a separate buffer: the write
  cursor never overtakes the read cursor.\<close>

theorem cobs_in_place_safe:
  assumes "len \<le> length buf"
  shows "take (snd (cobs_decode_in_place buf len)) (fst (cobs_decode_in_place buf len))
           = rbp_cobs_decode (take len buf)
    \<and> length (fst (cobs_decode_in_place buf len)) = length buf"
  using cobs_decode_in_place_correct [OF assms, of "fst (cobs_decode_in_place buf len)"]
  by (metis prod.collapse)

theorem cobs_in_place_safe_witness:
  "take (snd (cobs_decode_in_place [3, 17, 34, 2, 51, 99] 5))
     (fst (cobs_decode_in_place [3, 17, 34, 2, 51, 99] 5)) = [17, 34, 0, 51]
   \<and> length (fst (cobs_decode_in_place [3, 17, 34, 2, 51, 99] 5)) = 6"
proof -
  have "rbp_cobs_decode (take 5 [3, 17, 34, 2, 51, 99]) = [17, 34, 0, 51]"
    by (simp add: rbp_cobs_decode_def cobs_dec.simps)
  then show ?thesis
    using cobs_in_place_safe [of 5 "[3, 17, 34, 2, 51, 99]"] by simp
qed

end
