(* ===== verification/Frame.thy ===== *)
theory Frame
  imports Defs Crc32c Cobs
begin

text \<open>
  The frame layer (\<open>src/protocol/src/rbp_frame.c\<close>, \<open>src/protocol/include/rbp/frame.h\<close>): the
  32-byte header, the frame builder with deferred sequence numbers, and the receive state machine
  with its overflow, timeout and garbage handling. The lemmas show that header packing round-trips,
  that the streaming encoder equals COBS over header, payload and CRC, that its output fits
  \<open>RBP_MAX_ENCODED\<close>, that the receiver stays inside its buffer, delivers an encoded frame whatever
  the chunking, and recovers from any state at the next delimiter.
\<close>

section \<open>Header\<close>

record rbp_header =
  h_magic0 :: u8
  h_magic1 :: u8
  h_major :: u8
  h_minor :: u8
  h_kind :: u8
  h_flags :: u8
  h_header_size :: u16
  h_session_id :: u32
  h_tx_seq :: u32
  h_request_id :: u32
  h_opcode :: u16
  h_status :: u16
  h_payload_size :: u16
  h_reserved :: u16
  h_connection_id :: u32

definition put16 :: "u16 \<Rightarrow> u8 list" where
  "put16 v = [ucast v, ucast (drop_bit 8 v)]"

definition put32 :: "u32 \<Rightarrow> u8 list" where
  "put32 v = [ucast v, ucast (drop_bit 8 v), ucast (drop_bit 16 v), ucast (drop_bit 24 v)]"

definition get16 :: "u8 list \<Rightarrow> u16" where
  "get16 p = ucast (p ! 0) OR push_bit 8 (ucast (p ! 1))"

definition get32 :: "u8 list \<Rightarrow> u32" where
  "get32 p = ucast (p ! 0) OR push_bit 8 (ucast (p ! 1)) OR push_bit 16 (ucast (p ! 2))
     OR push_bit 24 (ucast (p ! 3))"

definition rbp_header_pack :: "rbp_header \<Rightarrow> u8 list" where
  "rbp_header_pack h =
     [h_magic0 h, h_magic1 h, h_major h, h_minor h, h_kind h, h_flags h]
     @ put16 (h_header_size h) @ put32 (h_session_id h) @ put32 (h_tx_seq h)
     @ put32 (h_request_id h) @ put16 (h_opcode h) @ put16 (h_status h)
     @ put16 (h_payload_size h) @ put16 (h_reserved h) @ put32 (h_connection_id h)"

definition rbp_header_parse :: "u8 list \<Rightarrow> bool \<times> rbp_header" where
  "rbp_header_parse inp =
     (let h = \<lparr>h_magic0 = inp ! 0, h_magic1 = inp ! 1, h_major = inp ! 2, h_minor = inp ! 3,
               h_kind = inp ! 4, h_flags = inp ! 5, h_header_size = get16 (drop 6 inp),
               h_session_id = get32 (drop 8 inp), h_tx_seq = get32 (drop 12 inp),
               h_request_id = get32 (drop 16 inp), h_opcode = get16 (drop 20 inp),
               h_status = get16 (drop 22 inp), h_payload_size = get16 (drop 24 inp),
               h_reserved = get16 (drop 26 inp), h_connection_id = get32 (drop 28 inp)\<rparr>
      in (h_magic0 h = RBP_MAGIC0 \<and> h_magic1 h = RBP_MAGIC1
            \<and> h_header_size h = 32 \<and> h_reserved h = 0, h))"

section \<open>Frame builder\<close>

definition rbp_txseq_init :: u32 where
  "rbp_txseq_init = 1"

record rbp_txframe =
  tx_hdr :: rbp_header
  tx_payload :: "u8 list"
  tx_payload_len :: nat

definition rbp_txframe_begin :: "rbp_txframe \<Rightarrow> rbp_header \<Rightarrow> rbp_txframe" where
  "rbp_txframe_begin f hdr = f\<lparr>tx_hdr := hdr, tx_payload_len := 0\<rparr>"

definition rbp_txframe_payload :: "rbp_txframe \<Rightarrow> u8 list \<Rightarrow> bool \<times> rbp_txframe" where
  "rbp_txframe_payload f data =
     (if RBP_MAX_PAYLOAD < tx_payload_len f
         \<or> RBP_MAX_PAYLOAD - tx_payload_len f < length data then (False, f)
      else (True, f\<lparr>tx_payload := memcpy_at (tx_payload f) (tx_payload_len f) data,
                    tx_payload_len := tx_payload_len f + length data\<rparr>))"

text \<open>One byte of the first two parts: it enters the CRC and the COBS state.\<close>

definition stream_byte :: "cobs_enc \<times> u32 \<Rightarrow> u8 \<Rightarrow> cobs_enc \<times> u32" where
  "stream_byte ec b = (cobs_put (fst ec) b, crc_byte (snd ec) b)"

text \<open>
  \<open>encode_payload\<close> returns the header as written back, the sequence counter and the wire bytes;
  an empty byte list is its \<open>return 0\<close>. A null payload pointer is \<open>None\<close>.
\<close>

definition encode_payload ::
    "rbp_header \<Rightarrow> u32 \<Rightarrow> u8 list option \<Rightarrow> nat \<Rightarrow> rbp_header \<times> u32 \<times> u8 list" where
  "encode_payload h seq payload len =
     (if RBP_MAX_PAYLOAD < len \<or> (len \<noteq> 0 \<and> payload = None) then (h, seq, [])
      else let h' = h\<lparr>h_magic0 := RBP_MAGIC0, h_magic1 := RBP_MAGIC1, h_major := RBP_MAJOR,
                      h_minor := RBP_MINOR, h_header_size := 32, h_tx_seq := seq,
                      h_reserved := 0, h_payload_size := word_of_nat len\<rparr>;
               body = (case payload of None \<Rightarrow> [] | Some p \<Rightarrow> take len p);
               (enc, crc) = foldl stream_byte (cobs_enc_init, 0xFFFFFFFF)
                              (rbp_header_pack h' @ body);
               enc' = foldl cobs_put enc (put32 (crc XOR 0xFFFFFFFF))
           in (h', seq + 1, cobs_finish enc' @ [0]))"

definition rbp_frame_encode ::
    "rbp_header \<Rightarrow> u32 \<Rightarrow> u8 list option \<Rightarrow> nat \<Rightarrow> u32 \<times> u8 list" where
  "rbp_frame_encode hdr seq payload len =
     (let (h, seq', out) = encode_payload hdr seq payload len in (seq', out))"

definition rbp_txframe_commit :: "rbp_txframe \<Rightarrow> u32 \<Rightarrow> rbp_txframe \<times> u32 \<times> u8 list" where
  "rbp_txframe_commit f seq =
     (let (h, seq', out) =
            encode_payload (tx_hdr f) seq (Some (tx_payload f)) (tx_payload_len f)
      in (f\<lparr>tx_hdr := h\<rparr>, seq', out))"

section \<open>Receiver\<close>

datatype rx_state = RXS_IDLE | RXS_IN_FRAME | RXS_DISCARD

datatype rbp_rx_event = RBP_RX_NONE | RBP_RX_FRAME | RBP_RX_OVERFLOW | RBP_RX_TIMEOUT | RBP_RX_GARBAGE

record rbp_rxparser =
  rx_st :: rx_state
  rx_buf :: "u8 list"
  rx_len :: nat
  rx_start :: u32

text \<open>The borrowed payload pointer with its length is the list it points to.\<close>

record rbp_rx_ctx =
  cx_event :: rbp_rx_event
  cx_header :: rbp_header
  cx_payload :: "u8 list"
  cx_crc_ok :: bool
  cx_resume :: "u8 list"

definition rx_reset :: "rbp_rxparser \<Rightarrow> u32 \<Rightarrow> rbp_rxparser" where
  "rx_reset p now = p\<lparr>rx_st := RXS_IDLE, rx_len := 0, rx_start := now\<rparr>"

text \<open>\<open>rbp_rxparser_init\<close> leaves the buffer as it is.\<close>

definition rbp_rxparser_init :: "rbp_rxparser \<Rightarrow> u32 \<Rightarrow> rbp_rxparser" where
  "rbp_rxparser_init p now = p\<lparr>rx_st := RXS_IDLE, rx_len := 0, rx_start := now\<rparr>"

text \<open>A delimiter ends a run of \<open>rx_len p\<close> bytes: the body of the inner \<open>if\<close> of the feed loop.\<close>

definition rx_run_end :: "rbp_rxparser \<Rightarrow> rbp_rx_ctx \<Rightarrow> u32 \<Rightarrow> u8 list \<Rightarrow> rbp_rxparser \<times> rbp_rx_ctx" where
  "rx_run_end p ctx now rest =
     (let (raw, raw_len) = cobs_decode_in_place (rx_buf p) (rx_len p);
          p' = rx_reset (p\<lparr>rx_buf := raw\<rparr>) now
      in if RBP_HEADER_SIZE + 4 \<le> raw_len \<and> raw_len \<le> RBP_MAX_FRAME_RAW then
           let plen = raw_len - RBP_HEADER_SIZE - 4;
               (ok, h) = rbp_header_parse (take RBP_HEADER_SIZE raw)
           in if ok then
                (p', ctx\<lparr>cx_header := h,
                         cx_crc_ok := (rbp_crc32c (take (RBP_HEADER_SIZE + plen) raw)
                                         = get32 (drop (RBP_HEADER_SIZE + plen) raw)),
                         cx_payload := take (if RBP_MAX_PAYLOAD < plen then RBP_MAX_PAYLOAD else plen)
                                         (drop RBP_HEADER_SIZE raw),
                         cx_event := RBP_RX_FRAME, cx_resume := rest\<rparr>)
              else (p', ctx\<lparr>cx_header := h, cx_event := RBP_RX_GARBAGE, cx_resume := rest\<rparr>)
         else (p', ctx\<lparr>cx_event := RBP_RX_GARBAGE, cx_resume := rest\<rparr>))"

text \<open>The byte loop of \<open>rbp_rxparser_feed\<close>.\<close>

fun rx_loop :: "rbp_rxparser \<Rightarrow> rbp_rx_ctx \<Rightarrow> u32 \<Rightarrow> u8 list \<Rightarrow> rbp_rxparser \<times> rbp_rx_ctx" where
  "rx_loop p ctx now [] = (p, ctx)"
| "rx_loop p ctx now (b # rest) =
     (if rx_st p = RXS_DISCARD then
        rx_loop (if b = 0 then rx_reset p now else p) ctx now rest
      else if b = 0 then
        (if rx_st p = RXS_IN_FRAME \<and> 0 < rx_len p then rx_run_end p ctx now rest
         else rx_loop (rx_reset p now) ctx now rest)
      else
        let p1 = (if rx_st p = RXS_IDLE
                  then p\<lparr>rx_st := RXS_IN_FRAME, rx_len := 0, rx_start := now\<rparr> else p)
        in if RBP_COBS_RECV_MAX \<le> rx_len p1 then
             (p1\<lparr>rx_st := RXS_DISCARD\<rparr>, ctx\<lparr>cx_event := RBP_RX_OVERFLOW, cx_resume := rest\<rparr>)
           else rx_loop (p1\<lparr>rx_buf := (rx_buf p1)[rx_len p1 := b], rx_len := rx_len p1 + 1\<rparr>)
                  ctx now rest)"

definition rbp_rxparser_feed ::
    "rbp_rxparser \<Rightarrow> u8 list \<Rightarrow> u32 \<Rightarrow> rbp_rx_ctx \<Rightarrow> rbp_rxparser \<times> rbp_rx_ctx" where
  "rbp_rxparser_feed p data now ctx =
     (let ctx0 = ctx\<lparr>cx_event := RBP_RX_NONE, cx_resume := []\<rparr>
      in if rx_st p = RXS_IN_FRAME \<and> 1000 \<le> now - rx_start p then
           (p\<lparr>rx_st := RXS_DISCARD, rx_len := 0\<rparr>,
            ctx0\<lparr>cx_event := RBP_RX_TIMEOUT, cx_resume := data\<rparr>)
         else let (p', ctx') = rx_loop p ctx0 now data
              in if cx_event ctx' \<noteq> RBP_RX_NONE then (p', ctx')
                 else if rx_st p' = RXS_IN_FRAME \<and> 1000 < now - rx_start p' then
                   (p'\<lparr>rx_st := RXS_DISCARD, rx_len := 0\<rparr>, ctx'\<lparr>cx_event := RBP_RX_TIMEOUT\<rparr>)
                 else (p', ctx'))"

section \<open>Lemmas on bytes\<close>

lemma put16_le: "put16 v = le_bytes 2 v"
  by (simp add: put16_def le_bytes_def upt_rec)

lemma put32_le: "put32 v = le_bytes 4 v"
  by (simp add: put32_def le_bytes_def upt_rec)

lemma length_put [simp]: "length (put16 v) = 2" "length (put32 w) = 4"
  by (simp_all add: put16_le put32_le)

lemma get16_le: "get16 (a # b # xs) = le_word [a, b]"
  by (simp add: get16_def)

lemma get32_le: "get32 (a # b # c # d # xs) = le_word [a, b, c, d]"
  by (simp add: get32_def push_bit_or or.assoc)

lemma get16_put16 [simp]: "get16 (put16 v @ xs) = v"
  using le_roundtrip [of 2 v] by (simp add: put16_def get16_le le_bytes_def upt_rec)

lemma get32_put32 [simp]: "get32 (put32 v @ xs) = v"
  using le_roundtrip [of 4 v] by (simp add: put32_def get32_le le_bytes_def upt_rec)

lemma get32_take: "get32 (take 4 p) = get32 p"
  by (simp add: get32_def)

lemma put16_get16: "2 \<le> length p \<Longrightarrow> put16 (get16 p) = take 2 p"
proof -
  assume "2 \<le> length p"
  then obtain a b xs where "p = a # b # xs"
    by (auto simp: Suc_le_length_iff eval_nat_numeral)
  then show ?thesis
    using le_bytes_le_word [of "[a, b]", where ?'a = 16]
    by (simp add: put16_le get16_le eval_nat_numeral del: le_word.simps)
qed

lemma put32_get32: "4 \<le> length p \<Longrightarrow> put32 (get32 p) = take 4 p"
proof -
  assume "4 \<le> length p"
  then obtain a b c d xs where "p = a # b # c # d # xs"
    by (auto simp: Suc_le_length_iff eval_nat_numeral)
  then show ?thesis
    using le_bytes_le_word [of "[a, b, c, d]", where ?'a = 32]
    by (simp add: put32_le get32_le eval_nat_numeral del: le_word.simps)
qed

section \<open>Lemmas on the header\<close>

lemma length_header_pack [simp]: "length (rbp_header_pack h) = 32"
  by (simp add: rbp_header_pack_def)

definition header_valid :: "rbp_header \<Rightarrow> bool" where
  "header_valid h \<longleftrightarrow> h_magic0 h = RBP_MAGIC0 \<and> h_magic1 h = RBP_MAGIC1
     \<and> h_header_size h = 32 \<and> h_reserved h = 0"

lemma header_parse_pack: "rbp_header_parse (rbp_header_pack h @ xs) = (header_valid h, h)"
proof -
  let ?p = "rbp_header_pack h @ xs"
  have "drop 6 ?p = put16 (h_header_size h) @ drop 8 ?p"
    "drop 8 ?p = put32 (h_session_id h) @ drop 12 ?p"
    "drop 12 ?p = put32 (h_tx_seq h) @ drop 16 ?p"
    "drop 16 ?p = put32 (h_request_id h) @ drop 20 ?p"
    "drop 20 ?p = put16 (h_opcode h) @ drop 22 ?p"
    "drop 22 ?p = put16 (h_status h) @ drop 24 ?p"
    "drop 24 ?p = put16 (h_payload_size h) @ drop 26 ?p"
    "drop 26 ?p = put16 (h_reserved h) @ drop 28 ?p"
    "drop 28 ?p = put32 (h_connection_id h) @ drop 32 ?p"
    by (simp_all add: rbp_header_pack_def)
  moreover have "?p ! 0 = h_magic0 h" "?p ! 1 = h_magic1 h" "?p ! 2 = h_major h"
    "?p ! 3 = h_minor h" "?p ! 4 = h_kind h" "?p ! 5 = h_flags h"
    by (simp_all add: rbp_header_pack_def)
  ultimately show ?thesis
    by (simp only: rbp_header_parse_def get16_put16 get32_put32 Let_def header_valid_def) simp
qed

lemma take6_nth: "6 \<le> length xs \<Longrightarrow> take 6 xs = [xs ! 0, xs ! 1, xs ! 2, xs ! 3, xs ! 4, xs ! 5]"
  by (auto simp: Suc_le_length_iff eval_nat_numeral)

lemma header_pack_parse:
  assumes "length inp = 32"
  shows "rbp_header_pack (snd (rbp_header_parse inp)) = inp"
proof -
  have "rbp_header_pack (snd (rbp_header_parse inp)) =
      take 6 inp @ take 2 (drop 6 inp) @ take 4 (drop 8 inp) @ take 4 (drop 12 inp)
      @ take 4 (drop 16 inp) @ take 2 (drop 20 inp) @ take 2 (drop 22 inp)
      @ take 2 (drop 24 inp) @ take 2 (drop 26 inp) @ take 4 (drop 28 inp)"
    using assms
    by (simp add: rbp_header_pack_def rbp_header_parse_def Let_def put16_get16 put32_get32 take6_nth)
  also have "\<dots> = take 32 inp"
    by (simp add: take_add_drop [of 28 inp 4, simplified, symmetric]
        take_add_drop [of 26 inp 2, simplified, symmetric]
        take_add_drop [of 24 inp 2, simplified, symmetric]
        take_add_drop [of 22 inp 2, simplified, symmetric]
        take_add_drop [of 20 inp 2, simplified, symmetric]
        take_add_drop [of 16 inp 4, simplified, symmetric]
        take_add_drop [of 12 inp 4, simplified, symmetric]
        take_add_drop [of 8 inp 4, simplified, symmetric]
        take_add_drop [of 6 inp 2, simplified, symmetric])
  finally show ?thesis
    using assms by simp
qed

section \<open>Lemmas on the encoder\<close>

lemma foldl_stream_byte:
  "foldl stream_byte (e, c) xs = (foldl cobs_put e xs, foldl crc_byte c xs)"
  by (induction xs arbitrary: e c) (simp_all add: stream_byte_def)

text \<open>What goes on the wire for a header and a payload: the bytes before COBS.\<close>

definition raw_frame :: "rbp_header \<Rightarrow> u8 list \<Rightarrow> u8 list" where
  "raw_frame h body =
     rbp_header_pack h @ body @ put32 (rbp_crc32c (rbp_header_pack h @ body))"

definition stamped :: "rbp_header \<Rightarrow> u32 \<Rightarrow> nat \<Rightarrow> rbp_header" where
  "stamped h seq len = h\<lparr>h_magic0 := RBP_MAGIC0, h_magic1 := RBP_MAGIC1, h_major := RBP_MAJOR,
     h_minor := RBP_MINOR, h_header_size := 32, h_tx_seq := seq, h_reserved := 0,
     h_payload_size := word_of_nat len\<rparr>"

lemma header_valid_stamped [simp]: "header_valid (stamped h seq len)"
  by (simp add: header_valid_def stamped_def)

lemma encode_payload_wire:
  assumes "length body \<le> RBP_MAX_PAYLOAD"
  shows "encode_payload h seq (Some body) (length body) =
     (stamped h seq (length body), seq + 1,
      rbp_cobs_encode (raw_frame (stamped h seq (length body)) body) @ [0])"
  using assms
  by (simp add: encode_payload_def foldl_stream_byte raw_frame_def rbp_cobs_encode_def
      rbp_crc32c_def stamped_def [symmetric] Let_def)

lemma rbp_frame_encode_wire:
  "length body \<le> RBP_MAX_PAYLOAD \<Longrightarrow>
   rbp_frame_encode h seq (Some body) (length body) =
     (seq + 1, rbp_cobs_encode (raw_frame (stamped h seq (length body)) body) @ [0])"
  by (simp add: rbp_frame_encode_def encode_payload_wire)

lemma length_raw_frame [simp]: "length (raw_frame h body) = 36 + length body"
  by (simp add: raw_frame_def)

definition txframe_fits :: "rbp_txframe \<Rightarrow> bool" where
  "txframe_fits f \<longleftrightarrow> length (tx_payload f) = RBP_MAX_PAYLOAD \<and> tx_payload_len f \<le> RBP_MAX_PAYLOAD"

abbreviation tx_body :: "rbp_txframe \<Rightarrow> u8 list" where
  "tx_body f \<equiv> take (tx_payload_len f) (tx_payload f)"

lemma txframe_payload_fits:
  assumes "txframe_fits f"
  shows "txframe_fits (snd (rbp_txframe_payload f data))"
    and "fst (rbp_txframe_payload f data) \<longleftrightarrow> length (tx_body f @ data) \<le> RBP_MAX_PAYLOAD"
    and "tx_body (snd (rbp_txframe_payload f data)) =
           (if fst (rbp_txframe_payload f data) then tx_body f @ data else tx_body f)"
    and "tx_hdr (snd (rbp_txframe_payload f data)) = tx_hdr f"
  using assms by (auto simp: rbp_txframe_payload_def txframe_fits_def memcpy_at_def min_def)

lemma encode_length:
  assumes "length body \<le> RBP_MAX_PAYLOAD"
  shows "length (rbp_cobs_encode (raw_frame h body)) \<le> RBP_COBS_RECV_MAX"
proof -
  have "length (raw_frame h body) div 254 \<le> 548 div 254"
    using assms by (intro div_le_mono) simp
  then show ?thesis
    using assms cobs_ref_length [of "raw_frame h body"] by (simp add: rbp_cobs_encode_ref)
qed

section \<open>Lemmas on the receiver\<close>

text \<open>The receiver's invariant: the run fits the buffer, and the state says whether there is one.\<close>

definition rx_inv :: "rbp_rxparser \<Rightarrow> bool" where
  "rx_inv p \<longleftrightarrow> length (rx_buf p) = RBP_COBS_RECV_MAX \<and> rx_len p \<le> RBP_COBS_RECV_MAX
     \<and> (rx_st p = RXS_IDLE \<longrightarrow> rx_len p = 0) \<and> (rx_st p = RXS_IN_FRAME \<longrightarrow> 0 < rx_len p)"

abbreviation rx_run :: "rbp_rxparser \<Rightarrow> u8 list" where
  "rx_run p \<equiv> take (rx_len p) (rx_buf p)"

lemma length_in_place:
  "len \<le> length buf \<Longrightarrow> length (fst (cobs_decode_in_place buf len)) = length buf"
  by (metis cobs_decode_in_place_correct(3) prod.collapse)

lemma rx_inv_reset [simp]: "rx_inv p \<Longrightarrow> rx_inv (rx_reset p now)"
  by (simp add: rx_inv_def rx_reset_def)

lemma rx_run_end_inv: "rx_inv p \<Longrightarrow> rx_inv (fst (rx_run_end p ctx now rest))"
  using length_in_place [of "rx_len p" "rx_buf p"]
  by (auto simp: rx_run_end_def rx_inv_def rx_reset_def Let_def split: prod.splits)

lemma rx_run_end_resume:
  "cx_resume (snd (rx_run_end p ctx now rest)) = rest"
  "cx_event (snd (rx_run_end p ctx now rest)) \<in> {RBP_RX_FRAME, RBP_RX_GARBAGE}"
  "rx_st (fst (rx_run_end p ctx now rest)) = RXS_IDLE"
  by (auto simp: rx_run_end_def rx_reset_def Let_def split: prod.splits)

lemma rx_loop_inv: "rx_inv p \<Longrightarrow> rx_inv (fst (rx_loop p ctx now data))"
proof (induction p ctx now data rule: rx_loop.induct)
  case (1 p ctx now)
  then show ?case by simp
next
  case (2 p ctx now b rest)
  let ?p1 = "if rx_st p = RXS_IDLE
    then p\<lparr>rx_st := RXS_IN_FRAME, rx_len := 0, rx_start := now\<rparr> else p"
  show ?case
  proof (cases "rx_st p = RXS_DISCARD \<or> b = 0")
    case True
    with 2 show ?thesis by (auto simp: rx_run_end_inv)
  next
    case False
    have "rx_inv (?p1\<lparr>rx_st := RXS_DISCARD\<rparr>)"
      using "2.prems" by (simp add: rx_inv_def)
    moreover have "\<not> RBP_COBS_RECV_MAX \<le> rx_len ?p1 \<Longrightarrow>
        rx_inv (?p1\<lparr>rx_buf := (rx_buf ?p1)[rx_len ?p1 := b], rx_len := rx_len ?p1 + 1\<rparr>)"
      using "2.prems" False by (cases "rx_st p") (simp_all add: rx_inv_def)
    ultimately show ?thesis
      using "2.IH"(3) [of ?p1] False by (auto simp: Let_def)
  qed
qed

lemma rx_loop_resume:
  "cx_event ctx = RBP_RX_NONE \<Longrightarrow> cx_resume ctx = [] \<Longrightarrow>
     (if cx_event (snd (rx_loop p ctx now data)) = RBP_RX_NONE
      then cx_resume (snd (rx_loop p ctx now data)) = []
      else length (cx_resume (snd (rx_loop p ctx now data))) < length data)"
proof (induction p ctx now data rule: rx_loop.induct)
  case (1 p ctx now)
  then show ?case by simp
next
  case (2 p ctx now b rest)
  have step: "(if e = RBP_RX_NONE then r = [] else length r < length rest) \<Longrightarrow>
      (if e = RBP_RX_NONE then r = [] else length r < length (b # rest))" for e and r :: "u8 list"
    by (auto split: if_splits)
  let ?p1 = "if rx_st p = RXS_IDLE
    then p\<lparr>rx_st := RXS_IN_FRAME, rx_len := 0, rx_start := now\<rparr> else p"
  consider "rx_st p = RXS_DISCARD" | "rx_st p \<noteq> RXS_DISCARD" "b = 0" | "rx_st p \<noteq> RXS_DISCARD" "b \<noteq> 0"
    by blast
  then show ?case
  proof cases
    case 1
    with step [OF "2.IH"(1)] "2.prems" show ?thesis by (cases "b = 0") (auto split: if_splits)
  next
    case c: 2
    show ?thesis
    proof (cases "rx_st p = RXS_IN_FRAME \<and> 0 < rx_len p")
      case True
      with c rx_run_end_resume [of p ctx now rest] show ?thesis by auto
    next
      case False
      with c step [OF "2.IH"(2)] "2.prems" show ?thesis by (auto split: if_splits)
    qed
  next
    case c: 3
    show ?thesis
    proof (cases "RBP_COBS_RECV_MAX \<le> rx_len ?p1")
      case True
      with c show ?thesis by (simp add: Let_def)
    next
      case False
      with c step [OF "2.IH"(3) [of ?p1]] "2.prems" show ?thesis
        by (auto simp: Let_def split: if_splits)
    qed
  qed
qed

lemma feed_inv: "rx_inv p \<Longrightarrow> rx_inv (fst (rbp_rxparser_feed p data now ctx))"
  using rx_loop_inv [of p "ctx\<lparr>cx_event := RBP_RX_NONE, cx_resume := []\<rparr>" now data]
  by (auto simp: rbp_rxparser_feed_def Let_def rx_inv_def split: prod.splits)

text \<open>Each feed consumes input or leaves the in-frame state: the measure of the drain loop.\<close>

definition drain_measure :: "rbp_rxparser \<Rightarrow> u8 list \<Rightarrow> nat" where
  "drain_measure p data = 2 * length data + (if rx_st p = RXS_IN_FRAME then 1 else 0)"

lemma feed_progress:
  assumes "cx_event (snd (rbp_rxparser_feed p data now ctx)) \<noteq> RBP_RX_NONE" and "data \<noteq> []"
  shows "drain_measure (fst (rbp_rxparser_feed p data now ctx))
           (cx_resume (snd (rbp_rxparser_feed p data now ctx))) < drain_measure p data"
proof -
  let ?ctx = "ctx\<lparr>cx_event := RBP_RX_NONE, cx_resume := []\<rparr>"
  show ?thesis
    using assms rx_loop_resume [of ?ctx p now data]
    by (auto simp: rbp_rxparser_feed_def drain_measure_def Let_def split: prod.splits if_splits)
qed

text \<open>
  \<open>rbp_rx_drain\<close>: feed until the range is consumed, calling back on every event. The user pointer of
  the callback is the state \<open>'s\<close>. The guard \<open>resume_len >= (size_t)-1\<close> of the C loop, which never
  holds for a real length, is left out.
\<close>

function rbp_rx_drain ::
    "rbp_rxparser \<Rightarrow> u8 list \<Rightarrow> u32 \<Rightarrow> rbp_rx_ctx \<Rightarrow> (rbp_rx_ctx \<Rightarrow> 's \<Rightarrow> 's) \<Rightarrow> 's
       \<Rightarrow> rbp_rxparser \<times> rbp_rx_ctx \<times> 's" where
  "rbp_rx_drain p data now ctx on_event user =
     (if data = [] then (p, ctx, user)
      else let p' = fst (rbp_rxparser_feed p data now ctx);
               ctx' = snd (rbp_rxparser_feed p data now ctx);
               user' = on_event ctx' user
           in if cx_event ctx' = RBP_RX_NONE then (p', ctx', user')
              else rbp_rx_drain p' (cx_resume ctx') now ctx' on_event user')"
  by pat_completeness auto
termination
  by (relation "measure (\<lambda>(p, data, now, ctx, f, u). drain_measure p data)")
    (auto simp: feed_progress)

declare rbp_rx_drain.simps [simp del]

section \<open>A reference receiver, byte by byte\<close>

text \<open>
  What the callback of a client records of an event: a delivered frame with the fields the parser
  wrote for it, or the kind of the loss.
\<close>

datatype rx_item =
    Rx_frame rbp_header "u8 list" bool
  | Rx_overflow
  | Rx_timeout
  | Rx_garbage

definition rx_note :: "rbp_rx_ctx \<Rightarrow> rx_item list \<Rightarrow> rx_item list" where
  "rx_note ctx log = (case cx_event ctx of
       RBP_RX_NONE \<Rightarrow> log
     | RBP_RX_FRAME \<Rightarrow> log @ [Rx_frame (cx_header ctx) (cx_payload ctx) (cx_crc_ok ctx)]
     | RBP_RX_OVERFLOW \<Rightarrow> log @ [Rx_overflow]
     | RBP_RX_TIMEOUT \<Rightarrow> log @ [Rx_timeout]
     | RBP_RX_GARBAGE \<Rightarrow> log @ [Rx_garbage])"

text \<open>A whole session: the driver drains one chunk after the other, each with its own time.\<close>

fun rx_session ::
    "rbp_rxparser \<Rightarrow> (u32 \<times> u8 list) list \<Rightarrow> rbp_rx_ctx \<Rightarrow> rx_item list
       \<Rightarrow> rbp_rxparser \<times> rx_item list" where
  "rx_session p [] ctx log = (p, log)"
| "rx_session p ((now, data) # cs) ctx log =
     (let (p', ctx', log') = rbp_rx_drain p data now ctx rx_note log
      in rx_session p' cs ctx' log')"

definition timed_bytes :: "(u32 \<times> u8 list) list \<Rightarrow> (u32 \<times> u8) list" where
  "timed_bytes cs = concat (map (\<lambda>(t, d). map (Pair t) d) cs)"

text \<open>
  The reference looks at one byte with its arrival time: a stale run is given up first, a zero ends a
  run, anything else extends it until the run is longer than any encoded frame.
\<close>

definition rx_run_item :: "u8 list \<Rightarrow> rx_item" where
  "rx_run_item run =
     (let raw = rbp_cobs_decode run; n = length raw; (ok, h) = rbp_header_parse (take 32 raw)
      in if 36 \<le> n \<and> n \<le> 548 \<and> ok
         then Rx_frame h (take (n - 36) (drop 32 raw))
                (rbp_crc32c (take (n - 4) raw) = get32 (drop (n - 4) raw))
         else Rx_garbage)"

datatype rx_ref = Ref_idle | Ref_run "u8 list" u32 | Ref_discard

definition ref_expire :: "u32 \<Rightarrow> rx_ref \<times> rx_item list \<Rightarrow> rx_ref \<times> rx_item list" where
  "ref_expire now st = (case fst st of
       Ref_run r t0 \<Rightarrow> if 1000 \<le> now - t0 then (Ref_discard, snd st @ [Rx_timeout]) else st
     | _ \<Rightarrow> st)"

fun ref_take :: "u32 \<Rightarrow> u8 \<Rightarrow> rx_ref \<times> rx_item list \<Rightarrow> rx_ref \<times> rx_item list" where
  "ref_take now b (Ref_discard, log) = (if b = 0 then Ref_idle else Ref_discard, log)"
| "ref_take now b (Ref_idle, log) = (if b = 0 then Ref_idle else Ref_run [b] now, log)"
| "ref_take now b (Ref_run r t0, log) =
     (if b = 0 then (Ref_idle, log @ [rx_run_item r])
      else if RBP_COBS_RECV_MAX \<le> length r then (Ref_discard, log @ [Rx_overflow])
      else (Ref_run (r @ [b]) t0, log))"

definition ref_byte :: "rx_ref \<times> rx_item list \<Rightarrow> u32 \<times> u8 \<Rightarrow> rx_ref \<times> rx_item list" where
  "ref_byte st tb = ref_take (fst tb) (snd tb) (ref_expire (fst tb) st)"

definition rx_abs :: "rbp_rxparser \<Rightarrow> rx_ref" where
  "rx_abs p = (case rx_st p of
       RXS_IDLE \<Rightarrow> Ref_idle
     | RXS_IN_FRAME \<Rightarrow> Ref_run (rx_run p) (rx_start p)
     | RXS_DISCARD \<Rightarrow> Ref_discard)"

subsection \<open>The parser refines the reference\<close>

lemma rx_run_end_ref:
  assumes "rx_inv p"
  shows "rx_abs (fst (rx_run_end p ctx now rest)) = Ref_idle"
    and "rx_note (snd (rx_run_end p ctx now rest)) log = log @ [rx_run_item (rx_run p)]"
proof -
  obtain raw n where d: "cobs_decode_in_place (rx_buf p) (rx_len p) = (raw, n)"
    by (cases "cobs_decode_in_place (rx_buf p) (rx_len p)")
  have le: "rx_len p \<le> length (rx_buf p)"
    using assms by (simp add: rx_inv_def)
  define src where "src = rbp_cobs_decode (rx_run p)"
  from cobs_decode_in_place_correct [OF le d]
  have raw: "take n raw = src" and n: "n = length src"
    by (simp_all add: src_def)
  have cut: "take k (drop j raw) = take k (drop j src)" if "j + k \<le> n" for j k
    using that by (simp flip: raw add: drop_take)
  have g: "get32 (drop (n - 4) raw) = get32 (drop (n - 4) src)" if "4 \<le> n"
    using that cut [of "n - 4" 4] get32_take [of "drop (n - 4) raw"]
      get32_take [of "drop (n - 4) src"] by simp
  show "rx_abs (fst (rx_run_end p ctx now rest)) = Ref_idle"
    by (simp add: rx_abs_def rx_run_end_resume)
  show "rx_note (snd (rx_run_end p ctx now rest)) log = log @ [rx_run_item (rx_run p)]"
    using cut [of 0 32] cut [of 0 "n - 4"] cut [of 32 "n - 36"] g
    by (auto simp: rx_run_end_def rx_run_item_def d n [symmetric] src_def [symmetric] rx_note_def
        Let_def split: prod.splits)
qed

definition rx_fresh :: "u32 \<Rightarrow> rbp_rxparser \<Rightarrow> bool" where
  "rx_fresh now p \<longleftrightarrow> (rx_st p = RXS_IN_FRAME \<longrightarrow> now - rx_start p < 1000)"

lemma ref_expire_fresh: "rx_fresh now p \<Longrightarrow> ref_expire now (rx_abs p, log) = (rx_abs p, log)"
  by (auto simp: rx_fresh_def ref_expire_def rx_abs_def split: rx_state.splits)

lemma rx_loop_ref:
  assumes "rx_inv p" and "rx_fresh now p" and "cx_event ctx = RBP_RX_NONE"
    and "rx_loop p ctx now data = (p', ctx')" and "cx_resume ctx = []"
  shows "rx_fresh now p' \<and> foldl ref_byte (rx_abs p, log) (map (Pair now) data) =
           foldl ref_byte (rx_abs p', rx_note ctx' log) (map (Pair now) (cx_resume ctx'))"
  using assms
proof (induction p ctx now data arbitrary: p' ctx' rule: rx_loop.induct)
  case (1 p ctx now)
  then show ?case by (simp add: rx_note_def)
next
  case (2 p ctx now b rest)
  let ?p1 = "if rx_st p = RXS_IDLE
    then p\<lparr>rx_st := RXS_IN_FRAME, rx_len := 0, rx_start := now\<rparr> else p"
  have head: "foldl ref_byte (rx_abs p, log) (map (Pair now) (b # rest)) =
      foldl ref_byte (ref_take now b (rx_abs p, log)) (map (Pair now) rest)"
    using "2.prems" by (simp add: ref_byte_def ref_expire_fresh)
  consider "rx_st p = RXS_DISCARD" | "rx_st p \<noteq> RXS_DISCARD" "b = 0" | "rx_st p \<noteq> RXS_DISCARD" "b \<noteq> 0"
    by blast
  then show ?case
  proof cases
    case 1
    let ?q = "if b = 0 then rx_reset p now else p"
    have "rx_inv ?q" "rx_fresh now ?q" "ref_take now b (rx_abs p, log) = (rx_abs ?q, log)"
      using 1 "2.prems" by (auto simp: rx_fresh_def rx_reset_def rx_abs_def rx_inv_def)
    with 1 "2.IH"(1) [of p' ctx'] "2.prems" head show ?thesis by simp
  next
    case c: 2
    show ?thesis
    proof (cases "rx_st p = RXS_IN_FRAME \<and> 0 < rx_len p")
      case True
      then have r: "rx_run_end p ctx now rest = (p', ctx')"
        using c "2.prems" by simp
      then have "rx_fresh now p'" "cx_resume ctx' = rest"
        using rx_run_end_resume [of p ctx now rest] by (simp_all add: rx_fresh_def)
      moreover have "ref_take now b (rx_abs p, log) = (rx_abs p', rx_note ctx' log)"
        using rx_run_end_ref [OF "2.prems"(1), of ctx now rest] r c True
        by (simp add: rx_abs_def [of p])
      ultimately show ?thesis
        using head by simp
    next
      case False
      let ?q = "rx_reset p now"
      have "rx_inv ?q" "rx_fresh now ?q" "ref_take now b (rx_abs p, log) = (rx_abs ?q, log)"
        using c False "2.prems"
        by (auto simp: rx_fresh_def rx_reset_def rx_abs_def rx_inv_def split: rx_state.splits)
      with c False "2.IH"(2) [of p' ctx'] "2.prems" head show ?thesis by (auto split: if_splits)
    qed
  next
    case c: 3
    have p1: "rx_inv (?p1\<lparr>rx_buf := (rx_buf ?p1)[rx_len ?p1 := b], rx_len := rx_len ?p1 + 1\<rparr>)"
      if "rx_len ?p1 < RBP_COBS_RECV_MAX"
      using that "2.prems"(1) c by (cases "rx_st p") (simp_all add: rx_inv_def)
    show ?thesis
    proof (cases "RBP_COBS_RECV_MAX \<le> rx_len ?p1")
      case True
      then have full: "rx_st p = RXS_IN_FRAME" "length (rx_run p) = RBP_COBS_RECV_MAX"
        using c "2.prems"(1) by (cases "rx_st p", simp_all add: rx_inv_def)+
      then have "(p', ctx') = (p\<lparr>rx_st := RXS_DISCARD\<rparr>, ctx\<lparr>cx_event := RBP_RX_OVERFLOW, cx_resume := rest\<rparr>)"
        using c True "2.prems"(4) by (simp add: Let_def)
      then show ?thesis
        using head full c by (auto simp: rx_fresh_def rx_abs_def rx_note_def min_def split: if_splits)
    next
      case False
      let ?q = "?p1\<lparr>rx_buf := (rx_buf ?p1)[rx_len ?p1 := b], rx_len := rx_len ?p1 + 1\<rparr>"
      have "rx_fresh now ?q"
        using "2.prems" c by (simp add: rx_fresh_def)
      moreover have "ref_take now b (rx_abs p, log) = (rx_abs ?q, log)"
        using c False "2.prems"(1)
        by (cases "rx_st p") (simp_all add: rx_abs_def rx_inv_def take_Suc_conv_app_nth)
      ultimately show ?thesis
        using c False "2.IH"(3) [of ?p1 p' ctx'] "2.prems" p1 head by (simp add: Let_def)
    qed
  qed
qed

text \<open>The trailing timeout test of the feed never fires: a run the loop leaves open is fresh.\<close>

lemma feed_loop:
  assumes "rx_inv p" and "rx_fresh now p"
  shows "rbp_rxparser_feed p data now ctx =
           rx_loop p (ctx\<lparr>cx_event := RBP_RX_NONE, cx_resume := []\<rparr>) now data"
proof -
  let ?c = "ctx\<lparr>cx_event := RBP_RX_NONE, cx_resume := []\<rparr>"
  obtain p' ctx' where l: "rx_loop p ?c now data = (p', ctx')"
    by (cases "rx_loop p ?c now data")
  have "rx_fresh now p'"
    using rx_loop_ref [OF assms _ l] by simp
  then have "\<not> (rx_st p' = RXS_IN_FRAME \<and> 1000 < now - rx_start p')"
    by (auto simp: rx_fresh_def)
  moreover have "\<not> (rx_st p = RXS_IN_FRAME \<and> 1000 \<le> now - rx_start p)"
    using assms by (auto simp: rx_fresh_def)
  ultimately show ?thesis
    by (auto simp: rbp_rxparser_feed_def l Let_def)
qed

lemma feed_stale:
  assumes "\<not> rx_fresh now p"
  shows "rbp_rxparser_feed p data now ctx =
           (p\<lparr>rx_st := RXS_DISCARD, rx_len := 0\<rparr>,
            ctx\<lparr>cx_event := RBP_RX_TIMEOUT, cx_resume := data\<rparr>)"
  using assms by (auto simp: rbp_rxparser_feed_def rx_fresh_def Let_def)

lemma ref_byte_stale:
  assumes "\<not> rx_fresh now p"
  shows "ref_byte (rx_abs p, log) (now, b) = ref_byte (Ref_discard, log @ [Rx_timeout]) (now, b)"
  using assms by (auto simp: ref_byte_def ref_expire_def rx_fresh_def rx_abs_def)

lemma drain_ref:
  "rx_inv p \<Longrightarrow> rbp_rx_drain p data now ctx rx_note log = (p', ctx', log') \<Longrightarrow>
   rx_inv p' \<and> (rx_abs p', log') = foldl ref_byte (rx_abs p, log) (map (Pair now) data)"
proof (induction "drain_measure p data" arbitrary: p data ctx log rule: less_induct)
  case less
  let ?c = "ctx\<lparr>cx_event := RBP_RX_NONE, cx_resume := []\<rparr>"
  show ?case
  proof (cases data)
    case Nil
    with less.prems show ?thesis
      by (simp add: rbp_rx_drain.simps)
  next
    case (Cons b rest)
    then have ne: "data \<noteq> []" by simp
    obtain q cx where f: "rbp_rxparser_feed p data now ctx = (q, cx)"
      by (cases "rbp_rxparser_feed p data now ctx")
    have q: "rx_inv q"
      using feed_inv [OF less.prems(1), of data now ctx] f by simp
    have fold: "foldl ref_byte (rx_abs p, log) (map (Pair now) data) =
        foldl ref_byte (rx_abs q, rx_note cx log) (map (Pair now) (cx_resume cx))"
    proof (cases "rx_fresh now p")
      case True
      then show ?thesis
        using f rx_loop_ref [OF less.prems(1) True, of ?c data q cx log]
          feed_loop [OF less.prems(1) True] by simp
    next
      case False
      then have "q = p\<lparr>rx_st := RXS_DISCARD, rx_len := 0\<rparr>"
        "cx = ctx\<lparr>cx_event := RBP_RX_TIMEOUT, cx_resume := data\<rparr>"
        using f feed_stale [OF False, of data ctx] by simp_all
      then show ?thesis
        using ref_byte_stale [OF False, of log b] Cons by (simp add: rx_abs_def rx_note_def)
    qed
    show ?thesis
    proof (cases "cx_event cx = RBP_RX_NONE")
      case True
      have fr: "rx_fresh now p"
        using True f feed_stale [of now p data ctx] by (cases "rx_fresh now p") auto
      then have "cx_resume cx = []"
        using True f rx_loop_resume [of ?c p now data] feed_loop [OF less.prems(1) fr, of data ctx]
        by simp
      then show ?thesis
        using less.prems f True fold q ne by (auto simp: rbp_rx_drain.simps [of p data])
    next
      case False
      have "drain_measure q (cx_resume cx) < drain_measure p data"
        using feed_progress [of p data now ctx] f False ne by simp
      from less.hyps [OF this q, of cx "rx_note cx log"] show ?thesis
        using less.prems f False fold ne by (simp add: rbp_rx_drain.simps [of p data])
    qed
  qed
qed

lemma session_ref:
  "rx_inv p \<Longrightarrow> rx_session p cs ctx log = (p', log') \<Longrightarrow>
   rx_inv p' \<and> (rx_abs p', log') = foldl ref_byte (rx_abs p, log) (timed_bytes cs)"
proof (induction p cs ctx log rule: rx_session.induct)
  case (1 p ctx log)
  then show ?case by (simp add: timed_bytes_def)
next
  case (2 p now data cs ctx log)
  obtain q cx l where d: "rbp_rx_drain p data now ctx rx_note log = (q, cx, l)"
    by (cases "rbp_rx_drain p data now ctx rx_note log")
  from drain_ref [OF "2.prems"(1) d]
  have q: "rx_inv q" and e: "(rx_abs q, l) = foldl ref_byte (rx_abs p, log) (map (Pair now) data)"
    by simp_all
  have "rx_session q cs cx l = (p', log')"
    using "2.prems"(2) d by simp
  from "2.IH" [OF d [symmetric] refl refl q this] show ?case
    using e by (simp add: timed_bytes_def)
qed

subsection \<open>Delivery\<close>

text \<open>The bytes of one frame arrive in less than a second, measured from the first one.\<close>

definition in_time :: "(u32 \<times> u8) list \<Rightarrow> bool" where
  "in_time tbs \<longleftrightarrow> (\<forall>tb \<in> set tbs. fst tb - fst (hd tbs) < 1000)"

lemma ref_run_extend:
  assumes "\<forall>tb \<in> set tbs. snd tb \<noteq> 0 \<and> fst tb - t0 < 1000"
    and "length (r @ map snd tbs) \<le> RBP_COBS_RECV_MAX"
  shows "foldl ref_byte (Ref_run r t0, log) tbs = (Ref_run (r @ map snd tbs) t0, log)"
  using assms
  by (induction tbs arbitrary: r) (auto simp: ref_byte_def ref_expire_def not_le)

lemma rx_run_item_frame:
  assumes "length body \<le> RBP_MAX_PAYLOAD" and "header_valid h"
  shows "rx_run_item (rbp_cobs_encode (raw_frame h body)) = Rx_frame h body True"
proof -
  have dec: "rbp_cobs_decode (rbp_cobs_encode (raw_frame h body)) = raw_frame h body"
    by (simp add: rbp_cobs_decode_def rbp_cobs_encode_ref cobs_dec_ref)
  have "rbp_header_parse (take 32 (raw_frame h body)) = (True, h)"
    using header_parse_pack [of h "[]"] assms(2) by (simp add: raw_frame_def)
  moreover have "take (32 + length body) (raw_frame h body) = rbp_header_pack h @ body"
    "take (length body) (drop 32 (raw_frame h body)) = body"
    by (simp_all add: raw_frame_def)
  moreover have "get32 (drop (32 + length body) (raw_frame h body)) =
      rbp_crc32c (rbp_header_pack h @ body)"
    using get32_put32 [of "rbp_crc32c (rbp_header_pack h @ body)" "[]"] by (simp add: raw_frame_def)
  ultimately show ?thesis
    using assms(1) by (simp add: rx_run_item_def dec Let_def)
qed

lemma encode_ne [simp]: "rbp_cobs_encode xs \<noteq> []"
  by (simp add: rbp_cobs_encode_ref)

lemma ref_frame:
  assumes "length body \<le> RBP_MAX_PAYLOAD" and "header_valid h" and "in_time tbs"
    and "map snd tbs = rbp_cobs_encode (raw_frame h body) @ [0]"
  shows "foldl ref_byte (Ref_idle, log) tbs = (Ref_idle, log @ [Rx_frame h body True])"
proof -
  let ?w = "rbp_cobs_encode (raw_frame h body)"
  obtain a x where tbs: "tbs = a @ [x]" and a: "map snd a = ?w" and x: "snd x = 0"
    using assms(4) by (auto simp: map_eq_append_conv)
  obtain y ys where ay: "a = y # ys"
    using a encode_ne [of "raw_frame h body"] by (cases a) (auto simp del: encode_ne)
  have nz: "snd tb \<noteq> 0" if "tb \<in> set a" for tb
    using that a cobs_ref_no_zero [of "raw_frame h body"]
    by (metis imageI list.set_map rbp_cobs_encode_ref)
  have time: "fst tb - fst y < 1000" if "tb \<in> set tbs" for tb
    using that assms(3) by (auto simp: in_time_def tbs ay)
  have "ref_byte (Ref_idle, log) y = (Ref_run [snd y] (fst y), log)"
    using nz [of y] by (simp add: ref_byte_def ref_expire_def ay)
  moreover have "foldl ref_byte (Ref_run [snd y] (fst y), log) ys = (Ref_run ?w (fst y), log)"
  proof -
    have w: "[snd y] @ map snd ys = ?w"
      using a ay by simp
    have "\<forall>tb \<in> set ys. snd tb \<noteq> 0 \<and> fst tb - fst y < 1000"
      using nz time by (auto simp: tbs ay)
    from ref_run_extend [OF this, of "[snd y]" log] show ?thesis
      using encode_length [OF assms(1), of h] by (simp only: w)
  qed
  moreover have "ref_byte (Ref_run ?w (fst y), log) x = (Ref_idle, log @ [Rx_frame h body True])"
    using time [of x] x rx_run_item_frame [OF assms(1,2)]
    by (simp add: ref_byte_def ref_expire_def tbs not_le)
  ultimately show ?thesis
    by (simp add: tbs ay)
qed

text \<open>A frame as a sender hands it over, and what the receiver is to make of it.\<close>

type_synonym sent_frame = "rbp_header \<times> u32 \<times> u8 list"

fun frame_wire :: "sent_frame \<Rightarrow> u8 list" where
  "frame_wire (h, seq, body) = snd (rbp_frame_encode h seq (Some body) (length body))"

fun frame_item :: "sent_frame \<Rightarrow> rx_item" where
  "frame_item (h, seq, body) = Rx_frame (stamped h seq (length body)) body True"

fun frame_arrives :: "sent_frame \<Rightarrow> (u32 \<times> u8) list \<Rightarrow> bool" where
  "frame_arrives (h, seq, body) tbs \<longleftrightarrow>
     length body \<le> RBP_MAX_PAYLOAD \<and> in_time tbs \<and> map snd tbs = frame_wire (h, seq, body)"

lemma ref_frame_arrives:
  "frame_arrives f tbs \<Longrightarrow> foldl ref_byte (Ref_idle, log) tbs = (Ref_idle, log @ [frame_item f])"
  by (cases f) (auto simp: rbp_frame_encode_wire intro!: ref_frame)

lemma ref_frames_arrive:
  "list_all2 frame_arrives fs tbss \<Longrightarrow>
   foldl ref_byte (Ref_idle, log) (concat tbss) = (Ref_idle, log @ map frame_item fs)"
  by (induction fs tbss arbitrary: log rule: list_all2_induct) (simp_all add: ref_frame_arrives)

text \<open>A delimiter leads to the idle state from anywhere, with at most one event.\<close>

lemma ref_delimiter:
  "\<exists>lost. length lost \<le> 1 \<and> ref_byte (st, log) (t, 0) = (Ref_idle, log @ lost)"
proof (cases st)
  case (Ref_run r t0)
  then show ?thesis
    by (auto simp: ref_byte_def ref_expire_def intro: exI [of _ "[_]"])
qed (auto simp: ref_byte_def ref_expire_def intro: exI [of _ "[]"])

section \<open>Properties\<close>

text \<open>Packing and parsing a header are inverse to each other: parsing a packed header gives back
  all fifteen fields and accepts it exactly when magic, header size and reserved word are the
  protocol's, and packing what was parsed gives back the 32 bytes.\<close>

theorem header_roundtrip:
  "rbp_header_parse (rbp_header_pack h @ rest) =
     (h_magic0 h = RBP_MAGIC0 \<and> h_magic1 h = RBP_MAGIC1 \<and> h_header_size h = 32 \<and> h_reserved h = 0, h)
   \<and> (length inp = 32 \<longrightarrow> rbp_header_pack (snd (rbp_header_parse inp)) = inp)"
  by (simp add: header_parse_pack header_valid_def header_pack_parse)

theorem header_roundtrip_witness:
  "rbp_header_pack (snd (rbp_header_parse (replicate 30 7 @ [1, 2]))) = replicate 30 7 @ [1, 2]"
  using header_roundtrip [of undefined undefined "replicate 30 7 @ [1, 2]"] by simp

text \<open>C36: a frame with at most 512 payload bytes is encoded to at most \<open>RBP_MAX_ENCODED\<close> bytes
  (so it fits the buffers of that size), of which the last and no other is the zero delimiter, and
  the sequence counter moves on by one; with more bytes nothing is written and no sequence number
  is spent.\<close>

theorem frame_encode_bounds:
  "(let (seq', wire) = rbp_frame_encode h seq (Some body) (length body)
    in if length body \<le> RBP_MAX_PAYLOAD
       then seq' = seq + 1 \<and> length wire \<le> RBP_MAX_ENCODED \<and> last wire = 0
            \<and> 0 \<notin> set (butlast wire)
       else seq' = seq \<and> wire = [])"
proof (cases "length body \<le> RBP_MAX_PAYLOAD")
  case True
  then show ?thesis
    using encode_length [OF True, of "stamped h seq (length body)"]
      cobs_ref_no_zero [of "raw_frame (stamped h seq (length body)) body"]
    by (simp add: rbp_frame_encode_wire rbp_cobs_encode_ref)
next
  case False
  then show ?thesis
    by (simp add: rbp_frame_encode_def encode_payload_def)
qed

text \<open>The frame builder. Appending to a frame succeeds exactly when the payload stays within 512
  bytes, adds the bytes at the end, and leaves the frame alone otherwise; committing then
  puts on the wire what the one-call encoder makes of the same header and bytes.\<close>

theorem txframe_builder:
  assumes "length (tx_payload f) = RBP_MAX_PAYLOAD" and "tx_payload_len f \<le> RBP_MAX_PAYLOAD"
  shows "rbp_txframe_payload f data = (False, f) \<and> RBP_MAX_PAYLOAD < length (tx_body f @ data)
     \<or> (\<exists>f'. rbp_txframe_payload f data = (True, f') \<and> tx_body f' = tx_body f @ data
          \<and> snd (rbp_txframe_commit f' seq) =
              rbp_frame_encode (tx_hdr f) seq (Some (tx_body f @ data)) (length (tx_body f @ data)))"
proof (cases "fst (rbp_txframe_payload f data)")
  case True
  obtain f' where f': "rbp_txframe_payload f data = (True, f')"
    using True by (cases "rbp_txframe_payload f data") simp
  have fits: "txframe_fits f"
    using assms by (simp add: txframe_fits_def)
  have b: "tx_body f' = tx_body f @ data" and h: "tx_hdr f' = tx_hdr f" and ff: "txframe_fits f'"
    using txframe_payload_fits [OF fits, of data] f' by simp_all
  have len: "length (tx_body f @ data) = tx_payload_len f'"
    using ff by (simp flip: b add: txframe_fits_def)
  have "snd (rbp_txframe_commit f' seq) =
      rbp_frame_encode (tx_hdr f') seq (Some (tx_body f')) (length (tx_body f'))"
    using ff by (simp add: rbp_txframe_commit_def rbp_frame_encode_def encode_payload_def
        txframe_fits_def Let_def split: prod.splits)
  then show ?thesis
    using f' b h by metis
next
  case False
  then show ?thesis
    using txframe_payload_fits(2) [of f data] assms
    by (auto simp: rbp_txframe_payload_def txframe_fits_def split: if_splits)
qed

text \<open>A concrete frame: a heartbeat response with the payload 1, 0, 2, and the parser of a fresh boot.\<close>

definition sample_header :: rbp_header where
  "sample_header = \<lparr>h_magic0 = 0, h_magic1 = 0, h_major = 0, h_minor = 0, h_kind = 2, h_flags = 0,
     h_header_size = 0, h_session_id = 0x1234, h_tx_seq = 0, h_request_id = 7, h_opcode = 0x0102,
     h_status = 0, h_payload_size = 0, h_reserved = 9, h_connection_id = 0\<rparr>"

definition sample_parser :: rbp_rxparser where
  "sample_parser = \<lparr>rx_st = RXS_IDLE, rx_buf = replicate 551 0, rx_len = 0, rx_start = 0\<rparr>"

definition sample_frame :: sent_frame where
  "sample_frame = (sample_header, 41, [1, 0, 2])"

definition sample_txframe :: rbp_txframe where
  "sample_txframe = \<lparr>tx_hdr = sample_header, tx_payload = replicate 512 0, tx_payload_len = 510\<rparr>"

definition sample_ctx :: rbp_rx_ctx where
  "sample_ctx = \<lparr>cx_event = RBP_RX_NONE, cx_header = sample_header, cx_payload = [], cx_crc_ok = False,
     cx_resume = []\<rparr>"

lemma sample_parser_inv: "rx_inv sample_parser" "rx_st sample_parser = RXS_IDLE"
  by (simp_all add: sample_parser_def rx_inv_def)

lemma sample_frame_arrives:
  "frame_wire sample_frame \<noteq> []"
  "in_time tbs \<Longrightarrow> map snd tbs = frame_wire sample_frame \<Longrightarrow> frame_arrives sample_frame tbs"
  using rbp_frame_encode_wire [of "[1, 0, 2]" sample_header 41] by (simp_all add: sample_frame_def)

theorem txframe_builder_witness:
  "rbp_txframe_payload sample_txframe [1, 2, 3] = (False, sample_txframe)
   \<and> (\<exists>f'. rbp_txframe_payload sample_txframe [1, 2] = (True, f')
        \<and> tx_body f' = replicate 510 0 @ [1, 2])"
  using txframe_builder [of sample_txframe "[1, 2, 3]"] txframe_builder [of sample_txframe "[1, 2]"]
  by (auto simp: sample_txframe_def rbp_txframe_payload_def)

text \<open>C32: the receive state machine refines the byte-at-a-time reference. However the driver cuts
  the byte stream into chunks, draining the chunks reports exactly the frames and losses, in the order,
  that the reference finds in the timed bytes, and the parser ends in the corresponding state with
  its run inside the 551-byte buffer.\<close>

theorem rx_refines_reference:
  assumes "rx_inv p"
  shows "rx_inv (fst (rx_session p cs ctx log))
    \<and> (rx_abs (fst (rx_session p cs ctx log)), snd (rx_session p cs ctx log)) =
         foldl ref_byte (rx_abs p, log) (timed_bytes cs)"
  using session_ref [OF assms, of cs ctx log] by (metis prod.collapse)

theorem rx_refines_reference_witness:
  "snd (rx_session sample_parser [(5, [3, 7]), (9, [0, 4]), (1100, [1, 2, 0])] sample_ctx []) =
     [Rx_garbage, Rx_timeout]"
proof -
  have "foldl ref_byte (rx_abs sample_parser, []) (timed_bytes [(5, [3, 7]), (9, [0, 4]), (1100, [1, 2, 0])])
      = (Ref_idle, [Rx_garbage, Rx_timeout])"
    by (simp add: sample_parser_def rx_abs_def timed_bytes_def ref_byte_def ref_expire_def
        rx_run_item_def rbp_cobs_decode_def cobs_dec.simps Let_def split: prod.splits)
  then show ?thesis
    using rx_refines_reference [OF sample_parser_inv(1),
        of "[(5, [3, 7]), (9, [0, 4]), (1100, [1, 2, 0])]" sample_ctx "[]"] by simp
qed

text \<open>C31: end to end over the wire. If an idle receiver gets the encodings of a sequence of frames (each
  with at most 512 payload bytes), cut into chunks in any way, and each frame takes less than a
  second to arrive, it reports exactly these frames, in order, each with the header the sender stamped, its
  payload, and a matching CRC, and it is idle again.\<close>

theorem rx_delivers_stream:
  assumes "rx_inv p" and "rx_st p = RXS_IDLE"
    and "list_all2 frame_arrives fs tbss" and "timed_bytes cs = concat tbss"
  shows "snd (rx_session p cs ctx []) = map frame_item fs
    \<and> rx_st (fst (rx_session p cs ctx [])) = RXS_IDLE"
proof -
  obtain p' log' where s: "rx_session p cs ctx [] = (p', log')"
    by (cases "rx_session p cs ctx []")
  have "(rx_abs p', log') = (Ref_idle, map frame_item fs)"
    using session_ref [OF assms(1) s] ref_frames_arrive [OF assms(3), of "[]"] assms(2,4)
    by (simp add: rx_abs_def)
  then show ?thesis
    using s by (auto simp: rx_abs_def split: rx_state.splits)
qed

theorem rx_delivers_stream_witness:
  "snd (rx_session sample_parser [(10, frame_wire sample_frame @ take 20 (frame_wire sample_frame)),
       (700, drop 20 (frame_wire sample_frame))] sample_ctx [])
     = [frame_item sample_frame, frame_item sample_frame]"
proof -
  let ?w = "frame_wire sample_frame"
  let ?a = "map (Pair 10) ?w" and ?b = "map (Pair 10) (take 20 ?w) @ map (Pair 700) (drop 20 ?w)"
  have hd: "fst (hd ?b) = (10 :: u32)" "fst (hd ?a) = (10 :: u32)"
    using sample_frame_arrives(1) by (simp_all add: hd_append hd_map)
  then have "in_time ?a" "in_time ?b"
    by (auto simp: in_time_def)
  then have "list_all2 frame_arrives [sample_frame, sample_frame] [?a, ?b]"
    by (simp add: sample_frame_arrives(2) comp_def)
  from rx_delivers_stream [OF sample_parser_inv this, of "[(10, ?w @ take 20 ?w), (700, drop 20 ?w)]"]
  show ?thesis
    by (simp add: timed_bytes_def)
qed

text \<open>C33: resynchronisation. Whatever state the receiver is in (mid-frame, overflowed, timed out), after
  one delimiter it receives the next frame as if it had been idle: that delimiter causes at most
  one event, and then exactly the frame follows.\<close>

theorem rx_resync:
  assumes "rx_inv p" and "frame_arrives f tbs" and "timed_bytes cs = (t, 0) # tbs"
  shows "\<exists>lost. length lost \<le> 1 \<and> snd (rx_session p cs ctx log) = log @ lost @ [frame_item f]
    \<and> rx_st (fst (rx_session p cs ctx log)) = RXS_IDLE"
proof -
  obtain p' log' where s: "rx_session p cs ctx log = (p', log')"
    by (cases "rx_session p cs ctx log")
  obtain lost where l: "length lost \<le> 1"
    "ref_byte (rx_abs p, log) (t, 0) = (Ref_idle, log @ lost)"
    using ref_delimiter by blast
  have "(rx_abs p', log') = (Ref_idle, (log @ lost) @ [frame_item f])"
    using session_ref [OF assms(1) s] assms(3) l(2) ref_frame_arrives [OF assms(2), of "log @ lost"]
    by simp
  then show ?thesis
    using s l(1) by (auto simp: rx_abs_def split: rx_state.splits)
qed

theorem rx_resync_witness:
  "\<exists>lost. length lost \<le> 1
     \<and> snd (rx_session (sample_parser\<lparr>rx_st := RXS_DISCARD\<rparr>)
              [(3, [0]), (10, frame_wire sample_frame)] sample_ctx []) = lost @ [frame_item sample_frame]"
proof -
  have a: "frame_arrives sample_frame (map (Pair 10) (frame_wire sample_frame))"
    using sample_frame_arrives(1)
    by (intro sample_frame_arrives(2)) (auto simp: in_time_def comp_def hd_map)
  have "rx_inv (sample_parser\<lparr>rx_st := RXS_DISCARD\<rparr>)"
    by (simp add: sample_parser_def rx_inv_def)
  from rx_resync [OF this a, of "[(3, [0]), (10, frame_wire sample_frame)]" 3 sample_ctx "[]"]
  show ?thesis
    by (auto simp: timed_bytes_def)
qed

end
