(* ===== verification/Tlv.thy ===== *)
theory Tlv
  imports Defs Frame
begin

text \<open>
  The flat TLV codec of the control messages (\<open>src/protocol/src/rbp_tlv.c\<close>,
  \<open>src/protocol/include/rbp/tlv.h\<close>): the reader with its bitset of seen tags, the typed getters that
  scan a whole message, the writer with its overflow flag, and the UTF-8 check. The lemmas show that
  a message is accepted exactly when it is the concatenation of items with different tags, that a typed
  getter returns what the writer put there, and which byte strings pass as text.
\<close>

abbreviation (input) RBP_TLV_MAX_TEXT :: nat where "RBP_TLV_MAX_TEXT \<equiv> 96"
abbreviation (input) RBP_TLV_MAX_BYTES :: nat where "RBP_TLV_MAX_BYTES \<equiv> 480"

section \<open>UTF-8 check\<close>

text \<open>The lead byte of a multi-byte sequence: its payload bits and the number of continuation bytes.\<close>

definition utf8_lead :: "u8 \<Rightarrow> (u32 \<times> nat) option" where
  "utf8_lead c =
     (if c AND 0xE0 = 0xC0 \<and> 0xC2 \<le> c then Some (ucast (c AND 0x1F), 1)
      else if c AND 0xF0 = 0xE0 then Some (ucast (c AND 0x0F), 2)
      else if c AND 0xF8 = 0xF0 \<and> c \<le> 0xF4 then Some (ucast (c AND 0x07), 3)
      else None)"

text \<open>The continuation loop: \<open>None\<close> is its \<open>return false\<close>.\<close>

fun utf8_cont :: "u32 \<Rightarrow> u8 list \<Rightarrow> u32 option" where
  "utf8_cont cp [] = Some cp"
| "utf8_cont cp (b # bs) =
     (if b AND 0xC0 \<noteq> 0x80 then None
      else utf8_cont (push_bit 6 cp OR ucast (b AND 0x3F)) bs)"

definition utf8_range_bad :: "nat \<Rightarrow> u32 \<Rightarrow> bool" where
  "utf8_range_bad n cp \<longleftrightarrow> n = 2 \<and> cp < 0x800
     \<or> n = 3 \<and> (cp < 0x10000 \<or> (0xD800 \<le> cp \<and> cp \<le> 0xDFFF))
     \<or> n = 3 \<and> 0x10FFFF < cp"

function utf8_valid :: "u8 list \<Rightarrow> bool" where
  "utf8_valid [] = True"
| "utf8_valid (c # s) =
     (if c = 0 then False
      else if c < 0x80 then utf8_valid s
      else case utf8_lead c of
        None \<Rightarrow> False
      | Some (cp0, n) \<Rightarrow>
          if length s < n then False
          else case utf8_cont cp0 (take n s) of
            None \<Rightarrow> False
          | Some cp \<Rightarrow> if utf8_range_bad n cp then False else utf8_valid (drop n s))"
  by pat_completeness auto
termination
  by (relation "measure length") auto

section \<open>Reader\<close>

text \<open>The pointer and length of the message are the list \<open>tr_buf\<close>.\<close>

record rbp_tlv_reader =
  tr_buf :: "u8 list"
  tr_pos :: nat
  tr_seen :: "u8 list"
  tr_valid :: bool

datatype rbp_tlv_err =
    RBP_TLV_ERR_MALFORMED
  | RBP_TLV_ERR_DUPLICATE
  | RBP_TLV_ERR_TYPE
  | RBP_TLV_ERR_VALUE

text \<open>An item as \<open>rbp_tlv_next\<close> hands it out: tag, type and value bytes.\<close>

type_synonym tlv_item = "u8 \<times> u8 \<times> u8 list"

definition rbp_tlv_reader_init :: "u8 list \<Rightarrow> rbp_tlv_reader" where
  "rbp_tlv_reader_init buf = \<lparr>tr_buf = buf, tr_pos = 0, tr_seen = replicate 32 0, tr_valid = True\<rparr>"

definition rbp_tlv_next :: "rbp_tlv_reader \<Rightarrow> rbp_tlv_reader \<times> (rbp_tlv_err + tlv_item)" where
  "rbp_tlv_next r =
     (if \<not> tr_valid r then (r, Inl RBP_TLV_ERR_MALFORMED)
      else if tr_pos r = length (tr_buf r) then (r, Inl RBP_TLV_ERR_MALFORMED)
      else if length (tr_buf r) - tr_pos r < 4
      then (r\<lparr>tr_valid := False\<rparr>, Inl RBP_TLV_ERR_MALFORMED)
      else
        let t = tr_buf r ! tr_pos r;
            ty = tr_buf r ! (tr_pos r + 1);
            l = unat (get16 (drop (tr_pos r + 2) (tr_buf r)));
            slot = unat (drop_bit 3 t);
            m = push_bit (unat (t AND 7)) 1
        in if length (tr_buf r) - tr_pos r - 4 < l
           then (r\<lparr>tr_valid := False\<rparr>, Inl RBP_TLV_ERR_MALFORMED)
           else if tr_seen r ! slot AND m \<noteq> 0
           then (r\<lparr>tr_valid := False\<rparr>, Inl RBP_TLV_ERR_DUPLICATE)
           else (r\<lparr>tr_seen := (tr_seen r)[slot := tr_seen r ! slot OR m],
                   tr_pos := tr_pos r + 4 + l\<rparr>,
                 Inr (t, ty, take l (drop (tr_pos r + 4) (tr_buf r)))))"

lemma rbp_tlv_next_progress:
  assumes "rbp_tlv_next r = (r', Inr item)"
  shows "tr_pos r < tr_pos r'" and "tr_buf r' = tr_buf r"
  using assms by (auto simp: rbp_tlv_next_def Let_def split: if_splits)

lemma rbp_tlv_next_measure:
  assumes "rbp_tlv_next r = (r', Inr item)" and "tr_pos r < length (tr_buf r)"
  shows "length (tr_buf r') - tr_pos r' < length (tr_buf r) - tr_pos r"
  using rbp_tlv_next_progress [OF assms(1)] assms(2) by simp

text \<open>
  \<open>scan\<close>: its loop keeps the last match, and an error anywhere rejects the message. \<open>*found\<close> is
  the option.
\<close>

function scan_loop ::
    "rbp_tlv_reader \<Rightarrow> u8 \<Rightarrow> (u8 \<times> u8 list) option \<Rightarrow> rbp_tlv_err + (u8 \<times> u8 list) option" where
  "scan_loop r want found =
     (if tr_pos r < length (tr_buf r) then
        (case rbp_tlv_next r of
          (r', Inl e) \<Rightarrow> Inl e
        | (r', Inr (tag, ty, val)) \<Rightarrow>
            scan_loop r' want (if tag = want then Some (ty, val) else found))
      else Inr found)"
  by pat_completeness auto
termination
  by (relation "measure (\<lambda>(r, _). length (tr_buf r) - tr_pos r)")
    (auto dest!: sym [of _ "rbp_tlv_next _"] intro: rbp_tlv_next_measure)

declare scan_loop.simps [simp del]

definition scan :: "rbp_tlv_reader \<Rightarrow> u8 \<Rightarrow> rbp_tlv_err + (u8 \<times> u8 list) option" where
  "scan r want = scan_loop (r\<lparr>tr_pos := 0, tr_seen := replicate 32 0\<rparr>) want None"

definition get_fixed :: "rbp_tlv_reader \<Rightarrow> u8 \<Rightarrow> u8 \<Rightarrow> nat \<Rightarrow> rbp_tlv_err + u8 list option" where
  "get_fixed r tag want_type want_len =
     (case scan r tag of
        Inl e \<Rightarrow> Inl e
      | Inr None \<Rightarrow> Inr None
      | Inr (Some (ty, val)) \<Rightarrow>
          if ty \<noteq> want_type \<or> (want_len \<noteq> 0 \<and> length val \<noteq> want_len) then Inl RBP_TLV_ERR_TYPE
          else Inr (Some val))"

definition rbp_tlv_get_u8 :: "rbp_tlv_reader \<Rightarrow> u8 \<Rightarrow> rbp_tlv_err + u8 option" where
  "rbp_tlv_get_u8 r tag = (case get_fixed r tag RBP_TLV_T_U8 1 of
       Inl e \<Rightarrow> Inl e | Inr None \<Rightarrow> Inr None | Inr (Some v) \<Rightarrow> Inr (Some (v ! 0)))"

definition rbp_tlv_get_u16 :: "rbp_tlv_reader \<Rightarrow> u8 \<Rightarrow> rbp_tlv_err + u16 option" where
  "rbp_tlv_get_u16 r tag = (case get_fixed r tag RBP_TLV_T_U16 2 of
       Inl e \<Rightarrow> Inl e | Inr None \<Rightarrow> Inr None
     | Inr (Some v) \<Rightarrow> Inr (Some (ucast (v ! 0) OR push_bit 8 (ucast (v ! 1)))))"

definition rbp_tlv_get_u32 :: "rbp_tlv_reader \<Rightarrow> u8 \<Rightarrow> rbp_tlv_err + u32 option" where
  "rbp_tlv_get_u32 r tag = (case get_fixed r tag RBP_TLV_T_U32 4 of
       Inl e \<Rightarrow> Inl e | Inr None \<Rightarrow> Inr None
     | Inr (Some v) \<Rightarrow> Inr (Some (ucast (v ! 0) OR push_bit 8 (ucast (v ! 1))
                          OR push_bit 16 (ucast (v ! 2)) OR push_bit 24 (ucast (v ! 3)))))"

text \<open>The \<open>u64\<close> loop runs from the last byte to the first.\<close>

definition rbp_tlv_get_u64 :: "rbp_tlv_reader \<Rightarrow> u8 \<Rightarrow> rbp_tlv_err + u64 option" where
  "rbp_tlv_get_u64 r tag = (case get_fixed r tag RBP_TLV_T_U64 8 of
       Inl e \<Rightarrow> Inl e | Inr None \<Rightarrow> Inr None
     | Inr (Some v) \<Rightarrow> Inr (Some (foldl (\<lambda>x b. push_bit 8 x OR ucast b) 0 (rev (take 8 v)))))"

definition rbp_tlv_get_bool :: "rbp_tlv_reader \<Rightarrow> u8 \<Rightarrow> rbp_tlv_err + bool option" where
  "rbp_tlv_get_bool r tag = (case get_fixed r tag RBP_TLV_T_BOOL 1 of
       Inl e \<Rightarrow> Inl e | Inr None \<Rightarrow> Inr None
     | Inr (Some v) \<Rightarrow> if 1 < v ! 0 then Inl RBP_TLV_ERR_VALUE else Inr (Some (v ! 0 \<noteq> 0)))"

definition rbp_tlv_get_text :: "rbp_tlv_reader \<Rightarrow> u8 \<Rightarrow> rbp_tlv_err + u8 list option" where
  "rbp_tlv_get_text r tag = (case get_fixed r tag RBP_TLV_T_TEXT 0 of
       Inl e \<Rightarrow> Inl e | Inr None \<Rightarrow> Inr None
     | Inr (Some v) \<Rightarrow>
         if RBP_TLV_MAX_TEXT < length v then Inl RBP_TLV_ERR_VALUE
         else if 0 < length v \<and> \<not> utf8_valid v then Inl RBP_TLV_ERR_VALUE
         else Inr (Some v))"

definition rbp_tlv_get_bytes :: "rbp_tlv_reader \<Rightarrow> u8 \<Rightarrow> rbp_tlv_err + u8 list option" where
  "rbp_tlv_get_bytes r tag = (case get_fixed r tag RBP_TLV_T_BYTES 0 of
       Inl e \<Rightarrow> Inl e | Inr None \<Rightarrow> Inr None
     | Inr (Some v) \<Rightarrow> if RBP_TLV_MAX_BYTES < length v then Inl RBP_TLV_ERR_VALUE else Inr (Some v))"

section \<open>Writer\<close>

record rbp_tlv_writer =
  tw_buf :: "u8 list"
  tw_len :: nat
  tw_overflow :: bool
  tw_last_tag :: int

definition rbp_tlv_writer_init :: "rbp_tlv_writer \<Rightarrow> rbp_tlv_writer" where
  "rbp_tlv_writer_init w = w\<lparr>tw_len := 0, tw_overflow := False, tw_last_tag := -1\<rparr>"

definition w_put :: "rbp_tlv_writer \<Rightarrow> u8 \<Rightarrow> u8 \<Rightarrow> u8 list \<Rightarrow> bool \<times> rbp_tlv_writer" where
  "w_put w tag ty v =
     (let w1 = (if uint tag \<le> tw_last_tag w then w\<lparr>tw_overflow := True\<rparr> else w);
          w2 = w1\<lparr>tw_last_tag := uint tag\<rparr>;
          l = length v
      in if RBP_MAX_PAYLOAD < tw_len w2 + 4 + l then (False, w2\<lparr>tw_overflow := True\<rparr>)
         else (True, w2\<lparr>tw_buf := memcpy_at (tw_buf w2) (tw_len w2)
                          ([tag, ty, word_of_nat l, word_of_nat (l div 256)] @ v),
                        tw_len := tw_len w2 + 4 + l\<rparr>))"

definition rbp_tlv_put_u8 :: "rbp_tlv_writer \<Rightarrow> u8 \<Rightarrow> u8 \<Rightarrow> bool \<times> rbp_tlv_writer" where
  "rbp_tlv_put_u8 w tag v = w_put w tag RBP_TLV_T_U8 [v]"

definition rbp_tlv_put_u16 :: "rbp_tlv_writer \<Rightarrow> u8 \<Rightarrow> u16 \<Rightarrow> bool \<times> rbp_tlv_writer" where
  "rbp_tlv_put_u16 w tag v = w_put w tag RBP_TLV_T_U16 [ucast v, ucast (drop_bit 8 v)]"

definition rbp_tlv_put_u32 :: "rbp_tlv_writer \<Rightarrow> u8 \<Rightarrow> u32 \<Rightarrow> bool \<times> rbp_tlv_writer" where
  "rbp_tlv_put_u32 w tag v = w_put w tag RBP_TLV_T_U32
     [ucast v, ucast (drop_bit 8 v), ucast (drop_bit 16 v), ucast (drop_bit 24 v)]"

definition rbp_tlv_put_u64 :: "rbp_tlv_writer \<Rightarrow> u8 \<Rightarrow> u64 \<Rightarrow> bool \<times> rbp_tlv_writer" where
  "rbp_tlv_put_u64 w tag v = w_put w tag RBP_TLV_T_U64 (map (\<lambda>i. ucast (drop_bit (8 * i) v)) [0..<8])"

definition rbp_tlv_put_bool :: "rbp_tlv_writer \<Rightarrow> u8 \<Rightarrow> bool \<Rightarrow> bool \<times> rbp_tlv_writer" where
  "rbp_tlv_put_bool w tag v = w_put w tag RBP_TLV_T_BOOL [if v then 1 else 0]"

text \<open>A C string is the list of its bytes before the terminator.\<close>

definition rbp_tlv_put_text :: "rbp_tlv_writer \<Rightarrow> u8 \<Rightarrow> u8 list \<Rightarrow> bool \<times> rbp_tlv_writer" where
  "rbp_tlv_put_text w tag s =
     (if RBP_TLV_MAX_TEXT < length s then (False, w\<lparr>tw_overflow := True\<rparr>)
      else w_put w tag RBP_TLV_T_TEXT s)"

definition rbp_tlv_put_bytes :: "rbp_tlv_writer \<Rightarrow> u8 \<Rightarrow> u8 list \<Rightarrow> bool \<times> rbp_tlv_writer" where
  "rbp_tlv_put_bytes w tag v =
     (if RBP_TLV_MAX_BYTES < length v then (False, w\<lparr>tw_overflow := True\<rparr>)
      else w_put w tag RBP_TLV_T_BYTES v)"

section \<open>Lemmas on the bitset of seen tags\<close>

definition seen_set :: "u8 list \<Rightarrow> u8 set" where
  "seen_set seen = {t. bit (seen ! unat (drop_bit 3 t)) (unat (t AND 7))}"

lemma tag_slot: "unat (drop_bit 3 (t :: u8)) = unat t div 8" "unat (t AND 7) = unat t mod 8"
proof -
  show "unat (drop_bit 3 t) = unat t div 8"
    by (simp add: drop_bit_eq_div unat_div)
  have "t AND 7 = take_bit 3 t"
    by (simp add: take_bit_eq_mask mask_eq_exp_minus_1)
  then show "unat (t AND 7) = unat t mod 8"
    by (simp add: unsigned_take_bit_eq) (simp add: take_bit_eq_mod)
qed

lemma tag_slot_less: "unat (drop_bit 3 (t :: u8)) < 32" "unat (t AND 7) < 8"
  using unsigned_less [of t, where ?'a = nat] by (simp_all add: tag_slot)

lemma tag_slot_inject:
  "unat (drop_bit 3 t) = unat (drop_bit 3 u) \<Longrightarrow> unat (t AND 7) = unat (u AND 7) \<Longrightarrow> t = (u :: u8)"
  by (metis div_mult_mod_eq tag_slot word_unat_eq_iff)

lemma seen_test: "seen ! unat (drop_bit 3 t) AND 2 ^ unat (t AND 7) \<noteq> 0 \<longleftrightarrow> t \<in> seen_set seen"
  by (simp add: seen_set_def and_exp_eq_0_iff_not_bit)

lemma seen_insert:
  assumes "length seen = 32"
  shows "seen_set (seen[unat (drop_bit 3 t) := seen ! unat (drop_bit 3 t) OR 2 ^ unat (t AND 7)])
           = insert t (seen_set seen)"
proof -
  have m: "bit ((2 :: u8) ^ unat (t AND 7)) (unat (u AND 7)) \<longleftrightarrow> unat (u AND 7) = unat (t AND 7)"
    for u :: u8
    using tag_slot_less(2) [of t] by (auto simp: bit_exp_iff)
  show ?thesis
    using assms tag_slot_less(1) [of t]
    by (auto simp: seen_set_def bit_or_iff m nth_list_update_if dest: tag_slot_inject split: if_splits)
qed

lemma seen_init [simp]: "seen_set (replicate 32 0) = {}"
  by (simp add: seen_set_def tag_slot_less)

section \<open>Lemmas on reading\<close>

text \<open>The wire form of an item and of a message, and the messages that are one.\<close>

fun tlv_item_bytes :: "tlv_item \<Rightarrow> u8 list" where
  "tlv_item_bytes (tag, ty, val) =
     [tag, ty, word_of_nat (length val), word_of_nat (length val div 256)] @ val"

definition tlv_bytes :: "tlv_item list \<Rightarrow> u8 list" where
  "tlv_bytes items = concat (map tlv_item_bytes items)"

definition tlv_message :: "tlv_item list \<Rightarrow> bool" where
  "tlv_message items \<longleftrightarrow>
     distinct (map fst items) \<and> (\<forall>item \<in> set items. length (snd (snd item)) < 65536)"

lemma tlv_bytes_simps [simp]:
  "tlv_bytes [] = []" "tlv_bytes (i # is) = tlv_item_bytes i @ tlv_bytes is"
  "tlv_bytes (is @ js) = tlv_bytes is @ tlv_bytes js"
  by (simp_all add: tlv_bytes_def)

lemma put_length:
  assumes "n < 65536"
  shows "ucast (word_of_nat n :: u16) = (word_of_nat n :: u8)"
    and "ucast (drop_bit 8 (word_of_nat n :: u16)) = (word_of_nat (n div 256) :: u8)"
proof -
  have u: "unat (word_of_nat n :: u16) = n"
    using assms by (simp add: unat_of_nat)
  show "ucast (word_of_nat n :: u16) = (word_of_nat n :: u8)"
    using assms by (simp add: word_unat_eq_iff unsigned_ucast_eq u unat_of_nat take_bit_eq_mod)
  show "ucast (drop_bit 8 (word_of_nat n :: u16)) = (word_of_nat (n div 256) :: u8)"
    using assms by (simp add: word_unat_eq_iff unsigned_ucast_eq u unat_of_nat take_bit_eq_mod
        drop_bit_eq_div unat_div)
qed

lemma put16_nat: "put16 v = [word_of_nat (unat v), word_of_nat (unat v div 256)]"
  using put_length [of "unat v"] unsigned_less [of v, where ?'a = nat]
  by (simp add: put16_def)

lemma get16_length:
  assumes "n < 65536"
  shows "unat (get16 (word_of_nat n # word_of_nat (n div 256) # xs)) = n"
  using put16_nat [of "word_of_nat n"] get16_put16 [of "word_of_nat n" xs] assms
  by (simp add: unat_of_nat)

text \<open>What one successful \<open>rbp_tlv_next\<close> says of the bytes, in both directions.\<close>

lemma next_item:
  assumes "drop (tr_pos r) (tr_buf r) = tlv_item_bytes (t, ty, v) @ rest" and "length v < 65536"
    and "t \<notin> seen_set (tr_seen r)" and "length (tr_seen r) = 32" and "tr_valid r"
  shows "\<exists>r'. rbp_tlv_next r = (r', Inr (t, ty, v)) \<and> tr_buf r' = tr_buf r \<and> tr_valid r'
    \<and> drop (tr_pos r') (tr_buf r') = rest \<and> length (tr_seen r') = 32
    \<and> seen_set (tr_seen r') = insert t (seen_set (tr_seen r))"
proof -
  let ?b = "tr_buf r" and ?p = "tr_pos r"
  have len: "length ?b - ?p = 4 + length v + length rest"
    using arg_cong [OF assms(1), of length] by simp
  have get: "?b ! (?p + k) = drop ?p ?b ! k" if "k < 4" for k
    using that len by simp
  have d: "drop (?p + k) ?b = drop k (tlv_item_bytes (t, ty, v) @ rest)" for k
    by (metis add.commute assms(1) drop_drop)
  have l: "unat (get16 (drop (?p + 2) ?b)) = length v"
    using get16_length [OF assms(2)] d [of 2] by simp
  have d4: "drop (?p + 4) ?b = v @ rest"
    using d [of 4] by simp
  then have "drop (?p + 4 + length v) ?b = rest"
    by (metis add.commute append_eq_conv_conj drop_drop)
  with d4 show ?thesis
    using assms(3-5) len l get [of 0] get [of 1] assms(1) seen_insert [OF assms(4), of t]
    by (simp add: rbp_tlv_next_def Let_def seen_test)
qed

lemma next_Inr:
  assumes "rbp_tlv_next r = (r', Inr (t, ty, v))" and "tr_pos r \<le> length (tr_buf r)"
    and "length (tr_seen r) = 32"
  shows "drop (tr_pos r) (tr_buf r) = tlv_item_bytes (t, ty, v) @ drop (tr_pos r') (tr_buf r)"
    and "length v < 65536" and "t \<notin> seen_set (tr_seen r)" and "length (tr_seen r') = 32"
    and "tr_valid r'" and "tr_buf r' = tr_buf r" and "tr_pos r' \<le> length (tr_buf r')"
    and "seen_set (tr_seen r') = insert t (seen_set (tr_seen r))"
proof -
  let ?b = "tr_buf r" and ?p = "tr_pos r"
  define l where "l = unat (get16 (drop (?p + 2) ?b))"
  have n: "tr_valid r" "4 + l \<le> length ?b - ?p" "t \<notin> seen_set (tr_seen r)"
    "t = ?b ! ?p" "ty = ?b ! (?p + 1)" "v = take l (drop (?p + 4) ?b)"
    "r' = r\<lparr>tr_seen := (tr_seen r)[unat (drop_bit 3 t) := tr_seen r ! unat (drop_bit 3 t)
              OR 2 ^ unat (t AND 7)], tr_pos := ?p + 4 + l\<rparr>"
    using assms(1) by (auto simp: rbp_tlv_next_def Let_def l_def seen_test split: if_splits)
  have v: "length v = l" "l < 65536"
    using n(2,6) unsigned_less [of "get16 (drop (?p + 2) ?b)", where ?'a = nat] by (simp_all add: l_def)
  have "drop ?p ?b = ?b ! ?p # ?b ! (?p + 1) # drop (?p + 2) ?b"
    using n(2) by (simp add: Cons_nth_drop_Suc)
  moreover have "drop (?p + 2) ?b = put16 (get16 (drop (?p + 2) ?b)) @ drop (?p + 4) ?b"
    using put16_get16 [of "drop (?p + 2) ?b"] n(2)
    by (metis (no_types, lifting) add.assoc add.commute append_take_drop_id drop_drop le_diff_conv2
        length_drop numeral_Bit0 le_add1 order_trans assms(2) diff_diff_left)
  moreover have "drop (?p + 4) ?b = v @ drop (tr_pos r') ?b"
    using n(6,7) by (simp add: add.commute flip: drop_drop)
  ultimately show "drop ?p ?b = tlv_item_bytes (t, ty, v) @ drop (tr_pos r') ?b"
    using n(4,5) v by (simp add: put16_nat l_def)
  show "length v < 65536" "t \<notin> seen_set (tr_seen r)" "length (tr_seen r') = 32"
    "tr_valid r'" "tr_buf r' = ?b" "tr_pos r' \<le> length (tr_buf r')"
    "seen_set (tr_seen r') = insert t (seen_set (tr_seen r))"
    using v n seen_insert [OF assms(3), of t] assms(2,3) by auto
qed

lemma scan_loop_complete:
  assumes "drop (tr_pos r) (tr_buf r) = tlv_bytes items" and "tr_pos r \<le> length (tr_buf r)"
    and "tlv_message items" and "seen_set (tr_seen r) \<inter> fst ` set items = {}"
    and "length (tr_seen r) = 32" and "tr_valid r"
  shows "scan_loop r want found =
           Inr (case map_of items want of None \<Rightarrow> found | Some tv \<Rightarrow> Some tv)"
  using assms
proof (induction items arbitrary: r found)
  case Nil
  then show ?case by (simp add: scan_loop.simps)
next
  case (Cons item items)
  obtain t ty v where item: "item = (t, ty, v)" by (cases item)
  obtain r' where r': "rbp_tlv_next r = (r', Inr (t, ty, v))" "tr_buf r' = tr_buf r" "tr_valid r'"
    "drop (tr_pos r') (tr_buf r') = tlv_bytes items" "length (tr_seen r') = 32"
    "seen_set (tr_seen r') = insert t (seen_set (tr_seen r))"
    using next_item [of r t ty v "tlv_bytes items"] Cons.prems by (auto simp: item tlv_message_def)
  have "tr_pos r' \<le> length (tr_buf r')"
    using next_Inr(7) [OF r'(1)] Cons.prems by simp
  moreover have "seen_set (tr_seen r') \<inter> fst ` set items = {}"
    using Cons.prems r'(6) by (auto simp: item tlv_message_def)
  moreover have "tlv_message items"
    using Cons.prems by (simp add: tlv_message_def)
  ultimately have "scan_loop r' want f = Inr (case map_of items want of None \<Rightarrow> f | Some tv \<Rightarrow> Some tv)"
    for f
    using Cons.IH r' by simp
  moreover have "tr_pos r < length (tr_buf r)"
    using Cons.prems(1) by (cases "tr_pos r < length (tr_buf r)") (auto simp: item)
  moreover have "map_of items t = None"
    using Cons.prems(3) by (simp add: item tlv_message_def map_of_eq_None_iff)
  ultimately show ?case
    using r'(1) by (simp add: scan_loop.simps [of r] item)
qed

lemma scan_loop_sound:
  assumes "scan_loop r want found = Inr f" and "tr_pos r \<le> length (tr_buf r)"
    and "length (tr_seen r) = 32"
  shows "\<exists>items. tlv_message items \<and> drop (tr_pos r) (tr_buf r) = tlv_bytes items
           \<and> seen_set (tr_seen r) \<inter> fst ` set items = {}"
  using assms
proof (induction r want found rule: scan_loop.induct)
  case (1 r want found)
  show ?case
  proof (cases "tr_pos r < length (tr_buf r)")
    case True
    then obtain r' t ty v where n: "rbp_tlv_next r = (r', Inr (t, ty, v))"
      and s: "scan_loop r' want (if t = want then Some (ty, v) else found) = Inr f"
      using "1.prems"(1) by (auto simp: scan_loop.simps [of r] split: prod.splits sum.splits)
    note r' = next_Inr [OF n "1.prems"(2,3)]
    obtain items where i: "tlv_message items" "drop (tr_pos r') (tr_buf r') = tlv_bytes items"
      "seen_set (tr_seen r') \<inter> fst ` set items = {}"
      using "1.IH" [OF True n [symmetric] refl refl refl s r'(7,4)] by blast
    have "tlv_message ((t, ty, v) # items)"
      using i(1,3) r'(2,8) by (auto simp: tlv_message_def)
    moreover have "drop (tr_pos r) (tr_buf r) = tlv_bytes ((t, ty, v) # items)"
      using r'(1,6) i(2) by simp
    moreover have "seen_set (tr_seen r) \<inter> fst ` set ((t, ty, v) # items) = {}"
      using r'(3,8) i(3) by auto
    ultimately show ?thesis by blast
  next
    case False
    then show ?thesis
      by (intro exI [of _ "[]"]) (simp add: tlv_message_def)
  qed
qed

lemma scan_iff:
  assumes "tr_valid r"
  shows "scan r want = Inr f \<longleftrightarrow>
    (\<exists>items. tlv_message items \<and> tr_buf r = tlv_bytes items \<and> f = map_of items want)"
proof -
  let ?r = "r\<lparr>tr_pos := 0, tr_seen := replicate 32 0\<rparr>"
  have c: "scan_loop ?r want None = Inr (map_of items want)"
    if "tlv_message items" "tr_buf r = tlv_bytes items" for items
    using scan_loop_complete [of ?r items want None] that assms by (simp split: option.splits)
  show ?thesis
  proof
    assume f: "scan r want = Inr f"
    then obtain items where "tlv_message items" "tr_buf r = tlv_bytes items"
      using scan_loop_sound [of ?r want None f] by (auto simp: scan_def)
    then show "\<exists>items. tlv_message items \<and> tr_buf r = tlv_bytes items \<and> f = map_of items want"
      using c f by (metis Inr_inject scan_def)
  qed (auto simp: c scan_def)
qed

lemma scan_message:
  "tlv_message items \<Longrightarrow> scan (rbp_tlv_reader_init (tlv_bytes items)) want = Inr (map_of items want)"
  by (subst scan_iff) (auto simp: rbp_tlv_reader_init_def)

section \<open>Lemmas on writing\<close>

text \<open>While the overflow flag is down, the buffer holds the items put so far, tags ascending.\<close>

definition tw_inv :: "rbp_tlv_writer \<Rightarrow> tlv_item list \<Rightarrow> bool" where
  "tw_inv w items \<longleftrightarrow> length (tw_buf w) = RBP_MAX_PAYLOAD \<and> tw_len w \<le> RBP_MAX_PAYLOAD
     \<and> (\<not> tw_overflow w \<longrightarrow>
          take (tw_len w) (tw_buf w) = tlv_bytes items
          \<and> sorted_wrt (<) (map fst items)
          \<and> (\<forall>item \<in> set items. uint (fst item) \<le> tw_last_tag w \<and> length (snd (snd item)) \<le> 512))"

lemma tw_inv_init: "length (tw_buf w) = RBP_MAX_PAYLOAD \<Longrightarrow> tw_inv (rbp_tlv_writer_init w) []"
  by (simp add: tw_inv_def rbp_tlv_writer_init_def)

lemma take_memcpy_at:
  "off \<le> length buf \<Longrightarrow> take (off + length data) (memcpy_at buf off data) = take off buf @ data"
  by (simp add: memcpy_at_def)

lemma length_tlv_item: "length (tlv_item_bytes (tag, ty, v)) = 4 + length v"
  by simp

lemma w_put_inv:
  assumes "tw_inv w items"
  shows "tw_inv (snd (w_put w tag ty v)) (items @ [(tag, ty, v)])"
proof -
  have a: "tw_len w + 4 + length v \<le> 512 \<Longrightarrow> \<not> tw_overflow w \<Longrightarrow>
      take (tw_len w + 4 + length v) (memcpy_at (tw_buf w) (tw_len w) (tlv_item_bytes (tag, ty, v)))
      = tlv_bytes (items @ [(tag, ty, v)])"
    using assms take_memcpy_at [of "tw_len w" "tw_buf w" "tlv_item_bytes (tag, ty, v)"]
    unfolding length_tlv_item by (simp add: tw_inv_def add.assoc del: tlv_item_bytes.simps)
  have l: "tw_len w + 4 + length v \<le> 512 \<Longrightarrow>
      length (memcpy_at (tw_buf w) (tw_len w) (tlv_item_bytes (tag, ty, v))) = 512"
    using assms by (simp add: tw_inv_def memcpy_at_def)
  show ?thesis
    using assms a l
    by (auto simp: w_put_def tw_inv_def Let_def sorted_wrt_append word_less_def
        simp del: tlv_bytes_simps split: if_splits)
qed

lemma w_put_overflow:
  "tw_overflow (snd (w_put w tag ty v)) \<longleftrightarrow>
     tw_overflow w \<or> uint tag \<le> tw_last_tag w \<or> RBP_MAX_PAYLOAD < tw_len w + 4 + length v"
  by (simp add: w_put_def Let_def)

lemma tw_message:
  assumes "tw_inv w items" and "\<not> tw_overflow w"
  shows "take (tw_len w) (tw_buf w) = tlv_bytes items" and "tlv_message items"
proof -
  show "take (tw_len w) (tw_buf w) = tlv_bytes items"
    using assms by (simp add: tw_inv_def)
  have "distinct (map fst items)"
    using assms strict_sorted_iff [of "map fst items"] by (simp add: tw_inv_def)
  then show "tlv_message items"
    using assms by (fastforce simp: tw_inv_def tlv_message_def)
qed

section \<open>The interface of a typed field\<close>

text \<open>
  Each pair of a put and a get function is a field type: the put function appends an item of the
  type's code, the get function finds it by its tag, reads it back, and reports an absent tag, a
  wrong type and a broken message as such.
\<close>

locale tlv_field =
  fixes put :: "rbp_tlv_writer \<Rightarrow> u8 \<Rightarrow> 'v \<Rightarrow> bool \<times> rbp_tlv_writer"
    and get :: "rbp_tlv_reader \<Rightarrow> u8 \<Rightarrow> rbp_tlv_err + 'v option"
    and ty :: u8
    and enc :: "'v \<Rightarrow> u8 list"
    and ok :: "'v \<Rightarrow> bool"
    and readable :: "'v \<Rightarrow> bool"
  assumes put_item: "put w tag v =
        (if ok v then w_put w tag ty (enc v) else (False, w\<lparr>tw_overflow := True\<rparr>))"
    and get_item: "scan r tag = Inr (Some (ty, enc v)) \<Longrightarrow> ok v \<Longrightarrow> readable v \<Longrightarrow> get r tag = Inr (Some v)"
    and get_none: "scan r tag = Inr None \<Longrightarrow> get r tag = Inr None"
    and get_error: "scan r tag = Inl e \<Longrightarrow> get r tag = Inl e"
    and get_type: "scan r tag = Inr (Some (ty', bs)) \<Longrightarrow> ty' \<noteq> ty \<Longrightarrow> get r tag = Inl RBP_TLV_ERR_TYPE"
begin

lemma put_inv:
  "tw_inv w items \<Longrightarrow> tw_inv (snd (put w tag v)) (items @ [(tag, ty, enc v)])"
  using w_put_inv [of w items tag ty "enc v"] by (simp add: put_item tw_inv_def)

lemma put_sticky: "tw_overflow w \<Longrightarrow> tw_overflow (snd (put w tag v))"
  by (simp add: put_item w_put_overflow)

lemma put_ok: "\<not> tw_overflow (snd (put w tag v)) \<Longrightarrow> ok v \<and> fst (put w tag v)"
  by (auto simp: put_item w_put_def Let_def split: if_splits)

lemma get_from_message:
  assumes "tlv_message items" and "(tag, ty, enc v) \<in> set items" and "ok v" and "readable v"
  shows "get (rbp_tlv_reader_init (tlv_bytes items)) tag = Inr (Some v)"
proof -
  have "map_of items tag = Some (ty, enc v)"
    using assms by (intro map_of_is_SomeI) (auto simp: tlv_message_def)
  then show ?thesis
    using get_item scan_message [OF assms(1)] assms(3,4) by simp
qed

lemma get_absent:
  "tlv_message items \<Longrightarrow> tag \<notin> fst ` set items \<Longrightarrow>
   get (rbp_tlv_reader_init (tlv_bytes items)) tag = Inr None"
  using get_none scan_message by (simp add: map_of_eq_None_iff)

end

lemma get_fixed_scan:
  "scan r tag = Inl e \<Longrightarrow> get_fixed r tag t n = Inl e"
  "scan r tag = Inr None \<Longrightarrow> get_fixed r tag t n = Inr None"
  "scan r tag = Inr (Some (ty', v)) \<Longrightarrow> ty' \<noteq> t \<Longrightarrow> get_fixed r tag t n = Inl RBP_TLV_ERR_TYPE"
  "scan r tag = Inr (Some (t, v)) \<Longrightarrow> n = 0 \<or> length v = n \<Longrightarrow> get_fixed r tag t n = Inr (Some v)"
  by (auto simp: get_fixed_def)

text \<open>The loop of \<open>rbp_tlv_get_u64\<close> reads little-endian.\<close>

lemma foldl_le_word: "foldl (\<lambda>x b. push_bit 8 x OR ucast b) 0 (rev bs) = le_word bs"
  by (induction bs) (simp_all add: or.commute)

lemmas tlv_get_defs =
  rbp_tlv_get_u8_def rbp_tlv_get_u16_def rbp_tlv_get_u32_def rbp_tlv_get_u64_def
  rbp_tlv_get_bool_def rbp_tlv_get_text_def rbp_tlv_get_bytes_def get_fixed_scan

interpretation f_u8: tlv_field rbp_tlv_put_u8 rbp_tlv_get_u8 RBP_TLV_T_U8 "\<lambda>v. [v]" "\<lambda>_. True" "\<lambda>_. True"
  by unfold_locales (simp_all add: rbp_tlv_put_u8_def tlv_get_defs)

interpretation f_u16: tlv_field rbp_tlv_put_u16 rbp_tlv_get_u16 RBP_TLV_T_U16 put16 "\<lambda>_. True" "\<lambda>_. True"
proof unfold_locales
  fix r tag v
  assume "scan r tag = Inr (Some (RBP_TLV_T_U16, put16 v))"
  then show "rbp_tlv_get_u16 r tag = Inr (Some v)"
    using get16_put16 [of v "[]"] by (simp add: tlv_get_defs get16_def)
qed (simp_all add: rbp_tlv_put_u16_def put16_def tlv_get_defs)

interpretation f_u32: tlv_field rbp_tlv_put_u32 rbp_tlv_get_u32 RBP_TLV_T_U32 put32 "\<lambda>_. True" "\<lambda>_. True"
proof unfold_locales
  fix r tag v
  assume "scan r tag = Inr (Some (RBP_TLV_T_U32, put32 v))"
  then show "rbp_tlv_get_u32 r tag = Inr (Some v)"
    using get32_put32 [of v "[]"] by (simp add: tlv_get_defs get32_def)
qed (simp_all add: rbp_tlv_put_u32_def put32_def tlv_get_defs)

interpretation f_u64: tlv_field rbp_tlv_put_u64 rbp_tlv_get_u64 RBP_TLV_T_U64 "le_bytes 8" "\<lambda>_. True" "\<lambda>_. True"
proof unfold_locales
  fix r tag and v :: u64
  assume "scan r tag = Inr (Some (RBP_TLV_T_U64, le_bytes 8 v))"
  then show "rbp_tlv_get_u64 r tag = Inr (Some v)"
    using le_roundtrip [of 8 v] by (simp add: tlv_get_defs foldl_le_word)
qed (simp_all add: rbp_tlv_put_u64_def le_bytes_def tlv_get_defs)

interpretation f_bool: tlv_field rbp_tlv_put_bool rbp_tlv_get_bool RBP_TLV_T_BOOL
    "\<lambda>v. [if v then 1 else 0]" "\<lambda>_. True" "\<lambda>_. True"
  by unfold_locales (simp_all add: rbp_tlv_put_bool_def tlv_get_defs)

interpretation f_bytes: tlv_field rbp_tlv_put_bytes rbp_tlv_get_bytes RBP_TLV_T_BYTES
    "\<lambda>v. v" "\<lambda>v. length v \<le> RBP_TLV_MAX_BYTES" "\<lambda>_. True"
  by unfold_locales (simp_all add: rbp_tlv_put_bytes_def tlv_get_defs)

interpretation f_text: tlv_field rbp_tlv_put_text rbp_tlv_get_text RBP_TLV_T_TEXT
    "\<lambda>v. v" "\<lambda>v. length v \<le> RBP_TLV_MAX_TEXT" utf8_valid
  by unfold_locales (simp_all add: rbp_tlv_put_text_def tlv_get_defs)

section \<open>Whole messages\<close>

text \<open>A field of any type, and the writer and reader functions the program uses for it.\<close>

datatype tlv_value =
    TV_u8 u8
  | TV_u16 u16
  | TV_u32 u32
  | TV_u64 u64
  | TV_bool bool
  | TV_text "u8 list"
  | TV_bytes "u8 list"

fun put_value :: "rbp_tlv_writer \<Rightarrow> u8 \<times> tlv_value \<Rightarrow> rbp_tlv_writer" where
  "put_value w (tag, TV_u8 v) = snd (rbp_tlv_put_u8 w tag v)"
| "put_value w (tag, TV_u16 v) = snd (rbp_tlv_put_u16 w tag v)"
| "put_value w (tag, TV_u32 v) = snd (rbp_tlv_put_u32 w tag v)"
| "put_value w (tag, TV_u64 v) = snd (rbp_tlv_put_u64 w tag v)"
| "put_value w (tag, TV_bool v) = snd (rbp_tlv_put_bool w tag v)"
| "put_value w (tag, TV_text v) = snd (rbp_tlv_put_text w tag v)"
| "put_value w (tag, TV_bytes v) = snd (rbp_tlv_put_bytes w tag v)"

fun value_reads :: "rbp_tlv_reader \<Rightarrow> u8 \<times> tlv_value \<Rightarrow> bool" where
  "value_reads r (tag, TV_u8 v) \<longleftrightarrow> rbp_tlv_get_u8 r tag = Inr (Some v)"
| "value_reads r (tag, TV_u16 v) \<longleftrightarrow> rbp_tlv_get_u16 r tag = Inr (Some v)"
| "value_reads r (tag, TV_u32 v) \<longleftrightarrow> rbp_tlv_get_u32 r tag = Inr (Some v)"
| "value_reads r (tag, TV_u64 v) \<longleftrightarrow> rbp_tlv_get_u64 r tag = Inr (Some v)"
| "value_reads r (tag, TV_bool v) \<longleftrightarrow> rbp_tlv_get_bool r tag = Inr (Some v)"
| "value_reads r (tag, TV_text v) \<longleftrightarrow> rbp_tlv_get_text r tag = Inr (Some v)"
| "value_reads r (tag, TV_bytes v) \<longleftrightarrow> rbp_tlv_get_bytes r tag = Inr (Some v)"

fun text_clean :: "tlv_value \<Rightarrow> bool" where
  "text_clean (TV_text v) = utf8_valid v"
| "text_clean _ = True"

fun value_item :: "u8 \<times> tlv_value \<Rightarrow> tlv_item" where
  "value_item (tag, TV_u8 v) = (tag, RBP_TLV_T_U8, [v])"
| "value_item (tag, TV_u16 v) = (tag, RBP_TLV_T_U16, put16 v)"
| "value_item (tag, TV_u32 v) = (tag, RBP_TLV_T_U32, put32 v)"
| "value_item (tag, TV_u64 v) = (tag, RBP_TLV_T_U64, le_bytes 8 v)"
| "value_item (tag, TV_bool v) = (tag, RBP_TLV_T_BOOL, [if v then 1 else 0])"
| "value_item (tag, TV_text v) = (tag, RBP_TLV_T_TEXT, v)"
| "value_item (tag, TV_bytes v) = (tag, RBP_TLV_T_BYTES, v)"

fun value_fits :: "tlv_value \<Rightarrow> bool" where
  "value_fits (TV_text v) \<longleftrightarrow> length v \<le> RBP_TLV_MAX_TEXT"
| "value_fits (TV_bytes v) \<longleftrightarrow> length v \<le> RBP_TLV_MAX_BYTES"
| "value_fits _ \<longleftrightarrow> True"

lemma put_value_inv: "tw_inv w items \<Longrightarrow> tw_inv (put_value w f) (items @ [value_item f])"
  by (cases "(w, f)" rule: put_value.cases)
    (simp_all add: f_u8.put_inv f_u16.put_inv f_u32.put_inv f_u64.put_inv f_bool.put_inv
      f_text.put_inv f_bytes.put_inv)

lemma put_value_overflow:
  "tw_overflow (put_value w f) \<longleftrightarrow> tw_overflow w \<or> \<not> value_fits (snd f) \<or> uint (fst f) \<le> tw_last_tag w
     \<or> RBP_MAX_PAYLOAD < tw_len w + length (tlv_item_bytes (value_item f))"
  by (cases "(w, f)" rule: put_value.cases)
    (auto simp: f_u8.put_item f_u16.put_item f_u32.put_item f_u64.put_item f_bool.put_item
      f_text.put_item f_bytes.put_item w_put_overflow)

lemma put_values_inv:
  "tw_inv w items \<Longrightarrow> tw_inv (foldl put_value w fs) (items @ map value_item fs)"
proof (induction fs arbitrary: w items)
  case (Cons f fs)
  from Cons.IH [OF put_value_inv [OF Cons.prems, of f]] show ?case by simp
qed simp

lemma put_values_fit:
  "\<not> tw_overflow (foldl put_value w fs) \<Longrightarrow> \<not> tw_overflow w \<and> (\<forall>f \<in> set fs. value_fits (snd f))"
proof (induction fs arbitrary: w)
  case (Cons f fs)
  then have "\<not> tw_overflow (put_value w f)" "\<forall>f \<in> set fs. value_fits (snd f)"
    by simp_all
  then show ?case
    using put_value_overflow [of w f] by simp
qed simp

lemma value_item_reads:
  assumes "tlv_message items" and "value_item f \<in> set items" and "value_fits (snd f)"
    and "text_clean (snd f)"
  shows "value_reads (rbp_tlv_reader_init (tlv_bytes items)) f"
  using assms
  by (cases "(rbp_tlv_reader_init (tlv_bytes items), f)" rule: value_reads.cases)
    (simp_all add: f_u8.get_from_message f_u16.get_from_message f_u32.get_from_message
      f_u64.get_from_message f_bool.get_from_message f_text.get_from_message f_bytes.get_from_message)

section \<open>Lemmas on UTF-8\<close>

text \<open>The encoding of a code point, in one to four bytes.\<close>

definition utf8_enc :: "nat \<Rightarrow> u8 list" where
  "utf8_enc cp =
     (if cp < 0x80 then [word_of_nat cp]
      else if cp < 0x800 then [word_of_nat (0xC0 + cp div 64), word_of_nat (0x80 + cp mod 64)]
      else if cp < 0x10000 then [word_of_nat (0xE0 + cp div 4096),
        word_of_nat (0x80 + cp div 64 mod 64), word_of_nat (0x80 + cp mod 64)]
      else [word_of_nat (0xF0 + cp div 262144), word_of_nat (0x80 + cp div 4096 mod 64),
        word_of_nat (0x80 + cp div 64 mod 64), word_of_nat (0x80 + cp mod 64)])"

lemma and_low: "unat ((c :: u8) AND mask k) = unat c mod 2 ^ k"
  by (simp only: take_bit_eq_mask [symmetric] unsigned_take_bit_eq) (simp add: take_bit_eq_mod)

lemma and_high: "unat ((c :: u8) AND NOT (mask k)) = unat c div 2 ^ k * 2 ^ k"
proof -
  have "(c AND NOT (mask k)) AND (c AND mask k) = 0"
    "(c AND NOT (mask k)) OR (c AND mask k) = c"
    by (auto intro!: bit_eqI simp: bit_simps)
  then have "(c AND NOT (mask k)) + (c AND mask k) = c"
    by (simp add: disjunctive_add_eq_or)
  then have "c AND NOT (mask k) = c - (c AND mask k)"
    by (metis add_diff_cancel_right')
  moreover have "c AND mask k \<le> c"
    by (simp add: word_le_nat_alt and_low)
  ultimately have "unat (c AND NOT (mask k)) = unat c - unat c mod 2 ^ k"
    using and_low [of c k] by (simp add: unat_sub)
  then show ?thesis
    by (simp add: minus_mod_eq_div_mult)
qed

lemma digit_mod: "q < m \<Longrightarrow> (k * m + q) mod m = (q :: nat)"
  by simp

lemma div_block: "0 < m \<Longrightarrow> n div m * m = k * m \<longleftrightarrow> k * m \<le> n \<and> n < (k + 1) * (m :: nat)"
proof
  assume m: "0 < m" and e: "n div m * m = k * m"
  show "k * m \<le> n \<and> n < (k + 1) * m"
    using div_mult_mod_eq [of n m] mod_less_divisor [OF m, of n] by (simp only: e) simp
next
  assume "0 < m" "k * m \<le> n \<and> n < (k + 1) * m"
  then have "n div m = k"
    by (intro div_nat_eqI) (simp_all add: mult.commute)
  then show "n div m * m = k * m" by simp
qed

lemma lead_mod:
  "q < 32 \<Longrightarrow> (192 + q) mod 32 = (q :: nat)" "q < 16 \<Longrightarrow> (224 + q) mod 16 = (q :: nat)"
  "q < 5 \<Longrightarrow> (240 + q) mod 8 = (q :: nat)" "q < 64 \<Longrightarrow> (128 + q) mod 64 = (q :: nat)"
  using digit_mod [of q 32 6] digit_mod [of q 16 14] digit_mod [of q 8 30] digit_mod [of q 64 2]
  by simp_all

lemma lead_value:
  "192 \<le> n \<Longrightarrow> n < 224 \<Longrightarrow> n = 192 + n mod (32 :: nat)"
  "224 \<le> n \<Longrightarrow> n < 240 \<Longrightarrow> n = 224 + n mod (16 :: nat)"
  "240 \<le> n \<Longrightarrow> n < 245 \<Longrightarrow> n = 240 + n mod (8 :: nat)"
  "128 \<le> n \<Longrightarrow> n < 192 \<Longrightarrow> n = 128 + n mod (64 :: nat)"
  using lead_mod(1) [of "n - 192"] lead_mod(2) [of "n - 224"] lead_mod(3) [of "n - 240"]
    lead_mod(4) [of "n - 128"] by simp_all

lemma lead_block:
  "n div 32 * 32 = 192 \<longleftrightarrow> 192 \<le> n \<and> n < (224 :: nat)"
  "n div 16 * 16 = 224 \<longleftrightarrow> 224 \<le> n \<and> n < (240 :: nat)"
  "n div 8 * 8 = 240 \<longleftrightarrow> 240 \<le> n \<and> n < (248 :: nat)"
  "n div 64 * 64 = 128 \<longleftrightarrow> 128 \<le> n \<and> n < (192 :: nat)"
  using div_block [of 32 n 6] div_block [of 16 n 14] div_block [of 8 n 30] div_block [of 64 n 2]
  by (simp_all only: arith_simps rel_simps) simp_all

lemma byte_class:
  fixes c :: u8
  shows "c AND 0xE0 = 0xC0 \<longleftrightarrow> 192 \<le> unat c \<and> unat c < 224" "unat (c AND 0x1F) = unat c mod 32"
    "c AND 0xF0 = 0xE0 \<longleftrightarrow> 224 \<le> unat c \<and> unat c < 240" "unat (c AND 0x0F) = unat c mod 16"
    "c AND 0xF8 = 0xF0 \<longleftrightarrow> 240 \<le> unat c \<and> unat c < 248" "unat (c AND 0x07) = unat c mod 8"
    "c AND 0xC0 = 0x80 \<longleftrightarrow> 128 \<le> unat c \<and> unat c < 192" "unat (c AND 0x3F) = unat c mod 64"
proof -
  have m: "(0x1F :: u8) = mask 5" "(0x0F :: u8) = mask 4" "(0x07 :: u8) = mask 3" "(0x3F :: u8) = mask 6"
    "(0xE0 :: u8) = NOT (mask 5)" "(0xF0 :: u8) = NOT (mask 4)" "(0xF8 :: u8) = NOT (mask 3)"
    "(0xC0 :: u8) = NOT (mask 6)"
    by (simp_all add: mask_eq_exp_minus_1)
  show "unat (c AND 0x1F) = unat c mod 32" "unat (c AND 0x0F) = unat c mod 16"
    "unat (c AND 0x07) = unat c mod 8" "unat (c AND 0x3F) = unat c mod 64"
    unfolding m and_low by simp_all
  have h: "unat (c AND 0xE0) = unat c div 32 * 32" "unat (c AND 0xF0) = unat c div 16 * 16"
    "unat (c AND 0xF8) = unat c div 8 * 8" "unat (c AND 0xC0) = unat c div 64 * 64"
    unfolding m and_high by simp_all
  have e: "c AND w = v \<longleftrightarrow> unat (c AND w) = unat v" for w v
    by (simp add: word_unat_eq_iff)
  show "c AND 0xE0 = 0xC0 \<longleftrightarrow> 192 \<le> unat c \<and> unat c < 224"
    "c AND 0xF0 = 0xE0 \<longleftrightarrow> 224 \<le> unat c \<and> unat c < 240"
    "c AND 0xF8 = 0xF0 \<longleftrightarrow> 240 \<le> unat c \<and> unat c < 248"
    "c AND 0xC0 = 0x80 \<longleftrightarrow> 128 \<le> unat c \<and> unat c < 192"
    unfolding e h by (simp_all add: lead_block)
qed

lemma cont_step:
  assumes "unat (cp :: u32) < 2 ^ 26"
  shows "unat (push_bit 6 cp OR ucast (b AND 0x3F :: u8)) = unat cp * 64 + unat b mod 64"
proof -
  let ?x = "ucast (b AND 0x3F :: u8) :: u32"
  have x: "unat ?x = unat b mod 64"
    using byte_class(8) [of b] by (simp add: unsigned_ucast_eq take_bit_nat_eq_self_iff
        order_less_trans [OF mod_less_divisor])
  have "b AND 0x3F = take_bit 6 b"
    by (simp add: take_bit_eq_mask mask_eq_exp_minus_1)
  then have "push_bit 6 cp AND ?x = 0"
    by (auto intro!: bit_eqI simp: bit_simps)
  then have "push_bit 6 cp OR ?x = push_bit 6 cp + ?x"
    by (simp add: disjunctive_add_eq_or)
  moreover have "unat (push_bit 6 cp) = unat cp * 64"
    using assms by (simp add: push_bit_eq_mult unat_word_ariths)
  ultimately show ?thesis
    using assms x by (simp add: unat_word_ariths)
qed

definition is_cont :: "u8 \<Rightarrow> bool" where
  "is_cont b \<longleftrightarrow> 128 \<le> unat b \<and> unat b < 192"

definition cont_value :: "nat \<Rightarrow> u8 list \<Rightarrow> nat" where
  "cont_value a bs = foldl (\<lambda>a b. a * 64 + unat b mod 64) a bs"

lemma is_cont_test: "b AND 0xC0 = 0x80 \<longleftrightarrow> is_cont b"
  by (simp add: byte_class is_cont_def)

lemma cont_value_simps:
  "cont_value a [] = a" "cont_value a (b # bs) = cont_value (a * 64 + unat b mod 64) bs"
  by (simp_all add: cont_value_def)

lemma utf8_cont_value:
  "(unat cp + 1) * 64 ^ length bs \<le> 2 ^ 32 \<Longrightarrow>
   (if list_all is_cont bs
    then \<exists>cp'. utf8_cont cp bs = Some cp' \<and> unat cp' = cont_value (unat cp) bs
    else utf8_cont cp bs = None)"
proof (induction cp bs rule: utf8_cont.induct)
  case (1 cp)
  then show ?case by (simp add: cont_value_def)
next
  case (2 cp b bs)
  let ?cp = "push_bit 6 cp OR ucast (b AND 0x3F) :: u32"
  show ?case
  proof (cases "is_cont b")
    case True
    have "(unat cp + 1) * 64 \<le> (unat cp + 1) * 64 ^ length (b # bs)"
      by (intro mult_left_mono) simp_all
    then have "(unat cp + 1) * 64 \<le> 2 ^ 32"
      using "2.prems" by (rule order_trans)
    then have v: "unat ?cp = unat cp * 64 + unat b mod 64"
      by (intro cont_step) simp
    have "unat b mod 64 + 1 \<le> 64"
      by (simp add: Suc_le_eq)
    then have "unat ?cp + 1 \<le> (unat cp + 1) * 64"
      unfolding v by simp
    then have "(unat ?cp + 1) * 64 ^ length bs \<le> (unat cp + 1) * 64 ^ length (b # bs)"
      by (simp only: length_Cons power_Suc mult.assoc [symmetric] mult_le_mono1)
    then have "(unat ?cp + 1) * 64 ^ length bs \<le> 2 ^ 32"
      using "2.prems" by linarith
    with "2.IH" True show ?thesis
      unfolding v [symmetric]
      by (cases "list_all is_cont bs") (simp_all add: is_cont_test cont_value_simps flip: v)
  next
    case False
    then show ?thesis
      by (simp add: is_cont_test)
  qed
qed

text \<open>The body of the loop in numbers: which sequences it accepts, with which code point.\<close>

definition utf8_seq :: "u8 \<Rightarrow> nat \<Rightarrow> u8 list \<Rightarrow> nat \<Rightarrow> bool" where
  "utf8_seq c a bs cp \<longleftrightarrow> list_all is_cont bs \<and> cp = cont_value a bs \<and>
     (length bs = 1 \<and> 194 \<le> unat c \<and> unat c < 224 \<and> a = unat c mod 32
      \<or> length bs = 2 \<and> 224 \<le> unat c \<and> unat c < 240 \<and> a = unat c mod 16 \<and> 0x800 \<le> cp
      \<or> length bs = 3 \<and> 240 \<le> unat c \<and> unat c < 245 \<and> a = unat c mod 8
        \<and> 0x10000 \<le> cp \<and> cp \<le> 0x10FFFF)"

lemma utf8_lead_class:
  "utf8_lead c =
     (if 194 \<le> unat c \<and> unat c < 224 then Some (word_of_nat (unat c mod 32), 1)
      else if 224 \<le> unat c \<and> unat c < 240 then Some (word_of_nat (unat c mod 16), 2)
      else if 240 \<le> unat c \<and> unat c < 245 then Some (word_of_nat (unat c mod 8), 3)
      else None)"
proof -
  have u: "ucast (x :: u8) = (word_of_nat (unat x) :: u32)" for x
    by (simp add: word_unat_eq_iff unsigned_ucast_eq unat_of_nat take_bit_eq_mod)
  have c: "(0xC2 \<le> c) = (194 \<le> unat c)" "(c \<le> 0xF4) = (unat c < 245)"
    by (auto simp: word_le_nat_alt)
  show ?thesis
    unfolding utf8_lead_def byte_class u c by (rule if_cong, linarith, simp, rule if_cong, linarith, simp, rule if_cong, linarith, simp_all)
qed

lemma utf8_step:
  assumes "c \<noteq> 0" and "\<not> c < 0x80"
  shows "utf8_valid (c # s) \<longleftrightarrow>
    (\<exists>n a cp. n \<le> length s \<and> utf8_seq c a (take n s) cp \<and> utf8_valid (drop n s))"
proof (cases "utf8_lead c")
  case None
  then have "\<not> utf8_seq c a bs cp" for a bs cp
    by (auto simp: utf8_lead_class utf8_seq_def split: if_splits)
  with None assms show ?thesis by simp
next
  case (Some l)
  obtain w n where l: "utf8_lead c = Some (w, n)"
    using Some by (cases l) simp
  have n: "n \<in> {1, 2, 3}" and w: "unat w < 32" "n \<in> {2, 3} \<Longrightarrow> unat w < 16" "n = 3 \<Longrightarrow> unat w < 8"
    using l by (auto simp: utf8_lead_class unat_of_nat split: if_splits)
  have seq: "utf8_seq c a bs cp \<longleftrightarrow> a = unat w \<and> length bs = n \<and> list_all is_cont bs
      \<and> cp = cont_value a bs
      \<and> (n = 2 \<longrightarrow> 0x800 \<le> cp) \<and> (n = 3 \<longrightarrow> 0x10000 \<le> cp \<and> cp \<le> 0x10FFFF)" for a bs cp
    using l by (auto simp: utf8_lead_class utf8_seq_def unat_of_nat split: if_splits)
  show ?thesis
  proof (cases "length s < n")
    case True
    then show ?thesis
      using assms l by (auto simp: seq)
  next
    case False
    then have len: "length (take n s) = n" by simp
    have "(unat w + 1) * 64 ^ length (take n s) \<le> 2 ^ 32"
      using n w len by auto
    note c = utf8_cont_value [OF this]
    show ?thesis
    proof (cases "list_all is_cont (take n s)")
      case True
      then obtain cp where cp: "utf8_cont w (take n s) = Some cp" "unat cp = cont_value (unat w) (take n s)"
        using c by auto
      have "utf8_range_bad n cp \<longleftrightarrow>
          \<not> ((n = 2 \<longrightarrow> 0x800 \<le> unat cp) \<and> (n = 3 \<longrightarrow> 0x10000 \<le> unat cp \<and> unat cp \<le> 0x10FFFF))"
        by (auto simp: utf8_range_bad_def word_less_nat_alt word_le_nat_alt)
      then have v: "utf8_valid (c # s) \<longleftrightarrow> utf8_seq c (unat w) (take n s) (unat cp) \<and> utf8_valid (drop n s)"
        using assms l False cp True by (auto simp: seq len)
      have u: "k = n \<and> a = unat w \<and> cp' = unat cp"
        if "k \<le> length s" "utf8_seq c a (take k s) cp'" for k a cp'
        using that cp(2) by (auto simp: seq)
      have "n \<le> length s"
        using False by simp
      with v u show ?thesis
        by blast
    next
      case False
      then have "utf8_cont w (take n s) = None"
        using c by simp
      then show ?thesis
        using assms l False by (auto simp: seq)
    qed
  qed
qed

lemma unat_byte: "n < 256 \<Longrightarrow> unat (word_of_nat n :: u8) = n"
  by (simp add: unat_of_nat)

lemma word_nat_cancel: "word_of_nat (unat b) = (b :: u8)"
  by simp

lemma utf8_enc_seq:
  assumes "0x80 \<le> cp" and "cp \<le> 0x10FFFF"
  shows "\<exists>c bs a. utf8_enc cp = c # bs \<and> c \<noteq> 0 \<and> \<not> c < 0x80 \<and> utf8_seq c a bs cp"
proof -
  have ub: "unat (word_of_nat (128 + x mod 64) :: u8) = 128 + x mod 64" for x
    by (intro unat_byte) (use mod_less_divisor [of 64 x] in linarith)
  have cont: "is_cont (word_of_nat (128 + x mod 64))" for x
    unfolding is_cont_def ub using mod_less_divisor [of 64 x] by linarith
  have val: "(128 + x mod 64) mod 64 = x mod (64 :: nat)" for x
    by (simp add: lead_mod(4))
  have nz: "c \<noteq> 0 \<and> \<not> c < 0x80" if "128 \<le> unat c" for c :: u8
    using that by (auto simp: word_less_nat_alt)
  consider "cp < 0x800" | "0x800 \<le> cp" "cp < 0x10000" | "0x10000 \<le> cp"
    by linarith
  then show ?thesis
  proof cases
    case 1
    let ?c = "word_of_nat (0xC0 + cp div 64) :: u8"
    have "2 \<le> cp div 64" "cp div 64 < 32"
      using 1 assms by auto
    then have c: "unat ?c = 0xC0 + cp div 64" "unat ?c mod 32 = cp div 64"
      by (simp_all add: unat_byte lead_mod del: of_nat_add)
    have "utf8_seq ?c (cp div 64) [word_of_nat (0x80 + cp mod 64)] cp"
      using cont [of cp] c \<open>2 \<le> cp div 64\<close> \<open>cp div 64 < 32\<close>
      by (simp add: utf8_seq_def cont_value_simps ub val del: of_nat_add)
    then show ?thesis
      using 1 assms c nz [of ?c] by (auto simp: utf8_enc_def simp del: of_nat_add)
  next
    case 2
    let ?c = "word_of_nat (0xE0 + cp div 4096) :: u8"
    have "cp div 4096 < 16"
      using 2 by auto
    then have c: "unat ?c = 0xE0 + cp div 4096" "unat ?c mod 16 = cp div 4096"
      by (simp_all add: unat_byte lead_mod del: of_nat_add)
    have "(cp div 4096 * 64 + cp div 64 mod 64) * 64 + cp mod 64 = cp"
      using div_mult2_eq [of cp 64 64] by simp
    then have "utf8_seq ?c (cp div 4096)
        [word_of_nat (0x80 + cp div 64 mod 64), word_of_nat (0x80 + cp mod 64)] cp"
      using cont [of cp] cont [of "cp div 64"] c \<open>cp div 4096 < 16\<close> 2
      by (simp add: utf8_seq_def cont_value_simps ub val del: of_nat_add)
    then show ?thesis
      using 2 assms c nz [of ?c] by (auto simp: utf8_enc_def simp del: of_nat_add)
  next
    case 3
    let ?c = "word_of_nat (0xF0 + cp div 262144) :: u8"
    have "cp div 262144 \<le> 1114111 div 262144"
      using assms(2) by (rule div_le_mono)
    then have q: "cp div 262144 < 5"
      by simp
    then have c: "unat ?c = 0xF0 + cp div 262144" "unat ?c mod 8 = cp div 262144"
      by (simp_all add: unat_byte lead_mod del: of_nat_add)
    have "((cp div 262144 * 64 + cp div 4096 mod 64) * 64 + cp div 64 mod 64) * 64 + cp mod 64 = cp"
      using div_mult2_eq [of cp 64 64] div_mult2_eq [of cp 4096 64] by simp
    then have "utf8_seq ?c (cp div 262144) [word_of_nat (0x80 + cp div 4096 mod 64),
        word_of_nat (0x80 + cp div 64 mod 64), word_of_nat (0x80 + cp mod 64)] cp"
      using cont [of cp] cont [of "cp div 64"] cont [of "cp div 4096"] c q 3 assms(2)
      by (simp add: utf8_seq_def cont_value_simps ub val del: of_nat_add)
    then show ?thesis
      using 3 assms c nz [of ?c] by (auto simp: utf8_enc_def simp del: of_nat_add)
  qed
qed

lemma digit64: "y < 64 \<Longrightarrow> (x * 64 + y) div 64 = (x :: nat)" "y < 64 \<Longrightarrow> (x * 64 + y) mod 64 = (y :: nat)"
  by simp_all

lemma digits_bound: "a < 16 \<Longrightarrow> x < 64 \<Longrightarrow> y < 64 \<Longrightarrow> (a * 64 + x) * 64 + y < (0x10000 :: nat)"
  by simp

lemma mult_numeral_64: "64 * 64 = (4096 :: nat)" "4096 * 64 = (262144 :: nat)"
  by simp_all

lemma utf8_seq_enc:
  assumes "utf8_seq c a bs cp"
  shows "utf8_enc cp = c # bs" and "0x80 \<le> cp" and "cp \<le> 0x10FFFF"
proof -
  have b: "b = word_of_nat (128 + unat b mod 64)" if "is_cont b" for b :: u8
  proof -
    have "unat b = 128 + unat b mod 64"
      using that lead_value(4) [of "unat b"] by (simp add: is_cont_def)
    then show ?thesis
      by (metis word_nat_cancel)
  qed
  have c: "c = word_of_nat n" if "unat c = n" for n
    using that by (metis word_nat_cancel)
  consider b1 where "bs = [b1]" | b1 b2 where "bs = [b1, b2]" | b1 b2 b3 where "bs = [b1, b2, b3]"
  proof -
    have "length bs = 1 \<or> length bs = 2 \<or> length bs = 3"
      using assms by (auto simp: utf8_seq_def)
    then show ?thesis
      using that by (auto simp: length_Suc_conv eval_nat_numeral)
  qed
  then have "utf8_enc cp = c # bs \<and> 0x80 \<le> cp \<and> cp \<le> 0x10FFFF"
  proof cases
    case 1
    let ?x = "unat b1 mod 64"
    have h: "is_cont b1" "cp = unat c mod 32 * 64 + ?x" "194 \<le> unat c" "unat c < 224" "?x < 64"
      using assms by (auto simp: utf8_seq_def 1 cont_value_simps)
    then have lead: "unat c = 192 + unat c mod 32"
      by (intro lead_value) simp_all
    then have "2 \<le> unat c mod 32" "unat c mod 32 < 32"
      using h(3) by linarith+
    then have "0x80 \<le> cp" "cp < 0x800"
      unfolding h(2) using h(5) by linarith+
    moreover have "cp div 64 = unat c mod 32" "cp mod 64 = ?x"
      using h(5) unfolding h(2) by (simp_all only: digit64)
    moreover note lead
    ultimately show ?thesis
      using b [OF h(1)] c by (simp add: utf8_enc_def 1 del: of_nat_add)
  next
    case 2
    let ?x = "unat b1 mod 64" and ?y = "unat b2 mod 64"
    have h: "is_cont b1" "is_cont b2" "cp = (unat c mod 16 * 64 + ?x) * 64 + ?y" "224 \<le> unat c"
      "unat c < 240" "0x800 \<le> cp" "?x < 64" "?y < 64"
      using assms by (auto simp: utf8_seq_def 2 cont_value_simps)
    have "cp div 64 = unat c mod 16 * 64 + ?x" "cp mod 64 = ?y"
      using h(8) unfolding h(3) by (simp_all only: digit64)
    then have "cp div 4096 = unat c mod 16" "cp div 64 mod 64 = ?x" "unat c = 224 + unat c mod 16"
      using h(7) div_mult2_eq [of cp 64 64] lead_value(2) [OF h(4,5)] by (simp_all only: digit64 mult_numeral_64)
    moreover have "cp < 0x10000"
    proof -
      have "unat c mod 16 < 16" by simp
      then show ?thesis
        unfolding h(3) using h(7,8) by (rule digits_bound)
    qed
    ultimately show ?thesis
      using b [OF h(1)] b [OF h(2)] c h(6) \<open>cp mod 64 = ?y\<close> by (simp add: utf8_enc_def 2 del: of_nat_add)
  next
    case 3
    let ?x = "unat b1 mod 64" and ?y = "unat b2 mod 64" and ?z = "unat b3 mod 64"
    have h: "is_cont b1" "is_cont b2" "is_cont b3"
      "cp = ((unat c mod 8 * 64 + ?x) * 64 + ?y) * 64 + ?z" "240 \<le> unat c"
      "unat c < 245" "0x10000 \<le> cp" "cp \<le> 0x10FFFF" "?x < 64" "?y < 64" "?z < 64"
      using assms by (auto simp: utf8_seq_def 3 cont_value_simps)
    have d: "cp div 64 = (unat c mod 8 * 64 + ?x) * 64 + ?y" "cp mod 64 = ?z"
      using h(11) unfolding h(4) by (simp_all only: digit64)
    then have e: "cp div 4096 = unat c mod 8 * 64 + ?x" "cp div 64 mod 64 = ?y"
      using h(10) div_mult2_eq [of cp 64 64] by (simp_all only: digit64 mult_numeral_64)
    then have "cp div 262144 = unat c mod 8" "cp div 4096 mod 64 = ?x" "unat c = 240 + unat c mod 8"
      using h(9) div_mult2_eq [of cp 4096 64] lead_value(3) [OF h(5,6)] by (simp_all only: digit64 mult_numeral_64)
    then show ?thesis
      using b [OF h(1)] b [OF h(2)] b [OF h(3)] c h(7,8) d e
      by (simp add: utf8_enc_def 3 del: of_nat_add)
  qed
  then show "utf8_enc cp = c # bs" "0x80 \<le> cp" "cp \<le> 0x10FFFF"
    by simp_all
qed

lemma utf8_seq_length: "utf8_seq c a bs cp \<Longrightarrow> utf8_seq c a' bs' cp' \<Longrightarrow> length bs' = length bs"
  by (auto simp: utf8_seq_def)

lemma utf8_valid_iff:
  "utf8_valid s \<longleftrightarrow> (\<exists>cps. (\<forall>cp \<in> set cps. 0 < cp \<and> cp \<le> 0x10FFFF) \<and> s = concat (map utf8_enc cps))"
proof
  show "utf8_valid s \<Longrightarrow>
      \<exists>cps. (\<forall>cp \<in> set cps. 0 < cp \<and> cp \<le> 0x10FFFF) \<and> s = concat (map utf8_enc cps)"
  proof (induction s rule: length_induct)
    case (1 s)
    show ?case
    proof (cases s)
      case Nil
      then show ?thesis by (intro exI [of _ "[]"]) simp
    next
      case (Cons c t)
      have "\<exists>cp u. 0 < cp \<and> cp \<le> 0x10FFFF \<and> s = utf8_enc cp @ u \<and> utf8_valid u \<and> length u < length s"
      proof (cases "c < 0x80")
        case True
        have "c \<noteq> 0"
          using "1.prems" Cons by auto
        then have "0 < unat c" "unat c < 0x80"
          using True by (simp_all add: word_less_nat_alt unat_gt_0)
        moreover have "utf8_valid t"
          using "1.prems" Cons True by (simp split: if_splits)
        ultimately show ?thesis
          using Cons by (intro exI [of _ "unat c"] exI [of _ t]) (simp add: utf8_enc_def)
      next
        case False
        then have "c \<noteq> 0" by auto
        from utf8_step [OF this False, of t] "1.prems" Cons
        obtain n a cp where "n \<le> length t" "utf8_seq c a (take n t) cp" "utf8_valid (drop n t)"
          by blast
        with utf8_seq_enc [OF this(2)] Cons show ?thesis
          by (intro exI [of _ cp] exI [of _ "drop n t"]) simp
      qed
      then obtain cp u where u: "0 < cp" "cp \<le> 0x10FFFF" "s = utf8_enc cp @ u" "utf8_valid u"
        "length u < length s" by blast
      with "1.IH" obtain cps where "\<forall>cp \<in> set cps. 0 < cp \<and> cp \<le> 0x10FFFF"
        "u = concat (map utf8_enc cps)" by blast
      with u show ?thesis by (intro exI [of _ "cp # cps"]) simp
    qed
  qed
next
  have step: "utf8_valid (utf8_enc cp @ s) \<longleftrightarrow> utf8_valid s" if cp: "0 < cp" "cp \<le> 0x10FFFF" for cp s
  proof (cases "cp < 0x80")
    case True
    then have "unat (word_of_nat cp :: u8) = cp"
      by (simp add: unat_byte)
    then have "(word_of_nat cp :: u8) \<noteq> 0" "(word_of_nat cp :: u8) < 0x80"
      using cp True by (auto simp: word_less_nat_alt)
    with True show ?thesis by (simp add: utf8_enc_def)
  next
    case False
    then obtain c bs a where c: "utf8_enc cp = c # bs" "c \<noteq> 0" "\<not> c < 0x80" "utf8_seq c a bs cp"
      using utf8_enc_seq [of cp] cp by auto
    have n: "n = length bs" if "n \<le> length (bs @ s)" "utf8_seq c a' (take n (bs @ s)) cp'" for n a' cp'
      using utf8_seq_length [OF c(4) that(2)] that(1) by simp
    have t: "take (length bs) (bs @ s) = bs" "drop (length bs) (bs @ s) = s"
      "length bs \<le> length (bs @ s)"
      by simp_all
    have "utf8_enc cp @ s = c # bs @ s"
      using c(1) by simp
    then show ?thesis
      using utf8_step [OF c(2,3), of "bs @ s"] c(4) n t by metis
  qed
  assume "\<exists>cps. (\<forall>cp \<in> set cps. 0 < cp \<and> cp \<le> 0x10FFFF) \<and> s = concat (map utf8_enc cps)"
  then obtain cps where "\<forall>cp \<in> set cps. 0 < cp \<and> cp \<le> 0x10FFFF" "s = concat (map utf8_enc cps)"
    by blast
  then show "utf8_valid s"
    by (induction cps arbitrary: s) (simp_all add: step)
qed

section \<open>Properties\<close>

text \<open>Which messages the reader accepts. Looking up a tag succeeds exactly on the byte strings that
  are a concatenation of well-formed items with pairwise different tags, and then yields the type
  and value of that tag's item, or nothing if there is none; everything else, an item that runs past
  the end or a second item with a tag already seen anywhere in the message, is rejected.\<close>

theorem tlv_scan_exact:
  "scan (rbp_tlv_reader_init msg) tag = Inr found \<longleftrightarrow>
     (\<exists>items. distinct (map fst items) \<and> (\<forall>item \<in> set items. length (snd (snd item)) < 65536)
        \<and> msg = concat (map tlv_item_bytes items) \<and> found = map_of items tag)"
  by (subst scan_iff) (simp_all add: rbp_tlv_reader_init_def tlv_message_def tlv_bytes_def)

theorem tlv_scan_exact_witness:
  "scan (rbp_tlv_reader_init [1, 1, 1, 0, 42, 9, 6, 2, 0, 104, 105]) 9 = Inr (Some (6, [104, 105]))"
  by (subst tlv_scan_exact, rule exI [of _ "[(1, 1, [42]), (9, 6, [104, 105])]"]) simp

text \<open>C34: message round trip. If fields of any of the seven types are written one after the other into
  an initialised writer and its overflow flag is still down, then the written bytes are at most 512, and
  each field is read back by the getter of its type with exactly its value (text being valid
  UTF-8, which the writer leaves to its caller).\<close>

theorem tlv_roundtrip:
  assumes "length (tw_buf w) = RBP_MAX_PAYLOAD"
    and "w' = foldl put_value (rbp_tlv_writer_init w) fs" and "\<not> tw_overflow w'"
    and "f \<in> set fs" and "text_clean (snd f)"
  shows "tw_len w' \<le> RBP_MAX_PAYLOAD
    \<and> value_reads (rbp_tlv_reader_init (take (tw_len w') (tw_buf w'))) f"
proof -
  have inv: "tw_inv w' (map value_item fs)"
    using put_values_inv [OF tw_inv_init [OF assms(1)], of fs] assms(2) by simp
  have "value_fits (snd f)"
    using put_values_fit assms(2-4) by blast
  then have "value_reads (rbp_tlv_reader_init (tlv_bytes (map value_item fs))) f"
    using tw_message(2) [OF inv assms(3)] assms(4,5) by (intro value_item_reads) simp_all
  then show ?thesis
    using inv tw_message(1) [OF inv assms(3)] by (simp add: tw_inv_def)
qed

definition sample_writer :: rbp_tlv_writer where
  "sample_writer = \<lparr>tw_buf = replicate 512 0, tw_len = 77, tw_overflow = True, tw_last_tag = 3\<rparr>"

theorem tlv_roundtrip_witness:
  "(let w' = foldl put_value (rbp_tlv_writer_init sample_writer)
               [(1, TV_u32 0xDEADBEEF), (5, TV_text [0xC3, 0xA9]), (200, TV_bool True)]
    in rbp_tlv_get_u32 (rbp_tlv_reader_init (take (tw_len w') (tw_buf w'))) 1 = Inr (Some 0xDEADBEEF)
       \<and> rbp_tlv_get_text (rbp_tlv_reader_init (take (tw_len w') (tw_buf w'))) 5 = Inr (Some [0xC3, 0xA9]))"
proof -
  let ?fs = "[(1, TV_u32 0xDEADBEEF), (5, TV_text [0xC3, 0xA9]), (200, TV_bool True)]"
  let ?w = "foldl put_value (rbp_tlv_writer_init sample_writer) ?fs"
  have l: "length (tw_buf sample_writer) = RBP_MAX_PAYLOAD"
    by (simp add: sample_writer_def)
  have o: "\<not> tw_overflow ?w"
    by (simp add: rbp_tlv_put_u32_def rbp_tlv_put_text_def rbp_tlv_put_bool_def w_put_def Let_def
        rbp_tlv_writer_init_def)
  have t: "text_clean (TV_text [0xC3, 0xA9])"
    by (simp add: utf8_lead_def utf8_range_bad_def)
  show ?thesis
    using tlv_roundtrip [OF l refl o, of "(1, TV_u32 0xDEADBEEF)"]
      tlv_roundtrip [OF l refl o, of "(5, TV_text [0xC3, 0xA9])"] t
    by (simp add: Let_def del: utf8_valid.simps)
qed

text \<open>C38: text. The check accepts exactly the byte strings that are UTF-8 encodings, in the shortest form, of
  code points between U+0001 and U+10FFFF. Overlong forms, stray or missing continuation bytes and NUL are
  rejected; surrogates (U+D800 to U+DFFF) are among the accepted code points.\<close>

theorem utf8_valid_exact:
  "utf8_valid s \<longleftrightarrow>
     (\<exists>cps. (\<forall>cp \<in> set cps. 0 < cp \<and> cp \<le> 0x10FFFF) \<and> s = concat (map utf8_enc cps))"
  by (rule utf8_valid_iff)

theorem utf8_valid_exact_witness: "utf8_valid [0xED, 0xA0, 0x80, 0x41]"
  by (subst utf8_valid_exact, rule exI [of _ "[0xD800, 0x41]"]) (simp add: utf8_enc_def)

end
