(* ===== verification/Ring.thy ===== *)
theory Ring
  imports Prelude "HOL-Library.Sublist"
begin

text \<open>
  Circular buffers. The program keeps several fixed arrays as queues with a head index and a count
  (trace records, fault records, key states, finished operations, media frames). This theory has the
  view of such an array as a list, the lemmas on appending and dropping, and the contract of a
  bounded queue with what its clients may conclude from it.
\<close>

section \<open>An array seen from its head\<close>

definition ring_items :: "'a list \<Rightarrow> nat \<Rightarrow> nat \<Rightarrow> 'a list" where
  "ring_items buf h n = map (\<lambda>i. buf ! ((h + i) mod length buf)) [0..<n]"

lemma length_ring_items [simp]: "length (ring_items buf h n) = n"
  by (simp add: ring_items_def)

lemma ring_items_0 [simp]: "ring_items buf h 0 = []"
  by (simp add: ring_items_def)

lemma nth_ring_items: "i < n \<Longrightarrow> ring_items buf h n ! i = buf ! ((h + i) mod length buf)"
  by (simp add: ring_items_def)

lemma ring_items_mod: "ring_items buf (h mod length buf) n = ring_items buf h n"
  by (simp add: ring_items_def mod_add_left_eq)

lemma ring_items_cong: "h mod length buf = h' mod length buf \<Longrightarrow> ring_items buf h n = ring_items buf h' n"
  by (metis ring_items_mod)

lemma ring_slot_inject:
  assumes "i < cap" and "j < cap" and "(h + i) mod cap = (h + j) mod cap"
  shows "i = (j :: nat)"
  using assms
proof (induction i j rule: linorder_wlog)
  case (le i j)
  have "cap dvd (h + j) - (h + i)"
    using le.prems(3) le.hyps by (metis add_left_mono mod_eq_dvd_iff_nat)
  then have "cap dvd j - i" by simp
  then show ?case
    using le by (metis diff_is_0_eq dual_order.antisym less_imp_diff_less nat_dvd_not_less neq0_conv)
qed simp

lemma ring_items_push:
  assumes "n < length buf"
  shows "ring_items (buf[(h + n) mod length buf := x]) h (Suc n) = ring_items buf h n @ [x]"
proof -
  have "(h + i) mod length buf \<noteq> (h + n) mod length buf" if "i < n" for i
    using ring_slot_inject [of i "length buf" n h] that assms by auto
  moreover have "(h + n) mod length buf < length buf"
    using assms by (intro mod_less_divisor) linarith
  ultimately show ?thesis
    by (auto simp: ring_items_def nth_list_update_if)
qed

lemma ring_items_set:
  assumes "i < n" and "n \<le> length buf"
  shows "ring_items (buf[(h + i) mod length buf := x]) h n = (ring_items buf h n)[i := x]"
proof (rule nth_equalityI)
  fix k
  assume "k < length (ring_items (buf[(h + i) mod length buf := x]) h n)"
  moreover have "(h + i) mod length buf < length buf"
    using assms by (intro mod_less_divisor) linarith
  ultimately show "ring_items (buf[(h + i) mod length buf := x]) h n ! k =
      (ring_items buf h n)[i := x] ! k"
    using ring_slot_inject [of i "length buf" k h] assms
    by (auto simp: nth_ring_items nth_list_update_if)
qed simp

lemma ring_items_drop:
  "k \<le> n \<Longrightarrow> ring_items buf ((h + k) mod length buf) (n - k) = drop k (ring_items buf h n)"
  by (rule nth_equalityI) (simp_all add: nth_ring_items mod_add_left_eq add.assoc)

lemma ring_items_last:
  "0 < n \<Longrightarrow> last (ring_items buf h n) = buf ! ((h + (n - 1)) mod length buf)"
  by (simp add: ring_items_def last_map)

lemma ring_items_overwrite:
  assumes "length buf = Suc m"
  shows "ring_items (buf[h mod length buf := x]) (Suc h) (length buf) = tl (ring_items buf h (length buf)) @ [x]"
proof -
  have "(Suc h + m) mod length buf = h mod length buf"
    by (metis add_Suc_shift assms mod_add_self2)
  then have "ring_items (buf[h mod length buf := x]) (Suc h) (Suc m) = ring_items buf (Suc h) m @ [x]"
    using ring_items_push [of m buf "Suc h" x] assms by simp
  moreover have "ring_items buf (Suc h) m = tl (ring_items buf h (Suc m))"
    using ring_items_drop [of 1 "Suc m" buf h] ring_items_mod [of buf "Suc h" m] by (simp add: drop_Suc)
  ultimately show ?thesis
    using assms by simp
qed

lemma ring_items_Cons:
  "ring_items buf h (Suc n) = buf ! (h mod length buf) # ring_items buf ((h + 1) mod length buf) n"
proof -
  have "ring_items buf ((h + 1) mod length buf) n = tl (ring_items buf h (Suc n))"
    using ring_items_drop [of 1 "Suc n" buf h] by (simp add: drop_Suc)
  then show ?thesis
    by (metis add_0_right length_ring_items list.collapse list.size(3) nat.distinct(1)
        nth_Cons_0 nth_ring_items zero_less_Suc)
qed

section \<open>The contract of a bounded queue\<close>

text \<open>
  A push either makes an item or is refused by the queue's own filter (\<open>made\<close>), and a made item
  is kept while there is room; a pop takes items from the front.
\<close>

datatype 'x fifo_op = Push 'x | Pop nat

locale bounded_fifo =
  fixes inv :: "'s \<Rightarrow> bool"
    and items :: "'s \<Rightarrow> 'a list"
    and cap :: nat
    and made :: "'s \<Rightarrow> 'x \<Rightarrow> 'a option"
    and push :: "'x \<Rightarrow> 's \<Rightarrow> 's"
    and pop :: "nat \<Rightarrow> 's \<Rightarrow> 's"
  assumes items_cap: "inv s \<Longrightarrow> length (items s) \<le> cap"
    and push_inv: "inv s \<Longrightarrow> inv (push x s)"
    and pop_inv: "inv s \<Longrightarrow> inv (pop n s)"
    and push_items: "inv s \<Longrightarrow> items (push x s) =
          items s @ (if length (items s) < cap then case made s x of None \<Rightarrow> [] | Some a \<Rightarrow> [a] else [])"
    and pop_items: "inv s \<Longrightarrow> items (pop n s) = drop n (items s)"
begin

text \<open>A run of operations: the final state, what was popped, and what pushes made.\<close>

fun step :: "'x fifo_op \<Rightarrow> 's \<Rightarrow> 's" where
  "step (Push x) s = push x s"
| "step (Pop n) s = pop n s"

fun popped :: "'x fifo_op list \<Rightarrow> 's \<Rightarrow> 'a list" where
  "popped [] s = []"
| "popped (Push x # ops) s = popped ops (push x s)"
| "popped (Pop n # ops) s = take n (items s) @ popped ops (pop n s)"

fun offered :: "'x fifo_op list \<Rightarrow> 's \<Rightarrow> 'a list" where
  "offered [] s = []"
| "offered (Push x # ops) s = (case made s x of None \<Rightarrow> [] | Some a \<Rightarrow> [a]) @ offered ops (push x s)"
| "offered (Pop n # ops) s = offered ops (pop n s)"

fun roomy :: "'x fifo_op list \<Rightarrow> 's \<Rightarrow> bool" where
  "roomy [] s \<longleftrightarrow> True"
| "roomy (Push x # ops) s \<longleftrightarrow> length (items s) < cap \<and> roomy ops (push x s)"
| "roomy (Pop n # ops) s \<longleftrightarrow> roomy ops (pop n s)"

definition run :: "'x fifo_op list \<Rightarrow> 's \<Rightarrow> 's" where
  "run ops s = fold step ops s"

lemma step_inv: "inv s \<Longrightarrow> inv (step op s)"
  by (cases op) (simp_all add: push_inv pop_inv)

lemma run_inv: "inv s \<Longrightarrow> inv (run ops s)"
  unfolding run_def by (induction ops arbitrary: s) (simp_all add: step_inv)

text \<open>First in, first out: what came out, followed by what is still held, is a subsequence of
  what was held and offered, in that order.\<close>

lemma fifo_subseq:
  "inv s \<Longrightarrow> subseq (popped ops s @ items (run ops s)) (items s @ offered ops s)"
proof (induction ops arbitrary: s)
  case Nil
  then show ?case by (simp add: run_def)
next
  case (Cons op ops)
  show ?case
  proof (cases op)
    case (Push x)
    have "subseq (popped ops (push x s) @ items (run ops (push x s)))
        (items (push x s) @ offered ops (push x s))"
      using Cons by (simp add: push_inv)
    also have "subseq (items (push x s) @ offered ops (push x s))
        (items s @ offered (Push x # ops) s)"
      using Cons.prems by (auto simp: push_items intro!: list_emb_append_mono split: option.splits)
    finally show ?thesis
      by (simp add: Push run_def)
  next
    case (Pop n)
    have "subseq (popped ops (pop n s) @ items (run ops (pop n s))) (drop n (items s) @ offered ops (pop n s))"
      using Cons pop_inv [of s n] pop_items [of s n] by metis
    then have "subseq (take n (items s) @ popped ops (pop n s) @ items (run ops (pop n s)))
        (take n (items s) @ drop n (items s) @ offered ops (pop n s))"
      by (simp only: subseq_append')
    then show ?thesis
      by (simp add: Pop run_def flip: append_assoc)
  qed
qed

text \<open>While there is room, nothing is lost.\<close>

lemma fifo_exact:
  "inv s \<Longrightarrow> roomy ops s \<Longrightarrow> popped ops s @ items (run ops s) = items s @ offered ops s"
proof (induction ops arbitrary: s)
  case Nil
  then show ?case by (simp add: run_def)
next
  case (Cons op ops)
  show ?case
  proof (cases op)
    case (Push x)
    then show ?thesis
      using Cons push_inv [of s x] push_items [of s x] by (simp add: run_def)
  next
    case (Pop n)
    then show ?thesis
      using Cons pop_inv [of s n] pop_items [of s n] by (simp add: run_def)
  qed
qed

end

end
