(* ===== verification/Trace.thy ===== *)
theory Trace
  imports Ring
begin

text \<open>
  The debug trace ring (\<open>src/firmware/debug/trace.c\<close>): interrupt producers append, one task consumes.
  The statics of the file are one record; taking and releasing the interrupt lock makes each
  operation one step. The lemmas show that the ring is a bounded first-in first-out queue and that
  sequence numbers account for every dropped record.
\<close>

record dt_record =
  dt_seq :: u32
  dt_ms :: u32
  dt_module :: u8
  dt_level :: u8
  dt_code :: u16
  dt_a :: u32
  dt_b :: u32
  dt_c :: u32
  dt_d :: u32

record dt_state =
  records :: "dt_record list"
  sequence :: u32
  dropped :: u32
  highwater :: u32
  clock_ms :: u32
  modules :: u32
  head :: nat
  count :: nat
  level_limit :: u8

abbreviation (input) CAP :: nat where "CAP \<equiv> 16"
abbreviation (input) DT_DETAIL :: u8 where "DT_DETAIL \<equiv> 3"
abbreviation (input) DT_RAW :: u8 where "DT_RAW \<equiv> 4"

definition dt_zero :: dt_record where
  "dt_zero = \<lparr>dt_seq = 0, dt_ms = 0, dt_module = 0, dt_level = 0, dt_code = 0, dt_a = 0, dt_b = 0,
     dt_c = 0, dt_d = 0\<rparr>"

definition dt_boot :: dt_state where
  "dt_boot = \<lparr>records = replicate CAP dt_zero, sequence = 0, dropped = 0, highwater = 0, clock_ms = 0,
     modules = 255, head = 0, count = 0, level_limit = DT_DETAIL\<rparr>"

definition dt_time :: "u32 \<Rightarrow> dt_state \<Rightarrow> dt_state" where
  "dt_time ms s = s\<lparr>clock_ms := ms\<rparr>"

definition dt_config :: "u32 \<Rightarrow> u8 \<Rightarrow> dt_state \<Rightarrow> dt_state" where
  "dt_config mask' level s = s\<lparr>modules := mask', level_limit := level\<rparr>"

definition dt_filtered :: "u8 \<Rightarrow> u8 \<Rightarrow> dt_state \<Rightarrow> bool" where
  "dt_filtered module level s \<longleftrightarrow>
     7 < module \<or> modules s AND push_bit (unat module) 1 = 0 \<or> level_limit s < level"

text \<open>The arguments of a trace call.\<close>

type_synonym dt_args = "u8 \<times> u8 \<times> u16 \<times> u32 \<times> u32 \<times> u32 \<times> u32"

fun dt_log :: "dt_args \<Rightarrow> dt_state \<Rightarrow> dt_state" where
  "dt_log (module, level, code, a, b, c, d) s =
     (if dt_filtered module level s then s
      else let seq = sequence s + 1; s1 = s\<lparr>sequence := seq\<rparr>
           in if count s1 = CAP then s1\<lparr>dropped := dropped s1 + 1\<rparr>
              else let r = \<lparr>dt_seq = seq, dt_ms = clock_ms s1, dt_module = module, dt_level = level,
                            dt_code = code, dt_a = a, dt_b = b, dt_c = c, dt_d = d\<rparr>;
                       s2 = s1\<lparr>records := (records s1)[(head s1 + count s1) mod CAP := r],
                               count := count s1 + 1\<rparr>
                   in if highwater s2 < word_of_nat (count s2)
                      then s2\<lparr>highwater := word_of_nat (count s2)\<rparr> else s2)"

text \<open>A word of a chunk: the bytes copied over a zeroed \<open>uint32_t\<close>, little endian.\<close>

definition chunk_word :: "u8 list \<Rightarrow> nat \<Rightarrow> u32" where
  "chunk_word bytes k = le_word (take 4 (drop (4 * k) (bytes @ replicate 12 0)))"

text \<open>
  The loop of \<open>dt_blob\<close>. Its \<open>uint16_t\<close> offset wraps around on blobs of more than 65532 bytes, where
  the loop never ends; not returning is \<open>None\<close>.
\<close>

definition blob_record :: "u8 \<Rightarrow> u16 \<Rightarrow> u8 list \<Rightarrow> u16 \<Rightarrow> dt_args" where
  "blob_record module code data offset =
     (let bytes = take 12 (drop (unat offset) data)
      in (module, DT_RAW, code, push_bit 16 (word_of_nat (length data)) OR ucast offset,
          chunk_word bytes 0, chunk_word bytes 1, chunk_word bytes 2))"

partial_function (option) dt_blob_loop ::
    "u8 \<Rightarrow> u16 \<Rightarrow> u8 list \<Rightarrow> u16 \<Rightarrow> dt_state \<Rightarrow> dt_state option" where
  "dt_blob_loop module code data offset s =
     (if unat offset < length data
      then dt_blob_loop module code data (offset + 12) (dt_log (blob_record module code data offset) s)
      else Some s)"

definition dt_blob :: "u8 \<Rightarrow> u16 \<Rightarrow> u8 list \<Rightarrow> dt_state \<Rightarrow> dt_state option" where
  "dt_blob module code data s =
     (if 7 < module \<or> modules s AND push_bit (unat module) 1 = 0 \<or> level_limit s < DT_RAW then Some s
      else dt_blob_loop module code data 0 s)"

definition dt_peek :: "nat \<Rightarrow> dt_state \<Rightarrow> dt_record list" where
  "dt_peek cap s = (let n = (if count s < cap then count s else cap)
     in map (\<lambda>i. records s ! ((head s + i) mod CAP)) [0..<n])"

definition dt_consume :: "nat \<Rightarrow> dt_state \<Rightarrow> dt_state" where
  "dt_consume n s = (let n = (if count s < n then count s else n)
     in s\<lparr>head := (head s + n) mod CAP, count := count s - n\<rparr>)"

definition dt_stats :: "dt_state \<Rightarrow> u32 \<times> u32 \<times> u32" where
  "dt_stats s = (sequence s, dropped s, highwater s)"

section \<open>Lemmas\<close>

definition dt_inv :: "dt_state \<Rightarrow> bool" where
  "dt_inv s \<longleftrightarrow> length (records s) = CAP \<and> head s < CAP \<and> count s \<le> CAP"

definition dt_items :: "dt_state \<Rightarrow> dt_record list" where
  "dt_items s = ring_items (records s) (head s) (count s)"

fun dt_made :: "dt_state \<Rightarrow> dt_args \<Rightarrow> dt_record option" where
  "dt_made s (module, level, code, a, b, c, d) =
     (if dt_filtered module level s then None
      else Some \<lparr>dt_seq = sequence s + 1, dt_ms = clock_ms s, dt_module = module, dt_level = level,
                 dt_code = code, dt_a = a, dt_b = b, dt_c = c, dt_d = d\<rparr>)"

lemma dt_log_inv: "dt_inv s \<Longrightarrow> dt_inv (dt_log x s)"
  by (cases x) (auto simp: dt_inv_def Let_def)

lemma dt_log_items:
  "dt_inv s \<Longrightarrow> dt_items (dt_log x s) =
     dt_items s @ (if length (dt_items s) < CAP then case dt_made s x of None \<Rightarrow> [] | Some a \<Rightarrow> [a] else [])"
  using ring_items_push [of "count s" "records s" "head s"]
  by (cases x) (auto simp: dt_inv_def dt_items_def Let_def)

lemma dt_consume_items: "dt_inv s \<Longrightarrow> dt_items (dt_consume n s) = drop n (dt_items s)"
  using ring_items_drop [of n "count s" "records s" "head s"]
  by (auto simp: dt_consume_def dt_items_def Let_def dt_inv_def)

interpretation trace_fifo: bounded_fifo dt_inv dt_items CAP dt_made dt_log dt_consume
proof
  fix s :: dt_state
  assume inv: "dt_inv s"
  show "length (dt_items s) \<le> CAP"
    using inv by (simp add: dt_inv_def dt_items_def)
  show "dt_inv (dt_consume n s)" for n
    using inv by (auto simp: dt_inv_def dt_consume_def Let_def)
qed (simp_all add: dt_log_inv dt_log_items dt_consume_items)

lemma dt_peek_items: "dt_inv s \<Longrightarrow> dt_peek cap s = take cap (dt_items s)"
  by (auto simp: dt_peek_def dt_items_def ring_items_def dt_inv_def take_map Let_def)

subsection \<open>Accounting\<close>

text \<open>The number of consumed records, as the counters tell it.\<close>

definition dt_account :: "dt_state \<Rightarrow> u32" where
  "dt_account s = sequence s - dropped s - word_of_nat (count s)"

lemma dt_log_account: "dt_account (dt_log x s) = dt_account s"
  by (cases x) (simp add: dt_account_def Let_def)

lemma dt_consume_account:
  "dt_account (dt_consume n s) = dt_account s + word_of_nat (length (take n (dt_items s)))"
  by (auto simp: dt_consume_def Let_def dt_account_def dt_items_def min_def of_nat_diff)

lemma run_account:
  "dt_inv s \<Longrightarrow> dt_account (trace_fifo.run ops s) =
     dt_account s + word_of_nat (length (trace_fifo.popped ops s))"
proof (induction ops arbitrary: s)
  case (Cons op ops)
  then show ?case
    using trace_fifo.step_inv [OF Cons.prems, of op]
    by (cases op) (simp_all add: trace_fifo.run_def dt_log_account dt_consume_account del: length_take)
qed (simp add: trace_fifo.run_def)

text \<open>The records a run makes carry consecutive numbers.\<close>

lemma offered_seq:
  "dt_inv s \<Longrightarrow> map dt_seq (trace_fifo.offered ops s) =
     map (\<lambda>i. sequence s + word_of_nat (Suc i)) [0..<length (trace_fifo.offered ops s)]"
proof (induction ops arbitrary: s)
  case (Cons op ops)
  show ?case
  proof (cases op)
    case (Push x)
    note IH = Cons.IH [OF dt_log_inv [OF Cons.prems, of x]]
    show ?thesis
    proof (cases "dt_made s x")
      case None
      then have "dt_log x s = s"
        by (cases x) (auto split: if_splits)
      then show ?thesis
        using IH None by (simp add: Push)
    next
      case (Some r)
      then have "dt_seq r = sequence s + 1" "sequence (dt_log x s) = sequence s + 1"
        by (cases x; auto simp: Let_def split: if_splits)+
      then show ?thesis
        using IH Some by (simp add: Push upt_conv_Cons map_Suc_upt [symmetric] comp_def
            del: upt_Suc)
    qed
  next
    case (Pop n)
    have "sequence (dt_consume n s) = sequence s"
      by (simp add: dt_consume_def Let_def)
    then show ?thesis
      using Cons.IH [OF trace_fifo.pop_inv [OF Cons.prems, of n]] by (simp add: Pop)
  qed
qed simp

subsection \<open>Blobs\<close>

lemma dt_blob_loop_returns:
  assumes "length data \<le> 65532" and "12 dvd unat offset"
  shows "\<exists>s'. dt_blob_loop module code data offset s = Some s'"
  using assms
proof (induction "length data - unat offset" arbitrary: offset s rule: less_induct)
  case less
  show ?case
  proof (cases "unat offset < length data")
    case True
    obtain k where k: "unat offset = 12 * k"
      using less.prems(2) by blast
    then have "k < 5461"
      using True less.prems(1) by linarith
    then have "unat offset + 12 < 65536"
      unfolding k by linarith
    then have u: "unat (offset + 12) = unat offset + 12"
      by (simp add: unat_word_ariths)
    have "\<exists>s'. dt_blob_loop module code data (offset + 12) t = Some s'" for t
      using True less.prems by (intro less.hyps) (auto simp: u)
    then show ?thesis
      using True by (simp add: dt_blob_loop.simps [of module code data offset])
  next
    case False
    then show ?thesis
      by (simp add: dt_blob_loop.simps)
  qed
qed

section \<open>Properties\<close>

text \<open>The trace ring is a first-in first-out queue with an audit trail. Over any sequence of log and consume
  calls, the records consumed, followed by those still held, are a subsequence of the records
  that were offered; offered records carry consecutive sequence numbers, so a gap
  shows a loss; and the sequence counter minus the drop counter is the number of
  records consumed plus the number held.\<close>

theorem trace_fifo_account:
  assumes "dt_inv s" and "count s = 0" and "sequence s = dropped s"
  shows "subseq (trace_fifo.popped ops s @ dt_items (trace_fifo.run ops s)) (trace_fifo.offered ops s)
    \<and> map dt_seq (trace_fifo.offered ops s) =
        map (\<lambda>i. sequence s + word_of_nat (Suc i)) [0..<length (trace_fifo.offered ops s)]
    \<and> sequence (trace_fifo.run ops s) - dropped (trace_fifo.run ops s) =
        word_of_nat (length (trace_fifo.popped ops s) + length (dt_items (trace_fifo.run ops s)))"
proof -
  have "dt_items s = []"
    using assms by (simp add: dt_items_def)
  then show ?thesis
    using trace_fifo.fifo_subseq [OF assms(1), of ops] offered_seq [OF assms(1), of ops]
      run_account [OF assms(1), of ops] assms(2,3)
    by (simp add: dt_account_def dt_items_def algebra_simps)
qed

theorem trace_fifo_account_witness:
  "sequence (trace_fifo.run (replicate 18 (Push (1, 2, 7, 0, 0, 0, 0)) @ [Pop 3]) dt_boot)
     - dropped (trace_fifo.run (replicate 18 (Push (1, 2, 7, 0, 0, 0, 0)) @ [Pop 3]) dt_boot)
   = word_of_nat (length (trace_fifo.popped (replicate 18 (Push (1, 2, 7, 0, 0, 0, 0)) @ [Pop 3]) dt_boot)
       + length (dt_items (trace_fifo.run (replicate 18 (Push (1, 2, 7, 0, 0, 0, 0)) @ [Pop 3]) dt_boot)))"
  using trace_fifo_account [of dt_boot "replicate 18 (Push (1, 2, 7, 0, 0, 0, 0)) @ [Pop 3]"]
  by (simp add: dt_boot_def dt_inv_def)

end
