(* ===== verification/Faults.thy ===== *)
theory Faults
  imports Ring
begin

text \<open>
  The release fault log (\<open>src/firmware/product/faults.c\<close>): four records in a ring that overwrites the
  oldest, repeats of the last fault counted in place. The statics of the file are one record, and
  masking interrupts makes each call one step. The lemmas show that the ring implements a
  list of the last four distinct faults.
\<close>

record rbp_fault =
  f_sequence :: u32
  f_domain :: u16
  f_stage :: u16
  f_code :: u32
  f_context :: u32
  f_count :: u32
  f_board_ms :: u32

abbreviation (input) RBP_FAULT_CAPACITY :: nat where "RBP_FAULT_CAPACITY \<equiv> 4"
abbreviation (input) UINT32_MAX :: u32 where "UINT32_MAX \<equiv> 0xFFFFFFFF"

record fault_state =
  fs_records :: "rbp_fault list"
  serial :: u32
  evictions :: u32
  fs_clock_ms :: u32
  used :: nat
  fs_next :: nat

definition fault_zero :: rbp_fault where
  "fault_zero = \<lparr>f_sequence = 0, f_domain = 0, f_stage = 0, f_code = 0, f_context = 0, f_count = 0,
     f_board_ms = 0\<rparr>"

definition fault_boot :: fault_state where
  "fault_boot = \<lparr>fs_records = replicate RBP_FAULT_CAPACITY fault_zero, serial = 0, evictions = 0,
     fs_clock_ms = 0, used = 0, fs_next = 0\<rparr>"

definition rbp_fault_set_time :: "u32 \<Rightarrow> fault_state \<Rightarrow> fault_state" where
  "rbp_fault_set_time board_ms s = s\<lparr>fs_clock_ms := board_ms\<rparr>"

definition same_fault :: "u16 \<Rightarrow> u16 \<Rightarrow> u32 \<Rightarrow> u32 \<Rightarrow> rbp_fault \<Rightarrow> bool" where
  "same_fault domain stage code ctxt r \<longleftrightarrow>
     f_domain r = domain \<and> f_stage r = stage \<and> f_code r = code \<and> f_context r = ctxt"

text \<open>\<open>++serial\<close> skips zero.\<close>

definition rbp_fault_record :: "u16 \<Rightarrow> u16 \<Rightarrow> u32 \<Rightarrow> u32 \<Rightarrow> fault_state \<Rightarrow> fault_state" where
  "rbp_fault_record domain stage code ctxt s =
     (let last_slot = (fs_next s + RBP_FAULT_CAPACITY - 1) mod RBP_FAULT_CAPACITY;
          r = fs_records s ! last_slot;
          ser = (if serial s + 1 = 0 then 1 else serial s + 1)
      in if used s \<noteq> 0 \<and> same_fault domain stage code ctxt r then
           s\<lparr>serial := ser,
             fs_records := (fs_records s)[last_slot :=
               r\<lparr>f_count := (if f_count r \<noteq> UINT32_MAX then f_count r + 1 else f_count r),
                 f_sequence := ser, f_board_ms := fs_clock_ms s\<rparr>]\<rparr>
         else
           s\<lparr>serial := ser,
             evictions := (if used s = RBP_FAULT_CAPACITY \<and> evictions s \<noteq> UINT32_MAX
                           then evictions s + 1 else evictions s),
             fs_records := (fs_records s)[fs_next s :=
               \<lparr>f_sequence = ser, f_domain = domain, f_stage = stage, f_code = code, f_context = ctxt,
                f_count = 1, f_board_ms = fs_clock_ms s\<rparr>],
             fs_next := (fs_next s + 1) mod RBP_FAULT_CAPACITY,
             used := (if used s < RBP_FAULT_CAPACITY then used s + 1 else used s)\<rparr>)"

definition rbp_fault_snapshot :: "fault_state \<Rightarrow> rbp_fault list \<times> u32 \<times> u32" where
  "rbp_fault_snapshot s =
     (map (\<lambda>i. fs_records s ! ((fs_next s + RBP_FAULT_CAPACITY - used s + i) mod RBP_FAULT_CAPACITY))
        [0..<used s], serial s, evictions s)"

section \<open>Specification\<close>

text \<open>The log as a list, oldest first: a repeat updates the last entry, a new fault is appended, and
  only the last four stay.\<close>

definition spec_next_serial :: "u32 \<Rightarrow> u32" where
  "spec_next_serial n = (if n = UINT32_MAX then 1 else n + 1)"

definition spec_record ::
    "u16 \<Rightarrow> u16 \<Rightarrow> u32 \<Rightarrow> u32 \<Rightarrow> u32 \<Rightarrow> u32 \<Rightarrow> rbp_fault list \<Rightarrow> rbp_fault list" where
  "spec_record domain stage code ctxt ser now log =
     (if log \<noteq> [] \<and> same_fault domain stage code ctxt (last log)
      then butlast log @ [(last log)\<lparr>f_count :=
             (if f_count (last log) = UINT32_MAX then UINT32_MAX else f_count (last log) + 1),
             f_sequence := ser, f_board_ms := now\<rparr>]
      else let log' = log @ [\<lparr>f_sequence = ser, f_domain = domain, f_stage = stage, f_code = code,
                              f_context = ctxt, f_count = 1, f_board_ms = now\<rparr>]
           in drop (length log' - 4) log')"

section \<open>Lemmas\<close>

definition fault_inv :: "fault_state \<Rightarrow> bool" where
  "fault_inv s \<longleftrightarrow> length (fs_records s) = RBP_FAULT_CAPACITY \<and> fs_next s < RBP_FAULT_CAPACITY
     \<and> used s \<le> RBP_FAULT_CAPACITY"

abbreviation fault_log :: "fault_state \<Rightarrow> rbp_fault list" where
  "fault_log s \<equiv> fst (rbp_fault_snapshot s)"

lemma fault_log_ring:
  "fault_inv s \<Longrightarrow> fault_log s = ring_items (fs_records s) (fs_next s + 4 - used s) (used s)"
  by (simp add: rbp_fault_snapshot_def ring_items_def fault_inv_def)

lemma word_minus_one_32: "- 1 = (0xFFFFFFFF :: u32)"
  by simp

lemma fault_record_inv: "fault_inv s \<Longrightarrow> fault_inv (rbp_fault_record d st c x s)"
  by (auto simp: fault_inv_def rbp_fault_record_def Let_def)

lemma fault_last:
  assumes "fault_inv s" and "used s \<noteq> 0"
  shows "last (fault_log s) = fs_records s ! ((fs_next s + 3) mod 4)"
proof -
  have "fs_next s + 4 - used s + (used s - 1) = fs_next s + 3"
    using assms by (simp add: fault_inv_def)
  then show ?thesis
    using ring_items_last [of "used s" "fs_records s" "fs_next s + 4 - used s"] assms
    by (simp add: fault_log_ring fault_inv_def add.commute)
qed

lemma fault_log_set_last:
  assumes "fault_inv s" and "used s \<noteq> 0"
  shows "ring_items ((fs_records s)[(fs_next s + 3) mod 4 := r]) (fs_next s + 4 - used s) (used s) =
           butlast (fault_log s) @ [r]"
proof -
  have "(fs_next s + 4 - used s + (used s - 1)) mod 4 = (fs_next s + 3) mod 4"
    using assms by (simp add: fault_inv_def add.commute)
  then have "ring_items ((fs_records s)[(fs_next s + 3) mod 4 := r]) (fs_next s + 4 - used s) (used s)
      = (fault_log s)[used s - 1 := r]"
    using ring_items_set [of "used s - 1" "used s" "fs_records s" "fs_next s + 4 - used s" r] assms
    by (simp add: fault_log_ring fault_inv_def)
  moreover have "fault_log s \<noteq> []" "length (fault_log s) = used s"
    using assms by (auto simp: rbp_fault_snapshot_def)
  ultimately show ?thesis
    by (metis append_butlast_last_id length_append_singleton length_butlast list_update_length)
qed

lemma fault_log_push:
  assumes "fault_inv s" and "used s < 4"
  shows "ring_items ((fs_records s)[fs_next s := r]) ((fs_next s + 1) mod 4 + 4 - Suc (used s)) (Suc (used s)) =
           fault_log s @ [r]"
proof -
  have n: "fs_next s < 4" "length (fs_records s) = 4"
    using assms by (simp_all add: fault_inv_def)
  have "((fs_next s + 1) mod 4 + 4 - Suc (used s)) mod 4 = (fs_next s + 4 - used s) mod 4"
  proof (cases "fs_next s = 3")
    case True
    then have "fs_next s + 4 - used s = (4 - Suc (used s)) + 4"
      using assms(2) by simp
    then show ?thesis
      using True by (simp only: mod_add_self2) simp
  next
    case False
    then show ?thesis
      using n assms(2) by (simp add: add.commute)
  qed
  moreover have "(fs_next s + 4 - used s + used s) mod 4 = fs_next s"
    using n assms(2) by simp
  ultimately show ?thesis
    using ring_items_push [of "used s" "fs_records s" "fs_next s + 4 - used s" r] n assms
      ring_items_cong [of "(fs_next s + 1) mod 4 + 4 - Suc (used s)"
        "(fs_records s)[fs_next s := r]" "fs_next s + 4 - used s" "Suc (used s)"]
    by (simp add: fault_log_ring)
qed

lemma fault_log_overwrite:
  assumes "fault_inv s" and "used s = 4"
  shows "ring_items ((fs_records s)[fs_next s := r]) ((fs_next s + 1) mod 4) 4 = tl (fault_log s) @ [r]"
  using assms ring_items_overwrite [of "fs_records s" 3 "fs_next s" r]
    ring_items_mod [of "(fs_records s)[fs_next s := r]" "Suc (fs_next s)" 4]
  by (simp add: fault_log_ring fault_inv_def)

lemma length_fault_log: "length (fault_log s) = used s"
  by (simp add: rbp_fault_snapshot_def)

lemma fault_record_refines:
  assumes "fault_inv s"
  shows "fault_log (rbp_fault_record d st c x s) =
           spec_record d st c x (spec_next_serial (serial s)) (fs_clock_ms s) (fault_log s)"
proof -
  let ?s = "rbp_fault_record d st c x s"
  have inv: "fault_inv ?s"
    using assms by (rule fault_record_inv)
  have "serial s + 1 = 0 \<longleftrightarrow> serial s = 0xFFFFFFFF"
    by (simp only: eq_neg_iff_add_eq_0 [symmetric] word_minus_one_32)
  then have ser: "(if serial s + 1 = 0 then 1 else serial s + 1) = spec_next_serial (serial s)"
    by (simp add: spec_next_serial_def)
  have slot: "fs_next s + 4 - 1 = fs_next s + 3" by simp
  show ?thesis
  proof (cases "used s \<noteq> 0 \<and> same_fault d st c x (fs_records s ! ((fs_next s + 3) mod 4))")
    case True
    let ?r = "fs_records s ! ((fs_next s + 3) mod 4)"
    let ?r' = "?r\<lparr>f_count := (if f_count ?r = UINT32_MAX then UINT32_MAX else f_count ?r + 1),
      f_sequence := spec_next_serial (serial s), f_board_ms := fs_clock_ms s\<rparr>"
    have "?s = s\<lparr>serial := spec_next_serial (serial s),
        fs_records := (fs_records s)[(fs_next s + 3) mod 4 := ?r']\<rparr>"
      using True unfolding rbp_fault_record_def Let_def slot ser by simp
    then have "fault_log ?s = butlast (fault_log s) @ [?r']"
      using fault_log_ring [OF inv] fault_log_set_last [OF assms, of ?r'] True by simp
    moreover have "last (fault_log s) = ?r" "fault_log s \<noteq> []"
      using fault_last [OF assms] length_fault_log [of s] True by auto
    ultimately show ?thesis
      using True by (simp add: spec_record_def)
  next
    case False
    then have "\<not> (fault_log s \<noteq> [] \<and> same_fault d st c x (last (fault_log s)))"
      using fault_last [OF assms] length_fault_log [of s] by (cases "used s = 0") auto
    then have spec: "spec_record d st c x ser now (fault_log s) =
        drop (Suc (used s) - 4) (fault_log s @ [\<lparr>f_sequence = ser, f_domain = d, f_stage = st,
          f_code = c, f_context = x, f_count = 1, f_board_ms = now\<rparr>])" for ser now
      using length_fault_log [of s] unfolding spec_record_def Let_def by (subst if_not_P) simp_all
    let ?r = "\<lparr>f_sequence = spec_next_serial (serial s), f_domain = d, f_stage = st, f_code = c,
      f_context = x, f_count = 1, f_board_ms = fs_clock_ms s\<rparr>"
    have s': "fs_records ?s = (fs_records s)[fs_next s := ?r]" "fs_next ?s = (fs_next s + 1) mod 4"
      "used ?s = (if used s < 4 then Suc (used s) else used s)"
      using False unfolding rbp_fault_record_def Let_def slot ser by (simp_all only: if_False) simp_all
    have "used s < 4 \<or> used s = 4"
      using assms by (auto simp: fault_inv_def)
    then show ?thesis
    proof
      assume "used s < 4"
      then show ?thesis
        using fault_log_push [OF assms] by (simp add: fault_log_ring [OF inv] s' spec)
    next
      assume "used s = 4"
      then show ?thesis
        using fault_log_overwrite [OF assms] length_fault_log [of s]
        by (simp add: fault_log_ring [OF inv] s' spec drop_Suc)
    qed
  qed
qed

section \<open>Properties\<close>

text \<open>A history of fault reports: the clock is set, and a fault with its four fields is recorded.\<close>

type_synonym fault_report = "u32 \<times> u16 \<times> u16 \<times> u32 \<times> u32"

fun fault_step :: "fault_state \<Rightarrow> fault_report \<Rightarrow> fault_state" where
  "fault_step s (now, d, st, c, x) = rbp_fault_record d st c x (rbp_fault_set_time now s)"

fun spec_step :: "u32 \<times> rbp_fault list \<Rightarrow> fault_report \<Rightarrow> u32 \<times> rbp_fault list" where
  "spec_step (ser, log) (now, d, st, c, x) =
     (spec_next_serial ser, spec_record d st c x (spec_next_serial ser) now log)"

lemma fault_record_serial:
  "serial (rbp_fault_record d st c x s) = spec_next_serial (serial s)"
proof -
  have "serial s + 1 = 0 \<longleftrightarrow> serial s = 0xFFFFFFFF"
    by (simp only: eq_neg_iff_add_eq_0 [symmetric] word_minus_one_32)
  then show ?thesis
    by (simp add: rbp_fault_record_def Let_def spec_next_serial_def)
qed

lemma fault_step_refines:
  assumes "fault_inv s"
  shows "fault_inv (fault_step s r)"
    and "(serial (fault_step s r), fault_log (fault_step s r)) = spec_step (serial s, fault_log s) r"
proof -
  obtain now d st c x where r: "r = (now, d, st, c, x)"
    by (cases r)
  have t: "fault_inv (rbp_fault_set_time now s)" "fault_log (rbp_fault_set_time now s) = fault_log s"
    using assms by (simp_all add: fault_inv_def rbp_fault_set_time_def rbp_fault_snapshot_def)
  show "fault_inv (fault_step s r)"
    using t(1) by (simp add: r fault_record_inv)
  show "(serial (fault_step s r), fault_log (fault_step s r)) = spec_step (serial s, fault_log s) r"
    using fault_record_refines [OF t(1), of d st c x] t(2)
    by (simp add: r fault_record_serial rbp_fault_set_time_def)
qed

text \<open>The fault ring implements its list specification over any history of reports. A snapshot lists the last
  four faults that differ from their predecessor, oldest first, each with a
  saturating repeat count and the serial number and time of its last occurrence; serial numbers are never 0.\<close>

theorem fault_ring_refines:
  "(serial (foldl fault_step fault_boot rs), fault_log (foldl fault_step fault_boot rs)) =
     foldl spec_step (0, []) rs
   \<and> length (fault_log (foldl fault_step fault_boot rs)) \<le> 4"
proof -
  have gen: "fault_inv s \<Longrightarrow> fault_inv (foldl fault_step s rs) \<and>
      (serial (foldl fault_step s rs), fault_log (foldl fault_step s rs)) =
        foldl spec_step (serial s, fault_log s) rs" for s
    by (induction rs arbitrary: s) (simp_all add: fault_step_refines)
  have "fault_inv fault_boot" "serial fault_boot = 0" "fault_log fault_boot = []"
    by (simp_all add: fault_inv_def fault_boot_def rbp_fault_snapshot_def)
  then show ?thesis
    using gen [of fault_boot] by (simp add: length_fault_log fault_inv_def)
qed

end
