(* ===== verification/Device_Model.thy ===== *)
theory Device_Model
  imports Defs
begin

text \<open>
  The device catalogs (\<open>src/firmware/product/device_model.c\<close>): the key tables of the supported remotes,
  in the order of the catalog's slots. The lemma shows that every table fits the 64-bit key
  bitmap, with distinct keys and slots, and that the voice profile extends the plain one.
\<close>

type_synonym rbp_key_def = "u16 \<times> string"

record rbp_device_profile =
  model_id :: string
  display_name :: string
  catalog_revision :: u32
  key_count :: nat
  dp_keys :: "rbp_key_def list"

definition rc003_keys :: "rbp_key_def list" where
  "rc003_keys =
     [(RBP_KEY_POWER, ''Power''), (RBP_KEY_UP, ''Up''), (RBP_KEY_DOWN, ''Down''),
      (RBP_KEY_LEFT, ''Left''), (RBP_KEY_RIGHT, ''Right''), (RBP_KEY_OK, ''OK''),
      (RBP_KEY_BACK, ''Back''), (RBP_KEY_HOME, ''Home''), (RBP_KEY_MENU, ''Menu''),
      (RBP_KEY_TV, ''TV''), (RBP_KEY_VOLUME_UP, ''Volume Up''),
      (RBP_KEY_VOLUME_DOWN, ''Volume Down''), (RBP_KEY_VOICE, ''Voice'')]"

definition unicom_keys :: "rbp_key_def list" where
  "unicom_keys =
     [(RBP_KEY_POWER, ''Power''), (RBP_KEY_MUTE, ''Mute''),
      (RBP_KEY_SETTINGS, ''Settings''), (RBP_KEY_UP, ''Up''), (RBP_KEY_DOWN, ''Down''),
      (RBP_KEY_LEFT, ''Left''), (RBP_KEY_RIGHT, ''Right''), (RBP_KEY_OK, ''Ok''),
      (RBP_KEY_HOME, ''Home''), (RBP_KEY_LOCAL, ''Local''), (RBP_KEY_BACK, ''Back''),
      (RBP_KEY_VOLUME_UP, ''Volume Up''), (RBP_KEY_VOLUME_DOWN, ''Volume Down''),
      (RBP_KEY_CHANNEL_UP, ''Channel Up''), (RBP_KEY_CHANNEL_DOWN, ''Channel Down''),
      (RBP_KEY_VOICE, ''Voice''), (RBP_KEY_DIGIT_1, ''Digit 1''),
      (RBP_KEY_DIGIT_2, ''Digit 2''), (RBP_KEY_DIGIT_3, ''Digit 3''),
      (RBP_KEY_DIGIT_4, ''Digit 4''), (RBP_KEY_DIGIT_5, ''Digit 5''),
      (RBP_KEY_DIGIT_6, ''Digit 6''), (RBP_KEY_DIGIT_7, ''Digit 7''),
      (RBP_KEY_DIGIT_8, ''Digit 8''), (RBP_KEY_DIGIT_9, ''Digit 9''),
      (RBP_KEY_STAR, ''Star''), (RBP_KEY_DIGIT_0, ''Digit 0''), (RBP_KEY_HASH, ''Hash'')]"

definition RBP_PROFILE_RC003 :: rbp_device_profile where
  "RBP_PROFILE_RC003 = \<lparr>model_id = ''xiaomi.rc003'', display_name = ''Xiaomi Remote 2 Pro'',
     catalog_revision = 1, key_count = length rc003_keys - 1, dp_keys = rc003_keys\<rparr>"

definition RBP_PROFILE_RC003_VOICE :: rbp_device_profile where
  "RBP_PROFILE_RC003_VOICE = \<lparr>model_id = ''xiaomi.rc003'', display_name = ''Xiaomi Remote 2 Pro'',
     catalog_revision = 2, key_count = length rc003_keys, dp_keys = rc003_keys\<rparr>"

definition RBP_PROFILE_UNICOM :: rbp_device_profile where
  "RBP_PROFILE_UNICOM = \<lparr>model_id = ''unicom.hid_ico.v1'', display_name = ''Unicom BLE Voice Remote'',
     catalog_revision = 1, key_count = length unicom_keys, dp_keys = unicom_keys\<rparr>"

section \<open>Properties\<close>

text \<open>The catalog of a profile: the keys of its slots.\<close>

definition catalog_ids :: "rbp_device_profile \<Rightarrow> u16 list" where
  "catalog_ids p = map fst (take (key_count p) (dp_keys p))"

definition profile_ok :: "rbp_device_profile \<Rightarrow> bool" where
  "profile_ok p \<longleftrightarrow> key_count p \<le> length (dp_keys p) \<and> key_count p \<le> 64
     \<and> distinct (catalog_ids p) \<and> (\<forall>k \<in> set (catalog_ids p). 0 < k \<and> k < 64)
     \<and> (\<forall>d \<in> set (dp_keys p). length (snd d) \<le> 96)
     \<and> length (model_id p) \<le> 40 \<and> length (display_name p) \<le> 96"

lemma profiles_ok:
  "profile_ok RBP_PROFILE_RC003" "profile_ok RBP_PROFILE_RC003_VOICE" "profile_ok RBP_PROFILE_UNICOM"
  by (simp_all add: profile_ok_def catalog_ids_def RBP_PROFILE_RC003_def RBP_PROFILE_RC003_VOICE_def
      RBP_PROFILE_UNICOM_def rc003_keys_def unicom_keys_def)

text \<open>Every device profile is a catalog the protocol can carry: its count is covered by its table and by the
  64 bits of a key state, its keys are pairwise different and each fits a bit of the adapter's key bitmap, and its texts
  fit their wire fields. Observing the voice key only appends a slot to the RC003 catalog, so the slots of a running
  session keep their meaning, and the revision changes.\<close>

theorem device_profiles_ok:
  "(\<forall>p \<in> {RBP_PROFILE_RC003, RBP_PROFILE_RC003_VOICE, RBP_PROFILE_UNICOM}.
      key_count p \<le> length (dp_keys p) \<and> key_count p \<le> 64
      \<and> distinct (catalog_ids p) \<and> (\<forall>k \<in> set (catalog_ids p). 0 < k \<and> k < 64)
      \<and> (\<forall>d \<in> set (dp_keys p). length (snd d) \<le> 96)
      \<and> length (model_id p) \<le> 40 \<and> length (display_name p) \<le> 96)
   \<and> catalog_ids RBP_PROFILE_RC003_VOICE = catalog_ids RBP_PROFILE_RC003 @ [RBP_KEY_VOICE]
   \<and> catalog_revision RBP_PROFILE_RC003_VOICE \<noteq> catalog_revision RBP_PROFILE_RC003"
  using profiles_ok
  by (simp add: profile_ok_def)
    (simp add: catalog_ids_def RBP_PROFILE_RC003_def RBP_PROFILE_RC003_VOICE_def rc003_keys_def)

theorem device_profiles_ok_witness:
  "key_count RBP_PROFILE_UNICOM \<le> 64 \<and> distinct (catalog_ids RBP_PROFILE_UNICOM)"
  using device_profiles_ok by blast

end
