(* ===== verification/Audio.thy ===== *)
theory Audio
  imports Prelude
begin

text \<open>
  The audio vocabulary of \<open>src/protocol/include/rbp/audio.h\<close> that the server and the host decoder
  share: codec identities, the capabilities of an adapter and the description of a stream's format.
\<close>

abbreviation (input) RBP_CODEC_IMA_HI :: u32 where "RBP_CODEC_IMA_HI \<equiv> 1"
abbreviation (input) RBP_CODEC_IFLYTEK_ICO :: u32 where "RBP_CODEC_IFLYTEK_ICO \<equiv> 2"
abbreviation (input) RBP_AUDIO_CONFIG_MAX :: u16 where "RBP_AUDIO_CONFIG_MAX \<equiv> 256"
abbreviation (input) RBP_AUDIO_UNIT_MAX :: u32 where "RBP_AUDIO_UNIT_MAX \<equiv> 65536"
abbreviation (input) RBP_AUDIO_DATA_HEADER :: nat where "RBP_AUDIO_DATA_HEADER \<equiv> 40"

record rbp_codec =
  co_id :: u32
  co_revision :: u16

text \<open>The codec array with its count is a list.\<close>

record rbp_audio_caps =
  ac_codecs :: "rbp_codec list"
  ac_max_unit_bytes :: u32

text \<open>The borrowed configuration bytes, \<open>None\<close> for a null pointer, carry their length.\<close>

record rbp_audio_format =
  af_codec_id :: u32
  af_sample_rate :: u32
  af_max_unit_bytes :: u32
  af_codec_revision :: u16
  af_config_len :: u16
  af_channels :: u8
  af_config :: "u8 list option"

end
