(* ===== verification/Decoder.thy ===== *)
theory Decoder
  imports Audio
begin

text \<open>
  The host decoder (\<open>src/client/c/ima_decoder.c\<close>, \<open>src/client/c/rbp_decoder.c\<close>): the IMA ADPCM
  decoder and the codec-independent front end. The ICO codec of the optional build rests on
  third-party transform code and is a parameter. The lemmas show that the decoder state stays in
  range, so the step table is never read outside, which calls fail and that those change nothing, and
  that splitting a stream into calls, with failing calls in between, changes no sample.
\<close>

section \<open>IMA ADPCM\<close>

definition k_step_table :: "int list" where
  "k_step_table =
     [7, 8, 9, 10, 11, 12, 13, 14, 16, 17, 19, 21, 23, 25, 28, 31, 34, 37, 41, 45, 50, 55, 60, 66,
      73, 80, 88, 97, 107, 118, 130, 143, 157, 173, 190, 209, 230, 253, 279, 307, 337, 371, 408,
      449, 494, 544, 598, 658, 724, 796, 876, 963, 1060, 1166, 1282, 1411, 1552, 1707, 1878, 2066,
      2272, 2499, 2749, 3024, 3327, 3660, 4026, 4428, 4871, 5358, 5894, 6484, 7132, 7845, 8630,
      9493, 10442, 11487, 12635, 13899, 15289, 16818, 18500, 20350, 22385, 24623, 27086, 29794,
      32767]"

definition k_index_table :: "int list" where
  "k_index_table = [-1, -1, -1, -1, 2, 4, 6, 8, -1, -1, -1, -1, 2, 4, 6, 8]"

record ima_state =
  predictor :: int
  step_index :: nat

definition ima_state_reset :: "int \<Rightarrow> nat \<Rightarrow> ima_state" where
  "ima_state_reset pred idx = \<lparr>predictor = pred, step_index = (if 88 < idx then 88 else idx)\<rparr>"

definition clamp :: "int \<Rightarrow> int \<Rightarrow> int \<Rightarrow> int" where
  "clamp lo hi x = (let x = (if hi < x then hi else x) in if x < lo then lo else x)"

definition ima_decode_nibble :: "ima_state \<Rightarrow> u8 \<Rightarrow> ima_state \<times> int" where
  "ima_decode_nibble st nibble =
     (let step = k_step_table ! step_index st;
          diff = step div 8 + (if bit nibble 2 then step else 0)
                 + (if bit nibble 1 then step div 2 else 0) + (if bit nibble 0 then step div 4 else 0);
          pred = clamp (-32768) 32767 (predictor st + (if bit nibble 3 then - diff else diff));
          idx = int (step_index st) + k_index_table ! unat (nibble AND 7)
      in (\<lparr>predictor = pred, step_index = nat (clamp 0 88 idx)\<rparr>, pred))"

text \<open>
  The loop of \<open>ima_decode\<close>: two samples a byte, high nibble first, until the output is full.
\<close>

fun ima_loop :: "ima_state \<Rightarrow> u8 list \<Rightarrow> nat \<Rightarrow> int list \<Rightarrow> ima_state \<times> int list" where
  "ima_loop st [] out_max out = (st, out)"
| "ima_loop st (b # bs) out_max out =
     (if out_max < length out + 2 then (st, out)
      else let (st1, s1) = ima_decode_nibble st (drop_bit 4 b);
               (st2, s2) = ima_decode_nibble st1 (b AND 0x0F)
           in ima_loop st2 bs out_max (out @ [s1, s2]))"

definition ima_decode :: "ima_state option \<Rightarrow> u8 list \<Rightarrow> nat \<Rightarrow> ima_state \<times> int list" where
  "ima_decode st_in data out_max =
     ima_loop (case st_in of Some st \<Rightarrow> st | None \<Rightarrow> ima_state_reset 0 0) data out_max []"

section \<open>Decoder front end\<close>

datatype decode_status =
    RBP_DECODE_OK
  | RBP_DECODE_UNSUPPORTED
  | RBP_DECODE_CONFIG
  | RBP_DECODE_CAPACITY
  | RBP_DECODE_INPUT

record 'c rbp_decoder =
  d_size :: u32
  d_abi_version :: u32
  d_max_unit_bytes :: u32
  d_sample_rate :: u32
  d_ima :: ima_state
  d_ready :: bool
  d_codec_id :: u32
  d_codec_state :: 'c

text \<open>
  The build: the size of the structure and of its legacy prefix under the compiler's layout, and, in
  builds with the ICO codec, its reset state (\<open>ico_init_buffer\<close>; \<open>None\<close> when the buffer is too
  small) and its frame decoder (\<open>ico_decode\<close>), which gives its return value, its new state and the
  samples that it has stored from the start of the output.
\<close>

record 'c decoder_build =
  b_full :: u32
  b_legacy :: u32
  b_zero :: 'c
  b_ico :: "('c option \<times> ('c \<Rightarrow> u8 list \<Rightarrow> int \<times> 'c \<times> int list)) option"

definition decoder_zero :: "'c decoder_build \<Rightarrow> u32 \<Rightarrow> 'c rbp_decoder \<Rightarrow> 'c rbp_decoder" where
  "decoder_zero B sz d =
     d\<lparr>d_size := sz, d_abi_version := 1, d_max_unit_bytes := 0, d_sample_rate := 0,
       d_ima := \<lparr>predictor = 0, step_index = 0\<rparr>, d_ready := False,
       d_codec_id := (if sz = b_full B then 0 else d_codec_id d),
       d_codec_state := (if sz = b_full B then b_zero B else d_codec_state d)\<rparr>"

definition ima_init :: "rbp_audio_format \<Rightarrow> 'c rbp_decoder \<Rightarrow> decode_status \<times> 'c rbp_decoder" where
  "ima_init f d =
     (case af_config f of
        None \<Rightarrow> (RBP_DECODE_CONFIG, d)
      | Some cfg \<Rightarrow>
          if af_channels f \<noteq> 1 \<or> (af_sample_rate f \<noteq> 8000 \<and> af_sample_rate f \<noteq> 16000)
             \<or> af_config_len f \<noteq> 4 \<or> 88 < cfg ! 2 \<or> cfg ! 3 \<noteq> 0
             \<or> af_max_unit_bytes f = 0 \<or> RBP_AUDIO_UNIT_MAX < af_max_unit_bytes f
          then (RBP_DECODE_CONFIG, d)
          else let pred = (ucast (cfg ! 0) OR push_bit 8 (ucast (cfg ! 1))) :: u16
               in (RBP_DECODE_OK,
                   d\<lparr>d_ima := ima_state_reset (sint pred) (unat (cfg ! 2)),
                     d_sample_rate := af_sample_rate f, d_max_unit_bytes := af_max_unit_bytes f,
                     d_ready := True\<rparr>))"

definition rbp_decoder_init ::
    "'c decoder_build \<Rightarrow> 'c rbp_decoder \<Rightarrow> u32 \<Rightarrow> rbp_audio_format option
       \<Rightarrow> decode_status \<times> 'c rbp_decoder" where
  "rbp_decoder_init B d sz f =
     (if sz \<noteq> b_full B \<and> sz \<noteq> b_legacy B then (RBP_DECODE_CONFIG, d)
      else
        let d0 = decoder_zero B sz d
        in case f of
             None \<Rightarrow> (RBP_DECODE_UNSUPPORTED, d0)
           | Some f \<Rightarrow>
               (case b_ico B of
                  Some (ico_init, _) \<Rightarrow>
                    if af_codec_id f = RBP_CODEC_IFLYTEK_ICO \<and> af_codec_revision f = 1 then
                      (if sz \<noteq> b_full B then (RBP_DECODE_CONFIG, d0)
                       else if af_channels f \<noteq> 1 \<or> af_sample_rate f \<noteq> 16000 \<or> af_config_len f \<noteq> 0
                               \<or> af_max_unit_bytes f \<noteq> 40 then (RBP_DECODE_CONFIG, d0)
                       else case ico_init of
                              None \<Rightarrow> (RBP_DECODE_CONFIG, d0)
                            | Some c \<Rightarrow>
                                (RBP_DECODE_OK,
                                 d0\<lparr>d_codec_state := c, d_codec_id := RBP_CODEC_IFLYTEK_ICO,
                                    d_max_unit_bytes := 40, d_sample_rate := 16000, d_ready := True\<rparr>))
                    else if af_codec_id f \<noteq> RBP_CODEC_IMA_HI \<or> af_codec_revision f \<noteq> 1
                    then (RBP_DECODE_UNSUPPORTED, d0) else ima_init f d0
                | None \<Rightarrow>
                    if af_codec_id f \<noteq> RBP_CODEC_IMA_HI \<or> af_codec_revision f \<noteq> 1
                    then (RBP_DECODE_UNSUPPORTED, d0) else ima_init f d0))"

text \<open>
  One complete coding unit. The four pointers may be null; \<open>encoded\<close> and \<open>pcm\<close> are the caller's buffers, of
  which the first \<open>bytes\<close> are read and the first \<open>capacity\<close> may be written. The result is the status, the
  decoder, the buffer and \<open>*written\<close> after the call.
\<close>

definition rbp_decoder_decode ::
    "'c decoder_build \<Rightarrow> 'c rbp_decoder option \<Rightarrow> u8 list option \<Rightarrow> u32 \<Rightarrow> int list option \<Rightarrow> u32 \<Rightarrow> u32 option
       \<Rightarrow> decode_status \<times> 'c rbp_decoder option \<times> int list option \<times> u32 option" where
  "rbp_decoder_decode B d encoded bytes pcm capacity written =
     (let written = map_option (\<lambda>_. 0) written
      in case (d, written, encoded, pcm) of
           (Some dec, Some _, Some enc, Some out) \<Rightarrow>
             if (d_size dec \<noteq> b_full B \<and> d_size dec \<noteq> b_legacy B) \<or> d_abi_version dec \<noteq> 1 \<or> \<not> d_ready dec
                \<or> bytes = 0 \<or> d_max_unit_bytes dec < bytes
             then (RBP_DECODE_INPUT, d, pcm, written)
             else
               let ima = (if capacity < bytes * 2 then (RBP_DECODE_CAPACITY, d, pcm, written)
                          else let (st, samples) = ima_decode (Some (d_ima dec)) (take (unat bytes) enc) (unat capacity)
                               in (RBP_DECODE_OK, Some (dec\<lparr>d_ima := st\<rparr>), Some (memcpy_at out 0 samples),
                                   Some (word_of_nat (length samples))))
               in (case b_ico B of
                     Some (_, ico_decode) \<Rightarrow>
                       if d_size dec = b_full B \<and> d_codec_id dec = RBP_CODEC_IFLYTEK_ICO then
                         (if bytes \<noteq> 40 then (RBP_DECODE_INPUT, d, pcm, written)
                          else if capacity < 320 then (RBP_DECODE_CAPACITY, d, pcm, written)
                          else let (n, c, samples) = ico_decode (d_codec_state dec) (take 40 enc);
                                   d' = Some (dec\<lparr>d_codec_state := c\<rparr>);
                                   pcm' = Some (memcpy_at out 0 samples)
                               in if n \<noteq> 320 then (RBP_DECODE_INPUT, d', pcm', written)
                                  else (RBP_DECODE_OK, d', pcm', Some 320))
                       else ima
                   | None \<Rightarrow> ima)
         | _ \<Rightarrow> (RBP_DECODE_INPUT, d, pcm, written))"

section \<open>Lemmas\<close>

definition ima_ok :: "ima_state \<Rightarrow> bool" where
  "ima_ok st \<longleftrightarrow> -32768 \<le> predictor st \<and> predictor st \<le> 32767 \<and> step_index st \<le> 88"

lemma clamp_bounds: "lo \<le> hi \<Longrightarrow> lo \<le> clamp lo hi x \<and> clamp lo hi x \<le> hi"
  by (simp add: clamp_def Let_def)

lemma nibble_ok: "ima_ok (fst (ima_decode_nibble st n))"
  using clamp_bounds [of "-32768" 32767] clamp_bounds [of 0 88] 
  by (simp add: ima_ok_def ima_decode_nibble_def Let_def nat_le_iff)

lemma nibble_sample:
  "snd (ima_decode_nibble st n) = predictor (fst (ima_decode_nibble st n))"
  by (simp add: ima_decode_nibble_def Let_def)

text \<open>The samples of a byte string, without a bound on the output.\<close>

fun ima_ref :: "ima_state \<Rightarrow> u8 list \<Rightarrow> ima_state \<times> int list" where
  "ima_ref st [] = (st, [])"
| "ima_ref st (b # bs) =
     (let st1 = fst (ima_decode_nibble st (drop_bit 4 b));
          st2 = fst (ima_decode_nibble st1 (b AND 0x0F));
          (st', out) = ima_ref st2 bs
      in (st', predictor st1 # predictor st2 # out))"

lemma ima_ref_append:
  "ima_ref st (xs @ ys) =
     (let (st1, out1) = ima_ref st xs; (st2, out2) = ima_ref st1 ys in (st2, out1 @ out2))"
  by (induction st xs rule: ima_ref.induct) (simp_all add: Let_def split: prod.splits)

lemma ima_ref_ok:
  "ima_ok st \<Longrightarrow> ima_ok (fst (ima_ref st bs)) \<and> length (snd (ima_ref st bs)) = 2 * length bs
     \<and> (\<forall>x \<in> set (snd (ima_ref st bs)). -32768 \<le> x \<and> x \<le> 32767)"
proof (induction st bs rule: ima_ref.induct)
  case (2 st b bs)
  let ?st1 = "fst (ima_decode_nibble st (drop_bit 4 b))"
  let ?st2 = "fst (ima_decode_nibble ?st1 (b AND 0x0F))"
  have "ima_ok ?st1" "ima_ok ?st2"
    by (simp_all add: nibble_ok)
  moreover obtain st' out where r: "ima_ref ?st2 bs = (st', out)"
    by (cases "ima_ref ?st2 bs")
  then have "ima_ref st (b # bs) = (st', predictor ?st1 # predictor ?st2 # out)"
    by (simp add: Let_def)
  ultimately show ?case
    using "2.IH" [OF refl refl \<open>ima_ok ?st2\<close>] r by (simp add: ima_ok_def)
qed simp

lemma ima_loop_ref:
  "length out + 2 * length bs \<le> out_max \<Longrightarrow>
   ima_loop st bs out_max out = (fst (ima_ref st bs), out @ snd (ima_ref st bs))"
proof (induction bs arbitrary: st out)
  case (Cons b bs)
  obtain st1 s1 where n1: "ima_decode_nibble st (drop_bit 4 b) = (st1, s1)"
    by (cases "ima_decode_nibble st (drop_bit 4 b)")
  obtain st2 s2 where n2: "ima_decode_nibble st1 (b AND 0x0F) = (st2, s2)"
    by (cases "ima_decode_nibble st1 (b AND 0x0F)")
  have "s1 = predictor st1" "s2 = predictor st2"
    using nibble_sample [of st "drop_bit 4 b"] nibble_sample [of st1 "b AND 0x0F"] n1 n2 by simp_all
  then show ?case
    using Cons.IH [of "out @ [s1, s2]" st2] Cons.prems n1 n2 by (simp split: prod.splits)
qed simp

text \<open>The invariant of an initialised decoder.\<close>

definition decoder_ok :: "'c decoder_build \<Rightarrow> 'c rbp_decoder \<Rightarrow> bool" where
  "decoder_ok B d \<longleftrightarrow> ima_ok (d_ima d) \<and> d_max_unit_bytes d \<le> RBP_AUDIO_UNIT_MAX"

lemma sint_u16: "- 32768 \<le> sint (w :: u16) \<and> sint w \<le> 32767"
  using sint_greater_eq [of w] sint_less [of w] by simp

lemma ima_init_ok: "decoder_ok B d \<Longrightarrow> decoder_ok B (snd (ima_init f d))"
  by (auto simp: ima_init_def decoder_ok_def ima_ok_def ima_state_reset_def sint_u16 Let_def
      split: option.splits)

lemma decoder_init_ok:
  assumes "rbp_decoder_init B d sz f = (RBP_DECODE_OK, d')"
  shows "decoder_ok B d'"
proof -
  have z: "decoder_ok B (decoder_zero B sz d)"
    by (simp add: decoder_ok_def decoder_zero_def ima_ok_def)
  show ?thesis
    using assms z ima_init_ok [OF z] 
    by (auto simp: rbp_decoder_init_def Let_def decoder_ok_def split: if_splits option.splits prod.splits)
      (metis snd_conv)+
qed

lemma twice_bytes:
  assumes "bytes \<le> (m :: u32)" and "m \<le> RBP_AUDIO_UNIT_MAX"
  shows "(capacity :: u32) < bytes * 2 \<longleftrightarrow> unat capacity < 2 * unat bytes"
proof -
  have "unat bytes \<le> 65536" using assms by (simp add: word_le_nat_alt)
  then have "unat (bytes * 2) = 2 * unat bytes" by (simp add: unat_word_ariths)
  then show ?thesis by (simp add: word_less_nat_alt)
qed

lemma ima_decode_full:
  "2 * length bs \<le> out_max \<Longrightarrow> ima_decode (Some st) bs out_max = ima_ref st bs"
  by (simp add: ima_decode_def ima_loop_ref)

text \<open>The arguments of a call other than the decoder, which is passed or null, and what the caller owes: buffers as
  large as the sizes say.\<close>

record decode_call =
  dc_decoder :: bool
  dc_encoded :: "u8 list option"
  dc_bytes :: u32
  dc_pcm :: "int list option"
  dc_capacity :: u32
  dc_written :: "u32 option"

definition call_buffers :: "decode_call \<Rightarrow> bool" where
  "call_buffers c \<longleftrightarrow> (\<forall>e. dc_encoded c = Some e \<longrightarrow> unat (dc_bytes c) \<le> length e)
     \<and> (\<forall>p. dc_pcm c = Some p \<longrightarrow> unat (dc_capacity c) \<le> length p)"

text \<open>The verdict on a call, for units of at most \<open>m\<close> bytes, and the bytes it feeds to the decoder.\<close>

definition call_status :: "nat \<Rightarrow> decode_call \<Rightarrow> decode_status" where
  "call_status m c =
     (if \<not> dc_decoder c \<or> dc_encoded c = None \<or> dc_pcm c = None \<or> dc_written c = None
         \<or> unat (dc_bytes c) \<notin> {1..m} then RBP_DECODE_INPUT
      else if unat (dc_capacity c) < 2 * unat (dc_bytes c) then RBP_DECODE_CAPACITY else RBP_DECODE_OK)"

definition call_unit :: "nat \<Rightarrow> decode_call \<Rightarrow> u8 list" where
  "call_unit m c = (if call_status m c = RBP_DECODE_OK then take (unat (dc_bytes c)) (the (dc_encoded c)) else [])"

text \<open>A run of calls on one decoder: the decoder at the end, and status, buffer and \<open>*written\<close> after each call.\<close>

type_synonym outcome = "decode_status \<times> int list option \<times> u32 option"

fun decode_calls :: "'c decoder_build \<Rightarrow> 'c rbp_decoder \<Rightarrow> decode_call list \<Rightarrow> 'c rbp_decoder \<times> outcome list" where
  "decode_calls B d [] = (d, [])"
| "decode_calls B d (c # cs) =
     (case rbp_decoder_decode B (if dc_decoder c then Some d else None) (dc_encoded c) (dc_bytes c) (dc_pcm c)
             (dc_capacity c) (dc_written c) of
        (status, d', pcm, written) \<Rightarrow>
          map_prod id ((#) (status, pcm, written)) (decode_calls B (case d' of Some x \<Rightarrow> x | None \<Rightarrow> d) cs))"

text \<open>The samples a call delivers, and what it leaves alone.\<close>

definition delivered :: "outcome \<Rightarrow> int list" where
  "delivered = (\<lambda>(status, pcm, written). case (pcm, written) of (Some p, Some n) \<Rightarrow> take (unat n) p | _ \<Rightarrow> [])"

definition outcome_ok :: "nat \<Rightarrow> decode_call \<Rightarrow> outcome \<Rightarrow> bool" where
  "outcome_ok m c = (\<lambda>(status, pcm, written). status = call_status m c \<and>
     (let n = 2 * length (call_unit m c) in written = map_option (\<lambda>_. word_of_nat n) (dc_written c)
        \<and> map_option (drop n) pcm = map_option (drop n) (dc_pcm c)))"

text \<open>A decoder opened for IMA.\<close>

definition ima_opened :: "'c decoder_build \<Rightarrow> nat \<Rightarrow> 'c rbp_decoder \<Rightarrow> bool" where
  "ima_opened B m d \<longleftrightarrow> decoder_ok B d \<and> (d_size d = b_full B \<or> d_size d = b_legacy B) \<and> d_abi_version d = 1 \<and> d_ready d
     \<and> unat (d_max_unit_bytes d) = m \<and> (d_size d = b_full B \<longrightarrow> d_codec_id d \<noteq> RBP_CODEC_IFLYTEK_ICO)"

lemma ima_opened_init:
  assumes "rbp_decoder_init B d0 sz (Some f) = (RBP_DECODE_OK, d)" and "af_codec_id f = RBP_CODEC_IMA_HI"
  shows "ima_opened B (unat (af_max_unit_bytes f)) d"
    and "af_config f = Some [lo, hi, idx, z] \<Longrightarrow>
      d_ima d = \<lparr>predictor = sint (ucast lo OR push_bit 8 (ucast hi) :: u16), step_index = unat idx\<rparr>"
  using assms decoder_init_ok [OF assms(1)]
  by (auto simp: rbp_decoder_init_def ima_init_def decoder_zero_def ima_opened_def ima_state_reset_def Let_def
      word_le_nat_alt word_less_nat_alt split: if_splits option.splits)

lemma decode_null:
  "d = None \<or> encoded = None \<or> pcm = None \<or> written = None \<Longrightarrow>
     rbp_decoder_decode B d encoded bytes pcm capacity written = (RBP_DECODE_INPUT, d, pcm, map_option (\<lambda>_. 0) written)"
  unfolding rbp_decoder_decode_def by (cases d; cases encoded; cases pcm; cases written) simp_all

text \<open>One call on an opened decoder, failing or not.\<close>

lemma decode_opened:
  assumes "ima_opened B m d"
  shows "rbp_decoder_decode B (if dc_decoder c then Some d else None) (dc_encoded c) (dc_bytes c) (dc_pcm c)
      (dc_capacity c) (dc_written c) =
    (let samples = snd (ima_ref (d_ima d) (call_unit m c)) in
     (call_status m c, if dc_decoder c then Some (d\<lparr>d_ima := fst (ima_ref (d_ima d) (call_unit m c))\<rparr>) else None,
      map_option (\<lambda>out. memcpy_at out 0 samples) (dc_pcm c), map_option (\<lambda>_. word_of_nat (length samples)) (dc_written c)))"
proof -
  note d = assms [unfolded ima_opened_def decoder_ok_def]
  have cap: "dc_capacity c < dc_bytes c * 2 \<longleftrightarrow> unat (dc_capacity c) < 2 * unat (dc_bytes c)" if "dc_bytes c \<le> d_max_unit_bytes d"
    using twice_bytes [OF that] d by blast
  have size: "unat (dc_bytes c) \<in> {1..m} \<longleftrightarrow> dc_bytes c \<noteq> 0 \<and> dc_bytes c \<le> d_max_unit_bytes d"
    using d by (auto simp: word_le_nat_alt Suc_le_eq unat_gt_0)
  show ?thesis
  proof (cases "call_status m c = RBP_DECODE_OK")
    case True
    then obtain e out w where *: "dc_decoder c" "dc_encoded c = Some e" "dc_pcm c = Some out" "dc_written c = Some w"
        "unat (dc_bytes c) \<in> {1..m}" "2 * unat (dc_bytes c) \<le> unat (dc_capacity c)"
      by (auto simp: call_status_def split: if_splits)
    then have "ima_decode (Some (d_ima d)) (take (unat (dc_bytes c)) e) (unat (dc_capacity c)) = ima_ref (d_ima d) (call_unit m c)"
      using True by (simp add: call_unit_def ima_decode_full)
    then show ?thesis
      using True * d cap size
      by (auto simp: rbp_decoder_decode_def Let_def word_less_nat_alt not_less split: option.splits prod.splits)
  next
    case False
    then have unit: "call_unit m c = []" by (simp add: call_unit_def)
    show ?thesis
    proof (cases "dc_decoder c \<and> dc_encoded c \<noteq> None \<and> dc_pcm c \<noteq> None \<and> dc_written c \<noteq> None")
      case True
      then obtain e out w where *: "dc_decoder c" "dc_encoded c = Some e" "dc_pcm c = Some out" "dc_written c = Some w" by auto
      then show ?thesis
        using False d cap size
        by (simp add: rbp_decoder_decode_def call_status_def unit Let_def memcpy_at_def split: option.split) auto
    next
      case False
      then show ?thesis
        by (subst decode_null) (auto simp: call_status_def unit memcpy_at_def option.map_ident)
    qed
  qed
qed

lemma outcome_opened:
  assumes "ima_opened B m d" and "call_buffers c"
  defines "samples \<equiv> snd (ima_ref (d_ima d) (call_unit m c))"
  defines "out \<equiv> (call_status m c, map_option (\<lambda>out. memcpy_at out 0 samples) (dc_pcm c), map_option (\<lambda>_. word_of_nat (length samples)) (dc_written c))"
  shows "outcome_ok m c out \<and> delivered out = samples"
proof -
  have len: "length samples = 2 * length (call_unit m c)"
    using assms(1) ima_ref_ok by (simp add: samples_def ima_opened_def decoder_ok_def)
  show ?thesis
  proof (cases "call_status m c = RBP_DECODE_OK")
    case True
    then obtain e p w where *: "dc_encoded c = Some e" "dc_pcm c = Some p" "dc_written c = Some w"
        "2 * unat (dc_bytes c) \<le> unat (dc_capacity c)"
      by (auto simp: call_status_def split: if_splits)
    then have "length (call_unit m c) = unat (dc_bytes c)" "2 * unat (dc_bytes c) \<le> length p"
      using True assms(2) by (auto simp: call_unit_def call_buffers_def)
    moreover have "unat (word_of_nat (2 * unat (dc_bytes c)) :: u32) = 2 * unat (dc_bytes c)"
      using *(4) by (rule le_unat_uoi)
    ultimately show ?thesis
      using * len by (simp add: out_def outcome_ok_def delivered_def memcpy_at_def)
  next
    case False
    then have "call_unit m c = []" by (simp add: call_unit_def)
    then show ?thesis
      by (auto simp: out_def samples_def outcome_ok_def delivered_def memcpy_at_def split: option.split)
  qed
qed

lemma ima_opened_step: "ima_opened B m d \<Longrightarrow> ima_opened B m (d\<lparr>d_ima := fst (ima_ref (d_ima d) bs)\<rparr>)"
  using ima_ref_ok [of "d_ima d" bs] by (simp add: ima_opened_def decoder_ok_def)

lemma call_unit_null: "\<not> dc_decoder c \<Longrightarrow> call_unit m c = []"
  by (simp add: call_unit_def call_status_def)

lemma decode_calls_opened:
  assumes "ima_opened B m d" and "\<forall>c \<in> set cs. call_buffers c"
  shows "case decode_calls B d cs of (d', outs) \<Rightarrow>
    list_all2 (outcome_ok m) cs outs
    \<and> concat (map delivered outs) = snd (ima_ref (d_ima d) (concat (map (call_unit m) cs)))
    \<and> d' = d\<lparr>d_ima := fst (ima_ref (d_ima d) (concat (map (call_unit m) cs)))\<rparr>"
  using assms
proof (induction cs arbitrary: d)
  case (Cons c cs)
  let ?d = "d\<lparr>d_ima := fst (ima_ref (d_ima d) (call_unit m c))\<rparr>"
  have "(case (if dc_decoder c then Some ?d else None) of Some x \<Rightarrow> x | None \<Rightarrow> d) = ?d"
    by (simp add: call_unit_null)
  then show ?case
    using Cons.IH [OF ima_opened_step [OF Cons.prems(1), of "call_unit m c"]] Cons.prems(2)
      outcome_opened [OF Cons.prems(1), of c]
    by (auto simp: decode_opened [OF Cons.prems(1)] ima_ref_append Let_def split: prod.splits)
qed simp

section \<open>Properties\<close>

text \<open>The IMA decoder keeps its state in range. From any state with a 16-bit predictor and a step index of at
  most 88 (so that the step table is read inside), decoding any bytes into a large enough buffer
  gives two samples a byte, all within 16 bits, and a state in range again.\<close>

theorem ima_decode_in_range:
  assumes "-32768 \<le> predictor st" and "predictor st \<le> 32767" and "step_index st \<le> 88"
    and "2 * length bs \<le> out_max"
  shows "case ima_decode (Some st) bs out_max of (st', pcm) \<Rightarrow>
    length pcm = 2 * length bs \<and> (\<forall>x \<in> set pcm. -32768 \<le> x \<and> x \<le> 32767)
    \<and> -32768 \<le> predictor st' \<and> predictor st' \<le> 32767 \<and> step_index st' < length k_step_table"
  using ima_ref_ok [of st bs] assms
  by (auto simp: ima_decode_full ima_ok_def k_step_table_def split: prod.splits)

theorem ima_decode_in_range_witness:
  "length (snd (ima_decode (Some \<lparr>predictor = -32768, step_index = 88\<rparr>) [0xF7, 0x08] 4)) = 4"
  using ima_decode_in_range [of "\<lparr>predictor = -32768, step_index = 88\<rparr>" "[0xF7, 0x08]" 4]
  by (simp split: prod.splits)

text \<open>C40: the host's decoder decodes a stream exactly, whatever calls are made. After the decoder has been opened for a format with
  the IMA codec (in any build, with the whole or the legacy structure), let any calls follow, whose buffers are as large as their sizes say: each
  is refused with INPUT when a pointer is null or the unit is empty or longer than the format allows, otherwise
  with CAPACITY when there is no room for two samples a byte, and is accepted otherwise. \<open>*written\<close> is twice the bytes of an accepted unit and
  0 after a refusal, and the buffer beyond the samples written is untouched. The samples
  delivered are, joined, those of decoding the bytes of all the accepted units at once from the predictor and
  step index of the format's configuration, so neither the division into units nor the refused calls change a sample; all are within 16 bits.\<close>

theorem decoder_stream_exact:
  assumes "rbp_decoder_init B d0 sz (Some f) = (RBP_DECODE_OK, d)"
    and "af_codec_id f = RBP_CODEC_IMA_HI" and "af_config f = Some [lo, hi, idx, z]"
    and "\<forall>c \<in> set cs. call_buffers c" and "m = unat (af_max_unit_bytes f)"
    and "stream = concat (map (call_unit m) cs)" and "snd (decode_calls B d cs) = outs"
  shows "list_all2 (outcome_ok m) cs outs
    \<and> concat (map delivered outs) = snd (ima_decode (Some \<lparr>predictor = sint (ucast lo OR push_bit 8 (ucast hi) :: u16),
        step_index = unat idx\<rparr>) stream (2 * length stream))
    \<and> (\<forall>x \<in> set (concat (map delivered outs)). - (2 ^ 15) \<le> x \<and> x < 2 ^ 15)"
proof -
  note o = ima_opened_init(1) [OF assms(1,2)] and i = ima_opened_init(2) [OF assms(1-3)]
  have "ima_ok (d_ima d)" using o by (simp add: ima_opened_def decoder_ok_def)
  note r = ima_ref_ok [OF this, of stream]
  obtain d' where "decode_calls B d cs = (d', outs)" using assms(7) by (metis prod.collapse)
  then have c: "list_all2 (outcome_ok m) cs outs" "concat (map delivered outs) = snd (ima_ref (d_ima d) stream)"
    using decode_calls_opened [OF o assms(4)] assms(5,6) by simp_all
  have "\<forall>x \<in> set (concat (map delivered outs)). - (2 ^ 15) \<le> x \<and> x < 2 ^ 15"
    unfolding c(2) using r by fastforce
  with c show ?thesis by (simp add: ima_decode_full i)
qed

definition sample_build :: "unit decoder_build" where
  "sample_build = \<lparr>b_full = 1056, b_legacy = 24, b_zero = (), b_ico = None\<rparr>"

definition sample_format :: rbp_audio_format where
  "sample_format = \<lparr>af_codec_id = 1, af_sample_rate = 16000, af_max_unit_bytes = 128,
     af_codec_revision = 1, af_config_len = 4, af_channels = 1, af_config = Some [0x10, 0, 5, 0]\<rparr>"

definition sample_decoder :: "unit rbp_decoder" where
  "sample_decoder = \<lparr>d_size = 0, d_abi_version = 0, d_max_unit_bytes = 0, d_sample_rate = 0,
     d_ima = \<lparr>predictor = 0, step_index = 0\<rparr>, d_ready = False, d_codec_id = 0, d_codec_state = ()\<rparr>"


definition sample_call :: "u8 list \<Rightarrow> u32 \<Rightarrow> decode_call" where
  "sample_call u cap = \<lparr>dc_decoder = True, dc_encoded = Some u, dc_bytes = word_of_nat (length u), dc_pcm = Some (replicate 8 99),
     dc_capacity = cap, dc_written = Some 7\<rparr>"

theorem decoder_stream_exact_witness:
  "map fst (snd (decode_calls sample_build (snd (rbp_decoder_init sample_build sample_decoder 1056 (Some sample_format)))
       [sample_call [0x13, 0x24] 8, sample_call [1, 2] 3, sample_call [] 8, sample_call [0x5F] 2]))
     = [RBP_DECODE_OK, RBP_DECODE_CAPACITY, RBP_DECODE_INPUT, RBP_DECODE_OK]
   \<and> concat (map delivered (snd (decode_calls sample_build (snd (rbp_decoder_init sample_build sample_decoder 1056 (Some sample_format)))
       [sample_call [0x13, 0x24] 8, sample_call [1, 2] 3, sample_call [] 8, sample_call [0x5F] 2])))
     = snd (ima_decode (Some \<lparr>predictor = 16, step_index = 5\<rparr>) [0x13, 0x24, 0x5F] 6)"
  (is "map fst (snd (decode_calls _ ?d ?cs)) = _ \<and> _")
proof -
  have i: "rbp_decoder_init sample_build sample_decoder 1056 (Some sample_format) = (RBP_DECODE_OK, ?d)"
    by (simp add: rbp_decoder_init_def sample_build_def sample_format_def ima_init_def Let_def)
  have f: "af_codec_id sample_format = RBP_CODEC_IMA_HI" "af_config sample_format = Some [0x10, 0, 5, 0]"
    "af_max_unit_bytes sample_format = 128"
    by (simp_all add: sample_format_def)
  have "\<forall>c \<in> set ?cs. call_buffers c" by (simp add: call_buffers_def sample_call_def)
  from decoder_stream_exact [OF i f(1,2) this refl refl refl] show ?thesis
    by (auto simp: f(3) sample_call_def call_unit_def call_status_def outcome_ok_def list_all2_Cons1 sint_uint)
qed

end
