(* ===== verification/Rbp_Input.thy ===== *)
theory Rbp_Input
  imports Prelude
begin

text \<open>
  The host's logical key reducer (\<open>src/client/c/rbp_input.c\<close>): it turns key bitmaps of the wire into
  press and release events of logical keys. A callback call is an element of the list of events an operation
  returns. The lemmas show that the events follow the bitmap: the keys a listener sees pressed are
  held in the bitmap, and a reset releases all of them.
\<close>

record rbp_input_source =
  is_receiver_id :: u64
  is_session_id :: u32
  is_peer_id :: u32
  is_connection_id :: u32
  is_catalog_revision :: u32
  is_model_id :: "u8 list"

datatype input_kind = RBP_INPUT_DOWN | RBP_INPUT_UP | RBP_INPUT_SNAPSHOT | RBP_INPUT_RESET

record rbp_input_event =
  ie_source :: rbp_input_source
  ie_captured_us :: u64
  ie_input_seq :: u32
  ie_key_id :: u16
  ie_kind :: input_kind
  ie_reason :: u8
  ie_synthetic :: bool

record rbp_input =
  in_source :: rbp_input_source
  in_key_ids :: "u16 list"
  in_bits :: u64
  in_sequence :: u32
  in_count :: nat
  in_ready :: bool
  in_have_sequence :: bool

definition source_zero :: rbp_input_source where
  "source_zero = \<lparr>is_receiver_id = 0, is_session_id = 0, is_peer_id = 0, is_connection_id = 0,
     is_catalog_revision = 0, is_model_id = replicate 41 0\<rparr>"

definition rbp_input_init :: rbp_input where
  "rbp_input_init = \<lparr>in_source = source_zero, in_key_ids = replicate 64 0, in_bits = 0,
     in_sequence = 0, in_count = 0, in_ready = False, in_have_sequence = False\<rparr>"

definition emit ::
    "rbp_input \<Rightarrow> input_kind \<Rightarrow> u16 \<Rightarrow> bool \<Rightarrow> u64 \<Rightarrow> u32 \<Rightarrow> u8 \<Rightarrow> rbp_input_event" where
  "emit s kind key synthetic time seq reason =
     \<lparr>ie_source = in_source s, ie_captured_us = time, ie_input_seq = seq, ie_key_id = key,
      ie_kind = kind, ie_reason = reason, ie_synthetic = synthetic\<rparr>"

text \<open>The loops that emit one event for each slot whose bit is set.\<close>

definition emit_slots ::
    "rbp_input \<Rightarrow> u64 \<Rightarrow> input_kind \<Rightarrow> bool \<Rightarrow> u64 \<Rightarrow> u32 \<Rightarrow> u8 \<Rightarrow> rbp_input_event list" where
  "emit_slots s set_bits kind synthetic time seq reason =
     map (\<lambda>i. emit s kind (in_key_ids s ! i) synthetic time seq reason)
       (filter (\<lambda>i. set_bits AND push_bit i 1 \<noteq> 0) [0..<in_count s])"

definition rbp_input_reset :: "rbp_input \<Rightarrow> u8 \<Rightarrow> rbp_input \<times> rbp_input_event list" where
  "rbp_input_reset s reason =
     (let s1 = (if in_ready s then s\<lparr>in_bits := 0, in_ready := False\<rparr> else s);
          evs = (if in_ready s
                 then emit_slots s1 (in_bits s) RBP_INPUT_UP True 0 0 reason
                      @ [emit s1 RBP_INPUT_RESET 0 True 0 0 reason]
                 else [])
      in (s1\<lparr>in_count := 0, in_have_sequence := False, in_sequence := 0, in_source := source_zero\<rparr>, evs))"

fun ids_ok :: "u16 list \<Rightarrow> bool" where
  "ids_ok [] = True"
| "ids_ok (x # xs) = (x \<noteq> 0 \<and> x \<notin> set xs \<and> ids_ok xs)"

definition rbp_input_install ::
    "rbp_input \<Rightarrow> rbp_input_source option \<Rightarrow> u16 list option \<Rightarrow> nat
       \<Rightarrow> bool \<times> rbp_input \<times> rbp_input_event list" where
  "rbp_input_install s source ids count =
     (case source of
        None \<Rightarrow> (False, s, [])
      | Some src \<Rightarrow>
          if 0 \<notin> set (is_model_id src) \<or> is_session_id src = 0 \<or> is_peer_id src = 0
             \<or> is_connection_id src = 0 \<or> 64 < count \<or> (count \<noteq> 0 \<and> ids = None)
          then (False, s, [])
          else
            let slots = (case ids of None \<Rightarrow> [] | Some l \<Rightarrow> take count l)
            in if \<not> ids_ok (rev slots) then (False, s, [])
               else let (s1, evs) = rbp_input_reset s 0
                    in (True, s1\<lparr>in_source := src, in_count := count,
                                 in_key_ids := slots @ drop count (in_key_ids s1), in_ready := True\<rparr>, evs))"

definition rbp_input_has_key :: "rbp_input \<Rightarrow> u16 \<Rightarrow> bool" where
  "rbp_input_has_key s key \<longleftrightarrow> in_ready s \<and> (\<exists>i < in_count s. in_key_ids s ! i = key)"

definition rbp_input_feed ::
    "rbp_input \<Rightarrow> u32 \<Rightarrow> u64 \<Rightarrow> u64 \<Rightarrow> u8 \<Rightarrow> u8 \<Rightarrow> bool \<times> rbp_input \<times> rbp_input_event list" where
  "rbp_input_feed s seq time bits kind reason =
     (if \<not> in_ready s \<or> 2 < kind \<or> 3 < reason \<or> (kind = 2 \<and> bits \<noteq> 0)
         \<or> (in_count s < 64 \<and> drop_bit (in_count s) bits \<noteq> 0)
      then (False, s, [])
      else if in_have_sequence s \<and> (seq < in_sequence s \<or> (seq = in_sequence s \<and> kind \<noteq> 2))
      then (True, s, [])
      else
        let previous = in_bits s;
            s1 = s\<lparr>in_bits := bits, in_sequence := seq, in_have_sequence := True\<rparr>
        in if kind = 0 then (True, s1, [emit s1 RBP_INPUT_SNAPSHOT 0 True time seq reason])
           else (True, s1,
                 emit_slots s1 (previous AND NOT bits) RBP_INPUT_UP (kind = 2) time seq reason
                 @ emit_slots s1 (bits AND NOT previous) RBP_INPUT_DOWN False time seq reason
                 @ (if kind = 2 then [emit s1 RBP_INPUT_RESET 0 True time seq reason] else [])))"

section \<open>Lemmas\<close>

definition input_inv :: "rbp_input \<Rightarrow> bool" where
  "input_inv s \<longleftrightarrow> length (in_key_ids s) = 64 \<and> in_count s \<le> 64
     \<and> distinct (take (in_count s) (in_key_ids s)) \<and> 0 \<notin> set (take (in_count s) (in_key_ids s))
     \<and> (\<forall>i. bit (in_bits s) i \<longrightarrow> i < in_count s) \<and> (\<not> in_ready s \<longrightarrow> in_count s = 0)"

text \<open>The keys the bitmap holds, and the keys a listener takes for pressed after a list of events.\<close>

definition held_keys :: "rbp_input \<Rightarrow> u64 \<Rightarrow> u16 set" where
  "held_keys s bits = {in_key_ids s ! i | i. i < in_count s \<and> bit bits i}"

fun listen :: "u16 set \<Rightarrow> rbp_input_event \<Rightarrow> u16 set" where
  "listen P e = (case ie_kind e of
       RBP_INPUT_DOWN \<Rightarrow> insert (ie_key_id e) P
     | RBP_INPUT_UP \<Rightarrow> P - {ie_key_id e}
     | _ \<Rightarrow> P)"

lemma ids_ok_iff: "ids_ok xs \<longleftrightarrow> distinct xs \<and> 0 \<notin> set xs"
  by (induction xs) auto

lemma slot_test: "b AND 2 ^ i \<noteq> 0 \<longleftrightarrow> bit (b :: u64) i"
  by (auto simp: and_exp_eq_0_iff_not_bit)

lemma listen_slots:
  assumes "kind = RBP_INPUT_DOWN \<or> kind = RBP_INPUT_UP"
  shows "foldl listen P (emit_slots s b kind syn t q r) =
    (if kind = RBP_INPUT_DOWN then P \<union> held_keys s b else P - held_keys s b)"
proof -
  have gen: "foldl listen P (map (\<lambda>i. emit s kind (in_key_ids s ! i) syn t q r) is) =
      (if kind = RBP_INPUT_DOWN then P \<union> (!) (in_key_ids s) ` set is else P - (!) (in_key_ids s) ` set is)" for "is" P
    using assms by (induction "is" arbitrary: P) (auto simp: emit_def)
  have "held_keys s b = (!) (in_key_ids s) ` set (filter (\<lambda>i. b AND push_bit i 1 \<noteq> 0) [0..<in_count s])"
    by (auto simp: held_keys_def slot_test)
  then show ?thesis
    unfolding emit_slots_def gen by simp
qed

lemma held_keys_cong:
  "in_key_ids s' = in_key_ids s \<Longrightarrow> in_count s' = in_count s \<Longrightarrow> held_keys s' b = held_keys s b"
  by (simp add: held_keys_def)

lemma bit_minus: "bit (a AND NOT b) i \<longleftrightarrow> bit a i \<and> \<not> bit (b :: u64) i"
  by (auto simp: bit_and_iff bit_not_iff dest: bit_imp_le_length)

lemma held_keys_minus:
  "held_keys s (a AND NOT b) = {in_key_ids s ! i | i. i < in_count s \<and> bit a i \<and> \<not> bit b i}"
  unfolding held_keys_def bit_minus by (rule refl)

text \<open>What the host does with the reducer.\<close>

datatype input_op =
    Op_install "rbp_input_source option" "u16 list option" nat
  | Op_feed u32 u64 u64 u8 u8
  | Op_reset u8

fun input_step :: "rbp_input \<Rightarrow> input_op \<Rightarrow> rbp_input \<times> rbp_input_event list" where
  "input_step s (Op_install src ids n) = snd (rbp_input_install s src ids n)"
| "input_step s (Op_feed seq time bits kind reason) = snd (rbp_input_feed s seq time bits kind reason)"
| "input_step s (Op_reset reason) = rbp_input_reset s reason"

text \<open>A caller passes as many ids as it says, and a snapshot does not silently drop a key that a listener
  has seen pressed.\<close>

fun op_ok :: "rbp_input \<Rightarrow> u16 set \<Rightarrow> input_op \<Rightarrow> bool" where
  "op_ok s P (Op_install src ids n) \<longleftrightarrow> (\<forall>l. ids = Some l \<longrightarrow> n \<le> length l)"
| "op_ok s P (Op_feed seq time bits kind reason) \<longleftrightarrow> (kind = 0 \<longrightarrow> P \<subseteq> held_keys s bits)"
| "op_ok s P (Op_reset reason) \<longleftrightarrow> True"

lemma reset_tracks:
  assumes "input_inv s" and "P \<subseteq> held_keys s (in_bits s)"
  shows "foldl listen P (snd (rbp_input_reset s reason)) = {}"
    and "input_inv (fst (rbp_input_reset s reason))"
    and "in_bits (fst (rbp_input_reset s reason)) = 0"
proof -
  have z: "in_bits s = 0" if "\<not> in_ready s"
    using assms(1) that by (intro bit_eqI) (auto simp: input_inv_def)
  show "foldl listen P (snd (rbp_input_reset s reason)) = {}"
  proof (cases "in_ready s")
    case True
    have "held_keys (s\<lparr>in_bits := 0, in_ready := False\<rparr>) (in_bits s) = held_keys s (in_bits s)"
      by (rule held_keys_cong) simp_all
    then show ?thesis
      using True assms(2) by (auto simp: rbp_input_reset_def Let_def listen_slots) (auto simp: emit_def)
  next
    case False
    then show ?thesis
      using assms(2) z by (auto simp: rbp_input_reset_def held_keys_def)
  qed
  show "in_bits (fst (rbp_input_reset s reason)) = 0"
    using z by (auto simp: rbp_input_reset_def Let_def)
  then show "input_inv (fst (rbp_input_reset s reason))"
    using assms(1) by (auto simp: input_inv_def rbp_input_reset_def Let_def)
qed

lemma feed_tracks:
  assumes "input_inv s" and "P \<subseteq> held_keys s (in_bits s)" and "kind = 0 \<Longrightarrow> P \<subseteq> held_keys s bits"
    and "rbp_input_feed s seq time bits kind reason = (ok, s', evs)"
  shows "input_inv s'" and "foldl listen P evs \<subseteq> held_keys s' (in_bits s')"
proof -
  have top: "i < in_count s" if "in_count s < 64 \<longrightarrow> drop_bit (in_count s) bits = 0" "bit bits i" for i
  proof (rule ccontr)
    assume "\<not> i < in_count s"
    moreover have "i < 64"
      using that(2) by (rule bit_imp_le_length [where 'a = 64, simplified])
    ultimately have "bit (drop_bit (in_count s) bits) (i - in_count s)"
      using that(2) by (simp add: bit_drop_bit_eq)
    then show False
      using that(1) \<open>\<not> i < in_count s\<close> \<open>i < 64\<close> by simp
  qed
  show "input_inv s'"
    using assms(1,4) top by (auto simp: rbp_input_feed_def input_inv_def Let_def split: if_splits)
  show "foldl listen P evs \<subseteq> held_keys s' (in_bits s')"
  proof (cases "s' = s \<and> evs = []")
    case True
    then show ?thesis using assms(2) by simp
  next
    case False
    then have s': "s' = s\<lparr>in_bits := bits, in_sequence := seq, in_have_sequence := True\<rparr>"
      and evs: "evs = (if kind = 0 then [emit s' RBP_INPUT_SNAPSHOT 0 True time seq reason]
        else emit_slots s' (in_bits s AND NOT bits) RBP_INPUT_UP (kind = 2) time seq reason
          @ emit_slots s' (bits AND NOT (in_bits s)) RBP_INPUT_DOWN False time seq reason
          @ (if kind = 2 then [emit s' RBP_INPUT_RESET 0 True time seq reason] else []))"
      using assms(4) by (auto simp: rbp_input_feed_def Let_def split: if_splits)
    have h: "held_keys s' b = held_keys s b" for b
      by (rule held_keys_cong) (simp_all add: s')
    show ?thesis
    proof (cases "kind = 0")
      case True
      then show ?thesis
        using assms(3) h [of bits] by (simp add: evs emit_def) (simp add: s')
    next
      case kind: False
      have "foldl listen P evs =
          P - held_keys s (in_bits s AND NOT bits) \<union> held_keys s (bits AND NOT (in_bits s))"
        using kind by (simp add: evs listen_slots h) (simp add: emit_def)
      also have "\<dots> \<subseteq> held_keys s bits"
        using assms(2) unfolding held_keys_minus by (auto simp: held_keys_def)
      finally show ?thesis
        by (simp add: h) (simp add: s')
    qed
  qed
qed

lemma step_tracks:
  assumes "input_inv s" and "P \<subseteq> held_keys s (in_bits s)" and "op_ok s P op"
    and "input_step s op = (s', evs)"
  shows "input_inv s' \<and> foldl listen P evs \<subseteq> held_keys s' (in_bits s')"
proof (cases op)
  case (Op_feed seq time bits kind reason)
  then show ?thesis
    using assms feed_tracks [of s P kind bits seq time reason] by (auto simp: prod_eq_iff)
next
  case (Op_reset reason)
  then show ?thesis
    using assms reset_tracks [OF assms(1,2), of reason] by simp
next
  case (Op_install src ids n)
  obtain s1 ev1 where r: "rbp_input_reset s 0 = (s1, ev1)"
    by (cases "rbp_input_reset s 0")
  show ?thesis
  proof (cases "fst (rbp_input_install s src ids n)")
    case True
    define slots where "slots = (case ids of None \<Rightarrow> [] | Some l \<Rightarrow> take n l)"
    have "length slots = n" "distinct slots" "0 \<notin> set slots" "n \<le> 64" "evs = ev1"
      "\<exists>x. s' = s1\<lparr>in_source := x, in_count := n, in_key_ids := slots @ drop n (in_key_ids s1), in_ready := True\<rparr>"
      using True assms(3,4) r
      by (auto simp: Op_install rbp_input_install_def slots_def ids_ok_iff Let_def
          split: option.splits if_splits)
    then show ?thesis
      using reset_tracks [OF assms(1,2), of 0] r by (auto simp: input_inv_def)
  next
    case False
    then have "s' = s" "evs = []"
      using assms(4) by (auto simp: Op_install rbp_input_install_def Let_def split: option.splits if_splits prod.splits)
    then show ?thesis
      using assms by simp
  qed
qed

fun input_run :: "rbp_input \<times> u16 set \<Rightarrow> input_op list \<Rightarrow> rbp_input \<times> u16 set" where
  "input_run (s, P) [] = (s, P)"
| "input_run (s, P) (op # ops) =
     (let (s', evs) = input_step s op in input_run (s', foldl listen P evs) ops)"

fun run_ok :: "rbp_input \<times> u16 set \<Rightarrow> input_op list \<Rightarrow> bool" where
  "run_ok (s, P) [] \<longleftrightarrow> True"
| "run_ok (s, P) (op # ops) \<longleftrightarrow>
     op_ok s P op \<and> (let (s', evs) = input_step s op in run_ok (s', foldl listen P evs) ops)"

lemma run_tracks:
  "input_inv s \<Longrightarrow> P \<subseteq> held_keys s (in_bits s) \<Longrightarrow> run_ok (s, P) ops \<Longrightarrow>
   input_run (s, P) ops = (s', P') \<Longrightarrow> input_inv s' \<and> P' \<subseteq> held_keys s' (in_bits s')"
proof (induction ops arbitrary: s P)
  case (Cons op ops)
  obtain t evs where t: "input_step s op = (t, evs)"
    by (cases "input_step s op")
  have "op_ok s P op"
    using Cons.prems(3) by simp
  from step_tracks [OF Cons.prems(1,2) this t] show ?case
    using Cons.IH [of t "foldl listen P evs"] Cons.prems(3,4) t by simp
qed simp

lemma input_init_inv: "input_inv rbp_input_init" "held_keys rbp_input_init 0 = {}"
  by (simp_all add: input_inv_def rbp_input_init_def held_keys_def)

section \<open>Properties\<close>

text \<open>C39: no stuck keys. Whatever sequence of installs, feeds and resets the host performs (each install with as many
  ids as it announces, each snapshot covering the keys already reported down), a key a listener
  takes for pressed is held in the current bitmap, and a reset leaves no key pressed.\<close>

theorem input_no_stuck_keys:
  assumes "run_ok (rbp_input_init, {}) ops" and "input_run (rbp_input_init, {}) ops = (s, pressed)"
  shows "pressed \<subseteq> held_keys s (in_bits s)
    \<and> foldl listen pressed (snd (rbp_input_reset s reason)) = {}"
proof -
  have "in_bits rbp_input_init = 0"
    by (simp add: rbp_input_init_def)
  then show ?thesis
    using run_tracks [OF input_init_inv(1) _ assms] reset_tracks(1) [of s pressed reason] by simp
qed

definition sample_source :: rbp_input_source where
  "sample_source = \<lparr>is_receiver_id = 1, is_session_id = 2, is_peer_id = 3, is_connection_id = 4,
     is_catalog_revision = 1, is_model_id = replicate 41 0\<rparr>"

abbreviation (input) sample_ops :: "input_op list" where
  "sample_ops \<equiv> [Op_install (Some sample_source) (Some [1, 9]) 2, Op_feed 1 10 2 1 0]"

definition sample_input :: rbp_input where
  "sample_input = \<lparr>in_source = sample_source, in_key_ids = 1 # 9 # replicate 62 0, in_bits = 0,
     in_sequence = 0, in_count = 2, in_ready = True, in_have_sequence = False\<rparr>"

lemma sample_install:
  "input_step rbp_input_init (Op_install (Some sample_source) (Some [1, 9]) 2) = (sample_input, [])"
  by (simp add: rbp_input_install_def sample_source_def rbp_input_init_def rbp_input_reset_def
      sample_input_def Let_def drop_replicate)

lemma sample_feed:
  "snd (input_step sample_input (Op_feed 1 10 2 1 0)) = [emit sample_input RBP_INPUT_DOWN 9 False 10 1 0]"
proof -
  have two: "[0..<2] = [0, Suc 0]"
    by (simp add: numeral_2_eq_2)
  show ?thesis
    by (simp add: sample_input_def rbp_input_feed_def emit_slots_def emit_def Let_def two)
qed

lemma sample_run:
  "snd (input_run (rbp_input_init, {}) sample_ops) = {9}" "run_ok (rbp_input_init, {}) sample_ops"
  using sample_feed
  by (simp_all add: sample_install split_beta emit_def del: input_step.simps)

theorem input_no_stuck_keys_witness:
  "snd (input_run (rbp_input_init, {}) sample_ops) = {9}
   \<and> foldl listen {9} (snd (rbp_input_reset (fst (input_run (rbp_input_init, {}) sample_ops)) 3)) = {}"
proof -
  obtain s P where r: "input_run (rbp_input_init, {}) sample_ops = (s, P)"
    by (cases "input_run (rbp_input_init, {}) sample_ops")
  then show ?thesis
    using input_no_stuck_keys [OF sample_run(2) r, of 3] sample_run(1) by simp
qed

text \<open>Edges. A fresh key state (newer sequence number, known slots only) is accepted, becomes the bitmap, and its
  events change the listener's pressed keys from the old bitmap to exactly the new one.\<close>

theorem input_feed_edges:
  assumes "input_inv s" and "in_ready s" and "\<not> in_have_sequence s \<or> in_sequence s < seq"
    and "in_count s < 64 \<longrightarrow> drop_bit (in_count s) bits = 0" and "reason \<le> 3"
  shows "\<exists>s' evs. rbp_input_feed s seq time bits 1 reason = (True, s', evs) \<and> in_bits s' = bits
    \<and> foldl listen (held_keys s (in_bits s)) evs = held_keys s' bits"
proof -
  let ?s = "s\<lparr>in_bits := bits, in_sequence := seq, in_have_sequence := True\<rparr>"
  have h: "held_keys ?s b = held_keys s b" for b
    by (rule held_keys_cong) simp_all
  have inj: "i = j" if "in_key_ids s ! i = in_key_ids s ! j" "i < in_count s" "j < in_count s" for i j
  proof -
    have "distinct (take (in_count s) (in_key_ids s))" "in_count s \<le> length (in_key_ids s)"
      using assms(1) by (simp_all add: input_inv_def)
    then show ?thesis
      using that nth_eq_iff_index_eq [of "take (in_count s) (in_key_ids s)" i j] by simp
  qed
  have "held_keys s (in_bits s) - held_keys s (in_bits s AND NOT bits) \<union> held_keys s (bits AND NOT (in_bits s))
      = held_keys s bits" (is "?l = ?r")
  proof
    show "?l \<subseteq> ?r"
      unfolding held_keys_minus by (auto simp: held_keys_def)
    show "?r \<subseteq> ?l"
    proof
      fix x
      assume "x \<in> ?r"
      then obtain i where i: "x = in_key_ids s ! i" "i < in_count s" "bit bits i"
        by (auto simp: held_keys_def)
      show "x \<in> ?l"
      proof (cases "bit (in_bits s) i")
        case True
        then have "x \<in> held_keys s (in_bits s)"
          using i by (auto simp: held_keys_def)
        moreover have "x \<notin> held_keys s (in_bits s AND NOT bits)"
          unfolding held_keys_minus using i inj by blast
        ultimately show ?thesis by blast
      next
        case False
        then have "x \<in> held_keys s (bits AND NOT (in_bits s))"
          unfolding held_keys_minus using i by blast
        then show ?thesis by blast
      qed
    qed
  qed
  moreover have "\<not> (in_have_sequence s \<and> (seq < in_sequence s \<or> seq = in_sequence s))"
    using assms(3) by auto
  then have "rbp_input_feed s seq time bits 1 reason = (True, ?s,
      emit_slots ?s (in_bits s AND NOT bits) RBP_INPUT_UP False time seq reason
      @ emit_slots ?s (bits AND NOT (in_bits s)) RBP_INPUT_DOWN False time seq reason)"
    using assms(2,4,5) unfolding rbp_input_feed_def Let_def
    by (subst if_not_P, simp add: not_less) (subst if_not_P, simp_all)
  ultimately show ?thesis
    by (simp add: listen_slots h)
qed

theorem input_feed_edges_witness:
  "\<exists>s' evs. rbp_input_feed sample_input 5 10 3 1 0 = (True, s', evs) \<and> in_bits s' = 3
     \<and> foldl listen (held_keys sample_input (in_bits sample_input)) evs = held_keys s' 3"
  by (rule input_feed_edges) (simp_all add: sample_input_def input_inv_def)

end
