(* ===== verification/Report_Map.thy ===== *)
theory Report_Map
  imports Defs
begin

text \<open>
  The HID report map parser and report decoder (\<open>src/firmware/adapters/hogp/report_map.c\<close>). The
  parser reads a descriptor from the remote, so its tables are filled from untrusted input. The lemmas
  show that a descriptor it accepts yields tables within their bounds, with every field inside its
  report, and that the decoder then never reads a byte outside the report it is given.

  Offsets, sizes and counts are natural numbers: the guards of the parser bound them by 512, 16
  and 64 before they are stored in their 16-bit and 8-bit fields.
\<close>

section \<open>Tables\<close>

abbreviation (input) HOGP_MAX_INPUT_REPORTS :: nat where "HOGP_MAX_INPUT_REPORTS \<equiv> 8"
abbreviation (input) HOGP_MAX_MAP_SIZE :: nat where "HOGP_MAX_MAP_SIZE \<equiv> 512"
abbreviation (input) HOGP_MAX_FIELDS :: nat where "HOGP_MAX_FIELDS \<equiv> 64"

record hogp_input_report =
  r_report_id :: u8
  r_usage_page :: u16
  r_bits :: nat
  r_bytes :: nat

record hogp_field =
  f_offset :: nat
  f_page :: u16
  f_usage_min :: u16
  f_usage_max :: u16
  f_logical_min :: u16
  f_report_id :: u8
  f_size :: nat
  f_count :: nat
  f_variable :: bool

text \<open>The arrays with their counts are lists.\<close>

record hogp_report_map =
  m_fields :: "hogp_field list"
  m_inputs :: "hogp_input_report list"
  uses_report_ids :: bool

section \<open>Parser\<close>

record globals_t =
  g_page :: u32
  g_size :: u32
  g_count :: u32
  g_id :: u32
  g_lmin :: u32
  g_lmax :: u32

text \<open>The locals of the parser: globals and their stack, collection depth, usages and usage range.\<close>

record hid_parse =
  hp_out :: hogp_report_map
  hp_g :: globals_t
  hp_stack :: "globals_t list"
  hp_depth :: nat
  hp_usages :: "u32 list"
  hp_umin :: u32
  hp_umax :: u32
  hp_have_min :: bool
  hp_have_max :: bool

definition hid_init :: hid_parse where
  "hid_init = \<lparr>hp_out = \<lparr>m_fields = [], m_inputs = [], uses_report_ids = False\<rparr>,
     hp_g = \<lparr>g_page = 0, g_size = 0, g_count = 0, g_id = 0, g_lmin = 0, g_lmax = 0\<rparr>,
     hp_stack = [], hp_depth = 0, hp_usages = [], hp_umin = 0, hp_umax = 0,
     hp_have_min = False, hp_have_max = False\<rparr>"

definition hid_global :: "u8 \<Rightarrow> u32 \<Rightarrow> hid_parse \<Rightarrow> hid_parse option" where
  "hid_global tag v s =
     (let g = hp_g s in
      if tag = 0 then (if 65535 < v then None else Some (s\<lparr>hp_g := g\<lparr>g_page := v\<rparr>\<rparr>))
      else if tag = 1 then Some (s\<lparr>hp_g := g\<lparr>g_lmin := v\<rparr>\<rparr>)
      else if tag = 2 then Some (s\<lparr>hp_g := g\<lparr>g_lmax := v\<rparr>\<rparr>)
      else if tag = 7 then Some (s\<lparr>hp_g := g\<lparr>g_size := v\<rparr>\<rparr>)
      else if tag = 8 then
        (if v = 0 \<or> 255 < v then None
         else Some (s\<lparr>hp_g := g\<lparr>g_id := v\<rparr>, hp_out := (hp_out s)\<lparr>uses_report_ids := True\<rparr>\<rparr>))
      else if tag = 9 then Some (s\<lparr>hp_g := g\<lparr>g_count := v\<rparr>\<rparr>)
      else if tag = 10 then
        (if length (hp_stack s) = 4 then None else Some (s\<lparr>hp_stack := g # hp_stack s\<rparr>))
      else if tag = 11 then
        (case hp_stack s of [] \<Rightarrow> None | g' # st \<Rightarrow> Some (s\<lparr>hp_g := g', hp_stack := st\<rparr>))
      else Some s)"

definition hid_local :: "u8 \<Rightarrow> nat \<Rightarrow> u32 \<Rightarrow> hid_parse \<Rightarrow> hid_parse option" where
  "hid_local tag n v s =
     (let u = (if n = 4 then v else push_bit 16 (g_page (hp_g s)) OR v) in
      if tag = 0 then
        (if length (hp_usages s) = 32 then None else Some (s\<lparr>hp_usages := hp_usages s @ [u]\<rparr>))
      else if tag = 1 then Some (s\<lparr>hp_umin := u, hp_have_min := True\<rparr>)
      else if tag = 2 then Some (s\<lparr>hp_umax := u, hp_have_max := True\<rparr>)
      else if tag = 10 then None
      else Some s)"

definition hid_vendor :: "hid_parse \<Rightarrow> bool" where
  "hid_vendor s \<longleftrightarrow> 0xFF00 \<le> g_page (hp_g s)
     \<and> \<not> (hp_have_min s \<and> drop_bit 16 (hp_umin s) < 0xFF00)
     \<and> (\<forall>u \<in> set (hp_usages s). \<not> drop_bit 16 u < 0xFF00)"

text \<open>The index of the report with an id: the loop keeps the last match.\<close>

fun find_report :: "u8 \<Rightarrow> hogp_input_report list \<Rightarrow> nat option" where
  "find_report i [] = None"
| "find_report i (r # rs) = (case find_report i rs of
       Some k \<Rightarrow> Some (Suc k)
     | None \<Rightarrow> if r_report_id r = i then Some 0 else None)"

text \<open>The one-bit and small variable fields of an input item, added one by one.\<close>

definition var_field :: "hid_parse \<Rightarrow> nat \<Rightarrow> nat \<Rightarrow> hogp_field" where
  "var_field s bits j =
     (let nu = length (hp_usages s);
          span = hp_umax s - hp_umin s;
          usage = (if nu \<noteq> 0 then hp_usages s ! (if j < nu then j else nu - 1)
                   else hp_umin s + (if word_of_nat j \<le> span then word_of_nat j else span))
      in \<lparr>f_offset = bits + j * unat (g_size (hp_g s)), f_page = ucast (drop_bit 16 usage),
          f_usage_min = ucast (usage AND 65535), f_usage_max = ucast (usage AND 65535),
          f_logical_min = 0, f_report_id = ucast (g_id (hp_g s)),
          f_size = unat (g_size (hp_g s)), f_count = 1, f_variable = True\<rparr>)"

fun add_var_fields :: "hid_parse \<Rightarrow> nat \<Rightarrow> nat list \<Rightarrow> hogp_field list \<Rightarrow> hogp_field list option" where
  "add_var_fields s bits [] fs = Some fs"
| "add_var_fields s bits (j # js) fs =
     (if length fs = HOGP_MAX_FIELDS then None
      else add_var_fields s bits js (fs @ [var_field s bits j]))"

definition array_field :: "hid_parse \<Rightarrow> nat \<Rightarrow> hogp_field" where
  "array_field s bits =
     \<lparr>f_offset = bits, f_page = ucast (drop_bit 16 (hp_umin s)),
      f_usage_min = ucast (hp_umin s AND 65535), f_usage_max = ucast (hp_umax s AND 65535),
      f_logical_min = ucast (g_lmin (hp_g s)), f_report_id = ucast (g_id (hp_g s)),
      f_size = unat (g_size (hp_g s)), f_count = unat (g_count (hp_g s)), f_variable = False\<rparr>"

text \<open>The fields an input item adds; \<open>None\<close> rejects the map.\<close>

definition item_fields :: "u32 \<Rightarrow> bool \<Rightarrow> nat \<Rightarrow> nat \<Rightarrow> hid_parse \<Rightarrow> hogp_field list \<Rightarrow> hogp_field list option" where
  "item_fields v vendor bits fin s fs =
     (let g = hp_g s in
      if v AND 1 = 0 \<and> \<not> vendor then
        (if 512 < fin then None
         else if v AND 0x104 \<noteq> 0 then None
         else if hp_have_min s \<noteq> hp_have_max s
              \<or> (hp_have_min s \<and> (hp_umax s < hp_umin s
                                 \<or> drop_bit 16 (hp_umax s) \<noteq> drop_bit 16 (hp_umin s))) then None
         else if v AND 2 \<noteq> 0 then
           (if hp_usages s = [] \<and> \<not> hp_have_min s then None
            else add_var_fields s bits [0..<unat (g_count g)] fs)
         else if \<not> hp_have_min s \<or> 65535 < g_lmin g \<or> 65535 < g_lmax g \<or> g_lmax g < g_lmin g then None
         else if length fs = HOGP_MAX_FIELDS then None
         else Some (fs @ [array_field s bits]))
      else Some fs)"

definition hid_input :: "u32 \<Rightarrow> hid_parse \<Rightarrow> hid_parse option" where
  "hid_input v s =
     (let g = hp_g s; out = hp_out s; vendor = hid_vendor s; rid = ucast (g_id g) :: u8 in
      if g_size g = 0 \<or> 65535 < g_size g \<or> g_count g = 0 \<or> 65535 < g_count g then None
      else if \<not> vendor \<and> (16 < g_size g \<or> 64 < g_count g) then None
      else
        let found = find_report rid (m_inputs out);
            ins = (if found = None
                   then m_inputs out @ [\<lparr>r_report_id = rid, r_usage_page = ucast (g_page g),
                                       r_bits = 0, r_bytes = 0\<rparr>]
                   else m_inputs out);
            k = (case found of None \<Rightarrow> length (m_inputs out) | Some k \<Rightarrow> k)
        in if found = None \<and> length (m_inputs out) = HOGP_MAX_INPUT_REPORTS then None
           else
             let bits = r_bits (ins ! k); width = unat (g_size g) * unat (g_count g); fin = bits + width
             in if 65535 - bits < width then None
                else case item_fields v vendor bits fin s (m_fields out) of
                       None \<Rightarrow> None
                     | Some fs \<Rightarrow>
                         Some (s\<lparr>hp_out := out\<lparr>m_fields := fs,
                           m_inputs := ins[k := (ins ! k)\<lparr>r_bits := fin, r_bytes := (fin + 7) div 8\<rparr>]\<rparr>\<rparr>))"

definition hid_main :: "u8 \<Rightarrow> u32 \<Rightarrow> hid_parse \<Rightarrow> hid_parse option" where
  "hid_main tag v s =
     (let reset = (\<lambda>s. s\<lparr>hp_usages := [], hp_have_min := False, hp_have_max := False\<rparr>) in
      if tag = 10 then (if 16 < hp_depth s + 1 then None else Some (reset (s\<lparr>hp_depth := hp_depth s + 1\<rparr>)))
      else if tag = 12 then (if hp_depth s = 0 then None else Some (reset (s\<lparr>hp_depth := hp_depth s - 1\<rparr>)))
      else if tag = 8 then map_option reset (hid_input v s)
      else Some (reset s))"

text \<open>The value bytes of a short item, little endian.\<close>

definition item_value :: "u8 list \<Rightarrow> u32" where
  "item_value bs = foldl (\<lambda>v i. v OR push_bit (8 * i) (ucast (bs ! i))) 0 [0..<length bs]"

function hid_loop :: "u8 list \<Rightarrow> hid_parse \<Rightarrow> hid_parse option" where
  "hid_loop [] s = Some s"
| "hid_loop (prefix # rest) s =
     (if prefix = 0xFE then None
      else
        let n = (if prefix AND 3 = 3 then 4 else unat (prefix AND 3))
        in if length rest < n then None
           else
             let v = item_value (take n rest); ty = drop_bit 2 prefix AND 3; tag = drop_bit 4 prefix;
                 s' = (if ty = 1 then hid_global tag v s
                       else if ty = 2 then hid_local tag n v s
                       else if ty = 0 then hid_main tag v s
                       else Some s)
             in case s' of None \<Rightarrow> None | Some s' \<Rightarrow> hid_loop (drop n rest) s')"
  by pat_completeness auto
termination
  by (relation "measure (length \<circ> fst)") auto

definition report_useful :: "hogp_field list \<Rightarrow> hogp_input_report \<Rightarrow> bool" where
  "report_useful fs r \<longleftrightarrow> (\<exists>f \<in> set fs. f_report_id f = r_report_id r)"

definition hogp_report_map_parse :: "u8 list \<Rightarrow> hogp_report_map option" where
  "hogp_report_map_parse d =
     (if d = [] \<or> HOGP_MAX_MAP_SIZE < length d then None
      else case hid_loop d hid_init of
        None \<Rightarrow> None
      | Some s \<Rightarrow>
          let out = hp_out s; kept = filter (report_useful (m_fields out)) (m_inputs out)
          in if hp_depth s \<noteq> 0 \<or> hp_stack s \<noteq> [] \<or> m_inputs out = [] then None
             else if uses_report_ids out \<and> (\<exists>r \<in> set (m_inputs out). r_report_id r = 0) then None
             else if \<exists>r \<in> set kept. 512 < r_bits r then None
             else if kept = [] then None
             else Some (out\<lparr>m_inputs := kept\<rparr>))"

section \<open>Decoder\<close>

text \<open>The two switches as their tables; \<open>0xFFFF\<close> is no key.\<close>

definition keyboard_keys :: "(u16 \<times> u16) list" where
  "keyboard_keys =
     [(0x4F, RBP_KEY_RIGHT), (0x50, RBP_KEY_LEFT), (0x51, RBP_KEY_DOWN), (0x52, RBP_KEY_UP),
      (0x28, RBP_KEY_OK), (0x29, RBP_KEY_BACK), (0x4A, RBP_KEY_HOME), (0x65, RBP_KEY_MENU),
      (0x66, RBP_KEY_POWER), (0x80, RBP_KEY_VOLUME_UP), (0x81, RBP_KEY_VOLUME_DOWN),
      (0x3E, RBP_KEY_VOICE), (0xF1, RBP_KEY_BACK), (0x35, RBP_KEY_TV)]"

definition consumer_keys :: "(u16 \<times> u16) list" where
  "consumer_keys =
     [(0x030, RBP_KEY_POWER), (0x041, RBP_KEY_OK), (0x042, RBP_KEY_UP), (0x043, RBP_KEY_DOWN),
      (0x044, RBP_KEY_LEFT), (0x045, RBP_KEY_RIGHT), (0x0CF, RBP_KEY_VOICE),
      (0x0E9, RBP_KEY_VOLUME_UP), (0x0EA, RBP_KEY_VOLUME_DOWN), (0x040, RBP_KEY_MENU),
      (0x223, RBP_KEY_HOME), (0x224, RBP_KEY_BACK)]"

definition hogp_usage_to_key :: "u16 \<Rightarrow> u16 \<Rightarrow> u16" where
  "hogp_usage_to_key usage_page usage =
     (if usage_page = 0x07 then (case map_of keyboard_keys usage of Some k \<Rightarrow> k | None \<Rightarrow> 0xFFFF)
      else if usage_page = 0x0C then (case map_of consumer_keys usage of Some k \<Rightarrow> k | None \<Rightarrow> 0xFFFF)
      else 0xFFFF)"

definition key_bit :: "u16 \<Rightarrow> u64 \<Rightarrow> u64" where
  "key_bit key result =
     (if key \<noteq> 0xFFFF \<and> key \<noteq> 0 \<and> key < 64 then result OR push_bit (unat key) 1 else result)"

definition hogp_decode_boot_keyboard :: "u8 list \<Rightarrow> u64 option" where
  "hogp_decode_boot_keyboard data =
     (if length data \<noteq> 8 \<or> data ! 1 \<noteq> 0 then None
      else if \<exists>b \<in> set (drop 2 data). 1 \<le> b \<and> b \<le> 3 then None
      else Some (foldl (\<lambda>result b. key_bit (hogp_usage_to_key 7 (ucast b)) result) 0 (drop 2 data)))"

text \<open>
  Decoding a report. \<open>Dec_fault\<close> is a read past the end of the report, \<open>Dec_reject\<close> the \<open>return
  false\<close> of the code.
\<close>

datatype decoded = Dec_fault | Dec_reject | Dec_keys u64

fun field_value :: "u8 list \<Rightarrow> nat \<Rightarrow> nat list \<Rightarrow> u32 \<Rightarrow> u32 option" where
  "field_value data b [] v = Some v"
| "field_value data b (k # ks) v =
     (if (b + k) div 8 < length data
      then field_value data b ks
             (v OR push_bit k (ucast (drop_bit ((b + k) mod 8) (data ! ((b + k) div 8)) AND 1)))
      else None)"

fun decode_slots :: "hogp_field \<Rightarrow> u8 list \<Rightarrow> nat list \<Rightarrow> u64 \<Rightarrow> decoded" where
  "decode_slots f data [] result = Dec_keys result"
| "decode_slots f data (j # js) result =
     (case field_value data (f_offset f + j * f_size f) [0..<f_size f] 0 of
        None \<Rightarrow> Dec_fault
      | Some v \<Rightarrow>
          let lmin = ucast (f_logical_min f) :: u32; umin = ucast (f_usage_min f) :: u32;
              umax = ucast (f_usage_max f) :: u32
          in if f_variable f then
               (if v = 0 then decode_slots f data js result
                else decode_slots f data js
                       (key_bit (hogp_usage_to_key (f_page f) (f_usage_min f)) result))
             else if v < lmin \<or> umax - umin < v - lmin then Dec_reject
             else
               let usage = umin + v - lmin
               in if f_page f = 7 \<and> 1 \<le> usage \<and> usage \<le> 3 then Dec_reject
                  else decode_slots f data js (key_bit (hogp_usage_to_key (f_page f) (ucast usage)) result))"

fun decode_fields :: "hogp_field list \<Rightarrow> u8 \<Rightarrow> u8 list \<Rightarrow> u64 \<Rightarrow> decoded" where
  "decode_fields [] i data result = Dec_keys result"
| "decode_fields (f # fs) i data result =
     (if f_report_id f \<noteq> i then decode_fields fs i data result
      else case decode_slots f data [0..<f_count f] result of
        Dec_keys result' \<Rightarrow> decode_fields fs i data result'
      | d \<Rightarrow> d)"

definition hogp_decode_report :: "hogp_report_map \<Rightarrow> u8 \<Rightarrow> u8 list \<Rightarrow> decoded" where
  "hogp_decode_report m i data =
     (case find_report i (m_inputs m) of
        None \<Rightarrow> Dec_reject
      | Some k \<Rightarrow> if length data \<noteq> r_bytes (m_inputs m ! k) then Dec_reject
                  else decode_fields (m_fields m) i data 0)"

section \<open>Lemmas on the parser\<close>

definition field_fits :: "hogp_input_report list \<Rightarrow> hogp_field \<Rightarrow> bool" where
  "field_fits ins f \<longleftrightarrow> f_size f \<le> 16 \<and> f_count f \<le> 64 \<and>
     (\<exists>r \<in> set ins. r_report_id r = f_report_id f \<and> f_offset f + f_size f * f_count f \<le> r_bits r)"

definition map_ok :: "hogp_report_map \<Rightarrow> bool" where
  "map_ok m \<longleftrightarrow> length (m_fields m) \<le> HOGP_MAX_FIELDS \<and> length (m_inputs m) \<le> HOGP_MAX_INPUT_REPORTS
     \<and> distinct (map r_report_id (m_inputs m))
     \<and> (\<forall>r \<in> set (m_inputs m). r_bytes r = (r_bits r + 7) div 8)
     \<and> (\<forall>f \<in> set (m_fields m). field_fits (m_inputs m) f)"

lemma find_report_Some:
  "find_report i rs = Some k \<Longrightarrow> k < length rs \<and> r_report_id (rs ! k) = i"
  by (induction rs arbitrary: k) (auto split: option.splits if_splits)

lemma find_report_None: "find_report i rs = None \<longleftrightarrow> i \<notin> r_report_id ` set rs"
  by (induction rs) (auto split: option.splits)

lemma add_var_fields_set:
  "add_var_fields s bits js fs = Some fs' \<Longrightarrow> length fs \<le> 64 \<Longrightarrow>
   length fs' \<le> 64 \<and> set fs' = set fs \<union> var_field s bits ` set js"
  by (induction s bits js fs rule: add_var_fields.induct) (auto split: if_splits)

text \<open>The report that grows: every field that fitted still does.\<close>

lemma field_fits_grow:
  assumes "field_fits ins f" and "k < length ins" and "distinct (map r_report_id ins)"
    and "r_bits (ins ! k) \<le> n"
  shows "field_fits (ins[k := (ins ! k)\<lparr>r_bits := n, r_bytes := m\<rparr>]) f"
proof -
  obtain i where i: "i < length ins" "r_report_id (ins ! i) = f_report_id f"
    "f_offset f + f_size f * f_count f \<le> r_bits (ins ! i)"
    using assms(1) by (auto simp: field_fits_def in_set_conv_nth)
  let ?ins = "ins[k := (ins ! k)\<lparr>r_bits := n, r_bytes := m\<rparr>]"
  have "?ins ! i \<in> set ?ins"
    using i(1) by simp
  moreover have "r_report_id (?ins ! i) = f_report_id f"
    "f_offset f + f_size f * f_count f \<le> r_bits (?ins ! i)"
    using i assms(2,4) by (cases "i = k"; simp)+
  ultimately show ?thesis
    using assms(1) unfolding field_fits_def by blast
qed

lemma item_fields_fit:
  assumes "item_fields v vendor bits fin s fs = Some fs'" and "length fs \<le> 64"
    and "fin = bits + unat (g_size (hp_g s)) * unat (g_count (hp_g s))"
    and "\<not> vendor \<Longrightarrow> g_size (hp_g s) \<le> 16 \<and> g_count (hp_g s) \<le> 64"
    and "f \<in> set fs'"
  shows "length fs' \<le> 64" and "f \<in> set fs \<or> f_size f \<le> 16 \<and> f_count f \<le> 64
    \<and> f_report_id f = ucast (g_id (hp_g s)) \<and> f_offset f + f_size f * f_count f \<le> fin"
proof -
  show "length fs' \<le> 64"
    using assms(1,2) add_var_fields_set
    by (fastforce simp: item_fields_def Let_def split: if_splits)
  let ?n = "unat (g_size (hp_g s))" and ?c = "unat (g_count (hp_g s))"
  have small: "?n \<le> 16" "?c \<le> 64" if "\<not> vendor"
    using assms(4) [OF that] by (simp_all add: word_le_nat_alt)
  show "f \<in> set fs \<or> f_size f \<le> 16 \<and> f_count f \<le> 64
    \<and> f_report_id f = ucast (g_id (hp_g s)) \<and> f_offset f + f_size f * f_count f \<le> fin"
  proof (cases "f \<in> set fs")
    case False
    then have nv: "\<not> vendor"
      using assms(1,5) by (auto simp: item_fields_def Let_def split: if_splits)
    have "f = array_field s bits \<or> (\<exists>j < ?c. f = var_field s bits j)"
      using False assms(1,2,5) add_var_fields_set [of s bits "[0..<?c]" fs fs']
      by (auto simp: item_fields_def Let_def split: if_splits)
    then show ?thesis
    proof
      assume "f = array_field s bits"
      then show ?thesis
        using small [OF nv] assms(3) by (simp add: array_field_def)
    next
      assume "\<exists>j < ?c. f = var_field s bits j"
      then obtain j where j: "j < ?c" "f = var_field s bits j" by blast
      have "(j + 1) * ?n \<le> ?c * ?n"
        using j(1) by (intro mult_le_mono1) simp
      then show ?thesis
        using small [OF nv] assms(3) j(2) by (simp add: var_field_def Let_def mult.commute)
    qed
  qed simp
qed

lemma hid_input_ok:
  assumes "hid_input v s = Some s'" and "map_ok (hp_out s)"
  shows "map_ok (hp_out s')"
proof -
  let ?out = "hp_out s" and ?g = "hp_g s"
  let ?rid = "ucast (g_id ?g) :: u8"
  let ?new = "\<lparr>r_report_id = ?rid, r_usage_page = ucast (g_page ?g), r_bits = 0, r_bytes = 0\<rparr>"
  define found where "found = find_report ?rid (m_inputs ?out)"
  define ins where "ins = (if found = None then m_inputs ?out @ [?new] else m_inputs ?out)"
  define k where "k = (case found of None \<Rightarrow> length (m_inputs ?out) | Some k \<Rightarrow> k)"
  define fin where "fin = r_bits (ins ! k) + unat (g_size ?g) * unat (g_count ?g)"
  have eq: "hid_input v s =
      (if g_size ?g = 0 \<or> 65535 < g_size ?g \<or> g_count ?g = 0 \<or> 65535 < g_count ?g then None
       else if \<not> hid_vendor s \<and> (16 < g_size ?g \<or> 64 < g_count ?g) then None
       else if found = None \<and> length (m_inputs ?out) = 8 then None
       else if 65535 - r_bits (ins ! k) < unat (g_size ?g) * unat (g_count ?g) then None
       else case item_fields v (hid_vendor s) (r_bits (ins ! k)) fin s (m_fields ?out) of
         None \<Rightarrow> None
       | Some fs \<Rightarrow> Some (s\<lparr>hp_out := ?out\<lparr>m_fields := fs,
           m_inputs := ins[k := (ins ! k)\<lparr>r_bits := fin, r_bytes := (fin + 7) div 8\<rparr>]\<rparr>\<rparr>))"
    by (simp only: hid_input_def Let_def found_def ins_def k_def fin_def)
  obtain fs where fs: "item_fields v (hid_vendor s) (r_bits (ins ! k)) fin s (m_fields ?out) = Some fs"
    and out: "hp_out s' = ?out\<lparr>m_fields := fs,
        m_inputs := ins[k := (ins ! k)\<lparr>r_bits := fin, r_bytes := (fin + 7) div 8\<rparr>]\<rparr>"
    and room: "found \<noteq> None \<or> length (m_inputs ?out) \<noteq> 8"
    and small: "\<not> hid_vendor s \<Longrightarrow> g_size ?g \<le> 16 \<and> g_count ?g \<le> 64"
    using assms(1) unfolding eq by (auto simp: not_less split: if_splits option.splits)
  have k: "k < length ins" "r_report_id (ins ! k) = ?rid"
    using find_report_Some [of ?rid "m_inputs ?out"]
    by (auto simp: k_def ins_def found_def split: option.splits)
  have ins: "length ins \<le> 8" "distinct (map r_report_id ins)"
    "\<And>f. field_fits (m_inputs ?out) f \<Longrightarrow> field_fits ins f"
    using assms(2) room find_report_None [of ?rid "m_inputs ?out"]
    by (auto simp: ins_def map_ok_def field_fits_def found_def)
  have bytes: "\<forall>r \<in> set ins. r_bytes r = (r_bits r + 7) div 8"
    using assms(2) by (auto simp: ins_def map_ok_def)
  let ?ins = "ins[k := (ins ! k)\<lparr>r_bits := fin, r_bytes := (fin + 7) div 8\<rparr>]"
  have ids: "map r_report_id ?ins = map r_report_id ins"
    using k(1) by (intro nth_equalityI) (auto simp: nth_list_update)
  have len: "length (m_fields ?out) \<le> 64"
    using assms(2) by (simp add: map_ok_def)
  have "field_fits ?ins f" if "f \<in> set fs" for f
  proof (cases "f \<in> set (m_fields ?out)")
    case True
    then have "field_fits ins f"
      using assms(2) ins(3) by (simp add: map_ok_def)
    then show ?thesis
      using k(1) ins(2) by (rule field_fits_grow) (simp add: fin_def)
  next
    case False
    then have "f_size f \<le> 16 \<and> f_count f \<le> 64 \<and> f_report_id f = ?rid
        \<and> f_offset f + f_size f * f_count f \<le> fin"
      using item_fields_fit(2) [OF fs len fin_def small that] by blast
    moreover have "(ins ! k)\<lparr>r_bits := fin, r_bytes := (fin + 7) div 8\<rparr> \<in> set ?ins"
      using k(1) by (simp add: set_update_memI)
    ultimately show ?thesis
      using k(2) unfolding field_fits_def
      by (intro conjI bexI [of _ "(ins ! k)\<lparr>r_bits := fin, r_bytes := (fin + 7) div 8\<rparr>"]) simp_all
  qed
  moreover have "length fs \<le> 64"
    using item_fields_fit(1) [OF fs len fin_def small] by (cases fs) auto
  moreover have "\<forall>r \<in> set ?ins. r_bytes r = (r_bits r + 7) div 8"
    using bytes by (auto dest!: set_update_subset_insert [THEN subsetD])
  ultimately show ?thesis
    using ins ids by (simp add: map_ok_def out)
qed

lemma hid_loop_ok:
  "hid_loop d s = Some s' \<Longrightarrow> map_ok (hp_out s) \<Longrightarrow> map_ok (hp_out s')"
proof (induction d s rule: hid_loop.induct)
  case (2 prefix rest s)
  let ?n = "if prefix AND 3 = 3 then 4 else unat (prefix AND 3)"
  let ?v = "item_value (take ?n rest)" and ?ty = "drop_bit 2 prefix AND 3" and ?tag = "drop_bit 4 prefix"
  let ?s = "if ?ty = 1 then hid_global ?tag ?v s else if ?ty = 2 then hid_local ?tag ?n ?v s
    else if ?ty = 0 then hid_main ?tag ?v s else Some s"
  obtain t where t: "?s = Some t" "hid_loop (drop ?n rest) t = Some s'" "prefix \<noteq> 0xFE" "\<not> length rest < ?n"
    using "2.prems"(1) unfolding hid_loop.simps Let_def by (auto split: if_splits option.splits)
  have g: "map_ok (hp_out t)" if "hid_global a v s = Some t" for a v
    using that "2.prems"(2) by (auto simp: hid_global_def Let_def map_ok_def split: if_splits list.splits)
  have l: "map_ok (hp_out t)" if "hid_local a m v s = Some t" for a m v
    using that "2.prems"(2) by (auto simp: hid_local_def Let_def split: if_splits)
  have m: "map_ok (hp_out t)" if "hid_main a v s = Some t" for a v
    using that "2.prems"(2) hid_input_ok by (auto simp: hid_main_def Let_def split: if_splits)
  have "map_ok (hp_out t)"
    using t(1) g l m "2.prems"(2) by (auto split: if_splits)
  with "2.IH" [OF t(3) refl t(4) refl refl refl refl t(1)] t(2) show ?case by blast
qed simp

lemma parse_ok:
  assumes "hogp_report_map_parse d = Some m"
  shows "map_ok m" and "\<forall>r \<in> set (m_inputs m). r_bits r \<le> 512" and "m_inputs m \<noteq> []"
proof -
  obtain s where s: "hid_loop d hid_init = Some s"
    and m: "m = (hp_out s)\<lparr>m_inputs := filter (report_useful (m_fields (hp_out s))) (m_inputs (hp_out s))\<rparr>"
    and b: "\<forall>r \<in> set (m_inputs m). r_bits r \<le> 512" "m_inputs m \<noteq> []"
    using assms by (auto simp: hogp_report_map_parse_def Let_def not_less split: if_splits option.splits)
  have "map_ok (hp_out s)"
    using hid_loop_ok [OF s] by (simp add: hid_init_def map_ok_def)
  moreover have "field_fits (filter (report_useful fs) ins) f"
    if "f \<in> set fs" "field_fits ins f" for f fs ins
    using that unfolding field_fits_def report_useful_def set_filter by (metis (mono_tags, lifting) mem_Collect_eq)
  ultimately show "map_ok m"
    by (auto simp: m map_ok_def distinct_map_filter intro: order_trans [OF length_filter_le])
  show "\<forall>r \<in> set (m_inputs m). r_bits r \<le> 512" "m_inputs m \<noteq> []"
    by (fact b)+
qed

section \<open>Lemmas on the decoder\<close>

lemma field_value_reads:
  "\<forall>k \<in> set ks. b + k < 8 * length data \<Longrightarrow> \<exists>v'. field_value data b ks v = Some v'"
  by (induction data b ks v rule: field_value.induct) (auto simp: less_mult_imp_div_less mult.commute)

lemma decode_slots_safe:
  assumes "f_offset f + f_size f * f_count f \<le> 8 * length data"
  shows "\<forall>j \<in> set js. j < f_count f \<Longrightarrow> decode_slots f data js result \<noteq> Dec_fault"
proof (induction js arbitrary: result)
  case (Cons j js)
  have "f_offset f + j * f_size f + k < 8 * length data" if "k < f_size f" for k
  proof -
    have "(j + 1) * f_size f \<le> f_count f * f_size f"
      using Cons.prems by (intro mult_le_mono1) simp
    then have "f_offset f + j * f_size f + k < f_offset f + f_size f * f_count f"
      using that by (simp add: mult.commute)
    then show ?thesis
      using assms by linarith
  qed
  then obtain v where "field_value data (f_offset f + j * f_size f) [0..<f_size f] 0 = Some v"
    using field_value_reads [of "[0..<f_size f]" "f_offset f + j * f_size f" data 0] by auto
  with Cons show ?case
    by (simp add: Let_def)
qed simp

lemma decode_fields_safe:
  assumes "\<forall>f \<in> set fs. f_report_id f = i \<longrightarrow> f_offset f + f_size f * f_count f \<le> 8 * length data"
  shows "decode_fields fs i data result \<noteq> Dec_fault"
  using assms
proof (induction fs arbitrary: result)
  case (Cons f fs)
  then show ?case
    using decode_slots_safe [of f data "[0..<f_count f]" result]
    by (auto split: decoded.splits)
qed simp

lemma decode_report_safe:
  assumes ok: "map_ok m"
  shows "hogp_decode_report m i data \<noteq> Dec_fault"
proof (cases "find_report i (m_inputs m)")
  case None
  then show ?thesis by (simp add: hogp_decode_report_def)
next
  case (Some k)
  let ?r = "m_inputs m ! k"
  have k: "k < length (m_inputs m)" "r_report_id ?r = i"
    using find_report_Some [OF Some] by simp_all
  show ?thesis
  proof (cases "length data = r_bytes ?r")
    case True
    have "r_bits ?r \<le> 8 * length data"
      using ok k(1) True by (simp add: map_ok_def)
    moreover have "f_offset f + f_size f * f_count f \<le> r_bits ?r"
      if f: "f \<in> set (m_fields m)" "f_report_id f = i" for f
    proof -
      obtain r where r: "r \<in> set (m_inputs m)" "r_report_id r = i"
        "f_offset f + f_size f * f_count f \<le> r_bits r"
        using ok f by (auto simp: map_ok_def field_fits_def)
      have "r = ?r"
        using ok k r(1,2) nth_mem [OF k(1)] by (auto simp: map_ok_def distinct_map dest: inj_onD)
      with r(3) show ?thesis by simp
    qed
    ultimately have "\<forall>f \<in> set (m_fields m). f_report_id f = i \<longrightarrow>
        f_offset f + f_size f * f_count f \<le> 8 * length data"
      by (meson le_trans)
    then show ?thesis
      using Some True by (simp add: hogp_decode_report_def decode_fields_safe)
  qed (simp add: hogp_decode_report_def Some)
qed

section \<open>Properties\<close>

text \<open>What the parser promises of any descriptor it accepts, however hostile: at most 8 reports with
  different ids and at most 64 fields, at least one report kept, every report at most 512 bits with its size in bytes
  rounded up, and every field of at most 64 slots of at most 16 bits that lie within the bits of the
  kept report it belongs to.\<close>

theorem report_map_bounds:
  assumes "hogp_report_map_parse d = Some m"
  shows "0 < length (m_inputs m) \<and> length (m_inputs m) \<le> HOGP_MAX_INPUT_REPORTS
    \<and> length (m_fields m) \<le> HOGP_MAX_FIELDS \<and> distinct (map r_report_id (m_inputs m))
    \<and> (\<forall>r \<in> set (m_inputs m). r_bits r \<le> 512 \<and> r_bytes r = (r_bits r + 7) div 8)
    \<and> (\<forall>f \<in> set (m_fields m). f_size f \<le> 16 \<and> f_count f \<le> 64 \<and>
         (\<exists>r \<in> set (m_inputs m). r_report_id r = f_report_id f
            \<and> f_offset f + f_size f * f_count f \<le> r_bits r))"
  using parse_ok [OF assms] by (auto simp: map_ok_def field_fits_def)

text \<open>A consumer control descriptor: one report of two bits, volume up and down, and six bits of padding.\<close>

definition sample_descriptor :: "u8 list" where
  "sample_descriptor =
     [0x05, 0x0C, 0x09, 0x01, 0xA1, 0x01, 0x15, 0x00, 0x25, 0x01, 0x75, 0x01, 0x95, 0x02,
      0x09, 0xE9, 0x09, 0xEA, 0x81, 0x02, 0x95, 0x06, 0x81, 0x03, 0xC0]"

definition sample_map :: hogp_report_map where
  "sample_map = the (hogp_report_map_parse sample_descriptor)"

lemma sample_inputs:
  "map_option m_inputs (hogp_report_map_parse sample_descriptor) =
     Some [\<lparr>r_report_id = 0, r_usage_page = 0x0C, r_bits = 8, r_bytes = 1\<rparr>]"
  by (simp add: sample_descriptor_def hogp_report_map_parse_def hid_init_def hid_global_def hid_local_def
      hid_main_def hid_input_def item_fields_def hid_vendor_def var_field_def item_value_def
      report_useful_def upt_rec)

lemma sample_parses: "hogp_report_map_parse sample_descriptor = Some sample_map"
  using sample_inputs by (auto simp: sample_map_def)

theorem report_map_bounds_witness:
  "length (m_inputs sample_map) \<le> 8 \<and> length (m_fields sample_map) \<le> 64"
  using report_map_bounds [OF sample_parses] by simp

text \<open>C37: memory safety of the decoder. With a map the parser produced, decoding a report, for any id and any
  bytes, never reads beyond the report.\<close>

theorem report_decode_safe:
  assumes "hogp_report_map_parse d = Some m"
  shows "hogp_decode_report m i data \<noteq> Dec_fault"
  by (rule decode_report_safe [OF parse_ok(1) [OF assms]])

theorem report_decode_safe_witness: "hogp_decode_report sample_map 0 [0x01] \<noteq> Dec_fault"
  using report_decode_safe [OF sample_parses] by simp

end
