(* ===== verification/Server_State.thy ===== *)
theory Server_State
  imports Frame Tlv Ring Faults Device_Model Audio
begin

text \<open>
  The state of the product server (\<open>struct rbp_server\<close> of \<open>src/firmware/product/rbp_server.c\<close>), the
  interfaces it is wired to (\<open>rbp_server.h\<close>), and its lowest layer: the output ring, the control
  queue, the key queue and the end of a session.

  A function \<open>f(rbp_server_t *s, ...)\<close> is a function of the state record to the updated record, with
  its result first in a pair. What the configuration points to outside the server is a parameter: the
  sizes chosen by the build, the radio backend, the store, the transport and the random source are
  the record \<open>'w server_env\<close>, where \<open>'w\<close> is the type of the world these functions act on. A backend
  call may report back into the server before it returns, so it is a function of the whole state.
  The release build is modelled: \<open>RBP_DEBUG\<close> is undefined and \<open>DT\<close> expands to nothing.

  Array positions and lengths of the C code, unsigned integers of 8, 16 or \<open>size_t\<close> bits, are natural
  numbers; the invariant of this development keeps them below the array sizes, so no operation wraps.
  Identifiers, clocks, counters and statistics keep their width.
\<close>

section \<open>Data\<close>

record rbp_peer_record =
  pr_peer_id :: u32
  pr_name :: "u8 list"
  pr_auto_reconnect :: bool

record rbp_candidate =
  ca_candidate_id :: u32
  ca_support :: u8
  ca_signal :: u8
  ca_name :: "u8 list"
  ca_name_len :: u8

datatype rbp_link_state =
    RBP_LINK_UNBOUND
  | RBP_LINK_DISCONNECTED
  | RBP_LINK_CONNECTING
  | RBP_LINK_PAIRING
  | RBP_LINK_INITIALIZING
  | RBP_LINK_READY
  | RBP_LINK_UNSUPPORTED
  | RBP_LINK_ERROR

text \<open>\<open>(uint8_t)state\<close>.\<close>

fun link_code :: "rbp_link_state \<Rightarrow> u8" where
  "link_code RBP_LINK_UNBOUND = 0"
| "link_code RBP_LINK_DISCONNECTED = 1"
| "link_code RBP_LINK_CONNECTING = 2"
| "link_code RBP_LINK_PAIRING = 3"
| "link_code RBP_LINK_INITIALIZING = 4"
| "link_code RBP_LINK_READY = 5"
| "link_code RBP_LINK_UNSUPPORTED = 6"
| "link_code RBP_LINK_ERROR = 7"

record rbp_keys_report =
  kr_connection_id :: u32
  kr_kind :: u8
  kr_reason :: u8
  kr_pressed_bits :: u64
  kr_captured_us :: u64

abbreviation (input) UINT64_MAX :: u64 where "UINT64_MAX \<equiv> 0xFFFFFFFFFFFFFFFF"

abbreviation (input) HEARTBEAT_TIMEOUT_MS :: u32 where "HEARTBEAT_TIMEOUT_MS \<equiv> 5000"
abbreviation (input) CANDIDATE_TTL_MS :: u32 where "CANDIDATE_TTL_MS \<equiv> 60000"
abbreviation (input) PAIR_DEADLINE_MS :: u32 where "PAIR_DEADLINE_MS \<equiv> 60000"
abbreviation (input) FORGET_DEADLINE_MS :: u32 where "FORGET_DEADLINE_MS \<equiv> 5000"
abbreviation (input) VOICE_STOP_MS :: u32 where "VOICE_STOP_MS \<equiv> 2000"
abbreviation (input) VOICE_FIRST_AUDIO_MS :: u32 where "VOICE_FIRST_AUDIO_MS \<equiv> 5000"
abbreviation (input) VOICE_PROGRESS_MS :: u32 where "VOICE_PROGRESS_MS \<equiv> 2000"
abbreviation (input) CTL_FLUSH_BURST :: nat where "CTL_FLUSH_BURST \<equiv> 4"
abbreviation (input) OPK_PAIR :: u8 where "OPK_PAIR \<equiv> 1"
abbreviation (input) OPK_FORGET :: u8 where "OPK_FORGET \<equiv> 2"

record ctl_slot =
  cs_used :: bool
  cs_kind :: u8
  cs_status :: u16
  cs_opcode :: u16
  cs_request_id :: u32
  cs_connection_id :: u32
  cs_session :: u32
  cs_len :: nat
  cs_offset :: nat
  cs_order :: u32

record media_marker =
  mm_stream :: u32
  mm_connection :: u32
  mm_order :: u32
  mm_opcode :: u16
  mm_len :: nat

record key_item =
  ki_used :: bool
  ki_buf :: "u8 list"
  ki_order :: u32
  ki_connection :: u32

record op_result =
  od_used :: bool
  od_op_id :: u32
  od_result :: u16
  od_peer_id :: u32
  od_connection_id :: u32
  od_uncertain :: bool

text \<open>
  \<open>struct rbp_server\<close>. The fields of \<open>cfg\<close> that are data come first; \<open>s_faults\<close> is the fault log of
  \<open>faults.c\<close>, which the statistics request reads; \<open>s_world\<close> is what lies outside the server.
\<close>

record 'w rbp_server =
  s_profile :: "rbp_device_profile option"
  s_max_keys :: u16
  s_max_capture_ms :: u32
  s_bridge_uid :: "u8 list"
  s_firmware_version :: "u8 list option"
  s_reset_reason :: u16
  s_now_ms :: u32
  s_order_counter :: u32
  s_out_ring :: "u8 list"
  s_out_head :: nat
  s_out_len :: nat
  s_rx :: rbp_rxparser
  s_rx_ctx :: rbp_rx_ctx
  s_ctl :: "ctl_slot list"
  s_ctl_payload :: "u8 list"
  s_ctl_used :: nat
  s_session_active :: bool
  s_session_id :: u32
  s_session_counter :: u32
  s_connection_counter :: u32
  s_txseq :: u32
  s_last_req_ms :: u32
  s_req_hwm :: u32
  s_have_client_seq :: bool
  s_client_tx_hwm :: u32
  s_op_active :: bool
  s_pair_ready_pending :: bool
  s_op_id :: u32
  s_op_kind :: u8
  s_op_deadline_ms :: u32
  s_op_peer_id :: u32
  s_op_connection_id :: u32
  s_ops_done :: "op_result list"
  s_ops_done_head :: nat
  s_ops_done_count :: nat
  s_find_active :: bool
  s_find_valid :: bool
  s_search_id :: u32
  s_find_end_ms :: u32
  s_cand :: "rbp_candidate list"
  s_cand_count :: nat
  s_prompt_active :: bool
  s_pair_cancel_requested :: bool
  s_prompt_id :: u32
  s_prompt_method :: u8
  s_prompt_number :: u32
  s_prompt_expiry_ms :: u32
  s_link_state :: rbp_link_state
  s_connection_id :: u32
  s_peer :: rbp_peer_record
  s_peer_valid :: bool
  s_battery :: u8
  s_charging :: u8
  s_voice_state :: u8
  s_voice_interaction :: u8
  s_voice_sample_rate :: u32
  s_reconnect_paused :: bool
  s_link_msg :: "u8 list"
  s_events_enabled :: bool
  s_pressed_bits :: u64
  s_input_seq :: u32
  s_keys_captured_us :: u64
  s_key_q :: "key_item list"
  s_key_q_head :: nat
  s_key_q_count :: nat
  s_voice_enabled :: bool
  s_voice_denied :: bool
  s_voice_resume_peer :: u32
  s_waiting_idle :: bool
  s_stream_id :: u32
  s_next_stream_id :: u32
  s_frame_seq :: u32
  s_delivered_samples :: u64
  s_delivered_bytes :: u64
  s_source_samples :: u64
  s_source_bytes :: u64
  s_delivered_units :: u32
  s_delivered_epoch :: u32
  s_source_units :: u32
  s_epoch :: u32
  s_unit_offset :: u32
  s_unit_size :: u32
  s_unit_samples :: u32
  s_format_max_unit :: u32
  s_source_started_ms :: u32
  s_voice_caps :: "rbp_audio_caps option"
  s_accepted_max_unit :: u32
  s_accepted_codecs :: "u8 list"
  s_accepted_len :: nat
  s_delivering :: bool
  s_ending :: bool
  s_stream_connection :: u32
  s_stop_requested :: bool
  s_stop_deadline_ms :: u32
  s_capture_limited :: bool
  s_capture_deadline_ms :: u32
  s_voice_ok_deferred :: bool
  s_voice_ok_deferred_opcode :: u16
  s_voice_ok_deferred_req :: u32
  s_voice_ok_deferred_conn :: u32
  s_voice_ok_deferred_is_enable :: bool
  s_audio_pool :: "u8 list"
  s_audio_head :: nat
  s_audio_len :: nat
  s_media_q :: "media_marker list"
  s_media_head :: nat
  s_media_count :: nat
  s_source_active :: bool
  s_first_audio_deadline :: u32
  s_progress_deadline :: u32
  s_got_audio_this_stream :: bool
  s_stat_protocol_errors :: u32
  s_stat_input_resets :: u32
  s_stat_voice_overruns :: u32
  s_stat_voice_errors :: u32
  s_faults :: fault_state
  s_world :: 'w

section \<open>The interfaces of the server\<close>

text \<open>
  The sizes a build chooses, then \<open>rbp_radio_backend_t\<close>, \<open>rbp_store_t\<close>, the transport sink and the
  random source. \<open>voice_request_start\<close> makes no synchronous callback by its contract, and neither
  store, transport nor random source reenter the server, so these act on the world alone. A function
  pointer the code tests for \<open>NULL\<close> is an option.
\<close>

record 'w server_env =
  OUT_RING_SIZE :: nat
  AUDIO_POOL_SIZE :: nat
  CTL_SLOTS :: nat
  MEDIA_DEPTH :: nat
  CTL_BYTES :: nat
  e_start_find :: "u16 \<Rightarrow> 'w rbp_server \<Rightarrow> u16 \<times> 'w rbp_server"
  e_stop_find :: "'w rbp_server \<Rightarrow> 'w rbp_server"
  e_pair_begin :: "u32 \<Rightarrow> 'w rbp_server \<Rightarrow> 'w rbp_server"
  e_pair_reply :: "bool \<Rightarrow> bool \<Rightarrow> u32 \<Rightarrow> 'w rbp_server \<Rightarrow> 'w rbp_server"
  e_pair_cancel :: "'w rbp_server \<Rightarrow> 'w rbp_server"
  e_forget_peer :: "'w rbp_server \<Rightarrow> 'w rbp_server"
  e_connect_peer :: "'w rbp_server \<Rightarrow> 'w rbp_server"
  e_disconnect :: "'w rbp_server \<Rightarrow> 'w rbp_server"
  e_voice_request_stop :: "'w rbp_server \<Rightarrow> 'w rbp_server"
  e_voice_request_start :: "('w \<Rightarrow> u16 \<times> 'w) option"
  e_load :: "('w \<Rightarrow> rbp_peer_record option \<times> 'w) option"
  e_save :: "(rbp_peer_record \<Rightarrow> 'w \<Rightarrow> bool \<times> 'w) option"
  e_clear :: "('w \<Rightarrow> bool \<times> 'w) option"
  e_out :: "u8 list \<Rightarrow> 'w \<Rightarrow> nat \<times> 'w"
  e_rng :: "('w \<Rightarrow> u32 \<times> 'w) option"

section \<open>Helpers\<close>

definition next_order :: "'w rbp_server \<Rightarrow> u32 \<times> 'w rbp_server" where
  "next_order s = (s_order_counter s + 1, s\<lparr>s_order_counter := s_order_counter s + 1\<rparr>)"

definition now_us64 :: "'w rbp_server \<Rightarrow> u64" where
  "now_us64 s = ucast (s_now_ms s) * 1000"

definition rng_u32 :: "'w server_env \<Rightarrow> 'w rbp_server \<Rightarrow> u32 \<times> 'w rbp_server" where
  "rng_u32 E s =
     (let (v, s') = (case e_rng E of None \<Rightarrow> (0, s)
                     | Some rng \<Rightarrow> let (v, w) = rng (s_world s) in (v, s\<lparr>s_world := w\<rparr>))
      in (if v = 0 then 1 else v, s'))"

definition ring_write :: "u8 list \<Rightarrow> nat \<Rightarrow> nat \<Rightarrow> nat \<Rightarrow> u8 list \<Rightarrow> bool \<times> u8 list \<times> nat" where
  "ring_write ring cap head len data =
     (let n = length data in
      if cap - len < n then (False, ring, len)
      else let tail0 = head + len;
               tail = (if cap \<le> tail0 then tail0 - cap else tail0);
               first = (if n < cap - tail then n else cap - tail);
               ring1 = memcpy_at ring tail (take first data);
               ring2 = (if first < n then memcpy_at ring1 0 (drop first data) else ring1)
           in (True, ring2, len + n))"

text \<open>A \<open>char\<close> array read as a C string, and a string literal as the bytes before its terminator.\<close>

definition cstring :: "u8 list \<Rightarrow> u8 list" where
  "cstring arr = takeWhile (\<lambda>b. b \<noteq> 0) arr"

definition cstr :: "string \<Rightarrow> u8 list" where
  "cstr t = map of_char t"

text \<open>\<open>copy_name\<close>: \<open>None\<close> is the null pointer, \<open>Some\<close> the bytes of the source before its terminator.\<close>

definition copy_name :: "u8 list \<Rightarrow> nat \<Rightarrow> u8 list option \<Rightarrow> u8 list" where
  "copy_name dst cap src =
     (case src of None \<Rightarrow> memcpy_at dst 0 [0]
      | Some t \<Rightarrow> memcpy_at dst 0 (take (cap - 1) t @ [0]))"

text \<open>
  A payload written by a sequence of \<open>rbp_tlv_put_*\<close> calls into a fresh writer on the stack, and the
  \<open>w.len\<close> bytes of it that the caller then uses. The buffer's initial bytes are never among them.
\<close>

definition tlv_stack :: rbp_tlv_writer where
  "tlv_stack = \<lparr>tw_buf = replicate RBP_MAX_PAYLOAD 0, tw_len = 0, tw_overflow = False, tw_last_tag = 0\<rparr>"

definition tlv_build :: "(u8 \<times> tlv_value) list \<Rightarrow> u8 list" where
  "tlv_build fs =
     (let w = foldl put_value (rbp_tlv_writer_init tlv_stack) fs in take (tw_len w) (tw_buf w))"

text \<open>\<open>memset(&h, 0, sizeof h)\<close>.\<close>

definition header_zero :: rbp_header where
  "header_zero = \<lparr>h_magic0 = 0, h_magic1 = 0, h_major = 0, h_minor = 0, h_kind = 0, h_flags = 0,
     h_header_size = 0, h_session_id = 0, h_tx_seq = 0, h_request_id = 0, h_opcode = 0,
     h_status = 0, h_payload_size = 0, h_reserved = 0, h_connection_id = 0\<rparr>"

section \<open>The end and the beginning of a session\<close>

definition ctl_clear :: "'w server_env \<Rightarrow> 'w rbp_server \<Rightarrow> 'w rbp_server" where
  "ctl_clear E s = s\<lparr>s_ctl := map (\<lambda>sl. sl\<lparr>cs_used := False\<rparr>) (s_ctl s), s_ctl_used := 0\<rparr>"

definition session_stop_delivery :: "'w rbp_server \<Rightarrow> 'w rbp_server" where
  "session_stop_delivery s =
     s\<lparr>s_delivering := False, s_ending := False, s_stream_id := 0, s_media_head := 0,
       s_media_count := 0, s_audio_head := 0, s_audio_len := 0, s_accepted_len := 0,
       s_accepted_max_unit := 0, s_voice_resume_peer := 0, s_voice_ok_deferred := False,
       s_key_q_head := 0, s_key_q_count := 0, s_events_enabled := False, s_voice_enabled := False,
       s_voice_denied := False, s_waiting_idle := False, s_stop_requested := False\<rparr>"

definition request_pair_cancel :: "'w server_env \<Rightarrow> 'w rbp_server \<Rightarrow> 'w rbp_server" where
  "request_pair_cancel E s =
     (if s_pair_cancel_requested s then s
      else e_pair_cancel E (s\<lparr>s_pair_cancel_requested := True, s_prompt_active := False\<rparr>))"

text \<open>The loop that keeps the remainder of one started frame: the ring is cut after its first zero.\<close>

definition out_cut :: "'w server_env \<Rightarrow> 'w rbp_server \<Rightarrow> 'w rbp_server" where
  "out_cut E s =
     (case find (\<lambda>i. s_out_ring s ! ((s_out_head s + i) mod OUT_RING_SIZE E) = 0) [0..<s_out_len s] of
        None \<Rightarrow> s
      | Some i \<Rightarrow> s\<lparr>s_out_len := i + 1\<rparr>)"

text \<open>
  A teardown first withdraws the session and its operation, then calls the backend for what was
  running when it was entered.
\<close>

definition session_withdraw :: "'w server_env \<Rightarrow> 'w rbp_server \<Rightarrow> 'w rbp_server" where
  "session_withdraw E s =
     (let was_stopping = s_source_active s \<and> s_stop_requested s;
          stop_deadline = s_stop_deadline_ms s;
          s1 = (if s_op_kind s = OPK_PAIR then s\<lparr>s_op_active := False\<rparr> else s);
          s2 = s1\<lparr>s_prompt_active := False, s_find_active := False, s_session_active := False,
                   s_session_id := 0\<rparr>;
          s3 = session_stop_delivery (out_cut E (ctl_clear E s2));
          s4 = (if s_source_active s3
                then s3\<lparr>s_stop_requested := True,
                        s_stop_deadline_ms :=
                          (if was_stopping then stop_deadline else s_now_ms s3 + VOICE_STOP_MS)\<rparr>
                else s3)
      in s4\<lparr>s_ops_done_head := 0, s_ops_done_count := 0\<rparr>)"

definition session_teardown :: "'w server_env \<Rightarrow> 'w rbp_server \<Rightarrow> 'w rbp_server" where
  "session_teardown E s =
     (let cancel_pair = (s_op_active s \<and> s_op_kind s = OPK_PAIR) \<or> s_prompt_active s;
          stop_find = s_find_active s;
          stop_source = (s_source_active s \<or> s_voice_enabled s) \<and> \<not> s_stop_requested s;
          s1 = session_withdraw E s;
          s2 = (if cancel_pair then request_pair_cancel E s1 else s1);
          s3 = (if stop_find then e_stop_find E s2 else s2)
      in if stop_source then e_voice_request_stop E s3 else s3)"

definition session_create :: "'w server_env \<Rightarrow> 'w rbp_server \<Rightarrow> 'w rbp_server" where
  "session_create E s =
     (let s1 = (session_teardown E s)\<lparr>s_session_active := True\<rparr>
      in if s_session_counter s1 = UINT32_MAX then s1\<lparr>s_session_active := False\<rparr>
         else s1\<lparr>s_session_counter := s_session_counter s1 + 1,
                 s_session_id := s_session_counter s1 + 1, s_txseq := rbp_txseq_init,
                 s_req_hwm := 0, s_have_client_seq := False, s_client_tx_hwm := 0,
                 s_last_req_ms := s_now_ms s1\<rparr>)"

section \<open>Output\<close>

definition out_try_frame ::
    "'w server_env \<Rightarrow> rbp_header \<Rightarrow> u8 list \<Rightarrow> 'w rbp_server \<Rightarrow> bool \<times> 'w rbp_server" where
  "out_try_frame E h payload s =
     (let plen = length payload in
      if s_txseq s = 0 \<or> s_txseq s = UINT32_MAX then (False, session_teardown E s)
      else if OUT_RING_SIZE E - s_out_len s < RBP_HEADER_SIZE + plen + 6 then (False, s)
      else let (nxt, tmp) = rbp_frame_encode h (s_txseq s) (Some payload) plen
           in if length tmp = 0 then (False, s)
              else if OUT_RING_SIZE E - s_out_len s < length tmp then (False, s)
              else let (ok, ring, len) =
                     ring_write (s_out_ring s) (OUT_RING_SIZE E) (s_out_head s) (s_out_len s) tmp
                   in (True, s\<lparr>s_out_ring := ring, s_out_len := len, s_txseq := nxt\<rparr>))"

lemma out_try_frame_ok:
  assumes "fst (out_try_frame E h payload s)"
  shows "\<exists>ring len seq. snd (out_try_frame E h payload s) =
           s\<lparr>s_out_ring := ring, s_out_len := len, s_txseq := seq\<rparr>"
  using assms by (auto simp: out_try_frame_def Let_def split: prod.splits if_splits)

lemma out_try_frame_fields:
  assumes "out_try_frame E h payload s = (True, s')"
  shows "s_ctl s' = s_ctl s \<and> s_ctl_payload s' = s_ctl_payload s \<and> s_ctl_used s' = s_ctl_used s
    \<and> s_key_q s' = s_key_q s \<and> s_key_q_head s' = s_key_q_head s \<and> s_key_q_count s' = s_key_q_count s
    \<and> s_media_q s' = s_media_q s \<and> s_media_head s' = s_media_head s
    \<and> s_media_count s' = s_media_count s"
  using out_try_frame_ok [of E h payload s] assms by auto

text \<open>
  One round of the drain loop: what the transport is offered, what it took, and the state after it.
  The loop itself goes on while the transport takes whole chunks.
\<close>

definition out_chunk :: "'w server_env \<Rightarrow> 'w rbp_server \<Rightarrow> nat" where
  "out_chunk E s =
     (let chunk = (if 64 < s_out_len s then 64 else s_out_len s)
      in if OUT_RING_SIZE E - s_out_head s < chunk then OUT_RING_SIZE E - s_out_head s else chunk)"

function out_drain :: "'w server_env \<Rightarrow> 'w rbp_server \<Rightarrow> 'w rbp_server" where
  "out_drain E s =
     (if 0 < s_out_len s then
        let chunk = out_chunk E s;
            sent = fst (e_out E (take chunk (drop (s_out_head s) (s_out_ring s))) (s_world s));
            s0 = s\<lparr>s_world := snd (e_out E (take chunk (drop (s_out_head s) (s_out_ring s))) (s_world s))\<rparr>
        in if sent = 0 then s0
           else let s1 = s0\<lparr>s_out_head := (s_out_head s + sent) mod OUT_RING_SIZE E,
                            s_out_len := s_out_len s - sent\<rparr>
                in if sent < chunk then s1 else out_drain E s1
      else s)"
  by pat_completeness auto
termination
  by (relation "measure (\<lambda>(E, s). s_out_len s)") auto

declare out_drain.simps [simp del]

section \<open>The control queue\<close>

text \<open>
  The loops over \<open>CTL_SLOTS\<close> slots run over the list \<open>s_ctl\<close>. The slot scan of \<open>ctl_peek_order\<close>: the first slot with the least order among the used ones.\<close>

definition ctl_best :: "ctl_slot list \<Rightarrow> ctl_slot option" where
  "ctl_best slots =
     foldl (\<lambda>best sl. if cs_used sl \<and> (case best of None \<Rightarrow> True | Some b \<Rightarrow> cs_order sl < cs_order b)
                      then Some sl else best) None slots"

definition ctl_peek_order :: "'w rbp_server \<Rightarrow> u32 option" where
  "ctl_peek_order s = map_option cs_order (ctl_best (s_ctl s))"

text \<open>The header of a queued message, and the removal of its bytes once it is framed.\<close>

definition ctl_header :: "ctl_slot \<Rightarrow> rbp_header" where
  "ctl_header sl = header_zero\<lparr>h_kind := cs_kind sl, h_session_id := cs_session sl,
     h_opcode := cs_opcode sl, h_status := cs_status sl, h_request_id := cs_request_id sl,
     h_connection_id := cs_connection_id sl\<rparr>"

definition ctl_shift :: "nat \<Rightarrow> nat \<Rightarrow> ctl_slot \<Rightarrow> ctl_slot" where
  "ctl_shift off len x =
     (if cs_used x \<and> off + len \<le> cs_offset x then x\<lparr>cs_offset := cs_offset x - len\<rparr> else x)"

definition ctl_remove :: "nat \<Rightarrow> 'w rbp_server \<Rightarrow> 'w rbp_server" where
  "ctl_remove i s =
     (let sl = s_ctl s ! i;
          tl_bytes = take (s_ctl_used s - cs_offset sl - cs_len sl)
                       (drop (cs_offset sl + cs_len sl) (s_ctl_payload s))
      in s\<lparr>s_ctl := map (ctl_shift (cs_offset sl) (cs_len sl))
                      ((s_ctl s)[i := sl\<lparr>cs_used := False\<rparr>]),
           s_ctl_payload := memcpy_at (s_ctl_payload s) (cs_offset sl) tl_bytes,
           s_ctl_used := s_ctl_used s - cs_len sl\<rparr>)"

definition ctl_pop :: "'w server_env \<Rightarrow> 'w rbp_server \<Rightarrow> bool \<times> 'w rbp_server" where
  "ctl_pop E s =
     (case ctl_peek_order s of
        None \<Rightarrow> (False, s)
      | Some order \<Rightarrow>
          (case find (\<lambda>i. cs_used (s_ctl s ! i) \<and> cs_order (s_ctl s ! i) = order) [0..<length (s_ctl s)] of
             None \<Rightarrow> (False, s)
           | Some i \<Rightarrow>
               (let sl = s_ctl s ! i;
                    (ok, s1) = out_try_frame E (ctl_header sl)
                                 (take (cs_len sl) (drop (cs_offset sl) (s_ctl_payload s))) s
                in if \<not> ok then (False, s1) else (True, ctl_remove i s1))))"

definition ctl_slot_zero :: ctl_slot where
  "ctl_slot_zero = \<lparr>cs_used = False, cs_kind = 0, cs_status = 0, cs_opcode = 0, cs_request_id = 0,
     cs_connection_id = 0, cs_session = 0, cs_len = 0, cs_offset = 0, cs_order = 0\<rparr>"

definition ctl_enqueue ::
    "'w server_env \<Rightarrow> u8 \<Rightarrow> u16 \<Rightarrow> u16 \<Rightarrow> u32 \<Rightarrow> u32 \<Rightarrow> u8 list \<Rightarrow> 'w rbp_server \<Rightarrow> 'w rbp_server" where
  "ctl_enqueue E kind opcode status request_id connection_id payload s =
     (case find (\<lambda>i. \<not> cs_used (s_ctl s ! i)) [0..<length (s_ctl s)] of
        None \<Rightarrow> session_teardown E (s\<lparr>s_stat_protocol_errors := s_stat_protocol_errors s + 1\<rparr>)
      | Some i \<Rightarrow>
          if RBP_MAX_PAYLOAD < length payload \<or> CTL_BYTES E - s_ctl_used s < length payload
          then session_teardown E (s\<lparr>s_stat_protocol_errors := s_stat_protocol_errors s + 1\<rparr>)
          else let (order, s1) = next_order s
               in s1\<lparr>s_ctl := (s_ctl s1)[i := ctl_slot_zero\<lparr>cs_used := True, cs_kind := kind,
                        cs_opcode := opcode, cs_status := status, cs_request_id := request_id,
                        cs_connection_id := connection_id, cs_session := s_session_id s1,
                        cs_len := length payload, cs_offset := s_ctl_used s1, cs_order := order\<rparr>],
                     s_ctl_payload := memcpy_at (s_ctl_payload s1) (s_ctl_used s1) payload,
                     s_ctl_used := s_ctl_used s1 + length payload\<rparr>)"

section \<open>Device state and operation results\<close>

definition device_info_tlv :: "'w rbp_server \<Rightarrow> (u8 \<times> tlv_value) list" where
  "device_info_tlv s =
     (let p = (if s_link_state s = RBP_LINK_READY then s_profile s else None)
      in [(1, TV_u32 (s_connection_id s)),
          (2, TV_u32 (if s_peer_valid s then pr_peer_id (s_peer s) else 0)),
          (3, TV_u8 (link_code (s_link_state s))),
          (4, TV_text (case p of None \<Rightarrow> [] | Some p \<Rightarrow> cstr (model_id p))),
          (5, TV_text (case p of
                None \<Rightarrow> if s_peer_valid s then cstring (pr_name (s_peer s)) else []
              | Some p \<Rightarrow> cstr (display_name p))),
          (6, TV_u32 (case p of None \<Rightarrow> 0 | Some p \<Rightarrow> catalog_revision p)),
          (7, TV_u8 (case p of None \<Rightarrow> 0 | Some p \<Rightarrow> word_of_nat (key_count p))),
          (8, TV_u8 (s_voice_state s)),
          (9, TV_u32 (if s_voice_state s = RBP_VOICE_READY then s_voice_sample_rate s else 0)),
          (10, TV_u8 (s_battery s)), (11, TV_u8 (s_charging s)),
          (12, TV_bool (s_voice_enabled s)), (13, TV_bool (s_delivering s)),
          (14, TV_u32 (if s_delivering s then s_stream_id s else 0)),
          (15, TV_bool (s_waiting_idle s)),
          (16, TV_u16 (if s_link_state s = RBP_LINK_ERROR \<or> s_voice_state s = RBP_VOICE_FAILED
                       then RBP_STATUS_DEVICE_ERROR
                       else if s_voice_state s = RBP_VOICE_UNSUPPORTED then RBP_STATUS_VOICE_UNAVAILABLE
                       else RBP_STATUS_OK))]
         @ (if s_link_msg s ! 0 \<noteq> 0 then [(17, TV_text (cstring (s_link_msg s)))] else [])
         @ [(18, TV_u8 (s_voice_interaction s)),
            (19, TV_u32 (if s_voice_state s \<noteq> RBP_VOICE_ABSENT then s_max_capture_ms s else 0))])"

definition send_device_state :: "'w server_env \<Rightarrow> u32 \<Rightarrow> 'w rbp_server \<Rightarrow> 'w rbp_server" where
  "send_device_state E conn_ctx s =
     ctl_enqueue E RBP_KIND_EVENT RBP_OP_DEVICE_STATE_EV 0 0 conn_ctx (tlv_build (device_info_tlv s)) s"

definition op_complete ::
    "'w server_env \<Rightarrow> u32 \<Rightarrow> u16 \<Rightarrow> u32 \<Rightarrow> u32 \<Rightarrow> bool \<Rightarrow> 'w rbp_server \<Rightarrow> 'w rbp_server" where
  "op_complete E op_id result peer_id connection_id uncertain s =
     (let idx = (s_ops_done_head s + s_ops_done_count s) mod RBP_MAX_OPERATION_RESULTS;
          s1 = (if s_ops_done_count s < RBP_MAX_OPERATION_RESULTS
                then s\<lparr>s_ops_done_count := s_ops_done_count s + 1\<rparr>
                else s\<lparr>s_ops_done_head := (s_ops_done_head s + 1) mod RBP_MAX_OPERATION_RESULTS\<rparr>);
          s2 = s1\<lparr>s_ops_done := (s_ops_done s1)[idx :=
                 \<lparr>od_used = True, od_op_id = op_id, od_result = result, od_peer_id = peer_id,
                  od_connection_id = connection_id, od_uncertain = uncertain\<rparr>]\<rparr>
      in ctl_enqueue E RBP_KIND_EVENT RBP_OP_OPERATION_EV 0 0 connection_id
           (tlv_build [(1, TV_u32 op_id), (2, TV_u8 RBP_OPSTATE_COMPLETED), (3, TV_u16 result),
                       (4, TV_u32 peer_id), (5, TV_u32 connection_id), (6, TV_bool uncertain)]) s2)"

section \<open>Key states\<close>

definition keys_struct :: "u32 \<Rightarrow> u64 \<Rightarrow> u64 \<Rightarrow> u8 \<Rightarrow> u8 \<Rightarrow> u8 list" where
  "keys_struct input_seq captured_us bits kind reason =
     le_bytes 4 input_seq @ le_bytes 8 captured_us @ le_bytes 8 bits @ [kind, reason, 0, 0]"

definition key_push ::
    "u8 \<Rightarrow> u8 \<Rightarrow> u64 \<Rightarrow> u64 \<Rightarrow> 'w rbp_server \<Rightarrow> bool \<times> 'w rbp_server" where
  "key_push kind reason bits captured_us s =
     (if RBP_KEY_QUEUE_DEPTH \<le> s_key_q_count s then (False, s)
      else let idx = (s_key_q_head s + s_key_q_count s) mod RBP_KEY_QUEUE_DEPTH;
               (order, s1) = next_order s
           in (True, s1\<lparr>s_key_q := (s_key_q s1)[idx :=
                  \<lparr>ki_used = True, ki_buf = keys_struct (s_input_seq s1) captured_us bits kind reason,
                   ki_order = order, ki_connection = s_connection_id s1\<rparr>],
                s_key_q_count := s_key_q_count s1 + 1\<rparr>))"

definition keys_emit ::
    "u8 \<Rightarrow> u8 \<Rightarrow> u64 \<Rightarrow> u64 \<Rightarrow> 'w rbp_server \<Rightarrow> 'w rbp_server" where
  "keys_emit kind reason bits captured_us s =
     (if \<not> s_events_enabled s then s
      else let (ok, s1) = key_push kind reason bits captured_us s
           in if ok then s1
              else let s2 = s1\<lparr>s_key_q_head := 0, s_key_q_count := 0,
                               s_stat_input_resets := s_stat_input_resets s1 + 1,
                               s_input_seq := s_input_seq s1 + 1\<rparr>;
                       s3 = snd (key_push RBP_KEYS_KIND_RESET RBP_KEYS_REASON_OVERFLOW 0 captured_us s2);
                       s4 = s3\<lparr>s_input_seq := s_input_seq s3 + 1\<rparr>
                   in snd (key_push RBP_KEYS_KIND_SNAPSHOT RBP_KEYS_REASON_NONE (s_pressed_bits s4)
                             captured_us s4))"

definition rbp_server_on_keys :: "rbp_keys_report \<Rightarrow> 'w rbp_server \<Rightarrow> 'w rbp_server" where
  "rbp_server_on_keys rep s =
     (if kr_kind rep = RBP_KEYS_KIND_PHYSICAL then
        keys_emit RBP_KEYS_KIND_PHYSICAL (kr_reason rep) (kr_pressed_bits rep) (kr_captured_us rep)
          (s\<lparr>s_pressed_bits := kr_pressed_bits rep, s_input_seq := s_input_seq s + 1,
             s_keys_captured_us := kr_captured_us rep\<rparr>)
      else if kr_kind rep = RBP_KEYS_KIND_RESET then
        let s1 = keys_emit RBP_KEYS_KIND_RESET (kr_reason rep) 0 (kr_captured_us rep)
                   (s\<lparr>s_input_seq := s_input_seq s + 1, s_keys_captured_us := kr_captured_us rep\<rparr>)
        in if kr_pressed_bits rep \<noteq> 0 then
             keys_emit RBP_KEYS_KIND_SNAPSHOT RBP_KEYS_REASON_NONE (kr_pressed_bits rep)
               (kr_captured_us rep)
               (s1\<lparr>s_pressed_bits := kr_pressed_bits rep, s_input_seq := s_input_seq s1 + 1\<rparr>)
           else s1\<lparr>s_pressed_bits := 0\<rparr>
      else if kr_kind rep = RBP_KEYS_KIND_SNAPSHOT then
        keys_emit RBP_KEYS_KIND_SNAPSHOT RBP_KEYS_REASON_NONE (kr_pressed_bits rep) (kr_captured_us rep)
          (s\<lparr>s_pressed_bits := kr_pressed_bits rep, s_keys_captured_us := kr_captured_us rep\<rparr>)
      else s)"

definition keys_flush_one :: "'w server_env \<Rightarrow> 'w rbp_server \<Rightarrow> bool \<times> 'w rbp_server" where
  "keys_flush_one E s =
     (if s_key_q_count s = 0 then (False, s)
      else let it = s_key_q s ! s_key_q_head s;
               h = header_zero\<lparr>h_kind := RBP_KIND_EVENT, h_session_id := s_session_id s,
                     h_opcode := RBP_OP_KEYS_STATE_EV, h_connection_id := ki_connection it\<rparr>;
               (ok, s1) = out_try_frame E h (ki_buf it) s
           in if \<not> ok then (False, s1)
              else (True, s1\<lparr>s_key_q := (s_key_q s1)[s_key_q_head s1 := it\<lparr>ki_used := False\<rparr>],
                             s_key_q_head := (s_key_q_head s1 + 1) mod RBP_KEY_QUEUE_DEPTH,
                             s_key_q_count := s_key_q_count s1 - 1\<rparr>))"

end
