(* ===== verification/Server_Voice.thy ===== *)
theory Server_Voice
  imports Server_State
begin

text \<open>
  Voice delivery and the output scheduler of the server (\<open>rbp_server.c\<close>): the media queue with its
  audio pool, the frames built from encoded audio, and \<open>rbp_server_flush_output\<close>, which merges the
  control, key and media queues by their order stamps.
\<close>

section \<open>Bytes and samples\<close>

definition audio_u32 :: "u8 list \<Rightarrow> u32" where
  "audio_u32 p = ucast (p ! 0) OR push_bit 8 (ucast (p ! 1)) OR push_bit 16 (ucast (p ! 2))
     OR push_bit 24 (ucast (p ! 3))"

fun audio_put :: "u64 \<Rightarrow> nat \<Rightarrow> u8 list" where
  "audio_put n 0 = []"
| "audio_put n (Suc len) = ucast n # audio_put (drop_bit 8 n) len"

definition sample_add :: "u64 \<Rightarrow> u32 \<Rightarrow> u64" where
  "sample_add a b =
     (if a = UINT64_MAX \<or> b = UINT32_MAX \<or> UINT64_MAX - a \<le> ucast b then UINT64_MAX
      else a + ucast b)"

definition audio_read :: "'w server_env \<Rightarrow> 'w rbp_server \<Rightarrow> nat \<Rightarrow> nat \<Rightarrow> u8 list" where
  "audio_read E s offset len =
     (let pos = (s_audio_head s + offset) mod AUDIO_POOL_SIZE E;
          first = (if len < AUDIO_POOL_SIZE E - pos then len else AUDIO_POOL_SIZE E - pos)
      in take first (drop pos (s_audio_pool s))
         @ (if first < len then take (len - first) (s_audio_pool s) else []))"

definition rbp_server_set_voice_caps :: "rbp_audio_caps option \<Rightarrow> 'w rbp_server \<Rightarrow> 'w rbp_server" where
  "rbp_server_set_voice_caps caps s = s\<lparr>s_voice_caps := caps\<rparr>"

section \<open>Codec negotiation\<close>

text \<open>The codec at byte \<open>i\<close> of the accepted list, and the positions \<open>0, 6, ...\<close> below \<open>accepted_len\<close>.\<close>

definition codec_at :: "u8 list \<Rightarrow> nat \<Rightarrow> u32 \<times> u16" where
  "codec_at bs i = (audio_u32 (drop i bs), ucast (bs ! (i + 4)) OR push_bit 8 (ucast (bs ! (i + 5))))"

definition codec_steps :: "nat \<Rightarrow> nat list" where
  "codec_steps len = map (\<lambda>k. 6 * k) [0..<(len + 5) div 6]"

text \<open>The format is never the null pointer: both callers pass the address of an event's member.\<close>

definition codec_accepted :: "rbp_audio_format \<Rightarrow> 'w rbp_server \<Rightarrow> bool" where
  "codec_accepted f s =
     (if af_codec_id f = 0 \<or> 0x80000000 \<le> af_codec_id f \<or> af_codec_revision f = 0
         \<or> af_sample_rate f = 0 \<or> 384000 < af_sample_rate f \<or> af_channels f = 0 \<or> 8 < af_channels f
         \<or> RBP_AUDIO_CONFIG_MAX < af_config_len f \<or> (af_config_len f \<noteq> 0 \<and> af_config f = None)
         \<or> af_max_unit_bytes f = 0 \<or> s_accepted_max_unit s < af_max_unit_bytes f
      then False
      else case s_voice_caps s of
        None \<Rightarrow> False
      | Some caps \<Rightarrow>
          if ac_max_unit_bytes caps < af_max_unit_bytes f then False
          else if \<not> list_ex (\<lambda>c. co_id c = af_codec_id f \<and> co_revision c = af_codec_revision f)
                      (ac_codecs caps) then False
          else list_ex (\<lambda>i. codec_at (s_accepted_codecs s) i = (af_codec_id f, af_codec_revision f))
                 (codec_steps (s_accepted_len s)))"

section \<open>Sending queued media\<close>

text \<open>What the client has been sent of the current stream, once the frame of a marker is out.\<close>

definition media_delivered :: "media_marker \<Rightarrow> u8 list \<Rightarrow> 'w rbp_server \<Rightarrow> 'w rbp_server" where
  "media_delivered m payload s =
     (if mm_stream m \<noteq> s_stream_id s then s
      else if mm_opcode m = RBP_OP_VOICE_DATA then
        let s1 = s\<lparr>s_delivered_bytes := s_delivered_bytes s
                     + word_of_nat (mm_len m - RBP_AUDIO_DATA_HEADER)\<rparr>
        in if audio_u32 (drop 20 payload) + word_of_nat (mm_len m) - 40 = audio_u32 (drop 16 payload)
           then s1\<lparr>s_delivered_units := s_delivered_units s1 + 1,
                   s_delivered_samples :=
                     sample_add (s_delivered_samples s1) (audio_u32 (drop 32 payload))\<rparr>
           else s1
      else if mm_opcode m = RBP_OP_VOICE_STARTED_EV \<or> mm_opcode m = RBP_OP_VOICE_FORMAT_EV then
        s\<lparr>s_delivered_epoch := audio_u32 (drop 12 payload)\<rparr>
      else if mm_opcode m = RBP_OP_VOICE_ENDED_EV then
        s\<lparr>s_delivering := False, s_ending := False, s_stream_id := 0\<rparr>
      else s)"

definition media_flush_one :: "'w server_env \<Rightarrow> 'w rbp_server \<Rightarrow> bool \<times> 'w rbp_server" where
  "media_flush_one E s =
     (if \<not> s_session_active s \<or> s_media_count s = 0 then (False, s)
      else let m = s_media_q s ! s_media_head s
           in if OUT_RING_SIZE E - s_out_len s < RBP_HEADER_SIZE + mm_len m + 6 then (False, s)
              else let payload = audio_read E s 0 (mm_len m);
                       h = header_zero\<lparr>h_kind := (if mm_opcode m = RBP_OP_VOICE_DATA
                                                  then RBP_KIND_AUDIO else RBP_KIND_EVENT),
                             h_opcode := mm_opcode m, h_session_id := s_session_id s,
                             h_connection_id := mm_connection m\<rparr>;
                       (ok, s1) = out_try_frame E h payload s
                   in if \<not> ok then (False, s1)
                      else let s2 = media_delivered m payload s1
                           in (True, s2\<lparr>s_audio_head := (s_audio_head s2 + mm_len m) mod AUDIO_POOL_SIZE E,
                                        s_audio_len := s_audio_len s2 - mm_len m,
                                        s_media_head := (s_media_head s2 + 1) mod MEDIA_DEPTH E,
                                        s_media_count := s_media_count s2 - 1\<rparr>))"

section \<open>The output scheduler\<close>

text \<open>
  The choice at the top of the loop of \<open>rbp_server_flush_output\<close>: the head with the least order stamp,
  where a control message gives way to a key or a media frame after a burst of four.
\<close>

datatype flush_source = F_ctl | F_key | F_media

definition flush_pick :: "nat \<Rightarrow> 'w rbp_server \<Rightarrow> flush_source option" where
  "flush_pick ctl_sent s =
     (let has_ctl = ctl_peek_order s \<noteq> None;
          has_key = 0 < s_key_q_count s;
          has_media = 0 < s_media_count s;
          ctl_o = (case ctl_peek_order s of None \<Rightarrow> 0 | Some order \<Rightarrow> order);
          key_o = (if has_key then ki_order (s_key_q s ! s_key_q_head s) else 0);
          media_o = (if has_media then mm_order (s_media_q s ! s_media_head s) else 0)
      in if \<not> has_ctl \<and> \<not> has_key \<and> \<not> has_media then None
         else
           let (min_o, src) = (if has_ctl then (ctl_o, F_ctl) else (0, F_media));
               (min_o, src) = (if has_key \<and> (min_o = 0 \<or> key_o < min_o) then (key_o, F_key)
                               else (min_o, src));
               (min_o, src) = (if has_media \<and> (min_o = 0 \<or> media_o < min_o) then (media_o, F_media)
                               else (min_o, src))
           in if src = F_ctl \<and> CTL_FLUSH_BURST \<le> ctl_sent \<and> (has_key \<or> has_media) then
                if has_key \<and> (\<not> has_media \<or> key_o \<le> media_o) then Some F_key else Some F_media
              else Some src)"

text \<open>Queued items: every round that goes on has sent one.\<close>

definition queued :: "'w rbp_server \<Rightarrow> nat" where
  "queued s = length (filter cs_used (s_ctl s)) + s_key_q_count s + s_media_count s"

lemma filter_used_less:
  assumes "i < length xs" and "P (xs ! i)" and "\<not> P y"
  shows "length (filter P (xs[i := y])) < length (filter P xs)"
proof -
  have "filter P xs = filter P (take i xs) @ xs ! i # filter P (drop (Suc i) xs)"
    using assms by (subst id_take_nth_drop [OF assms(1)]) simp
  then show ?thesis
    using assms by (simp add: upd_conv_take_nth_drop)
qed

lemma ctl_shift_used [simp]: "cs_used (ctl_shift off len x) = cs_used x" "cs_used \<circ> ctl_shift off len = cs_used"
  by (simp_all add: ctl_shift_def fun_eq_iff)

lemma ctl_pop_queued: "ctl_pop E s = (True, s') \<Longrightarrow> queued s' < queued s"
  unfolding ctl_pop_def
  by (auto simp: queued_def ctl_remove_def Let_def find_Some_iff
      intro!: filter_used_less dest!: out_try_frame_fields split: option.splits prod.splits if_splits)

lemma keys_flush_queued: "keys_flush_one E s = (True, s') \<Longrightarrow> queued s' < queued s"
  by (auto simp: keys_flush_one_def queued_def Let_def dest!: out_try_frame_fields
      split: prod.splits if_splits)

lemma media_delivered_queues [simp]:
  "s_ctl (media_delivered m p s) = s_ctl s"
  "s_key_q_count (media_delivered m p s) = s_key_q_count s"
  "s_media_count (media_delivered m p s) = s_media_count s"
  by (simp_all add: media_delivered_def Let_def)

lemma media_flush_queued: "media_flush_one E s = (True, s') \<Longrightarrow> queued s' < queued s"
  by (auto simp: media_flush_one_def queued_def Let_def dest!: out_try_frame_fields
      split: prod.splits if_splits)

function flush_loop :: "'w server_env \<Rightarrow> nat \<Rightarrow> 'w rbp_server \<Rightarrow> 'w rbp_server" where
  "flush_loop E ctl_sent s =
     (case flush_pick ctl_sent s of
        None \<Rightarrow> s
      | Some F_ctl \<Rightarrow> (case ctl_pop E s of (ok, s') \<Rightarrow> if ok then flush_loop E (ctl_sent + 1) s' else s')
      | Some F_key \<Rightarrow> (case keys_flush_one E s of (ok, s') \<Rightarrow> if ok then flush_loop E ctl_sent s' else s')
      | Some F_media \<Rightarrow> (case media_flush_one E s of (ok, s') \<Rightarrow> if ok then flush_loop E ctl_sent s' else s'))"
  by pat_completeness auto
termination
  by (relation "measure (\<lambda>(E, n, s). queued s)")
    (auto dest!: sym [of "(_, _)"] intro: ctl_pop_queued keys_flush_queued media_flush_queued)

declare flush_loop.simps [simp del]

definition rbp_server_flush_output :: "'w server_env \<Rightarrow> 'w rbp_server \<Rightarrow> 'w rbp_server" where
  "rbp_server_flush_output E s = out_drain E (flush_loop E 0 (out_drain E s))"

section \<open>Queueing media\<close>

definition media_enqueue ::
    "'w server_env \<Rightarrow> u16 \<Rightarrow> u8 list \<Rightarrow> 'w rbp_server \<Rightarrow> bool \<times> 'w rbp_server" where
  "media_enqueue E op p s =
     (let len = length p;
          full = (\<lambda>s. MEDIA_DEPTH E \<le> s_media_count s \<or> AUDIO_POOL_SIZE E - s_audio_len s < len);
          s1 = (if full s then rbp_server_flush_output E s else s)
      in if \<not> s_session_active s1 \<or> full s1 then (False, s1)
         else let idx = (s_media_head s1 + s_media_count s1) mod MEDIA_DEPTH E;
                  (order, s2) = next_order s1;
                  (ok, pool, alen) =
                    ring_write (s_audio_pool s2) (AUDIO_POOL_SIZE E) (s_audio_head s2) (s_audio_len s2) p
              in (True, s2\<lparr>s_media_q := (s_media_q s2)[idx :=
                     \<lparr>mm_stream = s_stream_id s2, mm_connection = s_stream_connection s2,
                      mm_order = order, mm_opcode = op, mm_len = len\<rparr>],
                    s_audio_pool := pool, s_audio_len := alen,
                    s_media_count := s_media_count s2 + 1\<rparr>))"

text \<open>
  \<open>media_discard_current\<close>: one round of its loop on the state and the cursors \<open>read\<close>, \<open>write\<close> and
  \<open>kept\<close>. The pool is compacted in place.
\<close>

definition discard_round ::
    "'w server_env \<Rightarrow> nat \<Rightarrow> 'w rbp_server \<times> nat \<times> nat \<times> nat \<Rightarrow> 'w rbp_server \<times> nat \<times> nat \<times> nat" where
  "discard_round E i st =
     (case st of (s, rd, wr, kept) \<Rightarrow>
        let m = s_media_q s ! ((s_media_head s + i) mod MEDIA_DEPTH E);
            payload = audio_read E s rd (mm_len m);
            rd' = rd + mm_len m
        in if mm_stream m = s_stream_id s \<and> mm_opcode m \<noteq> RBP_OP_VOICE_STARTED_EV
           then (s, rd', wr, kept)
           else let (ok, pool, wr') =
                  ring_write (s_audio_pool s) (AUDIO_POOL_SIZE E) (s_audio_head s) wr payload
                in (s\<lparr>s_audio_pool := pool,
                      s_media_q := (s_media_q s)[(s_media_head s + kept) mod MEDIA_DEPTH E := m]\<rparr>,
                    rd', wr', kept + 1))"

definition media_discard_current :: "'w server_env \<Rightarrow> 'w rbp_server \<Rightarrow> 'w rbp_server" where
  "media_discard_current E s =
     (case fold (discard_round E) [0..<s_media_count s] (s, 0, 0, 0) of
        (s', rd, wr, kept) \<Rightarrow> s'\<lparr>s_media_count := kept, s_audio_len := wr\<rparr>)"

definition voice_finish_stream ::
    "'w server_env \<Rightarrow> u8 \<Rightarrow> bool \<Rightarrow> 'w rbp_server \<Rightarrow> 'w rbp_server" where
  "voice_finish_stream E reason0 clear0 s =
     (if \<not> s_delivering s then s
      else let cut = \<not> clear0 \<and> s_unit_offset s \<noteq> 0;
               reason = (if cut then RBP_END_INVALID_ENCODED_DATA else reason0);
               clear_pending = (if cut then True else clear0)
           in if s_ending s \<and> \<not> clear_pending then s
              else let s1 = (if clear_pending then media_discard_current E s else s);
                       w = tlv_build
                         [(1, TV_u32 (s_stream_id s1)), (2, TV_u8 reason),
                          (3, TV_u64 (if clear_pending then s_delivered_bytes s1 else s_source_bytes s1)),
                          (4, TV_u64 (now_us64 s1)),
                          (5, TV_u32 (if clear_pending then s_delivered_units s1 else s_source_units s1)),
                          (6, TV_u64 (if clear_pending then s_delivered_samples s1 else s_source_samples s1)),
                          (7, TV_u32 (if clear_pending then s_delivered_epoch s1 else s_epoch s1))];
                       (ok, s2) = media_enqueue E RBP_OP_VOICE_ENDED_EV w s1
                   in if \<not> ok then session_teardown E s2
                      else let s3 = s2\<lparr>s_ending := True\<rparr>
                           in if clear_pending
                              then s3\<lparr>s_delivering := False, s_ending := False, s_stream_id := 0\<rparr>
                              else s3)"

definition voice_fault :: "'w server_env \<Rightarrow> u8 \<Rightarrow> 'w rbp_server \<Rightarrow> 'w rbp_server" where
  "voice_fault E reason s =
     (let had_stream = s_delivering s;
          s1 = s\<lparr>s_stat_voice_errors := s_stat_voice_errors s + 1\<rparr>;
          s2 = (if reason = RBP_END_BUFFER_OVERRUN
                then s1\<lparr>s_stat_voice_overruns := s_stat_voice_overruns s1 + 1\<rparr> else s1);
          s3 = voice_finish_stream E reason True s2;
          s4 = (if s_source_active s3 \<and> \<not> s_stop_requested s3
                then e_voice_request_stop E
                       (s3\<lparr>s_stop_requested := True, s_stop_deadline_ms := s_now_ms s3 + VOICE_STOP_MS\<rparr>)
                else s3)
      in if reason = RBP_END_UNSUPPORTED_FORMAT \<or> \<not> had_stream then
           let s5 = s4\<lparr>s_voice_resume_peer := 0, s_voice_enabled := False,
                       s_voice_state := (if reason = RBP_END_UNSUPPORTED_FORMAT
                                         then RBP_VOICE_UNSUPPORTED else RBP_VOICE_FAILED)\<rparr>
           in send_device_state E (s_connection_id s5) s5
         else s4)"

definition queue_format ::
    "'w server_env \<Rightarrow> rbp_audio_format \<Rightarrow> bool \<Rightarrow> 'w rbp_server \<Rightarrow> bool \<times> 'w rbp_server" where
  "queue_format E f start s =
     (if \<not> codec_accepted f s then (False, voice_fault E RBP_END_UNSUPPORTED_FORMAT s)
      else if s_unit_offset s \<noteq> 0 \<or> s_epoch s = UINT32_MAX
      then (False, voice_fault E RBP_END_SOURCE_DATA_LOST s)
      else let ep = (if start then 1 else s_epoch s + 1);
               w = tlv_build
                 [(1, TV_u32 (s_stream_id s)), (2, TV_u32 ep), (3, TV_u32 (af_codec_id f)),
                  (4, TV_u16 (af_codec_revision f)), (5, TV_u32 (af_sample_rate f)),
                  (6, TV_u8 (af_channels f)),
                  (7, TV_bytes (case af_config f of None \<Rightarrow> [] | Some c \<Rightarrow> take (unat (af_config_len f)) c)),
                  (8, TV_u32 (af_max_unit_bytes f)), (9, TV_u64 (s_source_samples s)),
                  (10, TV_u64 (if start then ucast (s_source_started_ms s) * 1000 else now_us64 s)),
                  (11, TV_u32 (s_source_units s + 1))];
               (ok, s1) = media_enqueue E
                 (if start then RBP_OP_VOICE_STARTED_EV else RBP_OP_VOICE_FORMAT_EV) w s
           in if \<not> ok then (False, s1)
              else (True, s1\<lparr>s_epoch := ep, s_format_max_unit := af_max_unit_bytes f\<rparr>))"

section \<open>Voice events of the adapter\<close>

text \<open>
  \<open>rbp_voice_evt_t\<close>. The data pointer of an encoded fragment may be null; a non-null one points to
  \<open>len\<close> bytes.
\<close>

datatype rbp_voice_evt =
    RBP_VOICE_EVT_SOURCE_BEGIN
  | RBP_VOICE_EVT_START rbp_audio_format
  | RBP_VOICE_EVT_ENCODED "u8 list option" nat u32 u32 u32
  | RBP_VOICE_EVT_FORMAT rbp_audio_format
  | RBP_VOICE_EVT_FAULT u8
  | RBP_VOICE_EVT_END u8

definition voice_payload :: "u32 \<Rightarrow> u32 \<Rightarrow> u8 list \<Rightarrow> 'w rbp_server \<Rightarrow> u8 list" where
  "voice_payload unit_len samples frag s =
     audio_put (ucast (s_stream_id s)) 4 @ audio_put (ucast (s_frame_seq s + 1)) 4
     @ audio_put (ucast (s_epoch s)) 4 @ audio_put (ucast (s_source_units s + 1)) 4
     @ audio_put (ucast unit_len) 4 @ audio_put (ucast (s_unit_offset s)) 4
     @ audio_put (s_source_samples s) 8 @ audio_put (ucast samples) 4 @ audio_put 0 4 @ frag"

text \<open>The bookkeeping after a fragment is queued: a finished unit advances the stream.\<close>

definition voice_advance :: "u32 \<Rightarrow> u32 \<Rightarrow> nat \<Rightarrow> 'w rbp_server \<Rightarrow> 'w rbp_server" where
  "voice_advance unit_len samples n s =
     (let s1 = s\<lparr>s_frame_seq := s_frame_seq s + 1, s_source_bytes := s_source_bytes s + word_of_nat n,
                 s_unit_offset := s_unit_offset s + word_of_nat n\<rparr>
      in if s_unit_offset s1 = unit_len
         then s1\<lparr>s_unit_offset := 0, s_source_units := s_source_units s1 + 1,
                 s_source_samples := sample_add (s_source_samples s1) samples\<rparr>
         else s1)"

function encoded_loop ::
    "'w server_env \<Rightarrow> u32 \<Rightarrow> u32 \<Rightarrow> u8 list \<Rightarrow> 'w rbp_server \<Rightarrow> 'w rbp_server" where
  "encoded_loop E unit_len samples bytes s =
     (if bytes = [] \<or> \<not> s_delivering s then s
      else if s_frame_seq s = UINT32_MAX then voice_fault E RBP_END_INVALID_ENCODED_DATA s
      else let frag = take 256 bytes;
               (ok, s1) = media_enqueue E RBP_OP_VOICE_DATA (voice_payload unit_len samples frag s) s
           in if \<not> ok then voice_fault E RBP_END_BUFFER_OVERRUN s1
              else encoded_loop E unit_len samples (drop 256 bytes)
                     (voice_advance unit_len samples (length frag) s1))"
  by pat_completeness auto
termination
  by (relation "measure (\<lambda>(E, n, k, bytes, s). length bytes)") auto

declare encoded_loop.simps [simp del]

definition voice_source_begin :: "u32 \<Rightarrow> 'w rbp_server \<Rightarrow> 'w rbp_server" where
  "voice_source_begin now s =
     s\<lparr>s_source_active := True, s_source_started_ms := now, s_got_audio_this_stream := False,
       s_first_audio_deadline := now + VOICE_FIRST_AUDIO_MS,
       s_progress_deadline := now + VOICE_PROGRESS_MS,
       s_capture_deadline_ms := now + s_max_capture_ms s, s_stop_requested := False,
       s_capture_limited := False\<rparr>"

definition voice_start :: "'w server_env \<Rightarrow> rbp_audio_format \<Rightarrow> u32 \<Rightarrow> 'w rbp_server \<Rightarrow> 'w rbp_server" where
  "voice_start E f now s0 =
     (let s = s0\<lparr>s_voice_sample_rate := af_sample_rate f\<rparr> in
      if \<not> s_source_active s then voice_fault E RBP_END_INVALID_ENCODED_DATA s
      else if \<not> s_voice_enabled s \<or> \<not> s_session_active s \<or> s_waiting_idle s then
        e_voice_request_stop E (s\<lparr>s_stop_requested := True, s_stop_deadline_ms := now + VOICE_STOP_MS\<rparr>)
      else let s1 = (if s_delivering s
                     then voice_finish_stream E RBP_END_BUFFER_OVERRUN True
                            (s\<lparr>s_stat_voice_overruns := s_stat_voice_overruns s + 1\<rparr>)
                     else s)
           in if \<not> codec_accepted f s1 then voice_fault E RBP_END_UNSUPPORTED_FORMAT s1
              else if s_next_stream_id s1 = UINT32_MAX then session_teardown E s1
              else let s2 = s1\<lparr>s_next_stream_id := s_next_stream_id s1 + 1,
                         s_stream_id := s_next_stream_id s1 + 1, s_stream_connection := s_connection_id s1,
                         s_frame_seq := 0, s_epoch := 0, s_source_units := 0, s_delivered_units := 0,
                         s_unit_offset := 0, s_source_bytes := 0, s_delivered_bytes := 0,
                         s_source_samples := 0, s_delivered_samples := 0, s_delivered_epoch := 1,
                         s_delivering := True, s_ending := False\<rparr>;
                       (ok, s3) = queue_format E f True s2
                   in if ok then s3
                      else voice_fault E RBP_END_BUFFER_OVERRUN
                             (s3\<lparr>s_delivering := False, s_stream_id := 0\<rparr>))"

definition voice_format :: "'w server_env \<Rightarrow> rbp_audio_format \<Rightarrow> 'w rbp_server \<Rightarrow> 'w rbp_server" where
  "voice_format E f s0 =
     (let s = s0\<lparr>s_voice_sample_rate := af_sample_rate f\<rparr> in
      if s_delivering s \<and> \<not> s_ending s then
        let (ok, s1) = queue_format E f False s
        in if \<not> ok \<and> s_delivering s1 then voice_fault E RBP_END_BUFFER_OVERRUN s1 else s1
      else s)"

definition voice_encoded ::
    "'w server_env \<Rightarrow> u8 list option \<Rightarrow> nat \<Rightarrow> u32 \<Rightarrow> u32 \<Rightarrow> u32 \<Rightarrow> u32 \<Rightarrow> 'w rbp_server \<Rightarrow> 'w rbp_server" where
  "voice_encoded E data len unit_len offset samples now s0 =
     (if \<not> s_source_active s0 then s0
      else let s = s0\<lparr>s_got_audio_this_stream := True, s_progress_deadline := now + VOICE_PROGRESS_MS\<rparr>
           in if \<not> s_delivering s \<or> s_ending s then s
              else if s_format_max_unit s < unit_len then voice_fault E RBP_END_UNSUPPORTED_FORMAT s
              else if len = 0 \<or> data = None \<or> unit_len = 0 \<or> offset \<noteq> s_unit_offset s
                      \<or> unit_len < offset \<or> unat (unit_len - offset) < len
                      \<or> (offset \<noteq> 0 \<and> (unit_len \<noteq> s_unit_size s \<or> samples \<noteq> s_unit_samples s))
                      \<or> s_source_units s = UINT32_MAX
              then voice_fault E RBP_END_INVALID_ENCODED_DATA s
              else encoded_loop E unit_len samples (case data of None \<Rightarrow> [] | Some d \<Rightarrow> take len d)
                     (s\<lparr>s_unit_size := unit_len, s_unit_samples := samples\<rparr>))"

definition voice_end :: "'w server_env \<Rightarrow> u8 \<Rightarrow> 'w rbp_server \<Rightarrow> 'w rbp_server" where
  "voice_end E reason0 s0 =
     (let s = s0\<lparr>s_source_active := False, s_waiting_idle := False\<rparr>;
          reason = (if reason0 = RBP_END_NORMAL \<and> s_capture_limited s then RBP_END_CAPTURE_LIMIT
                    else if s_stop_requested s \<and> reason0 = RBP_END_NORMAL then RBP_END_REQUESTED_STOP
                    else reason0);
          drain = (reason = RBP_END_NORMAL \<or> reason = RBP_END_REQUESTED_STOP
                   \<or> reason = RBP_END_CAPTURE_LIMIT)
      in voice_finish_stream E reason (\<not> drain) s)"

definition rbp_server_on_voice ::
    "'w server_env \<Rightarrow> rbp_voice_evt \<Rightarrow> u32 \<Rightarrow> 'w rbp_server \<Rightarrow> 'w rbp_server" where
  "rbp_server_on_voice E ev now s0 =
     (let s = s0\<lparr>s_now_ms := now\<rparr> in
      case ev of
        RBP_VOICE_EVT_SOURCE_BEGIN \<Rightarrow> voice_source_begin now s
      | RBP_VOICE_EVT_START f \<Rightarrow> voice_start E f now s
      | RBP_VOICE_EVT_FORMAT f \<Rightarrow> voice_format E f s
      | RBP_VOICE_EVT_ENCODED data len unit_len offset samples \<Rightarrow>
          voice_encoded E data len unit_len offset samples now s
      | RBP_VOICE_EVT_FAULT reason \<Rightarrow> voice_fault E reason s
      | RBP_VOICE_EVT_END reason \<Rightarrow> voice_end E reason s)"

definition codecs_compatible :: "rbp_audio_caps \<Rightarrow> 'w rbp_server \<Rightarrow> bool" where
  "codecs_compatible caps s =
     list_ex (\<lambda>i. list_ex (\<lambda>c. codec_at (s_accepted_codecs s) i = (co_id c, co_revision c)) (ac_codecs caps))
       (codec_steps (s_accepted_len s))"

definition rbp_server_on_voice_state ::
    "'w server_env \<Rightarrow> u8 \<Rightarrow> u8 \<Rightarrow> u32 \<Rightarrow> 'w rbp_server \<Rightarrow> 'w rbp_server" where
  "rbp_server_on_voice_state E voice_state interaction sample_rate s =
     (if s_voice_state s \<noteq> voice_state \<or> s_voice_sample_rate s \<noteq> sample_rate
         \<or> s_voice_interaction s \<noteq> interaction then
        let s1 = s\<lparr>s_voice_state := voice_state, s_voice_interaction := interaction,
                   s_voice_sample_rate := sample_rate\<rparr>;
            s2 = (if voice_state \<noteq> RBP_VOICE_READY \<and> s_voice_enabled s1
                  then s1\<lparr>s_voice_enabled := False\<rparr> else s1);
            s3 = (case s_voice_caps s2 of
                    None \<Rightarrow> s2
                  | Some caps \<Rightarrow>
                      if voice_state = RBP_VOICE_READY \<and> s_session_active s2 \<and> s_peer_valid s2
                         \<and> s_voice_resume_peer s2 = pr_peer_id (s_peer s2) \<and> \<not> s_reconnect_paused s2
                         \<and> ac_max_unit_bytes caps \<le> s_accepted_max_unit s2 \<and> codecs_compatible caps s2
                      then s2\<lparr>s_voice_enabled := True, s_waiting_idle := s_source_active s2\<rparr>
                      else s2)
        in send_device_state E (s_connection_id s3) s3
      else s)"

end
