(* ===== verification/Server_Link.thy ===== *)
theory Server_Link
  imports Server_Voice
begin

text \<open>
  The server's start, its inputs from the radio layer, the periodic work and the introspection
  functions (\<open>rbp_server.c\<close>): link state changes, discovery and pairing reports, timeouts.
\<close>

section \<open>Start\<close>

definition peer_zero :: rbp_peer_record where
  "peer_zero = \<lparr>pr_peer_id = 0, pr_name = replicate 48 0, pr_auto_reconnect = False\<rparr>"

definition cand_zero :: rbp_candidate where
  "cand_zero = \<lparr>ca_candidate_id = 0, ca_support = 0, ca_signal = 0, ca_name = replicate 48 0, ca_name_len = 0\<rparr>"

definition key_item_zero :: key_item where
  "key_item_zero = \<lparr>ki_used = False, ki_buf = replicate RBP_KEYS_STRUCT_SIZE 0, ki_order = 0, ki_connection = 0\<rparr>"

definition media_zero :: media_marker where
  "media_zero = \<lparr>mm_stream = 0, mm_connection = 0, mm_order = 0, mm_opcode = 0, mm_len = 0\<rparr>"

definition op_zero :: op_result where
  "op_zero = \<lparr>od_used = False, od_op_id = 0, od_result = 0, od_peer_id = 0, od_connection_id = 0,
     od_uncertain = False\<rparr>"

definition rx_zero :: rbp_rxparser where
  "rx_zero = \<lparr>rx_st = RXS_IDLE, rx_buf = replicate RBP_COBS_RECV_MAX 0, rx_len = 0, rx_start = 0\<rparr>"

definition rx_ctx_zero :: rbp_rx_ctx where
  "rx_ctx_zero = \<lparr>cx_event = RBP_RX_NONE, cx_header = header_zero, cx_payload = [], cx_crc_ok = False,
     cx_resume = []\<rparr>"

text \<open>The data members of \<open>rbp_server_cfg_t\<close>.\<close>

record rbp_server_cfg =
  cf_profile :: "rbp_device_profile option"
  cf_max_keys :: u16
  cf_max_capture_ms :: u32
  cf_bridge_uid :: "u8 list"
  cf_firmware_version :: "u8 list option"
  cf_reset_reason :: u16

text \<open>\<open>memset(s, 0, sizeof *s); s->cfg = *cfg\<close>.\<close>

definition server_zero :: "'w server_env \<Rightarrow> rbp_server_cfg \<Rightarrow> fault_state \<Rightarrow> 'w \<Rightarrow> 'w rbp_server" where
  "server_zero E cfg faults world =
     \<lparr>s_profile = cf_profile cfg, s_max_keys = cf_max_keys cfg,
      s_max_capture_ms = cf_max_capture_ms cfg, s_bridge_uid = cf_bridge_uid cfg,
      s_firmware_version = cf_firmware_version cfg, s_reset_reason = cf_reset_reason cfg,
      s_now_ms = 0, s_order_counter = 0,
      s_out_ring = replicate (OUT_RING_SIZE E) 0, s_out_head = 0, s_out_len = 0,
      s_rx = rx_zero, s_rx_ctx = rx_ctx_zero,
      s_ctl = replicate (CTL_SLOTS E) ctl_slot_zero, s_ctl_payload = replicate (CTL_BYTES E) 0,
      s_ctl_used = 0, s_session_active = False, s_session_id = 0, s_session_counter = 0,
      s_connection_counter = 0, s_txseq = 0, s_last_req_ms = 0, s_req_hwm = 0,
      s_have_client_seq = False, s_client_tx_hwm = 0, s_op_active = False,
      s_pair_ready_pending = False, s_op_id = 0, s_op_kind = 0, s_op_deadline_ms = 0,
      s_op_peer_id = 0, s_op_connection_id = 0,
      s_ops_done = replicate RBP_MAX_OPERATION_RESULTS op_zero, s_ops_done_head = 0,
      s_ops_done_count = 0, s_find_active = False, s_find_valid = False, s_search_id = 0,
      s_find_end_ms = 0, s_cand = replicate RBP_MAX_CANDIDATES cand_zero, s_cand_count = 0,
      s_prompt_active = False, s_pair_cancel_requested = False, s_prompt_id = 0,
      s_prompt_method = 0, s_prompt_number = 0, s_prompt_expiry_ms = 0,
      s_link_state = RBP_LINK_UNBOUND, s_connection_id = 0, s_peer = peer_zero,
      s_peer_valid = False, s_battery = 0, s_charging = 0, s_voice_state = 0,
      s_voice_interaction = 0, s_voice_sample_rate = 0, s_reconnect_paused = False,
      s_link_msg = replicate 48 0, s_events_enabled = False, s_pressed_bits = 0, s_input_seq = 0,
      s_keys_captured_us = 0, s_key_q = replicate RBP_KEY_QUEUE_DEPTH key_item_zero,
      s_key_q_head = 0, s_key_q_count = 0, s_voice_enabled = False, s_voice_denied = False,
      s_voice_resume_peer = 0, s_waiting_idle = False, s_stream_id = 0, s_next_stream_id = 0,
      s_frame_seq = 0, s_delivered_samples = 0, s_delivered_bytes = 0, s_source_samples = 0,
      s_source_bytes = 0, s_delivered_units = 0, s_delivered_epoch = 0, s_source_units = 0,
      s_epoch = 0, s_unit_offset = 0, s_unit_size = 0, s_unit_samples = 0, s_format_max_unit = 0,
      s_source_started_ms = 0, s_voice_caps = None, s_accepted_max_unit = 0,
      s_accepted_codecs = replicate 96 0, s_accepted_len = 0, s_delivering = False,
      s_ending = False, s_stream_connection = 0, s_stop_requested = False, s_stop_deadline_ms = 0,
      s_capture_limited = False, s_capture_deadline_ms = 0, s_voice_ok_deferred = False,
      s_voice_ok_deferred_opcode = 0, s_voice_ok_deferred_req = 0, s_voice_ok_deferred_conn = 0,
      s_voice_ok_deferred_is_enable = False, s_audio_pool = replicate (AUDIO_POOL_SIZE E) 0,
      s_audio_head = 0, s_audio_len = 0, s_media_q = replicate (MEDIA_DEPTH E) media_zero,
      s_media_head = 0, s_media_count = 0, s_source_active = False, s_first_audio_deadline = 0,
      s_progress_deadline = 0, s_got_audio_this_stream = False, s_stat_protocol_errors = 0,
      s_stat_input_resets = 0, s_stat_voice_overruns = 0, s_stat_voice_errors = 0,
      s_faults = faults, s_world = world\<rparr>"

definition rbp_server_init ::
    "'w server_env \<Rightarrow> rbp_server_cfg \<Rightarrow> fault_state \<Rightarrow> 'w \<Rightarrow> 'w rbp_server" where
  "rbp_server_init E cfg faults world =
     (let s = server_zero E cfg faults world;
          s1 = (if s_max_capture_ms s = 0 \<or> 120000 < s_max_capture_ms s
                then s\<lparr>s_max_capture_ms := 120000\<rparr> else s);
          s2 = (if s_max_keys s1 = 0 \<or> 64 < s_max_keys s1 then s1\<lparr>s_max_keys := 64\<rparr> else s1);
          s3 = s2\<lparr>s_rx := rbp_rxparser_init (s_rx s2) 0, s_battery := 255,
                  s_voice_state := RBP_VOICE_ABSENT, s_voice_interaction := RBP_VI_UNAVAILABLE,
                  s_link_state := RBP_LINK_UNBOUND\<rparr>
      in case e_load E of
           None \<Rightarrow> s3
         | Some load \<Rightarrow>
             (case load (s_world s3) of
                (None, w) \<Rightarrow> s3\<lparr>s_world := w\<rparr>
              | (Some rec, w) \<Rightarrow>
                  s3\<lparr>s_world := w, s_peer := rec, s_peer_valid := pr_peer_id rec \<noteq> 0,
                     s_link_state := (if pr_peer_id rec \<noteq> 0 then RBP_LINK_DISCONNECTED
                                      else RBP_LINK_UNBOUND)\<rparr>))"

section \<open>Link state\<close>

definition new_connection_id :: "'w rbp_server \<Rightarrow> u32 \<times> 'w rbp_server" where
  "new_connection_id s =
     (if s_connection_counter s = UINT32_MAX then (0, s)
      else (s_connection_counter s + 1, s\<lparr>s_connection_counter := s_connection_counter s + 1\<rparr>))"

definition link_up :: "rbp_link_state \<Rightarrow> bool" where
  "link_up st \<longleftrightarrow> st = RBP_LINK_CONNECTING \<or> st = RBP_LINK_PAIRING \<or> st = RBP_LINK_INITIALIZING
     \<or> st = RBP_LINK_READY"

definition link_down :: "rbp_link_state \<Rightarrow> bool" where
  "link_down st \<longleftrightarrow> st = RBP_LINK_DISCONNECTED \<or> st = RBP_LINK_UNBOUND \<or> st = RBP_LINK_ERROR
     \<or> st = RBP_LINK_UNSUPPORTED"

text \<open>The first link state with a connection gives it an identity and fresh key state.\<close>

definition link_identify ::
    "u32 \<Rightarrow> rbp_link_state \<Rightarrow> 'w rbp_server \<Rightarrow> rbp_link_state \<times> 'w rbp_server" where
  "link_identify connection_id st s =
     (if s_connection_id s = 0 \<and> link_up st then
        let (cid, s1) = (if connection_id \<noteq> 0 then (connection_id, s) else new_connection_id s);
            s2 = s1\<lparr>s_connection_id := cid, s_input_seq := 0, s_pressed_bits := 0,
                    s_keys_captured_us := now_us64 s1, s_link_msg := (s_link_msg s1)[0 := 0]\<rparr>
        in (if s_connection_id s2 = 0 then RBP_LINK_ERROR else st, s2)
      else (st, s))"

definition link_lost_keys :: "'w rbp_server \<Rightarrow> rbp_keys_report" where
  "link_lost_keys s = \<lparr>kr_connection_id = 0, kr_kind = RBP_KEYS_KIND_RESET,
     kr_reason = RBP_KEYS_REASON_LINK_LOST, kr_pressed_bits = 0, kr_captured_us = now_us64 s\<rparr>"

text \<open>Leaving the ready state ends the stream and releases the keys.\<close>

definition link_lost :: "'w server_env \<Rightarrow> 'w rbp_server \<Rightarrow> 'w rbp_server" where
  "link_lost E s =
     (let t = (if s_delivering s then voice_finish_stream E RBP_END_LINK_LOST True s else s)
      in (rbp_server_on_keys (link_lost_keys t) t)\<lparr>s_events_enabled := False\<rparr>)"

definition link_clear :: "'w rbp_server \<Rightarrow> 'w rbp_server" where
  "link_clear s = s\<lparr>s_connection_id := 0, s_source_active := False, s_stop_requested := False,
     s_waiting_idle := False, s_voice_enabled := False, s_voice_state := RBP_VOICE_ABSENT,
     s_voice_sample_rate := 0, s_voice_interaction := RBP_VI_UNAVAILABLE, s_battery := 255,
     s_charging := 0\<rparr>"

definition rbp_server_on_link ::
    "'w server_env \<Rightarrow> rbp_link_state \<Rightarrow> u32 \<Rightarrow> u32 \<Rightarrow> 'w rbp_server \<Rightarrow> 'w rbp_server" where
  "rbp_server_on_link E state0 connection_id now s0 =
     (let s = s0\<lparr>s_now_ms := now\<rparr>;
          defer = (state0 = RBP_LINK_READY \<and> s_op_active s \<and> s_op_kind s = OPK_PAIR);
          st1 = (if defer then RBP_LINK_INITIALIZING else state0);
          s1 = (if defer then s\<lparr>s_pair_ready_pending := True\<rparr> else s);
          s2 = (if link_down st1 then s1\<lparr>s_pair_ready_pending := False\<rparr> else s1);
          old = s_link_state s2;
          ctx_id = s_connection_id s2;
          (st, s3) = link_identify connection_id st1 s2;
          s4 = s3\<lparr>s_link_state := st\<rparr>;
          s5 = (if old = RBP_LINK_READY \<and> st \<noteq> RBP_LINK_READY then link_lost E s4 else s4);
          s6 = (if link_down st then link_clear s5 else s5)
      in send_device_state E ctx_id s6)"

definition rbp_server_on_link_message :: "u8 list option \<Rightarrow> 'w rbp_server \<Rightarrow> 'w rbp_server" where
  "rbp_server_on_link_message msg s = s\<lparr>s_link_msg := copy_name (s_link_msg s) 48 msg\<rparr>"

section \<open>Discovery\<close>

definition cand_update :: "rbp_candidate \<Rightarrow> rbp_candidate \<Rightarrow> rbp_candidate" where
  "cand_update cand c =
     (let c1 = c\<lparr>ca_signal := ca_signal cand\<rparr>;
          c2 = (if ca_support c1 < ca_support cand then c1\<lparr>ca_support := ca_support cand\<rparr> else c1)
      in if ca_name_len cand \<noteq> 0
         then c2\<lparr>ca_name := copy_name (ca_name c2) 48 (Some (cstring (ca_name cand))),
                 ca_name_len := ca_name_len cand\<rparr>
         else c2)"

definition rbp_server_on_scan_candidate :: "rbp_candidate \<Rightarrow> 'w rbp_server \<Rightarrow> 'w rbp_server" where
  "rbp_server_on_scan_candidate cand s =
     (if \<not> s_find_active s then s
      else case find (\<lambda>i. ca_candidate_id (s_cand s ! i) = ca_candidate_id cand) [0..<s_cand_count s] of
        Some i \<Rightarrow> s\<lparr>s_cand := (s_cand s)[i := cand_update cand (s_cand s ! i)]\<rparr>
      | None \<Rightarrow>
          if RBP_MAX_CANDIDATES \<le> s_cand_count s then s
          else s\<lparr>s_cand := (s_cand s)[s_cand_count s :=
                   cand\<lparr>ca_name := copy_name (ca_name cand) 48 (Some (cstring (ca_name cand)))\<rparr>],
                 s_cand_count := s_cand_count s + 1\<rparr>)"

definition rbp_server_on_scan_done :: "'w server_env \<Rightarrow> u8 \<Rightarrow> u32 \<Rightarrow> 'w rbp_server \<Rightarrow> 'w rbp_server" where
  "rbp_server_on_scan_done E reason now s0 =
     (let s = s0\<lparr>s_now_ms := now\<rparr> in
      if \<not> s_find_active s then s
      else ctl_enqueue E RBP_KIND_EVENT RBP_OP_FIND_DONE_EV 0 0 0
             (tlv_build [(1, TV_u32 (s_search_id s)), (2, TV_u8 reason)])
             (s\<lparr>s_find_active := False, s_find_end_ms := now, s_find_valid := True\<rparr>))"

section \<open>Pairing\<close>

text \<open>
  \<open>rbp_server_on_pair_prompt\<close>. The loop \<open>do prompt_id = rng_u32(s) while (prompt_id == 0)\<close> ends after
  its first round, because \<open>rng_u32\<close> does not return zero (lemma \<open>rng_u32_nonzero\<close>).
\<close>

definition rbp_server_on_pair_prompt ::
    "'w server_env \<Rightarrow> u8 \<Rightarrow> u32 \<Rightarrow> u32 \<Rightarrow> 'w rbp_server \<Rightarrow> 'w rbp_server" where
  "rbp_server_on_pair_prompt E meth number remaining0 s =
     (if \<not> s_op_active s \<or> s_op_kind s \<noteq> OPK_PAIR \<or> s_pair_cancel_requested s then s
      else let left = s_op_deadline_ms s - s_now_ms s in
        if sint left \<le> 0 then s
        else let remaining = (if left < remaining0 then left else remaining0);
                 (pid, s1) = rng_u32 E (s\<lparr>s_prompt_active := True\<rparr>);
                 s2 = s1\<lparr>s_prompt_id := pid, s_prompt_method := meth, s_prompt_number := number,
                         s_prompt_expiry_ms := s_now_ms s1 + remaining\<rparr>
             in ctl_enqueue E RBP_KIND_EVENT RBP_OP_PAIR_PROMPT_EV 0 0 (s_op_connection_id s2)
                  (tlv_build ([(1, TV_u32 (s_op_id s2)), (2, TV_u32 (s_prompt_id s2)), (3, TV_u8 meth)]
                     @ (if meth = RBP_PROMPT_CONFIRM_NUMBER \<or> meth = RBP_PROMPT_DISPLAY_PASSKEY
                        then [(4, TV_u32 number)] else [])
                     @ [(5, TV_u32 remaining)])) s2)"

text \<open>The commit of a new bond: the result is the status, the uncertainty flag and the state.\<close>

definition pair_commit ::
    "'w server_env \<Rightarrow> rbp_peer_record option \<Rightarrow> 'w rbp_server \<Rightarrow> u16 \<times> bool \<times> 'w rbp_server" where
  "pair_commit E peer s =
     (case peer of
        None \<Rightarrow> (RBP_STATUS_PAIRING_FAILED, False, s)
      | Some rec \<Rightarrow>
          if pr_peer_id rec = 0 then (RBP_STATUS_PAIRING_FAILED, False, s)
          else let committed = rec\<lparr>pr_auto_reconnect := True\<rparr>;
                   (saved, s1) = (case e_save E of None \<Rightarrow> (True, s)
                       | Some save \<Rightarrow> let (ok, w) = save committed (s_world s) in (ok, s\<lparr>s_world := w\<rparr>))
               in if \<not> saved then (RBP_STATUS_STORAGE_FAILED, True, s1)
                  else (RBP_STATUS_OK, False,
                        s1\<lparr>s_peer := committed, s_peer_valid := True, s_reconnect_paused := False\<rparr>))"

definition rbp_server_on_pair_done ::
    "'w server_env \<Rightarrow> u16 \<Rightarrow> bool \<Rightarrow> rbp_peer_record option \<Rightarrow> u32 \<Rightarrow> 'w rbp_server \<Rightarrow> 'w rbp_server" where
  "rbp_server_on_pair_done E status0 peer_committed peer connection_id s0 =
     (let publish_ready = s_pair_ready_pending s0;
          s = s0\<lparr>s_pair_ready_pending := False, s_prompt_active := False\<rparr>;
          status1 = (if status0 = RBP_STATUS_OK \<and> \<not> peer_committed then RBP_STATUS_STORAGE_FAILED
                     else status0);
          (status, uncertain, s1) =
            (if status1 = RBP_STATUS_OK then pair_commit E peer s else (status1, False, s));
          s2 = (if s_op_active s1 \<and> s_op_kind s1 = OPK_PAIR then
                  let pid = (if status = RBP_STATUS_OK \<and> s_peer_valid s1 then pr_peer_id (s_peer s1) else 0)
                  in op_complete E (s_op_id s1) status pid (s_connection_id s1) uncertain
                       (s1\<lparr>s_op_active := False\<rparr>)
                else s1)
      in if status = RBP_STATUS_OK then
           if publish_ready then rbp_server_on_link E RBP_LINK_READY connection_id (s_now_ms s2) s2
           else if s_link_state s2 \<noteq> RBP_LINK_READY
           then rbp_server_on_link E RBP_LINK_INITIALIZING connection_id (s_now_ms s2) s2
           else send_device_state E (s_connection_id s2) s2
         else
           let s3 = s2\<lparr>s_link_msg := copy_name (s_link_msg s2) 48 (Some (cstr ''pairing failed''))\<rparr>
           in rbp_server_on_link E RBP_LINK_ERROR 0 (s_now_ms s3) s3)"

definition rbp_server_on_forget_done ::
    "'w server_env \<Rightarrow> u16 \<Rightarrow> bool \<Rightarrow> 'w rbp_server \<Rightarrow> 'w rbp_server" where
  "rbp_server_on_forget_done E status0 uncertain0 s =
     (let (cleared, s1) = (if status0 \<noteq> RBP_STATUS_OK then (True, s)
                           else case e_clear E of None \<Rightarrow> (False, s)
                             | Some clear \<Rightarrow> let (ok, w) = clear (s_world s) in (ok, s\<lparr>s_world := w\<rparr>));
          status = (if cleared then status0 else RBP_STATUS_STORAGE_FAILED);
          uncertain = (if cleared then uncertain0 else True);
          s2 = (if status = RBP_STATUS_OK
                then rbp_server_on_link E RBP_LINK_UNBOUND 0 (s_now_ms s1)
                       (s1\<lparr>s_peer_valid := False, s_peer := peer_zero\<rparr>)
                else s1);
          s3 = (if s_op_active s2 \<and> s_op_kind s2 = OPK_FORGET
                then op_complete E (s_op_id s2) status 0 0 uncertain (s2\<lparr>s_op_active := False\<rparr>)
                else s2)
      in if status \<noteq> RBP_STATUS_OK then send_device_state E 0 s3 else s3)"

definition rbp_server_on_peer_changed :: "rbp_peer_record \<Rightarrow> 'w rbp_server \<Rightarrow> 'w rbp_server" where
  "rbp_server_on_peer_changed peer s =
     (let s1 = (if \<not> s_peer_valid s \<or> pr_peer_id (s_peer s) \<noteq> pr_peer_id peer
                then s\<lparr>s_voice_resume_peer := 0\<rparr> else s)
      in s1\<lparr>s_peer := peer, s_peer_valid := pr_peer_id peer \<noteq> 0\<rparr>)"

definition rbp_server_on_battery :: "'w server_env \<Rightarrow> u8 \<Rightarrow> u8 \<Rightarrow> 'w rbp_server \<Rightarrow> 'w rbp_server" where
  "rbp_server_on_battery E level charging s =
     (if s_battery s \<noteq> level \<or> s_charging s \<noteq> charging
      then let s1 = s\<lparr>s_battery := level, s_charging := charging\<rparr>
           in send_device_state E (s_connection_id s1) s1
      else s)"

definition rbp_server_on_usb_gone :: "'w server_env \<Rightarrow> u32 \<Rightarrow> 'w rbp_server \<Rightarrow> 'w rbp_server" where
  "rbp_server_on_usb_gone E now s =
     ctl_clear E ((session_teardown E (s\<lparr>s_now_ms := now\<rparr>))\<lparr>s_out_head := 0, s_out_len := 0\<rparr>)"

section \<open>Periodic work\<close>

text \<open>The checks of \<open>rbp_server_tick\<close> in their order, one function each.\<close>

definition tick_rx_timeout :: "'w server_env \<Rightarrow> u32 \<Rightarrow> 'w rbp_server \<Rightarrow> 'w rbp_server" where
  "tick_rx_timeout E now s =
     (let (p, ctx) = rbp_rxparser_feed (s_rx s) [] now rx_ctx_zero;
          s1 = s\<lparr>s_rx := p\<rparr>
      in if cx_event ctx = RBP_RX_TIMEOUT
         then session_teardown E (s1\<lparr>s_stat_protocol_errors := s_stat_protocol_errors s1 + 1\<rparr>)
         else s1)"

definition tick_heartbeat :: "'w server_env \<Rightarrow> u32 \<Rightarrow> 'w rbp_server \<Rightarrow> 'w rbp_server" where
  "tick_heartbeat E now s =
     (if s_session_active s \<and> HEARTBEAT_TIMEOUT_MS < now - s_last_req_ms s
      then session_teardown E s else s)"

definition tick_find :: "'w server_env \<Rightarrow> u32 \<Rightarrow> 'w rbp_server \<Rightarrow> 'w rbp_server" where
  "tick_find E now s =
     (let s1 = (if s_find_active s \<and> reached now (s_find_end_ms s) then
                  let t = e_stop_find E (s\<lparr>s_find_active := False, s_find_valid := True\<rparr>)
                  in ctl_enqueue E RBP_KIND_EVENT RBP_OP_FIND_DONE_EV 0 0 0
                       (tlv_build [(1, TV_u32 (s_search_id t)), (2, TV_u8 RBP_FIND_DONE_EXPIRED)]) t
                else s)
      in if s_find_valid s1 \<and> \<not> s_find_active s1 \<and> CANDIDATE_TTL_MS < now - s_find_end_ms s1
         then s1\<lparr>s_find_valid := False, s_cand_count := 0\<rparr> else s1)"

definition tick_prompt :: "'w server_env \<Rightarrow> u32 \<Rightarrow> 'w rbp_server \<Rightarrow> 'w rbp_server" where
  "tick_prompt E now s =
     (if s_prompt_active s \<and> reached now (s_prompt_expiry_ms s)
      then request_pair_cancel E (s\<lparr>s_prompt_active := False\<rparr>) else s)"

definition tick_op :: "'w server_env \<Rightarrow> u32 \<Rightarrow> 'w rbp_server \<Rightarrow> 'w rbp_server" where
  "tick_op E now s =
     (if s_op_active s \<and> reached now (s_op_deadline_ms s) then
        let result = (if s_op_kind s = OPK_FORGET then RBP_STATUS_STORAGE_FAILED else RBP_STATUS_TIMEOUT);
            s1 = s\<lparr>s_op_active := False\<rparr>;
            s2 = (if s_op_kind s1 = OPK_PAIR then request_pair_cancel E s1 else s1)
        in op_complete E (s_op_id s2) result (s_op_peer_id s2) (s_op_connection_id s2) True s2
      else s)"

definition tick_source :: "'w server_env \<Rightarrow> u32 \<Rightarrow> 'w rbp_server \<Rightarrow> 'w rbp_server" where
  "tick_source E now s =
     (if \<not> s_source_active s then s
      else if s_stop_requested s \<and> reached now (s_stop_deadline_ms s) then
        let s1 = voice_finish_stream E RBP_END_DEVICE_ERROR True
                   (s\<lparr>s_stop_deadline_ms := now + VOICE_STOP_MS,
                      s_stat_voice_errors := s_stat_voice_errors s + 1, s_voice_enabled := False,
                      s_voice_state := RBP_VOICE_FAILED\<rparr>)
        in e_disconnect E (send_device_state E (s_connection_id s1) s1)
      else if \<not> s_stop_requested s \<and> reached now (s_capture_deadline_ms s) then
        e_voice_request_stop E (s\<lparr>s_capture_limited := True, s_stop_requested := True,
                                  s_stop_deadline_ms := now + VOICE_STOP_MS\<rparr>)
      else if \<not> s_stop_requested s then
        if \<not> s_got_audio_this_stream s \<and> reached now (s_first_audio_deadline s) then
          voice_fault E RBP_END_DEVICE_ERROR s
        else if s_got_audio_this_stream s \<and> reached now (s_progress_deadline s) then
          let s1 = voice_finish_stream E RBP_END_DEVICE_ERROR True
                     (s\<lparr>s_stat_voice_errors := s_stat_voice_errors s + 1\<rparr>)
          in e_voice_request_stop E (s1\<lparr>s_stop_requested := True, s_stop_deadline_ms := now + VOICE_STOP_MS\<rparr>)
        else s
      else s)"

definition tick_deferred :: "'w server_env \<Rightarrow> 'w rbp_server \<Rightarrow> 'w rbp_server" where
  "tick_deferred E s =
     (if s_voice_ok_deferred s \<and> s_session_active s \<and> \<not> s_delivering s \<and> s_media_count s = 0 then
        (ctl_enqueue E RBP_KIND_RESPONSE (s_voice_ok_deferred_opcode s) RBP_STATUS_OK
           (s_voice_ok_deferred_req s) (s_voice_ok_deferred_conn s)
           (tlv_build (if s_voice_ok_deferred_is_enable s
                       then [(1, TV_bool False), (2, TV_bool False)] else [])) s)
          \<lparr>s_voice_ok_deferred := False\<rparr>
      else s)"

definition rbp_server_tick :: "'w server_env \<Rightarrow> u32 \<Rightarrow> 'w rbp_server \<Rightarrow> 'w rbp_server" where
  "rbp_server_tick E now s =
     rbp_server_flush_output E
       (tick_deferred E
         (tick_source E now
           (tick_op E now
             (tick_prompt E now
               (tick_find E now
                 (tick_heartbeat E now
                   (tick_rx_timeout E now (s\<lparr>s_now_ms := now\<rparr>))))))))"

section \<open>Introspection and adapter control\<close>

record rbp_server_info =
  in_session_active :: bool
  in_session_id :: u32
  in_connection_id :: u32
  in_link_state :: rbp_link_state
  in_events_enabled :: bool
  in_voice_enabled :: bool
  in_waiting_idle :: bool
  in_voice_state :: u8
  in_stream_id :: u32

definition rbp_server_get_info :: "'w rbp_server \<Rightarrow> rbp_server_info" where
  "rbp_server_get_info s = \<lparr>in_session_active = s_session_active s, in_session_id = s_session_id s,
     in_connection_id = s_connection_id s, in_link_state = s_link_state s,
     in_events_enabled = s_events_enabled s, in_voice_enabled = s_voice_enabled s,
     in_waiting_idle = s_waiting_idle s, in_voice_state = s_voice_state s,
     in_stream_id = s_stream_id s\<rparr>"

definition rbp_server_voice_wanted :: "'w rbp_server \<Rightarrow> bool" where
  "rbp_server_voice_wanted s \<longleftrightarrow> s_session_active s \<and> s_voice_enabled s \<and> \<not> s_waiting_idle s"

definition rbp_server_should_reconnect :: "'w rbp_server \<Rightarrow> bool" where
  "rbp_server_should_reconnect s \<longleftrightarrow> s_peer_valid s \<and> pr_auto_reconnect (s_peer s)
     \<and> \<not> s_reconnect_paused s \<and> \<not> s_op_active s"

text \<open>Profiles are static objects with different contents, so comparing the pointers compares them.\<close>

definition rbp_server_set_profile ::
    "'w server_env \<Rightarrow> rbp_device_profile option \<Rightarrow> 'w rbp_server \<Rightarrow> 'w rbp_server" where
  "rbp_server_set_profile E profile s =
     (if s_profile s = profile then s
      else let s1 = s\<lparr>s_profile := profile\<rparr> in send_device_state E (s_connection_id s1) s1)"

definition rbp_server_adapter_failed ::
    "'w server_env \<Rightarrow> u8 list option \<Rightarrow> 'w rbp_server \<Rightarrow> 'w rbp_server" where
  "rbp_server_adapter_failed E reason s =
     (let s1 = s\<lparr>s_link_msg := copy_name (s_link_msg s) 48 reason\<rparr>
      in e_disconnect E (rbp_server_on_link E RBP_LINK_ERROR 0 (s_now_ms s1) s1))"

definition rbp_server_voice_capture_session :: "'w rbp_server \<Rightarrow> u32" where
  "rbp_server_voice_capture_session s =
     (if s_session_active s \<and> s_peer_valid s \<and> \<not> s_voice_denied s \<and> \<not> s_waiting_idle s
         \<and> s_voice_state s \<noteq> RBP_VOICE_UNSUPPORTED \<and> s_voice_state s \<noteq> RBP_VOICE_FAILED
      then s_session_id s else 0)"

end
