(* ===== verification/Server_Requests.thy ===== *)
theory Server_Requests
  imports Server_Link
begin

text \<open>
  The request side of the server (\<open>rbp_server.c\<close>): received frames, the session handshake, the checks
  on sequence and request numbers, and one handler per opcode of \<open>dispatch_request\<close>. An error of the
  request is a response with its status; an error of the framing ends the session.
\<close>

section \<open>Responses\<close>

text \<open>The message is a literal or null; the payload buffer of 144 bytes bounds what is sent of it.\<close>

definition respond_error ::
    "'w server_env \<Rightarrow> rbp_header \<Rightarrow> u16 \<Rightarrow> string option \<Rightarrow> bool \<Rightarrow> 'w rbp_server \<Rightarrow> 'w rbp_server" where
  "respond_error E req status msg uncertain s =
     (let w = (if msg \<noteq> None \<or> uncertain
               then tlv_build ((case msg of None \<Rightarrow> [] | Some m \<Rightarrow> [(RBP_TAG_MESSAGE, TV_text (cstr m))])
                      @ (if uncertain then [(RBP_TAG_UNCERTAIN, TV_bool True)] else []))
               else []);
          payload = (if length w \<le> 144 then w else [])
      in ctl_enqueue E RBP_KIND_RESPONSE (h_opcode req) status (h_request_id req) (h_connection_id req)
           payload s)"

text \<open>\<open>ctl_enqueue(s, RBP_KIND_RESPONSE, h->opcode, status, h->request_id, h->connection_id, ...)\<close>.\<close>

definition respond ::
    "'w server_env \<Rightarrow> rbp_header \<Rightarrow> u16 \<Rightarrow> u8 list \<Rightarrow> 'w rbp_server \<Rightarrow> 'w rbp_server" where
  "respond E h status payload s =
     ctl_enqueue E RBP_KIND_RESPONSE (h_opcode h) status (h_request_id h) (h_connection_id h) payload s"

abbreviation respond_ok ::
    "'w server_env \<Rightarrow> rbp_header \<Rightarrow> (u8 \<times> tlv_value) list \<Rightarrow> 'w rbp_server \<Rightarrow> 'w rbp_server" where
  "respond_ok E h fs s \<equiv> respond E h RBP_STATUS_OK (tlv_build fs) s"

definition conn_ready_for :: "'w rbp_server \<Rightarrow> rbp_header \<Rightarrow> bool" where
  "conn_ready_for s h \<longleftrightarrow> s_link_state s = RBP_LINK_READY \<and> h_connection_id h \<noteq> 0
     \<and> h_connection_id h = s_connection_id s"

definition not_ready_status :: "'w rbp_server \<Rightarrow> u16" where
  "not_ready_status s = (if s_link_state s = RBP_LINK_READY then RBP_STATUS_BAD_STATE
     else RBP_STATUS_LINK_LOST)"

section \<open>Handshake\<close>

definition hello_shape_ok :: "rbp_header \<Rightarrow> nat \<Rightarrow> bool" where
  "hello_shape_ok h len \<longleftrightarrow> h_kind h = RBP_KIND_REQUEST \<and> h_flags h = 0 \<and> h_status h = 0
     \<and> h_session_id h = 0 \<and> h_connection_id h = 0 \<and> h_request_id h = 1 \<and> h_tx_seq h = 1
     \<and> unat (h_payload_size h) = len \<and> h_magic0 h = RBP_MAGIC0 \<and> h_magic1 h = RBP_MAGIC1
     \<and> h_header_size h = 32 \<and> h_reserved h = 0"

definition hello_mismatch :: "'w server_env \<Rightarrow> u8 list option \<Rightarrow> 'w rbp_server \<Rightarrow> 'w rbp_server" where
  "hello_mismatch E nonce s =
     (let rh = header_zero\<lparr>h_kind := RBP_KIND_RESPONSE, h_tx_seq := 1, h_request_id := 1,
                 h_opcode := RBP_OP_HELLO, h_status := RBP_STATUS_VERSION_MISMATCH\<rparr>;
          w = tlv_build (case nonce of None \<Rightarrow> [] | Some n \<Rightarrow> [(3, TV_bytes n)]);
          (seq, tmp) = rbp_frame_encode rh rbp_txseq_init (Some w) (length w);
          (ok, ring, len) = ring_write (s_out_ring s) (OUT_RING_SIZE E) (s_out_head s) (s_out_len s) tmp
      in out_drain E (s\<lparr>s_out_ring := ring, s_out_len := len\<rparr>))"

definition handle_hello ::
    "'w server_env \<Rightarrow> rbp_header \<Rightarrow> u8 list \<Rightarrow> 'w rbp_server \<Rightarrow> 'w rbp_server" where
  "handle_hello E h payload s =
     (let nonce = (case rbp_tlv_get_bytes (rbp_tlv_reader_init payload) 1 of
                     Inr (Some n) \<Rightarrow> if length n = 16 then Some n else None
                   | _ \<Rightarrow> None)
      in if \<not> hello_shape_ok h (length payload)
         then s\<lparr>s_stat_protocol_errors := s_stat_protocol_errors s + 1\<rparr>
         else if h_major h \<noteq> RBP_MAJOR \<or> h_minor h \<noteq> RBP_MINOR then hello_mismatch E nonce s
         else case nonce of
           None \<Rightarrow> out_drain E (respond_error E h RBP_STATUS_INVALID_ARGUMENT
                                 (Some ''nonce required'') False s)
         | Some n \<Rightarrow>
             if h_session_id h \<noteq> 0
             then out_drain E (respond_error E h RBP_STATUS_INVALID_ARGUMENT
                                (Some ''session must be 0'') False s)
             else let s1 = (session_create E s)\<lparr>s_req_hwm := h_request_id h, s_client_tx_hwm := 1,
                             s_have_client_seq := True\<rparr>
                  in out_drain E
                       (ctl_enqueue E RBP_KIND_RESPONSE RBP_OP_HELLO RBP_STATUS_OK (h_request_id h) 0
                          (tlv_build
                             [(1, TV_bytes n), (2, TV_bytes (s_bridge_uid s1)),
                              (3, TV_text (case s_firmware_version s1 of None \<Rightarrow> cstr ''0.0'' | Some v \<Rightarrow> v)),
                              (4, TV_u8 (ucast (s_max_keys s1))), (5, TV_u16 512),
                              (6, TV_u32 (RBP_FEAT_ENCODED_VOICE OR RBP_FEAT_INTERACTIVE_PAIR
                                          OR RBP_FEAT_BOND_SAVE OR RBP_FEAT_AUTO_RECONNECT))]) s1))"

section \<open>Operations and the simple requests\<close>

definition op_begin :: "u8 \<Rightarrow> rbp_header \<Rightarrow> 'w rbp_server \<Rightarrow> 'w rbp_server" where
  "op_begin kind h s =
     s\<lparr>s_op_active := True, s_op_kind := kind, s_pair_cancel_requested := False,
       s_pair_ready_pending := False, s_op_id := h_request_id h, s_op_connection_id := 0,
       s_op_peer_id := 0\<rparr>"

definition accepted_payload :: "u32 \<Rightarrow> u8 list" where
  "accepted_payload op_id = [1, RBP_TLV_T_U32, 4, 0] @ le_bytes 4 op_id"

text \<open>The requests take the received header, a reader on the payload and the state.\<close>

type_synonym 'w handler = "'w server_env \<Rightarrow> rbp_header \<Rightarrow> rbp_tlv_reader \<Rightarrow> 'w rbp_server \<Rightarrow> 'w rbp_server"

definition req_ping :: "'w handler" where
  "req_ping E h rd s =
     (case rbp_tlv_get_u32 rd 1 of
        Inr (Some cookie) \<Rightarrow> respond_ok E h [(1, TV_u32 cookie), (2, TV_u64 (now_us64 s))] s
      | _ \<Rightarrow> respond_error E h RBP_STATUS_INVALID_ARGUMENT (Some ''cookie required'') False s)"

definition req_get_device :: "'w handler" where
  "req_get_device E h rd s = respond_ok E h (device_info_tlv s) s"

definition req_get_peer :: "'w handler" where
  "req_get_peer E h rd s =
     respond_ok E h
       [(1, TV_u32 (if s_peer_valid s then pr_peer_id (s_peer s) else 0)),
        (2, TV_text (if s_peer_valid s then cstring (pr_name (s_peer s)) else [])),
        (3, TV_bool (if s_peer_valid s then pr_auto_reconnect (s_peer s) else False))] s"

definition req_get_operation :: "'w handler" where
  "req_get_operation E h rd s =
     (case rbp_tlv_get_u32 rd 1 of
        Inr (Some op_id) \<Rightarrow>
          if s_op_active s \<and> s_op_id s = op_id then
            respond_ok E h [(1, TV_u32 op_id), (2, TV_u8 RBP_OPSTATE_PENDING),
              (3, TV_u16 RBP_STATUS_ACCEPTED), (4, TV_u32 (s_op_peer_id s)),
              (5, TV_u32 (s_op_connection_id s)), (6, TV_bool False)] s
          else (case find (\<lambda>i. od_op_id (s_ops_done s ! ((s_ops_done_head s + i) mod RBP_MAX_OPERATION_RESULTS))
                               = op_id) [0..<s_ops_done_count s] of
              Some i \<Rightarrow>
                (let r = s_ops_done s ! ((s_ops_done_head s + i) mod RBP_MAX_OPERATION_RESULTS)
                 in respond_ok E h [(1, TV_u32 op_id), (2, TV_u8 RBP_OPSTATE_COMPLETED),
                      (3, TV_u16 (od_result r)), (4, TV_u32 (od_peer_id r)),
                      (5, TV_u32 (od_connection_id r)), (6, TV_bool (od_uncertain r))] s)
            | None \<Rightarrow> respond_error E h RBP_STATUS_NOT_FOUND None False s)
      | _ \<Rightarrow> respond_error E h RBP_STATUS_INVALID_ARGUMENT (Some ''operation_id required'') False s)"

definition fault_bytes :: "rbp_fault \<Rightarrow> u8 list" where
  "fault_bytes f = concat (map (le_bytes 4)
     [f_sequence f, ucast (f_domain f) OR push_bit 16 (ucast (f_stage f)), f_code f, f_context f,
      f_count f, f_board_ms f])"

definition req_get_stats :: "'w handler" where
  "req_get_stats E h rd s =
     (let (log, sequence, evicted) = rbp_fault_snapshot (s_faults s)
      in respond_ok E h
           [(1, TV_u32 (s_stat_protocol_errors s)), (2, TV_u32 (s_stat_input_resets s)),
            (3, TV_u32 (s_stat_voice_overruns s)), (4, TV_u32 (s_stat_voice_errors s)),
            (5, TV_u16 (s_reset_reason s)), (6, TV_u32 sequence),
            (7, TV_bytes (concat (map fault_bytes log))), (8, TV_u32 evicted)] s)"

definition req_goodbye :: "'w handler" where
  "req_goodbye E h rd s =
     (let closing = s_session_id s;
          committed = s_out_len s;
          s1 = (session_teardown E s)\<lparr>s_out_len := committed\<rparr>;
          s2 = respond E h RBP_STATUS_OK [] s1
      in s2\<lparr>s_ctl := (s_ctl s2)[0 := (s_ctl s2 ! 0)\<lparr>cs_session := closing\<rparr>]\<rparr>)"

section \<open>Discovery and pairing requests\<close>

text \<open>As in the pairing prompt, the identifier loop over \<open>rng_u32\<close> ends after one round.\<close>

definition req_find_start :: "'w handler" where
  "req_find_start E h rd s =
     (case rbp_tlv_get_u16 rd 1 of
        Inr (Some dur) \<Rightarrow>
          if dur < 1 \<or> 30000 < dur then
            respond_error E h RBP_STATUS_INVALID_ARGUMENT (Some ''duration 1..30000'') False s
          else if s_op_active s then respond_error E h RBP_STATUS_BUSY None False s
          else if link_up (s_link_state s) then
            respond_error E h RBP_STATUS_BAD_STATE (Some ''link active'') False s
          else
            let (sid, s1) = rng_u32 E (s\<lparr>s_find_active := True, s_find_valid := False, s_cand_count := 0\<rparr>);
                s2 = s1\<lparr>s_search_id := sid, s_find_end_ms := s_now_ms s1 + ucast dur\<rparr>;
                (status, s3) = e_start_find E dur s2
            in if status \<noteq> RBP_STATUS_OK then
                 respond_error E h status (Some ''discovery did not start'') False
                   (s3\<lparr>s_find_active := False, s_find_valid := False, s_cand_count := 0\<rparr>)
               else respond_ok E h [(1, TV_u32 (s_search_id s3))] s3
      | _ \<Rightarrow> respond_error E h RBP_STATUS_INVALID_ARGUMENT (Some ''duration 1..30000'') False s)"

text \<open>
  The paging loop of \<open>FIND_LIST\<close> and \<open>KEY_CATALOG\<close>: records are appended from a cursor while they fit
  into the 500 bytes of \<open>entries\<close> and the page has room. The result is the index reached, the bytes
  after the count byte and the count.
\<close>

function page_loop :: "(nat \<Rightarrow> u8 list) \<Rightarrow> nat \<Rightarrow> nat \<Rightarrow> nat \<Rightarrow> u8 list \<Rightarrow> nat \<Rightarrow> nat \<times> u8 list \<times> nat" where
  "page_loop rec n_recs limit i acc count =
     (if i < n_recs \<and> count < limit then
        if 500 < 1 + length acc + length (rec i) + 1 then (i, acc, count)
        else page_loop rec n_recs limit (i + 1) (acc @ rec i) (count + 1)
      else (i, acc, count))"
  by pat_completeness auto
termination
  by (relation "measure (\<lambda>(rec, n_recs, limit, i, acc, count). n_recs - i)") auto

declare page_loop.simps [simp del]

definition page_cursor :: "nat \<Rightarrow> nat \<Rightarrow> u8" where
  "page_cursor i n_recs = (if n_recs \<le> i then 255 else word_of_nat i)"

definition cand_record :: "rbp_candidate \<Rightarrow> u8 list" where
  "cand_record c = le_bytes 4 (ca_candidate_id c) @ [ca_support c, ca_signal c, ca_name_len c]
     @ take (unat (ca_name_len c)) (ca_name c)"

definition req_find_list :: "'w handler" where
  "req_find_list E h rd s =
     (case (rbp_tlv_get_u32 rd 1, rbp_tlv_get_u8 rd 2) of
        (Inr (Some sid), Inr (Some cursor)) \<Rightarrow>
          if sid \<noteq> s_search_id s \<or> (\<not> s_find_active s \<and> \<not> s_find_valid s) then
            respond_error E h RBP_STATUS_NOT_FOUND (Some ''search'') False s
          else if 8 \<le> cursor then
            respond_error E h RBP_STATUS_INVALID_ARGUMENT (Some ''cursor'') False s
          else let (i, recs, count) =
                 page_loop (\<lambda>i. cand_record (s_cand s ! i)) (s_cand_count s) 8 (unat cursor) [] 0
               in respond_ok E h [(1, TV_u8 (page_cursor i (s_cand_count s))),
                    (2, TV_bytes (word_of_nat count # recs))] s
      | _ \<Rightarrow> respond_error E h RBP_STATUS_INVALID_ARGUMENT (Some ''args'') False s)"

definition find_done_event :: "'w server_env \<Rightarrow> u8 \<Rightarrow> 'w rbp_server \<Rightarrow> 'w rbp_server" where
  "find_done_event E reason s = ctl_enqueue E RBP_KIND_EVENT RBP_OP_FIND_DONE_EV 0 0 0
     (tlv_build [(1, TV_u32 (s_search_id s)), (2, TV_u8 reason)]) s"

definition req_find_stop :: "'w handler" where
  "req_find_stop E h rd s =
     (case rbp_tlv_get_u32 rd 1 of
        Inr (Some sid) \<Rightarrow>
          if sid \<noteq> s_search_id s \<or> \<not> s_find_active s then
            respond_error E h RBP_STATUS_NOT_FOUND (Some ''search'') False s
          else
            let s1 = s\<lparr>s_find_active := False, s_find_valid := True, s_find_end_ms := s_now_ms s\<rparr>
            in find_done_event E RBP_FIND_DONE_USER_STOP
                 (e_stop_find E (respond E h RBP_STATUS_OK [] s1))
      | _ \<Rightarrow> respond_error E h RBP_STATUS_INVALID_ARGUMENT (Some ''search_id required'') False s)"

definition pair_takeover :: "'w server_env \<Rightarrow> 'w rbp_server \<Rightarrow> 'w rbp_server" where
  "pair_takeover E s =
     (if s_find_active s
      then find_done_event E RBP_FIND_DONE_PAIR_TAKEOVER (e_stop_find E (s\<lparr>s_find_active := False\<rparr>))
      else s)"

definition req_pair_begin :: "'w handler" where
  "req_pair_begin E h rd s =
     (case (rbp_tlv_get_u32 rd 1, rbp_tlv_get_u32 rd 2) of
        (Inr (Some sid), Inr (Some cid)) \<Rightarrow>
          if s_op_active s then respond_error E h RBP_STATUS_BUSY None False s
          else if s_link_state s = RBP_LINK_READY then
            respond_error E h RBP_STATUS_BAD_STATE (Some ''already connected'') False s
          else if s_peer_valid s then
            respond_error E h RBP_STATUS_BUSY (Some ''bond slot full'') False s
          else if sid \<noteq> s_search_id s
               \<or> \<not> list_ex (\<lambda>i. ca_candidate_id (s_cand s ! i) = cid) [0..<s_cand_count s]
               \<or> (\<not> s_find_valid s \<and> \<not> s_find_active s) then
            respond_error E h RBP_STATUS_NOT_FOUND (Some ''candidate'') False s
          else
            let s1 = op_begin OPK_PAIR h (pair_takeover E s);
                s2 = s1\<lparr>s_op_deadline_ms := s_now_ms s1 + PAIR_DEADLINE_MS\<rparr>
            in e_pair_begin E cid (respond E h RBP_STATUS_ACCEPTED (accepted_payload (h_request_id h)) s2)
      | _ \<Rightarrow> respond_error E h RBP_STATUS_INVALID_ARGUMENT (Some ''args'') False s)"

definition req_pair_reply :: "'w handler" where
  "req_pair_reply E h rd s =
     (case (rbp_tlv_get_u32 rd 1, rbp_tlv_get_u32 rd 2, rbp_tlv_get_bool rd 3, rbp_tlv_get_u32 rd 4) of
        (Inr (Some op_id), Inr (Some pid), Inr (Some accept), Inr pk) \<Rightarrow>
          let f_pk = (pk \<noteq> None); passkey = (case pk of None \<Rightarrow> 0 | Some v \<Rightarrow> v) in
          if f_pk \<and> 999999 < passkey then
            respond_error E h RBP_STATUS_INVALID_ARGUMENT (Some ''passkey range'') False s
          else if \<not> s_op_active s \<or> s_op_kind s \<noteq> OPK_PAIR \<or> op_id \<noteq> s_op_id s
               \<or> \<not> s_prompt_active s \<or> pid \<noteq> s_prompt_id s then
            respond_error E h RBP_STATUS_NOT_FOUND (Some ''prompt'') False s
          else if f_pk \<and> s_prompt_method s \<noteq> RBP_PROMPT_ENTER_PASSKEY then
            respond_error E h RBP_STATUS_INVALID_ARGUMENT (Some ''passkey not expected'') False s
          else if s_prompt_method s = RBP_PROMPT_DISPLAY_PASSKEY then
            respond_error E h RBP_STATUS_INVALID_ARGUMENT
              (Some ''display only; cancel operation to reject'') False s
          else if accept \<and> \<not> f_pk \<and> s_prompt_method s = RBP_PROMPT_ENTER_PASSKEY then
            respond_error E h RBP_STATUS_INVALID_ARGUMENT (Some ''passkey required'') False s
          else e_pair_reply E accept f_pk passkey
                 (respond E h RBP_STATUS_OK [] (s\<lparr>s_prompt_active := False\<rparr>))
      | _ \<Rightarrow> respond_error E h RBP_STATUS_INVALID_ARGUMENT (Some ''args'') False s)"

definition req_pair_cancel :: "'w handler" where
  "req_pair_cancel E h rd s =
     (case rbp_tlv_get_u32 rd 1 of
        Inr (Some op_id) \<Rightarrow>
          if \<not> s_op_active s \<or> s_op_kind s \<noteq> OPK_PAIR \<or> op_id \<noteq> s_op_id s then
            respond_error E h RBP_STATUS_NOT_FOUND (Some ''operation'') False s
          else request_pair_cancel E (respond E h RBP_STATUS_OK [] (s\<lparr>s_prompt_active := False\<rparr>))
      | _ \<Rightarrow> respond_error E h RBP_STATUS_INVALID_ARGUMENT (Some ''operation_id required'') False s)"

definition req_forget_peer :: "'w handler" where
  "req_forget_peer E h rd s =
     (case rbp_tlv_get_u32 rd 1 of
        Inr (Some pid) \<Rightarrow>
          if s_op_active s then respond_error E h RBP_STATUS_BUSY None False s
          else if \<not> s_peer_valid s \<or> pid \<noteq> pr_peer_id (s_peer s) then
            respond_error E h RBP_STATUS_NOT_FOUND (Some ''peer'') False s
          else
            let s1 = op_begin OPK_FORGET h s;
                s2 = s1\<lparr>s_op_deadline_ms := s_now_ms s1 + FORGET_DEADLINE_MS, s_reconnect_paused := True\<rparr>
            in e_forget_peer E (respond E h RBP_STATUS_ACCEPTED (accepted_payload (h_request_id h)) s2)
      | _ \<Rightarrow> respond_error E h RBP_STATUS_INVALID_ARGUMENT (Some ''peer_id required'') False s)"

definition req_set_reconnect :: "'w handler" where
  "req_set_reconnect E h rd s =
     (case (rbp_tlv_get_u32 rd 1, rbp_tlv_get_bool rd 2) of
        (Inr (Some pid), Inr (Some enabled)) \<Rightarrow>
          if \<not> s_peer_valid s \<or> pid \<noteq> pr_peer_id (s_peer s) then
            respond_error E h RBP_STATUS_NOT_FOUND (Some ''peer'') False s
          else if pr_auto_reconnect (s_peer s) = enabled then
            respond E h RBP_STATUS_OK [] (if enabled then s\<lparr>s_reconnect_paused := False\<rparr> else s)
          else
            let previous = s_peer s;
                s1 = s\<lparr>s_peer := (s_peer s)\<lparr>pr_auto_reconnect := enabled\<rparr>\<rparr>;
                (saved, s2) = (case e_save E of None \<Rightarrow> (False, s1)
                    | Some save \<Rightarrow> let (ok, w) = save (s_peer s1) (s_world s1) in (ok, s1\<lparr>s_world := w\<rparr>))
            in if \<not> saved then
                 respond_error E h RBP_STATUS_STORAGE_FAILED None False
                   (s2\<lparr>s_peer := (s_peer s2)\<lparr>pr_auto_reconnect := pr_auto_reconnect previous\<rparr>\<rparr>)
               else respond E h RBP_STATUS_OK []
                      (if enabled then s2\<lparr>s_reconnect_paused := False\<rparr> else s2)
      | _ \<Rightarrow> respond_error E h RBP_STATUS_INVALID_ARGUMENT (Some ''args'') False s)"

definition req_connect_peer :: "'w handler" where
  "req_connect_peer E h rd s =
     (if s_op_active s then respond_error E h RBP_STATUS_BUSY None False s
      else case rbp_tlv_get_u32 rd 1 of
        Inr (Some pid) \<Rightarrow>
          if \<not> s_peer_valid s \<or> pr_peer_id (s_peer s) \<noteq> pid then
            respond_error E h RBP_STATUS_NOT_FOUND (Some ''peer'') False s
          else if s_link_state s = RBP_LINK_READY then
            respond_error E h RBP_STATUS_BAD_STATE (Some ''already connected'') False s
          else if s_link_state s = RBP_LINK_CONNECTING \<or> s_link_state s = RBP_LINK_PAIRING
               \<or> s_link_state s = RBP_LINK_INITIALIZING then respond E h RBP_STATUS_OK [] s
          else if \<not> s_peer_valid s then
            respond_error E h RBP_STATUS_NOT_FOUND (Some ''peer'') False s
          else respond E h RBP_STATUS_OK [] (e_connect_peer E (s\<lparr>s_reconnect_paused := False\<rparr>))
      | _ \<Rightarrow> respond_error E h RBP_STATUS_INVALID_ARGUMENT (Some ''peer_id required'') False s)"

definition req_disconnect :: "'w handler" where
  "req_disconnect E h rd s =
     (let s1 = s\<lparr>s_reconnect_paused := True, s_voice_resume_peer := 0\<rparr>;
          s2 = (if link_up (s_link_state s1) then e_disconnect E s1 else s1)
      in respond E h RBP_STATUS_OK [] s2)"

section \<open>Key requests\<close>

text \<open>A name of more than 32 bytes is cut in the catalog.\<close>

definition key_record :: "rbp_device_profile \<Rightarrow> nat \<Rightarrow> u8 list" where
  "key_record prof i =
     (let (key_id, name) = dp_keys prof ! i;
          nl = (if 32 < length name then 32 else length name)
      in [word_of_nat i, ucast (key_id AND 0xFF), ucast (drop_bit 8 key_id), word_of_nat nl]
         @ take nl (cstr name))"

definition req_key_catalog :: "'w handler" where
  "req_key_catalog E h rd s =
     (if \<not> conn_ready_for s h then respond_error E h (not_ready_status s) None False s
      else case rbp_tlv_get_u8 rd 1 of
        Inl RBP_TLV_ERR_MALFORMED \<Rightarrow> respond_error E h RBP_STATUS_INVALID_ARGUMENT (Some ''tlv'') False s
      | Inl RBP_TLV_ERR_TYPE \<Rightarrow> respond_error E h RBP_STATUS_INVALID_ARGUMENT (Some ''tlv'') False s
      | r \<Rightarrow>
          let cursor = (case r of Inr (Some c) \<Rightarrow> c | _ \<Rightarrow> 0) in
          (case s_profile s of
             None \<Rightarrow> respond_error E h RBP_STATUS_BAD_STATE (Some ''catalog'') False s
           | Some prof \<Rightarrow>
               if key_count prof \<le> unat cursor then
                 respond_error E h RBP_STATUS_INVALID_ARGUMENT (Some ''cursor'') False s
               else let (i, recs, count) = page_loop (key_record prof) (key_count prof) 12 (unat cursor) [] 0
                    in respond_ok E h [(1, TV_u32 (catalog_revision prof)),
                         (2, TV_u8 (page_cursor i (key_count prof))),
                         (3, TV_bytes (word_of_nat count # recs))] s))"

definition req_keys_snapshot :: "'w handler" where
  "req_keys_snapshot E h rd s =
     (if \<not> conn_ready_for s h then respond_error E h (not_ready_status s) None False s
      else respond E h RBP_STATUS_OK
             (keys_struct (s_input_seq s) (s_keys_captured_us s) (s_pressed_bits s) RBP_KEYS_KIND_SNAPSHOT 0) s)"

definition req_events_enable :: "'w handler" where
  "req_events_enable E h rd s =
     (if \<not> conn_ready_for s h then respond_error E h (not_ready_status s) None False s
      else case rbp_tlv_get_bool rd 1 of
        Inr (Some enabled) \<Rightarrow>
          if enabled then
            let s1 = (respond E h RBP_STATUS_OK [] s)\<lparr>s_events_enabled := True\<rparr>
            in keys_emit RBP_KEYS_KIND_SNAPSHOT RBP_KEYS_REASON_NONE (s_pressed_bits s1)
                 (s_keys_captured_us s1) s1
          else respond E h RBP_STATUS_OK []
                 (s\<lparr>s_events_enabled := False, s_key_q_head := 0, s_key_q_count := 0\<rparr>)
      | _ \<Rightarrow> respond_error E h RBP_STATUS_INVALID_ARGUMENT (Some ''enabled required'') False s)"

section \<open>Voice requests\<close>

definition codec_entry :: "rbp_codec \<Rightarrow> u8 list" where
  "codec_entry c = audio_put (ucast (co_id c)) 4 @ audio_put (ucast (co_revision c)) 2"

definition req_get_voice_caps :: "'w handler" where
  "req_get_voice_caps E h rd s =
     (if h_connection_id h = 0 \<or> h_connection_id h \<noteq> s_connection_id s then
        respond_error E h RBP_STATUS_LINK_LOST None False s
      else let (codecs, max_unit) =
             (case s_voice_caps s of
                None \<Rightarrow> ([], 0)
              | Some c \<Rightarrow>
                  if s_voice_state s = RBP_VOICE_READY \<and> length (ac_codecs c) \<le> 16
                  then (ac_codecs c, if ac_codecs c \<noteq> [] then ac_max_unit_bytes c else 0) else ([], 0))
           in respond_ok E h [(1, TV_bytes (concat (map codec_entry codecs))), (2, TV_u32 max_unit),
                (3, TV_u16 256)] s)"

text \<open>
  The scan over the client's codec list: it must ascend strictly; the result is \<open>None\<close> for a bad list
  and otherwise whether it meets what the adapter offers.
\<close>

fun codec_scan :: "rbp_audio_caps option \<Rightarrow> (u32 \<times> u16) list \<Rightarrow> u32 \<Rightarrow> u16 \<Rightarrow> bool \<Rightarrow> bool option" where
  "codec_scan caps [] last_id last_rev intersects = Some intersects"
| "codec_scan caps ((cid, rv) # cs) last_id last_rev intersects =
     (if cid = 0 \<or> 0x80000000 \<le> cid \<or> rv = 0 \<or> cid < last_id \<or> (cid = last_id \<and> rv \<le> last_rev)
      then None
      else codec_scan caps cs cid rv
             (intersects \<or> (case caps of None \<Rightarrow> False
                | Some c \<Rightarrow> list_ex (\<lambda>k. co_id k = cid \<and> co_revision k = rv) (ac_codecs c))))"

text \<open>The checks on an enabling request; \<open>None\<close> lets it pass, \<open>Some\<close> is the status of the refusal.\<close>

definition voice_enable_check :: "u8 list option \<Rightarrow> u32 option \<Rightarrow> 'w rbp_server \<Rightarrow> u16 option" where
  "voice_enable_check codecs max_unit s =
     (case (codecs, max_unit) of
        (Some cs, Some m) \<Rightarrow>
          if cs = [] \<or> 96 < length cs \<or> length cs mod 6 \<noteq> 0 \<or> m = 0 \<or> RBP_AUDIO_UNIT_MAX < m
          then Some RBP_STATUS_INVALID_ARGUMENT
          else (case codec_scan (s_voice_caps s) (map (codec_at cs) (codec_steps (length cs))) 0 0 False of
              None \<Rightarrow> Some RBP_STATUS_INVALID_ARGUMENT
            | Some intersects \<Rightarrow>
                if s_voice_state s = RBP_VOICE_READY
                   \<and> (\<not> intersects \<or> (case s_voice_caps s of None \<Rightarrow> True
                        | Some c \<Rightarrow> m < ac_max_unit_bytes c)) then Some RBP_STATUS_UNSUPPORTED
                else if (s_delivering s \<or> s_waiting_idle s)
                   \<and> (s_accepted_len s \<noteq> length cs \<or> s_accepted_max_unit s \<noteq> m
                       \<or> take (length cs) (s_accepted_codecs s) \<noteq> cs) then Some RBP_STATUS_BUSY
                else if s_voice_state s \<noteq> RBP_VOICE_READY then Some RBP_STATUS_VOICE_UNAVAILABLE
                else None)
      | _ \<Rightarrow> Some RBP_STATUS_INVALID_ARGUMENT)"

definition voice_enable_on ::
    "'w server_env \<Rightarrow> rbp_header \<Rightarrow> u8 list \<Rightarrow> u32 \<Rightarrow> 'w rbp_server \<Rightarrow> 'w rbp_server" where
  "voice_enable_on E h codecs max_unit s =
     (let s1 = s\<lparr>s_accepted_codecs := memcpy_at (s_accepted_codecs s) 0 codecs,
                 s_accepted_len := length codecs, s_accepted_max_unit := max_unit,
                 s_voice_denied := False,
                 s_voice_resume_peer := (if s_peer_valid s then pr_peer_id (s_peer s) else 0)\<rparr>;
          s2 = (if \<not> s_voice_enabled s1
                then s1\<lparr>s_voice_enabled := True, s_waiting_idle := s_source_active s1\<rparr> else s1)
      in respond_ok E h [(1, TV_bool True), (2, TV_bool (s_waiting_idle s2))] s2)"

definition voice_enable_off :: "'w server_env \<Rightarrow> rbp_header \<Rightarrow> 'w rbp_server \<Rightarrow> 'w rbp_server" where
  "voice_enable_off E h s =
     (let was = s_voice_enabled s;
          s1 = s\<lparr>s_accepted_len := 0, s_accepted_max_unit := 0, s_voice_resume_peer := 0,
                 s_voice_denied := True, s_voice_enabled := False, s_waiting_idle := False\<rparr>;
          s2 = (if \<not> s_delivering s1 \<and> (s_source_active s1 \<or> was) then e_voice_request_stop E s1 else s1)
      in if s_delivering s2 then
           let s3 = (voice_finish_stream E RBP_END_CONSUMER_DISABLED True s2)
                      \<lparr>s_voice_ok_deferred := True, s_voice_ok_deferred_opcode := h_opcode h,
                       s_voice_ok_deferred_req := h_request_id h,
                       s_voice_ok_deferred_conn := h_connection_id h,
                       s_voice_ok_deferred_is_enable := True\<rparr>
           in if was then e_voice_request_stop E s3 else s3
         else respond_ok E h [(1, TV_bool False), (2, TV_bool False)] s2)"

definition req_voice_enable :: "'w handler" where
  "req_voice_enable E h rd s =
     (case rbp_tlv_get_bool rd 1 of
        Inr (Some enabled) \<Rightarrow>
          if (enabled \<and> \<not> conn_ready_for s h)
             \<or> (\<not> enabled \<and> h_connection_id h \<noteq> 0 \<and> h_connection_id h \<noteq> s_connection_id s) then
            respond_error E h (not_ready_status s) None False s
          else (case (rbp_tlv_get_bytes rd 2, rbp_tlv_get_u32 rd 3) of
              (Inr codecs, Inr max_unit) \<Rightarrow>
                if \<not> enabled \<and> (codecs \<noteq> None \<or> max_unit \<noteq> None) then
                  respond_error E h RBP_STATUS_INVALID_ARGUMENT None False s
                else if enabled then
                  (case voice_enable_check codecs max_unit s of
                     Some status \<Rightarrow> respond_error E h status None False s
                   | None \<Rightarrow> voice_enable_on E h (the codecs) (the max_unit) s)
                else voice_enable_off E h s
            | _ \<Rightarrow> respond_error E h RBP_STATUS_INVALID_ARGUMENT None False s)
      | _ \<Rightarrow> respond_error E h RBP_STATUS_INVALID_ARGUMENT (Some ''enabled required'') False s)"

definition req_voice_start :: "'w handler" where
  "req_voice_start E h rd s =
     (if \<not> conn_ready_for s h then respond_error E h RBP_STATUS_LINK_LOST None False s
      else if s_voice_state s \<noteq> RBP_VOICE_READY then
        respond_error E h RBP_STATUS_VOICE_UNAVAILABLE None False s
      else if \<not> s_voice_enabled s then
        respond_error E h RBP_STATUS_BAD_STATE (Some ''voice not enabled'') False s
      else if s_source_active s \<or> s_delivering s \<or> s_ending s \<or> s_waiting_idle s then
        respond_error E h RBP_STATUS_BUSY (Some ''previous capture not idle'') False s
      else case e_voice_request_start E of
        None \<Rightarrow> respond_error E h RBP_STATUS_UNSUPPORTED None False s
      | Some start \<Rightarrow>
          (let (status, w) = start (s_world s);
               s1 = s\<lparr>s_world := w\<rparr>
           in if status \<noteq> RBP_STATUS_OK then respond_error E h status None False s1
              else respond E h RBP_STATUS_OK [] s1))"

definition req_voice_stop :: "'w handler" where
  "req_voice_stop E h rd s =
     (if \<not> conn_ready_for s h then respond_error E h (not_ready_status s) None False s
      else case rbp_tlv_get_u32 rd 1 of
        Inr (Some sid) \<Rightarrow>
          if \<not> s_delivering s \<or> sid \<noteq> s_stream_id s then
            respond_error E h RBP_STATUS_NOT_FOUND (Some ''stream'') False s
          else
            let s1 = (if \<not> s_stop_requested s
                      then e_voice_request_stop E
                             (s\<lparr>s_stop_requested := True, s_stop_deadline_ms := s_now_ms s + VOICE_STOP_MS\<rparr>)
                      else s)
            in respond E h RBP_STATUS_OK [] s1
      | _ \<Rightarrow> respond_error E h RBP_STATUS_INVALID_ARGUMENT (Some ''stream_id required'') False s)"

section \<open>Dispatch\<close>

text \<open>The loop that walks the whole envelope before any field is read.\<close>

function tlv_envelope :: "rbp_tlv_reader \<Rightarrow> bool" where
  "tlv_envelope rd =
     (if tr_pos rd < length (tr_buf rd) then
        (case rbp_tlv_next rd of (rd', Inl e) \<Rightarrow> False | (rd', Inr item) \<Rightarrow> tlv_envelope rd')
      else True)"
  by pat_completeness auto
termination
  by (relation "measure (\<lambda>r. length (tr_buf r) - tr_pos r)")
    (auto dest!: sym [of _ "rbp_tlv_next _"] intro: rbp_tlv_next_measure)

declare tlv_envelope.simps [simp del]

definition request_handler :: "u16 \<Rightarrow> 'w handler" where
  "request_handler opcode =
     (if opcode = RBP_OP_PING then req_ping
      else if opcode = RBP_OP_GET_DEVICE then req_get_device
      else if opcode = RBP_OP_GET_PEER then req_get_peer
      else if opcode = RBP_OP_GET_OPERATION then req_get_operation
      else if opcode = RBP_OP_GET_STATS then req_get_stats
      else if opcode = RBP_OP_GOODBYE then req_goodbye
      else if opcode = RBP_OP_FIND_START then req_find_start
      else if opcode = RBP_OP_FIND_LIST then req_find_list
      else if opcode = RBP_OP_FIND_STOP then req_find_stop
      else if opcode = RBP_OP_PAIR_BEGIN then req_pair_begin
      else if opcode = RBP_OP_PAIR_REPLY then req_pair_reply
      else if opcode = RBP_OP_PAIR_CANCEL then req_pair_cancel
      else if opcode = RBP_OP_FORGET_PEER then req_forget_peer
      else if opcode = RBP_OP_SET_RECONNECT then req_set_reconnect
      else if opcode = RBP_OP_CONNECT_PEER then req_connect_peer
      else if opcode = RBP_OP_DISCONNECT then req_disconnect
      else if opcode = RBP_OP_KEY_CATALOG then req_key_catalog
      else if opcode = RBP_OP_KEYS_SNAPSHOT then req_keys_snapshot
      else if opcode = RBP_OP_EVENTS_ENABLE then req_events_enable
      else if opcode = RBP_OP_GET_VOICE_CAPS then req_get_voice_caps
      else if opcode = RBP_OP_VOICE_ENABLE then req_voice_enable
      else if opcode = RBP_OP_VOICE_START then req_voice_start
      else if opcode = RBP_OP_VOICE_STOP then req_voice_stop
      else (\<lambda>E h rd s. respond_error E h RBP_STATUS_UNSUPPORTED None False s))"

definition dispatch_request ::
    "'w server_env \<Rightarrow> rbp_header \<Rightarrow> u8 list \<Rightarrow> 'w rbp_server \<Rightarrow> 'w rbp_server" where
  "dispatch_request E h payload s =
     (if h_opcode h < 0x200 \<and> h_connection_id h \<noteq> 0 then
        respond_error E h RBP_STATUS_INVALID_ARGUMENT (Some ''management connection must be zero'') False s
      else if \<not> tlv_envelope (rbp_tlv_reader_init payload) then
        respond_error E h RBP_STATUS_INVALID_ARGUMENT (Some ''malformed TLV'') False s
      else request_handler (h_opcode h) E h (rbp_tlv_reader_init payload) s)"

section \<open>Received frames\<close>

definition process_frame ::
    "'w server_env \<Rightarrow> rbp_header \<Rightarrow> u8 list \<Rightarrow> bool \<Rightarrow> 'w rbp_server \<Rightarrow> 'w rbp_server" where
  "process_frame E h payload crc_ok s =
     (let err = s\<lparr>s_stat_protocol_errors := s_stat_protocol_errors s + 1\<rparr> in
      if \<not> crc_ok then (if s_session_active s then session_teardown E err else s)
      else if unat (h_payload_size h) \<noteq> length payload \<or> h_flags h \<noteq> 0 \<or> h_reserved h \<noteq> 0
              \<or> h_status h \<noteq> 0
      then (if s_session_active err then session_teardown E err else err)
      else if h_kind h \<noteq> RBP_KIND_REQUEST then (if s_session_active s then err else s)
      else if h_opcode h = RBP_OP_HELLO then handle_hello E h payload s
      else if h_major h \<noteq> RBP_MAJOR \<or> h_minor h \<noteq> RBP_MINOR
      then (if s_session_active s then session_teardown E s else s)
      else if \<not> s_session_active s \<or> h_session_id h \<noteq> s_session_id s then s
      else if h_tx_seq h = 0 \<or> s_client_tx_hwm s = UINT32_MAX \<or> h_tx_seq h \<noteq> s_client_tx_hwm s + 1
      then session_teardown E err
      else let s1 = s\<lparr>s_client_tx_hwm := h_tx_seq h, s_last_req_ms := s_now_ms s\<rparr>
           in if h_request_id h = 0 then
                respond_error E h RBP_STATUS_INVALID_ARGUMENT (Some ''request_id required'') False s1
              else if h_request_id h \<le> s_req_hwm s1 then
                respond_error E h RBP_STATUS_DUPLICATE None False s1
              else dispatch_request E h payload (s1\<lparr>s_req_hwm := h_request_id h\<rparr>))"

definition server_rx_event :: "'w server_env \<Rightarrow> rbp_rx_ctx \<Rightarrow> 'w rbp_server \<Rightarrow> 'w rbp_server" where
  "server_rx_event E ctx s =
     (if cx_event ctx = RBP_RX_FRAME
      then process_frame E (cx_header ctx) (cx_payload ctx) (cx_crc_ok ctx) s
      else if cx_event ctx \<noteq> RBP_RX_NONE \<and> s_session_active s
      then session_teardown E (s\<lparr>s_stat_protocol_errors := s_stat_protocol_errors s + 1\<rparr>)
      else s)"

text \<open>The parser is a member of the server that no event handler touches while it drains.\<close>

definition rbp_server_on_usb_rx ::
    "'w server_env \<Rightarrow> u8 list \<Rightarrow> u32 \<Rightarrow> 'w rbp_server \<Rightarrow> 'w rbp_server" where
  "rbp_server_on_usb_rx E data now s0 =
     (let s = s0\<lparr>s_now_ms := now\<rparr>;
          (p, ctx, s1) = rbp_rx_drain (s_rx s) data now (s_rx_ctx s) (server_rx_event E) s
      in s1\<lparr>s_rx := p, s_rx_ctx := ctx\<rparr>)"

end
