(* ===== verification/Server_Queues.thy ===== *)
theory Server_Queues
  imports Server_Requests
begin

text \<open>
  The queues of the server as lists: bytes waiting in the output ring, control messages in their
  slots, key states, media frames in the audio pool. Each queue has a well-formedness predicate on the
  fields that hold it, and the lemmas say what every primitive does to the list it stands for.
\<close>

section \<open>Byte rings\<close>

definition ring_ok :: "nat \<Rightarrow> 'a list \<Rightarrow> nat \<Rightarrow> nat \<Rightarrow> bool" where
  "ring_ok cap ring head len \<longleftrightarrow> length ring = cap \<and> head < cap \<and> len \<le> cap"

lemma mod_cap_cases:
  assumes "a < cap" and "k \<le> cap"
  shows "(a + k) mod cap = (if a + k < cap then a + k else a + k - (cap :: nat))"
  using assms by (auto simp: mod_if)

lemma tail_mod:
  "head < cap \<Longrightarrow> len \<le> cap \<Longrightarrow>
     (if cap \<le> head + len then head + len - cap else head + len) = (head + len) mod (cap :: nat)"
  by (auto simp: mod_if)

text \<open>Writing \<open>data\<close> at \<open>tail\<close> with the wrap split in two copies.\<close>

lemma wrap_copy_nth:
  fixes data :: "'a list"
  assumes "length ring = cap" and "tail < cap" and "length data \<le> cap"
    and "f = (if length data < cap - tail then length data else cap - tail)"
    and "ring1 = memcpy_at ring tail (take f data)"
    and "ring2 = (if f < length data then memcpy_at ring1 0 (drop f data) else ring1)"
  shows "length ring2 = cap"
    and "k < length data \<Longrightarrow> ring2 ! ((tail + k) mod cap) = data ! k"
    and "j < cap \<Longrightarrow> (\<And>k. k < length data \<Longrightarrow> (tail + k) mod cap \<noteq> j) \<Longrightarrow> ring2 ! j = ring ! j"
proof -
  have f: "f \<le> length data" "tail + f \<le> cap" "f < length data \<Longrightarrow> tail + f = cap"
    using assms(2,4) by auto
  have l1: "length ring1 = cap"
    using f assms by simp
  have l2: "length data - f \<le> tail" if "f < length data"
    using f(3) [OF that] assms(3) by simp
  have nth1: "ring1 ! j = (if tail \<le> j \<and> j < tail + f then data ! (j - tail) else ring ! j)" for j
    using f assms(1) by (auto simp: assms(5) nth_memcpy_at)
  have nth2: "ring2 ! j = (if j < length data - f then data ! (f + j) else ring1 ! j)" for j
    using f l1 l2 assms(2) by (auto simp: assms(6) nth_memcpy_at)
  show "length ring2 = cap"
    using l1 l2 assms(2) by (auto simp: assms(6))
  show "ring2 ! ((tail + k) mod cap) = data ! k" if "k < length data"
  proof (cases "k < f")
    case True
    then show ?thesis
      using f l2 by (cases "f < length data") (auto simp: nth1 nth2)
  next
    case False
    then have "f < length data" using that by simp
    then have "(tail + k) mod cap = k - f"
      using f(3) False that assms(2,3) by (subst mod_cap_cases) auto
    then show ?thesis
      using False that by (simp add: nth2 add_diff_inverse_nat diff_less_mono)
  qed
  show "ring2 ! j = ring ! j"
    if "j < cap" and out: "\<And>k. k < length data \<Longrightarrow> (tail + k) mod cap \<noteq> j"
  proof -
    have "\<not> (tail \<le> j \<and> j < tail + f)"
    proof
      assume "tail \<le> j \<and> j < tail + f"
      then have "j - tail < length data" "(tail + (j - tail)) mod cap = j"
        using f(1) that(1) by auto
      then show False using out by blast
    qed
    moreover have "\<not> j < length data - f"
    proof
      assume "j < length data - f"
      then have "f + j < length data" "tail + f = cap" using f by auto
      moreover have "(tail + (f + j)) mod cap = j"
        using \<open>tail + f = cap\<close> that(1) by (simp flip: add.assoc)
      ultimately show False using out [of "f + j"] by simp
    qed
    ultimately show ?thesis by (auto simp: nth1 nth2)
  qed
qed

lemma ring_write_ok:
  assumes ok: "ring_ok cap ring head len" and room: "length data \<le> cap - len"
    and w: "ring_write ring cap head len data = (b, ring', len')"
  shows "b" and "len' = len + length data" and "ring_ok cap ring' head len'"
    and "ring_items ring' head len' = ring_items ring head len @ data"
    and "i < cap \<Longrightarrow> i < len \<or> len + length data \<le> i \<Longrightarrow>
           ring' ! ((head + i) mod cap) = ring ! ((head + i) mod cap)"
proof -
  define tail where "tail = (head + len) mod cap"
  define f where "f = (if length data < cap - tail then length data else cap - tail)"
  define ring1 where "ring1 = memcpy_at ring tail (take f data)"
  have cap: "head < cap" "len \<le> cap" "length ring = cap" "tail < cap"
    using ok by (simp_all add: ring_ok_def tail_def)
  have "\<not> cap - len < length data" using room by simp
  then have written: "ring_write ring cap head len data =
      (True, if f < length data then memcpy_at ring1 0 (drop f data) else ring1, len + length data)"
    unfolding ring_write_def Let_def tail_mod [OF cap(1,2)] f_def ring1_def tail_def by (simp only: if_False)
  have w': "b" "len' = len + length data"
    "ring' = (if f < length data then memcpy_at ring1 0 (drop f data) else ring1)"
    using w by (simp_all add: written)
  note nth = wrap_copy_nth [OF cap(3) cap(4) _ f_def ring1_def w'(3)]
  have n: "length data \<le> cap" using room by simp
  show "b" "len' = len + length data" by (fact w')+
  show "ring_ok cap ring' head len'"
    using nth(1) [OF n] cap room w'(2) by (simp add: ring_ok_def)
  have new: "ring' ! ((head + len + k) mod cap) = data ! k" if "k < length data" for k
    using nth(2) [OF n that] by (simp add: tail_def mod_add_left_eq)
  show old: "ring' ! ((head + i) mod cap) = ring ! ((head + i) mod cap)"
    if "i < cap" "i < len \<or> len + length data \<le> i" for i
  proof (rule nth(3) [OF n])
    show "(head + i) mod cap < cap" using cap by simp
    fix k assume "k < length data"
    then have "len + k < cap" "len + k \<noteq> i" using room that by auto
    then show "(tail + k) mod cap \<noteq> (head + i) mod cap"
      using ring_slot_inject [of "len + k" cap i head] that cap
      by (auto simp: tail_def mod_add_left_eq add.assoc)
  qed
  show "ring_items ring' head len' = ring_items ring head len @ data"
  proof (rule nth_equalityI)
    fix i assume "i < length (ring_items ring' head len')"
    then show "ring_items ring' head len' ! i = (ring_items ring head len @ data) ! i"
      using old [of i] new [of "i - len"] nth(1) [OF n] cap w'(2) room
      by (cases "i < len") (auto simp: nth_ring_items nth_append)
  qed (simp add: w'(2))
qed

lemma ring_write_full: "cap - len < length data \<Longrightarrow> ring_write ring cap head len data = (False, ring, len)"
  by (simp add: ring_write_def)

text \<open>A chunk that does not cross the end of the array is the front of the list.\<close>

lemma ring_chunk:
  assumes "ring_ok cap ring head len" and "n \<le> len" and "n \<le> cap - head"
  shows "take n (drop head ring) = take n (ring_items ring head len)"
proof (rule nth_equalityI)
  show "length (take n (drop head ring)) = length (take n (ring_items ring head len))"
    using assms by (simp add: ring_ok_def min_def)
  fix i assume "i < length (take n (drop head ring))"
  then show "take n (drop head ring) ! i = take n (ring_items ring head len) ! i"
    using assms by (auto simp: ring_ok_def nth_ring_items)
qed

lemma ring_drop_ok:
  "ring_ok cap ring head len \<Longrightarrow> n \<le> len \<Longrightarrow> ring_ok cap ring ((head + n) mod cap) (len - n)"
  by (auto simp: ring_ok_def)

lemma ring_items_drop_ok:
  "ring_ok cap ring head len \<Longrightarrow> n \<le> len \<Longrightarrow>
     ring_items ring ((head + n) mod cap) (len - n) = drop n (ring_items ring head len)"
  using ring_items_drop [of n len ring head] by (simp add: ring_ok_def)

lemma ring_items_take: "n \<le> len \<Longrightarrow> ring_items ring head n = take n (ring_items ring head len)"
  by (simp add: ring_items_def take_map)

section \<open>The control queue\<close>

text \<open>
  A list of slot indices stands for the queue: the used slots, each once, in the order in which their
  payloads lie end to end in the byte area.
\<close>

fun tiles :: "(nat \<times> nat) list \<Rightarrow> nat \<Rightarrow> nat \<Rightarrow> bool" where
  "tiles [] a b \<longleftrightarrow> a = b"
| "tiles ((off, len) # xs) a b \<longleftrightarrow> off = a \<and> tiles xs (a + len) b"

definition slot_span :: "ctl_slot \<Rightarrow> nat \<times> nat" where
  "slot_span sl = (cs_offset sl, cs_len sl)"

definition ctl_rep :: "ctl_slot list \<Rightarrow> nat \<Rightarrow> nat list \<Rightarrow> bool" where
  "ctl_rep slots bytes ids \<longleftrightarrow> distinct ids \<and> set ids = {i. i < length slots \<and> cs_used (slots ! i)}
     \<and> tiles (map (\<lambda>i. slot_span (slots ! i)) ids) 0 bytes
     \<and> (\<forall>i \<in> set ids. cs_len (slots ! i) \<le> RBP_MAX_PAYLOAD)"

definition ctl_ok :: "nat \<Rightarrow> nat \<Rightarrow> ctl_slot list \<Rightarrow> u8 list \<Rightarrow> nat \<Rightarrow> bool" where
  "ctl_ok n_slots n_bytes slots payload bytes \<longleftrightarrow> length slots = n_slots \<and> length payload = n_bytes
     \<and> bytes \<le> n_bytes \<and> (\<exists>ids. ctl_rep slots bytes ids)"

definition slot_msg :: "ctl_slot list \<Rightarrow> u8 list \<Rightarrow> nat \<Rightarrow> ctl_slot \<times> u8 list" where
  "slot_msg slots payload i =
     ((slots ! i)\<lparr>cs_offset := 0\<rparr>, take (cs_len (slots ! i)) (drop (cs_offset (slots ! i)) payload))"

lemma tiles_append: "tiles (xs @ ys) a c \<longleftrightarrow> (\<exists>b. tiles xs a b \<and> tiles ys b c)"
  by (induction xs arbitrary: a) auto

lemma tiles_le: "tiles xs a b \<Longrightarrow> a \<le> b"
proof (induction xs arbitrary: a)
  case (Cons x xs)
  then show ?case by (cases x) (use add_leD1 in force)
qed simp

lemma tiles_bound: "tiles xs a b \<Longrightarrow> (off, len) \<in> set xs \<Longrightarrow> a \<le> off \<and> off + len \<le> b"
proof (induction xs arbitrary: a)
  case (Cons x xs)
  obtain o' l where x: "x = (o', l)" by fastforce
  then have t: "o' = a" "tiles xs (a + l) b" using Cons.prems by auto
  then show ?case
    using Cons.IH [OF t(2)] Cons.prems(2) tiles_le [OF t(2)] x by auto
qed simp

text \<open>Shifting the spans behind a removed one closes the gap.\<close>

lemma tiles_shift:
  "tiles xs (a + len) b \<Longrightarrow> tiles (map (\<lambda>(o', l). (o' - len, l)) xs) a (b - len)"
proof (induction xs arbitrary: a)
  case (Cons x xs)
  obtain o' l where x: "x = (o', l)" by fastforce
  then have t: "o' = a + len" "tiles xs ((a + l) + len) b"
    using Cons.prems by (simp_all add: add.commute add.left_commute)
  then show ?case using Cons.IH [OF t(2)] x by simp
qed simp

lemma ctl_rep_bound:
  assumes "ctl_rep slots bytes ids" and "i \<in> set ids"
  shows "cs_offset (slots ! i) + cs_len (slots ! i) \<le> bytes"
  using assms tiles_bound [of "map (\<lambda>i. slot_span (slots ! i)) ids" 0 bytes]
  by (force simp: ctl_rep_def slot_span_def)

lemma ctl_rep_clear: "ctl_rep (map (\<lambda>sl. sl\<lparr>cs_used := False\<rparr>) slots) 0 []"
  by (auto simp: ctl_rep_def)

lemma ctl_rep_push:
  assumes "ctl_rep slots bytes ids" and "i < length slots" and "\<not> cs_used (slots ! i)"
    and "cs_used sl" and "cs_offset sl = bytes" and "cs_len sl = n" and "n \<le> RBP_MAX_PAYLOAD"
  shows "ctl_rep (slots[i := sl]) (bytes + n) (ids @ [i])"
proof -
  have "i \<notin> set ids" using assms by (simp add: ctl_rep_def)
  then have same: "map (\<lambda>j. slot_span (slots[i := sl] ! j)) ids = map (\<lambda>j. slot_span (slots ! j)) ids"
    by (intro map_cong) (metis nth_list_update_neq)+
  have "tiles (map (\<lambda>j. slot_span (slots[i := sl] ! j)) (ids @ [i])) 0 (bytes + n)"
    using assms unfolding map_append tiles_append same by (auto simp: ctl_rep_def slot_span_def)
  moreover have "set (ids @ [i]) = {j. j < length (slots[i := sl]) \<and> cs_used (slots[i := sl] ! j)}"
    using assms by (auto simp: ctl_rep_def nth_list_update)
  moreover have "\<forall>j \<in> set (ids @ [i]). cs_len (slots[i := sl] ! j) \<le> RBP_MAX_PAYLOAD"
    using assms by (auto simp: ctl_rep_def nth_list_update)
  ultimately show ?thesis
    using assms(1) \<open>i \<notin> set ids\<close> by (simp add: ctl_rep_def)
qed

lemma ctl_shift_len: "cs_len (ctl_shift off len x) = cs_len x"
  by (simp add: ctl_shift_def)

lemma ctl_rep_remove:
  assumes "ctl_rep slots bytes (xs @ i # ys)"
  shows "ctl_rep (map (ctl_shift (cs_offset (slots ! i)) (cs_len (slots ! i)))
           (slots[i := (slots ! i)\<lparr>cs_used := False\<rparr>])) (bytes - cs_len (slots ! i)) (xs @ ys)"
proof -
  let ?off = "cs_offset (slots ! i)" and ?n = "cs_len (slots ! i)"
  let ?new = "map (ctl_shift ?off ?n) (slots[i := (slots ! i)\<lparr>cs_used := False\<rparr>])"
  have rep: "distinct (xs @ i # ys)" "set (xs @ i # ys) = {j. j < length slots \<and> cs_used (slots ! j)}"
    "tiles (map (\<lambda>i. slot_span (slots ! i)) (xs @ i # ys)) 0 bytes"
    "\<forall>j \<in> set (xs @ i # ys). cs_len (slots ! j) \<le> RBP_MAX_PAYLOAD"
    using assms unfolding ctl_rep_def by blast+
  then have tx: "tiles (map (\<lambda>j. slot_span (slots ! j)) xs) 0 ?off"
    and ty: "tiles (map (\<lambda>j. slot_span (slots ! j)) ys) (?off + ?n) bytes"
    by (auto simp: tiles_append slot_span_def)
  have lt: "j < length slots" "cs_used (slots ! j)" if "j \<in> set (xs @ i # ys)" for j
    using that rep(2) by auto
  have i: "i < length slots" using lt [of i] by simp
  have new: "?new ! j = ctl_shift ?off ?n (slots ! j)" if "j < length slots" "j \<noteq> i" for j
    using that by simp
  have "slot_span (?new ! j) = slot_span (slots ! j)" if j: "j \<in> set xs" for j
  proof -
    have "(cs_offset (slots ! j), cs_len (slots ! j)) \<in> set (map (\<lambda>j. slot_span (slots ! j)) xs)"
      using j by (force simp: slot_span_def)
    then have "cs_offset (slots ! j) + cs_len (slots ! j) \<le> ?off"
      using tiles_bound [OF tx] by blast
    moreover have "?new ! j = ctl_shift ?off ?n (slots ! j)"
      using j lt [of j] rep(1) by (intro new) auto
    ultimately show ?thesis by (auto simp: slot_span_def ctl_shift_def)
  qed
  then have sx: "map (\<lambda>j. slot_span (?new ! j)) xs = map (\<lambda>j. slot_span (slots ! j)) xs"
    by simp
  have "slot_span (?new ! j) = (\<lambda>(o', l). (o' - ?n, l)) (slot_span (slots ! j))" if j: "j \<in> set ys" for j
  proof -
    have "(cs_offset (slots ! j), cs_len (slots ! j)) \<in> set (map (\<lambda>j. slot_span (slots ! j)) ys)"
      using j by (force simp: slot_span_def)
    then have "?off + ?n \<le> cs_offset (slots ! j)"
      using tiles_bound [OF ty] by blast
    moreover have "?new ! j = ctl_shift ?off ?n (slots ! j)"
      using j lt [of j] rep(1) by (intro new) auto
    ultimately show ?thesis using lt [of j] j by (auto simp: slot_span_def ctl_shift_def)
  qed
  then have sy: "map (\<lambda>j. slot_span (?new ! j)) ys
      = map (\<lambda>(o', l). (o' - ?n, l)) (map (\<lambda>j. slot_span (slots ! j)) ys)"
    by simp
  have "set (xs @ ys) = {j. j < length ?new \<and> cs_used (?new ! j)}"
  proof (intro set_eqI iffI)
    fix j assume "j \<in> set (xs @ ys)"
    then show "j \<in> {j. j < length ?new \<and> cs_used (?new ! j)}"
      using lt [of j] rep(1) by (cases "j = i") auto
  next
    fix j assume "j \<in> {j. j < length ?new \<and> cs_used (?new ! j)}"
    then have j: "j < length slots" "cs_used (?new ! j)" by auto
    then have "j \<noteq> i" using i by auto
    then have "j \<in> set (xs @ i # ys)" using new [of j] j rep(2) by auto
    then show "j \<in> set (xs @ ys)" using \<open>j \<noteq> i\<close> by simp
  qed
  moreover have "tiles (map (\<lambda>j. slot_span (?new ! j)) (xs @ ys)) 0 (bytes - ?n)"
    using tx tiles_shift [OF ty] unfolding map_append tiles_append sx sy by blast
  moreover have "cs_len (?new ! j) \<le> RBP_MAX_PAYLOAD" if "j \<in> set (xs @ ys)" for j
  proof -
    have "j \<in> set (xs @ i # ys)" "j \<noteq> i" using that rep(1) by auto
    then have "?new ! j = ctl_shift ?off ?n (slots ! j)" "cs_len (slots ! j) \<le> RBP_MAX_PAYLOAD"
      using new lt rep(4) by blast+
    then show ?thesis by (simp only: ctl_shift_len)
  qed
  ultimately show ?thesis
    using rep(1) unfolding ctl_rep_def by auto
qed

text \<open>The messages themselves: adding one appends it, removing one leaves the others alone.\<close>

definition ctl_msgs :: "ctl_slot list \<Rightarrow> u8 list \<Rightarrow> nat list \<Rightarrow> (ctl_slot \<times> u8 list) list" where
  "ctl_msgs slots payload ids = map (slot_msg slots payload) ids"

lemma take_drop_memcpy_before:
  "off + n \<le> pos \<Longrightarrow> pos \<le> length buf \<Longrightarrow> take n (drop off (memcpy_at buf pos data)) = take n (drop off buf)"
  by (simp add: memcpy_at_def drop_take)

lemma take_drop_memcpy_at:
  "pos \<le> length buf \<Longrightarrow> take (length data) (drop pos (memcpy_at buf pos data)) = data"
  by (simp add: memcpy_at_def)

text \<open>Moving the bytes \<open>[off + n, bytes)\<close> down by \<open>n\<close>.\<close>

lemma take_drop_move:
  assumes "off + n \<le> pos" and "pos + k \<le> bytes" and "bytes \<le> length buf"
  shows "take k (drop (pos - n) (memcpy_at buf off (take (bytes - off - n) (drop (off + n) buf))))
    = take k (drop pos buf)"
proof -
  let ?mv = "take (bytes - off - n) (drop (off + n) buf)"
  have l: "length ?mv = bytes - off - n" "off + length ?mv \<le> length buf" using assms by simp_all
  show ?thesis
  proof (rule nth_equalityI)
    have "length (memcpy_at buf off ?mv) = length buf" using l(2) by (rule length_memcpy_at)
    moreover have "k \<le> length buf - (pos - n)" "k \<le> length buf - pos" using assms by linarith+
    ultimately show "length (take k (drop (pos - n) (memcpy_at buf off ?mv))) = length (take k (drop pos buf))"
      by (simp only: length_take length_drop min_absorb2)
    fix j assume "j < length (take k (drop (pos - n) (memcpy_at buf off ?mv)))"
    then have j: "j < k" by simp
    then have "memcpy_at buf off ?mv ! (pos - n + j) = ?mv ! (pos - n + j - off)"
      using assms l by (subst nth_memcpy_at) auto
    also have "\<dots> = buf ! (pos + j)"
      using assms j by (simp add: add.commute)
    finally show "take k (drop (pos - n) (memcpy_at buf off ?mv)) ! j = take k (drop pos buf) ! j"
      using j assms l by simp
  qed
qed

lemma ctl_msgs_push:
  assumes "ctl_rep slots bytes ids" and "i < length slots" and "\<not> cs_used (slots ! i)"
    and "cs_offset sl = bytes" and "cs_len sl = length data" and "bytes + length data \<le> length payload"
  shows "ctl_msgs (slots[i := sl]) (memcpy_at payload bytes data) (ids @ [i])
    = ctl_msgs slots payload ids @ [(sl\<lparr>cs_offset := 0\<rparr>, data)]"
proof -
  have "slot_msg (slots[i := sl]) (memcpy_at payload bytes data) j = slot_msg slots payload j"
    if "j \<in> set ids" for j
  proof -
    have "j \<noteq> i" using that assms by (auto simp: ctl_rep_def)
    then show ?thesis
      using ctl_rep_bound [OF assms(1) that] assms(6)
      by (simp add: slot_msg_def take_drop_memcpy_before)
  qed
  then show ?thesis
    using assms take_drop_memcpy_at [of bytes payload data] by (simp add: ctl_msgs_def slot_msg_def)
qed

lemma ctl_msgs_remove:
  assumes "ctl_rep slots bytes (xs @ i # ys)" and "bytes \<le> length payload"
  shows "ctl_msgs (map (ctl_shift (cs_offset (slots ! i)) (cs_len (slots ! i)))
             (slots[i := (slots ! i)\<lparr>cs_used := False\<rparr>]))
           (memcpy_at payload (cs_offset (slots ! i))
             (take (bytes - cs_offset (slots ! i) - cs_len (slots ! i))
               (drop (cs_offset (slots ! i) + cs_len (slots ! i)) payload))) (xs @ ys)
    = ctl_msgs slots payload (xs @ ys)"
proof -
  let ?off = "cs_offset (slots ! i)" and ?n = "cs_len (slots ! i)"
  let ?new = "map (ctl_shift ?off ?n) (slots[i := (slots ! i)\<lparr>cs_used := False\<rparr>])"
  let ?buf = "memcpy_at payload ?off (take (bytes - ?off - ?n) (drop (?off + ?n) payload))"
  have i: "?off + ?n \<le> bytes" using ctl_rep_bound [OF assms(1), of i] by simp
  have rep: "distinct (xs @ i # ys)" "set (xs @ i # ys) = {j. j < length slots \<and> cs_used (slots ! j)}"
    "tiles (map (\<lambda>i. slot_span (slots ! i)) (xs @ i # ys)) 0 bytes"
    using assms(1) unfolding ctl_rep_def by blast+
  then have tx: "tiles (map (\<lambda>j. slot_span (slots ! j)) xs) 0 ?off"
    and ty: "tiles (map (\<lambda>j. slot_span (slots ! j)) ys) (?off + ?n) bytes"
    by (auto simp: tiles_append slot_span_def)
  have new: "?new ! j = ctl_shift ?off ?n (slots ! j)" "cs_used (slots ! j)"
    if "j \<in> set (xs @ ys)" for j
  proof -
    have "j \<in> set (xs @ i # ys)" and ne: "j \<noteq> i" using that rep(1) by auto
    then have "j < length slots \<and> cs_used (slots ! j)" using rep(2) by blast
    then show "?new ! j = ctl_shift ?off ?n (slots ! j)" "cs_used (slots ! j)"
      using ne by simp_all
  qed
  have "slot_msg ?new ?buf j = slot_msg slots payload j" if j: "j \<in> set xs" for j
  proof -
    have "(cs_offset (slots ! j), cs_len (slots ! j)) \<in> set (map (\<lambda>j. slot_span (slots ! j)) xs)"
      using j by (force simp: slot_span_def)
    then have le: "cs_offset (slots ! j) + cs_len (slots ! j) \<le> ?off"
      using tiles_bound [OF tx] by blast
    then have "cs_offset (ctl_shift ?off ?n (slots ! j)) = cs_offset (slots ! j)"
      by (auto simp: ctl_shift_def)
    moreover have "cs_len (ctl_shift ?off ?n (slots ! j)) = cs_len (slots ! j)"
      "(ctl_shift ?off ?n (slots ! j))\<lparr>cs_offset := 0\<rparr> = (slots ! j)\<lparr>cs_offset := 0\<rparr>"
      by (simp_all add: ctl_shift_def)
    ultimately show ?thesis
      using new [of j] j le i assms(2) by (simp add: slot_msg_def take_drop_memcpy_before)
  qed
  moreover have "slot_msg ?new ?buf j = slot_msg slots payload j" if j: "j \<in> set ys" for j
  proof -
    have "(cs_offset (slots ! j), cs_len (slots ! j)) \<in> set (map (\<lambda>j. slot_span (slots ! j)) ys)"
      using j by (force simp: slot_span_def)
    then have le: "?off + ?n \<le> cs_offset (slots ! j)" "cs_offset (slots ! j) + cs_len (slots ! j) \<le> bytes"
      using tiles_bound [OF ty] by blast+
    then have "ctl_shift ?off ?n (slots ! j) = (slots ! j)\<lparr>cs_offset := cs_offset (slots ! j) - ?n\<rparr>"
      using new(2) [of j] j by (simp add: ctl_shift_def)
    then show ?thesis
      using new(1) [of j] j take_drop_move [OF le assms(2)] by (simp add: slot_msg_def)
  qed
  ultimately show ?thesis
    by (simp add: ctl_msgs_def)
qed

section \<open>The next control message\<close>

lemma ctl_best_Cons_aux:
  defines "pick \<equiv> \<lambda>best sl. if cs_used sl \<and> (case best of None \<Rightarrow> True | Some b \<Rightarrow> cs_order sl < cs_order b)
                      then Some sl else best"
  shows "foldl pick best slots = r \<Longrightarrow>
    (r = None \<longleftrightarrow> best = None \<and> (\<forall>sl \<in> set slots. \<not> cs_used sl)) \<and>
    (\<forall>b. r = Some b \<longrightarrow> (best = Some b \<or> b \<in> set slots \<and> cs_used b)
       \<and> (\<forall>c. best = Some c \<longrightarrow> cs_order b \<le> cs_order c)
       \<and> (\<forall>sl \<in> set slots. cs_used sl \<longrightarrow> cs_order b \<le> cs_order sl))"
proof (induction slots arbitrary: best)
  case Nil
  then show ?case by auto
next
  case (Cons sl slots)
  have IH: "(r = None \<longleftrightarrow> pick best sl = None \<and> (\<forall>sl \<in> set slots. \<not> cs_used sl)) \<and>
    (\<forall>b. r = Some b \<longrightarrow> (pick best sl = Some b \<or> b \<in> set slots \<and> cs_used b)
       \<and> (\<forall>c. pick best sl = Some c \<longrightarrow> cs_order b \<le> cs_order c)
       \<and> (\<forall>sl \<in> set slots. cs_used sl \<longrightarrow> cs_order b \<le> cs_order sl))"
    by (rule Cons.IH) (use Cons.prems in simp)
  show ?case
  proof (cases "cs_used sl \<and> (case best of None \<Rightarrow> True | Some b \<Rightarrow> cs_order sl < cs_order b)")
    case True
    then have "pick best sl = Some sl" by (simp add: pick_def)
    then show ?thesis using IH True by (fastforce split: option.splits)
  next
    case False
    then have "pick best sl = best" by (simp only: pick_def if_False)
    then show ?thesis using IH False by (fastforce split: option.splits)
  qed
qed

lemma ctl_best_None: "ctl_best slots = None \<longleftrightarrow> (\<forall>sl \<in> set slots. \<not> cs_used sl)"
  using ctl_best_Cons_aux [OF refl, of None slots] by (simp add: ctl_best_def)

lemma ctl_best_Some:
  assumes "ctl_best slots = Some b"
  shows "b \<in> set slots" "cs_used b" "\<forall>sl \<in> set slots. cs_used sl \<longrightarrow> cs_order b \<le> cs_order sl"
  using ctl_best_Cons_aux [OF refl, of None slots] assms by (auto simp: ctl_best_def)

end
