(* ===== verification/Server_Media.thy ===== *)
theory Server_Media
  imports Server_Queues
begin

text \<open>
  The media queue as a list of frames: the markers in their ring, each with the bytes it owns in the
  audio pool. Sending takes the first frame, queueing appends one, and \<open>media_discard_current\<close>,
  which compacts ring and pool in place, removes exactly the frames of the current stream that are not
  its start.
\<close>

definition media_ok :: "media_marker \<Rightarrow> bool" where
  "media_ok m \<longleftrightarrow> mm_len m \<le> RBP_MAX_PAYLOAD
     \<and> (mm_opcode m = RBP_OP_VOICE_DATA \<longrightarrow> RBP_AUDIO_DATA_HEADER \<le> mm_len m)
     \<and> (mm_opcode m = RBP_OP_VOICE_STARTED_EV \<or> mm_opcode m = RBP_OP_VOICE_FORMAT_EV \<longrightarrow> 16 \<le> mm_len m)"

definition mediaq_ok ::
    "nat \<Rightarrow> nat \<Rightarrow> media_marker list \<Rightarrow> nat \<Rightarrow> nat \<Rightarrow> u8 list \<Rightarrow> nat \<Rightarrow> nat \<Rightarrow> bool" where
  "mediaq_ok depth psize q h n pool ahead alen \<longleftrightarrow> ring_ok depth q h n \<and> ring_ok psize pool ahead alen
     \<and> sum_list (map mm_len (ring_items q h n)) = alen \<and> (\<forall>m \<in> set (ring_items q h n). media_ok m)"

fun cut_frames :: "media_marker list \<Rightarrow> u8 list \<Rightarrow> (media_marker \<times> u8 list) list" where
  "cut_frames [] bs = []"
| "cut_frames (m # ms) bs = (m, take (mm_len m) bs) # cut_frames ms (drop (mm_len m) bs)"

definition media_frames :: "'w rbp_server \<Rightarrow> (media_marker \<times> u8 list) list" where
  "media_frames s = cut_frames (ring_items (s_media_q s) (s_media_head s) (s_media_count s))
     (ring_items (s_audio_pool s) (s_audio_head s) (s_audio_len s))"

definition media_inv :: "'w server_env \<Rightarrow> 'w rbp_server \<Rightarrow> bool" where
  "media_inv E s \<longleftrightarrow> mediaq_ok (MEDIA_DEPTH E) (AUDIO_POOL_SIZE E) (s_media_q s) (s_media_head s)
     (s_media_count s) (s_audio_pool s) (s_audio_head s) (s_audio_len s)"

lemma length_cut_frames [simp]: "length (cut_frames ms bs) = length ms"
  by (induction ms arbitrary: bs) simp_all

lemma cut_frames_append:
  "cut_frames (ms @ ns) bs = cut_frames ms bs @ cut_frames ns (drop (sum_list (map mm_len ms)) bs)"
  by (induction ms arbitrary: bs) (simp_all add: add.commute)

lemma cut_frames_take:
  "sum_list (map mm_len ms) \<le> n \<Longrightarrow> cut_frames ms (take n bs) = cut_frames ms bs"
  by (induction ms arbitrary: bs n) (simp_all add: drop_take)

lemma cut_frames_extend:
  "sum_list (map mm_len ms) \<le> length bs \<Longrightarrow> cut_frames ms (bs @ cs) = cut_frames ms bs"
  by (induction ms arbitrary: bs) simp_all

lemma map_fst_cut_frames [simp]: "map fst (cut_frames ms bs) = ms"
  by (induction ms arbitrary: bs) simp_all

text \<open>Reading part of the pool.\<close>

lemma audio_read_items:
  assumes "ring_ok (AUDIO_POOL_SIZE E) (s_audio_pool s) (s_audio_head s) alen" and "off + n \<le> alen"
  shows "audio_read E s off n = take n (drop off (ring_items (s_audio_pool s) (s_audio_head s) alen))"
proof -
  define cap where "cap = AUDIO_POOL_SIZE E"
  define pos where "pos = (s_audio_head s + off) mod cap"
  have cap: "length (s_audio_pool s) = cap" "s_audio_head s < cap" "alen \<le> cap" "pos < cap" "n \<le> cap"
    using assms by (auto simp: ring_ok_def cap_def pos_def)
  have rd: "audio_read E s off n = take (if n < cap - pos then n else cap - pos) (drop pos (s_audio_pool s))
      @ (if (if n < cap - pos then n else cap - pos) < n
         then take (n - (if n < cap - pos then n else cap - pos)) (s_audio_pool s) else [])"
    by (simp add: audio_read_def Let_def pos_def cap_def)
  have "take n (drop off (ring_items (s_audio_pool s) (s_audio_head s) alen)) ! k
      = s_audio_pool s ! ((pos + k) mod cap)" if "k < n" for k
    using that assms(2) cap by (simp add: nth_ring_items pos_def mod_add_left_eq add.assoc)
  moreover have "audio_read E s off n ! k = s_audio_pool s ! ((pos + k) mod cap)" if "k < n" for k
    using that cap by (auto simp: rd nth_append min_def mod_if add.commute)
  moreover have "length (audio_read E s off n) = n"
    using cap by (auto simp: rd min_def)
  ultimately show ?thesis
    using assms(2) by (intro nth_equalityI) simp_all
qed

section \<open>Sending and queueing\<close>

lemma media_head_frame:
  assumes "media_inv E s" and "0 < s_media_count s"
  shows "media_frames s = (s_media_q s ! s_media_head s, audio_read E s 0 (mm_len (s_media_q s ! s_media_head s)))
      # cut_frames (ring_items (s_media_q s) ((s_media_head s + 1) mod MEDIA_DEPTH E) (s_media_count s - 1))
          (ring_items (s_audio_pool s) ((s_audio_head s + mm_len (s_media_q s ! s_media_head s)) mod AUDIO_POOL_SIZE E)
            (s_audio_len s - mm_len (s_media_q s ! s_media_head s)))"
    and "mm_len (s_media_q s ! s_media_head s) \<le> s_audio_len s" and "media_ok (s_media_q s ! s_media_head s)"
proof -
  let ?m = "s_media_q s ! s_media_head s"
  have ok: "ring_ok (MEDIA_DEPTH E) (s_media_q s) (s_media_head s) (s_media_count s)"
    "ring_ok (AUDIO_POOL_SIZE E) (s_audio_pool s) (s_audio_head s) (s_audio_len s)"
    "sum_list (map mm_len (ring_items (s_media_q s) (s_media_head s) (s_media_count s))) = s_audio_len s"
    "\<forall>m \<in> set (ring_items (s_media_q s) (s_media_head s) (s_media_count s)). media_ok m"
    using assms by (simp_all add: media_inv_def mediaq_ok_def)
  obtain n where n: "s_media_count s = Suc n" using assms(2) by (cases "s_media_count s") auto
  have items: "ring_items (s_media_q s) (s_media_head s) (s_media_count s)
      = ?m # ring_items (s_media_q s) ((s_media_head s + 1) mod MEDIA_DEPTH E) (s_media_count s - 1)"
    using ring_items_Cons [of "s_media_q s" "s_media_head s" n] ok(1) by (simp add: n ring_ok_def)
  then show le: "mm_len ?m \<le> s_audio_len s" using ok(3) by simp
  show "media_ok ?m" using ok(4) items by simp
  show "media_frames s = (?m, audio_read E s 0 (mm_len ?m))
      # cut_frames (ring_items (s_media_q s) ((s_media_head s + 1) mod MEDIA_DEPTH E) (s_media_count s - 1))
          (ring_items (s_audio_pool s) ((s_audio_head s + mm_len ?m) mod AUDIO_POOL_SIZE E)
            (s_audio_len s - mm_len ?m))"
    unfolding media_frames_def items
    using audio_read_items [OF ok(2), of 0 "mm_len ?m"] ring_items_drop_ok [OF ok(2) le] le by simp
qed

lemma media_pop_ok:
  assumes "mediaq_ok d p q h n pool ah al" and "0 < n"
  shows "mediaq_ok d p q ((h + 1) mod d) (n - 1) pool ((ah + mm_len (q ! h)) mod p) (al - mm_len (q ! h))"
proof -
  obtain k where k: "n = Suc k" using assms(2) by (cases n) auto
  have "ring_items q h n = q ! h # ring_items q ((h + 1) mod d) (n - 1)"
    using ring_items_Cons [of q h k] assms(1) by (simp add: k mediaq_ok_def ring_ok_def)
  then show ?thesis
    using assms ring_drop_ok [of d q h n 1] ring_drop_ok [of p pool ah al "mm_len (q ! h)"]
    by (auto simp: mediaq_ok_def)
qed

lemma media_push_ok:
  assumes "mediaq_ok d p q h n pool ah al" and "n < d" and "length bs \<le> p - al"
    and "ring_write pool p ah al bs = (b, pool', al')" and "mm_len m = length bs" and "media_ok m"
  shows "mediaq_ok d p (q[(h + n) mod d := m]) h (n + 1) pool' ah al'"
    and "cut_frames (ring_items (q[(h + n) mod d := m]) h (n + 1)) (ring_items pool' ah al')
      = cut_frames (ring_items q h n) (ring_items pool ah al) @ [(m, bs)]"
proof -
  have ok: "ring_ok d q h n" "ring_ok p pool ah al" "sum_list (map mm_len (ring_items q h n)) = al"
    "\<forall>m \<in> set (ring_items q h n). media_ok m"
    using assms(1) by (simp_all add: mediaq_ok_def)
  note w = ring_write_ok [OF ok(2) assms(3,4)]
  have items: "ring_items (q[(h + n) mod d := m]) h (n + 1) = ring_items q h n @ [m]"
    using ring_items_push [of n q h m] ok(1) assms(2) by (simp add: ring_ok_def)
  then show "mediaq_ok d p (q[(h + n) mod d := m]) h (n + 1) pool' ah al'"
    using ok w(2,3) assms(2,5,6) by (auto simp: mediaq_ok_def ring_ok_def)
  show "cut_frames (ring_items (q[(h + n) mod d := m]) h (n + 1)) (ring_items pool' ah al')
      = cut_frames (ring_items q h n) (ring_items pool ah al) @ [(m, bs)]"
    unfolding items w(4) cut_frames_append using ok(3) assms(5) by (simp add: cut_frames_extend)
qed

section \<open>Discarding the current stream\<close>

definition media_keep :: "u32 \<Rightarrow> media_marker \<Rightarrow> bool" where
  "media_keep stream m \<longleftrightarrow> \<not> (mm_stream m = stream \<and> mm_opcode m \<noteq> RBP_OP_VOICE_STARTED_EV)"

text \<open>
  The state of the loop after \<open>i\<close> markers: the kept ones and their bytes at the front, what is not
  yet read in place.
\<close>

definition discard_at ::
    "'w server_env \<Rightarrow> 'w rbp_server \<Rightarrow> nat \<Rightarrow> 'w rbp_server \<times> nat \<times> nat \<times> nat \<Rightarrow> bool" where
  "discard_at E s i st = (case st of (s', rd, wr, kept) \<Rightarrow>
     let Q = ring_items (s_media_q s) (s_media_head s) (s_media_count s);
         L = ring_items (s_audio_pool s) (s_audio_head s) (s_audio_len s);
         Q' = ring_items (s_media_q s') (s_media_head s) (s_media_count s);
         L' = ring_items (s_audio_pool s') (s_audio_head s) (s_audio_len s);
         K = filter (media_keep (s_stream_id s)) (take i Q)
     in (\<exists>q pool. s' = s\<lparr>s_audio_pool := pool, s_media_q := q\<rparr>
           \<and> length q = length (s_media_q s) \<and> length pool = length (s_audio_pool s))
        \<and> rd = sum_list (map mm_len (take i Q)) \<and> wr = sum_list (map mm_len K) \<and> kept = length K
        \<and> take kept Q' = K \<and> drop i Q' = drop i Q \<and> drop rd L' = drop rd L
        \<and> cut_frames K (take wr L') = filter (media_keep (s_stream_id s) \<circ> fst) (cut_frames (take i Q) L))"

lemma sum_filter_le: "sum_list (map f (filter P xs)) \<le> sum_list (map (f :: 'a \<Rightarrow> nat) xs)"
  by (induction xs) auto

lemma sum_take_Suc:
  "i < length xs \<Longrightarrow> sum_list (map f (take (Suc i) xs)) = sum_list (map f (take i xs)) + (f (xs ! i) :: nat)"
  by (simp add: take_Suc_conv_app_nth)

lemma sum_take_le: "sum_list (map f (take i xs)) \<le> sum_list (map (f :: 'a \<Rightarrow> nat) xs)"
  using append_take_drop_id [of i xs] by (metis le_add1 map_append sum_list_append)

lemma discard_round_at:
  assumes inv: "media_inv E s" and at: "discard_at E s i st" and i: "i < s_media_count s"
  shows "discard_at E s (Suc i) (discard_round E i st)"
proof -
  obtain s' rd wr kept where st: "st = (s', rd, wr, kept)" by (cases st)
  define Q where "Q = ring_items (s_media_q s) (s_media_head s) (s_media_count s)"
  define L where "L = ring_items (s_audio_pool s) (s_audio_head s) (s_audio_len s)"
  define Q' where "Q' = ring_items (s_media_q s') (s_media_head s) (s_media_count s)"
  define L' where "L' = ring_items (s_audio_pool s') (s_audio_head s) (s_audio_len s)"
  define K where "K = filter (media_keep (s_stream_id s)) (take i Q)"
  obtain q pool where s': "s' = s\<lparr>s_audio_pool := pool, s_media_q := q\<rparr>"
    and len: "length q = length (s_media_q s)" "length pool = length (s_audio_pool s)"
    and rd: "rd = sum_list (map mm_len (take i Q))" and wr: "wr = sum_list (map mm_len K)"
    and kept: "kept = length K" and tk: "take kept Q' = K" and dq: "drop i Q' = drop i Q"
    and dl: "drop rd L' = drop rd L"
    and fr: "cut_frames K (take wr L') = filter (media_keep (s_stream_id s) \<circ> fst) (cut_frames (take i Q) L)"
    using at unfolding discard_at_def st Let_def split_conv
      Q_def [symmetric] L_def [symmetric] Q'_def [symmetric] L'_def [symmetric] K_def [symmetric] by blast
  have ok: "ring_ok (MEDIA_DEPTH E) (s_media_q s) (s_media_head s) (s_media_count s)"
    "ring_ok (AUDIO_POOL_SIZE E) (s_audio_pool s) (s_audio_head s) (s_audio_len s)"
    "sum_list (map mm_len Q) = s_audio_len s"
    using inv by (simp_all add: media_inv_def mediaq_ok_def Q_def)
  have ok': "ring_ok (MEDIA_DEPTH E) q (s_media_head s) (s_media_count s)"
    "ring_ok (AUDIO_POOL_SIZE E) pool (s_audio_head s) (s_audio_len s)"
    using ok(1,2) len by (simp_all add: ring_ok_def)
  have lenQ: "length Q = s_media_count s" "length Q' = s_media_count s" "length L' = s_audio_len s"
    by (simp_all add: Q_def Q'_def L'_def)
  let ?m = "Q ! i"
  have "Q' ! i = Q ! i" using dq i lenQ by (metis hd_drop_conv_nth)
  then have m: "q ! ((s_media_head s + i) mod MEDIA_DEPTH E) = ?m"
    using i ok'(1) by (simp add: Q'_def nth_ring_items s' ring_ok_def)
  have dq1: "drop (Suc i) Q' = drop (Suc i) Q" using dq by (metis drop_Suc tl_drop)
  have end_le: "rd + mm_len ?m \<le> s_audio_len s"
    using sum_take_le [of mm_len "Suc i" Q] sum_take_Suc [of i Q mm_len] i lenQ ok(3) rd by simp
  have payload: "audio_read E s' rd (mm_len ?m) = take (mm_len ?m) (drop rd L)"
    using audio_read_items [of E s' "s_audio_len s" rd "mm_len ?m"] ok'(2) end_le dl
    by (simp add: L'_def s')
  have Qi: "take (Suc i) Q = take i Q @ [?m]" using i lenQ by (simp add: take_Suc_conv_app_nth)
  have frames: "cut_frames (take (Suc i) Q) L
      = cut_frames (take i Q) L @ [(?m, take (mm_len ?m) (drop rd L))]"
    unfolding Qi cut_frames_append rd by simp
  have wr_rd: "wr \<le> rd" unfolding wr rd K_def by (rule sum_filter_le)
  have drop_more: "drop (rd + mm_len ?m) L' = drop (rd + mm_len ?m) L"
    using dl by (metis add.commute drop_drop)
  have kept_i: "kept \<le> i" unfolding kept K_def by (metis length_filter_le length_take min.bounded_iff order_trans order_refl)
  show ?thesis
  proof (cases "media_keep (s_stream_id s) ?m")
    case False
    then have "discard_round E i st = (s', rd + mm_len ?m, wr, kept)"
      by (simp add: discard_round_def st m Let_def media_keep_def s')
    moreover have "\<exists>q pool. s' = s\<lparr>s_audio_pool := pool, s_media_q := q\<rparr>
        \<and> length q = length (s_media_q s) \<and> length pool = length (s_audio_pool s)"
      using s' len by blast
    then have "discard_at E s (Suc i) (s', rd + mm_len ?m, wr, kept)"
      unfolding discard_at_def split_conv Let_def
        Q_def [symmetric] L_def [symmetric] Q'_def [symmetric] L'_def [symmetric]
      using False rd wr kept tk drop_more fr frames dq1
      by (simp add: Qi K_def [symmetric])
    ultimately show ?thesis by simp
  next
    case True
    define bs where "bs = take (mm_len ?m) (drop rd L)"
    have L: "length L = s_audio_len s" by (simp add: L_def)
    have bs: "length bs = mm_len ?m" using end_le L by (simp add: bs_def)
    obtain b pool2 wr2 where w: "ring_write pool (AUDIO_POOL_SIZE E) (s_audio_head s) wr bs = (b, pool2, wr2)"
      by (cases "ring_write pool (AUDIO_POOL_SIZE E) (s_audio_head s) wr bs") auto
    have okw: "ring_ok (AUDIO_POOL_SIZE E) pool (s_audio_head s) wr"
      and room: "length bs \<le> AUDIO_POOL_SIZE E - wr"
      using ok'(2) wr_rd end_le bs by (auto simp: ring_ok_def)
    note W = ring_write_ok [OF okw room w]
    define L2 where "L2 = ring_items pool2 (s_audio_head s) (s_audio_len s)"
    define Q2 where "Q2 = ring_items (q[(s_media_head s + kept) mod MEDIA_DEPTH E := ?m]) (s_media_head s) (s_media_count s)"
    have Q2: "Q2 = Q'[kept := ?m]"
      using ring_items_set [of kept "s_media_count s" q "s_media_head s" ?m] kept_i i ok'(1)
      by (simp add: Q2_def Q'_def s' ring_ok_def)
    have poolcap: "length pool2 = AUDIO_POOL_SIZE E" "s_audio_len s \<le> AUDIO_POOL_SIZE E"
      "length pool = AUDIO_POOL_SIZE E"
      using W(3) ok'(2) by (simp_all add: ring_ok_def)
    have dl2: "drop (rd + mm_len ?m) L2 = drop (rd + mm_len ?m) L'"
    proof (rule nth_equalityI)
      fix k assume k: "k < length (drop (rd + mm_len ?m) L2)"
      then have "pool2 ! ((s_audio_head s + (rd + mm_len ?m + k)) mod AUDIO_POOL_SIZE E)
          = pool ! ((s_audio_head s + (rd + mm_len ?m + k)) mod AUDIO_POOL_SIZE E)"
        using W(5) [of "rd + mm_len ?m + k"] wr_rd bs poolcap by (simp add: L2_def)
      then show "drop (rd + mm_len ?m) L2 ! k = drop (rd + mm_len ?m) L' ! k"
        using k poolcap by (simp add: L2_def L'_def nth_ring_items s')
    qed (simp add: L2_def L'_def)
    have tl2: "take wr2 L2 = take wr L' @ bs"
      using ring_items_take [of wr2 "s_audio_len s" pool2 "s_audio_head s"] W(2,4) wr_rd end_le bs
        ring_items_take [of wr "s_audio_len s" pool "s_audio_head s"] by (simp add: L2_def L'_def s')
    have K2: "filter (media_keep (s_stream_id s)) (take (Suc i) Q) = K @ [?m]"
      using True by (simp add: Qi K_def)
    have "length (take wr L') = wr" using wr_rd end_le lenQ(3) by simp
    then have fr2: "cut_frames (K @ [?m]) (take wr2 L2) = cut_frames K (take wr L') @ [(?m, bs)]"
      unfolding tl2 cut_frames_append using bs wr by (simp add: cut_frames_extend)
    have "discard_round E i st = (s\<lparr>s_audio_pool := pool2,
        s_media_q := q[(s_media_head s + kept) mod MEDIA_DEPTH E := ?m]\<rparr>, rd + mm_len ?m, wr2, kept + 1)"
      using True w payload by (simp add: discard_round_def st m Let_def media_keep_def s' bs_def)
    moreover have "discard_at E s (Suc i) (s\<lparr>s_audio_pool := pool2,
        s_media_q := q[(s_media_head s + kept) mod MEDIA_DEPTH E := ?m]\<rparr>, rd + mm_len ?m, wr2, kept + 1)"
      unfolding discard_at_def split_conv Let_def
        Q_def [symmetric] L_def [symmetric] K2
    proof (intro conjI)
      show "\<exists>qa poola. s\<lparr>s_audio_pool := pool2, s_media_q := q[(s_media_head s + kept) mod MEDIA_DEPTH E := ?m]\<rparr>
          = s\<lparr>s_audio_pool := poola, s_media_q := qa\<rparr> \<and> length qa = length (s_media_q s)
            \<and> length poola = length (s_audio_pool s)"
        by (rule exI [of _ "q[(s_media_head s + kept) mod MEDIA_DEPTH E := ?m]"], rule exI [of _ pool2])
           (use len poolcap in simp)
      show "rd + mm_len ?m = sum_list (map mm_len (take (Suc i) Q))" using rd by (simp add: Qi)
      show "wr2 = sum_list (map mm_len (K @ [?m]))" using wr W(2) bs by simp
      show "kept + 1 = length (K @ [?m])" using kept by simp
      show "cut_frames (K @ [?m]) (take wr2 (ring_items (s_audio_pool (s\<lparr>s_audio_pool := pool2,
          s_media_q := q[(s_media_head s + kept) mod MEDIA_DEPTH E := ?m]\<rparr>)) (s_audio_head s) (s_audio_len s)))
        = filter (media_keep (s_stream_id s) \<circ> fst) (cut_frames (take (Suc i) Q) L)"
        using fr fr2 frames True by (simp add: L2_def bs_def)
      show "drop (rd + mm_len ?m) (ring_items (s_audio_pool (s\<lparr>s_audio_pool := pool2,
          s_media_q := q[(s_media_head s + kept) mod MEDIA_DEPTH E := ?m]\<rparr>)) (s_audio_head s) (s_audio_len s))
        = drop (rd + mm_len ?m) L"
        using dl2 drop_more by (simp add: L2_def)
      have "kept < length Q'" using kept_i i lenQ by simp
      then show "take (kept + 1) (ring_items (s_media_q (s\<lparr>s_audio_pool := pool2,
          s_media_q := q[(s_media_head s + kept) mod MEDIA_DEPTH E := ?m]\<rparr>)) (s_media_head s) (s_media_count s))
        = K @ [?m]"
        using tk Q2 by (simp add: Q2_def take_Suc_conv_app_nth)
      show "drop (Suc i) (ring_items (s_media_q (s\<lparr>s_audio_pool := pool2,
          s_media_q := q[(s_media_head s + kept) mod MEDIA_DEPTH E := ?m]\<rparr>)) (s_media_head s) (s_media_count s))
        = drop (Suc i) Q"
        using dq1 Q2 kept_i by (simp add: Q2_def)
    qed
    ultimately show ?thesis by simp
  qed
qed

text \<open>The compaction is the filter.\<close>

lemma media_discard_all:
  assumes "media_inv E s"
  shows "media_inv E (media_discard_current E s)"
    and "media_frames (media_discard_current E s)
      = filter (media_keep (s_stream_id s) \<circ> fst) (media_frames s)"
    and "\<exists>q pool n al. media_discard_current E s
      = s\<lparr>s_audio_pool := pool, s_media_q := q, s_media_count := n, s_audio_len := al\<rparr>
        \<and> n \<le> s_media_count s"
proof -
  define Q where "Q = ring_items (s_media_q s) (s_media_head s) (s_media_count s)"
  define L where "L = ring_items (s_audio_pool s) (s_audio_head s) (s_audio_len s)"
  have steps: "discard_at E s i (fold (discard_round E) [0..<i] (s, 0, 0, 0))" if "i \<le> s_media_count s" for i
    using that
  proof (induction i)
    case 0
    have "\<exists>q pool. s = s\<lparr>s_audio_pool := pool, s_media_q := q\<rparr> \<and> length q = length (s_media_q s)
        \<and> length pool = length (s_audio_pool s)"
      by (intro exI [of _ "s_media_q s"] exI [of _ "s_audio_pool s"]) simp
    then show ?case by (simp add: discard_at_def Let_def)
  next
    case (Suc i)
    then show ?case using discard_round_at [OF assms, of i] by simp
  qed
  obtain s' rd wr kept where st: "fold (discard_round E) [0..<s_media_count s] (s, 0, 0, 0) = (s', rd, wr, kept)"
    by (metis prod_cases4)
  define K where "K = filter (media_keep (s_stream_id s)) Q"
  have lenQ: "take (s_media_count s) Q = Q" by (simp add: Q_def)
  obtain q pool where s': "s' = s\<lparr>s_audio_pool := pool, s_media_q := q\<rparr>"
    and len: "length q = length (s_media_q s)" "length pool = length (s_audio_pool s)"
    and rd: "rd = sum_list (map mm_len Q)" and wr: "wr = sum_list (map mm_len K)"
    and kept: "kept = length K" and tk: "take kept (ring_items (s_media_q s') (s_media_head s) (s_media_count s)) = K"
    and fr: "cut_frames K (take wr (ring_items (s_audio_pool s') (s_audio_head s) (s_audio_len s)))
      = filter (media_keep (s_stream_id s) \<circ> fst) (cut_frames Q L)"
    using steps [OF order_refl] unfolding st discard_at_def split_conv Let_def
      Q_def [symmetric] L_def [symmetric] lenQ K_def [symmetric] by blast
  have ok: "ring_ok (MEDIA_DEPTH E) (s_media_q s) (s_media_head s) (s_media_count s)"
    "ring_ok (AUDIO_POOL_SIZE E) (s_audio_pool s) (s_audio_head s) (s_audio_len s)"
    "sum_list (map mm_len Q) = s_audio_len s" "\<forall>m \<in> set Q. media_ok m"
    using assms by (simp_all add: media_inv_def mediaq_ok_def Q_def)
  have le: "kept \<le> s_media_count s" "wr \<le> s_audio_len s"
    using ok(3) sum_filter_le [of mm_len "media_keep (s_stream_id s)" Q]
    by (auto simp: kept wr K_def Q_def intro: order_trans [OF length_filter_le])
  have res: "media_discard_current E s = s'\<lparr>s_media_count := kept, s_audio_len := wr\<rparr>"
    by (simp add: media_discard_current_def st)
  have items: "ring_items q (s_media_head s) kept = K"
    using tk ring_items_take [OF le(1), of q "s_media_head s"] by (simp add: s')
  have bytes: "ring_items pool (s_audio_head s) wr
      = take wr (ring_items (s_audio_pool s') (s_audio_head s) (s_audio_len s))"
    using ring_items_take [OF le(2), of pool "s_audio_head s"] by (simp add: s')
  show "media_inv E (media_discard_current E s)"
    using ok len le wr by (auto simp: media_inv_def mediaq_ok_def res s' items ring_ok_def K_def)
  show "media_frames (media_discard_current E s)
      = filter (media_keep (s_stream_id s) \<circ> fst) (media_frames s)"
    using fr bytes by (simp add: media_frames_def res s' items Q_def L_def)
  show "\<exists>q pool n al. media_discard_current E s
      = s\<lparr>s_audio_pool := pool, s_media_q := q, s_media_count := n, s_audio_len := al\<rparr> \<and> n \<le> s_media_count s"
    using le(1) unfolding res s' by blast
qed

end
