(* ===== verification/Server_Inv.thy ===== *)
theory Server_Inv
  imports Server_Media
begin

text \<open>
  The invariant of the server's state, the contract of what it is wired to, and the proof that every
  entry point keeps the invariant: no array is used outside its bounds, the queues account for their
  bytes, and a server without a session holds neither media nor a voice stream.
\<close>

section \<open>The invariant\<close>

definition keyq_ok :: "key_item list \<Rightarrow> nat \<Rightarrow> nat \<Rightarrow> bool" where
  "keyq_ok q h n \<longleftrightarrow> ring_ok RBP_KEY_QUEUE_DEPTH q h n
     \<and> (\<forall>k \<in> set q. length (ki_buf k) = RBP_KEYS_STRUCT_SIZE)"

definition cand_ok :: "rbp_candidate \<Rightarrow> bool" where
  "cand_ok c \<longleftrightarrow> length (ca_name c) = 48 \<and> unat (ca_name_len c) \<le> 48"

definition cands_ok :: "rbp_candidate list \<Rightarrow> nat \<Rightarrow> bool" where
  "cands_ok cs n \<longleftrightarrow> length cs = RBP_MAX_CANDIDATES \<and> n \<le> RBP_MAX_CANDIDATES \<and> list_all cand_ok cs"

definition accepted_ok :: "u8 list \<Rightarrow> nat \<Rightarrow> bool" where
  "accepted_ok bs n \<longleftrightarrow> length bs = 96 \<and> n \<le> 96 \<and> 6 dvd n"

definition sess_ok :: "bool \<Rightarrow> u32 \<Rightarrow> u32 \<Rightarrow> nat \<Rightarrow> bool \<Rightarrow> u32 \<Rightarrow> bool \<Rightarrow> nat \<Rightarrow> bool" where
  "sess_ok active sid counter n_media delivering stream voice_on n_acc \<longleftrightarrow>
     (active \<longrightarrow> sid = counter \<and> sid \<noteq> 0)
     \<and> (\<not> active \<longrightarrow> sid = 0 \<and> n_media = 0 \<and> \<not> delivering \<and> \<not> voice_on \<and> n_acc = 0)
     \<and> (delivering \<longleftrightarrow> stream \<noteq> 0)"

definition prompt_ok :: "bool \<Rightarrow> bool \<Rightarrow> u8 \<Rightarrow> bool \<Rightarrow> bool" where
  "prompt_ok prompt op kind cancelled \<longleftrightarrow> (prompt \<longrightarrow> op \<and> kind = OPK_PAIR \<and> \<not> cancelled)"

definition srv_inv :: "'w server_env \<Rightarrow> 'w rbp_server \<Rightarrow> bool" where
  "srv_inv E s \<longleftrightarrow>
     ring_ok (OUT_RING_SIZE E) (s_out_ring s) (s_out_head s) (s_out_len s)
     \<and> ctl_ok (CTL_SLOTS E) (CTL_BYTES E) (s_ctl s) (s_ctl_payload s) (s_ctl_used s)
     \<and> keyq_ok (s_key_q s) (s_key_q_head s) (s_key_q_count s)
     \<and> mediaq_ok (MEDIA_DEPTH E) (AUDIO_POOL_SIZE E) (s_media_q s) (s_media_head s) (s_media_count s)
         (s_audio_pool s) (s_audio_head s) (s_audio_len s)
     \<and> ring_ok RBP_MAX_OPERATION_RESULTS (s_ops_done s) (s_ops_done_head s) (s_ops_done_count s)
     \<and> cands_ok (s_cand s) (s_cand_count s)
     \<and> accepted_ok (s_accepted_codecs s) (s_accepted_len s)
     \<and> length (pr_name (s_peer s)) = 48 \<and> length (s_link_msg s) = 48
     \<and> rx_inv (s_rx s)
     \<and> sess_ok (s_session_active s) (s_session_id s) (s_session_counter s) (s_media_count s)
         (s_delivering s) (s_stream_id s) (s_voice_enabled s) (s_accepted_len s)
     \<and> prompt_ok (s_prompt_active s) (s_op_active s) (s_op_kind s) (s_pair_cancel_requested s)"

lemma sess_ok_none [simp]: "sess_ok False 0 c 0 False 0 False 0"
  by (simp add: sess_ok_def)

lemma prompt_ok_none [simp]: "prompt_ok False a k c"
  by (simp add: prompt_ok_def)

text \<open>
  The invariant together with what a call may do to the session: a session active afterwards was
  active before, and no session number is used up. Most fields play no part in it.
\<close>

definition srv_at :: "'w server_env \<Rightarrow> bool \<Rightarrow> u32 \<Rightarrow> 'w rbp_server \<Rightarrow> bool" where
  "srv_at E a c s \<longleftrightarrow> srv_inv E s \<and> (s_session_active s \<longrightarrow> a) \<and> c = s_session_counter s"

lemma srv_at_neutral [simp]:
  "srv_at E a c (s_profile_update f0 s) = srv_at E a c s"
  "srv_at E a c (s_max_keys_update f1 s) = srv_at E a c s"
  "srv_at E a c (s_max_capture_ms_update f2 s) = srv_at E a c s"
  "srv_at E a c (s_bridge_uid_update f3 s) = srv_at E a c s"
  "srv_at E a c (s_firmware_version_update f4 s) = srv_at E a c s"
  "srv_at E a c (s_reset_reason_update f5 s) = srv_at E a c s"
  "srv_at E a c (s_now_ms_update f6 s) = srv_at E a c s"
  "srv_at E a c (s_order_counter_update f7 s) = srv_at E a c s"
  "srv_at E a c (s_rx_ctx_update f8 s) = srv_at E a c s"
  "srv_at E a c (s_connection_counter_update f9 s) = srv_at E a c s"
  "srv_at E a c (s_txseq_update f10 s) = srv_at E a c s"
  "srv_at E a c (s_last_req_ms_update f11 s) = srv_at E a c s"
  "srv_at E a c (s_req_hwm_update f12 s) = srv_at E a c s"
  "srv_at E a c (s_have_client_seq_update f13 s) = srv_at E a c s"
  "srv_at E a c (s_client_tx_hwm_update f14 s) = srv_at E a c s"
  "srv_at E a c (s_pair_ready_pending_update f15 s) = srv_at E a c s"
  "srv_at E a c (s_op_id_update f16 s) = srv_at E a c s"
  "srv_at E a c (s_op_deadline_ms_update f17 s) = srv_at E a c s"
  "srv_at E a c (s_op_peer_id_update f18 s) = srv_at E a c s"
  "srv_at E a c (s_op_connection_id_update f19 s) = srv_at E a c s"
  "srv_at E a c (s_find_active_update f20 s) = srv_at E a c s"
  "srv_at E a c (s_find_valid_update f21 s) = srv_at E a c s"
  "srv_at E a c (s_search_id_update f22 s) = srv_at E a c s"
  "srv_at E a c (s_find_end_ms_update f23 s) = srv_at E a c s"
  "srv_at E a c (s_prompt_id_update f24 s) = srv_at E a c s"
  "srv_at E a c (s_prompt_method_update f25 s) = srv_at E a c s"
  "srv_at E a c (s_prompt_number_update f26 s) = srv_at E a c s"
  "srv_at E a c (s_prompt_expiry_ms_update f27 s) = srv_at E a c s"
  "srv_at E a c (s_link_state_update f28 s) = srv_at E a c s"
  "srv_at E a c (s_connection_id_update f29 s) = srv_at E a c s"
  "srv_at E a c (s_peer_valid_update f30 s) = srv_at E a c s"
  "srv_at E a c (s_battery_update f31 s) = srv_at E a c s"
  "srv_at E a c (s_charging_update f32 s) = srv_at E a c s"
  "srv_at E a c (s_voice_state_update f33 s) = srv_at E a c s"
  "srv_at E a c (s_voice_interaction_update f34 s) = srv_at E a c s"
  "srv_at E a c (s_voice_sample_rate_update f35 s) = srv_at E a c s"
  "srv_at E a c (s_reconnect_paused_update f36 s) = srv_at E a c s"
  "srv_at E a c (s_events_enabled_update f37 s) = srv_at E a c s"
  "srv_at E a c (s_pressed_bits_update f38 s) = srv_at E a c s"
  "srv_at E a c (s_input_seq_update f39 s) = srv_at E a c s"
  "srv_at E a c (s_keys_captured_us_update f40 s) = srv_at E a c s"
  "srv_at E a c (s_voice_denied_update f41 s) = srv_at E a c s"
  "srv_at E a c (s_voice_resume_peer_update f42 s) = srv_at E a c s"
  "srv_at E a c (s_waiting_idle_update f43 s) = srv_at E a c s"
  "srv_at E a c (s_next_stream_id_update f44 s) = srv_at E a c s"
  "srv_at E a c (s_frame_seq_update f45 s) = srv_at E a c s"
  "srv_at E a c (s_delivered_samples_update f46 s) = srv_at E a c s"
  "srv_at E a c (s_delivered_bytes_update f47 s) = srv_at E a c s"
  "srv_at E a c (s_source_samples_update f48 s) = srv_at E a c s"
  "srv_at E a c (s_source_bytes_update f49 s) = srv_at E a c s"
  "srv_at E a c (s_delivered_units_update f50 s) = srv_at E a c s"
  "srv_at E a c (s_delivered_epoch_update f51 s) = srv_at E a c s"
  "srv_at E a c (s_source_units_update f52 s) = srv_at E a c s"
  "srv_at E a c (s_epoch_update f53 s) = srv_at E a c s"
  "srv_at E a c (s_unit_offset_update f54 s) = srv_at E a c s"
  "srv_at E a c (s_unit_size_update f55 s) = srv_at E a c s"
  "srv_at E a c (s_unit_samples_update f56 s) = srv_at E a c s"
  "srv_at E a c (s_format_max_unit_update f57 s) = srv_at E a c s"
  "srv_at E a c (s_source_started_ms_update f58 s) = srv_at E a c s"
  "srv_at E a c (s_voice_caps_update f59 s) = srv_at E a c s"
  "srv_at E a c (s_accepted_max_unit_update f60 s) = srv_at E a c s"
  "srv_at E a c (s_ending_update f61 s) = srv_at E a c s"
  "srv_at E a c (s_stream_connection_update f62 s) = srv_at E a c s"
  "srv_at E a c (s_stop_requested_update f63 s) = srv_at E a c s"
  "srv_at E a c (s_stop_deadline_ms_update f64 s) = srv_at E a c s"
  "srv_at E a c (s_capture_limited_update f65 s) = srv_at E a c s"
  "srv_at E a c (s_capture_deadline_ms_update f66 s) = srv_at E a c s"
  "srv_at E a c (s_voice_ok_deferred_update f67 s) = srv_at E a c s"
  "srv_at E a c (s_voice_ok_deferred_opcode_update f68 s) = srv_at E a c s"
  "srv_at E a c (s_voice_ok_deferred_req_update f69 s) = srv_at E a c s"
  "srv_at E a c (s_voice_ok_deferred_conn_update f70 s) = srv_at E a c s"
  "srv_at E a c (s_voice_ok_deferred_is_enable_update f71 s) = srv_at E a c s"
  "srv_at E a c (s_source_active_update f72 s) = srv_at E a c s"
  "srv_at E a c (s_first_audio_deadline_update f73 s) = srv_at E a c s"
  "srv_at E a c (s_progress_deadline_update f74 s) = srv_at E a c s"
  "srv_at E a c (s_got_audio_this_stream_update f75 s) = srv_at E a c s"
  "srv_at E a c (s_stat_protocol_errors_update f76 s) = srv_at E a c s"
  "srv_at E a c (s_stat_input_resets_update f77 s) = srv_at E a c s"
  "srv_at E a c (s_stat_voice_overruns_update f78 s) = srv_at E a c s"
  "srv_at E a c (s_stat_voice_errors_update f79 s) = srv_at E a c s"
  "srv_at E a c (s_faults_update f80 s) = srv_at E a c s"
  "srv_at E a c (s_world_update f81 s) = srv_at E a c s"
  by (simp_all add: srv_at_def srv_inv_def)

named_theorems at_intros "functions that keep the invariant"

section \<open>The contract of the wiring\<close>

text \<open>
  What the server relies on: buffers that are not empty, a store that hands out whole peer records,
  a transport that takes at most what it is offered, and backend calls that touch the server only
  through its own functions, so that they keep its invariant. A backend never starts a session: that
  takes a received frame.
\<close>

definition backend_call :: "'w server_env \<Rightarrow> ('w rbp_server \<Rightarrow> 'w rbp_server) \<Rightarrow> bool" where
  "backend_call E f \<longleftrightarrow> (\<forall>a c s. srv_at E a c s \<longrightarrow> srv_at E a c (f s))"

locale server_wiring =
  fixes E :: "'w server_env"
  assumes sizes: "0 < OUT_RING_SIZE E" "0 < AUDIO_POOL_SIZE E" "0 < CTL_SLOTS E" "0 < MEDIA_DEPTH E"
    and out_le: "fst (e_out E data w) \<le> length data"
    and load_ok: "e_load E = Some load \<Longrightarrow> load w = (Some rec, w') \<Longrightarrow> length (pr_name rec) = 48"
    and start_find_call: "backend_call E (\<lambda>s. snd (e_start_find E dur s))"
    and stop_find_call: "backend_call E (e_stop_find E)"
    and pair_begin_call: "backend_call E (e_pair_begin E cid)"
    and pair_reply_call: "backend_call E (e_pair_reply E acc has_pk pk)"
    and pair_cancel_call: "backend_call E (e_pair_cancel E)"
    and forget_peer_call: "backend_call E (e_forget_peer E)"
    and connect_peer_call: "backend_call E (e_connect_peer E)"
    and disconnect_call: "backend_call E (e_disconnect E)"
    and voice_request_stop_call: "backend_call E (e_voice_request_stop E)"
begin

lemmas backend_calls = start_find_call stop_find_call pair_begin_call pair_reply_call
  pair_cancel_call forget_peer_call connect_peer_call disconnect_call voice_request_stop_call

lemmas backend_at [at_intros] = backend_calls [unfolded backend_call_def, rule_format]

end

section \<open>Session, output and control queue\<close>

lemma empty_ok [simp]:
  "ring_ok n xs h k \<Longrightarrow> ring_ok n xs 0 0"
  "keyq_ok q h k \<Longrightarrow> keyq_ok q 0 0"
  "mediaq_ok d p mq h k pool ah al \<Longrightarrow> mediaq_ok d p mq 0 0 pool 0 0"
  "accepted_ok bs k \<Longrightarrow> accepted_ok bs 0"
  by (auto simp: ring_ok_def keyq_ok_def mediaq_ok_def accepted_ok_def)

lemma ctl_ok_clear:
  "ctl_ok n m slots p b \<Longrightarrow> ctl_ok n m (map (\<lambda>sl. sl\<lparr>cs_used := False\<rparr>) slots) p 0"
  by (auto simp: ctl_ok_def intro: ctl_rep_clear)

text \<open>The length of the ring after it is cut behind its first zero byte.\<close>

definition cut_len :: "nat \<Rightarrow> u8 list \<Rightarrow> nat \<Rightarrow> nat \<Rightarrow> nat" where
  "cut_len cap ring h n =
     (case find (\<lambda>i. ring ! ((h + i) mod cap) = 0) [0..<n] of None \<Rightarrow> n | Some i \<Rightarrow> i + 1)"

lemma out_cut_eq:
  "out_cut E s = s\<lparr>s_out_len := cut_len (OUT_RING_SIZE E) (s_out_ring s) (s_out_head s) (s_out_len s)\<rparr>"
  by (simp add: out_cut_def cut_len_def split: option.splits)

lemma cut_len_le: "cut_len cap ring h n \<le> n"
  by (auto simp: cut_len_def find_Some_iff split: option.splits)

lemma cut_ok: "ring_ok cap ring h n \<Longrightarrow> ring_ok cap ring h (cut_len cap ring h n)"
  using cut_len_le [of cap ring h n] by (auto simp: ring_ok_def)

lemma srv_invD:
  assumes "srv_inv E s"
  shows "ring_ok (OUT_RING_SIZE E) (s_out_ring s) (s_out_head s) (s_out_len s)"
    "ctl_ok (CTL_SLOTS E) (CTL_BYTES E) (s_ctl s) (s_ctl_payload s) (s_ctl_used s)"
    "keyq_ok (s_key_q s) (s_key_q_head s) (s_key_q_count s)"
    "mediaq_ok (MEDIA_DEPTH E) (AUDIO_POOL_SIZE E) (s_media_q s) (s_media_head s) (s_media_count s)
       (s_audio_pool s) (s_audio_head s) (s_audio_len s)"
    "ring_ok RBP_MAX_OPERATION_RESULTS (s_ops_done s) (s_ops_done_head s) (s_ops_done_count s)"
    "cands_ok (s_cand s) (s_cand_count s)"
    "accepted_ok (s_accepted_codecs s) (s_accepted_len s)"
    "sess_ok (s_session_active s) (s_session_id s) (s_session_counter s) (s_media_count s)
       (s_delivering s) (s_stream_id s) (s_voice_enabled s) (s_accepted_len s)"
    "prompt_ok (s_prompt_active s) (s_op_active s) (s_op_kind s) (s_pair_cancel_requested s)"
  using assms by (simp_all add: srv_inv_def)

text \<open>What a teardown leaves before the backend is called.\<close>

lemma session_withdraw_fields [simp]:
  "s_out_ring (session_withdraw E s) = s_out_ring s"
  "s_out_head (session_withdraw E s) = s_out_head s"
  "s_out_len (session_withdraw E s) =
     cut_len (OUT_RING_SIZE E) (s_out_ring s) (s_out_head s) (s_out_len s)"
  "s_ctl (session_withdraw E s) = map (\<lambda>sl. sl\<lparr>cs_used := False\<rparr>) (s_ctl s)"
  "s_ctl_payload (session_withdraw E s) = s_ctl_payload s"
  "s_ctl_used (session_withdraw E s) = 0"
  "s_key_q (session_withdraw E s) = s_key_q s"
  "s_key_q_head (session_withdraw E s) = 0"
  "s_key_q_count (session_withdraw E s) = 0"
  "s_media_q (session_withdraw E s) = s_media_q s"
  "s_media_head (session_withdraw E s) = 0"
  "s_media_count (session_withdraw E s) = 0"
  "s_audio_pool (session_withdraw E s) = s_audio_pool s"
  "s_audio_head (session_withdraw E s) = 0"
  "s_audio_len (session_withdraw E s) = 0"
  "s_ops_done (session_withdraw E s) = s_ops_done s"
  "s_ops_done_head (session_withdraw E s) = 0"
  "s_ops_done_count (session_withdraw E s) = 0"
  "s_cand (session_withdraw E s) = s_cand s"
  "s_cand_count (session_withdraw E s) = s_cand_count s"
  "s_accepted_codecs (session_withdraw E s) = s_accepted_codecs s"
  "s_accepted_len (session_withdraw E s) = 0"
  "s_peer (session_withdraw E s) = s_peer s"
  "s_link_msg (session_withdraw E s) = s_link_msg s"
  "s_rx (session_withdraw E s) = s_rx s"
  "s_session_active (session_withdraw E s) = False"
  "s_session_id (session_withdraw E s) = 0"
  "s_session_counter (session_withdraw E s) = s_session_counter s"
  "s_delivering (session_withdraw E s) = False"
  "s_stream_id (session_withdraw E s) = 0"
  "s_voice_enabled (session_withdraw E s) = False"
  "s_events_enabled (session_withdraw E s) = False"
  "s_prompt_active (session_withdraw E s) = False"
  "s_find_active (session_withdraw E s) = False"
  by (simp_all add: session_withdraw_def out_cut_eq ctl_clear_def session_stop_delivery_def Let_def)

lemma session_withdraw_inv:
  assumes "srv_inv E s"
  shows "srv_inv E (session_withdraw E s)"
proof -
  note d = srv_invD [OF assms]
  show ?thesis
    using assms empty_ok(2) [OF d(3)] empty_ok(3) [OF d(4)] empty_ok(1) [OF d(5)] empty_ok(4) [OF d(7)]
      ctl_ok_clear [OF d(2)] by (simp add: srv_inv_def cut_ok)
qed

context server_wiring
begin

text \<open>
  Every function of the server is shown to be such a call itself: it keeps the invariant, and starts
  no session.
\<close>

lemma request_pair_cancel_at:
  assumes "srv_at E a c (s\<lparr>s_prompt_active := False\<rparr>)" and "s_pair_cancel_requested s \<longrightarrow> \<not> s_prompt_active s"
  shows "srv_at E a c (request_pair_cancel E s)"
proof -
  have "srv_at E a c (s\<lparr>s_pair_cancel_requested := True, s_prompt_active := False\<rparr>)"
    using assms by (simp add: srv_at_def srv_inv_def)
  moreover have "srv_at E a c s" if "s_pair_cancel_requested s"
    using that assms by (simp add: srv_at_def srv_inv_def)
  ultimately show ?thesis
    by (simp add: request_pair_cancel_def at_intros)
qed

lemma session_withdraw_at: "srv_at E a c s \<Longrightarrow> srv_at E False c (session_withdraw E s)"
  by (simp add: srv_at_def session_withdraw_inv)

lemma session_teardown_False:
  assumes "srv_at E a c s"
  shows "srv_at E False c (session_teardown E s)"
proof -
  note w = session_withdraw_at [OF assms]
  then have "srv_at E False c ((session_withdraw E s)\<lparr>s_prompt_active := False\<rparr>)"
    by (simp add: srv_at_def srv_inv_def)
  then have "srv_at E False c (request_pair_cancel E (session_withdraw E s))"
    by (rule request_pair_cancel_at) simp
  then show ?thesis
    using w unfolding session_teardown_def Let_def by (simp add: at_intros)
qed

lemma srv_at_weaken: "srv_at E False c s \<Longrightarrow> srv_at E a c s"
  by (simp add: srv_at_def)

lemma session_teardown_at [at_intros]: "srv_at E a c s \<Longrightarrow> srv_at E a c (session_teardown E s)"
  by (rule srv_at_weaken) (rule session_teardown_False)

lemma session_create_inv:
  assumes "srv_at E a c s"
  shows "srv_inv E (session_create E s)"
  using session_teardown_False [OF assms]
  by (auto simp: session_create_def Let_def srv_at_def srv_inv_def sess_ok_def u32_succ_nonzero)

lemma out_try_frame_at [at_intros]:
  assumes "srv_at E a c s"
  shows "srv_at E a c (snd (out_try_frame E h payload s))"
proof -
  have "srv_at E a c (s\<lparr>s_out_ring := ring, s_out_len := len, s_txseq := n\<rparr>)"
    if "ring_write (s_out_ring s) (OUT_RING_SIZE E) (s_out_head s) (s_out_len s) tmp = (b, ring, len)"
      and "\<not> OUT_RING_SIZE E - s_out_len s < length tmp" for b ring len n tmp
    using assms ring_write_ok(3) [OF _ _ that(1)] that(2) by (simp add: srv_at_def srv_inv_def)
  then show ?thesis
    using assms session_teardown_at [OF assms]
    by (auto simp: out_try_frame_def Let_def split: prod.splits)
qed

lemma out_drain_at [at_intros]: "srv_at E a c s \<Longrightarrow> srv_at E a c (out_drain E s)"
proof (induction "s_out_len s" arbitrary: s rule: less_induct)
  case less
  let ?r = "e_out E (take (out_chunk E s) (drop (s_out_head s) (s_out_ring s))) (s_world s)"
  let ?s1 = "s\<lparr>s_world := snd ?r, s_out_head := (s_out_head s + fst ?r) mod OUT_RING_SIZE E,
               s_out_len := s_out_len s - fst ?r\<rparr>"
  have "fst ?r \<le> out_chunk E s"
    using out_le by (rule order_trans) simp
  also have "\<dots> \<le> s_out_len s" by (simp add: out_chunk_def Let_def)
  finally have "srv_at E a c ?s1"
    using less.prems ring_drop_ok [OF srv_invD(1), of E s "fst ?r"] by (simp add: srv_at_def srv_inv_def)
  moreover have "srv_at E a c (out_drain E ?s1)" if "0 < s_out_len s" "fst ?r \<noteq> 0"
    using less.hyps [of ?s1] that \<open>srv_at E a c ?s1\<close> by simp
  ultimately show ?case
    using less.prems by (subst out_drain.simps) (simp add: Let_def)
qed

lemma ctl_remove_at:
  assumes "srv_at E a c s" and "i < length (s_ctl s)" and "cs_used (s_ctl s ! i)"
  shows "srv_at E a c (ctl_remove i s)"
proof -
  obtain ids where ids: "ctl_rep (s_ctl s) (s_ctl_used s) ids"
    using assms(1) by (auto simp: srv_at_def srv_inv_def ctl_ok_def)
  then have "i \<in> set ids" using assms by (simp add: ctl_rep_def)
  then obtain xs ys where xy: "ids = xs @ i # ys" by (meson split_list)
  have "cs_offset (s_ctl s ! i) + cs_len (s_ctl s ! i) \<le> s_ctl_used s"
    using ctl_rep_bound [OF ids \<open>i \<in> set ids\<close>] .
  then have "ctl_ok (CTL_SLOTS E) (CTL_BYTES E) (s_ctl (ctl_remove i s)) (s_ctl_payload (ctl_remove i s))
      (s_ctl_used (ctl_remove i s))"
    using assms(1) ctl_rep_remove [OF ids [unfolded xy]]
    by (auto simp: srv_at_def srv_inv_def ctl_ok_def ctl_remove_def Let_def)
  then show ?thesis
    using assms(1) by (simp add: ctl_remove_def Let_def srv_at_def srv_inv_def)
qed

lemma ctl_pop_at [at_intros]:
  assumes "srv_at E a c s"
  shows "srv_at E a c (snd (ctl_pop E s))"
proof -
  have "srv_at E a c (ctl_remove i s')"
    if "out_try_frame E h p s = (True, s')" "i < length (s_ctl s)" "cs_used (s_ctl s ! i)" for h p s' i
    using out_try_frame_at [OF assms, of h p] that out_try_frame_fields [OF that(1)]
    by (intro ctl_remove_at) simp_all
  moreover have "srv_at E a c s'" if "out_try_frame E h p s = (b, s')" for h p b s'
    using out_try_frame_at [OF assms, of h p] that by simp
  ultimately show ?thesis
    using assms by (auto simp: ctl_pop_def Let_def find_Some_iff split: option.splits prod.splits)
qed

lemma ctl_enqueue_at [at_intros]:
  assumes "srv_at E a c s"
  shows "srv_at E a c (ctl_enqueue E kind opcode status req conn payload s)"
proof -
  have "srv_at E a c (s\<lparr>s_order_counter := n, s_ctl := (s_ctl s)[i := sl],
      s_ctl_payload := memcpy_at (s_ctl_payload s) (s_ctl_used s) payload,
      s_ctl_used := s_ctl_used s + length payload\<rparr>)"
    if "i < length (s_ctl s)" "\<not> cs_used (s_ctl s ! i)" "length payload \<le> RBP_MAX_PAYLOAD"
      "length payload \<le> CTL_BYTES E - s_ctl_used s" "cs_used sl" "cs_offset sl = s_ctl_used s"
      "cs_len sl = length payload" for i sl n
  proof -
    obtain ids where ids: "ctl_rep (s_ctl s) (s_ctl_used s) ids"
      and len: "length (s_ctl s) = CTL_SLOTS E" "length (s_ctl_payload s) = CTL_BYTES E"
        "s_ctl_used s \<le> CTL_BYTES E"
      using assms by (auto simp: srv_at_def srv_inv_def ctl_ok_def)
    have "s_ctl_used s + length payload \<le> CTL_BYTES E" using that(4) len(3) by simp
    then have "ctl_ok (CTL_SLOTS E) (CTL_BYTES E) ((s_ctl s)[i := sl])
        (memcpy_at (s_ctl_payload s) (s_ctl_used s) payload) (s_ctl_used s + length payload)"
      using ctl_rep_push [OF ids that(1,2,5,6,7,3)] len by (auto simp: ctl_ok_def)
    then show ?thesis
      using assms by (simp add: srv_at_def srv_inv_def)
  qed
  moreover have "srv_at E a c (session_teardown E (s\<lparr>s_stat_protocol_errors := n\<rparr>))" for n
    using assms by (simp add: at_intros)
  ultimately show ?thesis
    by (auto simp: ctl_enqueue_def next_order_def Let_def find_Some_iff ctl_slot_zero_def
        split: option.splits)
qed

section \<open>Device state, operations and keys\<close>

lemma send_device_state_at [at_intros]: "srv_at E a c s \<Longrightarrow> srv_at E a c (send_device_state E conn s)"
  unfolding send_device_state_def by (rule ctl_enqueue_at)

lemma op_complete_at [at_intros]:
  assumes "srv_at E a c s"
  shows "srv_at E a c (op_complete E op_id result peer conn unc s)"
proof -
  have ok: "ring_ok 4 (s_ops_done s) (s_ops_done_head s) (s_ops_done_count s)"
    using assms by (simp add: srv_at_def srv_inv_def)
  then have "srv_at E a c (s\<lparr>s_ops_done_count := s_ops_done_count s + 1, s_ops_done := (s_ops_done s)[i := r]\<rparr>)"
    if "s_ops_done_count s < 4" for i r
    using assms that by (simp add: srv_at_def srv_inv_def ring_ok_def)
  moreover have "srv_at E a c (s\<lparr>s_ops_done_head := (s_ops_done_head s + 1) mod 4, s_ops_done := (s_ops_done s)[i := r]\<rparr>)" for i r
    using assms ok by (simp add: srv_at_def srv_inv_def ring_ok_def)
  ultimately show ?thesis
    by (auto simp: op_complete_def Let_def intro!: ctl_enqueue_at)
qed

lemma length_keys_struct [simp]: "length (keys_struct n t b k r) = RBP_KEYS_STRUCT_SIZE"
  by (simp add: keys_struct_def)

lemma key_push_at [at_intros]:
  assumes "srv_at E a c s"
  shows "srv_at E a c (snd (key_push kind reason bits t s))"
proof -
  have "keyq_ok (s_key_q s) (s_key_q_head s) (s_key_q_count s)"
    using assms by (simp add: srv_at_def srv_inv_def)
  then have "keyq_ok ((s_key_q s)[i := it]) (s_key_q_head s) (s_key_q_count s + 1)"
    if "\<not> 8 \<le> s_key_q_count s" "length (ki_buf it) = 24" for i it
    using that by (auto simp: keyq_ok_def ring_ok_def dest!: set_update_subset_insert [THEN subsetD])
  then show ?thesis
    using assms by (simp add: key_push_def next_order_def Let_def srv_at_def srv_inv_def)
qed

lemma keys_clear_at [at_intros]:
  "srv_at E a c s \<Longrightarrow> srv_at E a c (s\<lparr>s_key_q_head := 0, s_key_q_count := 0\<rparr>)"
  using empty_ok(2) [of "s_key_q s" "s_key_q_head s" "s_key_q_count s"] by (simp add: srv_at_def srv_inv_def)

lemma keys_emit_at [at_intros]:
  assumes "srv_at E a c s"
  shows "srv_at E a c (keys_emit kind reason bits t s)"
proof -
  have "srv_at E a c (snd (key_push kind reason bits t s))" using assms by (rule key_push_at)
  then show ?thesis
    by (auto simp: keys_emit_def Let_def assms split: prod.splits intro!: key_push_at keys_clear_at)
qed

lemma on_keys_at [at_intros]: "srv_at E a c s \<Longrightarrow> srv_at E a c (rbp_server_on_keys rep s)"
  by (auto simp: rbp_server_on_keys_def Let_def intro!: keys_emit_at)

lemma keys_flush_one_at [at_intros]:
  assumes "srv_at E a c s"
  shows "srv_at E a c (snd (keys_flush_one E s))"
proof -
  have "srv_at E a c (s'\<lparr>s_key_q := (s_key_q s)[i := it\<lparr>ki_used := False\<rparr>],
      s_key_q_head := (s_key_q_head s' + 1) mod 8, s_key_q_count := s_key_q_count s' - 1\<rparr>)"
    if o: "out_try_frame E h p s = (True, s')" and it: "it = s_key_q s ! s_key_q_head s" for h p s' i it
  proof -
    have at: "srv_at E a c s'" using out_try_frame_at [OF assms, of h p] o by simp
    then have k: "keyq_ok (s_key_q s') (s_key_q_head s') (s_key_q_count s')"
      by (simp add: srv_at_def srv_inv_def)
    have "it \<in> set (s_key_q s')"
      using k out_try_frame_fields [OF o] by (simp add: it keyq_ok_def ring_ok_def)
    then have "length (ki_buf it) = 24" using k by (simp add: keyq_ok_def)
    then have "keyq_ok ((s_key_q s)[i := it\<lparr>ki_used := False\<rparr>]) ((s_key_q_head s' + 1) mod 8) (s_key_q_count s' - 1)"
      using k out_try_frame_fields [OF o]
      by (auto simp: keyq_ok_def ring_ok_def dest!: set_update_subset_insert [THEN subsetD])
    then show ?thesis
      using at by (simp add: srv_at_def srv_inv_def)
  qed
  moreover have "srv_at E a c s'" if "out_try_frame E h p s = (b, s')" for h p b s'
    using out_try_frame_at [OF assms, of h p] that by simp
  ultimately show ?thesis
    using assms by (auto simp: keys_flush_one_def Let_def out_try_frame_fields split: prod.splits)
qed

section \<open>Media\<close>

lemma media_delivered_at:
  assumes "srv_at E a c s"
  shows "srv_at E a c (media_delivered m p s)"
  using assms by (auto simp: media_delivered_def Let_def srv_at_def srv_inv_def sess_ok_def)

lemma media_flush_one_at [at_intros]:
  assumes "srv_at E a c s"
  shows "srv_at E a c (snd (media_flush_one E s))"
proof -
  have pop: "srv_at E a c (t\<lparr>s_audio_head := (s_audio_head t + mm_len m) mod AUDIO_POOL_SIZE E,
      s_audio_len := s_audio_len t - mm_len m, s_media_head := h', s_media_count := n'\<rparr>)"
    if at: "srv_at E a c t" and m: "m = s_media_q t ! s_media_head t" "0 < s_media_count t"
      and n: "h' = (s_media_head t + 1) mod MEDIA_DEPTH E" "n' = s_media_count t - 1" for t m h' n'
  proof -
    have "mediaq_ok (MEDIA_DEPTH E) (AUDIO_POOL_SIZE E) (s_media_q t) (s_media_head t) (s_media_count t)
        (s_audio_pool t) (s_audio_head t) (s_audio_len t)"
      using at by (simp add: srv_at_def srv_inv_def)
    note media_pop_ok [OF this m(2), folded m(1)]
    moreover have "s_session_active t" using at m(2) by (auto simp: srv_at_def srv_inv_def sess_ok_def)
    ultimately show ?thesis
      using at n by (auto simp: srv_at_def srv_inv_def sess_ok_def)
  qed
  have t: "srv_at E a c (media_delivered m p s')" if "out_try_frame E h p s = (b, s')" for m h p b s'
    using out_try_frame_at [OF assms, of h p] that by (simp add: media_delivered_at)
  have f: "s_media_q (media_delivered m p s') = s_media_q s" "s_media_head (media_delivered m p s') = s_media_head s"
      "s_media_count (media_delivered m p s') = s_media_count s" if "out_try_frame E h p s = (True, s')" for m h p s'
    using out_try_frame_fields [OF that] by (simp_all add: media_delivered_def Let_def)
  have s': "srv_at E a c s'" if "out_try_frame E h p s = (b, s')" for h p b s'
    using out_try_frame_at [OF assms, of h p] that by simp
  show ?thesis
    using assms by (auto simp: media_flush_one_def Let_def s' f dest: out_try_frame_fields split: prod.splits intro!: pop t)
qed

lemma flush_loop_at [at_intros]: "srv_at E a c s \<Longrightarrow> srv_at E a c (flush_loop E n s)"
proof (induction "queued s" arbitrary: s n rule: less_induct)
  case less
  have *: "srv_at E a c (case p of (ok, s') \<Rightarrow> if ok then flush_loop E k s' else s')"
    if "srv_at E a c (snd p)" "\<And>s'. p = (True, s') \<Longrightarrow> queued s' < queued s" for p k
    using that less.hyps by (cases p) auto
  show ?case
    by (subst flush_loop.simps, cases "flush_pick n s")
       (auto simp: less.prems at_intros split: flush_source.splits
         intro!: * intro: ctl_pop_queued keys_flush_queued media_flush_queued)
qed

lemma flush_output_at [at_intros]: "srv_at E a c s \<Longrightarrow> srv_at E a c (rbp_server_flush_output E s)"
  by (simp add: rbp_server_flush_output_def at_intros)

lemma media_enqueue_at:
  assumes "srv_at E a c s" and "length p \<le> RBP_MAX_PAYLOAD"
    and "op = RBP_OP_VOICE_DATA \<Longrightarrow> RBP_AUDIO_DATA_HEADER \<le> length p"
    and "op = RBP_OP_VOICE_STARTED_EV \<or> op = RBP_OP_VOICE_FORMAT_EV \<Longrightarrow> 16 \<le> length p"
  shows "srv_at E a c (snd (media_enqueue E op p s))"
    and "fst (media_enqueue E op p s) \<Longrightarrow> s_session_active (snd (media_enqueue E op p s))"
proof -
  have push: "srv_at E a c (t\<lparr>s_order_counter := n, s_media_q := (s_media_q t)[(s_media_head t + s_media_count t) mod MEDIA_DEPTH E := m],
      s_audio_pool := pool, s_audio_len := alen, s_media_count := Suc (s_media_count t)\<rparr>)"
    if at: "srv_at E a c t" and act: "s_session_active t" "s_media_count t < MEDIA_DEPTH E"
      "length p \<le> AUDIO_POOL_SIZE E - s_audio_len t"
      and w: "ring_write (s_audio_pool t) (AUDIO_POOL_SIZE E) (s_audio_head t) (s_audio_len t) p = (b, pool, alen)"
      and m: "mm_len m = length p" "mm_opcode m = op" for t n m pool alen b
  proof -
    have "mediaq_ok (MEDIA_DEPTH E) (AUDIO_POOL_SIZE E) (s_media_q t) (s_media_head t) (s_media_count t)
        (s_audio_pool t) (s_audio_head t) (s_audio_len t)"
      using at by (simp add: srv_at_def srv_inv_def)
    moreover have "media_ok m" using m assms(2-4) by (auto simp: media_ok_def)
    ultimately show ?thesis
      using at media_push_ok(1) [OF _ act(2,3) w m(1)] act(1) by (auto simp: srv_at_def srv_inv_def sess_ok_def)
  qed
  have "srv_at E a c (rbp_server_flush_output E s)" using assms(1) by (rule flush_output_at)
  then show "srv_at E a c (snd (media_enqueue E op p s))"
    using assms(1) by (auto simp: media_enqueue_def Let_def next_order_def not_le not_less split: prod.splits intro!: push)
  show "fst (media_enqueue E op p s) \<Longrightarrow> s_session_active (snd (media_enqueue E op p s))"
    by (auto simp: media_enqueue_def Let_def next_order_def split: prod.splits if_splits)
qed

lemma media_discard_at [at_intros]:
  assumes "srv_at E a c s"
  shows "srv_at E a c (media_discard_current E s)"
proof -
  have inv: "media_inv E s" using assms by (simp add: media_inv_def srv_at_def srv_inv_def)
  obtain q pool n al where d: "media_discard_current E s
      = s\<lparr>s_audio_pool := pool, s_media_q := q, s_media_count := n, s_audio_len := al\<rparr>" "n \<le> s_media_count s"
    using media_discard_all(3) [OF inv] by blast
  show ?thesis
    using media_discard_all(1) [OF inv] assms d(2) unfolding d(1)
    by (auto simp: media_inv_def srv_at_def srv_inv_def sess_ok_def)
qed

end

section \<open>Payloads\<close>

lemma put_value_len: "tw_len w \<le> tw_len (put_value w f)"
  by (cases f; cases "snd f")
     (auto simp: rbp_tlv_put_u8_def rbp_tlv_put_u16_def rbp_tlv_put_u32_def rbp_tlv_put_u64_def
       rbp_tlv_put_bool_def rbp_tlv_put_text_def rbp_tlv_put_bytes_def w_put_def Let_def)

lemma put_values_len: "tw_len w \<le> tw_len (foldl put_value w fs)"
proof (induction fs arbitrary: w)
  case (Cons f fs)
  then show ?case using order_trans [OF put_value_len Cons.IH] by simp
qed simp

lemma tlv_build_le: "length (tlv_build fs) \<le> RBP_MAX_PAYLOAD"
  using put_values_inv [OF tw_inv_init [of tlv_stack]]
  by (auto simp: tlv_build_def Let_def tw_inv_def tlv_stack_def)

lemma length_tlv_build: "length (tlv_build fs) = tw_len (foldl put_value (rbp_tlv_writer_init tlv_stack) fs)"
  using put_values_inv [OF tw_inv_init [of tlv_stack]]
  by (auto simp: tlv_build_def Let_def tw_inv_def tlv_stack_def)

lemma tlv_build_two_u32: "16 \<le> length (tlv_build ((t, TV_u32 x) # (t', TV_u32 y) # fs))"
proof -
  have "16 \<le> tw_len (put_value (put_value (rbp_tlv_writer_init tlv_stack) (t, TV_u32 x)) (t', TV_u32 y))"
    by (simp add: rbp_tlv_put_u32_def w_put_def Let_def rbp_tlv_writer_init_def tlv_stack_def)
  then show ?thesis
    using put_values_len order_trans by (fastforce simp: length_tlv_build)
qed

context server_wiring
begin

section \<open>Voice\<close>

lemma voice_finish_at [at_intros]:
  assumes "srv_at E a c s"
  shows "srv_at E a c (voice_finish_stream E reason clear s)"
proof -
  have enq: "srv_at E a c s'" if "media_enqueue E RBP_OP_VOICE_ENDED_EV (tlv_build fs) t = (ok, s')"
    "srv_at E a c t" for fs t ok s'
    using media_enqueue_at(1) [OF that(2) tlv_build_le, of RBP_OP_VOICE_ENDED_EV fs] that(1) by simp
  have fin: "srv_at E a c (t\<lparr>s_ending := e, s_delivering := False, s_stream_id := 0\<rparr>)"
    if "srv_at E a c t" for t e
    using that by (auto simp: srv_at_def srv_inv_def sess_ok_def)
  have fin': "srv_at E a c (t\<lparr>s_delivering := False, s_ending := e, s_stream_id := 0\<rparr>)"
    if "srv_at E a c t" for t e
    using that by (auto simp: srv_at_def srv_inv_def sess_ok_def)
  have d: "srv_at E a c (if b then media_discard_current E s else s)" for b
    using assms by (simp add: at_intros)
  show ?thesis
    using assms d unfolding voice_finish_stream_def Let_def
    by (auto simp: at_intros dest!: enq split: prod.splits intro!: fin fin')
qed

lemma voice_off_at [at_intros]: "srv_at E a c s \<Longrightarrow> srv_at E a c (s\<lparr>s_voice_enabled := False\<rparr>)"
  by (auto simp: srv_at_def srv_inv_def sess_ok_def)

lemma stream_off_at [at_intros]:
  "srv_at E a c s \<Longrightarrow> srv_at E a c (s\<lparr>s_delivering := False, s_stream_id := 0\<rparr>)"
  by (auto simp: srv_at_def srv_inv_def sess_ok_def)

lemma voice_fault_at [at_intros]: "srv_at E a c s \<Longrightarrow> srv_at E a c (voice_fault E reason s)"
  by (auto simp: voice_fault_def Let_def intro!: at_intros)

lemma queue_format_at:
  assumes "srv_at E a c s"
  shows "srv_at E a c (snd (queue_format E f start s))"
proof -
  have "srv_at E a c s'"
    if "media_enqueue E op (tlv_build ((1, TV_u32 x) # (2, TV_u32 y) # fs)) s = (ok, s')"
      "op = RBP_OP_VOICE_STARTED_EV \<or> op = RBP_OP_VOICE_FORMAT_EV" for op x y fs ok s'
    using media_enqueue_at(1) [OF assms tlv_build_le, of op "(1, TV_u32 x) # (2, TV_u32 y) # fs"]
      that tlv_build_two_u32 by auto
  then show ?thesis
    using assms by (auto simp: queue_format_def Let_def at_intros split: prod.splits)
qed

lemma length_audio_put [simp]: "length (audio_put n k) = k"
  by (induction n k rule: audio_put.induct) simp_all

lemma length_voice_payload: "length (voice_payload u k frag s) = RBP_AUDIO_DATA_HEADER + length frag"
  by (simp add: voice_payload_def)

lemma encoded_loop_at [at_intros]: "srv_at E a c s \<Longrightarrow> srv_at E a c (encoded_loop E u k bytes s)"
proof (induction "length bytes" arbitrary: bytes s rule: less_induct)
  case less
  show ?case
  proof (cases "bytes = [] \<or> \<not> s_delivering s \<or> s_frame_seq s = UINT32_MAX")
    case True
    then show ?thesis
      using less.prems by (subst encoded_loop.simps) (auto simp: at_intros)
  next
    case False
    obtain ok s1 where e: "media_enqueue E RBP_OP_VOICE_DATA (voice_payload u k (take 256 bytes) s) s = (ok, s1)"
      by (cases "media_enqueue E RBP_OP_VOICE_DATA (voice_payload u k (take 256 bytes) s) s")
    have "srv_at E a c s1"
      using media_enqueue_at(1) [OF less.prems, of "voice_payload u k (take 256 bytes) s" RBP_OP_VOICE_DATA] e
      by (simp add: length_voice_payload)
    moreover from this have "srv_at E a c (voice_advance u k n s1)" for n
      by (simp add: voice_advance_def Let_def)
    ultimately show ?thesis
      using less.hyps [of "drop 256 bytes"] False e
      by (subst encoded_loop.simps) (auto simp: Let_def at_intros)
  qed
qed

lemma accepted_active:
  assumes "srv_at E a c s" and "codec_accepted f s"
  shows "s_session_active s"
proof (rule ccontr)
  assume "\<not> s_session_active s"
  then have "s_accepted_len s = 0" using assms(1) by (auto simp: srv_at_def srv_inv_def sess_ok_def)
  then show False using assms(2) by (simp add: codec_accepted_def codec_steps_def split: option.splits if_splits)
qed

lemma voice_start_at [at_intros]:
  assumes "srv_at E a c s"
  shows "srv_at E a c (voice_start E f now s)"
proof -
  let ?s = "s\<lparr>s_voice_sample_rate := af_sample_rate f\<rparr>"
  let ?s1 = "if s_delivering ?s then voice_finish_stream E RBP_END_BUFFER_OVERRUN True
                            (?s\<lparr>s_stat_voice_overruns := s_stat_voice_overruns ?s + 1\<rparr>) else ?s"
  have s1: "srv_at E a c ?s1" using assms by (simp add: at_intros)
  have new: "srv_at E a c (t\<lparr>s_next_stream_id := n, s_stream_id := i, s_stream_connection := k,
       s_frame_seq := 0, s_epoch := 0, s_source_units := 0, s_delivered_units := 0,
       s_unit_offset := 0, s_source_bytes := 0, s_delivered_bytes := 0,
       s_source_samples := 0, s_delivered_samples := 0, s_delivered_epoch := 1,
       s_delivering := True, s_ending := False\<rparr>)"
    if "srv_at E a c t" "codec_accepted f t" "i \<noteq> 0" for t n i k
    using that accepted_active [OF that(1,2)] by (auto simp: srv_at_def srv_inv_def sess_ok_def)
  have q: "srv_at E a c s3" if "queue_format E f True t = (ok, s3)" "srv_at E a c t" for t ok s3
    using queue_format_at [OF that(2), of f True] that(1) by simp
  show ?thesis
    unfolding voice_start_def Let_def
    using s1 assms by (auto simp: at_intros u32_succ_nonzero dest!: q split: prod.splits intro!: new at_intros)
qed

lemma voice_format_at [at_intros]:
  assumes "srv_at E a c s"
  shows "srv_at E a c (voice_format E f s)"
proof -
  have q: "srv_at E a c s3" if "queue_format E f False t = (ok, s3)" "srv_at E a c t" for t ok s3
    using queue_format_at [OF that(2), of f False] that(1) by simp
  show ?thesis
    unfolding voice_format_def Let_def using assms by (auto simp: at_intros dest!: q split: prod.splits)
qed

lemma on_voice_at [at_intros]: "srv_at E a c s \<Longrightarrow> srv_at E a c (rbp_server_on_voice E ev now s)"
  by (cases ev)
     (auto simp: rbp_server_on_voice_def Let_def voice_source_begin_def voice_encoded_def voice_end_def
       intro!: at_intros)

lemma on_voice_state_at [at_intros]:
  assumes "srv_at E a c s"
  shows "srv_at E a c (rbp_server_on_voice_state E vs vi rate s)"
proof -
  have "srv_at E a c (t\<lparr>s_voice_enabled := True, s_waiting_idle := w\<rparr>)"
    if "srv_at E a c t" "s_session_active t" for t w
    using that by (auto simp: srv_at_def srv_inv_def sess_ok_def)
  then show ?thesis
    using assms by (auto simp: rbp_server_on_voice_state_def Let_def intro!: at_intros split: option.splits)
qed

end

end
