(* ===== verification/Server_Safe.thy ===== *)
theory Server_Safe
  imports Server_Inv
begin

text \<open>
  The entry points of the server keep its invariant: the inputs of the radio layer, the periodic work,
  every request handler and the received bytes. The calls a client of the server can make are one
  datatype, and any sequence of them from the initial state stays within the invariant. The last part
  closes the contract of the backend: a backend whose calls only use these entry points satisfies it.
\<close>

context server_wiring
begin

section \<open>Radio inputs\<close>

lemma link_identify_at:
  "srv_at E a c s \<Longrightarrow> srv_at E a c (snd (link_identify conn st s))"
  by (auto simp: link_identify_def new_connection_id_def Let_def srv_at_def srv_inv_def split: prod.splits)

lemma link_clear_at: "srv_at E a c s \<Longrightarrow> srv_at E a c (link_clear s)"
  by (auto simp: link_clear_def srv_at_def srv_inv_def sess_ok_def)

lemma link_lost_at: "srv_at E a c s \<Longrightarrow> srv_at E a c (link_lost E s)"
  by (simp add: link_lost_def Let_def at_intros)

lemma if_at: "srv_at E a c s \<Longrightarrow> srv_at E a c t \<Longrightarrow> srv_at E a c (if b then s else t)"
  by simp

lemma on_link_at [at_intros]: "srv_at E a c s \<Longrightarrow> srv_at E a c (rbp_server_on_link E st conn now s)"
  unfolding rbp_server_on_link_def Let_def split_def
  by (simp add: at_intros link_clear_at link_lost_at link_identify_at if_at split del: if_split)

lemma length_copy_name [simp]: "length dst = 48 \<Longrightarrow> length (copy_name dst 48 src) = 48"
  by (auto simp: copy_name_def memcpy_at_def split: option.splits)

lemma link_msg_at [at_intros]:
  "srv_at E a c s \<Longrightarrow> srv_at E a c (s\<lparr>s_link_msg := copy_name (s_link_msg s) 48 msg\<rparr>)"
  by (simp add: srv_at_def srv_inv_def)

lemma cand_update_ok: "cand_ok cand \<Longrightarrow> cand_ok c' \<Longrightarrow> cand_ok (cand_update cand c')"
  by (auto simp: cand_ok_def cand_update_def Let_def)

lemma on_scan_candidate_at [at_intros]:
  assumes "srv_at E a c s" and "cand_ok cand"
  shows "srv_at E a c (rbp_server_on_scan_candidate cand s)"
proof -
  have ok: "cands_ok (s_cand s) (s_cand_count s)"
    using assms by (simp add: srv_at_def srv_inv_def)
  then have "cands_ok ((s_cand s)[i := cand_update cand (s_cand s ! i)]) (s_cand_count s)" if "i < s_cand_count s" for i
    using that assms(2) by (auto simp: cands_ok_def list_all_length nth_list_update cand_update_ok)
  moreover have "cands_ok ((s_cand s)[s_cand_count s :=
       cand\<lparr>ca_name := copy_name (ca_name cand) 48 (Some (cstring (ca_name cand)))\<rparr>]) (Suc (s_cand_count s))"
    if "\<not> 8 \<le> s_cand_count s"
    using ok that assms(2) by (auto simp: cands_ok_def list_all_length nth_list_update cand_ok_def)
  ultimately show ?thesis
    using assms(1) unfolding rbp_server_on_scan_candidate_def
    by (auto simp: srv_at_def srv_inv_def find_Some_iff split: option.splits)
qed

lemma on_scan_done_at [at_intros]: "srv_at E a c s \<Longrightarrow> srv_at E a c (rbp_server_on_scan_done E reason now s)"
  by (auto simp: rbp_server_on_scan_done_def Let_def intro!: at_intros)

lemma rng_at: "srv_at E a c s \<Longrightarrow> srv_at E a c (snd (rng_u32 E s))"
  by (auto simp: rng_u32_def Let_def split: option.splits prod.splits)

lemma rng_u32_nonzero: "fst (rng_u32 E s) \<noteq> 0"
  by (auto simp: rng_u32_def Let_def split: option.splits prod.splits)

lemma on_pair_prompt_at [at_intros]:
  assumes "srv_at E a c s"
  shows "srv_at E a c (rbp_server_on_pair_prompt E meth number remaining s)"
proof -
  have "srv_at E a c (s\<lparr>s_prompt_active := True\<rparr>)"
    if "s_op_active s" "s_op_kind s = OPK_PAIR" "\<not> s_pair_cancel_requested s"
    using that assms by (simp add: srv_at_def srv_inv_def prompt_ok_def)
  then have r: "srv_at E a c s'" if "s_op_active s" "s_op_kind s = OPK_PAIR" "\<not> s_pair_cancel_requested s"
    "rng_u32 E (s\<lparr>s_prompt_active := True\<rparr>) = (pid, s')" for pid s'
    using rng_at [of a c "s\<lparr>s_prompt_active := True\<rparr>"] that by simp
  show ?thesis
    unfolding rbp_server_on_pair_prompt_def Let_def
    using assms by (auto simp: r split: prod.splits intro!: at_intros)
qed

definition peer_ok :: "rbp_peer_record option \<Rightarrow> bool" where
  "peer_ok p \<longleftrightarrow> (\<forall>r. p = Some r \<longrightarrow> length (pr_name r) = 48)"

lemma pair_commit_at:
  assumes "srv_at E a c s" and "peer_ok peer" and "pair_commit E peer s = (st, u, s')"
  shows "srv_at E a c s'"
proof -
  have "srv_at E a c (s\<lparr>s_world := w, s_peer := r\<lparr>pr_auto_reconnect := True\<rparr>, s_peer_valid := True,
      s_reconnect_paused := False\<rparr>)" "srv_at E a c (s\<lparr>s_peer := r\<lparr>pr_auto_reconnect := True\<rparr>, s_peer_valid := True,
      s_reconnect_paused := False\<rparr>)" if "peer = Some r" for w r
    using assms(1,2) that by (simp_all add: peer_ok_def srv_at_def srv_inv_def)
  then show ?thesis
    using assms(1,3) by (auto simp: pair_commit_def Let_def split: option.splits prod.splits if_splits)
qed

lemma prompt_off_at [at_intros]: "srv_at E a c s \<Longrightarrow> srv_at E a c (s\<lparr>s_prompt_active := False\<rparr>)"
  by (simp add: srv_at_def srv_inv_def)

lemma op_off_at: "srv_at E a c s \<Longrightarrow> \<not> s_prompt_active s \<Longrightarrow> srv_at E a c (s\<lparr>s_op_active := False\<rparr>)"
  by (simp add: srv_at_def srv_inv_def)

lemma op_finish_at:
  assumes "srv_at E a c s" and "\<not> s_prompt_active s \<or> s_op_kind s \<noteq> OPK_PAIR"
  shows "srv_at E a c (s\<lparr>s_op_active := False\<rparr>)"
proof -
  have "\<not> s_prompt_active s"
    using assms by (auto simp: srv_at_def srv_inv_def prompt_ok_def)
  then show ?thesis using assms(1) by (simp add: srv_at_def srv_inv_def)
qed

lemma pair_commit_prompt: "pair_commit E peer s = (st, u, s') \<Longrightarrow> s_prompt_active s' = s_prompt_active s"
  by (auto simp: pair_commit_def Let_def split: option.splits prod.splits if_splits)

lemma on_pair_done_at [at_intros]:
  assumes "srv_at E a c s" and "peer_ok peer"
  shows "srv_at E a c (rbp_server_on_pair_done E status committed peer conn s)"
proof -
  let ?s = "s\<lparr>s_pair_ready_pending := False, s_prompt_active := False\<rparr>"
  let ?st = "if status = RBP_STATUS_OK \<and> \<not> committed then RBP_STATUS_STORAGE_FAILED else status"
  obtain st u s1 where r: "(if ?st = RBP_STATUS_OK then pair_commit E peer ?s else (?st, False, ?s)) = (st, u, s1)"
    by (metis prod_cases3)
  have s: "srv_at E a c ?s" using assms(1) by (simp add: srv_at_def srv_inv_def)
  then have s1: "srv_at E a c s1"
    using r pair_commit_at [OF s assms(2)] by (auto split: if_splits)
  have "\<not> s_prompt_active s1"
    using r pair_commit_prompt [of peer ?s st u s1] by (auto split: if_splits)
  then have "srv_at E a c (s1\<lparr>s_op_active := False\<rparr>)"
    using s1 by (intro op_finish_at) simp_all
  then show ?thesis
    using s1 unfolding rbp_server_on_pair_done_def Let_def r split_conv
    by (simp add: at_intros if_at split del: if_split)
qed

lemma on_forget_done_at [at_intros]:
  assumes "srv_at E a c s"
  shows "srv_at E a c (rbp_server_on_forget_done E status unc s)"
proof -
  have u: "srv_at E a c (if s_op_active t \<and> s_op_kind t = OPK_FORGET
      then op_complete E i st 0 0 v (t\<lparr>s_op_active := False\<rparr>) else t)" if "srv_at E a c t" for t i st v
    using that op_finish_at [OF that] by (simp add: at_intros)
  have p: "srv_at E a c (t\<lparr>s_peer_valid := False, s_peer := peer_zero\<rparr>)" if "srv_at E a c t" for t
    using that by (simp add: srv_at_def srv_inv_def peer_zero_def)
  have w: "srv_at E a c (snd (if status \<noteq> RBP_STATUS_OK then (True, s)
       else case e_clear E of None \<Rightarrow> (False, s)
         | Some clear \<Rightarrow> (fst (clear (s_world s)), s\<lparr>s_world := snd (clear (s_world s))\<rparr>)))"
    using assms by (simp split: option.splits)
  show ?thesis
    unfolding rbp_server_on_forget_done_def Let_def split_def
    by (simp add: at_intros if_at u p w split del: if_split)
qed

lemma on_peer_changed_at [at_intros]:
  "srv_at E a c s \<Longrightarrow> peer_ok (Some p) \<Longrightarrow> srv_at E a c (rbp_server_on_peer_changed p s)"
  by (auto simp: rbp_server_on_peer_changed_def Let_def srv_at_def srv_inv_def peer_ok_def)

lemma on_battery_at [at_intros]: "srv_at E a c s \<Longrightarrow> srv_at E a c (rbp_server_on_battery E level ch s)"
  by (simp add: rbp_server_on_battery_def Let_def at_intros)

lemma out_clear_at: "srv_at E a c s \<Longrightarrow> srv_at E a c (ctl_clear E (s\<lparr>s_out_head := 0, s_out_len := 0\<rparr>))"
proof -
  assume at: "srv_at E a c s"
  then have i: "srv_inv E s" by (simp add: srv_at_def)
  show ?thesis
    using at empty_ok(1) [OF srv_invD(1) [OF i]] ctl_ok_clear [OF srv_invD(2) [OF i]]
    by (simp add: ctl_clear_def srv_at_def srv_inv_def)
qed

lemma on_usb_gone_at [at_intros]: "srv_at E a c s \<Longrightarrow> srv_at E a c (rbp_server_on_usb_gone E now s)"
  by (simp add: rbp_server_on_usb_gone_def at_intros out_clear_at)

lemma set_profile_at [at_intros]: "srv_at E a c s \<Longrightarrow> srv_at E a c (rbp_server_set_profile E p s)"
  by (simp add: rbp_server_set_profile_def Let_def at_intros)

lemma adapter_failed_at [at_intros]: "srv_at E a c s \<Longrightarrow> srv_at E a c (rbp_server_adapter_failed E r s)"
  by (simp add: rbp_server_adapter_failed_def Let_def at_intros)

section \<open>Periodic work\<close>

lemma tick_rx_timeout_at: "srv_at E a c s \<Longrightarrow> srv_at E a c (tick_rx_timeout E now s)"
proof -
  assume at: "srv_at E a c s"
  obtain p x where f: "rbp_rxparser_feed (s_rx s) [] now rx_ctx_zero = (p, x)" by fastforce
  have "srv_at E a c (s\<lparr>s_rx := p\<rparr>)"
    using at feed_inv [of "s_rx s" "[]" now rx_ctx_zero] f by (simp add: srv_at_def srv_inv_def)
  then show ?thesis
    unfolding tick_rx_timeout_def f Let_def by (simp add: at_intros)
qed

lemma cand_clear_at: "srv_at E a c s \<Longrightarrow> srv_at E a c (s\<lparr>s_cand_count := 0\<rparr>)"
  by (simp add: srv_at_def srv_inv_def cands_ok_def)

lemma tick_find_at: "srv_at E a c s \<Longrightarrow> srv_at E a c (tick_find E now s)"
  unfolding tick_find_def Let_def
  by (simp add: at_intros if_at cand_clear_at split del: if_split)

lemma tick_prompt_at: "srv_at E a c s \<Longrightarrow> srv_at E a c (tick_prompt E now s)"
  unfolding tick_prompt_def by (auto intro!: request_pair_cancel_at at_intros)

lemma tick_op_at:
  assumes "srv_at E a c s"
  shows "srv_at E a c (tick_op E now s)"
proof -
  have "srv_at E a c (request_pair_cancel E (s\<lparr>s_op_active := False\<rparr>))"
  proof (rule request_pair_cancel_at)
    show "srv_at E a c ((s\<lparr>s_op_active := False\<rparr>)\<lparr>s_prompt_active := False\<rparr>)"
      using assms by (simp add: srv_at_def srv_inv_def)
    show "s_pair_cancel_requested (s\<lparr>s_op_active := False\<rparr>) \<longrightarrow> \<not> s_prompt_active (s\<lparr>s_op_active := False\<rparr>)"
      using assms by (auto simp: srv_at_def srv_inv_def prompt_ok_def)
  qed
  moreover have "srv_at E a c (s\<lparr>s_op_active := False\<rparr>)" if "s_op_kind s \<noteq> OPK_PAIR"
    using op_finish_at [OF assms] that by blast
  ultimately show ?thesis
    using assms unfolding tick_op_def Let_def by (simp add: at_intros)
qed

lemma tick_source_at: "srv_at E a c s \<Longrightarrow> srv_at E a c (tick_source E now s)"
  unfolding tick_source_def Let_def
  by (simp add: at_intros if_at split del: if_split)

lemma tick_at [at_intros]: "srv_at E a c s \<Longrightarrow> srv_at E a c (rbp_server_tick E now s)"
  unfolding rbp_server_tick_def tick_deferred_def tick_heartbeat_def
  by (simp add: at_intros if_at tick_source_at tick_op_at tick_prompt_at tick_find_at tick_rx_timeout_at
      split del: if_split)

section \<open>Requests\<close>

lemma respond_at [at_intros]: "srv_at E a c s \<Longrightarrow> srv_at E a c (respond E h status p s)"
  by (simp add: respond_def at_intros)

lemma respond_error_at [at_intros]: "srv_at E a c s \<Longrightarrow> srv_at E a c (respond_error E h status msg unc s)"
  by (simp add: respond_error_def Let_def at_intros)

lemma find_done_at [at_intros]: "srv_at E a c s \<Longrightarrow> srv_at E a c (find_done_event E reason s)"
  by (simp add: find_done_event_def at_intros)

lemma simple_requests_at:
  assumes "srv_at E a c s"
  shows "srv_at E a c (req_ping E h rd s)" "srv_at E a c (req_get_device E h rd s)"
    "srv_at E a c (req_get_peer E h rd s)" "srv_at E a c (req_get_operation E h rd s)"
    "srv_at E a c (req_get_stats E h rd s)" "srv_at E a c (req_find_list E h rd s)"
    "srv_at E a c (req_key_catalog E h rd s)" "srv_at E a c (req_keys_snapshot E h rd s)"
    "srv_at E a c (req_get_voice_caps E h rd s)"
  using assms
  by (simp_all add: req_ping_def req_get_device_def req_get_peer_def req_get_operation_def
      req_get_stats_def req_find_list_def req_key_catalog_def req_keys_snapshot_def
      req_get_voice_caps_def Let_def at_intros
      split: sum.splits option.splits prod.splits rbp_tlv_err.splits)

lemma req_goodbye_at:
  assumes "srv_at E a c s"
  shows "srv_at E a c (req_goodbye E h rd s)"
proof -
  have len: "s_out_len s \<le> OUT_RING_SIZE E" using assms by (simp add: srv_at_def srv_inv_def ring_ok_def)
  have "srv_at E a c (session_teardown E s)" using assms by (rule session_teardown_at)
  then have "srv_at E a c ((session_teardown E s)\<lparr>s_out_len := s_out_len s\<rparr>)"
    using len by (simp add: srv_at_def srv_inv_def ring_ok_def)
  then have "srv_at E a c (respond E h RBP_STATUS_OK [] ((session_teardown E s)\<lparr>s_out_len := s_out_len s\<rparr>))"
    by (rule respond_at)
  moreover have "srv_at E a c (t\<lparr>s_ctl := (s_ctl t)[0 := (s_ctl t ! 0)\<lparr>cs_session := i\<rparr>]\<rparr>)"
    if "srv_at E a c t" for t i
  proof -
    have same: "cs_used ((s_ctl t)[0 := (s_ctl t ! 0)\<lparr>cs_session := i\<rparr>] ! j) = cs_used (s_ctl t ! j)"
      "slot_span ((s_ctl t)[0 := (s_ctl t ! 0)\<lparr>cs_session := i\<rparr>] ! j) = slot_span (s_ctl t ! j)"
      "cs_len ((s_ctl t)[0 := (s_ctl t ! 0)\<lparr>cs_session := i\<rparr>] ! j) = cs_len (s_ctl t ! j)" for j
      by (cases "s_ctl t = []"; cases "j = 0"; simp add: slot_span_def)+
    have "ctl_ok n m ((s_ctl t)[0 := (s_ctl t ! 0)\<lparr>cs_session := i\<rparr>]) p b = ctl_ok n m (s_ctl t) p b" for n m p b
      by (simp add: ctl_ok_def ctl_rep_def same)
    then show ?thesis
      using that by (simp add: srv_at_def srv_inv_def)
  qed
  ultimately show ?thesis
    by (simp add: req_goodbye_def Let_def)
qed

lemma req_find_start_at:
  assumes "srv_at E a c s"
  shows "srv_at E a c (req_find_start E h rd s)"
  unfolding req_find_start_def Let_def split_def
  using assms backend_at(1)
  by (simp add: at_intros if_at cand_clear_at rng_at split: sum.splits option.splits split del: if_split)

lemma op_begin_pair_at: "srv_at E a c s \<Longrightarrow> srv_at E a c (op_begin OPK_PAIR h s)"
  by (simp add: op_begin_def srv_at_def srv_inv_def prompt_ok_def)

lemma op_begin_forget_at: "srv_at E a c s \<Longrightarrow> \<not> s_op_active s \<Longrightarrow> srv_at E a c (op_begin OPK_FORGET h s)"
  by (simp add: op_begin_def srv_at_def srv_inv_def prompt_ok_def)

lemma pair_requests_at:
  assumes "srv_at E a c s"
  shows "srv_at E a c (req_find_stop E h rd s)" "srv_at E a c (req_pair_begin E h rd s)"
    "srv_at E a c (req_pair_reply E h rd s)" "srv_at E a c (req_forget_peer E h rd s)"
    "srv_at E a c (req_connect_peer E h rd s)" "srv_at E a c (req_disconnect E h rd s)"
  using assms unfolding req_find_stop_def req_pair_begin_def pair_takeover_def req_pair_reply_def
    req_forget_peer_def req_connect_peer_def req_disconnect_def Let_def
  by (simp_all add: at_intros op_begin_pair_at op_begin_forget_at split: sum.splits option.splits)

lemma req_pair_cancel_at_at:
  assumes "srv_at E a c s"
  shows "srv_at E a c (req_pair_cancel E h rd s)"
proof -
  let ?r = "respond E h RBP_STATUS_OK [] (s\<lparr>s_prompt_active := False\<rparr>)"
  have r: "srv_at E a c ?r" using assms by (simp add: at_intros)
  then have "srv_at E a c (request_pair_cancel E ?r)"
    by (intro request_pair_cancel_at) (auto simp: at_intros srv_at_def srv_inv_def prompt_ok_def)
  then show ?thesis
    using assms unfolding req_pair_cancel_def by (simp add: at_intros split: sum.splits option.splits)
qed

lemma peer_flag_at: "srv_at E a c s \<Longrightarrow> srv_at E a c (s\<lparr>s_peer := (s_peer s)\<lparr>pr_auto_reconnect := b\<rparr>\<rparr>)"
  by (simp add: srv_at_def srv_inv_def)

lemma req_set_reconnect_at:
  assumes "srv_at E a c s"
  shows "srv_at E a c (req_set_reconnect E h rd s)"
proof -
  have "srv_at E a c (s\<lparr>s_peer := (s_peer s)\<lparr>pr_auto_reconnect := b\<rparr>, s_world := w\<rparr>)" for b w
    using peer_flag_at [OF assms] by simp
  moreover have "srv_at E a c (s\<lparr>s_peer := (s_peer s)\<lparr>pr_auto_reconnect := b\<rparr>\<rparr>)"
    "srv_at E a c (s\<lparr>s_world := w, s_peer := (s_peer s)\<lparr>pr_auto_reconnect := b\<rparr>\<rparr>)" for b w
    using peer_flag_at [OF assms] assms by (simp_all add: srv_at_def srv_inv_def)
  ultimately show ?thesis
    using assms unfolding req_set_reconnect_def Let_def
    by (auto simp: at_intros peer_flag_at split: sum.splits option.splits prod.splits)
qed

lemma req_events_enable_at:
  "srv_at E a c s \<Longrightarrow> srv_at E a c (req_events_enable E h rd s)"
  unfolding req_events_enable_def Let_def
  by (auto simp: at_intros split: sum.splits option.splits intro!: at_intros)

lemma voice_enable_off_at: "srv_at E a c s \<Longrightarrow> srv_at E a c (voice_enable_off E h s)"
proof -
  assume at: "srv_at E a c s"
  have "srv_at E a c (s\<lparr>s_accepted_len := 0, s_accepted_max_unit := 0, s_voice_resume_peer := 0,
      s_voice_denied := True, s_voice_enabled := False, s_waiting_idle := False\<rparr>)"
    using at by (auto simp: srv_at_def srv_inv_def sess_ok_def accepted_ok_def)
  then show ?thesis
    unfolding voice_enable_off_def Let_def by (simp add: at_intros if_at split del: if_split)
qed

lemma voice_enable_on_at:
  assumes "srv_at E a c s" and "s_session_active s" and "length cs \<le> 96" and "6 dvd length cs"
  shows "srv_at E a c (voice_enable_on E h cs m s)"
proof -
  have acc: "length (s_accepted_codecs s) = 96" using assms(1) by (simp add: srv_at_def srv_inv_def accepted_ok_def)
  have "srv_at E a c (s\<lparr>s_accepted_codecs := memcpy_at (s_accepted_codecs s) 0 cs,
      s_accepted_len := length cs, s_accepted_max_unit := m, s_voice_denied := False,
      s_voice_resume_peer := p, s_voice_enabled := True, s_waiting_idle := w\<rparr>)"
    "srv_at E a c (s\<lparr>s_accepted_codecs := memcpy_at (s_accepted_codecs s) 0 cs,
      s_accepted_len := length cs, s_accepted_max_unit := m, s_voice_denied := False,
      s_voice_resume_peer := p\<rparr>)" for p w
    using assms acc by (auto simp: srv_at_def srv_inv_def sess_ok_def accepted_ok_def)
  then show ?thesis
    unfolding voice_enable_on_def Let_def by (auto simp: at_intros)
qed

lemma voice_enable_check_pass:
  "voice_enable_check codecs m s = None \<Longrightarrow> length (the codecs) \<le> 96 \<and> 6 dvd length (the codecs)"
  by (auto simp: voice_enable_check_def split: option.splits if_splits)

lemma voice_enable_checked_at:
  assumes "srv_at E a c s" and "s_session_active s"
  shows "srv_at E a c (case voice_enable_check codecs m s of
      Some status \<Rightarrow> respond_error E h status None False s
    | None \<Rightarrow> voice_enable_on E h (the codecs) (the m) s)"
  using assms voice_enable_check_pass [of codecs m s]
  by (cases "voice_enable_check codecs m s") (simp_all add: at_intros voice_enable_on_at)

lemma req_voice_enable_at:
  assumes "srv_at E a c s" and "s_session_active s"
  shows "srv_at E a c (req_voice_enable E h rd s)"
proof (cases "\<exists>b. rbp_tlv_get_bool rd 1 = Inr (Some b)")
  case True
  then show ?thesis
    using assms(1) voice_enable_checked_at [OF assms]
    by (auto simp: req_voice_enable_def at_intros voice_enable_off_at split: sum.split)
next
  case False
  then show ?thesis
    using assms(1) by (auto simp: req_voice_enable_def at_intros split: sum.split option.split)
qed

lemma voice_requests_at:
  assumes "srv_at E a c s"
  shows "srv_at E a c (req_voice_start E h rd s)" "srv_at E a c (req_voice_stop E h rd s)"
  using assms unfolding req_voice_start_def req_voice_stop_def Let_def
  by (simp_all add: at_intros if_at split: sum.splits option.splits prod.splits)

lemma request_handler_at:
  assumes "srv_at E a c s" and "s_session_active s"
  shows "srv_at E a c (request_handler op E h rd s)"
  using assms unfolding request_handler_def
  by (simp add: at_intros simple_requests_at req_goodbye_at req_find_start_at pair_requests_at
      req_pair_cancel_at_at req_set_reconnect_at req_events_enable_at req_voice_enable_at voice_requests_at)

lemma dispatch_at:
  "srv_at E a c s \<Longrightarrow> s_session_active s \<Longrightarrow> srv_at E a c (dispatch_request E h p s)"
  by (simp add: dispatch_request_def at_intros request_handler_at)

end

section \<open>Received frames\<close>

definition srv_grows :: "'w server_env \<Rightarrow> 'w rbp_server \<Rightarrow> 'w rbp_server \<Rightarrow> bool" where
  "srv_grows E s u \<longleftrightarrow> srv_inv E u \<and> s_session_counter s \<le> s_session_counter u
     \<and> (s_session_counter u = s_session_counter s \<and> s_session_active u \<longrightarrow> s_session_active s)"

lemma srv_grows_trans: "srv_grows E s t \<Longrightarrow> srv_grows E t u \<Longrightarrow> srv_grows E s u"
  by (auto simp: srv_grows_def)

context server_wiring
begin

lemma at_self: "srv_inv E s \<longleftrightarrow> srv_at E (s_session_active s) (s_session_counter s) s"
  by (simp add: srv_at_def)

lemma srv_at_inv: "srv_at E a c s \<Longrightarrow> srv_inv E s"
  by (simp add: srv_at_def)

lemma hello_mismatch_at: "srv_at E a c s \<Longrightarrow> srv_at E a c (hello_mismatch E nonce s)"
proof -
  assume at: "srv_at E a c s"
  have "srv_at E a c (s\<lparr>s_out_ring := ring, s_out_len := len\<rparr>)"
    if w: "ring_write (s_out_ring s) (OUT_RING_SIZE E) (s_out_head s) (s_out_len s) tmp = (b, ring, len)"
    for tmp b ring len
  proof (cases "OUT_RING_SIZE E - s_out_len s < length tmp")
    case True
    then show ?thesis using at w by (auto simp: ring_write_full srv_at_def srv_inv_def)
  next
    case False
    then show ?thesis
      using at ring_write_ok(3) [OF _ _ w] by (simp add: srv_at_def srv_inv_def)
  qed
  then show ?thesis
    unfolding hello_mismatch_def Let_def by (auto simp: at_intros split: prod.splits)
qed

text \<open>
  A received frame may start a session, and then uses up the next session number. \<open>srv_grows\<close> is what
  a frame does to the session: no number is used twice, and without a new number no session appears.
\<close>

lemma grows_at: "srv_at E (s_session_active s) (s_session_counter s) u \<Longrightarrow> srv_grows E s u"
  by (simp add: srv_at_def srv_grows_def)

lemma session_create_grows:
  assumes "srv_inv E s"
  shows "srv_grows E s (session_create E s)"
proof -
  have at: "srv_at E (s_session_active s) (s_session_counter s) s" using assms at_self by blast
  have c: "s_session_counter (session_teardown E s) = s_session_counter s"
    using session_teardown_False [OF at] by (simp add: srv_at_def)
  have "x < x + 1" if "x \<noteq> 0xFFFFFFFF" for x :: u32
    using that by (rule u32_less_succ)
  then show ?thesis
    using session_create_inv [OF at] by (auto simp: srv_grows_def session_create_def Let_def c order.strict_implies_order)
qed

lemma grows_at_trans:
  assumes "srv_grows E s t" and "srv_at E (s_session_active t) (s_session_counter t) u"
  shows "srv_grows E s u"
  using srv_grows_trans [OF assms(1) grows_at [OF assms(2)]] .

lemma handle_hello_grows:
  assumes "srv_inv E s"
  shows "srv_grows E s (handle_hello E h p s)"
proof -
  have at: "srv_at E (s_session_active s) (s_session_counter s) s" using assms at_self by blast
  define t where "t = session_create E s"
  have g: "srv_grows E s t" using session_create_grows [OF assms] by (simp add: t_def)
  then have t: "srv_at E (s_session_active t) (s_session_counter t) t"
    using at_self by (simp add: srv_grows_def)
  have "srv_grows E s (out_drain E (ctl_enqueue E k op st r i pl (t\<lparr>s_req_hwm := x, s_client_tx_hwm := y,
      s_have_client_seq := z\<rparr>)))" for k op st r i pl x y z
    by (rule grows_at_trans [OF g]) (use t in \<open>simp add: at_intros\<close>)
  moreover have "srv_grows E s (hello_mismatch E n s)" for n
    using hello_mismatch_at [OF at] by (rule grows_at)
  moreover have "srv_grows E s (out_drain E (respond_error E h st m u s))" for st m u
    by (rule grows_at) (use at in \<open>simp add: at_intros\<close>)
  moreover have "srv_grows E s (s\<lparr>s_stat_protocol_errors := n\<rparr>)" for n
    by (rule grows_at) (use at in simp)
  ultimately show ?thesis
    unfolding handle_hello_def Let_def by (auto simp: t_def split: option.splits)
qed

lemma process_frame_grows:
  assumes "srv_inv E s"
  shows "srv_grows E s (process_frame E h p crc s)"
proof -
  let ?at = "srv_at E (s_session_active s) (s_session_counter s)"
  have at: "?at s" using assms at_self by blast
  have "?at (dispatch_request E h p (s\<lparr>s_client_tx_hwm := x, s_last_req_ms := y, s_req_hwm := z\<rparr>))"
    if "s_session_active s" for x y z
    using that at dispatch_at by simp
  note dispatch = grows_at [OF this]
  have "?at (respond_error E h st m u (s\<lparr>s_client_tx_hwm := x, s_last_req_ms := y\<rparr>))" for st m u x y
    using at by (simp add: at_intros)
  note error = grows_at [OF this]
  have "?at (session_teardown E (s\<lparr>s_stat_protocol_errors := n\<rparr>))" "?at (session_teardown E s)"
    "?at (s\<lparr>s_stat_protocol_errors := n\<rparr>)" for n
    using at by (simp_all add: at_intros)
  note down = this [THEN grows_at]
  show ?thesis
    using grows_at [OF at] handle_hello_grows [OF assms]
    by (simp add: process_frame_def Let_def dispatch error down)
qed

lemma server_rx_event_grows:
  assumes "srv_inv E s"
  shows "srv_grows E s (server_rx_event E ctx s)"
proof -
  have at: "srv_at E (s_session_active s) (s_session_counter s) s" using assms at_self by blast
  have "srv_grows E s (session_teardown E (s\<lparr>s_stat_protocol_errors := n\<rparr>))" for n
    by (rule grows_at) (use at in \<open>simp add: at_intros\<close>)
  then show ?thesis
    using assms grows_at [OF at] by (simp add: server_rx_event_def process_frame_grows)
qed

lemma drain_keeps:
  assumes "rx_inv p" and "P user" and "\<And>ctx u. P u \<Longrightarrow> P (f ctx u)"
  shows "rx_inv (fst (rbp_rx_drain p data now ctx f user)) \<and> P (snd (snd (rbp_rx_drain p data now ctx f user)))"
  using assms
proof (induction p data now ctx f user rule: rbp_rx_drain.induct)
  case (1 p data now ctx f user)
  let ?r = "rbp_rxparser_feed p data now ctx"
  show ?case
  proof (cases "data = []")
    case True
    then show ?thesis using "1.prems" by (simp add: rbp_rx_drain.simps)
  next
    case False
    have p': "rx_inv (fst ?r)" using "1.prems"(1) by (rule feed_inv)
    have u': "P (f (snd ?r) user)" using "1.prems"(2,3) by blast
    show ?thesis
    proof (cases "cx_event (snd ?r) = RBP_RX_NONE")
      case True
      then show ?thesis
        using False p' u' by (subst (1 2) rbp_rx_drain.simps) (simp add: Let_def)
    next
      case ev: False
      show ?thesis
        using "1.IH" [OF False refl refl refl ev p' u' "1.prems"(3)] False ev
        by (subst (1 2) rbp_rx_drain.simps) (simp add: Let_def)
    qed
  qed
qed

lemma on_usb_rx_grows:
  assumes "srv_inv E s"
  shows "srv_grows E s (rbp_server_on_usb_rx E data now s)"
proof -
  let ?s = "s\<lparr>s_now_ms := now\<rparr>"
  obtain p ctx t where r: "rbp_rx_drain (s_rx ?s) data now (s_rx_ctx ?s) (server_rx_event E) ?s = (p, ctx, t)"
    by (metis prod_cases3)
  have s: "srv_inv E ?s" "srv_grows E s ?s" "rx_inv (s_rx ?s)"
    using assms by (simp_all add: srv_inv_def srv_grows_def)
  have "srv_grows E s (server_rx_event E ctx u)" if "srv_grows E s u" for ctx u
    using that srv_grows_trans server_rx_event_grows by (metis srv_grows_def)
  then have "rx_inv p \<and> srv_grows E s t"
    using drain_keeps [of "s_rx ?s" "srv_grows E s" ?s "server_rx_event E" data now "s_rx_ctx ?s"] s r by simp
  then show ?thesis
    unfolding rbp_server_on_usb_rx_def Let_def r by (simp add: srv_grows_def srv_inv_def)
qed

end

end
