(* ===== verification/Server_Calls.thy ===== *)
theory Server_Calls
  imports Server_Safe
begin

text \<open>
  The server as its callers see it: the functions of \<open>rbp_server.h\<close> as one datatype of calls, the states
  they reach from \<open>rbp_server_init\<close>, and the invariant of these states. The contract of the backend is
  closed here as well: a backend that answers by calling the server again, nested to any depth, keeps
  the contract, and the build of the firmware with a transport of limited room is such a wiring.
\<close>

section \<open>Calls and reachable states\<close>

datatype server_call =
    C_tick u32
  | C_flush_output
  | C_usb_rx "u8 list" u32
  | C_usb_gone u32
  | C_scan_candidate rbp_candidate
  | C_scan_done u8 u32
  | C_pair_prompt u8 u32 u32
  | C_pair_done u16 bool "rbp_peer_record option" u32
  | C_forget_done u16 bool
  | C_link rbp_link_state u32 u32
  | C_link_message "u8 list option"
  | C_peer_changed rbp_peer_record
  | C_keys rbp_keys_report
  | C_voice rbp_voice_evt u32
  | C_voice_state u8 u8 u32
  | C_battery u8 u8
  | C_voice_caps "rbp_audio_caps option"
  | C_profile "rbp_device_profile option"
  | C_adapter_failed "u8 list option"

fun server_step :: "'w server_env \<Rightarrow> server_call \<Rightarrow> 'w rbp_server \<Rightarrow> 'w rbp_server" where
  "server_step E (C_tick now) s = rbp_server_tick E now s"
| "server_step E C_flush_output s = rbp_server_flush_output E s"
| "server_step E (C_usb_rx data now) s = rbp_server_on_usb_rx E data now s"
| "server_step E (C_usb_gone now) s = rbp_server_on_usb_gone E now s"
| "server_step E (C_scan_candidate cand) s = rbp_server_on_scan_candidate cand s"
| "server_step E (C_scan_done reason now) s = rbp_server_on_scan_done E reason now s"
| "server_step E (C_pair_prompt meth number remaining) s = rbp_server_on_pair_prompt E meth number remaining s"
| "server_step E (C_pair_done status committed peer conn) s = rbp_server_on_pair_done E status committed peer conn s"
| "server_step E (C_forget_done status uncertain) s = rbp_server_on_forget_done E status uncertain s"
| "server_step E (C_link state conn now) s = rbp_server_on_link E state conn now s"
| "server_step E (C_link_message msg) s = rbp_server_on_link_message msg s"
| "server_step E (C_peer_changed peer) s = rbp_server_on_peer_changed peer s"
| "server_step E (C_keys rep) s = rbp_server_on_keys rep s"
| "server_step E (C_voice ev now) s = rbp_server_on_voice E ev now s"
| "server_step E (C_voice_state state interaction rate) s = rbp_server_on_voice_state E state interaction rate s"
| "server_step E (C_battery level charging) s = rbp_server_on_battery E level charging s"
| "server_step E (C_voice_caps caps) s = rbp_server_set_voice_caps caps s"
| "server_step E (C_profile profile) s = rbp_server_set_profile E profile s"
| "server_step E (C_adapter_failed reason) s = rbp_server_adapter_failed E reason s"

text \<open>
  What the C types say of the arguments: a name is an array of 48 characters and \<open>name_len\<close> does not
  exceed it.
\<close>

fun call_ok :: "server_call \<Rightarrow> bool" where
  "call_ok (C_scan_candidate cand) = cand_ok cand"
| "call_ok (C_pair_done status committed peer conn) = (case peer of None \<Rightarrow> True | Some r \<Rightarrow> length (pr_name r) = 48)"
| "call_ok (C_peer_changed peer) = (length (pr_name peer) = 48)"
| "call_ok _ = True"

text \<open>Every call but the received bytes may be made by the radio side, also from within a backend call.\<close>

fun radio_call :: "server_call \<Rightarrow> bool" where
  "radio_call (C_usb_rx _ _) = False"
| "radio_call _ = True"

inductive server_reachable :: "'w server_env \<Rightarrow> rbp_server_cfg \<Rightarrow> 'w rbp_server \<Rightarrow> bool" for E cfg where
  init: "server_reachable E cfg (rbp_server_init E cfg faults world)"
| call: "server_reachable E cfg s \<Longrightarrow> call_ok k \<Longrightarrow> server_reachable E cfg (server_step E k s)"

section \<open>The initial state\<close>

lemma zero_ok:
  "0 < n \<Longrightarrow> ring_ok n (replicate n x) 0 0"
  "ctl_ok m b (replicate m ctl_slot_zero) (replicate b 0) 0"
  "keyq_ok (replicate RBP_KEY_QUEUE_DEPTH key_item_zero) 0 0"
  "0 < d \<Longrightarrow> 0 < p \<Longrightarrow> mediaq_ok d p (replicate d media_zero) 0 0 (replicate p 0) 0 0"
  "cands_ok (replicate RBP_MAX_CANDIDATES cand_zero) 0"
  "accepted_ok (replicate 96 0) 0"
  "rx_inv (rbp_rxparser_init rx_zero 0)"
  by (auto simp: ring_ok_def ctl_ok_def ctl_rep_def ctl_slot_zero_def keyq_ok_def key_item_zero_def
      mediaq_ok_def cands_ok_def cand_ok_def cand_zero_def accepted_ok_def list_all_length
      rx_inv_def rx_zero_def rbp_rxparser_init_def rx_reset_def intro!: exI [of _ "[]"])

context server_wiring
begin

lemma init_inv: "srv_inv E (rbp_server_init E cfg faults world)"
proof -
  let ?z = "server_zero E cfg faults world"
  have z: "srv_inv E (?z\<lparr>s_rx := rbp_rxparser_init (s_rx ?z) 0\<rparr>)"
    using sizes zero_ok(2-7) by (simp add: zero_ok(1) srv_inv_def server_zero_def peer_zero_def)
  have l: "length (pr_name r) = 48" if "e_load E = Some load" "load w = (Some r, w')" for load r w w'
    using load_ok that by blast
  show ?thesis
    using z by (auto simp: rbp_server_init_def Let_def srv_inv_def l split: option.split prod.split)
qed

lemma radio_step_at:
  "srv_at E a c s \<Longrightarrow> call_ok k \<Longrightarrow> radio_call k \<Longrightarrow> srv_at E a c (server_step E k s)"
  by (cases k) (auto simp: at_intros peer_ok_def rbp_server_set_voice_caps_def rbp_server_on_link_message_def
      split: option.splits)

lemma step_grows:
  assumes "srv_inv E s" and "call_ok k"
  shows "srv_grows E s (server_step E k s)"
proof (cases "radio_call k")
  case True
  then show ?thesis
    using assms radio_step_at at_self grows_at by blast
next
  case False
  then show ?thesis
    using assms(1) by (auto simp: on_usb_rx_grows elim!: radio_call.elims)
qed

lemma step_inv: "srv_inv E s \<Longrightarrow> call_ok k \<Longrightarrow> srv_inv E (server_step E k s)"
  using step_grows by (simp add: srv_grows_def)

lemma run_grows: "srv_inv E s \<Longrightarrow> list_all call_ok ks \<Longrightarrow> srv_grows E s (fold (server_step E) ks s)"
proof (induction ks arbitrary: s)
  case Nil
  then show ?case by (simp add: srv_grows_def)
next
  case (Cons k ks)
  then have k: "srv_grows E s (server_step E k s)" using step_grows by simp
  then have "srv_inv E (server_step E k s)" by (simp add: srv_grows_def)
  from srv_grows_trans [OF k Cons.IH [OF this]] show ?case
    using Cons.prems by simp
qed

lemma reachable_inv: "server_reachable E cfg s \<Longrightarrow> srv_inv E s"
  by (induction rule: server_reachable.induct) (simp_all add: init_inv step_inv)

lemma radio_run_at:
  "srv_at E a c s \<Longrightarrow> list_all (\<lambda>k. call_ok k \<and> radio_call k) ks \<Longrightarrow> srv_at E a c (fold (server_step E) ks s)"
  by (induction ks arbitrary: s) (simp_all add: radio_step_at)

end

section \<open>Backends that call back\<close>

text \<open>
  The backend may report into the server before its call returns. A backend written as a script, the
  calls it makes depending on the state it finds, is nested to a depth: at depth \<open>n + 1\<close> its calls
  reach a server whose own backend calls nest to depth \<open>n\<close>, at depth \<open>0\<close> the base environment answers.
\<close>

record 'w scripts =
  sc_start_find :: "u16 \<Rightarrow> 'w rbp_server \<Rightarrow> u16 \<times> server_call list"
  sc_backend :: "string \<Rightarrow> 'w rbp_server \<Rightarrow> server_call list"

definition play :: "'w server_env \<Rightarrow> ('w rbp_server \<Rightarrow> server_call list) \<Rightarrow> 'w rbp_server \<Rightarrow> 'w rbp_server" where
  "play E sc s = fold (server_step E) (sc s) s"

fun nested :: "'w server_env \<Rightarrow> 'w scripts \<Rightarrow> nat \<Rightarrow> 'w server_env" where
  "nested E sc 0 = E"
| "nested E sc (Suc n) =
     (let F = nested E sc n in
      E\<lparr>e_start_find := (\<lambda>d s. (fst (sc_start_find sc d s), play F (snd \<circ> sc_start_find sc d) s)),
        e_stop_find := play F (sc_backend sc ''stop_find''),
        e_pair_begin := (\<lambda>cid. play F (sc_backend sc ''pair_begin'')),
        e_pair_reply := (\<lambda>acc has pk. play F (sc_backend sc ''pair_reply'')),
        e_pair_cancel := play F (sc_backend sc ''pair_cancel''),
        e_forget_peer := play F (sc_backend sc ''forget_peer''),
        e_connect_peer := play F (sc_backend sc ''connect_peer''),
        e_disconnect := play F (sc_backend sc ''disconnect''),
        e_voice_request_stop := play F (sc_backend sc ''voice_request_stop'')\<rparr>)"

definition radio_script :: "('w rbp_server \<Rightarrow> server_call list) \<Rightarrow> bool" where
  "radio_script sc \<longleftrightarrow> (\<forall>s. list_all (\<lambda>k. call_ok k \<and> radio_call k) (sc s))"

lemma nested_sizes [simp]:
  "OUT_RING_SIZE (nested E sc n) = OUT_RING_SIZE E" "AUDIO_POOL_SIZE (nested E sc n) = AUDIO_POOL_SIZE E"
  "CTL_SLOTS (nested E sc n) = CTL_SLOTS E" "MEDIA_DEPTH (nested E sc n) = MEDIA_DEPTH E"
  "CTL_BYTES (nested E sc n) = CTL_BYTES E" "e_out (nested E sc n) = e_out E" "e_load (nested E sc n) = e_load E"
  by (cases n; simp add: Let_def)+

lemma nested_srv_at: "srv_at (nested E sc n) = srv_at E"
  by (intro ext) (simp add: srv_at_def srv_inv_def)

lemma play_call:
  assumes "server_wiring F" and "srv_at F = srv_at E" and "radio_script sc"
  shows "backend_call E (play F sc)"
  using assms server_wiring.radio_run_at [OF assms(1)]
  unfolding backend_call_def play_def radio_script_def by metis

lemma nested_wiring:
  assumes "server_wiring E" and "\<And>d. radio_script (snd \<circ> sc_start_find sc d)"
    and "\<And>name. radio_script (sc_backend sc name)"
  shows "server_wiring (nested E sc n)"
proof (induction n)
  case 0
  then show ?case using assms(1) by simp
next
  case (Suc n)
  let ?F = "nested E sc n"
  have call: "backend_call (nested E sc (Suc n)) (play ?F p)" if "radio_script p" for p
    by (rule play_call [OF Suc.IH _ that]) (simp only: nested_srv_at)
  show ?case
  proof (unfold_locales, goal_cases)
    case (6 load w rec w')
    then show ?case using server_wiring.load_ok [OF assms(1)] by (simp del: nested.simps)
  qed (use assms(2,3) call server_wiring.sizes [OF assms(1)] server_wiring.out_le [OF assms(1)] in
      \<open>simp_all add: Let_def\<close>)
qed

end
