(* ===== verification/Server_Out.thy ===== *)
theory Server_Out
  imports Server_Calls "HOL-Library.Multiset"
begin

text \<open>
  What the server puts on the wire. The output queues are seen as lists of messages, a header and a
  payload; flushing moves messages from these lists to the wire, framed and numbered, and loses,
  doubles or reorders none of a queue. The wire is what the transport took followed by what the
  output ring still holds.
\<close>

section \<open>Messages\<close>

type_synonym msg = "rbp_header \<times> u8 list"

definition pending :: "'w rbp_server \<Rightarrow> u8 list" where
  "pending s = ring_items (s_out_ring s) (s_out_head s) (s_out_len s)"

definition key_header :: "u32 \<Rightarrow> key_item \<Rightarrow> rbp_header" where
  "key_header sid it = header_zero\<lparr>h_kind := RBP_KIND_EVENT, h_session_id := sid,
     h_opcode := RBP_OP_KEYS_STATE_EV, h_connection_id := ki_connection it\<rparr>"

definition key_msgs :: "'w rbp_server \<Rightarrow> msg list" where
  "key_msgs s = map (\<lambda>it. (key_header (s_session_id s) it, ki_buf it))
     (ring_items (s_key_q s) (s_key_q_head s) (s_key_q_count s))"

definition media_header :: "u32 \<Rightarrow> media_marker \<Rightarrow> rbp_header" where
  "media_header sid m = header_zero\<lparr>h_kind := (if mm_opcode m = RBP_OP_VOICE_DATA
       then RBP_KIND_AUDIO else RBP_KIND_EVENT),
     h_opcode := mm_opcode m, h_session_id := sid, h_connection_id := mm_connection m\<rparr>"

definition media_msgs :: "'w rbp_server \<Rightarrow> msg list" where
  "media_msgs s = map (\<lambda>(m, p). (media_header (s_session_id s) m, p)) (media_frames s)"

definition ctl_msg :: "u8 list \<Rightarrow> ctl_slot \<Rightarrow> msg" where
  "ctl_msg payload sl = (ctl_header sl, take (cs_len sl) (drop (cs_offset sl) payload))"

definition ctl_mset :: "'w rbp_server \<Rightarrow> msg multiset" where
  "ctl_mset s = mset (map (ctl_msg (s_ctl_payload s)) (filter cs_used (s_ctl s)))"

text \<open>The frames a list of messages becomes: consecutive sequence numbers from the server's counter.\<close>

fun numbered :: "u32 \<Rightarrow> msg list \<Rightarrow> sent_frame list" where
  "numbered n [] = []"
| "numbered n ((h, p) # ms) = (h, n, p) # numbered (n + 1) ms"

definition wire_of :: "u32 \<Rightarrow> msg list \<Rightarrow> u8 list" where
  "wire_of n ms = concat (map frame_wire (numbered n ms))"

lemma numbered_append: "numbered n (xs @ ys) = numbered n xs @ numbered (n + word_of_nat (length xs)) ys"
  by (induction n xs rule: numbered.induct) (simp_all add: add.assoc)

lemma wire_of_append: "wire_of n (xs @ ys) = wire_of n xs @ wire_of (n + word_of_nat (length xs)) ys"
  by (simp add: wire_of_def numbered_append)

text \<open>
  A move of messages to the wire, each tagged with the queue it comes from. Keys and media leave in
  the order of their queue; the order among control messages is that of \<open>ctl_pop\<close>.
\<close>

definition from_queue :: "flush_source \<Rightarrow> (flush_source \<times> msg) list \<Rightarrow> msg list" where
  "from_queue q xs = map snd (filter (\<lambda>x. fst x = q) xs)"

definition moves :: "('w \<Rightarrow> u8 list) \<Rightarrow> 'w rbp_server \<Rightarrow> (flush_source \<times> msg) list \<Rightarrow> 'w rbp_server \<Rightarrow> bool" where
  "moves sent s xs s' \<longleftrightarrow>
     sent (s_world s') @ pending s' = sent (s_world s) @ pending s @ wire_of (s_txseq s) (map snd xs)
     \<and> s_txseq s' = s_txseq s + word_of_nat (length xs)
     \<and> s_session_id s' = s_session_id s
     \<and> key_msgs s = from_queue F_key xs @ key_msgs s'
     \<and> media_msgs s = from_queue F_media xs @ media_msgs s'
     \<and> ctl_mset s = mset (from_queue F_ctl xs) + ctl_mset s'
     \<and> (\<forall>x \<in> set xs. length (snd (snd x)) \<le> RBP_MAX_PAYLOAD)"

lemma moves_refl: "moves sent s [] s"
  by (simp add: moves_def wire_of_def from_queue_def)

lemma moves_trans:
  assumes "moves sent s xs t" and "moves sent t ys u"
  shows "moves sent s (xs @ ys) u"
  using assms by (auto simp: moves_def wire_of_append from_queue_def add.assoc)

section \<open>One frame\<close>

definition seq_left :: "u32 \<Rightarrow> nat \<Rightarrow> bool" where
  "seq_left seq n \<longleftrightarrow> seq \<noteq> 0 \<and> unat seq + n < 2 ^ 32 - 1"

lemma seq_leftD: "seq_left seq n \<Longrightarrow> seq \<noteq> 0 \<and> seq \<noteq> UINT32_MAX"
  by (auto simp: seq_left_def)

lemma seq_left_next:
  assumes "seq_left seq (Suc n)"
  shows "seq_left (seq + 1) n"
proof -
  have "unat (seq + 1) = unat seq + 1"
    using assms by (simp add: seq_left_def unat_word_ariths(1))
  then show ?thesis
    using assms by (auto simp: seq_left_def)
qed

lemma frame_sent:
  assumes "ring_ok (OUT_RING_SIZE E) (s_out_ring s) (s_out_head s) (s_out_len s)"
    and "out_try_frame E h p s = (True, s')" and "length p \<le> RBP_MAX_PAYLOAD"
  obtains ring len where "s' = s\<lparr>s_out_ring := ring, s_out_len := len, s_txseq := s_txseq s + 1\<rparr>"
    and "pending s' = pending s @ frame_wire (h, s_txseq s, p)"
proof -
  let ?tmp = "snd (rbp_frame_encode h (s_txseq s) (Some p) (length p))"
  obtain ring len where w: "ring_write (s_out_ring s) (OUT_RING_SIZE E) (s_out_head s) (s_out_len s) ?tmp
      = (True, ring, len)" and s': "s' = s\<lparr>s_out_ring := ring, s_out_len := len, s_txseq := s_txseq s + 1\<rparr>"
    and room: "length ?tmp \<le> OUT_RING_SIZE E - s_out_len s"
    using assms(2,3) by (auto simp: out_try_frame_def rbp_frame_encode_wire ring_write_def Let_def split: prod.splits if_splits)
  then have "pending s' = pending s @ frame_wire (h, s_txseq s, p)"
    using ring_write_ok(4) [OF assms(1) room w] by (simp add: pending_def)
  then show thesis using s' that by blast
qed

lemma frame_not_sent:
  assumes "out_try_frame E h p s = (False, s')" and "length p \<le> RBP_MAX_PAYLOAD"
    and "s_txseq s \<noteq> 0" "s_txseq s \<noteq> UINT32_MAX"
  shows "s' = s" and "OUT_RING_SIZE E - s_out_len s < RBP_MAX_ENCODED"
proof -
  have "length (rbp_cobs_encode (raw_frame (stamped h (s_txseq s) (length p)) p)) + 1 \<le> RBP_MAX_ENCODED"
    using encode_length [OF assms(2)] by simp
  then show "s' = s" "OUT_RING_SIZE E - s_out_len s < RBP_MAX_ENCODED"
    using assms by (auto simp: out_try_frame_def rbp_frame_encode_wire Let_def split: prod.splits if_splits)
qed

section \<open>One message of each queue\<close>

text \<open>The server's state without what framing changes, and the moves of the three queues.\<close>

lemma queues_framed [simp]:
  "key_msgs (s\<lparr>s_out_ring := r, s_out_len := n, s_txseq := q\<rparr>) = key_msgs s"
  "media_msgs (s\<lparr>s_out_ring := r, s_out_len := n, s_txseq := q\<rparr>) = media_msgs s"
  "ctl_mset (s\<lparr>s_out_ring := r, s_out_len := n, s_txseq := q\<rparr>) = ctl_mset s"
  by (simp_all add: key_msgs_def media_msgs_def media_frames_def ctl_mset_def)

lemma ring_items_passed:
  assumes "h < length buf" and "n < length buf"
  shows "ring_items (buf[h := x]) ((h + 1) mod length buf) n = ring_items buf ((h + 1) mod length buf) n"
proof (rule nth_equalityI)
  fix i assume "i < length (ring_items (buf[h := x]) ((h + 1) mod length buf) n)"
  then have i: "i < n" by simp
  have "(h + (1 + i)) mod length buf \<noteq> (h + 0) mod length buf"
    using ring_slot_inject [of "1 + i" "length buf" 0 h] i assms(2) less_trans by force
  then have "((h + 1) mod length buf + i) mod length buf \<noteq> h"
    using assms by (simp add: mod_add_left_eq)
  then show "ring_items (buf[h := x]) ((h + 1) mod length buf) n ! i = ring_items buf ((h + 1) mod length buf) n ! i"
    using i by (simp add: nth_ring_items)
qed simp

lemma keys_flush_moves:
  assumes "srv_inv E s" and "keys_flush_one E s = (True, s')"
  shows "\<exists>m. moves sent s [(F_key, m)] s'"
proof -
  note k = srv_invD(3) [OF assms(1)]
  let ?it = "s_key_q s ! s_key_q_head s"
  let ?h = "key_header (s_session_id s) ?it"
  obtain s1 where o: "out_try_frame E ?h (ki_buf ?it) s = (True, s1)" and c: "0 < s_key_q_count s"
    and s': "s' = s1\<lparr>s_key_q := (s_key_q s1)[s_key_q_head s1 := ?it\<lparr>ki_used := False\<rparr>],
      s_key_q_head := (s_key_q_head s1 + 1) mod RBP_KEY_QUEUE_DEPTH, s_key_q_count := s_key_q_count s1 - 1\<rparr>"
    using assms(2) by (auto simp: keys_flush_one_def key_header_def Let_def split: prod.splits if_splits)
  have "?it \<in> set (s_key_q s)" using k by (simp add: keyq_ok_def ring_ok_def)
  then have len: "length (ki_buf ?it) \<le> RBP_MAX_PAYLOAD" using k by (simp add: keyq_ok_def)
  obtain ring n where s1: "s1 = s\<lparr>s_out_ring := ring, s_out_len := n, s_txseq := s_txseq s + 1\<rparr>"
    and p: "pending s1 = pending s @ frame_wire (?h, s_txseq s, ki_buf ?it)"
    by (rule frame_sent [OF srv_invD(1) [OF assms(1)] o len])
  obtain c' where c': "s_key_q_count s = Suc c'" using c by (cases "s_key_q_count s") auto
  let ?q = "(s_key_q s)[s_key_q_head s := ?it\<lparr>ki_used := False\<rparr>]"
  have "ring_items ?q ((s_key_q_head s + 1) mod RBP_KEY_QUEUE_DEPTH) c'
      = ring_items (s_key_q s) ((s_key_q_head s + 1) mod RBP_KEY_QUEUE_DEPTH) c'"
    using ring_items_passed [of "s_key_q_head s" "s_key_q s" c'] k c' by (simp add: keyq_ok_def ring_ok_def)
  moreover have "ring_items (s_key_q s) (s_key_q_head s) (Suc c')
      = ?it # ring_items (s_key_q s) ((s_key_q_head s + 1) mod RBP_KEY_QUEUE_DEPTH) c'"
    using ring_items_Cons [of "s_key_q s" "s_key_q_head s" c'] k by (simp add: keyq_ok_def ring_ok_def)
  ultimately have "key_msgs s = (?h, ki_buf ?it) # key_msgs s'"
    by (simp add: key_msgs_def s' s1 c')
  moreover have "media_msgs s' = media_msgs s" "ctl_mset s' = ctl_mset s"
    by (simp_all add: s' s1 media_msgs_def media_frames_def ctl_mset_def)
  ultimately have "moves sent s [(F_key, ?h, ki_buf ?it)] s'"
    using p len by (simp add: moves_def from_queue_def wire_of_def s' s1 pending_def)
  then show ?thesis by blast
qed

lemma media_delivered_keeps [simp]:
  "s_out_ring (media_delivered m p s) = s_out_ring s" "s_out_head (media_delivered m p s) = s_out_head s"
  "s_out_len (media_delivered m p s) = s_out_len s" "s_txseq (media_delivered m p s) = s_txseq s"
  "s_world (media_delivered m p s) = s_world s" "s_session_id (media_delivered m p s) = s_session_id s"
  "s_media_q (media_delivered m p s) = s_media_q s" "s_media_head (media_delivered m p s) = s_media_head s"
  "s_audio_pool (media_delivered m p s) = s_audio_pool s" "s_audio_head (media_delivered m p s) = s_audio_head s"
  "s_audio_len (media_delivered m p s) = s_audio_len s" "s_key_q (media_delivered m p s) = s_key_q s"
  "s_key_q_head (media_delivered m p s) = s_key_q_head s"
  "s_ctl_payload (media_delivered m p s) = s_ctl_payload s"
  by (simp_all add: media_delivered_def Let_def)

lemma media_flush_moves:
  assumes "srv_inv E s" and "media_flush_one E s = (True, s')"
  shows "\<exists>m. moves sent s [(F_media, m)] s'"
proof -
  have mi: "media_inv E s" using srv_invD(4) [OF assms(1)] by (simp add: media_inv_def)
  let ?m = "s_media_q s ! s_media_head s"
  let ?h = "media_header (s_session_id s) ?m" and ?p = "audio_read E s 0 (mm_len ?m)"
  obtain s1 where o: "out_try_frame E ?h ?p s = (True, s1)" and c: "0 < s_media_count s"
    and s': "s' = (let s2 = media_delivered ?m ?p s1 in
      s2\<lparr>s_audio_head := (s_audio_head s2 + mm_len ?m) mod AUDIO_POOL_SIZE E,
         s_audio_len := s_audio_len s2 - mm_len ?m, s_media_head := (s_media_head s2 + 1) mod MEDIA_DEPTH E,
         s_media_count := s_media_count s2 - 1\<rparr>)"
    using assms(2) by (auto simp: media_flush_one_def media_header_def Let_def split: prod.splits if_splits)
  note f = media_head_frame [OF mi c]
  have len: "length ?p \<le> RBP_MAX_PAYLOAD"
    using f(2,3) audio_read_items [of E s "s_audio_len s" 0 "mm_len ?m"] mi
    by (simp add: media_inv_def mediaq_ok_def media_ok_def)
  obtain ring n where s1: "s1 = s\<lparr>s_out_ring := ring, s_out_len := n, s_txseq := s_txseq s + 1\<rparr>"
    and p: "pending s1 = pending s @ frame_wire (?h, s_txseq s, ?p)"
    by (rule frame_sent [OF srv_invD(1) [OF assms(1)] o len])
  have "media_msgs s = (?h, ?p) # media_msgs s'"
    using f(1) by (simp add: s' s1 media_msgs_def media_frames_def Let_def)
  moreover have "key_msgs s' = key_msgs s" "ctl_mset s' = ctl_mset s"
    by (simp_all add: s' s1 key_msgs_def ctl_mset_def Let_def)
  moreover have "pending s' = pending s1" "s_txseq s' = s_txseq s1" "s_world s' = s_world s1"
      "s_session_id s' = s_session_id s1"
    by (simp_all add: s' pending_def Let_def)
  ultimately have "moves sent s [(F_media, ?h, ?p)] s'"
    using p len by (simp add: moves_def from_queue_def wire_of_def s1)
  then show ?thesis by blast
qed

lemma mset_slots:
  assumes "distinct ids" and "set ids = {i. i < length slots \<and> P (slots ! i)}"
  shows "mset (filter P slots) = mset (map ((!) slots) ids)"
proof -
  let ?js = "filter (\<lambda>i. P (slots ! i)) [0..<length slots]"
  have "filter P slots = map ((!) slots) ?js"
    using filter_map [of P "(!) slots" "[0..<length slots]"] by (simp add: map_nth comp_def)
  moreover have "mset ids = mset ?js"
    using assms set_eq_iff_mset_eq_distinct [of ids ?js] by auto
  ultimately show ?thesis by simp
qed

lemma ctl_mset_rep:
  assumes "ctl_rep (s_ctl s) bytes ids"
  shows "ctl_mset s = mset (map (\<lambda>(sl, p). (ctl_header sl, p)) (ctl_msgs (s_ctl s) (s_ctl_payload s) ids))"
proof -
  have "mset (filter cs_used (s_ctl s)) = mset (map ((!) (s_ctl s)) ids)"
    using assms by (intro mset_slots) (auto simp: ctl_rep_def)
  moreover have "map (\<lambda>(sl, p). (ctl_header sl, p)) (ctl_msgs (s_ctl s) (s_ctl_payload s) ids)
      = map (ctl_msg (s_ctl_payload s)) (map ((!) (s_ctl s)) ids)"
    by (simp add: ctl_msgs_def slot_msg_def ctl_msg_def ctl_header_def)
  ultimately show ?thesis
    by (simp add: ctl_mset_def multiset.map_comp)
qed

lemma ctl_pop_moves:
  assumes "srv_inv E s" and "ctl_pop E s = (True, s')"
  shows "\<exists>m. moves sent s [(F_ctl, m)] s'"
proof -
  note ok = srv_invD(2) [OF assms(1)]
  obtain i s1 where i: "i < length (s_ctl s)" "cs_used (s_ctl s ! i)"
    and o: "out_try_frame E (ctl_header (s_ctl s ! i)) (snd (ctl_msg (s_ctl_payload s) (s_ctl s ! i))) s = (True, s1)"
    and s': "s' = ctl_remove i s1"
    using assms(2) by (auto simp: ctl_pop_def ctl_msg_def find_Some_iff Let_def split: option.splits prod.splits if_splits)
  let ?m = "ctl_msg (s_ctl_payload s) (s_ctl s ! i)"
  obtain xs ys where rep: "ctl_rep (s_ctl s) (s_ctl_used s) (xs @ i # ys)"
    using ok i by (metis (mono_tags, lifting) ctl_ok_def ctl_rep_def mem_Collect_eq split_list)
  have len: "length (snd ?m) \<le> RBP_MAX_PAYLOAD"
    using rep by (simp add: ctl_msg_def ctl_rep_def min.coboundedI2)
  obtain ring n where s1: "s1 = s\<lparr>s_out_ring := ring, s_out_len := n, s_txseq := s_txseq s + 1\<rparr>"
    and p: "pending s1 = pending s @ frame_wire (ctl_header (s_ctl s ! i), s_txseq s, snd ?m)"
    by (rule frame_sent [OF srv_invD(1) [OF assms(1)] o len])
  have f: "s_ctl s1 = s_ctl s" "s_ctl_payload s1 = s_ctl_payload s" "s_ctl_used s1 = s_ctl_used s"
    by (simp_all add: s1)
  have left: "ctl_msgs (s_ctl s') (s_ctl_payload s') (xs @ ys) = ctl_msgs (s_ctl s) (s_ctl_payload s) (xs @ ys)"
    using ctl_msgs_remove [OF rep] ok by (simp add: s' ctl_remove_def Let_def f ctl_ok_def)
  have "ctl_rep (s_ctl s') (s_ctl_used s') (xs @ ys)"
    using ctl_rep_remove [OF rep] by (simp add: s' ctl_remove_def Let_def f)
  note ctl_mset_rep [OF this, unfolded left] ctl_mset_rep [OF rep]
  moreover have "(\<lambda>(sl, p). (ctl_header sl, p)) (slot_msg (s_ctl s) (s_ctl_payload s) i) = ?m"
    by (simp add: slot_msg_def ctl_msg_def ctl_header_def)
  ultimately have "ctl_mset s = add_mset ?m (ctl_mset s')"
    by (simp add: ctl_msgs_def)
  moreover have "key_msgs s' = key_msgs s" "media_msgs s' = media_msgs s" "pending s' = pending s1"
    by (simp_all add: s' s1 ctl_remove_def Let_def key_msgs_def media_msgs_def media_frames_def pending_def)
  moreover have "s_txseq s' = s_txseq s1" "s_world s' = s_world s1" "s_session_id s' = s_session_id s1"
    by (simp_all add: s' ctl_remove_def Let_def)
  ultimately have "moves sent s [(F_ctl, ?m)] s'"
    using p len by (simp add: moves_def from_queue_def wire_of_def s1 ctl_msg_def)
  then show ?thesis by blast
qed

section \<open>The flush loop\<close>

text \<open>A source that does not send leaves the state alone, and only for want of room in the ring.\<close>

lemma keys_flush_stays:
  assumes "srv_inv E s" and "keys_flush_one E s = (False, s')" and "s_key_q_count s \<noteq> 0" and "seq_left (s_txseq s) n"
  shows "s' = s \<and> OUT_RING_SIZE E - s_out_len s < RBP_MAX_ENCODED"
proof -
  have "s_key_q s ! s_key_q_head s \<in> set (s_key_q s)"
    using srv_invD(3) [OF assms(1)] by (simp add: keyq_ok_def ring_ok_def)
  then have "length (ki_buf (s_key_q s ! s_key_q_head s)) \<le> RBP_MAX_PAYLOAD"
    using srv_invD(3) [OF assms(1)] by (simp add: keyq_ok_def)
  then show ?thesis
    using assms(2,3) frame_not_sent seq_leftD [OF assms(4)]
    by (auto simp: keys_flush_one_def Let_def split: prod.splits if_splits)
qed

lemma media_flush_stays:
  assumes "srv_inv E s" and "media_flush_one E s = (False, s')" and "s_media_count s \<noteq> 0" and "seq_left (s_txseq s) n"
  shows "s' = s \<and> OUT_RING_SIZE E - s_out_len s < RBP_MAX_ENCODED"
proof -
  let ?m = "s_media_q s ! s_media_head s"
  have mi: "media_inv E s" using srv_invD(4) [OF assms(1)] by (simp add: media_inv_def)
  have c: "0 < s_media_count s" using assms(3) by simp
  note f = media_head_frame(2,3) [OF mi c]
  have len: "length (audio_read E s 0 (mm_len ?m)) \<le> RBP_MAX_PAYLOAD" and mm: "mm_len ?m \<le> RBP_MAX_PAYLOAD"
    using f audio_read_items [of E s "s_audio_len s" 0 "mm_len ?m"] mi
    by (simp_all add: media_inv_def mediaq_ok_def media_ok_def)
  have "s_session_active s" using srv_invD(8) [OF assms(1)] assms(3) by (auto simp: sess_ok_def)
  then show ?thesis
    using assms(2,3) mm frame_not_sent [OF _ len] seq_leftD [OF assms(4)]
    by (auto simp: media_flush_one_def Let_def split: prod.splits if_splits)
qed

lemma ctl_pop_stays:
  assumes "srv_inv E s" and "ctl_pop E s = (False, s')" and "ctl_peek_order s \<noteq> None" and "seq_left (s_txseq s) n"
  shows "s' = s \<and> OUT_RING_SIZE E - s_out_len s < RBP_MAX_ENCODED"
proof -
  obtain b where b: "ctl_best (s_ctl s) = Some b" using assms(3) by (auto simp: ctl_peek_order_def)
  have "\<exists>i < length (s_ctl s). cs_used (s_ctl s ! i) \<and> cs_order (s_ctl s ! i) = cs_order b"
    using ctl_best_Some(1,2) [OF b] by (metis in_set_conv_nth)
  then obtain i where f: "find (\<lambda>i. cs_used (s_ctl s ! i) \<and> cs_order (s_ctl s ! i) = cs_order b)
      [0..<length (s_ctl s)] = Some i"
    by (cases "find (\<lambda>i. cs_used (s_ctl s ! i) \<and> cs_order (s_ctl s ! i) = cs_order b) [0..<length (s_ctl s)]")
       (auto simp: find_None_iff)
  then have i: "i < length (s_ctl s)" "cs_used (s_ctl s ! i)" by (auto simp: find_Some_iff)
  then have "cs_len (s_ctl s ! i) \<le> RBP_MAX_PAYLOAD"
    using srv_invD(2) [OF assms(1)] unfolding ctl_ok_def ctl_rep_def by blast
  then have len: "length (take (cs_len (s_ctl s ! i)) (drop (cs_offset (s_ctl s ! i)) (s_ctl_payload s))) \<le> RBP_MAX_PAYLOAD"
    by (simp add: min.coboundedI2)
  show ?thesis
    using assms(2) frame_not_sent [OF _ len] seq_leftD [OF assms(4)]
    by (auto simp: ctl_pop_def ctl_peek_order_def b f Let_def split: prod.splits if_splits)
qed

lemma flush_pick_source:
  "flush_pick n s = Some F_ctl \<Longrightarrow> ctl_peek_order s \<noteq> None"
  "flush_pick n s = Some F_key \<Longrightarrow> s_key_q_count s \<noteq> 0"
  "flush_pick n s = Some F_media \<Longrightarrow> s_media_count s \<noteq> 0"
  by (auto simp: flush_pick_def Let_def split: if_splits prod.splits)

lemma flush_pick_None: "flush_pick n s = None \<longleftrightarrow> queued s = 0"
proof -
  have "ctl_peek_order s = None \<longleftrightarrow> filter cs_used (s_ctl s) = []"
    by (simp add: ctl_peek_order_def ctl_best_None filter_empty_conv)
  then show ?thesis
    by (auto simp: flush_pick_def queued_def Let_def split: if_splits prod.splits)
qed

text \<open>
  A round of the loop: the source it picks either sends one message, or stays put because the ring
  has no room for the largest frame.
\<close>

definition flush_round :: "'w server_env \<Rightarrow> flush_source \<Rightarrow> 'w rbp_server \<Rightarrow> bool \<times> 'w rbp_server" where
  "flush_round E q s = (case q of F_ctl \<Rightarrow> ctl_pop E s | F_key \<Rightarrow> keys_flush_one E s | F_media \<Rightarrow> media_flush_one E s)"

lemma flush_loop_rounds:
  "flush_loop E n s = (case flush_pick n s of None \<Rightarrow> s
     | Some q \<Rightarrow> (case flush_round E q s of (ok, s') \<Rightarrow>
         if ok then flush_loop E (if q = F_ctl then n + 1 else n) s' else s'))"
  by (subst flush_loop.simps) (simp add: flush_round_def split: option.split flush_source.split)

lemma flush_round_moves:
  assumes "srv_inv E s" and "flush_round E q s = (True, s')"
  shows "\<exists>m. moves sent s [(q, m)] s'" and "queued s' < queued s"
  using assms ctl_pop_moves [OF assms(1), of s'] keys_flush_moves [OF assms(1), of s'] media_flush_moves [OF assms(1), of s']
    ctl_pop_queued [of E s s'] keys_flush_queued [of E s s'] media_flush_queued [of E s s']
  by (cases q; simp add: flush_round_def)+

lemma flush_round_stays:
  "srv_inv E s \<Longrightarrow> flush_round E q s = (False, s') \<Longrightarrow> flush_pick n s = Some q \<Longrightarrow> seq_left (s_txseq s) k \<Longrightarrow>
     s' = s \<and> OUT_RING_SIZE E - s_out_len s < RBP_MAX_ENCODED"
  by (auto simp: flush_round_def split: flush_source.splits
      dest: ctl_pop_stays keys_flush_stays media_flush_stays flush_pick_source)

context server_wiring
begin

lemma flush_round_at: "srv_at E a c s \<Longrightarrow> srv_at E a c (snd (flush_round E q s))"
  by (simp add: flush_round_def at_intros split: flush_source.split)

lemma flush_loop_moves:
  assumes "srv_inv E s" and "seq_left (s_txseq s) (queued s)"
  shows "\<exists>xs. moves sent s xs (flush_loop E n s)
    \<and> (queued (flush_loop E n s) = 0 \<or> OUT_RING_SIZE E - s_out_len (flush_loop E n s) < RBP_MAX_ENCODED)"
  using assms
proof (induction "queued s" arbitrary: s n rule: less_induct)
  case less
  show ?case
  proof (cases "flush_pick n s")
    case None
    then show ?thesis
      using moves_refl flush_pick_None [of n s] by (subst (1 2 3) flush_loop_rounds) auto
  next
    case (Some q)
    obtain ok s' where r: "flush_round E q s = (ok, s')" by fastforce
    show ?thesis
    proof (cases ok)
      case False
      then show ?thesis
        using flush_round_stays [OF less.prems(1) _ Some less.prems(2)] r Some moves_refl [of _ s]
        by (subst (1 2 3) flush_loop_rounds) auto
    next
      case True
      then obtain m where m: "moves sent s [(q, m)] s'" and q: "queued s' < queued s"
        using flush_round_moves [OF less.prems(1), of q s'] r by metis
      have inv: "srv_inv E s'"
        using flush_round_at [of _ _ s q] less.prems(1) r by (metis at_self snd_conv srv_at_inv)
      have "seq_left (s_txseq s + 1) (queued s - 1)"
        using less.prems(2) q by (intro seq_left_next) simp
      then have "seq_left (s_txseq s') (queued s')"
        using m q by (auto simp: moves_def seq_left_def)
      from less.hyps [OF q inv this, of "if q = F_ctl then n + 1 else n"]
      obtain xs where xs: "moves sent s' xs (flush_loop E (if q = F_ctl then n + 1 else n) s')"
        "queued (flush_loop E (if q = F_ctl then n + 1 else n) s') = 0 \<or>
         OUT_RING_SIZE E - s_out_len (flush_loop E (if q = F_ctl then n + 1 else n) s') < RBP_MAX_ENCODED"
        by blast
      have "flush_loop E n s = flush_loop E (if q = F_ctl then n + 1 else n) s'"
        using Some r True by (subst flush_loop_rounds) simp
      then show ?thesis
        using moves_trans [OF m xs(1)] xs(2) by auto
    qed
  qed
qed

end

section \<open>Draining and flushing\<close>

text \<open>What holds before a drain and across one hand-over to the transport holds after it.\<close>

abbreviation (input) offer :: "'w server_env \<Rightarrow> 'w rbp_server \<Rightarrow> u8 list" where
  "offer E s \<equiv> take (out_chunk E s) (drop (s_out_head s) (s_out_ring s))"

abbreviation (input) handed :: "'w server_env \<Rightarrow> 'w rbp_server \<Rightarrow> 'w rbp_server" where
  "handed E s \<equiv> s\<lparr>s_world := snd (e_out E (offer E s) (s_world s)),
     s_out_head := (s_out_head s + fst (e_out E (offer E s) (s_world s))) mod OUT_RING_SIZE E,
     s_out_len := s_out_len s - fst (e_out E (offer E s) (s_world s))\<rparr>"

lemma out_drain_rule:
  assumes "P s"
    and "\<And>t. P t \<Longrightarrow> 0 < s_out_len t \<Longrightarrow> fst (e_out E (offer E t) (s_world t)) = 0 \<Longrightarrow>
           P (t\<lparr>s_world := snd (e_out E (offer E t) (s_world t))\<rparr>)"
    and "\<And>t. P t \<Longrightarrow> 0 < s_out_len t \<Longrightarrow> P (handed E t)"
  shows "P (out_drain E s)"
  using assms
proof (induction E s rule: out_drain.induct)
  case (1 E s)
  have "P (out_drain E (handed E s))"
    if "0 < s_out_len s" "fst (e_out E (offer E s) (s_world s)) \<noteq> 0"
      "\<not> fst (e_out E (offer E s) (s_world s)) < out_chunk E s"
    using "1.IH" [OF that(1) refl refl refl that(2) refl that(3)] "1.prems" that(1) by simp
  then show ?case
    using "1.prems" by (subst out_drain.simps) (simp add: Let_def)
qed

lemma out_drain_keeps [simp]:
  "key_msgs (out_drain E s) = key_msgs s" "media_msgs (out_drain E s) = media_msgs s"
  "ctl_mset (out_drain E s) = ctl_mset s" "s_txseq (out_drain E s) = s_txseq s"
  "s_session_id (out_drain E s) = s_session_id s" "queued (out_drain E s) = queued s"
  by (rule out_drain_rule; simp add: key_msgs_def media_msgs_def media_frames_def ctl_mset_def queued_def)+

text \<open>A transport with a record of the bytes it took.\<close>

locale logged_wiring = server_wiring E for E :: "'w server_env" +
  fixes sent :: "'w \<Rightarrow> u8 list"
  assumes out_log: "sent (snd (e_out E d w)) = sent w @ take (fst (e_out E d w)) d"
begin

lemma handed_wire:
  assumes "ring_ok (OUT_RING_SIZE E) (s_out_ring s) (s_out_head s) (s_out_len s)"
  shows "sent (s_world (handed E s)) @ pending (handed E s) = sent (s_world s) @ pending s"
    and "ring_ok (OUT_RING_SIZE E) (s_out_ring s) (s_out_head (handed E s)) (s_out_len (handed E s))"
proof -
  let ?n = "fst (e_out E (offer E s) (s_world s))"
  have c: "out_chunk E s \<le> s_out_len s" "out_chunk E s \<le> OUT_RING_SIZE E - s_out_head s"
    by (auto simp: out_chunk_def Let_def)
  then have o: "offer E s = take (out_chunk E s) (pending s)"
    using ring_chunk [OF assms] by (simp add: pending_def)
  have n: "?n \<le> out_chunk E s"
    using out_le [of "offer E s" "s_world s"] by simp
  then have "take ?n (offer E s) @ drop ?n (pending s) = pending s"
    by (simp add: o min_absorb1)
  then show "sent (s_world (handed E s)) @ pending (handed E s) = sent (s_world s) @ pending s"
    using ring_items_drop_ok [OF assms, of ?n] n c by (simp add: out_log pending_def)
  show "ring_ok (OUT_RING_SIZE E) (s_out_ring s) (s_out_head (handed E s)) (s_out_len (handed E s))"
    using ring_drop_ok [OF assms, of ?n] n c by simp
qed

lemma out_drain_wire:
  assumes "ring_ok (OUT_RING_SIZE E) (s_out_ring s) (s_out_head s) (s_out_len s)"
  shows "sent (s_world (out_drain E s)) @ pending (out_drain E s) = sent (s_world s) @ pending s"
proof -
  let ?P = "\<lambda>t. ring_ok (OUT_RING_SIZE E) (s_out_ring t) (s_out_head t) (s_out_len t)
    \<and> sent (s_world t) @ pending t = sent (s_world s) @ pending s"
  have "?P (out_drain E s)"
  proof (rule out_drain_rule)
    fix t assume t: "?P t"
    then show "?P (handed E t)" using handed_wire [of t] by simp
    assume "fst (e_out E (offer E t) (s_world t)) = 0"
    then show "?P (t\<lparr>s_world := snd (e_out E (offer E t) (s_world t))\<rparr>)"
      using t by (simp add: out_log pending_def)
  qed (simp add: assms)
  then show ?thesis by blast
qed

lemma out_drain_moves: "srv_inv E s \<Longrightarrow> moves sent s [] (out_drain E s)"
  using out_drain_wire [OF srv_invD(1)] by (simp add: moves_def wire_of_def from_queue_def)

lemma flush_output_moves:
  assumes "srv_inv E s" and "seq_left (s_txseq s) (queued s)"
  shows "\<exists>xs. moves sent s xs (rbp_server_flush_output E s)"
proof -
  have at: "srv_at E (s_session_active s) (s_session_counter s) s" using assms(1) at_self by blast
  have i: "srv_inv E (out_drain E s)" "srv_inv E (flush_loop E 0 (out_drain E s))"
    using at by (auto intro: srv_at_inv at_intros)
  then obtain xs where "moves sent (out_drain E s) xs (flush_loop E 0 (out_drain E s))"
    using flush_loop_moves [of "out_drain E s" sent 0] assms(2) by auto
  from moves_trans [OF moves_trans [OF out_drain_moves [OF assms(1)] this] out_drain_moves [OF i(2)]]
  show ?thesis
    unfolding rbp_server_flush_output_def by blast
qed

end

section \<open>Progress\<close>

lemma queued_msgs: "queued s = length (key_msgs s) + length (media_msgs s) + size (ctl_mset s)"
  by (simp add: queued_def key_msgs_def media_msgs_def media_frames_def ctl_mset_def flip: mset_filter)

lemma length_queues: "length xs = length (from_queue F_key xs) + length (from_queue F_media xs) + length (from_queue F_ctl xs)"
proof (induction xs)
  case (Cons x xs)
  then show ?case by (cases "fst x") (simp_all add: from_queue_def)
qed (simp add: from_queue_def)

lemma moves_queued:
  assumes "moves sent s xs s'"
  shows "queued s = length xs + queued s'"
  using assms length_queues [of xs] by (simp add: moves_def queued_msgs)

lemma seq_left_moves:
  assumes "moves sent s xs s'" and "seq_left (s_txseq s) (queued s)"
  shows "seq_left (s_txseq s') (queued s')"
proof -
  have l: "unat (s_txseq s) + length xs + queued s' < 2 ^ 32 - 1" "0 < unat (s_txseq s)"
    using assms(2) moves_queued [OF assms(1)] by (auto simp: seq_left_def unat_gt_0)
  then have "unat (s_txseq s') = unat (s_txseq s) + length xs"
    using assms(1) by (simp add: moves_def unat_word_ariths(1) unat_of_nat take_bit_nat_eq_self)
  then show ?thesis
    using l by (auto simp: seq_left_def)
qed

locale open_wiring = logged_wiring E sent for E :: "'w server_env" and sent +
  assumes accepts: "length d \<le> 64 \<Longrightarrow> fst (e_out E d w) = length d"
    and ring_fits: "RBP_MAX_ENCODED \<le> OUT_RING_SIZE E"
begin

lemma out_drain_all:
  "ring_ok (OUT_RING_SIZE E) (s_out_ring s) (s_out_head s) (s_out_len s) \<Longrightarrow> s_out_len (out_drain E s) = 0"
proof (induction "s_out_len s" arbitrary: s rule: less_induct)
  case less
  show ?case
  proof (cases "s_out_len s = 0")
    case True
    then show ?thesis by (subst out_drain.simps) simp
  next
    case False
    have c: "0 < out_chunk E s" "out_chunk E s \<le> s_out_len s" "out_chunk E s \<le> 64"
        "length (offer E s) = out_chunk E s"
      using False less.prems by (auto simp: out_chunk_def ring_ok_def Let_def)
    have "out_drain E s = out_drain E (handed E s)"
      using False c accepts by (subst out_drain.simps) (simp add: Let_def)
    then show ?thesis
      using less.hyps [of "handed E s"] handed_wire(2) [OF less.prems] c False accepts by simp
  qed
qed

lemma flush_progress:
  assumes "srv_inv E s" and "seq_left (s_txseq s) (queued s)"
  shows "queued (rbp_server_flush_output E s) = 0 \<or> queued (rbp_server_flush_output E s) < queued s"
    and "s_out_len (rbp_server_flush_output E s) = 0"
proof -
  let ?t = "out_drain E s"
  have at: "srv_at E (s_session_active s) (s_session_counter s) s" using assms(1) at_self by blast
  have i: "srv_inv E ?t" "srv_inv E (flush_loop E 0 ?t)"
    using at by (auto intro: srv_at_inv at_intros)
  show "s_out_len (rbp_server_flush_output E s) = 0"
    using out_drain_all [OF srv_invD(1) [OF i(2)]] by (simp add: rbp_server_flush_output_def)
  obtain xs where m: "moves (\<lambda>_. []) ?t xs (flush_loop E 0 ?t)"
    and r: "queued (flush_loop E 0 ?t) = 0 \<or> OUT_RING_SIZE E - s_out_len (flush_loop E 0 ?t) < RBP_MAX_ENCODED"
    using flush_loop_moves [OF i(1), of "\<lambda>_. []" 0] assms(2) by auto
  have "pending ?t = []"
    using out_drain_all [OF srv_invD(1) [OF assms(1)]] by (simp add: pending_def)
  then have "pending (flush_loop E 0 ?t) = []" if "xs = []"
    using m that by (simp add: moves_def wire_of_def)
  then have "s_out_len (flush_loop E 0 ?t) = 0" if "xs = []"
    using that by (metis length_0_conv length_ring_items pending_def)
  then have "xs \<noteq> [] \<or> queued (flush_loop E 0 ?t) = 0"
    using r ring_fits by fastforce
  then show "queued (rbp_server_flush_output E s) = 0 \<or> queued (rbp_server_flush_output E s) < queued s"
    using moves_queued [OF m] by (auto simp: rbp_server_flush_output_def)
qed

lemma flush_output_inv: "srv_inv E s \<Longrightarrow> srv_inv E (rbp_server_flush_output E s)"
  using at_self flush_output_at srv_at_inv by blast

lemma flush_all:
  assumes "srv_inv E s" and "seq_left (s_txseq s) (queued s)" and "queued s \<le> k"
  shows "\<exists>xs s'. s' = (rbp_server_flush_output E ^^ Suc k) s \<and> moves sent s xs s' \<and> queued s' = 0 \<and> s_out_len s' = 0"
  using assms
proof (induction k arbitrary: s)
  case 0
  then show ?case
    using flush_output_moves [OF 0(1,2)] flush_progress [OF 0(1,2)] by auto
next
  case (Suc k)
  let ?t = "rbp_server_flush_output E s"
  obtain xs where m: "moves sent s xs ?t" using flush_output_moves [OF Suc.prems(1,2)] by blast
  have "queued ?t \<le> k" using flush_progress(1) [OF Suc.prems(1,2)] Suc.prems(3) by linarith
  then obtain ys s' where "s' = (rbp_server_flush_output E ^^ Suc k) ?t" "moves sent ?t ys s'" "queued s' = 0" "s_out_len s' = 0"
    using Suc.IH [of ?t] flush_output_inv Suc.prems(1) seq_left_moves [OF m Suc.prems(2)] by blast
  then show ?case
    using moves_trans [OF m] by (metis comp_apply funpow_Suc_right)
qed

end

end
