(* ===== verification/Server_World.thy ===== *)
theory Server_World
  imports Server_Out
begin

text \<open>
  A world for the server: the buffer sizes of the CH582F build, a store in memory, and a transport that
  takes up to one USB packet of 64 bytes per call and records what it took. It interprets the
  contracts of the wiring, also with a backend that answers \<open>connect_peer\<close> by reporting the link before
  it returns, and gives the concrete servers on which the properties are tried.
\<close>

record bridge_world =
  bw_sent :: "u8 list"
  bw_peer :: "rbp_peer_record option"
  bw_calls :: "string list"

definition note_call :: "string \<Rightarrow> bridge_world rbp_server \<Rightarrow> bridge_world rbp_server" where
  "note_call name s = s\<lparr>s_world := (s_world s)\<lparr>bw_calls := bw_calls (s_world s) @ [name]\<rparr>\<rparr>"

definition bridge_load :: "bridge_world \<Rightarrow> rbp_peer_record option \<times> bridge_world" where
  "bridge_load w = (case bw_peer w of
     None \<Rightarrow> (None, w)
   | Some r \<Rightarrow> (if length (pr_name r) = 48 then Some r else None, w))"

definition bridge_env :: "bridge_world server_env" where
  "bridge_env = \<lparr>OUT_RING_SIZE = 768, AUDIO_POOL_SIZE = 960, CTL_SLOTS = 6, MEDIA_DEPTH = 8,
     CTL_BYTES = 1536,
     e_start_find = (\<lambda>d s. (RBP_STATUS_OK, note_call ''start_find'' s)),
     e_stop_find = note_call ''stop_find'',
     e_pair_begin = (\<lambda>cid. note_call ''pair_begin''),
     e_pair_reply = (\<lambda>acc has pk. note_call ''pair_reply''),
     e_pair_cancel = note_call ''pair_cancel'',
     e_forget_peer = note_call ''forget_peer'',
     e_connect_peer = note_call ''connect_peer'',
     e_disconnect = note_call ''disconnect'',
     e_voice_request_stop = note_call ''voice_request_stop'',
     e_voice_request_start = Some (Pair RBP_STATUS_OK),
     e_load = Some bridge_load,
     e_save = Some (\<lambda>r w. (True, w\<lparr>bw_peer := Some r\<rparr>)),
     e_clear = Some (\<lambda>w. (True, w\<lparr>bw_peer := None\<rparr>)),
     e_out = (\<lambda>d w. (min 64 (length d), w\<lparr>bw_sent := bw_sent w @ take 64 d\<rparr>)),
     e_rng = Some (Pair 7)\<rparr>"

lemma note_call_ok [simp]: "backend_call E (note_call name)"
  by (simp add: backend_call_def note_call_def)

interpretation bridge: open_wiring bridge_env bw_sent
  by unfold_locales
     (auto simp: bridge_env_def bridge_load_def min_def split: option.splits if_splits)

text \<open>The backend of the second wiring reports a connecting link from within \<open>connect_peer\<close>.\<close>

definition eager_scripts :: "bridge_world scripts" where
  "eager_scripts = \<lparr>sc_start_find = (\<lambda>d s. (RBP_STATUS_OK, [C_scan_done 0 (s_now_ms s)])),
     sc_backend = (\<lambda>name s. if name = ''connect_peer'' then [C_link RBP_LINK_CONNECTING 0 (s_now_ms s)]
       else if name = ''pair_cancel'' then [C_pair_done RBP_STATUS_CANCELLED False None 0] else [])\<rparr>"

lemma eager_radio:
  "radio_script (snd \<circ> sc_start_find eager_scripts d)" "radio_script (sc_backend eager_scripts name)"
  by (simp_all add: eager_scripts_def radio_script_def)

interpretation eager: server_wiring "nested bridge_env eager_scripts 3"
  by (rule nested_wiring) (simp_all only: eager_radio bridge.server_wiring_axioms)

definition demo_cfg :: rbp_server_cfg where
  "demo_cfg = \<lparr>cf_profile = Some RBP_PROFILE_RC003, cf_max_keys = 0, cf_max_capture_ms = 0,
     cf_bridge_uid = [1, 2, 3, 4, 5, 6, 7, 8], cf_firmware_version = None, cf_reset_reason = 0\<rparr>"

definition demo_world :: bridge_world where
  "demo_world = \<lparr>bw_sent = [], bw_peer = None, bw_calls = []\<rparr>"

definition demo_init :: "bridge_world rbp_server" where
  "demo_init = rbp_server_init bridge_env demo_cfg fault_boot demo_world"

text \<open>A server in its first session with key events enabled.\<close>

definition demo_session :: "bridge_world rbp_server" where
  "demo_session = demo_init\<lparr>s_session_active := True, s_session_id := 1, s_session_counter := 1,
     s_txseq := rbp_txseq_init, s_events_enabled := True\<rparr>"

lemma demo_init_inv: "srv_inv bridge_env demo_init"
  unfolding demo_init_def by (rule bridge.init_inv)

lemma init_idle: "\<not> s_session_active (rbp_server_init E cfg faults world)"
  by (auto simp: rbp_server_init_def server_zero_def Let_def split: option.split prod.split)

lemma demo_session_inv: "srv_inv bridge_env demo_session"
  using demo_init_inv init_idle [of bridge_env demo_cfg fault_boot demo_world]
  by (auto simp: demo_session_def srv_inv_def sess_ok_def demo_init_def [symmetric])

lemma demo_session_fields [simp]:
  "s_key_q demo_session = replicate RBP_KEY_QUEUE_DEPTH key_item_zero"
  "s_key_q_head demo_session = 0" "s_key_q_count demo_session = 0"
  "s_media_count demo_session = 0" "s_media_head demo_session = 0" "s_audio_len demo_session = 0"
  "s_ctl demo_session = replicate 6 ctl_slot_zero" "s_ctl_used demo_session = 0"
  "s_out_len demo_session = 0" "s_txseq demo_session = 1" "s_session_id demo_session = 1"
  "s_session_active demo_session" "s_events_enabled demo_session" "s_connection_id demo_session = 0"
  "s_input_seq demo_session = 0" "s_order_counter demo_session = 0" "s_world demo_session = demo_world"
  "s_last_req_ms demo_session = 0" "s_pressed_bits demo_session = 0"
  by (simp_all add: demo_session_def demo_init_def rbp_server_init_def server_zero_def bridge_env_def
      bridge_load_def demo_world_def rbp_txseq_init_def Let_def)

end
