(* ===== verification/Server_Facts.thy ===== *)
theory Server_Facts
  imports Server_World
begin

text \<open>
  The properties of the server, each with a concrete instance.
\<close>

section \<open>The invariant\<close>

text \<open>C2: whatever sequence of its functions is called, with whatever bytes arriving over USB and
  whatever the radio layer reports, the server stays within its invariant: every index and length is
  inside its array, the byte accounts of the queues add up, a server without a session has no id, no
  media and no voice, and a pairing prompt belongs to a running pairing. The wiring is any
  transport, store and backend that keeps its contract.\<close>

theorem server_invariant:
  assumes "server_wiring E" and "server_reachable E cfg s"
  shows "srv_inv E s"
  using assms by (rule server_wiring.reachable_inv)

theorem server_invariant_witness:
  "srv_inv bridge_env (server_step bridge_env (C_usb_gone 9)
     (server_step bridge_env (C_usb_rx [1, 2, 0, 7] 5) demo_init))"
proof (rule server_invariant [OF bridge.server_wiring_axioms])
  show "server_reachable bridge_env demo_cfg (server_step bridge_env (C_usb_gone 9)
     (server_step bridge_env (C_usb_rx [1, 2, 0, 7] 5) demo_init))"
    unfolding demo_init_def by (intro server_reachable.intros) simp_all
qed

text \<open>C3: a backend may report back into the server from within its own calls, and these reports may
  call the backend again: to whatever depth the calls nest, the reachable states of the server keep the
  invariant.\<close>

theorem server_reentrant:
  assumes "server_wiring E" and "\<And>d. radio_script (snd \<circ> sc_start_find sc d)"
    and "\<And>name. radio_script (sc_backend sc name)" and "server_reachable (nested E sc depth) cfg s"
  shows "srv_inv E s"
proof -
  have "srv_inv (nested E sc depth) s"
    using nested_wiring [OF assms(1-3)] assms(4) by (rule server_wiring.reachable_inv)
  then show ?thesis by (simp add: srv_inv_def)
qed

theorem server_reentrant_witness:
  "srv_inv bridge_env (server_step (nested bridge_env eager_scripts 2) (C_tick 4000)
     (rbp_server_init (nested bridge_env eager_scripts 2) demo_cfg fault_boot demo_world))"
  by (rule server_reentrant [OF bridge.server_wiring_axioms eager_radio, of 2 demo_cfg])
     (intro server_reachable.intros, simp)

section \<open>Output\<close>

text \<open>C5: flushing conserves the queues. As long as sequence numbers are left, the bytes the transport has
  taken together with those waiting in the output ring grow by exactly the frames of some messages,
  numbered one after the other from the session's counter; these messages are the front of the key
  queue, in order, the front of the media queue, in order, and some of the control messages, and what
  is left in the three queues is the rest.\<close>

theorem flush_conserves:
  assumes "logged_wiring E sent" and "srv_inv E s" and "seq_left (s_txseq s) (queued s)"
    and "s' = rbp_server_flush_output E s"
  shows "\<exists>xs. sent (s_world s') @ pending s' = sent (s_world s) @ pending s @ wire_of (s_txseq s) (map snd xs)
     \<and> key_msgs s = from_queue F_key xs @ key_msgs s'
     \<and> media_msgs s = from_queue F_media xs @ media_msgs s'
     \<and> ctl_mset s = mset (from_queue F_ctl xs) + ctl_mset s'
     \<and> s_txseq s' = s_txseq s + word_of_nat (length xs)"
  using logged_wiring.flush_output_moves [OF assms(1-3)] unfolding assms(4) moves_def by blast

text \<open>C4: everything queued gets out. Let the session have sequence numbers left for the queued messages: its
  counter is neither 0, as before the first HELLO, nor within the number of queued messages of its end. (Without a number
  the flush ends the session instead and discards the queues.) If the transport keeps taking packets of up to 64 bytes and
  the output ring can hold the largest frame, then flushing as often as there are messages, and once more,
  leaves every queue and the output ring empty, and the transport has got, after what it had, the
  bytes that were waiting and one numbered frame for each queued message.\<close>

theorem flush_liveness:
  assumes "open_wiring E sent" and "srv_inv E s" and "seq_left (s_txseq s) (queued s)"
    and "s' = (rbp_server_flush_output E ^^ Suc (queued s)) s"
  shows "queued s' = 0 \<and> s_out_len s' = 0
    \<and> (\<exists>xs. sent (s_world s') = sent (s_world s) @ pending s @ wire_of (s_txseq s) (map snd xs)
         \<and> from_queue F_key xs = key_msgs s \<and> from_queue F_media xs = media_msgs s
         \<and> mset (from_queue F_ctl xs) = ctl_mset s)"
proof -
  obtain xs where m: "moves sent s xs s'" and e: "queued s' = 0" "s_out_len s' = 0"
    using open_wiring.flush_all [OF assms(1-3) order_refl] assms(4) by blast
  have "key_msgs s' = []" "media_msgs s' = []" "ctl_mset s' = {#}" "pending s' = []"
    using e queued_msgs [of s'] by (simp_all add: pending_def)
  then show ?thesis
    using m e by (auto simp: moves_def)
qed

text \<open>A server with one key event queued.\<close>

definition demo_keys :: "bridge_world rbp_server" where
  "demo_keys = rbp_server_on_keys \<lparr>kr_connection_id = 0, kr_kind = RBP_KEYS_KIND_PHYSICAL, kr_reason = 0,
     kr_pressed_bits = 4, kr_captured_us = 1000\<rparr> demo_session"

lemma demo_keys_inv: "srv_inv bridge_env demo_keys"
  using bridge.on_keys_at demo_session_inv bridge.at_self bridge.srv_at_inv unfolding demo_keys_def by blast

lemma demo_keys_queue:
  "key_msgs demo_keys = [(key_header 1 (key_item_zero\<lparr>ki_connection := 0\<rparr>),
     keys_struct 1 1000 4 RBP_KEYS_KIND_PHYSICAL 0)]"
  "media_msgs demo_keys = []" "ctl_mset demo_keys = {#}" "queued demo_keys = 1"
  "seq_left (s_txseq demo_keys) 1" "s_txseq demo_keys = 1" "s_world demo_keys = demo_world"
  by (simp_all add: demo_keys_def rbp_server_on_keys_def keys_emit_def key_push_def next_order_def Let_def
      key_msgs_def media_msgs_def media_frames_def ctl_mset_def queued_def ring_items_def key_header_def
      seq_left_def ctl_slot_zero_def)

theorem flush_conserves_witness:
  "\<exists>xs. bw_sent (s_world (rbp_server_flush_output bridge_env demo_keys)) @ pending (rbp_server_flush_output bridge_env demo_keys)
      = pending demo_keys @ wire_of 1 (map snd xs)
    \<and> (\<exists>rest. from_queue F_key xs @ rest = key_msgs demo_keys) \<and> length (key_msgs demo_keys) = 1"
proof -
  have "seq_left (s_txseq demo_keys) (queued demo_keys)" by (simp add: demo_keys_queue seq_left_def)
  from flush_conserves [OF bridge.logged_wiring_axioms demo_keys_inv this refl]
  show ?thesis by (auto simp: demo_keys_queue demo_world_def)
qed

theorem flush_liveness_witness:
  "\<exists>xs. bw_sent (s_world (rbp_server_flush_output bridge_env (rbp_server_flush_output bridge_env demo_keys)))
      = wire_of 1 (map snd xs) \<and> from_queue F_key xs = key_msgs demo_keys \<and> length (key_msgs demo_keys) = 1"
proof -
  have "seq_left (s_txseq demo_keys) (queued demo_keys)" by (simp add: demo_keys_queue seq_left_def)
  moreover have "pending demo_keys = []" by (simp add: demo_keys_def pending_def rbp_server_on_keys_def keys_emit_def key_push_def next_order_def Let_def)
  ultimately show ?thesis
    using flush_liveness [OF bridge.open_wiring_axioms demo_keys_inv _ refl]
    by (auto simp: demo_keys_queue demo_world_def)
qed

section \<open>Sessions\<close>

text \<open>C14: session numbers are never used twice. After any calls, the session that is active is either the
  one that was active before, or has a greater number than any session so far (the counter bounds
  them, since an active session has the counter's value).\<close>

theorem session_numbers_fresh:
  assumes "server_wiring E" and "srv_inv E s" and "list_all call_ok ks"
    and "s' = fold (server_step E) ks s"
  shows "s_session_counter s \<le> s_session_counter s'
    \<and> (s_session_active s' \<longrightarrow> s_session_id s' = s_session_counter s'
         \<and> (s_session_active s \<and> s_session_id s' = s_session_id s \<or> s_session_counter s < s_session_id s'))"
proof -
  have g: "srv_grows E s s'" using server_wiring.run_grows [OF assms(1-3)] by (simp add: assms(4))
  then have "srv_inv E s'" by (simp add: srv_grows_def)
  then have "sess_ok (s_session_active t) (s_session_id t) (s_session_counter t) (s_media_count t) (s_delivering t)
      (s_stream_id t) (s_voice_enabled t) (s_accepted_len t)" if "t = s \<or> t = s'" for t
    using that assms(2) by (auto simp: srv_inv_def)
  from this [of s] this [of s'] g show ?thesis
    by (auto simp: srv_grows_def sess_ok_def)
qed

theorem session_numbers_fresh_witness:
  "s_session_counter demo_session \<le> s_session_counter (fold (server_step bridge_env) [C_usb_rx [7, 0] 3, C_tick 6000] demo_session)"
  using session_numbers_fresh [OF bridge.server_wiring_axioms demo_session_inv _ refl, of "[C_usb_rx [7, 0] 3, C_tick 6000]"]
  by simp

context server_wiring
begin

lemma tick_silent:
  assumes "srv_inv E s" and "HEARTBEAT_TIMEOUT_MS < now - s_last_req_ms s"
  shows "srv_at E False (s_session_counter s) (rbp_server_tick E now s)"
proof -
  let ?s = "s\<lparr>s_now_ms := now\<rparr>"
  obtain p x where f: "rbp_rxparser_feed (s_rx s) [] now rx_ctx_zero = (p, x)" by fastforce
  have at: "srv_at E True (s_session_counter s) (?s\<lparr>s_rx := p\<rparr>)"
    using assms(1) feed_inv [of "s_rx s" "[]" now rx_ctx_zero] f by (simp add: srv_at_def srv_inv_def)
  have "srv_at E True (s_session_counter s) (?s\<lparr>s_rx := p, s_stat_protocol_errors := n\<rparr>)" for n
    using at by simp
  note down = session_teardown_False [OF at] session_teardown_False [OF this]
  have "srv_at E False (s_session_counter s) (tick_heartbeat E now (tick_rx_timeout E now ?s))"
  proof (cases "cx_event x = RBP_RX_TIMEOUT")
    case True
    then show ?thesis
      using down(2) by (simp add: tick_rx_timeout_def f tick_heartbeat_def srv_at_def Let_def)
  next
    case False
    then show ?thesis
      using down(1) at assms(2) by (auto simp: tick_rx_timeout_def f tick_heartbeat_def srv_at_def Let_def)
  qed
  then show ?thesis
    unfolding rbp_server_tick_def tick_deferred_def
    by (simp add: at_intros if_at tick_source_at tick_op_at tick_prompt_at tick_find_at split del: if_split)
qed

end

text \<open>C15: a silent client loses its session. When more than five seconds have passed since the last request,
  the next tick ends the session and with it the voice stream, the media queue and the negotiated
  codecs.\<close>

theorem heartbeat_ends_session:
  assumes "server_wiring E" and "srv_inv E s" and "HEARTBEAT_TIMEOUT_MS < now - s_last_req_ms s"
    and "s' = rbp_server_tick E now s"
  shows "\<not> s_session_active s' \<and> s_session_id s' = 0 \<and> s_media_count s' = 0 \<and> \<not> s_delivering s'
    \<and> \<not> s_voice_enabled s' \<and> s_accepted_len s' = 0"
proof -
  have "srv_at E False (s_session_counter s) s'"
    using server_wiring.tick_silent [OF assms(1-3)] by (simp add: assms(4))
  then show ?thesis
    by (auto simp: srv_at_def srv_inv_def sess_ok_def)
qed

theorem heartbeat_ends_session_witness:
  "s_session_active demo_session \<and> \<not> s_session_active (rbp_server_tick bridge_env 6000 demo_session)"
  using heartbeat_ends_session [OF bridge.server_wiring_axioms demo_session_inv _ refl, of 6000] by simp

end
