(* ===== verification/Server_Queue_Facts.thy ===== *)
theory Server_Queue_Facts
  imports Server_World
begin

text \<open>
  The queues of the server against their specifications: the control queue is a FIFO of messages in a
  shared byte pool, the key queue always ends with the current key state, discarding a stream filters
  the media queue, and a teardown leaves no truncated frame on the wire.
\<close>

section \<open>The control queue\<close>

text \<open>
  The queue as a list of messages: the used slots in the order of their bytes, which is the order of
  their stamps.
\<close>

definition ctl_fifo :: "'w rbp_server \<Rightarrow> msg list \<Rightarrow> bool" where
  "ctl_fifo s q \<longleftrightarrow> (\<exists>ids. ctl_rep (s_ctl s) (s_ctl_used s) ids
     \<and> sorted_wrt (<) (map (\<lambda>i. cs_order (s_ctl s ! i)) ids)
     \<and> (\<forall>i \<in> set ids. cs_order (s_ctl s ! i) \<le> s_order_counter s)
     \<and> q = map (\<lambda>i. ctl_msg (s_ctl_payload s) (s_ctl s ! i)) ids)"

definition fifo_bytes :: "msg list \<Rightarrow> nat" where
  "fifo_bytes q = sum_list (map (length \<circ> snd) q)"

lemma tiles_sum: "tiles xs a b \<Longrightarrow> b = a + sum_list (map snd xs)"
  by (induction xs a b rule: tiles.induct) auto


lemma rep_bytes:
  assumes "ctl_rep slots bytes ids" and "bytes \<le> length payload"
  shows "fifo_bytes (map (\<lambda>i. ctl_msg payload (slots ! i)) ids) = bytes"
proof -
  have "length (snd (ctl_msg payload (slots ! i))) = cs_len (slots ! i)" if "i \<in> set ids" for i
    using ctl_rep_bound [OF assms(1) that] assms(2) by (simp add: ctl_msg_def)
  then have "map (length \<circ> snd) (map (\<lambda>i. ctl_msg payload (slots ! i)) ids) = map (\<lambda>i. cs_len (slots ! i)) ids"
    by simp
  moreover have "bytes = sum_list (map (\<lambda>i. cs_len (slots ! i)) ids)"
    using tiles_sum [of "map (\<lambda>i. slot_span (slots ! i)) ids" 0 bytes] assms(1)
    by (simp add: ctl_rep_def slot_span_def comp_def)
  ultimately show ?thesis
    by (simp only: fifo_bytes_def)
qed

lemma free_slot:
  assumes "ctl_rep slots bytes ids"
  shows "(find (\<lambda>i. \<not> cs_used (slots ! i)) [0..<length slots] = None) = (length ids = length slots)"
    and "length ids \<le> length slots"
proof -
  have d: "distinct ids" and u: "set ids = {i. i < length slots \<and> cs_used (slots ! i)}"
    using assms by (auto simp: ctl_rep_def)
  have sub: "set ids \<subseteq> {0..<length slots}" by (auto simp: u)
  have card: "length ids = card (set ids)" using distinct_card [OF d] by simp
  show "length ids \<le> length slots" using sub card by (metis card_atLeastLessThan card_mono diff_zero finite_atLeastLessThan)
  have "length ids = length slots \<longleftrightarrow> set ids = {0..<length slots}"
    using sub card by (metis card_atLeastLessThan card_subset_eq diff_zero finite_atLeastLessThan)
  moreover have "set ids = {0..<length slots} \<longleftrightarrow> (\<forall>i < length slots. cs_used (slots ! i))"
    unfolding u by (auto simp: set_eq_iff)
  moreover have "find (\<lambda>i. \<not> cs_used (slots ! i)) [0..<length slots] = None
      \<longleftrightarrow> (\<forall>i < length slots. cs_used (slots ! i))"
    by (auto simp: find_None_iff)
  ultimately show "(find (\<lambda>i. \<not> cs_used (slots ! i)) [0..<length slots] = None) = (length ids = length slots)"
    by (simp only:)
qed


lemma ctl_fifo_full:
  assumes "srv_inv E s" and "ctl_fifo s q"
    and "\<not> (length q < CTL_SLOTS E \<and> length p \<le> RBP_MAX_PAYLOAD \<and> fifo_bytes q + length p \<le> CTL_BYTES E)"
  shows "ctl_enqueue E kind opcode status req conn p s =
    session_teardown E (s\<lparr>s_stat_protocol_errors := s_stat_protocol_errors s + 1\<rparr>)"
proof -
  obtain ids where rep: "ctl_rep (s_ctl s) (s_ctl_used s) ids"
    and q: "q = map (\<lambda>i. ctl_msg (s_ctl_payload s) (s_ctl s ! i)) ids"
    using assms(2) by (auto simp: ctl_fifo_def)
  have ok: "length (s_ctl s) = CTL_SLOTS E" "length (s_ctl_payload s) = CTL_BYTES E" "s_ctl_used s \<le> CTL_BYTES E"
    using srv_invD(2) [OF assms(1)] by (simp_all add: ctl_ok_def)
  have bytes: "fifo_bytes q = s_ctl_used s" using rep_bytes [OF rep] ok q by simp
  have "find (\<lambda>i. \<not> cs_used (s_ctl s ! i)) [0..<length (s_ctl s)] = None" if "\<not> length q < CTL_SLOTS E"
    using that free_slot [OF rep] ok(1) q by simp
  then show ?thesis
    using assms(3) ok bytes by (auto simp: ctl_enqueue_def split: option.split)
qed







section \<open>The key queue\<close>

text \<open>
  The payloads of the queued key events, oldest first, and the pressed keys a payload tells of: its bytes 12 to 19.
\<close>

definition key_view :: "'w rbp_server \<Rightarrow> u8 list list" where
  "key_view s = map ki_buf (ring_items (s_key_q s) (s_key_q_head s) (s_key_q_count s))"

definition key_bits :: "u8 list \<Rightarrow> u8 list" where
  "key_bits p = take 8 (drop 12 p)"

lemma key_bits_struct [simp]: "key_bits (keys_struct n t bits kind reason) = le_bytes 8 bits"
  by (simp add: key_bits_def keys_struct_def)

lemma length_key_view [simp]: "length (key_view s) = s_key_q_count s"
  by (simp add: key_view_def)

text \<open>The queue as a list, with the input sequence number: an event goes to its end, or a full queue is replaced
  by a reset and a snapshot of the pressed keys, each with a number of its own.\<close>

fun key_offer :: "u64 \<Rightarrow> u64 \<Rightarrow> u8 \<times> u8 \<times> u64 \<Rightarrow> u32 \<times> u8 list list \<Rightarrow> u32 \<times> u8 list list" where
  "key_offer pressed t (kind, reason, bits) (n, q) =
     (if length q < RBP_KEY_QUEUE_DEPTH then (n, q @ [keys_struct n t bits kind reason])
      else (n + 2, [keys_struct (n + 1) t 0 RBP_KEYS_KIND_RESET RBP_KEYS_REASON_OVERFLOW,
                    keys_struct (n + 2) t pressed RBP_KEYS_KIND_SNAPSHOT RBP_KEYS_REASON_NONE]))"

definition keys_ok :: "'w rbp_server \<Rightarrow> bool" where
  "keys_ok s \<longleftrightarrow> keyq_ok (s_key_q s) (s_key_q_head s) (s_key_q_count s)"

lemma keys_neutral [simp]:
  "keys_ok (s\<lparr>s_pressed_bits := b\<rparr>) = keys_ok s" "keys_ok (s\<lparr>s_input_seq := n\<rparr>) = keys_ok s"
  "keys_ok (s\<lparr>s_keys_captured_us := t\<rparr>) = keys_ok s" "keys_ok (s\<lparr>s_stat_input_resets := k\<rparr>) = keys_ok s"
  "key_view (s\<lparr>s_pressed_bits := b\<rparr>) = key_view s" "key_view (s\<lparr>s_input_seq := n\<rparr>) = key_view s"
  "key_view (s\<lparr>s_keys_captured_us := t\<rparr>) = key_view s" "key_view (s\<lparr>s_stat_input_resets := k\<rparr>) = key_view s"
  by (simp_all add: keys_ok_def key_view_def)

lemma keys_cleared [simp]:
  "keys_ok s \<Longrightarrow> keys_ok (s\<lparr>s_key_q_head := 0, s_key_q_count := 0\<rparr>)"
  "key_view (s\<lparr>s_key_q_head := 0, s_key_q_count := 0\<rparr>) = []"
  by (auto simp: keys_ok_def key_view_def)

lemma key_push_view:
  assumes "keys_ok s" and "s_key_q_count s < RBP_KEY_QUEUE_DEPTH"
  shows "fst (key_push kind reason bits t s)"
    and "key_view (snd (key_push kind reason bits t s)) = key_view s @ [keys_struct (s_input_seq s) t bits kind reason]"
    and "keys_ok (snd (key_push kind reason bits t s))"
    and "s_key_q_count (snd (key_push kind reason bits t s)) = s_key_q_count s + 1"
proof -
  let ?i = "(s_key_q_head s + s_key_q_count s) mod RBP_KEY_QUEUE_DEPTH"
  let ?it = "\<lparr>ki_used = True, ki_buf = keys_struct (s_input_seq s) t bits kind reason,
     ki_order = s_order_counter s + 1, ki_connection = s_connection_id s\<rparr>"
  let ?s' = "s\<lparr>s_order_counter := s_order_counter s + 1, s_key_q := (s_key_q s)[?i := ?it],
     s_key_q_count := s_key_q_count s + 1\<rparr>"
  have len: "length (s_key_q s) = RBP_KEY_QUEUE_DEPTH" using assms(1) by (simp add: keys_ok_def keyq_ok_def ring_ok_def)
  have p: "key_push kind reason bits t s = (True, ?s')"
    using assms(2) by (simp add: key_push_def next_order_def Let_def)
  show "key_view (snd (key_push kind reason bits t s)) = key_view s @ [keys_struct (s_input_seq s) t bits kind reason]"
    using ring_items_push [of "s_key_q_count s" "s_key_q s" "s_key_q_head s" ?it] assms(2) len
    by (simp add: p key_view_def)
  show "keys_ok (snd (key_push kind reason bits t s))"
    using assms by (auto simp: p keys_ok_def keyq_ok_def ring_ok_def dest!: set_update_subset_insert [THEN subsetD])
qed (use assms(2) in \<open>simp_all add: key_push_def next_order_def Let_def\<close>)

lemma key_push_keeps [simp]:
  "s_pressed_bits (snd (key_push kind reason bits t s)) = s_pressed_bits s"
  "s_events_enabled (snd (key_push kind reason bits t s)) = s_events_enabled s"
  "s_input_seq (snd (key_push kind reason bits t s)) = s_input_seq s"
  by (simp_all add: key_push_def next_order_def Let_def)

lemma keys_emit_view:
  assumes "keys_ok s" and "s_events_enabled s"
  shows "keys_ok (keys_emit kind reason bits t s)"
    and "(s_input_seq (keys_emit kind reason bits t s), key_view (keys_emit kind reason bits t s)) =
      key_offer (s_pressed_bits s) t (kind, reason, bits) (s_input_seq s, key_view s)"
    and "s_pressed_bits (keys_emit kind reason bits t s) = s_pressed_bits s"
    and "s_events_enabled (keys_emit kind reason bits t s)"
proof -
  let ?r = "s\<lparr>s_key_q_head := 0, s_key_q_count := 0, s_stat_input_resets := s_stat_input_resets s + 1,
    s_input_seq := s_input_seq s + 1\<rparr>"
  let ?u = "snd (key_push RBP_KEYS_KIND_RESET RBP_KEYS_REASON_OVERFLOW 0 t ?r)"
  have full: "key_push kind reason bits t s = (False, s)" if "\<not> s_key_q_count s < RBP_KEY_QUEUE_DEPTH"
    using that by (simp add: key_push_def)
  have r: "keys_ok ?r" "key_view ?r = []" "s_key_q_count ?r < RBP_KEY_QUEUE_DEPTH"
    using assms(1) by simp_all
  note u = key_push_view [OF r(1,3), of RBP_KEYS_KIND_RESET RBP_KEYS_REASON_OVERFLOW 0 t]
  have u': "keys_ok (?u\<lparr>s_input_seq := n\<rparr>)" "s_key_q_count (?u\<lparr>s_input_seq := n\<rparr>) < RBP_KEY_QUEUE_DEPTH" for n
    using u(3,4) by simp_all
  note v = key_push_view [OF u']
  have emit: "keys_emit kind reason bits t s = (if s_key_q_count s < RBP_KEY_QUEUE_DEPTH
      then snd (key_push kind reason bits t s)
      else snd (key_push RBP_KEYS_KIND_SNAPSHOT RBP_KEYS_REASON_NONE (s_pressed_bits s) t
             (?u\<lparr>s_input_seq := s_input_seq ?u + 1\<rparr>)))"
    using assms(2) full key_push_view(1) [OF assms(1), of kind reason bits t]
    by (simp add: keys_emit_def Let_def split_def)
  show "keys_ok (keys_emit kind reason bits t s)"
    using v(3) key_push_view(3) [OF assms(1)] by (simp add: emit)
  show "(s_input_seq (keys_emit kind reason bits t s), key_view (keys_emit kind reason bits t s)) =
      key_offer (s_pressed_bits s) t (kind, reason, bits) (s_input_seq s, key_view s)"
    using v(2) u(2) r(2) key_push_view(2) [OF assms(1)] by (simp add: emit add.assoc)
  show "s_pressed_bits (keys_emit kind reason bits t s) = s_pressed_bits s" "s_events_enabled (keys_emit kind reason bits t s)"
    using assms(2) by (simp_all add: emit)
qed

lemma keys_emit_parts:
  assumes "keys_ok s" and "s_events_enabled s"
  shows "s_input_seq (keys_emit kind reason bits t s) = fst (key_offer (s_pressed_bits s) t (kind, reason, bits) (s_input_seq s, key_view s))"
    and "key_view (keys_emit kind reason bits t s) = snd (key_offer (s_pressed_bits s) t (kind, reason, bits) (s_input_seq s, key_view s))"
  using keys_emit_view(2) [OF assms, of kind reason bits t] by (simp_all del: key_offer.simps add: prod_eq_iff)

text \<open>C18: what the key queue tells the client. While key events are enabled, a report of pressed keys (a
  physical report, a snapshot, or a reset) is queued behind the events that are waiting, which stay as they are, or, when the
  queue is full, they are all replaced by a reset for overflow and a snapshot; a reset with pressed keys is followed by a snapshot of
  them, queued in the same way. The payload of each queued event is given exactly, with its input sequence number, time, keys, kind and
  reason. Either way the last queued event carries exactly the keys that are now pressed, and the queue holds at most eight
  events. There is one exception: a reset without keys that finds the
  queue full leaves a snapshot of the old keys as the last event, although the server has recorded
  that no key is pressed.\<close>

theorem keys_queue_current:
  assumes "srv_inv E s" and "s_events_enabled s" and "kr_kind rep \<in> {RBP_KEYS_KIND_PHYSICAL, RBP_KEYS_KIND_RESET, RBP_KEYS_KIND_SNAPSHOT}"
    and "s' = rbp_server_on_keys rep s" and "bits = kr_pressed_bits rep" and "t = kr_captured_us rep" and "n = s_input_seq s"
  shows "(s_input_seq s', key_view s') =
      (if kr_kind rep = RBP_KEYS_KIND_PHYSICAL
       then key_offer bits t (RBP_KEYS_KIND_PHYSICAL, kr_reason rep, bits) (n + 1, key_view s)
       else if kr_kind rep = RBP_KEYS_KIND_SNAPSHOT
       then key_offer bits t (RBP_KEYS_KIND_SNAPSHOT, RBP_KEYS_REASON_NONE, bits) (n, key_view s)
       else let (m, q) = key_offer (s_pressed_bits s) t (RBP_KEYS_KIND_RESET, kr_reason rep, 0) (n + 1, key_view s)
            in if bits = 0 then (m, q)
               else key_offer bits t (RBP_KEYS_KIND_SNAPSHOT, RBP_KEYS_REASON_NONE, bits) (m + 1, q))
    \<and> s_pressed_bits s' = bits \<and> key_view s' \<noteq> [] \<and> s_key_q_count s' \<le> RBP_KEY_QUEUE_DEPTH
    \<and> key_bits (last (key_view s')) =
        (if kr_kind rep = RBP_KEYS_KIND_RESET \<and> bits = 0 \<and> s_key_q_count s = RBP_KEY_QUEUE_DEPTH
         then le_bytes 8 (s_pressed_bits s) else le_bytes 8 bits)"
proof -
  have k: "keys_ok s" "s_key_q_count s \<le> RBP_KEY_QUEUE_DEPTH"
    using srv_invD(3) [OF assms(1)] by (simp_all add: keys_ok_def keyq_ok_def ring_ok_def)
  have "keys_ok s' \<and> s_pressed_bits s' = bits"
    using assms(2,3) k unfolding assms(4,5) rbp_server_on_keys_def Let_def by (auto simp: keys_emit_view)
  moreover have q: "(s_input_seq s', key_view s') =
      (if kr_kind rep = RBP_KEYS_KIND_PHYSICAL
       then key_offer bits t (RBP_KEYS_KIND_PHYSICAL, kr_reason rep, bits) (n + 1, key_view s)
       else if kr_kind rep = RBP_KEYS_KIND_SNAPSHOT
       then key_offer bits t (RBP_KEYS_KIND_SNAPSHOT, RBP_KEYS_REASON_NONE, bits) (n, key_view s)
       else let (m, q) = key_offer (s_pressed_bits s) t (RBP_KEYS_KIND_RESET, kr_reason rep, 0) (n + 1, key_view s)
            in if bits = 0 then (m, q)
               else key_offer bits t (RBP_KEYS_KIND_SNAPSHOT, RBP_KEYS_REASON_NONE, bits) (m + 1, q))"
    using assms(2,3) k unfolding assms(4-7) rbp_server_on_keys_def Let_def
    by (auto simp: keys_emit_view keys_emit_parts split_def simp del: key_offer.simps)
  moreover have "key_view s' \<noteq> [] \<and> key_bits (last (key_view s')) =
        (if kr_kind rep = RBP_KEYS_KIND_RESET \<and> bits = 0 \<and> s_key_q_count s = RBP_KEY_QUEUE_DEPTH
         then le_bytes 8 (s_pressed_bits s) else le_bytes 8 bits)"
    using arg_cong [OF q, of snd] assms(3) k(2) by (auto simp: Let_def split: if_splits)
  ultimately show ?thesis by (simp add: keys_ok_def keyq_ok_def ring_ok_def)
qed

theorem keys_queue_current_witness:
  "key_view (rbp_server_on_keys \<lparr>kr_connection_id = 0, kr_kind = RBP_KEYS_KIND_RESET, kr_reason = 1,
      kr_pressed_bits = 6, kr_captured_us = 5\<rparr> demo_session) =
   [keys_struct 1 5 0 RBP_KEYS_KIND_RESET 1, keys_struct 2 5 6 RBP_KEYS_KIND_SNAPSHOT RBP_KEYS_REASON_NONE]"
proof -
  have "key_view demo_session = []" "s_input_seq demo_session = 0"
    by (simp_all add: key_view_def)
  then show ?thesis
    using keys_queue_current [OF demo_session_inv _ _ refl refl refl refl, of "\<lparr>kr_connection_id = 0, kr_kind = RBP_KEYS_KIND_RESET,
      kr_reason = 1, kr_pressed_bits = 6, kr_captured_us = 5\<rparr>"]
    by simp
qed

text \<open>
  Enabling key events with a full control queue: the response does not fit, so the session is torn down,
  and the handler then enables events for a client that has no session.
\<close>

lemma keys_emit_session [simp]: "s_session_active (keys_emit kind reason bits t s) = s_session_active s"
  by (simp add: keys_emit_def key_push_def next_order_def Let_def)

lemma keys_emit_enabled [simp]: "s_events_enabled (keys_emit kind reason bits t s) = s_events_enabled s"
  by (simp add: keys_emit_def key_push_def next_order_def Let_def)

lemma events_enable_without_session:
  assumes "server_wiring E" and "srv_inv E s" and "ctl_fifo s q" and "length q = CTL_SLOTS E"
    and "conn_ready_for s h" and "rbp_tlv_get_bool rd 1 = Inr (Some True)"
  shows "s_events_enabled (req_events_enable E h rd s) \<and> \<not> s_session_active (req_events_enable E h rd s)"
proof -
  have "srv_at E True (s_session_counter s) (s\<lparr>s_stat_protocol_errors := s_stat_protocol_errors s + 1\<rparr>)"
    using assms(2) by (simp add: srv_at_def srv_inv_def)
  then have "\<not> s_session_active (session_teardown E (s\<lparr>s_stat_protocol_errors := s_stat_protocol_errors s + 1\<rparr>))"
    using server_wiring.session_teardown_False [OF assms(1)] by (auto simp: srv_at_def)
  then show ?thesis
    using assms(5,6) ctl_fifo_full [OF assms(2,3)] assms(4)
    by (simp add: req_events_enable_def respond_def)
qed

section \<open>Discarding a stream\<close>

text \<open>discarding the current stream. The compaction of the media queue, which moves markers and audio bytes
  forward within their two circular buffers, keeps exactly the frames of other streams and
  the start event of the current one, each with its bytes and in their order.\<close>

theorem media_discard_filters:
  assumes "srv_inv E s"
  shows "media_frames (media_discard_current E s) = filter (\<lambda>frame. media_keep (s_stream_id s) (fst frame)) (media_frames s)
    \<and> media_inv E (media_discard_current E s)"
proof -
  have "media_inv E s" using srv_invD(4) [OF assms] by (simp add: media_inv_def)
  from media_discard_all(1,2) [OF this] show ?thesis
    by (simp add: comp_def)
qed

definition demo_media :: "bridge_world rbp_server" where
  "demo_media = snd (media_enqueue bridge_env RBP_OP_VOICE_DATA (replicate 41 1) demo_session)"

lemma demo_media_inv: "srv_inv bridge_env demo_media"
proof -
  have "srv_at bridge_env True (s_session_counter demo_session) demo_session"
    using demo_session_inv by (simp add: srv_at_def)
  from bridge.media_enqueue_at(1) [OF this, of "replicate 41 1" RBP_OP_VOICE_DATA] show ?thesis
    by (simp add: demo_media_def srv_at_def)
qed

theorem media_discard_filters_witness:
  "media_frames (media_discard_current bridge_env demo_media)
     = filter (\<lambda>frame. media_keep (s_stream_id demo_media) (fst frame)) (media_frames demo_media)
   \<and> s_media_count demo_media = 1"
  using media_discard_filters [OF demo_media_inv]
  by (simp add: demo_media_def media_enqueue_def ring_write_def next_order_def Let_def bridge_env_def)

section \<open>Withdrawing a session\<close>

lemma cut_pending:
  assumes "ring_ok (OUT_RING_SIZE E) (s_out_ring s) (s_out_head s) (s_out_len s)"
  shows "take (cut_len (OUT_RING_SIZE E) (s_out_ring s) (s_out_head s) (s_out_len s)) (pending s)
    = takeWhile (\<lambda>b. b \<noteq> 0) (pending s) @ (if 0 \<in> set (pending s) then [0] else [])"
proof -
  let ?z = "\<lambda>i. s_out_ring s ! ((s_out_head s + i) mod OUT_RING_SIZE E) = 0"
  have z: "?z i \<longleftrightarrow> pending s ! i = 0" if "i < s_out_len s" for i
    using that assms by (simp add: pending_def nth_ring_items ring_ok_def)
  have len: "length (pending s) = s_out_len s" by (simp add: pending_def)
  show ?thesis
  proof (cases "find ?z [0..<s_out_len s]")
    case None
    then have "\<forall>i < s_out_len s. pending s ! i \<noteq> 0"
      using z by (auto simp: find_None_iff)
    then have n: "0 \<notin> set (pending s)"
      using len by (metis in_set_conv_nth)
    then have tw: "takeWhile (\<lambda>b. b \<noteq> 0) (pending s) = pending s"
      by (auto simp: takeWhile_eq_all_conv)
    show ?thesis
      using None n by (simp add: cut_len_def tw len)
  next
    case (Some i)
    then have i: "i < s_out_len s" "pending s ! i = 0" "\<forall>j < i. pending s ! j \<noteq> 0"
      using z by (auto simp: find_Some_iff)
    then have "takeWhile (\<lambda>b. b \<noteq> 0) (pending s) = take i (pending s)"
      by (intro takeWhile_eq_take_P_nth) auto
    moreover have "0 \<in> set (pending s)" using i(1,2) len by (metis nth_mem)
    ultimately show ?thesis
      using Some i len by (simp add: cut_len_def take_Suc_conv_app_nth)
  qed
qed

text \<open>What waits in the output ring: the rest of the frame the transport is in the middle of, then whole
  frames.\<close>

definition frame_aligned :: "u8 list \<Rightarrow> u8 list \<Rightarrow> bool" where
  "frame_aligned rest bytes \<longleftrightarrow> rest \<noteq> [] \<and>
     (\<exists>f fs. suffix rest (frame_wire f) \<and> length (snd (snd f)) \<le> RBP_MAX_PAYLOAD
        \<and> bytes = rest @ concat (map frame_wire fs))"

lemma frame_rest:
  assumes "suffix rest (frame_wire f)" and "length (snd (snd f)) \<le> RBP_MAX_PAYLOAD" and "rest \<noteq> []"
  shows "\<exists>body. rest = body @ [0] \<and> 0 \<notin> set body"
proof -
  obtain h seq p where f: "f = (h, seq, p)" by (cases f)
  obtain cs where w: "frame_wire f = cs @ [0]" and "0 \<notin> set cs"
    using assms(2) cobs_ref_no_zero [of "raw_frame (stamped h seq (length p)) p"]
    by (auto simp: f rbp_frame_encode_wire rbp_cobs_encode_ref)
  then show ?thesis
    using assms(1,3) by (auto simp: suffix_snoc dest: set_mono_suffix)
qed

text \<open>C17: withdrawing a session leaves no truncated frame on the wire. If the output ring holds the rest of a
  frame the transport has begun and then further frames, it holds exactly that rest afterwards; the
  queues are empty, and there is no session, no search, no prompt and no voice.\<close>

theorem withdraw_keeps_frame:
  assumes "srv_inv E s" and "frame_aligned rest (pending s)" and "s' = session_withdraw E s"
  shows "pending s' = rest \<and> queued s' = 0 \<and> \<not> s_session_active s' \<and> \<not> s_find_active s'
    \<and> \<not> s_prompt_active s' \<and> \<not> s_voice_enabled s' \<and> \<not> s_events_enabled s'"
proof -
  have ok: "ring_ok (OUT_RING_SIZE E) (s_out_ring s) (s_out_head s) (s_out_len s)" by (rule srv_invD(1) [OF assms(1)])
  have "pending s' = take (cut_len (OUT_RING_SIZE E) (s_out_ring s) (s_out_head s) (s_out_len s)) (pending s)"
    using ring_items_take [OF cut_len_le] by (simp add: assms(3) pending_def)
  moreover obtain body fs where "pending s = (body @ [0]) @ concat (map frame_wire fs)" "rest = body @ [0]" "0 \<notin> set body"
    using assms(2) frame_rest by (metis frame_aligned_def)
  moreover have "takeWhile (\<lambda>b. b \<noteq> 0) (body @ 0 # ys) = body" for ys
    using calculation(4) by (subst takeWhile_append2) auto
  ultimately have "pending s' = rest"
    using cut_pending [OF ok] by simp
  moreover have "queued s' = 0"
    by (simp add: assms(3) queued_def filter_empty_conv)
  ultimately show ?thesis by (simp add: assms(3))
qed

text \<open>A server that has framed a message of one byte.\<close>

definition demo_framed :: "bridge_world rbp_server" where
  "demo_framed = snd (out_try_frame bridge_env header_zero [1] demo_session)"

lemma demo_framed_ok:
  "srv_inv bridge_env demo_framed" "pending demo_framed = frame_wire (header_zero, 1, [1])"
proof -
  have l: "length (rbp_cobs_encode (raw_frame (stamped header_zero 1 1) [1])) \<le> RBP_COBS_RECV_MAX"
    by (rule encode_length) simp
  obtain s1 where s1: "out_try_frame bridge_env header_zero [1] demo_session = (True, s1)"
    using l rbp_frame_encode_wire [of "[1]" header_zero 1]
    by (simp add: out_try_frame_def bridge_env_def ring_write_def Let_def)
  have d: "demo_framed = s1" by (simp add: demo_framed_def s1)
  have "pending s1 = pending demo_session @ frame_wire (header_zero, s_txseq demo_session, [1])"
    by (rule frame_sent [OF srv_invD(1) [OF demo_session_inv] s1]) simp_all
  then show "pending demo_framed = frame_wire (header_zero, 1, [1])"
    by (simp add: d pending_def [of demo_session])
  show "srv_inv bridge_env demo_framed"
    using bridge.out_try_frame_at demo_session_inv bridge.at_self bridge.srv_at_inv unfolding demo_framed_def by blast
qed

theorem withdraw_keeps_frame_witness:
  "pending (session_withdraw bridge_env demo_framed) = frame_wire (header_zero, 1, [1])"
proof -
  have "frame_wire (header_zero, 1, [1]) \<noteq> []"
    using rbp_frame_encode_wire [of "[1]" header_zero 1] by simp
  then have "frame_aligned (frame_wire (header_zero, 1, [1])) (pending demo_framed)"
    unfolding frame_aligned_def demo_framed_ok(2)
    by (intro conjI exI [of _ "(header_zero, 1, [1])"] exI [of _ "[]"]) simp_all
  from withdraw_keeps_frame [OF demo_framed_ok(1) this refl] show ?thesis by blast
qed

end
