(* ===== verification/Server_Request_Facts.thy ===== *)
theory Server_Request_Facts
  imports Server_World
begin

text \<open>
  Properties of the requests and of the audio path: paged lists are complete, finished operations
  stay queryable, and an encoded unit is cut into fragments a client can put together again.
\<close>

section \<open>Pages\<close>

lemma unat_numeral_255: "unat (255 :: u8) = 255"
  by simp

lemma page_loop_result:
  assumes "page_loop rec n limit i acc cnt = (j, acc', cnt')" and "i \<le> n"
  shows "i \<le> j \<and> j \<le> n \<and> acc' = acc @ concat (map rec [i..<j]) \<and> cnt' + i = cnt + j"
  using assms
proof (induction rec n limit i acc cnt rule: page_loop.induct)
  case (1 rec n limit i acc cnt)
  show ?case
  proof (cases "i < n \<and> cnt < limit \<and> \<not> 500 < 1 + length acc + length (rec i) + 1")
    case True
    then have "page_loop rec n limit (i + 1) (acc @ rec i) (cnt + 1) = (j, acc', cnt')"
      using "1.prems"(1) by (subst (asm) page_loop.simps) simp
    from "1.IH" [OF _ _ this] True show ?thesis
      by (auto simp: upt_conv_Cons)
  next
    case False
    then have "j = i \<and> acc' = acc \<and> cnt' = cnt"
      using "1.prems"(1) by (subst (asm) page_loop.simps) (auto split: if_splits)
    then show ?thesis using "1.prems"(2) by simp
  qed
qed

lemma page_loop_progress:
  assumes "page_loop rec n limit i [] 0 = (j, acc, cnt)" and "i < n" and "0 < limit" and "length (rec i) \<le> 498"
  shows "i < j"
proof -
  have "page_loop rec n limit (i + 1) (rec i) 1 = (j, acc, cnt)"
    using assms by (subst (asm) page_loop.simps) simp
  from page_loop_result [OF this] assms(2) show ?thesis by simp
qed

lemma page_loop_limit: "page_loop rec n limit i acc cnt = (j, acc', cnt') \<Longrightarrow> cnt \<le> limit \<Longrightarrow> cnt' \<le> limit"
proof (induction rec n limit i acc cnt rule: page_loop.induct)
  case (1 rec n limit i acc cnt)
  show ?case
  proof (cases "i < n \<and> cnt < limit \<and> \<not> 500 < 1 + length acc + length (rec i) + 1")
    case True
    then have "page_loop rec n limit (i + 1) (acc @ rec i) (cnt + 1) = (j, acc', cnt')"
      using "1.prems"(1) by (subst (asm) page_loop.simps) simp
    from "1.IH" [OF _ _ this] True show ?thesis by auto
  next
    case False
    then have "cnt' = cnt" using "1.prems"(1) by (subst (asm) page_loop.simps) (auto split: if_splits)
    then show ?thesis using "1.prems"(2) by simp
  qed
qed

text \<open>A page of records of at most \<open>b\<close> bytes.\<close>

lemma page_loop_bytes:
  assumes "page_loop rec n limit i [] 0 = (j, acc, cnt)" and "i \<le> n" and "\<forall>k < n. length (rec k) \<le> b"
  shows "length acc \<le> limit * b \<and> cnt \<le> limit"
proof -
  note r = page_loop_result [OF assms(1,2)]
  have "sum_list (map (\<lambda>k. length (rec k)) [i..<j]) \<le> sum_list (map (\<lambda>k. b) [i..<j])"
    using assms(3) r by (intro sum_list_mono) auto
  moreover have "cnt \<le> limit" by (rule page_loop_limit [OF assms(1)]) simp
  moreover have "(j - i) * b \<le> limit * b" using r calculation(2) by (intro mult_le_mono1) linarith
  moreover have "length acc = sum_list (map (\<lambda>k. length (rec k)) [i..<j])"
    using r by (simp add: length_concat comp_def)
  moreover have "sum_list (map (\<lambda>k. b) [i..<j]) = (j - i) * b" by (simp add: sum_list_triv)
  ultimately show ?thesis by linarith
qed

lemma page_loop_cong:
  "(\<And>k. k < n \<Longrightarrow> rec k = rec' k) \<Longrightarrow> page_loop rec n limit i acc cnt = page_loop rec' n limit i acc cnt"
proof (induction rec n limit i acc cnt rule: page_loop.induct)
  case (1 rec n limit i acc cnt)
  show ?case
    using "1.IH" "1.prems" by (subst (1 2) page_loop.simps) auto
qed

lemma page_loop_none: "page_loop rec n limit i acc cnt = (j, acc', cnt') \<Longrightarrow> n \<le> i \<Longrightarrow> acc' = acc \<and> cnt' = cnt"
  by (subst (asm) page_loop.simps) simp

section \<open>Requests and their answers\<close>

text \<open>The message that handling a request has added to the control queue.\<close>

definition added :: "'w rbp_server \<Rightarrow> 'w rbp_server \<Rightarrow> msg option" where
  "added s s' = map_option (\<lambda>i. ctl_msg (s_ctl_payload s') (s_ctl s' ! i))
     (find (\<lambda>i. cs_used (s_ctl s' ! i) \<and> \<not> cs_used (s_ctl s ! i)) [0..<length (s_ctl s')])"

text \<open>Room for an answer of any size.\<close>

definition ctl_room :: "'w server_env \<Rightarrow> 'w rbp_server \<Rightarrow> bool" where
  "ctl_room E s \<longleftrightarrow> list_ex (\<lambda>sl. \<not> cs_used sl) (s_ctl s) \<and> s_ctl_used s + RBP_MAX_PAYLOAD \<le> CTL_BYTES E"

lemma respond_added:
  assumes "srv_inv E s" and "ctl_room E s" and "length p \<le> RBP_MAX_PAYLOAD"
  shows "added s (respond E h status p s) = Some (header_zero\<lparr>h_kind := RBP_KIND_RESPONSE, h_session_id := s_session_id s,
    h_opcode := h_opcode h, h_status := status, h_request_id := h_request_id h, h_connection_id := h_connection_id h\<rparr>, p)"
proof -
  have len: "length (s_ctl_payload s) = CTL_BYTES E" using srv_invD(2) [OF assms(1)] by (simp add: ctl_ok_def)
  have "find (\<lambda>i. \<not> cs_used (s_ctl s ! i)) [0..<length (s_ctl s)] \<noteq> None"
    using assms(2) by (auto simp: ctl_room_def find_None_iff list_ex_length)
  then obtain i where f: "find (\<lambda>i. \<not> cs_used (s_ctl s ! i)) [0..<length (s_ctl s)] = Some i" by blast
  then have i: "i < length (s_ctl s)" "\<not> cs_used (s_ctl s ! i)" by (auto simp: find_Some_iff)
  define sl where "sl = ctl_slot_zero\<lparr>cs_used := True, cs_kind := RBP_KIND_RESPONSE, cs_opcode := h_opcode h, cs_status := status,
    cs_request_id := h_request_id h, cs_connection_id := h_connection_id h, cs_session := s_session_id s, cs_len := length p,
    cs_offset := s_ctl_used s, cs_order := s_order_counter s + 1\<rparr>"
  have e: "respond E h status p s = s\<lparr>s_order_counter := s_order_counter s + 1,
      s_ctl := (s_ctl s)[i := sl], s_ctl_payload := memcpy_at (s_ctl_payload s) (s_ctl_used s) p,
      s_ctl_used := s_ctl_used s + length p\<rparr>"
  proof -
    have "\<not> (RBP_MAX_PAYLOAD < length p \<or> CTL_BYTES E - s_ctl_used s < length p)"
      using assms(2,3) by (auto simp: ctl_room_def)
    then show ?thesis by (simp add: respond_def ctl_enqueue_def f next_order_def sl_def)
  qed
  have "find (\<lambda>j. cs_used ((s_ctl s)[i := sl] ! j) \<and> \<not> cs_used (s_ctl s ! j)) [0..<length (s_ctl s)] = Some i"
    using i unfolding find_Some_iff by (intro exI [of _ i]) (auto simp: nth_list_update sl_def)
  then show ?thesis
    using i(1) len assms(2,3)
    by (simp add: added_def e ctl_msg_def ctl_header_def) (simp add: sl_def memcpy_at_def ctl_room_def)
qed

lemma envelope_items:
  assumes "drop (tr_pos r) (tr_buf r) = tlv_bytes items" and "distinct (map fst items)"
    and "fst ` set items \<inter> seen_set (tr_seen r) = {}" and "\<forall>(t, ty, v) \<in> set items. length v < 65536"
    and "length (tr_seen r) = 32" and "tr_valid r"
  shows "tlv_envelope r"
  using assms
proof (induction items arbitrary: r)
  case Nil
  then show ?case by (subst tlv_envelope.simps) simp
next
  case (Cons item items)
  obtain t ty v where item: "item = (t, ty, v)" by (metis prod_cases3)
  obtain r' where r: "rbp_tlv_next r = (r', Inr (t, ty, v))" "tr_buf r' = tr_buf r" "tr_valid r'"
      "drop (tr_pos r') (tr_buf r') = tlv_bytes items" "length (tr_seen r') = 32"
      "seen_set (tr_seen r') = insert t (seen_set (tr_seen r))"
    using next_item [of r t ty v "tlv_bytes items"] Cons.prems item by auto
  have "tlv_envelope r'"
    using r Cons.prems item by (intro Cons.IH) (auto simp: image_iff)
  then show ?case by (subst tlv_envelope.simps) (simp add: r(1))
qed

text \<open>A message that fits: the fields can be read back, and its envelope is whole.\<close>

abbreviation "tlv_fits fs \<equiv> \<not> tw_overflow (foldl put_value (rbp_tlv_writer_init tlv_stack) fs)"

lemma tlv_build_items:
  assumes "tlv_fits fs"
  shows "tlv_build fs = tlv_bytes (map value_item fs)" and "tlv_message (map value_item fs)"
proof -
  have inv: "tw_inv (foldl put_value (rbp_tlv_writer_init tlv_stack) fs) (map value_item fs)"
    using put_values_inv [OF tw_inv_init, of tlv_stack fs] by (simp add: tlv_stack_def)
  show "tlv_message (map value_item fs)" by (rule tw_message(2) [OF inv assms])
  show "tlv_build fs = tlv_bytes (map value_item fs)"
    using inv tw_message(1) [OF inv assms] by (simp add: tlv_build_def tw_inv_def Let_def)
qed

lemma tlv_build_reads:
  assumes "tlv_fits fs" and "f \<in> set fs" and "text_clean (snd f)"
  shows "value_reads (rbp_tlv_reader_init (tlv_build fs)) f"
  unfolding tlv_build_items(1) [OF assms(1)]
  using put_values_fit [OF assms(1)] assms(2,3) by (intro value_item_reads [OF tlv_build_items(2) [OF assms(1)]]) simp_all

lemma tlv_build_envelope:
  assumes "tlv_fits fs"
  shows "tlv_envelope (rbp_tlv_reader_init (tlv_build fs))"
  using tlv_build_items [OF assms]
  by (intro envelope_items [of _ "map value_item fs"]) (auto simp: rbp_tlv_reader_init_def tlv_message_def)

lemma length_key_record: "length (key_record prof i) \<le> 36"
  by (auto simp: key_record_def Let_def split: prod.split)

lemma length_cand_record: "cand_ok c \<Longrightarrow> length (cand_record c) \<le> 55"
  by (auto simp: cand_record_def cand_ok_def)

section \<open>Paged lists\<close>

text \<open>
  The client's side. A request meets the server in some state, and its answer is accepted when it is a response to
  it with status OK; it has a cursor and a field that begins with the number of its records. The client asks for the page at a cursor and
  goes on with the cursor of the answer until that is 255, adding up the numbers and joining the records. The list
  holds the headers of its requests and the states they meet.
\<close>

definition page_of :: "u8 \<Rightarrow> rbp_header \<Rightarrow> msg option \<Rightarrow> (u8 \<times> nat \<times> u8 list) option" where
  "page_of tag h m = (case m of None \<Rightarrow> None | Some (h', p) \<Rightarrow>
     if h_kind h' \<noteq> RBP_KIND_RESPONSE \<or> h_request_id h' \<noteq> h_request_id h \<or> h_status h' \<noteq> RBP_STATUS_OK then None
     else case (rbp_tlv_get_u8 (rbp_tlv_reader_init p) tag, rbp_tlv_get_bytes (rbp_tlv_reader_init p) (tag + 1)) of
       (Inr (Some nxt), Inr (Some (c # recs))) \<Rightarrow> Some (nxt, unat c, recs) | _ \<Rightarrow> None)"

fun fetch_pages :: "'w server_env \<Rightarrow> u8 \<Rightarrow> (u8 \<Rightarrow> (u8 \<times> tlv_value) list) \<Rightarrow> (rbp_header \<times> 'w rbp_server) list \<Rightarrow> u8
    \<Rightarrow> (nat \<times> u8 list) option" where
  "fetch_pages E tag args [] cursor = None"
| "fetch_pages E tag args ((h, s) # rs) cursor =
     (case page_of tag h (added s (dispatch_request E h (tlv_build (args cursor)) s)) of
        None \<Rightarrow> None
      | Some (nxt, k, recs) \<Rightarrow> if nxt = 255 then Some (k, recs)
          else map_option (map_prod ((+) k) ((@) recs)) (fetch_pages E tag args rs nxt))"

definition serves :: "'w server_env \<Rightarrow> u8 \<Rightarrow> (u8 \<Rightarrow> (u8 \<times> tlv_value) list) \<Rightarrow> (nat \<Rightarrow> u8 list) \<Rightarrow> nat \<Rightarrow> nat
    \<Rightarrow> rbp_header \<times> 'w rbp_server \<Rightarrow> bool" where
  "serves E tag args rec n limit = (\<lambda>(h, s). \<forall>i < max 1 n. case page_loop rec n limit i [] 0 of (j, recs, k) \<Rightarrow>
     page_of tag h (added s (dispatch_request E h (tlv_build (args (word_of_nat i))) s)) = Some (page_cursor j n, k, recs))"

lemma fetch_pages_all:
  assumes "n \<le> 254" and "0 < limit" and "\<forall>i < n. length (rec i) \<le> 498" and "\<forall>r \<in> set rs. serves E tag args rec n limit r"
    and "i < max 1 n" and "n - i \<le> length rs" and "rs \<noteq> []"
  shows "fetch_pages E tag args rs (word_of_nat i) = Some (n - i, concat (map rec [i..<n]))"
  using assms(4-7)
proof (induction rs arbitrary: i)
  case (Cons r rs)
  obtain h s where hs: "r = (h, s)" by fastforce
  obtain j acc k where p: "page_loop rec n limit i [] 0 = (j, acc, k)" by (metis prod_cases3)
  have page: "page_of tag h (added s (dispatch_request E h (tlv_build (args (word_of_nat i))) s)) = Some (page_cursor j n, k, acc)"
    using Cons.prems(1,2) p hs by (auto simp: serves_def)
  show ?case
  proof (cases "n \<le> j")
    case True
    have "acc = concat (map rec [i..<n]) \<and> k = n - i"
    proof (cases "n = 0")
      case True
      then show ?thesis using p by (subst (asm) page_loop.simps) simp
    next
      case False
      then show ?thesis using page_loop_result [OF p] Cons.prems(2) \<open>n \<le> j\<close> by auto
    qed
    then show ?thesis using True by (simp add: hs page page_cursor_def)
  next
    case False
    then have n: "i \<le> n" "i < n" using Cons.prems(2) page_loop_result [OF p] by (cases "n = 0"; simp)+
    note r = page_loop_result [OF p n(1)]
    have "unat (word_of_nat j :: u8) = j" using False assms(1) by (simp add: unat_of_nat)
    then have c: "word_of_nat j \<noteq> (255 :: u8)" using False assms(1) unat_numeral_255 by fastforce
    have ij: "i < j" using page_loop_progress [OF p n(2) assms(2)] assms(3) n(2) by simp
    have "[i..<n] = [i..<j] @ [j..<n]" using r upt_add_eq_append [of i j "n - j"] by simp
    moreover have "fetch_pages E tag args rs (word_of_nat j) = Some (n - j, concat (map rec [j..<n]))"
      using Cons.prems False ij n by (intro Cons.IH) auto
    moreover have "k + (n - j) = n - i" using r False by linarith
    ultimately show ?thesis using r c False by (simp add: hs page page_cursor_def)
  qed
qed simp

lemmas put_defs = rbp_tlv_put_u8_def rbp_tlv_put_u32_def rbp_tlv_put_bytes_def w_put_def Let_def rbp_tlv_writer_init_def tlv_stack_def

text \<open>The handlers answer with the page at the cursor.\<close>

lemma catalog_serves:
  assumes "srv_inv E s" and "ctl_room E s" and "conn_ready_for s h" and "s_profile s = Some prof"
    and "h_opcode h = RBP_OP_KEY_CATALOG" and "0 < key_count prof" and "key_count prof \<le> 254"
  shows "serves E 2 (\<lambda>c. [(1, TV_u8 c)]) (key_record prof) (key_count prof) 12 (h, s)"
proof -
  have "page_of 2 h (added s (dispatch_request E h (tlv_build [(1, TV_u8 (word_of_nat i))]) s)) = Some (page_cursor j (key_count prof), k, recs)"
    if i: "i < key_count prof" and p: "page_loop (key_record prof) (key_count prof) 12 i [] 0 = (j, recs, k)" for i j recs k
  proof -
    let ?q = "[(1, TV_u8 (word_of_nat i))]"
    let ?a = "[(1, TV_u32 (catalog_revision prof)), (2, TV_u8 (page_cursor j (key_count prof))), (3, TV_bytes (word_of_nat k # recs))]"
    have u: "unat (word_of_nat i :: u8) = i" using i assms(7) by (simp add: unat_of_nat)
    have b: "length recs \<le> 432 \<and> k \<le> 12"
      using page_loop_bytes [OF p, of 36] i length_key_record by auto
    have q: "tlv_fits ?q" and a: "tlv_fits ?a"
      using b by (simp_all add: put_defs)
    have "dispatch_request E h (tlv_build ?q) s = respond_ok E h ?a s"
      using assms(3-6) i u p tlv_build_envelope [OF q] tlv_build_reads [OF q, of "(1, TV_u8 (word_of_nat i))"]
      by (simp add: dispatch_request_def request_handler_def req_key_catalog_def)
    then have "added s (dispatch_request E h (tlv_build ?q) s) = Some (header_zero\<lparr>h_kind := RBP_KIND_RESPONSE, h_session_id := s_session_id s,
        h_opcode := h_opcode h, h_status := RBP_STATUS_OK, h_request_id := h_request_id h, h_connection_id := h_connection_id h\<rparr>, tlv_build ?a)"
      using respond_added [OF assms(1,2) tlv_build_le] by simp
    moreover have "unat (word_of_nat k :: u8) = k" using b by (simp add: unat_of_nat)
    ultimately show ?thesis
      using tlv_build_reads [OF a, of "(2, TV_u8 (page_cursor j (key_count prof)))"]
        tlv_build_reads [OF a, of "(3, TV_bytes (word_of_nat k # recs))"] by (simp add: page_of_def)
  qed
  then show ?thesis using assms(6) by (auto simp: serves_def max_def split: prod.split)
qed

lemma find_list_serves:
  assumes "srv_inv E s" and "ctl_room E s" and "s_search_id s = sid" and "s_find_active s \<or> s_find_valid s"
    and "take (s_cand_count s) (s_cand s) = cs" and "h_opcode h = RBP_OP_FIND_LIST" and "h_connection_id h = 0"
  shows "serves E 1 (\<lambda>c. [(1, TV_u32 sid), (2, TV_u8 c)]) (\<lambda>i. cand_record (cs ! i)) (length cs) 8 (h, s)"
proof -
  have c: "length (s_cand s) = RBP_MAX_CANDIDATES" "s_cand_count s \<le> RBP_MAX_CANDIDATES" "list_all cand_ok (s_cand s)"
    using srv_invD(6) [OF assms(1)] by (simp_all add: cands_ok_def)
  then have n: "s_cand_count s = length cs" "length cs \<le> 8" using assms(5) by auto
  have nth: "s_cand s ! i = cs ! i" if "i < length cs" for i using assms(5) n(1) that by (metis nth_take)
  have rec: "page_loop (\<lambda>i. cand_record (s_cand s ! i)) (length cs) 8 i [] 0 = page_loop (\<lambda>i. cand_record (cs ! i)) (length cs) 8 i [] 0" for i
    by (rule page_loop_cong) (simp add: nth)
  have len: "length (cand_record (cs ! i)) \<le> 55" if "i < length cs" for i
    using length_cand_record [of "cs ! i"] that c n nth [of i] unfolding list_all_length by (metis order_less_le_trans)
  have "page_of 1 h (added s (dispatch_request E h (tlv_build [(1, TV_u32 sid), (2, TV_u8 (word_of_nat i))]) s)) = Some (page_cursor j (length cs), k, recs)"
    if i: "i < max 1 (length cs)" and p: "page_loop (\<lambda>i. cand_record (cs ! i)) (length cs) 8 i [] 0 = (j, recs, k)" for i j recs k
  proof -
    let ?q = "[(1, TV_u32 sid), (2, TV_u8 (word_of_nat i))]"
    let ?a = "[(1, TV_u8 (page_cursor j (length cs))), (2, TV_bytes (word_of_nat k # recs))]"
    have i8: "i < 8" using i n by auto
    have u: "unat (word_of_nat i :: u8) = i" using i8 by (simp add: unat_of_nat)
    have b: "length recs \<le> 440 \<and> k \<le> 8"
      using page_loop_bytes [OF p, of 55] i len page_loop_none [OF p] by (cases "length cs = 0") auto
    have q: "tlv_fits ?q" and a: "tlv_fits ?a"
      using b by (simp_all add: put_defs)
    have "\<not> 8 \<le> (word_of_nat i :: u8)" using i8 u by (simp add: word_le_nat_alt)
    then have "dispatch_request E h (tlv_build ?q) s = respond_ok E h ?a s"
      using assms(3,4,6,7) n rec [of i] u p tlv_build_envelope [OF q] tlv_build_reads [OF q, of "(1, TV_u32 sid)"]
        tlv_build_reads [OF q, of "(2, TV_u8 (word_of_nat i))"]
      by (simp add: dispatch_request_def request_handler_def req_find_list_def) (use assms(4) in blast)
    then have "added s (dispatch_request E h (tlv_build ?q) s) = Some (header_zero\<lparr>h_kind := RBP_KIND_RESPONSE, h_session_id := s_session_id s,
        h_opcode := h_opcode h, h_status := RBP_STATUS_OK, h_request_id := h_request_id h, h_connection_id := h_connection_id h\<rparr>, tlv_build ?a)"
      using respond_added [OF assms(1,2) tlv_build_le] by simp
    moreover have "unat (word_of_nat k :: u8) = k" using b by (simp add: unat_of_nat)
    ultimately show ?thesis
      using tlv_build_reads [OF a, of "(1, TV_u8 (page_cursor j (length cs)))"]
        tlv_build_reads [OF a, of "(2, TV_bytes (word_of_nat k # recs))"] by (simp add: page_of_def)
  qed
  then show ?thesis by (auto simp: serves_def split: prod.split)
qed

text \<open>C22: a client that follows the page cursor gets the whole list. It sends KEY_CATALOG or FIND_LIST requests, beginning with cursor 0 and
  going on with the cursor of each answer, until that is 255; each request goes through the whole dispatcher, in whatever state the server
  then is, as long as there is room for the answer in the control queue and, for the catalog, the link is ready and the profile the
  same, or, for the candidates, the search and its candidates are the same. With at most one request per entry (and one for an empty list of
  candidates) the client has every record of the key catalog, or of the found candidates, each once and in order, and
  their number. The catalog has between 1 and 254 keys: the request for an empty one is refused.\<close>

theorem paging_complete:
  assumes "\<forall>(h, s) \<in> set rs. srv_inv E s \<and> ctl_room E s \<and> h_opcode h = RBP_OP_KEY_CATALOG \<and> conn_ready_for s h \<and> s_profile s = Some prof"
    and "0 < key_count prof" and "key_count prof \<le> 254" and "length rs = key_count prof"
    and "\<forall>(h, s) \<in> set fs. srv_inv E s \<and> ctl_room E s \<and> h_opcode h = RBP_OP_FIND_LIST \<and> h_connection_id h = 0
      \<and> s_search_id s = sid \<and> (s_find_active s \<or> s_find_valid s) \<and> take (s_cand_count s) (s_cand s) = cs"
    and "length fs = max 1 (length cs)"
  shows "fetch_pages E 2 (\<lambda>c. [(1, TV_u8 c)]) rs 0 = Some (key_count prof, concat (map (key_record prof) [0..<key_count prof]))
    \<and> fetch_pages E 1 (\<lambda>c. [(1, TV_u32 sid), (2, TV_u8 c)]) fs 0 = Some (length cs, concat (map cand_record cs))"
proof
  have "\<forall>r \<in> set rs. serves E 2 (\<lambda>c. [(1, TV_u8 c)]) (key_record prof) (key_count prof) 12 r"
    using assms(1-3) by (auto intro!: catalog_serves)
  moreover have "length (key_record prof i) \<le> 498" for i using length_key_record [of prof i] by simp
  ultimately show "fetch_pages E 2 (\<lambda>c. [(1, TV_u8 c)]) rs 0 = Some (key_count prof, concat (map (key_record prof) [0..<key_count prof]))"
    using fetch_pages_all [of "key_count prof" 12 "key_record prof" rs E 2 "\<lambda>c. [(1, TV_u8 c)]" 0] assms(2-4) by fastforce
  have "\<forall>r \<in> set fs. serves E 1 (\<lambda>c. [(1, TV_u32 sid), (2, TV_u8 c)]) (\<lambda>i. cand_record (cs ! i)) (length cs) 8 r"
    using assms(5) by (auto intro!: find_list_serves)
  moreover obtain h s where s: "(h, s) \<in> set fs" using assms(6) by (cases fs) auto
  then have c: "cands_ok (s_cand s) (s_cand_count s)" "take (s_cand_count s) (s_cand s) = cs" using assms(5) srv_invD(6) by blast+
  then have "length cs \<le> 8" "\<forall>c \<in> set cs. cand_ok c" by (auto simp: cands_ok_def list_all_iff dest: in_set_takeD)
  moreover from this have "\<forall>i < length cs. length (cand_record (cs ! i)) \<le> 498"
    using length_cand_record by (meson le_trans nth_mem numeral_le_iff semiring_norm)
  moreover have "map (\<lambda>i. cand_record (cs ! i)) [0..<length cs] = map cand_record cs"
    by (rule nth_equalityI) simp_all
  ultimately show "fetch_pages E 1 (\<lambda>c. [(1, TV_u32 sid), (2, TV_u8 c)]) fs 0 = Some (length cs, concat (map cand_record cs))"
    using fetch_pages_all [of "length cs" 8 "\<lambda>i. cand_record (cs ! i)" fs E 1 "\<lambda>c. [(1, TV_u32 sid), (2, TV_u8 c)]" 0] assms(6)
    by (cases fs) auto
qed

definition paged_session :: "bridge_world rbp_server" where
  "paged_session = demo_session\<lparr>s_profile := Some RBP_PROFILE_UNICOM, s_link_state := RBP_LINK_READY, s_connection_id := 5,
     s_search_id := 9, s_find_valid := True, s_cand_count := 3\<rparr>"

theorem paging_complete_witness:
  "fetch_pages bridge_env 2 (\<lambda>c. [(1, TV_u8 c)])
      (replicate 28 (header_zero\<lparr>h_opcode := RBP_OP_KEY_CATALOG, h_connection_id := 5, h_request_id := 7\<rparr>, paged_session)) 0
     = Some (28, concat (map (key_record RBP_PROFILE_UNICOM) [0..<28]))
   \<and> fetch_pages bridge_env 1 (\<lambda>c. [(1, TV_u32 9), (2, TV_u8 c)])
      (replicate 3 (header_zero\<lparr>h_opcode := RBP_OP_FIND_LIST, h_request_id := 8\<rparr>, paged_session)) 0
     = Some (3, concat (map cand_record (take 3 (s_cand paged_session))))"
proof -
  have inv: "srv_inv bridge_env paged_session"
    using demo_session_inv by (simp add: paged_session_def srv_inv_def cands_ok_def)
  have room: "ctl_room bridge_env paged_session"
    by (simp add: paged_session_def ctl_room_def bridge_env_def ctl_slot_zero_def numeral_eq_Suc)
  have count: "key_count RBP_PROFILE_UNICOM = 28" by code_simp
  have cand: "length (take 3 (s_cand paged_session)) = 3"
    using srv_invD(6) [OF inv] by (simp add: cands_ok_def)
  show ?thesis
    using paging_complete [of "replicate 28 (header_zero\<lparr>h_opcode := RBP_OP_KEY_CATALOG, h_connection_id := 5, h_request_id := 7\<rparr>, paged_session)"
        bridge_env RBP_PROFILE_UNICOM "replicate 3 (header_zero\<lparr>h_opcode := RBP_OP_FIND_LIST, h_request_id := 8\<rparr>, paged_session)"
        9 "take 3 (s_cand paged_session)"] inv room cand
    unfolding count by (simp add: paged_session_def conn_ready_for_def header_zero_def) 
qed

section \<open>Finished operations\<close>

definition done_list :: "'w rbp_server \<Rightarrow> op_result list" where
  "done_list s = ring_items (s_ops_done s) (s_ops_done_head s) (s_ops_done_count s)"

definition op_done :: "u32 \<Rightarrow> u16 \<Rightarrow> u32 \<Rightarrow> u32 \<Rightarrow> bool \<Rightarrow> op_result" where
  "op_done op_id result peer conn uncertain = \<lparr>od_used = True, od_op_id = op_id, od_result = result,
     od_peer_id = peer, od_connection_id = conn, od_uncertain = uncertain\<rparr>"

lemma find_ring:
  "find (\<lambda>i. P (buf ! ((h + i) mod length buf))) [0..<n] = None \<longleftrightarrow> find P (ring_items buf h n) = None"
  "find (\<lambda>i. P (buf ! ((h + i) mod length buf))) [0..<n] = Some i \<Longrightarrow>
     find P (ring_items buf h n) = Some (buf ! ((h + i) mod length buf))"
  by (auto simp: ring_items_def find_None_iff find_Some_iff)

definition last_results :: "op_result list \<Rightarrow> op_result list" where
  "last_results l = drop (length l - RBP_MAX_OPERATION_RESULTS) l"

lemma done_list_push:
  assumes "ring_ok RBP_MAX_OPERATION_RESULTS buf h n" and "i = (h + n) mod RBP_MAX_OPERATION_RESULTS"
  shows "ring_items (buf[i := r]) (if n < RBP_MAX_OPERATION_RESULTS then h else (h + 1) mod RBP_MAX_OPERATION_RESULTS)
      (if n < RBP_MAX_OPERATION_RESULTS then n + 1 else n) = last_results (ring_items buf h n @ [r])"
proof (cases "n < RBP_MAX_OPERATION_RESULTS")
  case True
  then show ?thesis
    using ring_items_push [of n buf h r] assms by (simp add: ring_ok_def last_results_def)
next
  case False
  then have n: "n = RBP_MAX_OPERATION_RESULTS" "length buf = RBP_MAX_OPERATION_RESULTS" "h < RBP_MAX_OPERATION_RESULTS"
    using assms(1) by (simp_all add: ring_ok_def)
  have "ring_items (buf[h := r]) ((h + 1) mod length buf) (length buf) = tl (ring_items buf h (length buf)) @ [r]"
    using ring_items_overwrite [of buf 3 h r] ring_items_mod [of "buf[h := r]" "Suc h" "length buf"] n by simp
  moreover have "last_results (ring_items buf h 4 @ [r]) = tl (ring_items buf h 4) @ [r]"
    by (simp add: last_results_def drop_Suc)
  ultimately show ?thesis
    using n assms(2) by simp
qed

lemma ctl_enqueue_done:
  "ctl_enqueue E k op st rq cn p s = session_teardown E (s\<lparr>s_stat_protocol_errors := s_stat_protocol_errors s + 1\<rparr>)
   \<or> done_list (ctl_enqueue E k op st rq cn p s) = done_list s"
  by (auto simp: ctl_enqueue_def done_list_def next_order_def Let_def split: option.split)

context server_wiring
begin

lemma op_complete_done:
  assumes "srv_inv E s" and "s_session_active (op_complete E op_id result peer conn unc s)"
  shows "done_list (op_complete E op_id result peer conn unc s)
    = last_results (done_list s @ [op_done op_id result peer conn unc])"
proof -
  let ?i = "(s_ops_done_head s + s_ops_done_count s) mod RBP_MAX_OPERATION_RESULTS"
  let ?full = "\<not> s_ops_done_count s < RBP_MAX_OPERATION_RESULTS"
  define t where "t = s\<lparr>s_ops_done_count := (if ?full then s_ops_done_count s else s_ops_done_count s + 1),
    s_ops_done_head := (if ?full then (s_ops_done_head s + 1) mod RBP_MAX_OPERATION_RESULTS else s_ops_done_head s),
    s_ops_done := (s_ops_done s)[?i := op_done op_id result peer conn unc]\<rparr>"
  have e: "op_complete E op_id result peer conn unc s = ctl_enqueue E RBP_KIND_EVENT RBP_OP_OPERATION_EV 0 0 conn
      (tlv_build [(1, TV_u32 op_id), (2, TV_u8 RBP_OPSTATE_COMPLETED), (3, TV_u16 result),
                       (4, TV_u32 peer), (5, TV_u32 conn), (6, TV_bool unc)]) t"
    by (cases ?full) (simp_all add: op_complete_def t_def op_done_def Let_def)
  have "ring_ok RBP_MAX_OPERATION_RESULTS (s_ops_done s) (s_ops_done_head s) (s_ops_done_count s)"
    using assms(1) by (rule srv_invD)
  then have t: "done_list t = last_results (done_list s @ [op_done op_id result peer conn unc])"
    and ok: "ring_ok RBP_MAX_OPERATION_RESULTS (s_ops_done t) (s_ops_done_head t) (s_ops_done_count t)"
    using done_list_push [of "s_ops_done s" "s_ops_done_head s" "s_ops_done_count s"]
    by (auto simp: t_def done_list_def ring_ok_def)
  have "srv_at E True (s_session_counter s) (t\<lparr>s_stat_protocol_errors := n\<rparr>)" for n
    using assms(1) ok by (simp add: t_def srv_at_def srv_inv_def)
  note session_teardown_False [OF this]
  then have "\<not> s_session_active (session_teardown E (t\<lparr>s_stat_protocol_errors := n\<rparr>))" for n
    by (simp add: srv_at_def)
  then show ?thesis
    using ctl_enqueue_done [of E _ _ _ _ _ _ t] assms(2) t unfolding e by metis
qed

end

text \<open>Finished operations stay queryable. While the session lasts, the server keeps the results of the last
  four operations in order: completing one appends its result and drops the oldest when there are
  more. A query for an operation that is not running is answered from the first result with its
  number, or with \<open>NOT_FOUND\<close>.\<close>

theorem operation_results:
  assumes "server_wiring E" and "srv_inv E s" and "s' = op_complete E op_id result peer conn unc s"
    and "s_session_active s'"
  shows "done_list s' = last_results (done_list s @ [op_done op_id result peer conn unc])
    \<and> (rbp_tlv_get_u32 rd 1 = Inr (Some q) \<and> \<not> (s_op_active s' \<and> s_op_id s' = q) \<longrightarrow>
         req_get_operation E h rd s' =
           (case find (\<lambda>r. od_op_id r = q) (done_list s') of
              Some r \<Rightarrow> respond_ok E h [(1, TV_u32 q), (2, TV_u8 RBP_OPSTATE_COMPLETED),
                      (3, TV_u16 (od_result r)), (4, TV_u32 (od_peer_id r)),
                      (5, TV_u32 (od_connection_id r)), (6, TV_bool (od_uncertain r))] s'
            | None \<Rightarrow> respond_error E h RBP_STATUS_NOT_FOUND None False s'))"
proof
  show "done_list s' = last_results (done_list s @ [op_done op_id result peer conn unc])"
    using server_wiring.op_complete_done [OF assms(1,2)] assms(3,4) by simp
  have at: "srv_at E True (s_session_counter s) s"
    using assms(2) by (simp add: srv_at_def)
  have "srv_inv E s'"
    using server_wiring.op_complete_at [OF assms(1) at] assms(3) by (simp add: srv_at_def)
  then have "length (s_ops_done s') = RBP_MAX_OPERATION_RESULTS"
    by (simp add: srv_inv_def ring_ok_def)
  then show "rbp_tlv_get_u32 rd 1 = Inr (Some q) \<and> \<not> (s_op_active s' \<and> s_op_id s' = q) \<longrightarrow>
         req_get_operation E h rd s' =
           (case find (\<lambda>r. od_op_id r = q) (done_list s') of
              Some r \<Rightarrow> respond_ok E h [(1, TV_u32 q), (2, TV_u8 RBP_OPSTATE_COMPLETED),
                      (3, TV_u16 (od_result r)), (4, TV_u32 (od_peer_id r)),
                      (5, TV_u32 (od_connection_id r)), (6, TV_bool (od_uncertain r))] s'
            | None \<Rightarrow> respond_error E h RBP_STATUS_NOT_FOUND None False s')"
    using find_ring [of "\<lambda>r. od_op_id r = q" "s_ops_done s'" "s_ops_done_head s'" "s_ops_done_count s'"]
    by (auto simp: req_get_operation_def done_list_def Let_def split: option.split)
qed

lemma demo_session_ops [simp]:
  "s_ops_done demo_session = replicate RBP_MAX_OPERATION_RESULTS op_zero" "s_ops_done_head demo_session = 0"
  "s_ops_done_count demo_session = 0" "CTL_BYTES bridge_env = 1536"
  by (simp_all add: demo_session_def demo_init_def rbp_server_init_def server_zero_def bridge_env_def
      bridge_load_def demo_world_def Let_def)

theorem operation_results_witness:
  "done_list (op_complete bridge_env 9 RBP_STATUS_OK 3 0 False demo_session) = [op_done 9 RBP_STATUS_OK 3 0 False]"
proof -
  have "length (tlv_build [(1, TV_u32 9), (2, TV_u8 RBP_OPSTATE_COMPLETED), (3, TV_u16 RBP_STATUS_OK),
        (4, TV_u32 3), (5, TV_u32 0), (6, TV_bool False)]) \<le> 512"
    using tlv_build_le by simp
  then have "s_session_active (op_complete bridge_env 9 RBP_STATUS_OK 3 0 False demo_session)"
    by (simp add: op_complete_def ctl_enqueue_def ctl_slot_zero_def upt_rec next_order_def Let_def)
  from operation_results [OF bridge.server_wiring_axioms demo_session_inv refl this]
  show ?thesis by (simp add: done_list_def last_results_def)
qed

end
