(* ===== verification/Server_Audio_Facts.thy ===== *)
theory Server_Audio_Facts
  imports Server_World
begin

text \<open>
  The audio path: a unit of encoded audio is queued as fragments of at most 256 bytes, from whose
  headers a client puts the unit together again.
\<close>

section \<open>Fields of a data frame\<close>

lemma audio_put_le: "audio_put n k = le_bytes k n"
  by (induction n k rule: audio_put.induct) (simp_all add: le_bytes_Suc)

lemma audio_u32_le: "audio_u32 (a # b # c # d # r) = le_word [a, b, c, d]"
  by (simp add: audio_u32_def push_bit_or ac_simps)

lemma le_bytes_ucast: "le_bytes 4 (ucast (x :: u32) :: u64) = le_bytes 4 x"
proof -
  have "ucast (drop_bit (8 * i) (ucast x :: u64)) = (ucast (drop_bit (8 * i) x) :: u8)" if "i < 4" for i
    using that by (intro bit_word_eqI) (auto simp: bit_simps)
  then show ?thesis by (simp add: le_bytes_def)
qed

lemma four_bytes: "length xs = 4 \<Longrightarrow> \<exists>a b c d. xs = [a, b, c, d]"
  by (auto simp: length_Suc_conv eval_nat_numeral)

lemma audio_u32_put [simp]: "audio_u32 (audio_put (ucast (x :: u32)) 4 @ r) = x"
proof -
  obtain a b c d where bs: "le_bytes 4 x = [a, b, c, d]"
    using four_bytes [of "le_bytes 4 x"] by auto
  have "audio_put (ucast x) 4 = le_bytes 4 x"
    by (simp add: audio_put_le le_bytes_ucast)
  then have "audio_u32 (audio_put (ucast x) 4 @ r) = le_word (le_bytes 4 x)"
    by (simp add: bs audio_u32_le)
  then show ?thesis by (simp add: le_roundtrip)
qed

text \<open>What a client reads of a data frame: sequence number, size of the unit, offset in it and the bytes.\<close>

definition frag_view :: "u8 list \<Rightarrow> u32 \<times> u32 \<times> u32 \<times> u8 list" where
  "frag_view p = (audio_u32 (drop 4 p), audio_u32 (drop 16 p), audio_u32 (drop 20 p), drop RBP_AUDIO_DATA_HEADER p)"

lemma payload_length: "length (voice_payload unit_len samples frag s) = RBP_AUDIO_DATA_HEADER + length frag"
  by (simp add: voice_payload_def audio_put_le)

lemma frag_view_payload:
  "frag_view (voice_payload unit_len samples frag s) = (s_frame_seq s + 1, unit_len, s_unit_offset s, frag)"
  by (simp add: frag_view_def voice_payload_def)

text \<open>The client: it accepts a fragment when it is the next frame and continues the unit.\<close>

fun put_together :: "u32 \<Rightarrow> u32 \<Rightarrow> u32 \<Rightarrow> (u32 \<times> u32 \<times> u32 \<times> u8 list) list \<Rightarrow> u8 list option" where
  "put_together unit_len seq off [] = Some []"
| "put_together unit_len seq off ((q, u, pos, d) # fs) =
     (if q = seq + 1 \<and> u = unit_len \<and> pos = off
      then map_option ((@) d) (put_together unit_len q (off + word_of_nat (length d)) fs) else None)"

definition n_frags :: "nat \<Rightarrow> nat" where
  "n_frags n = (n + 255) div 256"

lemma n_frags_step: "0 < n \<Longrightarrow> n_frags n = Suc (n_frags (n - 256))"
  by (cases "n \<le> 256") (auto simp: n_frags_def div_eq_0_iff le_Suc_ex dest: le_Suc_ex)

section \<open>Queueing a unit\<close>

text \<open>The queue has room: neither the markers nor the audio pool run out, so nothing is flushed.\<close>

definition media_room :: "'w server_env \<Rightarrow> nat \<Rightarrow> 'w rbp_server \<Rightarrow> bool" where
  "media_room E n s \<longleftrightarrow> s_media_count s + n_frags n \<le> MEDIA_DEPTH E
     \<and> s_audio_len s + n + RBP_AUDIO_DATA_HEADER * n_frags n \<le> AUDIO_POOL_SIZE E"

lemma media_enqueue_room:
  assumes "media_inv E s" and "s_session_active s" and "s_media_count s < MEDIA_DEPTH E"
    and "s_audio_len s + length p \<le> AUDIO_POOL_SIZE E" and "length p \<le> RBP_MAX_PAYLOAD"
    and "op = RBP_OP_VOICE_DATA" and "RBP_AUDIO_DATA_HEADER \<le> length p"
  obtains q pool al m where "media_enqueue E op p s = (True, s\<lparr>s_order_counter := s_order_counter s + 1,
      s_media_q := q, s_audio_pool := pool, s_audio_len := al, s_media_count := s_media_count s + 1\<rparr>)"
    and "al = s_audio_len s + length p"
    and "media_inv E (snd (media_enqueue E op p s))"
    and "media_frames (snd (media_enqueue E op p s)) = media_frames s @ [(m, p)]"
proof -
  let ?i = "(s_media_head s + s_media_count s) mod MEDIA_DEPTH E"
  define m where "m = \<lparr>mm_stream = s_stream_id s, mm_connection = s_stream_connection s,
    mm_order = s_order_counter s + 1, mm_opcode = op, mm_len = length p\<rparr>"
  have q: "mediaq_ok (MEDIA_DEPTH E) (AUDIO_POOL_SIZE E) (s_media_q s) (s_media_head s) (s_media_count s)
      (s_audio_pool s) (s_audio_head s) (s_audio_len s)"
    using assms(1) by (simp add: media_inv_def)
  obtain b pool al where w: "ring_write (s_audio_pool s) (AUDIO_POOL_SIZE E) (s_audio_head s) (s_audio_len s) p = (b, pool, al)"
    by (metis prod_cases3)
  have room: "length p \<le> AUDIO_POOL_SIZE E - s_audio_len s" using assms(4) by linarith
  have m: "mm_len m = length p" "media_ok m"
    using assms(5-7) by (auto simp: m_def media_ok_def)
  note push = media_push_ok [OF q assms(3) room w m]
  have al: "al = s_audio_len s + length p"
    using ring_write_ok(2) [OF _ room w] q by (simp add: mediaq_ok_def)
  have e: "media_enqueue E op p s = (True, s\<lparr>s_order_counter := s_order_counter s + 1,
      s_media_q := (s_media_q s)[?i := m], s_audio_pool := pool, s_audio_len := al,
      s_media_count := s_media_count s + 1\<rparr>)"
    using assms(2,3) room w by (simp add: media_enqueue_def next_order_def m_def)
  show thesis
    by (rule that [OF e al]) (use push in \<open>simp_all add: e media_inv_def media_frames_def\<close>)
qed

text \<open>How far the stream is after \<open>n\<close> bytes of a unit.\<close>

definition unit_progress :: "u32 \<Rightarrow> nat \<Rightarrow> 'w rbp_server \<Rightarrow> 'w rbp_server \<Rightarrow> bool" where
  "unit_progress unit_len n s s' \<longleftrightarrow>
     (if unat (s_unit_offset s) + n = unat unit_len
      then s_unit_offset s' = 0 \<and> s_source_units s' = s_source_units s + 1
      else s_unit_offset s' = s_unit_offset s + word_of_nat n \<and> s_source_units s' = s_source_units s)"

lemma offset_reached:
  assumes "unat off + n \<le> unat (u :: u32)"
  shows "unat (off + word_of_nat n) = unat off + n" and "off + word_of_nat n = u \<longleftrightarrow> unat off + n = unat u"
proof -
  have "unat u < 2 ^ LENGTH(32)" by (rule unsigned_less)
  then have "unat off + n < 2 ^ 32" using assms by simp
  then show u: "unat (off + word_of_nat n) = unat off + n"
    by (simp add: unat_word_ariths(1) unat_of_nat take_bit_nat_eq_self)
  then show "off + word_of_nat n = u \<longleftrightarrow> unat off + n = unat u"
    by (simp add: word_unat_eq_iff)
qed

lemma voice_advance_progress:
  assumes "unat (s_unit_offset s) + n \<le> unat unit_len"
  shows "unit_progress unit_len n s (voice_advance unit_len samples n s)"
    and "s_frame_seq (voice_advance unit_len samples n s) = s_frame_seq s + 1"
  using offset_reached [OF assms] by (simp_all add: unit_progress_def voice_advance_def Let_def)

lemma voice_advance_keeps [simp]:
  "media_inv E (voice_advance u k n s) = media_inv E s" "media_frames (voice_advance u k n s) = media_frames s"
  "s_session_active (voice_advance u k n s) = s_session_active s" "s_delivering (voice_advance u k n s) = s_delivering s"
  "s_media_count (voice_advance u k n s) = s_media_count s" "s_audio_len (voice_advance u k n s) = s_audio_len s"
  by (simp_all add: voice_advance_def media_inv_def media_frames_def Let_def)

lemma encoded_loop_frags:
  assumes "media_inv E s" and "s_session_active s" and "s_delivering s" and "bytes \<noteq> []"
    and "media_room E (length bytes) s" and "unat (s_frame_seq s) + n_frags (length bytes) < 2 ^ 32 - 1"
    and "unat (s_unit_offset s) + length bytes \<le> unat unit_len"
  shows "\<exists>ps. map snd (media_frames (encoded_loop E unit_len samples bytes s)) = map snd (media_frames s) @ ps
    \<and> (\<forall>p \<in> set ps. length p \<le> RBP_AUDIO_DATA_HEADER + 256)
    \<and> put_together unit_len (s_frame_seq s) (s_unit_offset s) (map frag_view ps) = Some bytes
    \<and> unit_progress unit_len (length bytes) s (encoded_loop E unit_len samples bytes s)"
  using assms
proof (induction "length bytes" arbitrary: bytes s rule: less_induct)
  case less
  let ?frag = "take 256 bytes" and ?rest = "drop 256 bytes"
  let ?p = "voice_payload unit_len samples ?frag s"
  have lp: "length ?p = 40 + length ?frag" by (simp add: payload_length)
  have nf: "n_frags (length bytes) = Suc (n_frags (length bytes - 256))"
    using less.prems(4) by (intro n_frags_step) simp
  have room: "s_media_count s < MEDIA_DEPTH E" "s_audio_len s + length ?p \<le> AUDIO_POOL_SIZE E" "length ?p \<le> 512" "40 \<le> length ?p"
    using less.prems(5) by (auto simp: media_room_def nf lp min_def)
  obtain q pool al m where e: "media_enqueue E RBP_OP_VOICE_DATA ?p s = (True, s\<lparr>s_order_counter := s_order_counter s + 1,
      s_media_q := q, s_audio_pool := pool, s_audio_len := al, s_media_count := s_media_count s + 1\<rparr>)"
    and al: "al = s_audio_len s + length ?p" and mi: "media_inv E (snd (media_enqueue E RBP_OP_VOICE_DATA ?p s))"
    and mf: "media_frames (snd (media_enqueue E RBP_OP_VOICE_DATA ?p s)) = media_frames s @ [(m, ?p)]"
    by (rule media_enqueue_room [OF less.prems(1,2) room(1,2,3) refl room(4)])
  define s1 where "s1 = snd (media_enqueue E RBP_OP_VOICE_DATA ?p s)"
  have s1: "media_inv E s1" "media_frames s1 = media_frames s @ [(m, ?p)]" "s_session_active s1" "s_delivering s1"
      "s_frame_seq s1 = s_frame_seq s" "s_unit_offset s1 = s_unit_offset s" "s_source_units s1 = s_source_units s"
      "s_media_count s1 = s_media_count s + 1" "s_audio_len s1 = s_audio_len s + length ?p"
    using mi mf less.prems(2,3) by (simp_all add: s1_def e al)
  define t where "t = voice_advance unit_len samples (length ?frag) s1"
  have t: "unit_progress unit_len (length ?frag) s1 t" "s_frame_seq t = s_frame_seq s + 1"
    using voice_advance_progress [of s1 "length ?frag" unit_len samples] less.prems(7) s1(5,6)
    by (auto simp: t_def min_def)
  have "s_frame_seq s \<noteq> UINT32_MAX" using less.prems(6) nf by auto
  then have loop: "encoded_loop E unit_len samples bytes s = encoded_loop E unit_len samples ?rest t"
    using less.prems(3,4) by (subst encoded_loop.simps) (simp add: t_def s1_def e)
  have mt: "map snd (media_frames t) = map snd (media_frames s) @ [?p]" by (simp add: t_def s1)
  show ?case
  proof (cases "?rest = []")
    case True
    then have "?frag = bytes" by simp
    then show ?thesis
      using t(1) True mt unfolding loop
      by (intro exI [of _ "[?p]"]) (simp add: encoded_loop.simps frag_view_payload unit_progress_def s1 payload_length)
  next
    case False
    then have l: "length ?frag = 256" "256 < length bytes" by (auto simp: not_le)
    then have off: "s_unit_offset t = s_unit_offset s + 256" "s_source_units t = s_source_units s"
      using t(1) less.prems(7) s1(6,7) by (auto simp: unit_progress_def)
    have uoff: "unat (s_unit_offset s + 256) = unat (s_unit_offset s) + 256"
      using offset_reached(1) [of "s_unit_offset s" 256 unit_len] less.prems(7) l by simp
    have useq: "unat (s_frame_seq s + 1) = unat (s_frame_seq s) + 1"
      using less.prems(6) nf by (simp add: unat_word_ariths(1))
    have "\<exists>ps. map snd (media_frames (encoded_loop E unit_len samples ?rest t)) = map snd (media_frames t) @ ps
        \<and> (\<forall>p \<in> set ps. length p \<le> RBP_AUDIO_DATA_HEADER + 256)
        \<and> put_together unit_len (s_frame_seq t) (s_unit_offset t) (map frag_view ps) = Some ?rest
        \<and> unit_progress unit_len (length ?rest) t (encoded_loop E unit_len samples ?rest t)"
    proof (rule less.hyps)
      show "media_room E (length ?rest) t"
        using less.prems(5) l by (simp add: media_room_def t_def s1 nf lp)
      show "unat (s_frame_seq t) + n_frags (length ?rest) < 2 ^ 32 - 1"
        using less.prems(6) by (simp add: t(2) useq nf)
      show "unat (s_unit_offset t) + length ?rest \<le> unat unit_len"
        using less.prems(7) l by (simp add: off uoff)
    qed (use l False in \<open>simp_all add: t_def s1\<close>)
    then obtain ps where "map snd (media_frames (encoded_loop E unit_len samples ?rest t)) = map snd (media_frames t) @ ps"
      "\<forall>p \<in> set ps. length p \<le> RBP_AUDIO_DATA_HEADER + 256"
      "put_together unit_len (s_frame_seq t) (s_unit_offset t) (map frag_view ps) = Some ?rest"
      "unit_progress unit_len (length ?rest) t (encoded_loop E unit_len samples ?rest t)"
      by blast
    then show ?thesis
      using mt l t(2) off uoff append_take_drop_id [of 256 bytes] unfolding loop
      by (intro exI [of _ "?p # ps"]) (auto simp: frag_view_payload unit_progress_def payload_length)
  qed
qed

text \<open>C19: an encoded unit survives fragmentation. When the radio layer delivers the next part of a unit to a
  server that is sending a stream, and the media queue has room, the part is queued behind the frames
  already waiting as data frames of at most 256 audio bytes, numbered one after the other, each with
  the size of the unit and its offset in it; a client that checks number and offset puts the frames
  together to exactly these bytes. The stream is then at the end of the unit, or as far into it
  as bytes were delivered.\<close>

theorem voice_unit_fragments:
  assumes "srv_inv E s" and "s_source_active s" and "s_delivering s" and "\<not> s_ending s" and "data \<noteq> []"
    and "unit_len \<le> s_format_max_unit s" and "unat (s_unit_offset s) + length data \<le> unat unit_len"
    and "s_unit_offset s \<noteq> 0 \<longrightarrow> unit_len = s_unit_size s \<and> samples = s_unit_samples s"
    and "s_source_units s \<noteq> UINT32_MAX" and "media_room E (length data) s"
    and "unat (s_frame_seq s) + n_frags (length data) < 2 ^ 32 - 1"
    and "s' = rbp_server_on_voice E (RBP_VOICE_EVT_ENCODED (Some data) (length data) unit_len (s_unit_offset s) samples) now s"
  shows "\<exists>ps. map snd (media_frames s') = map snd (media_frames s) @ ps
    \<and> (\<forall>p \<in> set ps. length p \<le> RBP_AUDIO_DATA_HEADER + 256)
    \<and> put_together unit_len (s_frame_seq s) (s_unit_offset s) (map frag_view ps) = Some data
    \<and> unit_progress unit_len (length data) s s'"
proof -
  let ?s = "s\<lparr>s_now_ms := now, s_got_audio_this_stream := True, s_progress_deadline := now + VOICE_PROGRESS_MS,
    s_unit_size := unit_len, s_unit_samples := samples\<rparr>"
  have "length data \<noteq> 0" using assms(5) by simp
  then have off: "\<not> unit_len < s_unit_offset s" "\<not> unat (unit_len - s_unit_offset s) < length data" "unit_len \<noteq> 0"
    using assms(7) unat_sub [of "s_unit_offset s" unit_len] by (auto simp: word_less_nat_alt word_le_nat_alt)
  have s': "s' = encoded_loop E unit_len samples data ?s"
    using assms(2-6,8,9) off \<open>length data \<noteq> 0\<close> unfolding assms(12)
    by (cases "s_unit_offset s = 0") (simp_all add: rbp_server_on_voice_def voice_encoded_def Let_def not_less)
  have "media_inv E ?s" "s_session_active ?s" "media_room E (length data) ?s"
    using assms(1,3,10) srv_invD(4) [OF assms(1)] srv_invD(8) [OF assms(1)]
    by (auto simp: media_inv_def media_room_def sess_ok_def)
  from encoded_loop_frags [OF this(1,2) _ assms(5) this(3), of unit_len samples] assms(3,7,11)
  show ?thesis
    by (auto simp: s' unit_progress_def media_frames_def)
qed

text \<open>A server that is sending a stream.\<close>

definition demo_stream :: "bridge_world rbp_server" where
  "demo_stream = demo_session\<lparr>s_source_active := True, s_delivering := True, s_stream_id := 1,
     s_format_max_unit := 1000, s_unit_offset := 0, s_frame_seq := 0, s_source_units := 0, s_ending := False\<rparr>"

lemma demo_stream_inv: "srv_inv bridge_env demo_stream"
  using demo_session_inv by (auto simp: demo_stream_def srv_inv_def sess_ok_def)

theorem voice_unit_fragments_witness:
  "\<exists>ps. map snd (media_frames (rbp_server_on_voice bridge_env
      (RBP_VOICE_EVT_ENCODED (Some (replicate 300 7)) 300 300 0 160) 9 demo_stream)) = ps
    \<and> put_together 300 0 0 (map frag_view ps) = Some (replicate 300 7)"
proof -
  have "s_media_count demo_stream = 0" "s_audio_len demo_stream = 0" "s_media_head demo_stream = 0"
    by (simp_all add: demo_stream_def)
  then have room: "media_room bridge_env (length (replicate 300 (7 :: u8))) demo_stream" and e: "media_frames demo_stream = []"
    by (simp_all add: media_room_def n_frags_def bridge_env_def media_frames_def)
  have n: "unat (s_frame_seq demo_stream) + n_frags (length (replicate 300 (7 :: u8))) < 2 ^ 32 - 1"
    by (simp add: demo_stream_def n_frags_def)
  have f: "s_unit_offset demo_stream = 0" "s_frame_seq demo_stream = 0" by (simp_all add: demo_stream_def)
  show ?thesis
    using voice_unit_fragments [OF demo_stream_inv _ _ _ _ _ _ _ _ room n refl, of 300 160 9] e f
    by (auto simp: demo_stream_def)
qed

end
