(* ===== verification/Atvv.thy ===== *)
theory Atvv
  imports Defs Audio Faults
begin

text \<open>
  The ATVV 1.0 voice engine of the RC003 adapter (\<open>src/firmware/adapters/rc003/rc003_atvv.c\<close>,
  \<open>rc003_atvv.h\<close>): it parses the remote's control messages, runs the capture state machine, counts
  the frames of the encoded stream and reports voice events to the product server through a sink.

  The struct is the record \<open>rc003_atvv\<close>, with the fault log and the surroundings \<open>'w\<close> (GATT link and
  server) as further fields. The header promises that \<open>write_tx\<close> only submits, so it and \<open>want_voice\<close>
  work on the surroundings alone; an event callback may call back into \<open>rc003_atvv_request_stop\<close> or
  \<open>rc003_atvv_request_start\<close> before it returns (the server does so when it drops a stream) and works
  on the whole state. A message is the list of its bytes, a null pointer the empty list.
\<close>

abbreviation (input) ATVV_MAX_FRAME :: nat where "ATVV_MAX_FRAME \<equiv> 512"
abbreviation (input) ATVV_OPEN_WAIT_MS :: u32 where "ATVV_OPEN_WAIT_MS \<equiv> 5000"

abbreviation (input) ATVV_AUDIO_STOP :: u8 where "ATVV_AUDIO_STOP \<equiv> 0x00"
abbreviation (input) ATVV_AUDIO_START :: u8 where "ATVV_AUDIO_START \<equiv> 0x04"
abbreviation (input) ATVV_START_SEARCH :: u8 where "ATVV_START_SEARCH \<equiv> 0x08"
abbreviation (input) ATVV_AUDIO_SYNC :: u8 where "ATVV_AUDIO_SYNC \<equiv> 0x0A"
abbreviation (input) ATVV_CAPS_RESP :: u8 where "ATVV_CAPS_RESP \<equiv> 0x0B"
abbreviation (input) ATVV_MIC_OPEN_ERROR :: u8 where "ATVV_MIC_OPEN_ERROR \<equiv> 0x0C"
abbreviation (input) ATVV_MIC_OPEN :: u8 where "ATVV_MIC_OPEN \<equiv> 0x0C"
abbreviation (input) ATVV_MIC_CLOSE :: u8 where "ATVV_MIC_CLOSE \<equiv> 0x0D"
abbreviation (input) ATVV_MIC_EXTEND :: u8 where "ATVV_MIC_EXTEND \<equiv> 0x0E"
abbreviation (input) ATVV_ERR_BUSY :: u16 where "ATVV_ERR_BUSY \<equiv> 0x0F80"

abbreviation (input) RBP_FAULT_ATVV :: u16 where "RBP_FAULT_ATVV \<equiv> 6"

section \<open>Data\<close>

record atvv_caps =
  cap_version_hi :: u8
  cap_version_lo :: u8
  cap_codecs :: u8
  cap_interaction :: u8
  cap_frame_size :: u16
  cap_request_dle :: bool

definition atvv_caps_zero :: atvv_caps where
  "atvv_caps_zero = \<lparr>cap_version_hi = 0, cap_version_lo = 0, cap_codecs = 0, cap_interaction = 0,
     cap_frame_size = 0, cap_request_dle = False\<rparr>"

record 'w rc003_atvv =
  caps_valid :: bool
  atvv_caps :: atvv_caps
  atvv_rate :: u32
  announced :: bool
  codec_config :: "u8 list"
  stream_active :: bool
  remote_stream_id :: u8
  frame_bytes :: u16
  failed :: bool
  closing :: bool
  open_pending :: bool
  open_queued :: bool
  close_queued :: bool
  last_extend_ms :: u32
  open_deadline_ms :: u32
  frame_no :: u16
  decoder_ready :: bool
  saw_sync :: bool
  last_audio_ms :: u32
  atvv_now_ms :: u32
  profile_init_without_sync :: bool
  atvv_faults :: fault_state
  env :: 'w

text \<open>The sink. \<open>write_tx\<close> and \<open>want_voice\<close> are the part that the two requests use. The callbacks the
  code calls without a null check are always there.\<close>

record 'w atvv_port =
  write_tx :: "u8 list \<Rightarrow> 'w \<Rightarrow> bool \<times> 'w"
  want_voice :: "('w \<Rightarrow> bool) option"

record 'w atvv_sink = "'w atvv_port" +
  on_source_begin :: "('w rc003_atvv \<Rightarrow> 'w rc003_atvv) option"
  on_started :: "rbp_audio_format \<Rightarrow> 'w rc003_atvv \<Rightarrow> 'w rc003_atvv"
  on_encoded :: "u8 list \<Rightarrow> 'w rc003_atvv \<Rightarrow> 'w rc003_atvv"
  on_format :: "rbp_audio_format \<Rightarrow> 'w rc003_atvv \<Rightarrow> 'w rc003_atvv"
  on_ended :: "u8 \<Rightarrow> 'w rc003_atvv \<Rightarrow> 'w rc003_atvv"
  on_fault :: "(u8 \<Rightarrow> 'w rc003_atvv \<Rightarrow> 'w rc003_atvv) option"

text \<open>The struct cleared by \<open>memset\<close>; the log and the surroundings are not part of it.\<close>

definition rc003_atvv_init :: "fault_state \<Rightarrow> 'w \<Rightarrow> 'w rc003_atvv" where
  "rc003_atvv_init fl w =
     \<lparr>caps_valid = False, atvv_caps = atvv_caps_zero, atvv_rate = 0, announced = False,
      codec_config = replicate 4 0, stream_active = False, remote_stream_id = 0, frame_bytes = 0,
      failed = False, closing = False, open_pending = False, open_queued = False,
      close_queued = False, last_extend_ms = 0, open_deadline_ms = 0, frame_no = 0,
      decoder_ready = False, saw_sync = False, last_audio_ms = 0, atvv_now_ms = 0,
      profile_init_without_sync = False, atvv_faults = fl, env = w\<rparr>"

section \<open>Messages\<close>

definition atvv_build_get_caps :: "u8 list" where
  "atvv_build_get_caps = [0x0A, 0x01, 0x00, 0x00, 0x03, 0x03]"

definition atvv_build_mic_open :: "u8 list" where
  "atvv_build_mic_open = [ATVV_MIC_OPEN, 0x01]"

definition atvv_build_mic_close :: "u8 \<Rightarrow> u8 list" where
  "atvv_build_mic_close stream_id = [ATVV_MIC_CLOSE, stream_id]"

definition atvv_build_mic_extend :: "u8 \<Rightarrow> u8 list" where
  "atvv_build_mic_extend stream_id = [ATVV_MIC_EXTEND, stream_id]"

text \<open>Two bytes of a message, big endian.\<close>

definition be16 :: "u8 \<Rightarrow> u8 \<Rightarrow> u16" where
  "be16 hi lo = push_bit 8 (ucast hi) OR ucast lo"

definition atvv_parse_caps :: "u8 list \<Rightarrow> atvv_caps option" where
  "atvv_parse_caps d =
     (if length d < 9 \<or> d ! 0 \<noteq> ATVV_CAPS_RESP \<or> d ! 1 \<noteq> 1 \<or> d ! 2 \<noteq> 0 then None
      else let size = be16 (d ! 5) (d ! 6) in
        if d ! 3 = 0 \<or> d ! 3 AND NOT 3 \<noteq> 0 \<or> (d ! 4 \<noteq> 0 \<and> d ! 4 \<noteq> 1 \<and> d ! 4 \<noteq> 3)
           \<or> size = 0 \<or> unat size > ATVV_MAX_FRAME \<or> d ! 7 AND NOT 1 \<noteq> 0 \<or> d ! 8 \<noteq> 0 then None
        else Some (atvv_caps_zero\<lparr>cap_version_hi := 1, cap_codecs := d ! 3,
                     cap_interaction := d ! 4, cap_frame_size := size,
                     cap_request_dle := (d ! 7 AND 1 \<noteq> 0)\<rparr>))"

definition codec_to_rate :: "u8 \<Rightarrow> u32" where
  "codec_to_rate c = (if c = 1 then 8000 else if c = 2 then 16000 else 0)"

section \<open>Requests\<close>

definition record_atvv :: "u16 \<Rightarrow> u32 \<Rightarrow> u32 \<Rightarrow> 'w rc003_atvv \<Rightarrow> 'w rc003_atvv" where
  "record_atvv stage code ctxt a =
     a\<lparr>atvv_faults := rbp_fault_record RBP_FAULT_ATVV stage code ctxt (atvv_faults a)\<rparr>"

definition send_tx ::
    "('w, 'z) atvv_port_scheme \<Rightarrow> u8 list \<Rightarrow> 'w rc003_atvv \<Rightarrow> bool \<times> 'w rc003_atvv" where
  "send_tx snk cmd a = (let (ok, w) = write_tx snk cmd (env a) in (ok, a\<lparr>env := w\<rparr>))"

definition rc003_atvv_request_stop ::
    "('w, 'z) atvv_port_scheme \<Rightarrow> 'w rc003_atvv \<Rightarrow> bool \<times> 'w rc003_atvv" where
  "rc003_atvv_request_stop snk a =
     (if open_pending a \<and> \<not> stream_active a then
        (True, if open_queued a then a\<lparr>open_queued := False, open_pending := False\<rparr>
               else a\<lparr>closing := True\<rparr>)
      else if \<not> stream_active a then (False, a)
      else if closing a then (True, a)
      else
        let (ok, a1) = send_tx snk (atvv_build_mic_close (remote_stream_id a)) a in
        if ok then (True, a1\<lparr>closing := True, close_queued := False\<rparr>)
        else (False, a1\<lparr>open_deadline_ms := (if close_queued a1 then open_deadline_ms a1
                                             else atvv_now_ms a1 + 1000),
                        close_queued := True\<rparr>))"

definition rc003_atvv_request_start ::
    "('w, 'z) atvv_port_scheme \<Rightarrow> 'w rc003_atvv \<Rightarrow> bool \<times> 'w rc003_atvv" where
  "rc003_atvv_request_start snk a =
     (if \<not> caps_valid a \<or> stream_active a \<or> open_pending a
         \<or> (case want_voice snk of None \<Rightarrow> True | Some wv \<Rightarrow> \<not> wv (env a))
      then (False, a)
      else
        let (ok, a1) = send_tx snk atvv_build_mic_open a in
        (True, a1\<lparr>open_queued := \<not> ok, open_pending := True, closing := False,
                  open_deadline_ms := atvv_now_ms a1 + ATVV_OPEN_WAIT_MS\<rparr>))"

section \<open>Events\<close>

definition fault :: "'w atvv_sink \<Rightarrow> u8 \<Rightarrow> 'w rc003_atvv \<Rightarrow> 'w rc003_atvv" where
  "fault snk reason a =
     (let a = record_atvv 1 (ucast reason) (ucast (frame_no a)) a in
      if failed a then a
      else
        let a = a\<lparr>failed := True, decoder_ready := False\<rparr>;
            a = (case on_fault snk of Some f \<Rightarrow> f reason a | None \<Rightarrow> on_ended snk reason a)
        in snd (rc003_atvv_request_stop snk a))"

definition atvv_format :: "'w rc003_atvv \<Rightarrow> rbp_audio_format" where
  "atvv_format a = \<lparr>af_codec_id = RBP_CODEC_IMA_HI, af_sample_rate = atvv_rate a,
     af_max_unit_bytes = of_nat ATVV_MAX_FRAME, af_codec_revision = 1, af_config_len = 4,
     af_channels = 1, af_config = Some (codec_config a)\<rparr>"

definition announce_format :: "'w atvv_sink \<Rightarrow> 'w rc003_atvv \<Rightarrow> 'w rc003_atvv" where
  "announce_format snk a =
     (if announced a then on_format snk (atvv_format a) a
      else on_started snk (atvv_format a) (a\<lparr>announced := True\<rparr>))"

text \<open>One definition per case of the \<open>switch\<close> of \<open>rc003_atvv_on_control\<close>.\<close>

definition control_caps :: "u8 list \<Rightarrow> 'w rc003_atvv \<Rightarrow> bool \<times> 'w rc003_atvv" where
  "control_caps d a =
     (if stream_active a then (False, a)
      else case atvv_parse_caps d of
        None \<Rightarrow> (False, a)
      | Some c \<Rightarrow> (True, a\<lparr>atvv_caps := c, caps_valid := True,
                           atvv_rate := (if cap_codecs c AND 2 \<noteq> 0 then 16000 else 8000)\<rparr>))"

definition start_refused :: "u8 list \<Rightarrow> 'w rc003_atvv \<Rightarrow> bool" where
  "start_refused d a \<longleftrightarrow>
     length d \<noteq> 4 \<or> \<not> caps_valid a \<or> codec_to_rate (d ! 2) = 0
     \<or> cap_codecs (atvv_caps a) AND d ! 2 = 0
     \<or> (d ! 1 \<noteq> 0 \<and> d ! 1 \<noteq> 1 \<and> d ! 1 \<noteq> 3)
     \<or> (if d ! 1 = 0 then d ! 3 \<noteq> 0 else d ! 3 = 0 \<or> d ! 3 > 0x80)
     \<or> (d ! 1 \<noteq> 0 \<and> d ! 1 \<noteq> cap_interaction (atvv_caps a))"

definition start_stream :: "u8 list \<Rightarrow> 'w rc003_atvv \<Rightarrow> 'w rc003_atvv" where
  "start_stream d a =
     a\<lparr>stream_active := True, remote_stream_id := d ! 3, frame_no := 0, frame_bytes := 0,
       atvv_rate := codec_to_rate (d ! 2), decoder_ready := False, saw_sync := False,
       failed := False, closing := False, open_pending := False, open_queued := False,
       close_queued := False, last_audio_ms := atvv_now_ms a, last_extend_ms := atvv_now_ms a,
       announced := False\<rparr>"

definition control_start :: "'w atvv_sink \<Rightarrow> u8 list \<Rightarrow> 'w rc003_atvv \<Rightarrow> bool \<times> 'w rc003_atvv" where
  "control_start snk d a =
     (if stream_active a then (False, fault snk RBP_END_SOURCE_DATA_LOST a)
      else if start_refused d a then (False, a)
      else
        let stop_after_open = closing a \<and> open_pending a;
            a = start_stream d a;
            a = (case on_source_begin snk of Some f \<Rightarrow> f a | None \<Rightarrow> a);
            a = (if profile_init_without_sync a
                 then announce_format snk (a\<lparr>codec_config := replicate 4 0, decoder_ready := True\<rparr>)
                 else a)
        in (True, if stop_after_open then snd (rc003_atvv_request_stop snk a) else a))"

definition control_sync :: "'w atvv_sink \<Rightarrow> u8 list \<Rightarrow> 'w rc003_atvv \<Rightarrow> bool \<times> 'w rc003_atvv" where
  "control_sync snk d a =
     (if \<not> stream_active a \<or> failed a then (False, a)
      else if length d \<noteq> 7 \<or> codec_to_rate (d ! 1) = 0 \<or> cap_codecs (atvv_caps a) AND d ! 1 = 0
              \<or> d ! 6 > 88
      then (False, fault snk RBP_END_INVALID_ENCODED_DATA a)
      else if be16 (d ! 2) (d ! 3) \<noteq> frame_no a \<or> frame_bytes a \<noteq> 0
      then (False, fault snk RBP_END_SOURCE_DATA_LOST a)
      else (True, announce_format snk
              (a\<lparr>codec_config := [d ! 5, d ! 4, d ! 6, 0], decoder_ready := True, saw_sync := True,
                 atvv_rate := codec_to_rate (d ! 1)\<rparr>)))"

definition control_stop :: "'w atvv_sink \<Rightarrow> u8 list \<Rightarrow> 'w rc003_atvv \<Rightarrow> bool \<times> 'w rc003_atvv" where
  "control_stop snk d a =
     (if length d \<noteq> 2 \<or> \<not> stream_active a then (False, a)
      else
        let reason = (if d ! 1 = 0 \<or> d ! 1 = 2 \<or> d ! 1 = 4 then RBP_END_NORMAL
                      else RBP_END_DEVICE_ERROR);
            a = (if reason \<noteq> RBP_END_NORMAL
                 then record_atvv (ucast ATVV_AUDIO_STOP) (ucast (d ! 1)) 0 a else a);
            a = a\<lparr>stream_active := False, decoder_ready := False, closing := False,
                  close_queued := False\<rparr>
        in (True, on_ended snk reason a))"

definition report_fault :: "'w atvv_sink \<Rightarrow> u8 \<Rightarrow> 'w rc003_atvv \<Rightarrow> 'w rc003_atvv" where
  "report_fault snk reason a = (case on_fault snk of Some f \<Rightarrow> f reason a | None \<Rightarrow> a)"

definition control_open_error ::
    "'w atvv_sink \<Rightarrow> u8 list \<Rightarrow> 'w rc003_atvv \<Rightarrow> bool \<times> 'w rc003_atvv" where
  "control_open_error snk d a =
     (if length d \<noteq> 3 then (False, a)
      else
        let code = be16 (d ! 1) (d ! 2);
            a = (if code \<noteq> ATVV_ERR_BUSY
                 then record_atvv (ucast ATVV_MIC_OPEN_ERROR) (ucast code)
                        (if stream_active a then 1 else 0) a
                 else a)
        in (True,
            if open_pending a \<and> \<not> stream_active a then
              let a = a\<lparr>open_queued := False\<rparr> in
              if code = ATVV_ERR_BUSY then a
              else report_fault snk RBP_END_DEVICE_ERROR (a\<lparr>open_pending := False, closing := False\<rparr>)
            else
              let a = a\<lparr>open_pending := False, open_queued := False, closing := False\<rparr> in
              if stream_active a \<and> code \<noteq> ATVV_ERR_BUSY then fault snk RBP_END_DEVICE_ERROR a
              else a))"

definition rc003_atvv_on_control ::
    "'w atvv_sink \<Rightarrow> u8 list \<Rightarrow> 'w rc003_atvv \<Rightarrow> bool \<times> 'w rc003_atvv" where
  "rc003_atvv_on_control snk d a =
     (if d = [] then (False, a)
      else if d ! 0 = ATVV_CAPS_RESP then control_caps d a
      else if d ! 0 = ATVV_AUDIO_START then control_start snk d a
      else if d ! 0 = ATVV_AUDIO_SYNC then control_sync snk d a
      else if d ! 0 = ATVV_AUDIO_STOP then control_stop snk d a
      else if d ! 0 = ATVV_START_SEARCH then
        (if length d = 1 then rc003_atvv_request_start snk a else (False, a))
      else if d ! 0 = ATVV_MIC_OPEN_ERROR then control_open_error snk d a
      else (False, a))"

definition rc003_atvv_on_audio :: "'w atvv_sink \<Rightarrow> u8 list \<Rightarrow> 'w rc003_atvv \<Rightarrow> 'w rc003_atvv" where
  "rc003_atvv_on_audio snk d a =
     (if \<not> stream_active a \<or> failed a then a
      else if d = [] \<or> length d > ATVV_MAX_FRAME \<or> \<not> caps_valid a
              \<or> cap_frame_size (atvv_caps a) = 0
      then fault snk RBP_END_INVALID_ENCODED_DATA a
      else if \<not> decoder_ready a then fault snk RBP_END_INVALID_ENCODED_DATA a
      else
        let bytes = unat (frame_bytes a) + length d;
            size = unat (cap_frame_size (atvv_caps a))
        in on_encoded snk d
             (a\<lparr>last_audio_ms := atvv_now_ms a,
                frame_no := of_nat (unat (frame_no a) + bytes div size),
                frame_bytes := of_nat (bytes mod size)\<rparr>))"

section \<open>Housekeeping\<close>

text \<open>The three parts of \<open>rc003_atvv_tick\<close>: a request that was never answered, a request that the link
  has not yet taken, and the stream itself.\<close>

definition tick_deadline :: "'w atvv_sink \<Rightarrow> u32 \<Rightarrow> 'w rc003_atvv \<Rightarrow> 'w rc003_atvv" where
  "tick_deadline snk now a =
     (if open_pending a \<and> reached now (open_deadline_ms a)
      then report_fault snk RBP_END_DEVICE_ERROR
             (a\<lparr>open_pending := False, open_queued := False, closing := False\<rparr>)
      else a)"

definition tick_open :: "'w atvv_sink \<Rightarrow> 'w rc003_atvv \<Rightarrow> 'w rc003_atvv" where
  "tick_open snk a =
     (if open_queued a then
        let (ok, a1) = send_tx snk atvv_build_mic_open a in
        if ok then a1\<lparr>open_queued := False\<rparr> else a1
      else a)"

definition tick_stream :: "'w atvv_sink \<Rightarrow> u32 \<Rightarrow> 'w rc003_atvv \<Rightarrow> bool \<times> 'w rc003_atvv" where
  "tick_stream snk now a =
     (if close_queued a then
        if reached now (open_deadline_ms a)
        then (False, fault snk RBP_END_DEVICE_ERROR (a\<lparr>close_queued := False\<rparr>))
        else rc003_atvv_request_stop snk a
      else if failed a \<and> stream_active a \<and> \<not> closing a then rc003_atvv_request_stop snk a
      else if \<not> stream_active a \<or> closing a \<or> failed a then (False, a)
      else if now - last_extend_ms a \<ge> 5000 then
        let (ok, a1) = send_tx snk (atvv_build_mic_extend (remote_stream_id a)) a in
        if ok then (True, a1\<lparr>last_extend_ms := now\<rparr>) else (False, a1)
      else (False, a))"

definition rc003_atvv_tick :: "'w atvv_sink \<Rightarrow> u32 \<Rightarrow> 'w rc003_atvv \<Rightarrow> bool \<times> 'w rc003_atvv" where
  "rc003_atvv_tick snk now a =
     (let a = a\<lparr>atvv_now_ms := now\<rparr>;
          a = tick_deadline snk now a;
          a = tick_open snk a
      in tick_stream snk now a)"

end
