(* ===== verification/Atvv_Facts.thy ===== *)
theory Atvv_Facts
  imports Atvv Decoder
begin

text \<open>
  Correctness of the ATVV engine. Its events are those of a capture: the automaton \<open>capture_step\<close>
  says in which order a sink may see them and counts the encoded bytes, and the locale \<open>capture_sink\<close>
  states what the engine relies on from its sink. Inside it every operation is shown to keep the
  invariant of the struct and to leave struct and sink at the same point of the automaton. The locale
  is interpreted on a recording sink whose link, demand for voice and reactions (calls back into
  the engine out of a callback) are arbitrary.
\<close>

section \<open>The abstract capture\<close>

datatype atvv_event =
    Source_begin
  | Started rbp_audio_format
  | Format rbp_audio_format
  | Encoded "u8 list"
  | Fault u8
  | Ended u8

text \<open>No capture, one that has begun but has no format, one that has delivered \<open>n\<close> bytes, and one that
  was given up while the remote still sends.\<close>

datatype capture = Idle | Begun | Running nat | Dropped

definition format_ok :: "rbp_audio_format \<Rightarrow> bool" where
  "format_ok f \<longleftrightarrow> af_codec_id f = RBP_CODEC_IMA_HI \<and> af_codec_revision f = 1 \<and> af_channels f = 1
     \<and> (af_sample_rate f = 8000 \<or> af_sample_rate f = 16000) \<and> af_max_unit_bytes f = 512
     \<and> af_config_len f = 4
     \<and> (\<exists>c. af_config f = Some c \<and> length c = 4 \<and> c ! 2 \<le> 88 \<and> c ! 3 = 0)"

fun capture_step :: "atvv_event \<Rightarrow> capture \<Rightarrow> capture option" where
  "capture_step Source_begin Idle = Some Begun"
| "capture_step (Started f) Begun = (if format_ok f then Some (Running 0) else None)"
| "capture_step (Format f) (Running n) = (if format_ok f then Some (Running n) else None)"
| "capture_step (Encoded d) (Running n) =
     (if d \<noteq> [] \<and> length d \<le> 512 then Some (Running (n + length d)) else None)"
| "capture_step (Fault r) Idle = Some Idle"
| "capture_step (Fault r) Begun = Some Dropped"
| "capture_step (Fault r) (Running n) = Some Dropped"
| "capture_step (Ended r) Begun = Some Idle"
| "capture_step (Ended r) (Running n) = Some Idle"
| "capture_step (Ended r) Dropped = Some Idle"
| "capture_step _ _ = None"

fun capture_run :: "atvv_event list \<Rightarrow> capture \<Rightarrow> capture option" where
  "capture_run [] p = Some p"
| "capture_run (e # es) p = Option.bind (capture_step e p) (capture_run es)"

lemma capture_run_append:
  "capture_run (es @ fs) p = Option.bind (capture_run es p) (capture_run fs)"
  by (induction es arbitrary: p) (simp_all split: Option.bind_split)

section \<open>Invariant and correspondence\<close>

definition caps_ok :: "atvv_caps \<Rightarrow> bool" where
  "caps_ok c \<longleftrightarrow> cap_codecs c \<noteq> 0 \<and> cap_codecs c AND NOT 3 = 0 \<and> 0 < unat (cap_frame_size c)
     \<and> unat (cap_frame_size c) \<le> ATVV_MAX_FRAME"

definition atvv_inv :: "'w rc003_atvv \<Rightarrow> bool" where
  "atvv_inv a \<longleftrightarrow>
     (caps_valid a \<longrightarrow> caps_ok (atvv_caps a)) \<and>
     (stream_active a \<longrightarrow> caps_valid a \<and> \<not> open_pending a
        \<and> (atvv_rate a = 8000 \<or> atvv_rate a = 16000)) \<and>
     (open_queued a \<longrightarrow> open_pending a) \<and>
     (closing a \<longrightarrow> stream_active a \<or> open_pending a \<and> \<not> open_queued a) \<and>
     (close_queued a \<longrightarrow> stream_active a \<and> \<not> closing a) \<and>
     length (codec_config a) = 4 \<and> codec_config a ! 2 \<le> 88 \<and> codec_config a ! 3 = 0"

fun tracks :: "'w rc003_atvv \<Rightarrow> capture \<Rightarrow> bool" where
  "tracks a Idle \<longleftrightarrow> \<not> stream_active a"
| "tracks a Begun \<longleftrightarrow> stream_active a \<and> \<not> failed a \<and> \<not> decoder_ready a \<and> \<not> announced a
     \<and> frame_no a = 0 \<and> frame_bytes a = 0"
| "tracks a (Running n) \<longleftrightarrow> stream_active a \<and> \<not> failed a \<and> decoder_ready a \<and> announced a
     \<and> frame_no a = of_nat (n div unat (cap_frame_size (atvv_caps a)))
     \<and> unat (frame_bytes a) = n mod unat (cap_frame_size (atvv_caps a))"
| "tracks a Dropped \<longleftrightarrow> stream_active a \<and> failed a"

text \<open>What the two requests leave alone: everything but the requests and their bookkeeping.\<close>

definition same_stream :: "'w rc003_atvv \<Rightarrow> 'w rc003_atvv \<Rightarrow> bool" where
  "same_stream a b \<longleftrightarrow>
     caps_valid b = caps_valid a \<and> atvv_caps b = atvv_caps a \<and> atvv_rate b = atvv_rate a \<and>
     announced b = announced a \<and> codec_config b = codec_config a \<and>
     stream_active b = stream_active a \<and> remote_stream_id b = remote_stream_id a \<and>
     frame_bytes b = frame_bytes a \<and> failed b = failed a \<and> frame_no b = frame_no a \<and>
     decoder_ready b = decoder_ready a \<and>
     profile_init_without_sync b = profile_init_without_sync a"

lemma same_stream_refl [simp]: "same_stream a a"
  by (simp add: same_stream_def)

lemma same_stream_trans: "same_stream a b \<Longrightarrow> same_stream b c \<Longrightarrow> same_stream a c"
  by (simp add: same_stream_def)

lemma same_stream_tracks: "same_stream a b \<Longrightarrow> tracks b p = tracks a p"
  by (cases p) (auto simp: same_stream_def)

lemma atvv_init_inv: "atvv_inv (rc003_atvv_init fl w)"
  by (simp add: atvv_inv_def rc003_atvv_init_def numeral_eq_Suc)

lemma parse_caps_ok: "atvv_parse_caps d = Some c \<Longrightarrow> caps_ok c"
  by (auto simp: atvv_parse_caps_def caps_ok_def Let_def atvv_caps_zero_def unat_gt_0
      split: if_splits)

lemma inv_format: "atvv_inv a \<Longrightarrow> stream_active a \<Longrightarrow> format_ok (atvv_format a)"
  by (auto simp: atvv_inv_def format_ok_def atvv_format_def)

lemma stop_inv: "atvv_inv a \<Longrightarrow> atvv_inv (snd (rc003_atvv_request_stop pt a))"
  by (auto simp: rc003_atvv_request_stop_def send_tx_def atvv_inv_def Let_def split: prod.splits)

lemma stop_same: "same_stream a (snd (rc003_atvv_request_stop pt a))"
  by (auto simp: rc003_atvv_request_stop_def send_tx_def same_stream_def Let_def split: prod.splits)

lemma start_inv: "atvv_inv a \<Longrightarrow> atvv_inv (snd (rc003_atvv_request_start pt a))"
  by (auto simp: rc003_atvv_request_start_def send_tx_def atvv_inv_def Let_def split: prod.splits)

lemma start_same: "same_stream a (snd (rc003_atvv_request_start pt a))"
  by (auto simp: rc003_atvv_request_start_def send_tx_def same_stream_def Let_def split: prod.splits)

section \<open>The sink\<close>

fun deliver :: "'w atvv_sink \<Rightarrow> atvv_event \<Rightarrow> 'w rc003_atvv \<Rightarrow> 'w rc003_atvv" where
  "deliver snk Source_begin a = (case on_source_begin snk of Some f \<Rightarrow> f a | None \<Rightarrow> a)"
| "deliver snk (Started f) a = on_started snk f a"
| "deliver snk (Format f) a = on_format snk f a"
| "deliver snk (Encoded d) a = on_encoded snk d a"
| "deliver snk (Fault r) a = report_fault snk r a"
| "deliver snk (Ended r) a = on_ended snk r a"

locale capture_sink =
  fixes snk :: "'w atvv_sink"
    and at :: "capture \<Rightarrow> 'w \<Rightarrow> bool"
  assumes has_fault: "on_fault snk \<noteq> None"
    and submit: "at p w \<Longrightarrow> at p (snd (write_tx snk d w))"
    and event: "\<lbrakk>atvv_inv a; at p (env a); capture_step e p = Some q; tracks a q\<rbrakk> \<Longrightarrow>
           atvv_inv (deliver snk e a) \<and> tracks (deliver snk e a) q \<and> at q (env (deliver snk e a))"
begin

definition good :: "'w rc003_atvv \<Rightarrow> bool" where
  "good a \<longleftrightarrow> atvv_inv a \<and> (\<exists>p. tracks a p \<and> at p (env a))"

lemma goodI: "atvv_inv a \<Longrightarrow> tracks a p \<Longrightarrow> at p (env a) \<Longrightarrow> good a"
  by (auto simp: good_def)

lemma goodE:
  assumes "good a"
  obtains p where "atvv_inv a" and "tracks a p" and "at p (env a)"
  using assms by (auto simp: good_def)

lemma same_stream_good:
  "good a \<Longrightarrow> atvv_inv b \<Longrightarrow> same_stream a b \<Longrightarrow> env b = env a \<Longrightarrow> good b"
  by (auto simp: good_def same_stream_tracks)

text \<open>Operations outside the stream: what they keep is enough.\<close>

lemma stop_at: "at p (env a) \<Longrightarrow> at p (env (snd (rc003_atvv_request_stop snk a)))"
  using submit [of p "env a"]
  by (auto simp: rc003_atvv_request_stop_def send_tx_def Let_def split: prod.splits) (metis snd_conv)+

lemma start_at: "at p (env a) \<Longrightarrow> at p (env (snd (rc003_atvv_request_start snk a)))"
  using submit [of p "env a"]
  by (auto simp: rc003_atvv_request_start_def send_tx_def Let_def split: prod.splits) (metis snd_conv)+

lemma request_stop_good: "good a \<Longrightarrow> good (snd (rc003_atvv_request_stop snk a))"
  by (erule goodE) (rule goodI, auto simp: stop_inv stop_at same_stream_tracks [OF stop_same])

lemma request_start_good: "good a \<Longrightarrow> good (snd (rc003_atvv_request_start snk a))"
  by (erule goodE) (rule goodI, auto simp: start_inv start_at same_stream_tracks [OF start_same])

lemma deliver_good:
  assumes "atvv_inv a" and "at p (env a)" and "capture_step e p = Some q" and "tracks a q"
  shows "good (deliver snk e a)"
  using event [OF assms] by (auto intro: goodI)

lemma record_tracks [simp]: "tracks (record_atvv st c x a) p = tracks a p"
  by (cases p) (auto simp: record_atvv_def)

lemma record_inv [simp]: "atvv_inv (record_atvv st c x a) = atvv_inv a"
  by (simp add: atvv_inv_def record_atvv_def)

lemma record_fields [simp]:
  "env (record_atvv st c x a) = env a" "stream_active (record_atvv st c x a) = stream_active a"
  "failed (record_atvv st c x a) = failed a" "open_pending (record_atvv st c x a) = open_pending a"
  by (simp_all add: record_atvv_def)

lemma record_good [simp]: "good (record_atvv st c x a) = good a"
  by (simp add: good_def)

lemma fault_deliver: "fault snk r a =
    (let b = record_atvv 1 (ucast r) (ucast (frame_no a)) a in
     if failed a then b
     else snd (rc003_atvv_request_stop snk (deliver snk (Fault r) (b\<lparr>failed := True, decoder_ready := False\<rparr>))))"
  using has_fault by (auto simp: fault_def Let_def report_fault_def)

lemma fault_good:
  assumes "good a" and "stream_active a"
  shows "good (fault snk r a)"
proof (cases "failed a")
  case True
  then show ?thesis using assms by (simp add: fault_deliver Let_def)
next
  case False
  obtain p where p: "atvv_inv a" "tracks a p" "at p (env a)" using assms(1) by (rule goodE)
  let ?b = "record_atvv 1 (ucast r) (ucast (frame_no a)) a\<lparr>failed := True, decoder_ready := False\<rparr>"
  have "capture_step (Fault r) p = Some Dropped"
    using p assms(2) False by (cases p) auto
  moreover have "atvv_inv ?b" "tracks ?b Dropped" "at p (env ?b)"
    using p assms(2) by (auto simp: atvv_inv_def record_atvv_def)
  ultimately have "good (deliver snk (Fault r) ?b)" by (intro deliver_good)
  then show ?thesis using False by (simp add: fault_deliver Let_def request_stop_good)
qed

lemma announce_good:
  assumes inv: "atvv_inv a" and at: "at p (env a)" and ready: "decoder_ready a"
    and p: "tracks (a\<lparr>decoder_ready := x\<rparr>) p" "p = Begun \<or> p = Running n"
  shows "good (announce_format snk a)"
proof (cases "announced a")
  case True
  then obtain n where "p = Running n" using p by auto
  then have "good (deliver snk (Format (atvv_format a)) a)"
    using p inv at ready by (intro deliver_good [of _ p _ p]) (auto simp: inv_format)
  then show ?thesis using True by (simp add: announce_format_def)
next
  case False
  then have b: "p = Begun" using p by auto
  let ?b = "a\<lparr>announced := True\<rparr>"
  have "good (deliver snk (Started (atvv_format a)) ?b)"
    using b p inv at ready
    by (intro deliver_good [of _ Begun _ "Running 0"]) (auto simp: inv_format, auto simp: atvv_inv_def)
  then show ?thesis using False by (simp add: announce_format_def)
qed

lemma caps_good: "good a \<Longrightarrow> good (snd (control_caps d a))"
proof (erule goodE)
  fix p assume p: "atvv_inv a" "tracks a p" "at p (env a)"
  show ?thesis
  proof (cases "stream_active a \<or> atvv_parse_caps d = None")
    case True
    then show ?thesis using p by (auto simp: control_caps_def intro: goodI)
  next
    case False
    then obtain c where c: "atvv_parse_caps d = Some c" "\<not> stream_active a" by auto
    then have "p = Idle" using p by (cases p) auto
    then show ?thesis using c p parse_caps_ok [OF c(1)]
      by (intro goodI [of _ Idle]) (auto simp: control_caps_def atvv_inv_def)
  qed
qed

lemma started_stream:
  assumes "atvv_inv a" and "\<not> stream_active a" and "\<not> start_refused d a"
  shows "atvv_inv (start_stream d a)" and "tracks (start_stream d a) Begun"
  using assms by (auto simp: atvv_inv_def start_stream_def start_refused_def codec_to_rate_def
      split: if_splits)

lemma start_stream_env [simp]: "env (start_stream d a) = env a"
  by (simp add: start_stream_def)

lemma start_good: "good a \<Longrightarrow> good (snd (control_start snk d a))"
proof (erule goodE)
  fix p assume p: "atvv_inv a" "tracks a p" "at p (env a)"
  consider "stream_active a" | "\<not> stream_active a" "start_refused d a"
    | "\<not> stream_active a" "\<not> start_refused d a" by blast
  then show ?thesis
  proof cases
    case 1
    then show ?thesis using p by (auto simp: control_start_def intro: fault_good goodI)
  next
    case 2
    then show ?thesis using p by (auto simp: control_start_def intro: goodI)
  next
    case 3
    then have idle: "p = Idle" using p by (cases p) auto
    let ?a = "start_stream d a"
    let ?b = "deliver snk Source_begin ?a"
    let ?c = "if profile_init_without_sync ?b
              then announce_format snk (?b\<lparr>codec_config := replicate 4 0, decoder_ready := True\<rparr>) else ?b"
    note st = started_stream [OF p(1) 3]
    have b: "atvv_inv ?b" "tracks ?b Begun" "at Begun (env ?b)"
      using event [of ?a Idle Source_begin Begun] st p idle
      by (simp_all del: deliver.simps tracks.simps)
    have "good (announce_format snk (?b\<lparr>codec_config := replicate 4 0, decoder_ready := True\<rparr>))"
      using b by (intro announce_good [of _ Begun False])
        (auto simp: atvv_inv_def numeral_eq_Suc)
    then have "good ?c" using goodI [OF b(1-3)] by (simp del: deliver.simps)
    then show ?thesis using 3
      by (simp add: control_start_def Let_def request_stop_good del: deliver.simps
          flip: deliver.simps(1))
  qed
qed

lemma sync_good:
  assumes "good a"
  shows "good (snd (control_sync snk d a))"
proof -
  obtain p where p: "atvv_inv a" "tracks a p" "at p (env a)" using assms by (rule goodE)
  let ?b = "a\<lparr>codec_config := [d ! 5, d ! 4, d ! 6, 0], decoder_ready := True, saw_sync := True,
                 atvv_rate := codec_to_rate (d ! 1)\<rparr>"
  have "good (announce_format snk ?b)"
    if ok: "stream_active a" "\<not> failed a" "codec_to_rate (d ! 1) \<noteq> 0" "\<not> d ! 6 > 88"
  proof -
    obtain n where n: "p = Begun \<or> p = Running n" using p ok by (cases p) auto
    have "tracks (?b\<lparr>decoder_ready := decoder_ready a\<rparr>) p"
      using p n ok by auto
    moreover have "atvv_inv ?b"
      using p ok by (auto simp: atvv_inv_def codec_to_rate_def numeral_eq_Suc split: if_splits)
    ultimately show ?thesis using n p by (intro announce_good [where p = p and n = n and x = "decoder_ready a"]) auto
  qed
  then show ?thesis using assms by (auto simp: control_sync_def intro: fault_good)
qed

lemma stop_good:
  assumes "good a"
  shows "good (snd (control_stop snk d a))"
proof -
  obtain p where p: "atvv_inv a" "tracks a p" "at p (env a)" using assms by (rule goodE)
  have *: "good (on_ended snk r (b\<lparr>stream_active := False, decoder_ready := False, closing := False,
                  close_queued := False\<rparr>))"
    if "stream_active a" "b = a \<or> b = record_atvv st c x a" for r b st c x
  proof -
    have "capture_step (Ended r) p = Some Idle" using p that by (cases p) auto
    then show ?thesis
      using deliver_good [of "b\<lparr>stream_active := False, decoder_ready := False, closing := False,
                  close_queued := False\<rparr>" p "Ended r" Idle] p that
      by (auto simp: atvv_inv_def record_atvv_def)
  qed
  show ?thesis using assms by (auto simp: control_stop_def Let_def intro: * [where b = a] *)
qed

text \<open>A request that failed leaves no capture.\<close>

lemma report_idle_good:
  assumes "atvv_inv a" and "\<not> stream_active a" and "at p (env a)" and "tracks a p"
  shows "good (report_fault snk r a)"
proof -
  have "p = Idle" using assms by (cases p) auto
  then show ?thesis using deliver_good [of a Idle "Fault r" Idle] assms by simp
qed

lemma cancel_good:
  assumes "good a" and "\<not> stream_active a"
  shows "good (report_fault snk r (a\<lparr>open_pending := False, open_queued := False, closing := False\<rparr>))"
proof -
  obtain p where p: "atvv_inv a" "tracks a p" "at p (env a)" using assms(1) by (rule goodE)
  then show ?thesis using assms(2)
    by (intro report_idle_good [where p = p]) (cases p, auto simp: atvv_inv_def)+
qed

lemma not_queued_good: "good a \<Longrightarrow> good (a\<lparr>open_queued := False\<rparr>)"
  by (rule same_stream_good) (auto simp: same_stream_def good_def atvv_inv_def)

lemma clear_request_good:
  "good a \<Longrightarrow> good (a\<lparr>open_pending := False, open_queued := False, closing := False\<rparr>)"
  by (rule same_stream_good) (auto simp: same_stream_def good_def atvv_inv_def)

lemma open_error_good:
  assumes "good a"
  shows "good (snd (control_open_error snk d a))"
proof -
  have *: "good (let b = b\<lparr>open_pending := False, open_queued := False, closing := False\<rparr> in
                 if stream_active b \<and> q then fault snk r b else b)" if "good b" for b q r
    using clear_request_good [OF that] by (auto simp: Let_def intro: fault_good)
  have order: "b\<lparr>open_queued := False, open_pending := False, closing := False\<rparr> =
      b\<lparr>open_pending := False, open_queued := False, closing := False\<rparr>" for b :: "'w rc003_atvv"
    by simp
  have "good (if open_pending b \<and> \<not> stream_active b then
              let b = b\<lparr>open_queued := False\<rparr> in
              if q then b
              else report_fault snk r (b\<lparr>open_pending := False, closing := False\<rparr>)
            else
              let b = b\<lparr>open_pending := False, open_queued := False, closing := False\<rparr> in
              if stream_active b \<and> \<not> q then fault snk r b else b)" if "good b" for b q r
    using * [OF that, of "\<not> q" r] not_queued_good [OF that] cancel_good [OF that, of r]
    by (auto simp: Let_def order)
  then show ?thesis using assms by (simp add: control_open_error_def Let_def)
qed

lemma on_control_good: "good a \<Longrightarrow> good (snd (rc003_atvv_on_control snk d a))"
  by (simp add: rc003_atvv_on_control_def caps_good start_good sync_good stop_good open_error_good
      request_start_good)

lemma frame_count:
  assumes "atvv_inv a" and "tracks a (Running n)"
  shows "tracks (a\<lparr>last_audio_ms := t,
      frame_no := of_nat (unat (frame_no a) + (unat (frame_bytes a) + k) div unat (cap_frame_size (atvv_caps a))),
      frame_bytes := of_nat ((unat (frame_bytes a) + k) mod unat (cap_frame_size (atvv_caps a)))\<rparr>)
      (Running (n + k))"
proof -
  let ?s = "unat (cap_frame_size (atvv_caps a))"
  have s: "0 < ?s" "?s \<le> 512" using assms by (auto simp: atvv_inv_def caps_ok_def)
  have "n + k = (n mod ?s + k) + n div ?s * ?s" by simp
  then have "n div ?s + (n mod ?s + k) div ?s = (n + k) div ?s"
    using s(1) by (metis div_mult_self1 less_numeral_extra(3))
  moreover have "(n mod ?s + k) mod ?s < 2 ^ 16"
    using s mod_less_divisor [OF s(1), of "n mod ?s + k"] by simp
  moreover have "of_nat (unat (frame_no a) + q) = (of_nat (n div ?s + q) :: u16)" for q
    using assms(2) by simp
  ultimately show ?thesis using assms(2)
    by (simp add: mod_add_left_eq unat_of_nat del: of_nat_add)
qed

lemma on_audio_good:
  assumes "good a"
  shows "good (rc003_atvv_on_audio snk d a)"
proof -
  obtain p where p: "atvv_inv a" "tracks a p" "at p (env a)" using assms by (rule goodE)
  let ?b = "a\<lparr>last_audio_ms := atvv_now_ms a,
      frame_no := of_nat (unat (frame_no a) + (unat (frame_bytes a) + length d) div unat (cap_frame_size (atvv_caps a))),
      frame_bytes := of_nat ((unat (frame_bytes a) + length d) mod unat (cap_frame_size (atvv_caps a)))\<rparr>"
  have "good (on_encoded snk d ?b)"
    if ok: "stream_active a" "\<not> failed a" "decoder_ready a" "d \<noteq> []" "length d \<le> 512"
  proof -
    obtain n where n: "p = Running n" using p ok by (cases p) auto
    have "good (deliver snk (Encoded d) ?b)"
    proof (rule deliver_good)
      show "at (Running n) (env ?b)" using p n by simp
      show "tracks ?b (Running (n + length d))" using frame_count p n by blast
    qed (use p ok in \<open>auto simp: atvv_inv_def\<close>)
    then show ?thesis by simp
  qed
  then show ?thesis using assms
    by (auto simp: rc003_atvv_on_audio_def Let_def intro: fault_good)
qed

lemma send_good: "good a \<Longrightarrow> good (snd (send_tx snk cmd a))"
proof (erule goodE)
  fix p assume p: "atvv_inv a" "tracks a p" "at p (env a)"
  then show ?thesis using submit [of p "env a" cmd]
    by (intro goodI [where p = p]) (cases p, auto simp: atvv_inv_def send_tx_def split: prod.splits)+
qed

lemma clock_good:
  "good a \<Longrightarrow> good (a\<lparr>atvv_now_ms := t\<rparr>)" "good a \<Longrightarrow> good (a\<lparr>last_extend_ms := t\<rparr>)"
  "good a \<Longrightarrow> good (a\<lparr>close_queued := False\<rparr>)"
  by (rule same_stream_good; auto simp: good_def same_stream_def atvv_inv_def)+

lemma profile_good: "good a \<Longrightarrow> good (a\<lparr>profile_init_without_sync := b\<rparr>)"
proof (erule goodE)
  fix p assume "atvv_inv a" "tracks a p" "at p (env a)"
  then show ?thesis by (intro goodI [where p = p]) (cases p, auto simp: atvv_inv_def)+
qed

lemma tick_deadline_good: "good a \<Longrightarrow> good (tick_deadline snk now a)"
  using cancel_good [of a] by (auto simp: tick_deadline_def good_def atvv_inv_def)

lemma tick_open_good:
  assumes "good a"
  shows "good (tick_open snk a)"
  using send_good [OF assms, of atvv_build_mic_open] assms
  by (auto simp: tick_open_def Let_def split: prod.splits intro: not_queued_good)

lemma tick_stream_good:
  assumes "good a"
  shows "good (snd (tick_stream snk now a))"
proof -
  have "close_queued a \<Longrightarrow> stream_active a" using assms by (auto simp: good_def atvv_inv_def)
  then show ?thesis
    using assms send_good [OF assms, of "atvv_build_mic_extend (remote_stream_id a)"]
    by (auto simp: tick_stream_def Let_def split: prod.splits
        intro: request_stop_good fault_good clock_good)
qed

lemma tick_good: "good a \<Longrightarrow> good (snd (rc003_atvv_tick snk now a))"
  by (simp add: rc003_atvv_tick_def Let_def tick_stream_good tick_open_good tick_deadline_good
      clock_good)

end

section \<open>Calls\<close>

text \<open>What the adapter does to the engine: the operations, the clock it sets before a control message
  and the seed profile of the identified device.\<close>

datatype atvv_call =
    Control "u8 list"
  | Audio "u8 list"
  | Tick u32
  | Stop
  | Start
  | Set_now u32
  | Set_profile bool

fun atvv_perform :: "'w atvv_sink \<Rightarrow> atvv_call \<Rightarrow> 'w rc003_atvv \<Rightarrow> 'w rc003_atvv" where
  "atvv_perform snk (Control d) a = snd (rc003_atvv_on_control snk d a)"
| "atvv_perform snk (Audio d) a = rc003_atvv_on_audio snk d a"
| "atvv_perform snk (Tick t) a = snd (rc003_atvv_tick snk t a)"
| "atvv_perform snk Stop a = snd (rc003_atvv_request_stop snk a)"
| "atvv_perform snk Start a = snd (rc003_atvv_request_start snk a)"
| "atvv_perform snk (Set_now t) a = a\<lparr>atvv_now_ms := t\<rparr>"
| "atvv_perform snk (Set_profile b) a = a\<lparr>profile_init_without_sync := b\<rparr>"

context capture_sink
begin

lemma call_good: "good a \<Longrightarrow> good (atvv_perform snk c a)"
  by (cases c) (simp_all add: on_control_good on_audio_good tick_good request_stop_good
      request_start_good clock_good profile_good)

lemma calls_good: "good a \<Longrightarrow> good (fold (atvv_perform snk) cs a)"
  by (induction cs arbitrary: a) (simp_all add: call_good)

lemma init_good: "at Idle w \<Longrightarrow> good (rc003_atvv_init fl w)"
  using atvv_init_inv [of fl w] by (auto simp: rc003_atvv_init_def intro: goodI [of _ Idle])

end

section \<open>A recording sink\<close>

text \<open>The surroundings keep the events and the commands. The link takes the \<open>n\<close>-th command iff
  \<open>link n\<close>, voice is wanted iff \<open>demand\<close> says so of what was sent, and the \<open>n\<close>-th event is answered, out of its
  callback, by the requests \<open>react n\<close> (\<open>True\<close> a stop, \<open>False\<close> a start).\<close>

record recorder =
  events :: "atvv_event list"
  sent :: "(u8 list \<times> bool) list"

definition recorder_port :: "(nat \<Rightarrow> bool) \<Rightarrow> (recorder \<Rightarrow> bool) \<Rightarrow> recorder atvv_port" where
  "recorder_port link demand =
     \<lparr>write_tx = \<lambda>d w. (link (length (sent w)),
                        w\<lparr>sent := sent w @ [(d, link (length (sent w)))]\<rparr>),
      want_voice = Some demand\<rparr>"

definition requests :: "recorder atvv_port \<Rightarrow> bool list \<Rightarrow> recorder rc003_atvv \<Rightarrow> recorder rc003_atvv" where
  "requests pt rs a = fold (\<lambda>r a. snd (if r then rc003_atvv_request_stop pt a
                                      else rc003_atvv_request_start pt a)) rs a"

definition log_event :: "recorder atvv_port \<Rightarrow> (nat \<Rightarrow> bool list) \<Rightarrow> atvv_event
    \<Rightarrow> recorder rc003_atvv \<Rightarrow> recorder rc003_atvv" where
  "log_event pt react e a =
     requests pt (react (length (events (env a)))) (a\<lparr>env := (env a)\<lparr>events := events (env a) @ [e]\<rparr>\<rparr>)"

definition recorder_sink ::
    "(nat \<Rightarrow> bool) \<Rightarrow> (recorder \<Rightarrow> bool) \<Rightarrow> (nat \<Rightarrow> bool list) \<Rightarrow> recorder atvv_sink" where
  "recorder_sink link demand react =
     (let pt = recorder_port link demand; log = log_event pt react
      in \<lparr>write_tx = write_tx pt, want_voice = want_voice pt,
          on_source_begin = Some (log Source_begin), on_started = \<lambda>f. log (Started f),
          on_encoded = \<lambda>d. log (Encoded d), on_format = \<lambda>f. log (Format f),
          on_ended = \<lambda>r. log (Ended r), on_fault = Some (\<lambda>r. log (Fault r))\<rparr>)"

definition recorded :: "capture \<Rightarrow> recorder \<Rightarrow> bool" where
  "recorded p w \<longleftrightarrow> capture_run (events w) Idle = Some p"

lemma requests_keep:
  assumes "atvv_inv a"
  shows "atvv_inv (requests (recorder_port link demand) rs a)
    \<and> same_stream a (requests (recorder_port link demand) rs a)
    \<and> events (env (requests (recorder_port link demand) rs a)) = events (env a)"
  using assms
proof (induction rs arbitrary: a)
  case (Cons r rs)
  let ?b = "snd (if r then rc003_atvv_request_stop (recorder_port link demand) a
                 else rc003_atvv_request_start (recorder_port link demand) a)"
  have "atvv_inv ?b" "same_stream a ?b"
    using Cons.prems by (simp_all add: stop_inv start_inv stop_same start_same)
  moreover have "events (env ?b) = events (env a)"
    by (auto simp: rc003_atvv_request_stop_def rc003_atvv_request_start_def send_tx_def
        recorder_port_def Let_def split: prod.splits)
  moreover have "requests (recorder_port link demand) (r # rs) a = requests (recorder_port link demand) rs ?b"
    by (simp add: requests_def)
  ultimately show ?case using Cons.IH [of ?b] same_stream_trans [of a ?b] by metis
qed (simp add: requests_def)

lemma deliver_recorder:
  "deliver (recorder_sink link demand react) e = log_event (recorder_port link demand) react e"
  by (cases e) (simp_all add: recorder_sink_def Let_def report_fault_def fun_eq_iff)

interpretation rec: capture_sink "recorder_sink link demand react" recorded for link demand react
proof
  fix p q :: capture and w d e and a :: "recorder rc003_atvv"
  show "on_fault (recorder_sink link demand react) \<noteq> None"
    by (simp add: recorder_sink_def Let_def)
  show "recorded p w \<Longrightarrow> recorded p (snd (write_tx (recorder_sink link demand react) d w))"
    by (simp add: recorder_sink_def recorder_port_def recorded_def Let_def)
  let ?b = "a\<lparr>env := (env a)\<lparr>events := events (env a) @ [e]\<rparr>\<rparr>"
  assume "atvv_inv a" and p: "recorded p (env a)" and q: "capture_step e p = Some q" and "tracks a q"
  then have "atvv_inv ?b" by (simp add: atvv_inv_def)
  note keep = requests_keep [OF this, of link demand "react (length (events (env a)))"]
  let ?c = "deliver (recorder_sink link demand react) e a"
  have c: "?c = requests (recorder_port link demand) (react (length (events (env a)))) ?b"
    by (simp only: deliver_recorder log_event_def)
  have "same_stream a ?b" by (simp add: same_stream_def)
  then have "same_stream a ?c" using keep same_stream_trans unfolding c by blast
  then have "tracks ?c q" using \<open>tracks a q\<close> by (simp only: same_stream_tracks)
  moreover have "recorded q (env ?c)"
    using keep p q unfolding c by (simp add: recorded_def capture_run_append)
  ultimately show "atvv_inv ?c \<and> tracks ?c q \<and> recorded q (env ?c)"
    using keep unfolding c by blast
qed

section \<open>Properties\<close>

definition recorder_start :: "fault_state \<Rightarrow> recorder rc003_atvv" where
  "recorder_start fl = rc003_atvv_init fl \<lparr>events = [], sent = []\<rparr>"

lemma calls_recorded:
  "rec.good (fold (atvv_perform (recorder_sink link demand react)) cs (recorder_start fl))"
  unfolding recorder_start_def
  by (intro rec.calls_good rec.init_good) (simp add: recorded_def)

lemma format_decodes:
  "format_ok f \<Longrightarrow> fst (rbp_decoder_init B d (b_full B) (Some f)) = RBP_DECODE_OK"
  by (auto simp: format_ok_def rbp_decoder_init_def ima_init_def Let_def split: option.splits)

lemma step_formats:
  assumes "capture_step e p = Some q" and "e = Started f \<or> e = Format f"
  shows "format_ok f"
  using assms by (cases p) (auto split: if_splits)

lemma run_formats:
  "capture_run es p = Some q \<Longrightarrow> Started f \<in> set es \<or> Format f \<in> set es \<Longrightarrow> format_ok f"
proof (induction es arbitrary: p)
  case (Cons e es)
  then obtain r where "capture_step e p = Some r" "capture_run es r = Some q"
    by (auto split: Option.bind_splits)
  then show ?case using Cons step_formats [of e p r f] by auto
qed simp

text \<open>C23: The engine reports well-formed captures. Whatever control and audio messages the remote
  sends, whenever the engine is ticked or asked to start or stop, whether or not the link takes its
  commands, and even if the receiver of an event calls back into the engine, the struct keeps its
  invariant and the events form captures: each begins, is given its format before the first audio, then
  delivers units of 1 to 512 bytes, and ends once; after a fault nothing more is delivered until the end.
  The frame counter and the position in the frame are exactly those of the bytes delivered, the
  counter modulo \<open>2^16\<close>, and the host's decoder opens with every format announced.\<close>

theorem atvv_capture_protocol:
  fixes fl link demand react cs
  defines "a \<equiv> fold (atvv_perform (recorder_sink link demand react)) cs (recorder_start fl)"
  shows "atvv_inv a \<and> (\<exists>p. capture_run (events (env a)) Idle = Some p \<and> tracks a p)
    \<and> (\<forall>f B d. Started f \<in> set (events (env a)) \<or> Format f \<in> set (events (env a)) \<longrightarrow>
         fst (rbp_decoder_init B (d :: 'c rbp_decoder) (b_full B) (Some f)) = RBP_DECODE_OK)"
proof -
  obtain p where "atvv_inv a" "tracks a p" "capture_run (events (env a)) Idle = Some p"
    using calls_recorded [of link demand react cs fl] unfolding a_def
    by (auto simp: rec.good_def recorded_def)
  then show ?thesis using run_formats format_decodes by metis
qed

text \<open>A tick in a failed stream.\<close>

definition dropped :: "'w rc003_atvv \<Rightarrow> bool" where
  "dropped a \<longleftrightarrow> stream_active a \<and> failed a \<and> \<not> open_pending a \<and> \<not> open_queued a"

lemma tick_dropped:
  assumes "dropped a"
  shows "snd (rc003_atvv_tick snk t a) =
    (let a = a\<lparr>atvv_now_ms := t\<rparr> in
     if close_queued a \<and> reached t (open_deadline_ms a)
     then record_atvv 1 (ucast RBP_END_DEVICE_ERROR) (ucast (frame_no a)) (a\<lparr>close_queued := False\<rparr>)
     else if closing a \<and> \<not> close_queued a then a
     else snd (rc003_atvv_request_stop snk a))"
  using assms
  by (simp add: dropped_def rc003_atvv_tick_def tick_deadline_def tick_open_def tick_stream_def
      fault_def Let_def record_atvv_def)

lemma stop_dropped:
  assumes "dropped a" and "\<not> closing a" and "link (length (sent (env a)))"
  shows "snd (rc003_atvv_request_stop (recorder_sink link demand react) a) =
    a\<lparr>closing := True, close_queued := False,
      env := (env a)\<lparr>sent := sent (env a) @ [(atvv_build_mic_close (remote_stream_id a), True)]\<rparr>\<rparr>"
  using assms by (simp add: dropped_def rc003_atvv_request_stop_def send_tx_def recorder_sink_def
      recorder_port_def Let_def)

text \<open>C24: A dropped stream is closed at the remote. In any state the engine can reach, if the capture has
  failed while the remote still sends and no close command is on its way, then once the link takes
  commands again, two ticks (at any times, the first may only report that the close is overdue)
  send \<open>MIC_CLOSE\<close> for that stream and wait for its end.\<close>

theorem atvv_dropped_closes:
  fixes fl link demand react cs t1 t2
  defines "snk \<equiv> recorder_sink link demand react"
  defines "a \<equiv> fold (atvv_perform snk) cs (recorder_start fl)"
  defines "b \<equiv> snd (rc003_atvv_tick snk t2 (snd (rc003_atvv_tick snk t1 a)))"
  assumes "stream_active a" and "failed a" and "\<not> closing a"
    and "\<forall>n \<ge> length (sent (env a)). link n"
  shows "stream_active b \<and> closing b \<and> sent (env b) =
           sent (env a) @ [(atvv_build_mic_close (remote_stream_id a), True)]"
proof -
  have "atvv_inv a" using calls_recorded unfolding a_def snk_def rec.good_def by blast
  then have d: "dropped a" using assms by (auto simp: dropped_def atvv_inv_def)
  let ?a = "a\<lparr>atvv_now_ms := t1\<rparr>"
  have link: "link (length (sent (env a)))" using assms by simp
  show ?thesis
  proof (cases "close_queued a \<and> reached t1 (open_deadline_ms a)")
    case True
    let ?c = "record_atvv 1 (ucast RBP_END_DEVICE_ERROR) (ucast (frame_no a)) (?a\<lparr>close_queued := False\<rparr>)"
    have "snd (rc003_atvv_tick snk t1 a) = ?c" using True by (simp add: tick_dropped [OF d])
    moreover have "dropped (?c\<lparr>atvv_now_ms := t2\<rparr>)" "dropped ?c"
      using d by (simp_all add: dropped_def record_atvv_def)
    ultimately show ?thesis using assms(6) link
      by (simp add: b_def tick_dropped snk_def stop_dropped record_atvv_def)
         (simp add: dropped_def)
  next
    case False
    let ?c = "snd (rc003_atvv_request_stop snk ?a)"
    have "snd (rc003_atvv_tick snk t1 a) = ?c"
      using False assms(6) by (auto simp: tick_dropped [OF d] Let_def)
    moreover have c: "?c = ?a\<lparr>closing := True, close_queued := False, env := (env a)\<lparr>sent := sent (env a)
        @ [(atvv_build_mic_close (remote_stream_id a), True)]\<rparr>\<rparr>"
      using d assms(6) link by (simp add: snk_def stop_dropped dropped_def)
    moreover have "dropped ?c" using d by (simp add: c dropped_def)
    ultimately show ?thesis using assms(4) by (simp add: b_def tick_dropped Let_def)
  qed
qed

text \<open>A capture starts with a fresh seed, a second \<open>AUDIO_START\<close> makes it fail, and the link does not take
  the close.\<close>

definition demo_sink :: "recorder atvv_sink" where
  "demo_sink = recorder_sink ((<) 0) (\<lambda>_. True) (\<lambda>_. [])"

definition demo_calls :: "atvv_call list" where
  "demo_calls = [Set_profile True, Control [0x0B, 1, 0, 3, 1, 0, 120, 0, 0], Control [0x04, 1, 2, 5],
     Audio (replicate 200 7), Control [0x04, 1, 2, 6]]"

lemma demo_dropped:
  "let a = fold (atvv_perform demo_sink) demo_calls (recorder_start fault_boot)
   in stream_active a \<and> failed a \<and> \<not> closing a \<and> remote_stream_id a = 5 \<and> length (sent (env a)) = 1"
  by code_simp

theorem atvv_dropped_closes_witness:
  "closing (snd (rc003_atvv_tick demo_sink 2000 (snd (rc003_atvv_tick demo_sink 1000
     (fold (atvv_perform demo_sink) demo_calls (recorder_start fault_boot))))))"
  using atvv_dropped_closes [of "(<) 0" "\<lambda>_. True" "\<lambda>_. []" demo_calls fault_boot 2000 1000]
    demo_dropped
  by (simp add: demo_sink_def [symmetric] Let_def)

text \<open>With the seed profile of the device, 200 bytes into frames of 120 the engine stands in frame 1,
  byte 80.\<close>

theorem atvv_capture_protocol_witness:
  "let a = fold (atvv_perform demo_sink) (take 4 demo_calls) (recorder_start fault_boot)
   in (\<exists>p. capture_run (events (env a)) Idle = Some p \<and> tracks a p)
      \<and> frame_no a = 1 \<and> frame_bytes a = 80 \<and> map length [d. Encoded d \<leftarrow> events (env a)] = [200]"
proof -
  have "let a = fold (atvv_perform demo_sink) (take 4 demo_calls) (recorder_start fault_boot)
     in frame_no a = 1 \<and> frame_bytes a = 80 \<and> map length [d. Encoded d \<leftarrow> events (env a)] = [200]"
    by code_simp
  moreover have "\<exists>p. capture_run (events (env (fold (atvv_perform demo_sink) (take 4 demo_calls)
        (recorder_start fault_boot)))) Idle = Some p
      \<and> tracks (fold (atvv_perform demo_sink) (take 4 demo_calls) (recorder_start fault_boot)) p"
    using atvv_capture_protocol [of "(<) 0" "\<lambda>_. True" "\<lambda>_. []" "take 4 demo_calls" fault_boot]
    unfolding demo_sink_def by blast
  ultimately show ?thesis unfolding Let_def by blast
qed

end
