(* ===== verification/Adapter_State.thy ===== *)
theory Adapter_State
  imports Atvv Crc32c Report_Map Server_Calls
begin

text \<open>
  The data of the RC003 adapter (\<open>src/firmware/adapters/rc003/rc003_adapter.h\<close>, \<open>rc003_adapter.c\<close>),
  its surroundings, and the failure report.

  The struct contains the ATVV engine, and the engine's callbacks reach the rest of the struct through
  their user pointer: here the engine's surroundings (\<open>env\<close>) are the rest of the struct, the record
  \<open>adapter\<close>, which in turn holds the surroundings \<open>'w\<close> of the adapter (GATT client and server). An array
  with its count is a list. A GATT procedure is submitted to the client, which only starts it and reports
  later (\<open>gatt_client.h\<close>), so it acts on \<open>'w\<close>; a call of the server may come back into the adapter (the
  server stops the microphone or closes the link), so it acts on the whole state.
\<close>

section \<open>States of the discovery\<close>

datatype disc_state =
    ST_IDLE | ST_MTU
  | ST_FIND_GATT_SVC | ST_FIND_CHANGED_CHAR | ST_DISC_CHANGED_DESC | ST_SUB_CHANGED
  | ST_FIND_HID_SVC | ST_FIND_MAP_CHAR | ST_READ_MAP | ST_ENUM_REPORT_CHARS | ST_DISC_DESCS
  | ST_READ_REPORT_REF | ST_SUBSCRIBE_REPORT
  | ST_FIND_BAT_SVC | ST_FIND_BAT_CHAR | ST_DISC_BAT_DESCS | ST_READ_BATTERY | ST_SUBSCRIBE_BATTERY
  | ST_FIND_ATVV_SVC | ST_FIND_ATVV_TX | ST_FIND_ATVV_CTL | ST_FIND_ATVV_AUDIO
  | ST_DISC_CTL_DESC | ST_DISC_AUDIO_DESC | ST_SUBSCRIBE_CTL | ST_SUBSCRIBE_AUDIO
  | ST_ATVV_PREHANDSHAKE | ST_DONE | ST_FAILED
  | ST_FIND_PROTOCOL_MODE | ST_SET_PROTOCOL_MODE | ST_READ_MAP_CONT
  | ST_READ_PROTOCOL_MODE | ST_VERIFY_PROTOCOL_MODE
  | ST_FIND_HID_INFO | ST_READ_HID_INFO
  | ST_UNICOM_SERVICE | ST_UNICOM_CHAR | ST_UNICOM_DESC | ST_UNICOM_SUB | ST_UNICOM_WAIT

text \<open>The numbers of the enumeration appear in the failure report.\<close>

definition disc_states :: "disc_state list" where
  "disc_states =
     [ST_IDLE, ST_MTU, ST_FIND_GATT_SVC, ST_FIND_CHANGED_CHAR, ST_DISC_CHANGED_DESC, ST_SUB_CHANGED,
      ST_FIND_HID_SVC, ST_FIND_MAP_CHAR, ST_READ_MAP, ST_ENUM_REPORT_CHARS, ST_DISC_DESCS,
      ST_READ_REPORT_REF, ST_SUBSCRIBE_REPORT, ST_FIND_BAT_SVC, ST_FIND_BAT_CHAR, ST_DISC_BAT_DESCS,
      ST_READ_BATTERY, ST_SUBSCRIBE_BATTERY, ST_FIND_ATVV_SVC, ST_FIND_ATVV_TX, ST_FIND_ATVV_CTL,
      ST_FIND_ATVV_AUDIO, ST_DISC_CTL_DESC, ST_DISC_AUDIO_DESC, ST_SUBSCRIBE_CTL, ST_SUBSCRIBE_AUDIO,
      ST_ATVV_PREHANDSHAKE, ST_DONE, ST_FAILED, ST_FIND_PROTOCOL_MODE, ST_SET_PROTOCOL_MODE,
      ST_READ_MAP_CONT, ST_READ_PROTOCOL_MODE, ST_VERIFY_PROTOCOL_MODE, ST_FIND_HID_INFO,
      ST_READ_HID_INFO, ST_UNICOM_SERVICE, ST_UNICOM_CHAR, ST_UNICOM_DESC, ST_UNICOM_SUB,
      ST_UNICOM_WAIT]"

definition disc_code :: "disc_state \<Rightarrow> nat" where
  "disc_code st = length (takeWhile (\<lambda>x. x \<noteq> st) disc_states)"

abbreviation (input) INIT_TIMEOUT_MS :: u32 where "INIT_TIMEOUT_MS \<equiv> 2000"
abbreviation (input) ATT_RESPONSE_TIMEOUT_MS :: u32 where "ATT_RESPONSE_TIMEOUT_MS \<equiv> 30000"
abbreviation (input) INIT_TOTAL_TIMEOUT_MS :: u32 where "INIT_TOTAL_TIMEOUT_MS \<equiv> 60000"
abbreviation (input) RC003_MAX_REPORT_CHARS :: nat where "RC003_MAX_REPORT_CHARS \<equiv> 8"
abbreviation (input) RBP_FAULT_ADAPTER :: u16 where "RBP_FAULT_ADAPTER \<equiv> 8"

abbreviation (input) RBP_UUID16_HID_SERVICE :: u16 where "RBP_UUID16_HID_SERVICE \<equiv> 0x1812"
abbreviation (input) RBP_UUID16_BATTERY_SERVICE :: u16 where "RBP_UUID16_BATTERY_SERVICE \<equiv> 0x180F"
abbreviation (input) RBP_UUID16_HID_REPORT_MAP :: u16 where "RBP_UUID16_HID_REPORT_MAP \<equiv> 0x2A4B"
abbreviation (input) RBP_UUID16_HID_REPORT :: u16 where "RBP_UUID16_HID_REPORT \<equiv> 0x2A4D"
abbreviation (input) RBP_UUID16_PROTOCOL_MODE :: u16 where "RBP_UUID16_PROTOCOL_MODE \<equiv> 0x2A4E"
abbreviation (input) RBP_UUID16_BATTERY_LEVEL :: u16 where "RBP_UUID16_BATTERY_LEVEL \<equiv> 0x2A19"
abbreviation (input) RBP_UUID16_REPORT_REFERENCE :: u16 where "RBP_UUID16_REPORT_REFERENCE \<equiv> 0x2908"
abbreviation (input) RBP_UUID16_CCCD :: u16 where "RBP_UUID16_CCCD \<equiv> 0x2902"

section \<open>GATT client\<close>

datatype gatt_op =
    Exchange_mtu u16
  | Disc_service_by_uuid16 u16
  | Disc_service_by_uuid128 "u8 list"
  | Read_chars_by_uuid16 u16 u16 u16
  | Read_chars_by_uuid128 u16 u16 "u8 list"
  | Disc_char_descs u16 u16
  | Read_value u16
  | Read_long_value u16 u16
  | Write_value u16 "u8 list"
  | Write_command u16 "u8 list"

abbreviation (input) RBP_GATT_RETRY :: int where "RBP_GATT_RETRY \<equiv> - 2"

datatype gatt_evt_type =
    RBP_GATT_EVT_MTU_UPDATED
  | RBP_GATT_EVT_SERVICE_FOUND
  | RBP_GATT_EVT_SERVICE_NOT_FOUND
  | RBP_GATT_EVT_CHARS_FOUND
  | RBP_GATT_EVT_DESC_FOUND
  | RBP_GATT_EVT_READ_RSP
  | RBP_GATT_EVT_WRITE_DONE
  | RBP_GATT_EVT_NOTIFY
  | RBP_GATT_EVT_PROC_DONE
  | RBP_GATT_EVT_PROC_ERROR
  | RBP_GATT_EVT_BEARER_FAILED

text \<open>The value of an event and its length are a list; \<open>None\<close> is a null pointer, which comes with length 0.\<close>

record rbp_gatt_evt =
  ge_type :: gatt_evt_type
  ge_handle :: u16
  ge_svc_start :: u16
  ge_svc_end :: u16
  ge_desc_handle :: u16
  ge_uuid16 :: u16
  ge_offset :: u16
  ge_status :: u8
  ge_proc_complete :: bool
  ge_value :: "u8 list option"

definition ge_bytes :: "rbp_gatt_evt \<Rightarrow> u8 list" where
  "ge_bytes e = (case ge_value e of None \<Rightarrow> [] | Some v \<Rightarrow> v)"

section \<open>The adapter\<close>

record rc003_report_char =
  rc_value_handle :: u16
  rc_cccd_handle :: u16
  rc_ref_handle :: u16
  rc_report_id :: u8
  rc_report_type :: u8
  rc_properties :: u8
  rc_usage_page :: u8
  rc_subscribed :: bool

record unicom =
  un_selected :: bool
  un_hello :: bool
  un_active :: bool
  un_started :: bool
  un_closing :: bool
  un_previous_valid :: bool
  un_down :: bool
  un_pending_voice :: bool
  un_announced :: bool
  un_part :: u8
  un_command :: u8
  un_in_flight :: u8
  un_fb :: u16
  un_fc :: u16
  un_f8 :: u16
  un_fd :: u16
  un_fd_cccd :: u16
  un_sequence :: u16
  un_previous :: u16
  un_command_deadline :: u32
  un_refresh_ms :: u32
  un_last_audio_ms :: u32
  un_close_ms :: u32
  un_body :: "u8 list"
  un_preroll :: "u8 list"
  un_pre_head :: u8
  un_pre_count :: u8
  un_capture_session :: u32
  un_capture_ms :: u32

text \<open>\<open>map_bytes\<close> is \<open>map_buf\<close> up to \<open>map_len\<close>.\<close>

record 'w adapter =
  ad_state :: disc_state
  ad_retry :: bool
  ad_deadline_ms :: u32
  init_deadline_ms :: u32
  svc_start :: u16
  svc_end :: u16
  protocol_mode_handle :: u16
  hid_info_handle :: u16
  hid_flags :: u8
  hid_info_valid :: bool
  map_value_handle :: u16
  map_bytes :: "u8 list"
  report_map :: hogp_report_map
  report_chars :: "rc003_report_char list"
  cur_char :: nat
  bat_value_handle :: u16
  bat_cccd_handle :: u16
  atvv_tx_handle :: u16
  atvv_ctl_handle :: u16
  atvv_ctl_cccd :: u16
  atvv_audio_handle :: u16
  atvv_audio_cccd :: u16
  atvv_present :: bool
  ad_ready :: bool
  voice_ready :: bool
  rc003_boot_layout :: bool
  keys_by_report :: "u64 list"
  map_long_started :: bool
  desc_boundary :: bool
  voice_down_seen :: bool
  voice_key_verified :: bool
  service_changed_handle :: u16
  service_changed_cccd :: u16
  ad_pressed_bits :: u64
  unicom :: unicom
  ad_now_ms :: u32
  failed_stage :: disc_state
  last_att_error :: u8
  cache_peer_id :: u32
  cache_safe :: bool
  cache_valid :: bool
  restoring :: bool
  pending_search :: bool
  caps_requested :: bool
  world :: 'w

type_synonym 'w rc003_adapter = "'w adapter rc003_atvv"

text \<open>The surroundings and the two build options: the MTU, and whether the generic keyboards of the
  simulator are admitted.\<close>

record 'w adapter_port =
  RBP_ATT_MTU :: u16
  RBP_SIMULATOR :: bool
  p_gatt :: "gatt_op \<Rightarrow> 'w \<Rightarrow> int \<times> 'w"
  p_server :: "server_call \<Rightarrow> 'w rc003_adapter \<Rightarrow> 'w rc003_adapter"
  p_voice_wanted :: "'w \<Rightarrow> bool"
  p_capture_session :: "'w \<Rightarrow> u32"

text \<open>An update of the struct outside its ATVV engine.\<close>

definition cupd :: "('w adapter \<Rightarrow> 'w adapter) \<Rightarrow> 'w rc003_adapter \<Rightarrow> 'w rc003_adapter" where
  "cupd f a = a\<lparr>env := f (env a)\<rparr>"

definition uupd :: "(unicom \<Rightarrow> unicom) \<Rightarrow> 'w rc003_adapter \<Rightarrow> 'w rc003_adapter" where
  "uupd f = cupd (\<lambda>c. c\<lparr>unicom := f (unicom c)\<rparr>)"

definition gatt_do :: "'w adapter_port \<Rightarrow> gatt_op \<Rightarrow> 'w rc003_adapter \<Rightarrow> int \<times> 'w rc003_adapter" where
  "gatt_do P op a =
     (let (rc, w) = p_gatt P op (world (env a)) in (rc, cupd (\<lambda>c. c\<lparr>world := w\<rparr>) a))"

definition voice_wanted :: "'w adapter_port \<Rightarrow> 'w rc003_adapter \<Rightarrow> bool" where
  "voice_wanted P a = p_voice_wanted P (world (env a))"

definition capture_session :: "'w adapter_port \<Rightarrow> 'w rc003_adapter \<Rightarrow> u32" where
  "capture_session P a = p_capture_session P (world (env a))"

definition ad_fault :: "u16 \<Rightarrow> u32 \<Rightarrow> u32 \<Rightarrow> 'w rc003_adapter \<Rightarrow> 'w rc003_adapter" where
  "ad_fault stage code ctxt a =
     a\<lparr>atvv_faults := rbp_fault_record RBP_FAULT_ADAPTER stage code ctxt (atvv_faults a)\<rparr>"

section \<open>The failure report\<close>

text \<open>\<open>strstr\<close>, \<open>strchr\<close> (the index of the first occurrence) and a number in hexadecimal digits.\<close>

fun strstr :: "string \<Rightarrow> string \<Rightarrow> bool" where
  "strstr [] pat = (pat = [])"
| "strstr (c # s) pat = (take (length pat) (c # s) = pat \<or> strstr s pat)"

definition strchr :: "string \<Rightarrow> char \<Rightarrow> nat" where
  "strchr s x = length (takeWhile (\<lambda>c. c \<noteq> x) s)"

definition hex_digits :: "nat \<Rightarrow> u16 \<Rightarrow> string" where
  "hex_digits width v =
     map (\<lambda>j. ''0123456789ABCDEF'' ! unat (drop_bit (4 * (width - 1 - j)) v AND 15)) [0..<width]"

text \<open>One round of the loop: the digits go two characters after the first occurrence of the letter, in
  the message as it is by then.\<close>

definition put_field :: "string \<Rightarrow> char \<times> u16 \<times> nat \<Rightarrow> string" where
  "put_field msg = (\<lambda>(c, v, width). memcpy_at msg (strchr msg c + 2) (hex_digits width v))"

definition init_message :: "bool \<Rightarrow> 'w adapter \<Rightarrow> string" where
  "init_message timed_out c =
     (let msg = foldl put_field ''init failed: S=00 E=00 M=0000 N=00 I=00 T=0''
        [(CHR ''S'', of_nat (disc_code (ad_state c)), 2), (CHR ''E'', ucast (last_att_error c), 2),
         (CHR ''M'', of_nat (length (map_bytes c)), 4),
         (CHR ''N'', of_nat (length (report_chars c)), 2), (CHR ''I'', of_nat (cur_char c mod 256), 2)]
      in if timed_out then butlast msg @ ''1'' else msg)"

definition runtime_message :: "string \<Rightarrow> u8 \<Rightarrow> string" where
  "runtime_message cause err =
     ''runtime E='' @ hex_digits 2 (ucast err) @ '': '' @ take 33 cause"

definition fail_init :: "'w adapter_port \<Rightarrow> string \<Rightarrow> bool \<Rightarrow> 'w rc003_adapter \<Rightarrow> 'w rc003_adapter" where
  "fail_init P cause invalidate_cache a =
     (let a = (if invalidate_cache then cupd (\<lambda>c. c\<lparr>cache_valid := False, cache_safe := False\<rparr>) a else a);
          a = cupd (\<lambda>c. c\<lparr>pending_search := False, failed_stage := ad_state c\<rparr>) a;
          timed_out = strstr cause ''timeout'';
          a = ad_fault (of_nat (disc_code (ad_state (env a)))) (ucast (last_att_error (env a)))
                (if timed_out then 1 else 0) a;
          message = init_message timed_out (env a);
          a = cupd (\<lambda>c. c\<lparr>ad_state := ST_FAILED\<rparr>) a
      in p_server P (C_adapter_failed (Some (cstr
           (if failed_stage (env a) = ST_DONE then runtime_message cause (last_att_error (env a))
            else message)))) a)"

definition fail_initialization :: "'w adapter_port \<Rightarrow> string \<Rightarrow> 'w rc003_adapter \<Rightarrow> 'w rc003_adapter" where
  "fail_initialization P cause = fail_init P cause True"

definition fail_transport :: "'w adapter_port \<Rightarrow> string \<Rightarrow> 'w rc003_adapter \<Rightarrow> 'w rc003_adapter" where
  "fail_transport P cause = fail_init P cause False"

end
