(* ===== verification/Adapter_Runtime.thy ===== *)
theory Adapter_Runtime
  imports Adapter_State
begin

text \<open>
  The adapter on an initialised link: the sink it gives to the ATVV engine, the key state of the RC003
  profile (\<open>src/firmware/adapters/rc003/rc003_adapter.c\<close>) and the runtime of the Unicom profile
  (\<open>unicom_runtime.inc\<close>, \<open>unicom_profile.inc\<close>), whose voice comes in numbered thirds of a unit and waits in
  a ring of eight units until the host wants it.
\<close>

section \<open>The sink of the ATVV engine\<close>

definition on_voice :: "'w adapter_port \<Rightarrow> rbp_voice_evt \<Rightarrow> 'w rc003_adapter \<Rightarrow> 'w rc003_adapter" where
  "on_voice P ev a = p_server P (C_voice ev (ad_now_ms (env a))) a"

definition atvv_write_tx :: "'w adapter_port \<Rightarrow> u8 list \<Rightarrow> 'w adapter \<Rightarrow> bool \<times> 'w adapter" where
  "atvv_write_tx P data c =
     (if atvv_tx_handle c = 0 then (False, c)
      else let (rc, w) = p_gatt P (Write_command (atvv_tx_handle c) data) (world c)
           in (rc = 0, c\<lparr>world := w\<rparr>))"

definition atvv_on_encoded :: "'w adapter_port \<Rightarrow> u8 list \<Rightarrow> 'w rc003_adapter \<Rightarrow> 'w rc003_adapter" where
  "atvv_on_encoded P data =
     on_voice P (RBP_VOICE_EVT_ENCODED (Some data) (length data) (of_nat (length data)) 0
       (of_nat (length data) * 2))"

definition atvv_on_fault :: "'w adapter_port \<Rightarrow> u8 \<Rightarrow> 'w rc003_adapter \<Rightarrow> 'w rc003_adapter" where
  "atvv_on_fault P reason a =
     (if reason = RBP_END_DEVICE_ERROR \<and> \<not> stream_active a
      then fail_transport P ''microphone command timeout'' a
      else on_voice P (RBP_VOICE_EVT_FAULT reason) a)"

definition adapter_sink :: "'w adapter_port \<Rightarrow> 'w adapter atvv_sink" where
  "adapter_sink P =
     \<lparr>write_tx = atvv_write_tx P, want_voice = Some (\<lambda>c. p_voice_wanted P (world c)),
      on_source_begin = Some (on_voice P RBP_VOICE_EVT_SOURCE_BEGIN),
      on_started = \<lambda>f. on_voice P (RBP_VOICE_EVT_START f),
      on_encoded = atvv_on_encoded P,
      on_format = \<lambda>f. on_voice P (RBP_VOICE_EVT_FORMAT f),
      on_ended = \<lambda>r. on_voice P (RBP_VOICE_EVT_END r),
      on_fault = Some (atvv_on_fault P)\<rparr>"

definition mic_request_start :: "'w adapter_port \<Rightarrow> 'w rc003_adapter \<Rightarrow> 'w rc003_adapter" where
  "mic_request_start P a = snd (rc003_atvv_request_start (adapter_sink P) a)"

definition mic_request_stop :: "'w adapter_port \<Rightarrow> 'w rc003_adapter \<Rightarrow> 'w rc003_adapter" where
  "mic_request_stop P a = snd (rc003_atvv_request_stop (adapter_sink P) a)"

definition finish_voice_ready :: "'w adapter_port \<Rightarrow> 'w rc003_adapter \<Rightarrow> 'w rc003_adapter" where
  "finish_voice_ready P a =
     (if ad_state (env a) \<noteq> ST_ATVV_PREHANDSHAKE \<or> \<not> caps_valid a \<or> \<not> atvv_present (env a)
         \<or> \<not> caps_requested (env a) then a
      else
        let a = cupd (\<lambda>c. c\<lparr>voice_ready := True, ad_state := ST_DONE, ad_ready := True,
                            ad_retry := False\<rparr>) a;
            interaction = (if cap_interaction (atvv_caps a) = 0 then RBP_VI_ON_REQUEST
                           else if cap_interaction (atvv_caps a) = 1 then RBP_VI_PTT else RBP_VI_HTT);
            a = p_server P (C_voice_state RBP_VOICE_READY interaction (atvv_rate a)) a;
            a = p_server P (C_link RBP_LINK_READY 0 (ad_now_ms (env a))) a;
            a = cupd (\<lambda>c. c\<lparr>cache_valid := cache_safe c \<and> cache_peer_id c \<noteq> 0,
                            restoring := False\<rparr>) a
        in if pending_search (env a)
              \<or> (cap_interaction (atvv_caps a) \<noteq> 1 \<and> voice_down_seen (env a))
           then mic_request_start P (cupd (\<lambda>c. c\<lparr>pending_search := False\<rparr>) a)
           else a)"

section \<open>Keys\<close>

definition key_state_send :: "'w adapter_port \<Rightarrow> u64 \<Rightarrow> 'w rc003_adapter \<Rightarrow> 'w rc003_adapter" where
  "key_state_send P bits a =
     p_server P (C_keys \<lparr>kr_connection_id = 0, kr_kind = RBP_KEYS_KIND_PHYSICAL, kr_reason = 0,
        kr_pressed_bits = bits, kr_captured_us = ucast (ad_now_ms (env a)) * 1000\<rparr>) a"

definition key_slot :: "u16 \<Rightarrow> nat" where
  "key_slot key_id =
     (let keys = map fst (take (key_count RBP_PROFILE_RC003_VOICE) (dp_keys RBP_PROFILE_RC003_VOICE));
          i = length (takeWhile (\<lambda>k. k \<noteq> key_id) keys)
      in if i < length keys then i else 0xFFFF)"

text \<open>The two loops over the reports and over the key numbers.\<close>

definition all_keys :: "'w adapter \<Rightarrow> u64" where
  "all_keys c = foldl (OR) 0 (take (length (report_chars c)) (keys_by_report c))"

definition slot_bits :: "bool \<Rightarrow> u64 \<Rightarrow> u64" where
  "slot_bits voice_ok keys =
     foldl (\<lambda>bits k. if bit keys k \<and> (k = unat RBP_KEY_VOICE \<longrightarrow> voice_ok) \<and> key_slot (of_nat k) < 64
                     then bits OR push_bit (key_slot (of_nat k)) 1 else bits) 0 [1..<64]"

definition send_if_changed :: "'w adapter_port \<Rightarrow> u64 \<Rightarrow> 'w rc003_adapter \<Rightarrow> 'w rc003_adapter" where
  "send_if_changed P bits a =
     (if bits \<noteq> ad_pressed_bits (env a)
      then key_state_send P bits (cupd (\<lambda>c. c\<lparr>ad_pressed_bits := bits\<rparr>) a) else a)"

definition recompute_keys :: "'w adapter_port \<Rightarrow> 'w rc003_adapter \<Rightarrow> 'w rc003_adapter" where
  "recompute_keys P a =
     (let keys = all_keys (env a);
          voice_now = bit keys (unat RBP_KEY_VOICE);
          a = (if \<not> voice_now \<and> voice_down_seen (env a)
               then cupd (\<lambda>c. c\<lparr>pending_search := False\<rparr>) a else a);
          a = (if voice_ready (env a) \<and> cap_interaction (atvv_caps a) \<noteq> 1 then
                 if voice_now \<and> \<not> voice_down_seen (env a) then mic_request_start P a
                 else if \<not> voice_now \<and> voice_down_seen (env a) then mic_request_stop P a else a
               else a);
          a = (if voice_now then cupd (\<lambda>c. c\<lparr>voice_down_seen := True\<rparr>) a
               else if voice_down_seen (env a) \<and> \<not> voice_key_verified (env a)
               then p_server P (C_profile (Some RBP_PROFILE_RC003_VOICE))
                      (cupd (\<lambda>c. c\<lparr>voice_key_verified := True\<rparr>) a)
               else a);
          a = cupd (\<lambda>c. c\<lparr>voice_down_seen := voice_now\<rparr>) a
      in send_if_changed P (slot_bits (voice_key_verified (env a)) keys) a)"

section \<open>Unicom\<close>

definition unicom_zero :: unicom where
  "unicom_zero = \<lparr>un_selected = False, un_hello = False, un_active = False, un_started = False,
     un_closing = False, un_previous_valid = False, un_down = False, un_pending_voice = False,
     un_announced = False, un_part = 0, un_command = 0, un_in_flight = 0, un_fb = 0, un_fc = 0,
     un_f8 = 0, un_fd = 0, un_fd_cccd = 0, un_sequence = 0, un_previous = 0, un_command_deadline = 0,
     un_refresh_ms = 0, un_last_audio_ms = 0, un_close_ms = 0, un_body = replicate 48 0,
     un_preroll = replicate 320 0, un_pre_head = 0, un_pre_count = 0, un_capture_session = 0,
     un_capture_ms = 0\<rparr>"

text \<open>The profile: the measured report map, and the keys with the report and usage of each.\<close>

definition unicom_map :: "u8 list" where
  "unicom_map =
     [0x05,0x01,0x09,0x06,0xa1,0x01,0x85,0x01,0x05,0x07,0x19,0xe0,0x29,0xe7,0x15,0x00,0x25,0x01,0x75,0x01,
      0x95,0x08,0x81,0x02,0x95,0x01,0x75,0x08,0x81,0x01,0x95,0x05,0x75,0x01,0x05,0x08,0x19,0x01,0x29,0x05,
      0x91,0x02,0x95,0x01,0x75,0x03,0x91,0x01,0x95,0x06,0x75,0x08,0x15,0x00,0x25,0xff,0x05,0x07,0x19,0x00,
      0x29,0xff,0x81,0x00,0xc0,0x05,0x0c,0x09,0x01,0xa1,0x01,0x85,0x03,0x19,0x00,0x2a,0xff,0x03,0x15,0x00,
      0x26,0xff,0x03,0x95,0x01,0x75,0x10,0x81,0x00,0xc0,0x05,0x0c,0x09,0x01,0xa1,0x01,0x85,0x04,0x95,0x14,
      0x75,0x08,0x15,0x00,0x25,0xff,0x81,0x00,0xc0,0x05,0x0c,0x09,0x01,0xa1,0x01,0x85,0xfc,0x95,0x14,0x75,
      0x08,0x15,0x00,0x26,0xff,0x00,0x81,0x00,0xc0,0x05,0x0c,0x09,0x01,0xa1,0x01,0x85,0xf8,0x95,0x14,0x75,
      0x08,0x15,0x00,0x26,0xff,0x00,0x81,0x00,0xc0,0x05,0x0c,0x09,0x01,0xa1,0x01,0x85,0xf9,0x95,0x01,0x75,
      0x08,0x15,0x00,0x26,0xff,0x00,0x81,0x00,0xc0]"

definition unicom_keys_map :: "(u8 \<times> u16 \<times> u16) list" where
  "unicom_keys_map =
     [(1, 102, RBP_KEY_POWER), (1, 127, RBP_KEY_MUTE), (3, 246, RBP_KEY_SETTINGS), (1, 82, RBP_KEY_UP),
      (1, 81, RBP_KEY_DOWN), (1, 80, RBP_KEY_LEFT), (1, 79, RBP_KEY_RIGHT), (1, 40, RBP_KEY_OK),
      (3, 547, RBP_KEY_HOME), (3, 1023, RBP_KEY_LOCAL), (1, 243, RBP_KEY_BACK),
      (1, 128, RBP_KEY_VOLUME_UP), (1, 129, RBP_KEY_VOLUME_DOWN), (3, 156, RBP_KEY_CHANNEL_UP),
      (3, 157, RBP_KEY_CHANNEL_DOWN), (1, 234, RBP_KEY_VOICE), (1, 30, RBP_KEY_DIGIT_1),
      (1, 31, RBP_KEY_DIGIT_2), (1, 32, RBP_KEY_DIGIT_3), (1, 33, RBP_KEY_DIGIT_4),
      (1, 34, RBP_KEY_DIGIT_5), (1, 35, RBP_KEY_DIGIT_6), (1, 36, RBP_KEY_DIGIT_7),
      (1, 37, RBP_KEY_DIGIT_8), (1, 38, RBP_KEY_DIGIT_9), (3, 771, RBP_KEY_STAR),
      (1, 39, RBP_KEY_DIGIT_0), (3, 772, RBP_KEY_HASH)]"

definition unicom_end :: "'w adapter_port \<Rightarrow> u8 \<Rightarrow> 'w rc003_adapter \<Rightarrow> 'w rc003_adapter" where
  "unicom_end P reason a =
     (let active = un_announced (unicom (env a));
          a = uupd (\<lambda>u. u\<lparr>un_active := False, un_started := False, un_closing := False, un_part := 0,
                          un_previous_valid := False, un_announced := False, un_pre_head := 0,
                          un_pre_count := 0\<rparr>) a
      in if active then on_voice P (RBP_VOICE_EVT_END reason) a else a)"

definition unicom_bad :: "'w adapter_port \<Rightarrow> string \<Rightarrow> 'w rc003_adapter \<Rightarrow> 'w rc003_adapter" where
  "unicom_bad P why a = fail_initialization P why (unicom_end P RBP_END_SOURCE_DATA_LOST a)"

definition unicom_stream_fault :: "'w adapter_port \<Rightarrow> string \<Rightarrow> 'w rc003_adapter \<Rightarrow> 'w rc003_adapter" where
  "unicom_stream_fault P why a = fail_transport P why (unicom_end P RBP_END_SOURCE_DATA_LOST a)"

text \<open>The inner and the outer loop of \<open>unicom_reports\<close>: the reports that have the id, their number,
  and the handles found so far, which stay set when the check fails.\<close>

definition keep_handle :: "u8 \<Rightarrow> u16 \<Rightarrow> unicom \<Rightarrow> unicom" where
  "keep_handle i h u = (if i = 0xFB then u\<lparr>un_fb := h\<rparr> else if i = 0xFC then u\<lparr>un_fc := h\<rparr>
     else if i = 0xF8 then u\<lparr>un_f8 := h\<rparr> else u)"

fun scan_reports :: "u8 \<Rightarrow> rc003_report_char list \<Rightarrow> nat \<Rightarrow> unicom \<Rightarrow> bool \<times> nat \<times> unicom" where
  "scan_reports i [] n u = (True, n, u)"
| "scan_reports i (c # cs) n u =
     (if rc_report_id c \<noteq> i then scan_reports i cs n u
      else
        let output = (i = 0xFB \<or> i = 0xFA) in
        if rc_report_type c \<noteq> (if output then 2 else 1)
           \<or> (if output then rc_properties c AND 8 = 0
              else rc_properties c AND 0x10 = 0 \<or> \<not> rc_subscribed c)
        then (False, n + 1, u)
        else scan_reports i cs (n + 1) (keep_handle i (rc_value_handle c) u))"

fun check_reports :: "u8 list \<Rightarrow> rc003_report_char list \<Rightarrow> unicom \<Rightarrow> bool \<times> unicom" where
  "check_reports [] cs u = (True, u)"
| "check_reports (i # is) cs u =
     (let (ok, n, u) = scan_reports i cs 0 u
      in if \<not> ok \<or> n \<noteq> 1 then (False, u) else check_reports is cs u)"

definition unicom_ids :: "u8 list" where
  "unicom_ids = [1, 3, 0xFC, 0xFB, 0xF8, 0xFA, 0xF9, 4]"

definition unicom_reports :: "'w rc003_adapter \<Rightarrow> bool \<times> 'w rc003_adapter" where
  "unicom_reports a =
     (if length (report_chars (env a)) \<noteq> length unicom_ids then (False, a)
      else let (ok, u) = check_reports unicom_ids (report_chars (env a)) (unicom (env a))
           in (ok, uupd (\<lambda>_. u) a))"

definition unicom_ready :: "'w adapter_port \<Rightarrow> 'w rc003_adapter \<Rightarrow> 'w rc003_adapter" where
  "unicom_ready P a =
     (let a = cupd (\<lambda>c. c\<lparr>ad_state := ST_DONE, ad_ready := True, voice_ready := un_hello (unicom c),
                          ad_retry := False,
                          cache_valid := cache_safe c \<and> cache_peer_id c \<noteq> 0 \<and> un_hello (unicom c),
                          restoring := False\<rparr>) a;
          a = p_server P (C_profile (Some RBP_PROFILE_UNICOM)) a;
          a = p_server P (C_voice_caps (Some \<lparr>ac_codecs = [\<lparr>co_id = RBP_CODEC_IFLYTEK_ICO,
                co_revision = 1\<rparr>], ac_max_unit_bytes = 40\<rparr>)) a;
          a = p_server P (if voice_ready (env a) then C_voice_state RBP_VOICE_READY RBP_VI_HTT 16000
                          else C_voice_state RBP_VOICE_UNSUPPORTED RBP_VI_UNAVAILABLE 0) a
      in p_server P (C_link RBP_LINK_READY 0 (ad_now_ms (env a))) a)"

definition unicom_stop :: "'w rc003_adapter \<Rightarrow> 'w rc003_adapter" where
  "unicom_stop a =
     (let u = unicom (env a) in
      if \<not> un_active u \<or> un_closing u then a
      else uupd (\<lambda>u. u\<lparr>un_closing := True, un_close_ms := ad_now_ms (env a),
                       un_pre_head := (if un_announced u then un_pre_head u else 0),
                       un_pre_count := (if un_announced u then un_pre_count u else 0),
                       un_command := 2\<rparr>) a)"

definition unicom_start_pending :: "'w adapter_port \<Rightarrow> 'w rc003_adapter \<Rightarrow> 'w rc003_adapter" where
  "unicom_start_pending P a =
     (let c = env a; u = unicom c in
      if \<not> un_pending_voice u \<or> \<not> un_down u \<or> \<not> ad_ready c \<or> \<not> voice_ready c \<or> un_active u then a
      else
        let owner = capture_session P a;
            a = uupd (\<lambda>u. u\<lparr>un_pending_voice := False\<rparr>) a
        in if owner = 0 \<or> owner \<noteq> un_capture_session u then a
           else
             let now = ad_now_ms (env a);
                 a = uupd (\<lambda>u. u\<lparr>un_active := True, un_started := False, un_closing := False,
                       un_part := 0, un_previous_valid := False, un_command := 1,
                       un_last_audio_ms := now, un_capture_ms := now, un_pre_head := 0,
                       un_pre_count := 0, un_announced := voice_wanted P a\<rparr>) a
             in if un_announced (unicom (env a)) then on_voice P RBP_VOICE_EVT_SOURCE_BEGIN a else a)"

definition unicom_begin :: "'w adapter_port \<Rightarrow> 'w rc003_adapter \<Rightarrow> 'w rc003_adapter" where
  "unicom_begin P a = on_voice P RBP_VOICE_EVT_SOURCE_BEGIN (uupd (\<lambda>u. u\<lparr>un_announced := True\<rparr>) a)"

definition unicom_format :: rbp_audio_format where
  "unicom_format = \<lparr>af_codec_id = RBP_CODEC_IFLYTEK_ICO, af_sample_rate = 16000,
     af_max_unit_bytes = 40, af_codec_revision = 1, af_config_len = 0, af_channels = 1,
     af_config = None\<rparr>"

definition unicom_emit :: "'w adapter_port \<Rightarrow> u8 list \<Rightarrow> 'w rc003_adapter \<Rightarrow> bool \<times> 'w rc003_adapter" where
  "unicom_emit P p a =
     (let u = unicom (env a) in
      if \<not> voice_wanted P a \<or> capture_session P a \<noteq> un_capture_session u then (False, a)
      else if \<not> un_announced u \<and> un_closing u then (False, a)
      else
        let a = (if un_announced u then a else unicom_begin P a);
            a = (if un_started (unicom (env a)) then a
                 else on_voice P (RBP_VOICE_EVT_START unicom_format)
                        (uupd (\<lambda>u. u\<lparr>un_started := True\<rparr>) a))
        in (True, on_voice P (RBP_VOICE_EVT_ENCODED (Some p) 40 40 0 320) a))"

definition unicom_preroll_cancel :: "u8 \<Rightarrow> 'w rc003_adapter \<Rightarrow> 'w rc003_adapter" where
  "unicom_preroll_cancel reason a =
     (let a = (if reason \<noteq> 0
               then ad_fault 0x90 (ucast reason) (ucast (un_pre_count (unicom (env a)))) a else a)
      in unicom_stop (uupd (\<lambda>u. u\<lparr>un_pre_count := 0\<rparr>) a))"

text \<open>The unit at the head of the ring, and the parts of \<open>unicom_tick\<close>.\<close>

definition preroll_unit :: "unicom \<Rightarrow> nat \<Rightarrow> u8 list" where
  "preroll_unit u i = take 40 (drop (40 * i) (un_preroll u))"

definition unicom_tick_drain :: "'w adapter_port \<Rightarrow> 'w rc003_adapter \<Rightarrow> 'w rc003_adapter" where
  "unicom_tick_drain P a =
     (let u = unicom (env a) in
      if un_pre_count u = 0 then a
      else let (ok, a) = unicom_emit P (preroll_unit u (unat (un_pre_head u))) a
           in if ok then uupd (\<lambda>u. u\<lparr>un_pre_head := (un_pre_head u + 1) mod 8,
                                     un_pre_count := un_pre_count u - 1\<rparr>) a
              else a)"

definition unicom_tick_capture :: "'w adapter_port \<Rightarrow> 'w rc003_adapter \<Rightarrow> 'w rc003_adapter" where
  "unicom_tick_capture P a =
     (let a = (if capture_session P a \<noteq> un_capture_session (unicom (env a))
                  \<or> (un_announced (unicom (env a)) \<and> \<not> voice_wanted P a)
               then unicom_preroll_cancel 0 a else a);
          a = (if \<not> un_announced (unicom (env a)) \<and> \<not> un_closing (unicom (env a)) \<and> voice_wanted P a
               then unicom_begin P a else a);
          a = (if \<not> un_announced (unicom (env a)) \<and> \<not> un_closing (unicom (env a))
                  \<and> ad_now_ms (env a) - un_capture_ms (unicom (env a)) \<ge> 250
               then unicom_preroll_cancel RBP_END_CONSUMER_DISABLED a else a)
      in unicom_tick_drain P a)"

definition unicom_submit :: "'w adapter_port \<Rightarrow> 'w rc003_adapter \<Rightarrow> 'w rc003_adapter" where
  "unicom_submit P a =
     (let cmd = un_command (unicom (env a)) in
      if cmd = 0 then a
      else
        let now = ad_now_ms (env a);
            a = uupd (\<lambda>u. u\<lparr>un_in_flight := cmd, un_command := 0,
                            un_command_deadline := now + ATT_RESPONSE_TIMEOUT_MS\<rparr>) a;
            (rc, a) = gatt_do P (Write_value (un_fb (unicom (env a))) [if cmd = 1 then 1 else 0]) a
        in if rc = RBP_GATT_RETRY then uupd (\<lambda>u. u\<lparr>un_in_flight := 0, un_command := cmd\<rparr>) a
           else if rc < 0
           then unicom_stream_fault P ''Unicom command rejected'' (uupd (\<lambda>u. u\<lparr>un_in_flight := 0\<rparr>) a)
           else if cmd = 1 then uupd (\<lambda>u. u\<lparr>un_refresh_ms := now + 5000\<rparr>) a
           else a)"

definition unicom_tick_commands :: "'w adapter_port \<Rightarrow> 'w rc003_adapter \<Rightarrow> 'w rc003_adapter" where
  "unicom_tick_commands P a =
     (let u = unicom (env a); now = ad_now_ms (env a) in
      if un_closing u \<and> un_command u \<noteq> 0 \<and> un_in_flight u = 0 \<and> now - un_close_ms u \<ge> 2000
      then unicom_stream_fault P ''Unicom stop submission timeout'' a
      else if un_in_flight u \<noteq> 0 then
        (if reached now (un_command_deadline u) then unicom_stream_fault P ''Unicom command timeout'' a
         else a)
      else if un_active u \<and> un_closing u \<and> un_command u = 0
              \<and> ((now - un_last_audio_ms u \<ge> 300 \<and> now - un_close_ms u \<ge> 300)
                 \<or> now - un_close_ms u \<ge> 1000)
      then unicom_end P (if un_part u \<noteq> 0 then RBP_END_SOURCE_DATA_LOST
                         else if un_started u then RBP_END_NORMAL else RBP_END_DEVICE_ERROR) a
      else if un_active u \<and> \<not> un_closing u \<and> now - un_last_audio_ms u \<ge> 2000
      then unicom_stream_fault P ''Unicom audio timeout'' a
      else unicom_submit P
        (if un_active u \<and> \<not> un_closing u \<and> un_started u \<and> reached now (un_refresh_ms u)
         then uupd (\<lambda>u. u\<lparr>un_command := 1\<rparr>) a else a))"

definition unicom_tick :: "'w adapter_port \<Rightarrow> 'w rc003_adapter \<Rightarrow> 'w rc003_adapter" where
  "unicom_tick P a =
     (if ad_state (env a) = ST_UNICOM_WAIT then
        if un_hello (unicom (env a)) \<or> reached (ad_now_ms (env a)) (ad_deadline_ms (env a))
        then unicom_ready P a else a
      else if ad_state (env a) \<noteq> ST_DONE \<or> \<not> voice_ready (env a) then a
      else
        let a = unicom_start_pending P a;
            a = (if un_active (unicom (env a)) then unicom_tick_capture P a else a)
        in unicom_tick_commands P a)"

definition unicom_usages :: "u8 \<Rightarrow> u8 list \<Rightarrow> u16 list" where
  "unicom_usages i p = (if i = 1 then map ucast (take 6 (drop 2 p))
     else [ucast (p ! 0) OR push_bit 8 (ucast (p ! 1))])"

definition unicom_keys_report :: "'w adapter_port \<Rightarrow> nat \<Rightarrow> u8 list \<Rightarrow> 'w rc003_adapter \<Rightarrow> 'w rc003_adapter" where
  "unicom_keys_report P index p a =
     (let i = rc_report_id (report_chars (env a) ! index); usages = unicom_usages i p in
      if (i = 1 \<and> (length p \<noteq> 8 \<or> p ! 0 \<noteq> 0 \<or> p ! 1 \<noteq> 0)) \<or> (i = 3 \<and> length p \<noteq> 2)
      then unicom_bad P ''Unicom key layout'' a
      else if \<exists>usage \<in> set usages. usage \<noteq> 0
                \<and> \<not> (\<exists>(r, us, k) \<in> set unicom_keys_map. r = i \<and> us = usage)
      then unicom_bad P ''Unicom unknown key report'' a
      else
        let bits = foldl (\<lambda>bits j. let (r, us, k) = unicom_keys_map ! j in
                     if r = i \<and> us \<in> set usages then bits OR push_bit j 1 else bits)
                   (0 :: u64) [0..<length unicom_keys_map];
            a = cupd (\<lambda>c. c\<lparr>keys_by_report := (keys_by_report c)[index := bits]\<rparr>) a
        in send_if_changed P (all_keys (env a)) a)"

text \<open>The three kinds of notification with a meaning of their own: the greeting, the voice button and a
  third of an encoded unit.\<close>

definition unicom_hello :: "u8 list" where
  "unicom_hello = [0x10, 1, 0x4B, 0x2A, 3, 2, 4, 0, 2, 3]"

definition unicom_notify_fd :: "'w adapter_port \<Rightarrow> u8 list \<Rightarrow> 'w rc003_adapter \<Rightarrow> 'w rc003_adapter" where
  "unicom_notify_fd P v a =
     (if v \<noteq> unicom_hello then unicom_bad P ''Unicom initialization mismatch'' a
      else
        let first = \<not> un_hello (unicom (env a));
            a = uupd (\<lambda>u. u\<lparr>un_hello := True\<rparr>) a
        in if first \<and> (ad_state (env a) = ST_UNICOM_WAIT \<or> ad_state (env a) = ST_DONE)
           then unicom_ready P a else a)"

definition unicom_notify_f8 :: "'w adapter_port \<Rightarrow> u8 list \<Rightarrow> 'w rc003_adapter \<Rightarrow> 'w rc003_adapter" where
  "unicom_notify_f8 P v a =
     (if \<not> (length v = 20 \<and> v ! 0 = 0x82 \<and> v ! 1 = 3 \<and> v ! 2 \<le> 1 \<and> (\<forall>b \<in> set (drop 3 v). b = 0))
      then unicom_bad P ''Unicom F8 mismatch'' a
      else
        let down = (v ! 2 \<noteq> 0); edge = (down \<and> \<not> un_down (unicom (env a)));
            a = uupd (\<lambda>u. u\<lparr>un_down := down\<rparr>) a
        in if \<not> down then unicom_stop (uupd (\<lambda>u. u\<lparr>un_pending_voice := False\<rparr>) a)
           else unicom_start_pending P
             (if edge \<and> \<not> un_active (unicom (env a))
              then uupd (\<lambda>u. u\<lparr>un_capture_session := capture_session P a,
                               un_pending_voice := (capture_session P a \<noteq> 0)\<rparr>) a
              else a))"

definition fc_continues :: "u16 \<Rightarrow> u16 \<Rightarrow> unicom \<Rightarrow> bool" where
  "fc_continues seq part u \<longleftrightarrow> part = ucast (un_part u) \<and> part \<le> 2 \<and> (part \<noteq> 0 \<longrightarrow> seq = un_sequence u)
     \<and> (part = 0 \<and> un_previous_valid u \<longrightarrow> seq = un_previous u + 1)"

text \<open>A complete unit: straight to the server, or behind those that wait.\<close>

definition unicom_unit :: "'w adapter_port \<Rightarrow> 'w rc003_adapter \<Rightarrow> 'w rc003_adapter" where
  "unicom_unit P a =
     (let u = unicom (env a) in
      if \<not> un_announced u \<and> un_closing u then a
      else if capture_session P a \<noteq> un_capture_session u then unicom_preroll_cancel 0 a
      else
        let (sent, a) = (if un_pre_count u = 0 then unicom_emit P (take 40 (un_body u)) a else (False, a));
            u = unicom (env a)
        in if sent then a
           else if un_announced u \<and> \<not> voice_wanted P a then unicom_stop a
           else if un_pre_count u = 8 then
             (if un_announced u then unicom_stream_fault P ''Unicom buffered audio overrun'' a
              else unicom_preroll_cancel RBP_END_BUFFER_OVERRUN a)
           else uupd (\<lambda>u. u\<lparr>un_preroll := memcpy_at (un_preroll u)
                              (40 * ((unat (un_pre_head u) + unat (un_pre_count u)) mod 8))
                              (take 40 (un_body u)),
                            un_pre_count := un_pre_count u + 1\<rparr>) a)"

definition unicom_notify_fc :: "'w adapter_port \<Rightarrow> u8 list \<Rightarrow> 'w rc003_adapter \<Rightarrow> 'w rc003_adapter" where
  "unicom_notify_fc P v a =
     (let u = unicom (env a) in
      if \<not> un_active u then a
      else if length v \<noteq> 20 then unicom_bad P ''Unicom FC length'' a
      else
        let seq = ucast (v ! 0) OR push_bit 8 (ucast (v ! 1)) :: u16;
            part = ucast (v ! 2) OR push_bit 8 (ucast (v ! 3)) :: u16
        in if \<not> fc_continues seq part u then
             let expected = (if un_part u \<noteq> 0 then un_sequence u
                             else if un_previous_valid u then un_previous u + 1 else 0xFFFF)
             in unicom_stream_fault P ''Unicom FC continuity''
                  (ad_fault 0x91 (ucast seq OR push_bit 16 (ucast part))
                     (ucast expected OR push_bit 16 (ucast (un_part u))) a)
           else
             let a = uupd (\<lambda>u. u\<lparr>un_sequence := (if part = 0 then seq else un_sequence u),
                             un_body := memcpy_at (un_body u) (16 * unat part) (drop 4 v),
                             un_part := un_part u + 1, un_last_audio_ms := ad_now_ms (env a)\<rparr>) a;
                 p = un_body (unicom (env a))
             in if part \<noteq> 2 then a
                else if (ucast (p ! 42) OR push_bit 8 (ucast (p ! 43)) :: u16) \<noteq> seq
                        \<or> take 4 (drop 44 p) \<noteq> take 4 (drop 28 p)
                then unicom_bad P ''Unicom FC trailer'' a
                else unicom_unit P (uupd (\<lambda>u. u\<lparr>un_part := 0, un_previous := seq,
                                                un_previous_valid := True\<rparr>) a))"

definition char_index :: "u16 \<Rightarrow> 'w adapter \<Rightarrow> nat option" where
  "char_index h c = (let i = length (takeWhile (\<lambda>r. rc_value_handle r \<noteq> h) (report_chars c))
     in if i < length (report_chars c) then Some i else None)"

definition unicom_notify :: "'w adapter_port \<Rightarrow> rbp_gatt_evt \<Rightarrow> 'w rc003_adapter \<Rightarrow> 'w rc003_adapter" where
  "unicom_notify P e a =
     (case ge_value e of
        None \<Rightarrow> unicom_bad P ''Unicom empty notification'' a
      | Some v \<Rightarrow>
          let c = env a; u = unicom c; h = ge_handle e in
          if h = un_fd u then unicom_notify_fd P v a
          else if h = un_f8 u then unicom_notify_f8 P v a
          else if \<not> ad_ready c then a
          else if h = un_fc u then unicom_notify_fc P v a
          else case char_index h c of
            Some i \<Rightarrow>
              let r = rc_report_id (report_chars c ! i) in
              if r = 1 \<or> r = 3 then unicom_keys_report P i v a
              else if (r = 0xF9 \<and> length v \<noteq> 1) \<or> (r = 4 \<and> length v \<noteq> 20)
              then unicom_bad P ''Unicom extension length'' a
              else a
          | None \<Rightarrow>
              if h = bat_value_handle c \<and> length v = 1 \<and> v ! 0 \<le> 100
              then p_server P (C_battery (v ! 0) 0) a else a)"

end
