(* ===== verification/Adapter.thy ===== *)
theory Adapter
  imports Adapter_Runtime
begin

text \<open>
  The RC003 adapter (\<open>src/firmware/adapters/rc003/rc003_adapter.c\<close>): its life cycle, the GATT discovery as
  a state machine with one procedure in flight, and the events of the GATT client.

  \<open>begin_next\<close> and \<open>handle_op_failure\<close> call each other and themselves, always as the last thing they do. One
  round of each is a definition of its own that says how it ends (\<open>flow\<close>), and the loop between them is
  \<open>begin_next\<close>, whose termination rests on the order of the states and on the number of report
  characteristics left.
\<close>

section \<open>Life cycle\<close>

definition map_zero :: hogp_report_map where
  "map_zero = \<lparr>m_fields = [], m_inputs = [], uses_report_ids = False\<rparr>"

definition adapter_zero :: "'w \<Rightarrow> 'w adapter" where
  "adapter_zero w =
     \<lparr>ad_state = ST_IDLE, ad_retry = False, ad_deadline_ms = 0, init_deadline_ms = 0, svc_start = 0,
      svc_end = 0, protocol_mode_handle = 0, hid_info_handle = 0, hid_flags = 0, hid_info_valid = False,
      map_value_handle = 0, map_bytes = [], report_map = map_zero, report_chars = [], cur_char = 0,
      bat_value_handle = 0, bat_cccd_handle = 0, atvv_tx_handle = 0, atvv_ctl_handle = 0,
      atvv_ctl_cccd = 0, atvv_audio_handle = 0, atvv_audio_cccd = 0, atvv_present = False,
      ad_ready = False, voice_ready = False, rc003_boot_layout = False,
      keys_by_report = replicate RC003_MAX_REPORT_CHARS 0, map_long_started = False,
      desc_boundary = False, voice_down_seen = False, voice_key_verified = False,
      service_changed_handle = 0, service_changed_cccd = 0, ad_pressed_bits = 0,
      unicom = unicom_zero, ad_now_ms = 0, failed_stage = ST_IDLE, last_att_error = 0,
      cache_peer_id = 0, cache_safe = False, cache_valid = False, restoring = False,
      pending_search = False, caps_requested = False, world = w\<rparr>"

definition rc003_caps :: rbp_audio_caps where
  "rc003_caps = \<lparr>ac_codecs = [\<lparr>co_id = RBP_CODEC_IMA_HI, co_revision = 1\<rparr>],
     ac_max_unit_bytes = of_nat ATVV_MAX_FRAME\<rparr>"

definition rc003_adapter_init :: "'w adapter_port \<Rightarrow> 'w rc003_adapter \<Rightarrow> 'w rc003_adapter" where
  "rc003_adapter_init P a =
     (let a = rc003_atvv_init (atvv_faults a) (adapter_zero (world (env a)));
          a = p_server P (C_voice_caps (Some rc003_caps)) a
      in rc003_atvv_init (atvv_faults a) (env a))"

text \<open>\<open>None\<close> is a null name.\<close>

definition mi_voice_name :: "u8 list" where
  "mi_voice_name =
     [0xe5, 0xb0, 0x8f, 0xe7, 0xb1, 0xb3, 0xe8, 0x93, 0x9d, 0xe7, 0x89, 0x99, 0xe8, 0xaf, 0xad,
      0xe9, 0x9f, 0xb3, 0xe9, 0x81, 0xa5, 0xe6, 0x8e, 0xa7, 0xe5, 0x99, 0xa8]"

definition name_sep :: "u8 \<Rightarrow> bool" where
  "name_sep c \<longleftrightarrow> c = of_char (CHR '' '') \<or> c = of_char (CHR ''-'') \<or> c = of_char (CHR ''_'')"

definition rc003_at :: "u8 list \<Rightarrow> nat \<Rightarrow> bool" where
  "rc003_at name i \<longleftrightarrow>
     (i = 0 \<or> name_sep (name ! (i - 1)))
     \<and> (name ! i = of_char (CHR ''R'') \<or> name ! i = of_char (CHR ''r''))
     \<and> (name ! (i + 1) = of_char (CHR ''C'') \<or> name ! (i + 1) = of_char (CHR ''c''))
     \<and> take 3 (drop (i + 2) name) = cstr ''003''
     \<and> (i + 5 = length name \<or> name_sep (name ! (i + 5)))"

definition rc003_adapter_match :: "u8 list option \<Rightarrow> bool \<Rightarrow> u8" where
  "rc003_adapter_match name hid_uuid_in_adv =
     (case name of
        None \<Rightarrow> 0
      | Some nm \<Rightarrow> if nm = mi_voice_name then 1
                   else if \<exists>i \<in> set [0..<length nm - 4]. rc003_at nm i then 1 else 0)"

definition start_op :: "disc_state \<Rightarrow> u32 \<Rightarrow> 'w rc003_adapter \<Rightarrow> 'w rc003_adapter" where
  "start_op st now =
     cupd (\<lambda>c.
       let st' = (if st = ST_FIND_ATVV_SVC \<and> un_selected (unicom c) then ST_UNICOM_SERVICE else st);
           fresh_svc = st \<in> {ST_FIND_GATT_SVC, ST_FIND_HID_SVC, ST_FIND_BAT_SVC, ST_FIND_ATVV_SVC}
                       \<or> st' = ST_UNICOM_SERVICE;
           fresh_desc = st \<in> {ST_DISC_CTL_DESC, ST_DISC_AUDIO_DESC, ST_DISC_CHANGED_DESC, ST_DISC_DESCS,
                              ST_DISC_BAT_DESCS} \<or> st' = ST_UNICOM_DESC
       in c\<lparr>svc_start := (if fresh_svc then 0 else svc_start c),
            svc_end := (if fresh_svc then 0 else svc_end c),
            desc_boundary := (if fresh_desc then False else desc_boundary c),
            ad_state := st',
            caps_requested := (if st' = ST_ATVV_PREHANDSHAKE then False else caps_requested c),
            ad_retry := False, last_att_error := 0, ad_deadline_ms := now + INIT_TIMEOUT_MS\<rparr>)"

section \<open>Submitting a procedure\<close>

definition k_atvv_uuid :: "u8 \<Rightarrow> u8 list" where
  "k_atvv_uuid i = [0x64, 0xB6, 0x17, 0xF6, 0x01, 0xAF, 0x7D, 0xBC,
                    0x05, 0x4F, 0x21, 0x5A, i, 0x00, 0x5E, 0xAB]"

definition k_atvv_svc_uuid :: "u8 list" where "k_atvv_svc_uuid = k_atvv_uuid 0x01"
definition k_atvv_tx_uuid :: "u8 list" where "k_atvv_tx_uuid = k_atvv_uuid 0x02"
definition k_atvv_ctl_uuid :: "u8 list" where "k_atvv_ctl_uuid = k_atvv_uuid 0x04"
definition k_atvv_audio_uuid :: "u8 list" where "k_atvv_audio_uuid = k_atvv_uuid 0x03"

text \<open>How a round ends: the function returns, \<open>begin_next\<close> is called again, or \<open>handle_op_failure\<close> is called.\<close>

datatype 'a flow = Return 'a | Again 'a | Failure 'a

text \<open>The cases of the \<open>switch\<close> that only submit a procedure. The others, and the states that submit nothing,
  have \<open>None\<close>.\<close>

fun plain_op :: "'w adapter_port \<Rightarrow> disc_state \<Rightarrow> 'w adapter \<Rightarrow> gatt_op option" where
  "plain_op P ST_UNICOM_SERVICE c = Some (Disc_service_by_uuid16 0xFD00)"
| "plain_op P ST_UNICOM_CHAR c = Some (Read_chars_by_uuid16 (svc_start c) (svc_end c) 0xFD02)"
| "plain_op P ST_UNICOM_DESC c = Some (Disc_char_descs (un_fd (unicom c) + 1) (svc_end c))"
| "plain_op P ST_UNICOM_SUB c = Some (Write_value (un_fd_cccd (unicom c)) [1, 0])"
| "plain_op P ST_FIND_HID_INFO c = Some (Read_chars_by_uuid16 (svc_start c) (svc_end c) 0x2A4A)"
| "plain_op P ST_READ_HID_INFO c = Some (Read_value (hid_info_handle c))"
| "plain_op P ST_FIND_PROTOCOL_MODE c =
     Some (Read_chars_by_uuid16 (svc_start c) (svc_end c) RBP_UUID16_PROTOCOL_MODE)"
| "plain_op P ST_READ_PROTOCOL_MODE c = Some (Read_value (protocol_mode_handle c))"
| "plain_op P ST_VERIFY_PROTOCOL_MODE c = Some (Read_value (protocol_mode_handle c))"
| "plain_op P ST_READ_MAP_CONT c =
     Some (Read_long_value (map_value_handle c) (of_nat (length (map_bytes c))))"
| "plain_op P ST_MTU c = Some (Exchange_mtu (RBP_ATT_MTU P))"
| "plain_op P ST_FIND_GATT_SVC c = Some (Disc_service_by_uuid16 0x1801)"
| "plain_op P ST_FIND_CHANGED_CHAR c = Some (Read_chars_by_uuid16 (svc_start c) (svc_end c) 0x2A05)"
| "plain_op P ST_DISC_CHANGED_DESC c =
     Some (Disc_char_descs (service_changed_handle c + 1) (svc_end c))"
| "plain_op P ST_SUB_CHANGED c = Some (Write_value (service_changed_cccd c) [2, 0])"
| "plain_op P ST_DISC_CTL_DESC c = Some (Disc_char_descs (atvv_ctl_handle c + 1) (svc_end c))"
| "plain_op P ST_DISC_AUDIO_DESC c = Some (Disc_char_descs (atvv_audio_handle c + 1) (svc_end c))"
| "plain_op P ST_FIND_HID_SVC c = Some (Disc_service_by_uuid16 RBP_UUID16_HID_SERVICE)"
| "plain_op P ST_FIND_MAP_CHAR c =
     Some (Read_chars_by_uuid16 (svc_start c) (svc_end c) RBP_UUID16_HID_REPORT_MAP)"
| "plain_op P ST_READ_MAP c = Some (Read_value (map_value_handle c))"
| "plain_op P ST_ENUM_REPORT_CHARS c =
     Some (Read_chars_by_uuid16 (svc_start c) (svc_end c) RBP_UUID16_HID_REPORT)"
| "plain_op P ST_READ_REPORT_REF c = Some (Read_value (rc_ref_handle (report_chars c ! cur_char c)))"
| "plain_op P ST_FIND_BAT_CHAR c =
     Some (Read_chars_by_uuid16 (svc_start c) (svc_end c) RBP_UUID16_BATTERY_LEVEL)"
| "plain_op P ST_DISC_BAT_DESCS c = Some (Disc_char_descs (bat_value_handle c + 1) (svc_end c))"
| "plain_op P ST_READ_BATTERY c = Some (Read_value (bat_value_handle c))"
| "plain_op P ST_SUBSCRIBE_BATTERY c = Some (Write_value (bat_cccd_handle c) [1, 0])"
| "plain_op P ST_FIND_ATVV_SVC c = Some (Disc_service_by_uuid128 k_atvv_svc_uuid)"
| "plain_op P ST_FIND_ATVV_TX c = Some (Read_chars_by_uuid128 (svc_start c) (svc_end c) k_atvv_tx_uuid)"
| "plain_op P ST_FIND_ATVV_CTL c = Some (Read_chars_by_uuid128 (svc_start c) (svc_end c) k_atvv_ctl_uuid)"
| "plain_op P ST_FIND_ATVV_AUDIO c =
     Some (Read_chars_by_uuid128 (svc_start c) (svc_end c) k_atvv_audio_uuid)"
| "plain_op P ST_SUBSCRIBE_CTL c = Some (Write_value (atvv_ctl_cccd c) [1, 0])"
| "plain_op P ST_SUBSCRIBE_AUDIO c = Some (Write_value (atvv_audio_cccd c) [1, 0])"
| "plain_op P _ c = None"

text \<open>After the \<open>switch\<close>, in the state it began with.\<close>

definition settle :: "u32 \<Rightarrow> int \<Rightarrow> 'w rc003_adapter \<Rightarrow> 'w rc003_adapter flow" where
  "settle now rc a =
     (if rc = RBP_GATT_RETRY then Return (cupd (\<lambda>c. c\<lparr>ad_retry := True\<rparr>) a)
      else
        let a = cupd (\<lambda>c. c\<lparr>ad_retry := False,
                  ad_deadline_ms := (if rc = 0 \<and> ad_state c \<noteq> ST_ATVV_PREHANDSHAKE
                                     then now + ATT_RESPONSE_TIMEOUT_MS else ad_deadline_ms c)\<rparr>) a
        in if rc < 0 then Failure a else Return a)"

definition submit :: "'w adapter_port \<Rightarrow> u32 \<Rightarrow> gatt_op \<Rightarrow> 'w rc003_adapter \<Rightarrow> 'w rc003_adapter flow" where
  "submit P now op a = (let (rc, a) = gatt_do P op a in settle now rc a)"

definition begin_set_mode :: "'w adapter_port \<Rightarrow> u32 \<Rightarrow> 'w rc003_adapter \<Rightarrow> 'w rc003_adapter flow" where
  "begin_set_mode P now a =
     (let (rc, a) = gatt_do P (Write_command (protocol_mode_handle (env a)) [1]) a
      in if rc = 0 then Again (start_op ST_VERIFY_PROTOCOL_MODE now a) else settle now rc a)"

definition next_char :: "'w rc003_adapter \<Rightarrow> 'w rc003_adapter" where
  "next_char = cupd (\<lambda>c. c\<lparr>cur_char := cur_char c + 1\<rparr>)"

definition begin_disc_descs :: "'w adapter_port \<Rightarrow> u32 \<Rightarrow> 'w rc003_adapter \<Rightarrow> 'w rc003_adapter flow" where
  "begin_disc_descs P now a =
     (let c = env a; i = cur_char c;
          first = rc_value_handle (report_chars c ! i) + 1;
          last = (if i + 1 < length (report_chars c) then rc_value_handle (report_chars c ! (i + 1)) - 1
                  else svc_end c)
      in if first \<le> last then submit P now (Disc_char_descs first last) a
         else
           let a = cupd (\<lambda>c. c\<lparr>report_chars := (report_chars c)[i := (report_chars c ! i)
                       \<lparr>rc_ref_handle := 0, rc_cccd_handle := 0\<rparr>]\<rparr>) a
           in if i + 1 < length (report_chars c) then Again (start_op ST_DISC_DESCS now (next_char a))
              else Again (start_op ST_FIND_BAT_SVC now a))"

definition report_mapped :: "u8 \<Rightarrow> 'w adapter \<Rightarrow> bool" where
  "report_mapped i c \<longleftrightarrow> un_selected (unicom c) \<or> (\<exists>r \<in> set (m_inputs (report_map c)). r_report_id r = i)"

definition begin_subscribe :: "'w adapter_port \<Rightarrow> u32 \<Rightarrow> 'w rc003_adapter \<Rightarrow> 'w rc003_adapter flow" where
  "begin_subscribe P now a =
     (let r = report_chars (env a) ! cur_char (env a) in
      if rc_cccd_handle r = 0 \<or> rc_report_type r \<noteq> 1 \<or> \<not> report_mapped (rc_report_id r) (env a) then
        let a = next_char a in
        if cur_char (env a) \<ge> length (report_chars (env a)) then Again (start_op ST_FIND_BAT_SVC now a)
        else Again (start_op ST_DISC_DESCS now a)
      else submit P now (Write_value (rc_cccd_handle r) [1, 0]) a)"

definition adapter_failed :: "'w adapter_port \<Rightarrow> string \<Rightarrow> 'w rc003_adapter \<Rightarrow> 'w rc003_adapter" where
  "adapter_failed P msg a =
     p_server P (C_adapter_failed (Some (cstr msg))) (cupd (\<lambda>c. c\<lparr>ad_state := ST_FAILED\<rparr>) a)"

definition input_subscribed :: "'w adapter \<Rightarrow> hogp_input_report \<Rightarrow> bool" where
  "input_subscribed c r \<longleftrightarrow>
     (\<exists>ch \<in> set (report_chars c). rc_subscribed ch \<and> rc_report_id ch = r_report_id r)"

definition begin_battery :: "'w adapter_port \<Rightarrow> u32 \<Rightarrow> 'w rc003_adapter \<Rightarrow> 'w rc003_adapter flow" where
  "begin_battery P now a =
     (let (ok, a) = (if un_selected (unicom (env a)) then unicom_reports a else (True, a)) in
      if \<not> ok then Return (unicom_bad P ''Unicom report references'' a)
      else if \<exists>r \<in> set (m_inputs (report_map (env a))). \<not> input_subscribed (env a) r
      then Return (adapter_failed P ''HID input report not subscribed'' a)
      else if m_inputs (report_map (env a)) = [] then Return (adapter_failed P ''HID input map empty'' a)
      else submit P now (Disc_service_by_uuid16 RBP_UUID16_BATTERY_SERVICE) a)"

definition begin_handshake :: "'w adapter_port \<Rightarrow> u32 \<Rightarrow> 'w rc003_adapter \<Rightarrow> 'w rc003_adapter flow" where
  "begin_handshake P now a =
     (let (rc, a) = gatt_do P (Write_command (atvv_tx_handle (env a)) atvv_build_get_caps) a;
          a = (if rc = 0
               then finish_voice_ready P (cupd (\<lambda>c. c\<lparr>caps_requested := True,
                      ad_deadline_ms := now + INIT_TIMEOUT_MS\<rparr>) a)
               else a)
      in if ad_state (env a) = ST_ATVV_PREHANDSHAKE then settle now rc a else Return a)"

definition begin_round :: "'w adapter_port \<Rightarrow> u32 \<Rightarrow> 'w rc003_adapter \<Rightarrow> 'w rc003_adapter flow" where
  "begin_round P now a =
     (case ad_state (env a) of
        ST_UNICOM_WAIT \<Rightarrow> Return a
      | ST_SET_PROTOCOL_MODE \<Rightarrow> begin_set_mode P now a
      | ST_DISC_DESCS \<Rightarrow> begin_disc_descs P now a
      | ST_SUBSCRIBE_REPORT \<Rightarrow> begin_subscribe P now a
      | ST_FIND_BAT_SVC \<Rightarrow> begin_battery P now a
      | ST_ATVV_PREHANDSHAKE \<Rightarrow> begin_handshake P now a
      | st \<Rightarrow>
          let a = (if st = ST_READ_MAP
                   then cupd (\<lambda>c. c\<lparr>map_bytes := [], map_long_started := False\<rparr>) a else a)
          in case plain_op P st (env a) of Some op \<Rightarrow> submit P now op a | None \<Rightarrow> settle now 0 a)"

section \<open>Failure of a procedure\<close>

text \<open>Voice is optional: without it the link is ready with keys only.\<close>

definition no_voice :: "'w adapter_port \<Rightarrow> u8 \<Rightarrow> 'w rc003_adapter \<Rightarrow> 'w rc003_adapter" where
  "no_voice P voice_state a =
     (let a = cupd (\<lambda>c. c\<lparr>atvv_present := False, ad_retry := False, ad_state := ST_DONE,
                          ad_ready := True\<rparr>) a;
          a = p_server P (C_voice_state voice_state RBP_VI_UNAVAILABLE 0) a
      in p_server P (C_link RBP_LINK_READY 0 (ad_now_ms (env a))) a)"

definition failure_round :: "'w adapter_port \<Rightarrow> 'w rc003_adapter \<Rightarrow> 'w rc003_adapter flow" where
  "failure_round P a =
     (let st = ad_state (env a); now = ad_now_ms (env a) in
      if restoring (env a) then Return (fail_initialization P ''cached attributes failed'' a)
      else if st = ST_FIND_PROTOCOL_MODE then Return (fail_initialization P ''protocol mode discovery'' a)
      else if st \<in> {ST_FIND_GATT_SVC, ST_FIND_CHANGED_CHAR, ST_DISC_CHANGED_DESC, ST_SUB_CHANGED} then
        Again (start_op ST_FIND_HID_SVC now (cupd (\<lambda>c. c\<lparr>service_changed_handle := 0\<rparr>) a))
      else if st \<in> {ST_FIND_BAT_SVC, ST_FIND_BAT_CHAR, ST_DISC_BAT_DESCS, ST_READ_BATTERY,
                    ST_SUBSCRIBE_BATTERY} then
        Again (start_op ST_FIND_ATVV_SVC now (cupd (\<lambda>c. c\<lparr>ad_retry := False, bat_value_handle := 0\<rparr>) a))
      else if st = ST_FIND_ATVV_SVC then Return (no_voice P RBP_VOICE_UNSUPPORTED a)
      else if st \<in> {ST_FIND_ATVV_TX, ST_FIND_ATVV_CTL, ST_FIND_ATVV_AUDIO, ST_DISC_CTL_DESC,
                    ST_DISC_AUDIO_DESC, ST_SUBSCRIBE_CTL, ST_SUBSCRIBE_AUDIO, ST_ATVV_PREHANDSHAKE} then
        Return (no_voice P RBP_VOICE_FAILED a)
      else Return (fail_initialization P ''failed'' a))"

section \<open>The loop\<close>

text \<open>How far the discovery can still go without an event: by the states first, then by the report
  characteristics left.\<close>

definition disc_rank :: "disc_state \<Rightarrow> nat" where
  "disc_rank st =
     (if st \<in> {ST_FIND_GATT_SVC, ST_FIND_CHANGED_CHAR, ST_DISC_CHANGED_DESC, ST_SUB_CHANGED,
               ST_SET_PROTOCOL_MODE} then 5
      else if st = ST_SUBSCRIBE_REPORT then 4
      else if st = ST_DISC_DESCS then 3
      else if st \<in> {ST_FIND_BAT_SVC, ST_FIND_BAT_CHAR, ST_DISC_BAT_DESCS, ST_READ_BATTERY,
                    ST_SUBSCRIBE_BATTERY} then 2
      else if st = ST_FIND_ATVV_SVC then 1
      else 0)"

definition rounds_left :: "('w rc003_adapter \<times> 'w rc003_adapter) set" where
  "rounds_left = measures [\<lambda>a. disc_rank (ad_state (env a)), \<lambda>a. length (report_chars (env a)) - cur_char (env a)]"

lemma cupd_env [simp]: "env (cupd f a) = f (env a)"
  by (simp add: cupd_def)

lemma start_op_fields [simp]:
  "report_chars (env (start_op st now a)) = report_chars (env a)"
  "cur_char (env (start_op st now a)) = cur_char (env a)"
  "ad_state (env (start_op st now a)) =
     (if st = ST_FIND_ATVV_SVC \<and> un_selected (unicom (env a)) then ST_UNICOM_SERVICE else st)"
  by (simp_all add: start_op_def Let_def)

lemma gatt_do_fields:
  "gatt_do P op a = (rc, b) \<Longrightarrow> \<exists>w. b = cupd (\<lambda>c. c\<lparr>world := w\<rparr>) a"
  by (auto simp: gatt_do_def split: prod.splits)

lemma settle_not_again [simp]: "settle now rc a \<noteq> Again b"
  by (simp add: settle_def Let_def)

lemma settle_failure: "settle now rc a = Failure b \<Longrightarrow> ad_state (env b) = ad_state (env a)
    \<and> report_chars (env b) = report_chars (env a) \<and> cur_char (env b) = cur_char (env a)"
  by (auto simp: settle_def Let_def split: if_splits)

lemma submit_not_again [simp]: "submit P now op a \<noteq> Again b"
  by (simp add: submit_def split: prod.splits)

lemma submit_failure: "submit P now op a = Failure b \<Longrightarrow> ad_state (env b) = ad_state (env a)
    \<and> report_chars (env b) = report_chars (env a) \<and> cur_char (env b) = cur_char (env a)"
  by (auto simp: submit_def gatt_do_def split: prod.splits dest!: settle_failure)

lemma begin_round_again:
  assumes "begin_round P now a = Again b"
  shows "(b, a) \<in> rounds_left"
proof -
  have "ad_state (env a) \<in> {ST_SET_PROTOCOL_MODE, ST_DISC_DESCS, ST_SUBSCRIBE_REPORT}"
    using assms
    by (auto simp: begin_round_def begin_battery_def begin_handshake_def Let_def
        split: disc_state.splits option.splits prod.splits if_splits)
  then show ?thesis using assms
    by (auto simp: begin_round_def begin_set_mode_def begin_disc_descs_def begin_subscribe_def
        rounds_left_def disc_rank_def next_char_def Let_def split: prod.splits if_splits)
qed

lemma begin_round_failure:
  assumes "begin_round P now a = Failure b"
  shows "ad_state (env b) = ad_state (env a)"
  using assms
  by (auto simp: begin_round_def begin_set_mode_def begin_disc_descs_def begin_subscribe_def
      begin_battery_def begin_handshake_def gatt_do_def unicom_reports_def uupd_def Let_def
      split: disc_state.splits option.splits prod.splits if_splits
      dest!: settle_failure submit_failure)

lemma failure_round_again:
  assumes "failure_round P b = Again c" and "ad_state (env b) = ad_state (env a)"
  shows "(c, a) \<in> rounds_left"
proof -
  have "disc_rank (ad_state (env c)) < disc_rank (ad_state (env b))"
  proof (cases "ad_state (env b) \<in> {ST_FIND_GATT_SVC, ST_FIND_CHANGED_CHAR, ST_DISC_CHANGED_DESC, ST_SUB_CHANGED}")
    case True
    then have "ad_state (env c) = ST_FIND_HID_SVC"
      using assms(1) unfolding failure_round_def Let_def by (auto split: if_split_asm)
    then show ?thesis using True by (auto simp: disc_rank_def)
  next
    case False
    then have "ad_state (env b) \<in> {ST_FIND_BAT_SVC, ST_FIND_BAT_CHAR, ST_DISC_BAT_DESCS, ST_READ_BATTERY,
          ST_SUBSCRIBE_BATTERY} \<and> ad_state (env c) \<in> {ST_FIND_ATVV_SVC, ST_UNICOM_SERVICE}"
      using assms(1) unfolding failure_round_def Let_def by (simp split: if_split_asm) auto
    then show ?thesis by (auto simp: disc_rank_def)
  qed
  then show ?thesis using assms(2) by (simp add: rounds_left_def)
qed

function begin_next :: "'w adapter_port \<Rightarrow> u32 \<Rightarrow> 'w rc003_adapter \<Rightarrow> 'w rc003_adapter" where
  "begin_next P now a =
     (case begin_round P now a of
        Return b \<Rightarrow> b
      | Again b \<Rightarrow> begin_next P now b
      | Failure b \<Rightarrow>
          (case failure_round P b of
             Return c \<Rightarrow> c
           | Again c \<Rightarrow> begin_next P (ad_now_ms (env b)) c
           | Failure c \<Rightarrow> c))"
  by pat_completeness auto
termination
proof (relation "inv_image rounds_left (\<lambda>(P, now, a). a)")
  show "wf (inv_image rounds_left (\<lambda>(P, now, a). a))"
    by (rule wf_inv_image) (simp add: rounds_left_def)
qed (auto simp: begin_round_again begin_round_failure failure_round_again)

declare begin_next.simps [simp del]

definition handle_op_failure :: "'w adapter_port \<Rightarrow> 'w rc003_adapter \<Rightarrow> 'w rc003_adapter" where
  "handle_op_failure P a =
     (case failure_round P a of
        Return c \<Rightarrow> c
      | Again c \<Rightarrow> begin_next P (ad_now_ms (env a)) c
      | Failure c \<Rightarrow> c)"

lemma begin_next_unfold:
  "begin_next P now a =
     (case begin_round P now a of
        Return b \<Rightarrow> b | Again b \<Rightarrow> begin_next P now b | Failure b \<Rightarrow> handle_op_failure P b)"
  by (subst begin_next.simps) (simp add: handle_op_failure_def split: flow.split)

section \<open>Starting and ending a link\<close>

definition restore_first :: "'w adapter_port \<Rightarrow> 'w adapter \<Rightarrow> disc_state" where
  "restore_first P c =
     (if RBP_ATT_MTU P = 23 \<and> un_selected (unicom c)
      then if service_changed_cccd c \<noteq> 0 then ST_SUB_CHANGED
           else if protocol_mode_handle c \<noteq> 0 then ST_READ_PROTOCOL_MODE else ST_UNICOM_SUB
      else ST_MTU)"

definition rc003_adapter_start_bound ::
    "'w adapter_port \<Rightarrow> u32 \<Rightarrow> u32 \<Rightarrow> 'w rc003_adapter \<Rightarrow> 'w rc003_adapter" where
  "rc003_adapter_start_bound P now peer_id a =
     (if peer_id \<noteq> 0 \<and> cache_valid (env a) \<and> cache_peer_id (env a) = peer_id then
        let a = cupd (\<lambda>c. c\<lparr>restoring := True, ad_now_ms := now,
                            init_deadline_ms := now + INIT_TOTAL_TIMEOUT_MS\<rparr>) a;
            a = p_server P (C_profile (Some (if un_selected (unicom (env a)) then RBP_PROFILE_UNICOM
                  else if voice_key_verified (env a) then RBP_PROFILE_RC003_VOICE
                  else RBP_PROFILE_RC003))) a
        in begin_next P now (start_op (restore_first P (env a)) now a)
      else
        let a = rc003_adapter_init P a;
            a = cupd (\<lambda>c. c\<lparr>ad_now_ms := now, cache_peer_id := peer_id,
                            init_deadline_ms := now + INIT_TOTAL_TIMEOUT_MS\<rparr>) a;
            a = p_server P (C_profile (Some RBP_PROFILE_RC003)) a
        in begin_next P now (start_op ST_MTU now a))"

definition rc003_adapter_start :: "'w adapter_port \<Rightarrow> u32 \<Rightarrow> 'w rc003_adapter \<Rightarrow> 'w rc003_adapter" where
  "rc003_adapter_start P now a = rc003_adapter_start_bound P now 0 a"

definition rc003_adapter_commit_bond :: "u32 \<Rightarrow> 'w rc003_adapter \<Rightarrow> 'w rc003_adapter" where
  "rc003_adapter_commit_bond peer_id a =
     (if peer_id = 0 \<or> \<not> ad_ready (env a) then a
      else cupd (\<lambda>c. c\<lparr>cache_peer_id := peer_id, cache_valid := cache_safe c \<and> voice_ready c\<rparr>) a)"

definition rc003_adapter_detach :: "'w adapter_port \<Rightarrow> 'w rc003_adapter \<Rightarrow> 'w rc003_adapter" where
  "rc003_adapter_detach P a =
     (if cache_valid (env a) then
        let u = unicom (env a);
            a = (rc003_atvv_init (atvv_faults a) (env a))
                  \<lparr>profile_init_without_sync := rc003_boot_layout (env a)\<rparr>;
            a = cupd (\<lambda>c. c\<lparr>ad_state := ST_IDLE, ad_retry := False, ad_ready := False,
                  voice_ready := False, restoring := False, pending_search := False,
                  caps_requested := False, voice_down_seen := False, ad_pressed_bits := 0,
                  keys_by_report := replicate RC003_MAX_REPORT_CHARS 0\<rparr>) a
        in if un_selected u
           then uupd (\<lambda>_. unicom_zero\<lparr>un_selected := True, un_fb := un_fb u, un_fc := un_fc u,
                        un_f8 := un_f8 u, un_fd := un_fd u, un_fd_cccd := un_fd_cccd u\<rparr>) a
           else a
      else rc003_adapter_init P a)"

definition rc003_adapter_mic_stop :: "'w adapter_port \<Rightarrow> 'w rc003_adapter \<Rightarrow> bool \<times> 'w rc003_adapter" where
  "rc003_adapter_mic_stop P a =
     (if un_selected (unicom (env a)) then (un_active (unicom (env a)), unicom_stop a)
      else if \<not> ad_ready (env a) \<or> atvv_tx_handle (env a) = 0 \<or> (\<not> stream_active a \<and> \<not> open_pending a)
      then (False, a)
      else rc003_atvv_request_stop (adapter_sink P) a)"

definition rc003_adapter_mic_start :: "'w adapter_port \<Rightarrow> 'w rc003_adapter \<Rightarrow> u16 \<times> 'w rc003_adapter" where
  "rc003_adapter_mic_start P a =
     (if un_selected (unicom (env a)) then (RBP_STATUS_VOICE_UNAVAILABLE, a)
      else if \<not> ad_ready (env a) \<or> \<not> voice_ready (env a) \<or> \<not> caps_valid a \<or> atvv_tx_handle (env a) = 0
      then (RBP_STATUS_VOICE_UNAVAILABLE, a)
      else if \<not> voice_wanted P a then (RBP_STATUS_BAD_STATE, a)
      else if stream_active a \<or> open_pending a \<or> closing a \<or> close_queued a then (RBP_STATUS_BUSY, a)
      else (RBP_STATUS_OK, a\<lparr>open_pending := True, open_queued := True, closing := False,
              open_deadline_ms := ad_now_ms (env a) + ATVV_OPEN_WAIT_MS\<rparr>))"

definition in_progress :: "'w rc003_adapter \<Rightarrow> bool" where
  "in_progress a \<longleftrightarrow> ad_state (env a) \<noteq> ST_IDLE \<and> ad_state (env a) \<noteq> ST_DONE \<and> ad_state (env a) \<noteq> ST_FAILED"

definition halted :: "'w rc003_adapter \<Rightarrow> bool" where
  "halted a \<longleftrightarrow> ad_state (env a) = ST_IDLE \<or> ad_state (env a) = ST_FAILED"

definition tick_rc003 :: "'w adapter_port \<Rightarrow> u32 \<Rightarrow> 'w rc003_adapter \<Rightarrow> 'w rc003_adapter" where
  "tick_rc003 P now a =
     (let a = (if \<not> un_selected (unicom (env a)) \<and> open_pending a \<and> \<not> voice_wanted P a
               then mic_request_stop P a else a)
      in if \<not> un_selected (unicom (env a)) \<and> voice_ready (env a)
         then snd (rc003_atvv_tick (adapter_sink P) now a) else a)"

definition tick_discovery :: "'w adapter_port \<Rightarrow> u32 \<Rightarrow> 'w rc003_adapter \<Rightarrow> 'w rc003_adapter" where
  "tick_discovery P now a =
     (if halted a then a
      else if in_progress a \<and> reached now (init_deadline_ms (env a)) then fail_transport P ''timeout total'' a
      else if in_progress a \<and> reached now (ad_deadline_ms (env a)) then
        (if ad_state (env a) = ST_ATVV_PREHANDSHAKE \<and> \<not> restoring (env a) then handle_op_failure P a
         else fail_transport P ''timeout'' a)
      else if ad_retry (env a) then begin_next P now a
      else a)"

definition rc003_adapter_tick :: "'w adapter_port \<Rightarrow> u32 \<Rightarrow> 'w rc003_adapter \<Rightarrow> 'w rc003_adapter" where
  "rc003_adapter_tick P now a =
     (let a = cupd (\<lambda>c. c\<lparr>ad_now_ms := now\<rparr>) a in
      if halted a then a
      else
        let sel = un_selected (unicom (env a));
            a = (if sel then unicom_tick P a else a)
        in if sel \<and> (ad_state (env a) = ST_DONE \<or> ad_state (env a) = ST_UNICOM_WAIT
                     \<or> ad_state (env a) = ST_FAILED) then a
           else tick_discovery P now (tick_rc003 P now a))"

end
