(* ===== verification/Adapter_Events.thy ===== *)
theory Adapter_Events
  imports Adapter
begin

text \<open>
  \<open>rc003_adapter_on_gatt\<close> of \<open>src/firmware/adapters/rc003/rc003_adapter.c\<close>: one definition per case (or
  group of cases) of its \<open>switch\<close>, the notifications of an initialised link, and the function itself.
  Every case tests the type of the event, and none handles a notification, so an event either advances
  the discovery or is delivered as a notification.
\<close>

section \<open>Cases\<close>

definition go :: "'w adapter_port \<Rightarrow> disc_state \<Rightarrow> 'w rc003_adapter \<Rightarrow> 'w rc003_adapter" where
  "go P st a = begin_next P (ad_now_ms (env a)) (start_op st (ad_now_ms (env a)) a)"

definition found_service :: "rbp_gatt_evt \<Rightarrow> 'w rc003_adapter \<Rightarrow> 'w rc003_adapter" where
  "found_service e = cupd (\<lambda>c. c\<lparr>svc_start := ge_svc_start e, svc_end := ge_svc_end e\<rparr>)"

text \<open>A characteristic declaration: properties, value handle, UUID.\<close>

definition decl_handle :: "u8 list \<Rightarrow> u16" where
  "decl_handle v = ucast (v ! 1) OR push_bit 8 (ucast (v ! 2))"

definition ev_unicom_service :: "'w adapter_port \<Rightarrow> rbp_gatt_evt \<Rightarrow> 'w rc003_adapter \<Rightarrow> 'w rc003_adapter" where
  "ev_unicom_service P e a =
     (if ge_type e = RBP_GATT_EVT_SERVICE_FOUND then
        (if svc_start (env a) \<noteq> 0 then unicom_bad P ''duplicate FD00'' a else found_service e a)
      else if ge_type e = RBP_GATT_EVT_PROC_DONE \<and> svc_start (env a) \<noteq> 0 then go P ST_UNICOM_CHAR a
      else if ge_type e \<in> {RBP_GATT_EVT_PROC_DONE, RBP_GATT_EVT_SERVICE_NOT_FOUND, RBP_GATT_EVT_PROC_ERROR}
      then unicom_bad P ''FD00 unavailable'' a
      else a)"

definition ev_unicom_char :: "'w adapter_port \<Rightarrow> rbp_gatt_evt \<Rightarrow> 'w rc003_adapter \<Rightarrow> 'w rc003_adapter" where
  "ev_unicom_char P e a =
     (let v = ge_bytes e in
      if ge_type e = RBP_GATT_EVT_CHARS_FOUND then
        (if length v < 3 \<or> v ! 0 AND 0x10 = 0 \<or> un_fd (unicom (env a)) \<noteq> 0
         then unicom_bad P ''FD02 properties'' a
         else uupd (\<lambda>u. u\<lparr>un_fd := decl_handle v\<rparr>) a)
      else if ge_type e = RBP_GATT_EVT_PROC_DONE \<and> un_fd (unicom (env a)) \<noteq> 0 then go P ST_UNICOM_DESC a
      else if ge_type e \<in> {RBP_GATT_EVT_PROC_DONE, RBP_GATT_EVT_PROC_ERROR}
      then unicom_bad P ''FD02 unavailable'' a
      else a)"

definition ev_unicom_desc :: "'w adapter_port \<Rightarrow> rbp_gatt_evt \<Rightarrow> 'w rc003_adapter \<Rightarrow> 'w rc003_adapter" where
  "ev_unicom_desc P e a =
     (if ge_type e = RBP_GATT_EVT_DESC_FOUND then
        let a = (if ge_uuid16 e = 0x2803 then cupd (\<lambda>c. c\<lparr>desc_boundary := True\<rparr>) a else a)
        in if \<not> desc_boundary (env a) \<and> ge_uuid16 e = RBP_UUID16_CCCD
           then uupd (\<lambda>u. u\<lparr>un_fd_cccd := ge_desc_handle e\<rparr>) a else a
      else if ge_type e = RBP_GATT_EVT_PROC_DONE \<and> un_fd_cccd (unicom (env a)) \<noteq> 0 then go P ST_UNICOM_SUB a
      else if ge_type e \<in> {RBP_GATT_EVT_PROC_DONE, RBP_GATT_EVT_PROC_ERROR}
      then unicom_bad P ''FD02 CCCD unavailable'' a
      else a)"

definition ev_unicom_sub :: "'w adapter_port \<Rightarrow> rbp_gatt_evt \<Rightarrow> 'w rc003_adapter \<Rightarrow> 'w rc003_adapter" where
  "ev_unicom_sub P e a =
     (if ge_type e = RBP_GATT_EVT_WRITE_DONE then
        let a = start_op ST_UNICOM_WAIT (ad_now_ms (env a)) a
        in if un_hello (unicom (env a)) then unicom_ready P a else a
      else if ge_type e = RBP_GATT_EVT_PROC_ERROR then unicom_bad P ''FD02 subscribe failed'' a
      else a)"

text \<open>Where a restored link goes on: after the database change subscription, and after the protocol mode.\<close>

definition restore_mode :: "'w adapter \<Rightarrow> disc_state" where
  "restore_mode c = (if un_selected (unicom c) then ST_UNICOM_SUB
     else if bat_value_handle c \<noteq> 0 then ST_READ_BATTERY else ST_SUBSCRIBE_CTL)"

definition restore_changed :: "'w adapter \<Rightarrow> disc_state" where
  "restore_changed c = (if protocol_mode_handle c \<noteq> 0 then ST_READ_PROTOCOL_MODE else restore_mode c)"

definition ev_mtu :: "'w adapter_port \<Rightarrow> rbp_gatt_evt \<Rightarrow> 'w rc003_adapter \<Rightarrow> 'w rc003_adapter" where
  "ev_mtu P e a =
     (if ge_type e \<in> {RBP_GATT_EVT_MTU_UPDATED, RBP_GATT_EVT_PROC_ERROR}
      then go P (if restoring (env a)
                 then if service_changed_cccd (env a) \<noteq> 0 then ST_SUB_CHANGED else restore_changed (env a)
                 else ST_FIND_GATT_SVC) a
      else a)"

definition ev_find_mode :: "'w adapter_port \<Rightarrow> rbp_gatt_evt \<Rightarrow> 'w rc003_adapter \<Rightarrow> 'w rc003_adapter" where
  "ev_find_mode P e a =
     (let v = ge_bytes e in
      if ge_type e = RBP_GATT_EVT_CHARS_FOUND \<and> length v \<ge> 3 then
        (if v ! 0 AND 6 \<noteq> 6 then fail_initialization P ''protocol mode properties'' a
         else cupd (\<lambda>c. c\<lparr>protocol_mode_handle := decl_handle v\<rparr>) a)
      else if ge_type e = RBP_GATT_EVT_PROC_DONE
      then go P (if protocol_mode_handle (env a) \<noteq> 0 then ST_READ_PROTOCOL_MODE else ST_FIND_MAP_CHAR) a
      else if ge_type e = RBP_GATT_EVT_PROC_ERROR then handle_op_failure P a
      else a)"

definition ev_read_mode :: "'w adapter_port \<Rightarrow> rbp_gatt_evt \<Rightarrow> 'w rc003_adapter \<Rightarrow> 'w rc003_adapter" where
  "ev_read_mode P e a =
     (let v = ge_bytes e in
      if ge_type e = RBP_GATT_EVT_READ_RSP then
        (if length v \<noteq> 1 \<or> v ! 0 > 1 \<or> (ad_state (env a) = ST_VERIFY_PROTOCOL_MODE \<and> v ! 0 \<noteq> 1)
         then fail_initialization P ''protocol mode value'' a
         else go P (if v ! 0 = 1 then (if restoring (env a) then restore_mode (env a) else ST_FIND_MAP_CHAR)
                    else ST_SET_PROTOCOL_MODE) a)
      else if ge_type e = RBP_GATT_EVT_PROC_ERROR then handle_op_failure P a
      else a)"

definition ev_find_gatt :: "'w adapter_port \<Rightarrow> rbp_gatt_evt \<Rightarrow> 'w rc003_adapter \<Rightarrow> 'w rc003_adapter" where
  "ev_find_gatt P e a =
     (let a = (if ge_type e = RBP_GATT_EVT_SERVICE_NOT_FOUND then cupd (\<lambda>c. c\<lparr>cache_safe := True\<rparr>) a else a) in
      if ge_type e = RBP_GATT_EVT_SERVICE_FOUND then found_service e a
      else if ge_type e = RBP_GATT_EVT_PROC_DONE \<and> svc_start (env a) \<noteq> 0 then go P ST_FIND_CHANGED_CHAR a
      else if ge_type e \<in> {RBP_GATT_EVT_PROC_DONE, RBP_GATT_EVT_SERVICE_NOT_FOUND, RBP_GATT_EVT_PROC_ERROR}
      then handle_op_failure P a
      else a)"

definition ev_find_changed :: "'w adapter_port \<Rightarrow> rbp_gatt_evt \<Rightarrow> 'w rc003_adapter \<Rightarrow> 'w rc003_adapter" where
  "ev_find_changed P e a =
     (let v = ge_bytes e in
      if ge_type e = RBP_GATT_EVT_CHARS_FOUND \<and> length v \<ge> 3 \<and> v ! 0 AND 0x20 \<noteq> 0
      then cupd (\<lambda>c. c\<lparr>service_changed_handle := decl_handle v\<rparr>) a
      else if ge_type e = RBP_GATT_EVT_PROC_DONE then
        (if service_changed_handle (env a) = 0
         then handle_op_failure P (cupd (\<lambda>c. c\<lparr>cache_safe := True\<rparr>) a)
         else go P ST_DISC_CHANGED_DESC a)
      else if ge_type e = RBP_GATT_EVT_PROC_ERROR then handle_op_failure P a
      else a)"

definition cccd_of :: "'w adapter \<Rightarrow> u16" where
  "cccd_of c = (if ad_state c = ST_DISC_CHANGED_DESC then service_changed_cccd c
     else if ad_state c = ST_DISC_CTL_DESC then atvv_ctl_cccd c else atvv_audio_cccd c)"

definition ev_desc :: "'w adapter_port \<Rightarrow> rbp_gatt_evt \<Rightarrow> 'w rc003_adapter \<Rightarrow> 'w rc003_adapter" where
  "ev_desc P e a =
     (if ge_type e = RBP_GATT_EVT_DESC_FOUND then
        let a = (if ge_uuid16 e = 0x2803 then cupd (\<lambda>c. c\<lparr>desc_boundary := True\<rparr>) a else a)
        in if \<not> desc_boundary (env a) \<and> ge_uuid16 e = RBP_UUID16_CCCD
           then cupd (\<lambda>c. if ad_state c = ST_DISC_CHANGED_DESC
                          then c\<lparr>service_changed_cccd := ge_desc_handle e\<rparr>
                          else if ad_state c = ST_DISC_CTL_DESC then c\<lparr>atvv_ctl_cccd := ge_desc_handle e\<rparr>
                          else c\<lparr>atvv_audio_cccd := ge_desc_handle e\<rparr>) a
           else a
      else if ge_type e = RBP_GATT_EVT_PROC_DONE then
        (if cccd_of (env a) = 0 then handle_op_failure P a
         else go P (if ad_state (env a) = ST_DISC_CHANGED_DESC then ST_SUB_CHANGED
                    else if ad_state (env a) = ST_DISC_CTL_DESC then ST_SUBSCRIBE_CTL
                    else ST_SUBSCRIBE_AUDIO) a)
      else if ge_type e = RBP_GATT_EVT_PROC_ERROR then handle_op_failure P a
      else a)"

definition ev_sub_changed :: "'w adapter_port \<Rightarrow> rbp_gatt_evt \<Rightarrow> 'w rc003_adapter \<Rightarrow> 'w rc003_adapter" where
  "ev_sub_changed P e a =
     (if ge_type e = RBP_GATT_EVT_WRITE_DONE then
        let a = cupd (\<lambda>c. c\<lparr>cache_safe := True\<rparr>) a
        in go P (if restoring (env a) then restore_changed (env a) else ST_FIND_HID_SVC) a
      else if ge_type e = RBP_GATT_EVT_PROC_ERROR then handle_op_failure P a
      else a)"

definition ev_service :: "'w adapter_port \<Rightarrow> disc_state \<Rightarrow> rbp_gatt_evt \<Rightarrow> 'w rc003_adapter \<Rightarrow> 'w rc003_adapter" where
  "ev_service P next_state e a =
     (if ge_type e = RBP_GATT_EVT_SERVICE_FOUND then found_service e a
      else if ge_type e = RBP_GATT_EVT_PROC_DONE then
        (if svc_start (env a) = 0 then handle_op_failure P a else go P next_state a)
      else if ge_type e \<in> {RBP_GATT_EVT_SERVICE_NOT_FOUND, RBP_GATT_EVT_PROC_ERROR} then handle_op_failure P a
      else a)"

definition ev_find_info :: "'w adapter_port \<Rightarrow> rbp_gatt_evt \<Rightarrow> 'w rc003_adapter \<Rightarrow> 'w rc003_adapter" where
  "ev_find_info P e a =
     (let v = ge_bytes e in
      if ge_type e = RBP_GATT_EVT_CHARS_FOUND \<and> length v \<ge> 3 then
        (if hid_info_handle (env a) \<noteq> 0 \<or> v ! 0 AND 2 = 0 then handle_op_failure P a
         else cupd (\<lambda>c. c\<lparr>hid_info_handle := decl_handle v\<rparr>) a)
      else if ge_type e = RBP_GATT_EVT_PROC_DONE then
        (if hid_info_handle (env a) = 0 then handle_op_failure P a else go P ST_READ_HID_INFO a)
      else if ge_type e = RBP_GATT_EVT_PROC_ERROR then handle_op_failure P a
      else a)"

definition ev_read_info :: "'w adapter_port \<Rightarrow> rbp_gatt_evt \<Rightarrow> 'w rc003_adapter \<Rightarrow> 'w rc003_adapter" where
  "ev_read_info P e a =
     (let v = ge_bytes e in
      if ge_type e = RBP_GATT_EVT_READ_RSP then
        (if \<not> ge_proc_complete e \<or> length v \<noteq> 4 \<or> v ! 3 AND NOT 3 \<noteq> 0 then handle_op_failure P a
         else go P ST_FIND_PROTOCOL_MODE (cupd (\<lambda>c. c\<lparr>hid_flags := v ! 3, hid_info_valid := True\<rparr>) a))
      else if ge_type e = RBP_GATT_EVT_PROC_ERROR then handle_op_failure P a
      else a)"

definition ev_find_map :: "'w adapter_port \<Rightarrow> rbp_gatt_evt \<Rightarrow> 'w rc003_adapter \<Rightarrow> 'w rc003_adapter" where
  "ev_find_map P e a =
     (let v = ge_bytes e in
      if ge_type e = RBP_GATT_EVT_CHARS_FOUND \<and> length v \<ge> 3
      then cupd (\<lambda>c. c\<lparr>map_value_handle := decl_handle v\<rparr>) a
      else if ge_type e = RBP_GATT_EVT_PROC_DONE then
        (if map_value_handle (env a) = 0 then handle_op_failure P a else go P ST_READ_MAP a)
      else if ge_type e = RBP_GATT_EVT_PROC_ERROR then handle_op_failure P a
      else a)"

text \<open>The complete report map. The struct a failed parse leaves behind is not read again: the attempt fails
  and the next one starts from a cleared adapter.\<close>

definition unicom_inputs :: hogp_report_map where
  "unicom_inputs = map_zero\<lparr>m_inputs := map (\<lambda>i. \<lparr>r_report_id = i, r_usage_page = 0, r_bits = 0, r_bytes = 0\<rparr>)
     [1, 3, 0xFC, 0xF8, 0xF9, 4]\<rparr>"

definition rc003_map_crc :: "u8 list \<Rightarrow> bool" where
  "rc003_map_crc m \<longleftrightarrow> length m = 86 \<and> rbp_crc32c m = 0x6BD7DAAD"

definition map_complete :: "'w adapter_port \<Rightarrow> 'w rc003_adapter \<Rightarrow> 'w rc003_adapter" where
  "map_complete P a =
     (let m = map_bytes (env a); sel = (m = unicom_map);
          a = uupd (\<lambda>u. u\<lparr>un_selected := sel\<rparr>) a
      in case (if sel then Some unicom_inputs else hogp_report_map_parse m) of
           None \<Rightarrow> handle_op_failure P a
         | Some rm \<Rightarrow>
             let boot = rc003_map_crc m;
                 a = cupd (\<lambda>c. c\<lparr>report_map := rm, rc003_boot_layout := boot\<rparr>) a
             in if \<not> RBP_SIMULATOR P \<and> \<not> boot \<and> \<not> sel then fail_initialization P ''unsupported HID profile'' a
                else go P ST_ENUM_REPORT_CHARS (a\<lparr>profile_init_without_sync := boot\<rparr>))"

definition ev_read_map :: "'w adapter_port \<Rightarrow> rbp_gatt_evt \<Rightarrow> 'w rc003_adapter \<Rightarrow> 'w rc003_adapter" where
  "ev_read_map P e a =
     (let v = ge_bytes e; m = map_bytes (env a) in
      if ge_type e = RBP_GATT_EVT_READ_RSP then
        (if length v > HOGP_MAX_MAP_SIZE - length m \<or> unat (ge_offset e) \<noteq> length m then handle_op_failure P a
         else
           let a = cupd (\<lambda>c. c\<lparr>map_bytes := m @ v\<rparr>) a
           in if ge_proc_complete e then map_complete P a
              else if \<not> map_long_started (env a)
              then go P ST_READ_MAP_CONT (cupd (\<lambda>c. c\<lparr>map_long_started := True\<rparr>) a)
              else a)
      else if ge_type e = RBP_GATT_EVT_PROC_ERROR then handle_op_failure P a
      else a)"

definition report_char_zero :: rc003_report_char where
  "report_char_zero = \<lparr>rc_value_handle = 0, rc_cccd_handle = 0, rc_ref_handle = 0, rc_report_id = 0,
     rc_report_type = 0, rc_properties = 0, rc_usage_page = 0, rc_subscribed = False\<rparr>"

definition ev_enum :: "'w adapter_port \<Rightarrow> rbp_gatt_evt \<Rightarrow> 'w rc003_adapter \<Rightarrow> 'w rc003_adapter" where
  "ev_enum P e a =
     (let v = ge_bytes e; n = length (report_chars (env a)) in
      if un_selected (unicom (env a)) \<and> ge_type e = RBP_GATT_EVT_CHARS_FOUND \<and> n \<ge> RC003_MAX_REPORT_CHARS
      then fail_initialization P ''too many reports'' a
      else if ge_type e = RBP_GATT_EVT_CHARS_FOUND \<and> length v \<ge> 3 \<and> n < RC003_MAX_REPORT_CHARS
      then cupd (\<lambda>c. c\<lparr>report_chars := report_chars c @
             [report_char_zero\<lparr>rc_properties := v ! 0, rc_value_handle := decl_handle v\<rparr>]\<rparr>) a
      else if ge_type e = RBP_GATT_EVT_PROC_DONE then
        (if n = 0 then handle_op_failure P a
         else go P ST_DISC_DESCS (cupd (\<lambda>c. c\<lparr>cur_char := 0\<rparr>) a))
      else if ge_type e = RBP_GATT_EVT_PROC_ERROR then handle_op_failure P a
      else a)"

definition upd_char :: "(rc003_report_char \<Rightarrow> rc003_report_char) \<Rightarrow> 'w rc003_adapter \<Rightarrow> 'w rc003_adapter" where
  "upd_char f = cupd (\<lambda>c. c\<lparr>report_chars := (report_chars c)[cur_char c := f (report_chars c ! cur_char c)]\<rparr>)"

definition next_report :: "'w adapter_port \<Rightarrow> 'w rc003_adapter \<Rightarrow> 'w rc003_adapter" where
  "next_report P a =
     (if cur_char (env a) + 1 < length (report_chars (env a)) then go P ST_DISC_DESCS (next_char a)
      else go P ST_FIND_BAT_SVC a)"

definition ev_descs :: "'w adapter_port \<Rightarrow> rbp_gatt_evt \<Rightarrow> 'w rc003_adapter \<Rightarrow> 'w rc003_adapter" where
  "ev_descs P e a =
     (if ge_type e = RBP_GATT_EVT_DESC_FOUND then
        let a = (if ge_uuid16 e = 0x2803 then cupd (\<lambda>c. c\<lparr>desc_boundary := True\<rparr>) a else a)
        in if desc_boundary (env a) then a
           else if ge_uuid16 e = RBP_UUID16_REPORT_REFERENCE
           then upd_char (\<lambda>r. r\<lparr>rc_ref_handle := ge_desc_handle e\<rparr>) a
           else if ge_uuid16 e = RBP_UUID16_CCCD
           then upd_char (\<lambda>r. r\<lparr>rc_cccd_handle := ge_desc_handle e\<rparr>) a
           else a
      else if ge_type e = RBP_GATT_EVT_PROC_DONE then
        (if rc_ref_handle (report_chars (env a) ! cur_char (env a)) \<noteq> 0 then go P ST_READ_REPORT_REF a
         else next_report P a)
      else if ge_type e = RBP_GATT_EVT_PROC_ERROR then handle_op_failure P a
      else a)"

definition ev_report_ref :: "'w adapter_port \<Rightarrow> rbp_gatt_evt \<Rightarrow> 'w rc003_adapter \<Rightarrow> 'w rc003_adapter" where
  "ev_report_ref P e a =
     (let v = ge_bytes e in
      if ge_type e = RBP_GATT_EVT_READ_RSP \<and> length v = 2
      then go P ST_SUBSCRIBE_REPORT (upd_char (\<lambda>r. r\<lparr>rc_report_id := v ! 0, rc_report_type := v ! 1\<rparr>) a)
      else if ge_type e \<in> {RBP_GATT_EVT_PROC_ERROR, RBP_GATT_EVT_READ_RSP} then handle_op_failure P a
      else a)"

definition ev_subscribe :: "'w adapter_port \<Rightarrow> rbp_gatt_evt \<Rightarrow> 'w rc003_adapter \<Rightarrow> 'w rc003_adapter" where
  "ev_subscribe P e a =
     (if ge_type e = RBP_GATT_EVT_PROC_ERROR then handle_op_failure P a
      else if ge_type e = RBP_GATT_EVT_WRITE_DONE
      then next_report P (upd_char (\<lambda>r. r\<lparr>rc_subscribed := True\<rparr>) a)
      else a)"

definition ev_find_bat :: "'w adapter_port \<Rightarrow> rbp_gatt_evt \<Rightarrow> 'w rc003_adapter \<Rightarrow> 'w rc003_adapter" where
  "ev_find_bat P e a =
     (let v = ge_bytes e in
      if ge_type e = RBP_GATT_EVT_CHARS_FOUND \<and> length v \<ge> 3
      then cupd (\<lambda>c. c\<lparr>bat_value_handle := decl_handle v\<rparr>) a
      else if ge_type e = RBP_GATT_EVT_PROC_DONE then
        (if bat_value_handle (env a) = 0 then handle_op_failure P a else go P ST_DISC_BAT_DESCS a)
      else if ge_type e = RBP_GATT_EVT_PROC_ERROR then handle_op_failure P a
      else a)"

definition ev_bat_descs :: "'w adapter_port \<Rightarrow> rbp_gatt_evt \<Rightarrow> 'w rc003_adapter \<Rightarrow> 'w rc003_adapter" where
  "ev_bat_descs P e a =
     (let a = (if ge_type e = RBP_GATT_EVT_DESC_FOUND \<and> ge_uuid16 e = 0x2803
               then cupd (\<lambda>c. c\<lparr>desc_boundary := True\<rparr>) a else a) in
      if ge_type e = RBP_GATT_EVT_DESC_FOUND \<and> \<not> desc_boundary (env a) \<and> ge_uuid16 e = RBP_UUID16_CCCD
      then cupd (\<lambda>c. c\<lparr>bat_cccd_handle := ge_desc_handle e\<rparr>) a
      else if ge_type e = RBP_GATT_EVT_PROC_DONE then go P ST_READ_BATTERY a
      else if ge_type e = RBP_GATT_EVT_PROC_ERROR then go P ST_FIND_ATVV_SVC a
      else a)"

definition ev_battery :: "'w adapter_port \<Rightarrow> rbp_gatt_evt \<Rightarrow> 'w rc003_adapter \<Rightarrow> 'w rc003_adapter" where
  "ev_battery P e a =
     (let v = ge_bytes e; level_ok = (length v = 1 \<and> v ! 0 \<le> 100) in
      if restoring (env a) \<and> (ge_type e = RBP_GATT_EVT_PROC_ERROR
           \<or> (ge_type e = RBP_GATT_EVT_READ_RSP \<and> \<not> level_ok))
      then handle_op_failure P a
      else if ge_type e = RBP_GATT_EVT_READ_RSP \<and> level_ok then
        let a = p_server P (C_battery (v ! 0) 0) a
        in go P (if restoring (env a) then ST_SUBSCRIBE_CTL
                 else if bat_cccd_handle (env a) \<noteq> 0 then ST_SUBSCRIBE_BATTERY else ST_FIND_ATVV_SVC) a
      else if ge_type e \<in> {RBP_GATT_EVT_PROC_ERROR, RBP_GATT_EVT_READ_RSP} then go P ST_FIND_ATVV_SVC a
      else a)"

definition ev_sub_battery :: "'w adapter_port \<Rightarrow> rbp_gatt_evt \<Rightarrow> 'w rc003_adapter \<Rightarrow> 'w rc003_adapter" where
  "ev_sub_battery P e a =
     (if ge_type e \<in> {RBP_GATT_EVT_WRITE_DONE, RBP_GATT_EVT_PROC_ERROR} then go P ST_FIND_ATVV_SVC a else a)"

definition ev_find_atvv :: "'w adapter_port \<Rightarrow> rbp_gatt_evt \<Rightarrow> 'w rc003_adapter \<Rightarrow> 'w rc003_adapter" where
  "ev_find_atvv P e a =
     (if ge_type e = RBP_GATT_EVT_SERVICE_FOUND
      then cupd (\<lambda>c. c\<lparr>atvv_present := True\<rparr>) (found_service e a)
      else if ge_type e = RBP_GATT_EVT_PROC_DONE then
        (if \<not> atvv_present (env a) then handle_op_failure P a else go P ST_FIND_ATVV_TX a)
      else if ge_type e \<in> {RBP_GATT_EVT_SERVICE_NOT_FOUND, RBP_GATT_EVT_PROC_ERROR} then handle_op_failure P a
      else a)"

text \<open>The three ATVV characteristics: the property bit that is needed, the handle to set and to test.\<close>

definition ev_atvv_char :: "u8 \<Rightarrow> (u16 \<Rightarrow> 'w adapter \<Rightarrow> 'w adapter) \<Rightarrow> ('w adapter \<Rightarrow> u16) \<Rightarrow> disc_state
    \<Rightarrow> 'w adapter_port \<Rightarrow> rbp_gatt_evt \<Rightarrow> 'w rc003_adapter \<Rightarrow> 'w rc003_adapter" where
  "ev_atvv_char prop set_handle handle next_state P e a =
     (let v = ge_bytes e in
      if ge_type e = RBP_GATT_EVT_CHARS_FOUND \<and> length v \<ge> 3 \<and> v ! 0 AND prop \<noteq> 0
      then cupd (set_handle (decl_handle v)) a
      else if ge_type e = RBP_GATT_EVT_PROC_DONE then
        (if handle (env a) = 0 then handle_op_failure P a else go P next_state a)
      else if ge_type e = RBP_GATT_EVT_PROC_ERROR then handle_op_failure P a
      else a)"

definition ev_written :: "'w adapter_port \<Rightarrow> disc_state \<Rightarrow> rbp_gatt_evt \<Rightarrow> 'w rc003_adapter \<Rightarrow> 'w rc003_adapter" where
  "ev_written P next_state e a =
     (if ge_type e = RBP_GATT_EVT_WRITE_DONE then go P next_state a
      else if ge_type e = RBP_GATT_EVT_PROC_ERROR then handle_op_failure P a
      else a)"

definition ev_handshake :: "'w adapter_port \<Rightarrow> rbp_gatt_evt \<Rightarrow> 'w rc003_adapter \<Rightarrow> 'w rc003_adapter" where
  "ev_handshake P e a = (if ge_type e = RBP_GATT_EVT_PROC_ERROR then handle_op_failure P a else a)"

definition disc_event :: "'w adapter_port \<Rightarrow> rbp_gatt_evt \<Rightarrow> 'w rc003_adapter \<Rightarrow> 'w rc003_adapter" where
  "disc_event P e a =
     (case ad_state (env a) of
        ST_UNICOM_SERVICE \<Rightarrow> ev_unicom_service P e a
      | ST_UNICOM_CHAR \<Rightarrow> ev_unicom_char P e a
      | ST_UNICOM_DESC \<Rightarrow> ev_unicom_desc P e a
      | ST_UNICOM_SUB \<Rightarrow> ev_unicom_sub P e a
      | ST_MTU \<Rightarrow> ev_mtu P e a
      | ST_FIND_PROTOCOL_MODE \<Rightarrow> ev_find_mode P e a
      | ST_READ_PROTOCOL_MODE \<Rightarrow> ev_read_mode P e a
      | ST_VERIFY_PROTOCOL_MODE \<Rightarrow> ev_read_mode P e a
      | ST_FIND_GATT_SVC \<Rightarrow> ev_find_gatt P e a
      | ST_FIND_CHANGED_CHAR \<Rightarrow> ev_find_changed P e a
      | ST_DISC_CHANGED_DESC \<Rightarrow> ev_desc P e a
      | ST_DISC_CTL_DESC \<Rightarrow> ev_desc P e a
      | ST_DISC_AUDIO_DESC \<Rightarrow> ev_desc P e a
      | ST_SUB_CHANGED \<Rightarrow> ev_sub_changed P e a
      | ST_FIND_HID_SVC \<Rightarrow> ev_service P ST_FIND_HID_INFO e a
      | ST_FIND_HID_INFO \<Rightarrow> ev_find_info P e a
      | ST_READ_HID_INFO \<Rightarrow> ev_read_info P e a
      | ST_FIND_MAP_CHAR \<Rightarrow> ev_find_map P e a
      | ST_READ_MAP \<Rightarrow> ev_read_map P e a
      | ST_READ_MAP_CONT \<Rightarrow> ev_read_map P e a
      | ST_ENUM_REPORT_CHARS \<Rightarrow> ev_enum P e a
      | ST_DISC_DESCS \<Rightarrow> ev_descs P e a
      | ST_READ_REPORT_REF \<Rightarrow> ev_report_ref P e a
      | ST_SUBSCRIBE_REPORT \<Rightarrow> ev_subscribe P e a
      | ST_FIND_BAT_SVC \<Rightarrow> ev_service P ST_FIND_BAT_CHAR e a
      | ST_FIND_BAT_CHAR \<Rightarrow> ev_find_bat P e a
      | ST_DISC_BAT_DESCS \<Rightarrow> ev_bat_descs P e a
      | ST_READ_BATTERY \<Rightarrow> ev_battery P e a
      | ST_SUBSCRIBE_BATTERY \<Rightarrow> ev_sub_battery P e a
      | ST_FIND_ATVV_SVC \<Rightarrow> ev_find_atvv P e a
      | ST_FIND_ATVV_TX \<Rightarrow>
          ev_atvv_char 4 (\<lambda>h c. c\<lparr>atvv_tx_handle := h\<rparr>) atvv_tx_handle ST_FIND_ATVV_CTL P e a
      | ST_FIND_ATVV_CTL \<Rightarrow>
          ev_atvv_char 0x10 (\<lambda>h c. c\<lparr>atvv_ctl_handle := h\<rparr>) atvv_ctl_handle ST_DISC_CTL_DESC P e a
      | ST_SUBSCRIBE_CTL \<Rightarrow>
          ev_written P (if restoring (env a) then ST_SUBSCRIBE_AUDIO else ST_FIND_ATVV_AUDIO) e a
      | ST_FIND_ATVV_AUDIO \<Rightarrow>
          ev_atvv_char 0x10 (\<lambda>h c. c\<lparr>atvv_audio_handle := h\<rparr>) atvv_audio_handle ST_DISC_AUDIO_DESC P e a
      | ST_SUBSCRIBE_AUDIO \<Rightarrow> ev_written P ST_ATVV_PREHANDSHAKE e a
      | ST_ATVV_PREHANDSHAKE \<Rightarrow> ev_handshake P e a
      | _ \<Rightarrow> a)"

section \<open>Notifications\<close>

definition decode_keys :: "rc003_report_char \<Rightarrow> u8 list \<Rightarrow> 'w adapter \<Rightarrow> u64 option" where
  "decode_keys r v c =
     (if rc003_boot_layout c \<and> rc_report_id r = 1 \<and> length v = 8 then hogp_decode_boot_keyboard v
      else case hogp_decode_report (report_map c) (rc_report_id r) v of Dec_keys k \<Rightarrow> Some k | _ \<Rightarrow> None)"

definition notify_report :: "'w adapter_port \<Rightarrow> nat \<Rightarrow> u8 list \<Rightarrow> 'w rc003_adapter \<Rightarrow> 'w rc003_adapter" where
  "notify_report P i v a =
     (let r = report_chars (env a) ! i in
      if rc_report_type r \<noteq> 1 \<or> \<not> rc_subscribed r then a
      else case decode_keys r v (env a) of
        None \<Rightarrow>
          let a = ad_fault 256 (ucast (rc_report_id r)) (of_nat (length v)) a;
              a = (if voice_down_seen (env a) then mic_request_stop P a else a)
          in recompute_keys P (cupd (\<lambda>c. c\<lparr>keys_by_report := (keys_by_report c)[i := 0]\<rparr>) a)
      | Some keys \<Rightarrow>
          recompute_keys P (cupd (\<lambda>c. c\<lparr>keys_by_report := (keys_by_report c)[i := keys]\<rparr>) a))"

definition notify_control :: "'w adapter_port \<Rightarrow> u8 list \<Rightarrow> 'w rc003_adapter \<Rightarrow> 'w rc003_adapter" where
  "notify_control P v a =
     (let a = (if restoring (env a) \<and> length v = 2 \<and> v ! 0 = 0
               then cupd (\<lambda>c. c\<lparr>pending_search := False\<rparr>) a else a) in
      if restoring (env a) \<and> \<not> voice_ready (env a) \<and> length v = 1 \<and> v ! 0 = 0x08
      then cupd (\<lambda>c. c\<lparr>pending_search := True\<rparr>) a
      else
        let (valid, a) = rc003_atvv_on_control (adapter_sink P) v a
        in if \<not> valid \<and> v \<noteq> [] \<and> v ! 0 = 0x0B then
             (if ad_state (env a) = ST_ATVV_PREHANDSHAKE then handle_op_failure P a else a)
           else finish_voice_ready P a)"

definition runtime_notify :: "'w adapter_port \<Rightarrow> rbp_gatt_evt \<Rightarrow> 'w rc003_adapter \<Rightarrow> 'w rc003_adapter" where
  "runtime_notify P e a =
     (let c = env a; v = ge_bytes e; h = ge_handle e in
      if service_changed_handle c \<noteq> 0 \<and> h = service_changed_handle c
      then p_server P (C_adapter_failed (Some (cstr ''GATT database changed; rediscover on reconnect''))) a
      else case char_index h c of
        Some i \<Rightarrow> notify_report P i v a
      | None \<Rightarrow>
          if atvv_present c \<and> h = atvv_ctl_handle c then notify_control P v a
          else if atvv_present c \<and> h = atvv_audio_handle c then rc003_atvv_on_audio (adapter_sink P) v a
          else if h = bat_value_handle c \<and> length v = 1 \<and> v ! 0 \<le> 100
          then p_server P (C_battery (v ! 0) 0) a
          else a)"

section \<open>The event handler\<close>

definition rc003_adapter_on_gatt :: "'w adapter_port \<Rightarrow> rbp_gatt_evt \<Rightarrow> 'w rc003_adapter \<Rightarrow> 'w rc003_adapter" where
  "rc003_adapter_on_gatt P e a =
     (let c = env a in
      if ge_type e = RBP_GATT_EVT_NOTIFY \<and> service_changed_handle c \<noteq> 0
         \<and> ge_handle e = service_changed_handle c then
        let a = cupd (\<lambda>c. c\<lparr>cache_valid := False, cache_safe := False\<rparr>) a
        in if \<not> halted a then fail_initialization P ''GATT database changed'' a else a
      else if halted a then a
      else if ge_type e = RBP_GATT_EVT_BEARER_FAILED then
        let a = cupd (\<lambda>c. c\<lparr>last_att_error := ge_status e\<rparr>) a
        in if ge_status e = 0x12 then fail_initialization P ''GATT database out of sync'' a
           else fail_transport P ''ATT bearer failed'' a
      else
        let a = (if ge_type e \<in> {RBP_GATT_EVT_CHARS_FOUND, RBP_GATT_EVT_DESC_FOUND, RBP_GATT_EVT_READ_RSP,
                                 RBP_GATT_EVT_SERVICE_FOUND}
                 then cupd (\<lambda>c. c\<lparr>ad_deadline_ms := ad_now_ms c + ATT_RESPONSE_TIMEOUT_MS\<rparr>) a else a);
            a = (if ge_type e = RBP_GATT_EVT_PROC_ERROR
                 then cupd (\<lambda>c. c\<lparr>last_att_error := ge_status e\<rparr>) a else a);
            u = unicom (env a)
        in if ge_type e = RBP_GATT_EVT_PROC_ERROR \<and> ge_status e = 0x12
           then fail_initialization P ''GATT database out of sync'' a
           else if un_selected u \<and> ge_type e = RBP_GATT_EVT_NOTIFY then unicom_notify P e a
           else if un_selected u \<and> ad_state (env a) = ST_DONE \<and> un_in_flight u \<noteq> 0
                   \<and> ge_type e = RBP_GATT_EVT_WRITE_DONE
           then uupd (\<lambda>u. u\<lparr>un_in_flight := 0\<rparr>) a
           else if un_selected u \<and> ad_state (env a) = ST_DONE \<and> un_in_flight u \<noteq> 0
                   \<and> ge_type e = RBP_GATT_EVT_PROC_ERROR
           then unicom_bad P ''Unicom FB write failed'' a
           else
             let a = disc_event P e (a\<lparr>atvv_now_ms := ad_now_ms (env a)\<rparr>)
             in if ge_type e = RBP_GATT_EVT_NOTIFY then runtime_notify P e a else a)"

section \<open>Initialisation\<close>

lemma atvv_init_env [simp]: "env (rc003_atvv_init fl w) = w"
  by (simp add: rc003_atvv_init_def)

text \<open>Taking note of the codecs does not come back into the adapter.\<close>

definition quiet_caps :: "'w adapter_port \<Rightarrow> bool" where
  "quiet_caps P \<longleftrightarrow> (\<forall>caps a. \<exists>w. p_server P (C_voice_caps caps) a = cupd (\<lambda>c. c\<lparr>world := w\<rparr>) a)"

lemma init_quiet:
  assumes "quiet_caps P"
  obtains w where "rc003_adapter_init P a = rc003_atvv_init (atvv_faults a) (adapter_zero w)"
proof -
  let ?a = "rc003_atvv_init (atvv_faults a) (adapter_zero (world (env a)))"
  obtain w where "p_server P (C_voice_caps (Some rc003_caps)) ?a = cupd (\<lambda>c. c\<lparr>world := w\<rparr>) ?a"
    using assms unfolding quiet_caps_def by blast
  then have "rc003_adapter_init P a = rc003_atvv_init (atvv_faults a) (adapter_zero w)"
    by (simp add: rc003_adapter_init_def Let_def) (simp add: cupd_def rc003_atvv_init_def adapter_zero_def)
  then show ?thesis by (rule that)
qed

end
