(* ===== verification/Adapter_Cache_Facts.thy ===== *)
theory Adapter_Cache_Facts
  imports Adapter_Cache
begin

text \<open>
  Properties of the stored attribute database: the round trip, and what an accepted database satisfies.
\<close>

section \<open>Bytes\<close>

lemma word_of_halves: "ucast (ucast (v :: u16) :: u8) OR push_bit 8 (ucast (ucast (drop_bit 8 v) :: u8)) = v"
  by (rule bit_word_eqI) (auto simp: bit_simps)

lemma length_cache_put [simp]: "length (cache_put v) = 2"
  by (simp add: cache_put_def)

lemma length_cache_char [simp]: "length (cache_char r) = 11"
  by (simp add: cache_char_def)

lemma length_cache_chars [simp]: "length (concat (map cache_char rs)) = 11 * length rs"
  by (induction rs) auto

lemma nth_cache_chars:
  "i < length rs \<Longrightarrow> k < 11 \<Longrightarrow> concat (map cache_char rs) ! (11 * i + k) = cache_char (rs ! i) ! k"
proof (induction rs arbitrary: i)
  case (Cons r rs)
  show ?case
  proof (cases i)
    case 0
    then show ?thesis using Cons.prems by (simp add: nth_append)
  next
    case (Suc j)
    have "11 * i + k = 11 + (11 * j + k)" using Suc by simp
    then show ?thesis using Cons Suc by (simp add: nth_append)
  qed
qed simp

definition cache_bytes :: "'w adapter \<Rightarrow> u8 list" where
  "cache_bytes c = cstr ''GAC1'' @
     cache_put (of_nat (CACHE_HEADER + CACHE_CHAR * length (report_chars c) + length (map_bytes c)))
     @ [cache_flags c, of_nat (length (report_chars c))]
     @ concat (map cache_put (cache_handles c)) @ [0, 0, hid_flags c, if hid_info_valid c then 1 else 0]
     @ cache_put (of_nat (length (map_bytes c))) @ replicate 6 0
     @ concat (map cache_char (report_chars c)) @ map_bytes c"

lemma export_bytes:
  assumes "rc003_adapter_cache_export a cap = p" and "p \<noteq> []"
  shows "p = cache_bytes (env a)" and "report_chars (env a) \<noteq> []" and "length (report_chars (env a)) \<le> 8"
    and "length (map_bytes (env a)) \<le> 512" and "length p \<le> cap"
  using assms
  by (auto simp: rc003_adapter_cache_export_def cache_bytes_def Let_def cstr_def cache_handles_def
      split: if_splits)

definition cache_header :: "'w adapter \<Rightarrow> u8 list" where
  "cache_header c = take 48 (cache_bytes c)"

lemma cache_bytes_split: "cache_bytes c = cache_header c @ concat (map cache_char (report_chars c)) @ map_bytes c"
  by (simp add: cache_header_def cache_bytes_def cstr_def cache_handles_def cache_put_def numeral_eq_Suc)

lemma length_cache_header [simp]: "length (cache_header c) = 48"
  by (simp add: cache_header_def cache_bytes_def cstr_def cache_handles_def cache_put_def)

lemma header_nth: "i < 48 \<Longrightarrow> cache_bytes c ! i = cache_header c ! i"
  by (simp add: cache_bytes_split nth_append)

lemma header_fields:
  "take 4 (cache_bytes c) = cstr ''GAC1''"
  "cache_bytes c ! 6 = cache_flags c"
  "cache_bytes c ! 7 = of_nat (length (report_chars c))"
  "cache_bytes c ! 38 = hid_flags c"
  "cache_bytes c ! 39 = (if hid_info_valid c then 1 else 0)"
  by (simp_all add: cache_bytes_def cstr_def cache_handles_def cache_put_def)

lemma header_u16:
  "cache_u16 (cache_bytes c) 4 =
     of_nat (CACHE_HEADER + CACHE_CHAR * length (report_chars c) + length (map_bytes c))"
  "cache_u16 (cache_bytes c) 40 = of_nat (length (map_bytes c))"
  by (simp_all add: cache_u16_def cache_bytes_def cstr_def cache_handles_def cache_put_def word_of_halves)

lemma header_handles:
  "cache_u16 (cache_bytes c) 8 = protocol_mode_handle c"
  "cache_u16 (cache_bytes c) 10 = hid_info_handle c"
  "cache_u16 (cache_bytes c) 12 = map_value_handle c"
  "cache_u16 (cache_bytes c) 14 = bat_value_handle c"
  "cache_u16 (cache_bytes c) 16 = bat_cccd_handle c"
  "cache_u16 (cache_bytes c) 18 = atvv_tx_handle c"
  "cache_u16 (cache_bytes c) 20 = atvv_ctl_handle c"
  "cache_u16 (cache_bytes c) 22 = atvv_ctl_cccd c"
  "cache_u16 (cache_bytes c) 24 = atvv_audio_handle c"
  "cache_u16 (cache_bytes c) 26 = atvv_audio_cccd c"
  "cache_u16 (cache_bytes c) 28 = service_changed_handle c"
  "cache_u16 (cache_bytes c) 30 = service_changed_cccd c"
  "cache_u16 (cache_bytes c) 32 = un_fd (unicom c)"
  "cache_u16 (cache_bytes c) 34 = un_fd_cccd (unicom c)"
  by (simp_all add: cache_u16_def cache_bytes_def cstr_def cache_handles_def cache_put_def word_of_halves)

lemma char_nth:
  assumes "i < length (report_chars c)" and "k < 11"
  shows "cache_bytes c ! (cache_at i + k) = cache_char (report_chars c ! i) ! k"
proof -
  have "11 * i + k < 11 * length (report_chars c)" using assms by linarith
  then show ?thesis
    using nth_cache_chars [OF assms] by (simp add: cache_bytes_split cache_at_def nth_append add.assoc)
qed

lemma char_u16:
  assumes "i < length (report_chars c)" and "k + 1 < 11"
    and "cache_char (report_chars c ! i) ! k = ucast v"
    and "cache_char (report_chars c ! i) ! (k + 1) = ucast (drop_bit 8 v)"
  shows "cache_u16 (cache_bytes c) (cache_at i + k) = v"
  using char_nth [OF assms(1), of k] char_nth [OF assms(1), of "k + 1"] assms
  by (simp add: cache_u16_def word_of_halves)

lemma import_char_bytes:
  assumes i: "i < length (report_chars c)"
  shows "import_char (cache_bytes c) i = report_chars c ! i"
proof -
  let ?r = "report_chars c ! i"
  have "cache_u16 (cache_bytes c) (cache_at i + 0) = rc_value_handle ?r"
    "cache_u16 (cache_bytes c) (cache_at i + 2) = rc_cccd_handle ?r"
    "cache_u16 (cache_bytes c) (cache_at i + 4) = rc_ref_handle ?r"
    by (rule char_u16 [OF i]; simp add: cache_char_def cache_put_def)+
  then show ?thesis
    using char_nth [OF i, of 6] char_nth [OF i, of 7] char_nth [OF i, of 8] char_nth [OF i, of 9]
      char_nth [OF i, of 10]
    by (simp add: import_char_def Let_def cache_char_def cache_put_def)
qed

section \<open>The report topology of Unicom\<close>

text \<open>A successful check has found each report once, and the handles it keeps depend on the reports only.\<close>

lemma scan_reports_ok:
  "scan_reports i cs n u = (True, m, v) \<Longrightarrow>
     m = n + length (filter (\<lambda>r. rc_report_id r = i) cs)
     \<and> v = fold (\<lambda>r. keep_handle i (rc_value_handle r)) (filter (\<lambda>r. rc_report_id r = i) cs) u"
  by (induction i cs n u rule: scan_reports.induct) (auto simp: Let_def split: if_splits)

lemma scan_reports_result:
  "fst (scan_reports i cs n u) = fst (scan_reports i cs n v)
   \<and> fst (snd (scan_reports i cs n u)) = fst (snd (scan_reports i cs n v))"
  by (induction cs arbitrary: n u v) (auto simp: Let_def)

definition id_handle :: "rc003_report_char list \<Rightarrow> u8 \<Rightarrow> u16" where
  "id_handle cs i = rc_value_handle (hd (filter (\<lambda>r. rc_report_id r = i) cs))"

lemma check_reports_ok:
  "check_reports is cs u = (True, v) \<Longrightarrow> v = fold (\<lambda>i. keep_handle i (id_handle cs i)) is u"
proof (induction "is" arbitrary: u)
  case (Cons i "is")
  obtain ok m w where s: "scan_reports i cs 0 u = (ok, m, w)" by (metis prod_cases3)
  with Cons.prems have "ok" "m = 1" and v: "check_reports is cs w = (True, v)"
    by (auto split: if_splits)
  then have "length (filter (\<lambda>r. rc_report_id r = i) cs) = 1"
    and w: "w = fold (\<lambda>r. keep_handle i (rc_value_handle r)) (filter (\<lambda>r. rc_report_id r = i) cs) u"
    using scan_reports_ok [of i cs 0 u m w] s by auto
  then obtain r where "filter (\<lambda>r. rc_report_id r = i) cs = [r]"
    by (metis One_nat_def length_0_conv length_Suc_conv)
  then have "w = keep_handle i (id_handle cs i) u" using w by (simp add: id_handle_def)
  then show ?case using Cons.IH [OF v] by simp
qed simp

lemma check_reports_result: "fst (check_reports is cs u) = fst (check_reports is cs v)"
proof (induction "is" arbitrary: u v)
  case (Cons i "is")
  then show ?case
    using scan_reports_result [of i cs 0 u v] by (auto split: prod.splits)
qed simp

lemma unicom_handles:
  assumes "check_reports unicom_ids cs u = (True, v)"
  shows "v = u\<lparr>un_fb := id_handle cs 0xFB, un_fc := id_handle cs 0xFC, un_f8 := id_handle cs 0xF8\<rparr>"
  using check_reports_ok [OF assms] by (simp add: unicom_ids_def keep_handle_def)

section \<open>Round trip\<close>

text \<open>What a link needs of its database, and what of it is stored.\<close>

definition char_ok :: "rc003_report_char \<Rightarrow> bool" where
  "char_ok r \<longleftrightarrow> rc_value_handle r \<noteq> 0 \<and> rc_report_type r \<noteq> 0 \<and> rc_report_type r \<le> 3
     \<and> (rc_subscribed r \<longrightarrow> rc_cccd_handle r \<noteq> 0)"

definition cacheable :: "'w adapter \<Rightarrow> bool" where
  "cacheable c \<longleftrightarrow>
     un_selected (unicom c) = (map_bytes c = unicom_map)
     \<and> rc003_boot_layout c = rc003_map_crc (map_bytes c) \<and> (un_selected (unicom c) \<or> rc003_boot_layout c)
     \<and> list_all char_ok (report_chars c) \<and> distinct (map rc_value_handle (report_chars c))
     \<and> (service_changed_handle c \<noteq> 0 \<longrightarrow> service_changed_cccd c \<noteq> 0)
     \<and> (if un_selected (unicom c)
        then un_fd (unicom c) \<noteq> 0 \<and> un_fd_cccd (unicom c) \<noteq> 0 \<and> length (report_chars c) = 8
             \<and> check_reports unicom_ids (report_chars c) (unicom c) = (True, unicom c)
        else hogp_report_map_parse (map_bytes c) = Some (report_map c) \<and> atvv_present c
             \<and> atvv_tx_handle c \<noteq> 0 \<and> atvv_ctl_handle c \<noteq> 0 \<and> atvv_ctl_cccd c \<noteq> 0
             \<and> atvv_audio_handle c \<noteq> 0 \<and> atvv_audio_cccd c \<noteq> 0)"

text \<open>What the import demands of the adapter whose database was exported, in terms of that adapter's fields: the profile it
  runs is that of its report map, its report characteristics are usable and distinct, and the handles that the
  profile needs are there.\<close>

definition profile_fits :: "'w adapter \<Rightarrow> bool" where
  "profile_fits c \<longleftrightarrow> un_selected (unicom c) = (map_bytes c = unicom_map)
     \<and> rc003_boot_layout c = rc003_map_crc (map_bytes c) \<and> (un_selected (unicom c) \<or> rc003_boot_layout c)"

definition handles_fit :: "'w adapter \<Rightarrow> bool" where
  "handles_fit c \<longleftrightarrow>
     (service_changed_handle c \<noteq> 0 \<longrightarrow> service_changed_cccd c \<noteq> 0)
     \<and> (if un_selected (unicom c)
        then un_fd (unicom c) \<noteq> 0 \<and> un_fd_cccd (unicom c) \<noteq> 0 \<and> length (report_chars c) = 8
             \<and> fst (check_reports unicom_ids (report_chars c) (unicom c))
        else hogp_report_map_parse (map_bytes c) \<noteq> None \<and> atvv_present c
             \<and> atvv_tx_handle c \<noteq> 0 \<and> atvv_ctl_handle c \<noteq> 0 \<and> atvv_ctl_cccd c \<noteq> 0
             \<and> atvv_audio_handle c \<noteq> 0 \<and> atvv_audio_cccd c \<noteq> 0)"

definition restorable :: "'w adapter \<Rightarrow> bool" where
  "restorable c \<longleftrightarrow> profile_fits c \<and> list_all char_ok (report_chars c)
     \<and> distinct (map rc_value_handle (report_chars c)) \<and> handles_fit c"

text \<open>\<open>d\<close> has the database of \<open>c\<close>. What is not stored is computed from it: for Unicom the handles of three
  reports, otherwise the parsed report map.\<close>

definition restored :: "'w adapter \<Rightarrow> 'v adapter \<Rightarrow> bool" where
  "restored c d \<longleftrightarrow>
     cache_handles d = cache_handles c \<and> hid_flags d = hid_flags c \<and> hid_info_valid d = hid_info_valid c
     \<and> map_bytes d = map_bytes c \<and> report_chars d = report_chars c
     \<and> un_selected (unicom d) = un_selected (unicom c) \<and> rc003_boot_layout d = rc003_boot_layout c
     \<and> voice_key_verified d = voice_key_verified c \<and> atvv_present d = atvv_present c
     \<and> (if un_selected (unicom c)
        then un_fb (unicom d) = id_handle (report_chars c) 0xFB \<and> un_fc (unicom d) = id_handle (report_chars c) 0xFC
             \<and> un_f8 (unicom d) = id_handle (report_chars c) 0xF8
        else hogp_report_map_parse (map_bytes c) = Some (report_map d))"

lemma restored_bound [simp]:
  "restored c (d\<lparr>cache_peer_id := x, cache_safe := y, cache_valid := z\<rparr>) = restored c d"
  by (simp add: restored_def cache_handles_def)

lemma flags_bits:
  "cache_flags c AND NOT 15 = 0"
  "cache_flags c AND 3 = (if un_selected (unicom c) then 1 else 0) OR (if rc003_boot_layout c then 2 else 0)"
  "cache_flags c AND 4 \<noteq> 0 \<longleftrightarrow> voice_key_verified c"
  "cache_flags c AND 8 \<noteq> 0 \<longleftrightarrow> atvv_present c"
  by (simp_all add: cache_flags_def)

lemma cache_char_ok_iff:
  "cache_char_ok p i \<longleftrightarrow> char_ok (import_char p i) \<and> p ! (cache_at i + 10) \<le> 1
     \<and> (\<forall>j<i. rc_value_handle (import_char p i) \<noteq> rc_value_handle (import_char p j))"
  by (auto simp: cache_char_ok_def char_ok_def import_char_def Let_def not_less)

definition cache_sized :: "'w adapter \<Rightarrow> bool" where
  "cache_sized c \<longleftrightarrow> report_chars c \<noteq> [] \<and> length (report_chars c) \<le> RC003_MAX_REPORT_CHARS
     \<and> length (map_bytes c) \<le> HOGP_MAX_MAP_SIZE"

lemma count_byte: "cache_sized c \<Longrightarrow> unat (cache_bytes c ! 7) = length (report_chars c)"
  by (simp add: header_fields unat_of_nat cache_sized_def)

lemma map_count: "cache_sized c \<Longrightarrow> unat (cache_u16 (cache_bytes c) 40) = length (map_bytes c)"
  by (simp add: header_u16 unat_of_nat cache_sized_def)

lemma length_cache_bytes: "length (cache_bytes c) = cache_at (length (report_chars c)) + length (map_bytes c)"
  by (simp add: cache_bytes_split cache_at_def)

lemma total_count: "cache_sized c \<Longrightarrow> unat (cache_u16 (cache_bytes c) 4) = length (cache_bytes c)"
  by (simp add: header_u16 unat_of_nat length_cache_bytes cache_at_def cache_sized_def del: of_nat_add)

lemma import_header_bytes:
  assumes "cache_sized c"
  shows "import_header_ok (cache_bytes c)"
proof -
  have "cache_bytes c ! 7 \<noteq> 0"
    using count_byte [OF assms] assms by (auto simp: cache_sized_def)
  then show ?thesis
    using assms unfolding import_header_ok_def count_byte [OF assms] map_count [OF assms]
      total_count [OF assms] header_fields(1,2,5) flags_bits length_cache_bytes
    by (simp add: cache_at_def cache_sized_def)
qed

lemma import_map_bytes:
  assumes "cache_sized c"
  shows "import_map (cache_bytes c) = map_bytes c"
  unfolding import_map_def count_byte [OF assms] map_count [OF assms]
  by (simp add: cache_at_def cache_bytes_split)

lemma import_chars_bytes: "map (import_char (cache_bytes c)) [0..<length (report_chars c)] = report_chars c"
  by (rule nth_equalityI) (simp_all add: import_char_bytes)

lemma import_chars_ok_bytes:
  assumes "cache_sized c"
  shows "(\<forall>i \<in> set [0..<unat (cache_bytes c ! 7)]. cache_char_ok (cache_bytes c) i) \<longleftrightarrow>
    list_all char_ok (report_chars c) \<and> distinct (map rc_value_handle (report_chars c))"
proof -
  let ?n = "length (report_chars c)" and ?h = "\<lambda>i. rc_value_handle (report_chars c ! i)"
  have b: "cache_bytes c ! (cache_at i + 10) \<le> 1" if "i < ?n" for i
    using char_nth [OF that, of 10] by (simp add: cache_char_def cache_put_def)
  have "cache_char_ok (cache_bytes c) i \<longleftrightarrow> char_ok (report_chars c ! i) \<and> (\<forall>j<i. ?h i \<noteq> ?h j)" if "i < ?n" for i
    using that b [OF that] by (auto simp: cache_char_ok_iff import_char_bytes)
  moreover have "distinct (map rc_value_handle (report_chars c)) \<longleftrightarrow> (\<forall>i<?n. \<forall>j<i. ?h i \<noteq> ?h j)"
    by (auto simp: distinct_conv_nth) (metis less_trans linorder_neqE_nat)
  ultimately show ?thesis unfolding count_byte [OF assms] by (auto simp: list_all_length)
qed

lemma import_fields_bytes:
  assumes "cache_sized c" and "profile_fits c"
  shows "import_fields (cache_bytes c) (adapter_zero w) = (adapter_zero w)
    \<lparr>unicom := unicom_zero\<lparr>un_selected := un_selected (unicom c), un_fd := un_fd (unicom c),
                           un_fd_cccd := un_fd_cccd (unicom c)\<rparr>,
     rc003_boot_layout := rc003_boot_layout c, voice_key_verified := voice_key_verified c,
     atvv_present := atvv_present c, protocol_mode_handle := protocol_mode_handle c,
     hid_info_handle := hid_info_handle c, map_value_handle := map_value_handle c,
     bat_value_handle := bat_value_handle c, bat_cccd_handle := bat_cccd_handle c,
     atvv_tx_handle := atvv_tx_handle c, atvv_ctl_handle := atvv_ctl_handle c,
     atvv_ctl_cccd := atvv_ctl_cccd c, atvv_audio_handle := atvv_audio_handle c,
     atvv_audio_cccd := atvv_audio_cccd c, service_changed_handle := service_changed_handle c,
     service_changed_cccd := service_changed_cccd c, hid_flags := hid_flags c,
     hid_info_valid := hid_info_valid c, map_bytes := map_bytes c, report_chars := report_chars c\<rparr>"
  using assms(2) unfolding import_fields_def import_map_bytes [OF assms(1)] count_byte [OF assms(1)]
    import_chars_bytes import_handles_def Let_def
  by (simp add: header_handles header_fields flags_bits adapter_zero_def profile_fits_def unicom_zero_def)

text \<open>The map of one profile is not that of the other.\<close>

lemma maps_differ: "\<not> rc003_map_crc unicom_map"
  by (simp add: rc003_map_crc_def unicom_map_def)

lemma import_profile_bytes:
  assumes "cache_sized c"
  shows "(cache_bytes c ! 6 AND 3 =
      (if import_map (cache_bytes c) = unicom_map then 1
       else if rc003_map_crc (import_map (cache_bytes c)) then 2 else 0)
     \<and> (import_map (cache_bytes c) = unicom_map \<or> rc003_map_crc (import_map (cache_bytes c)))) \<longleftrightarrow> profile_fits c"
  using maps_differ
  by (auto simp: header_fields flags_bits import_map_bytes [OF assms] profile_fits_def split: if_splits)

definition import_refused :: "u32 \<Rightarrow> u8 list \<Rightarrow> 'w rc003_adapter \<Rightarrow> bool" where
  "import_refused peer p b \<longleftrightarrow> ad_state (env b) \<noteq> ST_IDLE \<or> peer = 0 \<or> \<not> import_header_ok p
      \<or> p ! 6 AND 3 \<noteq> (if import_map p = unicom_map then 1 else if rc003_map_crc (import_map p) then 2 else 0)
      \<or> (import_map p \<noteq> unicom_map \<and> \<not> rc003_map_crc (import_map p))
      \<or> (\<exists>i \<in> set [0..<unat (p ! 7)]. \<not> cache_char_ok p i)"

lemma three_guards:
  "(if A then x else if B then x else if C then x else y) = (if A \<or> B \<or> C then x else y)"
  by simp

lemma import_refuses: "import_refused peer p b \<Longrightarrow> rc003_adapter_cache_import P peer p b = (False, b)"
  by (simp only: import_refused_def rc003_adapter_cache_import_def Let_def three_guards disj_assoc if_True)

lemma import_accepts: "\<not> import_refused peer p b \<Longrightarrow> rc003_adapter_cache_import P peer p b =
    (let (ok, a) = import_check p (cupd (import_fields p) (rc003_adapter_init P b))
     in if \<not> ok then (False, rc003_adapter_init P a)
        else (True, cupd (\<lambda>c. c\<lparr>cache_peer_id := peer, cache_safe := True, cache_valid := True\<rparr>)
                (a\<lparr>profile_init_without_sync := rc003_map_crc (import_map p)\<rparr>)))"
  by (simp only: import_refused_def rc003_adapter_cache_import_def Let_def three_guards disj_assoc if_False)

lemma refused_bytes:
  assumes "cache_sized c" and "ad_state (env b) = ST_IDLE" and "peer \<noteq> 0"
  shows "import_refused peer (cache_bytes c) b \<longleftrightarrow>
    \<not> (profile_fits c \<and> list_all char_ok (report_chars c) \<and> distinct (map rc_value_handle (report_chars c)))"
  using import_profile_bytes [OF assms(1)] import_chars_ok_bytes [OF assms(1)] import_header_bytes [OF assms(1)] assms(2,3)
  unfolding import_refused_def by blast

text \<open>The checks on the imported struct.\<close>

lemma unicom_check_bytes:
  assumes "un_selected (unicom c)" and "un_fd (unicom (env f)) = un_fd (unicom c)"
    and "un_fd_cccd (unicom (env f)) = un_fd_cccd (unicom c)" and "un_selected (unicom (env f))"
    and "report_chars (env f) = report_chars c" and "service_changed_handle (env f) = service_changed_handle c"
    and "service_changed_cccd (env f) = service_changed_cccd c" and "import_check p f = (ok, d)"
  shows "ok = handles_fit c \<and> (ok \<longrightarrow> d = uupd (\<lambda>u. u\<lparr>un_fb := id_handle (report_chars c) 0xFB,
      un_fc := id_handle (report_chars c) 0xFC, un_f8 := id_handle (report_chars c) 0xF8\<rparr>) f)"
proof -
  obtain k v where v: "check_reports unicom_ids (report_chars c) (unicom (env f)) = (k, v)" by fastforce
  have "k = fst (check_reports unicom_ids (report_chars c) (unicom c))"
    using check_reports_result [of unicom_ids "report_chars c" "unicom (env f)" "unicom c"] v by simp
  then show ?thesis
    using assms v unicom_handles [of "report_chars c" "unicom (env f)" v]
    by (auto simp: import_check_def unicom_reports_def handles_fit_def uupd_def cupd_def unicom_ids_def Let_def split: if_splits)
qed

lemma rc003_check_bytes:
  assumes "\<not> un_selected (unicom c)" and "\<not> un_selected (unicom (env f))" and "import_map p = map_bytes c"
    and "cache_handles (env f) = cache_handles c" and "atvv_present (env f) = atvv_present c" and "import_check p f = (ok, d)"
  shows "ok = handles_fit c \<and> (ok \<longrightarrow> (\<exists>rm. hogp_report_map_parse (map_bytes c) = Some rm \<and> d = cupd (\<lambda>c. c\<lparr>report_map := rm\<rparr>) f))"
  using assms
  by (auto simp: import_check_def handles_fit_def cache_handles_def Let_def split: option.splits if_splits)

text \<open>C20: Stored discovery survives. If an adapter exports its attribute database, then importing the bytes into an
  idle adapter, for a peer other than 0 and with a server that only notes the voice capabilities it is told, as the product server does, succeeds exactly when the exporting adapter was restorable: it ran the profile of its report map, each of its
  report characteristics had a handle of its own, a report type from 1 to 3 and, if subscribed, a CCCD, and the handles
  the profile needs were known (RC003: the report map parses and the five voice handles are there; Unicom: the FD02 handles and the
  eight reports; both: a CCCD for the service-changed characteristic if there is one). The import then restores what a later connection
  uses: all fourteen handles, the report characteristics, the report map and its parsed form (or, for Unicom, the handles of its
  reports), the profile and the voice capability; the importing adapter stays idle, and the database is bound to the peer. Otherwise the
  importing adapter is left as it was or freshly initialised. The export does not check all of this: the database
  of an adapter with a report characteristic without Report Reference, whose type is 0, is stored and refused at the
  next start (lemma \<open>untyped_report_lost\<close>).\<close>

theorem cache_roundtrip:
  assumes "quiet_caps P" and "rc003_adapter_cache_export a cap = p" and "p \<noteq> []"
    and "ad_state (env b) = ST_IDLE" and "peer \<noteq> 0" and "rc003_adapter_cache_import P peer p b = (ok, b')"
  shows "ok = restorable (env a)
    \<and> (if ok then restored (env a) (env b') \<and> cache_valid (env b') \<and> cache_safe (env b') \<and> cache_peer_id (env b') = peer
           \<and> ad_state (env b') = ST_IDLE \<and> profile_init_without_sync b' = rc003_boot_layout (env a)
       else b' = b \<or> (\<exists>w. env b' = adapter_zero w))"
proof -
  let ?c = "env a"
  note ex = export_bytes [OF assms(2,3)]
  have sized: "cache_sized ?c" using ex by (simp add: cache_sized_def)
  have p: "p = cache_bytes ?c" by (rule ex(1))
  note ref = refused_bytes [OF sized assms(4,5), folded p]
  show ?thesis
  proof (cases "import_refused peer p b")
    case True
    then show ?thesis using import_refuses [OF True] assms(6) ref by (auto simp: restorable_def)
  next
    case False
    with ref have fits: "profile_fits ?c" by blast
    obtain w where w: "rc003_adapter_init P b = rc003_atvv_init (atvv_faults b) (adapter_zero w)"
      using init_quiet [OF assms(1)] .
    let ?f = "cupd (import_fields p) (rc003_atvv_init (atvv_faults b) (adapter_zero w))"
    have f: "env ?f = import_fields p (adapter_zero w)" by (simp add: rc003_atvv_init_def)
    note fields = f [unfolded p import_fields_bytes [OF sized fits], folded p]
    obtain k d where d: "import_check p ?f = (k, d)" by fastforce
    have m: "import_map p = map_bytes ?c" by (simp add: p import_map_bytes [OF sized])
    have k: "k = handles_fit ?c \<and> (k \<longrightarrow> restored ?c (env d) \<and> ad_state (env d) = ST_IDLE)"
    proof (cases "un_selected (unicom ?c)")
      case True
      have "k = handles_fit ?c \<and> (k \<longrightarrow> d = uupd (\<lambda>u. u\<lparr>un_fb := id_handle (report_chars ?c) 0xFB,
          un_fc := id_handle (report_chars ?c) 0xFC, un_f8 := id_handle (report_chars ?c) 0xF8\<rparr>) ?f)"
        by (rule unicom_check_bytes [OF True _ _ _ _ _ _ d]) (use True in \<open>simp_all only: fields, simp_all\<close>)
      then show ?thesis using True fields by (auto simp: restored_def cache_handles_def uupd_def adapter_zero_def)
    next
      case no: False
      have "k = handles_fit ?c \<and> (k \<longrightarrow> (\<exists>rm. hogp_report_map_parse (map_bytes ?c) = Some rm \<and> d = cupd (\<lambda>c. c\<lparr>report_map := rm\<rparr>) ?f))"
        by (rule rc003_check_bytes [OF no _ m _ _ d]) (use no in \<open>simp_all only: fields, simp_all add: cache_handles_def\<close>)
      then show ?thesis using no fields by (auto simp: restored_def cache_handles_def adapter_zero_def)
    qed
    have res: "(ok, b') = (if \<not> k then (False, rc003_adapter_init P d)
       else (True, cupd (\<lambda>c. c\<lparr>cache_peer_id := peer, cache_safe := True, cache_valid := True\<rparr>)
                     (d\<lparr>profile_init_without_sync := rc003_map_crc (import_map p)\<rparr>)))"
      using assms(6) d unfolding import_accepts [OF False] w by simp
    obtain v where v: "rc003_adapter_init P d = rc003_atvv_init (atvv_faults d) (adapter_zero v)"
      using init_quiet [OF assms(1)] .
    have r: "restorable ?c = k" using ref False k by (simp add: restorable_def)
    have boot: "rc003_map_crc (import_map p) = rc003_boot_layout ?c" using fits m by (simp add: profile_fits_def)
    show ?thesis
    proof (cases k)
      case True
      then have "ok" "b' = cupd (\<lambda>c. c\<lparr>cache_peer_id := peer, cache_safe := True, cache_valid := True\<rparr>)
          (d\<lparr>profile_init_without_sync := rc003_boot_layout ?c\<rparr>)" using res boot by simp_all
      then show ?thesis using True r k by (simp add: cupd_def)
    next
      case no: False
      then show ?thesis using res r v by auto
    qed
  qed
qed

section \<open>Accepted databases\<close>



lemma length_unicom_ids [simp]: "length unicom_ids = 8"
  by (simp add: unicom_ids_def)



lemma cacheable_bound [simp]:
  "cacheable (c\<lparr>cache_peer_id := x, cache_safe := y, cache_valid := z\<rparr>) = cacheable c"
  by (simp add: cacheable_def)


section \<open>A stored Unicom remote\<close>

definition quiet_port :: "unit adapter_port" where
  "quiet_port = \<lparr>RBP_ATT_MTU = 23, RBP_SIMULATOR = False, p_gatt = \<lambda>op w. (0, w), p_server = \<lambda>call a. a,
     p_voice_wanted = \<lambda>_. False, p_capture_session = \<lambda>_. 0\<rparr>"

definition demo_char :: "u8 \<times> u16 \<Rightarrow> rc003_report_char" where
  "demo_char = (\<lambda>(i, h). let output = (i = 0xFB \<or> i = 0xFA) in
     report_char_zero\<lparr>rc_value_handle := h, rc_cccd_handle := h + 1, rc_ref_handle := h + 2, rc_report_id := i,
       rc_report_type := (if output then 2 else 1), rc_properties := (if output then 8 else 0x10),
       rc_subscribed := \<not> output\<rparr>)"

definition demo_chars :: "rc003_report_char list" where
  "demo_chars = map demo_char [(1, 10), (3, 20), (0xFC, 30), (0xFB, 40), (0xF8, 50), (0xFA, 60), (0xF9, 70), (4, 80)]"

definition demo_database :: "unit rc003_adapter" where
  "demo_database = rc003_atvv_init fault_boot ((adapter_zero ())
     \<lparr>unicom := unicom_zero\<lparr>un_selected := True, un_fb := 40, un_fc := 30, un_f8 := 50, un_fd := 100,
                            un_fd_cccd := 101\<rparr>,
      map_bytes := unicom_map, report_chars := demo_chars, bat_value_handle := 7,
      cache_valid := True, cache_safe := True, cache_peer_id := 9\<rparr>)"

lemma quiet_port_caps: "quiet_caps quiet_port"
  by (auto simp: quiet_caps_def quiet_port_def cupd_def intro: exI [of _ "()"])

lemma demo_restorable: "restorable (env demo_database)"
proof -
  have "list_all char_ok demo_chars" "distinct (map rc_value_handle demo_chars)" "length demo_chars = 8"
    by (simp_all add: demo_chars_def demo_char_def char_ok_def report_char_zero_def Let_def)
  moreover have "check_reports unicom_ids demo_chars (unicom (env demo_database)) = (True, unicom (env demo_database))"
    by (simp add: demo_chars_def demo_char_def report_char_zero_def unicom_ids_def keep_handle_def
        demo_database_def unicom_zero_def Let_def)
  ultimately show ?thesis
    using maps_differ
    by (simp add: restorable_def profile_fits_def handles_fit_def demo_database_def adapter_zero_def unicom_zero_def)
qed

lemma demo_export: "length (rc003_adapter_cache_export demo_database 1024) = 305"
proof -
  have "length demo_chars = 8" "length unicom_map = 169" "demo_chars \<noteq> []"
    by (simp_all add: demo_chars_def unicom_map_def)
  then show ?thesis
    by (simp add: rc003_adapter_cache_export_def demo_database_def adapter_zero_def unicom_zero_def Let_def
        cache_handles_def cstr_def)
qed

theorem cache_roundtrip_witness:
  "\<exists>b'. rc003_adapter_cache_import quiet_port 9 (rc003_adapter_cache_export demo_database 1024)
     (rc003_atvv_init fault_boot (adapter_zero ())) = (True, b')
     \<and> restored (env demo_database) (env b')"
proof -
  have e: "rc003_adapter_cache_export demo_database 1024 \<noteq> []" using demo_export by auto
  obtain ok b' where b: "rc003_adapter_cache_import quiet_port 9 (rc003_adapter_cache_export demo_database 1024)
     (rc003_atvv_init fault_boot (adapter_zero ())) = (ok, b')" by fastforce
  then show ?thesis
    using cache_roundtrip [OF quiet_port_caps refl e _ _ b] demo_restorable by (simp add: adapter_zero_def)
qed

text \<open>A report characteristic for which no Report Reference descriptor was found keeps the type 0. The adapter exports the
  database all the same, and no idle adapter takes it back.\<close>

lemma untyped_report_lost:
  assumes "r \<in> set (report_chars (env a))" and "rc_report_type r = 0" and "rc003_adapter_cache_export a cap = p" and "p \<noteq> []"
    and "ad_state (env b) = ST_IDLE" and "peer \<noteq> 0"
  shows "rc003_adapter_cache_import P peer p b = (False, b)"
proof -
  note ex = export_bytes [OF assms(3,4)]
  have "cache_sized (env a)" using ex by (simp add: cache_sized_def)
  moreover have "\<not> list_all char_ok (report_chars (env a))"
    using assms(1,2) by (auto simp: list_all_iff char_ok_def)
  ultimately have "import_refused peer p b" using refused_bytes [OF _ assms(5,6)] ex(1) by auto
  then show ?thesis by (rule import_refuses)
qed


end
