(* ===== verification/Adapter_Inv.thy ===== *)
theory Adapter_Inv
  imports Adapter_Cache Atvv_Facts
begin

text \<open>
  The invariant of the RC003 adapter: its tables stay within their arrays, the indices the code uses are in
  range, and a database is offered for restoring only while it is bound to a peer and watched for changes.
  The locale \<open>adapter_server\<close> states what the adapter relies on from the server it calls, which may call
  back into the adapter; the contract of the ATVV engine (\<open>capture_sink\<close>) follows from it for the adapter's
  own sink, so the engine's lemmas hold inside the adapter. Every operation keeps the invariant.
\<close>

lemma unat_ucast_u8: "unat (ucast (x :: u8) :: u16) = unat x"
  by (simp add: unsigned_ucast_eq take_bit_nat_eq_self unsigned_less [of x, THEN less_le_trans])

section \<open>The invariant\<close>

definition unicom_inv :: "unicom \<Rightarrow> bool" where
  "unicom_inv u \<longleftrightarrow> length (un_body u) = 48 \<and> length (un_preroll u) = 320 \<and> un_pre_head u < 8
     \<and> un_pre_count u \<le> 8 \<and> un_part u \<le> 3"

definition at_report :: "disc_state \<Rightarrow> bool" where
  "at_report st \<longleftrightarrow> st \<in> {ST_DISC_DESCS, ST_READ_REPORT_REF, ST_SUBSCRIBE_REPORT}"

definition core_inv :: "'w adapter \<Rightarrow> bool" where
  "core_inv c \<longleftrightarrow> length (report_chars c) \<le> RC003_MAX_REPORT_CHARS
     \<and> length (keys_by_report c) = RC003_MAX_REPORT_CHARS \<and> length (map_bytes c) \<le> HOGP_MAX_MAP_SIZE
     \<and> (at_report (ad_state c) \<longrightarrow> cur_char c < length (report_chars c))
     \<and> (cache_valid c \<longrightarrow> cache_safe c \<and> cache_peer_id c \<noteq> 0)
     \<and> map_ok (report_map c) \<and> unicom_inv (unicom c)"

definition adapter_inv :: "'w rc003_adapter \<Rightarrow> bool" where
  "adapter_inv a \<longleftrightarrow> atvv_inv a \<and> (\<exists>p. tracks a p) \<and> core_inv (env a)"

text \<open>What a voice event leaves of the Unicom runtime: the server may stop the capture.\<close>

definition unicom_calm :: "unicom \<Rightarrow> unicom \<Rightarrow> bool" where
  "unicom_calm u v \<longleftrightarrow> un_announced v = un_announced u
     \<and> (un_announced u \<longrightarrow> un_pre_count v = un_pre_count u \<and> un_pre_head v = un_pre_head u)"

lemma tracks_cupd [simp]: "tracks (cupd f a) p = tracks a p"
  by (cases p) (auto simp: cupd_def)

lemma atvv_inv_cupd [simp]: "atvv_inv (cupd f a) = atvv_inv a"
  by (simp add: cupd_def atvv_inv_def)

lemma cupd_fields [simp]:
  "stream_active (cupd f a) = stream_active a" "caps_valid (cupd f a) = caps_valid a"
  "atvv_caps (cupd f a) = atvv_caps a" "open_pending (cupd f a) = open_pending a"
  by (simp_all add: cupd_def)

lemma inv_cupd: "adapter_inv a \<Longrightarrow> core_inv (f (env a)) \<Longrightarrow> adapter_inv (cupd f a)"
  by (simp add: adapter_inv_def)

text \<open>Rules to follow a definition along its conditions and updates; the updates of the struct leave a goal
  about its invariant only.\<close>

lemma inv_ifI: "(b \<Longrightarrow> adapter_inv x) \<Longrightarrow> (\<not> b \<Longrightarrow> adapter_inv y) \<Longrightarrow> adapter_inv (if b then x else y)"
  by simp

lemma inv_cupdI: "adapter_inv a \<Longrightarrow> (\<And>c. core_inv c \<Longrightarrow> core_inv (f c)) \<Longrightarrow> adapter_inv (cupd f a)"
  by (simp add: adapter_inv_def)

lemma inv_uupdI: "adapter_inv a \<Longrightarrow> (\<And>u. unicom_inv u \<Longrightarrow> unicom_inv (f u)) \<Longrightarrow> adapter_inv (uupd f a)"
  by (simp add: uupd_def adapter_inv_def core_inv_def)

lemmas inv_rules = inv_ifI inv_cupdI inv_uupdI

lemma uupd_pointI: "adapter_inv a \<Longrightarrow> unicom_inv (f (unicom (env a))) \<Longrightarrow> adapter_inv (uupd f a)"
  by (simp add: uupd_def adapter_inv_def core_inv_def)

lemma inv_unicom: "adapter_inv a \<Longrightarrow> unicom_inv (unicom (env a))"
  by (simp add: adapter_inv_def core_inv_def)

lemma inv_failed: "adapter_inv a \<Longrightarrow> adapter_inv (cupd (\<lambda>c. c\<lparr>ad_state := ST_FAILED\<rparr>) a)"
  by (simp add: adapter_inv_def core_inv_def at_report_def)

lemma inv_uncached: "adapter_inv a \<Longrightarrow> adapter_inv (cupd (\<lambda>c. c\<lparr>cache_valid := False, cache_safe := False\<rparr>) a)"
  by (simp add: adapter_inv_def core_inv_def)

lemma ad_fault_inv [simp]: "adapter_inv (ad_fault st c x a) = adapter_inv a"
proof -
  have "tracks (ad_fault st c x a) p = tracks a p" for p
    by (cases p) (auto simp: ad_fault_def)
  then show ?thesis by (simp add: adapter_inv_def ad_fault_def atvv_inv_def)
qed

lemma ad_fault_fields [simp]:
  "env (ad_fault st c x a) = env a" "stream_active (ad_fault st c x a) = stream_active a"
  by (simp_all add: ad_fault_def)

lemma map_zero_ok [simp]: "map_ok map_zero"
  by (simp add: map_ok_def map_zero_def)

lemma unicom_inputs_ok [simp]: "map_ok unicom_inputs"
  by (simp add: map_ok_def map_zero_def unicom_inputs_def)

lemma unicom_zero_inv [simp]: "unicom_inv unicom_zero"
  by (simp add: unicom_inv_def unicom_zero_def)

lemma adapter_zero_inv: "adapter_inv (rc003_atvv_init fl (adapter_zero w))"
proof -
  have "tracks (rc003_atvv_init fl (adapter_zero w)) Idle" by (simp add: rc003_atvv_init_def)
  moreover have "core_inv (env (rc003_atvv_init fl (adapter_zero w)))"
    by (simp add: rc003_atvv_init_def core_inv_def adapter_zero_def at_report_def)
  ultimately show ?thesis unfolding adapter_inv_def using atvv_init_inv by (metis (no_types))
qed

section \<open>The server\<close>

locale adapter_server =
  fixes P :: "'w adapter_port"
  assumes caps: "quiet_caps P"
    and keep: "adapter_inv a \<Longrightarrow> adapter_inv (p_server P call a)"
    and voice_tracks: "adapter_inv a \<Longrightarrow> tracks a q \<Longrightarrow> tracks (p_server P (C_voice ev now) a) q"
    and voice_unicom: "adapter_inv a \<Longrightarrow> unicom_calm (unicom (env a)) (unicom (env (p_server P (C_voice ev now) a)))"
    and failed_idle: "adapter_inv a \<Longrightarrow> \<not> stream_active a \<Longrightarrow> \<not> stream_active (p_server P (C_adapter_failed m) a)"
    and progress: "adapter_inv a \<Longrightarrow> in_progress (p_server P call a) \<Longrightarrow>
           in_progress a \<and> init_deadline_ms (env (p_server P call a)) = init_deadline_ms (env a)"
begin

lemma fail_init_before:
  assumes "adapter_inv a"
  obtains b m where "fail_init P cause inval a = p_server P (C_adapter_failed m) b" and "adapter_inv b"
    and "ad_state (env b) = ST_FAILED" and "stream_active b = stream_active a"
proof -
  let ?a1 = "if inval then cupd (\<lambda>c. c\<lparr>cache_valid := False, cache_safe := False\<rparr>) a else a"
  let ?a2 = "cupd (\<lambda>c. c\<lparr>pending_search := False, failed_stage := ad_state c\<rparr>) ?a1"
  let ?a3 = "ad_fault (of_nat (disc_code (ad_state (env ?a2)))) (ucast (last_att_error (env ?a2)))
                (if strstr cause ''timeout'' then 1 else 0) ?a2"
  let ?a4 = "cupd (\<lambda>c. c\<lparr>ad_state := ST_FAILED\<rparr>) ?a3"
  have "adapter_inv ?a1" using assms by (simp add: inv_uncached)
  then have "adapter_inv ?a2" by (intro inv_cupd) (simp_all add: core_inv_def adapter_inv_def)
  then have "adapter_inv ?a4" by (intro inv_failed) simp
  moreover have "\<exists>m. fail_init P cause inval a = p_server P (C_adapter_failed m) ?a4"
    unfolding fail_init_def Let_def by (rule exI, rule refl)
  ultimately show ?thesis using that by auto
qed

lemma fail_init_inv: "adapter_inv a \<Longrightarrow> adapter_inv (fail_init P cause inval a)"
  by (metis fail_init_before keep)

lemma fail_init_ends: "adapter_inv a \<Longrightarrow> \<not> in_progress (fail_init P cause inval a)"
  by (metis fail_init_before progress in_progress_def)

lemma fail_init_idle: "adapter_inv a \<Longrightarrow> \<not> stream_active a \<Longrightarrow> \<not> stream_active (fail_init P cause inval a)"
  by (metis fail_init_before failed_idle)

lemmas fail_invs = fail_init_inv [of _ _ True, folded fail_initialization_def]
  fail_init_inv [of _ _ False, folded fail_transport_def]

lemma on_voice_inv: "adapter_inv a \<Longrightarrow> adapter_inv (on_voice P ev a)"
  by (simp add: on_voice_def keep)

lemma on_voice_tracks: "adapter_inv a \<Longrightarrow> tracks a q \<Longrightarrow> tracks (on_voice P ev a) q"
  by (simp add: on_voice_def voice_tracks)

lemma on_fault_event:
  assumes "adapter_inv a" and "tracks a q"
  shows "adapter_inv (atvv_on_fault P r a) \<and> tracks (atvv_on_fault P r a) q"
proof (cases "r = RBP_END_DEVICE_ERROR \<and> \<not> stream_active a")
  case True
  then have "q = Idle" using assms(2) by (cases q) auto
  then show ?thesis
    using True assms fail_init_idle fail_init_inv by (simp add: atvv_on_fault_def fail_transport_def)
next
  case False
  then show ?thesis using assms by (auto simp: atvv_on_fault_def on_voice_inv on_voice_tracks)
qed

lemma deliver_event:
  assumes "adapter_inv a" and "tracks a q"
  shows "adapter_inv (deliver (adapter_sink P) e a) \<and> tracks (deliver (adapter_sink P) e a) q"
  using assms on_fault_event
  by (cases e) (simp_all add: adapter_sink_def report_fault_def on_voice_inv on_voice_tracks atvv_on_encoded_def)

end

text \<open>The adapter's sink fulfils the contract of the engine.\<close>

sublocale adapter_server \<subseteq> engine: capture_sink "adapter_sink P" "\<lambda>_. core_inv"
proof
  fix p q :: capture and w :: "'w adapter" and d e and a :: "'w rc003_adapter"
  show "on_fault (adapter_sink P) \<noteq> None" by (simp add: adapter_sink_def)
  show "core_inv w \<Longrightarrow> core_inv (snd (write_tx (adapter_sink P) d w))"
    by (auto simp: adapter_sink_def atvv_write_tx_def core_inv_def split: prod.splits)
  assume "atvv_inv a" "core_inv (env a)" "tracks a q"
  then have "adapter_inv a" by (auto simp: adapter_inv_def)
  then show "atvv_inv (deliver (adapter_sink P) e a) \<and> tracks (deliver (adapter_sink P) e a) q
      \<and> core_inv (env (deliver (adapter_sink P) e a))"
    using deliver_event [OF _ \<open>tracks a q\<close>, of e] by (simp add: adapter_inv_def)
qed

context adapter_server
begin

lemma engine_good: "engine.good = adapter_inv"
  by (auto simp: engine.good_def adapter_inv_def fun_eq_iff)

lemmas engine_invs = engine.request_stop_good [unfolded engine_good] engine.request_start_good [unfolded engine_good]
  engine.on_control_good [unfolded engine_good] engine.on_audio_good [unfolded engine_good]
  engine.tick_good [unfolded engine_good] engine.clock_good [unfolded engine_good]
  engine.profile_good [unfolded engine_good]

lemma mic_requests_inv:
  "adapter_inv a \<Longrightarrow> adapter_inv (mic_request_start P a)" "adapter_inv a \<Longrightarrow> adapter_inv (mic_request_stop P a)"
  by (simp_all add: mic_request_start_def mic_request_stop_def engine_invs)

lemma finish_voice_ready_inv: "adapter_inv a \<Longrightarrow> adapter_inv (finish_voice_ready P a)"
  unfolding finish_voice_ready_def Let_def
  by (intro inv_rules mic_requests_inv keep; simp add: core_inv_def at_report_def)

lemma key_state_send_inv: "adapter_inv a \<Longrightarrow> adapter_inv (key_state_send P bits a)"
  by (simp add: key_state_send_def keep)

lemma send_if_changed_inv: "adapter_inv a \<Longrightarrow> adapter_inv (send_if_changed P bits a)"
  unfolding send_if_changed_def by (intro inv_rules key_state_send_inv; simp add: core_inv_def)

lemma recompute_keys_inv: "adapter_inv a \<Longrightarrow> adapter_inv (recompute_keys P a)"
  unfolding recompute_keys_def Let_def
  by (intro send_if_changed_inv inv_rules mic_requests_inv keep; simp add: core_inv_def)

section \<open>Unicom\<close>

lemma unicom_end_inv: "adapter_inv a \<Longrightarrow> adapter_inv (unicom_end P r a)"
  unfolding unicom_end_def Let_def by (intro inv_rules on_voice_inv; simp add: unicom_inv_def)

lemma unicom_fail_inv:
  "adapter_inv a \<Longrightarrow> adapter_inv (unicom_bad P why a)" "adapter_inv a \<Longrightarrow> adapter_inv (unicom_stream_fault P why a)"
  by (simp_all add: unicom_bad_def unicom_stream_fault_def unicom_end_inv fail_invs)

lemma unicom_stop_inv: "adapter_inv a \<Longrightarrow> adapter_inv (unicom_stop a)"
  unfolding unicom_stop_def Let_def by (intro inv_rules; simp add: unicom_inv_def)

lemma unicom_ready_inv: "adapter_inv a \<Longrightarrow> adapter_inv (unicom_ready P a)"
  unfolding unicom_ready_def Let_def by (intro keep inv_rules; simp add: core_inv_def at_report_def)

lemma unicom_start_pending_inv: "adapter_inv a \<Longrightarrow> adapter_inv (unicom_start_pending P a)"
  unfolding unicom_start_pending_def Let_def by (intro inv_rules on_voice_inv; simp add: unicom_inv_def)

lemma unicom_begin_inv: "adapter_inv a \<Longrightarrow> adapter_inv (unicom_begin P a)"
  unfolding unicom_begin_def by (intro inv_rules on_voice_inv; simp add: unicom_inv_def)

lemma unicom_preroll_cancel_inv: "adapter_inv a \<Longrightarrow> adapter_inv (unicom_preroll_cancel r a)"
  unfolding unicom_preroll_cancel_def Let_def by (intro unicom_stop_inv inv_rules; simp add: unicom_inv_def)

lemma on_voice_unicom: "adapter_inv a \<Longrightarrow> unicom_calm (unicom (env a)) (unicom (env (on_voice P ev a)))"
  by (simp add: on_voice_def voice_unicom)

lemma uupd_env [simp]: "env (uupd f a) = (env a)\<lparr>unicom := f (unicom (env a))\<rparr>"
  by (simp add: uupd_def)

lemma unicom_emit_inv:
  assumes "adapter_inv a"
  shows "adapter_inv (snd (unicom_emit P p a))"
  unfolding unicom_emit_def Let_def
  by (simp add: assms) (intro impI conjI on_voice_inv inv_rules unicom_begin_inv; simp add: assms unicom_inv_def)

text \<open>Handing a unit over does not touch the ring.\<close>

lemma unicom_emit_ring:
  assumes "adapter_inv a" and "unicom_emit P p a = (True, b)"
  shows "un_pre_count (unicom (env b)) = un_pre_count (unicom (env a))"
    and "un_pre_head (unicom (env b)) = un_pre_head (unicom (env a))"
proof -
  let ?a1 = "if un_announced (unicom (env a)) then a else unicom_begin P a"
  let ?a2 = "if un_started (unicom (env ?a1)) then ?a1
       else on_voice P (RBP_VOICE_EVT_START unicom_format) (uupd (\<lambda>u. u\<lparr>un_started := True\<rparr>) ?a1)"
  have i1: "adapter_inv ?a1" using assms by (simp add: unicom_begin_inv)
  have m: "adapter_inv (uupd (\<lambda>u. u\<lparr>un_announced := True\<rparr>) a)" "adapter_inv (uupd (\<lambda>u. u\<lparr>un_started := True\<rparr>) ?a1)"
    using assms i1 by (auto intro!: inv_rules simp: unicom_inv_def)
  have 1: "un_announced (unicom (env ?a1)) \<and> un_pre_count (unicom (env ?a1)) = un_pre_count (unicom (env a))
      \<and> un_pre_head (unicom (env ?a1)) = un_pre_head (unicom (env a))"
    using on_voice_unicom [OF m(1)] by (auto simp: unicom_begin_def unicom_calm_def)
  then have 2: "un_announced (unicom (env ?a2)) \<and> un_pre_count (unicom (env ?a2)) = un_pre_count (unicom (env a))
      \<and> un_pre_head (unicom (env ?a2)) = un_pre_head (unicom (env a))"
    using on_voice_unicom [OF m(2)] by (auto simp: unicom_calm_def)
  have "adapter_inv ?a2" using i1 m by (simp add: on_voice_inv)
  moreover have "b = on_voice P (RBP_VOICE_EVT_ENCODED (Some p) 40 40 0 320) ?a2"
    using assms(2) by (auto simp: unicom_emit_def Let_def split: if_splits)
  ultimately show "un_pre_count (unicom (env b)) = un_pre_count (unicom (env a))"
    and "un_pre_head (unicom (env b)) = un_pre_head (unicom (env a))"
    using on_voice_unicom [of ?a2] 2 by (auto simp: unicom_calm_def)
qed

lemma unicom_tick_drain_inv:
  assumes "adapter_inv a"
  shows "adapter_inv (unicom_tick_drain P a)"
proof -
  let ?u = "unicom (env a)"
  obtain ok b where e: "unicom_emit P (preroll_unit ?u (unat (un_pre_head ?u))) a = (ok, b)" by fastforce
  have b: "adapter_inv b" using unicom_emit_inv [OF assms, of "preroll_unit ?u (unat (un_pre_head ?u))"] e by simp
  have "adapter_inv (uupd (\<lambda>u. u\<lparr>un_pre_head := (un_pre_head u + 1) mod 8, un_pre_count := un_pre_count u - 1\<rparr>) b)"
    if "ok" "un_pre_count ?u \<noteq> 0"
  proof (rule uupd_pointI [OF b])
    have "un_pre_count (unicom (env b)) \<noteq> 0" using unicom_emit_ring [OF assms, of _ b] e that by simp
    then have "un_pre_count (unicom (env b)) - 1 \<le> 8"
      using inv_unicom [OF b] by (auto simp: unicom_inv_def word_le_nat_alt unat_minus_one)
    then show "unicom_inv (unicom (env b)\<lparr>un_pre_head := (un_pre_head (unicom (env b)) + 1) mod 8,
        un_pre_count := un_pre_count (unicom (env b)) - 1\<rparr>)"
      using inv_unicom [OF b] by (simp add: unicom_inv_def word_mod_less_divisor)
  qed
  then show ?thesis using assms b by (simp add: unicom_tick_drain_def Let_def e)
qed

lemma unicom_tick_capture_inv: "adapter_inv a \<Longrightarrow> adapter_inv (unicom_tick_capture P a)"
  unfolding unicom_tick_capture_def Let_def
  by (intro unicom_tick_drain_inv inv_rules unicom_preroll_cancel_inv unicom_begin_inv)

lemma gatt_do_inv:
  assumes "adapter_inv a" and "gatt_do P op a = (rc, b)"
  shows "adapter_inv b"
  using assms by (auto simp: gatt_do_def core_inv_def intro!: inv_cupdI split: prod.splits)

lemma unicom_submit_inv:
  assumes "adapter_inv a"
  shows "adapter_inv (unicom_submit P a)"
proof -
  have "adapter_inv (uupd (\<lambda>u. u\<lparr>un_in_flight := x, un_command := y, un_command_deadline := z\<rparr>) a)" for x y z
    using assms by (intro inv_rules; simp add: unicom_inv_def)
  then show ?thesis
    using assms unfolding unicom_submit_def Let_def
    by (auto intro!: inv_rules unicom_fail_inv elim: gatt_do_inv [rotated] simp: unicom_inv_def split: prod.split)
qed

lemma unicom_tick_commands_inv: "adapter_inv a \<Longrightarrow> adapter_inv (unicom_tick_commands P a)"
  unfolding unicom_tick_commands_def Let_def
  by (intro inv_rules unicom_fail_inv unicom_end_inv unicom_submit_inv; simp add: unicom_inv_def)

lemma unicom_tick_inv: "adapter_inv a \<Longrightarrow> adapter_inv (unicom_tick P a)"
  unfolding unicom_tick_def Let_def
  by (intro inv_rules unicom_ready_inv unicom_tick_commands_inv unicom_tick_capture_inv unicom_start_pending_inv)

lemma unicom_keys_report_inv: "adapter_inv a \<Longrightarrow> adapter_inv (unicom_keys_report P i p a)"
  unfolding unicom_keys_report_def Let_def
  by (intro inv_rules unicom_fail_inv send_if_changed_inv; simp add: core_inv_def)

lemma unicom_notify_fd_inv: "adapter_inv a \<Longrightarrow> adapter_inv (unicom_notify_fd P v a)"
  unfolding unicom_notify_fd_def Let_def
  by (intro inv_rules unicom_fail_inv unicom_ready_inv; simp add: unicom_inv_def)

lemma unicom_notify_f8_inv: "adapter_inv a \<Longrightarrow> adapter_inv (unicom_notify_f8 P v a)"
  unfolding unicom_notify_f8_def Let_def
  by (intro inv_rules unicom_fail_inv unicom_stop_inv unicom_start_pending_inv; simp add: unicom_inv_def)

lemma unicom_unit_inv:
  assumes "adapter_inv a"
  shows "adapter_inv (unicom_unit P a)"
proof -
  let ?u = "unicom (env a)"
  have room: "adapter_inv (uupd (\<lambda>u. u\<lparr>un_preroll := memcpy_at (un_preroll u)
      (40 * ((unat (un_pre_head u) + unat (un_pre_count u)) mod 8)) (take 40 (un_body u)),
      un_pre_count := un_pre_count u + 1\<rparr>) b)"
    if "adapter_inv b" "un_pre_count (unicom (env b)) \<noteq> 8" for b
  proof (rule uupd_pointI [OF that(1)])
    let ?v = "unicom (env b)"
    have "un_pre_count ?v < 8" using that inv_unicom [OF that(1)] by (simp add: unicom_inv_def order_less_le)
    then have "un_pre_count ?v + 1 \<le> 8" by (rule inc_le)
    moreover have "(unat (un_pre_head ?v) + unat (un_pre_count ?v)) mod 8 \<le> 7"
      using mod_less_divisor [of 8 "unat (un_pre_head ?v) + unat (un_pre_count ?v)"] by linarith
    ultimately show "unicom_inv (?v\<lparr>un_preroll := memcpy_at (un_preroll ?v)
        (40 * ((unat (un_pre_head ?v) + unat (un_pre_count ?v)) mod 8)) (take 40 (un_body ?v)),
        un_pre_count := un_pre_count ?v + 1\<rparr>)"
      using inv_unicom [OF that(1)] by (simp add: unicom_inv_def)
  qed
  obtain sent b where e: "(if un_pre_count ?u = 0 then unicom_emit P (take 40 (un_body ?u)) a else (False, a)) = (sent, b)"
    by fastforce
  have b: "adapter_inv b"
    using e unicom_emit_inv [OF assms, of "take 40 (un_body ?u)"] assms by (auto split: if_splits)
  have "adapter_inv (if sent then b
      else if un_announced (unicom (env b)) \<and> \<not> voice_wanted P b then unicom_stop b
      else if un_pre_count (unicom (env b)) = 8
      then if un_announced (unicom (env b)) then unicom_stream_fault P ''Unicom buffered audio overrun'' b
           else unicom_preroll_cancel RBP_END_BUFFER_OVERRUN b
      else uupd (\<lambda>u. u\<lparr>un_preroll := memcpy_at (un_preroll u)
             (40 * ((unat (un_pre_head u) + unat (un_pre_count u)) mod 8)) (take 40 (un_body u)),
             un_pre_count := un_pre_count u + 1\<rparr>) b)"
    by (intro inv_ifI b unicom_stop_inv unicom_fail_inv unicom_preroll_cancel_inv room)
  then show ?thesis
    using assms unfolding unicom_unit_def Let_def e by (simp add: unicom_preroll_cancel_inv)
qed

lemma unicom_notify_fc_inv:
  assumes "adapter_inv a"
  shows "adapter_inv (unicom_notify_fc P v a)"
proof -
  let ?u = "unicom (env a)"
  define seq part :: u16 where "seq = ucast (v ! 0) OR push_bit 8 (ucast (v ! 1))"
    and "part = ucast (v ! 2) OR push_bit 8 (ucast (v ! 3))"
  define b where "b = uupd (\<lambda>u. u\<lparr>un_sequence := (if part = 0 then seq else un_sequence u),
      un_body := memcpy_at (un_body u) (16 * unat part) (drop 4 v),
      un_part := un_part u + 1, un_last_audio_ms := ad_now_ms (env a)\<rparr>) a"
  have b: "adapter_inv b" if "fc_continues seq part ?u" "length v = 20"
    unfolding b_def
  proof (rule uupd_pointI [OF assms])
    have p: "part \<le> 2" "part = ucast (un_part ?u)" using that by (auto simp: fc_continues_def)
    then have "unat part \<le> 2" by (simp add: word_le_nat_alt)
    moreover from p have "unat (un_part ?u) \<le> 2" by (simp add: word_le_nat_alt unat_ucast_u8)
    then have "un_part ?u < 3" by (simp add: word_less_nat_alt)
    then have "un_part ?u + 1 \<le> 3" by (rule inc_le)
    ultimately show "unicom_inv (?u\<lparr>un_sequence := (if part = 0 then seq else un_sequence ?u),
        un_body := memcpy_at (un_body ?u) (16 * unat part) (drop 4 v), un_part := un_part ?u + 1,
        un_last_audio_ms := ad_now_ms (env a)\<rparr>)"
      using inv_unicom [OF assms] that by (simp add: unicom_inv_def)
  qed
  show ?thesis
    unfolding unicom_notify_fc_def Let_def seq_def [symmetric] part_def [symmetric] b_def [symmetric]
    by (intro inv_rules assms unicom_fail_inv unicom_unit_inv b; simp add: assms unicom_inv_def b)
qed

end

end
