(* ===== verification/Adapter_Safe.thy ===== *)
theory Adapter_Safe
  imports Adapter_Inv
begin

text \<open>
  Every operation of the RC003 adapter keeps its invariant: the discovery with its recursion, the events of
  the GATT client, the life cycle and the import of a stored database.
\<close>

section \<open>Discovery\<close>

lemma keep_handle_inv [simp]: "unicom_inv (keep_handle i h u) = unicom_inv u"
  by (simp add: keep_handle_def unicom_inv_def)

lemma scan_reports_inv: "unicom_inv (snd (snd (scan_reports i cs n u))) = unicom_inv u"
  by (induction i cs n u rule: scan_reports.induct) (simp_all add: Let_def)

lemma check_reports_inv: "unicom_inv (snd (check_reports is cs u)) = unicom_inv u"
proof (induction "is" arbitrary: u)
  case (Cons i "is")
  obtain ok m v where "scan_reports i cs 0 u = (ok, m, v)" by (metis prod_cases3)
  then show ?case using scan_reports_inv [of i cs 0 u] Cons [of v] by simp
qed simp

lemma unicom_reports_inv:
  assumes "adapter_inv a"
  shows "adapter_inv (snd (unicom_reports a))"
proof (cases "check_reports unicom_ids (report_chars (env a)) (unicom (env a))")
  case (Pair ok v)
  have "unicom_inv v"
    using check_reports_inv [of unicom_ids "report_chars (env a)" "unicom (env a)"] inv_unicom [OF assms] Pair
    by simp
  then show ?thesis
    using assms Pair by (auto simp: unicom_reports_def intro!: uupd_pointI)
qed

lemma atvv_init_adapter_inv: "core_inv c \<Longrightarrow> adapter_inv (rc003_atvv_init fl c)"
  using atvv_init_inv [of fl c] by (auto simp: adapter_inv_def rc003_atvv_init_def intro: exI [of _ Idle])

lemma start_op_inv:
  "adapter_inv a \<Longrightarrow> at_report st \<longrightarrow> cur_char (env a) < length (report_chars (env a)) \<Longrightarrow>
     adapter_inv (start_op st now a)"
  by (auto simp: start_op_def adapter_inv_def core_inv_def at_report_def Let_def)

text \<open>Moving on to the next report characteristic.\<close>

lemma start_op_next_inv:
  "adapter_inv a \<Longrightarrow> at_report st \<longrightarrow> cur_char (env a) + 1 < length (report_chars (env a)) \<Longrightarrow>
     adapter_inv (start_op st now (next_char a))"
  by (auto simp: start_op_def next_char_def adapter_inv_def core_inv_def at_report_def Let_def)

definition flow_inv :: "'w rc003_adapter flow \<Rightarrow> bool" where
  "flow_inv fl \<longleftrightarrow> (\<forall>b \<in> set_flow fl. adapter_inv b)"

lemma flow_inv_simps [simp]:
  "flow_inv (Return b) = adapter_inv b" "flow_inv (Again b) = adapter_inv b" "flow_inv (Failure b) = adapter_inv b"
  by (simp_all add: flow_inv_def)

lemma settle_inv: "adapter_inv a \<Longrightarrow> flow_inv (settle now rc a)"
  by (simp add: settle_def Let_def adapter_inv_def core_inv_def)

lemma gatt_do_state: "gatt_do P op a = (rc, b) \<Longrightarrow> ad_state (env b) = ad_state (env a)"
  by (auto simp: gatt_do_def split: prod.splits)

lemma map_bytes_inv:
  "adapter_inv a \<Longrightarrow> adapter_inv (cupd (\<lambda>c. c\<lparr>map_bytes := [], map_long_started := False\<rparr>) a)"
  by (simp add: adapter_inv_def core_inv_def)

lemma wf_rounds_left: "wf rounds_left"
  by (simp add: rounds_left_def)

context adapter_server
begin

lemma submit_inv: "adapter_inv a \<Longrightarrow> flow_inv (submit P now op a)"
  by (auto simp: submit_def intro: settle_inv gatt_do_inv split: prod.split)

lemma set_mode_inv: "adapter_inv a \<Longrightarrow> flow_inv (begin_set_mode P now a)"
  by (auto simp: begin_set_mode_def at_report_def intro!: settle_inv start_op_inv elim: gatt_do_inv [rotated]
      split: prod.split)

lemma disc_descs_inv:
  assumes "adapter_inv a" and "ad_state (env a) = ST_DISC_DESCS"
  shows "flow_inv (begin_disc_descs P now a)"
proof -
  let ?b = "cupd (\<lambda>c. c\<lparr>report_chars := (report_chars c)[cur_char (env a) := (report_chars c ! cur_char (env a))
                       \<lparr>rc_ref_handle := 0, rc_cccd_handle := 0\<rparr>]\<rparr>) a"
  have "adapter_inv ?b" using assms by (simp add: adapter_inv_def core_inv_def)
  then show ?thesis
    using assms(1) by (simp add: begin_disc_descs_def Let_def at_report_def submit_inv start_op_next_inv
        start_op_inv)
qed

lemma subscribe_inv:
  assumes "adapter_inv a"
  shows "flow_inv (begin_subscribe P now a)"
proof -
  have "cur_char (env (next_char a)) = cur_char (env a) + 1"
    "report_chars (env (next_char a)) = report_chars (env a)" by (simp_all add: next_char_def)
  then show ?thesis
    using assms by (simp add: begin_subscribe_def Let_def at_report_def submit_inv start_op_next_inv)
qed

lemma adapter_failed_inv: "adapter_inv a \<Longrightarrow> adapter_inv (adapter_failed P msg a)"
  by (simp add: adapter_failed_def keep inv_failed)

lemma battery_inv:
  assumes "adapter_inv a"
  shows "flow_inv (begin_battery P now a)"
proof -
  obtain ok b where e: "(if un_selected (unicom (env a)) then unicom_reports a else (True, a)) = (ok, b)"
    by fastforce
  have "adapter_inv b" using e assms unicom_reports_inv [OF assms] by (auto split: if_splits)
  then show ?thesis
    unfolding begin_battery_def e by (simp add: unicom_fail_inv adapter_failed_inv submit_inv)
qed

lemma handshake_inv:
  assumes "adapter_inv a"
  shows "flow_inv (begin_handshake P now a)"
proof -
  obtain rc b where e: "gatt_do P (Write_command (atvv_tx_handle (env a)) atvv_build_get_caps) a = (rc, b)"
    by fastforce
  have "adapter_inv b" using gatt_do_inv [OF assms e] .
  moreover have "adapter_inv (finish_voice_ready P (cupd (\<lambda>c. c\<lparr>caps_requested := True,
      ad_deadline_ms := now + INIT_TIMEOUT_MS\<rparr>) b))"
    by (intro finish_voice_ready_inv inv_rules calculation) (simp add: core_inv_def)
  ultimately show ?thesis unfolding begin_handshake_def Let_def e by (simp add: settle_inv)
qed

lemma begin_round_inv:
  assumes "adapter_inv a"
  shows "flow_inv (begin_round P now a)"
  using assms
  by (auto simp: begin_round_def Let_def set_mode_inv disc_descs_inv subscribe_inv battery_inv handshake_inv
      settle_inv submit_inv map_bytes_inv split: disc_state.split option.split)

lemma no_voice_inv: "adapter_inv a \<Longrightarrow> adapter_inv (no_voice P v a)"
  unfolding no_voice_def Let_def by (intro keep inv_rules; simp add: core_inv_def at_report_def)

lemma failure_round_inv:
  assumes "adapter_inv a"
  shows "flow_inv (failure_round P a)"
proof -
  have "adapter_inv (cupd (\<lambda>c. c\<lparr>service_changed_handle := 0\<rparr>) a)"
    "adapter_inv (cupd (\<lambda>c. c\<lparr>ad_retry := False, bat_value_handle := 0\<rparr>) a)"
    using assms by (simp_all add: adapter_inv_def core_inv_def)
  then show ?thesis
    using assms unfolding failure_round_def Let_def
    by (simp add: fail_invs no_voice_inv start_op_inv at_report_def)
qed

lemma begin_next_inv: "adapter_inv a \<Longrightarrow> adapter_inv (begin_next P now a)"
proof (induction a arbitrary: now rule: wf_induct_rule [OF wf_rounds_left])
  case (1 a)
  note round = begin_round_inv [OF "1.prems", of now]
  show ?case
  proof (cases "begin_round P now a")
    case (Return b)
    then show ?thesis using round by (simp add: begin_next.simps [of P now a])
  next
    case (Again b)
    then show ?thesis
      using round "1.IH" [OF begin_round_again [OF Again]] by (simp add: begin_next.simps [of P now a])
  next
    case (Failure b)
    then have b: "adapter_inv b" using round by simp
    have "adapter_inv (begin_next P t c)" if "failure_round P b = Again c" for t c
      using "1.IH" failure_round_again [OF that begin_round_failure [OF Failure]] failure_round_inv [OF b] that by simp
    then show ?thesis
      using Failure failure_round_inv [OF b] by (auto simp: begin_next.simps [of P now a] split: flow.splits)
  qed
qed

lemma handle_op_failure_inv: "adapter_inv a \<Longrightarrow> adapter_inv (handle_op_failure P a)"
  using failure_round_inv [of a] by (auto simp: handle_op_failure_def begin_next_inv split: flow.splits)

lemma go_inv:
  "adapter_inv a \<Longrightarrow> at_report st \<longrightarrow> cur_char (env a) < length (report_chars (env a)) \<Longrightarrow> adapter_inv (go P st a)"
  by (simp add: go_def begin_next_inv start_op_inv)

section \<open>Events\<close>

lemmas event_rules = inv_rules unicom_fail_inv fail_invs handle_op_failure_inv go_inv unicom_ready_inv start_op_inv
  keep

lemmas event_defs = core_inv_def unicom_inv_def at_report_def restore_mode_def restore_changed_def

lemma found_service_inv: "adapter_inv a \<Longrightarrow> adapter_inv (found_service e a)"
  unfolding found_service_def by (intro inv_rules; simp add: core_inv_def)

lemma ev_unicom_service_inv: "adapter_inv a \<Longrightarrow> adapter_inv (ev_unicom_service P e a)"
  unfolding ev_unicom_service_def Let_def by (intro event_rules found_service_inv; simp add: event_defs)

lemma ev_unicom_char_inv: "adapter_inv a \<Longrightarrow> adapter_inv (ev_unicom_char P e a)"
  unfolding ev_unicom_char_def Let_def by (intro event_rules found_service_inv; simp add: event_defs)

lemma ev_unicom_desc_inv: "adapter_inv a \<Longrightarrow> adapter_inv (ev_unicom_desc P e a)"
  unfolding ev_unicom_desc_def Let_def by (intro event_rules found_service_inv; simp add: event_defs)

lemma ev_unicom_sub_inv: "adapter_inv a \<Longrightarrow> adapter_inv (ev_unicom_sub P e a)"
  unfolding ev_unicom_sub_def Let_def by (intro event_rules found_service_inv; simp add: event_defs)

lemma ev_mtu_inv: "adapter_inv a \<Longrightarrow> adapter_inv (ev_mtu P e a)"
  unfolding ev_mtu_def Let_def by (intro event_rules found_service_inv; simp add: event_defs)

lemma ev_find_mode_inv: "adapter_inv a \<Longrightarrow> adapter_inv (ev_find_mode P e a)"
  unfolding ev_find_mode_def Let_def by (intro event_rules found_service_inv; simp add: event_defs)

lemma ev_read_mode_inv: "adapter_inv a \<Longrightarrow> adapter_inv (ev_read_mode P e a)"
  unfolding ev_read_mode_def Let_def by (intro event_rules found_service_inv; simp add: event_defs)

lemma ev_find_gatt_inv: "adapter_inv a \<Longrightarrow> adapter_inv (ev_find_gatt P e a)"
  unfolding ev_find_gatt_def Let_def by (intro event_rules found_service_inv; simp add: event_defs)

lemma ev_find_changed_inv: "adapter_inv a \<Longrightarrow> adapter_inv (ev_find_changed P e a)"
  unfolding ev_find_changed_def Let_def by (intro event_rules found_service_inv; simp add: event_defs)

lemma ev_desc_inv: "adapter_inv a \<Longrightarrow> adapter_inv (ev_desc P e a)"
  unfolding ev_desc_def Let_def by (intro event_rules found_service_inv; simp add: event_defs)

lemma ev_sub_changed_inv: "adapter_inv a \<Longrightarrow> adapter_inv (ev_sub_changed P e a)"
  unfolding ev_sub_changed_def Let_def by (intro event_rules found_service_inv; simp add: event_defs)

lemma ev_find_info_inv: "adapter_inv a \<Longrightarrow> adapter_inv (ev_find_info P e a)"
  unfolding ev_find_info_def Let_def by (intro event_rules found_service_inv; simp add: event_defs)

lemma ev_read_info_inv: "adapter_inv a \<Longrightarrow> adapter_inv (ev_read_info P e a)"
  unfolding ev_read_info_def Let_def by (intro event_rules found_service_inv; simp add: event_defs)

lemma ev_find_map_inv: "adapter_inv a \<Longrightarrow> adapter_inv (ev_find_map P e a)"
  unfolding ev_find_map_def Let_def by (intro event_rules found_service_inv; simp add: event_defs)

lemma ev_enum_inv:
  assumes "adapter_inv a"
  shows "adapter_inv (ev_enum P e a)"
proof -
  have "adapter_inv (cupd (\<lambda>c. c\<lparr>report_chars := report_chars c @ [r]\<rparr>) a)"
    if "length (report_chars (env a)) < 8" for r
    using assms that by (auto simp: adapter_inv_def core_inv_def)
  moreover have "adapter_inv (go P ST_DISC_DESCS (cupd (\<lambda>c. c\<lparr>cur_char := 0\<rparr>) a))"
    if "length (report_chars (env a)) \<noteq> 0"
    using assms that by (intro go_inv) (auto simp: adapter_inv_def core_inv_def)
  ultimately show ?thesis
    unfolding ev_enum_def Let_def by (intro inv_ifI fail_invs handle_op_failure_inv assms; simp)
qed

lemma ev_find_bat_inv: "adapter_inv a \<Longrightarrow> adapter_inv (ev_find_bat P e a)"
  unfolding ev_find_bat_def Let_def by (intro event_rules found_service_inv; simp add: event_defs)

lemma ev_bat_descs_inv: "adapter_inv a \<Longrightarrow> adapter_inv (ev_bat_descs P e a)"
  unfolding ev_bat_descs_def Let_def by (intro event_rules found_service_inv; simp add: event_defs)

lemma ev_battery_inv: "adapter_inv a \<Longrightarrow> adapter_inv (ev_battery P e a)"
  unfolding ev_battery_def Let_def by (intro event_rules found_service_inv; simp add: event_defs)

lemma ev_sub_battery_inv: "adapter_inv a \<Longrightarrow> adapter_inv (ev_sub_battery P e a)"
  unfolding ev_sub_battery_def Let_def by (intro event_rules found_service_inv; simp add: event_defs)

lemma ev_find_atvv_inv: "adapter_inv a \<Longrightarrow> adapter_inv (ev_find_atvv P e a)"
  unfolding ev_find_atvv_def Let_def by (intro event_rules found_service_inv; simp add: event_defs)

lemma ev_handshake_inv: "adapter_inv a \<Longrightarrow> adapter_inv (ev_handshake P e a)"
  unfolding ev_handshake_def Let_def by (intro event_rules found_service_inv; simp add: event_defs)

lemma ev_service_inv: "adapter_inv a \<Longrightarrow> \<not> at_report st \<Longrightarrow> adapter_inv (ev_service P st e a)"
  unfolding ev_service_def by (intro event_rules found_service_inv; simp)

lemma ev_written_inv: "adapter_inv a \<Longrightarrow> \<not> at_report st \<Longrightarrow> adapter_inv (ev_written P st e a)"
  unfolding ev_written_def by (intro event_rules; simp)

lemma ev_atvv_char_inv:
  "adapter_inv a \<Longrightarrow> \<not> at_report st \<Longrightarrow> \<forall>h c. core_inv c \<longrightarrow> core_inv (f h c) \<Longrightarrow>
     adapter_inv (ev_atvv_char k f g st P e a)"
  unfolding ev_atvv_char_def Let_def by (intro event_rules; simp)

lemma profile_inv: "adapter_inv (a :: 'w rc003_adapter) \<Longrightarrow> adapter_inv (a\<lparr>profile_init_without_sync := x\<rparr>)"
  by (rule engine_invs)

lemma map_complete_inv:
  assumes "adapter_inv a"
  shows "adapter_inv (map_complete P a)"
proof -
  let ?m = "map_bytes (env a)" and ?s = "\<lambda>x. uupd (\<lambda>u. u\<lparr>un_selected := x\<rparr>) a"
  have s: "adapter_inv (?s x)" for x using assms by (intro inv_rules; simp add: unicom_inv_def)
  have "adapter_inv (cupd (\<lambda>c. c\<lparr>report_map := rm, rc003_boot_layout := boot\<rparr>) (?s x))"
    if "(if x then Some unicom_inputs else hogp_report_map_parse ?m) = Some rm" for x rm boot
  proof -
    have "map_ok rm" using that parse_ok(1) [of ?m rm] by (auto split: if_splits)
    then show ?thesis by (intro inv_cupdI s) (simp add: core_inv_def)
  qed
  then show ?thesis
    using s unfolding map_complete_def Let_def
    by (auto intro!: handle_op_failure_inv fail_invs go_inv profile_inv simp: at_report_def split: option.split)
qed

lemma ev_read_map_inv:
  assumes "adapter_inv a"
  shows "adapter_inv (ev_read_map P e a)"
proof -
  have "adapter_inv (cupd (\<lambda>c. c\<lparr>map_bytes := map_bytes (env a) @ v\<rparr>) a)"
    if "\<not> length v > HOGP_MAX_MAP_SIZE - length (map_bytes (env a))" for v
    using assms that by (auto simp: adapter_inv_def core_inv_def)
  then show ?thesis
    using assms unfolding ev_read_map_def Let_def
    by (auto intro!: inv_ifI handle_op_failure_inv map_complete_inv go_inv inv_cupdI [of "cupd _ _"]
        simp: at_report_def core_inv_def)
qed

lemma upd_char_inv: "adapter_inv a \<Longrightarrow> adapter_inv (upd_char f a)"
  by (simp add: upd_char_def adapter_inv_def core_inv_def)

lemma upd_char_fields [simp]:
  "cur_char (env (upd_char f a)) = cur_char (env a)"
  "length (report_chars (env (upd_char f a))) = length (report_chars (env a))"
  by (simp_all add: upd_char_def)

lemma next_report_inv: "adapter_inv a \<Longrightarrow> adapter_inv (next_report P a)"
  by (simp add: next_report_def go_def begin_next_inv start_op_next_inv start_op_inv at_report_def)

lemma at_report_range:
  "adapter_inv a \<Longrightarrow> at_report (ad_state (env a)) \<Longrightarrow> cur_char (env a) < length (report_chars (env a))"
  by (simp add: adapter_inv_def core_inv_def)

lemma ev_descs_inv:
  "adapter_inv a \<Longrightarrow> at_report (ad_state (env a)) \<Longrightarrow> adapter_inv (ev_descs P e a)"
  unfolding ev_descs_def Let_def
  by (intro event_rules upd_char_inv next_report_inv; simp add: at_report_range core_inv_def)

lemma ev_report_ref_inv:
  "adapter_inv a \<Longrightarrow> at_report (ad_state (env a)) \<Longrightarrow> adapter_inv (ev_report_ref P e a)"
  unfolding ev_report_ref_def Let_def
  by (intro inv_ifI go_inv handle_op_failure_inv upd_char_inv; simp add: at_report_range)

lemma ev_subscribe_inv: "adapter_inv a \<Longrightarrow> adapter_inv (ev_subscribe P e a)"
  unfolding ev_subscribe_def Let_def
  by (intro inv_ifI handle_op_failure_inv next_report_inv upd_char_inv)

lemma disc_event_inv:
  assumes "adapter_inv a"
  shows "adapter_inv (disc_event P e a)"
proof (cases "at_report (ad_state (env a))")
  case True
  then show ?thesis
    using assms ev_descs_inv ev_report_ref_inv ev_subscribe_inv by (auto simp: disc_event_def at_report_def)
next
  case False
  note ev_unicom_service_inv [simp] ev_unicom_char_inv [simp] ev_unicom_desc_inv [simp] ev_unicom_sub_inv [simp]
    ev_mtu_inv [simp] ev_find_mode_inv [simp] ev_read_mode_inv [simp] ev_find_gatt_inv [simp]
    ev_find_changed_inv [simp] ev_desc_inv [simp] ev_sub_changed_inv [simp] ev_find_info_inv [simp]
    ev_read_info_inv [simp] ev_find_map_inv [simp] ev_read_map_inv [simp] ev_enum_inv [simp]
    ev_find_bat_inv [simp] ev_bat_descs_inv [simp] ev_battery_inv [simp] ev_sub_battery_inv [simp]
    ev_find_atvv_inv [simp] ev_handshake_inv [simp] ev_service_inv [simp] ev_written_inv [simp]
    ev_atvv_char_inv [simp]
  show ?thesis
    using assms False unfolding disc_event_def
    by (cases "ad_state (env a)") (simp_all add: at_report_def core_inv_def)
qed

lemma unicom_notify_inv: "adapter_inv a \<Longrightarrow> adapter_inv (unicom_notify P e a)"
  by (auto simp: unicom_notify_def Let_def unicom_fail_inv unicom_notify_fd_inv unicom_notify_f8_inv
      unicom_notify_fc_inv unicom_keys_report_inv keep split: option.split)

lemma notify_report_inv:
  assumes "adapter_inv a"
  shows "adapter_inv (notify_report P i v a)"
proof -
  have "adapter_inv (recompute_keys P (cupd (\<lambda>c. c\<lparr>keys_by_report := (keys_by_report c)[i := k]\<rparr>) b))"
    if "adapter_inv b" for b k
    using that by (intro recompute_keys_inv inv_rules; simp add: core_inv_def)
  then show ?thesis
    using assms by (simp add: notify_report_def Let_def mic_requests_inv split: option.split)
qed

lemma notify_control_inv:
  assumes "adapter_inv a"
  shows "adapter_inv (notify_control P v a)"
proof -
  have p: "adapter_inv (cupd (\<lambda>c. c\<lparr>pending_search := x\<rparr>) b)" if "adapter_inv b" for b :: "'w rc003_adapter" and x
    using that by (intro inv_rules; simp add: core_inv_def)
  have c: "adapter_inv r" if "adapter_inv b" "rc003_atvv_on_control (adapter_sink P) x b = (ok, r)" for b ok r x
    using engine_invs(3) [OF that(1), of x] that(2) by simp
  show ?thesis
    using assms p unfolding notify_control_def Let_def
    by (auto intro!: handle_op_failure_inv finish_voice_ready_inv elim: c [rotated] split: prod.split)
qed

lemma runtime_notify_inv: "adapter_inv a \<Longrightarrow> adapter_inv (runtime_notify P e a)"
  by (auto simp: runtime_notify_def Let_def keep notify_report_inv notify_control_inv engine_invs
      split: option.split)

lemma on_gatt_inv: "adapter_inv a \<Longrightarrow> adapter_inv (rc003_adapter_on_gatt P e a)"
  unfolding rc003_adapter_on_gatt_def Let_def
  by (intro inv_rules fail_invs unicom_notify_inv unicom_fail_inv runtime_notify_inv disc_event_inv engine_invs;
      simp add: core_inv_def unicom_inv_def)

section \<open>Life cycle\<close>

lemma adapter_init_zero:
  obtains w where "rc003_adapter_init P a = rc003_atvv_init (atvv_faults a) (adapter_zero w)"
  using init_quiet [OF caps] .

lemma adapter_init_inv: "adapter_inv (rc003_adapter_init P a)"
  by (rule adapter_init_zero [of a]) (simp add: adapter_zero_inv)

lemma start_bound_inv:
  assumes "adapter_inv a"
  shows "adapter_inv (rc003_adapter_start_bound P now peer a)"
proof -
  have "adapter_inv (cupd (\<lambda>c. c\<lparr>ad_now_ms := now, cache_peer_id := peer, init_deadline_ms := t\<rparr>)
      (rc003_adapter_init P a))" for t
    by (rule adapter_init_zero [of a])
      (use adapter_zero_inv in \<open>simp add: adapter_inv_def core_inv_def adapter_zero_def\<close>)
  then show ?thesis
    unfolding rc003_adapter_start_bound_def Let_def
    by (intro inv_ifI begin_next_inv start_op_inv keep assms inv_cupdI [OF assms];
        simp add: at_report_def restore_first_def core_inv_def)
qed

lemma commit_bond_inv: "adapter_inv a \<Longrightarrow> adapter_inv (rc003_adapter_commit_bond peer a)"
  by (simp add: rc003_adapter_commit_bond_def adapter_inv_def core_inv_def)

lemma detach_inv:
  assumes "adapter_inv a"
  shows "adapter_inv (rc003_adapter_detach P a)"
proof -
  have u: "unicom_inv (unicom_zero\<lparr>un_selected := True, un_fb := x1, un_fc := x2, un_f8 := x3, un_fd := x4,
      un_fd_cccd := x5\<rparr>)" for x1 x2 x3 x4 x5
    by (simp add: unicom_inv_def unicom_zero_def)
  have "adapter_inv ((rc003_atvv_init (atvv_faults a) (env a))\<lparr>profile_init_without_sync := x\<rparr>)" for x
    using assms by (intro profile_inv atvv_init_adapter_inv) (simp add: adapter_inv_def)
  then show ?thesis
    unfolding rc003_adapter_detach_def Let_def
    by (intro inv_ifI adapter_init_inv uupd_pointI inv_cupdI; simp add: core_inv_def at_report_def u)
qed

lemma mic_stop_inv: "adapter_inv a \<Longrightarrow> adapter_inv (snd (rc003_adapter_mic_stop P a))"
  by (simp add: rc003_adapter_mic_stop_def unicom_stop_inv engine_invs)

lemma mic_start_inv: "adapter_inv a \<Longrightarrow> adapter_inv (snd (rc003_adapter_mic_start P a))"
proof -
  assume a: "adapter_inv a"
  have "adapter_inv (a\<lparr>open_pending := True, open_queued := True, closing := False, open_deadline_ms := t\<rparr>)"
    if "\<not> stream_active a" "\<not> close_queued a" for t
  proof -
    obtain p where "tracks a p" using a by (auto simp: adapter_inv_def)
    then have "p = Idle" using that by (cases p) auto
    then show ?thesis using a that \<open>tracks a p\<close>
      by (auto simp: adapter_inv_def atvv_inv_def intro: exI [of _ Idle])
  qed
  then show ?thesis using a by (simp add: rc003_adapter_mic_start_def)
qed

lemma adapter_tick_inv: "adapter_inv a \<Longrightarrow> adapter_inv (rc003_adapter_tick P now a)"
  unfolding rc003_adapter_tick_def tick_discovery_def tick_rc003_def Let_def
  by (intro inv_ifI fail_invs handle_op_failure_inv begin_next_inv engine_invs mic_requests_inv unicom_tick_inv
      inv_cupdI; simp add: core_inv_def)

section \<open>Import\<close>

lemma import_fields_inv:
  assumes "import_header_ok p"
  shows "adapter_inv (cupd (import_fields p) (rc003_adapter_init P a))"
proof (rule adapter_init_zero [of a])
  fix w assume "rc003_adapter_init P a = rc003_atvv_init (atvv_faults a) (adapter_zero w)"
  moreover have "core_inv (import_fields p (adapter_zero w))"
    using assms by (auto simp: core_inv_def import_fields_def import_handles_def import_header_ok_def import_map_def
        adapter_zero_def at_report_def unicom_inv_def unicom_zero_def Let_def)
  ultimately show ?thesis using adapter_zero_inv [of "atvv_faults a" w] by (simp add: inv_cupd)
qed

lemma import_check_inv:
  assumes "adapter_inv a"
  shows "adapter_inv (snd (import_check p a))"
proof -
  have "adapter_inv (cupd (\<lambda>c. c\<lparr>report_map := rm\<rparr>) a)" if "hogp_report_map_parse (import_map p) = Some rm" for rm
    using assms parse_ok(1) [OF that] by (intro inv_cupdI) (simp_all add: core_inv_def)
  then show ?thesis
    using assms unicom_reports_inv [OF assms]
    by (auto simp: import_check_def Let_def split: prod.splits option.splits)
qed

lemma cache_import_inv:
  assumes "adapter_inv a"
  shows "adapter_inv (snd (rc003_adapter_cache_import P peer p a))"
proof -
  let ?f = "cupd (import_fields p) (rc003_adapter_init P a)"
  obtain ok b where c: "import_check p ?f = (ok, b)" by fastforce
  have "adapter_inv (cupd (\<lambda>c. c\<lparr>cache_peer_id := peer, cache_safe := True, cache_valid := True\<rparr>)
      (b\<lparr>profile_init_without_sync := x\<rparr>))" if "import_header_ok p" "peer \<noteq> 0" for x
  proof -
    have "adapter_inv b" using import_check_inv [OF import_fields_inv [OF that(1)], of p a] c by simp
    then show ?thesis using that(2) by (intro inv_cupdI profile_inv) (simp_all add: core_inv_def)
  qed
  then show ?thesis
    using assms adapter_init_inv unfolding rc003_adapter_cache_import_def Let_def c by auto
qed

end

section \<open>Calls\<close>

text \<open>What the radio layer does to the adapter.\<close>

datatype adapter_call =
    A_start u32 u32
  | A_gatt rbp_gatt_evt
  | A_tick u32
  | A_detach
  | A_commit u32
  | A_mic_stop
  | A_mic_start
  | A_import u32 "u8 list"

fun adapter_perform :: "'w adapter_port \<Rightarrow> adapter_call \<Rightarrow> 'w rc003_adapter \<Rightarrow> 'w rc003_adapter" where
  "adapter_perform P (A_start now peer) a = rc003_adapter_start_bound P now peer a"
| "adapter_perform P (A_gatt e) a = rc003_adapter_on_gatt P e a"
| "adapter_perform P (A_tick now) a = rc003_adapter_tick P now a"
| "adapter_perform P A_detach a = rc003_adapter_detach P a"
| "adapter_perform P (A_commit peer) a = rc003_adapter_commit_bond peer a"
| "adapter_perform P A_mic_stop a = snd (rc003_adapter_mic_stop P a)"
| "adapter_perform P A_mic_start a = snd (rc003_adapter_mic_start P a)"
| "adapter_perform P (A_import peer p) a = snd (rc003_adapter_cache_import P peer p a)"

context adapter_server
begin

lemma perform_inv: "adapter_inv a \<Longrightarrow> adapter_inv (adapter_perform P c a)"
  by (cases c) (simp_all add: start_bound_inv on_gatt_inv adapter_tick_inv detach_inv commit_bond_inv mic_stop_inv
      mic_start_inv cache_import_inv)

lemma performs_inv: "adapter_inv a \<Longrightarrow> adapter_inv (fold (adapter_perform P) cs a)"
  by (induction cs arbitrary: a) (simp_all add: perform_inv)

end

end
