(* ===== verification/Adapter_World.thy ===== *)
theory Adapter_World
  imports Adapter_Safe
begin

text \<open>
  Surroundings for the RC003 adapter: a GATT client with arbitrary answers, and a server that records what it is
  told and answers any call by stopping the microphone, and any call but an event of the voice stream also by closing
  the link, as the product server does through its radio backend. Both are shown to fulfil the
  contract \<open>adapter_server\<close>, the second with the help of the lemmas that the first one provides.
\<close>

section \<open>Recording port\<close>

record ad_recorder =
  ar_calls :: "server_call list"
  ar_ops :: "(gatt_op \<times> int) list"

definition log_call :: "server_call \<Rightarrow> ad_recorder rc003_adapter \<Rightarrow> ad_recorder rc003_adapter" where
  "log_call call = cupd (\<lambda>c. c\<lparr>world := (world c)\<lparr>ar_calls := ar_calls (world c) @ [call]\<rparr>\<rparr>)"

definition plain_port :: "u16 \<Rightarrow> bool \<Rightarrow> (nat \<Rightarrow> int) \<Rightarrow> (ad_recorder \<Rightarrow> bool) \<Rightarrow> (ad_recorder \<Rightarrow> u32)
    \<Rightarrow> ad_recorder adapter_port" where
  "plain_port mtu sim reply demand session =
     \<lparr>RBP_ATT_MTU = mtu, RBP_SIMULATOR = sim,
      p_gatt = \<lambda>op w. (reply (length (ar_ops w)), w\<lparr>ar_ops := ar_ops w @ [(op, reply (length (ar_ops w)))]\<rparr>),
      p_server = log_call, p_voice_wanted = demand, p_capture_session = session\<rparr>"

lemma log_call_fields [simp]:
  "world (env (log_call call a)) = (world (env a))\<lparr>ar_calls := ar_calls (world (env a)) @ [call]\<rparr>"
  "stream_active (log_call call a) = stream_active a" "unicom (env (log_call call a)) = unicom (env a)"
  "ad_state (env (log_call call a)) = ad_state (env a)"
  "init_deadline_ms (env (log_call call a)) = init_deadline_ms (env a)"
  by (simp_all add: log_call_def)

lemma log_call_inv [simp]: "adapter_inv (log_call call a) = adapter_inv a"
  by (simp add: log_call_def adapter_inv_def core_inv_def)

lemma log_call_tracks [simp]: "tracks (log_call call a) p = tracks a p"
  by (simp add: log_call_def)

lemma log_call_quiet: "\<exists>w. log_call call a = cupd (\<lambda>c. c\<lparr>world := w\<rparr>) a"
  unfolding log_call_def by (rule exI [of _ "(world (env a))\<lparr>ar_calls := ar_calls (world (env a)) @ [call]\<rparr>"])
    (simp add: cupd_def)

interpretation plain: adapter_server "plain_port mtu sim reply demand session" for mtu sim reply demand session
proof
  fix a :: "ad_recorder rc003_adapter"
  show "quiet_caps (plain_port mtu sim reply demand session)"
    unfolding quiet_caps_def plain_port_def using log_call_quiet by simp
qed (auto simp: plain_port_def unicom_calm_def in_progress_def)

section \<open>Reactions\<close>

lemma mic_stop_calm:
  fixes P :: "'w adapter_port"
  defines "b \<equiv> \<lambda>a. snd (rc003_adapter_mic_stop P a)"
  shows "same_stream a (b a) \<and> ad_state (env (b a)) = ad_state (env a)
    \<and> init_deadline_ms (env (b a)) = init_deadline_ms (env a) \<and> unicom_calm (unicom (env a)) (unicom (env (b a)))"
proof (cases "un_selected (unicom (env a))")
  case True
  then show ?thesis
    by (auto simp: b_def rc003_adapter_mic_stop_def unicom_stop_def Let_def uupd_def cupd_def same_stream_def
        unicom_calm_def)
next
  case False
  have "ad_state (env (snd (rc003_atvv_request_stop (adapter_sink P) a))) = ad_state (env a)
      \<and> init_deadline_ms (env (snd (rc003_atvv_request_stop (adapter_sink P) a))) = init_deadline_ms (env a)
      \<and> unicom (env (snd (rc003_atvv_request_stop (adapter_sink P) a))) = unicom (env a)"
    by (auto simp: rc003_atvv_request_stop_def send_tx_def adapter_sink_def atvv_write_tx_def Let_def
        split: prod.splits if_splits)
  then show ?thesis
    using False stop_same by (auto simp: b_def rc003_adapter_mic_stop_def unicom_calm_def)
qed

datatype reaction = Stop_mic | Close_link

definition is_voice :: "server_call \<Rightarrow> bool" where
  "is_voice call = (case call of C_voice ev now \<Rightarrow> True | _ \<Rightarrow> False)"

definition react_to :: "ad_recorder adapter_port \<Rightarrow> server_call \<Rightarrow> reaction
    \<Rightarrow> ad_recorder rc003_adapter \<Rightarrow> ad_recorder rc003_adapter" where
  "react_to P call r a = (case r of
     Stop_mic \<Rightarrow> snd (rc003_adapter_mic_stop P a)
   | Close_link \<Rightarrow> if is_voice call then a else rc003_adapter_detach P a)"

definition serve :: "ad_recorder adapter_port \<Rightarrow> (nat \<Rightarrow> reaction list) \<Rightarrow> server_call
    \<Rightarrow> ad_recorder rc003_adapter \<Rightarrow> ad_recorder rc003_adapter" where
  "serve P react call a =
     (let a = log_call call a in
      case call of C_voice_caps caps \<Rightarrow> a
      | _ \<Rightarrow> fold (react_to P call) (react (length (ar_calls (world (env a))))) a)"

definition live_port :: "u16 \<Rightarrow> bool \<Rightarrow> (nat \<Rightarrow> int) \<Rightarrow> (ad_recorder \<Rightarrow> bool) \<Rightarrow> (ad_recorder \<Rightarrow> u32)
    \<Rightarrow> (nat \<Rightarrow> reaction list) \<Rightarrow> ad_recorder adapter_port" where
  "live_port mtu sim reply demand session react =
     (let P = plain_port mtu sim reply demand session in P\<lparr>p_server := serve P react\<rparr>)"

text \<open>What one reaction keeps, and so any number of them.\<close>

definition settled_after :: "server_call \<Rightarrow> 'w rc003_adapter \<Rightarrow> 'w rc003_adapter \<Rightarrow> bool" where
  "settled_after call a b \<longleftrightarrow> adapter_inv b
     \<and> (in_progress b \<longrightarrow> in_progress a \<and> init_deadline_ms (env b) = init_deadline_ms (env a))
     \<and> (\<not> stream_active a \<longrightarrow> \<not> stream_active b)
     \<and> (is_voice call \<longrightarrow> (\<forall>q. tracks a q \<longrightarrow> tracks b q) \<and> unicom_calm (unicom (env a)) (unicom (env b)))"

lemma settled_after_refl: "adapter_inv a \<Longrightarrow> settled_after call a a"
  by (simp add: settled_after_def unicom_calm_def)

lemma settled_after_trans: "settled_after call a b \<Longrightarrow> settled_after call b c \<Longrightarrow> settled_after call a c"
  by (auto simp: settled_after_def unicom_calm_def)

lemma detach_idle: "\<not> stream_active (rc003_adapter_detach P a) \<and> (adapter_inv (rc003_adapter_detach P a) \<longrightarrow>
    quiet_caps P \<longrightarrow> \<not> in_progress (rc003_adapter_detach P a))"
proof -
  have "ad_state (env (rc003_adapter_init P a)) = ST_IDLE" if "quiet_caps P"
    by (rule init_quiet [OF that, of a]) (simp add: adapter_zero_def)
  moreover have "\<not> stream_active (rc003_adapter_init P a)"
    by (simp add: rc003_adapter_init_def Let_def rc003_atvv_init_def)
  ultimately show ?thesis
    by (auto simp: rc003_adapter_detach_def Let_def in_progress_def uupd_def cupd_def rc003_atvv_init_def)
qed

lemma react_settled:
  assumes "adapter_inv a"
  shows "settled_after call a (react_to (plain_port mtu sim reply demand session) call r a)"
proof (cases r)
  case Stop_mic
  let ?P = "plain_port mtu sim reply demand session"
  have "adapter_inv (snd (rc003_adapter_mic_stop ?P a))" by (rule plain.mic_stop_inv [OF assms])
  moreover have "tracks (snd (rc003_adapter_mic_stop ?P a)) q = tracks a q" for q
    using mic_stop_calm [of a ?P] same_stream_tracks by blast
  ultimately show ?thesis
    using Stop_mic mic_stop_calm [of a ?P]
    by (auto simp: react_to_def settled_after_def in_progress_def same_stream_def)
next
  case Close_link
  then show ?thesis
    using assms detach_idle plain.detach_inv [OF assms] plain.caps
    by (auto simp: react_to_def settled_after_def unicom_calm_def)
qed

lemma reacts_settled:
  "adapter_inv a \<Longrightarrow> settled_after call a (fold (react_to (plain_port mtu sim reply demand session) call) rs a)"
proof (induction rs arbitrary: a)
  case (Cons r rs)
  let ?b = "react_to (plain_port mtu sim reply demand session) call r a"
  have 1: "settled_after call a ?b" by (rule react_settled [OF Cons.prems])
  then have "adapter_inv ?b" by (simp add: settled_after_def)
  then show ?case using settled_after_trans [OF 1 Cons.IH] by simp
qed (simp add: settled_after_refl)

lemma serve_settled:
  assumes "adapter_inv a"
  shows "settled_after call a (serve (plain_port mtu sim reply demand session) react call a)"
proof -
  have l: "settled_after call a (log_call call a)"
    using assms by (simp add: settled_after_def in_progress_def unicom_calm_def)
  moreover have "settled_after call (log_call call a)
      (fold (react_to (plain_port mtu sim reply demand session) call) rs (log_call call a))" for rs
    using assms by (intro reacts_settled) simp
  ultimately show ?thesis
    unfolding serve_def Let_def by (auto split: server_call.split intro: settled_after_trans)
qed

interpretation live: adapter_server "live_port mtu sim reply demand session react"
  for mtu sim reply demand session react
proof
  fix a :: "ad_recorder rc003_adapter" and call q ev now m
  let ?P = "plain_port mtu sim reply demand session"
  have s: "p_server (live_port mtu sim reply demand session react) = serve ?P react"
    by (simp add: live_port_def Let_def)
  show "quiet_caps (live_port mtu sim reply demand session react)"
    unfolding quiet_caps_def s by (simp add: serve_def log_call_quiet)
  assume a: "adapter_inv a"
  show "adapter_inv (p_server (live_port mtu sim reply demand session react) call a)"
    using serve_settled [OF a] by (simp add: s settled_after_def)
  show "tracks a q \<Longrightarrow> tracks (p_server (live_port mtu sim reply demand session react) (C_voice ev now) a) q"
    using serve_settled [OF a, of "C_voice ev now"] by (simp add: s settled_after_def is_voice_def)
  show "unicom_calm (unicom (env a))
      (unicom (env (p_server (live_port mtu sim reply demand session react) (C_voice ev now) a)))"
    using serve_settled [OF a, of "C_voice ev now"] by (simp add: s settled_after_def is_voice_def)
  show "\<not> stream_active a \<Longrightarrow>
      \<not> stream_active (p_server (live_port mtu sim reply demand session react) (C_adapter_failed m) a)"
    using serve_settled [OF a, of "C_adapter_failed m"] by (simp add: s settled_after_def)
  show "in_progress (p_server (live_port mtu sim reply demand session react) call a) \<Longrightarrow>
      in_progress a \<and> init_deadline_ms (env (p_server (live_port mtu sim reply demand session react) call a))
        = init_deadline_ms (env a)"
    using serve_settled [OF a] by (simp add: s settled_after_def)
qed

end
