(* ===== verification/Adapter_Facts.thy ===== *)
theory Adapter_Facts
  imports Adapter_World
begin

text \<open>
  Properties of the RC003 adapter: its invariant over any history of calls, the bound on its initialisation, and
  the failure report.
\<close>

section \<open>The deadline of the initialisation\<close>

text \<open>The adapter runs the engine within its tick; that this neither restarts an initialisation nor moves its
  deadline is once more the engine's contract, with another predicate on the surroundings.\<close>

definition within :: "u32 \<Rightarrow> 'w adapter \<Rightarrow> bool" where
  "within D c \<longleftrightarrow> core_inv c \<and> (ad_state c \<notin> {ST_IDLE, ST_DONE, ST_FAILED} \<longrightarrow> init_deadline_ms c = D)"

context adapter_server
begin

lemma serve_within:
  assumes "adapter_inv a" and "within D (env a)"
  shows "within D (env (p_server P call a))"
  using keep [OF assms(1), of call] progress [OF assms(1), of call] assms(2)
  by (auto simp: within_def in_progress_def adapter_inv_def)

lemma fail_within: "adapter_inv a \<Longrightarrow> within D (env (fail_init P cause inval a))"
  using fail_init_inv [of a cause inval] fail_init_ends [of a cause inval]
  by (auto simp: within_def in_progress_def adapter_inv_def)

lemma deliver_within:
  assumes "adapter_inv a" and "within D (env a)"
  shows "within D (env (deliver (adapter_sink P) e a))"
  using assms
  by (cases e) (simp_all add: adapter_sink_def report_fault_def atvv_on_encoded_def on_voice_def atvv_on_fault_def
      serve_within fail_within fail_transport_def)

end

sublocale adapter_server \<subseteq> timed: capture_sink "adapter_sink P" "\<lambda>_. within D" for D
proof
  fix p q :: capture and w :: "'w adapter" and d e and a :: "'w rc003_adapter"
  show "on_fault (adapter_sink P) \<noteq> None" by (simp add: adapter_sink_def)
  show "within D w \<Longrightarrow> within D (snd (write_tx (adapter_sink P) d w))"
    by (auto simp: adapter_sink_def atvv_write_tx_def within_def core_inv_def split: prod.splits)
  assume a: "atvv_inv a" "within D (env a)" "tracks a q"
  then have "adapter_inv a" by (auto simp: adapter_inv_def within_def)
  then show "atvv_inv (deliver (adapter_sink P) e a) \<and> tracks (deliver (adapter_sink P) e a) q
      \<and> within D (env (deliver (adapter_sink P) e a))"
    using deliver_event [OF _ a(3), of e] deliver_within [OF _ a(2), of e] by (simp add: adapter_inv_def)
qed

context adapter_server
begin

lemma timed_good: "timed.good D a \<longleftrightarrow> adapter_inv a \<and> within D (env a)"
  by (auto simp: timed.good_def adapter_inv_def within_def)

lemma tick_rc003_timed:
  assumes "adapter_inv a" and "within D (env a)"
  shows "adapter_inv (tick_rc003 P now a) \<and> within D (env (tick_rc003 P now a))"
  using assms timed.tick_good [of D _ now] timed.request_stop_good [of D]
  unfolding tick_rc003_def Let_def mic_request_stop_def by (auto simp: timed_good)

lemma unicom_ready_ends:
  assumes "adapter_inv a"
  shows "\<not> in_progress (unicom_ready P a)"
proof -
  have step: "adapter_inv (p_server P call b) \<and> \<not> in_progress (p_server P call b)"
    if "adapter_inv b \<and> \<not> in_progress b" for b call
    using that keep progress by blast
  have "adapter_inv (cupd (\<lambda>c. c\<lparr>ad_state := ST_DONE, ad_ready := True, voice_ready := un_hello (unicom c),
      ad_retry := False, cache_valid := cache_safe c \<and> cache_peer_id c \<noteq> 0 \<and> un_hello (unicom c),
      restoring := False\<rparr>) a)" (is "adapter_inv ?b")
    using assms by (intro inv_rules; simp add: core_inv_def at_report_def)
  then have b: "adapter_inv ?b \<and> \<not> in_progress ?b" by (simp add: in_progress_def)
  have "adapter_inv (unicom_ready P a) \<and> \<not> in_progress (unicom_ready P a)"
    unfolding unicom_ready_def Let_def by (rule step, rule step, rule step, rule step, rule b)
  then show ?thesis ..
qed

lemma unicom_tick_waiting:
  assumes "ad_state (env a) \<noteq> ST_DONE"
  shows "unicom_tick P a = a \<or> ad_state (env a) = ST_UNICOM_WAIT"
  using assms by (simp add: unicom_tick_def)

lemma tick_discovery_ends:
  assumes "adapter_inv a" and "within D (env a)" and "reached now D"
  shows "\<not> in_progress (tick_discovery P now a)"
proof (cases "in_progress a")
  case True
  then have "tick_discovery P now a = fail_transport P ''timeout total'' a"
    using assms by (auto simp: tick_discovery_def halted_def in_progress_def within_def)
  then show ?thesis using fail_init_ends [OF assms(1)] by (simp add: fail_transport_def)
next
  case False
  have "\<not> in_progress (begin_next P now a)" if "ad_state (env a) = ST_DONE"
    using that False by (subst begin_next.simps) (simp add: begin_round_def settle_def in_progress_def)
  then show ?thesis
    using False by (auto simp: tick_discovery_def halted_def in_progress_def)
qed

lemma tick_ends:
  assumes "adapter_inv a" and "reached now (init_deadline_ms (env a))"
    and "ad_state (env a) = ST_UNICOM_WAIT \<longrightarrow> reached now (ad_deadline_ms (env a))"
    and "in_progress a"
  shows "\<not> in_progress (rc003_adapter_tick P now a)"
proof -
  let ?a = "cupd (\<lambda>c. c\<lparr>ad_now_ms := now\<rparr>) a" and ?D = "init_deadline_ms (env a)"
  have inv: "adapter_inv ?a" using assms(1) by (intro inv_rules; simp add: core_inv_def)
  have w: "within ?D (env ?a)" using inv by (simp add: within_def adapter_inv_def)
  show ?thesis
  proof (cases "un_selected (unicom (env a)) \<and> ad_state (env a) = ST_UNICOM_WAIT")
    case True
    then have t: "unicom_tick P ?a = unicom_ready P ?a"
      using assms(3) by (simp add: unicom_tick_def)
    define r where "r = unicom_ready P ?a"
    have r: "adapter_inv r" "\<not> in_progress r"
      using unicom_ready_inv [OF inv] unicom_ready_ends [OF inv] by (simp_all add: r_def)
    then have "within now (env r)" by (simp add: within_def in_progress_def adapter_inv_def)
    then have "\<not> in_progress (tick_discovery P now (tick_rc003 P now r))"
      using tick_rc003_timed [OF r(1)] by (intro tick_discovery_ends [of _ now]) auto
    moreover have "rc003_adapter_tick P now a = r \<or> rc003_adapter_tick P now a = tick_discovery P now (tick_rc003 P now r)"
      using True t by (simp add: rc003_adapter_tick_def Let_def halted_def r_def)
    ultimately show ?thesis using r(2) by auto
  next
    case False
    then have "unicom_tick P ?a = ?a \<or> \<not> un_selected (unicom (env a))"
      using assms(4) unicom_tick_waiting [of ?a] by (auto simp: in_progress_def)
    then have "rc003_adapter_tick P now a = tick_discovery P now (tick_rc003 P now ?a)"
      using assms(4) False by (auto simp: rc003_adapter_tick_def Let_def halted_def in_progress_def)
    then show ?thesis
      using tick_discovery_ends [of "tick_rc003 P now ?a" ?D now] tick_rc003_timed [OF inv w] assms(2) by simp
  qed
qed

end

section \<open>Properties\<close>

text \<open>C6: The adapter never leaves its arrays. Whatever the remote sends, whatever the GATT client answers,
  whenever links come and go, and whatever database is loaded from the store: there are at most eight report
  characteristics, the one being examined is one of them, the report map stays within its 512 bytes, the
  Unicom ring holds at most eight units, the voice engine is consistent, and a database is offered for restoring
  only while it is bound to a peer and safe from unseen changes. Decoding a report never reads beyond
  its bytes. The server may answer any call of the adapter by stopping the microphone, and any call other than an event of
  the voice stream also by closing the link. A link that is closed from within an event of the voice
  stream is excluded: there the count of the ring underflows (lemma \<open>close_in_voice_event\<close>).\<close>

theorem adapter_invariant:
  fixes mtu sim reply demand session react a0 cs
  defines "P \<equiv> live_port mtu sim reply demand session react"
  defines "a \<equiv> fold (adapter_perform P) cs (rc003_adapter_init P a0)"
  shows "adapter_inv a \<and> hogp_decode_report (report_map (env a)) i v \<noteq> Dec_fault"
proof -
  have "adapter_inv a" unfolding a_def P_def by (intro live.performs_inv live.adapter_init_inv)
  moreover from this have "map_ok (report_map (env a))" by (simp add: adapter_inv_def core_inv_def)
  ultimately show ?thesis using decode_report_safe by blast
qed






section \<open>Closing the link from a voice event\<close>

text \<open>The server ends a session whose media queue overflows, cancels the pairing of that session, and with it the link, all
  within the voice event that \<open>unicom_tick\<close> reports while it drains the ring. The adapter that
  comes back is idle, and the count of its empty ring is decremented. The next capture resets the count before it is used.\<close>

definition hang_up :: "ad_recorder adapter_port" where
  "hang_up = (let P = plain_port 23 False (\<lambda>_. 0) (\<lambda>_. True) (\<lambda>_. 5)
     in P\<lparr>p_server := \<lambda>call a. let a = log_call call a in if is_voice call then rc003_adapter_detach P a else a\<rparr>)"

definition mid_capture :: "ad_recorder rc003_adapter" where
  "mid_capture = rc003_atvv_init fault_boot ((adapter_zero \<lparr>ar_calls = [], ar_ops = []\<rparr>)
     \<lparr>ad_state := ST_DONE, ad_ready := True, voice_ready := True,
      unicom := unicom_zero\<lparr>un_selected := True, un_hello := True, un_active := True, un_announced := True, un_started := True,
        un_refresh_ms := 100, un_capture_session := 5, un_pre_count := 1\<rparr>\<rparr>)"

lemma mid_capture_inv: "adapter_inv mid_capture"
proof -
  have "core_inv (env mid_capture)"
    by (simp add: mid_capture_def rc003_atvv_init_def core_inv_def adapter_zero_def unicom_inv_def unicom_zero_def at_report_def)
  moreover have "tracks mid_capture Idle" by (simp add: mid_capture_def rc003_atvv_init_def)
  moreover have "atvv_inv mid_capture" unfolding mid_capture_def by (rule atvv_init_inv)
  ultimately show ?thesis unfolding adapter_inv_def by blast
qed

lemma close_in_voice_event:
  "let u = unicom (env (unicom_tick hang_up mid_capture)) in un_pre_count u = 255 \<and> \<not> un_active u"
  by code_simp

section \<open>The failure report\<close>

text \<open>The message names the state \<open>S\<close>, the error \<open>E\<close> and further fields in hexadecimal. Each field is found by its
  letter in the message built so far, so a digit \<open>E\<close> of the state is taken for the error field: in the
  states \<open>ST_FIND_BAT_CHAR\<close> (14) and \<open>ST_SET_PROTOCOL_MODE\<close> (30) the error overwrites its own label.\<close>

lemma init_message_reads:
  "init_message True ((adapter_zero ())\<lparr>ad_state := ST_FIND_HID_SVC, last_att_error := 0x0A\<rparr>) =
     ''init failed: S=06 E=0A M=0000 N=00 I=00 T=1''"
  by code_simp

lemma init_message_garbled:
  "init_message True ((adapter_zero ())\<lparr>ad_state := ST_FIND_BAT_CHAR, last_att_error := 0x0A\<rparr>) =
     ''init failed: S=0E 0A00 M=0000 N=00 I=00 T=1''"
  by code_simp

end
