(* ===== verification/Board.thy ===== *)
theory Board
  imports Server_State Faults Crc32c
begin

text \<open>
  The persistent store of the board (\<open>src/firmware/wch/board.c\<close> and \<open>cache_store.inc\<close>): the bond journal in two
  pages of the data EEPROM, and the optional attribute cache in two slots of two pages each. The
  statics of the file are the record \<open>board\<close>. The EEPROM driver of the vendor is a parameter: each of
  its calls returns a status, zero for success, and may change the device whatever it returns.
\<close>

abbreviation (input) STORE_BASE :: nat where "STORE_BASE \<equiv> 0x7C00"
abbreviation (input) STORE_SLOT_SIZE :: nat where "STORE_SLOT_SIZE \<equiv> 256"
abbreviation (input) STORE_SLOT_COUNT :: nat where "STORE_SLOT_COUNT \<equiv> 2"
abbreviation (input) BOARD_CACHE_BASE :: nat where "BOARD_CACHE_BASE \<equiv> 0x7800"
abbreviation (input) BOARD_CACHE_MAX :: nat where "BOARD_CACHE_MAX \<equiv> 384"
abbreviation (input) CRC_OFF :: nat where "CRC_OFF \<equiv> 248"
abbreviation (input) COMMIT_OFF :: nat where "COMMIT_OFF \<equiv> 252"
abbreviation (input) COMMIT_WORD :: u32 where "COMMIT_WORD \<equiv> 0x43544252"
abbreviation (input) GAC_CRC :: nat where "GAC_CRC \<equiv> 504"
abbreviation (input) GAC_COMMIT :: nat where "GAC_COMMIT \<equiv> 508"
abbreviation (input) GAC_WORD :: u32 where "GAC_WORD \<equiv> 0x31434147"
abbreviation (input) RBP_FAULT_STORAGE :: u16 where "RBP_FAULT_STORAGE \<equiv> 7"

record 'w eeprom =
  EEPROM_READ :: "nat \<Rightarrow> nat \<Rightarrow> 'w \<Rightarrow> u32 \<times> u8 list \<times> 'w"
  EEPROM_WRITE :: "nat \<Rightarrow> u8 list \<Rightarrow> 'w \<Rightarrow> u32 \<times> 'w"
  EEPROM_ERASE :: "nat \<Rightarrow> nat \<Rightarrow> 'w \<Rightarrow> u32 \<times> 'w"

record 'w board =
  bd_current :: "u8 list"
  current_slot :: "nat option"
  storage_state :: u8
  bd_loaded :: bool
  staged_addr :: "u8 list"
  staged_type :: u8
  staged_valid :: bool
  staged_hid_flags :: u8
  gac_slot :: "nat option"
  gac_generation :: u32
  gac_loaded :: bool
  gac_io_failed :: bool
  bd_faults :: fault_state
  device :: 'w

text \<open>The statics when power comes on.\<close>

definition board_boot :: "fault_state \<Rightarrow> 'w \<Rightarrow> 'w board" where
  "board_boot fl w =
     \<lparr>bd_current = replicate 80 0, current_slot = None, storage_state = 0, bd_loaded = False,
      staged_addr = replicate 6 0, staged_type = 0, staged_valid = False, staged_hid_flags = 255,
      gac_slot = None, gac_generation = 0, gac_loaded = False, gac_io_failed = False,
      bd_faults = fl, device = w\<rparr>"

section \<open>Checked calls of the driver\<close>

definition storage_fault :: "u16 \<Rightarrow> u32 \<Rightarrow> 'w board \<Rightarrow> 'w board" where
  "storage_fault stage rc s =
     (if rc \<noteq> 0 then s\<lparr>bd_faults := rbp_fault_record RBP_FAULT_STORAGE stage rc 0 (bd_faults s)\<rparr> else s)"

definition checked_read :: "'w eeprom \<Rightarrow> nat \<Rightarrow> nat \<Rightarrow> 'w board \<Rightarrow> u32 \<times> u8 list \<times> 'w board" where
  "checked_read E addr len s =
     (let (rc, data, w) = EEPROM_READ E addr len (device s)
      in (rc, data, storage_fault 1 rc (s\<lparr>device := w\<rparr>)))"

definition checked_write :: "'w eeprom \<Rightarrow> nat \<Rightarrow> u8 list \<Rightarrow> 'w board \<Rightarrow> u32 \<times> 'w board" where
  "checked_write E addr data s =
     (let (rc, w) = EEPROM_WRITE E addr data (device s) in (rc, storage_fault 2 rc (s\<lparr>device := w\<rparr>)))"

definition checked_erase :: "'w eeprom \<Rightarrow> nat \<Rightarrow> nat \<Rightarrow> 'w board \<Rightarrow> u32 \<times> 'w board" where
  "checked_erase E addr len s =
     (let (rc, w) = EEPROM_ERASE E addr len (device s) in (rc, storage_fault 3 rc (s\<lparr>device := w\<rparr>)))"

definition checked_verify :: "u8 list \<Rightarrow> u8 list \<Rightarrow> 'w board \<Rightarrow> bool \<times> 'w board" where
  "checked_verify expected actual s =
     (expected = actual, storage_fault 4 (if expected = actual then 0 else 1) s)"

text \<open>One operand of the \<open>||\<close> chains: the next call is made when this one succeeded.\<close>

definition and_then :: "('s \<Rightarrow> bool \<times> 's) \<Rightarrow> ('s \<Rightarrow> bool \<times> 's) \<Rightarrow> 's \<Rightarrow> bool \<times> 's" where
  "and_then f g s = (let (ok, s) = f s in if ok then g s else (False, s))"

definition erase_ok :: "'w eeprom \<Rightarrow> nat \<Rightarrow> nat \<Rightarrow> 'w board \<Rightarrow> bool \<times> 'w board" where
  "erase_ok E addr len s = (let (rc, s) = checked_erase E addr len s in (rc = 0, s))"

definition write_ok :: "'w eeprom \<Rightarrow> nat \<Rightarrow> u8 list \<Rightarrow> 'w board \<Rightarrow> bool \<times> 'w board" where
  "write_ok E addr data s = (let (rc, s) = checked_write E addr data s in (rc = 0, s))"

text \<open>Read \<open>len\<close> bytes and compare the first of them with what was written.\<close>

definition read_back :: "'w eeprom \<Rightarrow> nat \<Rightarrow> nat \<Rightarrow> u8 list \<Rightarrow> 'w board \<Rightarrow> bool \<times> 'w board" where
  "read_back E addr len expected s =
     (let (rc, data, s) = checked_read E addr len s
      in if rc \<noteq> 0 then (False, s) else checked_verify expected (take (length expected) data) s)"

section \<open>The bond journal\<close>

definition page32 :: "u8 list \<Rightarrow> nat \<Rightarrow> u32" where
  "page32 p i = get32 (drop i p)"

definition store_valid :: "u8 list \<Rightarrow> bool" where
  "store_valid p \<longleftrightarrow> take 4 p = cstr ''RBS2'' \<and> page32 p COMMIT_OFF = COMMIT_WORD
     \<and> page32 p CRC_OFF = rbp_crc32c (take CRC_OFF p) \<and> 1 \<le> p ! 8 \<and> p ! 8 \<le> 3
     \<and> p ! 21 \<le> 1 \<and> p ! 22 \<le> 1 \<and> p ! 23 \<le> 1"

definition slot_addr :: "nat \<Rightarrow> nat" where
  "slot_addr i = STORE_BASE + i * STORE_SLOT_SIZE"

definition blank :: "u8 list \<Rightarrow> bool" where
  "blank p \<longleftrightarrow> (\<forall>b \<in> set p. b = 255)"

text \<open>The first loop of \<open>load_slots\<close>; \<open>None\<close> is the early return after a failed read.\<close>

fun scan_slots :: "'w eeprom \<Rightarrow> nat list \<Rightarrow> bool \<Rightarrow> 'w board \<Rightarrow> bool option \<times> 'w board" where
  "scan_slots E [] dirty s = (Some dirty, s)"
| "scan_slots E (i # is) dirty s =
     (let (rc, page, s) = checked_read E (slot_addr i) STORE_SLOT_SIZE s in
      if rc \<noteq> 0 then (None, s\<lparr>storage_state := 255\<rparr>)
      else scan_slots E is (dirty \<or> \<not> blank page)
        (if store_valid page \<and> (current_slot s = None \<or> page32 page 4 > page32 (bd_current s) 4)
         then s\<lparr>bd_current := take 80 page, current_slot := Some i\<rparr> else s))"

text \<open>The second loop: a pending record that was written in full but not committed. The result says
  whether the function has returned.\<close>

fun find_pending :: "'w eeprom \<Rightarrow> nat list \<Rightarrow> 'w board \<Rightarrow> bool \<times> 'w board" where
  "find_pending E [] s = (False, s)"
| "find_pending E (i # is) s =
     (let (rc, page, s) = checked_read E (slot_addr i) STORE_SLOT_SIZE s in
      if rc \<noteq> 0 then (True, s)
      else if take 4 page = cstr ''RBS2'' \<and> page ! 8 = 3 \<and> page32 page CRC_OFF = rbp_crc32c (take CRC_OFF page)
      then (True, s\<lparr>bd_current := take 80 page, current_slot := Some i, storage_state := 3\<rparr>)
      else find_pending E is s)"

text \<open>A page as \<open>write_record\<close> and \<open>load_slots\<close> build it: the fields at 0, 4, 8, 12, 16, 20, 24, 30 and
  32, erased bytes elsewhere, the checksum at 248 and the commit word at 252.\<close>

definition page_body :: "u32 \<Rightarrow> u8 \<Rightarrow> u32 \<Rightarrow> u32 \<Rightarrow> u8 list \<Rightarrow> u8 list \<Rightarrow> u8 \<Rightarrow> u8 list \<Rightarrow> u8 list" where
  "page_body gen st counter peer flags addr hid name =
     cstr ''RBS2'' @ put32 gen @ [st, 255, 255, 255] @ put32 counter @ put32 peer @ [255] @ flags @ addr
       @ [hid, 255] @ name @ replicate 168 255"

definition page_sealed :: "u8 list \<Rightarrow> u8 list" where
  "page_sealed body = body @ put32 (rbp_crc32c body)"

definition page_full :: "u8 list \<Rightarrow> u8 list" where
  "page_full body = page_sealed body @ put32 COMMIT_WORD"

definition first_journal :: "u8 list" where
  "first_journal = page_full (page_body 1 3 1 0 [0, 0, 0] (replicate 6 0) 255 (replicate 48 0))"

text \<open>The rest of the recovery: the first journal of all, torn. Every byte may still have bits unprogrammed.\<close>

definition find_first_torn :: "'w eeprom \<Rightarrow> 'w board \<Rightarrow> 'w board" where
  "find_first_torn E s =
     (let (rc, page, s) = checked_read E (slot_addr 1) STORE_SLOT_SIZE s in
      if rc \<noteq> 0 \<or> \<not> blank page then s
      else
        let (rc, page, s) = checked_read E (slot_addr 0) STORE_SLOT_SIZE s in
        if rc \<noteq> 0 \<or> \<not> list_all2 (\<lambda>b e. b AND e = e) page first_journal then s
        else s\<lparr>bd_current := take 80 first_journal, current_slot := Some 0, storage_state := 3\<rparr>)"

definition load_slots :: "'w eeprom \<Rightarrow> 'w board \<Rightarrow> 'w board" where
  "load_slots E s =
     (if bd_loaded s then s
      else
        case scan_slots E [0..<STORE_SLOT_COUNT] False (s\<lparr>bd_loaded := True, storage_state := 0\<rparr>) of
          (None, s) \<Rightarrow> s
        | (Some dirty, s) \<Rightarrow>
            let c = bd_current s in
            if current_slot s \<noteq> None then
              s\<lparr>storage_state := c ! 8, staged_valid := c ! 22 \<noteq> 0, staged_type := c ! 23,
                staged_addr := take 6 (drop 24 c),
                staged_hid_flags := (if c ! 30 \<le> 3 then c ! 30 else 255)\<rparr>
            else if dirty then
              let (found, s) = find_pending E [0..<STORE_SLOT_COUNT] (s\<lparr>storage_state := 255\<rparr>)
              in if found then s else find_first_torn E s
            else s)"

definition flag_byte :: "bool \<Rightarrow> u8" where
  "flag_byte b = (if b then 1 else 0)"

definition record_body :: "u8 \<Rightarrow> rbp_peer_record option \<Rightarrow> u32 \<Rightarrow> u32 \<Rightarrow> 'w board \<Rightarrow> u8 list" where
  "record_body st rec counter gen s =
     (case rec of
        None \<Rightarrow> page_body gen st counter 0 [0, 0, staged_type s] (staged_addr s) 255 (replicate 48 0)
      | Some r \<Rightarrow> page_body gen st counter (pr_peer_id r)
          [flag_byte (pr_auto_reconnect r), flag_byte (staged_valid s), staged_type s] (staged_addr s)
          (staged_hid_flags s) (take 47 (pr_name r) @ [0]))"

definition record_generation :: "'w board \<Rightarrow> u32" where
  "record_generation s = (case current_slot s of None \<Rightarrow> 0 | Some _ \<Rightarrow> page32 (bd_current s) 4)"

definition next_slot :: "'w board \<Rightarrow> nat" where
  "next_slot s = (case current_slot s of None \<Rightarrow> 0 | Some i \<Rightarrow> (i + 1) mod STORE_SLOT_COUNT)"

definition write_page :: "'w eeprom \<Rightarrow> nat \<Rightarrow> u8 list \<Rightarrow> 'w board \<Rightarrow> bool \<times> 'w board" where
  "write_page E addr body =
     and_then (erase_ok E addr STORE_SLOT_SIZE)
    (and_then (write_ok E addr (page_sealed body))
    (and_then (read_back E addr STORE_SLOT_SIZE (page_sealed body))
    (and_then (write_ok E (addr + COMMIT_OFF) (put32 COMMIT_WORD))
       (read_back E addr STORE_SLOT_SIZE (page_full body)))))"

definition write_record :: "'w eeprom \<Rightarrow> u8 \<Rightarrow> rbp_peer_record option \<Rightarrow> u32 \<Rightarrow> 'w board \<Rightarrow> bool \<times> 'w board" where
  "write_record E st rec counter s =
     (let s = load_slots E s; gen = record_generation s in
      if storage_state s = 255 \<or> gen = UINT32_MAX then (False, s)
      else
        let body = record_body st rec counter (gen + 1) s; slot = next_slot s;
            (ok, s) = write_page E (slot_addr slot) body s
        in if \<not> ok then (False, s)
           else (True, s\<lparr>bd_current := take 80 (page_full body), current_slot := Some slot,
                         storage_state := st\<rparr>))"

section \<open>Interface of the journal\<close>

definition board_storage_state :: "'w eeprom \<Rightarrow> 'w board \<Rightarrow> u8 \<times> 'w board" where
  "board_storage_state E s = (let s = load_slots E s in (storage_state s, s))"

definition peer_counter :: "'w board \<Rightarrow> u32" where
  "peer_counter s = (case current_slot s of None \<Rightarrow> 0 | Some _ \<Rightarrow> page32 (bd_current s) 12)"

definition board_peer_counter :: "'w eeprom \<Rightarrow> 'w board \<Rightarrow> u32 \<times> 'w board" where
  "board_peer_counter E s = (let s = load_slots E s in (peer_counter s, s))"

definition board_begin_pair :: "'w eeprom \<Rightarrow> 'w board \<Rightarrow> bool \<times> 'w board" where
  "board_begin_pair E s =
     (let s = load_slots E s; counter = peer_counter s in
      if storage_state s = 255 \<or> (storage_state s = 1 \<and> page32 (bd_current s) 16 \<noteq> 0) \<or> counter = UINT32_MAX
      then (False, s)
      else write_record E 3 None (counter + 1) (s\<lparr>staged_valid := False, staged_hid_flags := 255\<rparr>))"

definition board_begin_forget :: "'w eeprom \<Rightarrow> 'w board \<Rightarrow> bool \<times> 'w board" where
  "board_begin_forget E s =
     (let (counter, s) = board_peer_counter E s in write_record E 2 None counter s)"

definition board_addr_stage :: "'w eeprom \<Rightarrow> u8 list \<Rightarrow> u8 \<Rightarrow> 'w board \<Rightarrow> 'w board" where
  "board_addr_stage E addr typ s =
     (load_slots E s)\<lparr>staged_addr := addr, staged_type := typ, staged_valid := True\<rparr>"

definition board_addr_invalidate :: "'w eeprom \<Rightarrow> 'w board \<Rightarrow> 'w board" where
  "board_addr_invalidate E s = (load_slots E s)\<lparr>staged_valid := False\<rparr>"

definition board_hid_flags_stage :: "'w eeprom \<Rightarrow> u8 \<Rightarrow> 'w board \<Rightarrow> 'w board" where
  "board_hid_flags_stage E flags s =
     (load_slots E s)\<lparr>staged_hid_flags := (if flags \<le> 3 then flags else 255)\<rparr>"

definition board_hid_flags_load :: "'w eeprom \<Rightarrow> 'w board \<Rightarrow> u8 \<times> 'w board" where
  "board_hid_flags_load E s =
     (let s = load_slots E s
      in (if current_slot s \<noteq> None \<and> bd_current s ! 30 \<le> 3 then bd_current s ! 30 else 255, s))"

definition board_addr_load :: "'w eeprom \<Rightarrow> 'w board \<Rightarrow> (u8 list \<times> u8) option \<times> 'w board" where
  "board_addr_load E s =
     (let s = load_slots E s; c = bd_current s
      in (if storage_state s \<noteq> 1 \<or> c ! 22 = 0 \<or> page32 c 16 = 0 then None
          else Some (take 6 (drop 24 c), c ! 23), s))"

definition store_load :: "'w eeprom \<Rightarrow> 'w board \<Rightarrow> rbp_peer_record option \<times> 'w board" where
  "store_load E s =
     (let s = load_slots E s; c = bd_current s
      in (if storage_state s \<noteq> 1 then None
          else Some \<lparr>pr_peer_id = page32 c 16, pr_name = take 47 (drop 32 c) @ [0],
                     pr_auto_reconnect = (c ! 21 \<noteq> 0)\<rparr>, s))"

definition store_save :: "'w eeprom \<Rightarrow> rbp_peer_record \<Rightarrow> 'w board \<Rightarrow> bool \<times> 'w board" where
  "store_save E rec s =
     (if pr_peer_id rec = 0 then (False, s)
      else let (counter, s) = board_peer_counter E s in write_record E 1 (Some rec) counter s)"

definition store_clear :: "'w eeprom \<Rightarrow> 'w board \<Rightarrow> bool \<times> 'w board" where
  "store_clear E s =
     (let (counter, s) = board_peer_counter E (s\<lparr>staged_valid := False\<rparr>) in write_record E 1 None counter s)"

section \<open>The attribute cache\<close>

definition gac_valid :: "u8 list \<Rightarrow> bool" where
  "gac_valid p \<longleftrightarrow> take 4 p = cstr ''GCS1'' \<and> page32 p GAC_COMMIT = GAC_WORD
     \<and> page32 p GAC_CRC = rbp_crc32c (take GAC_CRC p) \<and> page32 p 12 \<le> of_nat BOARD_CACHE_MAX"

definition gac_addr :: "nat \<Rightarrow> nat" where
  "gac_addr i = BOARD_CACHE_BASE + i * 512"

fun gac_scan :: "'w eeprom \<Rightarrow> nat list \<Rightarrow> 'w board \<Rightarrow> bool \<times> 'w board" where
  "gac_scan E [] s = (True, s)"
| "gac_scan E (i # is) s =
     (let (rc, page, s) = checked_read E (gac_addr i) 512 s in
      if rc \<noteq> 0 then (False, s\<lparr>gac_io_failed := True\<rparr>)
      else gac_scan E is
        (if gac_valid page \<and> (gac_slot s = None \<or> page32 page 4 > gac_generation s)
         then s\<lparr>gac_slot := Some i, gac_generation := page32 page 4\<rparr> else s))"

definition gac_read_latest :: "'w eeprom \<Rightarrow> 'w board \<Rightarrow> u8 list option \<times> 'w board" where
  "gac_read_latest E s =
     (let s = s\<lparr>gac_io_failed := False\<rparr>;
          (ok, s) = (if gac_loaded s then (True, s)
             else let (ok, s) = gac_scan E [0..<2] (s\<lparr>gac_slot := None, gac_generation := 0\<rparr>)
                  in (ok, if ok then s\<lparr>gac_loaded := True\<rparr> else s))
      in if \<not> ok then (None, s)
         else case gac_slot s of None \<Rightarrow> (None, s)
         | Some i \<Rightarrow>
             let (rc, page, s) = checked_read E (gac_addr i) 512 s
             in if rc \<noteq> 0 then (None, s\<lparr>gac_io_failed := True\<rparr>)
                else (if gac_valid page then Some page else None, s))"

text \<open>The common guard of the two operations.\<close>

definition cache_bound :: "u32 \<Rightarrow> 'w board \<Rightarrow> bool" where
  "cache_bound peer s \<longleftrightarrow> peer \<noteq> 0 \<and> storage_state s = 1 \<and> page32 (bd_current s) 16 = peer"

text \<open>\<open>[]\<close> is the return value 0.\<close>

definition board_cache_load :: "'w eeprom \<Rightarrow> u32 \<Rightarrow> nat \<Rightarrow> 'w board \<Rightarrow> u8 list \<times> 'w board" where
  "board_cache_load E peer cap s =
     (let s = load_slots E s in
      if \<not> cache_bound peer s then ([], s)
      else case gac_read_latest E s of
        (None, s) \<Rightarrow> ([], s)
      | (Some p, s) \<Rightarrow>
          (if page32 p 8 \<noteq> peer \<or> unat (page32 p 12) > cap then [] else take (unat (page32 p 12)) (drop 16 p), s))"

definition gac_body :: "u32 \<Rightarrow> u32 \<Rightarrow> u8 list \<Rightarrow> u8 list" where
  "gac_body gen peer data =
     cstr ''GCS1'' @ put32 gen @ put32 peer @ put32 (of_nat (length data)) @ data
       @ replicate (488 - length data) 255"

definition gac_sealed :: "u8 list \<Rightarrow> u8 list" where
  "gac_sealed body = body @ put32 (rbp_crc32c body)"

fun verify_chunks :: "'w eeprom \<Rightarrow> nat \<Rightarrow> nat list \<Rightarrow> u8 list \<Rightarrow> 'w board \<Rightarrow> bool \<times> 'w board" where
  "verify_chunks E addr [] page s = (True, s)"
| "verify_chunks E addr (off # offs) page s =
     and_then (let chunk = take (min 32 (GAC_COMMIT - off)) (drop off page)
               in read_back E (addr + off) (length chunk) chunk)
       (verify_chunks E addr offs page) s"

definition gac_write :: "'w eeprom \<Rightarrow> nat \<Rightarrow> u8 list \<Rightarrow> 'w board \<Rightarrow> bool \<times> 'w board" where
  "gac_write E addr body =
     and_then (erase_ok E addr 256)
    (and_then (erase_ok E (addr + 256) 256)
    (and_then (write_ok E addr (gac_sealed body))
    (and_then (verify_chunks E addr (map ((*) 32) [0..<16]) (gac_sealed body))
    (and_then (write_ok E (addr + GAC_COMMIT) (put32 GAC_WORD))
       (read_back E (addr + GAC_COMMIT) 4 (put32 GAC_WORD))))))"

definition board_cache_save :: "'w eeprom \<Rightarrow> u32 \<Rightarrow> u8 list \<Rightarrow> 'w board \<Rightarrow> bool \<times> 'w board" where
  "board_cache_save E peer data s =
     (let s = load_slots E s in
      if \<not> cache_bound peer s \<or> length data > BOARD_CACHE_MAX then (False, s)
      else
        let (have_page, s) = gac_read_latest E s in
        if \<not> gac_loaded s \<or> gac_io_failed s then (False, s)
        else if case have_page of
               None \<Rightarrow> data = []
             | Some p \<Rightarrow> page32 p 8 = peer \<and> page32 p 12 = of_nat (length data)
                         \<and> take (length data) (drop 16 p) = data
        then (True, s)
        else if gac_generation s = UINT32_MAX then (False, s)
        else
          let slot = (case gac_slot s of None \<Rightarrow> 0 | Some i \<Rightarrow> 1 - i);
              (ok, s) = gac_write E (gac_addr slot) (gac_body (gac_generation s + 1) peer data) s
          in if \<not> ok then (False, s)
             else (True, s\<lparr>gac_slot := Some slot, gac_generation := gac_generation s + 1\<rparr>))"

section \<open>Identity of the chip\<close>

text \<open>\<open>uid\<close> is the answer of \<open>CMD_GET_UNIQUE_ID\<close>: a status and eight bytes.\<close>

definition board_unique_id :: "u32 \<times> u8 list \<Rightarrow> u8 list option" where
  "board_unique_id answer = (case answer of (rc, raw) \<Rightarrow> if rc \<noteq> 0 then None else Some (raw @ raw))"

end
