(* ===== verification/Board_Facts.thy ===== *)
theory Board_Facts
  imports Board
begin

text \<open>
  What the bond journal and the attribute cache promise over a data EEPROM that may fail at any call, and
  lose power at any byte. The locale \<open>data_flash\<close> states what is relied on of the device: a call touches only its
  own range, a successful read returns the cells, a successful erase leaves erased cells, writing only
  clears bits and erasing only sets them, and an interrupted erase does not forge a record. Nothing is assumed of a
  write that reports success: the code reads back what it wrote. A loss of power is a call that fails after
  part of its work, followed by \<open>board_boot\<close>.
\<close>

section \<open>Generic facts\<close>

definition same_ram :: "'w board \<Rightarrow> 'w board \<Rightarrow> bool" where
  "same_ram s s' \<longleftrightarrow> s' = s\<lparr>bd_faults := bd_faults s', device := device s'\<rparr>"

lemma same_ram_refl [simp]: "same_ram s s"
  by (simp add: same_ram_def)

lemma same_ram_trans: "same_ram s t \<Longrightarrow> same_ram t u \<Longrightarrow> same_ram s u"
  by (cases s; cases t; cases u) (simp add: same_ram_def)

lemma same_ram_fields:
  assumes "same_ram s s'"
  shows "bd_current s' = bd_current s" "current_slot s' = current_slot s"
    "storage_state s' = storage_state s" "bd_loaded s' = bd_loaded s" "staged_addr s' = staged_addr s"
    "staged_type s' = staged_type s" "staged_valid s' = staged_valid s"
    "staged_hid_flags s' = staged_hid_flags s" "gac_slot s' = gac_slot s"
    "gac_generation s' = gac_generation s" "gac_loaded s' = gac_loaded s" "gac_io_failed s' = gac_io_failed s"
  using assms by (cases s; cases s'; simp add: same_ram_def)+

lemma storage_fault_ram [simp]: "same_ram s (storage_fault stage rc (s\<lparr>device := w\<rparr>))"
  by (simp add: storage_fault_def same_ram_def)

lemma storage_fault_device [simp]: "device (storage_fault stage rc s) = device s"
  by (simp add: storage_fault_def)

definition page :: "(nat \<Rightarrow> u8) \<Rightarrow> nat \<Rightarrow> nat \<Rightarrow> u8 list" where
  "page c a n = map c [a..<a + n]"

lemma length_page [simp]: "length (page c a n) = n"
  by (simp add: page_def)

lemma nth_page [simp]: "i < n \<Longrightarrow> page c a n ! i = c (a + i)"
  by (simp add: page_def)

lemma drop_page [simp]: "drop k (page c a n) = page c (a + k) (n - k)"
  by (rule nth_equalityI) (simp_all add: add.assoc)

lemma take_page [simp]: "take k (page c a n) = page c a (min k n)"
  by (rule nth_equalityI) simp_all

lemma page_add: "page c a (m + n) = page c a m @ page c (a + m) n"
  by (rule nth_equalityI) (auto simp: nth_append)

lemma page_cong: "(\<And>i. a \<le> i \<Longrightarrow> i < a + n \<Longrightarrow> c i = d i) \<Longrightarrow> page c a n = page d a n"
  by (simp add: page_def)

lemma get32_put32_only [simp]: "get32 (put32 v) = v"
  using get32_put32 [of v "[]"] by simp

lemma length_body [simp]:
  "length (page_body gen st counter peer flags addr hid name) = 200 - 9 + length flags + length addr + length name"
  by (simp add: page_body_def cstr_def)


lemma and_then_cases:
  assumes "and_then f g s = (ok, s')"
  obtains (first) "f s = (False, s')" "\<not> ok" | (second) t where "f s = (True, t)" "g t = (ok, s')"
  using assms by (auto simp: and_then_def split: prod.splits if_splits)

text \<open>A page whose last four bytes are erased is not committed; one whose first 252 bytes are a sealed body
  is committed only as that page.\<close>

lemma erased_commit: "get32 [255, 255, 255, 255] = 0xFFFFFFFF"
  by code_simp

lemma four_cells: "page c a 4 = [c a, c (a + 1), c (a + 2), c (a + 3)]"
  by (simp add: page_def eval_nat_numeral)

lemma page32_end: "page32 (page c a (n + 4)) n = get32 (page c (a + n) 4)"
  by (simp add: page32_def)

lemma not_committed:
  assumes "\<And>i. i < 4 \<Longrightarrow> c (a + n + i) = 255"
  shows "page32 (page c a (n + 4)) n = 0xFFFFFFFF"
  using assms [of 0] assms [of 1] assms [of 2] assms [of 3]
  by (simp add: page32_end four_cells erased_commit)

lemma committed_page:
  assumes "page c a n = x" and "page32 (page c a (n + 4)) n = W"
  shows "page c a (n + 4) = x @ put32 W"
  using assms(2) [unfolded page32_end] put32_get32 [of "page c (a + n) 4"]
  by (simp add: page_add [of _ _ n 4] assms(1))

lemma page32_take [simp]: "i + 4 \<le> n \<Longrightarrow> n \<le> length p \<Longrightarrow> page32 (take n p) i = page32 p i"
  by (simp add: page32_def get32_def drop_take)

text \<open>The newest committed record among the two slots; the first one in case of a tie.\<close>

definition slot_page :: "(nat \<Rightarrow> u8) \<Rightarrow> nat \<Rightarrow> u8 list" where
  "slot_page c i = page c (slot_addr i) STORE_SLOT_SIZE"

definition newest :: "(nat \<Rightarrow> u8) \<Rightarrow> u8 list option" where
  "newest c =
     (let p = slot_page c 0; q = slot_page c 1
      in if store_valid q \<and> (store_valid p \<longrightarrow> page32 q 4 > page32 p 4) then Some q
         else if store_valid p then Some p else None)"

lemma length_slot_page [simp]: "length (slot_page c i) = STORE_SLOT_SIZE"
  by (simp add: slot_page_def)

lemma newest_valid: "newest c = Some p \<Longrightarrow> store_valid p \<and> length p = STORE_SLOT_SIZE"
  by (auto simp: newest_def Let_def split: if_splits)

lemma newest_new:
  assumes "i < 2" and "store_valid (slot_page c (1 - i))" and "page32 (slot_page c (1 - i)) 4 > page32 (slot_page c i) 4"
  shows "newest c = Some (slot_page c (1 - i))"
  using assms by (cases "i = 0") (auto simp: newest_def Let_def less_2_cases_iff)

lemma newest_only:
  assumes "i < 2" and "store_valid (slot_page c i)" and "\<not> store_valid (slot_page c (1 - i))"
  shows "newest c = Some (slot_page c i)"
  using assms by (cases "i = 0") (auto simp: newest_def Let_def less_2_cases_iff)

lemma newest_same:
  assumes "i < 2" and "slot_page d i = slot_page c i" and "slot_page d (1 - i) = slot_page c (1 - i)"
  shows "newest d = newest c"
  using assms by (cases "i = 0") (auto simp: newest_def Let_def less_2_cases_iff)

text \<open>The record that the statics hold is committed in the slot they name.\<close>

definition committed :: "(nat \<Rightarrow> u8) \<Rightarrow> 'w board \<Rightarrow> bool" where
  "committed c s \<longleftrightarrow> bd_loaded s \<and> (\<exists>i<2. current_slot s = Some i \<and> store_valid (slot_page c i)
     \<and> bd_current s = take 80 (slot_page c i) \<and> storage_state s = slot_page c i ! 8)"

definition confirmed :: "(nat \<Rightarrow> u8) \<Rightarrow> 'w board \<Rightarrow> u8 list" where
  "confirmed c s = slot_page c (the (current_slot s))"

definition staged_ok :: "'w board \<Rightarrow> bool" where
  "staged_ok s \<longleftrightarrow> length (staged_addr s) = 6 \<and> staged_type s \<le> 1"

lemma committed_loaded [simp]: "committed c s \<Longrightarrow> load_slots E s = s"
  by (simp add: committed_def load_slots_def)

lemma committed_same:
  assumes "committed c s" and "same_ram s s'" and "slot_page d (the (current_slot s)) = confirmed c s"
  shows "committed d s'" "confirmed d s' = confirmed c s"
  using assms same_ram_fields [OF assms(2)] by (auto simp: committed_def confirmed_def)

definition intended :: "u8 \<Rightarrow> rbp_peer_record option \<Rightarrow> u32 \<Rightarrow> 'w board \<Rightarrow> u8 list" where
  "intended st rec counter s = page_full (record_body st rec counter (record_generation s + 1) s)"

text \<open>The calls of the firmware on the journal, and power coming back.\<close>

datatype board_call =
    Begin_pair | Begin_forget | Save rbp_peer_record | Clear | Stage "u8 list" u8 | Invalidate | Hid_flags u8
  | Reboot

fun board_do :: "'w eeprom \<Rightarrow> board_call \<Rightarrow> 'w board \<Rightarrow> 'w board" where
  "board_do E Begin_pair s = snd (board_begin_pair E s)"
| "board_do E Begin_forget s = snd (board_begin_forget E s)"
| "board_do E (Save r) s = snd (store_save E r s)"
| "board_do E Clear s = snd (store_clear E s)"
| "board_do E (Stage a t) s = board_addr_stage E a t s"
| "board_do E Invalidate s = board_addr_invalidate E s"
| "board_do E (Hid_flags f) s = board_hid_flags_stage E f s"
| "board_do E Reboot s = board_boot (bd_faults s) (device s)"

text \<open>The arguments have the sizes of the C types: a name of 48 bytes, an address of 6 and a type 0 or 1.\<close>

fun board_call_ok :: "board_call \<Rightarrow> bool" where
  "board_call_ok (Save r) \<longleftrightarrow> 47 \<le> length (pr_name r)"
| "board_call_ok (Stage a t) \<longleftrightarrow> length a = 6 \<and> t \<le> 1"
| "board_call_ok _ \<longleftrightarrow> True"

definition journal_inv :: "(nat \<Rightarrow> u8) \<Rightarrow> 'w board \<Rightarrow> bool" where
  "journal_inv c s \<longleftrightarrow> newest c \<noteq> None \<and> (\<not> bd_loaded s \<and> current_slot s = None
     \<or> bd_loaded s \<and> storage_state s = 255 \<or> committed c s \<and> staged_ok s)"

lemma journal_inv_staged [simp]:
  "journal_inv c (s\<lparr>staged_valid := b\<rparr>) = journal_inv c s"
  "journal_inv c (s\<lparr>staged_hid_flags := f\<rparr>) = journal_inv c s"
  by (simp_all add: journal_inv_def committed_def staged_ok_def)

lemma journal_inv_stage:
  "journal_inv c s \<Longrightarrow> length a = 6 \<Longrightarrow> t \<le> 1 \<Longrightarrow> journal_inv c (s\<lparr>staged_addr := a, staged_type := t\<rparr>)"
  by (auto simp: journal_inv_def committed_def staged_ok_def)

section \<open>The device\<close>

locale data_flash =
  fixes E :: "'w eeprom" and cell :: "'w \<Rightarrow> nat \<Rightarrow> u8"
  assumes read_keeps: "EEPROM_READ E a n w = (rc, d, w') \<Longrightarrow> cell w' = cell w"
    and read_cells: "EEPROM_READ E a n w = (0, d, w') \<Longrightarrow> d = page (cell w) a n"
    and write_range: "EEPROM_WRITE E a d w = (rc, w') \<Longrightarrow> i < a \<or> a + length d \<le> i \<Longrightarrow> cell w' i = cell w i"
    and write_bits: "EEPROM_WRITE E a d w = (rc, w') \<Longrightarrow> j < length d \<Longrightarrow>
      cell w' (a + j) AND (cell w (a + j) AND d ! j) = cell w (a + j) AND d ! j"
    and erase_range: "EEPROM_ERASE E a n w = (rc, w') \<Longrightarrow> i < a \<or> a + n \<le> i \<Longrightarrow> cell w' i = cell w i"
    and erase_cells: "EEPROM_ERASE E a n w = (0, w') \<Longrightarrow> a \<le> i \<Longrightarrow> i < a + n \<Longrightarrow> cell w' i = 255"
    and erase_bits: "EEPROM_ERASE E a n w = (rc, w') \<Longrightarrow> cell w' i AND cell w i = cell w i"
    and erase_torn: "EEPROM_ERASE E (slot_addr k) STORE_SLOT_SIZE w = (rc, w') \<Longrightarrow>
      page (cell w') (slot_addr k) STORE_SLOT_SIZE = page (cell w) (slot_addr k) STORE_SLOT_SIZE
      \<or> \<not> store_valid (page (cell w') (slot_addr k) STORE_SLOT_SIZE)"
    and erase_torn_cache: "EEPROM_ERASE E (gac_addr k) 256 w = (rc, w') \<Longrightarrow>
      page (cell w') (gac_addr k) 512 = page (cell w) (gac_addr k) 512
      \<or> \<not> gac_valid (page (cell w') (gac_addr k) 512)"
begin

definition cells :: "'w board \<Rightarrow> nat \<Rightarrow> u8" where
  "cells s = cell (device s)"

lemma cells_update [simp]:
  "cells (s\<lparr>storage_state := v\<rparr>) = cells s" "cells (s\<lparr>bd_current := c\<rparr>) = cells s"
  "cells (s\<lparr>current_slot := i\<rparr>) = cells s" "cells (s\<lparr>bd_loaded := b\<rparr>) = cells s"
  "cells (s\<lparr>staged_addr := c\<rparr>) = cells s" "cells (s\<lparr>staged_type := v\<rparr>) = cells s"
  "cells (s\<lparr>staged_valid := b\<rparr>) = cells s" "cells (s\<lparr>staged_hid_flags := v\<rparr>) = cells s"
  "cells (s\<lparr>gac_slot := i\<rparr>) = cells s" "cells (s\<lparr>gac_generation := g\<rparr>) = cells s"
  "cells (s\<lparr>gac_loaded := b\<rparr>) = cells s" "cells (s\<lparr>gac_io_failed := b\<rparr>) = cells s"
  by (simp_all add: cells_def)

text \<open>A call that changes cells of the range \<open>a .. a + n\<close> only, and nothing of the statics.\<close>

definition within_range :: "nat \<Rightarrow> nat \<Rightarrow> 'w board \<Rightarrow> 'w board \<Rightarrow> bool" where
  "within_range a n s s' \<longleftrightarrow> same_ram s s' \<and> (\<forall>i. i < a \<or> a + n \<le> i \<longrightarrow> cells s' i = cells s i)"

lemma within_refl [simp]: "within_range a n s s"
  by (simp add: within_range_def)

lemma within_trans: "within_range a n s t \<Longrightarrow> within_range a n t u \<Longrightarrow> within_range a n s u"
  unfolding within_range_def using same_ram_trans by metis

lemma within_sub:
  "within_range a n s s' \<Longrightarrow> b \<le> a \<Longrightarrow> a + n \<le> b + m \<Longrightarrow> within_range b m s s'"
  unfolding within_range_def by auto

lemma within_page:
  "within_range a n s s' \<Longrightarrow> b + m \<le> a \<or> a + n \<le> b \<Longrightarrow> page (cells s') b m = page (cells s) b m"
  unfolding within_range_def by (auto intro!: page_cong)

lemma checked_read_ok:
  assumes "checked_read E a n s = (rc, d, s')"
  shows "same_ram s s'" "cells s' = cells s" "rc = 0 \<Longrightarrow> d = page (cells s) a n"
  using assms read_keeps [of a n "device s"] read_cells [of a n "device s"]
  by (auto simp: checked_read_def cells_def split: prod.splits)

lemma read_back_ok:
  assumes "read_back E a n x s = (ok, s')" and "length x \<le> n"
  shows "same_ram s s'" "cells s' = cells s" "ok \<Longrightarrow> page (cells s) a (length x) = x"
proof -
  obtain rc d t where r: "checked_read E a n s = (rc, d, t)" by (metis prod_cases3)
  note k = checked_read_ok [OF r]
  have v: "same_ram t (storage_fault 4 c t)" for c
    using storage_fault_ram [of t 4 c "device t"] by simp
  show "same_ram s s'" "cells s' = cells s" "ok \<Longrightarrow> page (cells s) a (length x) = x"
    using assms r k v same_ram_trans
    by (auto simp: read_back_def checked_verify_def cells_def min_absorb1 split: if_splits)
qed

lemma erase_ok_range:
  assumes "erase_ok E a n s = (ok, s')"
  shows "within_range a n s s'" "ok \<Longrightarrow> a \<le> i \<Longrightarrow> i < a + n \<Longrightarrow> cells s' i = 255"
  using assms erase_range [of a n "device s"] erase_cells [of a n "device s"]
  by (auto simp: erase_ok_def checked_erase_def cells_def within_range_def split: prod.splits)

lemma write_ok_range:
  assumes "write_ok E a d s = (ok, s')"
  shows "within_range a (length d) s s'"
  using assms write_range [of a d "device s"]
  by (auto simp: write_ok_def checked_write_def cells_def within_range_def split: prod.splits)

section \<open>Writing a page\<close>

lemma slot_committed:
  assumes "page c (slot_addr k) COMMIT_OFF = x" and "store_valid (page c (slot_addr k) STORE_SLOT_SIZE)"
  shows "page c (slot_addr k) STORE_SLOT_SIZE = x @ put32 COMMIT_WORD"
  using committed_page [OF assms(1), of COMMIT_WORD] assms(2) by (simp add: store_valid_def)

lemma slot_uncommitted:
  assumes "\<And>i. slot_addr k + COMMIT_OFF \<le> i \<Longrightarrow> i < slot_addr k + STORE_SLOT_SIZE \<Longrightarrow> c i = 255"
  shows "\<not> store_valid (page c (slot_addr k) STORE_SLOT_SIZE)"
  using not_committed [of c "slot_addr k" COMMIT_OFF] assms by (simp add: store_valid_def)

lemma write_page_ok:
  assumes "write_page E (slot_addr k) body s = (ok, s')" and len: "length body = CRC_OFF"
  defines "pg \<equiv> \<lambda>t. page (cells t) (slot_addr k) STORE_SLOT_SIZE"
  shows "within_range (slot_addr k) STORE_SLOT_SIZE s s'"
    and "pg s' = page_full body \<or> pg s' = pg s \<or> \<not> store_valid (pg s')"
    and "ok \<Longrightarrow> pg s' = page_full body"
proof -
  let ?a = "slot_addr k" and ?x = "page_sealed body"
  have x: "length ?x = COMMIT_OFF" "page_full body = ?x @ put32 COMMIT_WORD" "length (page_full body) = STORE_SLOT_SIZE"
    using len by (simp_all add: page_sealed_def page_full_def)
  let ?goal = "\<lambda>t ok. within_range ?a STORE_SLOT_SIZE s t \<and> (pg t = page_full body \<or> pg t = pg s \<or> \<not> store_valid (pg t))
    \<and> (ok \<longrightarrow> pg t = page_full body)"
  from assms(1) have "?goal s' ok"
    unfolding write_page_def
  proof (cases rule: and_then_cases)
    case first
    then have "page (cells s') ?a STORE_SLOT_SIZE = page (cells s) ?a STORE_SLOT_SIZE \<or> \<not> store_valid (pg s')"
      using erase_torn [of k "device s"] unfolding pg_def
      by (auto simp: erase_ok_def checked_erase_def cells_def split: prod.splits)
    then show ?thesis using first erase_ok_range(1) [OF first(1)] by (auto simp: pg_def)
  next
    case (second t1)
    note e = erase_ok_range [OF second(1), simplified]
    obtain ok2 t2 where w: "write_ok E ?a ?x t1 = (ok2, t2)" by (metis surj_pair)
    have w1: "within_range ?a COMMIT_OFF t1 t2" using write_ok_range [OF w] x by simp
    then have w2: "within_range ?a STORE_SLOT_SIZE s t2"
      using within_trans [OF e(1) within_sub [OF w1]] by simp
    have "cells t2 i = 255" if "?a + COMMIT_OFF \<le> i" "i < ?a + STORE_SLOT_SIZE" for i
      using w1 e(2) [of i] that by (simp add: within_range_def)
    then have torn: "\<not> store_valid (pg t2)" unfolding pg_def by (rule slot_uncommitted)
    from second(2) show ?thesis
    proof (cases rule: and_then_cases)
      case first
      then show ?thesis using w w2 torn by simp
    next
      case (second t2')
      then have t2: "t2' = t2" using w by simp
      from second(2) show ?thesis unfolding t2
      proof (cases rule: and_then_cases)
        case first
        note r = read_back_ok [OF first(1)]
        show ?thesis using r x first w2 torn same_ram_trans
          by (auto simp: pg_def within_range_def)
      next
        case (second t3)
        note r = read_back_ok [OF second(1)]
        have t3: "within_range ?a STORE_SLOT_SIZE s t3" "page (cells t3) ?a COMMIT_OFF = ?x"
          using r x w2 same_ram_trans by (auto simp: within_range_def)
        obtain ok4 t4 where c: "write_ok E (?a + COMMIT_OFF) (put32 COMMIT_WORD) t3 = (ok4, t4)"
          by (metis surj_pair)
        have c1: "within_range (?a + COMMIT_OFF) 4 t3 t4" using write_ok_range [OF c] by simp
        then have t4: "within_range ?a STORE_SLOT_SIZE s t4"
          using within_trans [OF t3(1) within_sub [OF c1]] by simp
        have "page (cells t4) ?a COMMIT_OFF = ?x"
          using within_page [OF c1, of ?a COMMIT_OFF] t3(2) by simp
        then have p4: "pg t4 = page_full body \<or> \<not> store_valid (pg t4)"
          using slot_committed x(2) unfolding pg_def by metis
        from second(2) show ?thesis
        proof (cases rule: and_then_cases)
          case first
          then show ?thesis using c t4 p4 by auto
        next
          case (second t4')
          then have "read_back E ?a STORE_SLOT_SIZE (page_full body) t4 = (ok, s')" using c by simp
          note r = read_back_ok [OF this]
          show ?thesis using r x(3) t4 p4 same_ram_trans
            by (auto simp: pg_def within_range_def)
        qed
      qed
    qed
  qed
  then show "within_range ?a STORE_SLOT_SIZE s s'" "pg s' = page_full body \<or> pg s' = pg s \<or> \<not> store_valid (pg s')"
    "ok \<Longrightarrow> pg s' = page_full body" by blast+
qed

section \<open>Loading\<close>

lemma scan_slots_ok:
  assumes "scan_slots E [0..<STORE_SLOT_COUNT] False s = (r, s')" and "current_slot s = None"
  shows "cells s' = cells s" and "bd_loaded s' = bd_loaded s" and "r = None \<Longrightarrow> storage_state s' = 255"
    and "r = Some dirty \<Longrightarrow> dirty = (\<not> blank (slot_page (cells s) 0) \<or> \<not> blank (slot_page (cells s) 1))
      \<and> (case newest (cells s) of
           None \<Rightarrow> same_ram s s'
         | Some p \<Rightarrow> \<exists>i<2. p = slot_page (cells s) i
             \<and> same_ram (s\<lparr>bd_current := take 80 p, current_slot := Some i\<rparr>) s')"
proof -
  obtain rc p t where r0: "checked_read E (slot_addr 0) STORE_SLOT_SIZE s = (rc, p, t)" by (metis prod_cases3)
  note k = checked_read_ok [OF r0] same_ram_fields [OF checked_read_ok(1) [OF r0]]
  let ?t = "if store_valid p then t\<lparr>bd_current := take 80 p, current_slot := Some 0\<rparr> else t"
  obtain rc' q u where r1: "checked_read E (slot_addr 1) STORE_SLOT_SIZE ?t = (rc', q, u)" by (metis prod_cases3)
  note l = checked_read_ok [OF r1] same_ram_fields [OF checked_read_ok(1) [OF r1]]
  have c: "cells ?t = cells s" using k by (simp add: cells_def)
  have e: "scan_slots E [0..<STORE_SLOT_COUNT] False s =
    (if rc \<noteq> 0 then (None, t\<lparr>storage_state := 255\<rparr>)
     else if rc' \<noteq> 0 then (None, u\<lparr>storage_state := 255\<rparr>)
     else (Some (\<not> blank p \<or> \<not> blank q),
       if store_valid q \<and> (current_slot u = None \<or> page32 q 4 > page32 (bd_current u) 4)
       then u\<lparr>bd_current := take 80 q, current_slot := Some 1\<rparr> else u))"
  proof -
    have "[0..<STORE_SLOT_COUNT] = [0, 1]" by (simp add: upt_rec)
    moreover have "scan_slots E [1] b ?t = (if rc' \<noteq> 0 then (None, u\<lparr>storage_state := 255\<rparr>)
       else (Some (b \<or> \<not> blank q),
         if store_valid q \<and> (current_slot u = None \<or> page32 q 4 > page32 (bd_current u) 4)
         then u\<lparr>bd_current := take 80 q, current_slot := Some 1\<rparr> else u))" for b
      using r1 by (simp del: One_nat_def)
    moreover have "scan_slots E [0, 1] False s =
        (if rc \<noteq> 0 then (None, t\<lparr>storage_state := 255\<rparr>) else scan_slots E [1] (\<not> blank p) ?t)"
      using r0 k(5) assms(2) by (simp del: One_nat_def)
    ultimately show ?thesis by simp
  qed
  have kept: "cells t = cells s" "cells u = cells s" "bd_loaded t = bd_loaded s" "bd_loaded u = bd_loaded s"
    using k(2) l(2) c k(7) l(7) by simp_all
  show "cells s' = cells s" "bd_loaded s' = bd_loaded s" "r = None \<Longrightarrow> storage_state s' = 255"
    using assms(1) kept unfolding e by (auto split: if_splits)
  assume "r = Some dirty"
  then have z: "rc = 0" "rc' = 0" using assms(1) e by (auto split: if_splits)
  have pq: "p = slot_page (cells s) 0" "q = slot_page (cells s) 1"
    using z k l c by (simp_all add: slot_page_def)
  have ram: "same_ram (s\<lparr>bd_current := x, current_slot := i\<rparr>) (v\<lparr>bd_current := x, current_slot := i\<rparr>)"
    if "same_ram s v" for v x i
    using that by (cases s; cases v) (simp add: same_ram_def)
  have u: "same_ram (if store_valid p then s\<lparr>bd_current := take 80 p, current_slot := Some 0\<rparr> else s) u"
    using same_ram_trans [OF _ l(1)] ram [OF k(1)] k(1) by auto
  have w: "same_ram (s\<lparr>bd_current := take 80 q, current_slot := Some 1\<rparr>) (u\<lparr>bd_current := take 80 q, current_slot := Some 1\<rparr>)"
    using u by (cases s; cases u) (auto simp: same_ram_def split: if_splits)
  have d: "dirty = (\<not> blank p \<or> \<not> blank q)"
    "s' = (if store_valid q \<and> (current_slot u = None \<or> page32 q 4 > page32 (bd_current u) 4)
       then u\<lparr>bd_current := take 80 q, current_slot := Some 1\<rparr> else u)"
    using assms(1) \<open>r = Some dirty\<close> unfolding e by (auto simp: z)
  have f: "current_slot u = (if store_valid p then Some 0 else None)"
    "store_valid p \<Longrightarrow> page32 (bd_current u) 4 = page32 p 4"
    using same_ram_fields(1,2) [OF u] assms(2) pq by auto
  let ?q = "store_valid q \<and> (store_valid p \<longrightarrow> page32 q 4 > page32 p 4)"
  have s': "s' = (if ?q then u\<lparr>bd_current := take 80 q, current_slot := Some 1\<rparr> else u)"
    using d(2) f by auto
  have n: "newest (cells s) = (if ?q then Some q else if store_valid p then Some p else None)"
    by (simp add: newest_def Let_def pq)
  consider ?q | "\<not> ?q" "store_valid p" | "\<not> ?q" "\<not> store_valid p" by blast
  then show "dirty = (\<not> blank (slot_page (cells s) 0) \<or> \<not> blank (slot_page (cells s) 1))
      \<and> (case newest (cells s) of
           None \<Rightarrow> same_ram s s'
         | Some p \<Rightarrow> \<exists>i<2. p = slot_page (cells s) i
             \<and> same_ram (s\<lparr>bd_current := take 80 p, current_slot := Some i\<rparr>) s')"
  proof cases
    case 1
    then show ?thesis using w pq d(1) unfolding n s' by (auto intro: exI [of _ "1::nat"])
  next
    case 2
    then show ?thesis using u pq d(1) unfolding n s' by (auto intro: exI [of _ "0::nat"])
  next
    case 3
    then show ?thesis using u pq d(1) unfolding n s' by auto
  qed
qed

lemma load_newest:
  assumes "newest (cells s) = Some p" and "\<not> bd_loaded s" and "current_slot s = None"
  defines "r \<equiv> load_slots E s" and "sc \<equiv> fst (scan_slots E [0..<STORE_SLOT_COUNT] False (s\<lparr>bd_loaded := True, storage_state := 0\<rparr>))"
  shows "cells r = cells s" and "bd_loaded r"
    and "sc = None \<and> storage_state r = 255 \<or> committed (cells r) r \<and> staged_ok r \<and> bd_current r = take 80 p"
proof -
  let ?s = "s\<lparr>bd_loaded := True, storage_state := 0\<rparr>"
  let ?goal = "cells r = cells s \<and> bd_loaded r
    \<and> (sc = None \<and> storage_state r = 255 \<or> committed (cells r) r \<and> staged_ok r \<and> bd_current r = take 80 p)"
  obtain res t where e: "scan_slots E [0..<STORE_SLOT_COUNT] False ?s = (res, t)" by (metis surj_pair)
  note ok = scan_slots_ok [OF e]
  have c: "cells t = cells s" "bd_loaded t" using ok(1,2) assms(3) by simp_all
  have ?goal
  proof (cases res)
    case None
    then have "r = t" using e assms(2) by (simp add: r_def load_slots_def)
    then show ?thesis using ok(3) None c e assms(3) by (simp add: sc_def)
  next
    case (Some dirty)
    then obtain i where i: "i < 2" "p = slot_page (cells s) i"
      "same_ram (?s\<lparr>bd_current := take 80 p, current_slot := Some i\<rparr>) t"
      using ok(4) [of dirty] assms(1,3) by auto
    note f = same_ram_fields [OF i(3), simplified]
    have v: "store_valid p" "length p = STORE_SLOT_SIZE" using newest_valid [OF assms(1)] by auto
    have "r = t\<lparr>storage_state := p ! 8, staged_valid := p ! 22 \<noteq> 0, staged_type := p ! 23,
        staged_addr := take 6 (drop 24 (take 80 p)), staged_hid_flags := (if p ! 30 \<le> 3 then p ! 30 else 255)\<rparr>"
      using e Some assms(2) f v by (simp add: r_def load_slots_def Let_def)
    then show ?thesis
      using f i v c by (auto simp: committed_def staged_ok_def store_valid_def)
  qed
  then show "cells r = cells s" "bd_loaded r"
    "sc = None \<and> storage_state r = 255 \<or> committed (cells r) r \<and> staged_ok r \<and> bd_current r = take 80 p" by blast+
qed

section \<open>Writing a record\<close>

lemma record_body_ok:
  fixes s :: "'w board" and counter gen
  assumes "staged_ok s" and "\<And>r. rec = Some r \<Longrightarrow> 47 \<le> length (pr_name r)" and "1 \<le> st" and "st \<le> 3"
  defines "p \<equiv> page_full (record_body st rec counter gen s)"
  shows "length (record_body st rec counter gen s) = CRC_OFF" "store_valid p" "page32 p 4 = gen" "p ! 8 = st"
proof -
  obtain peer flags addr hid name where b: "record_body st rec counter gen s = page_body gen st counter peer flags addr hid name"
    and l: "length flags = 3" "length addr = 6" "length name = 48" "\<forall>x \<in> set flags. x \<le> 1"
    using assms(1,2) by (cases rec) (auto simp: record_body_def staged_ok_def flag_byte_def)
  show len: "length (record_body st rec counter gen s) = CRC_OFF" using l by (simp add: b)
  have crc: "page32 p CRC_OFF = rbp_crc32c (take CRC_OFF p)" "page32 p COMMIT_OFF = COMMIT_WORD"
    using len by (simp_all add: p_def page_full_def page_sealed_def page32_def)
  obtain f0 f1 f2 where f: "flags = [f0, f1, f2]" using l(1) by (auto simp: length_Suc_conv numeral_eq_Suc)
  show "page32 p 4 = gen"
    by (simp add: p_def page_full_def page_sealed_def b page_body_def page32_def cstr_def)
  show "p ! 8 = st"
    by (simp add: p_def page_full_def page_sealed_def b page_body_def cstr_def put32_def)
  show "store_valid p"
    using crc assms(3,4) l(4) f
    by (simp add: store_valid_def)
      (simp add: p_def page_full_def page_sealed_def b page_body_def cstr_def put32_def)
qed

lemma write_record_ok:
  fixes s :: "'w board" and counter
  assumes "committed (cells s) s" and "staged_ok s" and "\<And>r. rec = Some r \<Longrightarrow> 47 \<le> length (pr_name r)"
    and "1 \<le> st" and "st \<le> 3" and "write_record E st rec counter s = (ok, s')"
  shows "committed (cells s') s'" and "staged_ok s'"
    and "ok \<Longrightarrow> newest (cells s') = Some (intended st rec counter s) \<and> confirmed (cells s') s' = intended st rec counter s"
    and "newest (cells s') \<in> {newest (cells s), Some (confirmed (cells s) s), Some (intended st rec counter s)}"
proof -
  let ?gen = "record_generation s" and ?new = "intended st rec counter s"
  obtain i where i: "i < 2" "current_slot s = Some i" "store_valid (slot_page (cells s) i)"
    "bd_current s = take 80 (slot_page (cells s) i)" "storage_state s = slot_page (cells s) i ! 8"
    using assms(1) by (auto simp: committed_def)
  have g: "?gen = page32 (slot_page (cells s) i) 4" "storage_state s \<noteq> 255"
    using i by (auto simp: record_generation_def store_valid_def)
  note body = record_body_ok [OF assms(2-5), where counter = counter and gen = "?gen + 1"]
  have "committed (cells s') s' \<and> staged_ok s' \<and> (ok \<longrightarrow> newest (cells s') = Some ?new \<and> confirmed (cells s') s' = ?new)
    \<and> newest (cells s') \<in> {newest (cells s), Some (confirmed (cells s) s), Some ?new}"
  proof (cases "?gen = UINT32_MAX")
    case True
    then show ?thesis using assms by (simp add: write_record_def Let_def)
  next
    case False
    have k: "next_slot s = 1 - i" using i by (auto simp: next_slot_def less_2_cases_iff)
    obtain ok' t where w: "write_page E (slot_addr (1 - i)) (record_body st rec counter (?gen + 1) s) s = (ok', t)"
      by (metis surj_pair)
    note wp = write_page_ok [OF w body(1), folded slot_page_def]
    have same: "same_ram s t" using wp(1) by (simp add: within_range_def)
    have other: "slot_page (cells t) i = slot_page (cells s) i"
      unfolding slot_page_def using i(1) by (intro within_page [OF wp(1)]) (auto simp: slot_addr_def less_2_cases_iff)
    have ct: "committed (cells t) t" "confirmed (cells t) t = confirmed (cells s) s"
      using committed_same [OF assms(1) same] other i(2) by (auto simp: confirmed_def)
    have new: "newest (cells t) = Some ?new" if "slot_page (cells t) (1 - i) = ?new"
    proof -
      have "page32 (slot_page (cells t) (1 - i)) 4 > page32 (slot_page (cells t) i) 4"
        using that body(3) u32_less_succ [OF False] other g by (simp add: intended_def)
      then show ?thesis using newest_new [OF i(1), of "cells t"] that body(2) by (simp add: intended_def)
    qed
    have old: "newest (cells t) \<in> {newest (cells s), Some (confirmed (cells s) s)}"
      if "slot_page (cells t) (1 - i) = slot_page (cells s) (1 - i) \<or> \<not> store_valid (slot_page (cells t) (1 - i))"
      using that newest_same [OF i(1) other] newest_only [OF i(1), of "cells t"] i other by (auto simp: confirmed_def)
    have e: "write_record E st rec counter s =
      (if \<not> ok' then (False, t) else (True, t\<lparr>bd_current := take 80 ?new, current_slot := Some (1 - i), storage_state := st\<rparr>))"
      using False w k g(2) assms(1) by (simp add: write_record_def Let_def intended_def)
    show ?thesis
    proof (cases ok')
      case True
      then have n: "slot_page (cells t) (1 - i) = ?new" using wp(3) by (simp add: intended_def)
      have s': "s' = t\<lparr>bd_current := take 80 ?new, current_slot := Some (1 - i), storage_state := st\<rparr>" "ok"
        using e True assms(6) by auto
      have "committed (cells s') s'" "confirmed (cells s') s' = ?new"
        using s' n body(2,4) i(1) ct(1) by (auto simp: committed_def confirmed_def intended_def)
      then show ?thesis using s' new [OF n] assms(2) same_ram_fields [OF same] by (simp add: staged_ok_def)
    next
      case False
      then show ?thesis using e assms(2,6) ct(1) wp(2) new old same_ram_fields [OF same]
        by (auto simp: staged_ok_def intended_def)
    qed
  qed
  then show "committed (cells s') s'" "staged_ok s'"
    "ok \<Longrightarrow> newest (cells s') = Some ?new \<and> confirmed (cells s') s' = ?new"
    "newest (cells s') \<in> {newest (cells s), Some (confirmed (cells s) s), Some ?new}" by blast+
qed

section \<open>Runs\<close>

lemma load_inv:
  assumes "journal_inv (cells s) s"
  defines "r \<equiv> load_slots E s"
  shows "journal_inv (cells r) r" and "cells r = cells s" and "bd_loaded r"
proof -
  have "journal_inv (cells r) r \<and> cells r = cells s \<and> bd_loaded r"
  proof (cases "bd_loaded s")
    case True
    then show ?thesis using assms by (simp add: load_slots_def)
  next
    case False
    then obtain p where p: "newest (cells s) = Some p" "current_slot s = None"
      using assms(1) by (auto simp: journal_inv_def committed_def)
    show ?thesis
      using load_newest [OF p(1) False p(2)] p(1) unfolding r_def journal_inv_def by auto
  qed
  then show "journal_inv (cells r) r" "cells r = cells s" "bd_loaded r" by blast+
qed

lemma write_record_inv:
  assumes "journal_inv (cells s) s" and "bd_loaded s" and "\<And>r. rec = Some r \<Longrightarrow> 47 \<le> length (pr_name r)"
    and "1 \<le> st" and "st \<le> 3" and "write_record E st rec counter s = (ok, s')"
  shows "journal_inv (cells s') s'"
proof (cases "storage_state s = 255")
  case True
  then have "s' = s" using assms(2,6) by (simp add: write_record_def Let_def load_slots_def)
  then show ?thesis using assms(1) by simp
next
  case False
  then have c: "committed (cells s) s" "staged_ok s" using assms(1,2) by (auto simp: journal_inv_def)
  note w = write_record_ok [OF c assms(3-6)]
  have "newest (cells s') \<noteq> None" using w(4) assms(1) by (auto simp: journal_inv_def)
  then show ?thesis using w(1,2) by (simp add: journal_inv_def)
qed

lemma board_do_inv:
  assumes "journal_inv (cells s) s" and "board_call_ok call"
  shows "journal_inv (cells (board_do E call s)) (board_do E call s)"
proof -
  note l = load_inv [OF assms(1)]
  have w: "journal_inv (cells (snd (write_record E st rec n t))) (snd (write_record E st rec n t))"
    if "journal_inv (cells t) t" "bd_loaded t" "1 \<le> st" "st \<le> 3" "\<And>r. rec = Some r \<Longrightarrow> 47 \<le> length (pr_name r)"
    for st rec n and t :: "'w board"
    using that write_record_inv [of t rec st n] by (metis prod.collapse)
  have k: "journal_inv (cells (s\<lparr>staged_valid := False\<rparr>)) (s\<lparr>staged_valid := False\<rparr>)"
    using assms(1) by simp
  note m = load_inv [OF k]
  show ?thesis
  proof (cases call)
    case Begin_pair
    then show ?thesis
      using l by (auto simp: board_begin_pair_def Let_def intro!: w)
  next
    case (Save r)
    then show ?thesis
      using l assms by (auto simp: store_save_def board_peer_counter_def Let_def intro!: w)
  next
    case (Stage a t)
    then show ?thesis
      using l assms(2) by (auto simp: board_addr_stage_def intro!: journal_inv_stage)
  next
    case Reboot
    then show ?thesis using assms(1) by (simp add: journal_inv_def board_boot_def cells_def)
  qed (use l m in \<open>auto simp: board_begin_forget_def store_clear_def board_peer_counter_def Let_def
        board_addr_invalidate_def board_hid_flags_stage_def intro!: w\<close>)
qed

lemma board_run_inv:
  "journal_inv (cells s) s \<Longrightarrow> \<forall>call \<in> set calls. board_call_ok call \<Longrightarrow>
    journal_inv (cells (fold (board_do E) calls s)) (fold (board_do E) calls s)"
  by (induction calls arbitrary: s) (simp_all add: board_do_inv)

end

end
