(* ===== verification/Board_Store.thy ===== *)
theory Board_Store
  imports Board_Facts
begin

text \<open>
  The promises of the bond journal, on an EEPROM that fails as it likes. The first pairing of all is followed
  through a loss of power at any point; the device \<open>flaky\<close> is the EEPROM with a schedule of failures, an instance
  of \<open>data_flash\<close>, and of \<open>sound_flash\<close> when the schedule is empty.
\<close>

section \<open>The first record of all\<close>

text \<open>A page in which nothing but bits of \<open>e\<close> has been cleared.\<close>

definition over :: "u8 list \<Rightarrow> u8 list \<Rightarrow> bool" where
  "over p e = list_all2 (\<lambda>b e. b AND e = e) p e"

lemma over_cells: "over (page c a n) e \<longleftrightarrow> length e = n \<and> (\<forall>j<n. c (a + j) AND e ! j = e ! j)"
  by (auto simp: over_def list_all2_conv_all_nth)

lemma erased_and [simp]: "(255 :: u8) AND e = e" "e AND (255 :: u8) = e"
proof -
  have "(255 :: u8) = - 1" by simp
  then show "(255 :: u8) AND e = e" "e AND (255 :: u8) = e"
    by (simp_all only: and.left_neutral and.right_neutral)
qed

lemma blank_cells: "blank (page c a n) \<longleftrightarrow> (\<forall>j<n. c (a + j) = 255)"
  by (simp add: blank_def page_def) (metis add.commute le_add1 less_diff_conv2 le_add_diff_inverse atLeastLessThan_iff nat_add_left_cancel_less)

definition peer_pending :: "(nat \<Rightarrow> u8) \<Rightarrow> nat \<Rightarrow> bool" where
  "peer_pending c i \<longleftrightarrow> (let p = slot_page c i in
     take 4 p = cstr ''RBS2'' \<and> p ! 8 = 3 \<and> page32 p CRC_OFF = rbp_crc32c (take CRC_OFF p))"

lemma blank_over: "blank (page c a n) \<Longrightarrow> length e = n \<Longrightarrow> over (page c a n) e"
  by (simp add: over_cells blank_cells)

lemma blank_invalid: "blank (slot_page c i) \<Longrightarrow> take 4 (slot_page c i) \<noteq> cstr ''RBS2''"
proof
  assume b: "blank (slot_page c i)" and t: "take 4 (slot_page c i) = cstr ''RBS2''"
  have "slot_page c i ! 0 = 255" using b by (simp add: blank_def)
  moreover have "slot_page c i ! 0 = of_char (CHR ''R'')" using arg_cong [OF t, of "\<lambda>x. x ! 0"] by (simp add: cstr_def)
  ultimately show False by simp
qed

definition keeps :: "('s \<Rightarrow> bool) \<Rightarrow> ('s \<Rightarrow> bool \<times> 's) \<Rightarrow> bool" where
  "keeps P f \<longleftrightarrow> (\<forall>t. P t \<longrightarrow> P (snd (f t)))"

lemma keepsI: "(\<And>t b u. P t \<Longrightarrow> f t = (b, u) \<Longrightarrow> P u) \<Longrightarrow> keeps P f"
  unfolding keeps_def by (metis prod.collapse)

lemma keepsD: "keeps P f \<Longrightarrow> P t \<Longrightarrow> f t = (b, u) \<Longrightarrow> P u"
  unfolding keeps_def by (metis snd_conv)

lemma keeps_and_then [intro!]: "keeps P f \<Longrightarrow> keeps P g \<Longrightarrow> keeps P (and_then f g)"
  by (rule keepsI, erule and_then_cases) (blast dest: keepsD)+

context data_flash
begin

lemma erase_over:
  assumes "erase_ok E b m s = (ok, s')" and "over (page (cells s) a n) e"
  shows "over (page (cells s') a n) e"
proof -
  obtain rc where "EEPROM_ERASE E b m (device s) = (rc, device s')"
    using assms(1) by (auto simp: erase_ok_def checked_erase_def split: prod.splits)
  then have r: "cells s' i AND cells s i = cells s i" for i using erase_bits by (simp add: cells_def)
  have "cells s' (a + j) AND e ! j = e ! j" if "j < n" for j
    using r [of "a + j"] that assms(2) unfolding over_cells by (metis and.assoc)
  then show ?thesis using assms(2) by (simp add: over_cells)
qed

lemma write_over:
  assumes "write_ok E (a + k) d s = (ok, s')" and "over (page (cells s) a n) e"
    and "k + length d \<le> n" and "take (length d) (drop k e) = d"
  shows "over (page (cells s') a n) e"
proof -
  obtain rc where w: "EEPROM_WRITE E (a + k) d (device s) = (rc, device s')"
    using assms(1) by (auto simp: write_ok_def checked_write_def split: prod.splits)
  have o: "length e = n" "cells s (a + j) AND e ! j = e ! j" if "j < n" for j
    using assms(2) that by (simp_all add: over_cells)
  have "cells s' (a + j) AND e ! j = e ! j" if j: "j < n" for j
  proof (cases "k \<le> j \<and> j < k + length d")
    case True
    then have i: "j - k < length d" "a + k + (j - k) = a + j" by auto
    have "take (length d) (drop k e) ! (j - k) = e ! j" using i(1) True o(1) [OF j] assms(3) by auto
    then have "d ! (j - k) = e ! j" using assms(4) by simp
    then show ?thesis using write_bits [OF w i(1)] i(2) o(2) [OF j] by (simp add: cells_def)
  next
    case False
    then have "cells s' (a + j) = cells s (a + j)"
      using write_range [OF w, of "a + j"] by (auto simp: cells_def)
    then show ?thesis using o(2) [OF j] by simp
  qed
  then show ?thesis using assms(2) by (simp add: over_cells)
qed

lemma write_page_over:
  assumes "write_page E a body s = (ok, s')" and "length body = CRC_OFF"
    and "over (page (cells s) a STORE_SLOT_SIZE) (page_full body)"
  shows "over (page (cells s') a STORE_SLOT_SIZE) (page_full body)"
proof -
  let ?P = "\<lambda>t. over (page (cells t) a STORE_SLOT_SIZE) (page_full body)"
  have x: "length (page_sealed body) = COMMIT_OFF" "length (page_full body) = STORE_SLOT_SIZE"
    "page_full body = page_sealed body @ put32 COMMIT_WORD"
    using assms(2) by (simp_all add: page_sealed_def page_full_def)
  have r: "keeps ?P (read_back E a STORE_SLOT_SIZE y)" if "length y \<le> STORE_SLOT_SIZE" for y
    by (rule keepsI) (use read_back_ok(2) that in fastforce)
  have w0: "keeps ?P (write_ok E a (page_sealed body))"
    by (rule keepsI) (rule write_over [of a 0 "page_sealed body"], simp_all add: x)
  have w1: "keeps ?P (write_ok E (a + COMMIT_OFF) (put32 COMMIT_WORD))"
    by (rule keepsI) (rule write_over [of a COMMIT_OFF "put32 COMMIT_WORD"], simp_all add: x)
  have e: "keeps ?P (erase_ok E a STORE_SLOT_SIZE)"
    by (rule keepsI) (rule erase_over)
  have "keeps ?P (write_page E a body)"
    unfolding write_page_def using e w0 w1 r x by (intro keeps_and_then) simp_all
  from keepsD [OF this assms(3,1)] show ?thesis .
qed

lemma slots_apart: "within_range (slot_addr 0) STORE_SLOT_SIZE s s' \<Longrightarrow> slot_page (cells s') 1 = slot_page (cells s) 1"
  unfolding slot_page_def by (erule within_page) (simp add: slot_addr_def)

lemma load_blank:
  assumes "blank (slot_page (cells s) 0)" and "blank (slot_page (cells s) 1)"
    and "\<not> bd_loaded s" and "current_slot s = None"
  defines "r \<equiv> load_slots E s"
  shows "cells r = cells s" and "bd_loaded r"
    and "storage_state r = 255 \<or> same_ram (s\<lparr>bd_loaded := True, storage_state := 0\<rparr>) r"
proof -
  let ?s = "s\<lparr>bd_loaded := True, storage_state := 0\<rparr>"
  obtain res t where e: "scan_slots E [0..<STORE_SLOT_COUNT] False ?s = (res, t)" by (metis surj_pair)
  note ok = scan_slots_ok [OF e]
  have n: "newest (cells s) = None"
    using blank_invalid assms(1,2) by (simp add: newest_def Let_def store_valid_def)
  have "cells r = cells s \<and> bd_loaded r \<and> (storage_state r = 255 \<or> same_ram ?s r)"
  proof (cases res)
    case None
    then have "r = t" using e assms(3) by (simp add: r_def load_slots_def)
    then show ?thesis using ok(1-3) None assms(4) by simp
  next
    case (Some dirty)
    then have d: "\<not> dirty" "same_ram ?s t" using ok(4) [of dirty] n assms(1,2,4) by auto
    then have "r = t" using e Some assms(3,4) same_ram_fields(2) [OF d(2)]
      by (simp add: r_def load_slots_def Let_def)
    then show ?thesis using d ok(1,2) assms(4) by simp
  qed
  then show "cells r = cells s" "bd_loaded r" "storage_state r = 255 \<or> same_ram ?s r" by blast+
qed

lemma first_body:
  assumes "same_ram (board_boot fl w\<lparr>bd_loaded := True, storage_state := 0\<rparr>) r"
  shows "page_full (record_body 3 None 1 (record_generation r + 1) (r\<lparr>staged_valid := False, staged_hid_flags := 255\<rparr>)) = first_journal"
  using same_ram_fields [OF assms]
  by (simp add: record_body_def record_generation_def first_journal_def board_boot_def)

lemma begin_pair_blank:
  assumes "blank (slot_page (cell w) 0)" and "blank (slot_page (cell w) 1)"
    and "board_begin_pair E (board_boot fl w) = (ok, s')"
  shows "over (slot_page (cells s') 0) first_journal" and "blank (slot_page (cells s') 1)"
proof -
  let ?b = "board_boot fl w"
  define r where "r = load_slots E ?b"
  have b: "blank (slot_page (cells ?b) 0)" "blank (slot_page (cells ?b) 1)" "\<not> bd_loaded ?b" "current_slot ?b = None"
    using assms by (simp_all add: cells_def board_boot_def)
  note l = load_blank [OF b, folded r_def]
  have len: "length first_journal = STORE_SLOT_SIZE" by (simp add: first_journal_def page_full_def page_sealed_def)
  have o: "over (slot_page (cells r) 0) first_journal" "blank (slot_page (cells r) 1)"
    using l(1) b(1,2) blank_over [OF _ len] by (simp_all add: slot_page_def)
  have "over (slot_page (cells s') 0) first_journal \<and> blank (slot_page (cells s') 1)"
  proof (cases "storage_state r = 255")
    case True
    then have "s' = r" using assms(3) by (simp add: board_begin_pair_def Let_def r_def)
    then show ?thesis using o by simp
  next
    case False
    then have ram: "same_ram (?b\<lparr>bd_loaded := True, storage_state := 0\<rparr>) r" using l(3) by simp
    note f = same_ram_fields [OF ram]
    let ?r = "r\<lparr>staged_valid := False, staged_hid_flags := 255\<rparr>"
    have fr: "current_slot r = None" "storage_state r = 0" using f by (simp_all add: board_boot_def)
    let ?body = "record_body 3 None 1 (record_generation r + 1) ?r"
    obtain ok' t where w: "write_page E (slot_addr 0) ?body ?r = (ok', t)" by (metis surj_pair)
    have body: "page_full ?body = first_journal" "length ?body = CRC_OFF"
      using first_body [OF ram] f by (simp_all add: record_body_def board_boot_def)
    have g: "record_generation ?r = 0" "record_generation r = 0" "next_slot ?r = 0"
      using fr by (simp_all add: record_generation_def next_slot_def)
    have "write_record E 3 None 1 ?r = (if \<not> ok' then (False, t) else (True, t\<lparr>bd_current := take 80 (page_full ?body),
        current_slot := Some 0, storage_state := 3\<rparr>))"
      using w l(2) fr g by (simp add: write_record_def load_slots_def Let_def)
    moreover have "board_begin_pair E ?b = write_record E 3 None 1 ?r"
      using fr by (simp add: board_begin_pair_def Let_def peer_counter_def flip: r_def)
    ultimately have s': "cells s' = cells t" using assms(3) by (auto split: if_splits)
    have "over (slot_page (cells t) 0) first_journal"
      using write_page_over [OF w body(2)] o(1) by (simp add: body(1) slot_page_def)
    moreover have "slot_page (cells t) 1 = slot_page (cells r) 1"
      using slots_apart [OF write_page_ok(1) [OF w body(2)]] by simp
    ultimately show ?thesis using s' o(2) by simp
  qed
  then show "over (slot_page (cells s') 0) first_journal" "blank (slot_page (cells s') 1)" by blast+
qed

end

section \<open>A device that can be read\<close>

locale sound_flash = data_flash +
  assumes read_ok: "fst (EEPROM_READ E a n w) = 0"
begin

lemma sound_read:
  obtains w where "checked_read E a n s = (0, page (cells s) a n, s\<lparr>device := w\<rparr>)" and "cell w = cells s"
proof -
  obtain d w where "EEPROM_READ E a n (device s) = (0, d, w)" using read_ok by (metis prod.collapse)
  then show ?thesis
    using that [of w] read_keeps [of a n "device s"] read_cells [of a n "device s"]
    by (auto simp: checked_read_def cells_def storage_fault_def)
qed

lemma sound_scan: "fst (scan_slots E is d s) \<noteq> None"
proof (induction "is" arbitrary: d s)
  case (Cons i "is")
  obtain w where "checked_read E (slot_addr i) STORE_SLOT_SIZE s =
      (0, page (cells s) (slot_addr i) STORE_SLOT_SIZE, s\<lparr>device := w\<rparr>)" by (rule sound_read)
  then show ?case using Cons.IH by (simp add: Let_def)
qed simp

lemma sound_load:
  fixes fl
  assumes "newest (cell w) = Some p"
  defines "r \<equiv> load_slots E (board_boot fl w)"
  shows "committed (cell w) r" and "staged_ok r" and "bd_current r = take 80 p" and "storage_state r = p ! 8"
    and "p ! 8 \<in> {1, 2, 3}"
proof -
  let ?b = "board_boot fl w"
  have b: "newest (cells ?b) = Some p" "\<not> bd_loaded ?b" "current_slot ?b = None" "cells ?b = cell w"
    using assms by (simp_all add: board_boot_def cells_def)
  note l = load_newest [OF b(1-3), folded r_def]
  have c: "committed (cell w) r" "staged_ok r" "bd_current r = take 80 p"
    using l(1,3) sound_scan b(4) by auto
  have v: "length p = STORE_SLOT_SIZE" "1 \<le> p ! 8" "p ! 8 \<le> 3"
    using newest_valid [OF assms(1)] by (auto simp: store_valid_def)
  obtain i where "bd_current r = take 80 (slot_page (cell w) i)" "storage_state r = slot_page (cell w) i ! 8"
    using c(1) by (auto simp: committed_def)
  then have "storage_state r = bd_current r ! 8" by simp
  then show "storage_state r = p ! 8" using c(3) v(1) by simp
  have "unat (p ! 8) \<in> {1, 2, 3}" using v(2,3) by (auto simp: word_le_nat_alt)
  then show "p ! 8 \<in> {1, 2, 3}" by (auto simp: word_unat_eq_iff)
  show "committed (cell w) r" "staged_ok r" "bd_current r = take 80 p" by (rule c)+
qed

text \<open>Without a committed record, a page that was written in full but for its commit word counts as a pairing to be
  undone, and so does what is left of the first record of all; anything else is corrupt.\<close>

lemma sound_dirty:
  fixes fl w
  assumes "newest (cell w) = None" and "\<not> (blank (slot_page (cell w) 0) \<and> blank (slot_page (cell w) 1))"
  defines "c \<equiv> cell w"
  obtains t where "bd_loaded t" "cells t = c" "staged_ok t" "load_slots E (board_boot fl w) =
    (if peer_pending c 0 then t\<lparr>bd_current := take 80 (slot_page c 0), current_slot := Some 0, storage_state := 3\<rparr>
     else if peer_pending c 1 then t\<lparr>bd_current := take 80 (slot_page c 1), current_slot := Some 1, storage_state := 3\<rparr>
     else if blank (slot_page c 1) \<and> over (slot_page c 0) first_journal
     then t\<lparr>bd_current := take 80 first_journal, current_slot := Some 0, storage_state := 3\<rparr>
     else t\<lparr>storage_state := 255\<rparr>)"
proof -
  let ?b = "(board_boot fl w)\<lparr>bd_loaded := True, storage_state := 0\<rparr>" and ?r = "load_slots E (board_boot fl w)"
  obtain res t where e: "scan_slots E [0..<STORE_SLOT_COUNT] False ?b = (res, t)" by (metis surj_pair)
  have cb: "cells ?b = c" "current_slot ?b = None" by (simp_all add: cells_def board_boot_def c_def)
  note ok = scan_slots_ok [OF e cb(2), unfolded cb(1)]
  obtain dirty where res: "res = Some dirty" using sound_scan [of "[0..<STORE_SLOT_COUNT]" False ?b] e by auto
  have d: "dirty" "same_ram ?b t" using ok(4) [OF res] assms by auto
  have t: "current_slot t = None" "bd_loaded t" "cells t = c" "staged_ok t"
    using same_ram_fields [OF d(2)] ok(1) by (simp_all add: board_boot_def staged_ok_def)
  let ?t = "t\<lparr>storage_state := 255\<rparr>"
  have r: "?r = (let (found, s) = find_pending E [0, 1] ?t in if found then s else find_first_torn E s)"
    using e res d(1) t(1) by (simp add: load_slots_def board_boot_def Let_def upt_rec)
  have read: "\<exists>w'. checked_read E (slot_addr i) STORE_SLOT_SIZE (u\<lparr>device := w\<rparr>) = (0, slot_page c i, u\<lparr>device := w'\<rparr>) \<and> cell w' = c"
    if "cell w = c" for i u w
    using sound_read [of "slot_addr i" STORE_SLOT_SIZE "u\<lparr>device := w\<rparr>"] that by (fastforce simp: slot_page_def cells_def)
  obtain w1 where r1: "checked_read E (slot_addr 0) STORE_SLOT_SIZE ?t = (0, slot_page c 0, ?t\<lparr>device := w1\<rparr>)" "cell w1 = c"
    using read [of "device ?t" 0 ?t] t(3) by (auto simp: cells_def)
  obtain w2 where r2: "checked_read E (slot_addr 1) STORE_SLOT_SIZE (?t\<lparr>device := w1\<rparr>) = (0, slot_page c 1, ?t\<lparr>device := w2\<rparr>)" "cell w2 = c"
    using read [OF r1(2), of 1 ?t] by auto
  obtain w3 where r3: "checked_read E (slot_addr 1) STORE_SLOT_SIZE (?t\<lparr>device := w2\<rparr>) = (0, slot_page c 1, ?t\<lparr>device := w3\<rparr>)" "cell w3 = c"
    using read [OF r2(2), of 1 ?t] by auto
  obtain w4 where r4: "checked_read E (slot_addr 0) STORE_SLOT_SIZE (?t\<lparr>device := w3\<rparr>) = (0, slot_page c 0, ?t\<lparr>device := w4\<rparr>)" "cell w4 = c"
    using read [OF r3(2), of 0 ?t] by auto
  have p0: "find_pending E [0, 1] ?t = (if peer_pending c 0 then (True, t\<lparr>device := w1, bd_current := take 80 (slot_page c 0), current_slot := Some 0, storage_state := 3\<rparr>)
      else if peer_pending c 1 then (True, t\<lparr>device := w2, bd_current := take 80 (slot_page c 1), current_slot := Some 1, storage_state := 3\<rparr>)
      else (False, ?t\<lparr>device := w2\<rparr>))"
    using r1(1) r2(1) by (simp add: peer_pending_def Let_def del: One_nat_def)
  have p1: "find_first_torn E (?t\<lparr>device := w2\<rparr>) = (if \<not> blank (slot_page c 1) then ?t\<lparr>device := w3\<rparr>
      else if \<not> over (slot_page c 0) first_journal then ?t\<lparr>device := w4\<rparr>
      else t\<lparr>device := w4, bd_current := take 80 first_journal, current_slot := Some 0, storage_state := 3\<rparr>)"
    using r3(1) r4(1) by (simp add: find_first_torn_def over_def Let_def del: One_nat_def)
  let ?w = "if peer_pending c 0 then w1 else if peer_pending c 1 then w2 else if blank (slot_page c 1) then w4 else w3"
  show ?thesis
  proof (rule that [of "t\<lparr>device := ?w\<rparr>"])
    show "bd_loaded (t\<lparr>device := ?w\<rparr>)" "cells (t\<lparr>device := ?w\<rparr>) = c" "staged_ok (t\<lparr>device := ?w\<rparr>)"
      using t r1(2) r2(2) r3(2) r4(2) by (simp_all add: cells_def staged_ok_def)
  qed (simp add: r p0 p1 del: find_pending.simps One_nat_def)
qed

lemma sound_blank:
  fixes fl w
  assumes "blank (slot_page (cell w) 0)" and "blank (slot_page (cell w) 1)"
  shows "storage_state (load_slots E (board_boot fl w)) = 0"
proof -
  let ?b = "(board_boot fl w)\<lparr>bd_loaded := True, storage_state := 0\<rparr>"
  obtain res t where e: "scan_slots E [0..<STORE_SLOT_COUNT] False ?b = (res, t)" by (metis surj_pair)
  have cb: "cells ?b = cell w" "current_slot ?b = None" by (simp_all add: cells_def board_boot_def)
  note ok = scan_slots_ok [OF e cb(2), unfolded cb(1)]
  obtain dirty where res: "res = Some dirty" using sound_scan [of "[0..<STORE_SLOT_COUNT]" False ?b] e by auto
  have "newest (cell w) = None"
    using blank_invalid assms by (simp add: newest_def Let_def store_valid_def)
  then have d: "\<not> dirty" "same_ram ?b t" using ok(4) [OF res] assms by auto
  then show ?thesis
    using e res same_ram_fields [OF d(2)] by (simp add: load_slots_def board_boot_def Let_def)
qed

text \<open>The pages a torn first record may leave are read as nothing, or as a pairing that has to be undone.\<close>

lemma sound_first:
  fixes fl
  assumes "over (slot_page (cell w) 0) first_journal" and "blank (slot_page (cell w) 1)"
  defines "r \<equiv> load_slots E (board_boot fl w)"
  shows "storage_state r \<in> {0, 3}"
proof -
  let ?p = "slot_page (cell w) 0"
  have q: "\<not> store_valid (slot_page (cell w) 1)" "\<not> peer_pending (cell w) 1"
    using blank_invalid [OF assms(2)] by (simp_all add: store_valid_def peer_pending_def)
  consider "store_valid ?p" | "\<not> store_valid ?p" "blank ?p" | "\<not> store_valid ?p" "\<not> blank ?p" by blast
  then show ?thesis
  proof cases
    case 1
    then have n: "newest (cell w) = Some ?p" using q by (simp add: newest_def Let_def)
    have st: "storage_state r = ?p ! 8" "?p ! 8 \<in> {1, 2, 3}" unfolding r_def by (rule sound_load [OF n])+
    have "?p ! 8 AND 3 = 3"
      using list_all2_nthD [OF assms(1) [unfolded over_def], of 8]
      by (simp add: first_journal_def page_full_def page_sealed_def page_body_def cstr_def put32_def)
    then show ?thesis using st by auto
  next
    case 2
    then show ?thesis using sound_blank assms(2) by (simp add: r_def)
  next
    case 3
    then have n: "newest (cell w) = None" using q by (simp add: newest_def Let_def)
    show ?thesis
      unfolding r_def by (rule sound_dirty [OF n, of fl]) (use 3 assms(1,2) q in auto)
  qed
qed

end

section \<open>An EEPROM with failures\<close>

text \<open>
  The device counts its calls. \<open>fails n = Some (k, m, rc)\<close> makes call number \<open>n\<close> stop after \<open>k\<close> bytes: a write
  has then programmed the next byte but for the bits of \<open>m\<close>, and returns \<open>rc\<close>, which may be zero; an erase and
  a read return an error.
\<close>

record flash_dev =
  fd_cells :: "nat \<Rightarrow> u8"
  fd_ops :: nat

type_synonym failures = "nat \<Rightarrow> (nat \<times> u8 \<times> u32) option"

definition error_code :: "(nat \<times> u8 \<times> u32) option \<Rightarrow> u32" where
  "error_code f = (case f of None \<Rightarrow> 0 | Some (k, m, rc) \<Rightarrow> if rc = 0 then 1 else rc)"

definition stored :: "(nat \<times> u8 \<times> u32) option \<Rightarrow> nat \<Rightarrow> u8 \<Rightarrow> u8 \<Rightarrow> u8" where
  "stored f j old new = (case f of None \<Rightarrow> new AND old
     | Some (k, m, rc) \<Rightarrow> if j < k then new AND old else if j = k then (new OR m) AND old else old)"

definition flaky :: "failures \<Rightarrow> flash_dev eeprom" where
  "flaky fails =
     \<lparr>EEPROM_READ = \<lambda>a n w. (error_code (fails (fd_ops w)), page (fd_cells w) a n, w\<lparr>fd_ops := fd_ops w + 1\<rparr>),
      EEPROM_WRITE = \<lambda>a d w.
        (case fails (fd_ops w) of None \<Rightarrow> 0 | Some (k, m, rc) \<Rightarrow> rc,
         \<lparr>fd_cells = \<lambda>i. if a \<le> i \<and> i < a + length d
            then stored (fails (fd_ops w)) (i - a) (fd_cells w i) (d ! (i - a)) else fd_cells w i, fd_ops = fd_ops w + 1\<rparr>),
      EEPROM_ERASE = \<lambda>a n w.
        (error_code (fails (fd_ops w)),
         \<lparr>fd_cells = \<lambda>i. if a \<le> i \<and> i < a + (case fails (fd_ops w) of None \<Rightarrow> n | Some (k, m, rc) \<Rightarrow> min k n)
            then 255 else fd_cells w i, fd_ops = fd_ops w + 1\<rparr>)\<rparr>"

abbreviation (input) working :: "flash_dev eeprom" where "working \<equiv> flaky (\<lambda>_. None)"

lemma stored_bits: "stored f j old new AND (old AND new) = old AND new"
  by (rule bit_word_eqI) (auto simp: stored_def bit_simps split: option.splits)

lemma erased_front:
  assumes "x = map (\<lambda>i. if i < k then 255 else c (a + i)) [0..<n]" and "take 4 x = cstr [ch1, ch2, ch3, ch4]" and "4 \<le> n"
    and "of_char ch1 \<noteq> (255 :: u8)"
  shows "k = 0"
proof (rule ccontr)
  assume "k \<noteq> 0"
  then have "x ! 0 = 255" using assms(1,3) by simp
  moreover have "x ! 0 = of_char ch1" using arg_cong [OF assms(2), of "\<lambda>x. x ! 0"] assms(1,3) by (simp add: cstr_def)
  ultimately show False using assms(4) by simp
qed

interpretation flaky: data_flash "flaky fails" fd_cells for fails
proof
  fix a n w rc d w' i j k
  show "EEPROM_READ (flaky fails) a n w = (rc, d, w') \<Longrightarrow> fd_cells w' = fd_cells w"
    "EEPROM_READ (flaky fails) a n w = (0, d, w') \<Longrightarrow> d = page (fd_cells w) a n"
    by (auto simp: flaky_def)
  show "EEPROM_WRITE (flaky fails) a d w = (rc, w') \<Longrightarrow> i < a \<or> a + length d \<le> i \<Longrightarrow> fd_cells w' i = fd_cells w i"
    by (auto simp: flaky_def)
  show "EEPROM_WRITE (flaky fails) a d w = (rc, w') \<Longrightarrow> j < length d \<Longrightarrow>
      fd_cells w' (a + j) AND (fd_cells w (a + j) AND d ! j) = fd_cells w (a + j) AND d ! j"
    by (auto simp: flaky_def stored_bits)
  show "EEPROM_ERASE (flaky fails) a n w = (rc, w') \<Longrightarrow> i < a \<or> a + n \<le> i \<Longrightarrow> fd_cells w' i = fd_cells w i"
    by (auto simp: flaky_def split: option.splits)
  show "EEPROM_ERASE (flaky fails) a n w = (0, w') \<Longrightarrow> a \<le> i \<Longrightarrow> i < a + n \<Longrightarrow> fd_cells w' i = 255"
    by (auto simp: flaky_def error_code_def split: option.splits if_splits)
  show "EEPROM_ERASE (flaky fails) a n w = (rc, w') \<Longrightarrow> fd_cells w' i AND fd_cells w i = fd_cells w i"
    by (auto simp: flaky_def)
  let ?m = "\<lambda>n. case fails (fd_ops w) of None \<Rightarrow> n | Some (k, m, rc) \<Rightarrow> min k n"
  have p: "page (fd_cells w') a m = map (\<lambda>i. if i < ?m n then 255 else fd_cells w (a + i)) [0..<m]"
    if "EEPROM_ERASE (flaky fails) a n w = (rc, w')" for a m n
    using that by (intro nth_equalityI) (auto simp: flaky_def)
  have u: "?m n = 0 \<Longrightarrow> EEPROM_ERASE (flaky fails) a n w = (rc, w') \<Longrightarrow> fd_cells w' = fd_cells w" for a n
    by (auto simp: flaky_def fun_eq_iff)
  show "page (fd_cells w') (slot_addr k) STORE_SLOT_SIZE = page (fd_cells w) (slot_addr k) STORE_SLOT_SIZE
      \<or> \<not> store_valid (page (fd_cells w') (slot_addr k) STORE_SLOT_SIZE)"
    if e: "EEPROM_ERASE (flaky fails) (slot_addr k) STORE_SLOT_SIZE w = (rc, w')"
    using erased_front [OF p [OF e, of STORE_SLOT_SIZE], of "CHR ''R''" "CHR ''B''" "CHR ''S''" "CHR ''2''"] u [OF _ e]
    by (auto simp: store_valid_def)
  show "page (fd_cells w') (gac_addr k) 512 = page (fd_cells w) (gac_addr k) 512
      \<or> \<not> gac_valid (page (fd_cells w') (gac_addr k) 512)"
    if e: "EEPROM_ERASE (flaky fails) (gac_addr k) 256 w = (rc, w')"
    using erased_front [OF p [OF e, of 512], of "CHR ''G''" "CHR ''C''" "CHR ''S''" "CHR ''1''"] u [OF _ e]
    by (auto simp: gac_valid_def)
qed

interpretation sound: sound_flash working fd_cells
  by unfold_locales (simp add: flaky_def error_code_def)

section \<open>What is read after power comes back\<close>

text \<open>The record of a page, as \<open>store_load\<close> returns it, and a record as it is kept.\<close>

definition record_of :: "u8 list \<Rightarrow> rbp_peer_record option" where
  "record_of p = (if p ! 8 \<noteq> 1 then None
     else Some \<lparr>pr_peer_id = page32 p 16, pr_name = take 47 (drop 32 p) @ [0], pr_auto_reconnect = (p ! 21 \<noteq> 0)\<rparr>)"

definition kept :: "rbp_peer_record \<Rightarrow> rbp_peer_record" where
  "kept r = r\<lparr>pr_name := take 47 (pr_name r) @ [0]\<rparr>"

lemma record_of_take: "length p = STORE_SLOT_SIZE \<Longrightarrow> record_of (take 80 p) = record_of p"
  by (simp add: record_of_def drop_take)

lemma store_load_committed:
  assumes "committed c s"
  shows "fst (store_load E s) = record_of (confirmed c s)"
proof -
  obtain i where i: "current_slot s = Some i" "bd_current s = take 80 (slot_page c i)" "storage_state s = slot_page c i ! 8"
    using assms by (auto simp: committed_def)
  have "fst (store_load E s) = record_of (bd_current s)"
    using assms i by (simp add: store_load_def Let_def record_of_def)
  then show ?thesis using i by (simp add: record_of_take confirmed_def)
qed

lemma reload_record:
  assumes "newest (fd_cells w) = Some p"
  shows "fst (store_load working (board_boot fl w)) = record_of p"
proof -
  note l = sound.sound_load(3,4) [OF assms, of fl]
  have "length p = STORE_SLOT_SIZE" using newest_valid [OF assms] by simp
  then show ?thesis
    using l by (simp add: store_load_def Let_def record_of_def drop_take)
qed

lemma intended_fields:
  fixes counter
  assumes "47 \<le> length (pr_name r)" and "staged_ok s"
  defines "p \<equiv> intended 1 (Some r) counter s"
  shows "p ! 8 = 1" "p ! 21 = flag_byte (pr_auto_reconnect r)" "p ! 22 = flag_byte (staged_valid s)" "p ! 23 = staged_type s"
    "page32 p 16 = pr_peer_id r" "take 6 (drop 24 p) = staged_addr s" "take 47 (drop 32 p) = take 47 (pr_name r)"
proof -
  have a: "length (staged_addr s) = 6" using assms(2) by (simp add: staged_ok_def)
  note u = p_def intended_def record_body_def page_full_def page_sealed_def page_body_def cstr_def
  show "p ! 8 = 1" "p ! 21 = flag_byte (pr_auto_reconnect r)" "p ! 22 = flag_byte (staged_valid s)" "p ! 23 = staged_type s"
    by (simp_all add: u put32_def)
  show "page32 p 16 = pr_peer_id r" by (simp add: u page32_def)
  show "take 6 (drop 24 p) = staged_addr s" "take 47 (drop 32 p) = take 47 (pr_name r)"
    using a assms(1) by (simp_all add: u)
qed

lemma intended_record:
  "47 \<le> length (pr_name r) \<Longrightarrow> staged_ok s \<Longrightarrow> record_of (intended 1 (Some r) counter s) = Some (kept r)"
  using intended_fields [of r s counter] by (simp add: record_of_def kept_def flag_byte_def)

text \<open>What the newest page says after a save, and what the save said.\<close>

lemma store_save_newest:
  assumes "journal_inv (fd_cells (device s)) s" and "47 \<le> length (pr_name r)"
    and "store_save (flaky fails) r s = (ok, s')"
  defines "l \<equiv> load_slots (flaky fails) s"
  shows "fd_cells (device s') = fd_cells (device s) \<and> \<not> ok
    \<or> committed (fd_cells (device s)) l \<and> staged_ok l
      \<and> (ok \<longrightarrow> newest (fd_cells (device s')) = Some (intended 1 (Some r) (peer_counter l) l))
      \<and> newest (fd_cells (device s')) \<in> {newest (fd_cells (device s)), Some (confirmed (fd_cells (device s)) l),
           Some (intended 1 (Some r) (peer_counter l) l)}"
proof -
  have c: "flaky.cells s = fd_cells (device s)" for s by (simp add: flaky.cells_def)
  note i = flaky.load_inv [of s fails, unfolded c, OF assms(1), folded l_def]
  have sv: "store_save (flaky fails) r s = (if pr_peer_id r = 0 then (False, s)
      else write_record (flaky fails) 1 (Some r) (peer_counter l) l)"
    by (simp add: store_save_def board_peer_counter_def Let_def l_def)
  have "load_slots (flaky fails) l = l" using i(3) by (simp add: load_slots_def)
  then have full: "write_record (flaky fails) 1 (Some r) n l = (False, l)" if "storage_state l = 255" for n
    using that by (simp add: write_record_def)
  show ?thesis
  proof (cases "pr_peer_id r = 0 \<or> storage_state l = 255")
    case True
    then have "\<not> ok \<and> (s' = s \<or> s' = l)" using assms(3) full unfolding sv by (auto split: if_splits)
    then show ?thesis using i(2) by auto
  next
    case False
    then have l: "committed (fd_cells (device l)) l" "staged_ok l" using i by (auto simp: journal_inv_def)
    have "write_record (flaky fails) 1 (Some r) (peer_counter l) l = (ok, s')"
      using assms(3) False unfolding sv by simp
    from flaky.write_record_ok [unfolded c, OF l _ _ _ this] show ?thesis
      using assms(2) i(2) l by simp
  qed
qed

text \<open>What the calls do where the schedule has no failure.\<close>

lemma flaky_erase:
  "fails (fd_ops (device s)) = None \<Longrightarrow> erase_ok (flaky fails) a n s = (True, s\<lparr>device :=
     \<lparr>fd_cells = \<lambda>i. if a \<le> i \<and> i < a + n then 255 else fd_cells (device s) i, fd_ops = fd_ops (device s) + 1\<rparr>\<rparr>)"
  by (simp add: erase_ok_def checked_erase_def flaky_def error_code_def storage_fault_def)

lemma flaky_write:
  "fails (fd_ops (device s)) = None \<Longrightarrow> write_ok (flaky fails) a d s = (True, s\<lparr>device :=
     \<lparr>fd_cells = \<lambda>i. if a \<le> i \<and> i < a + length d then d ! (i - a) AND fd_cells (device s) i else fd_cells (device s) i,
      fd_ops = fd_ops (device s) + 1\<rparr>\<rparr>)"
  by (simp add: write_ok_def checked_write_def flaky_def storage_fault_def stored_def cong: if_cong)

lemma flaky_torn_write:
  assumes "fails (fd_ops (device s)) = Some (1, 0, 1)" and "2 \<le> length d"
  shows "\<exists>s'. write_ok (flaky fails) a d s = (False, s') \<and>
    fd_cells (device s') = (\<lambda>i. if a \<le> i \<and> i < a + 2 then d ! (i - a) AND fd_cells (device s) i else fd_cells (device s) i)"
proof -
  have "(\<lambda>i. if a \<le> i \<and> i < a + length d then stored (Some (1, 0, 1)) (i - a) (fd_cells (device s) i) (d ! (i - a))
      else fd_cells (device s) i)
    = (\<lambda>i. if a \<le> i \<and> i < a + 2 then d ! (i - a) AND fd_cells (device s) i else fd_cells (device s) i)"
    using assms(2) by (auto simp: fun_eq_iff stored_def)
  then show ?thesis
    by (simp add: write_ok_def checked_write_def flaky_def assms(1) storage_fault_def cong: if_cong)
qed

lemma flaky_read_back:
  "fails (fd_ops (device s)) = None \<Longrightarrow> length x \<le> n \<Longrightarrow> page (fd_cells (device s)) a (length x) = x \<Longrightarrow>
     read_back (flaky fails) a n x s = (True, s\<lparr>device := (device s)\<lparr>fd_ops := fd_ops (device s) + 1\<rparr>\<rparr>)"
  by (simp add: read_back_def checked_read_def checked_verify_def flaky_def error_code_def storage_fault_def min_absorb1)

lemma working_write_page:
  assumes "length body = CRC_OFF"
  shows "fst (write_page working a body s)"
proof -
  let ?x = "page_sealed body"
  have x: "length ?x = COMMIT_OFF" "page_full body = ?x @ put32 COMMIT_WORD" "length (page_full body) = STORE_SLOT_SIZE"
    using assms by (simp_all add: page_sealed_def page_full_def)
  let ?c = "\<lambda>i. if a \<le> i \<and> i < a + COMMIT_OFF then ?x ! (i - a)
      else if a \<le> i \<and> i < a + STORE_SLOT_SIZE then 255 else fd_cells (device s) i"
  let ?d = "\<lambda>i. if a + COMMIT_OFF \<le> i \<and> i < a + STORE_SLOT_SIZE then put32 COMMIT_WORD ! (i - (a + COMMIT_OFF)) else ?c i"
  have c: "(\<lambda>i. if a \<le> i \<and> i < a + length ?x then ?x ! (i - a) AND (if a \<le> i \<and> i < a + STORE_SLOT_SIZE then 255 else fd_cells (device s) i)
      else if a \<le> i \<and> i < a + STORE_SLOT_SIZE then 255 else fd_cells (device s) i) = ?c"
    using x(1) by (auto simp: fun_eq_iff)
  have d: "(\<lambda>i. if a + COMMIT_OFF \<le> i \<and> i < a + COMMIT_OFF + length (put32 COMMIT_WORD)
      then put32 COMMIT_WORD ! (i - (a + COMMIT_OFF)) AND ?c i else ?c i) = ?d"
    by (auto simp: fun_eq_iff)
  have pc: "page ?c a (length ?x) = ?x" using x(1) by (intro nth_equalityI) auto
  have pd: "page ?d a (length (page_full body)) = page_full body"
    using x by (intro nth_equalityI) (auto simp: nth_append)
  let ?n = "fd_ops (device s)" and ?s = "\<lambda>c k. s\<lparr>device := \<lparr>fd_cells = c, fd_ops = k\<rparr>\<rparr>"
  let ?e = "\<lambda>i. if a \<le> i \<and> i < a + STORE_SLOT_SIZE then 255 else fd_cells (device s) i"
  have 1: "erase_ok working a STORE_SLOT_SIZE s = (True, ?s ?e (?n + 1))"
    by (simp add: flaky_erase)
  have 2: "write_ok working a ?x (?s ?e (?n + 1)) = (True, ?s ?c (?n + 2))"
    using flaky_write [of "\<lambda>_. None" "?s ?e (?n + 1)" a ?x] c by (simp cong: if_cong)
  have 3: "read_back working a STORE_SLOT_SIZE ?x (?s ?c (?n + 2)) = (True, ?s ?c (?n + 3))"
    using flaky_read_back [of "\<lambda>_. None" "?s ?c (?n + 2)" ?x STORE_SLOT_SIZE a] pc x by simp
  have 4: "write_ok working (a + COMMIT_OFF) (put32 COMMIT_WORD) (?s ?c (?n + 3)) = (True, ?s ?d (?n + 4))"
    using flaky_write [of "\<lambda>_. None" "?s ?c (?n + 3)" "a + COMMIT_OFF" "put32 COMMIT_WORD"] d by (simp cong: if_cong)
  have 5: "read_back working a STORE_SLOT_SIZE (page_full body) (?s ?d (?n + 4)) = (True, ?s ?d (?n + 5))"
    using flaky_read_back [of "\<lambda>_. None" "?s ?d (?n + 4)" "page_full body" STORE_SLOT_SIZE a] pd x by simp
  show ?thesis
    by (simp only: write_page_def and_then_def 1 2 3 4 5 Let_def prod.case if_True fst_conv)
qed

lemma torn_write_page:
  assumes "fails (fd_ops (device s)) = None" and "fails (fd_ops (device s) + 1) = Some (1, 0, 1)"
    and "length body = CRC_OFF" and "body ! 0 = b0" and "body ! 1 = b1"
  shows "\<exists>s'. write_page (flaky fails) a body s = (False, s')
    \<and> fd_cells (device s') = (\<lambda>i. if i = a then b0 else if i = a + 1 then b1
        else if a \<le> i \<and> i < a + STORE_SLOT_SIZE then 255 else fd_cells (device s) i)"
proof -
  let ?x = "page_sealed body"
  have x: "length ?x = COMMIT_OFF" "?x ! 0 = b0" "?x ! 1 = b1"
    using assms(3-5) by (simp_all add: page_sealed_def nth_append)
  let ?e = "s\<lparr>device := \<lparr>fd_cells = \<lambda>i. if a \<le> i \<and> i < a + STORE_SLOT_SIZE then 255 else fd_cells (device s) i,
    fd_ops = fd_ops (device s) + 1\<rparr>\<rparr>"
  obtain s' where s': "write_ok (flaky fails) a ?x ?e = (False, s')"
    "fd_cells (device s') = (\<lambda>i. if a \<le> i \<and> i < a + 2 then ?x ! (i - a) AND fd_cells (device ?e) i else fd_cells (device ?e) i)"
    using flaky_torn_write [of fails ?e ?x a] assms(2) x(1) by auto
  have "write_page (flaky fails) a body s = (False, s')"
    using s'(1) flaky_erase [of fails s a STORE_SLOT_SIZE, OF assms(1)] by (simp add: write_page_def and_then_def)
  moreover have "i = a \<or> i = a + 1" if "a \<le> i" "i < a + 2" for i using that by auto
  ultimately show ?thesis
    using s'(2) x(2,3) by (auto simp: fun_eq_iff)
qed

section \<open>The promises\<close>

lemma run_journal:
  fixes fl fails
  assumes "newest (fd_cells w) \<noteq> None" and "\<forall>call \<in> set calls. board_call_ok call"
  defines "s \<equiv> fold (board_do (flaky fails)) calls (board_boot fl w)"
  shows "journal_inv (fd_cells (device s)) s"
  using flaky.board_run_inv [of "board_boot fl w" calls fails] assms
  by (simp add: flaky.cells_def journal_inv_def board_boot_def)

text \<open>C9: once a record is committed, no sequence of calls and power cycles, whatever calls of the EEPROM
  fail and wherever they stop, leads to a journal that is read as empty or corrupt.\<close>

theorem journal_never_lost:
  assumes "newest (fd_cells w) \<noteq> None" and "\<forall>call \<in> set calls. board_call_ok call"
  shows "fst (board_storage_state working
      (board_boot fl (device (fold (board_do (flaky fails)) calls (board_boot fl w))))) \<in> {1, 2, 3}"
proof -
  obtain p where p: "newest (fd_cells (device (fold (board_do (flaky fails)) calls (board_boot fl w)))) = Some p"
    using run_journal [OF assms, of fails fl] by (auto simp: journal_inv_def)
  show ?thesis
    using sound.sound_load(4) [OF p, of fl] sound.sound_load(5) [OF p] by (simp add: board_storage_state_def Let_def)
qed

text \<open>C10: saving a record is atomic. Whatever calls of the EEPROM fail and wherever they stop, after power comes back
  the record is the one that was there before, or the one that the firmware had loaded, or the new one; and it is the new one
  when the save reported success.\<close>

theorem store_save_atomic:
  assumes "newest (fd_cells w) \<noteq> None" and "\<forall>call \<in> set calls. board_call_ok call"
    and "s = fold (board_do (flaky fails)) calls (board_boot fl w)"
    and "47 \<le> length (pr_name r)" and "store_save (flaky fails) r s = (ok, s')"
  defines "reload \<equiv> \<lambda>t. fst (store_load working (board_boot fl (device t)))"
  shows "reload s' \<in> {reload s, fst (store_load (flaky fails) s), Some (kept r)} \<and> (ok \<longrightarrow> reload s' = Some (kept r))"
proof -
  let ?l = "load_slots (flaky fails) s" and ?c = "fd_cells (device s)"
  have j: "journal_inv ?c s" unfolding assms(3) by (rule run_journal [OF assms(1,2)])
  have load: "fst (store_load (flaky fails) s) = fst (store_load (flaky fails) ?l)" if "committed ?c ?l"
    using that by (simp add: store_load_def Let_def)
  obtain p where p: "newest ?c = Some p" using j by (auto simp: journal_inv_def)
  have "newest (fd_cells (device s')) \<noteq> None"
    using store_save_newest [OF j assms(4,5)] p by auto
  then obtain q where q: "newest (fd_cells (device s')) = Some q" by auto
  have re: "reload s = record_of p" "reload s' = record_of q"
    unfolding reload_def by (rule reload_record [OF p], rule reload_record [OF q])
  show ?thesis
    using store_save_newest [OF j assms(4,5)] p q
    by (auto simp: re load store_load_committed intended_record [OF assms(4)])
qed

lemma save_works:
  assumes "committed (fd_cells (device s)) s" and "staged_ok s" and "47 \<le> length (pr_name r)"
    and "pr_peer_id r \<noteq> 0" and "record_generation s \<noteq> UINT32_MAX"
  shows "fst (store_save working r s)"
proof -
  have "storage_state s \<noteq> 255" using assms(1) by (auto simp: committed_def store_valid_def)
  moreover have "length (record_body 1 (Some r) n g s) = CRC_OFF" for n g
    using assms(2,3) by (simp add: record_body_def staged_ok_def)
  then have "fst (write_page working b (record_body 1 (Some r) n g s) s)" for b n g by (rule working_write_page)
  ultimately show ?thesis
    using assms(1,4,5) by (simp add: store_save_def board_peer_counter_def Let_def write_record_def split_beta)
qed

text \<open>C25: a peer and its address come back: when the save of a record reports success, then after a loss of power
  the firmware reads that record, and the address that was staged for it.\<close>

theorem store_roundtrip:
  assumes "newest (fd_cells w) \<noteq> None" and "\<forall>call \<in> set calls. board_call_ok call"
    and "s = fold (board_do (flaky fails)) calls (board_boot fl w)"
    and "47 \<le> length (pr_name r)" and "length a = 6" and "t \<le> 1"
    and "store_save (flaky fails) r (board_addr_stage (flaky fails) a t s) = (True, s')"
  shows "fst (store_load working (board_boot fl (device s'))) = Some (kept r)
    \<and> fst (board_addr_load working (board_boot fl (device s'))) = Some (a, t)"
proof -
  let ?s = "board_addr_stage (flaky fails) a t s"
  have s: "?s = fold (board_do (flaky fails)) (calls @ [Stage a t]) (board_boot fl w)"
    by (simp add: assms(3))
  have j: "journal_inv (fd_cells (device ?s)) ?s"
    unfolding s by (rule run_journal [OF assms(1)]) (use assms(2,5,6) in auto)
  have "journal_inv (fd_cells (device s)) s" unfolding assms(3) by (rule run_journal [OF assms(1,2)])
  then have "bd_loaded (load_slots (flaky fails) s)"
    using flaky.load_inv(3) by (simp add: flaky.cells_def)
  then have l: "load_slots (flaky fails) ?s = ?s" by (simp add: load_slots_def board_addr_stage_def)
  let ?p = "intended 1 (Some r) (peer_counter ?s) ?s"
  have n: "newest (fd_cells (device s')) = Some ?p" and ok: "staged_ok ?s"
    using store_save_newest [OF j assms(4,7)] by (auto simp: l)
  have stored: "fst (store_load working (board_boot fl (device s'))) = Some (kept r)"
    unfolding reload_record [OF n] by (rule intended_record [OF assms(4) ok])
  have peer: "pr_peer_id r \<noteq> 0" using assms(7) by (auto simp: store_save_def)
  have st: "staged_addr ?s = a" "staged_type ?s = t" "staged_valid ?s" by (simp_all add: board_addr_stage_def)
  note f = intended_fields [OF assms(4) ok, of "peer_counter ?s", unfolded st]
  have len: "length ?p = STORE_SLOT_SIZE" using newest_valid [OF n] by simp
  have "fst (board_addr_load working (board_boot fl (device s'))) = Some (a, t)"
    using sound.sound_load(3,4) [OF n, of fl] f peer st(3) len
    by (simp add: board_addr_load_def Let_def drop_take flag_byte_def)
  with stored show ?thesis ..
qed

text \<open>C26: the first pairing of all is undone or forgotten: on an erased EEPROM, whatever calls of the EEPROM fail and wherever
  they stop, after power comes back the journal is read as empty or as a pending pairing, never as corrupt.\<close>

theorem first_pairing_torn:
  assumes "blank (slot_page (fd_cells w) 0)" and "blank (slot_page (fd_cells w) 1)"
  shows "fst (board_storage_state working
      (board_boot fl (device (snd (board_begin_pair (flaky fails) (board_boot fl w)))))) \<in> {0, 3}"
proof -
  obtain ok s' where b: "board_begin_pair (flaky fails) (board_boot fl w) = (ok, s')" by (metis surj_pair)
  note k = flaky.begin_pair_blank [OF assms b, unfolded flaky.cells_def]
  show ?thesis
    using sound.sound_first [OF k, of fl] by (simp add: b board_storage_state_def Let_def)
qed

section \<open>Instances\<close>

definition erased :: flash_dev where
  "erased = \<lparr>fd_cells = \<lambda>i. 255, fd_ops = 0\<rparr>"

text \<open>An EEPROM whose slot 0 holds the record of a first pairing.\<close>

definition first_written :: flash_dev where
  "first_written = \<lparr>fd_cells = \<lambda>i. if slot_addr 0 \<le> i \<and> i < slot_addr 0 + STORE_SLOT_SIZE
     then first_journal ! (i - slot_addr 0) else 255, fd_ops = 0\<rparr>"

lemma first_journal_fields:
  "length first_journal = STORE_SLOT_SIZE" "store_valid first_journal" "page32 first_journal 4 = 1"
proof -
  let ?s = "board_boot fault_boot erased"
  have s: "staged_ok ?s" by (simp add: staged_ok_def board_boot_def)
  have e: "page_full (record_body 3 None 1 1 ?s) = first_journal"
    by (simp add: record_body_def first_journal_def board_boot_def)
  show "length first_journal = STORE_SLOT_SIZE" by (simp add: first_journal_def page_full_def page_sealed_def)
  show "store_valid first_journal" "page32 first_journal 4 = 1"
    using flaky.record_body_ok [OF s, where rec = None and st = 3 and counter = 1 and gen = 1] by (simp_all add: e)
qed

lemma first_written_newest: "newest (fd_cells first_written) = Some first_journal"
proof -
  have "slot_page (fd_cells first_written) 0 = first_journal"
    using first_journal_fields(1) by (intro nth_equalityI) (simp_all add: slot_page_def first_written_def)
  moreover have "blank (slot_page (fd_cells first_written) 1)"
    by (simp add: slot_page_def blank_cells first_written_def slot_addr_def)
  ultimately show ?thesis
    using blank_invalid first_journal_fields(2) by (simp add: newest_def Let_def store_valid_def)
qed

definition sample_record :: rbp_peer_record where
  "sample_record = \<lparr>pr_peer_id = 1, pr_name = replicate 48 65, pr_auto_reconnect = True\<rparr>"

definition sample_failures :: failures where
  "sample_failures n = (if n = 3 then Some (7, 5, 1) else None)"

theorem journal_never_lost_witness:
  "fst (board_storage_state working (board_boot fault_boot (device (fold (board_do (flaky sample_failures))
      [Save sample_record, Reboot, Begin_forget] (board_boot fault_boot first_written))))) \<in> {1, 2, 3}"
  by (rule journal_never_lost) (simp_all add: first_written_newest sample_record_def)

theorem store_save_atomic_witness:
  "let s = board_boot fault_boot first_written; s' = snd (store_save (flaky sample_failures) sample_record s);
       reload = \<lambda>t. fst (store_load working (board_boot fault_boot (device t)))
   in reload s' \<in> {reload s, fst (store_load (flaky sample_failures) s), Some (kept sample_record)}"
  using store_save_atomic [of first_written "[]" "board_boot fault_boot first_written" sample_failures fault_boot sample_record
      "fst (store_save (flaky sample_failures) sample_record (board_boot fault_boot first_written))"
      "snd (store_save (flaky sample_failures) sample_record (board_boot fault_boot first_written))"]
  by (simp add: first_written_newest sample_record_def Let_def)

theorem store_roundtrip_witness:
  "let s' = snd (store_save working sample_record (board_addr_stage working [1, 2, 3, 4, 5, 6] 1 (board_boot fault_boot first_written)))
   in fst (store_load working (board_boot fault_boot (device s'))) = Some (kept sample_record)
     \<and> fst (board_addr_load working (board_boot fault_boot (device s'))) = Some ([1, 2, 3, 4, 5, 6], 1)"
proof -
  let ?b = "board_boot fault_boot first_written" and ?a = "[1, 2, 3, 4, 5, 6] :: u8 list"
  let ?l = "load_slots working ?b"
  let ?s = "board_addr_stage working ?a 1 ?b"
  have l: "committed (fd_cells (device ?l)) ?l" "bd_current ?l = take 80 first_journal" "current_slot ?l \<noteq> None"
    using sound.sound_load(1,3) [OF first_written_newest, of fault_boot]
      flaky.load_newest(1) [of ?b first_journal "\<lambda>_. None"] first_written_newest
    by (auto simp: board_boot_def flaky.cells_def committed_def)
  have g: "record_generation ?s = 1"
    using l(2,3) first_journal_fields(1,3) by (auto simp: record_generation_def board_addr_stage_def)
  have s: "committed (fd_cells (device ?s)) ?s" "staged_ok ?s"
    using l(1) by (simp_all add: board_addr_stage_def committed_def staged_ok_def)
  have "fst (store_save working sample_record ?s)"
    by (rule save_works [OF s(1,2)]) (simp_all add: g sample_record_def)
  then have "store_save working sample_record ?s = (True, snd (store_save working sample_record ?s))"
    by (metis prod.collapse)
  from store_roundtrip [of first_written "[]" ?b "\<lambda>_. None" fault_boot sample_record ?a 1, OF _ _ _ _ _ _ this]
  show ?thesis by (simp add: first_written_newest sample_record_def Let_def)
qed

theorem first_pairing_torn_witness:
  "fst (board_storage_state working
      (board_boot fault_boot (device (snd (board_begin_pair (flaky sample_failures) (board_boot fault_boot erased)))))) \<in> {0, 3}"
  by (rule first_pairing_torn) (simp_all add: erased_def slot_page_def blank_cells)

section \<open>Two losses of power\<close>

text \<open>Power is lost while the second byte of a record is programmed.\<close>

definition torn :: "flash_dev board \<Rightarrow> failures" where
  "torn s n = (if n = fd_ops (device s) + 1 then Some (1, 0, 1) else None)"

definition with_stub :: "nat \<Rightarrow> (nat \<Rightarrow> u8) \<Rightarrow> nat \<Rightarrow> u8" where
  "with_stub a c i = (if i = a then 82 else if i = a + 1 then 66
     else if a \<le> i \<and> i < a + STORE_SLOT_SIZE then 255 else c i)"

lemma torn_record:
  assumes "bd_loaded s" and "storage_state s \<noteq> 255" and "record_generation s \<noteq> UINT32_MAX" and "staged_ok s"
    and "fd_ops (device s) = fd_ops (device r)"
  shows "fd_cells (device (snd (write_record (flaky (torn r)) st None n s)))
    = with_stub (slot_addr (next_slot s)) (fd_cells (device s))"
proof -
  let ?b = "record_body st None n (record_generation s + 1) s"
  have b: "length ?b = CRC_OFF" "?b ! 0 = 82" "?b ! 1 = 66"
    using assms(4) by (simp_all add: record_body_def page_body_def staged_ok_def cstr_def)
  obtain s' where s': "write_page (flaky (torn r)) (slot_addr (next_slot s)) ?b s = (False, s')"
    "fd_cells (device s') = with_stub (slot_addr (next_slot s)) (fd_cells (device s))"
    using torn_write_page [of "torn r" s ?b 82 66 "slot_addr (next_slot s)"] assms(5) b
    by (auto simp: torn_def with_stub_def fun_eq_iff)
  then show ?thesis using assms(1-3) by (simp add: write_record_def load_slots_def Let_def)
qed

definition stub :: "u8 list" where
  "stub = 82 # 66 # replicate 254 255"

lemma stub_page:
  assumes "i < 2" and "j < 2"
  shows "slot_page (with_stub (slot_addr i) c) j = (if i = j then stub else slot_page c j)"
proof (rule nth_equalityI)
  fix k assume "k < length (slot_page (with_stub (slot_addr i) c) j)"
  then have k: "k < STORE_SLOT_SIZE" by simp
  have "stub ! k = (if k = 0 then 82 else if k = 1 then 66 else 255 :: u8)"
    using k by (auto simp: stub_def nth_Cons')
  then show "slot_page (with_stub (slot_addr i) c) j ! k = (if i = j then stub else slot_page c j) ! k"
    using k assms by (auto simp: slot_page_def with_stub_def slot_addr_def less_2_cases_iff)
qed (simp add: stub_def)

lemma stub_magic: "take 4 stub \<noteq> cstr ''RBS2''"
proof
  assume "take 4 stub = cstr ''RBS2''"
  from arg_cong [OF this, of "\<lambda>x. x ! 2"] show False by (simp add: stub_def cstr_def)
qed

lemma stub_invalid:
  "\<not> store_valid stub" "\<not> blank stub"
  "over stub first_journal"
proof -
  show "\<not> store_valid stub" unfolding store_valid_def using stub_magic by blast
  show "\<not> blank stub" by (simp add: blank_def stub_def)
  have "first_journal ! 0 = 82" "first_journal ! 1 = 66"
    by (simp_all add: first_journal_def page_full_def page_sealed_def page_body_def cstr_def)
  then have "stub ! k AND first_journal ! k = first_journal ! k" if "k < STORE_SLOT_SIZE" for k
    using that by (cases "k = 0"; cases "k = 1") (auto simp: stub_def nth_Cons')
  then show "over stub first_journal"
    using first_journal_fields(1) by (simp add: over_def list_all2_conv_all_nth stub_def)
qed

text \<open>The first record is torn, and so is the record that undoes it: the second time the journal is read as corrupt, and stays
  so, for no call writes to a corrupt journal.\<close>

theorem journal_torn_twice:
  fixes fl
  defines "load \<equiv> \<lambda>w. load_slots working (board_boot fl w)"
  defines "s1 \<equiv> load erased"
  defines "s2 \<equiv> load (device (snd (board_begin_pair (flaky (torn s1)) s1)))"
  defines "s3 \<equiv> load (device (snd (store_clear (flaky (torn s2)) s2)))"
  shows "storage_state s1 = 0" "storage_state s2 = 3" "storage_state s3 = 255"
proof -
  let ?c0 = "\<lambda>i. 255 :: u8" and ?c1 = "with_stub (slot_addr 0) (\<lambda>i. 255)"
  let ?c2 = "with_stub (slot_addr 1) ?c1" and ?b = "board_boot fl erased"
  have e: "blank (slot_page (fd_cells erased) 0)" "blank (slot_page (fd_cells erased) 1)"
    by (simp_all add: erased_def slot_page_def blank_cells)
  have blank: "blank (slot_page ?c0 i)" for i by (simp add: slot_page_def blank_cells)
  show 1: "storage_state s1 = 0" unfolding s1_def load_def by (rule sound.sound_blank [OF e])
  have f: "fd_cells (device s1) = ?c0" "bd_loaded s1" "same_ram (?b\<lparr>bd_loaded := True, storage_state := 0\<rparr>) s1"
    using flaky.load_blank [of ?b "\<lambda>_. None"] e 1
    by (simp_all add: s1_def load_def flaky.cells_def board_boot_def erased_def)
  note g = same_ram_fields [OF f(3)]
  let ?s = "s1\<lparr>staged_valid := False, staged_hid_flags := 255\<rparr>"
  have "board_begin_pair (flaky (torn s1)) s1 = write_record (flaky (torn s1)) 3 None 1 ?s"
    using f(2) g 1 by (simp add: board_begin_pair_def load_slots_def Let_def peer_counter_def board_boot_def)
  then have c1: "fd_cells (device (snd (board_begin_pair (flaky (torn s1)) s1))) = ?c1"
    using torn_record [of ?s s1 3 1] f(1,2) g 1
    by (simp add: record_generation_def next_slot_def staged_ok_def board_boot_def)
  have p1: "slot_page ?c1 0 = stub" "slot_page ?c1 1 = slot_page ?c0 1"
    using stub_page [of 0 0] stub_page [of 0 1] by simp_all
  have n1: "newest ?c1 = None" "\<not> peer_pending ?c1 0" "\<not> peer_pending ?c1 1"
    using p1 stub_invalid(1) blank_invalid [OF blank, of 1]
    using stub_magic by (simp_all add: newest_def peer_pending_def Let_def store_valid_def)
  obtain t where t: "bd_loaded t" "fd_cells (device t) = ?c1" "staged_ok t"
    "s2 = t\<lparr>bd_current := take 80 first_journal, current_slot := Some 0, storage_state := 3\<rparr>"
    unfolding s2_def load_def
    by (rule sound.sound_dirty [of "device (snd (board_begin_pair (flaky (torn s1)) s1))" fl, unfolded c1 flaky.cells_def])
      (use n1 p1 stub_invalid blank in simp_all)
  then show "storage_state s2 = 3" by simp
  let ?u = "s2\<lparr>staged_valid := False\<rparr>"
  have "store_clear (flaky (torn s2)) s2 = write_record (flaky (torn s2)) 1 None (peer_counter ?u) ?u"
    using t by (simp add: store_clear_def board_peer_counter_def load_slots_def Let_def)
  moreover have "record_generation ?u = 1" using t(4) first_journal_fields by (simp add: record_generation_def)
  ultimately have c2: "fd_cells (device (snd (store_clear (flaky (torn s2)) s2))) = ?c2"
    using torn_record [of ?u s2 1 "peer_counter ?u"] t by (simp add: next_slot_def staged_ok_def)
  have p2: "slot_page ?c2 0 = stub" "slot_page ?c2 1 = stub"
    using stub_page [of 1 0] stub_page [of 1 1] p1 by simp_all
  have n2: "newest ?c2 = None" "\<not> peer_pending ?c2 0" "\<not> peer_pending ?c2 1"
    using p2 stub_invalid(1) stub_magic by (simp_all add: newest_def peer_pending_def Let_def)
  show "storage_state s3 = 255"
    unfolding s3_def load_def
    by (rule sound.sound_dirty [of "device (snd (store_clear (flaky (torn s2)) s2))" fl, unfolded c2 flaky.cells_def])
      (use n2 p2 stub_invalid in simp_all)
qed

end
