(* ===== verification/Gatt.thy ===== *)
theory Gatt
  imports Adapter_State
begin

text \<open>
  The GATT client of the firmware (\<open>src/firmware/wch/wch_gatt.c\<close>): it submits one procedure at a time to the
  vendor's Bluetooth library and translates the library's messages into the events of
  \<open>gatt_client.h\<close>. The statics of the file are the record \<open>gatt\<close>. The library is the parameter \<open>gatt_sdk\<close>. The
  layer above, which an event may call back into the client, is the parameter \<open>gatt_host\<close>: it
  owns the whole state \<open>'s\<close>, of which the client's statics are a part.
\<close>

section \<open>State\<close>

datatype gop =
    GOP_NONE | GOP_EXCHANGE_MTU | GOP_DISC_SVC | GOP_READ_CHARS | GOP_DISC_DESCS
  | GOP_READ_VALUE | GOP_READ_LONG | GOP_WRITE | GOP_FAILED

fun gop_code :: "gop \<Rightarrow> u16" where
  "gop_code GOP_NONE = 0"
| "gop_code GOP_EXCHANGE_MTU = 1"
| "gop_code GOP_DISC_SVC = 2"
| "gop_code GOP_READ_CHARS = 3"
| "gop_code GOP_DISC_DESCS = 4"
| "gop_code GOP_READ_VALUE = 5"
| "gop_code GOP_READ_LONG = 6"
| "gop_code GOP_WRITE = 7"
| "gop_code GOP_FAILED = 8"

abbreviation (input) SUCCESS :: u8 where "SUCCESS \<equiv> 0"
abbreviation (input) MSG_BUFFER_NOT_AVAIL :: u8 where "MSG_BUFFER_NOT_AVAIL \<equiv> 0x04"
abbreviation (input) bleMemAllocError :: u8 where "bleMemAllocError \<equiv> 0x13"
abbreviation (input) bleNoResources :: u8 where "bleNoResources \<equiv> 0x15"
abbreviation (input) blePending :: u8 where "blePending \<equiv> 0x16"
abbreviation (input) bleTimeout :: u8 where "bleTimeout \<equiv> 0x17"
abbreviation (input) bleProcedureComplete :: u8 where "bleProcedureComplete \<equiv> 0x1A"
abbreviation (input) ATT_MTU_SIZE :: u16 where "ATT_MTU_SIZE \<equiv> 23"
abbreviation (input) GAP_CONNHANDLE_INIT :: u16 where "GAP_CONNHANDLE_INIT \<equiv> 0xFFFE"
abbreviation (input) ATT_ERR_INVALID_PDU :: u8 where "ATT_ERR_INVALID_PDU \<equiv> 0x04"
abbreviation (input) ATT_ERR_INVALID_OFFSET :: u8 where "ATT_ERR_INVALID_OFFSET \<equiv> 0x07"
abbreviation (input) ATT_ERR_ATTR_NOT_FOUND :: u8 where "ATT_ERR_ATTR_NOT_FOUND \<equiv> 0x0A"
abbreviation (input) ATT_ERR_INVALID_VALUE_SIZE :: u8 where "ATT_ERR_INVALID_VALUE_SIZE \<equiv> 0x0D"
abbreviation (input) RBP_FAULT_GATT_API :: u16 where "RBP_FAULT_GATT_API \<equiv> 3"
abbreviation (input) RBP_FAULT_GATT_EVENT :: u16 where "RBP_FAULT_GATT_EVENT \<equiv> 4"
abbreviation (input) RBP_FAULT_ATT :: u16 where "RBP_FAULT_ATT \<equiv> 5"

record 'k gatt =
  g_conn_handle :: u16
  neg_mtu :: u16
  cur_op :: gop
  generation :: u32
  read_offset :: u16
  g_found_service :: bool
  pending_start :: u16
  pending_end :: u16
  g_faults :: fault_state
  g_sdk :: 'k

text \<open>The procedures of the library, with the connection handle first.\<close>

datatype sdk_request =
    GATT_ExchangeMTU u16 u16
  | GATT_DiscPrimaryServiceByUUID u16 "u8 list"
  | GATT_DiscCharsByUUID u16 u16 u16 "u8 list"
  | GATT_DiscAllCharDescs u16 u16 u16
  | GATT_ReadCharValue u16 u16
  | GATT_ReadLongCharValue u16 u16 u16
  | GATT_WriteCharValue u16 u16 "u8 list"
  | GATT_WriteNoRsp u16 u16 "u8 list"

record 'k gatt_sdk =
  sdk_submit :: "sdk_request \<Rightarrow> 'k \<Rightarrow> u8 \<times> 'k"
  GATT_bm_alloc :: "u16 \<Rightarrow> nat \<Rightarrow> 'k \<Rightarrow> bool \<times> 'k"
  GATT_bm_free :: "'k \<Rightarrow> 'k"
  ATT_HandleValueCfm :: "u16 \<Rightarrow> 'k \<Rightarrow> u8 \<times> 'k"

section \<open>Submitting\<close>

definition gatt_log :: "u16 \<Rightarrow> u16 \<Rightarrow> u32 \<Rightarrow> u32 \<Rightarrow> 'k gatt \<Rightarrow> 'k gatt" where
  "gatt_log domain stage code ctxt g = g\<lparr>g_faults := rbp_fault_record domain stage code ctxt (g_faults g)\<rparr>"

definition rejected :: "gop \<Rightarrow> u8 \<Rightarrow> 'k gatt \<Rightarrow> int \<times> 'k gatt" where
  "rejected op status g =
     (if status = SUCCESS then (0, g)
      else (if status \<in> {blePending, bleMemAllocError, bleNoResources, MSG_BUFFER_NOT_AVAIL}
            then RBP_GATT_RETRY else -1, gatt_log RBP_FAULT_GATT_API (gop_code op) (ucast status) 0 g))"

definition wch_gatt_set_conn :: "u16 \<Rightarrow> 'k gatt \<Rightarrow> 'k gatt" where
  "wch_gatt_set_conn h g =
     g\<lparr>g_conn_handle := h, cur_op := (if h = GAP_CONNHANDLE_INIT then GOP_FAILED else GOP_NONE),
       neg_mtu := ATT_MTU_SIZE, generation := generation g + 1\<rparr>"

definition wch_gatt_quiesce :: "'k gatt \<Rightarrow> 'k gatt" where
  "wch_gatt_quiesce g = g\<lparr>cur_op := GOP_FAILED, generation := generation g + 1\<rparr>"

text \<open>The guard at the head of every operation.\<close>

definition op_blocked :: "'k gatt \<Rightarrow> int option" where
  "op_blocked g = (case cur_op g of GOP_FAILED \<Rightarrow> Some (-1) | GOP_NONE \<Rightarrow> None | _ \<Rightarrow> Some RBP_GATT_RETRY)"

text \<open>The request and, once the library has accepted it, the bookkeeping.\<close>

definition op_submit :: "'k gatt_sdk \<Rightarrow> gop \<Rightarrow> sdk_request \<Rightarrow> ('k gatt \<Rightarrow> 'k gatt) \<Rightarrow> 'k gatt \<Rightarrow> int \<times> 'k gatt" where
  "op_submit S op req note_it g =
     (let (status, k) = sdk_submit S req (g_sdk g); (rc, g) = rejected op status (g\<lparr>g_sdk := k\<rparr>)
      in if rc \<noteq> 0 then (rc, g) else (0, note_it (g\<lparr>generation := generation g + 1, cur_op := op\<rparr>)))"

definition pending_range :: "u16 \<Rightarrow> u16 \<Rightarrow> 'k gatt \<Rightarrow> 'k gatt" where
  "pending_range lo hi g = g\<lparr>pending_start := lo, pending_end := hi\<rparr>"

definition op_exchange_mtu :: "'k gatt_sdk \<Rightarrow> u16 \<Rightarrow> 'k gatt \<Rightarrow> int \<times> 'k gatt" where
  "op_exchange_mtu S mtu g =
     (case op_blocked g of Some rc \<Rightarrow> (rc, g)
      | None \<Rightarrow> op_submit S GOP_EXCHANGE_MTU (GATT_ExchangeMTU (g_conn_handle g) mtu) (\<lambda>g. g) g)"

definition op_disc_service :: "'k gatt_sdk \<Rightarrow> u8 list \<Rightarrow> 'k gatt \<Rightarrow> int \<times> 'k gatt" where
  "op_disc_service S uuid g =
     (case op_blocked g of Some rc \<Rightarrow> (rc, g)
      | None \<Rightarrow> op_submit S GOP_DISC_SVC (GATT_DiscPrimaryServiceByUUID (g_conn_handle g) uuid)
                  (\<lambda>g. pending_range 1 0xFFFF (g\<lparr>g_found_service := False\<rparr>)) g)"

definition uuid16_bytes :: "u16 \<Rightarrow> u8 list" where
  "uuid16_bytes u = [ucast u, ucast (drop_bit 8 u)]"

definition op_read_chars :: "'k gatt_sdk \<Rightarrow> u16 \<Rightarrow> u16 \<Rightarrow> u8 list \<Rightarrow> 'k gatt \<Rightarrow> int \<times> 'k gatt" where
  "op_read_chars S lo hi uuid g =
     (case op_blocked g of Some rc \<Rightarrow> (rc, g)
      | None \<Rightarrow> op_submit S GOP_READ_CHARS (GATT_DiscCharsByUUID (g_conn_handle g) lo hi uuid)
                  (pending_range lo hi) g)"

definition op_disc_descs :: "'k gatt_sdk \<Rightarrow> u16 \<Rightarrow> u16 \<Rightarrow> 'k gatt \<Rightarrow> int \<times> 'k gatt" where
  "op_disc_descs S lo hi g =
     (case op_blocked g of Some rc \<Rightarrow> (rc, g)
      | None \<Rightarrow> op_submit S GOP_DISC_DESCS (GATT_DiscAllCharDescs (g_conn_handle g) lo hi)
                  (pending_range lo hi) g)"

definition op_read_value :: "'k gatt_sdk \<Rightarrow> u16 \<Rightarrow> 'k gatt \<Rightarrow> int \<times> 'k gatt" where
  "op_read_value S handle g =
     (case op_blocked g of Some rc \<Rightarrow> (rc, g)
      | None \<Rightarrow> op_submit S GOP_READ_VALUE (GATT_ReadCharValue (g_conn_handle g) handle)
                  (pending_range handle handle) g)"

definition op_read_long :: "'k gatt_sdk \<Rightarrow> u16 \<Rightarrow> u16 \<Rightarrow> 'k gatt \<Rightarrow> int \<times> 'k gatt" where
  "op_read_long S handle offset g =
     (case op_blocked g of Some rc \<Rightarrow> (rc, g)
      | None \<Rightarrow> op_submit S GOP_READ_LONG (GATT_ReadLongCharValue (g_conn_handle g) handle offset)
                  (\<lambda>g. pending_range handle handle (g\<lparr>read_offset := offset\<rparr>)) g)"

text \<open>A write needs a buffer of the library; a refused one is given back.\<close>

definition with_buffer :: "'k gatt_sdk \<Rightarrow> gop \<Rightarrow> nat \<Rightarrow> ('k gatt \<Rightarrow> int \<times> 'k gatt) \<Rightarrow> 'k gatt \<Rightarrow> int \<times> 'k gatt" where
  "with_buffer S op len submit_it g =
     (let (ok, k) = GATT_bm_alloc S (g_conn_handle g) len (g_sdk g); g = g\<lparr>g_sdk := k\<rparr> in
      if \<not> ok then (RBP_GATT_RETRY, gatt_log RBP_FAULT_GATT_API (gop_code op) (ucast bleMemAllocError) 0 g)
      else let (rc, g) = submit_it g
           in if rc \<noteq> 0 then (rc, g\<lparr>g_sdk := GATT_bm_free S (g_sdk g)\<rparr>) else (0, g))"

definition op_write :: "'k gatt_sdk \<Rightarrow> u16 \<Rightarrow> u8 list \<Rightarrow> 'k gatt \<Rightarrow> int \<times> 'k gatt" where
  "op_write S handle val g =
     (case op_blocked g of Some rc \<Rightarrow> (rc, g)
      | None \<Rightarrow> with_buffer S GOP_WRITE (length val)
                  (op_submit S GOP_WRITE (GATT_WriteCharValue (g_conn_handle g) handle val)
                     (pending_range handle handle)) g)"

text \<open>A command has no response: it leaves no procedure in flight.\<close>

definition op_command :: "'k gatt_sdk \<Rightarrow> u16 \<Rightarrow> u8 list \<Rightarrow> 'k gatt \<Rightarrow> int \<times> 'k gatt" where
  "op_command S handle val g =
     (case op_blocked g of Some rc \<Rightarrow> (rc, g)
      | None \<Rightarrow>
          if length val + 3 > unat (neg_mtu g) then (-1, g)
          else with_buffer S GOP_NONE (length val)
                 (\<lambda>g. let (status, k) = sdk_submit S (GATT_WriteNoRsp (g_conn_handle g) handle val) (g_sdk g)
                      in rejected GOP_NONE status (g\<lparr>g_sdk := k\<rparr>)) g)"

definition k_gatt :: "'k gatt_sdk \<Rightarrow> gatt_op \<Rightarrow> 'k gatt \<Rightarrow> int \<times> 'k gatt" where
  "k_gatt S op =
     (case op of
        Exchange_mtu mtu \<Rightarrow> op_exchange_mtu S mtu
      | Disc_service_by_uuid16 u \<Rightarrow> op_disc_service S (uuid16_bytes u)
      | Disc_service_by_uuid128 u \<Rightarrow> op_disc_service S u
      | Read_chars_by_uuid16 a b u \<Rightarrow> op_read_chars S a b (uuid16_bytes u)
      | Read_chars_by_uuid128 a b u \<Rightarrow> op_read_chars S a b u
      | Disc_char_descs a b \<Rightarrow> op_disc_descs S a b
      | Read_value h \<Rightarrow> op_read_value S h
      | Read_long_value h off \<Rightarrow> op_read_long S h off
      | Write_value h v \<Rightarrow> op_write S h v
      | Write_command h v \<Rightarrow> op_command S h v)"

section \<open>Messages of the library\<close>

text \<open>A message with its payload: sizes as the library states them, and the buffer or a null pointer.\<close>

datatype att_msg =
    ATT_ERROR_RSP u8 u16 u8
  | ATT_EXCHANGE_MTU_RSP u16
  | ATT_FIND_INFO_RSP nat u8 "u8 list option"
  | ATT_FIND_BY_TYPE_VALUE_RSP nat "u8 list option"
  | ATT_READ_BY_TYPE_RSP nat nat "u8 list option"
  | ATT_READ_RSP nat "u8 list option"
  | ATT_READ_BLOB_RSP nat "u8 list option"
  | ATT_WRITE_RSP
  | ATT_HANDLE_VALUE_NOTI u16 nat "u8 list option"
  | ATT_HANDLE_VALUE_IND u16 nat "u8 list option"
  | ATT_FLOW_CTRL_VIOLATED_EVENT
  | ATT_MTU_UPDATED_EVENT
  | ATT_OTHER u8

fun gm_method :: "att_msg \<Rightarrow> u8" where
  "gm_method (ATT_ERROR_RSP _ _ _) = 0x01"
| "gm_method (ATT_EXCHANGE_MTU_RSP _) = 0x03"
| "gm_method (ATT_FIND_INFO_RSP _ _ _) = 0x05"
| "gm_method (ATT_FIND_BY_TYPE_VALUE_RSP _ _) = 0x07"
| "gm_method (ATT_READ_BY_TYPE_RSP _ _ _) = 0x09"
| "gm_method (ATT_READ_RSP _ _) = 0x0B"
| "gm_method (ATT_READ_BLOB_RSP _ _) = 0x0D"
| "gm_method ATT_WRITE_RSP = 0x13"
| "gm_method (ATT_HANDLE_VALUE_NOTI _ _ _) = 0x1B"
| "gm_method (ATT_HANDLE_VALUE_IND _ _ _) = 0x1D"
| "gm_method ATT_FLOW_CTRL_VIOLATED_EVENT = 0x7E"
| "gm_method ATT_MTU_UPDATED_EVENT = 0x7F"
| "gm_method (ATT_OTHER m) = m"

record gatt_msg =
  gm_conn :: u16
  gm_status :: u8
  gm_body :: att_msg

record ('s, 'k) gatt_host =
  gh_get :: "'s \<Rightarrow> 'k gatt"
  gh_upd :: "('k gatt \<Rightarrow> 'k gatt) \<Rightarrow> 's \<Rightarrow> 's"
  gh_emit :: "rbp_gatt_evt \<Rightarrow> 's \<Rightarrow> 's"
  gh_mtu :: u16
  gh_sdk :: "'k gatt_sdk"

definition evt_zero :: rbp_gatt_evt where
  "evt_zero = \<lparr>ge_type = RBP_GATT_EVT_MTU_UPDATED, ge_handle = 0, ge_svc_start = 0, ge_svc_end = 0,
     ge_desc_handle = 0, ge_uuid16 = 0, ge_offset = 0, ge_status = 0, ge_proc_complete = False,
     ge_value = None\<rparr>"

definition bearer_failed :: "('s, 'k) gatt_host \<Rightarrow> u8 \<Rightarrow> 's \<Rightarrow> 's" where
  "bearer_failed H status s =
     gh_emit H (evt_zero\<lparr>ge_type := RBP_GATT_EVT_BEARER_FAILED, ge_status := status\<rparr>)
       (gh_upd H (\<lambda>g. (gatt_log RBP_FAULT_GATT_EVENT (gop_code (cur_op g)) (ucast status) 0 g)
                      \<lparr>generation := generation g + 1, cur_op := GOP_FAILED\<rparr>) s)"

definition emit_done :: "('s, 'k) gatt_host \<Rightarrow> 's \<Rightarrow> 's" where
  "emit_done H s =
     gh_emit H (evt_zero\<lparr>ge_type := RBP_GATT_EVT_PROC_DONE\<rparr>)
       (gh_upd H (\<lambda>g. g\<lparr>generation := generation g + 1, cur_op := GOP_NONE\<rparr>) s)"

definition emit_error :: "('s, 'k) gatt_host \<Rightarrow> u8 \<Rightarrow> 's \<Rightarrow> 's" where
  "emit_error H status s =
     gh_emit H (evt_zero\<lparr>ge_type := RBP_GATT_EVT_PROC_ERROR, ge_status := status\<rparr>)
       (gh_upd H (\<lambda>g. (gatt_log RBP_FAULT_ATT (gop_code (cur_op g)) (ucast status) 0 g)
                      \<lparr>generation := generation g + 1, cur_op := GOP_NONE\<rparr>) s)"

text \<open>An event that ends its procedure: the client is free before the layer above hears of it.\<close>

definition emit_free :: "('s, 'k) gatt_host \<Rightarrow> rbp_gatt_evt \<Rightarrow> 's \<Rightarrow> 's" where
  "emit_free H e s = gh_emit H e (gh_upd H (\<lambda>g. g\<lparr>cur_op := GOP_NONE\<rparr>) s)"

fun expected_request :: "gop \<Rightarrow> u8" where
  "expected_request GOP_EXCHANGE_MTU = 0x02"
| "expected_request GOP_DISC_SVC = 0x06"
| "expected_request GOP_READ_CHARS = 0x08"
| "expected_request GOP_DISC_DESCS = 0x04"
| "expected_request GOP_READ_VALUE = 0x0A"
| "expected_request GOP_READ_LONG = 0x0C"
| "expected_request GOP_WRITE = 0x12"
| "expected_request _ = 0"

fun response_method :: "gop \<Rightarrow> u8" where
  "response_method GOP_EXCHANGE_MTU = 0x03"
| "response_method GOP_DISC_SVC = 0x07"
| "response_method GOP_READ_CHARS = 0x09"
| "response_method GOP_DISC_DESCS = 0x05"
| "response_method GOP_READ_VALUE = 0x0B"
| "response_method GOP_READ_LONG = 0x0D"
| "response_method GOP_WRITE = 0x13"
| "response_method _ = 0"

text \<open>An error response that does not belong to the procedure in flight.\<close>

definition foreign_error :: "u8 \<Rightarrow> u16 \<Rightarrow> 'k gatt \<Rightarrow> bool" where
  "foreign_error req handle g \<longleftrightarrow>
     (let e = expected_request (cur_op g)
      in e = 0 \<or> req \<noteq> e \<or> (cur_op g \<noteq> GOP_EXCHANGE_MTU \<and> (handle < pending_start g \<or> handle > pending_end g)))"

definition on_value :: "('s, 'k) gatt_host \<Rightarrow> bool \<Rightarrow> u16 \<Rightarrow> nat \<Rightarrow> u8 list option \<Rightarrow> u8 \<Rightarrow> 's \<Rightarrow> 's" where
  "on_value H indication handle len val status s =
     (if status \<noteq> SUCCESS then bearer_failed H status s
      else if len + 3 > unat (neg_mtu (gh_get H s)) \<or> (len \<noteq> 0 \<and> val = None)
      then bearer_failed H ATT_ERR_INVALID_VALUE_SIZE s
      else
        gh_emit H (evt_zero\<lparr>ge_type := RBP_GATT_EVT_NOTIFY, ge_handle := handle, ge_value := map_option (take len) val\<rparr>)
          (if indication then
             gh_upd H (\<lambda>g. let (st, k) = ATT_HandleValueCfm (gh_sdk H) (g_conn_handle g) (g_sdk g);
                               g = g\<lparr>g_sdk := k\<rparr>
                           in if st \<noteq> SUCCESS then gatt_log RBP_FAULT_GATT_API 9 (ucast st) 0 g else g) s
           else s))"

text \<open>The length checks before any payload is read.\<close>

definition malformed :: "'k gatt \<Rightarrow> att_msg \<Rightarrow> bool" where
  "malformed g body =
     (let mtu = unat (neg_mtu g) in
      case body of
        ATT_FIND_BY_TYPE_VALUE_RSP n p \<Rightarrow> (n \<noteq> 0 \<and> p = None) \<or> n > (mtu - 1) div 4
      | ATT_FIND_INFO_RSP n format p \<Rightarrow>
          n \<noteq> 0 \<and> ((format \<noteq> 1 \<and> format \<noteq> 2) \<or> p = None \<or> n > (mtu - 2) div (if format = 1 then 4 else 18))
      | ATT_READ_RSP len p \<Rightarrow> len + 1 > mtu \<or> (len \<noteq> 0 \<and> p = None)
      | ATT_READ_BLOB_RSP len p \<Rightarrow>
          len + 1 > mtu \<or> (len \<noteq> 0 \<and> p = None) \<or> len > 65535 - unat (read_offset g)
      | _ \<Rightarrow> False)"

text \<open>The events of a batch, as long as no event has moved the client on.\<close>

fun emit_batch :: "('s, 'k) gatt_host \<Rightarrow> u32 \<Rightarrow> rbp_gatt_evt list \<Rightarrow> 's \<Rightarrow> bool \<times> 's" where
  "emit_batch H old [] s = (True, s)"
| "emit_batch H old (e # es) s =
     (let s = gh_emit H e s
      in if generation (gh_get H s) \<noteq> old then (False, s) else emit_batch H old es s)"

definition rsp_mtu :: "('s, 'k) gatt_host \<Rightarrow> u32 \<Rightarrow> att_msg \<Rightarrow> 's \<Rightarrow> 's" where
  "rsp_mtu H old body s =
     (case body of
        ATT_EXCHANGE_MTU_RSP server \<Rightarrow>
          let mtu = (if server > gh_mtu H then gh_mtu H else server);
              s = gh_upd H (\<lambda>g. g\<lparr>neg_mtu := mtu\<rparr>) s
          in if mtu < 23 then bearer_failed H ATT_ERR_INVALID_VALUE_SIZE s
             else
               let s = emit_free H (evt_zero\<lparr>ge_type := RBP_GATT_EVT_MTU_UPDATED\<rparr>) s
               in if generation (gh_get H s) = old then emit_done H s else s
      | ATT_ERROR_RSP _ _ err \<Rightarrow> emit_error H err s
      | _ \<Rightarrow> s)"

definition att_handle :: "u8 list \<Rightarrow> nat \<Rightarrow> u16" where
  "att_handle d i = ucast (d ! i) OR push_bit 8 (ucast (d ! (i + 1)))"

definition rsp_service :: "('s, 'k) gatt_host \<Rightarrow> u32 \<Rightarrow> bool \<Rightarrow> att_msg \<Rightarrow> 's \<Rightarrow> 's" where
  "rsp_service H old complete body s =
     (case body of
        ATT_FIND_BY_TYPE_VALUE_RSP n (Some d) \<Rightarrow>
          let (go_on, s) =
            (if n > 0 \<and> \<not> g_found_service (gh_get H s) then
               emit_batch H old [evt_zero\<lparr>ge_type := RBP_GATT_EVT_SERVICE_FOUND, ge_svc_start := att_handle d 0,
                   ge_svc_end := att_handle d 2\<rparr>] (gh_upd H (\<lambda>g. g\<lparr>g_found_service := True\<rparr>) s)
             else (True, s))
          in if go_on \<and> complete then emit_done H s else s
      | ATT_FIND_BY_TYPE_VALUE_RSP n None \<Rightarrow> if complete then emit_done H s else s
      | ATT_ERROR_RSP _ _ err \<Rightarrow>
          if err \<noteq> ATT_ERR_ATTR_NOT_FOUND then emit_error H err s
          else if g_found_service (gh_get H s) then emit_done H s
          else emit_free H (evt_zero\<lparr>ge_type := RBP_GATT_EVT_SERVICE_NOT_FOUND\<rparr>) s
      | _ \<Rightarrow> s)"

text \<open>The error that ends a discovery is not an error.\<close>

definition discovery_error :: "('s, 'k) gatt_host \<Rightarrow> u8 \<Rightarrow> 's \<Rightarrow> 's" where
  "discovery_error H err s = (if err = ATT_ERR_ATTR_NOT_FOUND then emit_done H s else emit_error H err s)"

definition char_events :: "bool \<Rightarrow> nat \<Rightarrow> nat \<Rightarrow> u8 list \<Rightarrow> rbp_gatt_evt list" where
  "char_events complete n len d =
     map (\<lambda>i. let c = take len (drop (i * len) d)
              in evt_zero\<lparr>ge_type := RBP_GATT_EVT_CHARS_FOUND, ge_handle := att_handle c 0,
                   ge_value := Some (drop 2 c), ge_proc_complete := complete \<and> i + 1 = n\<rparr>) [0..<n]"

definition rsp_chars :: "('s, 'k) gatt_host \<Rightarrow> u32 \<Rightarrow> bool \<Rightarrow> att_msg \<Rightarrow> 's \<Rightarrow> 's" where
  "rsp_chars H old complete body s =
     (case body of
        ATT_READ_BY_TYPE_RSP n len p \<Rightarrow>
          if n > 0 \<and> ((len \<noteq> 7 \<and> len \<noteq> 21) \<or> p = None \<or> n > (unat (neg_mtu (gh_get H s)) - 2) div len)
          then bearer_failed H ATT_ERR_INVALID_VALUE_SIZE s
          else
            let (go_on, s) = (case p of Some d \<Rightarrow> emit_batch H old (char_events complete n len d) s
                              | None \<Rightarrow> (True, s))
            in if go_on \<and> complete then emit_done H s else s
      | ATT_ERROR_RSP _ _ err \<Rightarrow> discovery_error H err s
      | _ \<Rightarrow> s)"

definition desc_events :: "bool \<Rightarrow> nat \<Rightarrow> u8 list \<Rightarrow> rbp_gatt_evt list" where
  "desc_events complete n d =
     map (\<lambda>i. let c = take 4 (drop (i * 4) d)
              in evt_zero\<lparr>ge_type := RBP_GATT_EVT_DESC_FOUND, ge_desc_handle := att_handle c 0,
                   ge_uuid16 := att_handle c 2, ge_proc_complete := complete \<and> i + 1 = n\<rparr>) [0..<n]"

definition rsp_descs :: "('s, 'k) gatt_host \<Rightarrow> u32 \<Rightarrow> bool \<Rightarrow> att_msg \<Rightarrow> 's \<Rightarrow> 's" where
  "rsp_descs H old complete body s =
     (case body of
        ATT_FIND_INFO_RSP n format p \<Rightarrow>
          let (go_on, s) = (case p of
              Some d \<Rightarrow> if format = 1 then emit_batch H old (desc_events complete n d) s else (True, s)
            | None \<Rightarrow> (True, s))
          in if go_on \<and> complete then emit_done H s else s
      | ATT_ERROR_RSP _ _ err \<Rightarrow> discovery_error H err s
      | _ \<Rightarrow> s)"

definition rsp_read :: "('s, 'k) gatt_host \<Rightarrow> att_msg \<Rightarrow> 's \<Rightarrow> 's" where
  "rsp_read H body s =
     (case body of
        ATT_READ_RSP len p \<Rightarrow>
          emit_free H (evt_zero\<lparr>ge_type := RBP_GATT_EVT_READ_RSP, ge_value := map_option (take len) p,
            ge_proc_complete := len + 1 < unat (neg_mtu (gh_get H s))\<rparr>) s
      | ATT_ERROR_RSP _ _ err \<Rightarrow> emit_error H err s
      | _ \<Rightarrow> s)"

definition rsp_read_long :: "('s, 'k) gatt_host \<Rightarrow> bool \<Rightarrow> att_msg \<Rightarrow> 's \<Rightarrow> 's" where
  "rsp_read_long H complete body s =
     (let off = read_offset (gh_get H s) in
      case body of
        ATT_READ_BLOB_RSP len p \<Rightarrow>
          gh_emit H (evt_zero\<lparr>ge_type := RBP_GATT_EVT_READ_RSP, ge_value := map_option (take len) p,
            ge_offset := off, ge_proc_complete := complete\<rparr>)
            (gh_upd H (\<lambda>g. g\<lparr>read_offset := off + of_nat len,
                             cur_op := (if complete then GOP_NONE else cur_op g)\<rparr>) s)
      | ATT_ERROR_RSP _ _ err \<Rightarrow>
          if err = ATT_ERR_INVALID_OFFSET \<and> off \<noteq> 0
          then emit_free H (evt_zero\<lparr>ge_type := RBP_GATT_EVT_READ_RSP, ge_offset := off, ge_proc_complete := True\<rparr>) s
          else emit_error H err s
      | _ \<Rightarrow> s)"

definition rsp_write :: "('s, 'k) gatt_host \<Rightarrow> u32 \<Rightarrow> att_msg \<Rightarrow> 's \<Rightarrow> 's" where
  "rsp_write H old body s =
     (case body of
        ATT_WRITE_RSP \<Rightarrow>
          let s = emit_free H (evt_zero\<lparr>ge_type := RBP_GATT_EVT_WRITE_DONE\<rparr>) s
          in if generation (gh_get H s) = old then emit_done H s else s
      | ATT_ERROR_RSP _ _ err \<Rightarrow> emit_error H err s
      | _ \<Rightarrow> s)"

definition is_error_rsp :: "att_msg \<Rightarrow> bool" where
  "is_error_rsp body \<longleftrightarrow> (case body of ATT_ERROR_RSP _ _ _ \<Rightarrow> True | _ \<Rightarrow> False)"

definition unexpected :: "gop \<Rightarrow> u8 \<Rightarrow> att_msg \<Rightarrow> bool" where
  "unexpected op status body \<longleftrightarrow>
     (gm_method body \<noteq> response_method op \<and> \<not> is_error_rsp body)
     \<or> (status \<noteq> SUCCESS \<and> status \<noteq> bleProcedureComplete)
     \<or> (status = bleProcedureComplete \<and> op \<notin> {GOP_DISC_SVC, GOP_READ_CHARS, GOP_DISC_DESCS, GOP_READ_LONG})"

definition on_response :: "('s, 'k) gatt_host \<Rightarrow> u8 \<Rightarrow> att_msg \<Rightarrow> 's \<Rightarrow> 's" where
  "on_response H status body s =
     (let g = gh_get H s; op = cur_op g; old = generation g; complete = (status = bleProcedureComplete) in
      if op = GOP_NONE then s
      else if unexpected op status body then bearer_failed H ATT_ERR_INVALID_PDU s
      else if malformed g body then bearer_failed H ATT_ERR_INVALID_VALUE_SIZE s
      else case op of
        GOP_EXCHANGE_MTU \<Rightarrow> rsp_mtu H old body s
      | GOP_DISC_SVC \<Rightarrow> rsp_service H old complete body s
      | GOP_READ_CHARS \<Rightarrow> rsp_chars H old complete body s
      | GOP_DISC_DESCS \<Rightarrow> rsp_descs H old complete body s
      | GOP_READ_VALUE \<Rightarrow> rsp_read H body s
      | GOP_READ_LONG \<Rightarrow> rsp_read_long H complete body s
      | GOP_WRITE \<Rightarrow> rsp_write H old body s
      | _ \<Rightarrow> s)"

text \<open>The error response and the timeout are looked at first; \<open>None\<close> lets the message pass.\<close>

definition on_error_rsp :: "('s, 'k) gatt_host \<Rightarrow> u8 \<Rightarrow> att_msg \<Rightarrow> 's \<Rightarrow> bool \<times> 's" where
  "on_error_rsp H status body s =
     (case body of
        ATT_ERROR_RSP req handle err \<Rightarrow>
          if status \<noteq> SUCCESS then (False, s)
          else
            let op = cur_op (gh_get H s);
                s = (if err \<noteq> ATT_ERR_ATTR_NOT_FOUND
                     then gh_upd H (gatt_log RBP_FAULT_ATT (ucast req) (ucast err) (ucast (gop_code op))) s else s)
            in if foreign_error req handle (gh_get H s) then (True, bearer_failed H err s) else (False, s)
      | _ \<Rightarrow> (False, s))"

definition wch_gatt_on_msg :: "('s, 'k) gatt_host \<Rightarrow> gatt_msg \<Rightarrow> 's \<Rightarrow> 's" where
  "wch_gatt_on_msg H m s =
     (let status = gm_status m; body = gm_body m; g = gh_get H s;
          s = (if status \<noteq> SUCCESS \<and> status \<noteq> bleProcedureComplete
               then gh_upd H (gatt_log RBP_FAULT_GATT_EVENT (ucast (gm_method body)) (ucast status)
                      (ucast (gop_code (cur_op g)))) s else s)
      in if gm_conn m \<noteq> g_conn_handle g \<or> g_conn_handle g = GAP_CONNHANDLE_INIT \<or> cur_op g = GOP_FAILED then s
         else
           let (ended, s) = on_error_rsp H status body s in
           if ended then s
           else if status = bleTimeout then bearer_failed H bleTimeout s
           else case body of
             ATT_HANDLE_VALUE_NOTI handle len val \<Rightarrow> on_value H False handle len val status s
           | ATT_HANDLE_VALUE_IND handle len val \<Rightarrow> on_value H True handle len val status s
           | ATT_MTU_UPDATED_EVENT \<Rightarrow> s
           | ATT_FLOW_CTRL_VIOLATED_EVENT \<Rightarrow> bearer_failed H ATT_ERR_INVALID_PDU s
           | _ \<Rightarrow> on_response H status body s)"

text \<open>The statics when power comes on.\<close>

definition gatt_boot :: "fault_state \<Rightarrow> 'k \<Rightarrow> 'k gatt" where
  "gatt_boot fl k =
     \<lparr>g_conn_handle = GAP_CONNHANDLE_INIT, neg_mtu = ATT_MTU_SIZE, cur_op = GOP_FAILED, generation = 0,
      read_offset = 0, g_found_service = False, pending_start = 0, pending_end = 0, g_faults = fl, g_sdk = k\<rparr>"

end
