(* ===== verification/Gatt_Facts.thy ===== *)
theory Gatt_Facts
  imports Gatt
begin

text \<open>
  The GATT client keeps in step with the vendor's library. The locale \<open>gatt_library\<close> states what is relied on of the
  library: it runs one procedure at a time, an accepted request starts one when none is running, a refused request and the other calls
  start none. The locale \<open>gatt_user\<close> adds the layer above: an event may call back into the
  client, any number of times below \<open>2^32\<close>, through the operations of the client and \<open>wch_gatt_quiesce\<close>.
\<close>

section \<open>Calls from the layer above\<close>

datatype gatt_reaction = Do gatt_op | Hang_up

fun react :: "'k gatt_sdk \<Rightarrow> gatt_reaction \<Rightarrow> 'k gatt \<Rightarrow> 'k gatt" where
  "react S (Do op) g = snd (k_gatt S op g)"
| "react S Hang_up g = wch_gatt_quiesce g"

fun sdk_op :: "sdk_request \<Rightarrow> gop" where
  "sdk_op (GATT_ExchangeMTU _ _) = GOP_EXCHANGE_MTU"
| "sdk_op (GATT_DiscPrimaryServiceByUUID _ _) = GOP_DISC_SVC"
| "sdk_op (GATT_DiscCharsByUUID _ _ _ _) = GOP_READ_CHARS"
| "sdk_op (GATT_DiscAllCharDescs _ _ _) = GOP_DISC_DESCS"
| "sdk_op (GATT_ReadCharValue _ _) = GOP_READ_VALUE"
| "sdk_op (GATT_ReadLongCharValue _ _ _) = GOP_READ_LONG"
| "sdk_op (GATT_WriteCharValue _ _ _) = GOP_WRITE"
| "sdk_op (GATT_WriteNoRsp _ _ _) = GOP_NONE"

definition single_shot :: "gop \<Rightarrow> bool" where
  "single_shot op \<longleftrightarrow> op \<in> {GOP_EXCHANGE_MTU, GOP_READ_VALUE, GOP_WRITE}"

fun answers :: "gop \<Rightarrow> att_msg \<Rightarrow> bool" where
  "answers GOP_EXCHANGE_MTU (ATT_EXCHANGE_MTU_RSP _) = True"
| "answers GOP_DISC_SVC (ATT_FIND_BY_TYPE_VALUE_RSP _ _) = True"
| "answers GOP_READ_CHARS (ATT_READ_BY_TYPE_RSP _ _ _) = True"
| "answers GOP_DISC_DESCS (ATT_FIND_INFO_RSP _ _ _) = True"
| "answers GOP_READ_VALUE (ATT_READ_RSP _ _) = True"
| "answers GOP_READ_LONG (ATT_READ_BLOB_RSP _ _) = True"
| "answers GOP_WRITE ATT_WRITE_RSP = True"
| "answers _ _ = False"

text \<open>The message that ends the procedure which the library is running: an error, the only response of a procedure that has one, or the
  last one of a procedure that has several.\<close>

definition ends :: "gop \<Rightarrow> gatt_msg \<Rightarrow> bool" where
  "ends op m \<longleftrightarrow> is_error_rsp (gm_body m)
     \<or> answers op (gm_body m) \<and> (single_shot op \<or> gm_status m = bleProcedureComplete)"

locale gatt_library =
  fixes S :: "'k gatt_sdk" and running :: "'k \<Rightarrow> gop" and finish :: "'k \<Rightarrow> 'k"
  assumes submit: "running k = GOP_NONE \<Longrightarrow> sdk_submit S req k = (status, k') \<Longrightarrow>
      running k' = (if status = SUCCESS then sdk_op req else GOP_NONE)"
    and alloc: "GATT_bm_alloc S h n k = (ok, k') \<Longrightarrow> running k' = running k"
    and free: "running (GATT_bm_free S k) = running k"
    and confirm: "ATT_HandleValueCfm S h k = (status, k') \<Longrightarrow> running k' = running k"
    and finished: "running k \<noteq> GOP_FAILED \<Longrightarrow> running (finish k) = GOP_NONE"
begin

text \<open>Either the client has given up, or it knows what the library is running.\<close>

definition in_step :: "'k gatt \<Rightarrow> bool" where
  "in_step g \<longleftrightarrow> running (g_sdk g) \<noteq> GOP_FAILED \<and> (cur_op g = GOP_FAILED \<or> cur_op g = running (g_sdk g))"

lemma rejected_keeps:
  assumes "rejected op status g = (rc, g')"
  shows "g_sdk g' = g_sdk g" "cur_op g' = cur_op g" "generation g' = generation g" "rc = 0 \<longleftrightarrow> status = SUCCESS"
    "neg_mtu g' = neg_mtu g" "g_conn_handle g' = g_conn_handle g"
  using assms by (auto simp: rejected_def gatt_log_def split: if_splits)

definition tame :: "('k gatt \<Rightarrow> 'k gatt) \<Rightarrow> bool" where
  "tame f \<longleftrightarrow> (\<forall>g. g_sdk (f g) = g_sdk g \<and> cur_op (f g) = cur_op g \<and> generation (f g) = generation g)"

lemma op_submit_step:
  assumes "op_submit S op req f g = (rc, g')" and "cur_op g = GOP_NONE" and "running (g_sdk g) = GOP_NONE"
    and "sdk_op req = op" and "op \<noteq> GOP_NONE" and "op \<noteq> GOP_FAILED" and "tame f"
  shows "running (g_sdk g') = cur_op g' \<and> cur_op g' = (if rc = 0 then op else GOP_NONE)
    \<and> generation g' = generation g + (if rc = 0 then 1 else 0)"
proof -
  obtain status k where s: "sdk_submit S req (g_sdk g) = (status, k)" by (metis surj_pair)
  obtain rc' h where r: "rejected op status (g\<lparr>g_sdk := k\<rparr>) = (rc', h)" by (metis surj_pair)
  note k = rejected_keeps [OF r] submit [OF assms(3) s]
  show ?thesis
    using assms s r k by (auto simp: op_submit_def tame_def split: if_splits)
qed

lemma with_buffer_step:
  assumes "with_buffer S op n f g = (rc, g')" and "running (g_sdk g) = GOP_NONE"
    and "\<And>h rc h'. f h = (rc, h') \<Longrightarrow> running (g_sdk h) = GOP_NONE \<Longrightarrow> cur_op h = cur_op g \<Longrightarrow> generation h = generation g \<Longrightarrow>
      running (g_sdk h') = (if rc = 0 then op' else GOP_NONE) \<and> cur_op h' = (if rc = 0 then op' else cur_op g)
        \<and> generation h' = generation g + (if rc = 0 then d else 0)"
  shows "running (g_sdk g') = (if rc = 0 then op' else GOP_NONE) \<and> cur_op g' = (if rc = 0 then op' else cur_op g)
    \<and> generation g' = generation g + (if rc = 0 then d else 0)"
proof -
  obtain ok k where a: "GATT_bm_alloc S (g_conn_handle g) n (g_sdk g) = (ok, k)" by (metis surj_pair)
  have k: "running k = GOP_NONE" using alloc [OF a] assms(2) by simp
  obtain rc' h where f: "f (g\<lparr>g_sdk := k\<rparr>) = (rc', h)" by (metis surj_pair)
  show ?thesis
    using assms(1) a k assms(3) [OF f] f by (auto simp: with_buffer_def gatt_log_def free Let_def split: if_splits)
qed

text \<open>A state in which the layer above may call, and what its calls can change: \<open>j\<close> counts the steps of the generation counter.\<close>

definition callable :: "'k gatt \<Rightarrow> bool" where
  "callable g \<longleftrightarrow> running (g_sdk g) \<noteq> GOP_FAILED \<and> (cur_op g = GOP_NONE \<longrightarrow> running (g_sdk g) = GOP_NONE)"

definition went :: "nat \<Rightarrow> 'k gatt \<Rightarrow> 'k gatt \<Rightarrow> bool" where
  "went j g g' \<longleftrightarrow> generation g' = generation g + of_nat j \<and> running (g_sdk g') \<noteq> GOP_FAILED
     \<and> (j = 0 \<longrightarrow> cur_op g' = cur_op g \<and> running (g_sdk g') = running (g_sdk g))
     \<and> (j \<noteq> 0 \<longrightarrow> in_step g' \<and> (cur_op g \<noteq> GOP_NONE \<longrightarrow> cur_op g' = GOP_FAILED))"

lemma went_refl: "callable g \<Longrightarrow> went 0 g g"
  by (simp add: went_def callable_def)

lemma went_trans: "went i g h \<Longrightarrow> went j h g' \<Longrightarrow> went (i + j) g g'"
  by (auto simp: went_def in_step_def)

lemma went_callable: "callable g \<Longrightarrow> went j g g' \<Longrightarrow> callable g'"
  by (cases "j = 0") (auto simp: went_def callable_def in_step_def)

lemma op_blocked_cases:
  "op_blocked g = (if cur_op g = GOP_FAILED then Some (-1) else if cur_op g = GOP_NONE then None else Some RBP_GATT_RETRY)"
  by (cases "cur_op g") (simp_all add: op_blocked_def)

lemma tame_notes: "tame (\<lambda>g. g)" "tame (pending_range a b)" "tame (\<lambda>g. pending_range a b (g\<lparr>g_found_service := False\<rparr>))"
  "tame (\<lambda>g. pending_range a b (g\<lparr>read_offset := c\<rparr>))"
  by (simp_all add: tame_def pending_range_def)

lemma free_went:
  assumes "running (g_sdk g') = cur_op g'" and "cur_op g' = (if rc = (0::int) then op else GOP_NONE)"
    and "generation g' = generation g + (if rc = 0 then 1 else 0)" and "cur_op g = GOP_NONE" and "running (g_sdk g) = GOP_NONE"
    and "op \<noteq> GOP_FAILED"
  shows "\<exists>j\<le>1. went j g g'"
  using assms by (cases "rc = 0") (auto simp: went_def in_step_def intro: exI [of _ 0] exI [of _ "1::nat"])

lemma op_went:
  assumes "callable g" and "k_gatt S op g = (rc, g')"
  shows "\<exists>j\<le>1. went j g g'"
proof (cases "op_blocked g")
  case (Some x)
  then have "g' = g"
    using assms(2) by (cases op) (auto simp: k_gatt_def op_exchange_mtu_def op_disc_service_def op_read_chars_def op_disc_descs_def
        op_read_value_def op_read_long_def op_write_def op_command_def)
  then show ?thesis using went_refl [OF assms(1)] by auto
next
  case None
  then have n: "cur_op g = GOP_NONE" "running (g_sdk g) = GOP_NONE"
    using assms(1) by (auto simp: op_blocked_cases callable_def split: if_splits)
  have sub: "\<exists>j\<le>1. went j g g'" if "op_submit S x req f g = (rc, g')" "sdk_op req = x" "x \<noteq> GOP_NONE" "x \<noteq> GOP_FAILED" "tame f" for x req f
    using op_submit_step [OF that(1) n that(2-5)] free_went [OF _ _ _ n that(4)] by blast
  show ?thesis
  proof (cases op)
    case (Write_value h v)
    have w: "with_buffer S GOP_WRITE (length v) (op_submit S GOP_WRITE (GATT_WriteCharValue (g_conn_handle g) h v) (pending_range h h)) g = (rc, g')"
      using assms(2) None Write_value by (simp add: k_gatt_def op_write_def)
    have "running (g_sdk g') = (if rc = 0 then GOP_WRITE else GOP_NONE) \<and> cur_op g' = (if rc = 0 then GOP_WRITE else cur_op g)
        \<and> generation g' = generation g + (if rc = 0 then 1 else 0)"
      by (rule with_buffer_step [OF w n(2)])
        (drule op_submit_step, use n tame_notes in \<open>auto split: if_splits\<close>)
    then show ?thesis using free_went [where rc = rc and op = GOP_WRITE and g = g and g' = g'] n by simp
  next
    case (Write_command h v)
    have "running (g_sdk g') = GOP_NONE \<and> cur_op g' = GOP_NONE \<and> generation g' = generation g"
    proof (cases "length v + 3 > unat (neg_mtu g)")
      case True
      then show ?thesis using assms(2) None Write_command n by (simp add: k_gatt_def op_command_def)
    next
      case False
      let ?f = "\<lambda>g. let (status, k) = sdk_submit S (GATT_WriteNoRsp (g_conn_handle g) h v) (g_sdk g)
                 in rejected GOP_NONE status (g\<lparr>g_sdk := k\<rparr>)"
      have w: "with_buffer S GOP_NONE (length v) ?f g = (rc, g')"
        using False assms(2) None Write_command by (simp add: k_gatt_def op_command_def)
      have "running (g_sdk g') = (if rc = 0 then GOP_NONE else GOP_NONE) \<and> cur_op g' = (if rc = 0 then GOP_NONE else cur_op g)
          \<and> generation g' = generation g + (if rc = 0 then 0 else 0)"
      proof (rule with_buffer_step [OF w n(2)])
        fix h' :: "'k gatt" and rc h''
        assume a: "?f h' = (rc, h'')" "running (g_sdk h') = GOP_NONE" "cur_op h' = cur_op g" "generation h' = generation g"
        obtain status k where s: "sdk_submit S (GATT_WriteNoRsp (g_conn_handle h') h v) (g_sdk h') = (status, k)" by (metis surj_pair)
        have "rejected GOP_NONE status (h'\<lparr>g_sdk := k\<rparr>) = (rc, h'')" using a(1) s by simp
        note r = rejected_keeps [OF this]
        show "running (g_sdk h'') = (if rc = 0 then GOP_NONE else GOP_NONE) \<and> cur_op h'' = (if rc = 0 then GOP_NONE else cur_op g)
            \<and> generation h'' = generation g + (if rc = 0 then 0 else 0)"
          using r submit [OF a(2) s] a(3,4) n(1) by simp
      qed
      then show ?thesis using n by simp
    qed
    then show ?thesis using n by (intro exI [of _ 0]) (simp add: went_def)
  qed (use assms(2) None in \<open>auto simp: k_gatt_def op_exchange_mtu_def op_disc_service_def op_read_chars_def op_disc_descs_def
        op_read_value_def op_read_long_def simp del: One_nat_def intro: sub tame_notes\<close>)
qed

lemma react_went:
  assumes "callable g"
  shows "\<exists>j\<le>1. went j g (react S r g)"
proof (cases r)
  case (Do op)
  then show ?thesis using op_went [OF assms, of op] by (cases "k_gatt S op g") auto
next
  case Hang_up
  then have "went 1 g (react S r g)" using assms by (simp add: went_def wch_gatt_quiesce_def in_step_def callable_def)
  then show ?thesis by blast
qed

lemma reacts_went:
  "callable g \<Longrightarrow> \<exists>j\<le>length rs. went j g (fold (react S) rs g)"
proof (induction rs arbitrary: g)
  case Nil
  then show ?case using went_refl by simp
next
  case (Cons r rs)
  obtain i where i: "i \<le> 1" "went i g (react S r g)" using react_went [OF Cons.prems] by blast
  obtain j where "j \<le> length rs" "went j (react S r g) (fold (react S) rs (react S r g))"
    using Cons.IH [OF went_callable [OF Cons.prems i(2)]] by blast
  then have "i + j \<le> length (r # rs) \<and> went (i + j) g (fold (react S) (r # rs) g)"
    using i went_trans by auto
  then show ?case by blast
qed

end

section \<open>Messages\<close>

text \<open>The library ends its procedure and then hands over the message.\<close>

definition deliver_msg :: "('k \<Rightarrow> gop) \<Rightarrow> ('k \<Rightarrow> 'k) \<Rightarrow> ('s, 'k) gatt_host \<Rightarrow> gatt_msg \<Rightarrow> 's \<Rightarrow> 's" where
  "deliver_msg running finish H m s =
     (let g = gh_get H s
      in wch_gatt_on_msg H m
        (if gm_conn m = g_conn_handle g \<and> g_conn_handle g \<noteq> GAP_CONNHANDLE_INIT \<and> ends (running (g_sdk g)) m
         then gh_upd H (\<lambda>g. g\<lparr>g_sdk := finish (g_sdk g)\<rparr>) s else s))"

datatype gatt_input = Message gatt_msg | Call gatt_op | Quiesce | Connect u16 | Disconnect

fun gatt_step :: "('k \<Rightarrow> gop) \<Rightarrow> ('k \<Rightarrow> 'k) \<Rightarrow> ('s, 'k) gatt_host \<Rightarrow> gatt_input \<Rightarrow> 's \<Rightarrow> 's" where
  "gatt_step running finish H (Message m) s = deliver_msg running finish H m s"
| "gatt_step running finish H (Call op) s = gh_upd H (\<lambda>g. snd (k_gatt (gh_sdk H) op g)) s"
| "gatt_step running finish H Quiesce s = gh_upd H wch_gatt_quiesce s"
| "gatt_step running finish H (Connect h) s = gh_upd H (\<lambda>g. wch_gatt_set_conn h (g\<lparr>g_sdk := finish (g_sdk g)\<rparr>)) s"
| "gatt_step running finish H Disconnect s =
     gh_upd H (\<lambda>g. wch_gatt_set_conn GAP_CONNHANDLE_INIT (g\<lparr>g_sdk := finish (g_sdk g)\<rparr>)) s"

lemma word_step_zero: "j < 2 ^ 32 \<Longrightarrow> x + of_nat j = (x :: u32) \<Longrightarrow> j = 0"
  by (simp add: word_of_nat_eq_0_iff nat_dvd_not_less) (use nat_dvd_not_less in blast)

locale gatt_user = gatt_library S running finish
  for S :: "'k gatt_sdk" and running :: "'k \<Rightarrow> gop" and finish :: "'k \<Rightarrow> 'k" +
  fixes H :: "('s, 'k) gatt_host"
  assumes sdk: "gh_sdk H = S"
    and get_upd [simp]: "gh_get H (gh_upd H f s) = f (gh_get H s)"
    and emit: "\<exists>rs. length rs < 2 ^ 32 \<and> gh_get H (gh_emit H e s) = fold (react S) rs (gh_get H s)"
begin

abbreviation "op_of s \<equiv> cur_op (gh_get H s)"
abbreviation "run_of s \<equiv> running (g_sdk (gh_get H s))"
abbreviation "gen_of s \<equiv> generation (gh_get H s)"

lemma emitted:
  fixes e
  assumes "callable (gh_get H s)"
  defines "t \<equiv> gh_emit H e s"
  shows "callable (gh_get H t)" and "gen_of t = gen_of s \<Longrightarrow> op_of t = op_of s \<and> run_of t = run_of s"
    and "gen_of t \<noteq> gen_of s \<Longrightarrow> in_step (gh_get H t)"
    and "gen_of t \<noteq> gen_of s \<Longrightarrow> op_of s \<noteq> GOP_NONE \<Longrightarrow> op_of t = GOP_FAILED"
proof -
  obtain rs where rs: "length rs < 2 ^ 32" "gh_get H t = fold (react S) rs (gh_get H s)" using emit t_def by blast
  obtain j where j: "j \<le> length rs" "went j (gh_get H s) (gh_get H t)" using reacts_went [OF assms(1), of rs] rs(2) by auto
  then have z: "gen_of t = gen_of s \<longleftrightarrow> j = 0" using word_step_zero [of j "gen_of s"] rs(1) by (auto simp: went_def)
  show "callable (gh_get H t)" by (rule went_callable [OF assms(1) j(2)])
  show "gen_of t = gen_of s \<Longrightarrow> op_of t = op_of s \<and> run_of t = run_of s" "gen_of t \<noteq> gen_of s \<Longrightarrow> in_step (gh_get H t)"
    "gen_of t \<noteq> gen_of s \<Longrightarrow> op_of s \<noteq> GOP_NONE \<Longrightarrow> op_of t = GOP_FAILED"
    using j(2) z by (auto simp: went_def)
qed

lemma in_step_callable: "in_step g \<Longrightarrow> callable g"
  by (auto simp: in_step_def callable_def)

lemma emit_in_step:
  assumes "in_step (gh_get H s)"
  shows "in_step (gh_get H (gh_emit H e s))"
  using emitted(2,3) [OF in_step_callable [OF assms], of e] assms
  by (cases "gen_of (gh_emit H e s) = gen_of s") (auto simp: in_step_def)

lemma bearer_failed_step: "run_of s \<noteq> GOP_FAILED \<Longrightarrow> in_step (gh_get H (bearer_failed H status s))"
  unfolding bearer_failed_def by (rule emit_in_step) (simp add: in_step_def gatt_log_def)

lemma emit_done_step: "run_of s = GOP_NONE \<Longrightarrow> in_step (gh_get H (emit_done H s))"
  unfolding emit_done_def by (rule emit_in_step) (simp add: in_step_def)

lemma emit_error_step: "run_of s = GOP_NONE \<Longrightarrow> in_step (gh_get H (emit_error H status s))"
  unfolding emit_error_def by (rule emit_in_step) (simp add: in_step_def gatt_log_def)

lemma emit_free_step: "run_of s = GOP_NONE \<Longrightarrow> in_step (gh_get H (emit_free H e s))"
  unfolding emit_free_def by (rule emit_in_step) (simp add: in_step_def)

text \<open>An event that ends the procedure, then \<open>PROC_DONE\<close> unless the layer above has moved on.\<close>

lemma free_then_done:
  assumes "run_of s = GOP_NONE" and "old = gen_of s"
  shows "in_step (gh_get H (let t = emit_free H e s in if gen_of t = old then emit_done H t else t))"
proof -
  let ?u = "gh_upd H (\<lambda>g. g\<lparr>cur_op := GOP_NONE\<rparr>) s"
  have c: "callable (gh_get H ?u)" "gen_of ?u = old" "run_of ?u = GOP_NONE" using assms by (simp_all add: callable_def)
  have "gen_of (emit_free H e s) = old \<Longrightarrow> run_of (emit_free H e s) = GOP_NONE"
    using emitted(2) [OF c(1), of e] c(2,3) by (simp add: emit_free_def)
  then show ?thesis
    using emit_done_step emit_free_step [OF assms(1), of e] by (simp add: Let_def)
qed

lemma batch:
  assumes "callable (gh_get H s)" and "op_of s \<noteq> GOP_NONE" and "gen_of s = old" and "emit_batch H old es s = (go, t)"
  shows "(go \<longrightarrow> callable (gh_get H t) \<and> op_of t = op_of s \<and> run_of t = run_of s \<and> gen_of t = old) \<and> (\<not> go \<longrightarrow> in_step (gh_get H t))"
  using assms
proof (induction es arbitrary: s)
  case (Cons e es)
  let ?u = "gh_emit H e s"
  note k = emitted [OF Cons.prems(1), of e]
  show ?case
  proof (cases "gen_of ?u = old")
    case True
    then have u: "op_of ?u = op_of s" "run_of ?u = run_of s" using k(2) Cons.prems(3) by simp_all
    show ?thesis
      using Cons.IH [of ?u] k(1) u True Cons.prems(2,4) by simp
  next
    case False
    then show ?thesis using k(3) Cons.prems(3,4) by auto
  qed
qed simp

text \<open>A response: the procedure of the client is the one the library runs, or has just ended.\<close>

definition fits :: "gatt_msg \<Rightarrow> 's \<Rightarrow> bool" where
  "fits m s \<longleftrightarrow> op_of s \<noteq> GOP_FAILED \<and> run_of s = (if ends (op_of s) m then GOP_NONE else op_of s)"

lemma fits_callable: "fits m s \<Longrightarrow> callable (gh_get H s)"
  by (auto simp: fits_def callable_def)

lemma batch_then_done:
  assumes "fits m s" and "op_of s \<noteq> GOP_NONE" and "gen_of s = old" and "complete \<longleftrightarrow> ends (op_of s) m"
  shows "in_step (gh_get H (let (go, t) = emit_batch H old es s in if go \<and> complete then emit_done H t else t))"
proof -
  obtain go t where b: "emit_batch H old es s = (go, t)" by (metis surj_pair)
  note k = batch [OF fits_callable [OF assms(1)] assms(2,3) b]
  show ?thesis
    using k assms(1,4) emit_done_step [of t] by (auto simp: b fits_def in_step_def)
qed

lemma discovery_error_step: "run_of s = GOP_NONE \<Longrightarrow> in_step (gh_get H (discovery_error H err s))"
  by (simp add: discovery_error_def emit_done_step emit_error_step)

lemma error_ends: "is_error_rsp (gm_body m) \<Longrightarrow> ends op m"
  by (simp add: ends_def)

lemma fits_error: "fits m s \<Longrightarrow> gm_body m = ATT_ERROR_RSP a b c \<Longrightarrow> run_of s = GOP_NONE"
  by (simp add: fits_def ends_def is_error_rsp_def)

lemma fits_quiet: "fits m s \<Longrightarrow> \<not> ends (op_of s) m \<Longrightarrow> in_step (gh_get H s)"
  by (simp add: fits_def in_step_def)

lemma rsp_mtu_step:
  assumes "fits m s" and "op_of s = GOP_EXCHANGE_MTU" and "gen_of s = old"
  shows "in_step (gh_get H (rsp_mtu H old (gm_body m) s))"
proof (cases "gm_body m")
  case (ATT_EXCHANGE_MTU_RSP server)
  then have r: "run_of s = GOP_NONE" using assms(1,2) by (simp add: fits_def ends_def single_shot_def)
  define mtu where "mtu = (if server > gh_mtu H then gh_mtu H else server)"
  let ?u = "gh_upd H (\<lambda>g. g\<lparr>neg_mtu := mtu\<rparr>) s"
  have u: "run_of ?u = GOP_NONE" "old = gen_of ?u" using r assms(3) by simp_all
  have "in_step (gh_get H (bearer_failed H ATT_ERR_INVALID_VALUE_SIZE ?u))" using u by (intro bearer_failed_step) simp
  then show ?thesis
    using free_then_done [OF u] unfolding rsp_mtu_def ATT_EXCHANGE_MTU_RSP att_msg.case mtu_def [symmetric] Let_def by simp
qed (use assms fits_error emit_error_step fits_quiet [OF assms(1)] in
     \<open>simp_all add: rsp_mtu_def ends_def is_error_rsp_def\<close>)

lemma rsp_write_step:
  assumes "fits m s" and "op_of s = GOP_WRITE" and "gen_of s = old"
  shows "in_step (gh_get H (rsp_write H old (gm_body m) s))"
proof (cases "gm_body m")
  case ATT_WRITE_RSP
  then have r: "run_of s = GOP_NONE" using assms(1,2) by (simp add: fits_def ends_def single_shot_def)
  show ?thesis
    using free_then_done [OF r assms(3) [symmetric]] by (simp add: rsp_write_def ATT_WRITE_RSP)
qed (use assms fits_error emit_error_step fits_quiet [OF assms(1)] in
     \<open>simp_all add: rsp_write_def ends_def is_error_rsp_def\<close>)

lemma rsp_read_step:
  assumes "fits m s" and "op_of s = GOP_READ_VALUE"
  shows "in_step (gh_get H (rsp_read H (gm_body m) s))"
proof (cases "gm_body m")
  case (ATT_READ_RSP n p)
  then have "run_of s = GOP_NONE" using assms(1,2) by (simp add: fits_def ends_def single_shot_def)
  then show ?thesis by (simp add: rsp_read_def ATT_READ_RSP emit_free_step)
qed (use assms fits_error emit_error_step fits_quiet [OF assms(1)] in
     \<open>simp_all add: rsp_read_def ends_def is_error_rsp_def\<close>)

lemma rsp_read_long_step:
  assumes "fits m s" and "op_of s = GOP_READ_LONG" and "complete \<longleftrightarrow> gm_status m = bleProcedureComplete"
  shows "in_step (gh_get H (rsp_read_long H complete (gm_body m) s))"
proof (cases "gm_body m")
  case (ATT_READ_BLOB_RSP n p)
  then have "run_of s = (if complete then GOP_NONE else GOP_READ_LONG)"
    using assms by (simp add: fits_def ends_def single_shot_def is_error_rsp_def)
  then have "in_step (gh_get H (gh_upd H (\<lambda>g. g\<lparr>read_offset := x, cur_op := (if complete then GOP_NONE else cur_op g)\<rparr>) s))" for x
    using assms(2) by (simp add: in_step_def)
  then show ?thesis
    unfolding rsp_read_long_def ATT_READ_BLOB_RSP att_msg.case Let_def by (rule emit_in_step)
next
  case (ATT_ERROR_RSP a b c)
  then show ?thesis
    using fits_error [OF assms(1)] emit_error_step emit_free_step by (simp add: rsp_read_long_def Let_def)
qed (use assms fits_quiet [OF assms(1)] in \<open>simp_all add: rsp_read_long_def Let_def ends_def is_error_rsp_def\<close>)

lemma rsp_chars_step:
  assumes "fits m s" and "op_of s = GOP_READ_CHARS" and "gen_of s = old" and "complete \<longleftrightarrow> gm_status m = bleProcedureComplete"
  shows "in_step (gh_get H (rsp_chars H old complete (gm_body m) s))"
proof (cases "gm_body m")
  case (ATT_READ_BY_TYPE_RSP n len p)
  then have c: "complete \<longleftrightarrow> ends (op_of s) m"
    using assms(2,4) by (simp add: ends_def single_shot_def is_error_rsp_def)
  have f: "run_of s \<noteq> GOP_FAILED" using assms(1,2) by (simp add: fits_def)
  have d: "in_step (gh_get H (if complete then emit_done H s else s))"
    using assms(1) c emit_done_step [of s] by (auto simp: fits_def in_step_def)
  show ?thesis
    using batch_then_done [OF assms(1) _ assms(3) c] assms(2) bearer_failed_step [OF f] d
    by (simp add: rsp_chars_def ATT_READ_BY_TYPE_RSP split: option.split)
qed (use assms fits_error discovery_error_step fits_quiet [OF assms(1)] in
     \<open>simp_all add: rsp_chars_def ends_def is_error_rsp_def\<close>)

lemma rsp_descs_step:
  assumes "fits m s" and "op_of s = GOP_DISC_DESCS" and "gen_of s = old" and "complete \<longleftrightarrow> gm_status m = bleProcedureComplete"
  shows "in_step (gh_get H (rsp_descs H old complete (gm_body m) s))"
proof (cases "gm_body m")
  case (ATT_FIND_INFO_RSP n format p)
  then have c: "complete \<longleftrightarrow> ends (op_of s) m"
    using assms(2,4) by (simp add: ends_def single_shot_def is_error_rsp_def)
  have d: "in_step (gh_get H (if complete then emit_done H s else s))"
    using assms(1) c emit_done_step [of s] by (auto simp: fits_def in_step_def)
  show ?thesis
    using batch_then_done [OF assms(1) _ assms(3) c] assms(2) d
    by (simp add: rsp_descs_def ATT_FIND_INFO_RSP split: option.split)
qed (use assms fits_error discovery_error_step fits_quiet [OF assms(1)] in
     \<open>simp_all add: rsp_descs_def ends_def is_error_rsp_def\<close>)

lemma rsp_service_step:
  assumes "fits m s" and "op_of s = GOP_DISC_SVC" and "gen_of s = old" and "complete \<longleftrightarrow> gm_status m = bleProcedureComplete"
  shows "in_step (gh_get H (rsp_service H old complete (gm_body m) s))"
proof (cases "gm_body m")
  case (ATT_FIND_BY_TYPE_VALUE_RSP n p)
  then have c: "complete \<longleftrightarrow> ends (op_of s) m"
    using assms(2,4) by (simp add: ends_def single_shot_def is_error_rsp_def)
  have d: "in_step (gh_get H (if complete then emit_done H s else s))"
    using assms(1) c emit_done_step [of s] by (auto simp: fits_def in_step_def)
  let ?u = "gh_upd H (\<lambda>g. g\<lparr>g_found_service := True\<rparr>) s"
  have u: "fits m ?u" "op_of ?u \<noteq> GOP_NONE" "gen_of ?u = old" "complete \<longleftrightarrow> ends (op_of ?u) m"
    using assms(1-3) c by (simp_all add: fits_def)
  show ?thesis
  proof (cases "\<exists>x. p = Some x \<and> n > 0 \<and> \<not> g_found_service (gh_get H s)")
    case True
    then obtain x where x: "p = Some x" "n > 0" "\<not> g_found_service (gh_get H s)" by blast
    have "rsp_service H old complete (gm_body m) s =
        (let (go, t) = emit_batch H old [evt_zero\<lparr>ge_type := RBP_GATT_EVT_SERVICE_FOUND, ge_svc_start := att_handle x 0,
           ge_svc_end := att_handle x 2\<rparr>] ?u in if go \<and> complete then emit_done H t else t)"
      using x by (simp add: rsp_service_def ATT_FIND_BY_TYPE_VALUE_RSP del: emit_batch.simps)
    then show ?thesis using batch_then_done [OF u] by (simp only:)
  next
    case False
    then have "rsp_service H old complete (gm_body m) s = (if complete then emit_done H s else s)"
      by (cases p) (auto simp: rsp_service_def ATT_FIND_BY_TYPE_VALUE_RSP)
    then show ?thesis using d by simp
  qed
next
  case (ATT_ERROR_RSP a b err)
  then show ?thesis
    using fits_error [OF assms(1)] emit_error_step emit_done_step emit_free_step by (simp add: rsp_service_def)
qed (use assms fits_quiet [OF assms(1)] in \<open>simp_all add: rsp_service_def ends_def is_error_rsp_def\<close>)

lemma on_response_step:
  assumes "fits m s"
  shows "in_step (gh_get H (on_response H (gm_status m) (gm_body m) s))"
proof (cases "op_of s = GOP_NONE")
  case True
  then show ?thesis using assms by (auto simp: on_response_def Let_def fits_def in_step_def)
next
  case False
  have f: "run_of s \<noteq> GOP_FAILED" "op_of s \<noteq> GOP_FAILED" using assms False by (auto simp: fits_def)
  show ?thesis
    using False f(2) bearer_failed_step [OF f(1)] rsp_mtu_step [OF assms _ refl] rsp_write_step [OF assms _ refl] rsp_read_step [OF assms]
      rsp_read_long_step [OF assms _ refl] rsp_chars_step [OF assms _ refl refl] rsp_descs_step [OF assms _ refl refl]
      rsp_service_step [OF assms _ refl refl]
    by (cases "op_of s") (simp_all add: on_response_def Let_def)
qed

lemma on_value_step:
  assumes "in_step (gh_get H s)"
  shows "in_step (gh_get H (on_value H ind handle len val status s))"
proof -
  let ?f = "\<lambda>g. let (st, k) = ATT_HandleValueCfm (gh_sdk H) (g_conn_handle g) (g_sdk g); g = g\<lparr>g_sdk := k\<rparr>
      in if st \<noteq> SUCCESS then gatt_log RBP_FAULT_GATT_API 9 (ucast st) 0 g else g"
  have r: "run_of s \<noteq> GOP_FAILED" using assms by (simp add: in_step_def)
  have "in_step (?f (gh_get H s))"
    using assms confirm [of "g_conn_handle (gh_get H s)" "g_sdk (gh_get H s)"]
    by (auto simp: sdk in_step_def gatt_log_def Let_def split: prod.splits)
  then have "in_step (gh_get H (if ind then gh_upd H ?f s else s))" using assms by simp
  then show ?thesis
    unfolding on_value_def using bearer_failed_step [OF r] by (auto intro: emit_in_step)
qed

lemma on_msg_step:
  assumes "gm_conn m = g_conn_handle (gh_get H s) \<and> g_conn_handle (gh_get H s) \<noteq> GAP_CONNHANDLE_INIT \<and> op_of s \<noteq> GOP_FAILED \<Longrightarrow> fits m s"
    and "\<not> (gm_conn m = g_conn_handle (gh_get H s) \<and> g_conn_handle (gh_get H s) \<noteq> GAP_CONNHANDLE_INIT \<and> op_of s \<noteq> GOP_FAILED)
      \<Longrightarrow> in_step (gh_get H s)"
  shows "in_step (gh_get H (wch_gatt_on_msg H m s))"
proof -
  let ?g = "gh_get H s" and ?st = "gm_status m" and ?b = "gm_body m"
  define t where "t = (if ?st \<noteq> SUCCESS \<and> ?st \<noteq> bleProcedureComplete
    then gh_upd H (gatt_log RBP_FAULT_GATT_EVENT (ucast (gm_method ?b)) (ucast ?st) (ucast (gop_code (cur_op ?g)))) s else s)"
  have t: "op_of t = op_of s" "run_of t = run_of s" "gen_of t = gen_of s" by (simp_all add: t_def gatt_log_def)
  show ?thesis
  proof (cases "gm_conn m \<noteq> g_conn_handle ?g \<or> g_conn_handle ?g = GAP_CONNHANDLE_INIT \<or> cur_op ?g = GOP_FAILED")
    case True
    have "wch_gatt_on_msg H m s = t"
      unfolding wch_gatt_on_msg_def Let_def t_def [symmetric] using True by (simp only: if_True)
    then show ?thesis using assms(2) True t by (auto simp: in_step_def)
  next
    case False
    then have f: "fits m t" using assms(1) t by (simp add: fits_def)
    obtain ended u where e: "on_error_rsp H ?st ?b t = (ended, u)" by (metis surj_pair)
    have w: "wch_gatt_on_msg H m s = (if ended then u else if ?st = bleTimeout then bearer_failed H bleTimeout u
        else case ?b of
             ATT_HANDLE_VALUE_NOTI handle len val \<Rightarrow> on_value H False handle len val ?st u
           | ATT_HANDLE_VALUE_IND handle len val \<Rightarrow> on_value H True handle len val ?st u
           | ATT_MTU_UPDATED_EVENT \<Rightarrow> u
           | ATT_FLOW_CTRL_VIOLATED_EVENT \<Rightarrow> bearer_failed H ATT_ERR_INVALID_PDU u
           | _ \<Rightarrow> on_response H ?st ?b u)"
      unfolding wch_gatt_on_msg_def Let_def t_def [symmetric] using False e by simp
    have r: "run_of t \<noteq> GOP_FAILED" using f by (auto simp: fits_def)
    have u: "(ended \<longrightarrow> in_step (gh_get H u)) \<and> (\<not> ended \<longrightarrow> fits m u)"
    proof (cases ?b)
      case (ATT_ERROR_RSP req handle err)
      define v where "v = (if err \<noteq> ATT_ERR_ATTR_NOT_FOUND
        then gh_upd H (gatt_log RBP_FAULT_ATT (ucast req) (ucast err) (ucast (gop_code (op_of t)))) t else t)"
      have v: "fits m v" "run_of v \<noteq> GOP_FAILED" using f r by (simp_all add: v_def fits_def gatt_log_def)
      have "on_error_rsp H ?st ?b t = (if ?st \<noteq> SUCCESS then (False, t)
          else if foreign_error req handle (gh_get H v) then (True, bearer_failed H err v) else (False, v))"
        by (simp only: on_error_rsp_def ATT_ERROR_RSP att_msg.case Let_def v_def)
      then show ?thesis using e f v(1) bearer_failed_step [OF v(2)] by (auto split: if_splits)
    qed (use e f in \<open>auto simp: on_error_rsp_def\<close>)
    show ?thesis
    proof (cases ended)
      case True
      then show ?thesis using w u by simp
    next
      case no: False
      then have fu: "fits m u" "run_of u \<noteq> GOP_FAILED" using u by (auto simp: fits_def)
      have q: "in_step (gh_get H u)" if "\<not> ends (op_of u) m" using fits_quiet [OF fu(1) that] .
      show ?thesis
        unfolding w using no bearer_failed_step [OF fu(2)] on_response_step [OF fu(1)] on_value_step q
        by (cases ?b) (auto simp: ends_def is_error_rsp_def)
    qed
  qed
qed

lemma deliver_step:
  assumes "in_step (gh_get H s)"
  shows "in_step (gh_get H (deliver_msg running finish H m s))"
proof -
  let ?g = "gh_get H s"
  let ?t = "if gm_conn m = g_conn_handle ?g \<and> g_conn_handle ?g \<noteq> GAP_CONNHANDLE_INIT \<and> ends (running (g_sdk ?g)) m
    then gh_upd H (\<lambda>g. g\<lparr>g_sdk := finish (g_sdk g)\<rparr>) s else s"
  have k: "g_conn_handle (gh_get H ?t) = g_conn_handle ?g" "op_of ?t = op_of s" by simp_all
  have e: "running (finish (g_sdk ?g)) = GOP_NONE" using assms finished by (simp add: in_step_def)
  show ?thesis
    unfolding deliver_msg_def Let_def
  proof (rule on_msg_step, unfold k)
    show "fits m ?t" if "gm_conn m = g_conn_handle ?g \<and> g_conn_handle ?g \<noteq> GAP_CONNHANDLE_INIT \<and> op_of s \<noteq> GOP_FAILED"
      using that assms e by (auto simp: fits_def in_step_def)
    show "in_step (gh_get H ?t)" if "\<not> (gm_conn m = g_conn_handle ?g \<and> g_conn_handle ?g \<noteq> GAP_CONNHANDLE_INIT \<and> op_of s \<noteq> GOP_FAILED)"
      using that assms e by (auto simp: in_step_def)
  qed
qed

lemma gatt_step_in_step:
  assumes "in_step (gh_get H s)"
  shows "in_step (gh_get H (gatt_step running finish H i s))"
proof (cases i)
  case (Message m)
  then show ?thesis using deliver_step [OF assms] by simp
next
  case (Call op)
  obtain j where "went j (gh_get H s) (snd (k_gatt S op (gh_get H s)))"
    using op_went [OF in_step_callable [OF assms], of op] by (cases "k_gatt S op (gh_get H s)") auto
  then show ?thesis using Call assms by (cases "j = 0") (auto simp: sdk went_def in_step_def)
qed (use assms finished in \<open>auto simp: in_step_def wch_gatt_quiesce_def wch_gatt_set_conn_def\<close>)

lemma gatt_run_in_step:
  "in_step (gh_get H s) \<Longrightarrow> in_step (gh_get H (fold (gatt_step running finish H) is s))"
  by (induction "is" arbitrary: s) (simp_all add: gatt_step_in_step)

end

section \<open>A library and a layer above\<close>

text \<open>A library that answers as it likes, runs what it has accepted, and takes note of a request that comes while a procedure
  is running; a layer above that records its events and answers each with up to 16 calls.\<close>

record spy =
  sp_op :: gop
  sp_clash :: bool
  sp_calls :: nat

definition spy_running :: "spy \<Rightarrow> gop" where
  "spy_running k = (if sp_clash k then GOP_FAILED else sp_op k)"

definition spy_finish :: "spy \<Rightarrow> spy" where
  "spy_finish k = k\<lparr>sp_op := GOP_NONE\<rparr>"

definition spy_sdk :: "(nat \<Rightarrow> u8) \<Rightarrow> (nat \<Rightarrow> bool) \<Rightarrow> spy gatt_sdk" where
  "spy_sdk replies buffers =
     \<lparr>sdk_submit = \<lambda>req k.
        let status = replies (sp_calls k); k = k\<lparr>sp_calls := sp_calls k + 1\<rparr>
        in (status, if status \<noteq> SUCCESS \<or> sdk_op req = GOP_NONE then k
                    else if sp_op k \<noteq> GOP_NONE then k\<lparr>sp_clash := True\<rparr> else k\<lparr>sp_op := sdk_op req\<rparr>),
      GATT_bm_alloc = \<lambda>h n k. (buffers (sp_calls k), k\<lparr>sp_calls := sp_calls k + 1\<rparr>),
      GATT_bm_free = \<lambda>k. k,
      ATT_HandleValueCfm = \<lambda>h k. (replies (sp_calls k), k\<lparr>sp_calls := sp_calls k + 1\<rparr>)\<rparr>"

record 'k user =
  us_gatt :: "'k gatt"
  us_events :: "rbp_gatt_evt list"

definition script_host :: "'k gatt_sdk \<Rightarrow> u16 \<Rightarrow> (nat \<Rightarrow> gatt_reaction list) \<Rightarrow> ('k user, 'k) gatt_host" where
  "script_host S mtu script =
     \<lparr>gh_get = us_gatt, gh_upd = \<lambda>f s. s\<lparr>us_gatt := f (us_gatt s)\<rparr>,
      gh_emit = \<lambda>e s. s\<lparr>us_events := us_events s @ [e],
                        us_gatt := fold (react S) (take 16 (script (length (us_events s)))) (us_gatt s)\<rparr>,
      gh_mtu = mtu, gh_sdk = S\<rparr>"

interpretation spy: gatt_library "spy_sdk replies buffers" spy_running spy_finish for replies buffers
  by unfold_locales (auto simp: spy_sdk_def spy_running_def spy_finish_def Let_def split: if_splits)

interpretation scripted: gatt_user "spy_sdk replies buffers" spy_running spy_finish "script_host (spy_sdk replies buffers) mtu script"
  for replies buffers mtu script
proof
  fix e and s :: "spy user"
  let ?rs = "take 16 (script (length (us_events s)))"
  have "length ?rs < 2 ^ 32" by simp
  then show "\<exists>rs. length rs < 2 ^ 32 \<and> gh_get (script_host (spy_sdk replies buffers) mtu script)
      (gh_emit (script_host (spy_sdk replies buffers) mtu script) e s)
      = fold (react (spy_sdk replies buffers)) rs (gh_get (script_host (spy_sdk replies buffers) mtu script) s)"
    by (intro exI [of _ ?rs]) (simp add: script_host_def)
qed (simp_all add: script_host_def)

definition user_boot :: "spy user" where
  "user_boot = \<lparr>us_gatt = gatt_boot fault_boot \<lparr>sp_op = GOP_NONE, sp_clash = False, sp_calls = 0\<rparr>, us_events = []\<rparr>"

text \<open>C11: the GATT client keeps in step with the library. Whatever messages arrive, whatever the library answers and whatever
  the layer above does on its own and in answer to events, the client never submits a request while a procedure is running, and unless it
  has given up the bearer, the procedure it waits for is the one that is running; so it never waits for an answer that cannot come.\<close>

theorem gatt_in_step:
  "let H = script_host (spy_sdk replies buffers) mtu script;
       g = us_gatt (fold (gatt_step spy_running spy_finish H) inputs user_boot)
   in \<not> sp_clash (g_sdk g) \<and> (cur_op g = GOP_FAILED \<or> cur_op g = sp_op (g_sdk g))"
proof -
  let ?H = "script_host (spy_sdk replies buffers) mtu script"
  have "spy.in_step (gh_get ?H user_boot)"
    by (simp add: script_host_def user_boot_def gatt_boot_def spy.in_step_def spy_running_def)
  from scripted.gatt_run_in_step [OF this, of inputs]
  have "spy.in_step (us_gatt (fold (gatt_step spy_running spy_finish ?H) inputs user_boot))"
    by (simp add: script_host_def)
  then show ?thesis
    by (auto simp: Let_def spy.in_step_def spy_running_def split: if_splits)
qed

section \<open>Long reads\<close>

text \<open>A layer above that only listens.\<close>

definition listener :: "'k gatt_sdk \<Rightarrow> u16 \<Rightarrow> ('k user, 'k) gatt_host" where
  "listener S mtu = script_host S mtu (\<lambda>_. [])"

definition blob :: "u16 \<Rightarrow> u8 \<Rightarrow> u8 list \<Rightarrow> gatt_msg" where
  "blob conn status c = \<lparr>gm_conn = conn, gm_status = status, gm_body = ATT_READ_BLOB_RSP (length c) (Some c)\<rparr>"

definition blob_event :: "u16 \<Rightarrow> bool \<Rightarrow> u8 list \<Rightarrow> rbp_gatt_evt" where
  "blob_event off complete c = evt_zero\<lparr>ge_type := RBP_GATT_EVT_READ_RSP, ge_value := Some c, ge_offset := off,
     ge_proc_complete := complete\<rparr>"

definition reading :: "u16 \<Rightarrow> u16 \<Rightarrow> u16 \<Rightarrow> 'k gatt \<Rightarrow> bool" where
  "reading conn mtu off g \<longleftrightarrow> cur_op g = GOP_READ_LONG \<and> g_conn_handle g = conn \<and> conn \<noteq> GAP_CONNHANDLE_INIT
     \<and> neg_mtu g = mtu \<and> read_offset g = off"

lemma blob_step:
  fixes S m
  assumes "reading conn mtu off (us_gatt s)" and "length c + 1 \<le> unat mtu" and "unat off + length c \<le> 65535"
    and "status = SUCCESS \<or> status = bleProcedureComplete"
  defines "t \<equiv> wch_gatt_on_msg (listener S m) (blob conn status c) s"
  shows "us_events t = us_events s @ [blob_event off (status = bleProcedureComplete) c]"
    and "status = SUCCESS \<Longrightarrow> reading conn mtu (off + of_nat (length c)) (us_gatt t)"
    and "status = bleProcedureComplete \<Longrightarrow> cur_op (us_gatt t) = GOP_NONE"
  using assms
  by (auto simp: reading_def t_def wch_gatt_on_msg_def blob_def listener_def script_host_def on_error_rsp_def on_response_def
      unexpected_def malformed_def rsp_read_long_def blob_event_def Let_def)

text \<open>The layer above puts a part where it belongs, or not at all.\<close>

definition place :: "rbp_gatt_evt \<Rightarrow> u8 list \<Rightarrow> u8 list" where
  "place e buf = (if unat (ge_offset e) = length buf then buf @ ge_bytes e else buf)"

lemma blobs_step:
  assumes "reading conn mtu off (us_gatt s)" and "\<forall>x \<in> set cs. length x + 1 \<le> unat mtu"
    and "unat off + length (concat cs) \<le> 65535" and "length pre = unat off"
  shows "\<exists>es t. fold (wch_gatt_on_msg (listener S m)) (map (blob conn SUCCESS) cs) s = t \<and> us_events t = us_events s @ es
    \<and> fold place es pre = pre @ concat cs \<and> map ge_proc_complete es = replicate (length cs) False
    \<and> reading conn mtu (off + of_nat (length (concat cs))) (us_gatt t)"
  using assms
proof (induction cs arbitrary: s off pre)
  case Nil
  then show ?case by simp
next
  case (Cons x cs)
  let ?t = "wch_gatt_on_msg (listener S m) (blob conn SUCCESS x) s"
  have fit: "length x + 1 \<le> unat mtu" "unat off + length x \<le> 65535" using Cons.prems(2,3) by simp_all
  note b = blob_step [OF Cons.prems(1) fit, of SUCCESS S m, simplified]
  have u: "unat (off + of_nat (length x)) = unat off + length x"
    using fit(2) by (simp add: unat_word_ariths unat_of_nat)
  obtain es t where ih: "fold (wch_gatt_on_msg (listener S m)) (map (blob conn SUCCESS) cs) ?t = t" "us_events t = us_events ?t @ es"
    "fold place es (pre @ x) = (pre @ x) @ concat cs" "map ge_proc_complete es = replicate (length cs) False"
    "reading conn mtu (off + of_nat (length x) + of_nat (length (concat cs))) (us_gatt t)"
    using Cons.IH [OF b(2), of "pre @ x"] Cons.prems(2-4) u by auto
  let ?e = "blob_event off False x"
  have e: "place ?e pre = pre @ x" "ge_proc_complete ?e = False"
    using Cons.prems(4) by (simp_all add: place_def blob_event_def ge_bytes_def)
  show ?case
    using ih b(1) e by (intro exI [of _ "?e # es"] exI [of _ t]) (simp add: add.assoc)
qed

text \<open>C27: a long value arrives whole: when the library delivers a value in parts, the events of the client carry the parts in order, each with
  the offset it belongs to, and the last one, and no other, says that the value is complete; the client is then free.\<close>

theorem long_read_exact:
  fixes S m
  assumes "reading conn mtu off (us_gatt s)" and "\<forall>x \<in> set (cs @ [c]). length x + 1 \<le> unat mtu"
    and "unat off + length (concat cs @ c) \<le> 65535" and "length pre = unat off"
  defines "t \<equiv> fold (wch_gatt_on_msg (listener S m)) (map (blob conn SUCCESS) cs @ [blob conn bleProcedureComplete c]) s"
  defines "es \<equiv> drop (length (us_events s)) (us_events t)"
  shows "fold place es pre = pre @ concat cs @ c \<and> map ge_proc_complete es = replicate (length cs) False @ [True]
    \<and> cur_op (us_gatt t) = GOP_NONE"
proof -
  obtain ds u where u: "fold (wch_gatt_on_msg (listener S m)) (map (blob conn SUCCESS) cs) s = u" "us_events u = us_events s @ ds"
    "fold place ds pre = pre @ concat cs" "map ge_proc_complete ds = replicate (length cs) False"
    "reading conn mtu (off + of_nat (length (concat cs))) (us_gatt u)"
    using blobs_step [OF assms(1), of cs pre S m] assms(2-4) by auto
  let ?off = "off + of_nat (length (concat cs))"
  have w: "unat ?off = unat off + length (concat cs)"
    using assms(3) by (simp add: unat_word_ariths unat_of_nat)
  have fit: "length c + 1 \<le> unat mtu" "unat ?off + length c \<le> 65535" using assms(2,3) w by simp_all
  note b = blob_step [OF u(5) fit, of bleProcedureComplete S m, simplified]
  have t: "t = wch_gatt_on_msg (listener S m) (blob conn bleProcedureComplete c) u" using u(1) by (simp add: t_def)
  have es: "es = ds @ [blob_event ?off True c]" using b(1) u(2) by (simp add: es_def t)
  have "fold place es pre = pre @ concat cs @ c"
    using u(3) w assms(4) by (simp add: es place_def blob_event_def ge_bytes_def)
  moreover have "map ge_proc_complete es = replicate (length cs) False @ [True]" using u(4) by (simp add: es blob_event_def)
  moreover have "cur_op (us_gatt t) = GOP_NONE"
    using blob_step(3) [OF u(5) fit, of bleProcedureComplete S m] by (simp add: t)
  ultimately show ?thesis by blast
qed

definition sample_reader :: "spy user" where
  "sample_reader = \<lparr>us_gatt = (gatt_boot fault_boot \<lparr>sp_op = GOP_READ_LONG, sp_clash = False, sp_calls = 0\<rparr>)
     \<lparr>g_conn_handle := 1, cur_op := GOP_READ_LONG, read_offset := 2\<rparr>, us_events = []\<rparr>"

theorem long_read_exact_witness:
  "let t = fold (wch_gatt_on_msg (listener (spy_sdk (\<lambda>_. 0) (\<lambda>_. True)) 100))
        (map (blob 1 SUCCESS) [[3, 4], [5]] @ [blob 1 bleProcedureComplete [6]]) sample_reader
   in fold place (us_events t) [1, 2] = [1, 2, 3, 4, 5, 6] \<and> cur_op (us_gatt t) = GOP_NONE"
proof -
  have "reading 1 23 2 (us_gatt sample_reader)" by (simp add: reading_def sample_reader_def gatt_boot_def)
  from long_read_exact [OF this, of "[[3, 4], [5]]" "[6]" "[1, 2]" "spy_sdk (\<lambda>_. 0) (\<lambda>_. True)" 100]
  show ?thesis by (simp add: Let_def sample_reader_def)
qed

end
