(* ===== verification/Gatt_Adapter.thy ===== *)
theory Gatt_Adapter
  imports Gatt_Facts Adapter_Events
begin

text \<open>
  The GATT client and the adapter together, as \<open>main\<close> wires them: the adapter submits its procedures to the client, and the
  client's events are those the adapter handles. The server is a record of the calls it gets.
\<close>

record stack =
  st_gatt :: "spy gatt"
  st_calls :: "server_call list"

definition stack_port :: "u16 \<Rightarrow> spy gatt_sdk \<Rightarrow> stack adapter_port" where
  "stack_port mtu S =
     \<lparr>RBP_ATT_MTU = mtu, RBP_SIMULATOR = False,
      p_gatt = \<lambda>op w. let (rc, g) = k_gatt S op (st_gatt w) in (rc, w\<lparr>st_gatt := g\<rparr>),
      p_server = \<lambda>call. cupd (\<lambda>c. c\<lparr>world := (world c)\<lparr>st_calls := st_calls (world c) @ [call]\<rparr>\<rparr>),
      p_voice_wanted = \<lambda>w. False, p_capture_session = \<lambda>w. 0\<rparr>"

definition stack_host :: "u16 \<Rightarrow> spy gatt_sdk \<Rightarrow> (stack rc003_adapter, spy) gatt_host" where
  "stack_host mtu S =
     \<lparr>gh_get = \<lambda>a. st_gatt (world (env a)),
      gh_upd = \<lambda>f. cupd (\<lambda>c. c\<lparr>world := (world c)\<lparr>st_gatt := f (st_gatt (world c))\<rparr>\<rparr>),
      gh_emit = rc003_adapter_on_gatt (stack_port mtu S), gh_mtu = mtu, gh_sdk = S\<rparr>"

text \<open>A link is up and encrypted; the adapter starts.\<close>

definition stack_start :: "u16 \<Rightarrow> spy gatt_sdk \<Rightarrow> stack rc003_adapter" where
  "stack_start mtu S =
     (let w = \<lparr>st_gatt = wch_gatt_set_conn 1 (gatt_boot fault_boot \<lparr>sp_op = GOP_NONE, sp_clash = False, sp_calls = 0\<rparr>), st_calls = []\<rparr>
      in rc003_adapter_start (stack_port mtu S) 0 (rc003_atvv_init fault_boot (adapter_zero w)))"

definition run_stack :: "u16 \<Rightarrow> (nat \<Rightarrow> u8) \<Rightarrow> gatt_msg list \<Rightarrow> stack rc003_adapter" where
  "run_stack mtu replies ms =
     (let S = spy_sdk replies (\<lambda>_. True) in fold (deliver_msg spy_running spy_finish (stack_host mtu S)) ms (stack_start mtu S))"

text \<open>The peer answers: its MTU, the GATT service, the Service Changed characteristic, its descriptor, the subscription.\<close>

definition first_answers :: "gatt_msg list" where
  "first_answers = map (\<lambda>(st, b). \<lparr>gm_conn = 1, gm_status = st, gm_body = b\<rparr>)
     [(SUCCESS, ATT_EXCHANGE_MTU_RSP 100),
      (bleProcedureComplete, ATT_FIND_BY_TYPE_VALUE_RSP 1 (Some [1, 0, 9, 0])),
      (bleProcedureComplete, ATT_READ_BY_TYPE_RSP 1 7 (Some [2, 0, 0x20, 3, 0, 5, 0x2A])),
      (bleProcedureComplete, ATT_FIND_INFO_RSP 1 1 (Some [4, 0, 2, 0x29])),
      (SUCCESS, ATT_WRITE_RSP)]"

definition busy_at :: "nat \<Rightarrow> nat \<Rightarrow> u8" where
  "busy_at n i = (if i = n then blePending else SUCCESS)"

text \<open>
  With a Bluetooth library that takes every request, the acknowledged subscription leads on to the HID service. When the library
  is busy at the request that follows, the adapter plans to repeat it, but the client still reports the end of the write
  procedure: the adapter takes that for the end of the HID search, which found nothing, and the initialisation fails.
\<close>

lemma refused_after_write:
  "ad_state (env (run_stack 100 (busy_at 100) first_answers)) = ST_FIND_HID_SVC"
  "ad_state (env (run_stack 100 (busy_at 6) first_answers)) = ST_FAILED"
  by code_simp+

end
