(* ===== verification/Usb_Cdc.thy ===== *)
theory Usb_Cdc
  imports Ring
begin

text \<open>
  The USB serial link (\<open>src/firmware/wch/usb_cdc.c\<close>): control transfers on endpoint 0, the notification on
  endpoint 1 and the two data streams on endpoint 2. The statics of the file and the controller
  registers it writes are the record \<open>usb\<close>. What the controller presents to an interrupt, its flags
  and status words, lengths and received bytes, is the record \<open>usb_irq\<close>; the status is read twice, since a SETUP
  packet may arrive while a token is handled. Masking the interrupt makes each task-side call one step.
\<close>

section \<open>Registers and state\<close>

abbreviation (input) RB_UEP_R_TOG :: u8 where "RB_UEP_R_TOG \<equiv> 0x80"
abbreviation (input) RB_UEP_T_TOG :: u8 where "RB_UEP_T_TOG \<equiv> 0x40"
abbreviation (input) MASK_UEP_R_RES :: u8 where "MASK_UEP_R_RES \<equiv> 0x0C"
abbreviation (input) UEP_R_RES_ACK :: u8 where "UEP_R_RES_ACK \<equiv> 0x00"
abbreviation (input) UEP_R_RES_NAK :: u8 where "UEP_R_RES_NAK \<equiv> 0x08"
abbreviation (input) UEP_R_RES_STALL :: u8 where "UEP_R_RES_STALL \<equiv> 0x0C"
abbreviation (input) MASK_UEP_T_RES :: u8 where "MASK_UEP_T_RES \<equiv> 0x03"
abbreviation (input) UEP_T_RES_ACK :: u8 where "UEP_T_RES_ACK \<equiv> 0x00"
abbreviation (input) UEP_T_RES_NAK :: u8 where "UEP_T_RES_NAK \<equiv> 0x02"
abbreviation (input) UEP_T_RES_STALL :: u8 where "UEP_T_RES_STALL \<equiv> 0x03"
abbreviation (input) RB_UIF_BUS_RST :: u8 where "RB_UIF_BUS_RST \<equiv> 0x01"
abbreviation (input) RB_UIF_TRANSFER :: u8 where "RB_UIF_TRANSFER \<equiv> 0x02"
abbreviation (input) RB_UIF_SUSPEND :: u8 where "RB_UIF_SUSPEND \<equiv> 0x04"
abbreviation (input) RB_U_TOG_OK :: u8 where "RB_U_TOG_OK \<equiv> 0x40"
abbreviation (input) RB_UIS_SETUP_ACT :: u8 where "RB_UIS_SETUP_ACT \<equiv> 0x80"
abbreviation (input) MASK_UIS_TOKEN :: u8 where "MASK_UIS_TOKEN \<equiv> 0x30"
abbreviation (input) MASK_UIS_ENDP :: u8 where "MASK_UIS_ENDP \<equiv> 0x0F"
abbreviation (input) UIS_TOKEN_OUT :: u8 where "UIS_TOKEN_OUT \<equiv> 0x00"
abbreviation (input) UIS_TOKEN_IN :: u8 where "UIS_TOKEN_IN \<equiv> 0x20"
abbreviation (input) RB_UMS_SUSPEND :: u8 where "RB_UMS_SUSPEND \<equiv> 0x04"
abbreviation (input) RX_RING :: nat where "RX_RING \<equiv> 64"
abbreviation (input) TX_RING :: nat where "TX_RING \<equiv> 512"

datatype ep_state = EP_IDLE | EP_DATA_IN | EP_STATUS_OUT | EP_STATUS_IN | EP_LINE_OUT

text \<open>\<open>ctrl_rest\<close> is the \<open>ctrl_left\<close> bytes at \<open>ctrl_ptr\<close>.\<close>

record usb =
  uep0_ctrl :: u8
  uep0_t_len :: nat
  uep1_ctrl :: u8
  uep1_t_len :: nat
  uep2_ctrl :: u8
  uep2_t_len :: nat
  usb_dev_ad :: u8
  usb_int_fg :: u8
  ep0_buf :: "u8 list"
  ep1_buf :: "u8 list"
  ep2_buf :: "u8 list"
  rx_ring :: "u8 list"
  tx_ring :: "u8 list"
  rx_head :: nat
  rx_tail :: nat
  rx_len :: nat
  tx_head :: nat
  tx_tail :: nat
  tx_len :: nat
  tx_inflight :: bool
  tx_zlp :: bool
  configured :: bool
  suspended :: bool
  dtr_on :: bool
  halt_in :: bool
  halt_out :: bool
  lifecycle_lost :: bool
  line_coding :: "u8 list"
  setup_req :: "u8 list"
  serial_desc :: "u8 list"
  ctrl_rest :: "u8 list"
  ctrl_zlp :: bool
  pending_address :: u8
  address_pending :: bool
  ctrl_state :: ep_state

record usb_irq =
  iq_flags :: u8
  iq_status :: u8
  iq_status_late :: u8
  iq_rx_len :: nat
  iq_mis_st :: u8
  iq_ep0 :: "u8 list"
  iq_ep0_late :: "u8 list"
  iq_ep2 :: "u8 list"

section \<open>Descriptors\<close>

definition dev_desc :: "u8 list" where
  "dev_desc = [0x12, 0x01, 0x10, 0x01, 0x02, 0x00, 0x00, 0x40, 0x86, 0x1A, 0x57, 0x58,
     0x01, 0x00, 0x01, 0x02, 0x03, 0x01]"

abbreviation (input) CFG_DESC_LEN :: nat where "CFG_DESC_LEN \<equiv> 75"

definition cfg_desc :: "u8 list" where
  "cfg_desc =
    [0x09, 0x02, of_nat CFG_DESC_LEN, of_nat (CFG_DESC_LEN div 256), 0x02, 0x01, 0x00, 0x80, 0x32] @
    [0x08, 0x0B, 0x00, 0x02, 0x02, 0x02, 0x01, 0x00] @
    [0x09, 0x04, 0x00, 0x00, 0x01, 0x02, 0x02, 0x01, 0x00] @
    [0x05, 0x24, 0x00, 0x10, 0x01] @ [0x05, 0x24, 0x01, 0x00, 0x01] @ [0x04, 0x24, 0x02, 0x02] @
    [0x05, 0x24, 0x06, 0x00, 0x01] @ [0x07, 0x05, 0x81, 0x03, 0x10, 0x00, 0x01] @
    [0x09, 0x04, 0x01, 0x00, 0x02, 0x0A, 0x00, 0x00, 0x00] @
    [0x07, 0x05, 0x02, 0x02, 0x40, 0x00, 0x00] @ [0x07, 0x05, 0x82, 0x02, 0x40, 0x00, 0x00]"

definition wide :: "string \<Rightarrow> u8 list" where
  "wide t = concat (map (\<lambda>c. [of_char c, 0]) t)"

definition lang_desc :: "u8 list" where "lang_desc = [0x04, 0x03, 0x09, 0x04]"
definition mfr_desc :: "u8 list" where "mfr_desc = [0x0E, 0x03] @ wide ''RBP BR''"
definition prod_desc :: "u8 list" where "prod_desc = [0x18, 0x03] @ wide ''Bridge USB'' @ [0, 0]"

section \<open>Data endpoint\<close>

definition set_r_res :: "u8 \<Rightarrow> u8 \<Rightarrow> u8" where
  "set_r_res v c = (c AND NOT MASK_UEP_R_RES) OR v"

definition set_t_res :: "u8 \<Rightarrow> u8 \<Rightarrow> u8" where
  "set_t_res v c = (c AND NOT MASK_UEP_T_RES) OR v"

definition rx_arm :: "usb \<Rightarrow> usb" where
  "rx_arm u = u\<lparr>uep2_ctrl := set_r_res
     (if halt_out u then UEP_R_RES_STALL
      else if configured u \<and> \<not> suspended u \<and> \<not> lifecycle_lost u \<and> RX_RING - rx_len u \<ge> 64
      then UEP_R_RES_ACK else UEP_R_RES_NAK) (uep2_ctrl u)\<rparr>"

definition data_reset :: "bool \<Rightarrow> usb \<Rightarrow> usb" where
  "data_reset reset_toggles u =
     u\<lparr>rx_head := 0, rx_tail := 0, rx_len := 0, tx_head := 0, tx_tail := 0, tx_len := 0,
       tx_inflight := False, tx_zlp := False, uep2_t_len := 0,
       uep2_ctrl := (if reset_toggles then 0 else uep2_ctrl u AND (RB_UEP_R_TOG OR RB_UEP_T_TOG))
         OR (if halt_out u then UEP_R_RES_STALL else UEP_R_RES_NAK)
         OR (if halt_in u then UEP_T_RES_STALL else UEP_T_RES_NAK)\<rparr>"

definition lose_transport :: "usb \<Rightarrow> usb" where
  "lose_transport u = data_reset False (u\<lparr>lifecycle_lost := True\<rparr>)"

text \<open>The loop of \<open>tx_kick\<close> takes at most \<open>k\<close> bytes from the ring.\<close>

fun tx_take :: "nat \<Rightarrow> usb \<Rightarrow> u8 list \<times> usb" where
  "tx_take 0 u = ([], u)"
| "tx_take (Suc k) u =
     (if tx_len u = 0 then ([], u)
      else let b = tx_ring u ! tx_tail u;
               (bs, u) = tx_take k (u\<lparr>tx_tail := (tx_tail u + 1) mod TX_RING, tx_len := tx_len u - 1\<rparr>)
           in (b # bs, u))"

definition tx_kick :: "usb \<Rightarrow> usb" where
  "tx_kick u =
     (if tx_inflight u \<or> halt_in u \<or> \<not> configured u \<or> suspended u \<or> lifecycle_lost u then u
      else if tx_len u = 0 \<and> \<not> tx_zlp u then u
      else
        let (bs, u) = tx_take 64 u
        in u\<lparr>ep2_buf := memcpy_at (ep2_buf u) 64 bs, tx_zlp := (length bs = 64), tx_inflight := True,
             uep2_t_len := length bs, uep2_ctrl := set_t_res UEP_T_RES_ACK (uep2_ctrl u)\<rparr>)"

fun rx_put :: "u8 list \<Rightarrow> usb \<Rightarrow> usb" where
  "rx_put [] u = u"
| "rx_put (b # bs) u =
     rx_put bs (u\<lparr>rx_ring := (rx_ring u)[rx_head u := b], rx_head := (rx_head u + 1) mod RX_RING,
                  rx_len := rx_len u + 1\<rparr>)"

section \<open>Control endpoint\<close>

abbreviation (input) BOTH_TOG :: u8 where "BOTH_TOG \<equiv> 0xC0"

definition ctrl_stall :: "usb \<Rightarrow> usb" where
  "ctrl_stall u = u\<lparr>ctrl_state := EP_IDLE,
     uep0_ctrl := BOTH_TOG OR UEP_R_RES_STALL OR UEP_T_RES_STALL\<rparr>"

definition ctrl_next :: "usb \<Rightarrow> usb" where
  "ctrl_next u =
     (let bs = take 64 (ctrl_rest u)
      in u\<lparr>ep0_buf := memcpy_at (ep0_buf u) 0 bs, ctrl_rest := drop 64 (ctrl_rest u),
           ctrl_zlp := (if bs = [] then False else ctrl_zlp u), uep0_t_len := length bs,
           uep0_ctrl := (uep0_ctrl u AND BOTH_TOG) OR UEP_R_RES_NAK OR UEP_T_RES_ACK\<rparr>)"

definition ctrl_send :: "u8 list \<Rightarrow> nat \<Rightarrow> usb \<Rightarrow> usb" where
  "ctrl_send data requested u =
     (let rest = take requested data
      in ctrl_next (u\<lparr>ctrl_rest := rest, ctrl_zlp := (length data < requested \<and> length rest mod 64 = 0),
                      ctrl_state := EP_DATA_IN, uep0_ctrl := BOTH_TOG\<rparr>))"

definition ctrl_status :: "usb \<Rightarrow> usb" where
  "ctrl_status u = u\<lparr>ctrl_state := EP_STATUS_IN, uep0_t_len := 0,
     uep0_ctrl := BOTH_TOG OR UEP_R_RES_NAK OR UEP_T_RES_ACK\<rparr>"

definition serial_state :: "usb \<Rightarrow> usb" where
  "serial_state u =
     (if \<not> configured u then u
      else u\<lparr>ep1_buf := memcpy_at (ep1_buf u) 0 [0xA1, 0x20, 0, 0, 0, 0, 2, 0, 3, 0], uep1_t_len := 10,
             uep1_ctrl := set_t_res UEP_T_RES_ACK (uep1_ctrl u)\<rparr>)"

definition req16 :: "u8 list \<Rightarrow> nat \<Rightarrow> u16" where
  "req16 r i = ucast (r ! i) OR push_bit 8 (ucast (r ! (i + 1)))"

text \<open>GET_DESCRIPTOR: the data, if the device has it.\<close>

definition descriptor :: "u16 \<Rightarrow> usb \<Rightarrow> u8 list option" where
  "descriptor val u =
     (if val = 0x0100 then Some dev_desc
      else if val = 0x0200 then Some cfg_desc
      else if val = 0x0300 then Some lang_desc
      else if val = 0x0301 then Some mfr_desc
      else if val = 0x0302 then Some prod_desc
      else if val = 0x0303 then Some (serial_desc u)
      else None)"

text \<open>GET_STATUS: the first byte of the answer, if the recipient exists.\<close>

definition status_byte :: "u8 \<Rightarrow> u16 \<Rightarrow> usb \<Rightarrow> u8 option" where
  "status_byte typ index u =
     (let stalled = (\<lambda>mask v c. if c AND mask = v then 1 else 0) in
      if typ = 0x81 then (if index > 1 then None else Some 0)
      else if typ = 0x82 then
        (if index = 0x82 then Some (stalled MASK_UEP_T_RES UEP_T_RES_STALL (uep2_ctrl u))
         else if index = 2 then Some (stalled MASK_UEP_R_RES UEP_R_RES_STALL (uep2_ctrl u))
         else if index = 0x81 then Some (stalled MASK_UEP_T_RES UEP_T_RES_STALL (uep1_ctrl u))
         else if index = 0 \<or> index = 0x80 then Some 0 else None)
      else Some 0)"

definition set_configuration :: "bool \<Rightarrow> usb \<Rightarrow> usb" where
  "set_configuration on u =
     (let u = (data_reset True (lose_transport (u\<lparr>halt_in := False, halt_out := False\<rparr>)))
                \<lparr>configured := on, uep1_ctrl := UEP_T_RES_NAK\<rparr>
      in ctrl_status (if on then serial_state u else u))"

text \<open>SET_FEATURE and CLEAR_FEATURE of ENDPOINT_HALT.\<close>

definition endpoint_halt :: "bool \<Rightarrow> u16 \<Rightarrow> usb \<Rightarrow> usb" where
  "endpoint_halt on index u =
     (if index = 0x81 then
        ctrl_status (u\<lparr>uep1_ctrl := (if on then (uep1_ctrl u AND RB_UEP_T_TOG) OR UEP_T_RES_STALL
                                    else UEP_T_RES_NAK)\<rparr>)
      else if index \<noteq> 0x82 \<and> index \<noteq> 2 then ctrl_stall u
      else
        let u = lose_transport u;
            u = (if index = 0x82 then
                   u\<lparr>halt_in := on,
                     uep2_ctrl := (uep2_ctrl u AND NOT (MASK_UEP_T_RES OR (if on then 0 else RB_UEP_T_TOG)))
                       OR (if on then UEP_T_RES_STALL else UEP_T_RES_NAK)\<rparr>
                 else
                   u\<lparr>halt_out := on,
                     uep2_ctrl := (uep2_ctrl u AND NOT (MASK_UEP_R_RES OR (if on then 0 else RB_UEP_R_TOG)))
                       OR (if on then UEP_R_RES_STALL else UEP_R_RES_NAK)\<rparr>)
        in ctrl_status (rx_arm u))"

definition usb_setup :: "usb \<Rightarrow> usb" where
  "usb_setup u =
     (let r = setup_req u; typ = r ! 0; req = r ! 1; val = req16 r 2; index = req16 r 4; len = req16 r 6;
          u = u\<lparr>ctrl_rest := [], ctrl_zlp := False, address_pending := False\<rparr>
      in if typ = 0x80 \<and> req = 6 then
           (case descriptor val u of Some d \<Rightarrow> ctrl_send d (unat len) u | None \<Rightarrow> ctrl_stall u)
         else if typ = 0 \<and> req = 5 \<and> val < 128 \<and> index = 0 \<and> len = 0 then
           ctrl_status (u\<lparr>pending_address := ucast val, address_pending := True\<rparr>)
         else if typ = 0 \<and> req = 9 \<and> val \<le> 1 \<and> index = 0 \<and> len = 0 then set_configuration (val \<noteq> 0) u
         else if typ = 0x80 \<and> req = 8 \<and> val = 0 \<and> index = 0 \<and> len = 1 then
           ctrl_send [if configured u then 1 else 0] (unat len) u
         else if req = 0 \<and> val = 0 \<and> len = 2 \<and> (typ = 0x80 \<or> typ = 0x81 \<or> typ = 0x82) then
           (case status_byte typ index u of Some b \<Rightarrow> ctrl_send [b, 0] (unat len) u | None \<Rightarrow> ctrl_stall u)
         else if typ = 2 \<and> (req = 1 \<or> req = 3) \<and> val = 0 \<and> len = 0 then endpoint_halt (req = 3) index u
         else if typ = 0x81 \<and> req = 10 \<and> val = 0 \<and> index < 2 \<and> len = 1 then ctrl_send [0] (unat len) u
         else if typ = 1 \<and> req = 11 \<and> val = 0 \<and> index < 2 \<and> len = 0 then ctrl_status u
         else if typ = 0x21 \<and> index = 0 \<and> req = 0x20 \<and> len = 7 \<and> val = 0 then
           u\<lparr>ctrl_state := EP_LINE_OUT, uep0_ctrl := BOTH_TOG OR UEP_R_RES_ACK OR UEP_T_RES_NAK\<rparr>
         else if typ = 0x21 \<and> index = 0 \<and> req = 0x22 \<and> len = 0 \<and> val \<le> 3 then
           ctrl_status (u\<lparr>dtr_on := (val AND 1 \<noteq> 0)\<rparr>)
         else if typ = 0xA1 \<and> req = 0x21 \<and> index = 0 \<and> val = 0 \<and> len = 7 then ctrl_send (line_coding u) (unat len) u
         else ctrl_stall u)"

section \<open>The interrupt handler\<close>

abbreviation (input) EP0_READY :: u8 where "EP0_READY \<equiv> UEP_R_RES_ACK OR UEP_T_RES_NAK"

definition ack_flags :: "u8 \<Rightarrow> usb \<Rightarrow> usb" where
  "ack_flags m u = u\<lparr>usb_int_fg := usb_int_fg u AND NOT m\<rparr>"

definition isr_bus_reset :: "usb \<Rightarrow> usb" where
  "isr_bus_reset u =
     (let flags = usb_int_fg u;
          u = u\<lparr>usb_dev_ad := 0, configured := False, suspended := False, dtr_on := False, halt_in := False,
                halt_out := False, ctrl_state := EP_IDLE, address_pending := False\<rparr>;
          u = (data_reset True (lose_transport u))\<lparr>uep0_ctrl := EP0_READY, uep1_ctrl := UEP_T_RES_NAK\<rparr>
      in ack_flags (RB_UIF_BUS_RST OR RB_UIF_TRANSFER OR (flags AND RB_UIF_SUSPEND)) u)"

definition isr_out_data :: "usb_irq \<Rightarrow> usb \<Rightarrow> usb" where
  "isr_out_data q u =
     (if usb_int_fg u AND RB_U_TOG_OK = 0 then u
      else
        let u = u\<lparr>uep2_ctrl := uep2_ctrl u XOR RB_UEP_R_TOG\<rparr>; n = iq_rx_len q
        in rx_arm (if n > 64 \<or> RX_RING - rx_len u < n then lose_transport u
                   else rx_put (take n (ep2_buf u)) u))"

definition isr_in_data :: "usb \<Rightarrow> usb" where
  "isr_in_data u =
     tx_kick (u\<lparr>uep2_ctrl := set_t_res UEP_T_RES_NAK (uep2_ctrl u XOR RB_UEP_T_TOG), tx_inflight := False\<rparr>)"

definition isr_in_notification :: "usb \<Rightarrow> usb" where
  "isr_in_notification u = u\<lparr>uep1_ctrl := set_t_res UEP_T_RES_NAK (uep1_ctrl u XOR RB_UEP_T_TOG)\<rparr>"

definition isr_in_control :: "bool \<Rightarrow> usb \<Rightarrow> usb" where
  "isr_in_control setup_pending u =
     (if ctrl_state u = EP_DATA_IN \<and> \<not> setup_pending then
        let u = u\<lparr>uep0_ctrl := uep0_ctrl u XOR RB_UEP_T_TOG\<rparr>
        in if ctrl_rest u \<noteq> [] \<or> ctrl_zlp u then ctrl_next u
           else u\<lparr>ctrl_state := EP_STATUS_OUT, uep0_ctrl := RB_UEP_R_TOG OR UEP_R_RES_ACK OR UEP_T_RES_NAK\<rparr>
      else if ctrl_state u = EP_STATUS_IN then
        let u = (if address_pending u then u\<lparr>usb_dev_ad := pending_address u, address_pending := False\<rparr> else u)
        in u\<lparr>ctrl_state := EP_IDLE, uep0_ctrl := EP0_READY\<rparr>
      else u)"

definition isr_out_control :: "usb_irq \<Rightarrow> bool \<Rightarrow> usb \<Rightarrow> usb" where
  "isr_out_control q setup_pending u =
     (if setup_pending \<or> usb_int_fg u AND RB_U_TOG_OK = 0 then u
      else if ctrl_state u = EP_LINE_OUT \<and> iq_rx_len q = 7 then
        ctrl_status (u\<lparr>line_coding := take 7 (ep0_buf u)\<rparr>)
      else if ctrl_state u = EP_STATUS_OUT \<and> iq_rx_len q = 0 then
        u\<lparr>ctrl_state := EP_IDLE, uep0_ctrl := EP0_READY\<rparr>
      else ctrl_stall u)"

definition isr_token :: "usb_irq \<Rightarrow> bool \<Rightarrow> usb \<Rightarrow> usb" where
  "isr_token q setup_pending u =
     (let t = iq_status q AND (MASK_UIS_TOKEN OR MASK_UIS_ENDP) in
      if t = UIS_TOKEN_OUT OR 2 then isr_out_data q u
      else if t = UIS_TOKEN_IN OR 2 then isr_in_data u
      else if t = UIS_TOKEN_IN OR 1 then isr_in_notification u
      else if t = UIS_TOKEN_IN then isr_in_control setup_pending u
      else if t = UIS_TOKEN_OUT then isr_out_control q setup_pending u
      else u)"

definition isr_transfer :: "usb_irq \<Rightarrow> usb \<Rightarrow> usb" where
  "isr_transfer q u =
     (let setup_pending = (iq_status q AND RB_UIS_SETUP_ACT \<noteq> 0);
          u = (if setup_pending then u\<lparr>setup_req := take 8 (ep0_buf u)\<rparr> else u);
          u = (if iq_status q AND MASK_UIS_TOKEN \<noteq> MASK_UIS_TOKEN
               then ack_flags RB_UIF_TRANSFER (isr_token q setup_pending u) else u)
      in if iq_status_late q AND RB_UIS_SETUP_ACT \<noteq> 0 then
           let u = u\<lparr>ep0_buf := memcpy_at (ep0_buf u) 0 (iq_ep0_late q),
                     uep0_ctrl := BOTH_TOG OR UEP_R_RES_ACK OR UEP_T_RES_NAK\<rparr>;
               u = (if setup_pending then u else u\<lparr>setup_req := take 8 (ep0_buf u)\<rparr>)
           in ack_flags RB_UIF_TRANSFER (usb_setup u)
         else u)"

definition isr_suspend :: "usb_irq \<Rightarrow> usb \<Rightarrow> usb" where
  "isr_suspend q u =
     (let u = u\<lparr>suspended := (iq_mis_st q AND RB_UMS_SUSPEND \<noteq> 0)\<rparr>
      in ack_flags RB_UIF_SUSPEND (if suspended u then lose_transport u else u))"

text \<open>The controller raises its flags and has stored what it received.\<close>

definition usb_raise :: "usb_irq \<Rightarrow> usb \<Rightarrow> usb" where
  "usb_raise q u = u\<lparr>usb_int_fg := iq_flags q, ep0_buf := memcpy_at (ep0_buf u) 0 (iq_ep0 q),
     ep2_buf := memcpy_at (ep2_buf u) 0 (iq_ep2 q)\<rparr>"

definition USB_IRQHandler :: "usb_irq \<Rightarrow> usb \<Rightarrow> usb" where
  "USB_IRQHandler q u =
     (let u = usb_raise q u; flags = iq_flags q in
      if flags AND RB_UIF_BUS_RST \<noteq> 0 then isr_bus_reset u
      else
        let u = (if flags AND RB_UIF_TRANSFER \<noteq> 0 then isr_transfer q u else u)
        in if flags AND RB_UIF_SUSPEND \<noteq> 0 then isr_suspend q u else u)"

section \<open>Task side\<close>

definition serial_digits :: "u8 list \<Rightarrow> u8 list" where
  "serial_digits uid =
     [34, 3] @ concat (map (\<lambda>k. [of_char (''0123456789ABCDEF'' !
        unat ((if odd k then uid ! (k div 2) else drop_bit 4 (uid ! (k div 2))) AND 15)), 0]) [0..<16])"

definition usb_cdc_init :: "u8 list option \<Rightarrow> usb \<Rightarrow> usb" where
  "usb_cdc_init uid u =
     (case uid of
        None \<Rightarrow> u
      | Some d \<Rightarrow>
          (data_reset True (u\<lparr>serial_desc := serial_digits d\<rparr>))
            \<lparr>uep0_ctrl := EP0_READY, uep1_ctrl := UEP_T_RES_NAK, usb_dev_ad := 0, usb_int_fg := 0\<rparr>)"

definition usb_cdc_take_lost :: "usb \<Rightarrow> bool \<times> usb" where
  "usb_cdc_take_lost u = (lifecycle_lost u, rx_arm (u\<lparr>lifecycle_lost := False\<rparr>))"

fun rx_take :: "nat \<Rightarrow> usb \<Rightarrow> u8 list \<times> usb" where
  "rx_take 0 u = ([], u)"
| "rx_take (Suc k) u =
     (if rx_len u = 0 then ([], u)
      else let b = rx_ring u ! rx_tail u;
               (bs, u) = rx_take k (u\<lparr>rx_tail := (rx_tail u + 1) mod RX_RING, rx_len := rx_len u - 1\<rparr>)
           in (b # bs, u))"

definition usb_cdc_read :: "nat \<Rightarrow> usb \<Rightarrow> u8 list \<times> usb" where
  "usb_cdc_read cap u = (let (bs, u) = rx_take cap u in (bs, rx_arm u))"

fun tx_put :: "u8 list \<Rightarrow> usb \<Rightarrow> nat \<times> usb" where
  "tx_put [] u = (0, u)"
| "tx_put (b # bs) u =
     (if tx_len u \<ge> TX_RING then (0, u)
      else let (n, u) = tx_put bs (u\<lparr>tx_ring := (tx_ring u)[tx_head u := b],
                          tx_head := (tx_head u + 1) mod TX_RING, tx_len := tx_len u + 1\<rparr>)
           in (n + 1, u))"

definition usb_cdc_write :: "u8 list \<Rightarrow> usb \<Rightarrow> nat \<times> usb" where
  "usb_cdc_write data u =
     (let (n, u) = (if configured u \<and> \<not> suspended u \<and> \<not> lifecycle_lost u then tx_put data u else (0, u))
      in (n, tx_kick u))"

definition usb_cdc_flush_tx :: "usb \<Rightarrow> usb" where
  "usb_cdc_flush_tx u = tx_kick u"

definition usb_cdc_dtr :: "usb \<Rightarrow> bool" where
  "usb_cdc_dtr u = dtr_on u"

text \<open>The statics when power comes on.\<close>

definition usb_boot :: usb where
  "usb_boot =
     \<lparr>uep0_ctrl = 0, uep0_t_len = 0, uep1_ctrl = 0, uep1_t_len = 0, uep2_ctrl = 0, uep2_t_len = 0,
      usb_dev_ad = 0, usb_int_fg = 0, ep0_buf = replicate 64 0, ep1_buf = replicate 16 0,
      ep2_buf = replicate 128 0, rx_ring = replicate RX_RING 0, tx_ring = replicate TX_RING 0,
      rx_head = 0, rx_tail = 0, rx_len = 0, tx_head = 0, tx_tail = 0, tx_len = 0, tx_inflight = False,
      tx_zlp = False, configured = False, suspended = False, dtr_on = False, halt_in = False,
      halt_out = False, lifecycle_lost = False, line_coding = [0x00, 0xC2, 0x01, 0, 0, 0, 8],
      setup_req = replicate 8 0, serial_desc = replicate 34 0, ctrl_rest = [], ctrl_zlp = False,
      pending_address = 0, address_pending = False, ctrl_state = EP_IDLE\<rparr>"

end
