(* ===== verification/Usb_Facts.thy ===== *)
theory Usb_Facts
  imports Usb_Cdc
begin

text \<open>
  What the USB serial link promises: the state stays well formed under every interrupt and call, data waits in a queue only while
  a packet is on its way, packets that the controller may accept fit, both byte streams are exact until the transport
  is lost, and a control transfer sends what was asked for.
\<close>

section \<open>Runs\<close>

datatype usb_event = Irq usb_irq | Take_lost | Read nat | Write "u8 list" | Flush

fun usb_step :: "usb_event \<Rightarrow> usb \<Rightarrow> usb" where
  "usb_step (Irq q) u = USB_IRQHandler q u"
| "usb_step Take_lost u = snd (usb_cdc_take_lost u)"
| "usb_step (Read cap) u = snd (usb_cdc_read cap u)"
| "usb_step (Write data) u = snd (usb_cdc_write data u)"
| "usb_step Flush u = usb_cdc_flush_tx u"

definition usb_start :: "u8 list \<Rightarrow> usb" where
  "usb_start uid = usb_cdc_init (Some uid) usb_boot"

section \<open>Bits of the control register\<close>

definition r_res :: "u8 \<Rightarrow> u8" where
  "r_res c = c AND MASK_UEP_R_RES"

lemma r_res_set_r: "r_res (set_r_res v c) = v AND MASK_UEP_R_RES"
  by (simp add: r_res_def set_r_res_def bit.conj_disj_distrib2 and.assoc)

lemma r_res_set_t:
  "v \<in> {UEP_T_RES_ACK, UEP_T_RES_NAK, UEP_T_RES_STALL} \<Longrightarrow> r_res (set_t_res v c) = r_res c"
  by (auto simp: r_res_def set_t_res_def bit.conj_disj_distrib2 and.assoc)

lemma r_res_toggle [simp]: "r_res (c XOR RB_UEP_T_TOG) = r_res c" "r_res (c XOR RB_UEP_R_TOG) = r_res c"
  by (simp_all add: r_res_def bit.conj_xor_distrib2)

section \<open>Well-formed states\<close>

text \<open>The queues: sizes, indices, and where the bytes are.\<close>

definition rx_items :: "usb \<Rightarrow> u8 list" where
  "rx_items u = ring_items (rx_ring u) (rx_tail u) (rx_len u)"

definition tx_items :: "usb \<Rightarrow> u8 list" where
  "tx_items u = ring_items (tx_ring u) (tx_tail u) (tx_len u)"

definition rings_ok :: "usb \<Rightarrow> bool" where
  "rings_ok u \<longleftrightarrow> length (rx_ring u) = RX_RING \<and> length (tx_ring u) = TX_RING
     \<and> rx_len u \<le> RX_RING \<and> tx_len u \<le> TX_RING \<and> rx_tail u < RX_RING \<and> tx_tail u < TX_RING
     \<and> rx_head u = (rx_tail u + rx_len u) mod RX_RING \<and> tx_head u = (tx_tail u + tx_len u) mod TX_RING"

definition buffers_ok :: "usb \<Rightarrow> bool" where
  "buffers_ok u \<longleftrightarrow> length (ep0_buf u) = 64 \<and> length (ep1_buf u) = 16 \<and> length (ep2_buf u) = 128
     \<and> uep0_t_len u \<le> 64 \<and> uep1_t_len u \<le> 16 \<and> uep2_t_len u \<le> 64
     \<and> length (setup_req u) = 8 \<and> length (line_coding u) = 7 \<and> length (serial_desc u) = 34"

text \<open>The data endpoint sends and receives when these hold.\<close>

definition usb_open :: "usb \<Rightarrow> bool" where
  "usb_open u \<longleftrightarrow> configured u \<and> \<not> suspended u \<and> \<not> lifecycle_lost u"

definition armed :: "usb \<Rightarrow> bool" where
  "armed u \<longleftrightarrow> r_res (uep2_ctrl u) = UEP_R_RES_ACK"

definition tx_idle :: "usb \<Rightarrow> bool" where
  "tx_idle u \<longleftrightarrow> tx_len u = 0 \<and> \<not> tx_inflight u \<and> \<not> tx_zlp u"

definition flow_ok :: "usb \<Rightarrow> bool" where
  "flow_ok u \<longleftrightarrow> (armed u \<longrightarrow> usb_open u \<and> rx_len u = 0) \<and> (\<not> usb_open u \<longrightarrow> tx_idle u)
     \<and> (lifecycle_lost u \<longrightarrow> rx_len u = 0)
     \<and> (usb_open u \<and> \<not> halt_in u \<and> \<not> tx_inflight u \<longrightarrow> tx_idle u)"

definition usb_inv :: "usb \<Rightarrow> bool" where
  "usb_inv u \<longleftrightarrow> rings_ok u \<and> buffers_ok u \<and> flow_ok u"

lemmas usb_inv_defs = usb_inv_def rings_ok_def buffers_ok_def flow_ok_def usb_open_def armed_def tx_idle_def

lemma usb_start_inv: "length uid = 16 \<Longrightarrow> usb_inv (usb_start uid)"
  by (simp add: usb_start_def usb_cdc_init_def usb_boot_def data_reset_def serial_digits_def usb_inv_defs r_res_def
      map_replicate_const sum_list_replicate length_concat comp_def)

section \<open>The data endpoint\<close>

lemma data_reset_not_armed: "r_res (uep2_ctrl (data_reset b u)) \<noteq> UEP_R_RES_ACK"
  by (simp add: data_reset_def r_res_def bit.conj_disj_distrib2 and.assoc)

lemma lose_inv:
  assumes "rings_ok u" and "buffers_ok u"
  shows "usb_inv (lose_transport u)"
  using assms data_reset_not_armed [of False "u\<lparr>lifecycle_lost := True\<rparr>"]
  by (simp add: lose_transport_def usb_inv_defs) (simp add: data_reset_def)

lemma rx_arm_fields [simp]:
  "rings_ok (rx_arm u) = rings_ok u" "buffers_ok (rx_arm u) = buffers_ok u" "usb_open (rx_arm u) = usb_open u"
  "tx_idle (rx_arm u) = tx_idle u" "rx_len (rx_arm u) = rx_len u" "halt_in (rx_arm u) = halt_in u"
  "tx_inflight (rx_arm u) = tx_inflight u" "lifecycle_lost (rx_arm u) = lifecycle_lost u"
  by (simp_all add: rx_arm_def usb_inv_defs)

lemma rx_arm_armed: "armed (rx_arm u) \<Longrightarrow> usb_open u \<and> RX_RING - rx_len u \<ge> 64"
  unfolding armed_def rx_arm_def by (auto simp: r_res_set_r usb_open_def split: if_splits)

text \<open>Arming does not need the old register to be right.\<close>

lemma rx_arm_inv:
  assumes "rings_ok u" "buffers_ok u" "\<not> usb_open u \<longrightarrow> tx_idle u" "lifecycle_lost u \<longrightarrow> rx_len u = 0"
    "usb_open u \<and> \<not> halt_in u \<and> \<not> tx_inflight u \<longrightarrow> tx_idle u"
  shows "usb_inv (rx_arm u)"
  using assms rx_arm_armed [of u] by (auto simp: usb_inv_def flow_ok_def)

text \<open>Updates that change nothing.\<close>

lemma tx_tail_same: "tx_len u = n \<Longrightarrow> \<exists>t. u = u\<lparr>tx_tail := t, tx_len := n\<rparr>"
  by (rule exI [of _ "tx_tail u"]) simp

lemma rx_tail_same: "rx_len u = n \<Longrightarrow> \<exists>t. u = u\<lparr>rx_tail := t, rx_len := n\<rparr>"
  by (rule exI [of _ "rx_tail u"]) simp

lemma tx_head_same: "\<exists>r h k. u = u\<lparr>tx_ring := r, tx_head := h, tx_len := k\<rparr>"
  by (rule exI [of _ "tx_ring u"], rule exI [of _ "tx_head u"], rule exI [of _ "tx_len u"]) simp

lemma rx_head_same: "\<exists>r h k. u = u\<lparr>rx_ring := r, rx_head := h, rx_len := k\<rparr>"
  by (rule exI [of _ "rx_ring u"], rule exI [of _ "rx_head u"], rule exI [of _ "rx_len u"]) simp

lemma rx_arm_kept: "usb_inv u \<Longrightarrow> usb_inv (rx_arm u)"
  by (rule rx_arm_inv) (simp_all add: usb_inv_def flow_ok_def)

lemma lose_lost [simp]: "lifecycle_lost (lose_transport u)"
  by (simp add: lose_transport_def data_reset_def)

lemma tx_take_items:
  assumes "rings_ok u" and "tx_take k u = (bs, u')"
  shows "bs = take k (tx_items u) \<and> tx_items u' = drop k (tx_items u) \<and> rings_ok u'
    \<and> (\<exists>t. u' = u\<lparr>tx_tail := t, tx_len := tx_len u - length bs\<rparr>) \<and> length bs \<le> k"
  using assms
proof (induction k arbitrary: u bs u')
  case 0
  then show ?case using tx_tail_same [of u, OF refl] by auto
next
  case (Suc k)
  show ?case
  proof (cases "tx_len u = 0")
    case True
    then show ?thesis using Suc.prems tx_tail_same [OF True] by (auto simp: tx_items_def)
  next
    case False
    let ?v = "u\<lparr>tx_tail := (tx_tail u + 1) mod TX_RING, tx_len := tx_len u - 1\<rparr>"
    obtain m where m: "tx_len u = Suc m" using False by (cases "tx_len u") auto
    have v: "rings_ok ?v"
      using Suc.prems(1) m by (auto simp: rings_ok_def mod_simps add.assoc)
    have i: "tx_items u = tx_ring u ! tx_tail u # tx_items ?v"
      using Suc.prems(1) ring_items_Cons [of "tx_ring u" "tx_tail u" m] m by (simp add: tx_items_def rings_ok_def)
    obtain cs where cs: "tx_take k ?v = (cs, u')" "bs = tx_ring u ! tx_tail u # cs"
      using Suc.prems(2) False by (auto split: prod.splits)
    note ih = Suc.IH [OF v cs(1)]
    then have a: "cs = take k (tx_items ?v)" "tx_items u' = drop k (tx_items ?v)" "rings_ok u'" "length cs \<le> k" by blast+
    from ih obtain t where "u' = ?v\<lparr>tx_tail := t, tx_len := tx_len ?v - length cs\<rparr>" by (elim conjE exE)
    then have "u' = u\<lparr>tx_tail := t, tx_len := tx_len u - length bs\<rparr>" using cs(2) by simp
    then have "\<exists>t. u' = u\<lparr>tx_tail := t, tx_len := tx_len u - length bs\<rparr>" by (rule exI)
    then show ?thesis using a i cs(2) by (intro conjI) simp_all
  qed
qed

definition in_flight :: "usb \<Rightarrow> u8 list" where
  "in_flight u = (if tx_inflight u then take (uep2_t_len u) (drop 64 (ep2_buf u)) else [])"

definition may_send :: "usb \<Rightarrow> bool" where
  "may_send u \<longleftrightarrow> \<not> tx_inflight u \<and> \<not> halt_in u \<and> usb_open u \<and> (tx_len u \<noteq> 0 \<or> tx_zlp u)"

lemma tx_kick_idle: "\<not> may_send u \<Longrightarrow> tx_kick u = u"
  by (auto simp: tx_kick_def may_send_def usb_open_def)

text \<open>A packet takes at most 64 bytes off the queue; a full one asks for another.\<close>

lemma tx_kick_send:
  assumes "rings_ok u" and "buffers_ok u" and "may_send u"
  shows "tx_inflight (tx_kick u)" and "in_flight (tx_kick u) = take 64 (tx_items u)"
    and "tx_items (tx_kick u) = drop 64 (tx_items u)" and "tx_zlp (tx_kick u) = (length (take 64 (tx_items u)) = 64)"
    and "rings_ok (tx_kick u)" and "buffers_ok (tx_kick u)" and "armed (tx_kick u) = armed u"
    and "usb_open (tx_kick u) = usb_open u" and "rx_items (tx_kick u) = rx_items u"
    and "lifecycle_lost (tx_kick u) = lifecycle_lost u" and "rx_len (tx_kick u) = rx_len u"
    and "halt_in (tx_kick u) = halt_in u"
proof -
  obtain bs v where t: "tx_take 64 u = (bs, v)" by (metis surj_pair)
  note k = tx_take_items [OF assms(1) t]
  let ?w = "v\<lparr>ep2_buf := memcpy_at (ep2_buf v) 64 bs, tx_zlp := (length bs = 64), tx_inflight := True,
      uep2_t_len := length bs, uep2_ctrl := set_t_res UEP_T_RES_ACK (uep2_ctrl v)\<rparr>"
  have e: "tx_kick u = ?w"
    using assms(3) t by (auto simp: tx_kick_def may_send_def usb_open_def)
  from k obtain tl where v: "v = u\<lparr>tx_tail := tl, tx_len := tx_len u - length bs\<rparr>" by (elim conjE exE)
  have len: "length (ep2_buf u) = 128" "length bs \<le> 64" using assms(2) k by (simp_all add: buffers_ok_def)
  have bs: "bs = take 64 (tx_items u)" and items: "tx_items v = drop 64 (tx_items u)" "rings_ok v" using k by blast+
  show "tx_inflight (tx_kick u)" "tx_zlp (tx_kick u) = (length (take 64 (tx_items u)) = 64)"
    "rx_items (tx_kick u) = rx_items u" "lifecycle_lost (tx_kick u) = lifecycle_lost u" "rx_len (tx_kick u) = rx_len u"
    "halt_in (tx_kick u) = halt_in u" "usb_open (tx_kick u) = usb_open u" "armed (tx_kick u) = armed u"
    using bs by (simp_all add: e v rx_items_def usb_open_def armed_def r_res_set_t)
  show "in_flight (tx_kick u) = take 64 (tx_items u)"
    unfolding bs [symmetric] using len by (simp add: e v in_flight_def memcpy_at_def)
  show "tx_items (tx_kick u) = drop 64 (tx_items u)" "rings_ok (tx_kick u)"
    using items by (simp_all add: e tx_items_def rings_ok_def)
  show "buffers_ok (tx_kick u)" using len assms(2) by (simp add: e v buffers_ok_def)
qed

text \<open>Kicking restores the invariant: nothing waits while the endpoint is free.\<close>

lemma tx_kick_inv:
  assumes "rings_ok u" "buffers_ok u" "armed u \<longrightarrow> usb_open u \<and> rx_len u = 0" "\<not> usb_open u \<longrightarrow> tx_idle u"
    "lifecycle_lost u \<longrightarrow> rx_len u = 0"
  shows "usb_inv (tx_kick u)"
proof (cases "may_send u")
  case True
  then show ?thesis
    using tx_kick_send [OF assms(1,2) True] assms(3,5) by (auto simp: usb_inv_def flow_ok_def may_send_def)
next
  case False
  then show ?thesis
    using assms tx_kick_idle [OF False] by (auto simp: usb_inv_def flow_ok_def may_send_def tx_idle_def)
qed

lemma tx_kick_stream:
  assumes "rings_ok u" "buffers_ok u"
  shows "in_flight (tx_kick u) @ tx_items (tx_kick u) = in_flight u @ tx_items u"
    and "rx_items (tx_kick u) = rx_items u" and "lifecycle_lost (tx_kick u) = lifecycle_lost u"
  using tx_kick_send [OF assms] tx_kick_idle [of u]
  by (cases "may_send u"; auto simp: may_send_def in_flight_def)+

lemma rx_put_items:
  assumes "rings_ok u" and "rx_len u + length bs \<le> RX_RING"
  shows "rings_ok (rx_put bs u) \<and> rx_items (rx_put bs u) = rx_items u @ bs \<and> rx_len (rx_put bs u) = rx_len u + length bs
    \<and> (\<exists>r h n. rx_put bs u = u\<lparr>rx_ring := r, rx_head := h, rx_len := n\<rparr>)"
  using assms
proof (induction bs arbitrary: u)
  case Nil
  then show ?case using rx_head_same by simp
next
  case (Cons b bs)
  let ?v = "u\<lparr>rx_ring := (rx_ring u)[rx_head u := b], rx_head := (rx_head u + 1) mod RX_RING, rx_len := rx_len u + 1\<rparr>"
  have v: "rings_ok ?v"
    using Cons.prems by (auto simp: rings_ok_def mod_simps)
  have i: "rx_items ?v = rx_items u @ [b]"
    using Cons.prems ring_items_push [of "rx_len u" "rx_ring u" "rx_tail u" b] by (simp add: rx_items_def rings_ok_def)
  have "rings_ok (rx_put bs ?v) \<and> rx_items (rx_put bs ?v) = rx_items ?v @ bs \<and> rx_len (rx_put bs ?v) = rx_len ?v + length bs
      \<and> (\<exists>r h n. rx_put bs ?v = ?v\<lparr>rx_ring := r, rx_head := h, rx_len := n\<rparr>)"
    by (rule Cons.IH [OF v]) (use Cons.prems(2) in simp)
  then show ?case using i by auto
qed

lemma rx_take_items:
  assumes "rings_ok u" and "rx_take k u = (bs, u')"
  shows "bs = take k (rx_items u) \<and> rx_items u' = drop k (rx_items u) \<and> rings_ok u'
    \<and> (\<exists>t. u' = u\<lparr>rx_tail := t, rx_len := rx_len u - length bs\<rparr>)"
  using assms
proof (induction k arbitrary: u bs u')
  case 0
  then show ?case using rx_tail_same [of u, OF refl] by auto
next
  case (Suc k)
  show ?case
  proof (cases "rx_len u = 0")
    case True
    then show ?thesis using Suc.prems rx_tail_same [OF True] by (auto simp: rx_items_def)
  next
    case False
    let ?v = "u\<lparr>rx_tail := (rx_tail u + 1) mod RX_RING, rx_len := rx_len u - 1\<rparr>"
    obtain m where m: "rx_len u = Suc m" using False by (cases "rx_len u") auto
    have v: "rings_ok ?v"
      using Suc.prems(1) m by (auto simp: rings_ok_def mod_simps add.assoc)
    have i: "rx_items u = rx_ring u ! rx_tail u # rx_items ?v"
      using Suc.prems(1) ring_items_Cons [of "rx_ring u" "rx_tail u" m] m by (simp add: rx_items_def rings_ok_def)
    obtain cs where cs: "rx_take k ?v = (cs, u')" "bs = rx_ring u ! rx_tail u # cs"
      using Suc.prems(2) False by (auto split: prod.splits)
    note ih = Suc.IH [OF v cs(1)]
    then have a: "cs = take k (rx_items ?v)" "rx_items u' = drop k (rx_items ?v)" "rings_ok u'" by blast+
    from ih obtain t where "u' = ?v\<lparr>rx_tail := t, rx_len := rx_len ?v - length cs\<rparr>" by (elim conjE exE)
    then have "u' = u\<lparr>rx_tail := t, rx_len := rx_len u - length bs\<rparr>" using cs(2) by simp
    then have "\<exists>t. u' = u\<lparr>rx_tail := t, rx_len := rx_len u - length bs\<rparr>" by (rule exI)
    then show ?thesis using a i cs(2) by (intro conjI) simp_all
  qed
qed

lemma tx_put_items:
  assumes "rings_ok u" and "tx_put bs u = (n, u')"
  shows "n \<le> length bs \<and> tx_items u' = tx_items u @ take n bs \<and> rings_ok u'
    \<and> (\<exists>r h k. u' = u\<lparr>tx_ring := r, tx_head := h, tx_len := k\<rparr>)"
  using assms
proof (induction bs arbitrary: u n u')
  case Nil
  then show ?case using tx_head_same [of u] by auto
next
  case (Cons b bs)
  show ?case
  proof (cases "tx_len u \<ge> TX_RING")
    case True
    then show ?thesis using Cons.prems tx_head_same [of u] by auto
  next
    case False
    let ?v = "u\<lparr>tx_ring := (tx_ring u)[tx_head u := b], tx_head := (tx_head u + 1) mod TX_RING, tx_len := tx_len u + 1\<rparr>"
    have v: "rings_ok ?v" using Cons.prems False by (auto simp: rings_ok_def mod_simps)
    have i: "tx_items ?v = tx_items u @ [b]"
      using Cons.prems False ring_items_push [of "tx_len u" "tx_ring u" "tx_tail u" b]
      by (simp add: tx_items_def rings_ok_def)
    obtain m where m: "tx_put bs ?v = (m, u')" "n = m + 1" using Cons.prems(2) False by (auto split: prod.splits)
    show ?thesis using Cons.IH [OF v m(1)] i m(2) by auto
  qed
qed

section \<open>Streams\<close>

definition streams :: "usb \<Rightarrow> u8 list \<times> u8 list \<times> u8 list \<times> bool" where
  "streams u = (in_flight u, tx_items u, rx_items u, lifecycle_lost u)"

text \<open>A step that keeps the invariant and the streams, or loses the transport.\<close>

definition stays :: "usb \<Rightarrow> usb \<Rightarrow> bool" where
  "stays u v \<longleftrightarrow> usb_inv v \<and> (lifecycle_lost v \<or> streams v = streams u)"

lemma stays_refl: "usb_inv u \<Longrightarrow> stays u u"
  by (simp add: stays_def)

lemma stays_trans: "stays u v \<Longrightarrow> stays v w \<Longrightarrow> stays u w"
  by (auto simp: stays_def streams_def)

lemma stays_then: "stays u v \<Longrightarrow> (usb_inv v \<Longrightarrow> stays v w) \<Longrightarrow> stays u w"
  by (metis stays_def stays_trans)

lemma if_stays: "stays u v \<Longrightarrow> stays u w \<Longrightarrow> stays u (if b then v else w)"
  by simp

lemma option_stays: "stays u v \<Longrightarrow> (\<And>d. stays u (f d)) \<Longrightarrow> stays u (case x of None \<Rightarrow> v | Some d \<Rightarrow> f d)"
  by (cases x) simp_all

lemma lost_stays: "usb_inv v \<Longrightarrow> lifecycle_lost v \<Longrightarrow> stays u v"
  by (simp add: stays_def)

lemma lost_empty: "usb_inv u \<Longrightarrow> lifecycle_lost u \<Longrightarrow> streams u = ([], [], [], True)"
  by (simp add: usb_inv_defs streams_def in_flight_def tx_items_def rx_items_def)

lemma usb_inv_control [simp]:
  "usb_inv (u\<lparr>uep0_ctrl := c\<rparr>) = usb_inv u" "usb_inv (u\<lparr>usb_dev_ad := c\<rparr>) = usb_inv u"
  "usb_inv (u\<lparr>usb_int_fg := c\<rparr>) = usb_inv u" "usb_inv (u\<lparr>ctrl_rest := bs\<rparr>) = usb_inv u"
  "usb_inv (u\<lparr>ctrl_zlp := b\<rparr>) = usb_inv u" "usb_inv (u\<lparr>pending_address := c\<rparr>) = usb_inv u"
  "usb_inv (u\<lparr>address_pending := b\<rparr>) = usb_inv u" "usb_inv (u\<lparr>ctrl_state := e\<rparr>) = usb_inv u"
  "usb_inv (u\<lparr>dtr_on := b\<rparr>) = usb_inv u" "usb_inv (u\<lparr>uep1_ctrl := c\<rparr>) = usb_inv u"
  by (simp_all add: usb_inv_defs)

lemma streams_control [simp]:
  "streams (u\<lparr>uep0_ctrl := c\<rparr>) = streams u" "streams (u\<lparr>usb_dev_ad := c\<rparr>) = streams u"
  "streams (u\<lparr>usb_int_fg := c\<rparr>) = streams u" "streams (u\<lparr>ctrl_rest := bs\<rparr>) = streams u"
  "streams (u\<lparr>ctrl_zlp := b\<rparr>) = streams u" "streams (u\<lparr>pending_address := c\<rparr>) = streams u"
  "streams (u\<lparr>address_pending := b\<rparr>) = streams u" "streams (u\<lparr>ctrl_state := e\<rparr>) = streams u"
  "streams (u\<lparr>dtr_on := b\<rparr>) = streams u" "streams (u\<lparr>uep1_ctrl := c\<rparr>) = streams u"
  "streams (u\<lparr>uep0_t_len := n\<rparr>) = streams u" "streams (u\<lparr>ep0_buf := bs\<rparr>) = streams u"
  "streams (u\<lparr>uep1_t_len := n\<rparr>) = streams u" "streams (u\<lparr>ep1_buf := bs\<rparr>) = streams u"
  "streams (u\<lparr>setup_req := bs\<rparr>) = streams u" "streams (u\<lparr>line_coding := bs\<rparr>) = streams u"
  "streams (u\<lparr>uep2_ctrl := c\<rparr>) = streams u"
  by (simp_all add: streams_def in_flight_def tx_items_def rx_items_def)

section \<open>Control transfers keep the streams\<close>

lemma ctrl_status_stays: "usb_inv u \<Longrightarrow> stays u (ctrl_status u)"
  by (simp add: stays_def ctrl_status_def) (simp add: usb_inv_defs)

lemma ctrl_stall_stays: "usb_inv u \<Longrightarrow> stays u (ctrl_stall u)"
  by (simp add: stays_def ctrl_stall_def)

lemma ctrl_next_stays: "usb_inv u \<Longrightarrow> stays u (ctrl_next u)"
  by (simp add: stays_def ctrl_next_def Let_def) (simp add: usb_inv_defs)

lemma ctrl_send_stays: "usb_inv u \<Longrightarrow> stays u (ctrl_send d n u)"
  unfolding ctrl_send_def Let_def by (rule stays_trans [OF _ ctrl_next_stays]) (simp_all add: stays_def)

lemma serial_state_stays: "usb_inv u \<Longrightarrow> stays u (serial_state u)"
  by (simp add: stays_def serial_state_def) (simp add: usb_inv_defs)

lemma data_reset_inv:
  assumes "rings_ok u" and "buffers_ok u" and "lifecycle_lost u"
  shows "usb_inv (data_reset b u)" "lifecycle_lost (data_reset b u)"
  using assms data_reset_not_armed [of b u]
  by (simp_all add: usb_inv_defs) (simp_all add: data_reset_def)

lemma lose_stays: "rings_ok u \<Longrightarrow> buffers_ok u \<Longrightarrow> stays v (lose_transport u)"
  using lose_inv [of u] by (simp add: stays_def)

lemma set_configuration_stays:
  assumes "usb_inv u"
  shows "stays u (set_configuration on u)"
proof -
  let ?l = "lose_transport (u\<lparr>halt_in := False, halt_out := False\<rparr>)"
  have l: "usb_inv ?l" "lifecycle_lost ?l"
    using assms lose_inv [of "u\<lparr>halt_in := False, halt_out := False\<rparr>"]
    by (simp_all add: usb_inv_def rings_ok_def buffers_ok_def)
  let ?d = "data_reset True ?l"
  have d: "usb_inv ?d" "lifecycle_lost ?d" using l data_reset_inv by (simp_all add: usb_inv_def)
  then have c: "usb_inv (?d\<lparr>configured := on\<rparr>)" "lifecycle_lost (?d\<lparr>configured := on\<rparr>)"
    by (simp_all add: usb_inv_defs)
  then have v: "stays u (?d\<lparr>configured := on, uep1_ctrl := UEP_T_RES_NAK\<rparr>)" by (simp add: stays_def)
  show ?thesis
    unfolding set_configuration_def Let_def
    by (rule stays_then [OF if_stays ctrl_status_stays]) (rule v stays_then [OF v serial_state_stays] | assumption)+
qed

lemma endpoint_halt_stays:
  assumes "usb_inv u"
  shows "stays u (endpoint_halt on index u)"
proof -
  have l: "usb_inv (lose_transport u)" "lifecycle_lost (lose_transport u)"
    using assms lose_inv [of u] by (simp_all add: usb_inv_def)
  then have a: "stays u (rx_arm (lose_transport u\<lparr>halt_in := b, uep2_ctrl := c\<rparr>))"
    "stays u (rx_arm (lose_transport u\<lparr>halt_out := b, uep2_ctrl := c\<rparr>))" for b c
    by (auto intro!: lost_stays rx_arm_inv simp: usb_inv_defs)
  have s: "stays u (ctrl_status v)" if "stays u v" for v
    using stays_trans [OF that ctrl_status_stays] that by (simp add: stays_def)
  have e: "stays u (ctrl_status (u\<lparr>uep1_ctrl := c\<rparr>))" for c
    by (rule s) (use assms in \<open>simp add: stays_def\<close>)
  show ?thesis
    using a s e ctrl_stall_stays [OF assms] by (simp add: endpoint_halt_def Let_def)
qed

lemma usb_setup_stays:
  assumes "usb_inv u"
  shows "stays u (usb_setup u)"
proof -
  let ?u = "u\<lparr>ctrl_rest := [], ctrl_zlp := False, address_pending := False\<rparr>"
  have u: "usb_inv ?u" "stays u ?u" using assms by (simp_all add: stays_def)
  note k = stays_then [OF u(2)]
  have c: "stays u (?u\<lparr>pending_address := p, address_pending := b\<rparr>)" "stays u (?u\<lparr>dtr_on := b\<rparr>)"
    "stays u (?u\<lparr>ctrl_state := e, uep0_ctrl := p\<rparr>)" for p b e
    using assms by (simp_all add: stays_def)
  show ?thesis
    unfolding usb_setup_def Let_def
    by (intro if_stays option_stays k [OF ctrl_send_stays] k [OF ctrl_stall_stays] k [OF ctrl_status_stays]
        k [OF set_configuration_stays] k [OF endpoint_halt_stays] stays_then [OF c(1) ctrl_status_stays]
        stays_then [OF c(2) ctrl_status_stays] c(3))
qed

section \<open>Interrupts\<close>

text \<open>The token that an interrupt reports, if any, and the bytes it moves: an IN token of endpoint 2 acknowledges the packet in
  flight, an OUT token with the expected toggle brings a packet.\<close>

definition has_token :: "u8 \<Rightarrow> usb_irq \<Rightarrow> bool" where
  "has_token t q \<longleftrightarrow> iq_flags q AND RB_UIF_BUS_RST = 0 \<and> iq_flags q AND RB_UIF_TRANSFER \<noteq> 0
     \<and> iq_status q AND MASK_UIS_TOKEN \<noteq> MASK_UIS_TOKEN
     \<and> iq_status q AND (MASK_UIS_TOKEN OR MASK_UIS_ENDP) = t"

definition out_packet :: "usb_irq \<Rightarrow> bool" where
  "out_packet q \<longleftrightarrow> has_token (UIS_TOKEN_OUT OR 2) q \<and> iq_flags q AND RB_U_TOG_OK \<noteq> 0"

definition sent_now :: "usb_irq \<Rightarrow> usb \<Rightarrow> u8 list" where
  "sent_now q u = (if has_token (UIS_TOKEN_IN OR 2) q then in_flight u else [])"

definition received_now :: "usb_irq \<Rightarrow> u8 list" where
  "received_now q = (if out_packet q \<and> iq_rx_len q \<le> 64 then take (iq_rx_len q) (iq_ep2 q) else [])"

text \<open>What the controller does: it stores no more than a packet in a buffer, it stores as many bytes as it reports, and it accepts
  a data packet only when the endpoint is armed.\<close>

fun event_ok :: "usb_event \<Rightarrow> usb \<Rightarrow> bool" where
  "event_ok (Irq q) u \<longleftrightarrow> length (iq_ep0 q) \<le> 64 \<and> length (iq_ep0_late q) \<le> 64 \<and> length (iq_ep2 q) \<le> 64
     \<and> (out_packet q \<longrightarrow> armed u \<and> (iq_rx_len q \<le> 64 \<longrightarrow> iq_rx_len q \<le> length (iq_ep2 q)))"
| "event_ok _ u \<longleftrightarrow> True"

lemma raise_inv:
  assumes "usb_inv u" and "event_ok (Irq q) u"
  shows "usb_inv (usb_raise q u)" "streams (usb_raise q u) = streams u" "armed (usb_raise q u) = armed u"
    "usb_int_fg (usb_raise q u) = iq_flags q"
    "out_packet q \<Longrightarrow> iq_rx_len q \<le> 64 \<Longrightarrow> take (iq_rx_len q) (ep2_buf (usb_raise q u)) = take (iq_rx_len q) (iq_ep2 q)"
  using assms
  by (auto simp: usb_raise_def usb_inv_defs streams_def in_flight_def tx_items_def rx_items_def memcpy_at_def)

lemma out_data_effect:
  fixes q
  assumes "usb_inv u" and "usb_int_fg u AND RB_U_TOG_OK \<noteq> 0 \<Longrightarrow> armed u"
  defines "v \<equiv> isr_out_data q u"
  shows "usb_inv v" and "lifecycle_lost v \<or> in_flight v = in_flight u \<and> tx_items v = tx_items u
    \<and> rx_items v = rx_items u @ (if usb_int_fg u AND RB_U_TOG_OK \<noteq> 0 then take (iq_rx_len q) (ep2_buf u) else [])"
    and "lifecycle_lost v \<Longrightarrow> \<not> lifecycle_lost u \<Longrightarrow> 64 < iq_rx_len q"
proof -
  let ?n = "iq_rx_len q"
  have "usb_inv v \<and> (lifecycle_lost v \<or> in_flight v = in_flight u \<and> tx_items v = tx_items u
    \<and> rx_items v = rx_items u @ (if usb_int_fg u AND RB_U_TOG_OK \<noteq> 0 then take ?n (ep2_buf u) else []))
    \<and> (lifecycle_lost v \<longrightarrow> \<not> lifecycle_lost u \<longrightarrow> 64 < ?n)"
  proof (cases "usb_int_fg u AND RB_U_TOG_OK = 0")
    case True
    then show ?thesis using assms(1) by (simp add: v_def isr_out_data_def)
  next
    case False
    let ?t = "u\<lparr>uep2_ctrl := uep2_ctrl u XOR RB_UEP_R_TOG\<rparr>"
    have u: "rx_len u = 0" "usb_open u" "rings_ok u" "buffers_ok u" "length (ep2_buf u) = 128"
      using assms(1) assms(2) [OF False] by (simp_all add: usb_inv_def flow_ok_def buffers_ok_def)
    have t: "rings_ok ?t" "buffers_ok ?t" using u by (simp_all add: rings_ok_def buffers_ok_def)
    show ?thesis
    proof (cases "?n > 64")
      case True
      have "usb_inv (rx_arm (lose_transport ?t))" by (rule rx_arm_kept [OF lose_inv [OF t]])
      then show ?thesis using True False by (simp add: v_def isr_out_data_def Let_def)
    next
      case fits: False
      let ?b = "take ?n (ep2_buf u)"
      have len: "rx_len ?t + length ?b \<le> RX_RING" using u fits by simp
      obtain r h n where p: "rx_put ?b ?t = ?t\<lparr>rx_ring := r, rx_head := h, rx_len := n\<rparr>"
        and p2: "rings_ok (rx_put ?b ?t)" "rx_items (rx_put ?b ?t) = rx_items ?t @ ?b"
        using rx_put_items [OF t(1) len] by (elim conjE exE)
      have v: "v = rx_arm (rx_put ?b ?t)"
        using False fits u by (simp add: v_def isr_out_data_def Let_def)
      have a: "usb_inv v"
        unfolding v
        by (rule rx_arm_inv) (use p2(1) u assms(1) in \<open>simp_all add: p usb_inv_def flow_ok_def usb_open_def tx_idle_def buffers_ok_def\<close>)
      have "rx_items v = rx_items (rx_put ?b ?t)" "rx_items ?t = rx_items u" by (simp_all add: v rx_arm_def rx_items_def)
      moreover have "in_flight v = in_flight u" "tx_items v = tx_items u" "lifecycle_lost v = lifecycle_lost u"
        by (simp_all add: v rx_arm_def p in_flight_def tx_items_def)
      ultimately show ?thesis using a p2(2) False by simp
    qed
  qed
  then show "usb_inv v" "lifecycle_lost v \<or> in_flight v = in_flight u \<and> tx_items v = tx_items u
    \<and> rx_items v = rx_items u @ (if usb_int_fg u AND RB_U_TOG_OK \<noteq> 0 then take ?n (ep2_buf u) else [])"
    "lifecycle_lost v \<Longrightarrow> \<not> lifecycle_lost u \<Longrightarrow> 64 < ?n" by blast+
qed

lemma in_data_effect:
  assumes "usb_inv u"
  defines "v \<equiv> isr_in_data u"
  shows "usb_inv v" and "in_flight v @ tx_items v = tx_items u" and "rx_items v = rx_items u"
    and "lifecycle_lost v = lifecycle_lost u"
proof -
  let ?t = "u\<lparr>uep2_ctrl := set_t_res UEP_T_RES_NAK (uep2_ctrl u XOR RB_UEP_T_TOG), tx_inflight := False\<rparr>"
  have t: "rings_ok ?t" "buffers_ok ?t" using assms(1) by (simp_all add: usb_inv_def rings_ok_def buffers_ok_def)
  have a: "armed ?t = armed u" by (simp add: armed_def r_res_set_t)
  show "usb_inv v"
    unfolding v_def isr_in_data_def
    by (rule tx_kick_inv [OF t]) (use a assms(1) in \<open>auto simp: usb_inv_def flow_ok_def usb_open_def tx_idle_def\<close>)
  show "in_flight v @ tx_items v = tx_items u" "rx_items v = rx_items u" "lifecycle_lost v = lifecycle_lost u"
    using tx_kick_stream [OF t] by (simp_all add: v_def isr_in_data_def in_flight_def tx_items_def rx_items_def)
qed

text \<open>The tokens of the control and notification endpoints.\<close>

lemma in_control_stays:
  assumes "usb_inv u"
  shows "stays u (isr_in_control sp u)"
proof -
  have c: "stays u (u\<lparr>uep0_ctrl := c\<rparr>)" for c using assms by (simp add: stays_def)
  have d: "stays u (u\<lparr>uep0_ctrl := c, ctrl_state := e, uep0_ctrl := c'\<rparr>)"
    "stays u (u\<lparr>ctrl_state := e, uep0_ctrl := c\<rparr>)"
    "stays u (u\<lparr>usb_dev_ad := a, address_pending := b, ctrl_state := e, uep0_ctrl := c\<rparr>)" for c c' e a b
    using assms by (simp_all add: stays_def)
  show ?thesis
    using stays_then [OF c ctrl_next_stays] d stays_refl [OF assms] by (simp add: isr_in_control_def Let_def)
qed

lemma out_control_stays:
  assumes "usb_inv u"
  shows "stays u (isr_out_control q sp u)"
proof -
  have "usb_inv (u\<lparr>line_coding := take 7 (ep0_buf u)\<rparr>)" using assms by (simp add: usb_inv_defs)
  then have l: "stays u (u\<lparr>line_coding := take 7 (ep0_buf u)\<rparr>)" by (simp add: stays_def)
  have d: "stays u (u\<lparr>ctrl_state := e, uep0_ctrl := c\<rparr>)" for e c using assms by (simp add: stays_def)
  show ?thesis
    using stays_then [OF l ctrl_status_stays] d stays_refl [OF assms] ctrl_stall_stays [OF assms]
    by (simp add: isr_out_control_def)
qed

text \<open>A token, and what it means for the streams.\<close>

definition moved :: "u8 list \<Rightarrow> u8 list \<Rightarrow> usb \<Rightarrow> usb \<Rightarrow> bool" where
  "moved out_bytes in_bytes u v \<longleftrightarrow> usb_inv v \<and> (lifecycle_lost v \<or>
     out_bytes @ in_flight v @ tx_items v = in_flight u @ tx_items u \<and> rx_items v = rx_items u @ in_bytes)"

lemma stays_moved: "stays u v \<Longrightarrow> moved [] [] u v"
  by (auto simp: stays_def moved_def streams_def)

lemma moved_stays: "moved x y u v \<Longrightarrow> stays v w \<Longrightarrow> moved x y u w"
  by (auto simp: stays_def moved_def streams_def)

lemma stays_then_moved: "stays u v \<Longrightarrow> moved x y v w \<Longrightarrow> lifecycle_lost v \<longrightarrow> lifecycle_lost w \<Longrightarrow> moved x y u w"
  by (auto simp: stays_def moved_def streams_def)

lemma token_moved:
  assumes "usb_inv u" and "usb_int_fg u = iq_flags q"
    and "t = iq_status q AND (MASK_UIS_TOKEN OR MASK_UIS_ENDP)"
    and "t = UIS_TOKEN_OUT OR 2 \<Longrightarrow> iq_flags q AND RB_U_TOG_OK \<noteq> 0 \<Longrightarrow> armed u"
  shows "moved (if t = UIS_TOKEN_IN OR 2 then in_flight u else [])
    (if t = UIS_TOKEN_OUT OR 2 \<and> iq_flags q AND RB_U_TOG_OK \<noteq> 0 \<and> iq_rx_len q \<le> 64 then take (iq_rx_len q) (ep2_buf u) else [])
    u (isr_token q sp u)"
proof -
  consider "t = UIS_TOKEN_OUT OR 2" | "t = UIS_TOKEN_IN OR 2" | "t \<noteq> UIS_TOKEN_OUT OR 2" "t \<noteq> UIS_TOKEN_IN OR 2" by blast
  then show ?thesis
  proof cases
    case 1
    then have e: "isr_token q sp u = isr_out_data q u" using assms(3) by (simp add: isr_token_def Let_def)
    have a: "usb_int_fg u AND RB_U_TOG_OK \<noteq> 0 \<Longrightarrow> armed u" using assms(2,4) 1 by simp
    have big: "lifecycle_lost (isr_out_data q u)" if "64 < iq_rx_len q" "usb_int_fg u AND RB_U_TOG_OK \<noteq> 0"
      using that by (simp add: isr_out_data_def Let_def)
    show ?thesis
      using 1 out_data_effect(1,2) [OF assms(1) a, of q] big assms(2) unfolding e moved_def
      by (auto simp: not_le)
  next
    case 2
    then have e: "isr_token q sp u = isr_in_data u" using assms(3) by (simp add: isr_token_def Let_def)
    show ?thesis using 2 in_data_effect [OF assms(1)] unfolding e by (simp add: moved_def)
  next
    case 3
    have n: "stays u (isr_in_notification u)" using assms(1) by (simp add: isr_in_notification_def stays_def)
    have "stays u (isr_token q sp u)"
      using 3 assms(3) n in_control_stays [OF assms(1)] out_control_stays [OF assms(1)] stays_refl [OF assms(1)]
      by (simp add: isr_token_def Let_def)
    then show ?thesis using 3 by (simp add: stays_moved)
  qed
qed

lemma setup_req_kept:
  assumes "usb_inv u"
  shows "usb_inv (u\<lparr>setup_req := take 8 (ep0_buf u)\<rparr>)"
  using assms by (simp add: usb_inv_defs)

lemma ack_stays: "usb_inv u \<Longrightarrow> stays u (ack_flags m u)"
  by (simp add: ack_flags_def stays_def)

lemma late_setup_stays:
  fixes c
  assumes "usb_inv u" and "length bs \<le> 64"
  defines "v \<equiv> u\<lparr>ep0_buf := memcpy_at (ep0_buf u) 0 bs, uep0_ctrl := c\<rparr>"
  shows "stays u (ack_flags m (usb_setup (if sp then v else v\<lparr>setup_req := take 8 (ep0_buf v)\<rparr>)))"
proof -
  have v: "usb_inv v" "stays u v" using assms by (simp_all add: v_def stays_def usb_inv_defs)
  have "usb_inv (v\<lparr>setup_req := take 8 (ep0_buf v)\<rparr>)" by (rule setup_req_kept [OF v(1)])
  then have w: "stays u (v\<lparr>setup_req := take 8 (ep0_buf v)\<rparr>)" using v(2) by (simp add: stays_def)
  show ?thesis
    by (rule stays_then [OF stays_then [OF if_stays [OF v(2) w] usb_setup_stays] ack_stays])
qed

lemma transfer_moved:
  assumes "usb_inv u" and "usb_int_fg u = iq_flags q" and "length (iq_ep0_late q) \<le> 64"
    and "t = iq_status q AND (MASK_UIS_TOKEN OR MASK_UIS_ENDP)"
    and "t = UIS_TOKEN_OUT OR 2 \<Longrightarrow> tok \<Longrightarrow> iq_flags q AND RB_U_TOG_OK \<noteq> 0 \<Longrightarrow> armed u"
    and "tok = (iq_status q AND MASK_UIS_TOKEN \<noteq> MASK_UIS_TOKEN)"
  shows "moved (if tok \<and> t = UIS_TOKEN_IN OR 2 then in_flight u else [])
    (if tok \<and> t = UIS_TOKEN_OUT OR 2 \<and> iq_flags q AND RB_U_TOG_OK \<noteq> 0 \<and> iq_rx_len q \<le> 64
     then take (iq_rx_len q) (ep2_buf u) else []) u (isr_transfer q u)"
    (is "moved ?x ?y u _")
proof -
  let ?sp = "iq_status q AND RB_UIS_SETUP_ACT \<noteq> 0"
  define a where "a = (if ?sp then u\<lparr>setup_req := take 8 (ep0_buf u)\<rparr> else u)"
  have u: "usb_inv a" "streams a = streams u" "usb_int_fg a = iq_flags q" "ep2_buf a = ep2_buf u" "armed a = armed u"
    "in_flight a = in_flight u"
    using assms(1,2) setup_req_kept [OF assms(1)] by (auto simp: a_def armed_def in_flight_def)
  define b where "b = (if tok then ack_flags RB_UIF_TRANSFER (isr_token q ?sp a) else a)"
  have m: "moved ?x ?y a b"
  proof (cases tok)
    case True
    have arm: "armed a" if "t = UIS_TOKEN_OUT OR 2" "iq_flags q AND RB_U_TOG_OK \<noteq> 0"
      using that assms(5) True u(5) by simp
    have "moved ?x ?y a (isr_token q ?sp a)"
      using token_moved [OF u(1,3) assms(4) arm, of ?sp] True u(4,6) by (simp cong: if_cong)
    then show ?thesis
      using moved_stays ack_stays [of "isr_token q ?sp a"] True by (simp add: b_def moved_def stays_def streams_def)
  next
    case False
    then show ?thesis using stays_moved [OF stays_refl [OF u(1)]] by (simp add: b_def)
  qed
  then have n: "moved ?x ?y u b" using u(2) by (simp add: moved_def streams_def)
  then have "usb_inv b" by (simp add: moved_def)
  note l = moved_stays [OF n late_setup_stays [OF this assms(3)]]
  have "isr_transfer q u = (if iq_status_late q AND RB_UIS_SETUP_ACT \<noteq> 0 then
      let w = b\<lparr>ep0_buf := memcpy_at (ep0_buf b) 0 (iq_ep0_late q), uep0_ctrl := BOTH_TOG OR UEP_R_RES_ACK OR UEP_T_RES_NAK\<rparr>
      in ack_flags RB_UIF_TRANSFER (usb_setup (if ?sp then w else w\<lparr>setup_req := take 8 (ep0_buf w)\<rparr>)) else b)"
    unfolding isr_transfer_def Let_def a_def b_def assms(6) by (rule refl)
  then show ?thesis using n l by (simp only: Let_def) (simp split: if_split)
qed

lemma suspend_stays:
  assumes "usb_inv u"
  shows "stays u (isr_suspend q u)"
proof -
  let ?b = "iq_mis_st q AND RB_UMS_SUSPEND \<noteq> 0"
  let ?u = "u\<lparr>suspended := ?b\<rparr>"
  have r: "rings_ok ?u" "buffers_ok ?u" using assms by (simp_all add: usb_inv_def rings_ok_def buffers_ok_def)
  have "stays u ?u" if "\<not> ?b"
    using that assms by (auto simp: stays_def usb_inv_defs streams_def in_flight_def tx_items_def rx_items_def)
  then have "stays u (if suspended ?u then lose_transport ?u else ?u)"
    using lose_stays [OF r, of u] by (cases "iq_mis_st q AND RB_UMS_SUSPEND = 0") simp_all
  then show ?thesis
    unfolding isr_suspend_def Let_def by (rule stays_then [OF _ ack_stays])
qed

lemma reset_inv:
  assumes "usb_inv u"
  shows "usb_inv (isr_bus_reset u)" "lifecycle_lost (isr_bus_reset u)"
proof -
  let ?v = "u\<lparr>usb_dev_ad := 0, configured := False, suspended := False, dtr_on := False, halt_in := False, halt_out := False,
    ctrl_state := EP_IDLE, address_pending := False\<rparr>"
  have v: "rings_ok ?v" "buffers_ok ?v" using assms by (simp_all add: usb_inv_def rings_ok_def buffers_ok_def)
  have "usb_inv (lose_transport ?v)" by (rule lose_inv [OF v])
  then have "usb_inv (data_reset True (lose_transport ?v))" "lifecycle_lost (data_reset True (lose_transport ?v))"
    using data_reset_inv [of "lose_transport ?v" True] by (simp_all add: usb_inv_def)
  then show "usb_inv (isr_bus_reset u)" "lifecycle_lost (isr_bus_reset u)"
    by (simp_all add: isr_bus_reset_def Let_def ack_flags_def)
qed

lemma irq_moved:
  assumes "usb_inv u" and "event_ok (Irq q) u"
  shows "moved (sent_now q u) (received_now q) u (USB_IRQHandler q u)"
proof -
  note r = raise_inv [OF assms]
  show ?thesis
  proof (cases "iq_flags q AND RB_UIF_BUS_RST = 0")
    case False
    then show ?thesis using reset_inv [OF r(1)] by (simp add: USB_IRQHandler_def Let_def moved_def)
  next
    case True
    let ?v = "if iq_flags q AND RB_UIF_TRANSFER \<noteq> 0 then isr_transfer q (usb_raise q u) else usb_raise q u"
    have i: "in_flight (usb_raise q u) = in_flight u" using r(2) by (simp add: streams_def)
    have "moved (sent_now q u) (received_now q) (usb_raise q u) ?v"
    proof (cases "iq_flags q AND RB_UIF_TRANSFER = 0")
      case no: True
      then show ?thesis
        using stays_moved [OF stays_refl [OF r(1)]] by (simp add: sent_now_def received_now_def out_packet_def has_token_def)
    next
      case yes: False
      have "armed (usb_raise q u)" if "iq_status q AND (MASK_UIS_TOKEN OR MASK_UIS_ENDP) = UIS_TOKEN_OUT OR 2"
        "iq_status q AND MASK_UIS_TOKEN \<noteq> MASK_UIS_TOKEN" "iq_flags q AND RB_U_TOG_OK \<noteq> 0"
        using assms(2) that True yes r(3) by (simp add: out_packet_def has_token_def)
      from transfer_moved [OF r(1,4) _ refl this refl] assms(2) yes True r(5) i
      show ?thesis by (auto simp: sent_now_def received_now_def out_packet_def has_token_def cong: if_cong)
    qed
    then have m: "moved (sent_now q u) (received_now q) u ?v"
      using r(2) by (simp add: moved_def streams_def)
    then have "usb_inv ?v" by (simp add: moved_def)
    from m moved_stays [OF m suspend_stays [OF this]] True show ?thesis
      by (simp add: USB_IRQHandler_def Let_def)
  qed
qed

section \<open>Calls of the task\<close>

lemma read_moved:
  assumes "usb_inv u" and "usb_cdc_read cap u = (bs, v)"
  shows "usb_inv v" "in_flight v = in_flight u" "tx_items v = tx_items u" "bs @ rx_items v = rx_items u"
    "lifecycle_lost v = lifecycle_lost u"
proof -
  obtain w where t: "rx_take cap u = (bs, w)" and v: "v = rx_arm w"
    using assms(2) by (auto simp: usb_cdc_read_def split: prod.splits)
  have k: "bs = take cap (rx_items u)" "rx_items w = drop cap (rx_items u)" "rings_ok w"
    using rx_take_items [OF _ t] assms(1) by (simp_all add: usb_inv_def)
  obtain x where w: "w = u\<lparr>rx_tail := x, rx_len := rx_len u - length bs\<rparr>"
    using rx_take_items [OF _ t] assms(1) by (auto simp: usb_inv_def)
  show "usb_inv v"
    unfolding v
    by (rule rx_arm_inv) (use k(3) assms(1) in \<open>auto simp: w usb_inv_def flow_ok_def usb_open_def tx_idle_def buffers_ok_def\<close>)
  show "in_flight v = in_flight u" "tx_items v = tx_items u" "lifecycle_lost v = lifecycle_lost u"
    by (simp_all add: v rx_arm_def w in_flight_def tx_items_def)
  have "rx_items v = rx_items w" by (simp add: v rx_arm_def rx_items_def)
  then show "bs @ rx_items v = rx_items u" using k by simp
qed

lemma write_moved:
  assumes "usb_inv u" and "usb_cdc_write d u = (n, v)"
  shows "usb_inv v" "in_flight v @ tx_items v = in_flight u @ tx_items u @ take n d" "rx_items v = rx_items u"
    "lifecycle_lost v = lifecycle_lost u" "n \<le> length d"
proof -
  obtain w where w: "(if usb_open u then tx_put d u else (0, u)) = (n, w)" "v = tx_kick w"
    using assms(2) by (auto simp: usb_cdc_write_def usb_open_def split: prod.splits if_splits)
  have k: "n \<le> length d" "tx_items w = tx_items u @ take n d" "rings_ok w" "\<exists>r h k. w = u\<lparr>tx_ring := r, tx_head := h, tx_len := k\<rparr>"
    using tx_put_items [of u d n w] w(1) assms(1) tx_head_same [of u] by (auto simp: usb_inv_def split: if_splits)
  obtain r h m where e: "w = u\<lparr>tx_ring := r, tx_head := h, tx_len := m\<rparr>" using k(4) by blast
  have b: "buffers_ok w" using assms(1) by (simp add: e usb_inv_def buffers_ok_def)
  have o: "usb_open w = usb_open u" "armed w = armed u" by (simp_all add: e usb_open_def armed_def)
  have c: "w = u" if "\<not> usb_open u" using that w(1) by simp
  show "usb_inv v"
    unfolding w(2)
    by (rule tx_kick_inv [OF k(3) b]) (use o c assms(1) in \<open>auto simp: e usb_inv_def flow_ok_def\<close>)
  show "in_flight v @ tx_items v = in_flight u @ tx_items u @ take n d" "rx_items v = rx_items u"
    "lifecycle_lost v = lifecycle_lost u" "n \<le> length d"
    using tx_kick_stream [OF k(3) b] k(1,2) by (simp_all add: w(2) e in_flight_def rx_items_def)
qed

lemma take_lost_moved:
  assumes "usb_inv u"
  defines "v \<equiv> snd (usb_cdc_take_lost u)"
  shows "usb_inv v" "in_flight v = in_flight u" "tx_items v = tx_items u" "rx_items v = rx_items u" "\<not> lifecycle_lost v"
proof -
  show "usb_inv v"
    unfolding v_def usb_cdc_take_lost_def snd_conv
    by (rule rx_arm_inv) (use assms(1) in \<open>auto simp: usb_inv_defs\<close>)
  show "in_flight v = in_flight u" "tx_items v = tx_items u" "rx_items v = rx_items u" "\<not> lifecycle_lost v"
    by (simp_all add: v_def usb_cdc_take_lost_def rx_arm_def in_flight_def tx_items_def rx_items_def)
qed

lemma flush_moved:
  assumes "usb_inv u"
  shows "usb_inv (tx_kick u)"
  by (rule tx_kick_inv) (use assms in \<open>simp_all add: usb_inv_def flow_ok_def\<close>)

section \<open>The bytes since the last loss\<close>

record link_log =
  ll_written :: "u8 list"
  ll_sent :: "u8 list"
  ll_received :: "u8 list"
  ll_read :: "u8 list"

definition log_start :: link_log where
  "log_start = \<lparr>ll_written = [], ll_sent = [], ll_received = [], ll_read = []\<rparr>"

fun log_step :: "usb_event \<Rightarrow> usb \<Rightarrow> link_log \<Rightarrow> link_log" where
  "log_step (Irq q) u l = l\<lparr>ll_sent := ll_sent l @ sent_now q u, ll_received := ll_received l @ received_now q\<rparr>"
| "log_step (Read cap) u l = l\<lparr>ll_read := ll_read l @ fst (usb_cdc_read cap u)\<rparr>"
| "log_step (Write d) u l = l\<lparr>ll_written := ll_written l @ take (fst (usb_cdc_write d u)) d\<rparr>"
| "log_step _ u l = l"

definition link_step :: "usb_event \<Rightarrow> usb \<times> link_log \<Rightarrow> usb \<times> link_log" where
  "link_step e = (\<lambda>(u, l). let v = usb_step e u in (v, if lifecycle_lost v then log_start else log_step e u l))"

fun link_run :: "usb_event list \<Rightarrow> usb \<times> link_log \<Rightarrow> usb \<times> link_log" where
  "link_run [] s = s"
| "link_run (e # es) s = link_run es (link_step e s)"

text \<open>Every event is one that the controller can produce in its state.\<close>

fun possible :: "usb_event list \<Rightarrow> usb \<Rightarrow> bool" where
  "possible [] u \<longleftrightarrow> True"
| "possible (e # es) u \<longleftrightarrow> event_ok e u \<and> possible es (usb_step e u)"

definition link_ok :: "usb \<times> link_log \<Rightarrow> bool" where
  "link_ok = (\<lambda>(u, l). usb_inv u \<and> ll_written l = ll_sent l @ in_flight u @ tx_items u
     \<and> ll_received l = ll_read l @ rx_items u)"

lemma link_step_ok:
  assumes "link_ok (u, l)" and "event_ok e u"
  shows "link_ok (link_step e (u, l))"
proof -
  let ?v = "usb_step e u"
  have i: "usb_inv u" "ll_written l = ll_sent l @ in_flight u @ tx_items u" "ll_received l = ll_read l @ rx_items u"
    using assms(1) by (simp_all add: link_ok_def)
  have "usb_inv ?v \<and> (lifecycle_lost ?v \<or> link_ok (?v, log_step e u l))"
  proof (cases e)
    case (Irq q)
    then show ?thesis
      using irq_moved [OF i(1), of q] assms(2) i(2,3) by (auto simp: moved_def link_ok_def)
  next
    case (Read cap)
    then show ?thesis using read_moved [OF i(1), of cap] i(2,3) by (cases "usb_cdc_read cap u") (auto simp: link_ok_def)
  next
    case (Write d)
    then show ?thesis using write_moved [OF i(1), of d] i(2,3) by (cases "usb_cdc_write d u") (auto simp: link_ok_def)
  next
    case Take_lost
    then show ?thesis using take_lost_moved [OF i(1)] i(2,3) by (simp add: link_ok_def)
  next
    case Flush
    have "rings_ok u" "buffers_ok u" using i(1) by (simp_all add: usb_inv_def)
    then show ?thesis
      using Flush flush_moved [OF i(1)] tx_kick_stream [of u] i(2,3) by (simp add: usb_cdc_flush_tx_def link_ok_def)
  qed
  then show ?thesis
    using lost_empty [of ?v] by (auto simp: link_step_def Let_def link_ok_def log_start_def streams_def)
qed

lemma link_run_ok: "link_ok (u, l) \<Longrightarrow> possible es u \<Longrightarrow> link_ok (link_run es (u, l))"
proof (induction es arbitrary: u l)
  case (Cons e es)
  obtain v m where s: "link_step e (u, l) = (v, m)" "v = usb_step e u" by (simp add: link_step_def Let_def)
  then show ?case using Cons link_step_ok [of u l e] by simp
qed simp


section \<open>Delivery\<close>

text \<open>The host fetches a data packet.\<close>

definition in_token :: usb_irq where
  "in_token = \<lparr>iq_flags = RB_UIF_TRANSFER, iq_status = UIS_TOKEN_IN OR 2, iq_status_late = 0, iq_rx_len = 0,
     iq_mis_st = 0, iq_ep0 = [], iq_ep0_late = [], iq_ep2 = []\<rparr>"

lemma in_token_ok: "event_ok (Irq in_token) u"
  by (simp add: in_token_def out_packet_def has_token_def)

lemma in_token_step:
  "USB_IRQHandler in_token u = (isr_in_data (u\<lparr>usb_int_fg := RB_UIF_TRANSFER\<rparr>))\<lparr>usb_int_fg :=
     usb_int_fg (isr_in_data (u\<lparr>usb_int_fg := RB_UIF_TRANSFER\<rparr>)) AND NOT RB_UIF_TRANSFER\<rparr>"
  by (simp add: USB_IRQHandler_def usb_raise_def isr_transfer_def isr_token_def in_token_def ack_flags_def Let_def)

definition tx_left :: "usb \<Rightarrow> nat" where
  "tx_left u = 2 * tx_len u + (if tx_zlp u then 1 else 0) + (if tx_inflight u then 1 else 0)"

lemma in_data_left:
  assumes "usb_inv u" and "usb_open u" and "\<not> halt_in u" and "\<not> tx_idle u"
  defines "v \<equiv> isr_in_data u"
  shows "tx_left v < tx_left u" and "usb_open v" and "\<not> halt_in v"
proof -
  let ?t = "u\<lparr>uep2_ctrl := set_t_res UEP_T_RES_NAK (uep2_ctrl u XOR RB_UEP_T_TOG), tx_inflight := False\<rparr>"
  have t: "rings_ok ?t" "buffers_ok ?t" using assms(1) by (simp_all add: usb_inv_def rings_ok_def buffers_ok_def)
  have f: "tx_inflight u" using assms(1-4) by (auto simp: usb_inv_def flow_ok_def)
  have o: "usb_open ?t = usb_open u" "halt_in ?t = halt_in u" by (simp_all add: usb_open_def)
  have v: "v = tx_kick ?t" by (simp add: v_def isr_in_data_def)
  show "usb_open v" "\<not> halt_in v"
    using assms(2,3) o tx_kick_send(8,12) [OF t] tx_kick_idle [of ?t] by (cases "may_send ?t"; simp add: v)+
  show "tx_left v < tx_left u"
  proof (cases "may_send ?t")
    case True
    note k = tx_kick_send(1,3,4) [OF t True]
    have len: "length (tx_items x) = tx_len x" for x by (simp add: tx_items_def)
    have "tx_len v = tx_len u - 64" using len [of v] len [of ?t] k(2) by (simp add: v)
    moreover have "tx_zlp v = (64 \<le> tx_len u)" "tx_inflight v" using k(1,3) len [of ?t] by (auto simp: v)
    ultimately have "tx_len v = tx_len u - 64" "tx_zlp v = (64 \<le> tx_len u)" "tx_inflight v" by blast+
    then show ?thesis using True f by (auto simp: tx_left_def may_send_def)
  next
    case False
    then show ?thesis
      using f assms(2,3) o tx_kick_idle [OF False] by (auto simp: v tx_left_def may_send_def)
  qed
qed

lemma in_token_left:
  assumes "usb_inv u" and "usb_open u" and "\<not> halt_in u" and "\<not> tx_idle u"
  defines "v \<equiv> usb_step (Irq in_token) u"
  shows "tx_left v < tx_left u" and "usb_open v" and "\<not> halt_in v"
  using in_data_left [of "u\<lparr>usb_int_fg := RB_UIF_TRANSFER\<rparr>"] assms
  by (simp_all add: in_token_step tx_left_def usb_open_def tx_idle_def)

lemma drain:
  assumes "link_ok (u, l)" and "usb_open u" and "\<not> halt_in u"
  shows "\<exists>k v m. link_run (replicate k (Irq in_token)) (u, l) = (v, m) \<and> tx_idle v \<and> usb_open v
    \<and> ll_written m = ll_written l \<and> link_ok (v, m)"
  using assms
proof (induction "tx_left u" arbitrary: u l rule: less_induct)
  case less
  show ?case
  proof (cases "tx_idle u")
    case True
    then show ?thesis using less.prems by (intro exI [of _ 0] exI [of _ u] exI [of _ l]) simp
  next
    case False
    have u: "usb_inv u" using less.prems(1) by (simp add: link_ok_def)
    let ?v = "usb_step (Irq in_token) u" and ?m = "log_step (Irq in_token) u l"
    note n = in_token_left [OF u less.prems(2,3) False]
    have s: "link_step (Irq in_token) (u, l) = (?v, ?m)"
      using n(2) by (simp add: link_step_def Let_def usb_open_def)
    have ok: "link_ok (?v, ?m)" using link_step_ok [OF less.prems(1) in_token_ok] s by simp
    from less.hyps [OF n(1) ok n(2,3)] obtain k w j
      where "link_run (replicate k (Irq in_token)) (?v, ?m) = (w, j)" "tx_idle w" "usb_open w"
        "ll_written j = ll_written ?m" "link_ok (w, j)" by blast
    then show ?thesis using s by (intro exI [of _ "Suc k"] exI [of _ w] exI [of _ j]) simp
  qed
qed

section \<open>Control reads\<close>

text \<open>The host fetches packets of the data stage until the device waits for the status stage.\<close>

definition ctrl_packet :: "usb \<Rightarrow> u8 list" where
  "ctrl_packet u = take (uep0_t_len u) (ep0_buf u)"

fun ctrl_read :: "nat \<Rightarrow> usb \<Rightarrow> u8 list list \<times> usb" where
  "ctrl_read 0 u = ([], u)"
| "ctrl_read (Suc k) u =
     (let v = isr_in_control False u
      in if ctrl_state v = EP_DATA_IN then let (ps, w) = ctrl_read k v in (ctrl_packet u # ps, w)
         else ([ctrl_packet u], v))"

definition ctrl_ready :: "usb \<Rightarrow> bool" where
  "ctrl_ready u \<longleftrightarrow> ctrl_state u = EP_DATA_IN \<and> length (ep0_buf u) = 64 \<and> uep0_t_len u \<le> 64
     \<and> (ctrl_rest u \<noteq> [] \<or> ctrl_zlp u \<longrightarrow> uep0_t_len u = 64)
     \<and> (ctrl_zlp u \<longrightarrow> length (ctrl_rest u) mod 64 = 0)"

lemma ctrl_next_ready:
  assumes "length (ep0_buf u) = 64" and "ctrl_state u = EP_DATA_IN" and "ctrl_zlp u \<longrightarrow> length (ctrl_rest u) mod 64 = 0"
  shows "ctrl_ready (ctrl_next u)" and "ctrl_packet (ctrl_next u) = take 64 (ctrl_rest u)"
    and "ctrl_rest (ctrl_next u) = drop 64 (ctrl_rest u)" and "ctrl_zlp (ctrl_next u) = (ctrl_zlp u \<and> ctrl_rest u \<noteq> [])"
proof -
  have "64 \<le> length (ctrl_rest u)" if "ctrl_zlp u" "ctrl_rest u \<noteq> []"
    using assms(3) that by (metis length_0_conv mod_less not_le)
  then show "ctrl_ready (ctrl_next u)"
    using assms by (auto simp: ctrl_ready_def ctrl_next_def Let_def le_mod_geq)
  show "ctrl_packet (ctrl_next u) = take 64 (ctrl_rest u)"
    using assms(1) by (simp add: ctrl_next_def Let_def ctrl_packet_def memcpy_at_def min_def)
qed (auto simp: ctrl_next_def Let_def)

lemma ctrl_read_ok:
  assumes "ctrl_ready u" and "length (ctrl_rest u) + (if ctrl_zlp u then 1 else 0) < k" and "ctrl_read k u = (ps, w)"
  shows "concat ps = ctrl_packet u @ ctrl_rest u \<and> ctrl_state w = EP_STATUS_OUT \<and> ps \<noteq> []
    \<and> (\<forall>p \<in> set ps. length p \<le> 64) \<and> (\<forall>p \<in> set (butlast ps). length p = 64)
    \<and> (length (last ps) < 64 \<or> \<not> ctrl_zlp u \<and> 64 dvd length (ctrl_packet u @ ctrl_rest u))"
  using assms
proof (induction k arbitrary: u ps w)
  case 0
  then show ?case by simp
next
  case (Suc k)
  have r: "ctrl_state u = EP_DATA_IN" "length (ep0_buf u) = 64" "uep0_t_len u \<le> 64"
    "ctrl_rest u \<noteq> [] \<or> ctrl_zlp u \<longrightarrow> uep0_t_len u = 64" "ctrl_zlp u \<longrightarrow> length (ctrl_rest u) mod 64 = 0"
    using Suc.prems(1) by (simp_all add: ctrl_ready_def)
  have p: "length (ctrl_packet u) = uep0_t_len u" using r(2,3) by (simp add: ctrl_packet_def)
  show ?case
  proof (cases "ctrl_rest u \<noteq> [] \<or> ctrl_zlp u")
    case True
    let ?u = "u\<lparr>uep0_ctrl := uep0_ctrl u XOR RB_UEP_T_TOG\<rparr>"
    let ?v = "ctrl_next ?u"
    have v: "isr_in_control False u = ?v" using True r(1) by (simp add: isr_in_control_def Let_def)
    have n: "ctrl_ready ?v" "ctrl_packet ?v = take 64 (ctrl_rest u)" "ctrl_rest ?v = drop 64 (ctrl_rest u)"
      "ctrl_zlp ?v = (ctrl_zlp u \<and> ctrl_rest u \<noteq> [])"
      using ctrl_next_ready [of ?u] r(1,2,5) by simp_all
    have less: "length (ctrl_rest ?v) + (if ctrl_zlp ?v then 1 else 0) < k"
    proof (cases "ctrl_rest u = []")
      case False
      then have "length (ctrl_rest u) - 64 < length (ctrl_rest u)" by simp
      then show ?thesis using Suc.prems(2) n(3,4) by (auto split: if_splits)
    qed (use True Suc.prems(2) n(3,4) in auto)
    have "ctrl_state ?v = EP_DATA_IN" using n(1) by (simp add: ctrl_ready_def)
    then obtain qs where q: "ctrl_read k ?v = (qs, w)" "ps = ctrl_packet u # qs"
      using Suc.prems(3) unfolding ctrl_read.simps v Let_def by (auto split: prod.splits)
    note ih = Suc.IH [OF n(1) less q(1)]
    then have i: "concat qs = ctrl_rest u" "ctrl_state w = EP_STATUS_OUT" "qs \<noteq> []" "\<forall>p \<in> set qs. length p \<le> 64"
      "\<forall>p \<in> set (butlast qs). length p = 64" and l: "length (last qs) < 64 \<or> \<not> ctrl_zlp ?v \<and> 64 dvd length (ctrl_rest u)"
      using n(2,3) by simp_all
    have full: "length (ctrl_packet u) = 64" using True r(4) p by simp
    have d: "64 dvd length (ctrl_packet u @ ctrl_rest u) \<longleftrightarrow> 64 dvd length (ctrl_rest u)" using full by simp
    have "length (last qs) < 64 \<or> \<not> ctrl_zlp u \<and> 64 dvd length (ctrl_rest u)"
    proof (cases "ctrl_rest u = []")
      case empty: True
      then have "last qs = []" using i(1,3) last_in_set [of qs] by auto
      then show ?thesis by simp
    next
      case False
      then show ?thesis using l n(4) by simp
    qed
    then show ?thesis using i full unfolding d q(2) by simp
  next
    case False
    have v: "ctrl_state (isr_in_control False u) = EP_STATUS_OUT" using False r(1) by (simp add: isr_in_control_def Let_def)
    then have "ps = [ctrl_packet u]" "w = isr_in_control False u" using Suc.prems(3) by (auto simp: Let_def)
    then show ?thesis using False v p r(3) by (auto simp: order.order_iff_strict)
  qed
qed

section \<open>The promises\<close>

lemma start_ok: "length uid = 16 \<Longrightarrow> link_ok (usb_start uid, log_start)"
proof -
  assume "length uid = 16"
  then have "usb_inv (usb_start uid)" by (rule usb_start_inv)
  moreover have "in_flight (usb_start uid) = []" "tx_items (usb_start uid) = []" "rx_items (usb_start uid) = []"
    by (simp_all add: usb_start_def usb_cdc_init_def data_reset_def in_flight_def tx_items_def rx_items_def)
  ultimately show ?thesis by (simp add: link_ok_def log_start_def)
qed


text \<open>C12: both byte streams are exact. Since the last loss of the transport, the bytes that calls of \<open>usb_cdc_write\<close> accepted are
  those of the packets the host fetched, then those of the packet in flight, then those that wait; and the bytes of the packets that were
  received are those that calls of \<open>usb_cdc_read\<close> returned, then those that wait.\<close>

theorem usb_streams_exact:
  assumes "length uid = 16" and "possible events (usb_start uid)"
    and "link_run events (usb_start uid, log_start) = (u, l)"
  shows "ll_written l = ll_sent l @ in_flight u @ tx_items u \<and> ll_received l = ll_read l @ rx_items u"
  using link_run_ok [OF start_ok [OF assms(1)] assms(2)] assms(3) by (simp_all add: link_ok_def)

text \<open>C13: every byte arrives: while the transport is not lost or halted, enough fetches of the host bring everything that was written, and
  leave the endpoint idle.\<close>

theorem usb_write_delivered:
  assumes "length uid = 16" and "possible events (usb_start uid)"
    and "link_run events (usb_start uid, log_start) = (u, l)" and "usb_open u" and "\<not> halt_in u"
  shows "\<exists>k v m. link_run (replicate k (Irq in_token)) (u, l) = (v, m) \<and> tx_idle v \<and> ll_sent m = ll_written l"
proof -
  have "link_ok (u, l)" using link_run_ok [OF start_ok [OF assms(1)] assms(2)] assms(3) by simp
  from drain [OF this assms(4,5)] obtain k v m where k: "link_run (replicate k (Irq in_token)) (u, l) = (v, m)" "tx_idle v"
    "ll_written m = ll_written l" "link_ok (v, m)" by blast
  have "in_flight v = []" "tx_items v = []" using k(2) by (simp_all add: tx_idle_def in_flight_def tx_items_def)
  then have "ll_sent m = ll_written l" using k(3,4) by (simp add: link_ok_def)
  then show ?thesis using k(1,2) by blast
qed

text \<open>a control read sends what was asked for: the packets are the first \<open>n\<close> bytes of the data, all of them but the last are full, and
  the host can tell the end, by a packet that is not full or by the number of bytes; then the device waits for the status stage.\<close>

theorem control_read_exact:
  assumes "length (ep0_buf u) = 64" and "ctrl_read (n + 2) (ctrl_send d n u) = (ps, w)"
  shows "concat ps = take n d \<and> ctrl_state w = EP_STATUS_OUT \<and> (\<forall>p \<in> set (butlast ps). length p = 64)
    \<and> (length (last ps) < 64 \<or> length (concat ps) = n)"
proof -
  define r z where "r = take n d" and "z \<longleftrightarrow> length d < n \<and> length (take n d) mod 64 = 0"
  let ?u = "u\<lparr>ctrl_rest := r, ctrl_zlp := z, ctrl_state := EP_DATA_IN, uep0_ctrl := BOTH_TOG\<rparr>"
  have e: "ctrl_send d n u = ctrl_next ?u" by (simp add: ctrl_send_def Let_def r_def z_def)
  have m: "z \<longrightarrow> length r mod 64 = 0" unfolding r_def z_def by blast
  have f: "ctrl_ready (ctrl_next ?u)" "ctrl_packet (ctrl_next ?u) = take 64 r" "ctrl_rest (ctrl_next ?u) = drop 64 r"
    "ctrl_zlp (ctrl_next ?u) = (z \<and> r \<noteq> [])"
    using ctrl_next_ready [of ?u] assms(1) m by simp_all
  have "length r \<le> n" by (simp add: r_def)
  then have less: "length (ctrl_rest (ctrl_next ?u)) + (if ctrl_zlp (ctrl_next ?u) then 1 else 0) < n + 2" using f(3) by auto
  note k = ctrl_read_ok [OF f(1) less assms(2) [unfolded e]]
  have c: "concat ps = r" using k f(2,3) by simp
  have k2: "ctrl_state w = EP_STATUS_OUT" "\<forall>p \<in> set (butlast ps). length p = 64" using k by blast+
  have "length (last ps) < 64 \<or> \<not> (z \<and> r \<noteq> []) \<and> 64 dvd length r"
    using k f(2-4) by simp
  moreover have "length (last ps) < 64" if "r = []"
  proof -
    have "ps \<noteq> []" using k by blast
    then have "last ps = []" using that c last_in_set [of ps] by (simp add: concat_eq_Nil_conv)
    then show ?thesis by simp
  qed
  moreover have "length r = n" if "\<not> z" "64 dvd length r"
  proof -
    have "\<not> length d < n" using that unfolding z_def r_def dvd_eq_mod_eq_0 by blast
    then show ?thesis by (simp add: r_def)
  qed
  ultimately have "length (last ps) < 64 \<or> length (concat ps) = n" using c by blast
  then show ?thesis using c k2 by (simp add: r_def)
qed

section \<open>Instances\<close>

definition sample_uid :: "u8 list" where
  "sample_uid = [1, 2, 3, 4, 5, 6, 7, 8, 1, 2, 3, 4, 5, 6, 7, 8]"

definition setup_irq :: "u8 list \<Rightarrow> usb_irq" where
  "setup_irq r = \<lparr>iq_flags = RB_UIF_TRANSFER, iq_status = 0xB0, iq_status_late = 0xB0, iq_rx_len = 8, iq_mis_st = 0,
     iq_ep0 = r, iq_ep0_late = r, iq_ep2 = []\<rparr>"

definition out_irq :: "u8 list \<Rightarrow> usb_irq" where
  "out_irq d = \<lparr>iq_flags = RB_UIF_TRANSFER OR RB_U_TOG_OK, iq_status = 2, iq_status_late = 0, iq_rx_len = length d, iq_mis_st = 0,
     iq_ep0 = [], iq_ep0_late = [], iq_ep2 = d\<rparr>"

text \<open>The host configures the device, the firmware takes note and writes three bytes, the host sends two.\<close>

definition sample_events :: "usb_event list" where
  "sample_events = [Irq (setup_irq [0, 9, 1, 0, 0, 0, 0, 0]), Take_lost, Write [1, 2, 3], Irq (out_irq [8, 9])]"

lemma sample_uid_length: "length sample_uid = 16"
  by (simp add: sample_uid_def)

lemma sample_possible: "possible (sample_events @ [Irq in_token, Read 64]) (usb_start sample_uid)"
  by code_simp


theorem usb_streams_exact_witness:
  "let (u, l) = link_run (sample_events @ [Irq in_token, Read 64]) (usb_start sample_uid, log_start)
   in ll_written l = ll_sent l @ in_flight u @ tx_items u \<and> ll_received l = ll_read l @ rx_items u
     \<and> ll_sent l = [1, 2, 3] \<and> ll_read l = [8, 9]"
proof -
  obtain u l where r: "link_run (sample_events @ [Irq in_token, Read 64]) (usb_start sample_uid, log_start) = (u, l)"
    by (metis surj_pair)
  have "ll_sent (snd (link_run (sample_events @ [Irq in_token, Read 64]) (usb_start sample_uid, log_start))) = [1, 2, 3]"
    "ll_read (snd (link_run (sample_events @ [Irq in_token, Read 64]) (usb_start sample_uid, log_start))) = [8, 9]"
    by code_simp+
  then show ?thesis
    using usb_streams_exact [OF sample_uid_length sample_possible r] by (simp add: r)
qed

theorem usb_write_delivered_witness:
  "let s = link_run sample_events (usb_start sample_uid, log_start)
   in \<exists>k v m. link_run (replicate k (Irq in_token)) s = (v, m) \<and> tx_idle v \<and> ll_sent m = ll_written (snd s)"
proof -
  obtain u l where r: "link_run sample_events (usb_start sample_uid, log_start) = (u, l)" by (metis surj_pair)
  have p: "possible sample_events (usb_start sample_uid)" by code_simp
  have "usb_open (fst (link_run sample_events (usb_start sample_uid, log_start)))
      \<and> \<not> halt_in (fst (link_run sample_events (usb_start sample_uid, log_start)))" by code_simp
  then show ?thesis
    using usb_write_delivered [OF sample_uid_length p r] by (simp add: r Let_def)
qed

theorem control_read_exact_witness:
  "concat (fst (ctrl_read 257 (ctrl_send cfg_desc 255 usb_boot))) = cfg_desc"
  using control_read_exact [of usb_boot 255 cfg_desc, OF _ surjective_pairing]
  by (simp add: usb_boot_def cfg_desc_def)

end
