(* ===== verification/Central.thy ===== *)
theory Central
  imports Adapter_Cache Adapter_Events Board Gatt Usb_Cdc
begin

text \<open>
  The connection manager of the dongle (\<open>src/firmware/wch/wch_central.c\<close>) and the server task (\<open>main.c\<close>). The statics of
  the file are the record \<open>central\<close>; with the GATT client, the board, the USB link and the library's state they are the
  surroundings \<open>dongle\<close> of the RC003 adapter, so that the state of the whole firmware is an adapter in this world. The calls into
  adapter, GATT client, board and USB link are the definitions of those theories. Parameters are the vendor's GAP and bond
  library (\<open>gap_sdk\<close>) and the product server, which is reached through the port of the adapter and may call the
  backend functions \<open>rb_...\<close> from within any call. Each component keeps a log of the faults that it reports itself, where the
  firmware has one log for all; nothing but the statistics of the server reads it.
\<close>

section \<open>State\<close>

datatype wc_state =
    WC_IDLE | WC_SCAN | WC_CONNECTING | WC_CONNECTED | WC_RESOLVE
  | WC_SCAN_STOPPING | WC_CONNECT_CANCEL | WC_DISCONNECTING

datatype next_link = NEXT_NONE | NEXT_PAIR | NEXT_RECONNECT

abbreviation (input) MAX_CAND :: nat where "MAX_CAND \<equiv> 8"
abbreviation (input) CANCEL_TIMEOUT_MS :: u32 where "CANCEL_TIMEOUT_MS \<equiv> 5000"
abbreviation (input) WC_ESTABLISH_FAILED :: u8 where "WC_ESTABLISH_FAILED \<equiv> 0x3E"
abbreviation (input) WC_EARLY_RETRY_LIMIT :: nat where "WC_EARLY_RETRY_LIMIT \<equiv> 2"
abbreviation (input) RBP_FAULT_GAP :: u16 where "RBP_FAULT_GAP \<equiv> 2"

record candidate =
  cd_addr :: "u8 list"
  cd_type :: u8

record central =
  wc_conn :: u16
  wc_state :: wc_state
  wc_backoff :: nat
  early_retries :: nat
  wc_next :: next_link
  radio_faulted :: bool
  security_blocked :: bool
  passkey_pending :: bool
  radio_ready :: bool
  pair_pending :: bool
  bond_ready :: bool
  adapter_started :: bool
  recovering :: bool
  delete_report :: bool
  erase_requested :: bool
  wc_deadline :: u32
  reconnect_at :: u32
  recovery_deadline :: u32
  target_addr :: "u8 list"
  target_type :: u8
  wc_identity :: "u8 list"
  identity_type :: u8
  peer_irk :: "u8 list"
  have_irk :: bool
  wc_candidates :: "candidate list"
  cache_synced :: bool
  link_established_ms :: u32
  display_passkey :: u32
  wc_faults :: fault_state

record ('k, 'w, 'x, 'v) dongle =
  dg_central :: central
  dg_gatt :: "'k gatt"
  dg_board :: "'w board"
  dg_usb :: usb
  dg_gap :: 'x
  dg_server :: 'v
  wch_now_ms :: u32
  prev_ticks :: u32
  tick_remainder :: u32

type_synonym ('k, 'w, 'x, 'v) sys = "('k, 'w, 'x, 'v) dongle rc003_adapter"

section \<open>The vendor's library\<close>

abbreviation (input) bleGAPUserCanceled :: u8 where "bleGAPUserCanceled \<equiv> 0x30"
abbreviation (input) INVALID_CONNHANDLE :: u16 where "INVALID_CONNHANDLE \<equiv> 0xFFFF"
abbreviation (input) GAP_ADRPT_ADV_IND :: u8 where "GAP_ADRPT_ADV_IND \<equiv> 0"
abbreviation (input) GAP_ADRPT_ADV_DIRECT_IND :: u8 where "GAP_ADRPT_ADV_DIRECT_IND \<equiv> 1"
abbreviation (input) GAP_ADRPT_SCAN_RSP :: u8 where "GAP_ADRPT_SCAN_RSP \<equiv> 4"
abbreviation (input) GAPBOND_CENT_PAIRING_MODE :: u16 where "GAPBOND_CENT_PAIRING_MODE \<equiv> 0x408"
abbreviation (input) GAPBOND_ERASE_ALLBONDS :: u16 where "GAPBOND_ERASE_ALLBONDS \<equiv> 0x410"
abbreviation (input) GAPBOND_BOND_COUNT :: u16 where "GAPBOND_BOND_COUNT \<equiv> 0x415"
abbreviation (input) PAIRING_STATE_STARTED :: u8 where "PAIRING_STATE_STARTED \<equiv> 0"
abbreviation (input) PAIRING_STATE_COMPLETE :: u8 where "PAIRING_STATE_COMPLETE \<equiv> 1"
abbreviation (input) PAIRING_STATE_BONDED :: u8 where "PAIRING_STATE_BONDED \<equiv> 2"
abbreviation (input) PAIRING_STATE_BOND_SAVED :: u8 where "PAIRING_STATE_BOND_SAVED \<equiv> 3"
abbreviation (input) mainRecordNvID :: u32 where "mainRecordNvID \<equiv> 0x20"
abbreviation (input) devIRKNvID :: u32 where "devIRKNvID \<equiv> 0x23"

datatype gap_request =
    GAP_SetParamValue u16 u16
  | GAPBondMgr_SetParameter u16 "u8 list"
  | GAPBondMgr_PasscodeRsp u16 u8 u32
  | GAPRole_CentralStartDiscovery bool
  | GAPRole_CentralCancelDiscovery
  | GAPRole_CentralEstablishLink u8 "u8 list"
  | GAPRole_TerminateLink u16
  | GAPRole_CentralStartDevice
  | GAP_ConfigDeviceAddr u8
  | GATT_InitClient
  | GATT_RegisterForInd
  | Tmos_set_event u16
  | Tmos_start_task u16 nat

text \<open>The parts of the bond record that are read.\<close>

record bond_rec =
  br_addr :: "u8 list"
  br_addr_type :: u8

record 'x gap_sdk =
  gap_call :: "gap_request \<Rightarrow> 'x \<Rightarrow> u8 \<times> 'x"
  gap_bond_count :: "'x \<Rightarrow> u8 \<times> u8 \<times> 'x"
  snv_main_record :: "'x \<Rightarrow> u8 \<times> bond_rec \<times> 'x"
  snv_dev_irk :: "'x \<Rightarrow> u8 \<times> u8 list \<times> 'x"
  GAP_ResolvePrivateAddr :: "u8 list \<Rightarrow> u8 list \<Rightarrow> u8"
  tmos_rand :: "'x \<Rightarrow> u32 \<times> 'x"
  link_encrypted :: "u16 \<Rightarrow> 'x \<Rightarrow> bool"
  task_registered :: "'x \<Rightarrow> bool"

record ('k, 'w, 'x, 'v) central_port =
  cp_adapter :: "('k, 'w, 'x, 'v) dongle adapter_port"
  cp_gatt :: "'k gatt_sdk"
  cp_eeprom :: "'w eeprom"
  cp_gap :: "'x gap_sdk"
  cp_should_reconnect :: "'v \<Rightarrow> bool"

section \<open>Access\<close>

definition cen :: "('k, 'w, 'x, 'v) sys \<Rightarrow> central" where
  "cen s = dg_central (world (env s))"

definition wupd :: "(('k, 'w, 'x, 'v) dongle \<Rightarrow> ('k, 'w, 'x, 'v) dongle) \<Rightarrow> ('k, 'w, 'x, 'v) sys \<Rightarrow> ('k, 'w, 'x, 'v) sys" where
  "wupd f = cupd (\<lambda>c. c\<lparr>world := f (world c)\<rparr>)"

definition wc_upd :: "(central \<Rightarrow> central) \<Rightarrow> ('k, 'w, 'x, 'v) sys \<Rightarrow> ('k, 'w, 'x, 'v) sys" where
  "wc_upd f = wupd (\<lambda>w. w\<lparr>dg_central := f (dg_central w)\<rparr>)"

definition gatt_upd :: "('k gatt \<Rightarrow> 'k gatt) \<Rightarrow> ('k, 'w, 'x, 'v) sys \<Rightarrow> ('k, 'w, 'x, 'v) sys" where
  "gatt_upd f = wupd (\<lambda>w. w\<lparr>dg_gatt := f (dg_gatt w)\<rparr>)"

definition board_upd :: "('w board \<Rightarrow> 'w board) \<Rightarrow> ('k, 'w, 'x, 'v) sys \<Rightarrow> ('k, 'w, 'x, 'v) sys" where
  "board_upd f = wupd (\<lambda>w. w\<lparr>dg_board := f (dg_board w)\<rparr>)"

definition board_get :: "('w board \<Rightarrow> 'r \<times> 'w board) \<Rightarrow> ('k, 'w, 'x, 'v) sys \<Rightarrow> 'r \<times> ('k, 'w, 'x, 'v) sys" where
  "board_get f s = (let (r, b) = f (dg_board (world (env s))) in (r, board_upd (\<lambda>_. b) s))"

definition now_ms :: "('k, 'w, 'x, 'v) sys \<Rightarrow> u32" where
  "now_ms s = wch_now_ms (world (env s))"

definition tell :: "('k, 'w, 'x, 'v) central_port \<Rightarrow> server_call \<Rightarrow> ('k, 'w, 'x, 'v) sys \<Rightarrow> ('k, 'w, 'x, 'v) sys" where
  "tell P call = p_server (cp_adapter P) call"

definition link_message :: "('k, 'w, 'x, 'v) central_port \<Rightarrow> string \<Rightarrow> ('k, 'w, 'x, 'v) sys \<Rightarrow> ('k, 'w, 'x, 'v) sys" where
  "link_message P msg = tell P (C_link_message (Some (cstr msg)))"

definition tell_link :: "('k, 'w, 'x, 'v) central_port \<Rightarrow> rbp_link_state \<Rightarrow> ('k, 'w, 'x, 'v) sys \<Rightarrow> ('k, 'w, 'x, 'v) sys" where
  "tell_link P st s = tell P (C_link st 0 (now_ms s)) s"

definition record_gap :: "u16 \<Rightarrow> u8 \<Rightarrow> u32 \<Rightarrow> ('k, 'w, 'x, 'v) sys \<Rightarrow> ('k, 'w, 'x, 'v) sys" where
  "record_gap stage code context =
     wc_upd (\<lambda>c. c\<lparr>wc_faults := rbp_fault_record RBP_FAULT_GAP stage (ucast code) context (wc_faults c)\<rparr>)"

definition gap_result :: "u16 \<Rightarrow> u8 \<Rightarrow> u32 \<Rightarrow> ('k, 'w, 'x, 'v) sys \<Rightarrow> ('k, 'w, 'x, 'v) sys" where
  "gap_result stage status context s =
     (if status \<noteq> SUCCESS \<and> \<not> (stage = 11 \<and> status = 0xFE) then record_gap stage status context s else s)"

text \<open>A call of the library whose status passes through \<open>gap_result\<close>.\<close>

definition gap_do :: "('k, 'w, 'x, 'v) central_port \<Rightarrow> u16 \<Rightarrow> u32 \<Rightarrow> gap_request \<Rightarrow> ('k, 'w, 'x, 'v) sys
    \<Rightarrow> u8 \<times> ('k, 'w, 'x, 'v) sys" where
  "gap_do P stage context req s =
     (let (st, x) = gap_call (cp_gap P) req (dg_gap (world (env s)))
      in (st, gap_result stage st context (wupd (\<lambda>w. w\<lparr>dg_gap := x\<rparr>) s)))"

definition bond_count :: "('k, 'w, 'x, 'v) central_port \<Rightarrow> ('k, 'w, 'x, 'v) sys \<Rightarrow> u8 \<times> u8 \<times> ('k, 'w, 'x, 'v) sys" where
  "bond_count P s =
     (let (st, n, x) = gap_bond_count (cp_gap P) (dg_gap (world (env s)))
      in (st, n, gap_result 2 st (ucast GAPBOND_BOND_COUNT) (wupd (\<lambda>w. w\<lparr>dg_gap := x\<rparr>) s)))"

definition storage :: "('k, 'w, 'x, 'v) central_port \<Rightarrow> ('k, 'w, 'x, 'v) sys \<Rightarrow> u8 \<times> ('k, 'w, 'x, 'v) sys" where
  "storage P = board_get (board_storage_state (cp_eeprom P))"

section \<open>State changes\<close>

definition reconnect_schedule :: "('k, 'w, 'x, 'v) sys \<Rightarrow> ('k, 'w, 'x, 'v) sys" where
  "reconnect_schedule s =
     wc_upd (\<lambda>c. let step = wc_backoff c
                 in c\<lparr>reconnect_at := now_ms s + [1000, 2000, 5000] ! step,
                      wc_backoff := (if step < 2 then step + 1 else 2)\<rparr>) s"

definition set_state :: "wc_state \<Rightarrow> u32 \<Rightarrow> ('k, 'w, 'x, 'v) sys \<Rightarrow> ('k, 'w, 'x, 'v) sys" where
  "set_state st timeout s = wc_upd (\<lambda>c. c\<lparr>wc_state := st, wc_deadline := now_ms s + timeout\<rparr>) s"

definition expired :: "u32 \<Rightarrow> ('k, 'w, 'x, 'v) sys \<Rightarrow> bool" where
  "expired deadline s \<longleftrightarrow> reached (now_ms s) deadline"

definition sync_gatt_cache :: "('k, 'w, 'x, 'v) central_port \<Rightarrow> ('k, 'w, 'x, 'v) sys \<Rightarrow> ('k, 'w, 'x, 'v) sys" where
  "sync_gatt_cache P s =
     (let (st, s) = storage P s; peer = cache_peer_id (env s) in
      if st \<noteq> 1 \<or> peer = 0 then s
      else
        let data = rc003_adapter_cache_export s BOARD_CACHE_MAX in
        if cache_valid (env s) \<and> data = [] then s
        else
          let (ok, s) = board_get (board_cache_save (cp_eeprom P) peer data) s
          in if ok then s else link_message P ''GATT cache storage failed'' s)"

text \<open>The link is given up: the client stops, the database is kept, the adapter forgets the link.\<close>

definition drop_link :: "('k, 'w, 'x, 'v) central_port \<Rightarrow> ('k, 'w, 'x, 'v) sys \<Rightarrow> ('k, 'w, 'x, 'v) sys" where
  "drop_link P s = rc003_adapter_detach (cp_adapter P) (sync_gatt_cache P s)"

definition radio_fault :: "('k, 'w, 'x, 'v) central_port \<Rightarrow> string \<Rightarrow> ('k, 'w, 'x, 'v) sys \<Rightarrow> ('k, 'w, 'x, 'v) sys" where
  "radio_fault P why s =
     (let s = wc_upd (\<lambda>c. c\<lparr>wc_next := NEXT_NONE\<rparr>) s in
      if radio_faulted (cen s) then s
      else
        let s = wc_upd (\<lambda>c. c\<lparr>radio_faulted := True\<rparr>) s;
            s = drop_link P (gatt_upd wch_gatt_quiesce s)
        in tell_link P RBP_LINK_ERROR (link_message P why s))"

definition disconnected_retry :: "('k, 'w, 'x, 'v) central_port \<Rightarrow> bool \<Rightarrow> ('k, 'w, 'x, 'v) sys \<Rightarrow> ('k, 'w, 'x, 'v) sys" where
  "disconnected_retry P early s =
     (let s = (if radio_faulted (cen s) \<or> security_blocked (cen s) then tell_link P RBP_LINK_ERROR s
               else let (st, s) = storage P s
                    in tell_link P (if st = 1 then RBP_LINK_DISCONNECTED else RBP_LINK_UNBOUND) s);
          c = cen s;
          (st, s) = (if early \<and> \<not> radio_faulted c \<and> \<not> security_blocked c \<and> \<not> recovering c then storage P s else (0, s))
      in if st = 1 \<and> early_retries (cen s) < WC_EARLY_RETRY_LIMIT
         then wc_upd (\<lambda>c. c\<lparr>early_retries := early_retries c + 1, reconnect_at := now_ms s\<rparr>) s
         else reconnect_schedule s)"

definition stop_scan :: "('k, 'w, 'x, 'v) central_port \<Rightarrow> ('k, 'w, 'x, 'v) sys \<Rightarrow> ('k, 'w, 'x, 'v) sys" where
  "stop_scan P s =
     (if wc_state (cen s) = WC_SCAN_STOPPING then s
      else
        let (st, s) = gap_do P 4 0 GAPRole_CentralCancelDiscovery (set_state WC_SCAN_STOPPING CANCEL_TIMEOUT_MS s)
        in if st \<noteq> SUCCESS then link_message P ''scan cancel rejected; awaiting completion'' s else s)"

definition rb_disconnect :: "('k, 'w, 'x, 'v) central_port \<Rightarrow> ('k, 'w, 'x, 'v) sys \<Rightarrow> ('k, 'w, 'x, 'v) sys" where
  "rb_disconnect P s =
     (let s = wc_upd (\<lambda>c. c\<lparr>wc_next := NEXT_NONE, passkey_pending := False\<rparr>) s; st = wc_state (cen s) in
      if st = WC_SCAN \<or> st = WC_RESOLVE then stop_scan P s
      else if st = WC_CONNECTING then
        let (rc, s) = gap_do P 9 0 (GAPRole_TerminateLink INVALID_CONNHANDLE)
                        (set_state WC_CONNECT_CANCEL CANCEL_TIMEOUT_MS s)
        in if rc \<noteq> SUCCESS then link_message P ''initiation cancel rejected; awaiting terminal event'' s else s
      else if st = WC_CONNECTED then
        let s = set_state WC_DISCONNECTING CANCEL_TIMEOUT_MS (drop_link P (gatt_upd wch_gatt_quiesce s));
            (rc, s) = gap_do P 9 0 (GAPRole_TerminateLink (wc_conn (cen s))) s
        in if rc \<noteq> SUCCESS then link_message P ''disconnect rejected; awaiting terminal event'' s else s
      else s)"

definition begin_recovery :: "bool \<Rightarrow> ('k, 'w, 'x, 'v) sys \<Rightarrow> ('k, 'w, 'x, 'v) sys" where
  "begin_recovery report = wc_upd (\<lambda>c. c\<lparr>recovering := True, delete_report := report, erase_requested := False,
     recovery_deadline := 0\<rparr>)"

definition fail_pair :: "('k, 'w, 'x, 'v) central_port \<Rightarrow> u16 \<Rightarrow> ('k, 'w, 'x, 'v) sys \<Rightarrow> ('k, 'w, 'x, 'v) sys" where
  "fail_pair P status s =
     (if \<not> pair_pending (cen s) then s
      else
        let (st, s) = storage P (wc_upd (\<lambda>c. c\<lparr>pair_pending := False\<rparr>) s);
            s = wc_upd (\<lambda>c. c\<lparr>recovering := (st = 3), delete_report := False, erase_requested := False,
                             recovery_deadline := 0\<rparr>) s
        in rb_disconnect P (tell P (C_pair_done status False None 0) s))"

definition sdk_message :: "string \<Rightarrow> u8 \<Rightarrow> string" where
  "sdk_message phase code = take 40 phase @ '' (SDK 0x'' @ hex_digits 2 (ucast code) @ '')''"

definition fail_pair_sdk :: "('k, 'w, 'x, 'v) central_port \<Rightarrow> string \<Rightarrow> u8 \<Rightarrow> ('k, 'w, 'x, 'v) sys \<Rightarrow> ('k, 'w, 'x, 'v) sys" where
  "fail_pair_sdk P phase code s =
     (if \<not> pair_pending (cen s) then s
      else tell_link P RBP_LINK_ERROR
             (link_message P (sdk_message phase code) (fail_pair P RBP_STATUS_PAIRING_FAILED s)))"

section \<open>Bonds\<close>

definition all_bytes :: "u8 \<Rightarrow> u8 list \<Rightarrow> bool" where
  "all_bytes b bs \<longleftrightarrow> (\<forall>x \<in> set bs. x = b)"

definition blank_key :: "u8 list \<Rightarrow> bool" where
  "blank_key bs \<longleftrightarrow> all_bytes 0 bs \<or> all_bytes 255 bs"

definition read_identity :: "('k, 'w, 'x, 'v) central_port \<Rightarrow> ('k, 'w, 'x, 'v) sys \<Rightarrow> bool \<times> ('k, 'w, 'x, 'v) sys" where
  "read_identity P s =
     (let (cs, count, s) = bond_count P s;
          (rs, rec, x) = snv_main_record (cp_gap P) (dg_gap (world (env s)));
          s = gap_result 12 rs mainRecordNvID (wupd (\<lambda>w. w\<lparr>dg_gap := x\<rparr>) s)
      in if cs \<noteq> SUCCESS \<or> count \<noteq> 1 \<or> rs \<noteq> SUCCESS \<or> br_addr_type rec > 1 \<or> blank_key (br_addr rec) then (False, s)
         else
           let s = wc_upd (\<lambda>c. c\<lparr>wc_identity := br_addr rec, identity_type := br_addr_type rec,
                                 peer_irk := replicate 16 0, have_irk := False\<rparr>) s;
               (ir, irk, x) = snv_dev_irk (cp_gap P) (dg_gap (world (env s)));
               s = gap_result 12 ir devIRKNvID (wupd (\<lambda>w. w\<lparr>dg_gap := x\<rparr>) s)
           in (True, if ir = SUCCESS then wc_upd (\<lambda>c. c\<lparr>peer_irk := irk, have_irk := \<not> blank_key irk\<rparr>) s else s))"

definition bond_record :: "u32 \<Rightarrow> rbp_peer_record" where
  "bond_record peer = \<lparr>pr_peer_id = peer, pr_name = memcpy_at (replicate 48 0) 0 (cstr ''BLE Remote''), pr_auto_reconnect = True\<rparr>"

definition finish_pair :: "('k, 'w, 'x, 'v) central_port \<Rightarrow> ('k, 'w, 'x, 'v) sys \<Rightarrow> ('k, 'w, 'x, 'v) sys" where
  "finish_pair P s =
     (case read_identity P s of
        (False, s) \<Rightarrow> fail_pair P RBP_STATUS_STORAGE_FAILED s
      | (True, s) \<Rightarrow>
          let (peer, s) = board_get (board_peer_counter (cp_eeprom P)) s; c = cen s;
              s = board_upd (board_addr_stage (cp_eeprom P) (wc_identity c) (identity_type c)) s;
              s = board_upd (board_hid_flags_stage (cp_eeprom P) (if hid_info_valid (env s) then hid_flags (env s) else 255)) s;
              s = wc_upd (\<lambda>c. c\<lparr>pair_pending := False\<rparr>) s;
              s = tell P (C_pair_done RBP_STATUS_OK True (Some (bond_record peer)) 0) s;
              (st, s) = storage P s
          in if st = 1 then rc003_adapter_commit_bond peer s
             else rb_disconnect P (begin_recovery False s))"

definition begin_link :: "('k, 'w, 'x, 'v) central_port \<Rightarrow> u8 list \<Rightarrow> u8 \<Rightarrow> ('k, 'w, 'x, 'v) sys \<Rightarrow> ('k, 'w, 'x, 'v) sys" where
  "begin_link P addr typ s =
     (if wc_state (cen s) \<noteq> WC_IDLE \<or> radio_faulted (cen s) \<or> recovering (cen s) then s
      else
        let s = wc_upd (\<lambda>c. c\<lparr>target_addr := addr, target_type := typ, wc_next := NEXT_NONE\<rparr>) s;
            (st, s) = gap_do P 3 (ucast GAPBOND_CENT_PAIRING_MODE) (GAPBondMgr_SetParameter GAPBOND_CENT_PAIRING_MODE [2]) s
        in if st \<noteq> SUCCESS then fail_pair_sdk P ''security setup failed'' st (radio_fault P ''security setup failed'' s)
           else
             let s = wc_upd (\<lambda>c. c\<lparr>adapter_started := False, bond_ready := False, passkey_pending := False\<rparr>)
                       (set_state WC_CONNECTING 20000 s);
                 s = tell_link P RBP_LINK_CONNECTING s;
                 (st, s) = gap_do P 5 0 (GAPRole_CentralEstablishLink typ (target_addr (cen s))) s
             in if st = SUCCESS then s
                else
                  let s = set_state WC_IDLE 0 s
                  in reconnect_schedule
                       (if pair_pending (cen s) then fail_pair_sdk P ''connection request failed'' st s
                        else tell_link P RBP_LINK_DISCONNECTED s))"

section \<open>Advertisements\<close>

definition resolve_advertisement :: "('k, 'w, 'x, 'v) central_port \<Rightarrow> u8 list \<Rightarrow> u8 \<Rightarrow> u8 \<Rightarrow> ('k, 'w, 'x, 'v) sys \<Rightarrow> ('k, 'w, 'x, 'v) sys" where
  "resolve_advertisement P addr typ event_type s =
     (let c = cen s in
      if wc_state c \<noteq> WC_RESOLVE \<or> radio_faulted c then s
      else if event_type \<noteq> GAP_ADRPT_ADV_IND \<and> event_type \<noteq> GAP_ADRPT_ADV_DIRECT_IND then s
      else if (typ = identity_type c \<and> addr = wc_identity c)
        \<or> (have_irk c \<and> (typ = 1 \<or> typ = 3) \<and> addr ! 5 AND 0xC0 = 0x40
            \<and> GAP_ResolvePrivateAddr (cp_gap P) (peer_irk c) addr = SUCCESS)
      then stop_scan P (wc_upd (\<lambda>c. c\<lparr>target_addr := addr, target_type := typ, wc_next := NEXT_RECONNECT\<rparr>) s)
      else s)"

text \<open>The lead byte of a character and its length; \<open>None\<close> is a byte that cannot begin one.\<close>

definition name_lead :: "u8 \<Rightarrow> (u32 \<times> nat) option" where
  "name_lead b =
     (if 0xC2 \<le> b \<and> b \<le> 0xDF then Some (ucast b AND 31, 2)
      else if 0xE0 \<le> b \<and> b \<le> 0xEF then Some (ucast b AND 15, 3)
      else if 0xF0 \<le> b \<and> b \<le> 0xF4 then Some (ucast b AND 7, 4)
      else if 0x80 \<le> b \<or> b < 0x20 then None
      else Some (ucast b, 1))"

fun name_cont :: "u32 \<Rightarrow> u8 list \<Rightarrow> u32 option" where
  "name_cont cp [] = Some cp"
| "name_cont cp (b # bs) = (if b AND 0xC0 \<noteq> 0x80 then None else name_cont (push_bit 6 cp OR (ucast b AND 63)) bs)"

definition name_bad :: "nat \<Rightarrow> u32 \<Rightarrow> bool" where
  "name_bad k cp \<longleftrightarrow> (k = 3 \<and> cp < 0x800) \<or> (k = 4 \<and> cp < 0x10000) \<or> cp > 0x10FFFF \<or> (0xD800 \<le> cp \<and> cp \<le> 0xDFFF)"

definition name_char :: "u8 list \<Rightarrow> nat option" where
  "name_char p =
     (case name_lead (hd p) of None \<Rightarrow> None
      | Some (cp, k) \<Rightarrow>
          if length p < k then None
          else case name_cont cp (take (k - 1) (tl p)) of None \<Rightarrow> None
            | Some cp \<Rightarrow> if name_bad k cp then None else Some k)"

lemma name_char_range: "name_char p = Some k \<Longrightarrow> p \<noteq> [] \<Longrightarrow> 0 < k \<and> k \<le> length p"
  by (cases p) (auto simp: name_char_def name_lead_def Suc_le_eq split: option.splits if_splits)

text \<open>The loop over the name: \<open>i\<close> bytes are read, \<open>w\<close> are copied. The second result is the array; a return of
  zero may leave characters in it.\<close>

function name_loop :: "u8 list \<Rightarrow> nat \<Rightarrow> nat \<Rightarrow> u8 list \<Rightarrow> nat \<times> u8 list" where
  "name_loop p i w out =
     (if p = [] then (w, out[w := 0])
      else case name_char p of None \<Rightarrow> (0, out)
        | Some k \<Rightarrow>
            if i + k < 48 then name_loop (drop k p) (i + k) (w + k) (memcpy_at out w (take k p))
            else name_loop (drop k p) (i + k) w out)"
  by pat_completeness auto

termination
  by (relation "measure (\<lambda>(p, _). length p)") (auto dest: name_char_range)

definition candidate_name :: "u8 list \<Rightarrow> u8 list \<Rightarrow> nat \<times> u8 list" where
  "candidate_name out p = name_loop p 0 0 out"

record device_info =
  di_event_type :: u8
  di_addr_type :: u8
  di_addr :: "u8 list"
  di_rssi :: int
  di_data :: "u8 list"

record adv_scan =
  av_name :: "u8 list option"
  av_hid :: bool
  av_voice_hint :: bool

fun adv_uuids :: "u8 list \<Rightarrow> adv_scan \<Rightarrow> adv_scan" where
  "adv_uuids (a # b # ds) v =
     adv_uuids ds (v\<lparr>av_hid := av_hid v \<or> (a = 0x12 \<and> b = 0x18), av_voice_hint := av_voice_hint v \<or> (a = 0x00 \<and> b = 0xFD)\<rparr>)"
| "adv_uuids _ v = v"

definition adv_item :: "u8 \<Rightarrow> u8 list \<Rightarrow> adv_scan \<Rightarrow> adv_scan" where
  "adv_item typ d v =
     (let v = (if typ = 8 \<or> typ = 9 then v\<lparr>av_name := Some d\<rparr> else v)
      in if typ = 2 \<or> typ = 3 then adv_uuids d v else v)"

text \<open>The items of an advertisement; \<open>None\<close> is an item that reaches beyond the data.\<close>

function adv_loop :: "u8 list \<Rightarrow> adv_scan \<Rightarrow> adv_scan option" where
  "adv_loop [] v = Some v"
| "adv_loop (n # r) v =
     (if n = 0 then Some v
      else if length r < unat n then None
      else adv_loop (drop (unat n) r) (adv_item (hd r) (take (unat n - 1) (tl r)) v))"
  by pat_completeness auto

termination
  by (relation "measure (\<lambda>(r, _). length r)") auto

definition candidate_index :: "device_info \<Rightarrow> candidate list \<Rightarrow> nat" where
  "candidate_index info cs = length (takeWhile (\<lambda>c. \<not> (cd_type c = di_addr_type info \<and> cd_addr c = di_addr info)) cs)"

definition default_name :: "u8 \<Rightarrow> bool \<Rightarrow> u8 list" where
  "default_name support hid =
     cstr (if support \<noteq> 0 then ''Xiaomi RC003'' else if hid then ''BLE HID candidate'' else ''BLE voice candidate'')"

text \<open>The candidate that is reported: \<open>strcpy\<close> of the default name ends with a zero.\<close>

definition scan_candidate :: "bool \<Rightarrow> nat \<Rightarrow> u8 \<Rightarrow> bool \<Rightarrow> int \<Rightarrow> nat \<times> u8 list \<Rightarrow> rbp_candidate" where
  "scan_candidate fresh i support hid rssi name =
     (let (n, arr) = name; d = default_name support hid;
          (n, arr) = (if n = 0 \<and> fresh then (length d, memcpy_at arr 0 (d @ [0])) else (n, arr));
          arr = (if n = 0 then arr[0 := 0] else arr)
      in \<lparr>ca_candidate_id = of_nat (i + 1), ca_support = support,
          ca_signal = (if rssi > -60 then 3 else if rssi > -75 then 2 else 1), ca_name = arr, ca_name_len = of_nat n\<rparr>)"

definition on_found :: "('k, 'w, 'x, 'v) central_port \<Rightarrow> device_info \<Rightarrow> adv_scan \<Rightarrow> ('k, 'w, 'x, 'v) sys \<Rightarrow> ('k, 'w, 'x, 'v) sys" where
  "on_found P info v s =
     (let support = rc003_adapter_match (av_name v) (av_hid v);
          cs = wc_candidates (cen s); i = candidate_index info cs; fresh = (i = length cs);
          name = (case av_name v of None \<Rightarrow> (0, replicate 48 0) | Some p \<Rightarrow> candidate_name (replicate 48 0) p);
          discoverable = (di_event_type info = GAP_ADRPT_ADV_IND \<or> di_event_type info = GAP_ADRPT_SCAN_RSP)
      in if fresh \<and> (\<not> discoverable \<or> (support = 0 \<and> \<not> av_hid v \<and> \<not> av_voice_hint v \<and> fst name = 0)) then s
         else if fresh \<and> i = MAX_CAND then s
         else tell P (C_scan_candidate (scan_candidate fresh i support (av_hid v) (di_rssi info) name))
           (if fresh then wc_upd (\<lambda>c. c\<lparr>wc_candidates := cs @ [\<lparr>cd_addr = di_addr info, cd_type = di_addr_type info\<rparr>]\<rparr>) s
            else s))"

definition on_device :: "('k, 'w, 'x, 'v) central_port \<Rightarrow> device_info \<Rightarrow> ('k, 'w, 'x, 'v) sys \<Rightarrow> ('k, 'w, 'x, 'v) sys" where
  "on_device P info s =
     (if wc_state (cen s) = WC_RESOLVE then resolve_advertisement P (di_addr info) (di_addr_type info) (di_event_type info) s
      else if wc_state (cen s) \<noteq> WC_SCAN then s
      else case adv_loop (di_data info) \<lparr>av_name = None, av_hid = False, av_voice_hint = False\<rparr> of
        None \<Rightarrow> s
      | Some v \<Rightarrow> on_found P info v s)"

section \<open>Events of the GAP role\<close>

datatype gap_event =
    GAP_DEVICE_INIT_DONE u8
  | GAP_LINK_ESTABLISHED u8 u16
  | GAP_LINK_TERMINATED u16 u8
  | GAP_LINK_PARAM_UPDATE u16 u8
  | GAP_PHY_UPDATE u16 u8 u8 u8
  | GAP_DEVICE_INFO device_info
  | GAP_DIRECT_DEVICE_INFO "u8 list" u8 u8
  | GAP_DEVICE_DISCOVERY u8

text \<open>The status in the header, for the events that have one, with the opcode of the event.\<close>

fun header_status :: "gap_event \<Rightarrow> u8 \<times> u32" where
  "header_status (GAP_DEVICE_INIT_DONE st) = (st, 0)"
| "header_status (GAP_LINK_ESTABLISHED st h) = (st, 5)"
| "header_status (GAP_DEVICE_DISCOVERY st) = (st, 1)"
| "header_status _ = (SUCCESS, 0)"

definition on_init_done :: "('k, 'w, 'x, 'v) central_port \<Rightarrow> u8 \<Rightarrow> ('k, 'w, 'x, 'v) sys \<Rightarrow> ('k, 'w, 'x, 'v) sys" where
  "on_init_done P status s =
     (let s = wc_upd (\<lambda>c. c\<lparr>radio_ready := (status = SUCCESS)\<rparr>) s in
      if status \<noteq> SUCCESS then radio_fault P ''BLE initialization failed'' s
      else
        let (st, s) = gap_do P 10 0 (GAP_ConfigDeviceAddr 0) s
        in if st \<noteq> SUCCESS
           then radio_fault P ''local address configuration failed'' (wc_upd (\<lambda>c. c\<lparr>radio_ready := False\<rparr>) s)
           else s)"

definition on_established :: "('k, 'w, 'x, 'v) central_port \<Rightarrow> u16 \<Rightarrow> ('k, 'w, 'x, 'v) sys \<Rightarrow> ('k, 'w, 'x, 'v) sys" where
  "on_established P handle s =
     (let c = cen s in
      if wc_conn c \<noteq> GAP_CONNHANDLE_INIT then s
      else
        let wanted = (wc_state c = WC_CONNECTING \<and> \<not> recovering c \<and> \<not> radio_faulted c \<and> \<not> security_blocked c);
            s = wc_upd (\<lambda>c. c\<lparr>wc_conn := handle, link_established_ms := now_ms s\<rparr>) s;
            s = wc_upd (\<lambda>c. c\<lparr>adapter_started := False\<rparr>) (set_state WC_CONNECTED (if pair_pending c then 60000 else 30000) s)
        in if \<not> wanted then rb_disconnect P s
           else
             let s = gatt_upd (wch_gatt_set_conn handle) s;
                 (st, s) = (if pair_pending (cen s) then (SUCCESS, s)
                   else gap_do P 3 (ucast GAPBOND_CENT_PAIRING_MODE) (GAPBondMgr_SetParameter GAPBOND_CENT_PAIRING_MODE [0]) s)
             in if st \<noteq> SUCCESS then rb_disconnect P (radio_fault P ''restore security policy failed'' s)
                else tell_link P RBP_LINK_INITIALIZING s)"

definition on_establish_failed :: "('k, 'w, 'x, 'v) central_port \<Rightarrow> u8 \<Rightarrow> ('k, 'w, 'x, 'v) sys \<Rightarrow> ('k, 'w, 'x, 'v) sys" where
  "on_establish_failed P status s =
     (let c = cen s in
      if wc_state c = WC_CONNECTING \<or> wc_state c = WC_CONNECT_CANCEL then
        let early = (wc_state c = WC_CONNECTING \<and> \<not> pair_pending c \<and> status = WC_ESTABLISH_FAILED);
            s = fail_pair_sdk P ''connection completion failed'' status (set_state WC_IDLE 0 s)
        in disconnected_retry P early (record_gap 68 status 0 s)
      else s)"

definition link_age :: "('k, 'w, 'x, 'v) sys \<Rightarrow> u32" where
  "link_age s = (let age = now_ms s - link_established_ms (cen s) in if age > 0x3FFFFFFF then 0x3FFFFFFF else age)"

definition on_terminated :: "('k, 'w, 'x, 'v) central_port \<Rightarrow> u16 \<Rightarrow> u8 \<Rightarrow> ('k, 'w, 'x, 'v) sys \<Rightarrow> ('k, 'w, 'x, 'v) sys" where
  "on_terminated P handle reason s =
     (let c = cen s in
      if wc_conn c = GAP_CONNHANDLE_INIT \<or> handle \<noteq> wc_conn c then s
      else
        let s = record_gap 65 reason (link_age s OR (if adapter_started c then 0x80000000 else 0)
                  OR (if ad_ready (env s) then 0x40000000 else 0)) s;
            early = (wc_state c = WC_CONNECTED \<and> \<not> pair_pending c \<and> \<not> adapter_started c \<and> reason = WC_ESTABLISH_FAILED);
            s = gatt_upd (wch_gatt_set_conn GAP_CONNHANDLE_INIT) (wc_upd (\<lambda>c. c\<lparr>wc_conn := GAP_CONNHANDLE_INIT\<rparr>) s);
            s = wc_upd (\<lambda>c. c\<lparr>adapter_started := False, passkey_pending := False\<rparr>) (set_state WC_IDLE 0 s);
            s = fail_pair P RBP_STATUS_LINK_LOST (drop_link P s)
        in disconnected_retry P early s)"

definition on_discovery_done :: "('k, 'w, 'x, 'v) central_port \<Rightarrow> u8 \<Rightarrow> ('k, 'w, 'x, 'v) sys \<Rightarrow> ('k, 'w, 'x, 'v) sys" where
  "on_discovery_done P status s =
     (case wc_state (cen s) of
        WC_SCAN_STOPPING \<Rightarrow>
          let next = wc_next (cen s); s = set_state WC_IDLE 0 (wc_upd (\<lambda>c. c\<lparr>wc_next := NEXT_NONE\<rparr>) s)
          in if status \<noteq> SUCCESS \<and> status \<noteq> bleGAPUserCanceled
             then fail_pair_sdk P ''scan completion failed'' status (radio_fault P ''scan completion failed'' s)
             else if next \<noteq> NEXT_NONE \<and> \<not> radio_faulted (cen s) \<and> \<not> recovering (cen s)
             then begin_link P (target_addr (cen s)) (target_type (cen s)) s
             else disconnected_retry P False s
      | WC_SCAN \<Rightarrow> let s = set_state WC_IDLE 0 s in tell P (C_scan_done RBP_FIND_DONE_EXPIRED (now_ms s)) s
      | WC_RESOLVE \<Rightarrow> disconnected_retry P False (set_state WC_IDLE 0 s)
      | _ \<Rightarrow> s)"

definition ours :: "u16 \<Rightarrow> ('k, 'w, 'x, 'v) sys \<Rightarrow> bool" where
  "ours handle s \<longleftrightarrow> wc_conn (cen s) \<noteq> GAP_CONNHANDLE_INIT \<and> handle = wc_conn (cen s)"

definition wc_event_cb :: "('k, 'w, 'x, 'v) central_port \<Rightarrow> gap_event \<Rightarrow> ('k, 'w, 'x, 'v) sys \<Rightarrow> ('k, 'w, 'x, 'v) sys" where
  "wc_event_cb P e s =
     (let (status, opcode) = header_status e;
          s = (if status \<noteq> SUCCESS \<and> status \<noteq> bleGAPUserCanceled then record_gap 64 status opcode s else s)
      in case e of
        GAP_DEVICE_INIT_DONE st \<Rightarrow> on_init_done P st s
      | GAP_LINK_ESTABLISHED st h \<Rightarrow> if st = SUCCESS then on_established P h s else on_establish_failed P st s
      | GAP_LINK_TERMINATED h reason \<Rightarrow> on_terminated P h reason s
      | GAP_LINK_PARAM_UPDATE h st \<Rightarrow> if ours h s \<and> st \<noteq> SUCCESS then record_gap 66 st 0 s else s
      | GAP_PHY_UPDATE h st tx rx \<Rightarrow>
          if ours h s \<and> st \<noteq> SUCCESS then record_gap 67 st (ucast tx OR push_bit 8 (ucast rx)) s else s
      | GAP_DEVICE_INFO info \<Rightarrow> on_device P info s
      | GAP_DIRECT_DEVICE_INFO addr typ et \<Rightarrow> resolve_advertisement P addr typ et s
      | GAP_DEVICE_DISCOVERY st \<Rightarrow> on_discovery_done P st s)"

section \<open>Events of the bond manager\<close>

definition passcode_response_failed :: "u8 \<Rightarrow> bool" where
  "passcode_response_failed status \<longleftrightarrow> status \<noteq> SUCCESS \<and> status \<noteq> 0xFE"

definition passcode_rsp :: "('k, 'w, 'x, 'v) central_port \<Rightarrow> string \<Rightarrow> u16 \<Rightarrow> u8 \<Rightarrow> u32 \<Rightarrow> ('k, 'w, 'x, 'v) sys \<Rightarrow> ('k, 'w, 'x, 'v) sys" where
  "passcode_rsp P phase handle verdict passkey s =
     (let (st, s) = gap_do P 11 0 (GAPBondMgr_PasscodeRsp handle verdict passkey) s
      in if passcode_response_failed st then fail_pair_sdk P phase st s else s)"

definition wc_passcode_cb :: "('k, 'w, 'x, 'v) central_port \<Rightarrow> u16 \<Rightarrow> u8 \<Rightarrow> u8 \<Rightarrow> ('k, 'w, 'x, 'v) sys \<Rightarrow> ('k, 'w, 'x, 'v) sys" where
  "wc_passcode_cb P handle inputs outputs s =
     (let c = cen s in
      if handle \<noteq> wc_conn c \<or> wc_state c \<noteq> WC_CONNECTED \<or> \<not> pair_pending c then s
      else if inputs \<noteq> 0 then
        tell P (C_pair_prompt RBP_PROMPT_ENTER_PASSKEY 0 30000) (wc_upd (\<lambda>c. c\<lparr>passkey_pending := True\<rparr>) s)
      else if outputs \<noteq> 0 then
        let (r, x) = tmos_rand (cp_gap P) (dg_gap (world (env s)));
            s = wc_upd (\<lambda>c. c\<lparr>display_passkey := r mod 1000000\<rparr>) (wupd (\<lambda>w. w\<lparr>dg_gap := x\<rparr>) s);
            s = tell P (C_pair_prompt RBP_PROMPT_DISPLAY_PASSKEY (display_passkey (cen s)) 30000) s
        in passcode_rsp P ''display passkey response failed'' handle SUCCESS (display_passkey (cen s)) s
      else passcode_rsp P ''just works response failed'' handle SUCCESS 0 s)"

text \<open>The bond no longer holds: only a pairing by the user may use the radio for this remote again.\<close>

definition block_security :: "('k, 'w, 'x, 'v) central_port \<Rightarrow> string \<Rightarrow> ('k, 'w, 'x, 'v) sys \<Rightarrow> ('k, 'w, 'x, 'v) sys" where
  "block_security P why s = rb_disconnect P (link_message P why (wc_upd (\<lambda>c. c\<lparr>security_blocked := True\<rparr>) s))"

definition wc_pair_state_cb :: "('k, 'w, 'x, 'v) central_port \<Rightarrow> u16 \<Rightarrow> u8 \<Rightarrow> u8 \<Rightarrow> ('k, 'w, 'x, 'v) sys \<Rightarrow> ('k, 'w, 'x, 'v) sys" where
  "wc_pair_state_cb P handle state status s =
     (let s = (if status \<noteq> SUCCESS then record_gap (32 + ucast state) status 0 s else s); c = cen s in
      if state = PAIRING_STATE_STARTED \<and> \<not> pair_pending c
         \<and> (wc_state c = WC_CONNECTING \<or> (wc_state c = WC_CONNECTED \<and> handle = wc_conn c))
      then block_security P ''new pairing requires user action'' s
      else if handle \<noteq> wc_conn c \<or> wc_state c \<noteq> WC_CONNECTED then s
      else if state = PAIRING_STATE_STARTED then tell_link P RBP_LINK_PAIRING s
      else if state = PAIRING_STATE_COMPLETE \<and> status \<noteq> SUCCESS then
        if pair_pending c then fail_pair_sdk P ''pair authentication failed'' status s
        else block_security P ''bond authentication failed; user pairing required'' s
      else if state = PAIRING_STATE_BONDED \<and> status \<noteq> SUCCESS \<and> \<not> pair_pending c then
        block_security P ''bond encryption failed; user pairing required'' s
      else if state = PAIRING_STATE_BOND_SAVED \<and> pair_pending c then
        if status = SUCCESS then wc_upd (\<lambda>c. c\<lparr>bond_ready := True\<rparr>) s else fail_pair P RBP_STATUS_STORAGE_FAILED s
      else s)"

section \<open>The backend of the server\<close>

text \<open>Several settings of the library, as long as they are accepted.\<close>

fun gap_settings :: "('k, 'w, 'x, 'v) central_port \<Rightarrow> (u16 \<times> u16) list \<Rightarrow> ('k, 'w, 'x, 'v) sys \<Rightarrow> u8 \<times> ('k, 'w, 'x, 'v) sys" where
  "gap_settings P [] s = (SUCCESS, s)"
| "gap_settings P ((param, v) # ps) s =
     (let (st, s) = gap_do P 1 (ucast param) (GAP_SetParamValue param v) s
      in if st = SUCCESS then gap_settings P ps s else (st, s))"

definition start_scan :: "('k, 'w, 'x, 'v) central_port \<Rightarrow> (u16 \<times> u16) list \<Rightarrow> bool \<Rightarrow> ('k, 'w, 'x, 'v) sys \<Rightarrow> u8 \<times> ('k, 'w, 'x, 'v) sys" where
  "start_scan P settings active s =
     (let (st, s) = gap_settings P settings s
      in if st = SUCCESS then gap_do P 7 0 (GAPRole_CentralStartDiscovery active) s else (st, s))"

definition rb_start_find :: "('k, 'w, 'x, 'v) central_port \<Rightarrow> u16 \<Rightarrow> ('k, 'w, 'x, 'v) sys \<Rightarrow> u16 \<times> ('k, 'w, 'x, 'v) sys" where
  "rb_start_find P duration s =
     (if \<not> radio_ready (cen s) \<or> radio_faulted (cen s) then (RBP_STATUS_DEVICE_ERROR, s)
      else if recovering (cen s) \<or> wc_state (cen s) \<noteq> WC_IDLE then (RBP_STATUS_BUSY, s)
      else
        let s = wc_upd (\<lambda>c. c\<lparr>wc_candidates := []\<rparr>) s;
            ticks = min 65535 (unat duration * 8 div 5);
            (st, s) = start_scan P [(2, of_nat ticks), (5, 36), (6, 18)] True s
        in if st = SUCCESS then (RBP_STATUS_OK, set_state WC_SCAN (of_nat (ticks * 5 div 8) + CANCEL_TIMEOUT_MS) s)
           else (if st = bleNoResources then RBP_STATUS_RESOURCE_LIMIT else RBP_STATUS_DEVICE_ERROR,
                 link_message P ''discovery start rejected'' s))"

definition rb_stop_find :: "('k, 'w, 'x, 'v) central_port \<Rightarrow> ('k, 'w, 'x, 'v) sys \<Rightarrow> ('k, 'w, 'x, 'v) sys" where
  "rb_stop_find P s = (if wc_state (cen s) = WC_SCAN then stop_scan P (wc_upd (\<lambda>c. c\<lparr>wc_next := NEXT_NONE\<rparr>) s) else s)"

text \<open>The conditions for a pairing, in their order; the last one writes the intent to the journal.\<close>

definition pair_check :: "('k, 'w, 'x, 'v) central_port \<Rightarrow> u32 \<Rightarrow> ('k, 'w, 'x, 'v) sys \<Rightarrow> u16 \<times> ('k, 'w, 'x, 'v) sys" where
  "pair_check P cand s =
     (let c = cen s in
      if \<not> radio_ready c \<or> radio_faulted c then (RBP_STATUS_DEVICE_ERROR, s)
      else if recovering c \<or> (wc_state c \<noteq> WC_IDLE \<and> wc_state c \<noteq> WC_SCAN_STOPPING) then (RBP_STATUS_BUSY, s)
      else if cand = 0 \<or> unat cand > length (wc_candidates c) then (RBP_STATUS_NOT_FOUND, s)
      else
        let (st, count, s) = bond_count P s in
        if st \<noteq> SUCCESS then (RBP_STATUS_STORAGE_FAILED, s)
        else if count \<noteq> 0 then (RBP_STATUS_BUSY, s)
        else
          let (ok, s) = board_get (board_begin_pair (cp_eeprom P)) s
          in (if ok then RBP_STATUS_OK else RBP_STATUS_STORAGE_FAILED, s))"

definition rb_pair_begin :: "('k, 'w, 'x, 'v) central_port \<Rightarrow> u32 \<Rightarrow> ('k, 'w, 'x, 'v) sys \<Rightarrow> ('k, 'w, 'x, 'v) sys" where
  "rb_pair_begin P cand s =
     (let (status, s) = pair_check P cand s in
      if status \<noteq> RBP_STATUS_OK then tell P (C_pair_done status False None 0) s
      else
        let d = wc_candidates (cen s) ! (unat cand - 1);
            s = wc_upd (\<lambda>c. c\<lparr>pair_pending := True, security_blocked := False, target_addr := cd_addr d,
                              target_type := cd_type d\<rparr>) s
        in if wc_state (cen s) = WC_SCAN_STOPPING then wc_upd (\<lambda>c. c\<lparr>wc_next := NEXT_PAIR\<rparr>) s
           else begin_link P (cd_addr d) (cd_type d) s)"

definition rb_pair_reply :: "('k, 'w, 'x, 'v) central_port \<Rightarrow> bool \<Rightarrow> u32 option \<Rightarrow> ('k, 'w, 'x, 'v) sys \<Rightarrow> ('k, 'w, 'x, 'v) sys" where
  "rb_pair_reply P accept passkey s =
     (let c = cen s in
      if \<not> pair_pending c \<or> wc_state c \<noteq> WC_CONNECTED \<or> \<not> passkey_pending c then s
      else passcode_rsp P ''user passkey response failed'' (wc_conn c) (if accept then SUCCESS else 4)
             (case passkey of Some k \<Rightarrow> k | None \<Rightarrow> display_passkey c) (wc_upd (\<lambda>c. c\<lparr>passkey_pending := False\<rparr>) s))"

definition rb_pair_cancel :: "('k, 'w, 'x, 'v) central_port \<Rightarrow> ('k, 'w, 'x, 'v) sys \<Rightarrow> ('k, 'w, 'x, 'v) sys" where
  "rb_pair_cancel P = fail_pair P RBP_STATUS_CANCELLED"

definition rb_forget_peer :: "('k, 'w, 'x, 'v) central_port \<Rightarrow> ('k, 'w, 'x, 'v) sys \<Rightarrow> ('k, 'w, 'x, 'v) sys" where
  "rb_forget_peer P s =
     (let (ok, s) = board_get (board_begin_forget (cp_eeprom P)) s
      in if \<not> ok then tell P (C_forget_done RBP_STATUS_STORAGE_FAILED True) s
         else rb_disconnect P (begin_recovery True s))"

definition known_identity :: "('k, 'w, 'x, 'v) central_port \<Rightarrow> ('k, 'w, 'x, 'v) sys \<Rightarrow> bool \<times> ('k, 'w, 'x, 'v) sys" where
  "known_identity P s =
     (case board_get (board_addr_load (cp_eeprom P)) s of
        (None, s) \<Rightarrow> (False, s)
      | (Some (saved, typ), s) \<Rightarrow>
          let (ok, s) = read_identity P s in (ok \<and> typ = identity_type (cen s) \<and> saved = wc_identity (cen s), s))"

definition rb_connect_peer :: "('k, 'w, 'x, 'v) central_port \<Rightarrow> ('k, 'w, 'x, 'v) sys \<Rightarrow> ('k, 'w, 'x, 'v) sys" where
  "rb_connect_peer P s =
     (let c = cen s in
      if \<not> radio_ready c \<or> radio_faulted c \<or> security_blocked c \<or> recovering c \<or> wc_state c \<noteq> WC_IDLE then s
      else
        let (ok, s) = known_identity P s in
        if \<not> ok then
          tell_link P RBP_LINK_ERROR (link_message P ''bond identity unavailable/mismatch'' (wc_upd (\<lambda>c. c\<lparr>security_blocked := True\<rparr>) s))
        else
          let (flags, s) = board_get (board_hid_flags_load (cp_eeprom P)) s;
              interval = (if flags \<le> 3 \<and> flags AND 2 \<noteq> 0 then 48 else 96);
              (st, s) = start_scan P [(2, 0), (5, interval), (6, 48)] False s
          in if st = SUCCESS then tell_link P RBP_LINK_CONNECTING (set_state WC_RESOLVE 0 s)
             else link_message P ''reconnect scan rejected'' (disconnected_retry P False s))"

definition rb_voice_stop :: "('k, 'w, 'x, 'v) central_port \<Rightarrow> ('k, 'w, 'x, 'v) sys \<Rightarrow> ('k, 'w, 'x, 'v) sys" where
  "rb_voice_stop P s = snd (rc003_adapter_mic_stop (cp_adapter P) s)"

text \<open>Present in builds with \<open>RBP_EXPERIMENTAL_HOST_VOICE_START\<close>; in the others the pointer is null and never called.\<close>

definition rb_voice_start :: "('k, 'w, 'x, 'v) central_port \<Rightarrow> ('k, 'w, 'x, 'v) sys \<Rightarrow> u16 \<times> ('k, 'w, 'x, 'v) sys" where
  "rb_voice_start P s = rc003_adapter_mic_start (cp_adapter P) s"

section \<open>The periodic task\<close>

definition start_encrypted_adapter :: "('k, 'w, 'x, 'v) central_port \<Rightarrow> ('k, 'w, 'x, 'v) sys \<Rightarrow> ('k, 'w, 'x, 'v) sys" where
  "start_encrypted_adapter P s =
     (let c = cen s in
      if wc_state c = WC_CONNECTED \<and> \<not> adapter_started c \<and> \<not> radio_faulted c \<and> \<not> security_blocked c
         \<and> link_encrypted (cp_gap P) (wc_conn c) (dg_gap (world (env s)))
      then
        let s = wc_upd (\<lambda>c. c\<lparr>adapter_started := True, cache_synced := False\<rparr>) s;
            (peer, s) = (if pair_pending c then (0, s) else board_get (board_peer_counter (cp_eeprom P)) s)
        in rc003_adapter_start_bound (cp_adapter P) (now_ms s) peer s
      else s)"

definition forget_failed :: "('k, 'w, 'x, 'v) central_port \<Rightarrow> ('k, 'w, 'x, 'v) sys \<Rightarrow> ('k, 'w, 'x, 'v) sys" where
  "forget_failed P s =
     (let s = wc_upd (\<lambda>c. c\<lparr>recovering := False\<rparr>) s
      in if delete_report (cen s) then tell P (C_forget_done RBP_STATUS_STORAGE_FAILED True) s else s)"

definition peer_empty :: rbp_peer_record where
  "peer_empty = \<lparr>pr_peer_id = 0, pr_name = replicate 48 0, pr_auto_reconnect = False\<rparr>"

text \<open>The bonds of the library are erased: the journal follows.\<close>

definition bonds_erased :: "('k, 'w, 'x, 'v) central_port \<Rightarrow> ('k, 'w, 'x, 'v) sys \<Rightarrow> ('k, 'w, 'x, 'v) sys" where
  "bonds_erased P s =
     wc_upd (\<lambda>c. c\<lparr>recovering := False, security_blocked := False\<rparr>)
       (if delete_report (cen s) then tell P (C_forget_done RBP_STATUS_OK False) s
        else case board_get (store_clear (cp_eeprom P)) s of
          (True, s) \<Rightarrow> tell_link P RBP_LINK_UNBOUND (tell P (C_peer_changed peer_empty) s)
        | (False, s) \<Rightarrow> tell_link P RBP_LINK_ERROR (link_message P ''EEPROM recovery commit failed'' s))"

definition poll_recovery :: "('k, 'w, 'x, 'v) central_port \<Rightarrow> ('k, 'w, 'x, 'v) sys \<Rightarrow> ('k, 'w, 'x, 'v) sys" where
  "poll_recovery P s =
     (if radio_faulted (cen s) then forget_failed P s
      else if wc_state (cen s) \<noteq> WC_IDLE then s
      else
        let s = (if recovery_deadline (cen s) = 0 then wc_upd (\<lambda>c. c\<lparr>recovery_deadline := now_ms s + 5000\<rparr>) s else s) in
        if expired (recovery_deadline (cen s)) s
        then tell_link P RBP_LINK_ERROR (link_message P ''bond transaction recovery failed'' (forget_failed P s))
        else if \<not> erase_requested (cen s) then
          let (st, s) = gap_do P 3 (ucast GAPBOND_ERASE_ALLBONDS) (GAPBondMgr_SetParameter GAPBOND_ERASE_ALLBONDS []) s
          in if st \<noteq> SUCCESS then s else wc_upd (\<lambda>c. c\<lparr>erase_requested := True\<rparr>) s
        else
          let (st, count, s) = bond_count P s
          in if st \<noteq> SUCCESS \<or> count \<noteq> 0 then s else bonds_erased P s)"

definition voice_idle :: "('k, 'w, 'x, 'v) sys \<Rightarrow> bool" where
  "voice_idle s \<longleftrightarrow> \<not> un_active (unicom (env s)) \<and> \<not> stream_active s \<and> \<not> open_pending s"

definition poll_connected :: "('k, 'w, 'x, 'v) central_port \<Rightarrow> ('k, 'w, 'x, 'v) sys \<Rightarrow> ('k, 'w, 'x, 'v) sys" where
  "poll_connected P s =
     (let s = start_encrypted_adapter P s;
          s = (if pair_pending (cen s) \<and> bond_ready (cen s) \<and> ad_ready (env s) then finish_pair P s else s);
          s = (if (\<not> adapter_started (cen s) \<or> (pair_pending (cen s) \<and> \<not> bond_ready (cen s)))
                  \<and> expired (wc_deadline (cen s)) s
               then rb_disconnect P (fail_pair P RBP_STATUS_TIMEOUT
                      (if pair_pending (cen s) then s
                       else link_message P ''bond encryption timed out; retrying after disconnect'' s))
               else s)
      in if \<not> ad_ready (env s) then s
         else
           let s = wc_upd (\<lambda>c. c\<lparr>wc_backoff := 0, early_retries := 0\<rparr>) s
           in if \<not> cache_synced (cen s) \<and> \<not> pair_pending (cen s) \<and> voice_idle s
              then sync_gatt_cache P (wc_upd (\<lambda>c. c\<lparr>cache_synced := True\<rparr>) s) else s)"

definition poll_timeout :: "('k, 'w, 'x, 'v) central_port \<Rightarrow> ('k, 'w, 'x, 'v) sys \<Rightarrow> ('k, 'w, 'x, 'v) sys" where
  "poll_timeout P s =
     (let c = cen s in
      if \<not> radio_faulted c \<and> wc_state c \<in> {WC_SCAN_STOPPING, WC_CONNECT_CANCEL, WC_DISCONNECTING}
         \<and> expired (wc_deadline c) s
      then fail_pair P RBP_STATUS_TIMEOUT (radio_fault P ''radio cancellation completion timed out'' s)
      else s)"

definition poll :: "('k, 'w, 'x, 'v) central_port \<Rightarrow> ('k, 'w, 'x, 'v) sys \<Rightarrow> ('k, 'w, 'x, 'v) sys" where
  "poll P s =
     (if \<not> radio_ready (cen s) then
        if \<not> radio_faulted (cen s) \<and> expired (wc_deadline (cen s)) s
        then radio_fault P ''BLE initialization event timed out'' s else s
      else
        let s = poll_timeout P s; c = cen s in
        if recovering c then poll_recovery P s
        else if radio_faulted c then s
        else if wc_state c = WC_CONNECTED then poll_connected P s
        else if wc_state c = WC_SCAN \<and> expired (wc_deadline c) s
        then rb_disconnect P (tell P (C_scan_done RBP_FIND_DONE_EXPIRED (now_ms s)) s)
        else if wc_state c = WC_CONNECTING \<and> expired (wc_deadline c) s
        then rb_disconnect P (fail_pair P RBP_STATUS_TIMEOUT s)
        else if wc_state c = WC_IDLE \<and> \<not> security_blocked c \<and> cp_should_reconnect P (dg_server (world (env s)))
             \<and> expired (reconnect_at c) s
        then rb_connect_peer P s
        else s)"

section \<open>The task and its messages\<close>

definition gatt_host_of :: "('k, 'w, 'x, 'v) central_port \<Rightarrow> (('k, 'w, 'x, 'v) sys, 'k) gatt_host" where
  "gatt_host_of P =
     \<lparr>gh_get = \<lambda>s. dg_gatt (world (env s)), gh_upd = gatt_upd, gh_emit = rc003_adapter_on_gatt (cp_adapter P),
      gh_mtu = RBP_ATT_MTU (cp_adapter P), gh_sdk = cp_gatt P\<rparr>"

definition is_notification :: "att_msg \<Rightarrow> bool" where
  "is_notification body \<longleftrightarrow> (case body of ATT_HANDLE_VALUE_NOTI _ _ _ \<Rightarrow> True | _ \<Rightarrow> False)"

text \<open>The messages of the task: those of the GATT client, and others, which are only freed.\<close>

definition on_message :: "('k, 'w, 'x, 'v) central_port \<Rightarrow> gatt_msg option \<Rightarrow> ('k, 'w, 'x, 'v) sys \<Rightarrow> ('k, 'w, 'x, 'v) sys" where
  "on_message P msg s =
     tell P C_flush_output
       (case msg of None \<Rightarrow> s
        | Some m \<Rightarrow>
            let s = (if gm_conn m = wc_conn (cen s) \<and> is_notification (gm_body m) then start_encrypted_adapter P s else s);
                s = wch_gatt_on_msg (gatt_host_of P) m s
            in gatt_upd (\<lambda>g. g\<lparr>g_sdk := GATT_bm_free (cp_gatt P) (g_sdk g)\<rparr>) s)"

abbreviation (input) SYS_EVENT_MSG :: u16 where "SYS_EVENT_MSG \<equiv> 0x8000"
abbreviation (input) WC_START_EVT :: u16 where "WC_START_EVT \<equiv> 1"
abbreviation (input) WC_POLL_EVT :: u16 where "WC_POLL_EVT \<equiv> 2"

definition restart_timer :: "('k, 'w, 'x, 'v) central_port \<Rightarrow> ('k, 'w, 'x, 'v) sys \<Rightarrow> ('k, 'w, 'x, 'v) sys" where
  "restart_timer P s =
     wupd (\<lambda>w. w\<lparr>dg_gap := snd (gap_call (cp_gap P) (Tmos_start_task WC_POLL_EVT 32) (dg_gap w))\<rparr>) s"

text \<open>\<open>received\<close> is the message that the task takes from its queue, if there is one.\<close>

definition process :: "('k, 'w, 'x, 'v) central_port \<Rightarrow> u16 \<Rightarrow> gatt_msg option option \<Rightarrow> ('k, 'w, 'x, 'v) sys \<Rightarrow> u16 \<times> ('k, 'w, 'x, 'v) sys" where
  "process P events received s =
     (let (events, s) = (if events AND SYS_EVENT_MSG \<noteq> 0
            then (events XOR SYS_EVENT_MSG, case received of None \<Rightarrow> s | Some m \<Rightarrow> on_message P m s) else (events, s));
          (events, s) = (if events AND WC_START_EVT \<noteq> 0 then
              let s = (if radio_faulted (cen s) then s
                       else let (st, s) = gap_do P 6 0 GAPRole_CentralStartDevice s
                            in if st \<noteq> SUCCESS then radio_fault P ''BLE start rejected'' s else s)
              in (events XOR WC_START_EVT, restart_timer P s) else (events, s))
      in if events AND WC_POLL_EVT \<noteq> 0 then (events XOR WC_POLL_EVT, restart_timer P (poll P s)) else (events, s))"

section \<open>Initialisation\<close>

definition faulty_setting :: "('k, 'w, 'x, 'v) central_port \<Rightarrow> string \<Rightarrow> u16 \<Rightarrow> u32 \<Rightarrow> gap_request \<Rightarrow> ('k, 'w, 'x, 'v) sys \<Rightarrow> ('k, 'w, 'x, 'v) sys" where
  "faulty_setting P why stage context req s =
     (let (st, s) = gap_do P stage context req s in if st \<noteq> SUCCESS then radio_fault P why s else s)"

definition init_params :: "(u16 \<times> u16) list" where
  "init_params = [(7, 12), (8, 24), (13, 300), (9, 96), (10, 48)]"

definition init_bonding :: "(u16 \<times> u8) list" where
  "init_bonding = [(0x408, 0), (0x409, 0), (0x40A, 4), (0x40D, 1), (0x418, 1), (0x41E, 0), (0x41F, 0), (0x416, 2)]"

definition load_cache :: "('k, 'w, 'x, 'v) central_port \<Rightarrow> ('k, 'w, 'x, 'v) sys \<Rightarrow> ('k, 'w, 'x, 'v) sys" where
  "load_cache P s =
     (let (peer, s) = board_get (board_peer_counter (cp_eeprom P)) s;
          (data, s) = board_get (board_cache_load (cp_eeprom P) peer BOARD_CACHE_MAX) s
      in if data = [] then s
         else let (ok, s) = rc003_adapter_cache_import (cp_adapter P) peer data s
              in if ok then s else snd (board_get (board_cache_save (cp_eeprom P) peer []) s))"

definition wch_central_init :: "('k, 'w, 'x, 'v) central_port \<Rightarrow> ('k, 'w, 'x, 'v) sys \<Rightarrow> ('k, 'w, 'x, 'v) sys" where
  "wch_central_init P s =
     (let s = load_cache P s;
          s = wc_upd (\<lambda>c. c\<lparr>wc_deadline := now_ms s + CANCEL_TIMEOUT_MS\<rparr>) s;
          s = (if task_registered (cp_gap P) (dg_gap (world (env s))) then s else radio_fault P ''TMOS task registration failed'' s);
          s = fold (\<lambda>(p, v). faulty_setting P ''GAP configuration failed'' 1 (ucast p) (GAP_SetParamValue p v)) init_params s;
          s = fold (\<lambda>(p, v). faulty_setting P ''bond configuration failed'' 3 (ucast p) (GAPBondMgr_SetParameter p [v])) init_bonding s;
          (st, s) = storage P s;
          s = wc_upd (\<lambda>c. c\<lparr>recovering := (st = 2 \<or> st = 3), recovery_deadline := 0\<rparr>) s;
          s = (if st = 255 then radio_fault P ''invalid EEPROM record; recovery required'' s else s);
          (rc, x) = gap_call (cp_gap P) GATT_InitClient (dg_gap (world (env s)));
          s = wupd (\<lambda>w. w\<lparr>dg_gap := x\<rparr>) s;
          s = (if rc \<noteq> SUCCESS then radio_fault P ''GATT initialization failed'' s else s);
          s = wupd (\<lambda>w. w\<lparr>dg_gap := snd (gap_call (cp_gap P) GATT_RegisterForInd (dg_gap w))\<rparr>) s
      in if radio_faulted (cen s) then s
         else wupd (\<lambda>w. w\<lparr>dg_gap := snd (gap_call (cp_gap P) (Tmos_set_event WC_START_EVT) (dg_gap w))\<rparr>) s)"

text \<open>The statics when power comes on.\<close>

definition central_boot :: "fault_state \<Rightarrow> central" where
  "central_boot fl =
     \<lparr>wc_conn = GAP_CONNHANDLE_INIT, wc_state = WC_IDLE, wc_backoff = 0, early_retries = 0, wc_next = NEXT_NONE,
      radio_faulted = False, security_blocked = False, passkey_pending = False, radio_ready = False, pair_pending = False,
      bond_ready = False, adapter_started = False, recovering = False, delete_report = False, erase_requested = False,
      wc_deadline = 0, reconnect_at = 0, recovery_deadline = 0, target_addr = replicate 6 0, target_type = 0,
      wc_identity = replicate 6 0, identity_type = 0, peer_irk = replicate 16 0, have_irk = False, wc_candidates = [],
      cache_synced = False, link_established_ms = 0, display_passkey = 0, wc_faults = fl\<rparr>"

section \<open>The server task\<close>

text \<open>One step of the random generator; \<open>cycles\<close> is the clock of the chip.\<close>

definition srv_rng :: "u32 \<Rightarrow> u32 \<Rightarrow> u32" where
  "srv_rng cycles st =
     (let st = st XOR push_bit 13 st; st = st XOR drop_bit 17 st; st = st XOR push_bit 5 st in st XOR cycles)"

text \<open>Ticks of 625 microseconds become milliseconds; what is left of a millisecond is carried over.\<close>

definition clock_step :: "u32 \<Rightarrow> ('k, 'w, 'x, 'v) dongle \<Rightarrow> ('k, 'w, 'x, 'v) dongle" where
  "clock_step ticks w =
     (let elapsed = unat (ticks - prev_ticks w) * 625 + unat (tick_remainder w)
      in w\<lparr>prev_ticks := ticks, wch_now_ms := wch_now_ms w + of_nat (elapsed div 1000),
           tick_remainder := of_nat (elapsed mod 1000)\<rparr>)"

definition usb_get :: "(usb \<Rightarrow> 'r \<times> usb) \<Rightarrow> ('k, 'w, 'x, 'v) sys \<Rightarrow> 'r \<times> ('k, 'w, 'x, 'v) sys" where
  "usb_get f s = (let (r, u) = f (dg_usb (world (env s))) in (r, wupd (\<lambda>w. w\<lparr>dg_usb := u\<rparr>) s))"

definition set_fault_time :: "u32 \<Rightarrow> ('k, 'w, 'x, 'v) sys \<Rightarrow> ('k, 'w, 'x, 'v) sys" where
  "set_fault_time now s =
     (let f = rbp_fault_set_time now
      in (wupd (\<lambda>w. w\<lparr>dg_central := (dg_central w)\<lparr>wc_faults := f (wc_faults (dg_central w))\<rparr>,
                      dg_gatt := (dg_gatt w)\<lparr>g_faults := f (g_faults (dg_gatt w))\<rparr>,
                      dg_board := (dg_board w)\<lparr>bd_faults := f (bd_faults (dg_board w))\<rparr>\<rparr>) s)
         \<lparr>atvv_faults := f (atvv_faults s)\<rparr>)"

definition srv_event :: "('k, 'w, 'x, 'v) central_port \<Rightarrow> u32 \<Rightarrow> ('k, 'w, 'x, 'v) sys \<Rightarrow> ('k, 'w, 'x, 'v) sys" where
  "srv_event P ticks s =
     (let s = wupd (clock_step ticks) s; now = now_ms s;
          s = set_fault_time now s;
          (lost, s) = usb_get usb_cdc_take_lost s;
          s = (if lost then tell P (C_usb_gone now) s else s);
          (data, s) = usb_get (usb_cdc_read 64) s;
          s = (if data \<noteq> [] then tell P (C_usb_rx data now) s else s);
          s = tell P (C_tick now) s;
          s = rc003_adapter_tick (cp_adapter P) now s
      in wupd (\<lambda>w. w\<lparr>dg_usb := usb_cdc_flush_tx (dg_usb w)\<rparr>) s)"

end
