(* ===== verification/Adapter_Keeps.thy ===== *)
theory Adapter_Keeps
  imports Adapter_Cache Atvv_Facts
begin

text \<open>
  What the adapter does to its surroundings. It touches them only through the procedures it submits to the GATT
  client and through its calls of the server. So a property of the surroundings that both keep is kept by every
  operation of the adapter, in whatever state the adapter is and whatever the server does to it when it is
  called (locale \<open>adapter_keeps\<close>); the adapter's own invariant is not needed.
\<close>

definition held :: "('w \<Rightarrow> bool) \<Rightarrow> 'w rc003_adapter \<Rightarrow> bool" where
  "held W a \<longleftrightarrow> W (world (env a))"

lemma held_ifI: "(b \<Longrightarrow> held W x) \<Longrightarrow> (\<not> b \<Longrightarrow> held W y) \<Longrightarrow> held W (if b then x else y)"
  by simp

lemma held_sndI: "(b \<Longrightarrow> held W (snd x)) \<Longrightarrow> (\<not> b \<Longrightarrow> held W (snd y)) \<Longrightarrow> held W (snd (if b then x else y))"
  by simp

lemma held_cupdI: "held W a \<Longrightarrow> (\<And>c. world (f c) = world c) \<Longrightarrow> held W (cupd f a)"
  by (simp add: held_def)

lemma held_uupd [simp]: "held W (uupd f a) = held W a"
  by (simp add: held_def uupd_def)

lemma held_uupdI: "held W a \<Longrightarrow> held W (uupd f a)"
  by simp

lemma held_fault [simp]: "held W (ad_fault st c x a) = held W a"
  by (simp add: held_def ad_fault_def)

lemma held_faultI: "held W a \<Longrightarrow> held W (ad_fault st c x a)"
  by simp

lemma held_record [simp]: "held W (record_atvv st c x a) = held W a"
  by (simp add: held_def record_atvv_def)

lemma held_init [simp]: "held W (rc003_atvv_init fl (env a)) = held W a"
  by (simp add: held_def)

lemmas held_rules = held_ifI held_cupdI held_uupdI held_faultI

text \<open>An update of the engine leaves the surroundings alone.\<close>

lemma held_engine [simp]:
  "held W (a\<lparr>profile_init_without_sync := x1\<rparr>) = held W a" "held W (a\<lparr>atvv_now_ms := x2\<rparr>) = held W a"
  "held W (a\<lparr>open_pending := x3\<rparr>) = held W a" "held W (a\<lparr>open_queued := x4\<rparr>) = held W a"
  "held W (a\<lparr>closing := x5\<rparr>) = held W a" "held W (a\<lparr>close_queued := x6\<rparr>) = held W a"
  "held W (a\<lparr>open_deadline_ms := x7\<rparr>) = held W a" "held W (a\<lparr>failed := x8\<rparr>) = held W a"
  "held W (a\<lparr>decoder_ready := x9\<rparr>) = held W a" "held W (a\<lparr>announced := y1\<rparr>) = held W a"
  "held W (a\<lparr>atvv_caps := y2\<rparr>) = held W a" "held W (a\<lparr>caps_valid := y3\<rparr>) = held W a"
  "held W (a\<lparr>atvv_rate := y4\<rparr>) = held W a" "held W (a\<lparr>codec_config := y5\<rparr>) = held W a"
  "held W (a\<lparr>saw_sync := y6\<rparr>) = held W a" "held W (a\<lparr>stream_active := y7\<rparr>) = held W a"
  "held W (a\<lparr>last_audio_ms := y8\<rparr>) = held W a" "held W (a\<lparr>frame_no := y9\<rparr>) = held W a"
  "held W (a\<lparr>frame_bytes := z1\<rparr>) = held W a" "held W (a\<lparr>last_extend_ms := z2\<rparr>) = held W a"
  "held W (a\<lparr>remote_stream_id := z3\<rparr>) = held W a" "held W (a\<lparr>atvv_faults := z4\<rparr>) = held W a"
  by (simp_all add: held_def)

definition flow_held :: "('w \<Rightarrow> bool) \<Rightarrow> 'w rc003_adapter flow \<Rightarrow> bool" where
  "flow_held W fl \<longleftrightarrow> (\<forall>b \<in> set_flow fl. held W b)"

lemma flow_held_simps [simp]:
  "flow_held W (Return b) = held W b" "flow_held W (Again b) = held W b" "flow_held W (Failure b) = held W b"
  by (simp_all add: flow_held_def)

lemma start_op_held [simp]: "held W (start_op st now a) = held W a"
  by (simp add: start_op_def held_def Let_def)

lemma start_op_heldI: "held W a \<Longrightarrow> held W (start_op st now a)"
  by simp

lemma settle_held [simp]: "flow_held W (settle now rc a) = held W a"
  by (simp add: settle_def Let_def held_def)

lemma next_char_held [simp]: "held W (next_char a) = held W a"
  by (simp add: next_char_def held_def)

lemma upd_char_held [simp]: "held W (upd_char f a) = held W a"
  by (simp add: upd_char_def held_def)

lemma found_service_held [simp]: "held W (found_service e a) = held W a"
  by (simp add: found_service_def held_def)

lemma unicom_reports_held: "unicom_reports a = (ok, b) \<Longrightarrow> held W b = held W a"
  by (auto simp: unicom_reports_def split: prod.splits if_splits)

lemma unicom_stop_held [simp]: "held W (unicom_stop a) = held W a"
  by (simp add: unicom_stop_def Let_def)

lemma preroll_cancel_held [simp]: "held W (unicom_preroll_cancel r a) = held W a"
  by (simp add: unicom_preroll_cancel_def Let_def)

lemma preroll_heldI: "held W a \<Longrightarrow> held W (unicom_preroll_cancel r a)"
  by simp

lemma commit_bond_held [simp]: "held W (rc003_adapter_commit_bond peer a) = held W a"
  by (simp add: rc003_adapter_commit_bond_def held_def)

lemma import_check_held [simp]: "held W (snd (import_check p a)) = held W a"
proof -
  have "held W (cupd (\<lambda>c. c\<lparr>report_map := rm\<rparr>) a) = held W a" for rm by (simp add: held_def)
  then show ?thesis by (auto simp: import_check_def Let_def unicom_reports_held split: prod.split option.split)
qed

lemma import_fields_world [simp]: "world (import_fields p c) = world c"
  by (simp add: import_fields_def import_handles_def Let_def)

lemma adapter_zero_world [simp]: "world (adapter_zero w) = w"
  by (simp add: adapter_zero_def)

lemma wf_rounds_held: "wf rounds_left"
  by (simp add: rounds_left_def)

locale adapter_keeps =
  fixes P :: "'w adapter_port" and W :: "'w \<Rightarrow> bool"
  assumes gatt: "W w \<Longrightarrow> W (snd (p_gatt P op w))"
    and server: "held W a \<Longrightarrow> held W (p_server P call a)"
begin

section \<open>The engine\<close>

lemma gatt_held: "gatt_do P op a = (rc, b) \<Longrightarrow> held W a \<Longrightarrow> held W b"
  using gatt [of "world (env a)" op] by (auto simp: gatt_do_def held_def split: prod.splits)

lemma send_held: "send_tx (adapter_sink P) cmd a = (ok, b) \<Longrightarrow> held W a \<Longrightarrow> held W b"
  using gatt [of "world (env a)" "Write_command (atvv_tx_handle (env a)) cmd"]
  by (auto simp: send_tx_def adapter_sink_def atvv_write_tx_def held_def split: prod.splits if_splits)

lemma request_stop_held: "held W a \<Longrightarrow> held W (snd (rc003_atvv_request_stop (adapter_sink P) a))"
  by (auto simp: rc003_atvv_request_stop_def dest!: send_held split: prod.split)

lemma request_start_held: "held W a \<Longrightarrow> held W (snd (rc003_atvv_request_start (adapter_sink P) a))"
  by (auto simp: rc003_atvv_request_start_def dest!: send_held split: prod.split)

lemma on_voice_held: "held W a \<Longrightarrow> held W (on_voice P ev a)"
  by (simp add: on_voice_def server)

lemma fail_init_held: "held W a \<Longrightarrow> held W (fail_init P cause inval a)"
  unfolding fail_init_def Let_def by (intro server held_rules) simp_all

lemmas fails_held = fail_init_held [of _ _ True, folded fail_initialization_def]
  fail_init_held [of _ _ False, folded fail_transport_def]

lemma on_fault_held: "held W a \<Longrightarrow> held W (atvv_on_fault P r a)"
  by (simp add: atvv_on_fault_def fails_held on_voice_held)

lemma fault_held: "held W a \<Longrightarrow> held W (fault (adapter_sink P) r a)"
  by (simp add: fault_def Let_def adapter_sink_def [THEN arg_cong [of _ _ on_fault]] request_stop_held on_fault_held)

lemma report_fault_held: "held W a \<Longrightarrow> held W (report_fault (adapter_sink P) r a)"
  by (simp add: report_fault_def adapter_sink_def on_fault_held)

lemma announce_held: "held W a \<Longrightarrow> held W (announce_format (adapter_sink P) a)"
  by (simp add: announce_format_def adapter_sink_def on_voice_held)

lemma control_start_held: "held W a \<Longrightarrow> held W (snd (control_start (adapter_sink P) d a))"
proof -
  assume "held W a"
  then have "held W (on_voice P RBP_VOICE_EVT_SOURCE_BEGIN (start_stream d a))"
    by (intro on_voice_held) (simp add: start_stream_def)
  then show ?thesis
    using \<open>held W a\<close> unfolding control_start_def
    by (auto simp: Let_def adapter_sink_def [THEN arg_cong [of _ _ on_source_begin]] intro!: fault_held
        request_stop_held announce_held)
qed

lemma control_sync_held: "held W a \<Longrightarrow> held W (snd (control_sync (adapter_sink P) d a))"
  by (simp add: control_sync_def fault_held announce_held)

lemma control_stop_held: "held W a \<Longrightarrow> held W (snd (control_stop (adapter_sink P) d a))"
  by (simp add: control_stop_def Let_def adapter_sink_def on_voice_held)

lemma control_open_error_held:
  assumes "held W a"
  shows "held W (snd (control_open_error (adapter_sink P) d a))"
proof -
  define b where "b = (if be16 (d ! 1) (d ! 2) \<noteq> ATVV_ERR_BUSY
      then record_atvv (ucast ATVV_MIC_OPEN_ERROR) (ucast (be16 (d ! 1) (d ! 2))) (if stream_active a then 1 else 0) a else a)"
  have "held W b" using assms by (simp add: b_def)
  then show ?thesis
    using assms unfolding control_open_error_def Let_def b_def [symmetric] by (simp add: report_fault_held fault_held)
qed

lemma control_caps_held: "held W a \<Longrightarrow> held W (snd (control_caps d a))"
  by (simp add: control_caps_def split: option.split)

lemma on_control_held: "held W a \<Longrightarrow> held W (snd (rc003_atvv_on_control (adapter_sink P) d a))"
  by (simp add: rc003_atvv_on_control_def control_caps_held control_start_held control_sync_held control_stop_held
      control_open_error_held request_start_held)

lemma on_audio_held: "held W a \<Longrightarrow> held W (rc003_atvv_on_audio (adapter_sink P) d a)"
  by (simp add: rc003_atvv_on_audio_def Let_def fault_held)
    (simp add: adapter_sink_def atvv_on_encoded_def on_voice_held)

lemma tick_stream_held: "held W a \<Longrightarrow> held W (snd (tick_stream (adapter_sink P) now a))"
  by (auto simp: tick_stream_def fault_held request_stop_held dest: send_held split: prod.split)

lemma tick_open_held: "held W a \<Longrightarrow> held W (tick_open (adapter_sink P) a)"
  by (auto simp: tick_open_def dest: send_held split: prod.split)

lemma atvv_tick_held: "held W a \<Longrightarrow> held W (snd (rc003_atvv_tick (adapter_sink P) now a))"
  unfolding rc003_atvv_tick_def Let_def tick_deadline_def
  by (intro tick_stream_held tick_open_held held_ifI report_fault_held) simp_all

lemma mic_requests_held:
  "held W a \<Longrightarrow> held W (mic_request_start P a)" "held W a \<Longrightarrow> held W (mic_request_stop P a)"
  by (simp_all add: mic_request_start_def mic_request_stop_def request_start_held request_stop_held)

section \<open>Keys and Unicom\<close>

lemma finish_voice_ready_held: "held W a \<Longrightarrow> held W (finish_voice_ready P a)"
  unfolding finish_voice_ready_def Let_def by (intro held_rules mic_requests_held server) simp_all

lemma send_if_changed_held: "held W a \<Longrightarrow> held W (send_if_changed P bits a)"
  unfolding send_if_changed_def key_state_send_def by (intro held_rules server) simp_all

lemma recompute_keys_held: "held W a \<Longrightarrow> held W (recompute_keys P a)"
  unfolding recompute_keys_def Let_def by (intro send_if_changed_held held_rules mic_requests_held server) simp_all

lemma unicom_end_held: "held W a \<Longrightarrow> held W (unicom_end P r a)"
  by (simp add: unicom_end_def Let_def on_voice_held)

lemma unicom_fails_held: "held W a \<Longrightarrow> held W (unicom_bad P why a)" "held W a \<Longrightarrow> held W (unicom_stream_fault P why a)"
  by (simp_all add: unicom_bad_def unicom_stream_fault_def unicom_end_held fails_held)

lemma unicom_ready_held: "held W a \<Longrightarrow> held W (unicom_ready P a)"
  unfolding unicom_ready_def Let_def by (intro server held_cupdI) simp_all

lemma unicom_start_pending_held: "held W a \<Longrightarrow> held W (unicom_start_pending P a)"
  unfolding unicom_start_pending_def Let_def by (intro held_rules on_voice_held)

lemma unicom_begin_held: "held W a \<Longrightarrow> held W (unicom_begin P a)"
  by (simp add: unicom_begin_def on_voice_held)

lemma unicom_emit_held: "unicom_emit P p a = (ok, b) \<Longrightarrow> held W a \<Longrightarrow> held W b"
  by (auto simp: unicom_emit_def Let_def intro!: on_voice_held unicom_begin_held split: if_splits)

lemma unicom_tick_capture_held: "held W a \<Longrightarrow> held W (unicom_tick_capture P a)"
proof -
  have d: "held W (unicom_tick_drain P b)" if "held W b" for b
    using that by (auto simp: unicom_tick_drain_def Let_def dest: unicom_emit_held split: prod.split)
  show "held W a \<Longrightarrow> ?thesis"
    unfolding unicom_tick_capture_def Let_def by (intro d held_ifI unicom_begin_held preroll_heldI)
qed

lemma unicom_submit_held: "held W a \<Longrightarrow> held W (unicom_submit P a)"
  unfolding unicom_submit_def Let_def
  by (auto split: prod.split intro!: unicom_fails_held elim: gatt_held [THEN mp [OF impI]] dest: gatt_held)

lemma unicom_tick_held: "held W a \<Longrightarrow> held W (unicom_tick P a)"
  unfolding unicom_tick_def unicom_tick_commands_def Let_def
  by (intro held_rules unicom_ready_held unicom_tick_capture_held unicom_start_pending_held unicom_fails_held
      unicom_end_held unicom_submit_held)

lemma unicom_keys_held: "held W a \<Longrightarrow> held W (unicom_keys_report P i p a)"
  unfolding unicom_keys_report_def Let_def by (intro held_rules unicom_fails_held send_if_changed_held) simp_all

lemma unicom_unit_held: "held W a \<Longrightarrow> held W (unicom_unit P a)"
  unfolding unicom_unit_def Let_def
  by (auto split: prod.split intro!: unicom_fails_held dest: unicom_emit_held)

lemma unicom_notify_fd_held: "held W a \<Longrightarrow> held W (unicom_notify_fd P v a)"
  unfolding unicom_notify_fd_def Let_def by (intro held_rules unicom_fails_held unicom_ready_held)

lemma unicom_notify_f8_held: "held W a \<Longrightarrow> held W (unicom_notify_f8 P v a)"
  unfolding unicom_notify_f8_def Let_def by (intro held_rules unicom_fails_held unicom_start_pending_held; simp)

lemma unicom_notify_fc_held: "held W a \<Longrightarrow> held W (unicom_notify_fc P v a)"
  unfolding unicom_notify_fc_def Let_def by (intro held_rules unicom_fails_held unicom_unit_held)

lemma unicom_notify_held: "held W a \<Longrightarrow> held W (unicom_notify P e a)"
  by (simp add: unicom_notify_def Let_def unicom_fails_held unicom_notify_fd_held unicom_notify_f8_held
      unicom_notify_fc_held unicom_keys_held server split: option.split)

section \<open>Discovery\<close>

lemma submit_held: "held W a \<Longrightarrow> flow_held W (submit P now op a)"
  by (auto simp: submit_def dest: gatt_held split: prod.split)

lemma battery_held: "held W a \<Longrightarrow> flow_held W (begin_battery P now a)"
proof -
  assume a: "held W a"
  obtain ok b where e: "(if un_selected (unicom (env a)) then unicom_reports a else (True, a)) = (ok, b)" by fastforce
  have "held W b" using e a by (auto simp: unicom_reports_held split: if_splits)
  moreover from this have "held W (adapter_failed P msg b)" for msg
    unfolding adapter_failed_def by (intro server held_cupdI) simp_all
  ultimately show ?thesis unfolding begin_battery_def e by (simp add: unicom_fails_held submit_held)
qed

lemma handshake_held: "held W a \<Longrightarrow> flow_held W (begin_handshake P now a)"
proof -
  assume a: "held W a"
  obtain rc b where e: "gatt_do P (Write_command (atvv_tx_handle (env a)) atvv_build_get_caps) a = (rc, b)" by fastforce
  have b: "held W b" by (rule gatt_held [OF e a])
  have "held W (finish_voice_ready P (cupd (\<lambda>c. c\<lparr>caps_requested := True, ad_deadline_ms := now + INIT_TIMEOUT_MS\<rparr>) b))"
    by (intro finish_voice_ready_held held_cupdI b) simp
  then show ?thesis using b unfolding begin_handshake_def Let_def e by simp
qed

lemma set_mode_held: "held W a \<Longrightarrow> flow_held W (begin_set_mode P now a)"
  by (auto simp: begin_set_mode_def dest: gatt_held split: prod.split)

lemma disc_descs_held: "held W a \<Longrightarrow> flow_held W (begin_disc_descs P now a)"
  by (simp add: begin_disc_descs_def Let_def submit_held) (simp add: held_def)

lemma subscribe_held: "held W a \<Longrightarrow> flow_held W (begin_subscribe P now a)"
  by (simp add: begin_subscribe_def Let_def submit_held)

lemma begin_round_held:
  assumes "held W a"
  shows "flow_held W (begin_round P now a)"
proof -
  have "held W (cupd (\<lambda>c. c\<lparr>map_bytes := [], map_long_started := False\<rparr>) a)" using assms by (intro held_cupdI) simp_all
  then show ?thesis
    using assms unfolding begin_round_def Let_def
    by (auto simp: set_mode_held disc_descs_held subscribe_held battery_held handshake_held submit_held
        split: disc_state.split option.split)
qed

lemma no_voice_held: "held W a \<Longrightarrow> held W (no_voice P v a)"
  unfolding no_voice_def Let_def by (intro server held_cupdI) simp_all

lemma failure_round_held:
  assumes "held W a"
  shows "flow_held W (failure_round P a)"
proof -
  have "held W (cupd (\<lambda>c. c\<lparr>service_changed_handle := 0\<rparr>) a)" "held W (cupd (\<lambda>c. c\<lparr>ad_retry := False, bat_value_handle := 0\<rparr>) a)"
    using assms by (simp_all add: held_def)
  then show ?thesis using assms unfolding failure_round_def Let_def by (simp add: fails_held no_voice_held)
qed

lemma begin_next_held: "held W a \<Longrightarrow> held W (begin_next P now a)"
proof (induction a arbitrary: now rule: wf_induct_rule [OF wf_rounds_held])
  case (1 a)
  note round = begin_round_held [OF "1.prems", of now]
  show ?case
  proof (cases "begin_round P now a")
    case (Return b)
    then show ?thesis using round by (simp add: begin_next.simps [of P now a])
  next
    case (Again b)
    then show ?thesis
      using round "1.IH" [OF begin_round_again [OF Again]] by (simp add: begin_next.simps [of P now a])
  next
    case (Failure b)
    then have b: "held W b" using round by simp
    have "held W (begin_next P t c)" if "failure_round P b = Again c" for t c
      using "1.IH" failure_round_again [OF that begin_round_failure [OF Failure]] failure_round_held [OF b] that by simp
    then show ?thesis
      using Failure failure_round_held [OF b] by (auto simp: begin_next.simps [of P now a] split: flow.splits)
  qed
qed

lemma handle_op_failure_held: "held W a \<Longrightarrow> held W (handle_op_failure P a)"
  using failure_round_held [of a] by (auto simp: handle_op_failure_def begin_next_held split: flow.splits)

lemma go_held: "held W a \<Longrightarrow> held W (go P st a)"
  by (simp add: go_def begin_next_held)

section \<open>Events\<close>

lemma next_report_held: "held W a \<Longrightarrow> held W (next_report P a)"
  by (simp add: next_report_def go_held)

lemma map_complete_held:
  assumes "held W a"
  shows "held W (map_complete P a)"
proof -
  have "held W (cupd (\<lambda>c. c\<lparr>report_map := rm, rc003_boot_layout := boot\<rparr>) (uupd f a))" for rm boot f
    using assms by (intro held_rules) simp_all
  then show ?thesis
    using assms unfolding map_complete_def Let_def
    by (auto intro!: handle_op_failure_held fails_held go_held split: option.split)
qed

lemmas event_helds = held_rules unicom_fails_held fails_held handle_op_failure_held go_held unicom_ready_held server
  next_report_held map_complete_held

lemma identify_held:
  assumes "held W a"
  shows "held W (ev_unicom_service P e a)" "held W (ev_unicom_char P e a)" "held W (ev_unicom_desc P e a)"
    "held W (ev_unicom_sub P e a)" "held W (ev_mtu P e a)" "held W (ev_find_mode P e a)"
    "held W (ev_read_mode P e a)" "held W (ev_find_gatt P e a)" "held W (ev_find_changed P e a)"
    "held W (ev_desc P e a)" "held W (ev_sub_changed P e a)"
  unfolding ev_unicom_service_def ev_unicom_char_def ev_unicom_desc_def ev_unicom_sub_def ev_mtu_def ev_find_mode_def ev_read_mode_def ev_find_gatt_def ev_find_changed_def ev_desc_def ev_sub_changed_def Let_def
  by (intro event_helds; simp add: assms)+

lemma reports_held:
  assumes "held W a"
  shows "held W (ev_find_info P e a)" "held W (ev_read_info P e a)" "held W (ev_find_map P e a)"
    "held W (ev_read_map P e a)" "held W (ev_enum P e a)" "held W (ev_descs P e a)"
    "held W (ev_report_ref P e a)" "held W (ev_subscribe P e a)"
  unfolding ev_find_info_def ev_read_info_def ev_find_map_def ev_read_map_def ev_enum_def ev_descs_def ev_report_ref_def ev_subscribe_def Let_def
  by (intro event_helds; simp add: assms)+

lemma services_held:
  assumes "held W a"
  shows "held W (ev_find_bat P e a)" "held W (ev_bat_descs P e a)" "held W (ev_battery P e a)"
    "held W (ev_sub_battery P e a)" "held W (ev_find_atvv P e a)" "held W (ev_handshake P e a)"
  unfolding ev_find_bat_def ev_bat_descs_def ev_battery_def ev_sub_battery_def ev_find_atvv_def ev_handshake_def Let_def
  by (intro event_helds; simp add: assms)+

lemma steps_held:
  assumes "held W a"
  shows "held W (ev_service P st e a)" "held W (ev_written P st e a)"
    "(\<And>h c. world (f h c) = world c) \<Longrightarrow> held W (ev_atvv_char k f g st P e a)"
  unfolding ev_service_def ev_written_def ev_atvv_char_def Let_def
  by (intro event_helds; simp add: assms)+

lemma disc_event_held: "held W a \<Longrightarrow> held W (disc_event P e a)"
  by (cases "ad_state (env a)") (simp_all add: disc_event_def identify_held reports_held services_held steps_held)

lemma runtime_notify_held:
  assumes "held W a"
  shows "held W (runtime_notify P e a)"
proof -
  have r: "held W (notify_report P i v a)" for i v
    unfolding notify_report_def Let_def using assms
    by (auto split: option.split intro!: recompute_keys_held held_cupdI mic_requests_held)
  have c: "held W t" if "rc003_atvv_on_control (adapter_sink P) x s = (ok, t)" "held W s" for ok t x s
    using on_control_held [OF that(2), of x] that(1) by simp
  have p: "held W (cupd (\<lambda>c. c\<lparr>pending_search := x\<rparr>) s) = held W s" for x s by (simp add: held_def)
  have "held W (notify_control P v a)" for v
    unfolding notify_control_def Let_def using assms
    by (auto simp: p split: prod.split intro!: handle_op_failure_held finish_voice_ready_held elim!: c)
  then show ?thesis
    using assms r by (auto simp: runtime_notify_def Let_def server on_audio_held split: option.split)
qed

lemma on_gatt_held: "held W a \<Longrightarrow> held W (rc003_adapter_on_gatt P e a)"
  unfolding rc003_adapter_on_gatt_def Let_def
  by (intro held_rules fails_held unicom_notify_held unicom_fails_held runtime_notify_held disc_event_held; simp add: disc_event_held held_def)

section \<open>Life cycle\<close>

lemma init_held: "held W a \<Longrightarrow> held W (rc003_adapter_init P a)"
  unfolding rc003_adapter_init_def Let_def held_init by (rule server) (simp add: held_def)

lemma start_bound_held: "held W a \<Longrightarrow> held W (rc003_adapter_start_bound P now peer a)"
  unfolding rc003_adapter_start_bound_def Let_def
  by (intro held_ifI begin_next_held start_op_heldI server held_cupdI init_held; simp)

lemma detach_held: "held W a \<Longrightarrow> held W (rc003_adapter_detach P a)"
  unfolding rc003_adapter_detach_def Let_def
  by (intro held_ifI init_held held_uupdI held_cupdI; simp)

lemma mic_stop_held: "held W a \<Longrightarrow> held W (snd (rc003_adapter_mic_stop P a))"
  by (simp add: rc003_adapter_mic_stop_def request_stop_held)

lemma mic_start_held: "held W a \<Longrightarrow> held W (snd (rc003_adapter_mic_start P a))"
  by (simp add: rc003_adapter_mic_start_def)

lemma tick_held: "held W a \<Longrightarrow> held W (rc003_adapter_tick P now a)"
  unfolding rc003_adapter_tick_def tick_discovery_def tick_rc003_def Let_def
  by (intro held_rules fails_held handle_op_failure_held begin_next_held atvv_tick_held mic_requests_held unicom_tick_held; simp)

lemma cache_import_held:
  assumes "held W a"
  shows "held W (snd (rc003_adapter_cache_import P peer p a))"
proof -
  have f: "held W (cupd (import_fields p) (rc003_adapter_init P a))" by (intro held_cupdI init_held assms) simp
  obtain ok b where c: "import_check p (cupd (import_fields p) (rc003_adapter_init P a)) = (ok, b)" by fastforce
  have b: "held W b" using f import_check_held [of W p "cupd (import_fields p) (rc003_adapter_init P a)"] unfolding c by simp
  have "held W (cupd (\<lambda>c. c\<lparr>cache_peer_id := peer, cache_safe := True, cache_valid := True\<rparr>) (b\<lparr>profile_init_without_sync := x\<rparr>))" for x
    using b by (intro held_cupdI) simp_all
  then show ?thesis
    using assms init_held [OF b] init_held [OF assms] unfolding rc003_adapter_cache_import_def Let_def c by auto
qed

end

end
