(* ===== verification/Central_Inv.thy ===== *)
theory Central_Inv
  imports Central Adapter_Keeps
begin

text \<open>
  The connection manager keeps in step with the radio. The library runs one radio procedure at a time: a scan, a
  connection attempt or a link. The locale \<open>dongle_world\<close> states what is relied on: of the library, that an accepted
  request starts its procedure when the radio is idle and that nothing else starts one; of the server, that
  whatever it does through the backend keeps the invariant. All operations of the backend, and all events, keep it.
\<close>

section \<open>What the radio does\<close>

datatype radio = R_idle | R_scan | R_connect | R_link u16 | R_clash

fun wants :: "wc_state \<Rightarrow> u16 \<Rightarrow> radio" where
  "wants WC_IDLE h = R_idle"
| "wants WC_SCAN h = R_scan"
| "wants WC_RESOLVE h = R_scan"
| "wants WC_SCAN_STOPPING h = R_scan"
| "wants WC_CONNECTING h = R_connect"
| "wants WC_CONNECT_CANCEL h = R_connect"
| "wants WC_CONNECTED h = R_link h"
| "wants WC_DISCONNECTING h = R_link h"

fun starts :: "gap_request \<Rightarrow> radio option" where
  "starts (GAPRole_CentralStartDiscovery _) = Some R_scan"
| "starts (GAPRole_CentralEstablishLink _ _) = Some R_connect"
| "starts _ = None"

text \<open>The part of the state that the invariant speaks of.\<close>

type_synonym radio_view = "wc_state \<times> u16 \<times> nat \<times> candidate list \<times> bool \<times> next_link \<times> radio"

definition view :: "('x \<Rightarrow> radio) \<Rightarrow> ('k, 'w, 'x, 'v) dongle \<Rightarrow> radio_view" where
  "view doing w = (let c = dg_central w in
     (wc_state c, wc_conn c, wc_backoff c, wc_candidates c, security_blocked c, wc_next c, doing (dg_gap w)))"

text \<open>
  The invariant. In the announced mode, between the announcement of a connection attempt and the request to the library, the
  radio is still idle. The flag \<open>sec\<close> asks for the rules of what comes next: a connection waits only for the end of a
  scan, and with a broken bond none is attempted; within an operation they may be broken for a moment.
\<close>

fun view_ok :: "bool \<Rightarrow> bool \<Rightarrow> radio_view \<Rightarrow> bool" where
  "view_ok ann sec (st, conn, back, cands, blocked, next, r) \<longleftrightarrow>
     (if ann then st \<in> {WC_CONNECTING, WC_CONNECT_CANCEL} \<and> r = R_idle else r = wants st conn)
     \<and> (conn = GAP_CONNHANDLE_INIT \<longleftrightarrow> st \<notin> {WC_CONNECTED, WC_DISCONNECTING})
     \<and> back \<le> 2 \<and> length cands \<le> MAX_CAND
     \<and> (sec \<longrightarrow> (next \<noteq> NEXT_NONE \<longrightarrow> st = WC_SCAN_STOPPING)
            \<and> (blocked \<longrightarrow> next = NEXT_NONE \<and> st \<notin> {WC_RESOLVE, WC_CONNECTING}))"

definition radio_ok :: "('x \<Rightarrow> radio) \<Rightarrow> bool \<Rightarrow> bool \<Rightarrow> ('k, 'w, 'x, 'v) dongle \<Rightarrow> bool" where
  "radio_ok doing ann sec w = view_ok ann sec (view doing w)"

section \<open>Changes of the surroundings\<close>

lemma wupd_fields [simp]:
  "world (env (wupd f s)) = f (world (env s))" "env (wupd f s) = (env s)\<lparr>world := f (world (env s))\<rparr>"
  by (simp_all add: wupd_def)

lemma wupd_wupd [simp]: "wupd f (wupd g s) = wupd (\<lambda>w. f (g w)) s"
  by (simp add: wupd_def cupd_def)

lemma wupd_cong: "f (world (env s)) = g (world (env s)) \<Longrightarrow> wupd f s = wupd g s"
  by (simp add: wupd_def cupd_def)

text \<open>A change of the surroundings that the radio's view does not show.\<close>

definition quiet :: "('x \<Rightarrow> radio) \<Rightarrow> ('k, 'w, 'x, 'v) sys \<Rightarrow> ('k, 'w, 'x, 'v) sys \<Rightarrow> bool" where
  "quiet doing s t \<longleftrightarrow> (\<exists>w. t = wupd (\<lambda>_. w) s \<and> view doing w = view doing (world (env s)))"

lemma quietI: "view doing (f (world (env s))) = view doing (world (env s)) \<Longrightarrow> quiet doing s (wupd f s)"
  unfolding quiet_def by (rule exI [of _ "f (world (env s))"]) (simp add: wupd_def cupd_def)

lemma quiet_refl [simp]: "quiet doing s s"
  using quietI [of doing "\<lambda>w. w" s] by (simp add: wupd_def cupd_def)

lemma quiet_trans: "quiet doing s t \<Longrightarrow> quiet doing t u \<Longrightarrow> quiet doing s u"
  unfolding quiet_def by (auto simp: wupd_def cupd_def)

lemma quiet_view: "quiet doing s t \<Longrightarrow> view doing (world (env t)) = view doing (world (env s))"
  by (auto simp: quiet_def)

lemma quiet_if: "(b \<Longrightarrow> quiet doing s t) \<Longrightarrow> (\<not> b \<Longrightarrow> quiet doing s u) \<Longrightarrow> quiet doing s (if b then t else u)"
  by simp

lemma view_central: "view doing w = view doing w' \<Longrightarrow> wc_state (dg_central w) = wc_state (dg_central w') \<and>
   wc_conn (dg_central w) = wc_conn (dg_central w') \<and> security_blocked (dg_central w) = security_blocked (dg_central w')
   \<and> wc_next (dg_central w) = wc_next (dg_central w') \<and> wc_candidates (dg_central w) = wc_candidates (dg_central w')
   \<and> doing (dg_gap w) = doing (dg_gap w')"
  by (simp add: view_def Let_def)

lemma quiet_cen:
  assumes "quiet doing s t"
  shows "wc_state (cen t) = wc_state (cen s)" "wc_conn (cen t) = wc_conn (cen s)"
    "security_blocked (cen t) = security_blocked (cen s)" "wc_candidates (cen t) = wc_candidates (cen s)"
    "doing (dg_gap (world (env t))) = doing (dg_gap (world (env s)))"
  using view_central [OF quiet_view [OF assms]] by (auto simp: cen_def)

named_theorems quiets

lemma wc_upd_quiet [quiets]:
  "(\<And>c. wc_state (f c) = wc_state c \<and> wc_conn (f c) = wc_conn c \<and> wc_backoff (f c) = wc_backoff c
      \<and> wc_candidates (f c) = wc_candidates c \<and> security_blocked (f c) = security_blocked c \<and> wc_next (f c) = wc_next c)
   \<Longrightarrow> quiet doing s (wc_upd f s)"
  unfolding wc_upd_def by (intro quietI) (simp add: view_def Let_def)

lemma gatt_upd_quiet [quiets]: "quiet doing s (gatt_upd f s)"
  unfolding gatt_upd_def by (intro quietI) (simp add: view_def)

lemma board_upd_quiet [quiets]: "quiet doing s (board_upd f s)"
  unfolding board_upd_def by (intro quietI) (simp add: view_def)

lemma board_get_quiet: "board_get f s = (r, t) \<Longrightarrow> quiet doing s t"
  unfolding board_get_def by (auto simp: board_upd_quiet split: prod.splits)

lemma storage_quiet: "storage P s = (st, t) \<Longrightarrow> quiet doing s t"
  unfolding storage_def by (rule board_get_quiet)

lemma record_gap_quiet [quiets]: "quiet doing s (record_gap st code ctx s)"
  unfolding record_gap_def by (intro wc_upd_quiet) simp

lemma gap_result_quiet [quiets]: "quiet doing s (gap_result st code ctx s)"
  unfolding gap_result_def by (simp add: record_gap_quiet)

section \<open>The contract\<close>

locale radio_library =
  fixes P :: "('k, 'w, 'x, 'v) central_port" and doing :: "'x \<Rightarrow> radio"
  assumes start: "starts req = Some r \<Longrightarrow> doing x = R_idle \<Longrightarrow> gap_call (cp_gap P) req x = (st, x') \<Longrightarrow>
        doing x' = (if st = SUCCESS then r else R_idle)"
    and others: "starts req = None \<Longrightarrow> gap_call (cp_gap P) req x = (st, x') \<Longrightarrow> doing x' = doing x"
    and counted: "gap_bond_count (cp_gap P) x = (st, n, x') \<Longrightarrow> doing x' = doing x"
    and record_read: "snv_main_record (cp_gap P) x = (st, rec, x') \<Longrightarrow> doing x' = doing x"
    and irk_read: "snv_dev_irk (cp_gap P) x = (st, irk, x') \<Longrightarrow> doing x' = doing x"
    and drawn: "tmos_rand (cp_gap P) x = (key, x') \<Longrightarrow> doing x' = doing x"
    and attribute: "view doing (snd (p_gatt (cp_adapter P) op w)) = view doing w"

locale dongle_world = radio_library P doing
  for P :: "('k, 'w, 'x, 'v) central_port" and doing :: "'x \<Rightarrow> radio" +
  assumes kept: "radio_ok doing ann sec (world (env s)) \<Longrightarrow> radio_ok doing ann sec (world (env (p_server (cp_adapter P) call s)))"
    and noted: "call \<in> {C_link_message m, C_voice_caps caps} \<Longrightarrow>
        \<exists>v. p_server (cp_adapter P) call s = wupd (\<lambda>w. w\<lparr>dg_server := v\<rparr>) s"

text \<open>The adapter between the server and the radio passes on what both keep.\<close>

sublocale dongle_world \<subseteq> adapter: adapter_keeps "cp_adapter P" "radio_ok doing ann sec" for ann sec
  by unfold_locales (use attribute kept in \<open>auto simp: held_def radio_ok_def\<close>)

context dongle_world
begin

abbreviation "ok ann sec s \<equiv> held (radio_ok doing ann sec) s"

lemma ok_view: "ok ann sec s \<Longrightarrow> view_ok ann sec (view doing (world (env s)))"
  by (simp add: held_def radio_ok_def)

lemma ok_quiet: "ok ann sec s \<Longrightarrow> quiet doing s t \<Longrightarrow> ok ann sec t"
  using ok_view [of ann sec s] by (simp add: held_def radio_ok_def quiet_view)

lemma ok_wupd: "view_ok ann sec (view doing (f (world (env t)))) \<Longrightarrow> ok ann sec (wupd f t)"
  by (simp add: held_def radio_ok_def)

lemma ok_wc_upd:
  "view_ok ann sec (view doing ((world (env t))\<lparr>dg_central := f (dg_central (world (env t)))\<rparr>)) \<Longrightarrow> ok ann sec (wc_upd f t)"
  unfolding wc_upd_def by (rule ok_wupd)

lemma ok_mode: "view_ok ann sec (view doing (world (env t))) \<Longrightarrow> ok ann sec t"
  by (simp add: held_def radio_ok_def)

lemma tell_ok: "ok ann sec t \<Longrightarrow> ok ann sec (tell P call t)"
  unfolding tell_def by (rule adapter.server)

lemma tell_link_ok: "ok ann sec t \<Longrightarrow> ok ann sec (tell_link P st t)"
  unfolding tell_link_def by (rule tell_ok)

lemma message_quiet: "quiet doing s (link_message P msg s)"
  unfolding link_message_def tell_def
  using noted [of "C_link_message (Some (cstr msg))" "Some (cstr msg)" _ s] by (auto intro!: quietI simp: view_def)

lemma gap_other_quiet:
  assumes "gap_do P stage ctx req s = (st, t)" and "starts req = None"
  shows "quiet doing s t"
proof -
  obtain x where x: "gap_call (cp_gap P) req (dg_gap (world (env s))) = (st, x)"
    and t: "t = gap_result stage st ctx (wupd (\<lambda>w. w\<lparr>dg_gap := x\<rparr>) s)"
    using assms(1) by (auto simp: gap_do_def split: prod.splits)
  have "quiet doing s (wupd (\<lambda>w. w\<lparr>dg_gap := x\<rparr>) s)"
    using others [OF assms(2) x] by (intro quietI) (simp add: view_def Let_def)
  then show ?thesis unfolding t by (rule quiet_trans [OF _ gap_result_quiet])
qed

lemma gap_start_effect:
  assumes "gap_do P stage ctx req s = (st, t)" and "starts req = Some r" and "doing (dg_gap (world (env s))) = R_idle"
  shows "\<exists>x. quiet doing (wupd (\<lambda>w. w\<lparr>dg_gap := x\<rparr>) s) t \<and> doing x = (if st = SUCCESS then r else R_idle)"
proof -
  obtain x where x: "gap_call (cp_gap P) req (dg_gap (world (env s))) = (st, x)"
    and t: "t = gap_result stage st ctx (wupd (\<lambda>w. w\<lparr>dg_gap := x\<rparr>) s)"
    using assms(1) by (auto simp: gap_do_def split: prod.splits)
  then show ?thesis using start [OF assms(2,3) x] gap_result_quiet by blast
qed

lemma bond_count_quiet: "bond_count P s = (st, n, t) \<Longrightarrow> quiet doing s t"
  unfolding bond_count_def
  by (auto split: prod.splits intro!: quiet_trans [OF quietI gap_result_quiet] dest: counted simp: view_def Let_def)

lemma read_identity_quiet:
  assumes "read_identity P s = (b, t)"
  shows "quiet doing s t"
proof -
  obtain cs n u where u: "bond_count P s = (cs, n, u)" by (metis prod_cases3)
  obtain rs rec x where x: "snv_main_record (cp_gap P) (dg_gap (world (env u))) = (rs, rec, x)" by (metis prod_cases3)
  define v where "v = gap_result 12 rs mainRecordNvID (wupd (\<lambda>w. w\<lparr>dg_gap := x\<rparr>) u)"
  have "quiet doing u (wupd (\<lambda>w. w\<lparr>dg_gap := x\<rparr>) u)"
    using record_read [OF x] by (intro quietI) (simp add: view_def Let_def)
  then have v: "quiet doing s v"
    unfolding v_def using bond_count_quiet [OF u] gap_result_quiet quiet_trans by blast
  define y where "y = wc_upd (\<lambda>c. c\<lparr>wc_identity := br_addr rec, identity_type := br_addr_type rec,
      peer_irk := replicate 16 0, have_irk := False\<rparr>) v"
  have y: "quiet doing s y" unfolding y_def by (rule quiet_trans [OF v wc_upd_quiet]) simp
  obtain ir irk z where z: "snv_dev_irk (cp_gap P) (dg_gap (world (env y))) = (ir, irk, z)" by (metis prod_cases3)
  have "quiet doing y (wupd (\<lambda>w. w\<lparr>dg_gap := z\<rparr>) y)"
    using irk_read [OF z] by (intro quietI) (simp add: view_def Let_def)
  then have q: "quiet doing s (gap_result 12 ir devIRKNvID (wupd (\<lambda>w. w\<lparr>dg_gap := z\<rparr>) y))"
    using y gap_result_quiet quiet_trans by blast
  then have "quiet doing s (wc_upd (\<lambda>c. c\<lparr>peer_irk := irk, have_irk := \<not> blank_key irk\<rparr>)
      (gap_result 12 ir devIRKNvID (wupd (\<lambda>w. w\<lparr>dg_gap := z\<rparr>) y)))"
    by (rule quiet_trans [OF _ wc_upd_quiet]) simp
  moreover have "t \<in> {v, gap_result 12 ir devIRKNvID (wupd (\<lambda>w. w\<lparr>dg_gap := z\<rparr>) y),
      wc_upd (\<lambda>c. c\<lparr>peer_irk := irk, have_irk := \<not> blank_key irk\<rparr>)
        (gap_result 12 ir devIRKNvID (wupd (\<lambda>w. w\<lparr>dg_gap := z\<rparr>) y))}"
    using assms unfolding read_identity_def u Let_def prod.case x v_def [symmetric] y_def [symmetric] z
    by (simp split: if_splits)
  ultimately show ?thesis using v q by auto
qed

lemma known_identity_quiet: "known_identity P s = (b, t) \<Longrightarrow> quiet doing s t"
  unfolding known_identity_def
  by (auto split: prod.splits option.splits intro: quiet_trans dest: board_get_quiet read_identity_quiet)

lemma sync_cache_quiet: "quiet doing s (sync_gatt_cache P s)"
  unfolding sync_gatt_cache_def Let_def
  by (auto split: prod.splits intro: quiet_trans message_quiet dest!: storage_quiet [where doing = doing] board_get_quiet [where doing = doing])

text \<open>A connection is dropped: the adapter forgets it, and the radio's view is the same.\<close>

lemma detach_view: "view doing (world (env (rc003_adapter_detach (cp_adapter P) s))) = view doing (world (env s))"
proof -
  let ?a = "rc003_atvv_init (atvv_faults s) (adapter_zero (world (env s)))"
  obtain v where "p_server (cp_adapter P) (C_voice_caps (Some rc003_caps)) ?a = wupd (\<lambda>w. w\<lparr>dg_server := v\<rparr>) ?a"
    using noted [of _ _ "Some rc003_caps" ?a] by blast
  then have "view doing (world (env (rc003_adapter_init (cp_adapter P) s))) = view doing (world (env s))"
    by (simp add: rc003_adapter_init_def Let_def rc003_atvv_init_def adapter_zero_def view_def)
  then show ?thesis
    by (simp add: rc003_adapter_detach_def Let_def uupd_def rc003_atvv_init_def)
qed

lemma drop_link_ok: "ok ann sec t \<Longrightarrow> ok ann sec (drop_link P t)"
  unfolding drop_link_def by (intro adapter.detach_held) (rule ok_quiet [OF _ sync_cache_quiet])

lemma drop_link_view: "view doing (world (env (drop_link P t))) = view doing (world (env t))"
  unfolding drop_link_def detach_view by (rule quiet_view [OF sync_cache_quiet])

lemma radio_fault_ok: "ok ann sec t \<Longrightarrow> ok ann sec (radio_fault P why t)"
proof -
  assume t: "ok ann sec t"
  have n: "ok ann sec (wc_upd (\<lambda>c. c\<lparr>wc_next := NEXT_NONE\<rparr>) t)"
    by (rule ok_wc_upd) (use ok_view [OF t] in \<open>auto simp: view_def Let_def\<close>)
  show ?thesis
    unfolding radio_fault_def Let_def
    by (auto intro!: n tell_link_ok drop_link_ok
        ok_quiet [OF _ message_quiet] ok_quiet [OF _ gatt_upd_quiet] ok_quiet [OF _ wc_upd_quiet])
qed

section \<open>The backend\<close>

lemma view_set_state: "view doing (world (env (set_state x tm t))) = (x, snd (view doing (world (env t))))"
  by (simp add: set_state_def wc_upd_def view_def Let_def)

lemma set_state_ok:
  assumes "view_ok ann sec (x, snd (view doing (world (env t))))"
  shows "ok ann sec (set_state x tm t)"
  unfolding set_state_def by (rule ok_wc_upd) (use assms in \<open>auto simp: view_def Let_def split: if_splits\<close>)

lemma rejected_quiet:
  assumes "gap_do P stage ctx req s = (st, t)" and "starts req = None"
  shows "quiet doing s (if st \<noteq> SUCCESS then link_message P msg t else t)"
  using gap_other_quiet [OF assms] by (auto intro: quiet_trans [OF _ message_quiet])

lemma stop_scan_ok:
  assumes "ok ann False t" and "wc_state (cen t) \<in> {WC_SCAN, WC_RESOLVE, WC_SCAN_STOPPING}"
    and "sec \<longrightarrow> security_blocked (cen t) \<longrightarrow> wc_next (cen t) = NEXT_NONE"
  shows "ok ann sec (stop_scan P t)"
proof -
  have v: "view_ok ann sec (WC_SCAN_STOPPING, snd (view doing (world (env t))))"
    using ok_view [OF assms(1)] assms(2,3) by (auto simp: view_def Let_def cen_def split: if_splits)
  obtain st u where u: "gap_do P 4 0 GAPRole_CentralCancelDiscovery (set_state WC_SCAN_STOPPING CANCEL_TIMEOUT_MS t) = (st, u)"
    by fastforce
  have "ok ann sec (if st \<noteq> SUCCESS then link_message P ''scan cancel rejected; awaiting completion'' u else u)"
    by (rule ok_quiet [OF set_state_ok [OF v] rejected_quiet [OF u]]) simp
  moreover have "ok ann sec t" if "wc_state (cen t) = WC_SCAN_STOPPING"
    by (rule ok_mode) (use v that in \<open>auto simp: view_def Let_def cen_def split: if_splits\<close>)
  ultimately show ?thesis by (simp add: stop_scan_def u)
qed

text \<open>Whatever was going on, a disconnection leaves no connection attempt behind.\<close>

lemma disconnect_ok:
  assumes "ok ann sec' t"
  shows "ok ann sec (rb_disconnect P t)"
proof -
  define u where "u = wc_upd (\<lambda>c. c\<lparr>wc_next := NEXT_NONE, passkey_pending := False\<rparr>) t"
  have u: "ok ann False u" unfolding u_def
    by (rule ok_wc_upd) (use ok_view [OF assms] in \<open>auto simp: view_def Let_def split: if_splits\<close>)
  have n: "wc_next (cen u) = NEXT_NONE" by (simp add: u_def cen_def wc_upd_def)
  note uv = ok_view [OF u]
  obtain rc v where v: "gap_do P 9 0 (GAPRole_TerminateLink INVALID_CONNHANDLE) (set_state WC_CONNECT_CANCEL CANCEL_TIMEOUT_MS u) = (rc, v)"
    by fastforce
  have cancel: "ok ann sec (if rc \<noteq> SUCCESS then link_message P msg v else v)" if "wc_state (cen u) = WC_CONNECTING" for msg
    by (rule ok_quiet [OF set_state_ok rejected_quiet [OF v]])
      (use uv that n in \<open>auto simp: view_def Let_def cen_def split: if_splits\<close>)
  define d where "d = drop_link P (gatt_upd wch_gatt_quiesce u)"
  have d: "ok ann False d" unfolding d_def by (intro drop_link_ok ok_quiet [OF u gatt_upd_quiet])
  have dv: "view doing (world (env d)) = view doing (world (env u))"
    unfolding d_def drop_link_view by (rule quiet_view [OF gatt_upd_quiet])
  obtain rc' w where w: "gap_do P 9 0 (GAPRole_TerminateLink (wc_conn (cen (set_state WC_DISCONNECTING CANCEL_TIMEOUT_MS d))))
      (set_state WC_DISCONNECTING CANCEL_TIMEOUT_MS d) = (rc', w)" by fastforce
  have hang_up: "ok ann sec (if rc' \<noteq> SUCCESS then link_message P msg w else w)" if "wc_state (cen u) = WC_CONNECTED" for msg
    by (rule ok_quiet [OF set_state_ok rejected_quiet [OF w]])
      (unfold dv, use uv that n in \<open>auto simp: view_def Let_def cen_def split: if_splits\<close>)
  have rest: "ok ann sec u" if "wc_state (cen u) \<notin> {WC_SCAN, WC_RESOLVE, WC_CONNECTING, WC_CONNECTED}"
    by (rule ok_mode) (use uv that n in \<open>auto simp: view_def Let_def cen_def split: if_splits\<close>)
  have scan: "ok ann sec (stop_scan P u)" if "wc_state (cen u) \<in> {WC_SCAN, WC_RESOLVE}"
    by (rule stop_scan_ok [OF u]) (use that n in auto)
  show ?thesis
    unfolding rb_disconnect_def Let_def u_def [symmetric] d_def [symmetric] v w prod.case
    using scan cancel hang_up rest by auto
qed

lemma schedule_ok: "ok ann sec t \<Longrightarrow> ok ann sec (reconnect_schedule t)"
  unfolding reconnect_schedule_def Let_def
  by (rule ok_wc_upd, drule ok_view) (auto simp: view_def Let_def split: if_splits)

lemma storage_ok: "storage P t = (st, u) \<Longrightarrow> ok ann sec t \<Longrightarrow> ok ann sec u"
  by (rule ok_quiet [OF _ storage_quiet])

lemma wc_upd_ok:
  "(\<And>c. wc_state (f c) = wc_state c \<and> wc_conn (f c) = wc_conn c \<and> wc_backoff (f c) = wc_backoff c
      \<and> wc_candidates (f c) = wc_candidates c \<and> security_blocked (f c) = security_blocked c \<and> wc_next (f c) = wc_next c)
   \<Longrightarrow> ok ann sec t \<Longrightarrow> ok ann sec (wc_upd f t)"
  by (rule ok_quiet [OF _ wc_upd_quiet])

lemmas plain_ok = ok_quiet [OF _ message_quiet] ok_quiet [OF _ gatt_upd_quiet] ok_quiet [OF _ board_upd_quiet]
  ok_quiet [OF _ record_gap_quiet] tell_ok tell_link_ok schedule_ok disconnect_ok radio_fault_ok
  drop_link_ok ok_quiet [OF _ sync_cache_quiet]

lemma fail_pair_ok: "ok ann sec t \<Longrightarrow> ok ann sec (fail_pair P status t)"
  unfolding fail_pair_def Let_def
  by (auto split: prod.split intro!: disconnect_ok tell_ok wc_upd_ok elim!: storage_ok)

lemma fail_pair_sdk_ok: "ok ann sec t \<Longrightarrow> ok ann sec (fail_pair_sdk P phase code t)"
  unfolding fail_pair_sdk_def by (auto intro!: plain_ok fail_pair_ok)

lemma recovery_ok: "ok ann sec t \<Longrightarrow> ok ann sec (begin_recovery r t)"
  unfolding begin_recovery_def by (rule wc_upd_ok) simp_all

lemma retry_ok:
  assumes "ok ann sec t"
  shows "ok ann sec (disconnected_retry P early t)"
proof -
  define u where "u = (if radio_faulted (cen t) \<or> security_blocked (cen t) then tell_link P RBP_LINK_ERROR t
      else let (st, s) = storage P t in tell_link P (if st = 1 then RBP_LINK_DISCONNECTED else RBP_LINK_UNBOUND) s)"
  have u: "ok ann sec u"
    using assms unfolding u_def Let_def by (auto split: prod.split intro!: tell_link_ok elim: storage_ok)
  obtain st v where v: "(if early \<and> \<not> radio_faulted (cen u) \<and> \<not> security_blocked (cen u) \<and> \<not> recovering (cen u)
      then storage P u else (0, u)) = (st, v)" by fastforce
  have "ok ann sec v" using u v storage_ok by (auto split: if_splits)
  then show ?thesis
    unfolding disconnected_retry_def unfolding u_def [symmetric] unfolding Let_def v prod.case
    by (auto intro!: schedule_ok wc_upd_ok)
qed

lemma finish_pair_ok:
  assumes "ok ann sec t"
  shows "ok ann sec (finish_pair P t)"
proof -
  obtain b u where u: "read_identity P t = (b, u)" by fastforce
  have au: "ok ann sec u" by (rule ok_quiet [OF assms read_identity_quiet [OF u]])
  obtain peer v where v: "board_get (board_peer_counter (cp_eeprom P)) u = (peer, v)" by fastforce
  define x where "x = tell P (C_pair_done RBP_STATUS_OK True (Some (bond_record peer)) 0) (wc_upd (\<lambda>c. c\<lparr>pair_pending := False\<rparr>)
      (board_upd (board_hid_flags_stage (cp_eeprom P) (if hid_info_valid (env (board_upd (board_addr_stage (cp_eeprom P)
        (wc_identity (cen v)) (identity_type (cen v))) v)) then hid_flags (env (board_upd (board_addr_stage (cp_eeprom P)
        (wc_identity (cen v)) (identity_type (cen v))) v)) else 255))
        (board_upd (board_addr_stage (cp_eeprom P) (wc_identity (cen v)) (identity_type (cen v))) v)))"
  have x: "ok ann sec x" unfolding x_def
    by (intro tell_ok wc_upd_ok ok_quiet [OF _ board_upd_quiet] ok_quiet [OF au board_get_quiet [OF v]]) simp_all
  obtain st y where y: "storage P x = (st, y)" by fastforce
  have ay: "ok ann sec y" by (rule storage_ok [OF y x])
  have "ok ann sec (rc003_adapter_commit_bond peer y)"
    using ay by simp
  moreover have "ok ann sec (rb_disconnect P (begin_recovery False y))" by (intro disconnect_ok recovery_ok) (rule ay)
  ultimately show ?thesis
    using fail_pair_ok [OF au] by (simp add: finish_pair_def u v Let_def x_def [symmetric] y split: bool.split)
qed

lemma cen_wc_upd [simp]: "cen (wc_upd f s) = f (cen s)"
  by (simp add: cen_def wc_upd_def)

lemma cen_set_state: "cen (set_state x tm s) = (cen s)\<lparr>wc_state := x, wc_deadline := now_ms s + tm\<rparr>"
  by (simp add: set_state_def)

text \<open>A connection attempt: announced to the server, then requested.\<close>

lemma begin_link_ok:
  assumes t: "ok ann sec t" and free: "sec \<longrightarrow> wc_state (cen t) = WC_IDLE \<longrightarrow> \<not> security_blocked (cen t)"
  shows "ok ann sec (begin_link P addr typ t)"
proof (cases "wc_state (cen t) \<noteq> WC_IDLE \<or> radio_faulted (cen t) \<or> recovering (cen t)")
  case True
  then show ?thesis using t by (simp add: begin_link_def)
next
  case False
  define u where "u = wc_upd (\<lambda>c. c\<lparr>target_addr := addr, target_type := typ, wc_next := NEXT_NONE\<rparr>) t"
  have u: "ok ann sec u" unfolding u_def
    by (rule ok_wc_upd) (use ok_view [OF t] in \<open>auto simp: view_def Let_def split: if_splits\<close>)
  obtain st v where v: "gap_do P 3 (ucast GAPBOND_CENT_PAIRING_MODE) (GAPBondMgr_SetParameter GAPBOND_CENT_PAIRING_MODE [2]) u = (st, v)"
    by fastforce
  have q: "quiet doing u v" by (rule gap_other_quiet [OF v]) simp
  have av: "ok ann sec v" by (rule ok_quiet [OF u q])
  have cv: "wc_state (cen v) = WC_IDLE" "security_blocked (cen v) = security_blocked (cen t)"
    using quiet_cen [OF q] False by (simp_all add: u_def)
  then have ann: "\<not> ann" using ok_view [OF av] by (auto simp: view_def Let_def cen_def)
  define x where "x = tell_link P RBP_LINK_CONNECTING (wc_upd (\<lambda>c. c\<lparr>adapter_started := False, bond_ready := False,
      passkey_pending := False\<rparr>) (set_state WC_CONNECTING 20000 v))"
  have x: "ok True sec x" unfolding x_def
    by (intro tell_link_ok wc_upd_ok set_state_ok)
      (use ok_view [OF av] cv free ann False in \<open>auto simp: view_def Let_def cen_def\<close>)
  note xv = ok_view [OF x]
  obtain rc y where y: "gap_do P 5 0 (GAPRole_CentralEstablishLink typ (target_addr (cen x))) x = (rc, y)" by fastforce
  obtain g where g: "quiet doing (wupd (\<lambda>w. w\<lparr>dg_gap := g\<rparr>) x) y" "doing g = (if rc = SUCCESS then R_connect else R_idle)"
    using gap_start_effect [OF y, of R_connect] xv by (auto simp: view_def Let_def)
  have linked: "ok False sec y" if "rc = SUCCESS"
    by (rule ok_quiet [OF ok_wupd g(1)]) (use xv g(2) that in \<open>auto simp: view_def Let_def\<close>)
  have refused: "ok True sec y" if "rc \<noteq> SUCCESS"
    by (rule ok_quiet [OF ok_wupd g(1)]) (use xv g(2) that in \<open>auto simp: view_def Let_def\<close>)
  have idle: "ok False sec (set_state WC_IDLE 0 y)" if "rc \<noteq> SUCCESS"
    by (rule set_state_ok)
      (use ok_view [OF refused [OF that]] in \<open>auto simp: view_def Let_def\<close>)
  show ?thesis
    using False ann av linked idle
    unfolding begin_link_def u_def [symmetric] v prod.case x_def [symmetric] Let_def y
    by (auto intro!: schedule_ok fail_pair_sdk_ok tell_link_ok radio_fault_ok)
qed

end

end
