(* ===== verification/Central_Backend.thy ===== *)
theory Central_Backend
  imports Central_Inv
begin

text \<open>
  The functions of the connection manager that the server calls (\<open>rb_...\<close>) keep the manager in step with the
  radio, in whatever state they are called, also from within an announcement.
\<close>

fun set_radio :: "radio \<Rightarrow> radio_view \<Rightarrow> radio_view" where
  "set_radio r (st, conn, back, cands, blocked, next, _) = (st, conn, back, cands, blocked, next, r)"

context dongle_world
begin

lemma gap_other_ok:
  "gap_do P stage ctx req t = (st, u) \<Longrightarrow> starts req = None \<Longrightarrow> ok ann sec t \<Longrightarrow> ok ann sec u"
  by (rule ok_quiet [OF _ gap_other_quiet])

lemma gap_settings_quiet: "gap_settings P ps s = (st, t) \<Longrightarrow> quiet doing s t"
proof (induction ps arbitrary: s)
  case (Cons p ps)
  obtain st1 u where u: "gap_do P 1 (ucast (fst p)) (GAP_SetParamValue (fst p) (snd p)) s = (st1, u)" by fastforce
  have "quiet doing s u" by (rule gap_other_quiet [OF u]) simp
  then show ?case using Cons u by (cases p) (auto split: if_splits intro: quiet_trans)
qed simp

section \<open>Scans\<close>

lemma scan_effect:
  assumes "start_scan P ps active s = (st, t)" and "doing (dg_gap (world (env s))) = R_idle"
  shows "\<exists>w. t = wupd (\<lambda>_. w) s
    \<and> view doing w = set_radio (if st = SUCCESS then R_scan else R_idle) (view doing (world (env s)))"
proof -
  obtain st1 u where u: "gap_settings P ps s = (st1, u)" by fastforce
  obtain w1 where w1: "u = wupd (\<lambda>_. w1) s" "view doing w1 = view doing (world (env s))"
    using gap_settings_quiet [OF u] by (auto simp: quiet_def)
  show ?thesis
  proof (cases "st1 = SUCCESS")
    case True
    then have g: "gap_do P 7 0 (GAPRole_CentralStartDiscovery active) u = (st, t)"
      using assms(1) by (simp add: start_scan_def u)
    have "doing (dg_gap (world (env u))) = R_idle" using w1 assms(2) by (auto simp: view_def Let_def)
    then obtain x where x: "quiet doing (wupd (\<lambda>w. w\<lparr>dg_gap := x\<rparr>) u) t" "doing x = (if st = SUCCESS then R_scan else R_idle)"
      using gap_start_effect [OF g] by auto
    then obtain w where "t = wupd (\<lambda>_. w) s" "view doing w = view doing (w1\<lparr>dg_gap := x\<rparr>)"
      using w1(1) by (auto simp: quiet_def)
    then show ?thesis using w1(2) x(2) by (auto simp: view_def Let_def)
  next
    case False
    then show ?thesis using assms w1 by (auto simp: start_scan_def u view_def Let_def)
  qed
qed

lemma scan_ok:
  assumes t: "ok ann sec t" and idle: "wc_state (cen t) = WC_IDLE" and u: "start_scan P ps active t = (st, u)"
    and x: "x \<in> {WC_SCAN, WC_RESOLVE}" "x = WC_RESOLVE \<longrightarrow> \<not> security_blocked (cen t)"
  shows "st = SUCCESS \<Longrightarrow> ok ann sec (set_state x tm u)" and "st \<noteq> SUCCESS \<Longrightarrow> ok ann sec u"
proof -
  note tv = ok_view [OF t]
  have r: "doing (dg_gap (world (env t))) = R_idle" and ann: "\<not> ann"
    using tv idle by (auto simp: view_def Let_def cen_def split: if_splits)
  obtain w where w: "u = wupd (\<lambda>_. w) t"
    "view doing w = set_radio (if st = SUCCESS then R_scan else R_idle) (view doing (world (env t)))"
    using scan_effect [OF u r] by blast
  show "ok ann sec u" if "st \<noteq> SUCCESS"
    unfolding w(1) by (rule ok_wupd) (use w(2) tv r ann that in \<open>auto simp: view_def Let_def\<close>)
  show "ok ann sec (set_state x tm u)" if "st = SUCCESS"
    unfolding set_state_def wc_upd_def w(1) wupd_wupd
    by (rule ok_wupd) (use w(2) tv idle ann x that in \<open>auto simp: view_def Let_def cen_def\<close>)
qed

lemma start_find_ok:
  assumes t: "ok ann sec t"
  shows "ok ann sec (snd (rb_start_find P duration t))"
proof (cases "\<not> radio_ready (cen t) \<or> radio_faulted (cen t) \<or> recovering (cen t) \<or> wc_state (cen t) \<noteq> WC_IDLE")
  case True
  then show ?thesis using t by (auto simp: rb_start_find_def)
next
  case False
  let ?ticks = "min 65535 (unat duration * 8 div 5)"
  define u where "u = wc_upd (\<lambda>c. c\<lparr>wc_candidates := []\<rparr>) t"
  have u: "ok ann sec u" unfolding u_def
    by (rule ok_wc_upd) (use ok_view [OF t] in \<open>auto simp: view_def Let_def split: if_splits\<close>)
  obtain st v where v: "start_scan P [(2, of_nat ?ticks), (5, 36), (6, 18)] True u = (st, v)" by fastforce
  have idle: "wc_state (cen u) = WC_IDLE" using False by (simp add: u_def)
  show ?thesis
    using False scan_ok [OF u idle v, of WC_SCAN] ok_quiet [OF _ message_quiet]
    unfolding rb_start_find_def Let_def u_def [symmetric] by (simp add: v)
qed

lemma stop_find_ok: "ok ann sec t \<Longrightarrow> ok ann sec (rb_stop_find P t)"
proof -
  assume t: "ok ann sec t"
  have "ok ann False (wc_upd (\<lambda>c. c\<lparr>wc_next := NEXT_NONE\<rparr>) t)"
    by (rule ok_wc_upd) (use ok_view [OF t] in \<open>auto simp: view_def Let_def split: if_splits\<close>)
  then show ?thesis using t stop_scan_ok by (simp add: rb_stop_find_def)
qed

section \<open>Pairing\<close>

lemma pair_check_quiet: "pair_check P cand s = (status, t) \<Longrightarrow> quiet doing s t"
  unfolding pair_check_def Let_def
  by (auto split: prod.splits if_splits intro: quiet_trans dest!: bond_count_quiet board_get_quiet [where doing = doing])

lemma pair_check_idle:
  "pair_check P cand s = (RBP_STATUS_OK, t) \<Longrightarrow> wc_state (cen s) \<in> {WC_IDLE, WC_SCAN_STOPPING}"
  by (auto simp: pair_check_def Let_def split: if_splits)

lemma pair_begin_ok:
  assumes t: "ok ann sec t"
  shows "ok ann sec (rb_pair_begin P cand t)"
proof -
  obtain status u where u: "pair_check P cand t = (status, u)" by fastforce
  note q = pair_check_quiet [OF u]
  have au: "ok ann sec u" by (rule ok_quiet [OF t q])
  define d where "d = wc_candidates (cen u) ! (unat cand - 1)"
  define v where "v = wc_upd (\<lambda>c. c\<lparr>pair_pending := True, security_blocked := False, target_addr := cd_addr d,
      target_type := cd_type d\<rparr>) u"
  have av: "ok ann sec v" unfolding v_def
    by (rule ok_wc_upd) (use ok_view [OF au] in \<open>auto simp: view_def Let_def split: if_splits\<close>)
  have "ok ann sec (wc_upd (\<lambda>c. c\<lparr>wc_next := NEXT_PAIR\<rparr>) v)" if "wc_state (cen v) = WC_SCAN_STOPPING"
    by (rule ok_wc_upd)
      (use ok_view [OF av] that in \<open>auto simp: view_def Let_def cen_def v_def wc_upd_def split: if_splits\<close>)
  moreover have "ok ann sec (begin_link P (cd_addr d) (cd_type d) v)"
    by (rule begin_link_ok [OF av]) (simp add: v_def)
  ultimately show ?thesis
    using tell_ok [OF au] unfolding rb_pair_begin_def Let_def u prod.case d_def [symmetric] v_def [symmetric] by simp
qed

lemma passcode_rsp_ok: "ok ann sec t \<Longrightarrow> ok ann sec (passcode_rsp P phase h verdict key t)"
  unfolding passcode_rsp_def
  by (auto split: prod.split intro!: fail_pair_sdk_ok intro: gap_other_ok)

lemma pair_reply_ok: "ok ann sec t \<Longrightarrow> ok ann sec (rb_pair_reply P accept key t)"
  unfolding rb_pair_reply_def Let_def by (auto intro!: passcode_rsp_ok wc_upd_ok)

lemma forget_ok: "ok ann sec t \<Longrightarrow> ok ann sec (rb_forget_peer P t)"
  unfolding rb_forget_peer_def
  by (auto split: prod.split intro!: tell_ok disconnect_ok recovery_ok
      intro: ok_quiet dest!: board_get_quiet [where doing = doing])

section \<open>Connecting\<close>

lemma connect_peer_ok:
  assumes t: "ok ann sec t"
  shows "ok ann sec (rb_connect_peer P t)"
proof (cases "\<not> radio_ready (cen t) \<or> radio_faulted (cen t) \<or> security_blocked (cen t) \<or> recovering (cen t) \<or> wc_state (cen t) \<noteq> WC_IDLE")
  case True
  then show ?thesis using t by (simp add: rb_connect_peer_def)
next
  case False
  obtain k u where u: "known_identity P t = (k, u)" by fastforce
  note q = known_identity_quiet [OF u]
  have au: "ok ann sec u" by (rule ok_quiet [OF t q])
  obtain flags v where v: "board_get (board_hid_flags_load (cp_eeprom P)) u = (flags, v)" by fastforce
  have q': "quiet doing t v" by (rule quiet_trans [OF q board_get_quiet [OF v]])
  have av: "ok ann sec v" by (rule ok_quiet [OF t q'])
  have idle: "wc_state (cen u) = WC_IDLE" "wc_state (cen v) = WC_IDLE" "\<not> security_blocked (cen v)"
    using quiet_cen [OF q] quiet_cen [OF q'] False by auto
  have "ok ann sec (wc_upd (\<lambda>c. c\<lparr>security_blocked := True\<rparr>) u)"
    by (rule ok_wc_upd) (use ok_view [OF au] idle in \<open>auto simp: view_def Let_def cen_def split: if_splits\<close>)
  then have lost: "ok ann sec (tell_link P RBP_LINK_ERROR (link_message P m (wc_upd (\<lambda>c. c\<lparr>security_blocked := True\<rparr>) u)))" for m
    by (intro plain_ok)
  let ?int = "if flags \<le> 3 \<and> flags AND 2 \<noteq> 0 then 48 else 96"
  obtain st w where w: "start_scan P [(2, 0), (5, ?int), (6, 48)] False v = (st, w)" by fastforce
  have "ok ann sec (tell_link P RBP_LINK_CONNECTING (set_state WC_RESOLVE 0 w))" if "st = SUCCESS"
    by (intro tell_link_ok scan_ok(1) [OF av idle(2) w _ _ that]) (use idle in auto)
  moreover have "ok ann sec (link_message P m (disconnected_retry P False w))" if "st \<noteq> SUCCESS" for m
    by (intro plain_ok retry_ok scan_ok(2) [OF av idle(2) w _ _ that, of WC_SCAN]) auto
  ultimately show ?thesis
    using False lost unfolding rb_connect_peer_def Let_def u prod.case v w by simp
qed

lemma voice_stop_ok: "ok ann sec t \<Longrightarrow> ok ann sec (rb_voice_stop P t)"
  unfolding rb_voice_stop_def by (rule adapter.mic_stop_held)

lemma voice_start_ok: "ok ann sec t \<Longrightarrow> ok ann sec (snd (rb_voice_start P t))"
  unfolding rb_voice_start_def by (rule adapter.mic_start_held)

end

end
