(* ===== verification/Central_Events.thy ===== *)
theory Central_Events
  imports Central_Backend
begin

text \<open>
  What reaches the connection manager from the library keeps it in step with the radio: the events of the GAP role, which
  report that a procedure of the radio has ended, those of the bond manager, the messages of the GATT client, and the
  periodic tasks.
\<close>

section \<open>What an event says of the radio\<close>

text \<open>
  The radio after an event, if it can occur: only a connection attempt leads to a link. The end of a procedure that is not
  running, or of another link, changes nothing.
\<close>

fun lands :: "gap_event \<Rightarrow> radio \<Rightarrow> radio option" where
  "lands (GAP_DEVICE_DISCOVERY st) r = Some (if r = R_scan then R_idle else r)"
| "lands (GAP_LINK_TERMINATED h reason) r = Some (if r = R_link h then R_idle else r)"
| "lands (GAP_LINK_ESTABLISHED st h) r =
     (if st \<noteq> SUCCESS then Some (if r = R_connect then R_idle else r)
      else case r of R_connect \<Rightarrow> if h = GAP_CONNHANDLE_INIT then None else Some (R_link h)
        | R_link h' \<Rightarrow> Some (R_link h') | _ \<Rightarrow> None)"
| "lands e r = Some r"

section \<open>The messages of the client\<close>

locale host_keeps =
  fixes H :: "('s, 'k) gatt_host" and Q :: "'s \<Rightarrow> bool"
  assumes upd: "Q s \<Longrightarrow> Q (gh_upd H f s)" and emit: "Q s \<Longrightarrow> Q (gh_emit H e s)"
begin

lemma emits_keep:
  "Q s \<Longrightarrow> Q (bearer_failed H st s)" "Q s \<Longrightarrow> Q (emit_done H s)" "Q s \<Longrightarrow> Q (emit_error H st s)"
  "Q s \<Longrightarrow> Q (emit_free H e s)" "Q s \<Longrightarrow> Q (discovery_error H st s)"
  by (simp_all add: bearer_failed_def emit_done_def emit_error_def emit_free_def discovery_error_def upd emit)

lemma batch_keep: "Q s \<Longrightarrow> Q (snd (emit_batch H old es s))"
  by (induction es arbitrary: s) (simp_all add: Let_def emit)

lemma batch_kept: "emit_batch H old es s = (b, t) \<Longrightarrow> Q s \<Longrightarrow> Q t"
  using batch_keep [of s old es] by simp

lemma batches_keep:
  "Q s \<Longrightarrow> Q (case emit_batch H old es s of (go_on, s) \<Rightarrow> if go_on then emit_done H s else s)"
  "Q s \<Longrightarrow> Q (case emit_batch H old es s of (go_on, s) \<Rightarrow> if go_on \<and> c then emit_done H s else s)"
  "Q s \<Longrightarrow> Q (case emit_batch H old es s of (go_on, s) \<Rightarrow> s)"
  using batch_kept by (auto split: prod.split intro!: emits_keep)

lemma rsps_keep:
  assumes "Q s"
  shows "Q (rsp_mtu H old body s)" "Q (rsp_service H old c body s)" "Q (rsp_chars H old c body s)" "Q (rsp_descs H old c body s)"
    "Q (rsp_read H body s)" "Q (rsp_read_long H c body s)" "Q (rsp_write H old body s)"
  unfolding rsp_mtu_def rsp_service_def rsp_chars_def rsp_descs_def rsp_read_def rsp_read_long_def rsp_write_def
  using assms
  by (auto simp: Let_def simp del: emit_batch.simps intro!: batches_keep emits_keep upd emit split: att_msg.split option.split)

lemma response_keep: "Q s \<Longrightarrow> Q (on_response H status body s)"
  unfolding on_response_def Let_def by (auto intro: emits_keep rsps_keep split: gop.split)

lemma error_rsp_keep: "on_error_rsp H status body s = (b, t) \<Longrightarrow> Q s \<Longrightarrow> Q t"
  unfolding on_error_rsp_def Let_def by (auto split: att_msg.splits if_splits intro!: emits_keep upd)

lemma value_keep: "Q s \<Longrightarrow> Q (on_value H ind h len val status s)"
  unfolding on_value_def Let_def by (auto intro!: emits_keep upd emit split: prod.split)

lemma on_msg_keep:
  assumes "Q s"
  shows "Q (wch_gatt_on_msg H m s)"
proof -
  define t where "t = (if gm_status m \<noteq> SUCCESS \<and> gm_status m \<noteq> bleProcedureComplete
      then gh_upd H (gatt_log RBP_FAULT_GATT_EVENT (ucast (gm_method (gm_body m))) (ucast (gm_status m))
        (ucast (gop_code (cur_op (gh_get H s))))) s else s)"
  have t: "Q t" using assms by (simp add: t_def upd)
  obtain b u where u: "on_error_rsp H (gm_status m) (gm_body m) t = (b, u)" by fastforce
  have "Q u" by (rule error_rsp_keep [OF u t])
  then show ?thesis
    using t unfolding wch_gatt_on_msg_def Let_def t_def [symmetric] u prod.case
    by (simp add: emits_keep value_keep response_keep split: att_msg.split)
qed

end

context dongle_world
begin

abbreviation "fine \<equiv> ok False True"

definition landed :: "radio \<Rightarrow> ('k, 'w, 'x, 'v) sys \<Rightarrow> ('k, 'w, 'x, 'v) sys \<Rightarrow> bool" where
  "landed r s t \<longleftrightarrow> fine s \<and> (\<exists>w. t = wupd (\<lambda>_. w) s \<and> view doing w = set_radio r (view doing (world (env s))))"

lemma landed_gap: "fine s \<Longrightarrow> landed (doing x) s (wupd (\<lambda>w. w\<lparr>dg_gap := x\<rparr>) s)"
  unfolding landed_def
  by (intro conjI exI [of _ "(world (env s))\<lparr>dg_gap := x\<rparr>"]) (simp_all add: wupd_def cupd_def view_def Let_def)

lemma landed_quiet: "landed r s t \<Longrightarrow> quiet doing t u \<Longrightarrow> landed r s u"
  by (auto simp: landed_def quiet_def)

lemma landed_view: "landed r s t \<Longrightarrow> view doing (world (env t)) = set_radio r (view doing (world (env s)))"
  by (auto simp: landed_def)

lemma landed_upd:
  assumes "landed r s t" and "view_ok ann sec (view doing (f (world (env t))))"
  shows "ok ann sec (wupd f t)"
proof -
  obtain w where w: "t = wupd (\<lambda>_. w) s" and s: "fine s" using assms(1) by (auto simp: landed_def)
  show ?thesis unfolding w wupd_wupd by (rule ok_wupd) (use assms(2) w in simp)
qed

lemma landed_same:
  assumes "landed r s t" and "doing (dg_gap (world (env s))) = r"
  shows "ok False True t"
proof -
  have "set_radio r (view doing (world (env s))) = view doing (world (env s))" using assms(2) by (simp add: view_def Let_def)
  then show ?thesis
    using assms(1) ok_quiet [of False True s t] by (auto simp: landed_def quiet_def)
qed

lemma landed_cen: "landed r s t \<Longrightarrow> wc_state (cen t) = wc_state (cen s) \<and> wc_conn (cen t) = wc_conn (cen s)
    \<and> wc_next (cen t) = wc_next (cen s) \<and> security_blocked (cen t) = security_blocked (cen s)"
  by (drule landed_view) (simp add: view_def Let_def cen_def)

lemma fine_radio: "fine s \<Longrightarrow> doing (dg_gap (world (env s))) = wants (wc_state (cen s)) (wc_conn (cen s))"
  by (drule ok_view) (simp add: view_def Let_def cen_def)

lemma fine_conn: "fine s \<Longrightarrow> wc_conn (cen s) = GAP_CONNHANDLE_INIT \<longleftrightarrow> wc_state (cen s) \<notin> {WC_CONNECTED, WC_DISCONNECTING}"
  by (drule ok_view) (simp add: view_def Let_def cen_def)

lemma fine_next: "fine s \<Longrightarrow> wc_next (cen s) = NEXT_NONE \<or> (wc_state (cen s) = WC_SCAN_STOPPING \<and> \<not> security_blocked (cen s))"
  by (drule ok_view) (auto simp: view_def Let_def cen_def)

section \<open>Events of the GAP role\<close>

lemma landed_idle:
  assumes "landed R_idle s t" and "wc_conn (cen s) = GAP_CONNHANDLE_INIT" and "wc_next (cen s) = NEXT_NONE"
  shows "ok False True (set_state WC_IDLE 0 t)"
  unfolding set_state_def wc_upd_def
  by (rule landed_upd [OF assms(1)])
    (use landed_view [OF assms(1)] assms(2,3) ok_view [of False True s] assms(1) in
      \<open>auto simp: view_def Let_def cen_def landed_def\<close>)

lemma discovery_done_ok:
  assumes l: "landed r s t" and r: "r = (if doing (dg_gap (world (env s))) = R_scan then R_idle else doing (dg_gap (world (env s))))"
  shows "ok False True (on_discovery_done P status t)"
proof -
  have s: "fine s" using l by (simp add: landed_def)
  note c = landed_cen [OF l] and v = landed_view [OF l]
  have scan: "r = R_idle" "wc_conn (cen s) = GAP_CONNHANDLE_INIT" if "wc_state (cen s) \<in> {WC_SCAN, WC_RESOLVE, WC_SCAN_STOPPING}"
    using that r fine_radio [OF s] fine_conn [OF s] by auto
  have idle: "ok False True (set_state WC_IDLE 0 t)" if "wc_state (cen s) \<in> {WC_SCAN, WC_RESOLVE}"
    using landed_idle [of s t] l scan fine_next [OF s] that by auto
  define u where "u = set_state WC_IDLE 0 (wc_upd (\<lambda>c. c\<lparr>wc_next := NEXT_NONE\<rparr>) t)"
  have stopped: "ok False True u" if "wc_state (cen s) = WC_SCAN_STOPPING"
    unfolding u_def set_state_def wc_upd_def wupd_wupd
    by (rule landed_upd [OF l]) (use v scan that ok_view [OF s] in \<open>auto simp: view_def Let_def cen_def\<close>)
  have free: "\<not> security_blocked (cen u)" if "wc_next (cen t) \<noteq> NEXT_NONE"
    using that c fine_next [OF s] by (simp add: u_def cen_set_state)
  have rest: "ok False True t" if "wc_state (cen s) \<notin> {WC_SCAN, WC_RESOLVE, WC_SCAN_STOPPING}"
    by (rule landed_same [OF l]) (use that r fine_radio [OF s] in \<open>cases "wc_state (cen s)"; auto\<close>)
  show ?thesis
    using idle stopped free rest c
    unfolding on_discovery_done_def Let_def u_def [symmetric]
    by (auto split: wc_state.split intro!: fail_pair_sdk_ok radio_fault_ok begin_link_ok retry_ok tell_ok)
qed

lemma establish_failed_ok:
  assumes l: "landed r s t" and r: "r = (if doing (dg_gap (world (env s))) = R_connect then R_idle else doing (dg_gap (world (env s))))"
  shows "ok False True (on_establish_failed P status t)"
proof (cases "wc_state (cen s) \<in> {WC_CONNECTING, WC_CONNECT_CANCEL}")
  case True
  have s: "fine s" using l by (simp add: landed_def)
  have "ok False True (set_state WC_IDLE 0 t)"
    by (rule landed_idle) (use True l r fine_radio [OF s] fine_conn [OF s] fine_next [OF s] in auto)
  then show ?thesis
    using True landed_cen [OF l] unfolding on_establish_failed_def Let_def
    by (auto intro!: retry_ok ok_quiet [OF _ record_gap_quiet] fail_pair_sdk_ok)
next
  case False
  have s: "fine s" using l by (simp add: landed_def)
  have "doing (dg_gap (world (env s))) = r" using False r fine_radio [OF s] by (cases "wc_state (cen s)") auto
  then show ?thesis using landed_same [OF l] False landed_cen [OF l] by (simp add: on_establish_failed_def Let_def)
qed

lemma established_ok:
  assumes l: "landed r s t" and r: "lands (GAP_LINK_ESTABLISHED SUCCESS h) (doing (dg_gap (world (env s)))) = Some r"
  shows "ok False True (on_established P h t)"
proof (cases "wc_conn (cen s) = GAP_CONNHANDLE_INIT")
  case False
  have s: "fine s" using l by (simp add: landed_def)
  have "doing (dg_gap (world (env s))) = r" using False r fine_radio [OF s] fine_conn [OF s] by (auto split: if_splits)
  then show ?thesis using landed_same [OF l] False landed_cen [OF l] by (simp add: on_established_def Let_def)
next
  case True
  have s: "fine s" using l by (simp add: landed_def)
  have c: "wc_state (cen s) \<in> {WC_CONNECTING, WC_CONNECT_CANCEL}" "r = R_link h" "h \<noteq> GAP_CONNHANDLE_INIT"
    using True r fine_radio [OF s] fine_conn [OF s] by (cases "wc_state (cen s)"; auto split: if_splits)+
  define u where "u = wc_upd (\<lambda>c. c\<lparr>adapter_started := False\<rparr>) (set_state WC_CONNECTED
      (if pair_pending (cen t) then 60000 else 30000) (wc_upd (\<lambda>c. c\<lparr>wc_conn := h, link_established_ms := now_ms t\<rparr>) t))"
  have u: "ok False True u" unfolding u_def set_state_def wc_upd_def wupd_wupd
    by (rule landed_upd [OF l])
      (use landed_view [OF l] c ok_view [OF s] fine_next [OF s] in \<open>auto simp: view_def Let_def cen_def\<close>)
  have linked: "ok False True (gatt_upd (wch_gatt_set_conn h) u)" by (rule ok_quiet [OF u gatt_upd_quiet])
  show ?thesis
    using True landed_cen [OF l] u linked unfolding on_established_def Let_def u_def [symmetric]
    by (auto split: prod.split intro!: disconnect_ok radio_fault_ok tell_link_ok intro: gap_other_ok)
qed

lemma terminated_ok:
  assumes l: "landed r s t" and r: "r = (if doing (dg_gap (world (env s))) = R_link h then R_idle else doing (dg_gap (world (env s))))"
  shows "ok False True (on_terminated P h reason t)"
proof (cases "wc_conn (cen s) = GAP_CONNHANDLE_INIT \<or> h \<noteq> wc_conn (cen s)")
  case True
  have s: "fine s" using l by (simp add: landed_def)
  have "doing (dg_gap (world (env s))) = r" using True r fine_radio [OF s] fine_conn [OF s] by (cases "wc_state (cen s)") auto
  then show ?thesis using landed_same [OF l] True landed_cen [OF l] by (simp add: on_terminated_def Let_def)
next
  case False
  have s: "fine s" using l by (simp add: landed_def)
  have st: "wc_state (cen s) \<in> {WC_CONNECTED, WC_DISCONNECTING}" "r = R_idle" using False r fine_radio [OF s] fine_conn [OF s] by auto
  define t1 where "t1 = record_gap 65 reason (link_age t OR (if adapter_started (cen t) then 0x80000000 else 0)
      OR (if ad_ready (env t) then 0x40000000 else 0)) t"
  have l1: "landed r s t1" unfolding t1_def by (rule landed_quiet [OF l record_gap_quiet])
  define u where "u = wc_upd (\<lambda>c. c\<lparr>adapter_started := False, passkey_pending := False\<rparr>) (set_state WC_IDLE 0
      (gatt_upd (wch_gatt_set_conn GAP_CONNHANDLE_INIT) (wc_upd (\<lambda>c. c\<lparr>wc_conn := GAP_CONNHANDLE_INIT\<rparr>) t1)))"
  have "ok False True u" unfolding u_def set_state_def wc_upd_def gatt_upd_def wupd_wupd
    by (rule landed_upd [OF l1])
      (use landed_view [OF l1] st ok_view [OF s] fine_next [OF s] in \<open>auto simp: view_def Let_def cen_def\<close>)
  then show ?thesis
    using False landed_cen [OF l] unfolding on_terminated_def Let_def t1_def [symmetric] u_def [symmetric]
    by (auto intro!: retry_ok fail_pair_ok drop_link_ok)
qed

lemma init_done_ok: "ok ann sec t \<Longrightarrow> ok ann sec (on_init_done P status t)"
  unfolding on_init_done_def Let_def
  by (auto split: prod.split intro!: radio_fault_ok wc_upd_ok elim!: gap_other_ok)

lemma resolve_ok:
  assumes t: "ok False True t"
  shows "ok False True (resolve_advertisement P addr typ et t)"
proof -
  define u where "u = wc_upd (\<lambda>c. c\<lparr>target_addr := addr, target_type := typ, wc_next := NEXT_RECONNECT\<rparr>) t"
  have u: "ok False False u" unfolding u_def
    by (rule ok_wc_upd) (use ok_view [OF t] in \<open>auto simp: view_def Let_def\<close>)
  have "ok False True (stop_scan P u)" if "wc_state (cen t) = WC_RESOLVE"
    by (rule stop_scan_ok [OF u])
      (use that ok_view [OF t] in \<open>auto simp: u_def view_def Let_def cen_def wc_upd_def\<close>)
  then show ?thesis
    using t unfolding resolve_advertisement_def Let_def u_def [symmetric] by auto
qed

lemma found_ok:
  assumes t: "ok ann sec t"
  shows "ok ann sec (on_found P info v t)"
proof -
  have "ok ann sec (wc_upd (\<lambda>c. c\<lparr>wc_candidates := wc_candidates (cen t) @ [d]\<rparr>) t)" if "length (wc_candidates (cen t)) \<noteq> MAX_CAND" for d
    by (rule ok_wc_upd) (use ok_view [OF t] that in \<open>auto simp: view_def Let_def cen_def split: if_splits\<close>)
  then show ?thesis using t unfolding on_found_def Let_def by (auto intro!: tell_ok)
qed

lemma device_ok: "ok False True t \<Longrightarrow> ok False True (on_device P info t)"
  unfolding on_device_def by (auto intro!: resolve_ok found_ok split: option.split)

lemma event_ok:
  assumes s: "fine s" and x: "lands e (doing (dg_gap (world (env s)))) = Some (doing x)"
  shows "ok False True (wc_event_cb P e (wupd (\<lambda>w. w\<lparr>dg_gap := x\<rparr>) s))"
proof -
  obtain status opcode where h: "header_status e = (status, opcode)" by fastforce
  define t where "t = (if status \<noteq> SUCCESS \<and> status \<noteq> bleGAPUserCanceled
      then record_gap 64 status opcode (wupd (\<lambda>w. w\<lparr>dg_gap := x\<rparr>) s) else wupd (\<lambda>w. w\<lparr>dg_gap := x\<rparr>) s)"
  have l: "landed (doing x) s t"
    unfolding t_def using landed_gap [OF s, of x] landed_quiet [OF _ record_gap_quiet] by auto
  have same: "ok False True t" if "lands e (doing (dg_gap (world (env s)))) = Some (doing (dg_gap (world (env s))))"
    by (rule landed_same [OF l]) (use x that in simp)
  have e: "wc_event_cb P e (wupd (\<lambda>w. w\<lparr>dg_gap := x\<rparr>) s) = (case e of
        GAP_DEVICE_INIT_DONE st \<Rightarrow> on_init_done P st t
      | GAP_LINK_ESTABLISHED st h \<Rightarrow> if st = SUCCESS then on_established P h t else on_establish_failed P st t
      | GAP_LINK_TERMINATED h reason \<Rightarrow> on_terminated P h reason t
      | GAP_LINK_PARAM_UPDATE h st \<Rightarrow> if ours h t \<and> st \<noteq> SUCCESS then record_gap 66 st 0 t else t
      | GAP_PHY_UPDATE h st tx rx \<Rightarrow>
          if ours h t \<and> st \<noteq> SUCCESS then record_gap 67 st (ucast tx OR push_bit 8 (ucast rx)) t else t
      | GAP_DEVICE_INFO info \<Rightarrow> on_device P info t
      | GAP_DIRECT_DEVICE_INFO addr typ et \<Rightarrow> resolve_advertisement P addr typ et t
      | GAP_DEVICE_DISCOVERY st \<Rightarrow> on_discovery_done P st t)"
    by (simp add: wc_event_cb_def h t_def [symmetric])
  show ?thesis
    using x same unfolding e
    by (cases e) (auto intro!: init_done_ok device_ok resolve_ok ok_quiet [OF _ record_gap_quiet]
        discovery_done_ok [OF l] terminated_ok [OF l] establish_failed_ok [OF l] established_ok [OF l])
qed

section \<open>Events of the bond manager\<close>

lemma passcode_ok:
  assumes t: "ok ann sec t"
  shows "ok ann sec (wc_passcode_cb P h i out t)"
proof -
  obtain key x where x: "tmos_rand (cp_gap P) (dg_gap (world (env t))) = (key, x)" by fastforce
  have "ok ann sec (wupd (\<lambda>w. w\<lparr>dg_gap := x\<rparr>) t)"
    by (rule ok_quiet [OF t quietI]) (use drawn [OF x] in \<open>simp add: view_def Let_def\<close>)
  then show ?thesis
    using t unfolding wc_passcode_cb_def Let_def x by (auto intro!: passcode_rsp_ok tell_ok wc_upd_ok)
qed

lemma block_ok:
  assumes t: "ok ann sec t"
  shows "ok ann sec (block_security P why t)"
proof -
  have "ok ann False (wc_upd (\<lambda>c. c\<lparr>security_blocked := True\<rparr>) t)"
    by (rule ok_wc_upd) (use ok_view [OF t] in \<open>auto simp: view_def Let_def split: if_splits\<close>)
  then show ?thesis unfolding block_security_def by (intro disconnect_ok ok_quiet [OF _ message_quiet])
qed

lemma pair_state_ok:
  assumes "ok ann sec t"
  shows "ok ann sec (wc_pair_state_cb P h state status t)"
proof -
  define u where "u = (if status \<noteq> SUCCESS then record_gap (32 + ucast state) status 0 t else t)"
  have u: "ok ann sec u" unfolding u_def using assms ok_quiet [OF _ record_gap_quiet] by auto
  show ?thesis
    unfolding wc_pair_state_cb_def Let_def u_def [symmetric]
    using u by (auto intro!: block_ok tell_link_ok fail_pair_sdk_ok fail_pair_ok wc_upd_ok)
qed

section \<open>The periodic task\<close>

lemma start_adapter_fine:
  assumes "ok ann sec s"
  shows "ok ann sec (start_encrypted_adapter P s)"
proof -
  define u where "u = wc_upd (\<lambda>c. c\<lparr>adapter_started := True, cache_synced := False\<rparr>) s"
  have u: "ok ann sec u" unfolding u_def by (rule ok_quiet [OF assms wc_upd_quiet]) simp
  obtain peer v where v: "(if pair_pending (cen s) then (0, u) else board_get (board_peer_counter (cp_eeprom P)) u) = (peer, v)"
    by fastforce
  have "ok ann sec v" using v u ok_quiet [OF u board_get_quiet] by (auto split: if_splits)
  then show ?thesis
    using assms adapter.start_bound_held
    unfolding start_encrypted_adapter_def Let_def u_def [symmetric] v by auto
qed

lemma poll_timeout_ok: "ok ann sec t \<Longrightarrow> ok ann sec (poll_timeout P t)"
  unfolding poll_timeout_def Let_def by (auto intro!: fail_pair_ok radio_fault_ok)

lemma forget_failed_ok: "ok ann sec t \<Longrightarrow> ok ann sec (forget_failed P t)"
  unfolding forget_failed_def Let_def by (auto intro!: tell_ok wc_upd_ok)

lemma erased_ok:
  assumes "ok ann sec t"
  shows "ok ann sec (bonds_erased P t)"
proof -
  obtain b u where u: "board_get (store_clear (cp_eeprom P)) t = (b, u)" by fastforce
  have au: "ok ann sec u" by (rule ok_quiet [OF assms board_get_quiet [OF u]])
  define v where "v = (if delete_report (cen t) then tell P (C_forget_done RBP_STATUS_OK False) t
      else case (b, u) of
          (True, s) \<Rightarrow> tell_link P RBP_LINK_UNBOUND (tell P (C_peer_changed peer_empty) s)
        | (False, s) \<Rightarrow> tell_link P RBP_LINK_ERROR (link_message P ''EEPROM recovery commit failed'' s))"
  have v: "ok ann sec v" unfolding v_def using assms au by (auto split: bool.split intro!: plain_ok)
  show ?thesis
    unfolding bonds_erased_def u v_def [symmetric]
    by (rule ok_wc_upd) (use ok_view [OF v] in \<open>auto simp: view_def Let_def split: if_splits\<close>)
qed

lemma recovery_poll_ok:
  assumes "ok ann sec t"
  shows "ok ann sec (poll_recovery P t)"
proof -
  define u where "u = (if recovery_deadline (cen t) = 0 then wc_upd (\<lambda>c. c\<lparr>recovery_deadline := now_ms t + 5000\<rparr>) t else t)"
  have u: "ok ann sec u" unfolding u_def using assms by (auto intro!: wc_upd_ok)
  show ?thesis
    using assms u unfolding poll_recovery_def Let_def u_def [symmetric]
    by (auto split: prod.split intro!: forget_failed_ok plain_ok wc_upd_ok erased_ok
        intro: gap_other_ok ok_quiet [OF _ bond_count_quiet])
qed

lemma poll_connected_fine:
  assumes "fine s"
  shows "fine (poll_connected P s)"
proof -
  define t where "t = start_encrypted_adapter P s"
  have t: "ok False True t" unfolding t_def by (intro start_adapter_fine assms)
  define u where "u = (if pair_pending (cen t) \<and> bond_ready (cen t) \<and> ad_ready (env t) then finish_pair P t else t)"
  have u: "ok False True u" unfolding u_def using t finish_pair_ok by auto
  define v where "v = (if (\<not> adapter_started (cen u) \<or> (pair_pending (cen u) \<and> \<not> bond_ready (cen u)))
                  \<and> expired (wc_deadline (cen u)) u
               then rb_disconnect P (fail_pair P RBP_STATUS_TIMEOUT
                      (if pair_pending (cen u) then u
                       else link_message P ''bond encryption timed out; retrying after disconnect'' u))
               else u)"
  have v: "ok False True v" unfolding v_def using u by (auto intro!: fail_pair_ok plain_ok)
  have w: "ok False True (wc_upd (\<lambda>c. c\<lparr>wc_backoff := 0, early_retries := 0\<rparr>) v)"
    by (rule ok_wc_upd) (use ok_view [OF v] in \<open>auto simp: view_def Let_def split: if_splits\<close>)
  show ?thesis
    using v w unfolding poll_connected_def Let_def t_def [symmetric] u_def [symmetric] v_def [symmetric]
    by (auto intro!: ok_quiet [OF _ sync_cache_quiet] wc_upd_ok)
qed

lemma poll_fine:
  assumes "fine s"
  shows "fine (poll P s)"
proof -
  define t where "t = poll_timeout P s"
  have t: "ok False True t" unfolding t_def by (rule poll_timeout_ok [OF assms])
  have "fine (poll_connected P t)" by (rule poll_connected_fine [OF t])
  then show ?thesis
    unfolding poll_def Let_def t_def [symmetric]
    using assms t radio_fault_ok [OF assms] recovery_poll_ok [OF t]
      connect_peer_ok [OF t] disconnect_ok [OF tell_ok [OF t]]
      disconnect_ok [OF fail_pair_ok [OF t]]
    by simp
qed

end

sublocale dongle_world \<subseteq> client: host_keeps "gatt_host_of P" "held (radio_ok doing False True)"
proof
  fix s :: "('k, 'w, 'x, 'v) sys" and f e
  assume s: "fine s"
  show "fine (gh_upd (gatt_host_of P) f s)" using ok_quiet [OF s gatt_upd_quiet] by (simp add: gatt_host_of_def)
  show "fine (gh_emit (gatt_host_of P) e s)"
    using adapter.on_gatt_held [OF s] by (simp add: gatt_host_of_def)
qed

context dongle_world
begin

lemma message_fine:
  assumes "fine s"
  shows "fine (on_message P msg s)"
proof -
  have "fine (tell P C_flush_output t)" if "fine t" for t
    using that by (intro tell_ok)
  then show ?thesis
    using assms unfolding on_message_def Let_def
    by (auto split: option.split intro!: client.on_msg_keep start_adapter_fine ok_quiet [OF _ gatt_upd_quiet])
qed

lemma gap_note_quiet: "starts req = None \<Longrightarrow> quiet doing s (wupd (\<lambda>w. w\<lparr>dg_gap := snd (gap_call (cp_gap P) req (dg_gap w))\<rparr>) s)"
  by (rule quietI) (use others [of req] in \<open>auto simp: view_def Let_def prod_eq_iff\<close>)

lemma timer_fine: "fine s \<Longrightarrow> fine (restart_timer P s)"
  unfolding restart_timer_def by (rule ok_quiet [OF _ gap_note_quiet]) simp_all

lemma process_fine:
  assumes "fine s"
  shows "fine (snd (process P evs received s))"
proof -
  obtain evs1 t where t: "(if evs AND SYS_EVENT_MSG \<noteq> 0
      then (evs XOR SYS_EVENT_MSG, case received of None \<Rightarrow> s | Some m \<Rightarrow> on_message P m s) else (evs, s)) = (evs1, t)"
    by fastforce
  have ft: "fine t" using t assms message_fine by (auto split: option.splits if_splits)
  define u where "u = (if radio_faulted (cen t) then t
      else let (st, s) = gap_do P 6 0 GAPRole_CentralStartDevice t
           in if st \<noteq> SUCCESS then radio_fault P ''BLE start rejected'' s else s)"
  have "ok False True u"
    unfolding u_def using ft by (auto split: prod.split intro!: radio_fault_ok elim: gap_other_ok)
  then have fu: "fine (restart_timer P u)" by (rule timer_fine)
  obtain evs2 v where v: "(if evs1 AND WC_START_EVT \<noteq> 0 then (evs1 XOR WC_START_EVT, restart_timer P u) else (evs1, t)) = (evs2, v)"
    by fastforce
  have fv: "fine v" using v ft fu by (auto split: if_splits)
  then have "fine (restart_timer P (poll P v))" by (intro timer_fine poll_fine)
  then show ?thesis
    using fv unfolding process_def t Let_def prod.case v [unfolded u_def Let_def] by simp
qed

end

end
