(* ===== verification/Central_World.thy ===== *)
theory Central_World
  imports Central_Events
begin

text \<open>
  The whole firmware in its surroundings. The library answers at will and remembers what the radio does; a request to
  start a procedure while another one runs is remembered for ever (\<open>R_clash\<close>). The server answers at will: to
  each call it may respond with functions of the backend, to any depth. Both are shown to fulfil the contract of the
  connection manager, so that its invariant holds after any history.
\<close>

section \<open>Start and server task\<close>

lemma usb_get_quiet: "usb_get f s = (r, t) \<Longrightarrow> quiet doing s t"
  unfolding usb_get_def by (auto split: prod.splits intro!: quietI simp: view_def)

lemma clock_quiet: "quiet doing s (wupd (clock_step ticks) s)"
  by (rule quietI) (simp add: clock_step_def view_def Let_def)

context dongle_world
begin

lemma fault_time_fine: "fine s \<Longrightarrow> fine (set_fault_time now s)"
proof -
  assume "fine s"
  then show ?thesis
    unfolding set_fault_time_def Let_def held_engine
    by (rule ok_quiet [OF _ quietI]) (simp add: view_def Let_def)
qed

lemma srv_event_fine:
  assumes "fine s"
  shows "fine (srv_event P ticks s)"
proof -
  define t where "t = wupd (clock_step ticks) s"
  define now where "now = now_ms t"
  obtain lost u where u: "usb_get usb_cdc_take_lost (set_fault_time now t) = (lost, u)" by fastforce
  have "fine t" unfolding t_def by (rule ok_quiet [OF assms clock_quiet])
  then have "fine u" by (intro ok_quiet [OF fault_time_fine usb_get_quiet [OF u]])
  define v where "v = (if lost then tell P (C_usb_gone now) u else u)"
  have v: "fine v" unfolding v_def using \<open>fine u\<close> tell_ok by simp
  obtain data w where w: "usb_get (usb_cdc_read 64) v = (data, w)" by fastforce
  have "fine w" by (rule ok_quiet [OF v usb_get_quiet [OF w]])
  then have "fine (rc003_adapter_tick (cp_adapter P) now (tell P (C_tick now) (if data \<noteq> [] then tell P (C_usb_rx data now) w else w)))"
    by (intro adapter.tick_held tell_ok) (simp add: tell_ok)
  then show ?thesis
    unfolding srv_event_def Let_def t_def [symmetric] now_def [symmetric] u prod.case v_def [symmetric] w
    by (rule ok_quiet [OF _ quietI]) (simp add: view_def)
qed

lemma load_cache_fine:
  assumes "fine s"
  shows "fine (load_cache P s)"
proof -
  obtain peer t where t: "board_get (board_peer_counter (cp_eeprom P)) s = (peer, t)" by fastforce
  obtain data u where u: "board_get (board_cache_load (cp_eeprom P) peer BOARD_CACHE_MAX) t = (data, u)" by fastforce
  obtain b v where v: "rc003_adapter_cache_import (cp_adapter P) peer data u = (b, v)" by fastforce
  obtain b' w where w: "board_get (board_cache_save (cp_eeprom P) peer []) v = (b', w)" by fastforce
  have fu: "fine u" by (rule ok_quiet [OF ok_quiet [OF assms board_get_quiet [OF t]] board_get_quiet [OF u]])
  have fv: "fine v" using adapter.cache_import_held [OF fu, of peer data] by (simp add: v)
  have "fine w" by (rule ok_quiet [OF fv board_get_quiet [OF w]])
  then show ?thesis using fu fv unfolding load_cache_def t u v w Let_def prod.case by simp
qed

lemma setting_fine:
  assumes "fine s" and "starts req = None"
  shows "fine (faulty_setting P why stage ctx req s)"
proof -
  obtain st t where t: "gap_do P stage ctx req s = (st, t)" by fastforce
  have "ok False True t" by (rule gap_other_ok [OF t assms(2) assms(1)])
  then show ?thesis by (auto simp: faulty_setting_def t intro: radio_fault_ok)
qed

lemma settings_fine:
  assumes "\<And>p v. starts (req p v) = None" and "fine s"
  shows "fine (fold (\<lambda>(p, v). faulty_setting P why stage (ctx p) (req p v)) ps s)"
  using assms(2) by (induction ps arbitrary: s) (auto intro!: setting_fine assms(1))

lemma init_fine:
  assumes "fine s"
  shows "fine (wch_central_init P s)"
proof -
  have fault: "fine (radio_fault P why t)" if "fine t" for why t
    by (rule radio_fault_ok [OF that])
  have upd: "fine (wc_upd f t)" if "fine t" "\<And>c. wc_state (f c) = wc_state c \<and> wc_conn (f c) = wc_conn c \<and> wc_backoff (f c) = wc_backoff c
      \<and> wc_candidates (f c) = wc_candidates c \<and> security_blocked (f c) = security_blocked c \<and> wc_next (f c) = wc_next c" for f t
    by (rule ok_quiet [OF that(1) wc_upd_quiet [OF that(2)]])
  define s1 where "s1 = wc_upd (\<lambda>c. c\<lparr>wc_deadline := now_ms (load_cache P s) + CANCEL_TIMEOUT_MS\<rparr>) (load_cache P s)"
  have s1: "fine s1" unfolding s1_def by (rule upd [OF load_cache_fine [OF assms]]) simp
  define s2 where "s2 = (if task_registered (cp_gap P) (dg_gap (world (env s1))) then s1 else radio_fault P ''TMOS task registration failed'' s1)"
  have s2: "fine s2" unfolding s2_def using s1 fault by simp
  define s3 where "s3 = fold (\<lambda>(p, v). faulty_setting P ''bond configuration failed'' 3 (ucast p) (GAPBondMgr_SetParameter p [v])) init_bonding
      (fold (\<lambda>(p, v). faulty_setting P ''GAP configuration failed'' 1 (ucast p) (GAP_SetParamValue p v)) init_params s2)"
  have s3: "fine s3" unfolding s3_def by (intro settings_fine s2) simp_all
  obtain st s4 where s4: "storage P s3 = (st, s4)" by fastforce
  define s5 where "s5 = wc_upd (\<lambda>c. c\<lparr>recovering := (st = 2 \<or> st = 3), recovery_deadline := 0\<rparr>) s4"
  have s5: "fine s5" unfolding s5_def by (rule upd [OF ok_quiet [OF s3 storage_quiet [OF s4]]]) simp
  define s6 where "s6 = (if st = 255 then radio_fault P ''invalid EEPROM record; recovery required'' s5 else s5)"
  have s6: "fine s6" unfolding s6_def using s5 fault by simp
  obtain rc x where x: "gap_call (cp_gap P) GATT_InitClient (dg_gap (world (env s6))) = (rc, x)" by fastforce
  have s7: "fine (wupd (\<lambda>w. w\<lparr>dg_gap := x\<rparr>) s6)"
    by (rule ok_quiet [OF s6 quietI]) (use others [OF _ x] in \<open>simp add: view_def Let_def\<close>)
  define s8 where "s8 = (if rc \<noteq> SUCCESS then radio_fault P ''GATT initialization failed'' (wupd (\<lambda>w. w\<lparr>dg_gap := x\<rparr>) s6)
      else wupd (\<lambda>w. w\<lparr>dg_gap := x\<rparr>) s6)"
  define s9 where "s9 = wupd (\<lambda>w. w\<lparr>dg_gap := snd (gap_call (cp_gap P) GATT_RegisterForInd (dg_gap w))\<rparr>) s8"
  have s9: "fine s9" unfolding s9_def
    by (rule ok_quiet [OF _ gap_note_quiet]) (use s7 fault in \<open>auto simp: s8_def\<close>)
  have "fine (wupd (\<lambda>w. w\<lparr>dg_gap := snd (gap_call (cp_gap P) (Tmos_set_event WC_START_EVT) (dg_gap w))\<rparr>) s9)"
    by (rule ok_quiet [OF s9 gap_note_quiet]) simp
  then show ?thesis
    unfolding wch_central_init_def
    unfolding Let_def s1_def [symmetric] s2_def [symmetric] s3_def [symmetric] s4 prod.case s5_def [symmetric] s6_def [symmetric] x
      s8_def [symmetric] s9_def [symmetric]
    using s9 by simp
qed

end

section \<open>The backend, and a server that uses it\<close>

datatype backend_op =
    B_start_find u16 | B_stop_find | B_pair_begin u32 | B_pair_reply bool "u32 option" | B_pair_cancel
  | B_forget_peer | B_connect_peer | B_disconnect | B_voice_stop | B_voice_start

fun backend :: "('k, 'w, 'x, 'v) central_port \<Rightarrow> backend_op \<Rightarrow> ('k, 'w, 'x, 'v) sys \<Rightarrow> ('k, 'w, 'x, 'v) sys" where
  "backend P (B_start_find duration) s = snd (rb_start_find P duration s)"
| "backend P B_stop_find s = rb_stop_find P s"
| "backend P (B_pair_begin cand) s = rb_pair_begin P cand s"
| "backend P (B_pair_reply accept key) s = rb_pair_reply P accept key s"
| "backend P B_pair_cancel s = rb_pair_cancel P s"
| "backend P B_forget_peer s = rb_forget_peer P s"
| "backend P B_connect_peer s = rb_connect_peer P s"
| "backend P B_disconnect s = rb_disconnect P s"
| "backend P B_voice_stop s = rb_voice_stop P s"
| "backend P B_voice_start s = snd (rb_voice_start P s)"

text \<open>
  The server may respond to a call with any function of the backend. Two of its functions only store their argument
  (\<open>rbp_server_on_link_message\<close>, \<open>rbp_server_set_voice_caps\<close>) and get no response.
\<close>

fun allowed :: "server_call \<Rightarrow> bool" where
  "allowed (C_link_message _) = False"
| "allowed (C_voice_caps _) = False"
| "allowed _ = True"

text \<open>The server hears a call, and answers with what its script has for the number of calls so far.\<close>

definition hear :: "server_call \<Rightarrow> ('k, 'w, 'x, server_call list) sys \<Rightarrow> ('k, 'w, 'x, server_call list) sys" where
  "hear call = wupd (\<lambda>w. w\<lparr>dg_server := dg_server w @ [call]\<rparr>)"

definition answer :: "('k, 'w, 'x, server_call list) central_port \<Rightarrow> (nat \<Rightarrow> backend_op list) \<Rightarrow> server_call
    \<Rightarrow> ('k, 'w, 'x, server_call list) sys \<Rightarrow> ('k, 'w, 'x, server_call list) sys" where
  "answer P script call s =
     fold (backend P) (if allowed call then script (length (dg_server (world (env s)))) else []) (hear call s)"

text \<open>The functions of the backend call the server in turn: \<open>n\<close> bounds how deep.\<close>

primrec nest :: "(nat \<Rightarrow> backend_op list) \<Rightarrow> ('k, 'w, 'x, server_call list) central_port \<Rightarrow> nat \<Rightarrow> ('k, 'w, 'x, server_call list) central_port" where
  "nest script P 0 = P\<lparr>cp_adapter := (cp_adapter P)\<lparr>p_server := hear\<rparr>\<rparr>"
| "nest script P (Suc n) = P\<lparr>cp_adapter := (cp_adapter P)\<lparr>p_server := answer (nest script P n) script\<rparr>\<rparr>"

lemma nest_fields [simp]:
  "cp_gap (nest script P n) = cp_gap P" "p_gatt (cp_adapter (nest script P n)) = p_gatt (cp_adapter P)"
  by (cases n; simp)+

section \<open>The contract for any depth\<close>

context dongle_world
begin

lemma reset_ok: "ok ann sec s \<Longrightarrow> ok ann sec (rc003_adapter_init (cp_adapter P) s)"
  by (rule adapter.init_held)

lemma backend_ok: "ok ann sec t \<Longrightarrow> ok ann sec (backend P op t)"
  by (cases op) (simp_all add: start_find_ok stop_find_ok pair_begin_ok pair_reply_ok fail_pair_ok
      forget_ok connect_peer_ok disconnect_ok voice_stop_ok voice_start_ok rb_pair_cancel_def)

lemma backends_ok: "ok ann sec t \<Longrightarrow> ok ann sec (fold (backend P) ops t)"
  by (induction ops arbitrary: t) (simp_all add: backend_ok)

end

lemma hear_quiet: "quiet doing s (hear call s)"
  unfolding hear_def by (rule quietI) (simp add: view_def)

lemma answer_ok: "dongle_world P doing \<Longrightarrow> held (radio_ok doing ann sec) s \<Longrightarrow> held (radio_ok doing ann sec) (answer P script call s)"
  unfolding answer_def by (intro dongle_world.backends_ok dongle_world.ok_quiet [OF _ _ hear_quiet])

lemma hear_noted: "\<exists>v. hear call s = wupd (\<lambda>w. w\<lparr>dg_server := v\<rparr>) s"
  by (rule exI [of _ "dg_server (world (env s)) @ [call]"]) (simp add: hear_def wupd_def cupd_def)

lemma answer_noted:
  "\<exists>v. answer P script (C_link_message m) s = wupd (\<lambda>w. w\<lparr>dg_server := v\<rparr>) s"
  "\<exists>v. answer P script (C_voice_caps caps) s = wupd (\<lambda>w. w\<lparr>dg_server := v\<rparr>) s"
  by (simp_all add: answer_def hear_noted)

lemma nest_library: "radio_library P doing \<Longrightarrow> radio_library (nest script P n) doing"
  by (simp add: radio_library_def)

lemma hear_ok: "held (radio_ok doing ann sec) s \<Longrightarrow> held (radio_ok doing ann sec) (hear call s)"
  by (simp add: hear_def held_def radio_ok_def view_def)

lemma nest_world:
  assumes "radio_library P doing"
  shows "dongle_world (nest script P n) doing"
proof (induction n)
  case 0
  show ?case
    by (intro dongle_world.intro dongle_world_axioms.intro nest_library [OF assms])
      (use hear_ok hear_noted in \<open>auto simp: held_def\<close>)
next
  case (Suc n)
  show ?case
    by (intro dongle_world.intro dongle_world_axioms.intro nest_library [OF assms])
      (use answer_ok [OF Suc] answer_noted in \<open>auto simp: held_def\<close>)
qed

section \<open>The firmware\<close>

text \<open>A library, watched: what the radio does is kept beside its own state.\<close>

definition watched :: "'x gap_sdk \<Rightarrow> ('x \<times> radio) gap_sdk" where
  "watched L =
     \<lparr>gap_call = \<lambda>req (x, r). let (st, x) = gap_call L req x in
        (st, x, case starts req of None \<Rightarrow> r | Some r' \<Rightarrow> if r \<noteq> R_idle then R_clash else if st = SUCCESS then r' else R_idle),
      gap_bond_count = \<lambda>(x, r). let (st, n, x) = gap_bond_count L x in (st, n, x, r),
      snv_main_record = \<lambda>(x, r). let (st, rec, x) = snv_main_record L x in (st, rec, x, r),
      snv_dev_irk = \<lambda>(x, r). let (st, irk, x) = snv_dev_irk L x in (st, irk, x, r),
      GAP_ResolvePrivateAddr = GAP_ResolvePrivateAddr L,
      tmos_rand = \<lambda>(x, r). let (key, x) = tmos_rand L x in (key, x, r),
      link_encrypted = \<lambda>h (x, r). link_encrypted L h x,
      task_registered = \<lambda>(x, r). task_registered L x\<rparr>"

text \<open>The wiring of \<open>main\<close>; what the server decides from what it was told are parameters.\<close>

definition firmware :: "u16 \<Rightarrow> 'k gatt_sdk \<Rightarrow> 'w eeprom \<Rightarrow> 'x gap_sdk \<Rightarrow> (server_call list \<Rightarrow> bool) \<Rightarrow> (server_call list \<Rightarrow> u32)
    \<Rightarrow> (server_call list \<Rightarrow> bool) \<Rightarrow> ('k, 'w, 'x \<times> radio, server_call list) central_port" where
  "firmware mtu S M L demand session reconnect =
     \<lparr>cp_adapter = \<lparr>RBP_ATT_MTU = mtu, RBP_SIMULATOR = False,
        p_gatt = \<lambda>op w. let (rc, g) = k_gatt S op (dg_gatt w) in (rc, w\<lparr>dg_gatt := g\<rparr>),
        p_server = hear, p_voice_wanted = \<lambda>w. demand (dg_server w), p_capture_session = \<lambda>w. session (dg_server w)\<rparr>,
      cp_gatt = S, cp_eeprom = M, cp_gap = watched L, cp_should_reconnect = reconnect\<rparr>"

interpretation lib: radio_library "firmware mtu S M L demand session reconnect" snd for mtu S M L demand session reconnect
  by unfold_locales (auto simp: firmware_def watched_def view_def Let_def split: prod.splits)

interpretation dongle: dongle_world "nest script (firmware mtu S M L demand session reconnect) n" snd
  for script n mtu S M L demand session reconnect
  by (rule nest_world [OF lib.radio_library_axioms])

definition power_on :: "('k, 'w, 'x \<times> radio, server_call list) central_port \<Rightarrow> fault_state \<Rightarrow> 'k gatt \<Rightarrow> 'w board \<Rightarrow> usb \<Rightarrow> 'x
    \<Rightarrow> ('k, 'w, 'x \<times> radio, server_call list) sys" where
  "power_on P fl g b u x =
     (let w = \<lparr>dg_central = central_boot fl, dg_gatt = g, dg_board = b, dg_usb = u, dg_gap = (x, R_idle), dg_server = [],
               wch_now_ms = 0, prev_ticks = 0, tick_remainder = 0\<rparr>
      in wch_central_init P (rc003_adapter_init (cp_adapter P) (rc003_atvv_init fl (adapter_zero w))))"

text \<open>What happens to the firmware: an event or a change of the library, a task that runs, a change of the USB link. An event
  that cannot occur is left out.\<close>

datatype 'x stimulus =
    Gap_event gap_event 'x
  | Library 'x
  | Passcode u16 u8 u8
  | Pair_state u16 u8 u8
  | Central_task u16 "gatt_msg option option"
  | Server_task u32
  | Usb_change usb

fun dongle_step :: "('k, 'w, 'x \<times> radio, server_call list) central_port \<Rightarrow> 'x stimulus
    \<Rightarrow> ('k, 'w, 'x \<times> radio, server_call list) sys \<Rightarrow> ('k, 'w, 'x \<times> radio, server_call list) sys" where
  "dongle_step P (Gap_event e x) s =
     (case lands e (snd (dg_gap (world (env s)))) of None \<Rightarrow> s
      | Some r \<Rightarrow> wc_event_cb P e (wupd (\<lambda>w. w\<lparr>dg_gap := (x, r)\<rparr>) s))"
| "dongle_step P (Library x) s = wupd (\<lambda>w. w\<lparr>dg_gap := (x, snd (dg_gap w))\<rparr>) s"
| "dongle_step P (Passcode h i out) s = wc_passcode_cb P h i out s"
| "dongle_step P (Pair_state h state status) s = wc_pair_state_cb P h state status s"
| "dongle_step P (Central_task evs msg) s = snd (process P evs msg s)"
| "dongle_step P (Server_task ticks) s = srv_event P ticks s"
| "dongle_step P (Usb_change u) s = wupd (\<lambda>w. w\<lparr>dg_usb := u\<rparr>) s"

lemma dongle_step_fine:
  assumes "dongle_world P snd" and "held (radio_ok snd False True) s"
  shows "held (radio_ok snd False True) (dongle_step P st s)"
proof (cases st)
  case (Gap_event e x)
  then show ?thesis
    using dongle_world.event_ok [OF assms, of e] assms(2) by (auto split: option.split)
next
  case (Library x)
  have "quiet snd s (dongle_step P st s)" unfolding Library by (simp, rule quietI) (simp add: view_def Let_def)
  then show ?thesis by (rule dongle_world.ok_quiet [OF assms])
next
  case (Usb_change u)
  have "quiet snd s (dongle_step P st s)" unfolding Usb_change by (simp, rule quietI) (simp add: view_def)
  then show ?thesis by (rule dongle_world.ok_quiet [OF assms])
qed (simp_all add: dongle_world.process_fine [OF assms] dongle_world.srv_event_fine [OF assms]
    dongle_world.passcode_ok [OF assms] dongle_world.pair_state_ok [OF assms])

lemma power_on_fine:
  assumes "dongle_world P snd"
  shows "held (radio_ok snd False True) (power_on P fl g b u x)"
  unfolding power_on_def Let_def
  by (intro dongle_world.init_fine [OF assms] dongle_world.reset_ok [OF assms])
    (simp add: held_def rc003_atvv_init_def adapter_zero_def radio_ok_def view_def Let_def central_boot_def)

lemma run_fine:
  assumes "dongle_world P snd"
  shows "held (radio_ok snd False True) (fold (dongle_step P) sts (power_on P fl g b u x))"
proof -
  have "held (radio_ok snd False True) s \<Longrightarrow> held (radio_ok snd False True) (fold (dongle_step P) sts s)" for s
    by (induction sts arbitrary: s) (simp_all add: dongle_step_fine [OF assms])
  then show ?thesis using power_on_fine [OF assms] by blast
qed

end
