(* ===== verification/Central_Facts.thy ===== *)
theory Central_Facts
  imports Central_World
begin

text \<open>
  Properties of the connection manager and the server task: the manager and the radio after any history, the candidates
  that are reported, and the clock.
\<close>

section \<open>Names\<close>

declare name_loop.simps [simp del]

lemma name_cont_utf8: "name_cont cp bs = utf8_cont cp bs"
  by (induction bs arbitrary: cp) (simp_all add: unsigned_and_eq)

lemma name_lead_utf8: "name_lead b = Some (cp, k) \<Longrightarrow> \<not> b < 0x80 \<Longrightarrow> utf8_lead b = Some (cp, k - 1) \<and> 2 \<le> k \<and> k \<le> 4"
  unfolding name_lead_def utf8_lead_def byte_class
  by (auto simp: word_le_nat_alt word_less_nat_alt unsigned_and_eq split: if_splits)

lemma name_range_utf8: "\<not> name_bad k cp \<Longrightarrow> 2 \<le> k \<Longrightarrow> k \<le> 4 \<Longrightarrow> \<not> utf8_range_bad (k - 1) cp"
  by (auto simp: name_bad_def utf8_range_bad_def not_less)

lemma name_char_valid:
  assumes "name_char p = Some k" and "p \<noteq> []"
  shows "utf8_valid (take k p @ q) = utf8_valid q"
proof (cases p)
  case (Cons b bs)
  obtain cp0 cp where l: "name_lead b = Some (cp0, k)" and len: "k \<le> length p"
    and c: "name_cont cp0 (take (k - 1) bs) = Some cp" and r: "\<not> name_bad k cp"
    using assms(1) Cons by (auto simp: name_char_def split: option.splits if_splits)
  show ?thesis
  proof (cases "b < 0x80")
    case True
    then have "k = 1" "b \<noteq> 0" using l by (auto simp: name_lead_def word_le_nat_alt word_less_nat_alt split: if_splits)
    then show ?thesis using True Cons by simp
  next
    case False
    note u = name_lead_utf8 [OF l False]
    have "b \<noteq> 0" using False by auto
    moreover have "take k p @ q = b # (take (k - 1) bs @ q)" using u Cons by (cases k) auto
    moreover have "length (take (k - 1) bs) = k - 1" using len Cons by simp
    ultimately show ?thesis
      using False u c r name_range_utf8 [OF r] by (auto simp: name_cont_utf8)
  qed
qed (use assms in simp)

lemma name_skip: "48 \<le> i \<Longrightarrow> name_loop p i w out \<in> {(0, out), (w, out[w := 0])}"
  by (induction p i w out rule: name_loop.induct) (subst name_loop.simps, auto split: option.split)

lemma name_loop_text:
  assumes "name_loop p w w out = (n, arr)" and "length out = 48" and "w \<le> 47"
  shows "length arr = 48 \<and> n \<le> 47 \<and> (n = 0 \<or> arr ! n = 0 \<and> (\<exists>m. take n arr = take w out @ take m p \<and> utf8_valid (take m p)))"
  using assms
proof (induction "length p" arbitrary: p w out rule: less_induct)
  case less
  have stop: "length (out[w := 0]) = 48 \<and> w \<le> 47 \<and> out[w := 0] ! w = 0 \<and> take w (out[w := 0]) = take w out @ take 0 p"
    using less.prems by simp
  show ?case
  proof (cases "p = [] \<or> name_char p = None")
    case True
    then show ?thesis using less.prems stop by (subst (asm) name_loop.simps) (auto split: if_splits intro: exI [of _ 0])
  next
    case False
    then obtain k where k: "name_char p = Some k" "p \<noteq> []" by auto
    note kr = name_char_range [OF k]
    show ?thesis
    proof (cases "w + k < 48")
      case True
      define out' where "out' = memcpy_at out w (take k p)"
      have "name_loop (drop k p) (w + k) (w + k) out' = (n, arr)"
        using less.prems k True by (subst (asm) name_loop.simps) (simp add: out'_def)
      moreover have o: "length out' = 48" "take (w + k) out' = take w out @ take k p"
        using less.prems True kr by (auto simp: out'_def memcpy_at_def)
      ultimately have ih: "length arr = 48 \<and> n \<le> 47 \<and> (n = 0 \<or> arr ! n = 0
          \<and> (\<exists>m. take n arr = take (w + k) out' @ take m (drop k p) \<and> utf8_valid (take m (drop k p))))"
        using less.hyps [of "drop k p" "w + k" out'] kr True k by auto
      have "take k p @ take m (drop k p) = take (k + m) p" for m by (simp add: take_add)
      then show ?thesis using ih o(2) name_char_valid [OF k] by (metis append_assoc)
    next
      case False
      have "name_loop p w w out = name_loop (drop k p) (w + k) w out"
        using False k by (subst name_loop.simps) simp
      then have "(n, arr) \<in> {(0, out), (w, out[w := 0])}"
        using name_skip [of "w + k" "drop k p" w out] False less.prems by simp
      then show ?thesis using stop less.prems by (auto intro: exI [of _ 0])
    qed
  qed
qed

section \<open>The clock\<close>

definition clock_at :: "nat \<Rightarrow> ('k, 'w, 'x, 'v) dongle \<Rightarrow> bool" where
  "clock_at T w \<longleftrightarrow> prev_ticks w = of_nat T \<and> wch_now_ms w = of_nat (T * 625 div 1000) \<and> tick_remainder w = of_nat (T * 625 mod 1000)"

lemma clock_step_at:
  assumes "clock_at T w" and "T \<le> U" and "U < T + 2 ^ 32"
  shows "clock_at U (clock_step (of_nat U) w)"
proof -
  have d: "unat (of_nat U - of_nat T :: u32) = U - T"
    unfolding of_nat_diff [OF assms(2), symmetric] unat_of_nat by (rule mod_less) (use assms(2,3) in simp)
  have r: "unat (of_nat (T * 625 mod 1000) :: u32) = T * 625 mod 1000"
    by (simp add: unat_of_nat take_bit_nat_eq_self)
  have e: "(U - T) * 625 + T * 625 mod 1000 + 1000 * (T * 625 div 1000) = U * 625"
    using assms(2) diff_mult_distrib [of U T 625] mult_le_mono1 [OF assms(2), of 625] mult_div_mod_eq [of 1000 "T * 625"] by linarith
  define x where "x = (U - T) * 625 + T * 625 mod 1000"
  have "U * 625 div 1000 = T * 625 div 1000 + x div 1000" "U * 625 mod 1000 = x mod 1000"
    unfolding e [symmetric] x_def [symmetric] by simp_all
  then show ?thesis
    using assms(1) by (simp add: clock_at_def clock_step_def Let_def d r x_def [symmetric])
qed

lemma clock_run_at:
  "clock_at T w \<Longrightarrow> successively (\<lambda>a b. a \<le> b \<and> b < a + 2 ^ 32) (T # Us) \<Longrightarrow>
   clock_at (last (T # Us)) (fold clock_step (map of_nat Us) w)"
proof (induction Us arbitrary: T w)
  case (Cons U Us)
  then show ?case using clock_step_at [of T w U] Cons.IH [of U "clock_step (of_nat U) w"] by simp
qed simp

section \<open>Properties\<close>

text \<open>C8: The connection manager keeps in step with the radio. Whatever the library answers and reports, whatever the bonds and the EEPROM
  hold, whatever the server does through the backend in response to any call (to any depth; the two calls that only store a message or the
  list of codecs get no response, as in the code), in whatever state that leaves the adapter, and whenever the tasks run: the
  radio does what the state of the manager says, and no procedure is ever requested while another one runs. A connection
  handle is kept exactly while there is a link; a connection waits only for the end of a scan; with a broken bond no
  reconnection is attempted; the backoff stays within its table and the candidates within theirs.
\<close>

theorem central_in_step:
  "let P = nest script (firmware mtu S M L demand session reconnect) n;
       s = fold (dongle_step P) sts (power_on P fl g b u x); c = cen s
   in snd (dg_gap (world (env s))) = wants (wc_state c) (wc_conn c)
      \<and> (wc_conn c = GAP_CONNHANDLE_INIT \<longleftrightarrow> wc_state c \<notin> {WC_CONNECTED, WC_DISCONNECTING})
      \<and> (wc_next c = NEXT_NONE \<or> wc_state c = WC_SCAN_STOPPING)
      \<and> \<not> (security_blocked c \<and> wc_next c \<noteq> NEXT_NONE)
      \<and> \<not> (security_blocked c \<and> wc_state c \<in> {WC_RESOLVE, WC_CONNECTING})
      \<and> wc_backoff c \<le> 2 \<and> length (wc_candidates c) \<le> MAX_CAND"
proof -
  define P where "P = nest script (firmware mtu S M L demand session reconnect) n"
  define s where "s = fold (dongle_step P) sts (power_on P fl g b u x)"
  have "held (radio_ok snd False True) s"
    unfolding s_def P_def by (rule run_fine [OF dongle.dongle_world_axioms])
  then have "view_ok False True (view snd (world (env s)))" by (simp add: held_def radio_ok_def)
  then show ?thesis
    unfolding Let_def P_def [symmetric] s_def [symmetric] by (auto simp: view_def Let_def cen_def)
qed

text \<open>C28: What the server is told of a candidate is well formed, whatever name was advertised: the name has at most 47
  bytes and ends with a zero in its array of 48, it is valid UTF-8, it is a beginning of the advertised name or one of the default
  names, and a candidate that is reported for the first time has one.
\<close>

theorem candidate_well_formed:
  "let c = scan_candidate fresh i support hid rssi
             (case nm of None \<Rightarrow> (0, replicate 48 0) | Some p \<Rightarrow> candidate_name (replicate 48 0) p);
       text = take (unat (ca_name_len c)) (ca_name c)
   in length (ca_name c) = 48 \<and> ca_name_len c \<le> 47 \<and> ca_name c ! unat (ca_name_len c) = 0 \<and> utf8_valid text
      \<and> \<not> (fresh \<and> text = []) \<and> ((\<exists>p m. nm = Some p \<and> text = take m p) \<or> text = [] \<or> text = default_name support hid)"
proof -
  obtain n arr where na: "(case nm of None \<Rightarrow> (0, replicate 48 0) | Some p \<Rightarrow> candidate_name (replicate 48 0) p) = (n, arr)"
    by fastforce
  have t: "length arr = 48 \<and> n \<le> 47 \<and> (n = 0 \<or> arr ! n = 0 \<and> (\<exists>p m. nm = Some p \<and> take n arr = take m p \<and> utf8_valid (take m p)))"
    using na name_loop_text [of _ 0 "replicate 48 0" n arr] by (cases nm) (auto simp: candidate_name_def)
  have d: "0 < length (default_name support hid) \<and> length (default_name support hid) < 47 \<and> utf8_valid (default_name support hid)"
    by (simp add: default_name_def cstr_def utf8_lead_def)
  have u: "m \<le> 47 \<Longrightarrow> unat (of_nat m :: u8) = m" for m
    by (simp add: unat_of_nat take_bit_nat_eq_self)
  have l: "m \<le> 47 \<Longrightarrow> (of_nat m :: u8) \<le> 47" for m
    using u [of m] by (simp add: word_le_nat_alt)
  show ?thesis
  proof (cases "n = 0")
    case False
    then show ?thesis using t u l unfolding scan_candidate_def na Let_def by auto
  next
    case True
    then show ?thesis
      using t d u l unfolding scan_candidate_def na Let_def
      by (auto simp: memcpy_at_def nth_append)
  qed
qed

text \<open>C29: The clock does not drift. However often the task runs, as long as less than two to the power of 32 ticks of 625
  microseconds (31 days) pass between two runs, the clock shows the milliseconds that have passed since the start,
  rounded down, modulo its width, although the counter it is read from wraps around.
\<close>

theorem clock_exact:
  assumes "successively (\<lambda>a b. a \<le> b \<and> b < a + 2 ^ 32) (0 # ticks)"
  shows "wch_now_ms (fold clock_step (map of_nat ticks) (w\<lparr>wch_now_ms := 0, prev_ticks := 0, tick_remainder := 0\<rparr>))
    = of_nat (last (0 # ticks) * 625 div 1000)"
  using clock_run_at [OF _ assms, of "w\<lparr>wch_now_ms := 0, prev_ticks := 0, tick_remainder := 0\<rparr>"] by (simp add: clock_at_def)

theorem clock_exact_witness:
  "\<forall>w :: (unit, unit, unit, unit) dongle. wch_now_ms (fold clock_step (map of_nat [3, 7, 0xFFFFFFFF, 0x100000001])
     (w\<lparr>wch_now_ms := 0, prev_ticks := 0, tick_remainder := 0\<rparr>)) = 2684354560"
proof
  fix w :: "(unit, unit, unit, unit) dongle"
  show "wch_now_ms (fold clock_step (map of_nat [3, 7, 0xFFFFFFFF, 0x100000001])
      (w\<lparr>wch_now_ms := 0, prev_ticks := 0, tick_remainder := 0\<rparr>)) = 2684354560"
    using clock_exact [of "[3, 7, 0xFFFFFFFF, 0x100000001]" w] by simp
qed

end
