(* ===== verification/Spec2Isabelle.thy ===== *)
theory Spec2Isabelle
  imports Tlv Trace Faults Device_Model Decoder Rbp_Input Report_Map
    Server_Facts Server_Queue_Facts Server_Request_Facts Server_Audio_Facts
    Atvv_Facts Adapter_Cache_Facts Adapter_Facts
    Board_Store Gatt_Adapter Usb_Facts Central_Facts
begin

text \<open>
  \<^bold>\<open>Verification of the RBP USB bridge.\<close>

  The program is the firmware of a USB dongle that pairs with a Bluetooth LE remote control and carries
  its keys and its microphone to a host over the protocol RBP/3.0, with the host's C client. Its parts
  are the wire protocol (\<open>src/protocol\<close>), the product server with fault log and device catalogs
  (\<open>src/firmware/product\<close>), the adapters that speak to the remote (\<open>src/firmware/adapters\<close>), the
  debug trace (\<open>src/firmware/debug\<close>), the board support (\<open>src/firmware/wch\<close>), and the decoder and key
  reducer of the client (\<open>src/client/c\<close>). Bytes from USB go through the receive state machine into the
  server, which answers requests and queues events; its output queues are merged, framed and numbered
  into a ring that drains to USB; the host runs the same frame code and feeds audio and key events to
  the decoder and the reducer.

  \<^bold>\<open>Theories, in the order of their dependencies.\<close>
  \<^item> \<open>Prelude\<close>: byte and word types, little-endian bytes, \<open>memcpy\<close> into a list. \<open>Ring\<close>: an array with head and
    count seen as a list, and the contract \<open>bounded_fifo\<close> of a queue, interpreted by the trace ring.
  \<^item> \<open>Defs\<close>: the constants of \<open>defs.h\<close>. \<open>Crc32c\<close>, \<open>Cobs\<close>, \<open>Frame\<close>: \<open>rbp_frame.c\<close>. The checksum is polynomial
    division and detects bursts; COBS round-trips, in place as well; the header round-trips; the
    receiver refines a byte-at-a-time reference under any chunking, delivers what was sent and
    resynchronises after one delimiter.
  \<^item> \<open>Tlv\<close>: \<open>rbp_tlv.c\<close>. Reader, typed getters, writer and UTF-8 check, with exact acceptance and round
    trips.
  \<^item> \<open>Trace\<close>, \<open>Faults\<close>, \<open>Device_Model\<close>: \<open>trace.c\<close>, \<open>faults.c\<close>, \<open>device_model.c\<close>.
  \<^item> \<open>Report_Map\<close>: the HID descriptor parser and report decoder of \<open>adapters/hogp/report_map.c\<close>.
  \<^item> \<open>Audio\<close>, \<open>Decoder\<close>, \<open>Rbp_Input\<close>: audio types, \<open>ima_decoder.c\<close> and \<open>rbp_decoder.c\<close>, \<open>rbp_input.c\<close>. Any calls of the
    decoder, refused ones and null pointers included, give the samples of the whole stream; no key stays pressed.
  \<^item> \<open>Server_State\<close>, \<open>Server_Voice\<close>, \<open>Server_Link\<close>, \<open>Server_Requests\<close>: \<open>rbp_server.c\<close>. The record \<open>rbp_server\<close> is
    the C structure with its members; there is one function per C function, with the long ones
    (\<open>rbp_server_on_voice\<close>, \<open>rbp_server_tick\<close>, \<open>dispatch_request\<close>) cut along their cases. Radio backend,
    store, transport and random source are the record \<open>server_env\<close>.
  \<^item> \<open>Server_Queues\<close>, \<open>Server_Media\<close>: the byte ring, the control queue in its shared pool, and the media queue
    in its two circular buffers, against lists.
  \<^item> \<open>Server_Inv\<close>, \<open>Server_Safe\<close>, \<open>Server_Calls\<close>: the invariant \<open>srv_inv\<close>, the contract \<open>server_wiring\<close> of what
    the server is wired to, the proof that every function keeps the invariant, the calls of
    \<open>rbp_server.h\<close> as a datatype with the reachable states, and the closure of the contract under
    backends that call the server back, nested to any depth.
  \<^item> \<open>Server_Out\<close>, \<open>Server_World\<close>: the queues as lists of messages, what a flush moves to the wire, progress
    under a transport that accepts as long as sequence numbers are left (\<open>logged_wiring\<close>, \<open>open_wiring\<close>), and the concrete wiring that interprets
    these contracts with the buffer sizes of the firmware.
  \<^item> \<open>Server_Facts\<close>, \<open>Server_Queue_Facts\<close>, \<open>Server_Request_Facts\<close>, \<open>Server_Audio_Facts\<close>: the properties of the
    server: its invariant, progress and conservation of the queues, sessions and heartbeat, the control queue as a FIFO, the key
    queue event by event, the paged lists through the dispatcher of requests, and the fragments of a voice unit.
  \<^item> \<open>Atvv\<close>, \<open>Atvv_Facts\<close>: the ATVV 1.0 engine \<open>rc003_atvv.c\<close>. Its sink of callbacks is a parameter, and
    the locale \<open>capture_sink\<close> says what is relied on. Whatever the remote sends, the callbacks
    follow the order begin, start, data, end of a capture automaton, and a dropped capture is closed.
  \<^item> \<open>Adapter_State\<close>, \<open>Adapter_Runtime\<close>, \<open>Adapter\<close>, \<open>Adapter_Events\<close>: \<open>rc003_adapter.c\<close> with
    \<open>unicom_runtime.inc\<close> and \<open>unicom_profile.inc\<close>. The structure is the record \<open>rc003_adapter\<close>, which extends the
    engine's record as the C structure contains it; the GATT client is a function from submitted procedures to
    return codes, the server a function from calls of its header to state changes. The recursion between
    \<open>begin_next\<close> and \<open>handle_op_failure\<close> is one loop, which terminates by the order of the
    discovery states and the report characteristics left.
  \<^item> \<open>Adapter_Cache\<close>, \<open>Adapter_Cache_Facts\<close>: \<open>cache.inc\<close>. Import restores the attribute database that was exported exactly when its
    profile can be recognised from it, and a rejected image leaves the adapter as it was or freshly initialised.
  \<^item> \<open>Adapter_Inv\<close>, \<open>Adapter_Safe\<close>, \<open>Adapter_World\<close>, \<open>Adapter_Keeps\<close>, \<open>Adapter_Facts\<close>: the invariant of the adapter (array bounds,
    the engine's invariant, pre-roll queue, current characteristic), the contract \<open>adapter_server\<close> of the server it calls,
    the proof that every entry point keeps the invariant for any events, the
    concrete ports that interpret the contract (one records the calls, one reacts as the product server
    does through its backend, by stopping the microphone and, outside the voice stream, closing the link), and the bound
    on the duration of an initialisation. \<open>Adapter_Keeps\<close> shows without the invariant, for a server that does to the adapter what it likes,
    that the adapter keeps what its GATT client and its server keep of the surroundings (locale \<open>adapter_keeps\<close>, interpreted by the
    connection manager).
  \<^item> \<open>Board\<close>, \<open>Board_Facts\<close>, \<open>Board_Store\<close>: the bond journal and the attribute cache in EEPROM pages, \<open>board.c\<close> with
    \<open>cache_store.inc\<close>. The statics are the record \<open>board\<close>, the EEPROM driver is a parameter, and the locales \<open>data_flash\<close>
    and \<open>sound_flash\<close> say what is relied on: an erase sets bits, a write clears bits, a failed call may stop anywhere. A committed record
    survives any calls and power losses, saving is atomic, and what was saved is read back.
  \<^item> \<open>Gatt\<close>, \<open>Gatt_Facts\<close>, \<open>Gatt_Adapter\<close>: the GATT client \<open>wch_gatt.c\<close>. The vendor library is a parameter, with the locale
    \<open>gatt_library\<close> for the procedure it runs and \<open>gatt_user\<close> for a layer above that submits from the callbacks. The
    client keeps in step with the library, and long values arrive whole. \<open>Gatt_Adapter\<close> runs the client under the adapter.
  \<^item> \<open>Usb_Cdc\<close>, \<open>Usb_Facts\<close>: the USB interrupt handler, control transfers and byte rings of \<open>usb_cdc.c\<close>. The registers are fields of
    the record \<open>usb\<close>; an interrupt or a call with the interrupt masked is one step.
  \<^item> \<open>Central\<close>, \<open>Central_Inv\<close>, \<open>Central_Backend\<close>, \<open>Central_Events\<close>, \<open>Central_World\<close>, \<open>Central_Facts\<close>: the connection manager
    \<open>wch_central.c\<close> and the server task of \<open>main.c\<close>. The statics are the record \<open>central\<close>; with GATT client, board, USB link
    and library state they are the world of the adapter, so that the firmware is one state. The locale
    \<open>radio_library\<close> says what is relied on of the GAP library, \<open>dongle_world\<close> adds the server, which may call the backend from within
    any call; \<open>Central_World\<close> interprets both, for a library that is only watched and a server that calls any functions of the backend from within its calls (except the two that only store a value), to any depth
    of nesting (the argument of \<open>nest\<close>, which is universally quantified). The manager keeps in step with the radio, what it
    reports of candidates is well formed, and the clock does not drift.
  \<^item> This theory: the composition of the server's output with the host's receiver.

  \<^bold>\<open>Conventions.\<close> C structures are records, enumerations datatypes, fixed-width integers words; array
  positions and lengths are natural numbers that the invariants keep below the array sizes. A pointer
  with a length is a list; a pointer that may be null is an option. Loops are recursive functions with
  termination proofs, without fuel; \<open>fetch_pages\<close>, a client of the server, is given the list of its requests, and one per entry
  is shown to be enough. Errors are values of sum or option types, callbacks are returned as lists of
  events or are functions of the whole state. The release build is modelled: \<open>RBP_DEBUG\<close> is undefined.

  \<^bold>\<open>Not modelled.\<close> The set-up of clocks and peripherals in \<open>main\<close> and the scheduler and the Bluetooth library of the vendor, which are
  parameters; the trace of the debug build; the simulator, a test double with
  sockets; the ICO codec, floating-point code over a third-party library, which is a parameter of
  \<open>Decoder\<close>. The trace calls of the debug build are left out of the adapter. The build options of the adapter
  (\<open>RBP_ATT_MTU\<close>, \<open>RBP_SIMULATOR\<close>) are fields of its port; a GATT procedure does not call the adapter back before it
  returns, as \<open>gatt_client.h\<close> states.
\<close>

section \<open>From the server's queues to the host\<close>

lemma frame_arrives_at:
  assumes "length body \<le> RBP_MAX_PAYLOAD"
  shows "frame_arrives (h, seq, body) (map (Pair t) (frame_wire (h, seq, body)))"
proof -
  have "frame_wire (h, seq, body) \<noteq> []" using assms by (simp add: rbp_frame_encode_wire)
  then show ?thesis
    using assms by (auto simp: in_time_def hd_map comp_def)
qed

lemma numbered_arrive:
  "\<forall>m \<in> set ms. length (snd m) \<le> RBP_MAX_PAYLOAD \<Longrightarrow>
   list_all2 frame_arrives (numbered n ms) (map (\<lambda>f. map (Pair t) (frame_wire f)) (numbered n ms))"
  by (induction n ms rule: numbered.induct) (auto simp: frame_arrives_at simp del: frame_wire.simps frame_arrives.simps)

lemma timed_chunks: "timed_bytes (map (Pair t) chunks) = map (Pair t) (concat chunks)"
  by (simp add: timed_bytes_def map_concat comp_def)

text \<open>C1: end to end, from the queues of the server to the host. Let a server whose output ring is empty, and whose
  session has sequence numbers left for the queued messages, flush its queues to a transport that takes its packets, and let a host whose receiver is idle get the
  bytes that this adds, at one time but cut into chunks in any way. The host then receives every queued
  key event in order, every queued media frame in order and every queued control message, each as a
  frame with matching CRC, with consecutive sequence numbers, and nothing else. (Sequence numbers are left when the
  counter is neither 0, as before the first HELLO, nor within the number of queued messages of its end; otherwise the
  flush ends the session and discards the queues, and the host receives nothing of them.)\<close>

theorem queues_reach_host:
  assumes "open_wiring E tx_log" and "srv_inv E s" and "seq_left (s_txseq s) (queued s)" and "s_out_len s = 0"
    and "s' = (rbp_server_flush_output E ^^ Suc (queued s)) s"
    and "tx_log (s_world s) @ concat chunks = tx_log (s_world s')"
    and "rx_inv p" and "rx_st p = RXS_IDLE"
  shows "\<exists>xs. snd (rx_session p (map (Pair t) chunks) ctx []) = map frame_item (numbered (s_txseq s) (map snd xs))
    \<and> from_queue F_key xs = key_msgs s \<and> from_queue F_media xs = media_msgs s
    \<and> mset (from_queue F_ctl xs) = ctl_mset s"
proof -
  obtain xs where m: "moves tx_log s xs s'" and e: "queued s' = 0" "s_out_len s' = 0"
    using open_wiring.flush_all [OF assms(1-3) order_refl] assms(5) by blast
  let ?fs = "numbered (s_txseq s) (map snd xs)"
  have empty: "key_msgs s' = []" "media_msgs s' = []" "ctl_mset s' = {#}" "pending s' = []" "pending s = []"
    using e assms(4) queued_msgs [of s'] by (simp_all add: pending_def)
  then have bytes: "concat chunks = concat (map frame_wire ?fs)"
    using m assms(6) by (auto simp: moves_def wire_of_def)
  have "\<forall>m \<in> set (map snd xs). length (snd m) \<le> RBP_MAX_PAYLOAD"
    using m by (auto simp: moves_def)
  note arrive = ref_frames_arrive [OF numbered_arrive [OF this], of "[]" t "s_txseq s"]
  obtain p' log' where r: "rx_session p (map (Pair t) chunks) ctx [] = (p', log')"
    by (cases "rx_session p (map (Pair t) chunks) ctx []")
  have "(rx_abs p', log') = (Ref_idle, map frame_item ?fs)"
    using session_ref [OF assms(7) r] arrive assms(8)
    by (simp add: rx_abs_def timed_chunks bytes map_concat comp_def)
  then show ?thesis
    using m empty r by (intro exI [of _ xs]) (auto simp: moves_def)
qed

theorem queues_reach_host_witness:
  "\<exists>m. snd (rx_session sample_parser
       [(5, bw_sent (s_world ((rbp_server_flush_output bridge_env ^^ 2) demo_keys)))] sample_ctx [])
     = [frame_item (fst m, 1, snd m)] \<and> key_msgs demo_keys = [m]"
proof -
  let ?s' = "(rbp_server_flush_output bridge_env ^^ Suc (queued demo_keys)) demo_keys"
  have q: "Suc (queued demo_keys) = 2" by (simp add: demo_keys_queue)
  have l: "seq_left (s_txseq demo_keys) (queued demo_keys)" by (simp add: demo_keys_queue seq_left_def)
  have o: "s_out_len demo_keys = 0"
    by (simp add: demo_keys_def rbp_server_on_keys_def keys_emit_def key_push_def next_order_def Let_def)
  have w: "bw_sent (s_world demo_keys) @ concat [bw_sent (s_world ?s')] = bw_sent (s_world ?s')"
    by (simp add: demo_keys_queue demo_world_def)
  obtain xs where xs: "snd (rx_session sample_parser (map (Pair 5) [bw_sent (s_world ?s')]) sample_ctx [])
      = map frame_item (numbered 1 (map snd xs))" "from_queue F_key xs = key_msgs demo_keys"
      "from_queue F_media xs = []" "from_queue F_ctl xs = []"
    using queues_reach_host [OF bridge.open_wiring_axioms demo_keys_inv l o refl w sample_parser_inv, of 5 sample_ctx]
    by (auto simp: demo_keys_queue)
  have "length xs = 1" using length_queues [of xs] xs(2-4) by (simp add: demo_keys_queue)
  then obtain x where x: "xs = [x]" by (auto simp: length_Suc_conv)
  moreover have "fst x = F_key" using xs(3,4) x by (cases "fst x") (auto simp: from_queue_def)
  ultimately have "key_msgs demo_keys = [snd x]" using xs(2) by (simp add: from_queue_def)
  then show ?thesis
    using xs(1) x unfolding q by (cases x) auto
qed

end
